(* ===== verification/Prelude.thy ===== *)
theory Prelude
  imports Complex_Main "HOL-Library.Product_Lexorder" "HOL-Library.List_Lexorder" "HOL-Library.Char_ord"
begin

text \<open>
  The prelude of the development: the scalar types every component shares, the result type of
  operations that can be refused, the operations of a table (a list of rows), Python's
  \<^verbatim>\<open>max(..., key=...)\<close> and half-open ranges of integers.
\<close>

section \<open>Scalars\<close>

text \<open>
  A UUID is its 128-bit value: \<^verbatim>\<open>uuid.UUID\<close> compares by it, and the fixed-width lower-case
  hexadecimal text of it sorts in the same order.  A \<^verbatim>\<open>datetime\<close> is the number of
  microseconds since the epoch (Python and PostgreSQL keep no more); the core's instants are
  nanoseconds.  Both are unbounded here, the bounds the code checks are written out.
\<close>

type_synonym uuid = nat
type_synonym datetime = int
type_synonym ns = int

text \<open>JSON values, as the JSONB columns hold them (numbers are integers or exact rationals).\<close>

datatype json =
    JNull
  | JBool bool
  | JInt int
  | JNum rat
  | JStr string
  | JArr "json list"
  | JObj "(string \<times> json) list"

section \<open>Named collections\<close>

named_theorems table_simps \<open>equations of the table operations\<close>
named_theorems result_simps \<open>equations of the result monad\<close>
named_theorems frame_simps \<open>what an operation leaves unchanged\<close>

section \<open>Results\<close>

text \<open>
  A raise or an early refusal is \<open>Inl e\<close>, a normal return \<open>Inr x\<close>.
\<close>

fun rbind :: "'e + 'a \<Rightarrow> ('a \<Rightarrow> 'e + 'b) \<Rightarrow> 'e + 'b" where
  "rbind (Inl e) f = Inl e"
| "rbind (Inr x) f = f x"

definition require :: "bool \<Rightarrow> 'e \<Rightarrow> 'e + unit" where
  "require b e = (if b then Inr () else Inl e)"

definition expect :: "'a option \<Rightarrow> 'e \<Rightarrow> 'e + 'a" where
  "expect x e = (case x of None \<Rightarrow> Inl e | Some v \<Rightarrow> Inr v)"

lemma rbind_eq_Inr [result_simps]: "rbind m f = Inr y \<longleftrightarrow> (\<exists>x. m = Inr x \<and> f x = Inr y)"
  by (cases m) auto

lemma rbind_eq_Inl [result_simps]:
  "rbind m f = Inl e \<longleftrightarrow> m = Inl e \<or> (\<exists>x. m = Inr x \<and> f x = Inl e)"
  by (cases m) auto

lemma require_eq_Inr [simp]: "require b e = Inr u \<longleftrightarrow> b"
  by (simp add: require_def)

lemma require_eq_Inl [simp]: "require b e = Inl e' \<longleftrightarrow> \<not> b \<and> e' = e"
  by (auto simp: require_def)

lemma require_True [simp]: "require True e = Inr ()"
  by (simp add: require_def)

lemma require_False [simp]: "require False e = Inl e"
  by (simp add: require_def)

lemma expect_eq_Inr [simp]: "expect x e = Inr v \<longleftrightarrow> x = Some v"
  by (auto simp: expect_def split: option.splits)

lemma expect_eq_Inl [simp]: "expect x e = Inl e' \<longleftrightarrow> x = None \<and> e' = e"
  by (auto simp: expect_def split: option.splits)

lemma expect_Some [simp]: "expect (Some v) e = Inr v"
  by (simp add: expect_def)

lemma expect_None [simp]: "expect None e = Inl e"
  by (simp add: expect_def)

section \<open>Tables\<close>

text \<open>
  A table is the list of its rows in insertion order.  \<open>update_where\<close> is
  \<^verbatim>\<open>UPDATE ... WHERE\<close>, \<open>delete_where\<close> is \<^verbatim>\<open>DELETE ... WHERE\<close>,
  \<open>List.find\<close> is a query of at most one row.
\<close>

definition update_where :: "('r \<Rightarrow> bool) \<Rightarrow> ('r \<Rightarrow> 'r) \<Rightarrow> 'r list \<Rightarrow> 'r list" where
  "update_where p f t = map (\<lambda>r. if p r then f r else r) t"

definition delete_where :: "('r \<Rightarrow> bool) \<Rightarrow> 'r list \<Rightarrow> 'r list" where
  "delete_where p t = filter (\<lambda>r. \<not> p r) t"

definition uniq_key :: "('r \<Rightarrow> 'k) \<Rightarrow> 'r list \<Rightarrow> bool" where
  "uniq_key k t \<longleftrightarrow> distinct (map k t)"

text \<open>\<^verbatim>\<open>INSERT ... ON CONFLICT (key) DO UPDATE\<close> and \<^verbatim>\<open>... DO NOTHING\<close>.\<close>

definition upsert :: "('r \<Rightarrow> 'k) \<Rightarrow> ('r \<Rightarrow> 'r \<Rightarrow> 'r) \<Rightarrow> 'r \<Rightarrow> 'r list \<Rightarrow> 'r list" where
  "upsert k merge new t =
     (if \<exists>r \<in> set t. k r = k new
      then update_where (\<lambda>r. k r = k new) (\<lambda>old. merge old new) t
      else t @ [new])"

definition insert_missing :: "('r \<Rightarrow> 'k) \<Rightarrow> 'r \<Rightarrow> 'r list \<Rightarrow> 'r list" where
  "insert_missing k new t = (if \<exists>r \<in> set t. k r = k new then t else t @ [new])"

lemma set_update_where [table_simps]:
  "set (update_where p f t) = {r \<in> set t. \<not> p r} \<union> f ` {r \<in> set t. p r}"
  by (auto simp: update_where_def)

lemma in_set_update_where:
  "x \<in> set (update_where p f t) \<longleftrightarrow> (\<exists>r \<in> set t. x = (if p r then f r else r))"
  by (auto simp: update_where_def)

lemma bex_update_where [simp]:
  "(\<exists>x \<in> set (update_where p f t). q x) \<longleftrightarrow> (\<exists>r \<in> set t. q (if p r then f r else r))"
  by (auto simp: update_where_def)

lemma ball_update_where [simp]:
  "(\<forall>x \<in> set (update_where p f t). q x) \<longleftrightarrow> (\<forall>r \<in> set t. q (if p r then f r else r))"
  by (auto simp: update_where_def)

lemma length_update_where [simp]: "length (update_where p f t) = length t"
  by (simp add: update_where_def)

lemma set_delete_where [simp]: "set (delete_where p t) = {r \<in> set t. \<not> p r}"
  by (simp add: delete_where_def)

lemma update_where_id [simp]: "(\<And>r. r \<in> set t \<Longrightarrow> \<not> p r) \<Longrightarrow> update_where p f t = t"
  by (induction t) (auto simp: update_where_def)

lemma map_update_where_same:
  "(\<And>r. r \<in> set t \<Longrightarrow> p r \<Longrightarrow> k (f r) = k r) \<Longrightarrow> map k (update_where p f t) = map k t"
  by (induction t) (auto simp: update_where_def)

lemma uniq_key_Nil [simp]: "uniq_key k []"
  by (simp add: uniq_key_def)

lemma uniq_key_append1 [simp]:
  "uniq_key k (t @ [r]) \<longleftrightarrow> uniq_key k t \<and> (\<forall>x \<in> set t. k x \<noteq> k r)"
proof -
  have "k r \<notin> k ` set t \<longleftrightarrow> (\<forall>x \<in> set t. k x \<noteq> k r)" by (metis imageE imageI)
  then show ?thesis by (auto simp: uniq_key_def)
qed

lemma uniq_key_update_where:
  "uniq_key k t \<Longrightarrow> (\<And>r. r \<in> set t \<Longrightarrow> p r \<Longrightarrow> k (f r) = k r) \<Longrightarrow> uniq_key k (update_where p f t)"
  by (simp add: uniq_key_def map_update_where_same)

lemma uniq_key_delete_where [simp]: "uniq_key k t \<Longrightarrow> uniq_key k (delete_where p t)"
  by (simp add: uniq_key_def delete_where_def distinct_map_filter)

lemma uniq_keyD: "uniq_key k t \<Longrightarrow> r \<in> set t \<Longrightarrow> s \<in> set t \<Longrightarrow> k r = k s \<Longrightarrow> r = s"
  by (auto simp: uniq_key_def distinct_map inj_on_def)

lemma uniq_key_upsert:
  "uniq_key k t \<Longrightarrow> (\<And>r. k r = k new \<Longrightarrow> k (m r new) = k new) \<Longrightarrow> uniq_key k (upsert k m new t)"
proof (cases "\<exists>r \<in> set t. k r = k new")
  case True
  assume u: "uniq_key k t" and m: "\<And>r. k r = k new \<Longrightarrow> k (m r new) = k new"
  have "uniq_key k (update_where (\<lambda>r. k r = k new) (\<lambda>old. m old new) t)"
    by (rule uniq_key_update_where [OF u]) (simp add: m)
  with True show ?thesis by (simp only: upsert_def if_True)
next
  case False
  assume "uniq_key k t"
  with False show ?thesis by (simp add: upsert_def)
qed

lemma uniq_key_insert_missing: "uniq_key k t \<Longrightarrow> uniq_key k (insert_missing k new t)"
  by (auto simp: insert_missing_def)

lemma insert_missing_present: "\<exists>r \<in> set (insert_missing k new t). k r = k new"
  by (auto simp: insert_missing_def)

lemma insert_missing_mono: "set t \<subseteq> set (insert_missing k new t)"
  by (auto simp: insert_missing_def)

lemma filter_uniq: "uniq_key k t \<Longrightarrow> r \<in> set t \<Longrightarrow> filter (\<lambda>x. k x = k r) t = [r]"
proof (induction t)
  case (Cons x t)
  then have u: "uniq_key k t" and "k x \<notin> k ` set t" by (simp_all add: uniq_key_def)
  then have new: "\<forall>y \<in> set t. k y \<noteq> k x" by (metis imageI)
  show ?case
  proof (cases "r = x")
    case True
    have "filter (\<lambda>y. k y = k x) t = []" using new by (simp add: filter_empty_conv)
    with True show ?thesis by simp
  next
    case False
    with Cons.prems(2) new have "r \<in> set t" "k x \<noteq> k r" by auto
    with Cons.IH [OF u] show ?thesis by simp
  qed
qed simp

lemma find_SomeD: "List.find p t = Some r \<Longrightarrow> p r \<and> r \<in> set t"
  by (metis find_Some_iff nth_mem)

lemma find_None_iff': "List.find p t = None \<longleftrightarrow> (\<forall>r \<in> set t. \<not> p r)"
  by (auto simp: find_None_iff)

lemma find_uniq:
  assumes "r \<in> set t" "p r" "\<And>s. s \<in> set t \<Longrightarrow> p s \<Longrightarrow> s = r"
  shows "List.find p t = Some r"
proof (cases "List.find p t")
  case None
  with assms(1,2) show ?thesis by (simp add: find_None_iff')
next
  case (Some s)
  then have "s = r" using assms(3) by (metis find_SomeD)
  with Some show ?thesis by simp
qed

lemma find_key: "uniq_key k t \<Longrightarrow> r \<in> set t \<Longrightarrow> k r = i \<Longrightarrow> List.find (\<lambda>x. k x = i) t = Some r"
  by (rule find_uniq) (auto dest: uniq_keyD)

lemma find_append_cases:
  "List.find p (xs @ ys) = (case List.find p xs of None \<Rightarrow> List.find p ys | Some x \<Rightarrow> Some x)"
  by (induction xs) auto

lemma find_upsert:
  "(\<And>old. k (m old new) = k old) \<Longrightarrow> List.find (\<lambda>r. k r = i) (upsert k m new t) =
   (if i = k new then (case List.find (\<lambda>r. k r = i) t of None \<Rightarrow> Some new | Some old \<Rightarrow> Some (m old new))
    else List.find (\<lambda>r. k r = i) t)"
proof -
  assume m: "\<And>old. k (m old new) = k old"
  have upd: "List.find (\<lambda>r. k r = i) (update_where (\<lambda>r. k r = k new) (\<lambda>old. m old new) t) =
     (if i = k new then map_option (\<lambda>old. m old new) (List.find (\<lambda>r. k r = i) t)
      else List.find (\<lambda>r. k r = i) t)"
    by (induction t) (auto simp: update_where_def m)
  have app: "List.find P (xs @ [x]) = (case List.find P xs of None \<Rightarrow> if P x then Some x else None | Some y \<Rightarrow> Some y)"
    for P :: "'a \<Rightarrow> bool" and xs x by (induction xs) auto
  show ?thesis
  proof (cases "\<exists>r \<in> set t. k r = k new")
    case True
    then show ?thesis by (auto simp: upsert_def upd find_None_iff' split: option.splits)
  next
    case False
    then have "List.find (\<lambda>r. k r = k new) t = None" by (simp add: find_None_iff')
    with False show ?thesis by (auto simp: upsert_def app split: option.splits)
  qed
qed

section \<open>Python's max with a key\<close>

text \<open>\<^verbatim>\<open>max(xs, key=f)\<close> returns the first of the elements with the largest key.\<close>

fun max_by :: "('a \<Rightarrow> 'k::linorder) \<Rightarrow> 'a \<Rightarrow> 'a list \<Rightarrow> 'a" where
  "max_by f best [] = best"
| "max_by f best (x # xs) = max_by f (if f best < f x then x else best) xs"

definition py_max :: "('a \<Rightarrow> 'k::linorder) \<Rightarrow> 'a list \<Rightarrow> 'a option" where
  "py_max f xs = (case xs of [] \<Rightarrow> None | y # ys \<Rightarrow> Some (max_by f y ys))"

lemma max_by_in: "max_by f b xs \<in> set (b # xs)"
proof (induction xs arbitrary: b)
  case Nil
  then show ?case by simp
next
  case (Cons y ys)
  from Cons.IH [of "if f b < f y then y else b"] show ?case by auto
qed

lemma max_by_ge: "x \<in> set (b # xs) \<Longrightarrow> f x \<le> f (max_by f b xs)"
proof (induction xs arbitrary: b x)
  case Nil
  then show ?case by simp
next
  case (Cons y ys)
  let ?b = "if f b < f y then y else b"
  have "f ?b \<le> f (max_by f ?b ys)"
    by (rule Cons.IH) simp
  moreover have "f b \<le> f ?b" "f y \<le> f ?b" by auto
  ultimately show ?case
    using Cons.prems Cons.IH [of x ?b] by (auto intro: order_trans)
qed

lemma py_max_None [simp]: "py_max f xs = None \<longleftrightarrow> xs = []"
  by (simp add: py_max_def split: list.splits)

lemma py_max_in: "py_max f xs = Some m \<Longrightarrow> m \<in> set xs"
  using max_by_in [of f] by (auto simp: py_max_def split: list.splits)

lemma py_max_ge: "py_max f xs = Some m \<Longrightarrow> x \<in> set xs \<Longrightarrow> f x \<le> f m"
  using max_by_ge [of x _ _ f] by (auto simp: py_max_def split: list.splits)

section \<open>Half-open integer ranges\<close>

text \<open>\<open>in_range r t\<close>: the instant \<open>t\<close> lies in the half-open range \<open>r\<close>.\<close>

definition in_range :: "int \<times> int \<Rightarrow> int \<Rightarrow> bool" where
  "in_range r t \<longleftrightarrow> fst r \<le> t \<and> t < snd r"

definition in_some :: "(int \<times> int) list \<Rightarrow> int \<Rightarrow> bool" where
  "in_some rs t \<longleftrightarrow> (\<exists>r \<in> set rs. in_range r t)"

lemma within_pair [simp]: "in_range (a, b) t \<longleftrightarrow> a \<le> t \<and> t < b"
  by (simp add: in_range_def)

lemma in_some_Nil [simp]: "in_some [] t \<longleftrightarrow> False"
  by (simp add: in_some_def)

lemma in_some_Cons [simp]: "in_some (r # rs) t \<longleftrightarrow> in_range r t \<or> in_some rs t"
  by (auto simp: in_some_def)

lemma in_some_append [simp]: "in_some (rs @ ss) t \<longleftrightarrow> in_some rs t \<or> in_some ss t"
  by (auto simp: in_some_def)

lemma in_some_sort [simp]: "in_some (sort rs) t \<longleftrightarrow> in_some rs t"
  by (simp add: in_some_def)

lemma in_some_nonempty [simp]: "in_some (filter (\<lambda>r. fst r < snd r) rs) t \<longleftrightarrow> in_some rs t"
  by (induction rs) (auto simp: in_range_def)

end
