(* ===== verification/Models.thy ===== *)
theory Models
  imports Prelude
begin

text \<open>
  The persistence schema of \<^verbatim>\<open>db/models.py\<close>: one record per table, the columns in
  the order of the class, enumerated text columns as datatypes (their CHECK constraints), JSONB
  objects as association lists, and the database as the record of all tables.  A session of the
  application is bound to one org by row-level security, so a \<open>db\<close> is what one such session
  sees; where the code also filters by org or workspace, the operations do too.
\<close>

section \<open>Enumerated columns\<close>

datatype org_role = OrgOwner | OrgAdmin | OrgMember
datatype workspace_role = WsViewer | WsEditor | WsAdmin
datatype source_type = SrcUpload | SrcCsvDir | SrcPiWebApi | SrcOpcUa | SrcSynthetic
datatype series_kind = KindMeasurement | KindCounter | KindSetpoint | KindStatus
datatype run_trigger = TrigUpload | TrigSuite | TrigManual
datatype run_status = RunQueued | RunRunning | RunSucceeded | RunFailed
datatype finding_status = FOpen | FAcked | FMuted | FResolved
datatype group_kind = Related | Redundant | Balance
datatype member_role = RoleMember | RoleInput | RoleOutput
datatype sign_in_method = Google | Github | Passkey
datatype email_status = MailNotConfigured | MailQueued | MailSent | MailFailed
datatype fetch_trigger = FManual | FPoll | FRun | FCheck | FSearch | FMetadata | FIngest
datatype fetch_status = FetchQueued | FetchRunning | FetchSucceeded | FetchPartial | FetchFailed
datatype file_status = FileIngested | FileFailed
datatype health_status = HUnknown | HOk | HDegraded | HFailing

type_synonym jobj = "(string \<times> json) list"

section \<open>Orgs, users and who holds which role\<close>

record org =
  og_id :: uuid
  og_name :: string
  og_created_at :: datetime

record workspace =
  ws_id :: uuid
  ws_org_id :: uuid
  ws_name :: string
  ws_timezone :: string
  ws_created_at :: datetime

record user =
  us_id :: uuid
  us_email :: string
  us_display_name :: string
  us_created_at :: datetime
  us_disabled_at :: "datetime option"

record org_membership =
  om_org_id :: uuid
  om_user_id :: uuid
  om_role :: org_role
  om_created_at :: datetime

record workspace_membership =
  wm_org_id :: uuid
  wm_workspace_id :: uuid
  wm_user_id :: uuid
  wm_role :: workspace_role
  wm_created_at :: datetime

record team =
  tm_org_id :: uuid
  tm_id :: uuid
  tm_name :: string
  tm_created_at :: datetime

record team_member =
  tmm_org_id :: uuid
  tmm_team_id :: uuid
  tmm_user_id :: uuid
  tmm_created_at :: datetime

record workspace_team_role =
  wt_org_id :: uuid
  wt_workspace_id :: uuid
  wt_team_id :: uuid
  wt_role :: workspace_role

record user_identity =
  ui_issuer :: string
  ui_subject :: string
  ui_user_id :: uuid
  ui_email_at_login :: string
  ui_created_at :: datetime
  ui_last_login_at :: datetime

record auth_session =
  as_id :: uuid
  as_id_hash :: string
  as_user_id :: uuid
  as_org_id :: "uuid option"
  as_sign_in_method :: sign_in_method
  as_idp_sid :: "string option"
  as_id_token :: "string option"
  as_ip_address :: "string option"
  as_user_agent :: "string option"
  as_created_at :: datetime
  as_last_seen_at :: datetime
  as_expires_at :: datetime
  as_revoked_at :: "datetime option"

record login_flow =
  lf_id_hash :: string
  lf_state :: string
  lf_nonce :: string
  lf_code_verifier :: string
  lf_method :: sign_in_method
  lf_next_path :: string
  lf_created_at :: datetime

record invitation =
  inv_org_id :: uuid
  inv_id :: uuid
  inv_email :: string
  inv_org_role :: org_role
  inv_workspace_id :: "uuid option"
  inv_workspace_role :: "workspace_role option"
  inv_invited_by :: uuid
  inv_created_at :: datetime
  inv_expires_at :: datetime
  inv_accepted_at :: "datetime option"
  inv_accepted_user_id :: "uuid option"
  inv_revoked_at :: "datetime option"
  inv_email_status :: email_status
  inv_email_error :: "string option"

record audit_event =
  ae_org_id :: uuid
  ae_id :: uuid
  ae_workspace_id :: "uuid option"
  ae_actor_user_id :: "uuid option"
  ae_action :: string
  ae_target_type :: string
  ae_target_id :: string
  ae_details :: jobj
  ae_ip_address :: "string option"
  ae_user_agent :: "string option"
  ae_created_at :: datetime

section \<open>Sources and their series\<close>

text \<open>
  \<^verbatim>\<open>sources.health\<close> is a JSON object whose keys \<^verbatim>\<open>next_health\<close> writes; the
  record holds exactly those keys.
\<close>

record health =
  h_status :: health_status
  h_checked_at :: "datetime option"
  h_consecutive_failures :: int
  h_last_success_at :: "datetime option"
  h_last_error :: "(datetime \<times> string option \<times> bool) option"
  h_last_fetch :: "(uuid \<times> fetch_status \<times> datetime \<times> int) option"

record source =
  src_org_id :: uuid
  src_workspace_id :: uuid
  src_id :: uuid
  src_type :: source_type
  src_name :: string
  src_config :: jobj
  src_health :: health
  src_enabled :: bool
  src_polled_at :: "datetime option"
  src_created_at :: datetime
  src_updated_at :: datetime

record series =
  ser_org_id :: uuid
  ser_workspace_id :: uuid
  ser_id :: uuid
  ser_source_id :: uuid
  ser_external_id :: string
  ser_name :: string
  ser_unit :: "string option"
  ser_kind :: series_kind
  ser_expected_interval_ns :: "int option"
  ser_physical_min :: "rat option"
  ser_physical_max :: "rat option"
  ser_operational_min :: "rat option"
  ser_operational_max :: "rat option"
  ser_resolution :: "rat option"
  ser_non_negative :: "bool option"
  ser_asset_path :: "string option"
  ser_metadata :: jobj
  ser_created_at :: datetime
  ser_updated_at :: datetime

record source_credentials =
  crd_org_id :: uuid
  crd_source_id :: uuid
  crd_key_id :: string
  crd_nonce :: string
  crd_ciphertext :: string
  crd_updated_by :: "uuid option"
  crd_updated_at :: datetime

record source_fetch =
  sf_org_id :: uuid
  sf_workspace_id :: uuid
  sf_id :: uuid
  sf_source_id :: uuid
  sf_trigger :: fetch_trigger
  sf_status :: fetch_status
  sf_window_start :: datetime
  sf_window_end :: datetime
  sf_series_ids :: "uuid list option"
  sf_force :: bool
  sf_calls :: int
  sf_rows :: int
  sf_error :: "string option"
  sf_requested_by :: "uuid option"
  sf_run_id :: "uuid option"
  sf_params :: "jobj option"
  sf_result :: "jobj option"
  sf_created_at :: datetime
  sf_started_at :: "datetime option"
  sf_finished_at :: "datetime option"

record source_file =
  fl_org_id :: uuid
  fl_workspace_id :: uuid
  fl_id :: uuid
  fl_source_id :: uuid
  fl_path :: string
  fl_size :: int
  fl_mtime :: datetime
  fl_sha256 :: string
  fl_status :: file_status
  fl_rows :: int
  fl_n_series :: int
  fl_n_new_series :: int
  fl_start_at :: "datetime option"
  fl_end_at :: "datetime option"
  fl_error :: "string option"
  fl_versions :: int
  fl_fetch_id :: "uuid option"
  fl_created_at :: datetime
  fl_updated_at :: datetime

section \<open>Datasets, groups, runs and what a run leaves\<close>

text \<open>\<^verbatim>\<open>datasets.window_policy\<close>: either a fixed window or a trailing duration.\<close>

datatype window_policy = PolicyLast string | PolicyFixed datetime datetime

record dataset =
  ds_org_id :: uuid
  ds_workspace_id :: uuid
  ds_id :: uuid
  ds_name :: string
  ds_selection :: jobj
  ds_window_policy :: window_policy
  ds_created_at :: datetime

record dataset_series =
  dss_org_id :: uuid
  dss_dataset_id :: uuid
  dss_series_id :: uuid

record series_group =
  sg_org_id :: uuid
  sg_workspace_id :: uuid
  sg_id :: uuid
  sg_name :: string
  sg_kind :: group_kind
  sg_params :: jobj
  sg_created_at :: datetime
  sg_updated_at :: datetime

record series_group_member =
  sgm_org_id :: uuid
  sgm_group_id :: uuid
  sgm_series_id :: uuid
  sgm_role :: member_role
  sgm_position :: nat

record run =
  run_org_id :: uuid
  run_workspace_id :: uuid
  run_id :: uuid
  run_dataset_id :: "uuid option"
  run_trigger :: run_trigger
  run_status :: run_status
  run_window_start :: "datetime option"
  run_window_end :: "datetime option"
  run_now_ns :: "ns option"
  run_started_at :: "datetime option"
  run_finished_at :: "datetime option"
  run_stats :: jobj
  run_error :: "string option"
  run_created_at :: datetime

record upload =
  up_org_id :: uuid
  up_run_id :: uuid
  up_filename :: string
  up_content_type :: "string option"
  up_size_bytes :: int
  up_data :: string
  up_params :: jobj
  up_created_at :: datetime

record finding =
  fd_org_id :: uuid
  fd_workspace_id :: uuid
  fd_id :: uuid
  fd_series_id :: uuid
  fd_check_id :: string
  fd_dimension :: string
  fd_severity :: string
  fd_window_start :: datetime
  fd_window_end :: datetime
  fd_score_impact :: rat
  fd_summary :: string
  fd_evidence :: jobj
  fd_status :: finding_status
  fd_status_reason :: "string option"
  fd_status_at :: "datetime option"
  fd_first_run_id :: "uuid option"
  fd_last_run_id :: "uuid option"
  fd_occurrences :: int
  fd_created_at :: datetime
  fd_updated_at :: datetime

record metric =
  mt_org_id :: uuid
  mt_series_id :: uuid
  mt_run_id :: uuid
  mt_check_id :: string
  mt_name :: string
  mt_ts :: datetime
  mt_value :: rat

record score =
  sc_org_id :: uuid
  sc_series_id :: uuid
  sc_run_id :: uuid
  sc_layer :: string
  sc_method_version :: string
  sc_overall :: rat
  sc_dimensions :: jobj
  sc_n_findings :: int
  sc_computed_at :: datetime

record coverage =
  cov_org_id :: uuid
  cov_series_id :: uuid
  cov_layer :: string
  cov_range_start :: datetime
  cov_range_end :: datetime
  cov_rows :: int
  cov_written_at :: datetime

record rate_limit =
  rl_bucket :: string
  rl_key :: string
  rl_window_start :: datetime
  rl_hits :: int

text \<open>A row of the job queue: queue, task, lock and the JSON arguments a job is deferred with.\<close>

record queued_job =
  job_queue :: string
  job_task :: string
  job_lock :: "uuid option"
  job_args :: "uuid \<times> uuid"

section \<open>The database\<close>

record db =
  orgs :: "org list"
  workspaces :: "workspace list"
  users :: "user list"
  org_memberships :: "org_membership list"
  workspace_memberships :: "workspace_membership list"
  teams :: "team list"
  team_members :: "team_member list"
  workspace_team_roles :: "workspace_team_role list"
  user_identities :: "user_identity list"
  auth_sessions :: "auth_session list"
  login_flows :: "login_flow list"
  invitations :: "invitation list"
  audit_events :: "audit_event list"
  sources :: "source list"
  all_series :: "series list"
  credentials :: "source_credentials list"
  source_fetches :: "source_fetch list"
  source_files :: "source_file list"
  datasets :: "dataset list"
  dataset_series_rows :: "dataset_series list"
  series_groups :: "series_group list"
  group_members :: "series_group_member list"
  runs :: "run list"
  uploads :: "upload list"
  findings :: "finding list"
  metrics :: "metric list"
  scores :: "score list"
  coverages :: "coverage list"
  rate_limits :: "rate_limit list"
  jobs :: "queued_job list"

definition empty_db :: db where
  "empty_db = \<lparr>orgs = [], workspaces = [], users = [], org_memberships = [],
     workspace_memberships = [], teams = [], team_members = [], workspace_team_roles = [],
     user_identities = [], auth_sessions = [], login_flows = [], invitations = [],
     audit_events = [], sources = [], all_series = [], credentials = [], source_fetches = [],
     source_files = [], datasets = [], dataset_series_rows = [], series_groups = [],
     group_members = [], runs = [], uploads = [], findings = [], metrics = [], scores = [],
     coverages = [], rate_limits = [], jobs = []\<rparr>"

text \<open>The fixed identifiers of the seed tenant and its bootstrap user.\<close>

definition DEFAULT_ORG_ID :: uuid where "DEFAULT_ORG_ID = 1"
definition DEFAULT_WORKSPACE_ID :: uuid where "DEFAULT_WORKSPACE_ID = 2"
definition BOOTSTRAP_USER_ID :: uuid where "BOOTSTRAP_USER_ID = 3"

text \<open>A service call's tenant (\<^verbatim>\<open>authz/scope.py\<close>).\<close>

record principal =
  pr_user_id :: uuid
  pr_org_id :: uuid

record scope =
  sc_org :: uuid
  sc_workspace :: uuid

end
