(* ===== verification/Timeconv.thy ===== *)
theory Timeconv
  imports Models
begin

text \<open>
  \<^verbatim>\<open>services/timeconv.py\<close>: the core's nanosecond instants and the microseconds the
  database keeps.  Window starts round down, window ends round up.
\<close>

definition CORE_NS_MIN :: ns where "CORE_NS_MIN = - (2 ^ 63)"
definition CORE_NS_MAX :: ns where "CORE_NS_MAX = 2 ^ 63 - 1"

definition ns_to_datetime :: "ns \<Rightarrow> datetime" where
  "ns_to_datetime t = t div 1000"

definition ns_to_datetime_ceil :: "ns \<Rightarrow> datetime" where
  "ns_to_datetime_ceil t = - ((- t) div 1000)"

definition to_core_ns :: "ns \<Rightarrow> ns" where
  "to_core_ns t = min (max t CORE_NS_MIN) CORE_NS_MAX"

definition datetime_to_ns :: "datetime \<Rightarrow> ns" where
  "datetime_to_ns d = d * 1000"

text \<open>An instant on the microsecond grid survives the round trip through the database.\<close>

definition on_us_grid :: "ns \<Rightarrow> bool" where
  "on_us_grid t \<longleftrightarrow> t mod 1000 = 0"

lemma ns_to_datetime_inverse [simp]: "ns_to_datetime (datetime_to_ns d) = d"
  by (simp add: ns_to_datetime_def datetime_to_ns_def)

lemma ns_to_datetime_ceil_inverse [simp]: "ns_to_datetime_ceil (datetime_to_ns d) = d"
  by (simp add: ns_to_datetime_ceil_def datetime_to_ns_def flip: mult_minus_left)

lemma datetime_to_ns_floor:
  "datetime_to_ns (ns_to_datetime t) \<le> t \<and> t < datetime_to_ns (ns_to_datetime t) + 1000"
proof -
  have "t = t div 1000 * 1000 + t mod 1000" "0 \<le> t mod 1000" "t mod 1000 < 1000" by simp_all
  then show ?thesis unfolding datetime_to_ns_def ns_to_datetime_def by linarith
qed

lemma datetime_to_ns_ceil:
  "t \<le> datetime_to_ns (ns_to_datetime_ceil t) \<and> datetime_to_ns (ns_to_datetime_ceil t) < t + 1000"
proof -
  have "- t = (- t) div 1000 * 1000 + (- t) mod 1000" "0 \<le> (- t) mod 1000" "(- t) mod 1000 < 1000"
    by simp_all
  then show ?thesis unfolding datetime_to_ns_def ns_to_datetime_ceil_def by linarith
qed

lemma on_us_grid_datetime [simp]: "on_us_grid (datetime_to_ns d)"
  by (simp add: on_us_grid_def datetime_to_ns_def)

lemma grid_floor [simp]: "on_us_grid t \<Longrightarrow> datetime_to_ns (ns_to_datetime t) = t"
  by (auto simp: on_us_grid_def datetime_to_ns_def ns_to_datetime_def)

lemma grid_ceil [simp]: "on_us_grid t \<Longrightarrow> datetime_to_ns (ns_to_datetime_ceil t) = t"
proof -
  assume "on_us_grid t"
  then obtain d where "t = datetime_to_ns d"
    by (metis grid_floor)
  then show ?thesis by simp
qed

lemma ns_to_datetime_mono: "s \<le> t \<Longrightarrow> ns_to_datetime s \<le> ns_to_datetime t"
  by (simp add: ns_to_datetime_def zdiv_mono1)

lemma ns_to_datetime_le_ceil: "s \<le> t \<Longrightarrow> ns_to_datetime s \<le> ns_to_datetime_ceil t"
  using datetime_to_ns_floor [of s] datetime_to_ns_ceil [of t] by (simp add: datetime_to_ns_def)

lemma to_core_ns_range [simp]: "CORE_NS_MIN \<le> to_core_ns t \<and> to_core_ns t \<le> CORE_NS_MAX"
  by (simp add: to_core_ns_def CORE_NS_MIN_def CORE_NS_MAX_def)

lemma to_core_ns_id: "CORE_NS_MIN \<le> t \<Longrightarrow> t \<le> CORE_NS_MAX \<Longrightarrow> to_core_ns t = t"
  by (simp add: to_core_ns_def)

lemma to_core_ns_mono: "s \<le> t \<Longrightarrow> to_core_ns s \<le> to_core_ns t"
  by (auto simp: to_core_ns_def)

end
