(* ===== verification/Coverage.thy ===== *)
theory Coverage
  imports Timeconv
begin

text \<open>
  \<^verbatim>\<open>services/coverage.py\<close>: which half-open ranges of a series the Parquet cache holds.
  \<open>missing_ranges\<close> is the scan over the sorted ranges with its cursor, \<open>record\<close> the upsert on
  (series, layer, start), \<open>covered_ranges\<close> the ordered query.
\<close>

section \<open>Gaps\<close>

fun gaps_loop :: "(ns \<times> ns) list \<Rightarrow> ns \<Rightarrow> ns \<Rightarrow> (ns \<times> ns) list" where
  "gaps_loop [] cursor end_ns = (if cursor < end_ns then [(cursor, end_ns)] else [])"
| "gaps_loop ((lo, hi) # rs) cursor end_ns =
     (if hi \<le> cursor then gaps_loop rs cursor end_ns
      else if end_ns \<le> lo then (if cursor < end_ns then [(cursor, end_ns)] else [])
      else (if cursor < lo then [(cursor, lo)] else []) @
           (if end_ns \<le> max cursor hi then [] else gaps_loop rs (max cursor hi) end_ns))"

definition missing_ranges :: "(ns \<times> ns) list \<Rightarrow> ns \<Rightarrow> ns \<Rightarrow> (ns \<times> ns) list" where
  "missing_ranges covered start_ns end_ns =
     (if end_ns \<le> start_ns then []
      else gaps_loop (sort (filter (\<lambda>r. fst r < snd r) covered)) start_ns end_ns)"

text \<open>Gaps are non-empty, in order, and never touch: each is maximal.\<close>

definition separated :: "(ns \<times> ns) list \<Rightarrow> bool" where
  "separated gs \<longleftrightarrow> (\<forall>g \<in> set gs. fst g < snd g) \<and> sorted_wrt (\<lambda>a b. snd a < fst b) gs"

lemma sorted_ConsD: "sorted ((lo, hi) # rs) \<Longrightarrow> r \<in> set rs \<Longrightarrow> lo \<le> fst r"
  by (auto simp: less_eq_prod_def)

lemma gaps_loop_in_some:
  "sorted rs \<Longrightarrow> cursor < end_ns \<Longrightarrow>
   in_some (gaps_loop rs cursor end_ns) t \<longleftrightarrow> cursor \<le> t \<and> t < end_ns \<and> \<not> in_some rs t"
proof (induction rs cursor end_ns rule: gaps_loop.induct)
  case (1 cursor end_ns)
  then show ?case by simp
next
  case (2 lo hi rs cursor end_ns)
  have later: "in_some rs t \<Longrightarrow> lo \<le> t"
    using sorted_ConsD [OF "2.prems"(1)] by (force simp: in_some_def in_range_def)
  show ?case
    using 2 later by (auto simp: max_def)
qed

lemma gaps_loop_bounds:
  "sorted rs \<Longrightarrow> cursor < end_ns \<Longrightarrow> g \<in> set (gaps_loop rs cursor end_ns) \<Longrightarrow>
   cursor \<le> fst g \<and> fst g < snd g \<and> snd g \<le> end_ns"
proof (induction rs cursor end_ns rule: gaps_loop.induct)
  case (1 cursor end_ns)
  then show ?case by simp
next
  case (2 lo hi rs cursor end_ns)
  then show ?case by (fastforce split: if_splits)
qed

lemma gaps_loop_after:
  "sorted rs \<Longrightarrow> cursor < end_ns \<Longrightarrow> lo < cursor \<Longrightarrow> (\<forall>g \<in> set (gaps_loop rs cursor end_ns). lo < fst g)"
  using gaps_loop_bounds by fastforce

lemma gaps_loop_separated:
  "sorted rs \<Longrightarrow> \<forall>r \<in> set rs. fst r < snd r \<Longrightarrow> cursor < end_ns \<Longrightarrow>
   separated (gaps_loop rs cursor end_ns)"
proof (induction rs cursor end_ns rule: gaps_loop.induct)
  case (1 cursor end_ns)
  then show ?case by (simp add: separated_def)
next
  case (2 lo hi rs cursor end_ns)
  have "\<lbrakk>\<not> end_ns \<le> max cursor hi; cursor < lo\<rbrakk>
        \<Longrightarrow> \<forall>g \<in> set (gaps_loop rs (max cursor hi) end_ns). lo < fst g"
    using gaps_loop_after [of rs "max cursor hi" end_ns lo] "2.prems" by auto
  then show ?case
    using 2 gaps_loop_bounds [of rs "max cursor hi" end_ns]
    by (auto simp: separated_def)
qed

lemma missing_ranges_iff:
  "in_some (missing_ranges covered s e) t \<longleftrightarrow> s \<le> t \<and> t < e \<and> \<not> in_some covered t"
  using gaps_loop_in_some [of "sort (filter (\<lambda>r. fst r < snd r) covered)" s e t]
  by (auto simp: missing_ranges_def)

lemma missing_ranges_bounds:
  "g \<in> set (missing_ranges covered s e) \<Longrightarrow> s \<le> fst g \<and> fst g < snd g \<and> snd g \<le> e"
  using gaps_loop_bounds [of "sort (filter (\<lambda>r. fst r < snd r) covered)" s e g]
  by (auto simp: missing_ranges_def split: if_splits)

lemma missing_ranges_separated: "separated (missing_ranges covered s e)"
proof (cases "e \<le> s")
  case True
  then show ?thesis by (simp add: missing_ranges_def separated_def)
next
  case False
  then have "separated (gaps_loop (sort (filter (\<lambda>r. fst r < snd r) covered)) s e)"
    by (intro gaps_loop_separated) auto
  with False show ?thesis by (simp add: missing_ranges_def)
qed

lemma missing_ranges_Nil_iff:
  "missing_ranges covered s e = [] \<longleftrightarrow> (\<forall>t. s \<le> t \<longrightarrow> t < e \<longrightarrow> in_some covered t)"
proof
  assume "missing_ranges covered s e = []"
  then show "\<forall>t. s \<le> t \<longrightarrow> t < e \<longrightarrow> in_some covered t"
    using missing_ranges_iff [of covered s e] by auto
next
  assume all: "\<forall>t. s \<le> t \<longrightarrow> t < e \<longrightarrow> in_some covered t"
  show "missing_ranges covered s e = []"
  proof (rule ccontr)
    assume "missing_ranges covered s e \<noteq> []"
    then obtain g where g: "g \<in> set (missing_ranges covered s e)"
      by (meson last_in_set)
    then have "in_some (missing_ranges covered s e) (fst g)"
      using missing_ranges_bounds [OF g] by (auto simp: in_some_def in_range_def)
    then have "s \<le> fst g \<and> fst g < e \<and> \<not> in_some covered (fst g)"
      by (rule missing_ranges_iff [THEN iffD1])
    with all show False by blast
  qed
qed

section \<open>Recording and reading coverage\<close>

definition cov_key :: "coverage \<Rightarrow> uuid \<times> string \<times> datetime" where
  "cov_key c = (cov_series_id c, cov_layer c, cov_range_start c)"

definition widen :: "coverage \<Rightarrow> coverage \<Rightarrow> coverage" where
  "widen old new = old\<lparr>cov_range_end := max (cov_range_end old) (cov_range_end new),
                       cov_rows := cov_rows new, cov_written_at := cov_written_at new\<rparr>"

definition coverage_record ::
  "db \<Rightarrow> uuid \<Rightarrow> uuid \<Rightarrow> ns \<Rightarrow> ns \<Rightarrow> int \<Rightarrow> datetime \<Rightarrow> string \<Rightarrow> db" where
  "coverage_record d org_id series_id start_ns end_ns rows now layer =
     d\<lparr>coverages := upsert cov_key widen
         \<lparr>cov_org_id = org_id, cov_series_id = series_id, cov_layer = layer,
          cov_range_start = ns_to_datetime start_ns, cov_range_end = ns_to_datetime_ceil end_ns,
          cov_rows = rows, cov_written_at = now\<rparr>
         (coverages d)\<rparr>"

definition covered_ranges :: "db \<Rightarrow> uuid \<Rightarrow> string \<Rightarrow> (ns \<times> ns) list" where
  "covered_ranges d series_id layer =
     map (\<lambda>c. (datetime_to_ns (cov_range_start c), datetime_to_ns (cov_range_end c)))
       (sort_key cov_range_start
         (filter (\<lambda>c. cov_series_id c = series_id \<and> cov_layer c = layer) (coverages d)))"

text \<open>A stored row covers an instant of a series in a layer.\<close>

definition row_covers :: "uuid \<Rightarrow> string \<Rightarrow> ns \<Rightarrow> coverage \<Rightarrow> bool" where
  "row_covers i l t c \<longleftrightarrow> cov_series_id c = i \<and> cov_layer c = l \<and>
     datetime_to_ns (cov_range_start c) \<le> t \<and> t < datetime_to_ns (cov_range_end c)"

lemma in_covered_ranges:
  "in_some (covered_ranges d i l) t \<longleftrightarrow> (\<exists>c \<in> set (coverages d). row_covers i l t c)"
  by (auto simp: covered_ranges_def in_some_def in_range_def row_covers_def)

text \<open>
  Recording a range adds exactly the range, widened to whole microseconds: nothing already
  covered is lost, nothing else becomes covered.
\<close>

lemma row_covers_widen:
  "cov_key old = cov_key new \<Longrightarrow>
   row_covers i l t (widen old new) \<longleftrightarrow> row_covers i l t old \<or> row_covers i l t new"
  by (auto simp: row_covers_def widen_def cov_key_def datetime_to_ns_def max_def)

lemma row_covers_upsert:
  "(\<exists>c \<in> set (upsert cov_key widen new cs). row_covers i l t c) \<longleftrightarrow>
   row_covers i l t new \<or> (\<exists>c \<in> set cs. row_covers i l t c)"
proof (cases "\<exists>c \<in> set cs. cov_key c = cov_key new")
  case False
  then have "upsert cov_key widen new cs = cs @ [new]" unfolding upsert_def by (rule if_not_P)
  then show ?thesis by auto
next
  case True
  then have "upsert cov_key widen new cs
      = update_where (\<lambda>r. cov_key r = cov_key new) (\<lambda>old. widen old new) cs"
    unfolding upsert_def by (rule if_P)
  moreover have "(\<exists>r \<in> set cs. row_covers i l t (if cov_key r = cov_key new then widen r new else r))
      \<longleftrightarrow> row_covers i l t new \<or> (\<exists>c \<in> set cs. row_covers i l t c)"
  proof -
    obtain c0 where c0: "c0 \<in> set cs" "cov_key c0 = cov_key new" using True by blast
    have step: "row_covers i l t (if cov_key r = cov_key new then widen r new else r) \<longleftrightarrow>
        row_covers i l t r \<or> cov_key r = cov_key new \<and> row_covers i l t new" for r
      by (simp add: row_covers_widen)
    show ?thesis unfolding step using c0 by blast
  qed
  ultimately show ?thesis by simp
qed

lemma coverage_record_iff:
  "in_some (covered_ranges (coverage_record d o' i s e r n l) i' l') t \<longleftrightarrow>
   in_some (covered_ranges d i' l') t \<or>
   i' = i \<and> l' = l \<and> datetime_to_ns (ns_to_datetime s) \<le> t
     \<and> t < datetime_to_ns (ns_to_datetime_ceil e)"
proof -
  have "in_some (covered_ranges (coverage_record d o' i s e r n l) i' l') t \<longleftrightarrow>
     row_covers i' l' t \<lparr>cov_org_id = o', cov_series_id = i, cov_layer = l,
          cov_range_start = ns_to_datetime s, cov_range_end = ns_to_datetime_ceil e,
          cov_rows = r, cov_written_at = n\<rparr>
     \<or> (\<exists>c \<in> set (coverages d). row_covers i' l' t c)"
    by (simp add: in_covered_ranges coverage_record_def row_covers_upsert)
  then show ?thesis by (auto simp: in_covered_ranges row_covers_def)
qed

section \<open>The contract of the coverage table\<close>

text \<open>
  What the fetch engine relies on: recording a range covers exactly that range of that series,
  widened outwards to the bounds the store can represent.  The lemmas on several records are
  proved once from the contract.
\<close>

locale coverage_store =
  fixes put :: "'d \<Rightarrow> 'x \<Rightarrow> uuid \<Rightarrow> ns \<Rightarrow> ns \<Rightarrow> 'd"
    and covers :: "'d \<Rightarrow> uuid \<Rightarrow> ns \<Rightarrow> bool"
    and lo :: "ns \<Rightarrow> ns"
    and hi :: "ns \<Rightarrow> ns"
  assumes covers_put: "covers (put d x i s e) j t \<longleftrightarrow> covers d j t \<or> j = i \<and> lo s \<le> t \<and> t < hi e"
    and lo_le: "lo s \<le> s"
    and hi_ge: "e \<le> hi e"
begin

lemma put_mono: "covers d j t \<Longrightarrow> covers (put d x i s e) j t"
  by (simp add: covers_put)

lemma put_other: "j \<noteq> i \<Longrightarrow> covers (put d x i s e) j t = covers d j t"
  by (simp add: covers_put)

lemma put_range: "s \<le> t \<Longrightarrow> t < e \<Longrightarrow> covers (put d x i s e) i t"
  using lo_le [of s] hi_ge [of e] by (simp add: covers_put)

lemma covers_puts:
  "covers (fold (\<lambda>(x, i) d. put d x i s e) xs d) j t \<longleftrightarrow>
   covers d j t \<or> j \<in> snd ` set xs \<and> lo s \<le> t \<and> t < hi e"
  by (induction xs arbitrary: d) (auto simp: covers_put)

lemma puts_commute:
  "covers (put (put d x i s e) x' i' s' e') j t = covers (put (put d x' i' s' e') x i s e) j t"
  by (auto simp: covers_put)

lemma put_idem: "covers (put (put d x i s e) x' i s e) j t = covers (put d x i s e) j t"
  by (auto simp: covers_put)

end

definition RAW_LAYER :: string where "RAW_LAYER = ''raw''"

text \<open>\<open>cached d i t\<close>: the raw layer holds the instant \<open>t\<close> of series \<open>i\<close>.\<close>

definition cached :: "db \<Rightarrow> uuid \<Rightarrow> ns \<Rightarrow> bool" where
  "cached d i t \<longleftrightarrow> in_some (covered_ranges d i RAW_LAYER) t"

definition put_coverage :: "db \<Rightarrow> uuid \<times> int \<times> datetime \<Rightarrow> uuid \<Rightarrow> ns \<Rightarrow> ns \<Rightarrow> db" where
  "put_coverage d x i s e = coverage_record d (fst x) i s e (fst (snd x)) (snd (snd x)) RAW_LAYER"

interpretation raw_layer: coverage_store put_coverage cached
    "\<lambda>s. datetime_to_ns (ns_to_datetime s)" "\<lambda>e. datetime_to_ns (ns_to_datetime_ceil e)"
proof
  show "cached (put_coverage d x i s e) j t \<longleftrightarrow> cached d j t \<or>
     j = i \<and> datetime_to_ns (ns_to_datetime s) \<le> t \<and> t < datetime_to_ns (ns_to_datetime_ceil e)"
    for d x i s e j t
    by (auto simp: cached_def put_coverage_def coverage_record_iff)
  show "datetime_to_ns (ns_to_datetime s) \<le> s" for s using datetime_to_ns_floor by blast
  show "e \<le> datetime_to_ns (ns_to_datetime_ceil e)" for e using datetime_to_ns_ceil by blast
qed

lemma coverage_record_put: "coverage_record d o' i s e r n RAW_LAYER = put_coverage d (o', r, n) i s e"
  by (simp add: put_coverage_def)

end
