(* ===== verification/Plan.thy ===== *)
theory Plan
  imports Coverage "HOL-Library.Multiset"
begin

text \<open>
  \<^verbatim>\<open>connectors/plan.py\<close> and the values of \<^verbatim>\<open>connectors/base.py\<close> it works on: limits,
  points, the spans a gap is cut into, the calls that fetch every gap, where a span counts as
  covered, and the pacer.
\<close>

section \<open>Limits and points\<close>

record limits =
  max_points :: int
  max_span_ns :: int
  requests_per_second :: rat

definition limits_within :: "limits \<Rightarrow> limits \<Rightarrow> limits" where
  "limits_within a b =
     \<lparr>max_points = min (max_points a) (max_points b),
      max_span_ns = min (max_span_ns a) (max_span_ns b),
      requests_per_second = min (requests_per_second a) (requests_per_second b)\<rparr>"

record point_ref =
  pt_series_id :: uuid
  pt_external_id :: string

record call =
  call_start :: ns
  call_end :: ns
  call_points :: "point_ref list"

text \<open>What \<^verbatim>\<open>ConnectorConfig\<close> validates (spec 021), and the limits of a config.\<close>

record connector_config =
  cfg_poll_interval_s :: "int option"
  cfg_backfill_s :: int
  cfg_settle_s :: int
  cfg_requests_per_second :: rat
  cfg_max_points :: int
  cfg_max_span_s :: int

definition config_valid :: "connector_config \<Rightarrow> bool" where
  "config_valid c \<longleftrightarrow>
     (case cfg_poll_interval_s c of None \<Rightarrow> True | Some p \<Rightarrow> 60 \<le> p \<and> p \<le> 86400) \<and>
     60 \<le> cfg_backfill_s c \<and> cfg_backfill_s c \<le> 366 * 86400 \<and>
     0 \<le> cfg_settle_s c \<and> cfg_settle_s c \<le> 86400 \<and>
     0 < cfg_requests_per_second c \<and> cfg_requests_per_second c \<le> 50 \<and>
     1 \<le> cfg_max_points c \<and> cfg_max_points c \<le> 1000 \<and>
     60 \<le> cfg_max_span_s c \<and> cfg_max_span_s c \<le> 31 * 86400"

definition SECOND_NS :: int where "SECOND_NS = 1000000000"

definition limits_of :: "connector_config \<Rightarrow> limits" where
  "limits_of c = \<lparr>max_points = cfg_max_points c, max_span_ns = cfg_max_span_s c * SECOND_NS,
                  requests_per_second = cfg_requests_per_second c\<rparr>"

definition limits_positive :: "limits \<Rightarrow> bool" where
  "limits_positive l \<longleftrightarrow> 0 < max_points l \<and> 0 < max_span_ns l \<and> 0 < requests_per_second l"

lemma limits_of_positive: "config_valid c \<Longrightarrow> limits_positive (limits_of c)"
  by (auto simp: limits_positive_def limits_of_def config_valid_def SECOND_NS_def)

lemma limits_within_positive: "limits_positive a \<Longrightarrow> limits_positive b \<Longrightarrow> limits_positive (limits_within a b)"
  by (auto simp: limits_positive_def limits_within_def)

section \<open>Spans\<close>

text \<open>
  The loop of \<^verbatim>\<open>spans\<close> does not end when the maximum span is not positive; \<open>None\<close> is that.
\<close>

partial_function (option) spans :: "ns \<Rightarrow> ns \<Rightarrow> int \<Rightarrow> (ns \<times> ns) list option" where
  "spans lo end_ns max_span =
     (if lo < end_ns
      then Option.bind (spans (min end_ns (lo + max_span)) end_ns max_span)
             (\<lambda>out. Some ((lo, min end_ns (lo + max_span)) # out))
      else Some [])"

declare spans.simps [code]

fun tiles :: "ns \<Rightarrow> ns \<Rightarrow> int \<Rightarrow> (ns \<times> ns) list \<Rightarrow> bool" where
  "tiles lo e m [] \<longleftrightarrow> e \<le> lo"
| "tiles lo e m (s # ss) \<longleftrightarrow> lo < e \<and> s = (lo, min e (lo + m)) \<and> tiles (min e (lo + m)) e m ss"

lemma spans_tiles: "0 < m \<Longrightarrow> \<exists>ss. spans lo e m = Some ss \<and> tiles lo e m ss"
proof (induction "nat (e - lo)" arbitrary: lo rule: less_induct)
  case less
  show ?case
  proof (cases "lo < e")
    case False
    then show ?thesis by (simp add: spans.simps [of lo e m])
  next
    case True
    with less.prems have "nat (e - min e (lo + m)) < nat (e - lo)" by auto
    then obtain ss where "spans (min e (lo + m)) e m = Some ss" "tiles (min e (lo + m)) e m ss"
      using less.hyps less.prems by blast
    with True show ?thesis by (simp add: spans.simps [of lo e m])
  qed
qed

lemma tiles_in_some: "tiles lo e m ss \<Longrightarrow> 0 < m \<Longrightarrow> in_some ss t \<longleftrightarrow> lo \<le> t \<and> t < e"
proof (induction ss arbitrary: lo)
  case Nil
  then show ?case by auto
next
  case (Cons s ss)
  then have "in_some ss t \<longleftrightarrow> min e (lo + m) \<le> t \<and> t < e" by simp
  with Cons.prems show ?case by auto
qed

lemma tiles_bounds:
  "tiles lo e m ss \<Longrightarrow> 0 < m \<Longrightarrow> s \<in> set ss \<Longrightarrow>
   lo \<le> fst s \<and> fst s < snd s \<and> snd s \<le> fst s + m \<and> snd s \<le> e"
  by (induction ss arbitrary: lo) (fastforce simp: min_def split: if_splits)+

section \<open>Planning calls\<close>

text \<open>\<^verbatim>\<open>by_span[span].append(point)\<close> on the insertion-ordered dict.\<close>

fun add_span :: "ns \<times> ns \<Rightarrow> point_ref \<Rightarrow> ((ns \<times> ns) \<times> point_ref list) list \<Rightarrow>
    ((ns \<times> ns) \<times> point_ref list) list" where
  "add_span s p [] = [(s, [p])]"
| "add_span s p ((s', ps) # rest) =
     (if s' = s then (s', ps @ [p]) # rest else (s', ps) # add_span s p rest)"

text \<open>All spans of a point's ranges, in order.\<close>

fun spans_of :: "(ns \<times> ns) list \<Rightarrow> int \<Rightarrow> (ns \<times> ns) list option" where
  "spans_of [] m = Some []"
| "spans_of ((lo, hi) # rs) m =
     Option.bind (spans lo hi m) (\<lambda>ss. Option.bind (spans_of rs m) (\<lambda>rest. Some (ss @ rest)))"

fun by_span :: "(point_ref \<times> (ns \<times> ns) list) list \<Rightarrow> int \<Rightarrow>
    ((ns \<times> ns) \<times> point_ref list) list \<Rightarrow> ((ns \<times> ns) \<times> point_ref list) list option" where
  "by_span [] m acc = Some acc"
| "by_span ((p, rs) # gaps) m acc =
     Option.bind (spans_of rs m) (\<lambda>ss. by_span gaps m (fold (\<lambda>s. add_span s p) ss acc))"

text \<open>
  \<^verbatim>\<open>range(0, len(xs), n)\<close> slices: a step of zero raises, a negative step gives no slice.
\<close>

function chunks :: "nat \<Rightarrow> 'a list \<Rightarrow> 'a list list" where
  "chunks n xs = (if xs = [] \<or> n = 0 then [] else take n xs # chunks n (drop n xs))"
  by pat_completeness auto
termination
  by (relation "measure (\<lambda>(n, xs). length xs)") auto

declare chunks.simps [simp del]

definition range_chunks :: "int \<Rightarrow> 'a list \<Rightarrow> 'a list list option" where
  "range_chunks n xs = (if n = 0 then None else if n < 0 then Some [] else Some (chunks (nat n) xs))"

fun calls_of :: "((ns \<times> ns) \<times> point_ref list) list \<Rightarrow> int \<Rightarrow> call list option" where
  "calls_of [] n = Some []"
| "calls_of (((lo, hi), ps) # rest) n =
     Option.bind (range_chunks n (sort_key (\<lambda>p. (pt_external_id p, pt_series_id p)) ps))
       (\<lambda>cs. Option.bind (calls_of rest n)
          (\<lambda>more. Some (map (\<lambda>c. \<lparr>call_start = lo, call_end = hi, call_points = c\<rparr>) cs @ more)))"

definition plan_calls :: "(point_ref \<times> (ns \<times> ns) list) list \<Rightarrow> limits \<Rightarrow> call list option" where
  "plan_calls gaps l =
     Option.bind (by_span gaps (max_span_ns l) [])
       (\<lambda>bs. calls_of (sort_key fst bs) (max_points l))"

definition settled_end :: "ns \<Rightarrow> ns \<Rightarrow> ns \<Rightarrow> ns" where
  "settled_end end_ns now_ns settle_ns = min end_ns (now_ns - settle_ns)"

section \<open>What a plan fetches\<close>

text \<open>
  The work of a plan, of grouped spans and of the gaps: the multiset of (point, span) pairs.
\<close>

definition calls_work :: "call list \<Rightarrow> (point_ref \<times> (ns \<times> ns)) multiset" where
  "calls_work cs = (\<Sum>c\<leftarrow>cs. mset (map (\<lambda>p. (p, (call_start c, call_end c))) (call_points c)))"

definition spans_work :: "((ns \<times> ns) \<times> point_ref list) list \<Rightarrow> (point_ref \<times> (ns \<times> ns)) multiset" where
  "spans_work bs = (\<Sum>b\<leftarrow>bs. mset (map (\<lambda>p. (p, fst b)) (snd b)))"

definition gaps_work :: "(point_ref \<times> (ns \<times> ns) list) list \<Rightarrow> int \<Rightarrow> (point_ref \<times> (ns \<times> ns)) multiset" where
  "gaps_work gaps m = (\<Sum>g\<leftarrow>gaps. mset (map (Pair (fst g)) (the (spans_of (snd g) m))))"

lemma spans_of_total: "0 < m \<Longrightarrow> \<exists>ss. spans_of rs m = Some ss"
proof (induction rs)
  case Nil
  then show ?case by simp
next
  case (Cons r rs)
  then show ?case using spans_tiles [of m "fst r" "snd r"] by (cases r) auto
qed

lemma spans_of_in_some: "0 < m \<Longrightarrow> spans_of rs m = Some ss \<Longrightarrow> in_some ss t \<longleftrightarrow> in_some rs t"
proof (induction rs arbitrary: ss)
  case Nil
  then show ?case by simp
next
  case (Cons r rs)
  obtain lo hi where r: "r = (lo, hi)" by (cases r)
  obtain a where a: "spans lo hi m = Some a" "tiles lo hi m a" using spans_tiles [OF Cons.prems(1)] by blast
  with Cons.prems(2) r obtain b where b: "spans_of rs m = Some b" "ss = a @ b"
    by (auto split: Option.bind_splits)
  show ?case using Cons.IH [OF Cons.prems(1) b(1)] tiles_in_some [OF a(2) Cons.prems(1), of t] b(2) r
    by simp
qed

lemma spans_of_bounds:
  "0 < m \<Longrightarrow> spans_of rs m = Some ss \<Longrightarrow> s \<in> set ss \<Longrightarrow> fst s < snd s \<and> snd s \<le> fst s + m"
proof (induction rs arbitrary: ss)
  case Nil
  then show ?case by simp
next
  case (Cons r rs)
  obtain lo hi where r: "r = (lo, hi)" by (cases r)
  obtain a where a: "spans lo hi m = Some a" "tiles lo hi m a" using spans_tiles [OF Cons.prems(1)] by blast
  with Cons.prems(2) r obtain b where b: "spans_of rs m = Some b" "ss = a @ b"
    by (auto split: Option.bind_splits)
  show ?case using Cons.IH [OF Cons.prems(1) b(1)] tiles_bounds [OF a(2) Cons.prems(1), of s] b(2) Cons.prems(3)
    by auto
qed

lemma spans_work_add: "spans_work (add_span s p bs) = spans_work bs + {#(p, s)#}"
  by (induction bs) (auto simp: spans_work_def)

lemma spans_work_fold:
  "spans_work (fold (\<lambda>s. add_span s p) ss acc) = spans_work acc + mset (map (Pair p) ss)"
  by (induction ss arbitrary: acc) (auto simp: spans_work_add)

lemma by_span_work:
  "by_span gaps m acc = Some bs \<Longrightarrow> spans_work bs = spans_work acc + gaps_work gaps m"
proof (induction gaps m acc rule: by_span.induct)
  case (1 m acc)
  then show ?case by (simp add: gaps_work_def)
next
  case (2 p rs gaps m acc)
  then obtain ss where ss: "spans_of rs m = Some ss" by (auto split: Option.bind_splits)
  with 2 show ?case by (simp add: spans_work_fold gaps_work_def ac_simps)
qed

lemma by_span_total: "0 < m \<Longrightarrow> \<exists>bs. by_span gaps m acc = Some bs"
proof (induction gaps m acc rule: by_span.induct)
  case (1 m acc)
  then show ?case by simp
next
  case (2 p rs gaps m acc)
  then show ?case using spans_of_total [OF "2.prems", of rs] by auto
qed

lemma spans_work_perm: "mset bs = mset bs' \<Longrightarrow> spans_work bs = spans_work bs'"
  unfolding spans_work_def by (metis (no_types) mset_map sum_mset_sum_list)

lemma concat_chunks: "0 < n \<Longrightarrow> concat (chunks n xs) = xs"
proof (induction n xs rule: chunks.induct)
  case (1 n xs)
  then show ?case by (cases "xs = []") (simp_all add: chunks.simps)
qed

lemma chunks_length: "c \<in> set (chunks n xs) \<Longrightarrow> c \<noteq> [] \<and> length c \<le> n"
proof (induction n xs rule: chunks.induct)
  case (1 n xs)
  then show ?case by (cases "xs = [] \<or> n = 0") (auto simp: chunks.simps [of n xs])
qed

lemma mset_map_concat: "mset (map f (concat xss)) = (\<Sum>xs\<leftarrow>xss. mset (map f xs))"
  by (induction xss) auto

lemma calls_work_append [simp]: "calls_work (a @ b) = calls_work a + calls_work b"
  by (simp add: calls_work_def)

lemma calls_work_chunks:
  "calls_work (map (\<lambda>c. \<lparr>call_start = lo, call_end = hi, call_points = c\<rparr>) cs)
   = mset (map (\<lambda>p. (p, (lo, hi))) (concat cs))"
  unfolding mset_map_concat by (simp add: calls_work_def comp_def)

lemma calls_of_work: "0 < n \<Longrightarrow> \<exists>cs. calls_of bs n = Some cs \<and> calls_work cs = spans_work bs"
proof (induction bs n rule: calls_of.induct)
  case (1 n)
  then show ?case by (simp add: calls_work_def spans_work_def)
next
  case (2 lo hi ps rest n)
  let ?o = "sort_key (\<lambda>p. (pt_external_id p, pt_series_id p)) ps"
  have rc: "range_chunks n ?o = Some (chunks (nat n) ?o)" using "2.prems" by (simp add: range_chunks_def)
  obtain more where more: "calls_of rest n = Some more" "calls_work more = spans_work rest"
    using "2.IH" [OF rc "2.prems"] by blast
  have "mset (map (\<lambda>p. (p, lo, hi)) ?o) = mset (map (\<lambda>p. (p, lo, hi)) ps)" by simp
  then show ?case using rc more "2.prems"
    by (simp add: calls_work_chunks concat_chunks spans_work_def)
qed

lemma plan_calls_work:
  assumes "limits_positive l"
  shows "\<exists>cs. plan_calls gaps l = Some cs \<and> calls_work cs = gaps_work gaps (max_span_ns l)"
proof -
  have m: "0 < max_span_ns l" and n: "0 < max_points l" using assms by (auto simp: limits_positive_def)
  obtain bs where bs: "by_span gaps (max_span_ns l) [] = Some bs" using by_span_total [OF m] by blast
  obtain cs where cs: "calls_of (sort_key fst bs) (max_points l) = Some cs"
      "calls_work cs = spans_work (sort_key fst bs)" using calls_of_work [OF n] by blast
  have "spans_work (sort_key fst bs) = spans_work bs" by (rule spans_work_perm) simp
  also have "\<dots> = gaps_work gaps (max_span_ns l)" using by_span_work [OF bs] by (simp add: spans_work_def)
  finally show ?thesis using bs cs by (simp add: plan_calls_def)
qed


section \<open>Bounds and order of the calls\<close>

definition call_ok :: "limits \<Rightarrow> call \<Rightarrow> bool" where
  "call_ok l c \<longleftrightarrow> call_points c \<noteq> [] \<and> int (length (call_points c)) \<le> max_points l \<and>
     call_start c < call_end c \<and> call_end c \<le> call_start c + max_span_ns l"

lemma calls_work_mem:
  "c \<in> set cs \<Longrightarrow> p \<in> set (call_points c) \<Longrightarrow> (p, (call_start c, call_end c)) \<in># calls_work cs"
  by (auto simp: calls_work_def sum_list_map_remove1 [of c])

lemma calls_work_memD:
  "(p, s) \<in># calls_work cs \<Longrightarrow> \<exists>c \<in> set cs. p \<in> set (call_points c) \<and> s = (call_start c, call_end c)"
  by (induction cs) (auto simp: calls_work_def)

lemma gaps_work_memD:
  "(p, s) \<in># gaps_work gaps m \<Longrightarrow> \<exists>rs. (p, rs) \<in> set gaps \<and> s \<in> set (the (spans_of rs m))"
  by (induction gaps) (auto simp: gaps_work_def)

lemma calls_of_shape:
  "calls_of bs n = Some cs \<Longrightarrow> 0 < n \<Longrightarrow> c \<in> set cs \<Longrightarrow>
   call_points c \<noteq> [] \<and> int (length (call_points c)) \<le> n \<and>
   (call_start c, call_end c) \<in> fst ` set bs"
proof (induction bs n arbitrary: cs rule: calls_of.induct)
  case (1 n)
  then show ?case by simp
next
  case (2 lo hi ps rest n)
  let ?o = "sort_key (\<lambda>p. (pt_external_id p, pt_series_id p)) ps"
  have rc: "range_chunks n ?o = Some (chunks (nat n) ?o)" using "2.prems" by (simp add: range_chunks_def)
  with "2.prems"(1) obtain more where more: "calls_of rest n = Some more"
    "cs = map (\<lambda>c. \<lparr>call_start = lo, call_end = hi, call_points = c\<rparr>) (chunks (nat n) ?o) @ more"
    by (auto split: Option.bind_splits)
  show ?case
  proof (cases "c \<in> set more")
    case True
    with "2.IH" [OF rc more(1) "2.prems"(2)] show ?thesis by auto
  next
    case False
    with more(2) "2.prems"(3) obtain x where "x \<in> set (chunks (nat n) ?o)"
      "c = \<lparr>call_start = lo, call_end = hi, call_points = x\<rparr>" by auto
    then show ?thesis using chunks_length [of x "nat n" ?o] "2.prems"(2) by auto
  qed
qed

lemma calls_of_sorted:
  "calls_of bs n = Some cs \<Longrightarrow> 0 < n \<Longrightarrow> sorted (map fst bs) \<Longrightarrow>
   sorted (map (\<lambda>c. (call_start c, call_end c)) cs)"
proof (induction bs n arbitrary: cs rule: calls_of.induct)
  case (1 n)
  then show ?case by simp
next
  case (2 lo hi ps rest n)
  let ?o = "sort_key (\<lambda>p. (pt_external_id p, pt_series_id p)) ps"
  have rc: "range_chunks n ?o = Some (chunks (nat n) ?o)" using "2.prems" by (simp add: range_chunks_def)
  with "2.prems"(1) obtain more where more: "calls_of rest n = Some more"
    "cs = map (\<lambda>c. \<lparr>call_start = lo, call_end = hi, call_points = c\<rparr>) (chunks (nat n) ?o) @ more"
    by (auto split: Option.bind_splits)
  have "sorted (map (\<lambda>c. (call_start c, call_end c)) more)"
    using "2.IH" [OF rc more(1) "2.prems"(2)] "2.prems"(3) by simp
  moreover have "(lo, hi) \<le> (call_start c, call_end c)" if "c \<in> set more" for c
    using calls_of_shape [OF more(1) "2.prems"(2) that] "2.prems"(3) by auto
  ultimately show ?case using more(2) by (auto simp: sorted_append comp_def sorted_map)
qed

lemma plan_calls_ok:
  assumes l: "limits_positive l" and cs: "plan_calls gaps l = Some cs" and c: "c \<in> set cs"
  shows "call_ok l c"
proof -
  have m: "0 < max_span_ns l" and n: "0 < max_points l" using l by (auto simp: limits_positive_def)
  from cs obtain bs where bs: "calls_of (sort_key fst bs) (max_points l) = Some cs"
    by (auto simp: plan_calls_def split: Option.bind_splits)
  have shape: "call_points c \<noteq> []" "int (length (call_points c)) \<le> max_points l"
    using calls_of_shape [OF bs n c] by auto
  then obtain p where p: "p \<in> set (call_points c)" by (meson last_in_set)
  have "(p, (call_start c, call_end c)) \<in># gaps_work gaps (max_span_ns l)"
    using plan_calls_work [OF l, of gaps] cs calls_work_mem [OF c p] by auto
  then obtain rs where "(p, rs) \<in> set gaps" and sp: "(call_start c, call_end c) \<in> set (the (spans_of rs (max_span_ns l)))"
    by (blast dest: gaps_work_memD)
  obtain ss where "spans_of rs (max_span_ns l) = Some ss" using spans_of_total [OF m] by blast
  with sp spans_of_bounds [OF m this] show ?thesis using shape by (force simp: call_ok_def)
qed

lemma plan_calls_sorted:
  "limits_positive l \<Longrightarrow> plan_calls gaps l = Some cs \<Longrightarrow>
   sorted (map (\<lambda>c. (call_start c, call_end c)) cs)"
  by (auto simp: plan_calls_def limits_positive_def split: Option.bind_splits
      intro!: calls_of_sorted)

section \<open>Every missing instant is fetched exactly once\<close>

text \<open>How many calls of a plan ask for a point at an instant (with multiplicity).\<close>

definition times_asked :: "call list \<Rightarrow> point_ref \<Rightarrow> ns \<Rightarrow> nat" where
  "times_asked cs p t = size {#w \<in># calls_work cs. fst w = p \<and> in_range (snd w) t#}"

definition count_in :: "(ns \<times> ns) list \<Rightarrow> ns \<Rightarrow> nat" where
  "count_in rs t = length (filter (\<lambda>r. in_range r t) rs)"

lemma count_in_append [simp]: "count_in (a @ b) t = count_in a t + count_in b t"
  by (simp add: count_in_def)

lemma count_in_tiles: "tiles lo e m ss \<Longrightarrow> 0 < m \<Longrightarrow> count_in ss t = (if lo \<le> t \<and> t < e then 1 else 0)"
proof (induction ss arbitrary: lo)
  case Nil
  then show ?case by (auto simp: count_in_def)
next
  case (Cons s ss)
  then have "count_in ss t = (if min e (lo + m) \<le> t \<and> t < e then 1 else 0)" by simp
  with Cons.prems show ?case by (auto simp: count_in_def in_range_def)
qed

lemma count_in_spans_of: "0 < m \<Longrightarrow> spans_of rs m = Some ss \<Longrightarrow> count_in ss t = count_in rs t"
proof (induction rs arbitrary: ss)
  case Nil
  then show ?case by simp
next
  case (Cons r rs)
  obtain lo hi where r: "r = (lo, hi)" by (cases r)
  obtain a where a: "spans lo hi m = Some a" "tiles lo hi m a" using spans_tiles [OF Cons.prems(1)] by blast
  with Cons.prems(2) r obtain b where b: "spans_of rs m = Some b" "ss = a @ b"
    by (auto split: Option.bind_splits)
  show ?case using Cons.IH [OF Cons.prems(1) b(1)] count_in_tiles [OF a(2) Cons.prems(1), of t] b(2) r
    by (simp add: count_in_def)
qed

lemma count_in_separated: "separated rs \<Longrightarrow> count_in rs t = (if in_some rs t then 1 else 0)"
proof (induction rs)
  case Nil
  then show ?case by (simp add: count_in_def)
next
  case (Cons r rs)
  have "separated rs" using Cons.prems by (simp add: separated_def)
  moreover have "in_range r t \<Longrightarrow> \<not> in_some rs t"
    using Cons.prems by (fastforce simp: separated_def in_some_def in_range_def)
  ultimately show ?case using Cons.IH by (auto simp: count_in_def)
qed

lemma size_filter_pairs:
  "size {#w \<in># mset (map (Pair q) ss). fst w = p \<and> in_range (snd w) t#} = (if q = p then count_in ss t else 0)"
  by (induction ss) (auto simp: count_in_def)

lemma times_gaps_work:
  "0 < m \<Longrightarrow> size {#w \<in># gaps_work gaps m. fst w = p \<and> in_range (snd w) t#}
   = (\<Sum>g\<leftarrow>gaps. if fst g = p then count_in (snd g) t else 0)"
proof (induction gaps)
  case Nil
  then show ?case by (simp add: gaps_work_def)
next
  case (Cons g gaps)
  obtain ss where ss: "spans_of (snd g) m = Some ss" using spans_of_total [OF Cons.prems] by blast
  have "gaps_work (g # gaps) m = mset (map (Pair (fst g)) ss) + gaps_work gaps m"
    using ss by (simp add: gaps_work_def)
  with Cons count_in_spans_of [OF Cons.prems ss] show ?case
    by (simp add: size_filter_pairs [unfolded mset_map])
qed

lemma sum_distinct_gaps:
  "distinct (map fst gaps) \<Longrightarrow> (\<And>g. g \<in> set gaps \<Longrightarrow> separated (snd g)) \<Longrightarrow>
   (\<Sum>g\<leftarrow>gaps. if fst g = p then count_in (snd g) t else 0)
   = (if \<exists>rs. (p, rs) \<in> set gaps \<and> in_some rs t then 1 else 0)"
proof (induction gaps)
  case Nil
  then show ?case by simp
next
  case (Cons g gaps)
  have IH: "(\<Sum>g\<leftarrow>gaps. if fst g = p then count_in (snd g) t else 0)
      = (if \<exists>rs. (p, rs) \<in> set gaps \<and> in_some rs t then 1 else 0)"
    using Cons by simp
  show ?case
  proof (cases "fst g = p")
    case True
    have none: "\<not> (\<exists>rs. (p, rs) \<in> set gaps)"
    proof
      assume "\<exists>rs. (p, rs) \<in> set gaps"
      then have "p \<in> fst ` set gaps" by force
      with True Cons.prems(1) show False by simp
    qed
    moreover have "count_in (snd g) t = (if in_some (snd g) t then 1 else 0)"
      using Cons.prems(2) [of g] by (simp add: count_in_separated)
    moreover have "(\<exists>rs. (p, rs) \<in> set (g # gaps) \<and> in_some rs t) \<longleftrightarrow> in_some (snd g) t"
      using True none by (cases g) auto
    ultimately show ?thesis using True IH by auto
  next
    case False
    then have "(\<exists>rs. (p, rs) \<in> set (g # gaps) \<and> in_some rs t) \<longleftrightarrow>
        (\<exists>rs. (p, rs) \<in> set gaps \<and> in_some rs t)" by auto
    with False IH show ?thesis by simp
  qed
qed

lemma times_asked_eq:
  assumes "limits_positive l" and "plan_calls gaps l = Some cs"
    and "distinct (map fst gaps)" and "\<And>g. g \<in> set gaps \<Longrightarrow> separated (snd g)"
  shows "times_asked cs p t = (if \<exists>rs. (p, rs) \<in> set gaps \<and> in_some rs t then 1 else 0)"
proof -
  have "calls_work cs = gaps_work gaps (max_span_ns l)"
    using plan_calls_work [OF assms(1), of gaps] assms(2) by auto
  moreover have "0 < max_span_ns l" using assms(1) by (simp add: limits_positive_def)
  ultimately show ?thesis
    using times_gaps_work [of "max_span_ns l" p t gaps] sum_distinct_gaps [OF assms(3,4)]
    by (simp add: times_asked_def)
qed

section \<open>The pacer\<close>

text \<open>
  One \<^verbatim>\<open>wait()\<close>: the clock reads \<open>now\<close>; the call starts at the returned instant (after
  a sleep of the difference) and the next one not before \<open>interval\<close> later.
\<close>

definition pacer_interval :: "rat \<Rightarrow> rat" where
  "pacer_interval rate = 1 / rate"

definition pacer_wait :: "rat \<Rightarrow> rat option \<Rightarrow> rat \<Rightarrow> rat \<times> rat option" where
  "pacer_wait interval nxt now =
     (let start = (case nxt of Some n \<Rightarrow> if now < n then n else now | None \<Rightarrow> now)
      in (start, Some (start + interval)))"

fun pacer_run :: "rat \<Rightarrow> rat option \<Rightarrow> rat list \<Rightarrow> rat list" where
  "pacer_run interval nxt [] = []"
| "pacer_run interval nxt (now # readings) =
     fst (pacer_wait interval nxt now) # pacer_run interval (snd (pacer_wait interval nxt now)) readings"

lemma pacer_run_from:
  "\<lbrakk>0 \<le> iv; s \<in> set (pacer_run iv (Some n) readings)\<rbrakk> \<Longrightarrow> n \<le> s"
proof (induction readings arbitrary: n)
  case Nil
  then show ?case by simp
next
  case (Cons now rs)
  let ?s = "fst (pacer_wait iv (Some n) now)"
  have "n \<le> ?s" by (simp add: pacer_wait_def Let_def)
  moreover have "snd (pacer_wait iv (Some n) now) = Some (?s + iv)" by (simp add: pacer_wait_def Let_def)
  ultimately show ?case using Cons by fastforce
qed

lemma pacer_run_spaced: "0 \<le> iv \<Longrightarrow> sorted_wrt (\<lambda>a b. a + iv \<le> b) (pacer_run iv nxt readings)"
proof (induction iv nxt readings rule: pacer_run.induct)
  case (1 iv nxt)
  then show ?case by simp
next
  case (2 iv nxt now rs)
  let ?s = "fst (pacer_wait iv nxt now)"
  have "snd (pacer_wait iv nxt now) = Some (?s + iv)" by (simp add: pacer_wait_def Let_def)
  with 2 pacer_run_from [OF "2.prems", of _ "?s + iv" rs] show ?case by simp
qed

end
