(* ===== verification/Secrets.thy ===== *)
theory Secrets
  imports Models Strings "HOL-Library.Countable"
begin

text \<open>
  \<^verbatim>\<open>secrets/__init__.py\<close>: connector credentials at rest.  AES-256-GCM (a library) on the
  compact JSON text of a value is the parameter \<open>cipher\<close>: \<open>seal_with key nonce value aad\<close> and
  \<open>open_with key nonce ciphertext aad\<close>, \<open>None\<close> when the ciphertext does not authenticate; so is the
  hash \<open>hash8\<close> that gives a key's id.  Fresh nonces and the clock are arguments.
\<close>

section \<open>Keyring\<close>

record cipher =
  hash8 :: "string \<Rightarrow> string"
  seal_with :: "string \<Rightarrow> string \<Rightarrow> json \<Rightarrow> string \<Rightarrow> string"
  open_with :: "string \<Rightarrow> string \<Rightarrow> string \<Rightarrow> string \<Rightarrow> json option"

datatype credentials_failure = Unavailable | BadCredentials string

record sealed =
  sealed_key_id :: string
  sealed_nonce :: string
  sealed_ciphertext :: string

record keyring =
  current_id :: string
  ring_keys :: "(string \<times> string) list"

definition make_keyring :: "cipher \<Rightarrow> string \<Rightarrow> string option \<Rightarrow> keyring" where
  "make_keyring C current previous =
     \<lparr>current_id = hash8 C current,
      ring_keys = (case previous of None \<Rightarrow> [(hash8 C current, current)]
        | Some p \<Rightarrow> insert_missing fst (hash8 C p, p) [(hash8 C current, current)])\<rparr>"

definition aad_of :: "uuid \<Rightarrow> uuid \<Rightarrow> string" where
  "aad_of org_id source_id = uuid_str org_id @ '':'' @ uuid_str source_id"

text \<open>\<^verbatim>\<open>json.dumps(..., sort_keys=True)\<close>: the keys of every object in order.\<close>

fun sort_keys :: "json \<Rightarrow> json" where
  "sort_keys (JObj kvs) = JObj (sort_key fst (map (\<lambda>(k, v). (k, sort_keys v)) kvs))"
| "sort_keys (JArr vs) = JArr (map sort_keys vs)"
| "sort_keys v = v"

definition seal :: "cipher \<Rightarrow> keyring \<Rightarrow> uuid \<Rightarrow> uuid \<Rightarrow> jobj \<Rightarrow> string \<Rightarrow> sealed" where
  "seal C k org_id source_id payload nonce =
     \<lparr>sealed_key_id = current_id k, sealed_nonce = nonce,
      sealed_ciphertext = seal_with C (the (map_of (ring_keys k) (current_id k))) nonce
        (sort_keys (JObj payload)) (aad_of org_id source_id)\<rparr>"

definition unseal :: "cipher \<Rightarrow> keyring \<Rightarrow> uuid \<Rightarrow> uuid \<Rightarrow> sealed \<Rightarrow> credentials_failure + jobj" where
  "unseal C k org_id source_id s =
     (case map_of (ring_keys k) (sealed_key_id s) of
        None \<Rightarrow> Inl (BadCredentials (''credentials of source '' @ uuid_str source_id
                     @ '' use an unknown key '' @ sealed_key_id s))
      | Some key \<Rightarrow>
          (case open_with C key (sealed_nonce s) (sealed_ciphertext s) (aad_of org_id source_id) of
             None \<Rightarrow> Inl (BadCredentials (''credentials of source '' @ uuid_str source_id @ '' do not decrypt''))
           | Some (JObj value) \<Rightarrow> Inr value
           | Some _ \<Rightarrow> Inl (BadCredentials (''credentials of source '' @ uuid_str source_id @ '' are not an object''))))"

section \<open>The table of credentials\<close>

definition require_keyring :: "keyring option \<Rightarrow> credentials_failure + keyring" where
  "require_keyring k = expect k Unavailable"

definition replace_credentials :: "source_credentials \<Rightarrow> source_credentials \<Rightarrow> source_credentials" where
  "replace_credentials old new =
     old\<lparr>crd_key_id := crd_key_id new, crd_nonce := crd_nonce new, crd_ciphertext := crd_ciphertext new,
         crd_updated_by := crd_updated_by new, crd_updated_at := crd_updated_at new\<rparr>"

definition store_credentials :: "cipher \<Rightarrow> db \<Rightarrow> keyring option \<Rightarrow> uuid \<Rightarrow> uuid \<Rightarrow> jobj \<Rightarrow> uuid option
    \<Rightarrow> string \<Rightarrow> datetime \<Rightarrow> credentials_failure + db" where
  "store_credentials C d k org_id source_id payload user_id nonce now =
     rbind (require_keyring k) (\<lambda>ring.
       let s = seal C ring org_id source_id payload nonce in
       Inr (d\<lparr>credentials := upsert crd_source_id replace_credentials
          \<lparr>crd_org_id = org_id, crd_source_id = source_id, crd_key_id = sealed_key_id s,
           crd_nonce = sealed_nonce s, crd_ciphertext = sealed_ciphertext s,
           crd_updated_by = user_id, crd_updated_at = now\<rparr> (credentials d)\<rparr>))"

definition clear_credentials :: "db \<Rightarrow> uuid \<Rightarrow> db \<times> bool" where
  "clear_credentials d source_id =
     (d\<lparr>credentials := delete_where (\<lambda>c. crd_source_id c = source_id) (credentials d)\<rparr>,
      \<exists>c \<in> set (credentials d). crd_source_id c = source_id)"

definition credentials_status :: "db \<Rightarrow> uuid \<Rightarrow> datetime option" where
  "credentials_status d source_id =
     map_option crd_updated_at (List.find (\<lambda>c. crd_source_id c = source_id) (credentials d))"

definition sealed_of :: "source_credentials \<Rightarrow> sealed" where
  "sealed_of c = \<lparr>sealed_key_id = crd_key_id c, sealed_nonce = crd_nonce c, sealed_ciphertext = crd_ciphertext c\<rparr>"

definition load_credentials :: "cipher \<Rightarrow> db \<Rightarrow> keyring option \<Rightarrow> uuid \<Rightarrow> uuid
    \<Rightarrow> credentials_failure + jobj option" where
  "load_credentials C d k org_id source_id =
     (case List.find (\<lambda>c. crd_source_id c = source_id) (credentials d) of
        None \<Rightarrow> Inr None
      | Some row \<Rightarrow> rbind (require_keyring k) (\<lambda>ring.
          rbind (unseal C ring org_id source_id (sealed_of row)) (\<lambda>v. Inr (Some v))))"

text \<open>Re-encrypting one row; the nonce of each row is an argument, and so is the clock.\<close>

definition reseal :: "cipher \<Rightarrow> keyring \<Rightarrow> (uuid \<Rightarrow> string) \<Rightarrow> datetime \<Rightarrow> source_credentials
    \<Rightarrow> credentials_failure + source_credentials" where
  "reseal C k nonces now row =
     rbind (unseal C k (crd_org_id row) (crd_source_id row) (sealed_of row)) (\<lambda>payload.
       let s = seal C k (crd_org_id row) (crd_source_id row) payload (nonces (crd_source_id row)) in
       Inr (row\<lparr>crd_key_id := sealed_key_id s, crd_nonce := sealed_nonce s,
                crd_ciphertext := sealed_ciphertext s, crd_updated_at := now\<rparr>))"

fun rotate_rows :: "cipher \<Rightarrow> keyring \<Rightarrow> (uuid \<Rightarrow> string) \<Rightarrow> datetime \<Rightarrow> source_credentials list
    \<Rightarrow> credentials_failure + (source_credentials list \<times> int)" where
  "rotate_rows C k nonces now [] = Inr ([], 0)"
| "rotate_rows C k nonces now (row # rows) =
     (if crd_key_id row = current_id k
      then rbind (rotate_rows C k nonces now rows) (\<lambda>(rs, n). Inr (row # rs, n))
      else rbind (reseal C k nonces now row) (\<lambda>row'.
        rbind (rotate_rows C k nonces now rows) (\<lambda>(rs, n). Inr (row' # rs, n + 1))))"

definition rotate :: "cipher \<Rightarrow> db \<Rightarrow> keyring \<Rightarrow> (uuid \<Rightarrow> string) \<Rightarrow> datetime
    \<Rightarrow> credentials_failure + (db \<times> int)" where
  "rotate C d k nonces now =
     rbind (rotate_rows C k nonces now (credentials d)) (\<lambda>(rows, n). Inr (d\<lparr>credentials := rows\<rparr>, n))"

section \<open>What the cipher promises\<close>

text \<open>
  The documented behaviour of authenticated encryption: opening what was sealed gives the value
  back, and only with the associated data it was sealed with.
\<close>

definition cipher_ok :: "cipher \<Rightarrow> bool" where
  "cipher_ok C \<longleftrightarrow>
     (\<forall>k n v a. open_with C k n (seal_with C k n v a) a = Some v) \<and>
     (\<forall>k n v a k' a'. a' \<noteq> a \<longrightarrow> open_with C k' n (seal_with C k n v a) a' = None)"

definition sorted_payload :: "jobj \<Rightarrow> jobj" where
  "sorted_payload p = sort_key fst (map (\<lambda>(k, v). (k, sort_keys v)) p)"

lemma sort_keys_obj: "sort_keys (JObj p) = JObj (sorted_payload p)"
  by (simp add: sorted_payload_def)

lemma make_keyring_current: "map_of (ring_keys (make_keyring C cur prev)) (current_id (make_keyring C cur prev)) = Some cur"
  by (auto simp: make_keyring_def insert_missing_def split: option.splits)

lemma make_keyring_id [simp]: "current_id (make_keyring C cur prev) = hash8 C cur"
  by (simp add: make_keyring_def)

lemma unseal_seal:
  "cipher_ok C \<Longrightarrow> unseal C (make_keyring C cur prev') o' s (seal C (make_keyring C cur prev) o' s p n)
     = Inr (sorted_payload p)"
  using make_keyring_current [of C cur prev] make_keyring_current [of C cur prev']
  by (simp add: unseal_def seal_def cipher_ok_def sort_keys_obj del: sort_keys.simps)

lemma aad_of_inj:
  "\<lbrakk>o1 < 2 ^ 128; o2 < 2 ^ 128; s1 < 2 ^ 128; s2 < 2 ^ 128; aad_of o1 s1 = aad_of o2 s2\<rbrakk>
   \<Longrightarrow> o1 = o2 \<and> s1 = s2"
  using uuid_str_inj by (simp add: aad_of_def)

section \<open>Facts\<close>

text \<open>Stored credentials are what the next load returns, and no other source's are touched.\<close>

lemma store_then_load:
  assumes "cipher_ok C" and "store_credentials C d (Some (make_keyring C cur prev)) org s p u n now = Inr d'"
  shows "load_credentials C d' (Some (make_keyring C cur prev')) org s = Inr (Some (sorted_payload p))"
    and "s' \<noteq> s \<Longrightarrow> load_credentials C d' k org' s' = load_credentials C d k org' s'"
    and "credentials_status d' s = Some now"
proof -
  let ?S = "seal C (make_keyring C cur prev) org s p n"
  let ?row = "\<lparr>crd_org_id = org, crd_source_id = s, crd_key_id = sealed_key_id ?S, crd_nonce = sealed_nonce ?S,
           crd_ciphertext = sealed_ciphertext ?S, crd_updated_by = u, crd_updated_at = now\<rparr>"
  have d': "d' = d\<lparr>credentials := upsert crd_source_id replace_credentials ?row (credentials d)\<rparr>"
    using assms(2) by (simp add: store_credentials_def require_keyring_def Let_def)
  have find: "List.find (\<lambda>r. crd_source_id r = i) (upsert crd_source_id replace_credentials ?row (credentials d)) =
     (if i = s then (case List.find (\<lambda>r. crd_source_id r = i) (credentials d) of None \<Rightarrow> Some ?row
        | Some old \<Rightarrow> Some (replace_credentials old ?row))
      else List.find (\<lambda>r. crd_source_id r = i) (credentials d))" for i
    by (subst find_upsert) (auto simp: replace_credentials_def)
  have "sealed_of ?row = ?S" "sealed_of (replace_credentials old ?row) = ?S" for old
    by (simp_all add: sealed_of_def replace_credentials_def)
  then show "load_credentials C d' (Some (make_keyring C cur prev')) org s = Inr (Some (sorted_payload p))"
    using unseal_seal [OF assms(1), of cur prev' org s prev p n]
    by (auto simp: load_credentials_def d' find require_keyring_def split: option.splits)
  show "s' \<noteq> s \<Longrightarrow> load_credentials C d' k org' s' = load_credentials C d k org' s'"
    by (simp add: load_credentials_def d' find)
  show "credentials_status d' s = Some now"
    by (auto simp: credentials_status_def d' find replace_credentials_def split: option.splits)
qed

text \<open>A row copied to another source (or org) does not decrypt there.\<close>

lemma copied_row_refused:
  assumes "cipher_ok C" and "(org', s') \<noteq> (org, s)"
    and "org < 2 ^ 128" "s < 2 ^ 128" "org' < 2 ^ 128" "s' < 2 ^ 128"
  shows "\<exists>msg. unseal C k org' s' (seal C ring org s p n) = Inl (BadCredentials msg)"
proof -
  have "aad_of org' s' \<noteq> aad_of org s" using aad_of_inj assms(2-) by blast
  then have "open_with C key n (seal_with C key' n v (aad_of org s)) (aad_of org' s') = None" for key key' v
    using assms(1) by (simp add: cipher_ok_def)
  then show ?thesis by (auto simp: unseal_def seal_def split: option.splits)
qed

text \<open>Rotation re-encrypts every row not under the current key, and no value changes.\<close>

lemma reseal_opens:
  assumes "cipher_ok C" and "reseal C (make_keyring C cur prev) nonces now row = Inr row'"
  shows "crd_source_id row' = crd_source_id row \<and> crd_org_id row' = crd_org_id row
    \<and> crd_key_id row' = hash8 C cur
    \<and> (\<exists>p. unseal C (make_keyring C cur prev) (crd_org_id row) (crd_source_id row) (sealed_of row) = Inr p
        \<and> unseal C (make_keyring C cur None) (crd_org_id row) (crd_source_id row) (sealed_of row')
            = Inr (sorted_payload p))"
proof -
  from assms(2) obtain p where p:
      "unseal C (make_keyring C cur prev) (crd_org_id row) (crd_source_id row) (sealed_of row) = Inr p"
      and row': "row' = (let s = seal C (make_keyring C cur prev) (crd_org_id row) (crd_source_id row) p
         (nonces (crd_source_id row)) in row\<lparr>crd_key_id := sealed_key_id s, crd_nonce := sealed_nonce s,
                crd_ciphertext := sealed_ciphertext s, crd_updated_at := now\<rparr>)"
    by (auto simp: reseal_def result_simps Let_def)
  have "sealed_of row' = seal C (make_keyring C cur prev) (crd_org_id row) (crd_source_id row) p
      (nonces (crd_source_id row))"
    by (simp add: row' sealed_of_def Let_def)
  then show ?thesis
    using p unseal_seal [OF assms(1), of cur None "crd_org_id row" "crd_source_id row" prev p]
    by (simp add: row' Let_def seal_def)
qed

lemma rotate_rows_opens:
  assumes "cipher_ok C"
  shows "rotate_rows C (make_keyring C cur prev) nonces now rows = Inr (rows', n) \<Longrightarrow>
   list_all2 (\<lambda>row row'. crd_source_id row' = crd_source_id row \<and> crd_org_id row' = crd_org_id row
     \<and> crd_key_id row' = hash8 C cur
     \<and> (crd_key_id row = hash8 C cur \<longrightarrow> row' = row)
     \<and> (crd_key_id row \<noteq> hash8 C cur \<longrightarrow>
        reseal C (make_keyring C cur prev) nonces now row = Inr row')) rows rows'
   \<and> n = int (length (filter (\<lambda>r. crd_key_id r \<noteq> hash8 C cur) rows))"
proof (induction rows arbitrary: rows' n)
  case Nil
  then show ?case by simp
next
  case (Cons row rows)
  show ?case
  proof (cases "crd_key_id row = hash8 C cur")
    case True
    with Cons show ?thesis by (auto simp: result_simps)
  next
    case False
    with Cons.prems obtain row' rs m where "reseal C (make_keyring C cur prev) nonces now row = Inr row'"
      "rotate_rows C (make_keyring C cur prev) nonces now rows = Inr (rs, m)" "rows' = row' # rs" "n = m + 1"
      by (auto simp: result_simps)
    with Cons.IH False reseal_opens [OF assms] show ?thesis by fastforce
  qed
qed

lemma list_all2_find:
  "list_all2 R xs ys \<Longrightarrow> (\<And>x y. x \<in> set xs \<Longrightarrow> R x y \<Longrightarrow> P y = Q x) \<Longrightarrow>
   (case List.find Q xs of None \<Rightarrow> List.find P ys = None
    | Some x \<Rightarrow> \<exists>y. List.find P ys = Some y \<and> R x y)"
  by (induction rule: list_all2_induct) (auto split: option.splits)

lemma unseal_current:
  "sealed_key_id s = hash8 C cur \<Longrightarrow>
   unseal C (make_keyring C cur prev) o' i s = unseal C (make_keyring C cur prev') o' i s"
  using make_keyring_current [of C cur prev] make_keyring_current [of C cur prev']
  by (simp add: unseal_def)

lemma rotate_find:
  assumes "cipher_ok C" and "rotate C d (make_keyring C cur prev) nonces now = Inr (d', n)"
    and "List.find (\<lambda>c. crd_source_id c = s) (credentials d) = Some row"
  shows "\<exists>row'. List.find (\<lambda>c. crd_source_id c = s) (credentials d') = Some row'
     \<and> crd_key_id row' = hash8 C cur
     \<and> (row' = row \<or> reseal C (make_keyring C cur prev) nonces now row = Inr row')"
proof -
  from assms(2) obtain rows where rows: "d' = d\<lparr>credentials := rows\<rparr>"
      "rotate_rows C (make_keyring C cur prev) nonces now (credentials d) = Inr (rows, n)"
    by (auto simp: rotate_def result_simps)
  from list_all2_find [OF conjunct1 [OF rotate_rows_opens [OF assms(1) rows(2)]],
      of "\<lambda>c. crd_source_id c = s" "\<lambda>c. crd_source_id c = s"]
  show ?thesis using assms(3) rows(1) by auto
qed

lemma rotate_keeps_values:
  assumes "cipher_ok C" and "rotate C d (make_keyring C cur prev) nonces now = Inr (d', n)"
    and "List.find (\<lambda>c. crd_source_id c = s) (credentials d) = Some row"
    and "load_credentials C d (Some (make_keyring C cur prev)) (crd_org_id row) s = Inr (Some p)"
  shows "\<exists>q. load_credentials C d' (Some (make_keyring C cur None)) (crd_org_id row) s = Inr (Some q)
     \<and> (q = p \<or> q = sorted_payload p)"
proof -
  have sid: "crd_source_id row = s" using find_SomeD [OF assms(3)] by simp
  from assms(3,4) have p: "unseal C (make_keyring C cur prev) (crd_org_id row) s (sealed_of row) = Inr p"
    by (auto simp: load_credentials_def require_keyring_def result_simps)
  obtain row' where row': "List.find (\<lambda>c. crd_source_id c = s) (credentials d') = Some row'"
      "crd_key_id row' = hash8 C cur"
      "row' = row \<or> reseal C (make_keyring C cur prev) nonces now row = Inr row'"
    using rotate_find [OF assms(1-3)] by blast
  have "\<exists>q. unseal C (make_keyring C cur None) (crd_org_id row) s (sealed_of row') = Inr q
     \<and> (q = p \<or> q = sorted_payload p)"
  proof (cases "row' = row")
    case True
    with p row'(2) show ?thesis
      using unseal_current [of "sealed_of row" C cur prev "crd_org_id row" s None] by (simp add: sealed_of_def)
  next
    case False
    with row'(3) have "reseal C (make_keyring C cur prev) nonces now row = Inr row'" by simp
    from reseal_opens [OF assms(1) this] p sid show ?thesis by auto
  qed
  with row'(1) show ?thesis by (auto simp: load_credentials_def require_keyring_def)
qed

lemma rotate_all_current:
  assumes "cipher_ok C" and "rotate C d (make_keyring C cur prev) nonces now = Inr (d', n)"
  shows "\<forall>c \<in> set (credentials d'). crd_key_id c = hash8 C cur"
    and "n = int (length (filter (\<lambda>r. crd_key_id r \<noteq> hash8 C cur) (credentials d)))"
proof -
  from assms(2) obtain rows where rows: "d' = d\<lparr>credentials := rows\<rparr>"
      "rotate_rows C (make_keyring C cur prev) nonces now (credentials d) = Inr (rows, n)"
    by (auto simp: rotate_def result_simps)
  note all = rotate_rows_opens [OF assms(1) rows(2)]
  show "\<forall>c \<in> set (credentials d'). crd_key_id c = hash8 C cur"
    using conjunct1 [OF all] rows(1) by (fastforce simp: list_all2_conv_all_nth in_set_conv_nth)
  show "n = int (length (filter (\<lambda>r. crd_key_id r \<noteq> hash8 C cur) (credentials d)))"
    by (rule conjunct2 [OF all])
qed

section \<open>Properties of credentials\<close>

text \<open>C14: stored credentials are what every later load of the source returns (with the keys of its
  objects in order), also after the keyring lost its previous key; their status is the time of the store,
  and no other source's credentials are touched.\<close>

theorem credentials_roundtrip:
  assumes "cipher_ok C" and "store_credentials C d (Some (make_keyring C cur prev)) org s p u n now = Inr d'"
  shows "load_credentials C d' (Some (make_keyring C cur prev')) org s = Inr (Some (sorted_payload p))
    \<and> credentials_status d' s = Some now
    \<and> (\<forall>s' k org'. s' \<noteq> s \<longrightarrow> load_credentials C d' k org' s' = load_credentials C d k org' s')"
  using store_then_load [OF assms] by blast

text \<open>A ciphertext moved to a row of another source or org is refused there, under whatever keys.\<close>

theorem copied_credentials_refused:
  assumes "cipher_ok C" and "(org', s') \<noteq> (org, s)"
    and "org < 2 ^ 128" and "s < 2 ^ 128" and "org' < 2 ^ 128" and "s' < 2 ^ 128"
    and "List.find (\<lambda>c. crd_source_id c = s') (credentials d) = Some row"
    and "sealed_of row = seal C ring org s p n"
  shows "\<exists>msg. load_credentials C d (Some k) org' s' = Inl (BadCredentials msg)"
  using copied_row_refused [OF assms(1-6), of k ring p n] assms(7,8)
  by (auto simp: load_credentials_def require_keyring_def)

text \<open>A rotation that succeeds leaves every row under the current key, counts the rows it rewrote,
  and changes no value: what a source's credentials read as before, they read as after it, with the
  previous key gone from the keyring.\<close>

theorem rotation_keeps_credentials:
  assumes "cipher_ok C" and "rotate C d (make_keyring C cur prev) nonces now = Inr (d', n)"
  shows "(\<forall>c \<in> set (credentials d'). crd_key_id c = hash8 C cur)
    \<and> n = int (length (filter (\<lambda>r. crd_key_id r \<noteq> hash8 C cur) (credentials d)))
    \<and> (\<forall>s row p. List.find (\<lambda>c. crd_source_id c = s) (credentials d) = Some row \<longrightarrow>
         load_credentials C d (Some (make_keyring C cur prev)) (crd_org_id row) s = Inr (Some p) \<longrightarrow>
         (\<exists>q. load_credentials C d' (Some (make_keyring C cur None)) (crd_org_id row) s = Inr (Some q)
            \<and> (q = p \<or> q = sorted_payload p)))"
  using rotate_all_current [OF assms] rotate_keeps_values [OF assms] by blast

section \<open>An example\<close>

text \<open>
  A cipher that keeps the promise: the value and the associated data, numbered and written in unary.
  Its hash of a key is the key.
\<close>

instance json :: countable
  by countable_datatype

definition ex_cipher :: cipher where
  "ex_cipher = \<lparr>hash8 = (\<lambda>k. k),
     seal_with = (\<lambda>k n v a. replicate (to_nat (v, a)) (CHR ''x'')),
     open_with = (\<lambda>k n c a. case from_nat (length c) of (v, a') \<Rightarrow> if a' = a then Some v else None)\<rparr>"

lemma ex_cipher_ok: "cipher_ok ex_cipher"
  by (auto simp: cipher_ok_def ex_cipher_def)

definition ex_ring :: keyring where "ex_ring = make_keyring ex_cipher ''new'' (Some ''old'')"
definition ex_old_ring :: keyring where "ex_old_ring = make_keyring ex_cipher ''old'' None"

lemma ex_stored: obtains d' where "store_credentials ex_cipher empty_db (Some (make_keyring ex_cipher k prev)) 1 5 [(''a'', JInt 3)] None ''n'' 7 = Inr d'"
    "\<exists>row. credentials d' = [row] \<and> crd_source_id row = 5 \<and> crd_org_id row = 1 \<and> crd_key_id row = k
       \<and> sealed_of row = seal ex_cipher (make_keyring ex_cipher k prev) 1 5 [(''a'', JInt 3)] ''n''"
  by (simp add: store_credentials_def require_keyring_def Let_def upsert_def sealed_of_def seal_def ex_cipher_def
      empty_db_def make_keyring_def)

theorem credentials_roundtrip_witness:
  "\<exists>d'. store_credentials ex_cipher empty_db (Some ex_ring) 1 5 [(''a'', JInt 3)] None ''n'' 7 = Inr d'
     \<and> load_credentials ex_cipher d' (Some ex_ring) 1 5 = Inr (Some [(''a'', JInt 3)])"
proof -
  obtain d' where d': "store_credentials ex_cipher empty_db (Some ex_ring) 1 5 [(''a'', JInt 3)] None ''n'' 7 = Inr d'"
    unfolding ex_ring_def by (rule ex_stored)
  have "sorted_payload [(''a'', JInt 3)] = [(''a'', JInt 3)]" by (simp add: sorted_payload_def)
  with credentials_roundtrip [OF ex_cipher_ok d' [unfolded ex_ring_def], of "Some ''old''"] d' show ?thesis
    unfolding ex_ring_def by metis
qed

lemma ex_ids: "(1::nat, 6::nat) \<noteq> (1, 5)" "(1::nat) < 2 ^ 128" "(6::nat) < 2 ^ 128" "(5::nat) < 2 ^ 128"
  by simp_all

theorem copied_credentials_refused_witness:
  "\<exists>d msg. map crd_source_id (credentials d) = [6] \<and> load_credentials ex_cipher d (Some ex_ring) 1 6 = Inl (BadCredentials msg)"
proof -
  obtain d' :: db and row where d': "credentials d' = [row]" "crd_source_id row = 5"
    "sealed_of row = seal ex_cipher (make_keyring ex_cipher ''new'' (Some ''old'')) 1 5 [(''a'', JInt 3)] ''n''"
    by (rule ex_stored [of "''new''" "Some ''old''"]) blast
  let ?d = "d'\<lparr>credentials := [row\<lparr>crd_source_id := 6\<rparr>]\<rparr>"
  have "List.find (\<lambda>c. crd_source_id c = 6) (credentials ?d) = Some (row\<lparr>crd_source_id := 6\<rparr>)" by simp
  moreover have "sealed_of (row\<lparr>crd_source_id := 6\<rparr>) = seal ex_cipher (make_keyring ex_cipher ''new'' (Some ''old'')) 1 5 [(''a'', JInt 3)] ''n''"
    unfolding d'(3) [symmetric] by (simp add: sealed_of_def)
  ultimately have "\<exists>msg. load_credentials ex_cipher ?d (Some ex_ring) 1 6 = Inl (BadCredentials msg)"
    using copied_credentials_refused [OF ex_cipher_ok, of 1 6 1 5 ?d] by (metis ex_ids)
  then show ?thesis by (intro exI [of _ ?d]) simp
qed

theorem rotation_keeps_credentials_witness:
  "\<exists>d d'. rotate ex_cipher d ex_ring (\<lambda>_. ''m'') 9 = Inr (d', 1) \<and> map crd_key_id (credentials d) = [''old''] \<and>
     map crd_key_id (credentials d') = [''new'']"
proof -
  obtain d :: db and row where d: "credentials d = [row]" "crd_source_id row = 5" "crd_org_id row = 1" "crd_key_id row = ''old''"
    "sealed_of row = seal ex_cipher (make_keyring ex_cipher ''old'' None) 1 5 [(''a'', JInt 3)] ''n''"
    by (rule ex_stored [of "''old''" None]) blast
  have hash: "hash8 ex_cipher k = k" for k by (simp add: ex_cipher_def)
  have ids: "map_of (ring_keys ex_ring) ''old'' = Some ''old''" "map_of (ring_keys ex_old_ring) ''old'' = Some ''old''"
    "current_id ex_ring = ''new''"
    by (simp_all add: ex_ring_def ex_old_ring_def make_keyring_def insert_missing_def hash)
  have "unseal ex_cipher ex_ring 1 5 (sealed_of row) = unseal ex_cipher ex_old_ring 1 5 (sealed_of row)"
    using d(4) ids by (simp add: unseal_def sealed_of_def)
  also have "\<dots> = Inr (sorted_payload [(''a'', JInt 3)])"
    unfolding d(5) ex_old_ring_def by (rule unseal_seal [OF ex_cipher_ok])
  finally obtain row' where row': "reseal ex_cipher ex_ring (\<lambda>_. ''m'') 9 row = Inr row'"
    using d(2,3) by (simp add: reseal_def Let_def)
  obtain d' where r: "rotate ex_cipher d ex_ring (\<lambda>_. ''m'') 9 = Inr (d', 1)" and d'c: "credentials d' = [row']"
  proof -
    have "rotate_rows ex_cipher ex_ring (\<lambda>_. ''m'') 9 (credentials d) = Inr ([row'], 1)"
      unfolding d(1) using d(4) ids(3) row' by (simp del: map_update_where_same)
    then have "rotate ex_cipher d ex_ring (\<lambda>_. ''m'') 9 = Inr (d\<lparr>credentials := [row']\<rparr>, 1)"
      by (simp add: rotate_def)
    then show thesis by (rule that) simp
  qed
  from rotation_keeps_credentials [OF ex_cipher_ok r [unfolded ex_ring_def]] d'c have "crd_key_id row' = ''new''"
    by (simp add: hash)
  with r d(1,4) d'c show ?thesis by (intro exI [of _ d] exI [of _ d']) simp
qed

end
