(* ===== verification/Fetches.thy ===== *)
theory Fetches
  imports Plan Secrets
begin

text \<open>
  \<^verbatim>\<open>services/fetches.py\<close>: the fetch engine.  A fetch row is claimed, its gaps planned as
  calls, each call's batches written to the cache and its span recorded as covered up to the
  settled end, and the outcome stored on the row and in the source's health.

  What the engine uses from outside is the record \<open>env\<close>: the store the cache writes to (the rows
  written or an error), the connector a source builds, the cipher and keyring, and the readings
  of the clocks, one per place the code reads them.
\<close>

section \<open>Constants\<close>

definition DEGRADED_AFTER :: int where "DEGRADED_AFTER = 1"
definition FAILING_AFTER :: int where "FAILING_AFTER = 3"
definition KEEP_FOR :: int where "KEEP_FOR = 30 * 86400 * 1000000"
definition QUALITIES :: "string list" where "QUALITIES = [''good'', ''uncertain'', ''bad'', ''estimated'']"
definition INTERNAL_ERROR :: string where "INTERNAL_ERROR = ''internal connector error''"
definition BUDGET_SPENT :: string where "BUDGET_SPENT = ''fetch budget spent''"
definition NO_MASTER_KEY :: string where
  "NO_MASTER_KEY = ''credentials unavailable: TABAYYUN_MASTER_KEY is not set''"

definition WINDOW_TRIGGERS :: "fetch_trigger list" where "WINDOW_TRIGGERS = [FManual, FPoll, FRun]"
definition DATA_TRIGGERS :: "fetch_trigger list" where "DATA_TRIGGERS = [FManual, FPoll, FRun, FIngest]"
definition TASK_TRIGGERS :: "fetch_trigger list" where "TASK_TRIGGERS = [FCheck, FSearch, FMetadata]"

definition FETCH_QUEUE :: string where "FETCH_QUEUE = ''fetch''"
definition FETCH_WINDOW_TASK :: string where "FETCH_WINDOW_TASK = ''tabayyun.fetch_window''"
definition CHECK_SOURCE_TASK :: string where "CHECK_SOURCE_TASK = ''tabayyun.check_source''"
definition INGEST_SOURCE_TASK :: string where "INGEST_SOURCE_TASK = ''tabayyun.ingest_source''"

section \<open>What a connector gives\<close>

text \<open>
  A batch is a table: \<open>Malformed\<close> when it does not cast to \<^verbatim>\<open>BATCH_SCHEMA\<close>, otherwise its
  rows of instant, value and quality (\<open>None\<close> for null).  The stream of one call ends normally,
  with a connector error, or with any other exception.
\<close>

type_synonym batch_row = "ns \<times> rat option \<times> string option"

datatype batch = Malformed | Batch "batch_row list"

datatype fetch_item = ItemRows uuid batch | ItemFailure uuid string

datatype stream_end = StreamDone | StreamConnErr string bool | StreamCrash

fun item_series :: "fetch_item \<Rightarrow> uuid" where
  "item_series (ItemRows i b) = i"
| "item_series (ItemFailure i m) = i"

record connector =
  cn_config :: connector_config
  cn_limits :: limits
  cn_fetch :: "point_ref list \<Rightarrow> ns \<Rightarrow> ns \<Rightarrow> fetch_item list \<times> stream_end"

datatype stop = StopError string bool

record fetch_outcome =
  fo_status :: fetch_status
  fo_calls :: int
  fo_rows :: int
  fo_error :: "string option"
  fo_retryable :: bool
  fo_series_rows :: "(uuid \<times> int) list"
  fo_point_errors :: "(uuid \<times> string) list"
  fo_result :: "jobj option"

definition new_outcome :: "fetch_status \<Rightarrow> string option \<Rightarrow> fetch_outcome" where
  "new_outcome st err = \<lparr>fo_status = st, fo_calls = 0, fo_rows = 0, fo_error = err, fo_retryable = False,
     fo_series_rows = [], fo_point_errors = [], fo_result = None\<rparr>"

record job_plan =
  jp_source_id :: uuid
  jp_org_id :: uuid
  jp_connector :: connector
  jp_calls :: "call list"
  jp_settle_ns :: int
  jp_trigger :: fetch_trigger
  jp_params :: "jobj option"
  jp_series_ids :: "uuid list option"
  jp_workspace_id :: uuid

record env =
  e_cache :: "(uuid \<Rightarrow> batch_row list \<Rightarrow> string + int) option"
  e_cipher :: cipher
  e_keyring :: "keyring option"
  e_build :: "source_type \<Rightarrow> jobj \<Rightarrow> jobj option \<Rightarrow> string + connector"
  e_now_prepare :: datetime
  e_now_call :: "nat \<Rightarrow> datetime"
  e_now_finish :: datetime
  e_mono :: "nat \<Rightarrow> rat"

text \<open>The state of one execution: the database, the writes the cache accepted, the outcome.\<close>

record fstate =
  fs_db :: db
  fs_cache :: "(uuid \<times> batch_row list) list"
  fs_out :: fetch_outcome

section \<open>Creation\<close>

definition create_fetch :: "db \<Rightarrow> source \<Rightarrow> uuid \<Rightarrow> fetch_trigger \<Rightarrow> datetime \<Rightarrow> datetime \<Rightarrow>
    uuid list option \<Rightarrow> bool \<Rightarrow> uuid option \<Rightarrow> uuid option \<Rightarrow> fetch_status \<Rightarrow> jobj option \<Rightarrow>
    datetime \<Rightarrow> db \<times> source_fetch" where
  "create_fetch d s new_id trigger start end_at series_ids force user_id for_run status params now =
     (let f = \<lparr>sf_org_id = src_org_id s, sf_workspace_id = src_workspace_id s, sf_id = new_id,
               sf_source_id = src_id s, sf_trigger = trigger, sf_status = status,
               sf_window_start = start, sf_window_end = end_at, sf_series_ids = series_ids,
               sf_force = force, sf_calls = 0, sf_rows = 0, sf_error = None,
               sf_requested_by = user_id, sf_run_id = for_run, sf_params = params, sf_result = None,
               sf_created_at = now, sf_started_at = None, sf_finished_at = None\<rparr>
      in (d\<lparr>source_fetches := source_fetches d @ [f]\<rparr>, f))"

definition fetch_task :: "fetch_trigger \<Rightarrow> string" where
  "fetch_task t = (if t \<in> set TASK_TRIGGERS then CHECK_SOURCE_TASK
                   else if t = FIngest then INGEST_SOURCE_TASK else FETCH_WINDOW_TASK)"

definition enqueue :: "db \<Rightarrow> source_fetch \<Rightarrow> db" where
  "enqueue d f = d\<lparr>jobs := jobs d @ [\<lparr>job_queue = FETCH_QUEUE, job_task = fetch_task (sf_trigger f),
     job_lock = Some (sf_source_id f), job_args = (sf_id f, sf_org_id f)\<rparr>]\<rparr>"

definition get_fetch :: "db \<Rightarrow> uuid \<Rightarrow> source_fetch option" where
  "get_fetch d i = List.find (\<lambda>f. sf_id f = i) (source_fetches d)"

definition get_source :: "db \<Rightarrow> uuid \<Rightarrow> source option" where
  "get_source d i = List.find (\<lambda>s. src_id s = i) (sources d)"

definition set_fetch :: "db \<Rightarrow> uuid \<Rightarrow> (source_fetch \<Rightarrow> source_fetch) \<Rightarrow> db" where
  "set_fetch d i g = d\<lparr>source_fetches := update_where (\<lambda>f. sf_id f = i) g (source_fetches d)\<rparr>"

definition set_source :: "db \<Rightarrow> uuid \<Rightarrow> (source \<Rightarrow> source) \<Rightarrow> db" where
  "set_source d i g = d\<lparr>sources := update_where (\<lambda>s. src_id s = i) g (sources d)\<rparr>"

section \<open>Planning a fetch\<close>

definition fetch_points :: "db \<Rightarrow> uuid \<Rightarrow> uuid list option \<Rightarrow> point_ref list" where
  "fetch_points d source_id ids =
     map (\<lambda>s. \<lparr>pt_series_id = ser_id s, pt_external_id = ser_external_id s\<rparr>)
       (sort_key ser_external_id
         (filter (\<lambda>s. ser_source_id s = source_id \<and>
                    (case ids of None \<Rightarrow> True | Some is \<Rightarrow> ser_id s \<in> set is)) (all_series d)))"

definition point_gaps :: "db \<Rightarrow> source_fetch \<Rightarrow> point_ref \<Rightarrow> (ns \<times> ns) list" where
  "point_gaps d f p =
     (let s = datetime_to_ns (sf_window_start f); e = datetime_to_ns (sf_window_end f)
      in if sf_force f then [(s, e)]
         else missing_ranges (covered_ranges d (pt_series_id p) RAW_LAYER) s e)"

definition fetch_gaps :: "db \<Rightarrow> source \<Rightarrow> source_fetch \<Rightarrow> (point_ref \<times> (ns \<times> ns) list) list" where
  "fetch_gaps d src f =
     filter (\<lambda>g. snd g \<noteq> [])
       (map (\<lambda>p. (p, point_gaps d f p)) (fetch_points d (src_id src) (sf_series_ids f)))"

text \<open>
  \<open>NotToRun\<close> is the return of None, \<open>Stopped\<close> a raised \<^verbatim>\<open>StopError\<close> (its transaction rolls
  back), \<open>Broken\<close> any other raise or a planning loop that does not end.
\<close>

datatype prepared = NotToRun | Stopped string | Broken | Prepared db job_plan

definition prepare :: "env \<Rightarrow> db \<Rightarrow> uuid \<Rightarrow> bool \<Rightarrow> prepared" where
  "prepare E d fetch_id with_calls =
     (case get_fetch d fetch_id of
        None \<Rightarrow> NotToRun
      | Some f \<Rightarrow>
          if sf_status f \<noteq> FetchQueued \<and> sf_status f \<noteq> FetchPartial then NotToRun
          else (case get_source d (sf_source_id f) of
              None \<Rightarrow> Stopped ''source deleted''
            | Some src \<Rightarrow>
                let d' = set_fetch d fetch_id (\<lambda>r. r\<lparr>sf_status := FetchRunning,
                      sf_started_at := (case sf_started_at r of None \<Rightarrow> Some (e_now_prepare E) | Some t \<Rightarrow> Some t)\<rparr>)
                in if \<not> src_enabled src \<and> sf_trigger f \<in> set DATA_TRIGGERS then Stopped ''source disabled''
                   else (case load_credentials (e_cipher E) d (e_keyring E) (src_org_id src) (src_id src) of
                       Inl Unavailable \<Rightarrow> Stopped NO_MASTER_KEY
                     | Inl (BadCredentials msg) \<Rightarrow> Stopped msg
                     | Inr creds \<Rightarrow>
                         (case e_build E (src_type src) (src_config src) creds of
                            Inl msg \<Rightarrow> Stopped msg
                          | Inr cn \<Rightarrow>
                              (case (if with_calls
                                     then plan_calls (fetch_gaps d src f)
                                            (limits_within (cn_limits cn) (limits_of (cn_config cn)))
                                     else Some []) of
                                 None \<Rightarrow> Broken
                               | Some cs \<Rightarrow> Prepared d'
                                   \<lparr>jp_source_id = src_id src, jp_org_id = src_org_id src, jp_connector = cn,
                                    jp_calls = cs, jp_settle_ns = cfg_settle_s (cn_config cn) * SECOND_NS,
                                    jp_trigger = sf_trigger f, jp_params = sf_params f,
                                    jp_series_ids = sf_series_ids f,
                                    jp_workspace_id = src_workspace_id src\<rparr>)))))"

section \<open>One call\<close>

text \<open>Assignment on an insertion-ordered dict, and \<^verbatim>\<open>defaultdict(list)[k].append(x)\<close>.\<close>

fun dict_set :: "'k \<Rightarrow> 'v \<Rightarrow> ('k \<times> 'v) list \<Rightarrow> ('k \<times> 'v) list" where
  "dict_set k v [] = [(k, v)]"
| "dict_set k v ((k', v') # kvs) = (if k' = k then (k, v) # kvs else (k', v') # dict_set k v kvs)"

fun dict_append :: "'k \<Rightarrow> 'v list \<Rightarrow> ('k \<times> 'v list) list \<Rightarrow> ('k \<times> 'v list) list" where
  "dict_append k xs [] = [(k, xs)]"
| "dict_append k xs ((k', ys) # kvs) = (if k' = k then (k', ys @ xs) # kvs else (k', ys) # dict_append k xs kvs)"

definition checked :: "batch \<Rightarrow> stop + batch_row list" where
  "checked b = (case b of
     Malformed \<Rightarrow> Inl (StopError ''connector returned a malformed batch'' False)
   | Batch rows \<Rightarrow>
       (if \<forall>r \<in> set rows. case snd (snd r) of None \<Rightarrow> False | Some q \<Rightarrow> q \<in> set QUALITIES
        then Inr rows
        else Inl (StopError ''connector returned an unknown quality'' False)))"

text \<open>
  The loop over a call's stream: the tables per series and the series that failed; the point
  errors are written to the outcome as they come, so they survive a stop.
\<close>

type_synonym tables = "(uuid \<times> batch_row list) list"

fun collect :: "uuid set \<Rightarrow> fetch_item list \<Rightarrow> stream_end \<Rightarrow> tables \<Rightarrow> uuid list \<Rightarrow> (uuid \<times> string) list
    \<Rightarrow> (uuid \<times> string) list \<times> (stop + tables \<times> uuid list)" where
  "collect wanted [] StreamDone tabs failed errs = (errs, Inr (tabs, failed))"
| "collect wanted [] (StreamConnErr msg retryable) tabs failed errs = (errs, Inl (StopError msg retryable))"
| "collect wanted [] StreamCrash tabs failed errs = (errs, Inl (StopError INTERNAL_ERROR False))"
| "collect wanted (item # items) fin tabs failed errs =
     (if item_series item \<notin> wanted
      then (errs, Inl (StopError ''connector returned rows for a point it was not asked for'' False))
      else (case item of
          ItemFailure i msg \<Rightarrow> collect wanted items fin tabs (List.insert i failed) (dict_set i (take 500 msg) errs)
        | ItemRows i b \<Rightarrow>
            (case checked b of
               Inl s \<Rightarrow> (errs, Inl s)
             | Inr rows \<Rightarrow> collect wanted items fin (dict_append i rows tabs) failed errs)))"

text \<open>
  Writing the tables in order, skipping failed points and empty tables.  The first component is
  the state the writes left, also when one of them stops the call.
\<close>

fun write_tables :: "(uuid \<Rightarrow> batch_row list \<Rightarrow> string + int) \<Rightarrow> tables \<Rightarrow> uuid list \<Rightarrow> fstate \<Rightarrow> int
    \<Rightarrow> fstate \<times> (stop + int)" where
  "write_tables w [] failed st n = (st, Inr n)"
| "write_tables w ((i, rows) # tabs) failed st n =
     (if i \<in> set failed \<or> rows = [] then write_tables w tabs failed st n
      else (case w i rows of
          Inl msg \<Rightarrow> (st, Inl (StopError (''cache write failed: '' @ msg) True))
        | Inr written \<Rightarrow>
            write_tables w tabs failed
              (st\<lparr>fs_cache := fs_cache st @ [(i, rows)],
                  fs_out := (fs_out st)\<lparr>fo_series_rows :=
                     (let old = fo_series_rows (fs_out st)
                      in dict_set i ((case map_of old i of None \<Rightarrow> 0 | Some k \<Rightarrow> k) + written) old)\<rparr>\<rparr>)
              (n + written)))"

fun record_points :: "point_ref list \<Rightarrow> uuid list \<Rightarrow> uuid \<Rightarrow> ns \<Rightarrow> ns \<Rightarrow> (uuid \<times> int) list \<Rightarrow> datetime \<Rightarrow> db \<Rightarrow> db" where
  "record_points [] failed org_id start_ns end_ns rows now d = d"
| "record_points (p # ps) failed org_id start_ns end_ns rows now d =
     record_points ps failed org_id start_ns end_ns rows now
       (if pt_series_id p \<in> set failed then d
        else coverage_record d org_id (pt_series_id p) start_ns end_ns
               (case map_of rows (pt_series_id p) of None \<Rightarrow> 0 | Some k \<Rightarrow> k) now RAW_LAYER)"

definition run_call :: "env \<Rightarrow> job_plan \<Rightarrow> uuid \<Rightarrow> nat \<Rightarrow> call \<Rightarrow> fstate \<Rightarrow> fstate \<times> (stop + int)" where
  "run_call E plan fetch_id k c st =
     (let wanted = pt_series_id ` set (call_points c);
          stream = cn_fetch (jp_connector plan) (call_points c) (call_start c) (call_end c);
          got = collect wanted (fst stream) (snd stream) [] [] (fo_point_errors (fs_out st));
          st1 = st\<lparr>fs_out := (fs_out st)\<lparr>fo_point_errors := fst got\<rparr>\<rparr>
      in (case snd got of
            Inl s \<Rightarrow> (st1, Inl s)
          | Inr (tabs, failed) \<Rightarrow>
              (if e_cache E = None \<and> tabs \<noteq> [] then (st1, Inl (StopError ''no cache configured'' False))
               else (case write_tables (case e_cache E of Some w \<Rightarrow> w | None \<Rightarrow> (\<lambda>i rows. Inl [])) tabs failed st1 0 of
                   (st2, Inl s) \<Rightarrow> (st2, Inl s)
                 | (st2, Inr rows) \<Rightarrow>
                     (let now = e_now_call E k;
                          covered_end = settled_end (call_end c) (datetime_to_ns now) (jp_settle_ns plan);
                          d1 = (if call_start c < covered_end
                                then record_points (call_points c) failed (jp_org_id plan) (call_start c)
                                       covered_end (fo_series_rows (fs_out st2)) now (fs_db st2)
                                else fs_db st2);
                          d2 = set_fetch d1 fetch_id (\<lambda>f. f\<lparr>sf_calls := sf_calls f + 1, sf_rows := sf_rows f + rows\<rparr>)
                      in (st2\<lparr>fs_db := d2\<rparr>, Inr rows))))))"

section \<open>The whole fetch\<close>

text \<open>
  The loop over the planned calls, its k-th iteration; a deadline stops it before a call that
  would start after it.
\<close>

fun run_calls :: "env \<Rightarrow> rat option \<Rightarrow> job_plan \<Rightarrow> uuid \<Rightarrow> nat \<Rightarrow> call list \<Rightarrow> fstate \<Rightarrow> fstate \<times> stop option" where
  "run_calls E deadline plan fetch_id k [] st = (st, None)"
| "run_calls E deadline plan fetch_id k (c # cs) st =
     (if (case deadline of None \<Rightarrow> False | Some t \<Rightarrow> t \<le> e_mono E k)
      then (st, Some (StopError BUDGET_SPENT False))
      else (case run_call E plan fetch_id k c st of
          (st', Inl s) \<Rightarrow> (st', Some s)
        | (st', Inr rows) \<Rightarrow>
            run_calls E deadline plan fetch_id (Suc k) cs
              (st'\<lparr>fs_out := (fs_out st')\<lparr>fo_calls := fo_calls (fs_out st') + 1,
                                         fo_rows := fo_rows (fs_out st') + rows\<rparr>\<rparr>)))"

text \<open>How the loop's end becomes the outcome.\<close>

definition close_outcome :: "stop option \<Rightarrow> fetch_outcome \<Rightarrow> fetch_outcome" where
  "close_outcome s out =
     (case s of
        None \<Rightarrow> out\<lparr>fo_status := FetchSucceeded\<rparr>
      | Some (StopError msg retryable) \<Rightarrow>
          out\<lparr>fo_status := (if retryable \<or> msg = BUDGET_SPENT then FetchPartial else FetchFailed),
              fo_error := Some msg, fo_retryable := retryable\<rparr>)"

definition point_error_json :: "(uuid \<times> string) list \<Rightarrow> jobj" where
  "point_error_json errs = [(''point_errors'', JObj (map (\<lambda>(i, m). (uuid_str i, JStr m)) errs))]"

definition add_point_errors :: "fetch_outcome \<Rightarrow> fetch_outcome" where
  "add_point_errors out =
     (case fo_point_errors out of
        [] \<Rightarrow> out
      | (i, first) # rest \<Rightarrow>
          (let out' = out\<lparr>fo_result := Some (point_error_json (fo_point_errors out))\<rparr>
           in if fo_status out = FetchSucceeded
              then out'\<lparr>fo_status := FetchPartial,
                        fo_error := Some (nat_str (length (fo_point_errors out)) @ '' point(s) failed: '' @ first)\<rparr>
              else out'))"

definition next_health :: "health \<Rightarrow> source_fetch \<Rightarrow> datetime \<Rightarrow> bool \<Rightarrow> health" where
  "next_health h f now retryable =
     (let h1 = h\<lparr>h_checked_at := Some now\<rparr>;
          h2 = (if sf_status f = FetchSucceeded
                then h1\<lparr>h_status := HOk, h_consecutive_failures := 0, h_last_success_at := Some now\<rparr>
                else (let failures = h_consecutive_failures h1 + 1
                      in h1\<lparr>h_status := (if FAILING_AFTER \<le> failures then HFailing else HDegraded),
                            h_consecutive_failures := failures,
                            h_last_error := Some (now, sf_error f, retryable)\<rparr>))
      in if sf_trigger f \<in> set DATA_TRIGGERS
         then h2\<lparr>h_last_fetch := Some (sf_id f, sf_status f, now, sf_rows f)\<rparr> else h2)"

definition finish :: "env \<Rightarrow> db \<Rightarrow> uuid \<Rightarrow> fetch_outcome \<Rightarrow> db" where
  "finish E d fetch_id out =
     (case get_fetch d fetch_id of
        None \<Rightarrow> d
      | Some f \<Rightarrow>
          (let close = (\<lambda>r. r\<lparr>sf_status := fo_status out, sf_error := fo_error out,
                 sf_finished_at := Some (e_now_finish E),
                 sf_result := (case fo_result out of None \<Rightarrow> sf_result r | Some x \<Rightarrow> Some x)\<rparr>);
               d1 = set_fetch d fetch_id close
           in (case get_source d1 (sf_source_id f) of
                 None \<Rightarrow> d1
               | Some src \<Rightarrow>
                   set_source d1 (sf_source_id f)
                     (\<lambda>s. s\<lparr>src_health := next_health (src_health s) (close f) (e_now_finish E) (fo_retryable out)\<rparr>))))"

datatype executed = Skipped | Raised | Ended db fetch_outcome "(uuid \<times> batch_row list) list"

definition execute_fetch :: "env \<Rightarrow> db \<Rightarrow> uuid \<Rightarrow> rat option \<Rightarrow> executed" where
  "execute_fetch E d fetch_id deadline =
     (case prepare E d fetch_id True of
        NotToRun \<Rightarrow> Skipped
      | Broken \<Rightarrow> Raised
      | Stopped msg \<Rightarrow>
          (let out = new_outcome FetchFailed (Some msg) in Ended (finish E d fetch_id out) out [])
      | Prepared d1 plan \<Rightarrow>
          (let run = run_calls E deadline plan fetch_id 0 (jp_calls plan)
                 \<lparr>fs_db = d1, fs_cache = [], fs_out = new_outcome FetchRunning None\<rparr>;
               out = add_point_errors (close_outcome (snd run) (fs_out (fst run)))
           in Ended (finish E (fs_db (fst run)) fetch_id out) out (fs_cache (fst run))))"

end
