(* ===== verification/Fetch_Facts.thy ===== *)
theory Fetch_Facts
  imports Fetches
begin

text \<open>
  What executing a fetch guarantees: which coverage a call adds, that coverage is never recorded
  for rows the cache does not hold, that a successful fetch leaves no gap, how a fetch ends, and
  the health of its source.
\<close>

section \<open>The dict operations\<close>

lemma dict_set_Nil [simp]: "dict_set k v d \<noteq> []"
  by (cases d) (auto split: if_splits)

lemma map_of_dict_set [simp]: "map_of (dict_set k v d) = (map_of d)(k \<mapsto> v)"
  by (induction d) auto

lemma map_of_dict_append:
  "map_of (dict_append k xs d) j =
   (if j = k then Some ((case map_of d k of None \<Rightarrow> [] | Some ys \<Rightarrow> ys) @ xs) else map_of d j)"
  by (induction d) auto

lemma keys_dict_append: "fst ` set (dict_append k xs d) = insert k (fst ` set d)"
  unfolding dom_map_of_conv_image_fst [symmetric] by (auto simp: dom_def map_of_dict_append)

lemma distinct_dict_append: "distinct (map fst d) \<Longrightarrow> distinct (map fst (dict_append k xs d))"
proof (induction d)
  case (Cons x d)
  have "fst ` set (dict_append k xs d) = insert k (fst ` set d)" by (rule keys_dict_append)
  with Cons show ?case by (cases x) auto
qed simp

section \<open>One call's stream\<close>

text \<open>The rows a stream holds for a series, and whether it reports the point as failed.\<close>

fun rows_of :: "uuid \<Rightarrow> fetch_item list \<Rightarrow> batch_row list" where
  "rows_of i [] = []"
| "rows_of i (ItemRows j (Batch rows) # items) = (if j = i then rows @ rows_of i items else rows_of i items)"
| "rows_of i (_ # items) = rows_of i items"

definition point_failed :: "uuid \<Rightarrow> fetch_item list \<Rightarrow> bool" where
  "point_failed i items \<longleftrightarrow> (\<exists>item \<in> set items. case item of ItemFailure j m \<Rightarrow> j = i | ItemRows j b \<Rightarrow> False)"

lemma point_failed_Nil [simp]: "\<not> point_failed i []"
  by (simp add: point_failed_def)

lemma point_failed_Cons [simp]:
  "point_failed i (item # items) \<longleftrightarrow>
   (case item of ItemFailure j m \<Rightarrow> j = i | ItemRows j b \<Rightarrow> False) \<or> point_failed i items"
  by (simp add: point_failed_def)

definition item_fine :: "uuid set \<Rightarrow> fetch_item \<Rightarrow> bool" where
  "item_fine wanted item \<longleftrightarrow> item_series item \<in> wanted \<and>
     (case item of ItemFailure i m \<Rightarrow> True | ItemRows i b \<Rightarrow> (\<exists>rows. checked b = Inr rows))"

definition rows_in :: "tables \<Rightarrow> uuid \<Rightarrow> batch_row list" where
  "rows_in tabs i = (case map_of tabs i of None \<Rightarrow> [] | Some rows \<Rightarrow> rows)"

lemma rows_in_append [simp]:
  "rows_in (dict_append k xs tabs) i = (if i = k then rows_in tabs k @ xs else rows_in tabs i)"
  by (simp add: rows_in_def map_of_dict_append)

lemma checked_Inr: "checked b = Inr rows \<Longrightarrow> b = Batch rows"
  by (auto simp: checked_def split: batch.splits if_splits)

lemma collect_ok:
  "collect wanted items fin tabs failed errs = (errs', Inr (tabs', failed')) \<Longrightarrow>
   fin = StreamDone \<and> (\<forall>item \<in> set items. item_fine wanted item)
   \<and> (\<forall>i. i \<in> set failed' \<longleftrightarrow> i \<in> set failed \<or> point_failed i items)
   \<and> (\<forall>i. rows_in tabs' i = rows_in tabs i @ rows_of i items)
   \<and> (distinct (map fst tabs) \<longrightarrow> distinct (map fst tabs'))"
proof (induction wanted items fin tabs failed errs rule: collect.induct)
  case (4 wanted item items fin tabs failed errs)
  show ?case
  proof (cases item)
    case (ItemFailure i m)
    with 4 show ?thesis
      by (auto simp: item_fine_def split: if_splits)
  next
    case (ItemRows i b)
    with "4.prems" obtain rows where rows: "checked b = Inr rows"
      and more: "collect wanted items fin (dict_append i rows tabs) failed errs = (errs', Inr (tabs', failed'))"
      and wanted: "i \<in> wanted"
      by (auto split: if_splits sum.splits)
    have b: "b = Batch rows" using checked_Inr [OF rows] .
    have "item_series item \<in> wanted" using ItemRows wanted by simp
    then have IH: "fin = StreamDone \<and> (\<forall>item \<in> set items. item_fine wanted item)
      \<and> (\<forall>j. j \<in> set failed' \<longleftrightarrow> j \<in> set failed \<or> point_failed j items)
      \<and> (\<forall>j. rows_in tabs' j = rows_in (dict_append i rows tabs) j @ rows_of j items)
      \<and> (distinct (map fst (dict_append i rows tabs)) \<longrightarrow> distinct (map fst tabs'))"
      using "4.IH"(1) [OF _ ItemRows rows more] by simp
    then show ?thesis using ItemRows rows wanted b by (simp add: item_fine_def distinct_dict_append)
  qed
qed auto

text \<open>The conversion: a stream of fine items that ends normally is collected.\<close>

lemma collect_fine:
  "\<forall>item \<in> set items. item_fine wanted item \<Longrightarrow>
   \<exists>errs' tabs' failed'. collect wanted items StreamDone tabs failed errs = (errs', Inr (tabs', failed'))"
proof (induction items arbitrary: tabs failed errs)
  case Nil
  then show ?case by simp
next
  case (Cons item items)
  then have rest: "\<forall>item \<in> set items. item_fine wanted item" and fine: "item_fine wanted item" by auto
  show ?case
  proof (cases item)
    case (ItemFailure i m)
    with fine Cons.IH [OF rest] show ?thesis by (auto simp: item_fine_def)
  next
    case (ItemRows i b)
    with fine obtain rows where "checked b = Inr rows" "i \<in> wanted" by (auto simp: item_fine_def)
    with ItemRows Cons.IH [OF rest] show ?thesis by auto
  qed
qed

text \<open>Errors of points the stream names stay; a stream without failures adds none.\<close>

lemma collect_errs:
  "collect wanted items fin tabs failed errs = (errs', r) \<Longrightarrow>
   (errs \<noteq> [] \<longrightarrow> errs' \<noteq> []) \<and> ((\<forall>i. \<not> point_failed i items) \<longrightarrow> errs' = errs)
   \<and> (\<forall>x. r = Inr x \<longrightarrow> (\<exists>i. point_failed i items) \<longrightarrow> errs' \<noteq> [])"
proof (induction wanted items fin tabs failed errs rule: collect.induct)
  case (4 wanted item items fin tabs failed errs)
  show ?case
  proof (cases item)
    case (ItemFailure i m)
    show ?thesis
    proof (cases "i \<in> wanted")
      case True
      with 4 ItemFailure show ?thesis by auto
    next
      case False
      with 4 ItemFailure show ?thesis by auto
    qed
  next
    case (ItemRows i b)
    with 4 show ?thesis by (cases "i \<in> wanted"; cases "checked b") auto
  qed
qed auto

section \<open>Writing and recording\<close>

lemma write_tables_frame:
  "write_tables w tabs failed st n = (st', r) \<Longrightarrow>
   fs_db st' = fs_db st \<and> set (fs_cache st) \<subseteq> set (fs_cache st')
   \<and> fo_point_errors (fs_out st') = fo_point_errors (fs_out st)
   \<and> fo_calls (fs_out st') = fo_calls (fs_out st)
   \<and> fo_retryable (fs_out st') = fo_retryable (fs_out st)
   \<and> fo_error (fs_out st') = fo_error (fs_out st)"
  by (induction w tabs failed st n rule: write_tables.induct)
    (fastforce split: if_splits sum.splits simp: Let_def)+

lemma write_tables_written:
  "write_tables w tabs failed st n = (st', Inr m) \<Longrightarrow> (i, rows) \<in> set tabs \<Longrightarrow>
   i \<notin> set failed \<Longrightarrow> rows \<noteq> [] \<Longrightarrow> (i, rows) \<in> set (fs_cache st')"
proof (induction w tabs failed st n rule: write_tables.induct)
  case (2 w j rs tabs failed st n)
  show ?case
  proof (cases "j \<in> set failed \<or> rs = []")
    case True
    with 2 show ?thesis by auto
  next
    case False
    with "2.prems"(1) obtain k where k: "w j rs = Inr k" by (auto split: sum.splits)
    show ?thesis
    proof (cases "(i, rows) = (j, rs)")
      case True
      from False k "2.prems"(1) show ?thesis
        using write_tables_frame True by (fastforce simp: Let_def)
    next
      case other: False
      with False k 2 show ?thesis by (auto simp: Let_def)
    qed
  qed
qed simp

lemma write_tables_good:
  "\<forall>i rows. \<exists>k. w i rows = Inr k \<Longrightarrow> \<exists>st' m. write_tables w tabs failed st n = (st', Inr m)"
proof (induction w tabs failed st n rule: write_tables.induct)
  case (2 w j rs tabs failed st n)
  then obtain k where "w j rs = Inr k" by blast
  with 2 show ?case by auto
qed simp

lemma record_points_frame:
  "\<exists>c. record_points ps failed og s e rows now d = d\<lparr>coverages := c\<rparr>"
proof (induction ps arbitrary: d)
  case Nil
  have "d = d\<lparr>coverages := coverages d\<rparr>" by simp
  then show ?case by (metis record_points.simps(1))
next
  case (Cons p ps)
  let ?d = "if pt_series_id p \<in> set failed then d
    else coverage_record d og (pt_series_id p) s e (case map_of rows (pt_series_id p) of None \<Rightarrow> 0 | Some k \<Rightarrow> k) now RAW_LAYER"
  obtain c where "record_points ps failed og s e rows now ?d = ?d\<lparr>coverages := c\<rparr>" using Cons.IH by blast
  moreover have "?d\<lparr>coverages := c\<rparr> = d\<lparr>coverages := c\<rparr>" by (simp add: coverage_record_def)
  ultimately show ?case by (intro exI [of _ c]) simp
qed

lemma cached_cong: "coverages d = coverages d' \<Longrightarrow> cached d = cached d'"
  by (intro ext) (simp add: cached_def covered_ranges_def)

text \<open>What recording the points of a call covers.\<close>

definition floor_us :: "ns \<Rightarrow> ns" where "floor_us t = datetime_to_ns (ns_to_datetime t)"
definition ceil_us :: "ns \<Rightarrow> ns" where "ceil_us t = datetime_to_ns (ns_to_datetime_ceil t)"

lemma cached_record_points:
  "cached (record_points ps failed og s e rows now d) j t \<longleftrightarrow>
   cached d j t \<or> (\<exists>p \<in> set ps. pt_series_id p = j) \<and> j \<notin> set failed \<and> floor_us s \<le> t \<and> t < ceil_us e"
  by (induction ps arbitrary: d)
    (auto simp: coverage_record_put raw_layer.covers_put floor_us_def ceil_us_def)

section \<open>One call\<close>

text \<open>
  A call delivers an instant of a series when the series is one of its points, the stream ended
  normally and did not fail the point, the settled span contains the instant, and every row the
  stream held for the series is in the cache.
\<close>

definition call_delivers :: "env \<Rightarrow> job_plan \<Rightarrow> nat \<Rightarrow> call \<Rightarrow> (uuid \<times> batch_row list) list \<Rightarrow> uuid \<Rightarrow> ns \<Rightarrow> bool" where
  "call_delivers E plan k c cache j t \<longleftrightarrow>
     (let stream = cn_fetch (jp_connector plan) (call_points c) (call_start c) (call_end c);
          e = settled_end (call_end c) (datetime_to_ns (e_now_call E k)) (jp_settle_ns plan)
      in snd stream = StreamDone \<and> (\<exists>p \<in> set (call_points c). pt_series_id p = j)
         \<and> \<not> point_failed j (fst stream)
         \<and> (rows_of j (fst stream) = [] \<or> (j, rows_of j (fst stream)) \<in> set cache)
         \<and> call_start c < e \<and> floor_us (call_start c) \<le> t \<and> t < ceil_us e)"

lemma call_delivers_mono:
  "call_delivers E plan k c cache j t \<Longrightarrow> set cache \<subseteq> set cache' \<Longrightarrow> call_delivers E plan k c cache' j t"
  by (auto simp: call_delivers_def Let_def)

lemma run_call_stop:
  assumes "run_call E plan fid k c st = (st', Inl s)"
  shows "fs_db st' = fs_db st" and "set (fs_cache st) \<subseteq> set (fs_cache st')"
  using assms write_tables_frame
  by (auto simp: run_call_def Let_def split: sum.splits prod.splits if_splits, fastforce+)

lemma run_call_parts:
  assumes "run_call E plan fid k c st = (st', Inr rows)"
  obtains tabs failed errs st2 where
    "collect (pt_series_id ` set (call_points c))
       (fst (cn_fetch (jp_connector plan) (call_points c) (call_start c) (call_end c)))
       (snd (cn_fetch (jp_connector plan) (call_points c) (call_start c) (call_end c)))
       [] [] (fo_point_errors (fs_out st)) = (errs, Inr (tabs, failed))"
    "write_tables (case e_cache E of Some w \<Rightarrow> w | None \<Rightarrow> (\<lambda>i rows. Inl [])) tabs failed
       (st\<lparr>fs_out := (fs_out st)\<lparr>fo_point_errors := errs\<rparr>\<rparr>) 0 = (st2, Inr rows)"
    "st' = st2\<lparr>fs_db := set_fetch
       (if call_start c < settled_end (call_end c) (datetime_to_ns (e_now_call E k)) (jp_settle_ns plan)
        then record_points (call_points c) failed (jp_org_id plan) (call_start c)
               (settled_end (call_end c) (datetime_to_ns (e_now_call E k)) (jp_settle_ns plan))
               (fo_series_rows (fs_out st2)) (e_now_call E k) (fs_db st2)
        else fs_db st2) fid (\<lambda>f. f\<lparr>sf_calls := sf_calls f + 1, sf_rows := sf_rows f + rows\<rparr>)\<rparr>"
proof -
  let ?got = "collect (pt_series_id ` set (call_points c))
       (fst (cn_fetch (jp_connector plan) (call_points c) (call_start c) (call_end c)))
       (snd (cn_fetch (jp_connector plan) (call_points c) (call_start c) (call_end c)))
       [] [] (fo_point_errors (fs_out st))"
  obtain errs r where got: "?got = (errs, r)" by fastforce
  from assms got obtain tabs failed where r: "r = Inr (tabs, failed)"
    by (cases r) (auto simp: run_call_def Let_def)
  let ?w = "write_tables (case e_cache E of Some w \<Rightarrow> w | None \<Rightarrow> (\<lambda>i rows. Inl [])) tabs failed
       (st\<lparr>fs_out := (fs_out st)\<lparr>fo_point_errors := errs\<rparr>\<rparr>) 0"
  obtain st2 q where w: "?w = (st2, q)" by fastforce
  from assms got r w have q: "q = Inr rows"
    by (cases q) (auto simp: run_call_def Let_def split: if_splits)
  show thesis
    by (rule that [of errs tabs failed st2])
      (use assms got r w q in \<open>auto simp: run_call_def Let_def split: if_splits\<close>)
qed

lemma cached_set_fetch [simp]: "cached (set_fetch d i g) = cached d"
  by (rule cached_cong) (simp add: set_fetch_def)

lemma cached_set_source [simp]: "cached (set_source d i g) = cached d"
  by (rule cached_cong) (simp add: set_source_def)

text \<open>What one successful call covers: exactly what it delivers.\<close>

lemma run_call_cached:
  assumes "run_call E plan fid k c st = (st', Inr rows)"
  shows "cached (fs_db st') j t \<longleftrightarrow>
     cached (fs_db st) j t \<or> call_delivers E plan k c (fs_cache st') j t"
    and "set (fs_cache st) \<subseteq> set (fs_cache st')"
    and "cached (fs_db st') j t \<longleftrightarrow> cached (fs_db st) j t \<or>
      (let e = settled_end (call_end c) (datetime_to_ns (e_now_call E k)) (jp_settle_ns plan)
       in call_start c < e \<and> (\<exists>p \<in> set (call_points c). pt_series_id p = j)
          \<and> \<not> point_failed j (fst (cn_fetch (jp_connector plan) (call_points c) (call_start c) (call_end c)))
          \<and> floor_us (call_start c) \<le> t \<and> t < ceil_us e)"
proof -
  let ?s = "cn_fetch (jp_connector plan) (call_points c) (call_start c) (call_end c)"
  let ?e = "settled_end (call_end c) (datetime_to_ns (e_now_call E k)) (jp_settle_ns plan)"
  from assms obtain tabs failed errs st2 where
    col: "collect (pt_series_id ` set (call_points c)) (fst ?s) (snd ?s) [] [] (fo_point_errors (fs_out st))
       = (errs, Inr (tabs, failed))"
    and wr: "write_tables (case e_cache E of Some w \<Rightarrow> w | None \<Rightarrow> (\<lambda>i rows. Inl [])) tabs failed
       (st\<lparr>fs_out := (fs_out st)\<lparr>fo_point_errors := errs\<rparr>\<rparr>) 0 = (st2, Inr rows)"
    and st': "st' = st2\<lparr>fs_db := set_fetch
       (if call_start c < ?e
        then record_points (call_points c) failed (jp_org_id plan) (call_start c) ?e
               (fo_series_rows (fs_out st2)) (e_now_call E k) (fs_db st2)
        else fs_db st2) fid (\<lambda>f. f\<lparr>sf_calls := sf_calls f + 1, sf_rows := sf_rows f + rows\<rparr>)\<rparr>"
    by (rule run_call_parts)
  note c = collect_ok [OF col]
  have db2: "fs_db st2 = fs_db st" and sub: "set (fs_cache st) \<subseteq> set (fs_cache st2)"
    using write_tables_frame [OF wr] by simp_all
  have cache: "fs_cache st' = fs_cache st2" by (simp add: st')
  show "set (fs_cache st) \<subseteq> set (fs_cache st')" using sub cache by simp
  have written: "j \<notin> set failed \<Longrightarrow> rows_of j (fst ?s) = [] \<or> (j, rows_of j (fst ?s)) \<in> set (fs_cache st')"
  proof -
    assume j: "j \<notin> set failed"
    have rows: "rows_in tabs j = rows_of j (fst ?s)" using c by (simp add: rows_in_def)
    show ?thesis
    proof (cases "map_of tabs j")
      case None
      with rows show ?thesis by (simp add: rows_in_def)
    next
      case (Some r)
      with rows have "(j, rows_of j (fst ?s)) \<in> set tabs" by (simp add: rows_in_def map_of_SomeD)
      then show ?thesis using write_tables_written [OF wr _ j] cache by metis
    qed
  qed
  have fl: "j \<in> set failed \<longleftrightarrow> point_failed j (fst ?s)" using c by simp
  have all: "cached (fs_db st') j t \<longleftrightarrow> cached (fs_db st) j t \<or>
     call_start c < ?e \<and> (\<exists>p \<in> set (call_points c). pt_series_id p = j) \<and> j \<notin> set failed
     \<and> floor_us (call_start c) \<le> t \<and> t < ceil_us ?e"
    by (simp add: st' db2 cached_record_points)
  then show "cached (fs_db st') j t \<longleftrightarrow> cached (fs_db st) j t \<or>
      (let e = settled_end (call_end c) (datetime_to_ns (e_now_call E k)) (jp_settle_ns plan)
       in call_start c < e \<and> (\<exists>p \<in> set (call_points c). pt_series_id p = j)
          \<and> \<not> point_failed j (fst ?s) \<and> floor_us (call_start c) \<le> t \<and> t < ceil_us e)"
    by (simp add: fl Let_def)
  from all show "cached (fs_db st') j t \<longleftrightarrow>
     cached (fs_db st) j t \<or> call_delivers E plan k c (fs_cache st') j t"
    using c written by (auto simp: call_delivers_def Let_def fl)
qed

section \<open>The loop over the calls\<close>

lemma run_calls_sound:
  "run_calls E dl plan fid k cs st = (st', s) \<Longrightarrow>
   set (fs_cache st) \<subseteq> set (fs_cache st') \<and>
   (\<forall>j t. cached (fs_db st) j t \<longrightarrow> cached (fs_db st') j t) \<and>
   (\<forall>j t. cached (fs_db st') j t \<longrightarrow> cached (fs_db st) j t \<or>
      (\<exists>i < length cs. call_delivers E plan (k + i) (cs ! i) (fs_cache st') j t))"
proof (induction E dl plan fid k cs st arbitrary: st' s rule: run_calls.induct)
  case (1 E dl plan fid k st)
  then show ?case by simp
next
  case (2 E dl plan fid k c cs st)
  show ?case
  proof (cases "case dl of None \<Rightarrow> False | Some t \<Rightarrow> t \<le> e_mono E k")
    case True
    with "2.prems" show ?thesis by simp
  next
    case False
    obtain st1 r where call: "run_call E plan fid k c st = (st1, r)" by fastforce
    show ?thesis
    proof (cases r)
      case (Inl x)
      with call False "2.prems" have "st' = st1" by simp
      with run_call_stop [of E plan fid k c st st1 x] call Inl show ?thesis by simp
    next
      case (Inr rows)
      let ?st = "st1\<lparr>fs_out := (fs_out st1)\<lparr>fo_calls := fo_calls (fs_out st1) + 1, fo_rows := fo_rows (fs_out st1) + rows\<rparr>\<rparr>"
      have rest: "run_calls E dl plan fid (Suc k) cs ?st = (st', s)" using call Inr False "2.prems" by simp
      note IH = "2.IH" [OF False call [symmetric] Inr rest]
      note one = run_call_cached [OF call [unfolded Inr]]
      have sub: "set (fs_cache st1) \<subseteq> set (fs_cache st')" using IH by simp
      show ?thesis
      proof (intro conjI allI impI)
        show "set (fs_cache st) \<subseteq> set (fs_cache st')" using one(2) sub by blast
        show "cached (fs_db st') j t" if "cached (fs_db st) j t" for j t using that one(1) IH by simp
        show "cached (fs_db st) j t \<or> (\<exists>i < length (c # cs). call_delivers E plan (k + i) ((c # cs) ! i) (fs_cache st') j t)"
          if "cached (fs_db st') j t" for j t
        proof -
          from that IH have "cached (fs_db st1) j t \<or>
             (\<exists>i < length cs. call_delivers E plan (Suc k + i) (cs ! i) (fs_cache st') j t)" by simp
          then show ?thesis
          proof
            assume "cached (fs_db st1) j t"
            then show ?thesis using one(1) call_delivers_mono [OF _ sub] by fastforce
          next
            assume "\<exists>i < length cs. call_delivers E plan (Suc k + i) (cs ! i) (fs_cache st') j t"
            then obtain i where "i < length cs" "call_delivers E plan (Suc k + i) (cs ! i) (fs_cache st') j t" by blast
            then show ?thesis by (intro disjI2 exI [of _ "Suc i"]) simp
          qed
        qed
      qed
    qed
  qed
qed

lemma floor_us_le: "floor_us t \<le> t"
  using datetime_to_ns_floor [of t] by (simp add: floor_us_def)

lemma ceil_us_ge: "t \<le> ceil_us t"
  using datetime_to_ns_ceil [of t] by (simp add: ceil_us_def)

lemma run_call_errs:
  assumes "run_call E plan fid k c st = (st', Inr rows)"
  shows "fo_point_errors (fs_out st') = [] \<Longrightarrow> fo_point_errors (fs_out st) = []
     \<and> \<not> point_failed j (fst (cn_fetch (jp_connector plan) (call_points c) (call_start c) (call_end c)))"
proof -
  assume none: "fo_point_errors (fs_out st') = []"
  from assms obtain tabs failed errs st2 where
    col: "collect (pt_series_id ` set (call_points c))
       (fst (cn_fetch (jp_connector plan) (call_points c) (call_start c) (call_end c)))
       (snd (cn_fetch (jp_connector plan) (call_points c) (call_start c) (call_end c)))
       [] [] (fo_point_errors (fs_out st)) = (errs, Inr (tabs, failed))"
    and wr: "write_tables (case e_cache E of Some w \<Rightarrow> w | None \<Rightarrow> (\<lambda>i rows. Inl [])) tabs failed
       (st\<lparr>fs_out := (fs_out st)\<lparr>fo_point_errors := errs\<rparr>\<rparr>) 0 = (st2, Inr rows)"
    and out: "fs_out st' = fs_out st2"
    by (rule run_call_parts) simp
  have "errs = []" using write_tables_frame [OF wr] none out by simp
  with collect_errs [OF col] show ?thesis by auto
qed

lemma run_calls_errs:
  "run_calls E dl plan fid k cs st = (st', None) \<Longrightarrow> fo_point_errors (fs_out st') = [] \<Longrightarrow>
   fo_point_errors (fs_out st) = []"
proof (induction E dl plan fid k cs st arbitrary: st' rule: run_calls.induct)
  case (2 E dl plan fid k c cs st)
  obtain st1 r where call: "run_call E plan fid k c st = (st1, r)" by fastforce
  from "2.prems"(1) have dl: "\<not> (case dl of None \<Rightarrow> False | Some t \<Rightarrow> t \<le> e_mono E k)" by (auto split: if_splits)
  from "2.prems"(1) dl call obtain rows where r: "r = Inr rows" by (cases r) auto
  let ?st = "st1\<lparr>fs_out := (fs_out st1)\<lparr>fo_calls := fo_calls (fs_out st1) + 1, fo_rows := fo_rows (fs_out st1) + rows\<rparr>\<rparr>"
  have rest: "run_calls E dl plan fid (Suc k) cs ?st = (st', None)" using call r dl "2.prems"(1) by simp
  have "fo_point_errors (fs_out ?st) = []" by (rule "2.IH" [OF dl call [symmetric] r rest "2.prems"(2)])
  then show ?case using run_call_errs [OF call [unfolded r]] by simp
qed simp

lemma run_calls_complete:
  "run_calls E dl plan fid k cs st = (st', None) \<Longrightarrow> fo_point_errors (fs_out st') = [] \<Longrightarrow>
   i < length cs \<Longrightarrow> p \<in> set (call_points (cs ! i)) \<Longrightarrow> call_start (cs ! i) \<le> t \<Longrightarrow>
   t < settled_end (call_end (cs ! i)) (datetime_to_ns (e_now_call E (k + i))) (jp_settle_ns plan) \<Longrightarrow>
   cached (fs_db st') (pt_series_id p) t"
proof (induction E dl plan fid k cs st arbitrary: st' i rule: run_calls.induct)
  case (2 E dl plan fid k c cs st)
  obtain st1 r where call: "run_call E plan fid k c st = (st1, r)" by fastforce
  from "2.prems"(1) have dl: "\<not> (case dl of None \<Rightarrow> False | Some t \<Rightarrow> t \<le> e_mono E k)" by (auto split: if_splits)
  from "2.prems"(1) dl call obtain rows where r: "r = Inr rows" by (cases r) auto
  let ?st = "st1\<lparr>fs_out := (fs_out st1)\<lparr>fo_calls := fo_calls (fs_out st1) + 1, fo_rows := fo_rows (fs_out st1) + rows\<rparr>\<rparr>"
  have rest: "run_calls E dl plan fid (Suc k) cs ?st = (st', None)" using call r dl "2.prems"(1) by simp
  show ?case
  proof (cases i)
    case 0
    let ?e = "settled_end (call_end c) (datetime_to_ns (e_now_call E k)) (jp_settle_ns plan)"
    have none: "fo_point_errors (fs_out st1) = []" using run_calls_errs [OF rest "2.prems"(2)] by simp
    have "cached (fs_db st1) (pt_series_id p) t"
      using "2.prems"(4-6) 0 run_call_errs [OF call [unfolded r] none]
        floor_us_le [of "call_start c"] ceil_us_ge [of ?e]
      by (auto simp: run_call_cached(3) [OF call [unfolded r]] Let_def)
    then show ?thesis using run_calls_sound [OF rest] by simp
  next
    case (Suc i')
    then show ?thesis using "2.IH" [OF dl call [symmetric] r rest "2.prems"(2), of i'] "2.prems"(3-6) by simp
  qed
qed simp

section \<open>Progress\<close>

text \<open>
  A connector behaves on a call when its stream ends normally with well-formed rows of the points
  asked and fails none of them.
\<close>

definition behaves :: "connector \<Rightarrow> call \<Rightarrow> bool" where
  "behaves cn c \<longleftrightarrow>
     (let stream = cn_fetch cn (call_points c) (call_start c) (call_end c)
      in snd stream = StreamDone \<and>
         (\<forall>item \<in> set (fst stream). item_fine (pt_series_id ` set (call_points c)) item \<and>
            (case item of ItemFailure i m \<Rightarrow> False | ItemRows i b \<Rightarrow> True)))"

definition store_works :: "env \<Rightarrow> bool" where
  "store_works E \<longleftrightarrow> (\<exists>w. e_cache E = Some w \<and> (\<forall>i rows. \<exists>k. w i rows = Inr k))"

lemma behaves_no_failure:
  "behaves cn c \<Longrightarrow> \<not> point_failed i (fst (cn_fetch cn (call_points c) (call_start c) (call_end c)))"
  by (auto simp: behaves_def Let_def point_failed_def split: fetch_item.splits)

lemma run_call_progress:
  assumes "behaves (jp_connector plan) c" and "store_works E"
  shows "\<exists>st' rows. run_call E plan fid k c st = (st', Inr rows)
     \<and> fo_point_errors (fs_out st') = fo_point_errors (fs_out st)
     \<and> fo_calls (fs_out st') = fo_calls (fs_out st)"
proof -
  let ?s = "cn_fetch (jp_connector plan) (call_points c) (call_start c) (call_end c)"
  have fin: "snd ?s = StreamDone" and fine: "\<forall>item \<in> set (fst ?s). item_fine (pt_series_id ` set (call_points c)) item"
    using assms(1) by (auto simp: behaves_def Let_def)
  obtain errs tabs failed where col:
    "collect (pt_series_id ` set (call_points c)) (fst ?s) (snd ?s) [] [] (fo_point_errors (fs_out st))
       = (errs, Inr (tabs, failed))"
    using collect_fine [OF fine] fin by metis
  have errs: "errs = fo_point_errors (fs_out st)"
    using collect_errs [OF col] behaves_no_failure [OF assms(1)] by simp
  obtain w where w: "e_cache E = Some w" "\<forall>i rows. \<exists>k. w i rows = Inr k"
    using assms(2) by (auto simp: store_works_def)
  let ?st = "st\<lparr>fs_out := (fs_out st)\<lparr>fo_point_errors := errs\<rparr>\<rparr>"
  obtain st2 m where wr: "write_tables w tabs failed ?st 0 = (st2, Inr m)"
    using write_tables_good [OF w(2)] by blast
  show ?thesis
    using write_tables_frame [OF wr] col wr w(1) errs by (simp add: run_call_def Let_def)
qed

lemma run_calls_progress:
  "\<forall>c \<in> set cs. behaves (jp_connector plan) c \<Longrightarrow> store_works E \<Longrightarrow> dl = None \<Longrightarrow>
   \<exists>st'. run_calls E dl plan fid k cs st = (st', None)
     \<and> fo_point_errors (fs_out st') = fo_point_errors (fs_out st)
     \<and> fo_calls (fs_out st') = fo_calls (fs_out st) + int (length cs)"
proof (induction cs arbitrary: k st)
  case Nil
  then show ?case by simp
next
  case (Cons c cs)
  then obtain st1 rows where one: "run_call E plan fid k c st = (st1, Inr rows)"
     "fo_point_errors (fs_out st1) = fo_point_errors (fs_out st)" "fo_calls (fs_out st1) = fo_calls (fs_out st)"
    using run_call_progress [of plan c E fid k st] by auto
  let ?st = "st1\<lparr>fs_out := (fs_out st1)\<lparr>fo_calls := fo_calls (fs_out st1) + 1, fo_rows := fo_rows (fs_out st1) + rows\<rparr>\<rparr>"
  obtain st' where "run_calls E dl plan fid (Suc k) cs ?st = (st', None)"
     "fo_point_errors (fs_out st') = fo_point_errors (fs_out ?st)"
     "fo_calls (fs_out st') = fo_calls (fs_out ?st) + int (length cs)"
    using Cons.IH [of "Suc k" ?st] Cons.prems by auto
  with one Cons.prems(3) show ?case by simp
qed

section \<open>What a prepared plan asks for\<close>

text \<open>
  What the registry promises of a connector it builds: a config that validates (pydantic checks
  the bounds) and limits that are positive.
\<close>

definition builds_valid :: "env \<Rightarrow> bool" where
  "builds_valid E \<longleftrightarrow> (\<forall>ty cfg creds cn. e_build E ty cfg creds = Inr cn \<longrightarrow>
     config_valid (cn_config cn) \<and> limits_positive (cn_limits cn))"

lemma prepare_Prepared:
  assumes "prepare E d fid True = Prepared d1 plan"
  obtains f src where "get_fetch d fid = Some f" "sf_status f = FetchQueued \<or> sf_status f = FetchPartial"
    "get_source d (sf_source_id f) = Some src"
    "d1 = set_fetch d fid (\<lambda>r. r\<lparr>sf_status := FetchRunning,
        sf_started_at := (case sf_started_at r of None \<Rightarrow> Some (e_now_prepare E) | Some t \<Rightarrow> Some t)\<rparr>)"
    "jp_source_id plan = src_id src" "jp_org_id plan = src_org_id src"
    "plan_calls (fetch_gaps d src f) (limits_within (cn_limits (jp_connector plan)) (limits_of (cn_config (jp_connector plan)))) = Some (jp_calls plan)"
    "jp_settle_ns plan = cfg_settle_s (cn_config (jp_connector plan)) * SECOND_NS"
    "\<exists>creds. e_build E (src_type src) (src_config src) creds = Inr (jp_connector plan)"
    "src_enabled src \<or> sf_trigger f \<notin> set DATA_TRIGGERS"
proof -
  from assms obtain f where f: "get_fetch d fid = Some f"
    "sf_status f = FetchQueued \<or> sf_status f = FetchPartial"
    by (auto simp: prepare_def split: option.splits if_splits)
  then have go: "\<not> (sf_status f \<noteq> FetchQueued \<and> sf_status f \<noteq> FetchPartial)" by auto
  from assms f(1) go obtain src where src: "get_source d (sf_source_id f) = Some src"
    by (cases "get_source d (sf_source_id f)") (simp_all only: prepare_def option.case if_False prepared.distinct)
  from assms f(1) go src have en: "\<not> (\<not> src_enabled src \<and> sf_trigger f \<in> set DATA_TRIGGERS)"
    by (simp add: prepare_def Let_def split: if_splits)
  from assms f(1) go src en obtain creds where
    creds: "load_credentials (e_cipher E) d (e_keyring E) (src_org_id src) (src_id src) = Inr creds"
    by (auto simp: prepare_def Let_def split: sum.splits credentials_failure.splits if_splits)
  from assms f(1) go src en creds obtain cn where cn: "e_build E (src_type src) (src_config src) creds = Inr cn"
    by (cases "e_build E (src_type src) (src_config src) creds") (simp_all add: prepare_def Let_def)
  from assms f(1) go src en creds cn obtain cs where
    cs: "plan_calls (fetch_gaps d src f) (limits_within (cn_limits cn) (limits_of (cn_config cn))) = Some cs"
    by (cases "plan_calls (fetch_gaps d src f) (limits_within (cn_limits cn) (limits_of (cn_config cn)))")
      (simp_all add: prepare_def Let_def)
  from assms f(1) go src en creds cn cs have res:
    "d1 = set_fetch d fid (\<lambda>r. r\<lparr>sf_status := FetchRunning,
        sf_started_at := (case sf_started_at r of None \<Rightarrow> Some (e_now_prepare E) | Some t \<Rightarrow> Some t)\<rparr>)"
    "jp_source_id plan = src_id src" "jp_org_id plan = src_org_id src" "jp_connector plan = cn"
    "jp_calls plan = cs" "jp_settle_ns plan = cfg_settle_s (cn_config cn) * SECOND_NS"
    by (auto simp: prepare_def Let_def)
  show thesis
    by (rule that [OF f(1) f(2) src]) (use res cs cn en in auto)
qed

lemma fetch_gaps_keys: "uniq_key ser_id (all_series d) \<Longrightarrow> distinct (map fst (fetch_gaps d src f))"
proof -
  assume u: "uniq_key ser_id (all_series d)"
  let ?rows = "filter (\<lambda>s. ser_source_id s = src_id src \<and>
      (case sf_series_ids f of None \<Rightarrow> True | Some is \<Rightarrow> ser_id s \<in> set is)) (all_series d)"
  have ids: "map pt_series_id (fetch_points d (src_id src) (sf_series_ids f)) = map ser_id (sort_key ser_external_id ?rows)"
    by (simp add: fetch_points_def)
  have "distinct (map ser_id ?rows)" using u by (simp add: uniq_key_def distinct_map_filter)
  then have "distinct ?rows" "inj_on ser_id (set ?rows)" by (simp_all add: distinct_map)
  then have "distinct (map ser_id (sort_key ser_external_id ?rows))" by (simp add: distinct_map)
  then have "distinct (fetch_points d (src_id src) (sf_series_ids f))"
    using ids by (metis distinct_map)
  then have "distinct (map fst (map (\<lambda>p. (p, point_gaps d f p)) (fetch_points d (src_id src) (sf_series_ids f))))"
    by (simp add: comp_def)
  then show ?thesis unfolding fetch_gaps_def by (rule distinct_map_filter)
qed

lemma fetch_gaps_separated:
  assumes "sf_window_start f < sf_window_end f" and "g \<in> set (fetch_gaps d src f)"
  shows "separated (snd g)"
proof -
  from assms(2) obtain p where "snd g = point_gaps d f p" by (auto simp: fetch_gaps_def)
  then show ?thesis using assms(1)
    by (simp add: point_gaps_def Let_def missing_ranges_separated)
       (simp add: separated_def datetime_to_ns_def)
qed

definition asked_for :: "db \<Rightarrow> source_fetch \<Rightarrow> point_ref \<Rightarrow> ns \<Rightarrow> bool" where
  "asked_for d f p t \<longleftrightarrow> p \<in> set (fetch_points d (sf_source_id f) (sf_series_ids f)) \<and>
     datetime_to_ns (sf_window_start f) \<le> t \<and> t < datetime_to_ns (sf_window_end f) \<and>
     (sf_force f \<or> \<not> cached d (pt_series_id p) t)"

lemma in_fetch_gaps:
  "src_id src = sf_source_id f \<Longrightarrow>
   (\<exists>rs. (p, rs) \<in> set (fetch_gaps d src f) \<and> in_some rs t) \<longleftrightarrow> asked_for d f p t"
proof -
  assume src: "src_id src = sf_source_id f"
  have "(\<exists>rs. (p, rs) \<in> set (fetch_gaps d src f) \<and> in_some rs t) \<longleftrightarrow>
     p \<in> set (fetch_points d (sf_source_id f) (sf_series_ids f)) \<and> in_some (point_gaps d f p) t"
    using src by (auto simp: fetch_gaps_def)
  also have "in_some (point_gaps d f p) t \<longleftrightarrow>
     datetime_to_ns (sf_window_start f) \<le> t \<and> t < datetime_to_ns (sf_window_end f) \<and>
     (sf_force f \<or> \<not> cached d (pt_series_id p) t)"
    by (auto simp: point_gaps_def Let_def missing_ranges_iff cached_def)
  finally show ?thesis by (simp add: asked_for_def)
qed

lemma get_source_id: "get_source d i = Some src \<Longrightarrow> src_id src = i"
  unfolding get_source_def by (drule find_SomeD) simp

lemma get_fetch_id: "get_fetch d i = Some f \<Longrightarrow> sf_id f = i"
  unfolding get_fetch_def by (drule find_SomeD) simp

lemma plan_asks:
  assumes "prepare E d fid True = Prepared d1 plan" and "get_fetch d fid = Some f"
    and "builds_valid E" and "uniq_key ser_id (all_series d)" and "sf_window_start f < sf_window_end f"
  shows "times_asked (jp_calls plan) p t = (if asked_for d f p t then 1 else 0)"
  using assms(1)
proof (rule prepare_Prepared)
  fix f' src
  assume f': "get_fetch d fid = Some f'" and src: "get_source d (sf_source_id f') = Some src"
    and cs: "plan_calls (fetch_gaps d src f') (limits_within (cn_limits (jp_connector plan)) (limits_of (cn_config (jp_connector plan)))) = Some (jp_calls plan)"
    and b: "\<exists>creds. e_build E (src_type src) (src_config src) creds = Inr (jp_connector plan)"
  have ff: "f' = f" using f' assms(2) by simp
  have "limits_positive (limits_within (cn_limits (jp_connector plan)) (limits_of (cn_config (jp_connector plan))))"
    using b assms(3) by (auto simp: builds_valid_def intro!: limits_within_positive limits_of_positive)
  from times_asked_eq [OF this cs fetch_gaps_keys [OF assms(4)], of p t]
    fetch_gaps_separated [of f]
  show ?thesis using in_fetch_gaps [OF get_source_id [OF src], of p d t] assms(5) ff by simp
qed

lemma times_asked_pos:
  "0 < times_asked cs p t \<Longrightarrow> \<exists>c \<in> set cs. p \<in> set (call_points c) \<and> call_start c \<le> t \<and> t < call_end c"
proof -
  assume "0 < times_asked cs p t"
  then have "{#w \<in># calls_work cs. fst w = p \<and> in_range (snd w) t#} \<noteq> {#}"
    unfolding times_asked_def by (metis less_irrefl size_empty)
  then obtain w where "w \<in># {#w \<in># calls_work cs. fst w = p \<and> in_range (snd w) t#}"
    by (meson multiset_nonemptyE)
  then have "w \<in># calls_work cs" "fst w = p" "in_range (snd w) t" by auto
  with calls_work_memD [of p "snd w" cs] show ?thesis by (cases w) (auto simp: in_range_def)
qed

section \<open>What an execution touches\<close>

text \<open>
  Running the calls changes the coverage table and, in the fetch's own row, its counters.
\<close>

definition same_claim :: "(source_fetch \<Rightarrow> source_fetch) \<Rightarrow> bool" where
  "same_claim g \<longleftrightarrow> (\<forall>f. sf_id (g f) = sf_id f \<and> sf_source_id (g f) = sf_source_id f
     \<and> sf_trigger (g f) = sf_trigger f)"

definition touches :: "uuid \<Rightarrow> db \<Rightarrow> db \<Rightarrow> bool" where
  "touches fid d d' \<longleftrightarrow> (\<exists>c g. d' = d\<lparr>coverages := c, source_fetches := update_where (\<lambda>f. sf_id f = fid) g (source_fetches d)\<rparr>
     \<and> same_claim g)"

lemma update_where_twice:
  "(\<And>f. p (g f) = p f) \<Longrightarrow> update_where p h (update_where p g t) = update_where p (\<lambda>r. h (g r)) t"
  by (simp add: update_where_def)

lemma update_where_same: "update_where p (\<lambda>r. r) t = t"
  by (simp add: update_where_def)

lemma touches_refl: "touches fid d d"
  unfolding touches_def same_claim_def
  by (intro exI [of _ "coverages d"] exI [of _ "\<lambda>f. f"]) (simp add: update_where_same)

lemma touches_trans: "touches fid d d' \<Longrightarrow> touches fid d' d'' \<Longrightarrow> touches fid d d''"
proof -
  assume "touches fid d d'" "touches fid d' d''"
  then obtain c g c' g' where
    "d' = d\<lparr>coverages := c, source_fetches := update_where (\<lambda>f. sf_id f = fid) g (source_fetches d)\<rparr>" "same_claim g"
    "d'' = d'\<lparr>coverages := c', source_fetches := update_where (\<lambda>f. sf_id f = fid) g' (source_fetches d')\<rparr>" "same_claim g'"
    unfolding touches_def by blast
  then show ?thesis unfolding touches_def
    by (intro exI [of _ c'] exI [of _ "\<lambda>f. g' (g f)"]) (simp add: same_claim_def update_where_twice)
qed

lemma touches_set_fetch: "same_claim g \<Longrightarrow> touches fid d (set_fetch d fid g)"
  unfolding touches_def by (intro exI [of _ "coverages d"] exI [of _ g]) (simp add: set_fetch_def)

lemma touches_coverages: "touches fid d (d\<lparr>coverages := c\<rparr>)"
  unfolding touches_def same_claim_def
  by (intro exI [of _ c] exI [of _ "\<lambda>f. f"]) (simp add: update_where_same)

lemma run_call_touches: "run_call E plan fid k c st = (st', r) \<Longrightarrow> touches fid (fs_db st) (fs_db st')"
proof (cases r)
  case (Inl s)
  assume "run_call E plan fid k c st = (st', r)"
  with Inl run_call_stop(1) [of E plan fid k c st st' s] show ?thesis by (simp add: touches_refl)
next
  case (Inr rows)
  assume run: "run_call E plan fid k c st = (st', r)"
  from run [unfolded Inr] obtain tabs failed errs st2 where
    wr: "write_tables (case e_cache E of Some w \<Rightarrow> w | None \<Rightarrow> (\<lambda>i rows. Inl [])) tabs failed
       (st\<lparr>fs_out := (fs_out st)\<lparr>fo_point_errors := errs\<rparr>\<rparr>) 0 = (st2, Inr rows)"
    and st': "st' = st2\<lparr>fs_db := set_fetch
       (if call_start c < settled_end (call_end c) (datetime_to_ns (e_now_call E k)) (jp_settle_ns plan)
        then record_points (call_points c) failed (jp_org_id plan) (call_start c)
               (settled_end (call_end c) (datetime_to_ns (e_now_call E k)) (jp_settle_ns plan))
               (fo_series_rows (fs_out st2)) (e_now_call E k) (fs_db st2)
        else fs_db st2) fid (\<lambda>f. f\<lparr>sf_calls := sf_calls f + 1, sf_rows := sf_rows f + rows\<rparr>)\<rparr>"
    by (rule run_call_parts)
  have db: "fs_db st2 = fs_db st" using write_tables_frame [OF wr] by simp
  have "touches fid d (set_fetch d fid (\<lambda>f. f\<lparr>sf_calls := sf_calls f + 1, sf_rows := sf_rows f + rows\<rparr>))" for d
    by (rule touches_set_fetch) (simp add: same_claim_def)
  moreover have "touches fid (fs_db st) (record_points ps fl og s e rw now (fs_db st))" for ps fl og s e rw now
    using record_points_frame [of ps fl og s e rw now "fs_db st"] touches_coverages by metis
  ultimately show ?thesis using touches_trans touches_refl by (simp add: st' db) blast
qed

lemma run_calls_touches: "run_calls E dl plan fid k cs st = (st', s) \<Longrightarrow> touches fid (fs_db st) (fs_db st')"
proof (induction E dl plan fid k cs st arbitrary: st' s rule: run_calls.induct)
  case (1 E dl plan fid k st)
  then show ?case by (simp add: touches_refl)
next
  case (2 E dl plan fid k c cs st)
  obtain st1 r where call: "run_call E plan fid k c st = (st1, r)" by fastforce
  note one = run_call_touches [OF call]
  show ?case
  proof (cases "case dl of None \<Rightarrow> False | Some t \<Rightarrow> t \<le> e_mono E k")
    case True
    with "2.prems" show ?thesis by (simp add: touches_refl)
  next
    case False
    show ?thesis
    proof (cases r)
      case (Inl x)
      with call False "2.prems" one show ?thesis by simp
    next
      case (Inr rows)
      with call False "2.prems" have "run_calls E dl plan fid (Suc k) cs
          (st1\<lparr>fs_out := (fs_out st1)\<lparr>fo_calls := fo_calls (fs_out st1) + 1, fo_rows := fo_rows (fs_out st1) + rows\<rparr>\<rparr>) = (st', s)"
        by simp
      from "2.IH" [OF False call [symmetric] Inr this] one show ?thesis using touches_trans by auto
    qed
  qed
qed

lemma find_update_same:
  "(\<And>r. k (g r) = k r) \<Longrightarrow> List.find (\<lambda>r. k r = i) (update_where (\<lambda>r. k r = j) g t) =
   (if i = j then map_option g (List.find (\<lambda>r. k r = i) t) else List.find (\<lambda>r. k r = i) t)"
  by (induction t) (auto simp: update_where_def)

lemma touches_get_fetch:
  assumes "touches fid d d'"
  shows "i \<noteq> fid \<Longrightarrow> get_fetch d' i = get_fetch d i"
    and "get_fetch d fid = Some f \<Longrightarrow> \<exists>f'. get_fetch d' fid = Some f' \<and> sf_source_id f' = sf_source_id f
          \<and> sf_trigger f' = sf_trigger f \<and> sf_id f' = fid"
    and "sources d' = sources d"
proof -
  from assms obtain c g where d': "d' = d\<lparr>coverages := c, source_fetches := update_where (\<lambda>f. sf_id f = fid) g (source_fetches d)\<rparr>"
    and g: "same_claim g" unfolding touches_def by blast
  have find: "get_fetch d' i = (if i = fid then map_option g (get_fetch d i) else get_fetch d i)" for i
    unfolding get_fetch_def d' using g by (simp add: find_update_same same_claim_def)
  show "i \<noteq> fid \<Longrightarrow> get_fetch d' i = get_fetch d i" by (simp add: find)
  show "get_fetch d fid = Some f \<Longrightarrow> \<exists>f'. get_fetch d' fid = Some f' \<and> sf_source_id f' = sf_source_id f
          \<and> sf_trigger f' = sf_trigger f \<and> sf_id f' = fid"
    using g get_fetch_id [of d fid f] by (auto simp: find same_claim_def)
  show "sources d' = sources d" by (simp add: d')
qed

section \<open>How a fetch ends\<close>

lemma finish_row:
  assumes "get_fetch d fid = Some f"
  shows "\<exists>f'. get_fetch (finish E d fid out) fid = Some f' \<and> sf_status f' = fo_status out
     \<and> sf_error f' = fo_error out \<and> sf_finished_at f' = Some (e_now_finish E)
     \<and> sf_source_id f' = sf_source_id f \<and> sf_trigger f' = sf_trigger f
     \<and> (\<forall>src. get_source d (sf_source_id f) = Some src \<longrightarrow>
          get_source (finish E d fid out) (sf_source_id f)
            = Some (src\<lparr>src_health := next_health (src_health src) f' (e_now_finish E) (fo_retryable out)\<rparr>))"
    and "i \<noteq> fid \<Longrightarrow> get_fetch (finish E d fid out) i = get_fetch d i"
    and "j \<noteq> sf_source_id f \<Longrightarrow> get_source (finish E d fid out) j = get_source d j"
    and "cached (finish E d fid out) = cached d"
proof -
  define close :: "source_fetch \<Rightarrow> source_fetch" where "close = (\<lambda>r. r\<lparr>sf_status := fo_status out, sf_error := fo_error out,
     sf_finished_at := Some (e_now_finish E),
     sf_result := (case fo_result out of None \<Rightarrow> sf_result r | Some x \<Rightarrow> Some x)\<rparr>)"
  define beat :: "source \<Rightarrow> source" where "beat = (\<lambda>s. s\<lparr>src_health := next_health (src_health s) (close f) (e_now_finish E) (fo_retryable out)\<rparr>)"
  let ?d1 = "set_fetch d fid close"
  have d1: "get_source ?d1 = get_source d" by (intro ext) (simp add: get_source_def set_fetch_def)
  have fin: "finish E d fid out = (case get_source d (sf_source_id f) of None \<Rightarrow> ?d1
      | Some src \<Rightarrow> set_source ?d1 (sf_source_id f) beat)"
    unfolding finish_def Let_def assms option.case close_def [symmetric] beat_def [symmetric] d1
    by (rule refl)
  have row: "get_fetch ?d1 i = (if i = fid then map_option close (get_fetch d i) else get_fetch d i)" for i
    by (simp add: get_fetch_def set_fetch_def find_update_same close_def)
  have "source_fetches (set_source x y z) = source_fetches x" for x y z by (simp add: set_source_def)
  then have row': "get_fetch (finish E d fid out) i = get_fetch ?d1 i" for i
    by (simp add: fin get_fetch_def split: option.splits)
  have src: "get_source (set_source ?d1 k beat) j = (if j = k then map_option beat (get_source d j) else get_source d j)" for j k
    unfolding d1 [symmetric] by (simp add: get_source_def set_source_def find_update_same beat_def)
  show "\<exists>f'. get_fetch (finish E d fid out) fid = Some f' \<and> sf_status f' = fo_status out
     \<and> sf_error f' = fo_error out \<and> sf_finished_at f' = Some (e_now_finish E)
     \<and> sf_source_id f' = sf_source_id f \<and> sf_trigger f' = sf_trigger f
     \<and> (\<forall>src. get_source d (sf_source_id f) = Some src \<longrightarrow>
          get_source (finish E d fid out) (sf_source_id f)
            = Some (src\<lparr>src_health := next_health (src_health src) f' (e_now_finish E) (fo_retryable out)\<rparr>))"
  proof (intro exI [of _ "close f"] conjI allI impI)
    show "get_fetch (finish E d fid out) fid = Some (close f)" using assms by (simp add: row' row)
    show "get_source (finish E d fid out) (sf_source_id f)
        = Some (src\<lparr>src_health := next_health (src_health src) (close f) (e_now_finish E) (fo_retryable out)\<rparr>)"
      if "get_source d (sf_source_id f) = Some src" for src
      using that by (simp add: fin src) (simp add: beat_def)
  qed (simp_all add: close_def)
  show "i \<noteq> fid \<Longrightarrow> get_fetch (finish E d fid out) i = get_fetch d i" by (simp add: row' row)
  show "j \<noteq> sf_source_id f \<Longrightarrow> get_source (finish E d fid out) j = get_source d j"
    by (simp add: fin src d1 split: option.splits)
  show "cached (finish E d fid out) = cached d" by (simp add: fin split: option.splits)
qed

text \<open>The rows and tables an execution leaves as they were.\<close>

lemma update_where_others:
  "(\<And>r. k (g r) = k r) \<Longrightarrow> filter (\<lambda>r. k r \<noteq> i) (update_where (\<lambda>r. k r = i) g t) = filter (\<lambda>r. k r \<noteq> i) t"
  "(\<And>r. k (g r) = k r) \<Longrightarrow> map k (update_where (\<lambda>r. k r = i) g t) = map k t"
  by (induction t) (auto simp: update_where_def)

definition frame :: "uuid \<Rightarrow> uuid \<Rightarrow> db \<Rightarrow> db \<Rightarrow> bool" where
  "frame fid i d d' \<longleftrightarrow>
     (\<exists>fs ss cs. d' = d\<lparr>source_fetches := fs, sources := ss, coverages := cs\<rparr>) \<and>
     filter (\<lambda>f. sf_id f \<noteq> fid) (source_fetches d') = filter (\<lambda>f. sf_id f \<noteq> fid) (source_fetches d) \<and>
     map sf_id (source_fetches d') = map sf_id (source_fetches d) \<and>
     filter (\<lambda>s. src_id s \<noteq> i) (sources d') = filter (\<lambda>s. src_id s \<noteq> i) (sources d) \<and>
     map src_id (sources d') = map src_id (sources d)"

lemma frame_equation:
  assumes "frame fid i d d'"
  shows "d' = d\<lparr>source_fetches := source_fetches d', sources := sources d', coverages := coverages d'\<rparr>"
proof -
  obtain fs ss cs where d': "d' = d\<lparr>source_fetches := fs, sources := ss, coverages := cs\<rparr>"
    using assms unfolding frame_def by blast
  then have "source_fetches d' = fs" "sources d' = ss" "coverages d' = cs" by simp_all
  with d' show ?thesis by (simp only:)
qed

lemma frame_trans:
  assumes "frame fid i d d1" and "frame fid i d1 d'"
  shows "frame fid i d d'"
proof -
  obtain fs ss cs where d1: "d1 = d\<lparr>source_fetches := fs, sources := ss, coverages := cs\<rparr>"
    using assms(1) unfolding frame_def by blast
  obtain fs' ss' cs' where d': "d' = d1\<lparr>source_fetches := fs', sources := ss', coverages := cs'\<rparr>"
    using assms(2) unfolding frame_def by blast
  have "d' = d\<lparr>source_fetches := fs', sources := ss', coverages := cs'\<rparr>" unfolding d' d1 by simp
  then show ?thesis using assms unfolding frame_def by (intro conjI) (blast, simp_all only:)
qed

lemma touches_rows: "touches fid d d' \<Longrightarrow> frame fid i d d'"
  unfolding touches_def
proof (elim exE conjE)
  fix c g assume d': "d' = d\<lparr>coverages := c, source_fetches := update_where (\<lambda>f. sf_id f = fid) g (source_fetches d)\<rparr>" and g: "same_claim g"
  show ?thesis unfolding frame_def
  proof (intro conjI)
    show "\<exists>fs ss cs. d' = d\<lparr>source_fetches := fs, sources := ss, coverages := cs\<rparr>"
      by (intro exI [of _ "source_fetches d'"] exI [of _ "sources d"] exI [of _ c]) (simp add: d')
  qed (use g in \<open>simp_all add: d' same_claim_def update_where_others\<close>)
qed

lemma finish_rows:
  assumes "get_fetch d fid = Some f"
  shows "frame fid (sf_source_id f) d (finish E d fid out)"
proof -
  define close :: "source_fetch \<Rightarrow> source_fetch" where "close = (\<lambda>r. r\<lparr>sf_status := fo_status out, sf_error := fo_error out,
     sf_finished_at := Some (e_now_finish E),
     sf_result := (case fo_result out of None \<Rightarrow> sf_result r | Some x \<Rightarrow> Some x)\<rparr>)"
  define beat :: "source \<Rightarrow> source" where "beat = (\<lambda>s. s\<lparr>src_health := next_health (src_health s) (close f) (e_now_finish E) (fo_retryable out)\<rparr>)"
  have keys: "\<And>r. sf_id (close r) = sf_id r" "\<And>s. src_id (beat s) = src_id s" by (simp_all add: close_def beat_def)
  have fetch: "frame fid (sf_source_id f) d (set_fetch d fid close)"
    unfolding frame_def set_fetch_def
  proof (intro conjI)
    show "\<exists>fs ss cs. d\<lparr>source_fetches := update_where (\<lambda>f. sf_id f = fid) close (source_fetches d)\<rparr> = d\<lparr>source_fetches := fs, sources := ss, coverages := cs\<rparr>"
      by (intro exI [of _ "update_where (\<lambda>f. sf_id f = fid) close (source_fetches d)"] exI [of _ "sources d"] exI [of _ "coverages d"]) simp
  qed (simp_all add: update_where_others keys)
  have health: "frame fid (sf_source_id f) x (set_source x (sf_source_id f) beat)" for x
    unfolding frame_def set_source_def
  proof (intro conjI)
    show "\<exists>fs ss cs. x\<lparr>sources := update_where (\<lambda>s. src_id s = sf_source_id f) beat (sources x)\<rparr> = x\<lparr>source_fetches := fs, sources := ss, coverages := cs\<rparr>"
      by (intro exI [of _ "source_fetches x"] exI [of _ "update_where (\<lambda>s. src_id s = sf_source_id f) beat (sources x)"] exI [of _ "coverages x"]) simp
  qed (simp_all add: update_where_others keys)
  have "finish E d fid out = (case get_source (set_fetch d fid close) (sf_source_id f) of None \<Rightarrow> set_fetch d fid close
      | Some src \<Rightarrow> set_source (set_fetch d fid close) (sf_source_id f) beat)"
    unfolding finish_def Let_def assms option.case close_def [symmetric] beat_def [symmetric] by (rule refl)
  then show ?thesis using fetch frame_trans [OF fetch health] by (simp split: option.splits)
qed

lemma close_status:
  "fo_status (add_point_errors (close_outcome s out)) \<in> {FetchSucceeded, FetchPartial, FetchFailed}
   \<and> (fo_retryable out \<or> fo_retryable (add_point_errors (close_outcome s out)) = False
        \<or> fo_status (add_point_errors (close_outcome s out)) = FetchPartial)"
  by (cases s) (auto simp: close_outcome_def add_point_errors_def Let_def split: stop.splits list.splits prod.splits)

lemma close_succeeded:
  "fo_status (add_point_errors (close_outcome s out)) = FetchSucceeded \<longleftrightarrow> s = None \<and> fo_point_errors out = []"
  by (cases s) (auto simp: close_outcome_def add_point_errors_def Let_def split: stop.splits list.splits prod.splits if_splits)

text \<open>An execution that ends either was stopped while preparing or ran the plan's calls.\<close>

lemma execute_fetch_Ended:
  assumes "execute_fetch E d fid dl = Ended d' out cache"
  obtains (stopped) msg f where "prepare E d fid True = Stopped msg" "get_fetch d fid = Some f"
      "out = new_outcome FetchFailed (Some msg)" "d' = finish E d fid out" "cache = []"
  | (ran) d1 plan st s f where "prepare E d fid True = Prepared d1 plan" "get_fetch d fid = Some f"
      "touches fid d d1" "cached d1 = cached d"
      "run_calls E dl plan fid 0 (jp_calls plan)
         \<lparr>fs_db = d1, fs_cache = [], fs_out = new_outcome FetchRunning None\<rparr> = (st, s)"
      "out = add_point_errors (close_outcome s (fs_out st))"
      "d' = finish E (fs_db st) fid out" "cache = fs_cache st"
proof (cases "prepare E d fid True")
  case (Stopped msg)
  then obtain f where "get_fetch d fid = Some f" by (auto simp: prepare_def split: option.splits)
  with Stopped assms stopped show ?thesis by (auto simp: execute_fetch_def Let_def)
next
  case (Prepared d1 plan)
  obtain st s where run: "run_calls E dl plan fid 0 (jp_calls plan)
     \<lparr>fs_db = d1, fs_cache = [], fs_out = new_outcome FetchRunning None\<rparr> = (st, s)" by fastforce
  from Prepared obtain f where f: "get_fetch d fid = Some f"
    and d1: "d1 = set_fetch d fid (\<lambda>r. r\<lparr>sf_status := FetchRunning,
        sf_started_at := (case sf_started_at r of None \<Rightarrow> Some (e_now_prepare E) | Some t \<Rightarrow> Some t)\<rparr>)"
    by (rule prepare_Prepared)
  have "touches fid d d1" unfolding d1 by (rule touches_set_fetch) (simp add: same_claim_def)
  moreover have "cached d1 = cached d" by (simp add: d1)
  ultimately show ?thesis
    by (intro ran [OF Prepared f _ _ run]) (use Prepared assms run in \<open>auto simp: execute_fetch_def Let_def\<close>)
qed (use assms in \<open>simp_all add: execute_fetch_def\<close>)

lemma run_call_retryable:
  "run_call E plan fid k c st = (st', Inr rows) \<Longrightarrow> fo_retryable (fs_out st') = fo_retryable (fs_out st)
     \<and> fo_error (fs_out st') = fo_error (fs_out st)"
  using write_tables_frame by (elim run_call_parts) fastforce

lemma run_calls_retryable:
  "run_calls E dl plan fid k cs st = (st', None) \<Longrightarrow> fo_retryable (fs_out st') = fo_retryable (fs_out st)
     \<and> fo_error (fs_out st') = fo_error (fs_out st)"
proof (induction E dl plan fid k cs st arbitrary: st' rule: run_calls.induct)
  case (2 E dl plan fid k c cs st)
  obtain st1 r where call: "run_call E plan fid k c st = (st1, r)" by fastforce
  from "2.prems" have dl: "\<not> (case dl of None \<Rightarrow> False | Some t \<Rightarrow> t \<le> e_mono E k)" by (auto split: if_splits)
  from "2.prems" dl call obtain rows where r: "r = Inr rows" by (cases r) auto
  from call r dl "2.prems" have rest: "run_calls E dl plan fid (Suc k) cs
     (st1\<lparr>fs_out := (fs_out st1)\<lparr>fo_calls := fo_calls (fs_out st1) + 1, fo_rows := fo_rows (fs_out st1) + rows\<rparr>\<rparr>) = (st', None)"
    by simp
  from "2.IH" [OF dl call [symmetric] r rest] run_call_retryable [OF call [unfolded r]] show ?case by simp
qed simp

lemma plan_calls_total: "limits_positive l \<Longrightarrow> plan_calls gaps l \<noteq> None"
  using plan_calls_work [of l gaps] by auto

lemma prepare_not_broken:
  assumes "builds_valid E"
  shows "prepare E d fid b \<noteq> Broken"
proof -
  have total: "plan_calls gaps (limits_within (cn_limits cn) (limits_of (cn_config cn))) \<noteq> None"
    if "e_build E ty cfg creds = Inr cn" for gaps ty cfg creds cn
    using assms that by (intro plan_calls_total limits_within_positive limits_of_positive) (auto simp: builds_valid_def)
  show ?thesis
    by (auto simp: prepare_def Let_def simp del: not_None_eq dest: total
        split: option.splits sum.splits credentials_failure.splits if_splits)
qed

lemma prepare_NotToRun:
  "prepare E d fid b = NotToRun \<longleftrightarrow>
   (\<forall>f. get_fetch d fid = Some f \<longrightarrow> sf_status f \<notin> {FetchQueued, FetchPartial})"
  by (auto simp: prepare_def Let_def split: option.splits sum.splits credentials_failure.splits if_splits)

lemma run_calls_error:
  "run_calls E dl plan fid k cs st = (st', None) \<Longrightarrow> fo_error (fs_out st') = fo_error (fs_out st)"
  by (blast dest: run_calls_retryable)

section \<open>Properties of the fetch engine\<close>

text \<open>C1: a prepared fetch asks for every instant of its window that the cache lacks exactly
  once, and for nothing else: an instant of a point is asked for by one call when the point belongs
  to the fetch, the instant lies in the window and is not cached (or the fetch is forced), and by no
  call otherwise.  A retry therefore fetches only what is still missing.\<close>

theorem fetch_asks_each_gap_once:
  assumes "prepare E d fid True = Prepared d1 plan" and "get_fetch d fid = Some f"
    and "builds_valid E" and "uniq_key ser_id (all_series d)" and "sf_window_start f < sf_window_end f"
  shows "times_asked (jp_calls plan) p t = (if asked_for d f p t then 1 else 0)"
  using plan_asks [OF assms] .

text \<open>C2: executing a fetch never loses coverage and never invents it: every instant of a
  series that is covered afterwards was covered before, or was delivered by one of the plan's
  calls, whose stream ended normally, did not fail the point, lies before the settled end, and
  whose rows of the series are all in the cache.\<close>

theorem fetch_coverage_sound:
  assumes "execute_fetch E d fid dl = Ended d' out cache"
  shows "(cached d j t \<longrightarrow> cached d' j t) \<and>
    (cached d' j t \<longrightarrow> cached d j t \<or>
      (\<exists>d1 plan i. prepare E d fid True = Prepared d1 plan \<and> i < length (jp_calls plan) \<and>
         call_delivers E plan i (jp_calls plan ! i) cache j t))"
  using assms
proof (cases rule: execute_fetch_Ended)
  case (stopped msg f)
  then show ?thesis using finish_row(4) [OF stopped(2)] by simp
next
  case (ran d1 plan st s f)
  have "touches fid d (fs_db st)" using run_calls_touches [OF ran(5)] ran(3) touches_trans by fastforce
  then obtain f' where "get_fetch (fs_db st) fid = Some f'" using touches_get_fetch(2) ran(2) by blast
  then have "cached d' = cached (fs_db st)" using finish_row(4) ran(7) by metis
  then show ?thesis using run_calls_sound [OF ran(5)] ran by auto
qed

text \<open>C3: a fetch that ends succeeded leaves no gap: every instant of its window, of every
  point it was for, that was settled when its calls ran is covered afterwards.\<close>

theorem fetch_success_complete:
  assumes "execute_fetch E d fid dl = Ended d' out cache" and "fo_status out = FetchSucceeded"
    and "get_fetch d fid = Some f" and "builds_valid E" and "uniq_key ser_id (all_series d)"
    and "p \<in> set (fetch_points d (sf_source_id f) (sf_series_ids f))"
    and "datetime_to_ns (sf_window_start f) \<le> t" and "t < datetime_to_ns (sf_window_end f)"
    and "\<forall>d1 plan i. prepare E d fid True = Prepared d1 plan \<longrightarrow> i < length (jp_calls plan) \<longrightarrow>
           t < datetime_to_ns (e_now_call E i) - jp_settle_ns plan"
  shows "cached d' (pt_series_id p) t"
  using assms(1)
proof (cases rule: execute_fetch_Ended)
  case (stopped msg f')
  then show ?thesis using assms(2) by (simp add: new_outcome_def)
next
  case (ran d1 plan st s f')
  from assms(2) ran(6) have none: "s = None" "fo_point_errors (fs_out st) = []"
    by (simp_all add: close_succeeded)
  have "touches fid d (fs_db st)" using run_calls_touches [OF ran(5)] ran(3) touches_trans by fastforce
  then obtain f'' where "get_fetch (fs_db st) fid = Some f''" using touches_get_fetch(2) ran(2) by blast
  then have d': "cached d' = cached (fs_db st)" using finish_row(4) ran(7) by metis
  have win: "sf_window_start f < sf_window_end f" using assms(7,8) by (simp add: datetime_to_ns_def)
  show ?thesis
  proof (cases "asked_for d f p t")
    case False
    then have "cached d (pt_series_id p) t" using assms(6-8) by (simp add: asked_for_def)
    then show ?thesis using d' ran(4) run_calls_sound [OF ran(5)] by simp
  next
    case True
    then have "0 < times_asked (jp_calls plan) p t"
      using plan_asks [OF ran(1) assms(3-5) win] by simp
    then obtain i where i: "i < length (jp_calls plan)" "p \<in> set (call_points (jp_calls plan ! i))"
       "call_start (jp_calls plan ! i) \<le> t" "t < call_end (jp_calls plan ! i)"
      using times_asked_pos by (metis in_set_conv_nth)
    have "t < settled_end (call_end (jp_calls plan ! i)) (datetime_to_ns (e_now_call E (0 + i))) (jp_settle_ns plan)"
      using i assms(9) ran(1) by (simp add: settled_end_def)
    from run_calls_complete [OF ran(5) [unfolded none(1)] none(2) i(1,2,3) this] d' show ?thesis by simp
  qed
qed

text \<open>C4: an executed fetch is closed: its row has a final status (succeeded, partial or failed), the outcome's error
  and the finishing time; only a partial outcome is retryable; its source's health is the next health of the one before.
  It changes nothing else but coverage: no other fetch and no other source changes, no row of the two tables is added or
  removed, and every table except these two and the coverage is as it was.\<close>

theorem fetch_is_closed:
  assumes "execute_fetch E d fid dl = Ended d' out cache"
  shows "fo_status out \<in> {FetchSucceeded, FetchPartial, FetchFailed}
    \<and> (fo_retryable out \<longrightarrow> fo_status out = FetchPartial)
    \<and> (\<exists>f'. get_fetch d' fid = Some f' \<and> sf_status f' = fo_status out \<and> sf_error f' = fo_error out
         \<and> sf_finished_at f' = Some (e_now_finish E)
         \<and> (\<forall>src. get_source d (sf_source_id f') = Some src \<longrightarrow> get_source d' (sf_source_id f')
              = Some (src\<lparr>src_health := next_health (src_health src) f' (e_now_finish E) (fo_retryable out)\<rparr>))
         \<and> filter (\<lambda>s. src_id s \<noteq> sf_source_id f') (sources d') = filter (\<lambda>s. src_id s \<noteq> sf_source_id f') (sources d))
    \<and> map src_id (sources d') = map src_id (sources d)
    \<and> filter (\<lambda>f. sf_id f \<noteq> fid) (source_fetches d') = filter (\<lambda>f. sf_id f \<noteq> fid) (source_fetches d)
    \<and> map sf_id (source_fetches d') = map sf_id (source_fetches d)
    \<and> d' = d\<lparr>source_fetches := source_fetches d', sources := sources d', coverages := coverages d'\<rparr>"
  using assms
proof (cases rule: execute_fetch_Ended)
  case (stopped msg f)
  then have "frame fid (sf_source_id f) d d'" using finish_rows by blast
  then show ?thesis
    using finish_row(1) [OF stopped(2), of E out] frame_equation
    by (auto simp: stopped(3,4) frame_def new_outcome_def)
next
  case (ran d1 plan st s f)
  have t: "touches fid d (fs_db st)" using run_calls_touches [OF ran(5)] ran(3) touches_trans by fastforce
  then obtain f' where f': "get_fetch (fs_db st) fid = Some f'" "sf_source_id f' = sf_source_id f"
    using touches_get_fetch(2) ran(2) by blast
  have src: "get_source (fs_db st) = get_source d"
    using touches_get_fetch(3) [OF t] by (intro ext) (simp add: get_source_def)
  have fr: "frame fid (sf_source_id f) d d'"
    using frame_trans [OF touches_rows [OF t] finish_rows [OF f'(1), unfolded f'(2)]] by (simp add: ran(7))
  have retry: "fo_retryable out \<longrightarrow> fo_status out = FetchPartial" unfolding ran(6)
    using run_calls_retryable [of E dl plan fid 0 "jp_calls plan" _ st] ran(5)
    by (cases s) (auto simp: close_outcome_def add_point_errors_def Let_def new_outcome_def
        split: stop.splits list.splits prod.splits if_splits)
  obtain r where "get_fetch d' fid = Some r" "sf_status r = fo_status out" "sf_error r = fo_error out"
      "sf_finished_at r = Some (e_now_finish E)" "sf_source_id r = sf_source_id f"
      "\<forall>src. get_source d (sf_source_id f) = Some src \<longrightarrow> get_source d' (sf_source_id f)
         = Some (src\<lparr>src_health := next_health (src_health src) r (e_now_finish E) (fo_retryable out)\<rparr>)"
    using finish_row(1) [OF f'(1), of E out] unfolding f'(2) src ran(7) [symmetric] by blast
  with fr retry close_status [of s "fs_out st"] show ?thesis unfolding frame_def ran(6) by auto
qed

text \<open>C15: executing a fetch always returns when the registry builds valid connectors, and it is
  skipped exactly when there is no such fetch or it is neither queued nor partial: a fetch that is
  running or has ended is never executed a second time.\<close>

theorem fetch_returns:
  assumes "builds_valid E"
  shows "execute_fetch E d fid dl \<noteq> Raised \<and>
    (execute_fetch E d fid dl = Skipped \<longleftrightarrow>
       (\<forall>f. get_fetch d fid = Some f \<longrightarrow> sf_status f \<notin> {FetchQueued, FetchPartial}))"
proof -
  have "prepare E d fid True \<noteq> Broken" using prepare_not_broken [OF assms] .
  moreover have "prepare E d fid True = NotToRun \<longleftrightarrow>
       (\<forall>f. get_fetch d fid = Some f \<longrightarrow> sf_status f \<notin> {FetchQueued, FetchPartial})"
    by (rule prepare_NotToRun)
  ultimately show ?thesis
    by (cases "prepare E d fid True") (simp_all add: execute_fetch_def Let_def)
qed

text \<open>C16: progress: when the connector behaves on every planned call and the store accepts the
  writes, the fetch ends succeeded after exactly the planned calls.\<close>

theorem fetch_progress:
  assumes "prepare E d fid True = Prepared d1 plan" and "\<forall>c \<in> set (jp_calls plan). behaves (jp_connector plan) c"
    and "store_works E"
  shows "\<exists>d' out cache. execute_fetch E d fid None = Ended d' out cache \<and> fo_status out = FetchSucceeded
     \<and> fo_calls out = int (length (jp_calls plan)) \<and> fo_error out = None"
proof -
  let ?st = "\<lparr>fs_db = d1, fs_cache = [], fs_out = new_outcome FetchRunning None\<rparr>"
  obtain st' where run: "run_calls E None plan fid 0 (jp_calls plan) ?st = (st', None)"
      "fo_point_errors (fs_out st') = []" "fo_calls (fs_out st') = int (length (jp_calls plan))"
    using run_calls_progress [OF assms(2,3) refl, of fid 0 ?st] by (auto simp: new_outcome_def)
  have err: "fo_error (fs_out st') = None" using run_calls_error [OF run(1)] by (simp add: new_outcome_def)
  show ?thesis using assms(1) run err
    by (simp add: execute_fetch_def Let_def close_outcome_def add_point_errors_def)
qed

text \<open>A call is all or nothing: a call that stops records no coverage and no progress, and a
  call that completes covers, beyond what was covered, exactly the span from its start to its
  settled end (in whole microseconds) of those of its points that did not fail.\<close>

theorem call_is_atomic:
  assumes "run_call E plan fid k c st = (st', r)"
  shows "case r of
     Inl s \<Rightarrow> fs_db st' = fs_db st
   | Inr rows \<Rightarrow> \<forall>j t. cached (fs_db st') j t \<longleftrightarrow> cached (fs_db st) j t \<or>
      (let e = settled_end (call_end c) (datetime_to_ns (e_now_call E k)) (jp_settle_ns plan)
       in call_start c < e \<and> (\<exists>p \<in> set (call_points c). pt_series_id p = j)
          \<and> \<not> point_failed j (fst (cn_fetch (jp_connector plan) (call_points c) (call_start c) (call_end c)))
          \<and> floor_us (call_start c) \<le> t \<and> t < ceil_us e)"
proof (cases r)
  case (Inl s)
  then show ?thesis using run_call_stop(1) assms by simp
next
  case (Inr rows)
  then show ?thesis using run_call_cached(3) assms by simp
qed

text \<open>The health of a source over the fetches that end, oldest first.\<close>

definition health_after :: "health \<Rightarrow> (source_fetch \<times> datetime \<times> bool) list \<Rightarrow> health" where
  "health_after h events = fold (\<lambda>(f, now, retryable) h. next_health h f now retryable) events h"

definition fail_streak :: "(source_fetch \<times> datetime \<times> bool) list \<Rightarrow> nat" where
  "fail_streak events = length (takeWhile (\<lambda>e. sf_status (fst e) \<noteq> FetchSucceeded) (rev events))"

text \<open>A source's health is a function of how many fetches failed in a row: starting from no
  failures, after any sequence of ended fetches it is ok when the last one succeeded, degraded after
  one or two failures in a row, failing from the third, and the counter is the streak.\<close>

theorem health_counts_streak:
  assumes "h_consecutive_failures h = 0" and "events \<noteq> []"
  shows "h_consecutive_failures (health_after h events) = int (fail_streak events)
    \<and> h_status (health_after h events) =
        (if fail_streak events = 0 then HOk else if fail_streak events < 3 then HDegraded else HFailing)"
  using assms(2)
proof (induction events rule: rev_nonempty_induct)
  case (single e)
  then show ?case using assms(1)
    by (cases e) (auto simp: health_after_def fail_streak_def next_health_def Let_def FAILING_AFTER_def)
next
  case (snoc e events)
  have "health_after h (events @ [e]) = next_health (health_after h events) (fst e) (fst (snd e)) (snd (snd e))"
    by (cases e) (simp add: health_after_def)
  moreover have "fail_streak (events @ [e]) = (if sf_status (fst e) = FetchSucceeded then 0 else Suc (fail_streak events))"
    by (simp add: fail_streak_def)
  ultimately show ?case using snoc.IH by (auto simp: next_health_def Let_def FAILING_AFTER_def)
qed

section \<open>An example fetch\<close>

text \<open>A source with one series, and a queued fetch of two minutes cut into two calls.\<close>

definition ex_config :: connector_config where
  "ex_config = \<lparr>cfg_poll_interval_s = Some 60, cfg_backfill_s = 86400, cfg_settle_s = 0,
     cfg_requests_per_second = 1, cfg_max_points = 10, cfg_max_span_s = 60\<rparr>"

definition ex_connector :: connector where
  "ex_connector = \<lparr>cn_config = ex_config, cn_limits = limits_of ex_config,
     cn_fetch = (\<lambda>ps s e. (map (\<lambda>p. ItemRows (pt_series_id p) (Batch [(s, Some 1, Some ''good'')])) ps, StreamDone))\<rparr>"

definition ex_env :: env where
  "ex_env = \<lparr>e_cache = Some (\<lambda>i rows. Inr (int (length rows))),
     e_cipher = \<lparr>hash8 = (\<lambda>k. k), seal_with = (\<lambda>k n v a. []), open_with = (\<lambda>k n c a. None)\<rparr>,
     e_keyring = None, e_build = (\<lambda>ty cfg creds. Inr ex_connector), e_now_prepare = 1000000000,
     e_now_call = (\<lambda>k. 1000000000 + int k), e_now_finish = 1000000009, e_mono = of_nat\<rparr>"

definition ex_health :: health where
  "ex_health = \<lparr>h_status = HUnknown, h_checked_at = None, h_consecutive_failures = 0,
     h_last_success_at = None, h_last_error = None, h_last_fetch = None\<rparr>"

definition ex_source :: source where
  "ex_source = \<lparr>src_org_id = 1, src_workspace_id = 2, src_id = 5, src_type = SrcSynthetic, src_name = ''s'',
     src_config = [], src_health = ex_health, src_enabled = True, src_polled_at = None,
     src_created_at = 0, src_updated_at = 0\<rparr>"

definition ex_series :: series where
  "ex_series = \<lparr>ser_org_id = 1, ser_workspace_id = 2, ser_id = 7, ser_source_id = 5, ser_external_id = ''a'',
     ser_name = ''a'', ser_unit = None, ser_kind = KindMeasurement, ser_expected_interval_ns = None,
     ser_physical_min = None, ser_physical_max = None, ser_operational_min = None, ser_operational_max = None,
     ser_resolution = None, ser_non_negative = None, ser_asset_path = None, ser_metadata = [],
     ser_created_at = 0, ser_updated_at = 0\<rparr>"

definition ex_fetch :: source_fetch where
  "ex_fetch = snd (create_fetch empty_db ex_source 9 FManual 0 120000000 None False (Some 3) None FetchQueued None 0)"

definition ex_db :: db where
  "ex_db = empty_db\<lparr>sources := [ex_source], all_series := [ex_series], source_fetches := [ex_fetch]\<rparr>"

definition ex_point :: point_ref where "ex_point = \<lparr>pt_series_id = 7, pt_external_id = ''a''\<rparr>"

lemma ex_get: "get_fetch ex_db 9 = Some ex_fetch" "ser_id ex_series = 7" "sf_window_start ex_fetch = 0"
  "sf_window_end ex_fetch = 120000000" "sf_source_id ex_fetch = 5" "sf_series_ids ex_fetch = None"
  "sf_force ex_fetch = False"
  by (simp_all add: get_fetch_def ex_db_def ex_fetch_def create_fetch_def Let_def ex_series_def ex_source_def)

lemma ex_builds_valid: "builds_valid ex_env"
  by (simp add: builds_valid_def ex_env_def ex_connector_def limits_of_positive config_valid_def ex_config_def)

lemma ex_uniq: "uniq_key ser_id (all_series ex_db)"
  by (simp add: uniq_key_def ex_db_def)

lemma ex_points: "fetch_points ex_db 5 None = [ex_point]"
  by (simp add: fetch_points_def ex_db_def ex_series_def ex_point_def)

lemma ex_executed: "case execute_fetch ex_env ex_db 9 None of
    Ended d' out cache \<Rightarrow> fo_status out = FetchSucceeded \<and> fo_calls out = 2 \<and> fo_rows out = 2
       \<and> in_some (covered_ranges d' 7 RAW_LAYER) 70000000000
  | _ \<Rightarrow> False"
  by code_simp

lemma ex_prepared: "case prepare ex_env ex_db 9 True of
    Prepared d1 plan \<Rightarrow> map call_start (jp_calls plan) = [0, 60000000000] \<and> jp_settle_ns plan = 0
  | _ \<Rightarrow> False"
  by code_simp

lemma ex_prepared_obtain:
  obtains d1 plan where "prepare ex_env ex_db 9 True = Prepared d1 plan"
    "map call_start (jp_calls plan) = [0, 60000000000]" "jp_settle_ns plan = 0"
  using ex_prepared by (auto split: prepared.splits)

lemma ex_executed_obtain:
  obtains d' out cache where "execute_fetch ex_env ex_db 9 None = Ended d' out cache"
    "fo_status out = FetchSucceeded" "cached d' 7 70000000000"
  using ex_executed by (auto simp: cached_def split: executed.splits)

lemma ex_cached: "cached ex_db i t \<longleftrightarrow> False"
  by (simp add: cached_def covered_ranges_def ex_db_def empty_db_def)

lemma ex_asked: "asked_for ex_db ex_fetch ex_point 5"
  by (simp add: asked_for_def ex_get ex_points ex_cached datetime_to_ns_def)

theorem fetch_asks_each_gap_once_witness:
  "\<exists>d1 plan. prepare ex_env ex_db 9 True = Prepared d1 plan \<and> times_asked (jp_calls plan) ex_point 5 = 1"
proof (rule ex_prepared_obtain)
  fix d1 plan assume "prepare ex_env ex_db 9 True = Prepared d1 plan"
  with fetch_asks_each_gap_once [OF this ex_get(1) ex_builds_valid ex_uniq, of ex_point 5] ex_asked
  show ?thesis by (simp add: ex_get)
qed

theorem fetch_coverage_sound_witness:
  "\<exists>d' out cache plan d1 i. execute_fetch ex_env ex_db 9 None = Ended d' out cache
     \<and> prepare ex_env ex_db 9 True = Prepared d1 plan
     \<and> call_delivers ex_env plan i (jp_calls plan ! i) cache 7 70000000000"
proof (rule ex_executed_obtain)
  fix d' out cache
  assume "execute_fetch ex_env ex_db 9 None = Ended d' out cache" "cached d' 7 70000000000"
  with fetch_coverage_sound [OF this(1), of 7 70000000000] ex_cached show ?thesis by blast
qed

theorem fetch_success_complete_witness:
  "\<exists>d' out cache. execute_fetch ex_env ex_db 9 None = Ended d' out cache \<and> cached d' 7 5"
proof (rule ex_executed_obtain)
  fix d' out cache
  assume run: "execute_fetch ex_env ex_db 9 None = Ended d' out cache" "fo_status out = FetchSucceeded"
  have settled: "\<forall>d1 plan i. prepare ex_env ex_db 9 True = Prepared d1 plan \<longrightarrow> i < length (jp_calls plan) \<longrightarrow>
       5 < datetime_to_ns (e_now_call ex_env i) - jp_settle_ns plan"
    using ex_prepared by (auto simp: ex_env_def datetime_to_ns_def)
  have "cached d' (pt_series_id ex_point) 5"
    by (rule fetch_success_complete [OF run ex_get(1) ex_builds_valid ex_uniq _ _ _ settled])
      (simp_all add: ex_get ex_points datetime_to_ns_def)
  with run show ?thesis by (auto simp: ex_point_def)
qed

theorem fetch_is_closed_witness:
  "\<exists>d' out cache f'. execute_fetch ex_env ex_db 9 None = Ended d' out cache
     \<and> get_fetch d' 9 = Some f' \<and> sf_status f' = FetchSucceeded"
proof (rule ex_executed_obtain)
  fix d' out cache
  assume "execute_fetch ex_env ex_db 9 None = Ended d' out cache" "fo_status out = FetchSucceeded"
  with fetch_is_closed [OF this(1)] show ?thesis by auto
qed

theorem fetch_returns_witness: "execute_fetch ex_env ex_db 9 None \<noteq> Skipped"
  using fetch_returns [OF ex_builds_valid, of ex_db 9 None] ex_get(1)
  by (auto simp: ex_fetch_def create_fetch_def Let_def)

theorem fetch_progress_witness:
  "\<exists>d' out cache. execute_fetch ex_env ex_db 9 None = Ended d' out cache \<and> fo_calls out = 2"
proof -
  obtain d1 plan where p: "prepare ex_env ex_db 9 True = Prepared d1 plan"
    "map call_start (jp_calls plan) = [0, 60000000000]" by (rule ex_prepared_obtain)
  from p(1) have "jp_connector plan = ex_connector"
    by (rule prepare_Prepared) (auto simp: ex_env_def)
  moreover have "behaves ex_connector c" for c
    by (auto simp: behaves_def ex_connector_def Let_def item_fine_def checked_def QUALITIES_def)
  moreover have "store_works ex_env" by (simp add: store_works_def ex_env_def)
  ultimately show ?thesis using fetch_progress [OF p(1)] arg_cong [OF p(2), of length] by auto
qed

definition ex_plan :: job_plan where
  "ex_plan = \<lparr>jp_source_id = 5, jp_org_id = 1, jp_connector = ex_connector, jp_calls = [], jp_settle_ns = 0,
     jp_trigger = FManual, jp_params = None, jp_series_ids = None, jp_workspace_id = 2\<rparr>"

theorem call_is_atomic_witness:
  "let st = \<lparr>fs_db = ex_db, fs_cache = [], fs_out = new_outcome FetchRunning None\<rparr>;
       c = \<lparr>call_start = 0, call_end = 60000000000, call_points = [ex_point]\<rparr>
   in \<exists>st' rows. run_call ex_env ex_plan 9 0 c st = (st', Inr rows) \<and> cached (fs_db st') 7 5"
proof -
  let ?st = "\<lparr>fs_db = ex_db, fs_cache = [], fs_out = new_outcome FetchRunning None\<rparr>"
  let ?c = "\<lparr>call_start = 0, call_end = 60000000000, call_points = [ex_point]\<rparr>"
  have b: "behaves ex_connector ?c" "store_works ex_env"
    by (auto simp: behaves_def ex_connector_def Let_def item_fine_def checked_def QUALITIES_def
        store_works_def ex_env_def)
  then obtain st' rows where run: "run_call ex_env ex_plan 9 0 ?c ?st = (st', Inr rows)"
    using run_call_progress [of ex_plan ?c ex_env 9 0 ?st] by (auto simp: ex_plan_def)
  have "cached (fs_db st') 7 5"
    using call_is_atomic [OF run] behaves_no_failure [OF b(1)]
    by (simp add: Let_def ex_plan_def settled_end_def ex_env_def datetime_to_ns_def ex_point_def
        floor_us_def ceil_us_def ns_to_datetime_def ns_to_datetime_ceil_def)
  with run show ?thesis by auto
qed

theorem health_counts_streak_witness:
  "h_status (health_after ex_health (replicate 3 (ex_fetch\<lparr>sf_status := FetchFailed\<rparr>, 0, False))) = HFailing"
proof -
  let ?events = "replicate 3 (ex_fetch\<lparr>sf_status := FetchFailed\<rparr>, 0 :: datetime, False)"
  have "fail_streak ?events = 3" by (simp add: fail_streak_def numeral_3_eq_3)
  with health_counts_streak [of ex_health ?events] show ?thesis by (simp add: ex_health_def)
qed

end
