(* ===== verification/Polling.thy ===== *)
theory Polling
  imports Fetches
begin

text \<open>
  The scheduler's side of \<^verbatim>\<open>services/fetches.py\<close>: claiming the sources whose poll interval
  has passed and pruning old fetches (the definer functions of migration 0008), queueing a poll or
  an ingest for a claimed source, and counting the fetches in flight.
\<close>

section \<open>Sources that are due\<close>

text \<open>\<^verbatim>\<open>connectors.is_connector\<close> and \<^verbatim>\<open>reads_windows\<close> over the registered connectors.\<close>

definition is_connector :: "source_type \<Rightarrow> bool" where
  "is_connector ty \<longleftrightarrow> ty \<in> {SrcSynthetic, SrcPiWebApi, SrcOpcUa, SrcCsvDir}"

definition reads_windows :: "source_type \<Rightarrow> bool" where
  "reads_windows ty \<longleftrightarrow> ty \<noteq> SrcCsvDir"

definition HOUR_US :: int where "HOUR_US = 3600 * 1000000"

text \<open>The poll interval of a stored config, in microseconds, when it is a JSON number.\<close>

definition poll_interval_us :: "jobj \<Rightarrow> int option" where
  "poll_interval_us cfg =
     (case map_of cfg ''poll_interval_s'' of
        Some (JInt n) \<Rightarrow> Some (n * 1000000)
      | Some (JNum r) \<Rightarrow> Some (round (r * 1000000))
      | _ \<Rightarrow> None)"

definition in_flight_fetch :: "uuid \<Rightarrow> source_fetch \<Rightarrow> bool" where
  "in_flight_fetch i f \<longleftrightarrow> sf_source_id f = i \<and> (sf_status f = FetchQueued \<or> sf_status f = FetchRunning)"

definition is_due :: "db \<Rightarrow> source_type set \<Rightarrow> datetime \<Rightarrow> source \<Rightarrow> bool" where
  "is_due d types now s \<longleftrightarrow>
     src_enabled s \<and> src_type s \<in> types \<and>
     (case poll_interval_us (src_config s) of
        None \<Rightarrow> False
      | Some iv \<Rightarrow> (case src_polled_at s of None \<Rightarrow> True | Some p \<Rightarrow> p + iv \<le> now)) \<and>
     \<not> (\<exists>f \<in> set (source_fetches d). in_flight_fetch (src_id s) f \<and> now - HOUR_US < sf_created_at f)"

definition claim_due_sources :: "db \<Rightarrow> datetime \<Rightarrow> db \<times> (uuid \<times> uuid \<times> uuid) list" where
  "claim_due_sources d now =
     (let due = is_due d {ty. is_connector ty} now
      in (d\<lparr>sources := update_where due (\<lambda>s. s\<lparr>src_polled_at := Some now\<rparr>) (sources d)\<rparr>,
          map (\<lambda>s. (src_id s, src_org_id s, src_workspace_id s)) (filter due (sources d))))"

text \<open>
  \<^verbatim>\<open>int(config.get("backfill_s", 86400))\<close> on the numbers a validated config holds.
\<close>

definition backfill_s :: "jobj \<Rightarrow> int" where
  "backfill_s cfg =
     (case map_of cfg ''backfill_s'' of
        Some (JInt n) \<Rightarrow> n
      | Some (JNum r) \<Rightarrow> (if 0 \<le> r then \<lfloor>r\<rfloor> else \<lceil>r\<rceil>)
      | _ \<Rightarrow> 86400)"

definition queue_poll :: "db \<Rightarrow> uuid \<Rightarrow> datetime \<Rightarrow> bool \<Rightarrow> uuid \<Rightarrow> datetime \<Rightarrow> db \<times> uuid option" where
  "queue_poll d source_id now inline new_id created =
     (case get_source d source_id of
        None \<Rightarrow> (d, None)
      | Some s \<Rightarrow>
          (let (d1, f) = (if is_connector (src_type s) \<and> \<not> reads_windows (src_type s)
                 then create_fetch d s new_id FIngest now now None False None None FetchQueued None created
                 else create_fetch d s new_id FPoll (now - backfill_s (src_config s) * 1000000) now
                        None False None None FetchQueued None created)
           in (if inline then d1 else enqueue d1 f, Some (sf_id f))))"

definition prune :: "db \<Rightarrow> datetime \<Rightarrow> db \<times> int" where
  "prune d now =
     (d\<lparr>source_fetches := delete_where (\<lambda>f. sf_created_at f < now - KEEP_FOR) (source_fetches d)\<rparr>,
      int (length (filter (\<lambda>f. sf_created_at f < now - KEEP_FOR) (source_fetches d))))"

definition in_flight :: "db \<Rightarrow> uuid \<Rightarrow> int" where
  "in_flight d source_id = int (length (filter (in_flight_fetch source_id) (source_fetches d)))"

text \<open>The poll tick of \<^verbatim>\<open>jobs/tasks.py\<close>: claim, then queue a fetch per claimed source.\<close>

fun queue_all :: "db \<Rightarrow> (uuid \<times> uuid \<times> uuid) list \<Rightarrow> datetime \<Rightarrow> uuid list \<Rightarrow> db" where
  "queue_all d ((i, org, w) # due) now (new_id # ids) =
     queue_all (fst (queue_poll d i now False new_id now)) due now ids"
| "queue_all d due now ids = d"

definition poll_tick :: "db \<Rightarrow> datetime \<Rightarrow> uuid list \<Rightarrow> db" where
  "poll_tick d now ids =
     (let (d1, due) = claim_due_sources d now in queue_all d1 due now ids)"

section \<open>Facts\<close>

lemma is_due_cong:
  "source_fetches d = source_fetches d' \<Longrightarrow> is_due d types now s = is_due d' types now s"
  by (simp add: is_due_def)

text \<open>
  A source with a fetch created within the hour that is still queued or running is not due.
\<close>

lemma not_due_in_flight:
  "f \<in> set (source_fetches d) \<Longrightarrow> in_flight_fetch (src_id s) f \<Longrightarrow> now - HOUR_US < sf_created_at f \<Longrightarrow>
   \<not> is_due d types now s"
  by (auto simp: is_due_def)

lemma queue_poll_sources [frame_simps]: "sources (fst (queue_poll d i now b n c)) = sources d"
  by (simp add: queue_poll_def create_fetch_def enqueue_def Let_def split: option.splits)

lemma queue_poll_mono: "set (source_fetches d) \<subseteq> set (source_fetches (fst (queue_poll d i now b n c)))"
  by (auto simp: queue_poll_def create_fetch_def enqueue_def Let_def split: option.splits)

lemma queue_poll_creates:
  "get_source d i = Some s \<Longrightarrow>
   \<exists>f \<in> set (source_fetches (fst (queue_poll d i now b n now))). in_flight_fetch (src_id s) f \<and> sf_created_at f = now
      \<and> sf_id f = n"
  by (auto simp: queue_poll_def create_fetch_def enqueue_def Let_def in_flight_fetch_def)

lemma queue_all_mono: "set (source_fetches d) \<subseteq> set (source_fetches (queue_all d due now ids))"
proof (induction d due now ids rule: queue_all.induct)
  case (1 d i org w due now new_id ids)
  then show ?case using queue_poll_mono by fastforce
qed auto

lemma queue_all_sources [frame_simps]: "sources (queue_all d due now ids) = sources d"
  by (induction d due now ids rule: queue_all.induct) (auto simp: frame_simps)

lemma queue_all_creates:
  "\<lbrakk>length due \<le> length ids; (i, x) \<in> set due; get_source d i = Some s\<rbrakk> \<Longrightarrow>
   \<exists>f \<in> set (source_fetches (queue_all d due now ids)). in_flight_fetch (src_id s) f \<and> sf_created_at f = now"
proof (induction d due now ids rule: queue_all.induct)
  case (1 d j org w due now new_id ids)
  let ?d = "fst (queue_poll d j now False new_id now)"
  have src: "get_source ?d i = get_source d i" by (simp add: get_source_def frame_simps)
  show ?case
  proof (cases "(i, x) \<in> set due")
    case True
    with 1 src show ?thesis by simp
  next
    case False
    with "1.prems" have "j = i" by auto
    with queue_poll_creates [of d i s now False new_id] "1.prems"(3) queue_all_mono [of ?d due now ids]
    show ?thesis by auto
  qed
qed auto

lemma find_uniq_source: "uniq_key src_id (sources d) \<Longrightarrow> s \<in> set (sources d) \<Longrightarrow> get_source d (src_id s) = Some s"
  unfolding get_source_def by (rule find_uniq) (auto dest: uniq_keyD)

section \<open>Properties of polling\<close>

text \<open>Claiming returns exactly the due sources and marks them polled; a source whose interval
  has not passed since the claim, or that has a recent fetch queued or running, is not claimed.\<close>

theorem claim_is_exact:
  assumes "claim_due_sources d now = (d', due)"
  shows "set due = {(src_id s, src_org_id s, src_workspace_id s) | s.
       s \<in> set (sources d) \<and> is_due d {ty. is_connector ty} now s}
    \<and> (\<forall>s \<in> set (sources d'). \<forall>iv now'. poll_interval_us (src_config s) = Some iv \<longrightarrow>
         src_polled_at s = Some now \<longrightarrow> now' < now + iv \<longrightarrow> \<not> is_due d' {ty. is_connector ty} now' s)
    \<and> (\<forall>s \<in> set (sources d). is_due d {ty. is_connector ty} now s \<longrightarrow>
         s\<lparr>src_polled_at := Some now\<rparr> \<in> set (sources d'))"
proof (intro conjI ballI allI impI)
  let ?due = "is_due d {ty. is_connector ty} now"
  have d': "d' = d\<lparr>sources := update_where ?due (\<lambda>s. s\<lparr>src_polled_at := Some now\<rparr>) (sources d)\<rparr>"
    and due: "due = map (\<lambda>s. (src_id s, src_org_id s, src_workspace_id s)) (filter ?due (sources d))"
    using assms by (auto simp: claim_due_sources_def Let_def)
  show "set due = {(src_id s, src_org_id s, src_workspace_id s) | s. s \<in> set (sources d) \<and> ?due s}"
    by (auto simp: due)
  show "\<not> is_due d' {ty. is_connector ty} now' s"
    if "poll_interval_us (src_config s) = Some iv" "src_polled_at s = Some now" "now' < now + iv" for s iv now'
    using that by (simp add: is_due_def)
  show "s\<lparr>src_polled_at := Some now\<rparr> \<in> set (sources d')" if "s \<in> set (sources d)" "?due s" for s
    using that by (force simp: d' in_set_update_where)
qed

text \<open>One poll in flight per source: after a poll tick every claimed source has a fetch queued,
  and until that fetch ends or an hour passes no later tick claims the source again, whatever its
  poll interval.\<close>

theorem poll_tick_one_in_flight:
  assumes "uniq_key src_id (sources d)" and "length (sources d) \<le> length ids"
    and "s \<in> set (sources d)" and "is_due d {ty. is_connector ty} now s"
    and "now' < now + HOUR_US" and "s' \<in> set (sources (poll_tick d now ids))" and "src_id s' = src_id s"
  shows "\<not> is_due (poll_tick d now ids) {ty. is_connector ty} now' s'"
proof -
  let ?due = "is_due d {ty. is_connector ty} now"
  let ?d1 = "d\<lparr>sources := update_where ?due (\<lambda>s. s\<lparr>src_polled_at := Some now\<rparr>) (sources d)\<rparr>"
  let ?l = "map (\<lambda>s. (src_id s, src_org_id s, src_workspace_id s)) (filter ?due (sources d))"
  have tick: "poll_tick d now ids = queue_all ?d1 ?l now ids"
    by (simp add: poll_tick_def claim_due_sources_def Let_def)
  have "uniq_key src_id (sources ?d1)" using assms(1) by (simp add: uniq_key_update_where)
  moreover have "s\<lparr>src_polled_at := Some now\<rparr> \<in> set (sources ?d1)"
    using assms(3,4) by (auto simp: in_set_update_where)
  ultimately have src: "get_source ?d1 (src_id s) = Some (s\<lparr>src_polled_at := Some now\<rparr>)"
    using find_uniq_source [of ?d1 "s\<lparr>src_polled_at := Some now\<rparr>"] by simp
  have "length ?l \<le> length ids" using assms(2) by (metis length_filter_le length_map order_trans)
  moreover have "(src_id s, src_org_id s, src_workspace_id s) \<in> set ?l" using assms(3,4) by auto
  ultimately obtain f where "f \<in> set (source_fetches (queue_all ?d1 ?l now ids))"
     "in_flight_fetch (src_id s) f" "sf_created_at f = now"
    using queue_all_creates [OF _ _ src] by fastforce
  then show ?thesis using assms(5,7) tick not_due_in_flight [of f "poll_tick d now ids" s' now'] by simp
qed

section \<open>An example\<close>

definition ex_due :: source where
  "ex_due = \<lparr>src_org_id = 1, src_workspace_id = 2, src_id = 5, src_type = SrcSynthetic, src_name = ''s'',
     src_config = [(''poll_interval_s'', JInt 60)],
     src_health = \<lparr>h_status = HUnknown, h_checked_at = None, h_consecutive_failures = 0, h_last_success_at = None,
        h_last_error = None, h_last_fetch = None\<rparr>,
     src_enabled = True, src_polled_at = None, src_created_at = 0, src_updated_at = 0\<rparr>"

definition ex_pdb :: db where "ex_pdb = empty_db\<lparr>sources := [ex_due]\<rparr>"

lemma ex_is_due: "is_due ex_pdb {ty. is_connector ty} now ex_due"
  by (simp add: is_due_def ex_pdb_def ex_due_def is_connector_def poll_interval_us_def empty_db_def)

theorem claim_is_exact_witness: "\<exists>d'. claim_due_sources ex_pdb 100 = (d', [(5, 1, 2)]) \<and>
    ex_due\<lparr>src_polled_at := Some 100\<rparr> \<in> set (sources d')"
proof -
  obtain d' where r: "claim_due_sources ex_pdb 100 = (d', [(5, 1, 2)])"
    using ex_is_due [of 100] by (simp add: claim_due_sources_def Let_def) (simp add: ex_pdb_def ex_due_def)
  have "ex_due \<in> set (sources ex_pdb)" by (simp add: ex_pdb_def)
  with claim_is_exact [OF r] ex_is_due r show ?thesis by blast
qed

theorem poll_tick_one_in_flight_witness:
  "\<exists>s' \<in> set (sources (poll_tick ex_pdb 100 [70])). \<not> is_due (poll_tick ex_pdb 100 [70]) {ty. is_connector ty} (100 + 1800 * 1000000) s'"
proof -
  have s: "ex_due \<in> set (sources ex_pdb)" "length (sources ex_pdb) \<le> length [70::nat]" "uniq_key src_id (sources ex_pdb)"
    by (simp_all add: ex_pdb_def uniq_key_def)
  have "sources (poll_tick ex_pdb 100 [70]) = update_where (is_due ex_pdb {ty. is_connector ty} 100) (\<lambda>s. s\<lparr>src_polled_at := Some 100\<rparr>) [ex_due]"
    by (simp add: poll_tick_def claim_due_sources_def Let_def frame_simps) (simp add: ex_pdb_def)
  then have m: "ex_due\<lparr>src_polled_at := Some 100\<rparr> \<in> set (sources (poll_tick ex_pdb 100 [70]))"
    using ex_is_due by (auto simp: in_set_update_where)
  have "\<not> is_due (poll_tick ex_pdb 100 [70]) {ty. is_connector ty} (100 + 1800 * 1000000) (ex_due\<lparr>src_polled_at := Some 100\<rparr>)"
    by (rule poll_tick_one_in_flight [OF s(3,2,1) ex_is_due _ m]) (simp_all add: HOUR_US_def)
  with m show ?thesis by blast
qed

end
