(* ===== verification/Findings.thy ===== *)
theory Findings
  imports Models Strings Timeconv
begin

text \<open>
  \<^verbatim>\<open>services/findings.py\<close>: a run's findings are stored with deduplication (each merges into
  the best overlapping finding that may absorb it, or is inserted), its metrics are upserted, and a
  finding's status moves along the allowed transitions.  Findings of the core are values of
  \<open>core_finding\<close>; scores and ratios are exact rationals.
\<close>

section \<open>What the core reports\<close>

record core_finding =
  cf_check_id :: string
  cf_dimension :: string
  cf_severity :: string
  cf_start :: ns
  cf_end :: ns
  cf_score_impact :: rat
  cf_summary :: string
  cf_evidence :: jobj

record core_metric =
  cm_check_id :: string
  cm_name :: string
  cm_ts :: ns
  cm_value :: "rat option"

record check_report =
  rep_findings :: "core_finding list"
  rep_metrics :: "core_metric list"

record persist_outcome =
  po_new :: nat
  po_merged :: nat
  po_metrics :: nat

section \<open>Windows and candidates\<close>

type_synonym window = "datetime \<times> datetime"

definition stored_window :: "core_finding \<Rightarrow> window" where
  "stored_window f = (let start = ns_to_datetime (cf_start f)
     in (start, max (ns_to_datetime_ceil (cf_end f)) (start + 1)))"

definition evidence_shape :: "jobj \<Rightarrow> string set" where
  "evidence_shape e = set (map fst e)"

definition overlap_ratio :: "window \<Rightarrow> window \<Rightarrow> rat" where
  "overlap_ratio a b =
     (let inter = min (snd a) (snd b) - max (fst a) (fst b);
          union = max (snd a) (snd b) - min (fst a) (fst b)
      in if 0 < union then of_int (max inter 0) / of_int union else 0)"

definition ABSORBING_STATUSES :: "finding_status list" where
  "ABSORBING_STATUSES = [FOpen, FAcked]"

definition finding_window :: "finding \<Rightarrow> window" where
  "finding_window f = (fd_window_start f, fd_window_end f)"

text \<open>The WHERE clause, the evidence filter, and the choice of the best candidate.\<close>

definition candidate_row :: "scope \<Rightarrow> uuid \<Rightarrow> uuid \<Rightarrow> core_finding \<Rightarrow> window \<Rightarrow> finding \<Rightarrow> bool" where
  "candidate_row sc rid series_id incoming w f \<longleftrightarrow>
     fd_workspace_id f = sc_workspace sc \<and> fd_series_id f = series_id \<and>
     fd_check_id f = cf_check_id incoming \<and> fd_status f \<in> set ABSORBING_STATUSES \<and>
     fd_window_start f < snd w \<and> fst w < fd_window_end f \<and> fd_first_run_id f \<noteq> Some rid"

definition same_subject :: "core_finding \<Rightarrow> finding \<Rightarrow> bool" where
  "same_subject incoming f \<longleftrightarrow>
     evidence_shape (fd_evidence f) = evidence_shape (cf_evidence incoming) \<and>
     (\<forall>k \<in> {''group_id'', ''partner''}. map_of (cf_evidence incoming) k \<noteq> None \<longrightarrow>
        map_of (fd_evidence f) k = map_of (cf_evidence incoming) k)"

definition best_candidate :: "db \<Rightarrow> scope \<Rightarrow> uuid \<Rightarrow> uuid \<Rightarrow> core_finding \<Rightarrow> window \<Rightarrow> finding option" where
  "best_candidate d sc rid series_id incoming w =
     py_max (\<lambda>f. overlap_ratio (finding_window f) w)
       (filter (same_subject incoming)
         (sort_key (\<lambda>f. (fd_window_start f, fd_created_at f))
           (filter (candidate_row sc rid series_id incoming w) (findings d))))"

section \<open>Merging and inserting\<close>

definition merged_finding :: "finding \<Rightarrow> uuid \<Rightarrow> core_finding \<Rightarrow> window \<Rightarrow> datetime \<Rightarrow> finding" where
  "merged_finding f rid incoming w now =
     f\<lparr>fd_window_start := min (fd_window_start f) (fst w),
       fd_window_end := max (fd_window_end f) (snd w),
       fd_severity := cf_severity incoming, fd_dimension := cf_dimension incoming,
       fd_score_impact := cf_score_impact incoming, fd_summary := cf_summary incoming,
       fd_evidence := cf_evidence incoming,
       fd_occurrences := fd_occurrences f + (if fd_last_run_id f = Some rid then 0 else 1),
       fd_last_run_id := Some rid, fd_updated_at := now\<rparr>"

text \<open>
  A window that grows backwards is rewritten as delete and insert under the same id, because its
  start is part of the key.
\<close>

definition merge_finding :: "db \<Rightarrow> finding \<Rightarrow> uuid \<Rightarrow> core_finding \<Rightarrow> window \<Rightarrow> datetime \<Rightarrow> db" where
  "merge_finding d existing rid incoming w now =
     (if min (fd_window_start existing) (fst w) = fd_window_start existing
      then d\<lparr>findings := update_where (\<lambda>f. fd_id f = fd_id existing)
               (\<lambda>f. merged_finding existing rid incoming w now) (findings d)\<rparr>
      else d\<lparr>findings := delete_where (\<lambda>f. fd_id f = fd_id existing) (findings d)
               @ [merged_finding existing rid incoming w now]\<rparr>)"

definition new_finding :: "scope \<Rightarrow> uuid \<Rightarrow> uuid \<Rightarrow> core_finding \<Rightarrow> window \<Rightarrow> datetime \<Rightarrow> uuid \<Rightarrow> finding" where
  "new_finding sc rid series_id incoming w now new_id =
     \<lparr>fd_org_id = sc_org sc, fd_workspace_id = sc_workspace sc, fd_id = new_id, fd_series_id = series_id,
      fd_check_id = cf_check_id incoming, fd_dimension = cf_dimension incoming,
      fd_severity = cf_severity incoming, fd_window_start = fst w, fd_window_end = snd w,
      fd_score_impact = cf_score_impact incoming, fd_summary = cf_summary incoming,
      fd_evidence = cf_evidence incoming, fd_status = FOpen, fd_status_reason = None, fd_status_at = None,
      fd_first_run_id = Some rid, fd_last_run_id = Some rid, fd_occurrences = 1,
      fd_created_at = now, fd_updated_at = now\<rparr>"

definition store_finding :: "scope \<Rightarrow> uuid \<Rightarrow> uuid \<Rightarrow> datetime \<Rightarrow> core_finding \<times> uuid
    \<Rightarrow> db \<times> nat \<times> nat \<Rightarrow> db \<times> nat \<times> nat" where
  "store_finding sc rid series_id now inc st =
     (let (incoming, new_id) = inc; (d, new, merged) = st; w = stored_window incoming
      in case best_candidate d sc rid series_id incoming w of
           None \<Rightarrow> (d\<lparr>findings := findings d @ [new_finding sc rid series_id incoming w now new_id]\<rparr>,
                    new + 1, merged)
         | Some existing \<Rightarrow> (merge_finding d existing rid incoming w now, new, merged + 1))"

section \<open>Metrics\<close>

type_synonym metric_key = "string \<times> string \<times> datetime"

text \<open>
  The dict of rows, in insertion order, each with the nanosecond instant it came from; a point
  that is not older replaces the one of its key.
\<close>

fun metric_put :: "metric_key \<Rightarrow> ns \<Rightarrow> rat \<Rightarrow> (metric_key \<times> ns \<times> rat) list \<Rightarrow> (metric_key \<times> ns \<times> rat) list" where
  "metric_put k t v [] = [(k, t, v)]"
| "metric_put k t v ((k', t', v') # rows) =
     (if k' = k then (if t < t' then (k', t', v') # rows else (k, t, v) # rows)
      else (k', t', v') # metric_put k t v rows)"

fun metric_dict :: "core_metric list \<Rightarrow> (metric_key \<times> ns \<times> rat) list \<Rightarrow> (metric_key \<times> ns \<times> rat) list" where
  "metric_dict [] rows = rows"
| "metric_dict (m # ms) rows =
     (case cm_value m of
        None \<Rightarrow> metric_dict ms rows
      | Some v \<Rightarrow> metric_dict ms
          (metric_put (cm_check_id m, cm_name m, ns_to_datetime (cm_ts m)) (cm_ts m) v rows))"

definition metric_rows :: "uuid \<Rightarrow> uuid \<Rightarrow> uuid \<Rightarrow> core_metric list \<Rightarrow> metric list" where
  "metric_rows org_id rid series_id ms =
     map (\<lambda>((c, n, ts), t, v). \<lparr>mt_org_id = org_id, mt_series_id = series_id, mt_run_id = rid,
            mt_check_id = c, mt_name = n, mt_ts = ts, mt_value = v\<rparr>) (metric_dict ms [])"

definition metric_pk :: "metric \<Rightarrow> uuid \<times> string \<times> string \<times> datetime" where
  "metric_pk m = (mt_series_id m, mt_check_id m, mt_name m, mt_ts m)"

definition replace_metric :: "metric \<Rightarrow> metric \<Rightarrow> metric" where
  "replace_metric old new = old\<lparr>mt_value := mt_value new, mt_run_id := mt_run_id new\<rparr>"

text \<open>The batches of the statement only split the list of rows; each row is one upsert.\<close>

definition store_metrics :: "db \<Rightarrow> metric list \<Rightarrow> db" where
  "store_metrics d rows = d\<lparr>metrics := fold (upsert metric_pk replace_metric) rows (metrics d)\<rparr>"

definition persist_report :: "db \<Rightarrow> scope \<Rightarrow> uuid \<Rightarrow> uuid \<Rightarrow> check_report \<Rightarrow> datetime \<Rightarrow> uuid list
    \<Rightarrow> db \<times> persist_outcome" where
  "persist_report d sc rid series_id report now new_ids =
     (let rows = metric_rows (sc_org sc) rid series_id (rep_metrics report);
          d1 = store_metrics d rows;
          (d2, new, merged) = fold (store_finding sc rid series_id now)
             (zip (rep_findings report) new_ids) (d1, 0, 0)
      in (d2, \<lparr>po_new = new, po_merged = merged, po_metrics = length rows\<rparr>))"

section \<open>Status changes\<close>

definition transitions :: "finding_status \<Rightarrow> finding_status list" where
  "transitions st = (case st of
     FOpen \<Rightarrow> [FAcked, FMuted, FResolved]
   | FAcked \<Rightarrow> [FResolved, FOpen]
   | FMuted \<Rightarrow> [FOpen]
   | FResolved \<Rightarrow> [FOpen])"

datatype status_error = FindingNotFound | BadTransition finding_status finding_status

definition get_finding :: "db \<Rightarrow> scope \<Rightarrow> uuid \<Rightarrow> finding option" where
  "get_finding d sc i = List.find (\<lambda>f. fd_id f = i \<and> fd_workspace_id f = sc_workspace sc) (findings d)"

definition clean_reason :: "string option \<Rightarrow> string option" where
  "clean_reason r = (case r of None \<Rightarrow> None | Some s \<Rightarrow> if strip s = [] then None else Some (strip s))"

definition change_status :: "db \<Rightarrow> scope \<Rightarrow> uuid \<Rightarrow> finding_status \<Rightarrow> string option \<Rightarrow> datetime
    \<Rightarrow> status_error + db \<times> finding" where
  "change_status d sc finding_id status reason now =
     rbind (expect (get_finding d sc finding_id) FindingNotFound) (\<lambda>f.
     rbind (require (status \<in> set (transitions (fd_status f))) (BadTransition (fd_status f) status)) (\<lambda>_.
       let f' = f\<lparr>fd_status := status, fd_status_reason := clean_reason reason,
                  fd_status_at := Some now, fd_updated_at := now\<rparr>
       in Inr (d\<lparr>findings := update_where (\<lambda>x. fd_id x = finding_id \<and> fd_workspace_id x = sc_workspace sc)
                 (\<lambda>_. f') (findings d)\<rparr>, f')))"

section \<open>Reads\<close>

definition list_metrics :: "db \<Rightarrow> uuid \<Rightarrow> string option \<Rightarrow> datetime option \<Rightarrow> datetime option \<Rightarrow> nat \<Rightarrow> metric list" where
  "list_metrics d series_id name since before n =
     take n (sort_key (\<lambda>m. (- mt_ts m, mt_check_id m, mt_name m))
       (filter (\<lambda>m. mt_series_id m = series_id
          \<and> (case name of None \<Rightarrow> True | Some x \<Rightarrow> mt_name m = x)
          \<and> (case since of None \<Rightarrow> True | Some t \<Rightarrow> t \<le> mt_ts m)
          \<and> (case before of None \<Rightarrow> True | Some t \<Rightarrow> mt_ts m < t)) (metrics d)))"

definition list_scores :: "db \<Rightarrow> uuid \<Rightarrow> nat \<Rightarrow> uuid option \<Rightarrow> score list" where
  "list_scores d series_id n in_run =
     take n (sort_key (\<lambda>s. - sc_computed_at s)
       (filter (\<lambda>s. sc_series_id s = series_id \<and> (case in_run of None \<Rightarrow> True | Some r \<Rightarrow> sc_run_id s = r)) (scores d)))"

end
