(* ===== verification/Finding_Facts.thy ===== *)
theory Finding_Facts
  imports Findings
begin

text \<open>
  Deduplication: findings that exist survive a report (they only grow), every reported finding is
  represented afterwards, reporting the same again inserts nothing; metrics keep the latest point of
  each key; and the lifecycle of a finding as a step relation.
\<close>

section \<open>The subject of a finding\<close>

text \<open>What a merge never changes: the evidence keys and the identifying values.\<close>

definition subject :: "jobj \<Rightarrow> string set \<times> json option \<times> json option" where
  "subject e = (evidence_shape e, map_of e ''group_id'', map_of e ''partner'')"

lemma map_of_shape: "map_of e k = None \<longleftrightarrow> k \<notin> evidence_shape e"
  by (simp add: evidence_shape_def map_of_eq_None_iff)

lemma same_subject_iff: "same_subject incoming f \<longleftrightarrow> subject (fd_evidence f) = subject (cf_evidence incoming)"
proof
  assume s: "same_subject incoming f"
  have "map_of (fd_evidence f) k = map_of (cf_evidence incoming) k" if "k \<in> {''group_id'', ''partner''}" for k
  proof (cases "map_of (cf_evidence incoming) k")
    case None
    then have "map_of (fd_evidence f) k = None" using s by (simp add: same_subject_def map_of_shape)
    with None show ?thesis by simp
  next
    case (Some v)
    with s that show ?thesis by (auto simp: same_subject_def)
  qed
  with s show "subject (fd_evidence f) = subject (cf_evidence incoming)"
    by (simp add: subject_def same_subject_def)
qed (auto simp: subject_def same_subject_def)

section \<open>Growing\<close>

text \<open>
  \<open>grown rid f f'\<close>: \<open>f'\<close> is \<open>f\<close> after the reports of run \<open>rid\<close>: the same finding about the same
  subject, its window at least as large, unchanged unless it may absorb, with one more occurrence when
  this is the first merge of the run.
\<close>

definition kept :: "finding \<Rightarrow> finding \<Rightarrow> bool" where
  "kept f f' \<longleftrightarrow>
     fd_id f' = fd_id f \<and> fd_org_id f' = fd_org_id f \<and> fd_workspace_id f' = fd_workspace_id f \<and>
     fd_series_id f' = fd_series_id f \<and> fd_check_id f' = fd_check_id f \<and> fd_status f' = fd_status f \<and>
     fd_status_reason f' = fd_status_reason f \<and> fd_status_at f' = fd_status_at f \<and>
     fd_first_run_id f' = fd_first_run_id f \<and> fd_created_at f' = fd_created_at f \<and>
     subject (fd_evidence f') = subject (fd_evidence f) \<and>
     fd_window_start f' \<le> fd_window_start f \<and> fd_window_end f \<le> fd_window_end f'"

definition grown :: "uuid \<Rightarrow> finding \<Rightarrow> finding \<Rightarrow> bool" where
  "grown rid f f' \<longleftrightarrow> kept f f' \<and>
     (f' = f \<or> fd_status f \<in> set ABSORBING_STATUSES \<and> fd_first_run_id f \<noteq> Some rid \<and> fd_last_run_id f' = Some rid \<and>
        fd_occurrences f' = fd_occurrences f + (if fd_last_run_id f = Some rid then 0 else 1))"

lemma kept_refl [simp]: "kept f f"
  by (simp add: kept_def)

lemma grown_refl [simp]: "grown rid f f"
  by (simp add: grown_def)

lemma kept_trans: "kept f g \<Longrightarrow> kept g h \<Longrightarrow> kept f h"
  unfolding kept_def by (intro conjI; elim conjE; (rule order_trans; assumption | simp only:))

lemma grown_trans:
  assumes "grown rid f g" and "grown rid g h"
  shows "grown rid f h"
proof (cases "g = f \<or> h = g")
  case True
  with assms show ?thesis by auto
next
  case False
  then have "kept f g" "kept g h" using assms by (simp_all add: grown_def)
  moreover have "fd_last_run_id g = Some rid" "fd_status f \<in> set ABSORBING_STATUSES" "fd_first_run_id f \<noteq> Some rid"
    "fd_occurrences g = fd_occurrences f + (if fd_last_run_id f = Some rid then 0 else 1)"
    "fd_last_run_id h = Some rid" "fd_occurrences h = fd_occurrences g + 0"
    using assms False by (auto simp: grown_def)
  ultimately show ?thesis using kept_trans [of f g h] by (simp add: grown_def)
qed

lemma grown_merged:
  "candidate_row sc rid i incoming w f \<Longrightarrow> same_subject incoming f \<Longrightarrow> grown rid f (merged_finding f rid incoming w now)"
  by (auto simp: grown_def kept_def merged_finding_def candidate_row_def same_subject_iff)

section \<open>The best candidate\<close>

lemma best_candidate_Some:
  assumes "best_candidate d sc rid i incoming w = Some f"
  shows "f \<in> set (findings d)" and "candidate_row sc rid i incoming w f" and "same_subject incoming f"
  using py_max_in [OF assms [unfolded best_candidate_def]] by auto

lemma best_candidate_None:
  "best_candidate d sc rid i incoming w = None \<longleftrightarrow>
   (\<forall>f \<in> set (findings d). \<not> (candidate_row sc rid i incoming w f \<and> same_subject incoming f))"
proof -
  have "filter P xs = [] \<longleftrightarrow> (\<forall>x \<in> set xs. \<not> P x)" for P :: "finding \<Rightarrow> bool" and xs
    by (simp add: filter_empty_conv)
  then show ?thesis unfolding best_candidate_def py_max_None by auto
qed

lemma best_candidate_ratio:
  "best_candidate d sc rid i incoming w = Some f \<Longrightarrow> g \<in> set (findings d) \<Longrightarrow>
   candidate_row sc rid i incoming w g \<Longrightarrow> same_subject incoming g \<Longrightarrow>
   overlap_ratio (finding_window g) w \<le> overlap_ratio (finding_window f) w"
  unfolding best_candidate_def by (erule py_max_ge) simp

lemma stored_window_nonempty: "fst (stored_window f) < snd (stored_window f)"
  by (simp add: stored_window_def Let_def)

section \<open>Storing one finding\<close>

lemma set_merge_finding:
  assumes "uniq_key fd_id (findings d)" and "f \<in> set (findings d)"
  shows "set (findings (merge_finding d f rid incoming w now))
     = {x \<in> set (findings d). fd_id x \<noteq> fd_id f} \<union> {merged_finding f rid incoming w now}"
    and "length (findings (merge_finding d f rid incoming w now)) = length (findings d)"
    and "uniq_key fd_id (findings (merge_finding d f rid incoming w now))"
proof -
  let ?m = "merged_finding f rid incoming w now"
  have id: "fd_id ?m = fd_id f" by (simp add: merged_finding_def)
  show "set (findings (merge_finding d f rid incoming w now))
     = {x \<in> set (findings d). fd_id x \<noteq> fd_id f} \<union> {?m}"
    using assms(2) by (auto simp: merge_finding_def set_update_where)
  have "length (filter (\<lambda>x. fd_id x \<noteq> fd_id f) (findings d)) + 1 = length (findings d)"
    using sum_length_filter_compl [of "\<lambda>x. fd_id x = fd_id f" "findings d"] filter_uniq [OF assms] by simp
  then show "length (findings (merge_finding d f rid incoming w now)) = length (findings d)"
    by (simp add: merge_finding_def delete_where_def)
  show "uniq_key fd_id (findings (merge_finding d f rid incoming w now))"
    using assms id by (auto simp: merge_finding_def intro!: uniq_key_update_where)
qed

text \<open>What one step does to the table: the facts a report's fold needs.\<close>

definition represents :: "scope \<Rightarrow> uuid \<Rightarrow> uuid \<Rightarrow> core_finding \<Rightarrow> finding \<Rightarrow> bool" where
  "represents sc rid i incoming f \<longleftrightarrow>
     fd_workspace_id f = sc_workspace sc \<and> fd_series_id f = i \<and> fd_check_id f = cf_check_id incoming \<and>
     fd_status f \<in> set ABSORBING_STATUSES \<and> subject (fd_evidence f) = subject (cf_evidence incoming) \<and>
     fd_last_run_id f = Some rid \<and>
     fd_window_start f \<le> fst (stored_window incoming) \<and> snd (stored_window incoming) \<le> fd_window_end f"

lemma represents_grown: "represents sc rid i incoming f \<Longrightarrow> grown rid f f' \<Longrightarrow> represents sc rid i incoming f'"
  by (auto simp: represents_def grown_def kept_def)

definition inserted_by :: "uuid \<Rightarrow> finding \<Rightarrow> bool" where
  "inserted_by rid f \<longleftrightarrow> fd_first_run_id f = Some rid \<and> fd_status f = FOpen"

lemma inserted_grown: "inserted_by rid f \<Longrightarrow> grown rid f f' \<Longrightarrow> f' = f"
  by (auto simp: inserted_by_def grown_def)

definition step_ok :: "scope \<Rightarrow> uuid \<Rightarrow> uuid \<Rightarrow> db \<times> nat \<times> nat \<Rightarrow> db \<times> nat \<times> nat \<Rightarrow> bool" where
  "step_ok sc rid i st st' \<longleftrightarrow>
     (\<forall>f \<in> set (findings (fst st)). \<exists>f' \<in> set (findings (fst st')). grown rid f f') \<and>
     (\<forall>f' \<in> set (findings (fst st')). inserted_by rid f' \<or> (\<exists>f \<in> set (findings (fst st)). grown rid f f')) \<and>
     length (findings (fst st')) = length (findings (fst st)) + (fst (snd st') - fst (snd st)) \<and>
     fst (snd st) \<le> fst (snd st')"

lemma step_ok_refl: "step_ok sc rid i st st"
  by (auto simp: step_ok_def intro: grown_refl)

lemma step_ok_trans: "step_ok sc rid i a b \<Longrightarrow> step_ok sc rid i b c \<Longrightarrow> step_ok sc rid i a c"
proof -
  assume ab: "step_ok sc rid i a b" and bc: "step_ok sc rid i b c"
  have "\<exists>f'' \<in> set (findings (fst c)). grown rid f f''" if "f \<in> set (findings (fst a))" for f
    using that ab bc grown_trans unfolding step_ok_def by meson
  moreover have "inserted_by rid f \<or> (\<exists>g \<in> set (findings (fst a)). grown rid g f)" if "f \<in> set (findings (fst c))" for f
    using that ab bc grown_trans inserted_grown unfolding step_ok_def by metis
  ultimately show ?thesis using ab bc by (simp add: step_ok_def)
qed

lemma findings_update_findings [simp]: "findings (d\<lparr>findings := x\<rparr>) = x"
  by simp

lemma store_finding_step:
  assumes u: "uniq_key fd_id (findings (fst st))" and fresh: "\<forall>f \<in> set (findings (fst st)). fd_id f \<noteq> new_id"
    and st': "st' = store_finding sc rid i now (incoming, new_id) st"
  shows "step_ok sc rid i st st'"
    and "uniq_key fd_id (findings (fst st'))"
    and "fd_id ` set (findings (fst st')) \<subseteq> insert new_id (fd_id ` set (findings (fst st)))"
    and "\<exists>f \<in> set (findings (fst st')). represents sc rid i incoming f"
    and "fst (snd st') + snd (snd st') = fst (snd st) + snd (snd st) + 1"
proof -
  obtain d new merged where st: "st = (d, new, merged)" by (cases st) auto
  let ?w = "stored_window incoming"
  have all: "step_ok sc rid i st st' \<and> uniq_key fd_id (findings (fst st')) \<and>
       fd_id ` set (findings (fst st')) \<subseteq> insert new_id (fd_id ` set (findings (fst st))) \<and>
       (\<exists>f \<in> set (findings (fst st')). represents sc rid i incoming f) \<and>
       fst (snd st') + snd (snd st') = fst (snd st) + snd (snd st) + 1"
  proof (cases "best_candidate d sc rid i incoming ?w")
    case None
    let ?n = "new_finding sc rid i incoming ?w now new_id"
    have st'': "st' = (d\<lparr>findings := findings d @ [?n]\<rparr>, new + 1, merged)"
      by (simp add: st' st store_finding_def Let_def None)
    have "represents sc rid i incoming ?n"
      by (simp add: represents_def new_finding_def ABSORBING_STATUSES_def)
    moreover have "inserted_by rid ?n" by (simp add: inserted_by_def new_finding_def)
    moreover have "fd_id ?n = new_id" by (simp add: new_finding_def)
    ultimately show "step_ok sc rid i st st' \<and> uniq_key fd_id (findings (fst st')) \<and>
       fd_id ` set (findings (fst st')) \<subseteq> insert new_id (fd_id ` set (findings (fst st))) \<and>
       (\<exists>f \<in> set (findings (fst st')). represents sc rid i incoming f) \<and>
       fst (snd st') + snd (snd st') = fst (snd st) + snd (snd st) + 1"
      using u fresh by (auto simp: st'' st step_ok_def intro: grown_refl)
  next
    case (Some f)
    let ?m = "merged_finding f rid incoming ?w now"
    note f = best_candidate_Some [OF Some]
    have st'': "st' = (merge_finding d f rid incoming ?w now, new, merged + 1)"
      by (simp add: st' st store_finding_def Let_def Some)
    note m = set_merge_finding [OF u [unfolded st fst_conv] f(1), of rid incoming ?w now]
    have g: "grown rid f ?m" by (rule grown_merged [OF f(2,3)])
    have id: "fd_id ?m = fd_id f" by (simp add: merged_finding_def)
    have "\<exists>y \<in> set (findings (fst st')). grown rid x y" if "x \<in> set (findings d)" for x
    proof (cases "fd_id x = fd_id f")
      case True
      then have "x = f" using u that f(1) by (simp add: st) (metis uniq_keyD)
      with g m(1) show ?thesis by (auto simp: st'')
    next
      case False
      with that m(1) show ?thesis by (auto simp: st'' intro: grown_refl)
    qed
    moreover have "\<exists>x \<in> set (findings d). grown rid x y" if "y \<in> set (findings (fst st'))" for y
      using that m(1) g f(1) by (auto simp: st'' intro: grown_refl)
    moreover have "represents sc rid i incoming ?m"
      using f(2,3) by (auto simp: represents_def merged_finding_def candidate_row_def same_subject_iff)
    moreover have "fd_id ` set (findings (fst st')) \<subseteq> fd_id ` set (findings d)"
      using m(1) id f(1) by (auto simp: st'')
    moreover have "\<exists>f \<in> set (findings (fst st')). represents sc rid i incoming f"
      using \<open>represents sc rid i incoming ?m\<close> m(1) by (auto simp: st'')
    ultimately show "step_ok sc rid i st st' \<and> uniq_key fd_id (findings (fst st')) \<and>
       fd_id ` set (findings (fst st')) \<subseteq> insert new_id (fd_id ` set (findings (fst st))) \<and>
       (\<exists>f \<in> set (findings (fst st')). represents sc rid i incoming f) \<and>
       fst (snd st') + snd (snd st') = fst (snd st) + snd (snd st) + 1"
      using m(2,3) unfolding st step_ok_def by (auto simp: st'')
  qed
  show "step_ok sc rid i st st'" "uniq_key fd_id (findings (fst st'))"
    "fd_id ` set (findings (fst st')) \<subseteq> insert new_id (fd_id ` set (findings (fst st)))"
    "\<exists>f \<in> set (findings (fst st')). represents sc rid i incoming f"
    "fst (snd st') + snd (snd st') = fst (snd st) + snd (snd st) + 1"
    using all by simp_all
qed

section \<open>Storing a report\<close>

text \<open>Fresh identifiers for the findings that may be inserted.\<close>

definition fresh_ids :: "uuid list \<Rightarrow> db \<Rightarrow> bool" where
  "fresh_ids ids d \<longleftrightarrow> distinct ids \<and> set ids \<inter> fd_id ` set (findings d) = {}"

lemma fold_store:
  "\<lbrakk>uniq_key fd_id (findings (fst st)); fresh_ids (map snd incs) (fst st)\<rbrakk> \<Longrightarrow>
   (let st' = fold (store_finding sc rid i now) incs st
    in step_ok sc rid i st st' \<and> uniq_key fd_id (findings (fst st')) \<and>
       (\<forall>inc \<in> set incs. \<exists>f \<in> set (findings (fst st')). represents sc rid i (fst inc) f) \<and>
       fst (snd st') + snd (snd st') = fst (snd st) + snd (snd st) + length incs)"
proof (induction incs arbitrary: st)
  case Nil
  then show ?case by (simp add: step_ok_refl)
next
  case (Cons inc incs)
  obtain incoming new_id where inc: "inc = (incoming, new_id)" by (cases inc)
  let ?st = "store_finding sc rid i now (incoming, new_id) st"
  have fresh: "\<forall>f \<in> set (findings (fst st)). fd_id f \<noteq> new_id"
    using Cons.prems(2) inc by (auto simp: fresh_ids_def)
  note one = store_finding_step [OF Cons.prems(1) fresh refl, of sc rid i now incoming]
  have "fresh_ids (map snd incs) (fst ?st)"
    using Cons.prems(2) one(3) inc unfolding fresh_ids_def by simp blast
  note IH = Cons.IH [OF one(2) this, unfolded Let_def]
  let ?r = "fold (store_finding sc rid i now) incs ?st"
  obtain f where f: "f \<in> set (findings (fst ?st))" "represents sc rid i incoming f" using one(4) by blast
  then obtain f' where f': "f' \<in> set (findings (fst ?r))" "grown rid f f'" using IH by (auto simp: step_ok_def)
  then have "\<exists>f \<in> set (findings (fst ?r)). represents sc rid i incoming f" using represents_grown f(2) by blast
  then show ?case using IH step_ok_trans [OF one(1)] one(5) by (auto simp: Let_def inc)
qed

lemma store_metrics_findings [frame_simps]: "findings (store_metrics d rows) = findings d"
  by (simp add: store_metrics_def)

lemma persist_report_fold:
  assumes "persist_report d sc rid i report now ids = (d', out)"
    and "uniq_key fd_id (findings d)" and "fresh_ids ids d" and "length (rep_findings report) \<le> length ids"
  shows "(\<forall>f \<in> set (findings d). \<exists>f' \<in> set (findings d'). grown rid f f')"
    and "(\<forall>f' \<in> set (findings d'). inserted_by rid f' \<or> (\<exists>f \<in> set (findings d). grown rid f f'))"
    and "length (findings d') = length (findings d) + po_new out"
    and "po_new out + po_merged out = length (rep_findings report)"
    and "uniq_key fd_id (findings d')"
    and "\<forall>incoming \<in> set (rep_findings report). \<exists>f \<in> set (findings d'). represents sc rid i incoming f"
proof -
  let ?incs = "zip (rep_findings report) ids"
  let ?d = "store_metrics d (metric_rows (sc_org sc) rid i (rep_metrics report))"
  let ?r = "fold (store_finding sc rid i now) ?incs (?d, 0, 0)"
  have out: "d' = fst ?r" "po_new out = fst (snd ?r)" "po_merged out = snd (snd ?r)"
    using assms(1) by (auto simp: persist_report_def Let_def split: prod.splits)
  have "map snd ?incs = take (length (rep_findings report)) ids"
    using assms(4) by (simp add: map_snd_zip_take)
  then have fresh: "fresh_ids (map snd ?incs) ?d"
    using assms(3) by (auto simp: fresh_ids_def frame_simps dest: in_set_takeD)
  have u: "uniq_key fd_id (findings (fst (?d, 0, 0)))" using assms(2) by (simp add: frame_simps)
  note all = fold_store [where st = "(?d, 0, 0)" and incs = ?incs and sc = sc and rid = rid and i = i and now = now,
      unfolded Let_def, OF u] fresh
  have fsts: "set (rep_findings report) = fst ` set ?incs"
    using assms(4) by (metis list.set_map map_fst_zip_take min.absorb1 take_all order_refl)
  show "(\<forall>f \<in> set (findings d). \<exists>f' \<in> set (findings d'). grown rid f f')"
    "(\<forall>f' \<in> set (findings d'). inserted_by rid f' \<or> (\<exists>f \<in> set (findings d). grown rid f f'))"
    "length (findings d') = length (findings d) + po_new out"
    "po_new out + po_merged out = length (rep_findings report)"
    "uniq_key fd_id (findings d')"
    "\<forall>incoming \<in> set (rep_findings report). \<exists>f \<in> set (findings d'). represents sc rid i incoming f"
    using all assms(4) unfolding out fsts by (simp_all add: step_ok_def frame_simps)
qed

section \<open>Reporting the same again\<close>

definition absorbs :: "scope \<Rightarrow> uuid \<Rightarrow> uuid \<Rightarrow> core_finding \<Rightarrow> finding \<Rightarrow> bool" where
  "absorbs sc rid i incoming f \<longleftrightarrow>
     fd_workspace_id f = sc_workspace sc \<and> fd_series_id f = i \<and> fd_check_id f = cf_check_id incoming \<and>
     fd_status f \<in> set ABSORBING_STATUSES \<and> subject (fd_evidence f) = subject (cf_evidence incoming) \<and>
     fd_window_start f \<le> fst (stored_window incoming) \<and> snd (stored_window incoming) \<le> fd_window_end f \<and>
     fd_first_run_id f \<noteq> Some rid"

lemma absorbs_grown: "absorbs sc rid i incoming f \<Longrightarrow> grown rid f f' \<Longrightarrow> absorbs sc rid i incoming f'"
  by (auto simp: absorbs_def grown_def kept_def)

lemma absorbs_candidate:
  "f \<in> set (findings d) \<Longrightarrow> absorbs sc rid i incoming f \<Longrightarrow>
   best_candidate d sc rid i incoming (stored_window incoming) \<noteq> None"
  using stored_window_nonempty [of incoming]
  unfolding best_candidate_None absorbs_def candidate_row_def same_subject_iff
  by (intro notI) (drule bspec, assumption, simp)

lemma fold_merges:
  "\<lbrakk>uniq_key fd_id (findings (fst st)); fresh_ids (map snd incs) (fst st);
    \<forall>inc \<in> set incs. \<exists>f \<in> set (findings (fst st)). absorbs sc rid i (fst inc) f\<rbrakk> \<Longrightarrow>
   fst (snd (fold (store_finding sc rid i now) incs st)) = fst (snd st)"
proof (induction incs arbitrary: st)
  case (Cons inc incs)
  obtain incoming new_id where inc: "inc = (incoming, new_id)" by (cases inc)
  let ?st = "store_finding sc rid i now (incoming, new_id) st"
  have fresh: "\<forall>f \<in> set (findings (fst st)). fd_id f \<noteq> new_id"
    using Cons.prems(2) inc by (auto simp: fresh_ids_def)
  note one = store_finding_step [OF Cons.prems(1) fresh refl, of sc rid i now incoming]
  have "fresh_ids (map snd incs) (fst ?st)"
    using Cons.prems(2) one(3) inc unfolding fresh_ids_def by simp blast
  moreover have "\<forall>inc \<in> set incs. \<exists>f \<in> set (findings (fst ?st)). absorbs sc rid i (fst inc) f"
    using Cons.prems(3) one(1) absorbs_grown unfolding step_ok_def by (metis list.set_intros(2))
  ultimately have "fst (snd (fold (store_finding sc rid i now) incs ?st)) = fst (snd ?st)"
    using Cons.IH one(2) by blast
  moreover have "fst (snd ?st) = fst (snd st)"
    using Cons.prems(3) absorbs_candidate [of _ "fst st" sc rid i incoming] inc
    by (cases st) (auto simp: store_finding_def Let_def split: option.splits)
  ultimately show ?case by (simp add: inc)
qed simp

section \<open>Metrics\<close>

definition metric_key_of :: "core_metric \<Rightarrow> metric_key" where
  "metric_key_of m = (cm_check_id m, cm_name m, ns_to_datetime (cm_ts m))"

lemma metric_put_keys: "fst ` set (metric_put k t v rows) = insert k (fst ` set rows)"
  by (induction k t v rows rule: metric_put.induct) auto

lemma metric_put_distinct: "distinct (map fst rows) \<Longrightarrow> distinct (map fst (metric_put k t v rows))"
proof (induction rows)
  case (Cons r rows)
  obtain k' t' v' where r: "r = (k', t', v')" by (cases r)
  have "fst ` set (metric_put k t v rows) = insert k (fst ` set rows)" by (rule metric_put_keys)
  with Cons r show ?case by auto
qed simp

text \<open>The dict holds, for each key, the value of the last of the latest points.\<close>

definition latest_of :: "core_metric list \<Rightarrow> (metric_key \<times> ns \<times> rat) list \<Rightarrow> bool" where
  "latest_of ms rows \<longleftrightarrow> distinct (map fst rows) \<and>
     (\<forall>(k, t, v) \<in> set rows. \<exists>m \<in> set ms. metric_key_of m = k \<and> cm_ts m = t \<and> cm_value m = Some v) \<and>
     (\<forall>m \<in> set ms. cm_value m \<noteq> None \<longrightarrow> (\<exists>(k, t, v) \<in> set rows. k = metric_key_of m \<and> cm_ts m \<le> t))"

lemma latest_of_origin:
  "latest_of ms rows \<Longrightarrow> (k, t, v) \<in> set rows \<Longrightarrow>
   \<exists>m \<in> set ms. metric_key_of m = k \<and> cm_ts m = t \<and> cm_value m = Some v"
  unfolding latest_of_def by (elim conjE) (drule (1) bspec, simp)

lemma latest_of_present:
  "latest_of ms rows \<Longrightarrow> m \<in> set ms \<Longrightarrow> cm_value m \<noteq> None \<Longrightarrow>
   \<exists>t v. (metric_key_of m, t, v) \<in> set rows \<and> cm_ts m \<le> t"
proof -
  assume "latest_of ms rows" "m \<in> set ms" "cm_value m \<noteq> None"
  then have "\<exists>(k, t, v) \<in> set rows. k = metric_key_of m \<and> cm_ts m \<le> t" by (simp add: latest_of_def)
  then show ?thesis by force
qed

lemma metric_put_mem:
  "x \<in> set (metric_put k t v rows) \<Longrightarrow> x = (k, t, v) \<or> x \<in> set rows"
  by (induction k t v rows rule: metric_put.induct) (auto split: if_splits)

lemma metric_put_ge:
  "(k', t', v') \<in> set rows \<Longrightarrow> \<exists>t'' v''. (k', t'', v'') \<in> set (metric_put k t v rows) \<and> t' \<le> t''"
proof (induction k t v rows rule: metric_put.induct)
  case (2 k t v k1 t1 v1 rows)
  then show ?case by (cases "(k', t', v') = (k1, t1, v1)") (auto 4 4)
qed simp

lemma metric_put_self: "\<exists>t' v'. (k, t', v') \<in> set (metric_put k t v rows) \<and> t \<le> t'"
proof (induction k t v rows rule: metric_put.induct)
  case (2 k t v k1 t1 v1 rows)
  then show ?case by (cases "k1 = k"; cases "t < t1") (auto 4 4)
qed simp

lemma latest_of_put:
  "latest_of ms rows \<Longrightarrow> cm_value m = Some v \<Longrightarrow>
   latest_of (ms @ [m]) (metric_put (metric_key_of m) (cm_ts m) v rows)"
  unfolding latest_of_def
proof (intro conjI ballI impI; elim conjE)
  assume l: "distinct (map fst rows)"
    "\<forall>(k, t, v) \<in> set rows. \<exists>m \<in> set ms. metric_key_of m = k \<and> cm_ts m = t \<and> cm_value m = Some v"
    "\<forall>m \<in> set ms. cm_value m \<noteq> None \<longrightarrow> (\<exists>(k, t, v) \<in> set rows. k = metric_key_of m \<and> cm_ts m \<le> t)"
    and v: "cm_value m = Some v"
  let ?rows = "metric_put (metric_key_of m) (cm_ts m) v rows"
  show "distinct (map fst ?rows)" using l(1) by (rule metric_put_distinct)
  show "case x of (k, t, v) \<Rightarrow> \<exists>m \<in> set (ms @ [m]). metric_key_of m = k \<and> cm_ts m = t \<and> cm_value m = Some v"
    if "x \<in> set ?rows" for x
    using metric_put_mem [OF that] l(2) v by fastforce
  show "\<exists>(k, t, v) \<in> set ?rows. k = metric_key_of m' \<and> cm_ts m' \<le> t"
    if new: "m' \<in> set (ms @ [m])" and some: "cm_value m' \<noteq> None" for m'
  proof (cases "m' \<in> set ms")
    case True
    then obtain t' v' where tv: "(metric_key_of m', t', v') \<in> set rows" "cm_ts m' \<le> t'" using l(3) some by fastforce
    obtain t2 v2 where "(metric_key_of m', t2, v2) \<in> set ?rows" "t' \<le> t2"
      using metric_put_ge [OF tv(1), of "metric_key_of m" "cm_ts m" v] by blast
    with tv(2) show ?thesis by (intro bexI [of _ "(metric_key_of m', t2, v2)"]) auto
  next
    case False
    with new have "m' = m" by simp
    obtain t2 v2 where "(metric_key_of m, t2, v2) \<in> set ?rows" "cm_ts m \<le> t2"
      using metric_put_self [of "metric_key_of m" "cm_ts m" v rows] by blast
    with \<open>m' = m\<close> show ?thesis by (intro bexI [of _ "(metric_key_of m, t2, v2)"]) auto
  qed
qed

lemma latest_of_skip: "latest_of ms rows \<Longrightarrow> cm_value m = None \<Longrightarrow> latest_of (ms @ [m]) rows"
  by (fastforce simp: latest_of_def)

lemma metric_dict_latest: "latest_of seen rows \<Longrightarrow> latest_of (seen @ ms) (metric_dict ms rows)"
proof (induction ms arbitrary: seen rows)
  case (Cons m ms)
  show ?case
  proof (cases "cm_value m")
    case None
    with Cons.IH [OF latest_of_skip [OF Cons.prems None]] show ?thesis by simp
  next
    case (Some v)
    from Cons.IH [OF latest_of_put [OF Cons.prems Some]] Some show ?thesis by (simp add: metric_key_of_def)
  qed
qed simp

section \<open>Properties of findings and metrics\<close>

text \<open>A report never loses or rewrites a finding: every finding there was is there
  afterwards under the same id, with the same series, check, status, reason, first run and creation
  time, about the same subject, over a window at least as large; it is unchanged unless it was open
  or acknowledged and from another run, and then it gained one occurrence at most, however many
  findings of the run were merged into it.  What is new was inserted open by this run.\<close>

theorem report_keeps_findings:
  assumes "persist_report d sc rid i report now ids = (d', out)"
    and "uniq_key fd_id (findings d)" and "fresh_ids ids d" and "length (rep_findings report) \<le> length ids"
  shows "(\<forall>f \<in> set (findings d). \<exists>f' \<in> set (findings d'). grown rid f f') \<and>
    (\<forall>f \<in> set (findings d). fd_status f \<in> {FMuted, FResolved} \<longrightarrow> f \<in> set (findings d')) \<and>
    (\<forall>f' \<in> set (findings d'). inserted_by rid f' \<or> (\<exists>f \<in> set (findings d). grown rid f f')) \<and>
    length (findings d') = length (findings d) + po_new out \<and>
    po_new out + po_merged out = length (rep_findings report)"
proof -
  note p = persist_report_fold [OF assms]
  have "\<forall>f \<in> set (findings d). fd_status f \<in> {FMuted, FResolved} \<longrightarrow> f \<in> set (findings d')"
  proof (intro ballI impI)
    fix f assume f: "f \<in> set (findings d)" "fd_status f \<in> {FMuted, FResolved}"
    obtain f' where f': "f' \<in> set (findings d')" "grown rid f f'" using p(1) f(1) by blast
    from f'(2) f(2) have "f' = f"
      by (cases "fd_status f") (simp_all add: grown_def ABSORBING_STATUSES_def)
    with f'(1) show "f \<in> set (findings d')" by simp
  qed
  then show ?thesis by (intro conjI p(1-4))
qed

text \<open>C5: every reported finding is represented afterwards by a finding of its series and check that
  is open or acknowledged, about the same subject, last seen in this run, over a window that contains
  the reported one.\<close>

theorem report_represents_all:
  assumes "persist_report d sc rid i report now ids = (d', out)"
    and "uniq_key fd_id (findings d)" and "fresh_ids ids d" and "length (rep_findings report) \<le> length ids"
  shows "\<forall>incoming \<in> set (rep_findings report). \<exists>f \<in> set (findings d'). represents sc rid i incoming f"
  using persist_report_fold(6) [OF assms] .

text \<open>Deduplication is stable: when a later run reports the same findings again, nothing is
  inserted, all of them merge.\<close>

theorem rereport_inserts_nothing:
  assumes "persist_report d sc r1 i report now ids = (d1, out1)"
    and "persist_report d1 sc r2 i report' now' ids' = (d2, out2)"
    and "rep_findings report' = rep_findings report" and "r1 \<noteq> r2"
    and "\<forall>f \<in> set (findings d). fd_first_run_id f \<noteq> Some r2"
    and "uniq_key fd_id (findings d)" and "fresh_ids ids d" and "fresh_ids ids' d1"
    and "length (rep_findings report) \<le> length ids" and "length (rep_findings report) \<le> length ids'"
  shows "po_new out2 = 0 \<and> po_merged out2 = length (rep_findings report)
    \<and> length (findings d2) = length (findings d1)"
proof -
  note one = persist_report_fold [OF assms(1,6,7,9)]
  have len: "length (rep_findings report') \<le> length ids'" using assms(3,10) by simp
  note two = persist_report_fold [OF assms(2) one(5) assms(8) len]
  have first: "fd_first_run_id f \<noteq> Some r2" if "f \<in> set (findings d1)" for f
    using one(2) that assms(4,5) by (auto simp: inserted_by_def grown_def kept_def)
  let ?incs = "zip (rep_findings report') ids'"
  let ?d = "store_metrics d1 (metric_rows (sc_org sc) r2 i (rep_metrics report'))"
  have "map snd ?incs = take (length (rep_findings report')) ids'"
    using len by (simp add: map_snd_zip_take)
  then have fresh: "fresh_ids (map snd ?incs) ?d"
    using assms(8) by (auto simp: fresh_ids_def frame_simps dest: in_set_takeD)
  have "\<exists>f \<in> set (findings ?d). absorbs sc r2 i (fst inc) f" if "inc \<in> set ?incs" for inc
  proof -
    have "fst inc \<in> set (rep_findings report)" using that assms(3) by (metis in_set_zipE prod.collapse)
    then obtain f where "f \<in> set (findings d1)" "represents sc r1 i (fst inc) f" using one(6) by blast
    then show ?thesis using first by (auto simp: absorbs_def represents_def frame_simps)
  qed
  then have "fst (snd (fold (store_finding sc r2 i now') ?incs (?d, 0, 0))) = 0"
    using fold_merges [of "(?d, 0, 0)" ?incs sc r2 i now'] fresh one(5) by (simp add: frame_simps)
  then have "po_new out2 = 0"
    using assms(2) by (auto simp: persist_report_def Let_def split: prod.splits)
  then show ?thesis using two(3,4) assms(3) by simp
qed

text \<open>The stored metrics of a run have one row per check, name and microsecond, each row is a
  point of the report with a value, and no point of its key in the report is later.\<close>

theorem metric_rows_are_latest:
  "distinct (map metric_pk (metric_rows org rid i ms)) \<and>
   (\<forall>row \<in> set (metric_rows org rid i ms). \<exists>m \<in> set ms.
      (mt_check_id row, mt_name row, mt_ts row) = metric_key_of m \<and> cm_value m = Some (mt_value row) \<and>
      (\<forall>m' \<in> set ms. cm_value m' = None \<or> metric_key_of m' \<noteq> metric_key_of m \<or> cm_ts m' \<le> cm_ts m)) \<and>
   (\<forall>m \<in> set ms. cm_value m = None \<or>
      (\<exists>row \<in> set (metric_rows org rid i ms). (mt_check_id row, mt_name row, mt_ts row) = metric_key_of m))"
proof -
  let ?dict = "metric_dict ms []"
  have l: "latest_of ms ?dict" using metric_dict_latest [of "[]" "[]" ms] by (simp add: latest_of_def)
  have dist: "distinct (map fst ?dict)" using l by (simp add: latest_of_def)
  have pk: "map metric_pk (metric_rows org rid i ms) = map (Pair i \<circ> fst) ?dict"
    by (simp add: metric_rows_def metric_pk_def split: prod.splits)
  have "distinct (map metric_pk (metric_rows org rid i ms))"
    unfolding pk map_map [symmetric] using dist by (simp add: distinct_map inj_on_def)
  moreover have "\<exists>m \<in> set ms. (mt_check_id row, mt_name row, mt_ts row) = metric_key_of m \<and> cm_value m = Some (mt_value row) \<and>
      (\<forall>m' \<in> set ms. cm_value m' = None \<or> metric_key_of m' \<noteq> metric_key_of m \<or> cm_ts m' \<le> cm_ts m)"
    if "row \<in> set (metric_rows org rid i ms)" for row
  proof -
    from that obtain k t v where x: "(k, t, v) \<in> set ?dict"
      "(mt_check_id row, mt_name row, mt_ts row) = k" "mt_value row = v"
      by (auto simp: metric_rows_def)
    obtain m where m: "m \<in> set ms" "metric_key_of m = k" "cm_ts m = t" "cm_value m = Some v"
      using latest_of_origin [OF l x(1)] by blast
    have "cm_ts m' \<le> t" if mm: "m' \<in> set ms" "cm_value m' \<noteq> None" "metric_key_of m' = k" for m'
    proof -
      obtain t' v' where "(k, t', v') \<in> set ?dict" "cm_ts m' \<le> t'"
        using latest_of_present [OF l mm(1,2)] mm(3) by blast
      moreover from this(1) x(1) dist have "t' = t" by (metis eq_key_imp_eq_value prod.inject)
      ultimately show ?thesis by simp
    qed
    with m x show ?thesis by metis
  qed
  moreover have "\<exists>row \<in> set (metric_rows org rid i ms). (mt_check_id row, mt_name row, mt_ts row) = metric_key_of m"
    if mm: "m \<in> set ms" "cm_value m \<noteq> None" for m
  proof -
    obtain t v where "(metric_key_of m, t, v) \<in> set ?dict" using latest_of_present [OF l mm] by blast
    then show ?thesis unfolding metric_rows_def set_map
      by (intro bexI [OF _ imageI]) (auto simp: metric_key_of_def)
  qed
  ultimately show ?thesis by blast
qed

text \<open>C17: a status change succeeds exactly for a finding of the caller's workspace and an allowed
  transition (open to acknowledged, muted or resolved; acknowledged to resolved or open; muted and
  resolved only back to open); it changes that finding alone, and otherwise the error names the
  reason.\<close>

theorem change_status_exact:
  assumes "uniq_key fd_id (findings d)"
  shows "case change_status d sc i st reason now of
      Inr (d', f') \<Rightarrow> (\<exists>f. get_finding d sc i = Some f \<and> (fd_status f, st) \<in> {(FOpen, FAcked), (FOpen, FMuted),
          (FOpen, FResolved), (FAcked, FResolved), (FAcked, FOpen), (FMuted, FOpen), (FResolved, FOpen)}
          \<and> f' = f\<lparr>fd_status := st, fd_status_reason := clean_reason reason, fd_status_at := Some now, fd_updated_at := now\<rparr>
          \<and> set (findings d') = set (findings d) - {f} \<union> {f'})
    | Inl FindingNotFound \<Rightarrow> \<not> (\<exists>f \<in> set (findings d). fd_id f = i \<and> fd_workspace_id f = sc_workspace sc)
    | Inl (BadTransition cur req) \<Rightarrow> req = st \<and> (\<exists>f. get_finding d sc i = Some f \<and> cur = fd_status f
          \<and> st \<notin> set (transitions (fd_status f)))"
proof (cases "get_finding d sc i")
  case None
  then have "change_status d sc i st reason now = Inl FindingNotFound" by (simp add: change_status_def)
  with None show ?thesis by (simp add: get_finding_def find_None_iff')
next
  case (Some f)
  then have f: "f \<in> set (findings d)" "fd_id f = i" "fd_workspace_id f = sc_workspace sc"
    unfolding get_finding_def by (auto dest: find_SomeD)
  have only: "\<And>x. x \<in> set (findings d) \<Longrightarrow> fd_id x = i \<Longrightarrow> x = f"
    using uniq_keyD [OF assms _ f(1)] f(2) by simp
  show ?thesis
  proof (cases "st \<in> set (transitions (fd_status f))")
    case True
    have "{x \<in> set (findings d). fd_id x = i \<and> fd_workspace_id x = sc_workspace sc} = {f}"
      "{x \<in> set (findings d). \<not> (fd_id x = i \<and> fd_workspace_id x = sc_workspace sc)} = set (findings d) - {f}"
      using f only by blast+
    then have "set (update_where (\<lambda>x. fd_id x = i \<and> fd_workspace_id x = sc_workspace sc) (\<lambda>_. g) (findings d))
        = set (findings d) - {f} \<union> {g}" for g
      unfolding set_update_where by simp
    moreover have "(fd_status f, st) \<in> {(FOpen, FAcked), (FOpen, FMuted), (FOpen, FResolved), (FAcked, FResolved),
        (FAcked, FOpen), (FMuted, FOpen), (FResolved, FOpen)}"
      using True by (cases "fd_status f") (auto simp: transitions_def)
    ultimately show ?thesis using Some True by (simp add: change_status_def Let_def)
  next
    case False
    then show ?thesis using Some by (simp add: change_status_def)
  qed
qed

section \<open>An example report\<close>

definition ex_scope :: scope where "ex_scope = \<lparr>sc_org = 1, sc_workspace = 2\<rparr>"

definition ex_incoming :: core_finding where
  "ex_incoming = \<lparr>cf_check_id = ''gap'', cf_dimension = ''completeness'', cf_severity = ''high'', cf_start = 1500,
     cf_end = 9000, cf_score_impact = 1 / 10, cf_summary = ''gap'', cf_evidence = [(''rows'', JInt 3)]\<rparr>"

definition ex_report :: check_report where
  "ex_report = \<lparr>rep_findings = [ex_incoming], rep_metrics = []\<rparr>"

definition ex_stored :: finding where
  "ex_stored = (new_finding ex_scope 19 7 ex_incoming (3, 20) 4 30)\<lparr>fd_status := FAcked\<rparr>"

definition ex_fdb :: db where "ex_fdb = empty_db\<lparr>findings := [ex_stored]\<rparr>"

lemma ex_fdb_ok: "uniq_key fd_id (findings ex_fdb)" "fresh_ids [31] ex_fdb"
  "length (rep_findings ex_report) \<le> length [31::uuid]"
  by (simp_all add: ex_fdb_def fresh_ids_def ex_stored_def new_finding_def ex_report_def uniq_key_def)

theorem report_keeps_findings_witness:
  "\<exists>d' out f'. persist_report ex_fdb ex_scope 20 7 ex_report 5 [31] = (d', out) \<and> f' \<in> set (findings d')
     \<and> grown 20 ex_stored f'"
proof -
  obtain d' out where run: "persist_report ex_fdb ex_scope 20 7 ex_report 5 [31] = (d', out)" by fastforce
  from report_keeps_findings [OF run ex_fdb_ok] run show ?thesis by (auto simp: ex_fdb_def)
qed

theorem report_represents_all_witness:
  "\<exists>d' out f. persist_report ex_fdb ex_scope 20 7 ex_report 5 [31] = (d', out) \<and> f \<in> set (findings d')
     \<and> represents ex_scope 20 7 ex_incoming f"
proof -
  obtain d' out where run: "persist_report ex_fdb ex_scope 20 7 ex_report 5 [31] = (d', out)" by fastforce
  from report_represents_all [OF run ex_fdb_ok] run show ?thesis by (auto simp: ex_report_def)
qed

lemma ex_rerun_fresh: "fresh_ids [32] (fst (persist_report ex_fdb ex_scope 20 7 ex_report 5 [31]))"
  by code_simp

theorem rereport_inserts_nothing_witness:
  "po_new (snd (persist_report (fst (persist_report ex_fdb ex_scope 20 7 ex_report 5 [31]))
     ex_scope 21 7 ex_report 6 [32])) = 0"
proof -
  let ?r = "persist_report ex_fdb ex_scope 20 7 ex_report 5 [31]"
  let ?q = "persist_report (fst ?r) ex_scope 21 7 ex_report 6 [32]"
  have "\<forall>f \<in> set (findings ex_fdb). fd_first_run_id f \<noteq> Some 21"
    by (simp add: ex_fdb_def ex_stored_def new_finding_def)
  from rereport_inserts_nothing [OF prod.collapse [of ?r, symmetric] prod.collapse [of ?q, symmetric] refl _ this
      ex_fdb_ok(1,2) ex_rerun_fresh ex_fdb_ok(3)]
  show ?thesis by (simp add: ex_report_def)
qed

theorem change_status_exact_witness:
  "\<exists>d' f'. change_status ex_fdb ex_scope 30 FResolved (Some '' fixed '') 9 = Inr (d', f') \<and> fd_status f' = FResolved
     \<and> fd_status_reason f' = Some ''fixed''"
proof -
  have "\<not> isl (change_status ex_fdb ex_scope 30 FResolved (Some '' fixed '') 9)" by code_simp
  then obtain d' f' where r: "change_status ex_fdb ex_scope 30 FResolved (Some '' fixed '') 9 = Inr (d', f')"
    by (cases "change_status ex_fdb ex_scope 30 FResolved (Some '' fixed '') 9") auto
  moreover have "clean_reason (Some '' fixed '') = Some ''fixed''" by code_simp
  ultimately show ?thesis using change_status_exact [OF ex_fdb_ok(1), where sc = ex_scope and i = 30 and st = FResolved
        and reason = "Some '' fixed ''" and now = 9]
    by auto
qed

end
