(* ===== verification/Authz.thy ===== *)
theory Authz
  imports Models
begin

text \<open>
  \<^verbatim>\<open>authz/roles.py\<close>, \<^verbatim>\<open>authz/policy.py\<close> and \<^verbatim>\<open>authz/deps.py\<close>: how
  roles combine, the role of a principal in a workspace, which workspaces are visible, and what a
  request may do.
\<close>

section \<open>Roles\<close>

datatype action = ActRead | ActWrite | ActManage

definition role_rank :: "workspace_role \<Rightarrow> nat" where
  "role_rank r = (case r of WsViewer \<Rightarrow> 1 | WsEditor \<Rightarrow> 2 | WsAdmin \<Rightarrow> 3)"

definition required_role :: "action \<Rightarrow> workspace_role" where
  "required_role a = (case a of ActRead \<Rightarrow> WsViewer | ActWrite \<Rightarrow> WsEditor | ActManage \<Rightarrow> WsAdmin)"

definition ORG_ADMINS :: "org_role list" where "ORG_ADMINS = [OrgOwner, OrgAdmin]"

lemma role_rank_inj: "role_rank r = role_rank s \<longleftrightarrow> r = s"
  by (cases r; cases s) (simp_all add: role_rank_def)

text \<open>The order of the roles, so that the library's \<open>Max\<close> applies to them.\<close>

instantiation workspace_role :: linorder
begin

definition less_eq_workspace_role :: "workspace_role \<Rightarrow> workspace_role \<Rightarrow> bool" where
  "less_eq_workspace_role r s \<longleftrightarrow> role_rank r \<le> role_rank s"

definition less_workspace_role :: "workspace_role \<Rightarrow> workspace_role \<Rightarrow> bool" where
  "less_workspace_role r s \<longleftrightarrow> role_rank r < role_rank s"

instance
  by standard (auto simp: less_eq_workspace_role_def less_workspace_role_def role_rank_inj)

end

definition effective_role :: "org_role option \<Rightarrow> workspace_role option \<Rightarrow> workspace_role list \<Rightarrow> workspace_role option" where
  "effective_role in_org direct team_roles =
     (case in_org of
        None \<Rightarrow> None
      | Some o' \<Rightarrow> py_max role_rank
          ((case direct of None \<Rightarrow> [] | Some r \<Rightarrow> [r]) @ team_roles @
           (if o' \<in> set ORG_ADMINS then [WsAdmin] else [])))"

definition allows :: "workspace_role option \<Rightarrow> action \<Rightarrow> bool" where
  "allows role a = (case role of None \<Rightarrow> False | Some r \<Rightarrow> role_rank (required_role a) \<le> role_rank r)"

section \<open>The role of a principal\<close>

definition user_active :: "db \<Rightarrow> uuid \<Rightarrow> bool" where
  "user_active d i \<longleftrightarrow> (\<exists>u \<in> set (users d). us_id u = i \<and> us_disabled_at u = None)"

definition active_member :: "db \<Rightarrow> principal \<Rightarrow> org_membership \<Rightarrow> bool" where
  "active_member d p m \<longleftrightarrow> om_org_id m = pr_org_id p \<and> om_user_id m = pr_user_id p \<and> user_active d (om_user_id m)"

definition active_org_role :: "db \<Rightarrow> principal \<Rightarrow> org_role option" where
  "active_org_role d p = map_option om_role (List.find (active_member d p) (org_memberships d))"

text \<open>The join of a workspace's team roles with the principal's team memberships.\<close>

definition team_role_rows :: "db \<Rightarrow> uuid \<Rightarrow> workspace_team_role list" where
  "team_role_rows d user_id =
     concat (map (\<lambda>w. map (\<lambda>_. w) (filter (\<lambda>m. tmm_team_id m = wt_team_id w \<and> tmm_user_id m = user_id) (team_members d)))
       (workspace_team_roles d))"

definition workspace_role :: "db \<Rightarrow> principal \<Rightarrow> uuid \<Rightarrow> workspace_role option" where
  "workspace_role d p wid =
     (case List.find (\<lambda>w. ws_id w = wid \<and> ws_org_id w = pr_org_id p) (workspaces d) of
        None \<Rightarrow> None
      | Some w \<Rightarrow>
          effective_role (active_org_role d p)
            (map_option wm_role (List.find (\<lambda>m. wm_workspace_id m = wid \<and> wm_user_id m = pr_user_id p)
               (workspace_memberships d)))
            (map wt_role (filter (\<lambda>t. wt_workspace_id t = wid) (team_role_rows d (pr_user_id p)))))"

datatype authz_error = NotVisible | Forbidden

definition authorize :: "db \<Rightarrow> principal \<Rightarrow> action \<Rightarrow> uuid \<Rightarrow> authz_error + workspace_role" where
  "authorize d p a wid =
     rbind (expect (workspace_role d p wid) NotVisible) (\<lambda>role.
     rbind (require (allows (Some role) a) Forbidden) (\<lambda>_. Inr role))"

text \<open>
  Every workspace of the org with the principal's role, by name; \<open>dict(...)\<close> keeps the last of the
  rows of a key.
\<close>

definition workspace_roles :: "db \<Rightarrow> principal \<Rightarrow> (workspace \<times> workspace_role) list" where
  "workspace_roles d p =
     (case active_org_role d p of
        None \<Rightarrow> []
      | Some o' \<Rightarrow>
          List.map_filter
            (\<lambda>w. map_option (Pair w)
               (effective_role (Some o')
                  (map_of (rev (map (\<lambda>m. (wm_workspace_id m, wm_role m))
                     (filter (\<lambda>m. wm_user_id m = pr_user_id p) (workspace_memberships d)))) (ws_id w))
                  (map wt_role (filter (\<lambda>t. wt_workspace_id t = ws_id w) (team_role_rows d (pr_user_id p))))))
            (sort_key (\<lambda>w. (ws_name w, ws_id w)) (filter (\<lambda>w. ws_org_id w = pr_org_id p) (workspaces d))))"

definition is_visible :: "db \<Rightarrow> principal \<Rightarrow> workspace \<Rightarrow> bool" where
  "is_visible d p w \<longleftrightarrow>
     ws_org_id w = pr_org_id p \<and>
     (\<exists>m \<in> set (org_memberships d). active_member d p m) \<and>
     ((\<exists>m \<in> set (org_memberships d). active_member d p m \<and> om_role m \<in> set ORG_ADMINS) \<or>
      (\<exists>m \<in> set (workspace_memberships d). wm_workspace_id m = ws_id w \<and> wm_user_id m = pr_user_id p) \<or>
      (\<exists>t \<in> set (workspace_team_roles d). \<exists>m \<in> set (team_members d).
         wt_workspace_id t = ws_id w \<and> tmm_team_id m = wt_team_id t \<and> tmm_user_id m = pr_user_id p))"

definition visible_workspaces :: "db \<Rightarrow> principal \<Rightarrow> uuid list" where
  "visible_workspaces d p = map ws_id (filter (is_visible d p) (workspaces d))"

section \<open>The scope of a request\<close>

text \<open>
  The header as the HTTP layer parses it: absent, malformed, or a UUID.
\<close>

datatype header = NoHeader | BadHeader | Named uuid

datatype http_error = HttpError int string

definition fallback_workspace :: "db \<Rightarrow> principal \<Rightarrow> uuid option" where
  "fallback_workspace d p =
     map_option ws_id (List.find (\<lambda>_. True)
       (sort_key (\<lambda>w. (if ws_id w = DEFAULT_WORKSPACE_ID then (0::int) else 1, ws_created_at w, ws_id w))
         (filter (\<lambda>w. ws_id w \<in> set (visible_workspaces d p)) (workspaces d))))"

definition get_workspace_id :: "db \<Rightarrow> principal \<Rightarrow> header \<Rightarrow> http_error + uuid" where
  "get_workspace_id d p h =
     (case h of
        Named i \<Rightarrow> Inr i
      | BadHeader \<Rightarrow> Inl (HttpError 400 ''invalid_workspace'')
      | NoHeader \<Rightarrow> Inr (case fallback_workspace d p of None \<Rightarrow> DEFAULT_WORKSPACE_ID | Some i \<Rightarrow> i))"

definition action_value :: "action \<Rightarrow> string" where
  "action_value a = (case a of ActRead \<Rightarrow> ''read'' | ActWrite \<Rightarrow> ''write'' | ActManage \<Rightarrow> ''manage'')"

definition request_scope :: "db \<Rightarrow> principal \<Rightarrow> header \<Rightarrow> action \<Rightarrow> http_error + scope" where
  "request_scope d p h a =
     rbind (get_workspace_id d p h) (\<lambda>wid.
       (case authorize d p a wid of
          Inl NotVisible \<Rightarrow> Inl (HttpError 404 ''not found'')
        | Inl Forbidden \<Rightarrow> Inl (HttpError 403 (''not allowed to '' @ action_value a))
        | Inr role \<Rightarrow> Inr \<lparr>sc_org = pr_org_id p, sc_workspace = wid\<rparr>))"

section \<open>The roles granted\<close>

text \<open>
  The specification of a role: what is granted to a principal in a workspace, and the highest of it.
\<close>

inductive grants :: "db \<Rightarrow> principal \<Rightarrow> uuid \<Rightarrow> workspace_role \<Rightarrow> bool"
  for d :: db and p :: principal and wid :: uuid where
  granted_directly: "m \<in> set (workspace_memberships d) \<Longrightarrow> wm_workspace_id m = wid \<Longrightarrow>
     wm_user_id m = pr_user_id p \<Longrightarrow> grants d p wid (wm_role m)"
| granted_by_team: "t \<in> set (workspace_team_roles d) \<Longrightarrow> wt_workspace_id t = wid \<Longrightarrow>
     m \<in> set (team_members d) \<Longrightarrow> tmm_team_id m = wt_team_id t \<Longrightarrow> tmm_user_id m = pr_user_id p \<Longrightarrow>
     grants d p wid (wt_role t)"
| granted_by_org: "m \<in> set (org_memberships d) \<Longrightarrow> active_member d p m \<Longrightarrow> om_role m \<in> set ORG_ADMINS \<Longrightarrow>
     grants d p wid WsAdmin"

inductive_simps grants_iff: "grants d p wid r"

text \<open>The keys of the membership tables.\<close>

definition memberships_ok :: "db \<Rightarrow> bool" where
  "memberships_ok d \<longleftrightarrow>
     uniq_key (\<lambda>m. (om_org_id m, om_user_id m)) (org_memberships d) \<and>
     uniq_key (\<lambda>m. (wm_workspace_id m, wm_user_id m)) (workspace_memberships d) \<and>
     uniq_key ws_id (workspaces d)"

definition is_member :: "db \<Rightarrow> principal \<Rightarrow> bool" where
  "is_member d p \<longleftrightarrow> (\<exists>m \<in> set (org_memberships d). active_member d p m)"

section \<open>Facts\<close>

lemma effective_role_max:
  "effective_role in_org direct team_roles = r \<longleftrightarrow>
   (let rs = set_option direct \<union> set team_roles \<union>
        (case in_org of None \<Rightarrow> {} | Some o' \<Rightarrow> if o' \<in> set ORG_ADMINS then {WsAdmin} else {})
    in r = (if in_org = None \<or> rs = {} then None else Some (Max rs)))"
proof (cases in_org)
  case None
  then show ?thesis by (auto simp: effective_role_def)
next
  case (Some o')
  let ?l = "(case direct of None \<Rightarrow> [] | Some r \<Rightarrow> [r]) @ team_roles @
           (if o' \<in> set ORG_ADMINS then [WsAdmin] else [])"
  have set: "set ?l = set_option direct \<union> set team_roles \<union> (if o' \<in> set ORG_ADMINS then {WsAdmin} else {})"
    by (cases direct) auto
  have "py_max role_rank ?l = (if ?l = [] then None else Some (Max (set ?l)))"
  proof (cases "py_max role_rank ?l")
    case None
    then show ?thesis by (simp only: py_max_None) simp
  next
    case (Some m)
    then have "?l \<noteq> []" by (metis option.distinct(1) py_max_None)
    moreover have "m = Max (set ?l)"
    proof (rule Max_eqI [symmetric])
      show "m \<in> set ?l" using py_max_in [OF Some] .
      show "y \<le> m" if "y \<in> set ?l" for y using py_max_ge [OF Some that] by (simp add: less_eq_workspace_role_def)
      show "finite (set ?l)" by (rule finite_set)
    qed
    ultimately show ?thesis using Some by simp
  qed
  moreover have "?l = [] \<longleftrightarrow> set ?l = {}" by (simp only: set_empty)
  ultimately have "py_max role_rank ?l = (if set ?l = {} then None else Some (Max (set ?l)))" by (simp only:)
  then show ?thesis unfolding set effective_role_def Some by - (cases direct; auto simp: Let_def)
qed

lemma active_org_role_None: "active_org_role d p = None \<longleftrightarrow> \<not> is_member d p"
  by (auto simp: active_org_role_def is_member_def find_None_iff')

lemma active_org_role_Some:
  assumes "memberships_ok d"
  shows "active_org_role d p = Some r \<longleftrightarrow> (\<exists>m \<in> set (org_memberships d). active_member d p m \<and> om_role m = r)"
proof
  assume "active_org_role d p = Some r"
  then show "\<exists>m \<in> set (org_memberships d). active_member d p m \<and> om_role m = r"
    unfolding active_org_role_def by (auto dest: find_SomeD)
next
  assume "\<exists>m \<in> set (org_memberships d). active_member d p m \<and> om_role m = r"
  then obtain m where m: "m \<in> set (org_memberships d)" "active_member d p m" "om_role m = r" by blast
  have u: "uniq_key (\<lambda>m. (om_org_id m, om_user_id m)) (org_memberships d)"
    using assms by (simp add: memberships_ok_def)
  have "List.find (active_member d p) (org_memberships d) = Some m"
    by (rule find_uniq, rule m(1), rule m(2), rule uniq_keyD [OF u _ m(1)])
      (use m(2) in \<open>auto simp: active_member_def\<close>)
  with m(3) show "active_org_role d p = Some r" by (simp add: active_org_role_def)
qed

lemma set_team_role_rows:
  "t \<in> set (team_role_rows d u) \<longleftrightarrow>
   t \<in> set (workspace_team_roles d) \<and> (\<exists>m \<in> set (team_members d). tmm_team_id m = wt_team_id t \<and> tmm_user_id m = u)"
  by (auto simp: team_role_rows_def)

lemma direct_role:
  assumes "memberships_ok d"
  shows "map_option wm_role (List.find (\<lambda>m. wm_workspace_id m = wid \<and> wm_user_id m = u) (workspace_memberships d)) = Some r
     \<longleftrightarrow> (\<exists>m \<in> set (workspace_memberships d). wm_workspace_id m = wid \<and> wm_user_id m = u \<and> wm_role m = r)"
proof
  assume "map_option wm_role (List.find (\<lambda>m. wm_workspace_id m = wid \<and> wm_user_id m = u) (workspace_memberships d)) = Some r"
  then show "\<exists>m \<in> set (workspace_memberships d). wm_workspace_id m = wid \<and> wm_user_id m = u \<and> wm_role m = r"
    by (auto dest: find_SomeD)
next
  assume "\<exists>m \<in> set (workspace_memberships d). wm_workspace_id m = wid \<and> wm_user_id m = u \<and> wm_role m = r"
  then obtain m where m: "m \<in> set (workspace_memberships d)" "wm_workspace_id m = wid \<and> wm_user_id m = u" "wm_role m = r"
    by blast
  have uq: "uniq_key (\<lambda>m. (wm_workspace_id m, wm_user_id m)) (workspace_memberships d)"
    using assms by (simp add: memberships_ok_def)
  have "List.find (\<lambda>m. wm_workspace_id m = wid \<and> wm_user_id m = u) (workspace_memberships d) = Some m"
    by (rule find_uniq, rule m(1), rule m(2), rule uniq_keyD [OF uq _ m(1)]) (use m(2) in auto)
  with m(3) show "map_option wm_role (List.find (\<lambda>m. wm_workspace_id m = wid \<and> wm_user_id m = u) (workspace_memberships d)) = Some r"
    by simp
qed

lemma set_option_eqI: "(\<And>r. x = Some r \<longleftrightarrow> P r) \<Longrightarrow> set_option x = {r. P r}"
  by (simp add: set_eq_iff)

text \<open>What the three queries collect is exactly what is granted.\<close>

lemma collected_grants:
  assumes "memberships_ok d" and "is_member d p"
  shows "set_option (map_option wm_role (List.find (\<lambda>m. wm_workspace_id m = wid \<and> wm_user_id m = pr_user_id p) (workspace_memberships d)))
     \<union> set (map wt_role (filter (\<lambda>t. wt_workspace_id t = wid) (team_role_rows d (pr_user_id p))))
     \<union> (case active_org_role d p of None \<Rightarrow> {} | Some o' \<Rightarrow> if o' \<in> set ORG_ADMINS then {WsAdmin} else {})
     = {r. grants d p wid r}"
proof -
  obtain o' where o': "active_org_role d p = Some o'" using assms(2) active_org_role_None by fastforce
  have org: "(if o' \<in> set ORG_ADMINS then {WsAdmin} else {}) =
      {r. r = WsAdmin \<and> (\<exists>m \<in> set (org_memberships d). active_member d p m \<and> om_role m \<in> set ORG_ADMINS)}"
    using o' active_org_role_Some [OF assms(1), of p] by (auto, metis option.inject)
  have direct: "set_option (map_option wm_role (List.find (\<lambda>m. wm_workspace_id m = wid \<and> wm_user_id m = pr_user_id p) (workspace_memberships d)))
     = {r. \<exists>m \<in> set (workspace_memberships d). wm_workspace_id m = wid \<and> wm_user_id m = pr_user_id p \<and> wm_role m = r}"
    by (rule set_option_eqI) (rule direct_role [OF assms(1)])
  show ?thesis unfolding direct o' option.case org
    by (auto simp: grants_iff set_team_role_rows)
qed

lemma workspace_role_eq:
  assumes "memberships_ok d"
  shows "workspace_role d p wid =
     (if is_member d p \<and> (\<exists>w \<in> set (workspaces d). ws_id w = wid \<and> ws_org_id w = pr_org_id p) \<and> (\<exists>r. grants d p wid r)
      then Some (Max {r. grants d p wid r}) else None)"
proof (cases "List.find (\<lambda>w. ws_id w = wid \<and> ws_org_id w = pr_org_id p) (workspaces d)")
  case None
  then have "\<not> (\<exists>w \<in> set (workspaces d). ws_id w = wid \<and> ws_org_id w = pr_org_id p)"
    by (simp add: find_None_iff')
  with None show ?thesis by (simp add: workspace_role_def)
next
  case (Some w)
  then have w: "w \<in> set (workspaces d)" "ws_id w = wid \<and> ws_org_id w = pr_org_id p" by (auto dest: find_SomeD)
  show ?thesis
  proof (cases "is_member d p")
    case False
    then show ?thesis using Some active_org_role_None [of d p] by (simp add: workspace_role_def effective_role_def)
  next
    case True
    have "active_org_role d p \<noteq> None" using True by (simp only: active_org_role_None not_not)
    moreover have "workspace_role d p wid = effective_role (active_org_role d p)
        (map_option wm_role (List.find (\<lambda>m. wm_workspace_id m = wid \<and> wm_user_id m = pr_user_id p) (workspace_memberships d)))
        (map wt_role (filter (\<lambda>t. wt_workspace_id t = wid) (team_role_rows d (pr_user_id p))))"
      using Some by (simp add: workspace_role_def)
    ultimately have "workspace_role d p wid = (if active_org_role d p = None \<or> {r. grants d p wid r} = {} then None
        else Some (Max {r. grants d p wid r}))"
      using effective_role_max [THEN iffD1, OF refl, unfolded Let_def,
        of "active_org_role d p"
          "map_option wm_role (List.find (\<lambda>m. wm_workspace_id m = wid \<and> wm_user_id m = pr_user_id p) (workspace_memberships d))"
          "map wt_role (filter (\<lambda>t. wt_workspace_id t = wid) (team_role_rows d (pr_user_id p)))"]
      unfolding collected_grants [OF assms True, of wid] by (simp only:)
    with \<open>active_org_role d p \<noteq> None\<close>
    have "workspace_role d p wid = (if {r. grants d p wid r} = {} then None else Some (Max {r. grants d p wid r}))"
      by (simp only: simp_thms)
    then show ?thesis using True w by auto
  qed
qed

lemma map_of_rev_distinct:
  assumes "distinct (map fst xs)"
  shows "map_of (rev xs) = map_of xs"
proof
  fix k
  have "distinct (map fst (rev xs))" using assms by (simp flip: rev_map)
  then have "map_of (rev xs) k = Some v \<longleftrightarrow> map_of xs k = Some v" for v
    using assms by (simp add: map_of_eq_Some_iff)
  then show "map_of (rev xs) k = map_of xs k" by (metis not_Some_eq)
qed

lemma map_of_rev_find:
  assumes "uniq_key k t"
  shows "map_of (rev (map (\<lambda>m. (k m, v m)) t)) i = map_option v (List.find (\<lambda>m. k m = i) t)"
proof -
  have "distinct (map fst (map (\<lambda>m. (k m, v m)) t))" using assms by (simp add: uniq_key_def comp_def)
  then have "map_of (rev (map (\<lambda>m. (k m, v m)) t)) = map_of (map (\<lambda>m. (k m, v m)) t)"
    by (rule map_of_rev_distinct)
  moreover have "map_of (map (\<lambda>m. (k m, v m)) t) i = map_option v (List.find (\<lambda>m. k m = i) t)"
    by (induction t) auto
  ultimately show ?thesis by simp
qed

lemma find_filter: "List.find p (filter q t) = List.find (\<lambda>x. q x \<and> p x) t"
  by (induction t) auto

lemma find_cong': "(\<And>x. x \<in> set t \<Longrightarrow> p x = q x) \<Longrightarrow> List.find p t = List.find q t"
  by (induction t) auto

lemma direct_dict:
  assumes "memberships_ok d"
  shows "map_of (rev (map (\<lambda>m. (wm_workspace_id m, wm_role m)) (filter (\<lambda>m. wm_user_id m = u) (workspace_memberships d)))) wid
     = map_option wm_role (List.find (\<lambda>m. wm_workspace_id m = wid \<and> wm_user_id m = u) (workspace_memberships d))"
proof -
  have uq: "distinct (map (\<lambda>m. (wm_workspace_id m, wm_user_id m)) (workspace_memberships d))"
    using assms by (simp add: memberships_ok_def uniq_key_def)
  then have "distinct (map (\<lambda>m. (wm_workspace_id m, wm_user_id m)) (filter (\<lambda>m. wm_user_id m = u) (workspace_memberships d)))"
    by (rule distinct_map_filter)
  then have "uniq_key wm_workspace_id (filter (\<lambda>m. wm_user_id m = u) (workspace_memberships d))"
    unfolding uniq_key_def distinct_map inj_on_def by auto
  from map_of_rev_find [OF this, of wm_role wid] show ?thesis
    unfolding find_filter by (simp add: conj_commute)
qed

lemma workspace_roles_eq:
  assumes "memberships_ok d"
  shows "(w, r) \<in> set (workspace_roles d p) \<longleftrightarrow>
     w \<in> set (workspaces d) \<and> ws_org_id w = pr_org_id p \<and> workspace_role d p (ws_id w) = Some r"
proof -
  have uw: "uniq_key ws_id (workspaces d)" using assms by (simp add: memberships_ok_def)
  have find: "List.find (\<lambda>x. ws_id x = ws_id w \<and> ws_org_id x = pr_org_id p) (workspaces d) = Some w"
    if "w \<in> set (workspaces d)" "ws_org_id w = pr_org_id p"
    by (rule find_uniq, rule that(1)) (use that uniq_keyD [OF uw] in auto)
  show ?thesis
  proof (cases "active_org_role d p")
    case None
    then have "workspace_role d p (ws_id w) = None" by (simp add: workspace_role_def effective_role_def split: option.splits)
    then show ?thesis by (simp add: workspace_roles_def None)
  next
    case (Some o')
    have "(w, r) \<in> set (workspace_roles d p) \<longleftrightarrow> w \<in> set (workspaces d) \<and> ws_org_id w = pr_org_id p \<and>
       effective_role (Some o')
         (map_option wm_role (List.find (\<lambda>m. wm_workspace_id m = ws_id w \<and> wm_user_id m = pr_user_id p) (workspace_memberships d)))
         (map wt_role (filter (\<lambda>t. wt_workspace_id t = ws_id w) (team_role_rows d (pr_user_id p)))) = Some r"
      unfolding workspace_roles_def Some option.case direct_dict [OF assms]
      by (auto simp: map_filter_def image_iff)
    then show ?thesis using find Some by (auto simp: workspace_role_def)
  qed
qed

lemma is_visible_iff:
  "is_visible d p w \<longleftrightarrow> ws_org_id w = pr_org_id p \<and> is_member d p \<and> (\<exists>r. grants d p (ws_id w) r)"
  by (auto simp: is_visible_def is_member_def grants_iff)

lemma visible_workspaces_iff:
  assumes "memberships_ok d"
  shows "i \<in> set (visible_workspaces d p) \<longleftrightarrow> workspace_role d p i \<noteq> None"
  unfolding workspace_role_eq [OF assms] visible_workspaces_def by (auto simp: is_visible_iff)

section \<open>Properties of authorization\<close>

text \<open>C6: a principal's role in a workspace is the highest role granted to them there (directly, by a
  team, or admin as owner or admin of the org), and only while their user is active, a member of the
  org, and the workspace belongs to that org; otherwise they have none.\<close>

theorem role_is_highest_grant:
  assumes "memberships_ok d"
  shows "workspace_role d p wid =
     (if is_member d p \<and> (\<exists>w \<in> set (workspaces d). ws_id w = wid \<and> ws_org_id w = pr_org_id p) \<and> (\<exists>r. grants d p wid r)
      then Some (Max {r. grants d p wid r}) else None)"
  using workspace_role_eq [OF assms] .

text \<open>The three authorization queries agree: a workspace is visible exactly when the principal has
  a role in it, and the list of workspaces with roles holds exactly the workspaces of the org with the
  role the single-workspace query gives.\<close>

theorem authorization_queries_agree:
  assumes "memberships_ok d"
  shows "(i \<in> set (visible_workspaces d p) \<longleftrightarrow> workspace_role d p i \<noteq> None) \<and>
    ((w, r) \<in> set (workspace_roles d p) \<longleftrightarrow>
       w \<in> set (workspaces d) \<and> ws_org_id w = pr_org_id p \<and> workspace_role d p (ws_id w) = Some r)"
  using visible_workspaces_iff [OF assms] workspace_roles_eq [OF assms] by blast

lemma authorize_Inr:
  "authorize d p a wid = Inr role \<longleftrightarrow> workspace_role d p wid = Some role \<and> required_role a \<le> role"
  by (auto simp: authorize_def result_simps allows_def less_eq_workspace_role_def)

lemma required_read: "required_role ActRead \<le> r"
  by (cases r) (simp_all add: required_role_def less_eq_workspace_role_def role_rank_def)

lemma fallback_Some:
  "fallback_workspace d p = Some i \<Longrightarrow> i \<in> set (visible_workspaces d p)"
  unfolding fallback_workspace_def by (auto dest!: find_SomeD)

lemma fallback_None: "fallback_workspace d p = None \<longleftrightarrow> visible_workspaces d p = []"
proof -
  have "fallback_workspace d p = None \<longleftrightarrow> (\<forall>w \<in> set (workspaces d). ws_id w \<notin> set (visible_workspaces d p))"
    by (auto simp: fallback_workspace_def find_None_iff')
  also have "\<dots> \<longleftrightarrow> visible_workspaces d p = []"
    by (auto simp: visible_workspaces_def filter_empty_conv)
  finally show ?thesis .
qed

lemma request_scope_Inr:
  "request_scope d p h a = Inr sc \<longleftrightarrow> (\<exists>wid role. get_workspace_id d p h = Inr wid \<and>
      authorize d p a wid = Inr role \<and> sc = \<lparr>sc_org = pr_org_id p, sc_workspace = wid\<rparr>)"
proof (cases "get_workspace_id d p h")
  case (Inl e)
  then show ?thesis by (simp add: request_scope_def)
next
  case (Inr wid)
  show ?thesis
  proof (cases "authorize d p a wid")
    case (Inl e)
    with Inr show ?thesis by (cases e) (auto simp: request_scope_def)
  next
    case (Inr role)
    with \<open>get_workspace_id d p h = Inr wid\<close> show ?thesis by (auto simp: request_scope_def)
  qed
qed

text \<open>C7: a request gets a scope only in its principal's org and only with a granted role that is
  high enough for the action; a request that names no workspace can read exactly when some workspace is
  visible to its principal; and without an active membership every request is refused as not found or
  as malformed.\<close>

theorem request_scope_safe:
  assumes "memberships_ok d"
  shows "(\<forall>sc. request_scope d p h a = Inr sc \<longrightarrow> sc_org sc = pr_org_id p \<and>
       (\<exists>w \<in> set (workspaces d). ws_id w = sc_workspace sc \<and> ws_org_id w = pr_org_id p) \<and>
       (\<exists>r. grants d p (sc_workspace sc) r \<and> required_role a \<le> r) \<and> is_member d p) \<and>
    ((\<exists>sc. request_scope d p NoHeader ActRead = Inr sc) \<longleftrightarrow> visible_workspaces d p \<noteq> []) \<and>
    (is_member d p \<or> request_scope d p h a \<in> {Inl (HttpError 404 ''not found''), Inl (HttpError 400 ''invalid_workspace'')})"
proof (intro conjI allI impI)
  fix sc assume "request_scope d p h a = Inr sc"
  then obtain wid role where r: "workspace_role d p wid = Some role" "required_role a \<le> role"
      "sc = \<lparr>sc_org = pr_org_id p, sc_workspace = wid\<rparr>"
    by (auto simp: request_scope_Inr authorize_Inr)
  from r(1) have m: "is_member d p" "\<exists>w \<in> set (workspaces d). ws_id w = wid \<and> ws_org_id w = pr_org_id p"
      "\<exists>r. grants d p wid r" "role = Max {r. grants d p wid r}"
    unfolding workspace_role_eq [OF assms] by (auto split: if_splits)
  have "finite {r. grants d p wid r}"
    by (rule finite_subset [of _ "{WsViewer, WsEditor, WsAdmin}"]) (auto intro: workspace_role.exhaust)
  then have "grants d p wid role" unfolding m(4) using m(3) Max_in by blast
  with r m show "sc_org sc = pr_org_id p" "\<exists>w \<in> set (workspaces d). ws_id w = sc_workspace sc \<and> ws_org_id w = pr_org_id p"
    "\<exists>r. grants d p (sc_workspace sc) r \<and> required_role a \<le> r" "is_member d p"
    by auto
next
  have scope: "(\<exists>sc. request_scope d p NoHeader ActRead = Inr sc) \<longleftrightarrow>
     (\<exists>role. authorize d p ActRead (case fallback_workspace d p of None \<Rightarrow> DEFAULT_WORKSPACE_ID | Some i \<Rightarrow> i) = Inr role)"
    by (simp add: request_scope_Inr get_workspace_id_def)
  show "(\<exists>sc. request_scope d p NoHeader ActRead = Inr sc) \<longleftrightarrow> visible_workspaces d p \<noteq> []"
  proof (cases "fallback_workspace d p")
    case None
    then have "visible_workspaces d p = []" by (simp add: fallback_None)
    then show ?thesis using visible_workspaces_iff [OF assms, of _ p] by (simp add: scope authorize_Inr)
  next
    case (Some i)
    then have "i \<in> set (visible_workspaces d p)" by (rule fallback_Some)
    then show ?thesis using visible_workspaces_iff [OF assms, of i p] Some required_read
      by (auto simp: scope authorize_Inr)
  qed
next
  show "is_member d p \<or> request_scope d p h a \<in> {Inl (HttpError 404 ''not found''), Inl (HttpError 400 ''invalid_workspace'')}"
  proof (cases "is_member d p")
    case False
    then have "authorize d p a wid = Inl NotVisible" for wid
      by (simp add: authorize_def workspace_role_eq [OF assms])
    then show ?thesis by (auto simp: request_scope_def get_workspace_id_def split: header.splits)
  qed simp
qed

section \<open>An example\<close>

definition ex_adb :: db where
  "ex_adb = empty_db\<lparr>
     workspaces := [\<lparr>ws_id = 2, ws_org_id = 1, ws_name = ''w'', ws_timezone = ''UTC'', ws_created_at = 0\<rparr>],
     users := [\<lparr>us_id = 9, us_email = ''a'', us_display_name = ''a'', us_created_at = 0, us_disabled_at = None\<rparr>],
     org_memberships := [\<lparr>om_org_id = 1, om_user_id = 9, om_role = OrgMember, om_created_at = 0\<rparr>],
     workspace_memberships := [\<lparr>wm_org_id = 1, wm_workspace_id = 2, wm_user_id = 9, wm_role = WsViewer, wm_created_at = 0\<rparr>],
     team_members := [\<lparr>tmm_org_id = 1, tmm_team_id = 5, tmm_user_id = 9, tmm_created_at = 0\<rparr>],
     workspace_team_roles := [\<lparr>wt_org_id = 1, wt_workspace_id = 2, wt_team_id = 5, wt_role = WsEditor\<rparr>]\<rparr>"

definition ex_principal :: principal where "ex_principal = \<lparr>pr_user_id = 9, pr_org_id = 1\<rparr>"

lemma ex_adb_ok: "memberships_ok ex_adb"
  by (simp add: memberships_ok_def ex_adb_def uniq_key_def)

lemma ex_adb_role: "workspace_role ex_adb ex_principal 2 = Some WsEditor"
  by code_simp

theorem role_is_highest_grant_witness: "Max {r. grants ex_adb ex_principal 2 r} = WsEditor"
  using role_is_highest_grant [OF ex_adb_ok, of ex_principal 2] ex_adb_role by (simp split: if_splits)

theorem authorization_queries_agree_witness: "2 \<in> set (visible_workspaces ex_adb ex_principal)"
  using authorization_queries_agree [OF ex_adb_ok, of 2 ex_principal] ex_adb_role by simp

theorem request_scope_safe_witness:
  "\<exists>sc r. request_scope ex_adb ex_principal NoHeader ActWrite = Inr sc \<and> grants ex_adb ex_principal (sc_workspace sc) r
     \<and> WsEditor \<le> r"
proof -
  have "\<not> isl (request_scope ex_adb ex_principal NoHeader ActWrite)" by code_simp
  then obtain sc where "request_scope ex_adb ex_principal NoHeader ActWrite = Inr sc" by (metis sum.collapse(2))
  with request_scope_safe [OF ex_adb_ok, of ex_principal NoHeader ActWrite] show ?thesis
    by (auto simp: required_role_def)
qed

end
