(* ===== verification/Admin.thy ===== *)
theory Admin
  imports Authz Strings
begin

text \<open>
  What the admin services share: \<^verbatim>\<open>services/admin/errors.py\<close>, \<^verbatim>\<open>names.py\<close>,
  \<^verbatim>\<open>rules.py\<close>, \<^verbatim>\<open>audit.py\<close> and \<^verbatim>\<open>org.py\<close>, the check that a
  name is free, and the contract of the audit log.
\<close>

section \<open>Errors\<close>

datatype admin_error = NotFound | AdminForbidden | Conflict string | Invalid string

definition error_status :: "admin_error \<Rightarrow> int" where
  "error_status e = (case e of NotFound \<Rightarrow> 404 | AdminForbidden \<Rightarrow> 403 | Conflict _ \<Rightarrow> 409 | Invalid _ \<Rightarrow> 422)"

definition error_code :: "admin_error \<Rightarrow> string" where
  "error_code e = (case e of NotFound \<Rightarrow> ''not found'' | AdminForbidden \<Rightarrow> ''forbidden'' | Conflict c \<Rightarrow> c | Invalid c \<Rightarrow> c)"

section \<open>Names and time zones\<close>

definition MAX_NAME :: nat where "MAX_NAME = 100"

definition clean_name :: "string \<Rightarrow> admin_error + string" where
  "clean_name name =
     (let cleaned = join_with '' '' (words_of name)
      in if 1 \<le> length cleaned \<and> length cleaned \<le> MAX_NAME then Inr cleaned else Inl (Invalid ''invalid_name''))"

text \<open>The zone database of the standard library is the parameter \<open>known\<close>.\<close>

definition clean_timezone :: "(string \<Rightarrow> bool) \<Rightarrow> string \<Rightarrow> admin_error + string" where
  "clean_timezone known tz =
     (let z = strip tz
      in if z = [] \<or> prefix ''/'' z \<or> sublist ''..'' z then Inl (Invalid ''invalid_timezone'')
         else if known z then Inr z else Inl (Invalid ''invalid_timezone''))"

section \<open>The owner rules\<close>

definition check_role_change :: "org_role \<Rightarrow> org_role \<Rightarrow> org_role option \<Rightarrow> int \<Rightarrow> admin_error + unit" where
  "check_role_change actor target new owners =
     (if actor \<noteq> OrgOwner \<and> actor \<noteq> OrgAdmin then Inl AdminForbidden
      else if (target = OrgOwner \<or> new = Some OrgOwner) \<and> actor \<noteq> OrgOwner then Inl AdminForbidden
      else if target = OrgOwner \<and> new \<noteq> Some OrgOwner \<and> owners \<le> 1 then Inl (Conflict ''last_owner'')
      else Inr ())"

lemma check_role_change_iff:
  "check_role_change actor target new owners = Inr () \<longleftrightarrow>
     actor \<in> set ORG_ADMINS \<and> (target = OrgOwner \<or> new = Some OrgOwner \<longrightarrow> actor = OrgOwner) \<and>
     (target = OrgOwner \<and> new \<noteq> Some OrgOwner \<longrightarrow> 1 < owners)"
  by (auto simp: check_role_change_def ORG_ADMINS_def)

section \<open>The audit log\<close>

record actor =
  ac_user_id :: uuid
  ac_org_id :: uuid
  ac_ip_address :: "string option"
  ac_user_agent :: "string option"

definition org_role_value :: "org_role \<Rightarrow> string" where
  "org_role_value r = (case r of OrgOwner \<Rightarrow> ''owner'' | OrgAdmin \<Rightarrow> ''admin'' | OrgMember \<Rightarrow> ''member'')"

definition ws_role_value :: "workspace_role \<Rightarrow> string" where
  "ws_role_value r = (case r of WsViewer \<Rightarrow> ''viewer'' | WsEditor \<Rightarrow> ''editor'' | WsAdmin \<Rightarrow> ''admin'')"

definition change :: "json \<Rightarrow> json \<Rightarrow> jobj" where
  "change before after = [(''before'', before), (''after'', after)]"

definition clean_agent :: "string option \<Rightarrow> string option" where
  "clean_agent a = (case a of None \<Rightarrow> None | Some s \<Rightarrow> if s = [] then None else Some (take 500 s))"

definition audit_record :: "db \<Rightarrow> actor \<Rightarrow> string \<Rightarrow> string \<Rightarrow> uuid \<Rightarrow> uuid option \<Rightarrow> jobj \<Rightarrow> uuid \<Rightarrow> datetime \<Rightarrow> db" where
  "audit_record d a what target_type target_id wid details new_id now =
     d\<lparr>audit_events := audit_events d @ [\<lparr>ae_org_id = ac_org_id a, ae_id = new_id, ae_workspace_id = wid,
        ae_actor_user_id = Some (ac_user_id a), ae_action = what, ae_target_type = target_type,
        ae_target_id = uuid_str target_id, ae_details = details, ae_ip_address = ac_ip_address a,
        ae_user_agent = clean_agent (ac_user_agent a), ae_created_at = now\<rparr>]\<rparr>"

text \<open>
  The page of the log: the caller's workspaces, an action prefix, an actor, and the keyset.
\<close>

record audit_query =
  aq_workspace_ids :: "uuid list option"
  aq_action_prefix :: "string option"
  aq_actor_user_id :: "uuid option"
  aq_before :: "(datetime \<times> uuid) option"
  aq_limit :: nat

definition audit_matches :: "audit_query \<Rightarrow> audit_event \<Rightarrow> bool" where
  "audit_matches q e \<longleftrightarrow>
     (case aq_workspace_ids q of None \<Rightarrow> True | Some ws \<Rightarrow> (case ae_workspace_id e of None \<Rightarrow> False | Some w \<Rightarrow> w \<in> set ws)) \<and>
     (case aq_action_prefix q of None \<Rightarrow> True | Some p \<Rightarrow> prefix p (ae_action e)) \<and>
     (case aq_actor_user_id q of None \<Rightarrow> True | Some u \<Rightarrow> ae_actor_user_id e = Some u)"

definition list_events :: "db \<Rightarrow> audit_query \<Rightarrow> audit_event list \<times> bool" where
  "list_events d q =
     (let rows = take (aq_limit q + 1)
            (rev (sort_key (\<lambda>e. (ae_created_at e, ae_id e))
              (filter (\<lambda>e. audit_matches q e \<and>
                   (case aq_before q of None \<Rightarrow> True
                    | Some (ts, i) \<Rightarrow> ae_created_at e < ts \<or> ae_created_at e = ts \<and> ae_id e < i))
                (audit_events d))))
      in (take (aq_limit q) rows, aq_limit q < length rows))"

text \<open>
  The contract of an append-only log over a step relation: no sequence of steps changes or drops an
  entry.
\<close>

locale append_log =
  fixes log_of :: "'d \<Rightarrow> 'e list"
    and step :: "'d \<Rightarrow> 'd \<Rightarrow> bool"
  assumes step_appends: "step d d' \<Longrightarrow> prefix (log_of d) (log_of d')"
begin

lemma steps_append: "step\<^sup>*\<^sup>* d d' \<Longrightarrow> prefix (log_of d) (log_of d')"
  by (induction rule: rtranclp_induct) (auto intro: prefix_order.trans step_appends)

lemma entry_stays: "step\<^sup>*\<^sup>* d d' \<Longrightarrow> i < length (log_of d) \<Longrightarrow> log_of d' ! i = log_of d ! i"
  using steps_append [of d d'] by (auto simp: prefix_def nth_append)

lemma log_grows: "step\<^sup>*\<^sup>* d d' \<Longrightarrow> length (log_of d) \<le> length (log_of d')"
  using steps_append [of d d'] by (auto simp: prefix_def)

end

section \<open>Names that are unique in an org\<close>

text \<open>
  The check of \<^verbatim>\<open>_name_free\<close>, which teams and workspaces share, and what it is worth: a
  table whose names are unique per org stays so under an insert or a rename the check allowed.
\<close>

definition name_taken :: "('r \<Rightarrow> uuid) \<Rightarrow> ('r \<Rightarrow> uuid) \<Rightarrow> ('r \<Rightarrow> string) \<Rightarrow> 'r list \<Rightarrow> uuid \<Rightarrow> string \<Rightarrow> uuid option \<Rightarrow> bool" where
  "name_taken id_of org_of name_of t o' name besides =
     (case List.find (\<lambda>r. org_of r = o' \<and> name_of r = name) t of
        None \<Rightarrow> False
      | Some r \<Rightarrow> besides \<noteq> Some (id_of r))"

definition names_unique :: "('r \<Rightarrow> uuid) \<Rightarrow> ('r \<Rightarrow> uuid) \<Rightarrow> ('r \<Rightarrow> string) \<Rightarrow> 'r list \<Rightarrow> bool" where
  "names_unique id_of org_of name_of t \<longleftrightarrow> uniq_key id_of t \<and> uniq_key (\<lambda>r. (org_of r, name_of r)) t"

locale named_rows =
  fixes id_of :: "'r \<Rightarrow> uuid"
    and org_of :: "'r \<Rightarrow> uuid"
    and name_of :: "'r \<Rightarrow> string"
    and set_name :: "string \<Rightarrow> 'r \<Rightarrow> 'r"
  assumes id_set [simp]: "id_of (set_name n r) = id_of r"
    and org_set [simp]: "org_of (set_name n r) = org_of r"
    and name_set [simp]: "name_of (set_name n r) = n"
begin

lemma insert_keeps:
  assumes "names_unique id_of org_of name_of t" and "\<forall>x \<in> set t. id_of x \<noteq> id_of r"
    and "\<not> name_taken id_of org_of name_of t (org_of r) (name_of r) None"
  shows "names_unique id_of org_of name_of (t @ [r])"
  using assms by (auto simp: names_unique_def name_taken_def find_None_iff' split: option.splits)

lemma rename_keeps:
  assumes u: "names_unique id_of org_of name_of t" and r: "r \<in> set t"
    and free: "\<not> name_taken id_of org_of name_of t (org_of r) n (Some (id_of r))"
  shows "names_unique id_of org_of name_of (update_where (\<lambda>x. id_of x = id_of r) (set_name n) t)"
proof -
  have ids: "uniq_key id_of (update_where (\<lambda>x. id_of x = id_of r) (set_name n) t)"
    using u by (intro uniq_key_update_where) (auto simp: names_unique_def)
  have only: "x = r" if "x \<in> set t" "id_of x = id_of r" for x
    using u that r by (auto simp: names_unique_def dest: uniq_keyD)
  have clash: "id_of x = id_of r" if x: "x \<in> set t" "org_of x = org_of r" "name_of x = n" for x
  proof (cases "List.find (\<lambda>y. org_of y = org_of r \<and> name_of y = n) t")
    case None
    with x show ?thesis by (simp add: find_None_iff')
  next
    case (Some y)
    then have y: "y \<in> set t" "org_of y = org_of r" "name_of y = n" by (auto dest: find_SomeD)
    have "id_of y = id_of r" using free Some by (simp add: name_taken_def)
    moreover have "x = y" using u x y by (auto simp: names_unique_def dest: uniq_keyD)
    ultimately show ?thesis by simp
  qed
  have "inj_on (\<lambda>x. (org_of x, name_of x)) ((\<lambda>x. if id_of x = id_of r then set_name n x else x) ` set t)"
  proof (rule inj_onI)
    fix a b assume "a \<in> (\<lambda>x. if id_of x = id_of r then set_name n x else x) ` set t"
      and "b \<in> (\<lambda>x. if id_of x = id_of r then set_name n x else x) ` set t"
      and key: "(org_of a, name_of a) = (org_of b, name_of b)"
    then obtain x y where x: "x \<in> set t" "a = (if id_of x = id_of r then set_name n x else x)"
      and y: "y \<in> set t" "b = (if id_of y = id_of r then set_name n y else y)" by blast
    have o': "org_of x = org_of y" using key x(2) y(2) by (auto split: if_splits)
    show "a = b"
    proof (cases "id_of x = id_of r"; cases "id_of y = id_of r")
      assume "id_of x = id_of r" "id_of y = id_of r"
      with only [OF x(1)] only [OF y(1)] x(2) y(2) show "a = b" by simp
    next
      assume xr: "id_of x = id_of r" and yr: "id_of y \<noteq> id_of r"
      with key x(2) y(2) o' only [OF x(1) xr] clash [OF y(1)] show "a = b" by simp
    next
      assume xr: "id_of x \<noteq> id_of r" and yr: "id_of y = id_of r"
      with key x(2) y(2) o' only [OF y(1) yr] clash [OF x(1)] show "a = b" by simp
    next
      assume "id_of x \<noteq> id_of r" "id_of y \<noteq> id_of r"
      with key x y u show "a = b" by (auto simp: names_unique_def dest: uniq_keyD)
    qed
  qed
  moreover have "distinct (update_where (\<lambda>x. id_of x = id_of r) (set_name n) t)"
    using ids by (simp add: uniq_key_def distinct_map)
  ultimately have "uniq_key (\<lambda>x. (org_of x, name_of x)) (update_where (\<lambda>x. id_of x = id_of r) (set_name n) t)"
    unfolding uniq_key_def distinct_map by (simp add: update_where_def)
  with ids show ?thesis by (simp add: names_unique_def)
qed

lemma delete_keeps:
  "names_unique id_of org_of name_of t \<Longrightarrow> names_unique id_of org_of name_of (delete_where p t)"
  by (simp add: names_unique_def)

end

interpretation team_names: named_rows tm_id tm_org_id tm_name "\<lambda>n t. t\<lparr>tm_name := n\<rparr>"
  by unfold_locales simp_all

interpretation workspace_names: named_rows ws_id ws_org_id ws_name "\<lambda>n w. w\<lparr>ws_name := n\<rparr>"
  by unfold_locales simp_all

section \<open>The org\<close>

definition get_org :: "db \<Rightarrow> uuid \<Rightarrow> admin_error + org" where
  "get_org d i = expect (List.find (\<lambda>x. og_id x = i) (orgs d)) NotFound"

definition rename_org :: "db \<Rightarrow> actor \<Rightarrow> string \<Rightarrow> uuid \<Rightarrow> datetime \<Rightarrow> admin_error + db \<times> org" where
  "rename_org d a name new_id now =
     rbind (get_org d (ac_org_id a)) (\<lambda>x.
     rbind (clean_name name) (\<lambda>cleaned.
       if cleaned \<noteq> og_name x
       then Inr (audit_record (d\<lparr>orgs := update_where (\<lambda>y. og_id y = og_id x) (\<lambda>y. y\<lparr>og_name := cleaned\<rparr>) (orgs d)\<rparr>)
                   a ''org.renamed'' ''org'' (og_id x) None (change (JStr (og_name x)) (JStr cleaned)) new_id now,
                 x\<lparr>og_name := cleaned\<rparr>)
       else Inr (d, x)))"

end
