(* ===== verification/Members.thy ===== *)
theory Members
  imports Admin
begin

text \<open>
  \<^verbatim>\<open>services/admin/members.py\<close>: the members of an org, changing a role and removing
  a member under the owner rules.  The bootstrap user is never listed, never a target and never
  counts as an owner.
\<close>

section \<open>Members\<close>

record member =
  mb_user_id :: uuid
  mb_email :: string
  mb_display_name :: string
  mb_role :: org_role
  mb_joined_at :: datetime
  mb_disabled :: bool

definition member_of :: "org_membership \<Rightarrow> user \<Rightarrow> member" where
  "member_of m u = \<lparr>mb_user_id = us_id u, mb_email = us_email u, mb_display_name = us_display_name u,
     mb_role = om_role m, mb_joined_at = om_created_at m, mb_disabled = us_disabled_at u \<noteq> None\<rparr>"

text \<open>The join of memberships with users.\<close>

definition membership_rows :: "db \<Rightarrow> (org_membership \<times> user) list" where
  "membership_rows d =
     concat (map (\<lambda>m. map (Pair m) (filter (\<lambda>u. us_id u = om_user_id m) (users d))) (org_memberships d))"

definition org_role :: "db \<Rightarrow> principal \<Rightarrow> org_role option" where
  "org_role d p = active_org_role d p"

definition get_member :: "db \<Rightarrow> uuid \<Rightarrow> uuid \<Rightarrow> admin_error + member" where
  "get_member d org_id user_id =
     (if user_id = BOOTSTRAP_USER_ID then Inl NotFound
      else case List.find (\<lambda>(m, u). om_org_id m = org_id \<and> om_user_id m = user_id) (membership_rows d) of
             None \<Rightarrow> Inl NotFound
           | Some (m, u) \<Rightarrow> Inr (member_of m u))"

text \<open>
  One page by email; the cursor is the email it continues after (its base64 text is the client's
  form of it).
\<close>

definition contains_ci :: "string \<Rightarrow> string \<Rightarrow> bool" where
  "contains_ci q s \<longleftrightarrow> sublist (lower q) (lower s)"

definition list_members :: "db \<Rightarrow> uuid \<Rightarrow> string option \<Rightarrow> string option \<Rightarrow> nat \<Rightarrow> member list \<times> string option" where
  "list_members d org_id q after limit =
     (let matching = filter (\<lambda>(m, u). om_org_id m = org_id \<and> om_user_id m \<noteq> BOOTSTRAP_USER_ID
             \<and> (case q of None \<Rightarrow> True | Some s \<Rightarrow> strip s = [] \<or> contains_ci (strip s) (us_email u)
                   \<or> contains_ci (strip s) (us_display_name u))
             \<and> (case after of None \<Rightarrow> True | Some e \<Rightarrow> e < us_email u)) (membership_rows d);
          rows = take (limit + 1) (sort_key (\<lambda>(m, u). us_email u) matching);
          page = map (\<lambda>(m, u). member_of m u) (take limit rows)
      in (page, if limit < length rows then map_option mb_email (List.find (\<lambda>_. True) (rev page)) else None))"

definition is_owner_row :: "uuid \<Rightarrow> org_membership \<times> user \<Rightarrow> bool" where
  "is_owner_row org_id r \<longleftrightarrow> om_org_id (fst r) = org_id \<and> om_role (fst r) = OrgOwner
     \<and> om_user_id (fst r) \<noteq> BOOTSTRAP_USER_ID \<and> us_disabled_at (snd r) = None"

definition active_owners :: "db \<Rightarrow> uuid \<Rightarrow> int" where
  "active_owners d org_id = int (length (filter (is_owner_row org_id) (membership_rows d)))"

section \<open>Changes\<close>

definition is_membership :: "uuid \<Rightarrow> uuid \<Rightarrow> org_membership \<Rightarrow> bool" where
  "is_membership org_id user_id m \<longleftrightarrow> om_org_id m = org_id \<and> om_user_id m = user_id"

definition set_org_role :: "db \<Rightarrow> uuid \<Rightarrow> uuid \<Rightarrow> org_role \<Rightarrow> db" where
  "set_org_role d org_id user_id new =
     d\<lparr>org_memberships := update_where (is_membership org_id user_id) (\<lambda>m. m\<lparr>om_role := new\<rparr>) (org_memberships d)\<rparr>"

definition change_role :: "db \<Rightarrow> actor \<Rightarrow> org_role \<Rightarrow> uuid \<Rightarrow> org_role \<Rightarrow> uuid \<Rightarrow> datetime \<Rightarrow> admin_error + db \<times> member" where
  "change_role d a actor_role user_id new new_id now =
     rbind (get_member d (ac_org_id a) user_id) (\<lambda>m.
       if mb_role m = new then Inr (d, m)
       else rbind (check_role_change actor_role (mb_role m) (Some new) (active_owners d (ac_org_id a))) (\<lambda>_.
         Inr (audit_record (set_org_role d (ac_org_id a) user_id new) a ''member.role_changed'' ''user'' user_id None
                ((''email'', JStr (mb_email m)) # change (JStr (org_role_value (mb_role m))) (JStr (org_role_value new)))
                new_id now,
              m\<lparr>mb_role := new\<rparr>)))"

definition drop_member :: "db \<Rightarrow> uuid \<Rightarrow> uuid \<Rightarrow> datetime \<Rightarrow> db" where
  "drop_member d org_id user_id now =
     d\<lparr>workspace_memberships := delete_where (\<lambda>m. wm_org_id m = org_id \<and> wm_user_id m = user_id) (workspace_memberships d),
       team_members := delete_where (\<lambda>m. tmm_org_id m = org_id \<and> tmm_user_id m = user_id) (team_members d),
       org_memberships := delete_where (is_membership org_id user_id) (org_memberships d),
       auth_sessions := update_where (\<lambda>s. as_user_id s = user_id \<and> as_org_id s = Some org_id \<and> as_revoked_at s = None)
          (\<lambda>s. s\<lparr>as_revoked_at := Some now\<rparr>) (auth_sessions d)\<rparr>"

definition remove_member :: "db \<Rightarrow> actor \<Rightarrow> org_role \<Rightarrow> uuid \<Rightarrow> uuid \<Rightarrow> datetime \<Rightarrow> admin_error + db" where
  "remove_member d a actor_role user_id new_id now =
     rbind (get_member d (ac_org_id a) user_id) (\<lambda>m.
     rbind (check_role_change actor_role (mb_role m) None (active_owners d (ac_org_id a))) (\<lambda>_.
       Inr (audit_record (drop_member d (ac_org_id a) user_id now) a ''member.removed'' ''user'' user_id None
              [(''email'', JStr (mb_email m)), (''role'', JStr (org_role_value (mb_role m)))] new_id now)))"

section \<open>Facts\<close>

text \<open>The keys: one user per id, one membership per org and user.\<close>

definition members_ok :: "db \<Rightarrow> bool" where
  "members_ok d \<longleftrightarrow> uniq_key us_id (users d) \<and>
     uniq_key (\<lambda>m. (om_org_id m, om_user_id m)) (org_memberships d)"

lemma in_membership_rows:
  "(m, u) \<in> set (membership_rows d) \<longleftrightarrow> m \<in> set (org_memberships d) \<and> u \<in> set (users d) \<and> us_id u = om_user_id m"
  by (auto simp: membership_rows_def)

lemma get_member_Inr:
  assumes "members_ok d"
  shows "get_member d o' i = Inr mb \<longleftrightarrow> i \<noteq> BOOTSTRAP_USER_ID \<and>
     (\<exists>m u. (m, u) \<in> set (membership_rows d) \<and> is_membership o' i m \<and> mb = member_of m u)"
proof -
  have uniq: "(m, u) = (m', u')" if "(m, u) \<in> set (membership_rows d)" "(m', u') \<in> set (membership_rows d)"
      "is_membership o' i m" "is_membership o' i m'" for m u m' u'
    using assms that uniq_keyD [of "\<lambda>m. (om_org_id m, om_user_id m)" "org_memberships d" m m']
      uniq_keyD [of us_id "users d" u u'] by (auto simp: members_ok_def in_membership_rows is_membership_def)
  show ?thesis
  proof (cases "List.find (\<lambda>(m, u). om_org_id m = o' \<and> om_user_id m = i) (membership_rows d)")
    case None
    then have "\<not> (\<exists>m u. (m, u) \<in> set (membership_rows d) \<and> is_membership o' i m)"
      by (auto simp: find_None_iff' is_membership_def)
    with None show ?thesis by (auto simp: get_member_def)
  next
    case (Some r)
    obtain m u where r: "r = (m, u)" by (cases r)
    have mem: "(m, u) \<in> set (membership_rows d)" "is_membership o' i m"
      using find_SomeD [OF Some] r by (auto simp: is_membership_def)
    have get: "get_member d o' i = (if i = BOOTSTRAP_USER_ID then Inl NotFound else Inr (member_of m u))"
      using Some r by (simp add: get_member_def)
    have "(\<exists>m' u'. (m', u') \<in> set (membership_rows d) \<and> is_membership o' i m' \<and> mb = member_of m' u')
       \<longleftrightarrow> mb = member_of m u"
      using mem uniq [OF mem(1) _ mem(2)] by blast
    then show ?thesis unfolding get by auto
  qed
qed

lemma length_filter_concat: "length (filter p (concat xss)) = (\<Sum>xs\<leftarrow>xss. length (filter p xs))"
  by (induction xss) auto

lemma sum_list_indicator: "(\<Sum>x\<leftarrow>xs. if p x then 1 else 0) = length (filter p xs)" for xs :: "'a list"
  by (induction xs) auto

text \<open>An active owner is a membership; counting the joined rows counts those.\<close>

definition is_active_owner :: "db \<Rightarrow> uuid \<Rightarrow> org_membership \<Rightarrow> bool" where
  "is_active_owner d org_id m \<longleftrightarrow> om_org_id m = org_id \<and> om_role m = OrgOwner \<and>
     om_user_id m \<noteq> BOOTSTRAP_USER_ID \<and> user_active d (om_user_id m)"

lemma owner_rows_of:
  assumes "members_ok d"
  shows "length (filter (is_owner_row o') (map (Pair m) (filter (\<lambda>u. us_id u = om_user_id m) (users d))))
     = (if is_active_owner d o' m then 1 else 0)"
proof (cases "\<exists>u \<in> set (users d). us_id u = om_user_id m")
  case True
  then obtain u where u: "u \<in> set (users d)" "us_id u = om_user_id m" by blast
  have uq: "uniq_key us_id (users d)" using assms by (simp add: members_ok_def)
  have one: "filter (\<lambda>x. us_id x = om_user_id m) (users d) = [u]"
    using filter_uniq [OF uq u(1)] u(2) by simp
  have "user_active d (om_user_id m) \<longleftrightarrow> us_disabled_at u = None"
    unfolding user_active_def using u uniq_keyD [OF uq] by metis
  then show ?thesis unfolding one by (simp add: is_owner_row_def is_active_owner_def)
next
  case False
  then have "filter (\<lambda>u. us_id u = om_user_id m) (users d) = []" "\<not> user_active d (om_user_id m)"
    by (auto simp: filter_empty_conv user_active_def)
  then show ?thesis by (simp add: is_active_owner_def)
qed

lemma active_owners_count:
  "members_ok d \<Longrightarrow> active_owners d o' = int (length (filter (is_active_owner d o') (org_memberships d)))"
  unfolding active_owners_def membership_rows_def length_filter_concat map_map comp_def
  by (simp only: owner_rows_of sum_list_indicator)

lemma filter_split: "length (filter p t) = length (filter (\<lambda>x. p x \<and> q x) t) + length (filter (\<lambda>x. p x \<and> \<not> q x) t)"
  by (induction t) auto

lemma count_update_where: "length (filter (\<lambda>x. p x \<and> \<not> q x) t) \<le> length (filter p (update_where q h t))"
  by (induction t) (auto simp: update_where_def)

lemma count_delete_where: "length (filter p (delete_where q t)) = length (filter (\<lambda>x. p x \<and> \<not> q x) t)"
  by (induction t) (auto simp: delete_where_def)

lemma one_membership:
  assumes "members_ok d"
  shows "length (filter (\<lambda>m. p m \<and> is_membership o' i m) (org_memberships d)) \<le> 1"
proof (cases "\<exists>m \<in> set (org_memberships d). is_membership o' i m")
  case True
  then obtain m where m: "m \<in> set (org_memberships d)" "is_membership o' i m" by blast
  have "filter (\<lambda>x. (om_org_id x, om_user_id x) = (om_org_id m, om_user_id m)) (org_memberships d) = [m]"
    using assms m(1) by (intro filter_uniq) (auto simp: members_ok_def)
  then have "filter (is_membership o' i) (org_memberships d) = [m]" using m(2) by (simp add: is_membership_def [abs_def])
  moreover have "filter (\<lambda>m. p m \<and> is_membership o' i m) (org_memberships d)
      = filter p (filter (is_membership o' i) (org_memberships d))" by (simp add: conj_commute)
  ultimately show ?thesis by simp
next
  case False
  then have "filter (\<lambda>m. p m \<and> is_membership o' i m) (org_memberships d) = []" by (auto simp: filter_empty_conv)
  then show ?thesis by simp
qed

lemma members_ok_set_role: "members_ok d \<Longrightarrow> members_ok (set_org_role d o' i r)"
  unfolding members_ok_def set_org_role_def by (auto intro!: uniq_key_update_where)

lemma members_ok_drop: "members_ok d \<Longrightarrow> members_ok (drop_member d o' i now)"
  unfolding members_ok_def drop_member_def by simp

lemma is_active_owner_users: "users d = users d' \<Longrightarrow> is_active_owner d = is_active_owner d'"
  by (intro ext) (simp add: is_active_owner_def user_active_def)

lemma active_owners_set_role:
  assumes "members_ok d"
  shows "active_owners d o' - 1 \<le> active_owners (set_org_role d o' i r) o'"
proof -
  have users: "is_active_owner (set_org_role d o' i r) = is_active_owner d"
    by (rule is_active_owner_users) (simp add: set_org_role_def)
  have "length (filter (is_active_owner d o') (org_memberships d)) \<le>
      1 + length (filter (\<lambda>m. is_active_owner d o' m \<and> \<not> is_membership o' i m) (org_memberships d))"
    using filter_split [of "is_active_owner d o'" "org_memberships d" "is_membership o' i"]
      one_membership [OF assms, of "is_active_owner d o'" o' i] by simp
  also have "\<dots> \<le> 1 + length (filter (is_active_owner d o') (org_memberships (set_org_role d o' i r)))"
    using count_update_where [of "is_active_owner d o'" "is_membership o' i" "org_memberships d"]
    by (simp add: set_org_role_def)
  finally show ?thesis
    unfolding active_owners_count [OF assms] active_owners_count [OF members_ok_set_role [OF assms]] users by simp
qed

lemma active_owners_drop:
  assumes "members_ok d"
  shows "active_owners d o' - 1 \<le> active_owners (drop_member d o' i now) o'"
proof -
  have users: "is_active_owner (drop_member d o' i now) = is_active_owner d"
    by (rule is_active_owner_users) (simp add: drop_member_def)
  show ?thesis
    unfolding active_owners_count [OF assms] active_owners_count [OF members_ok_drop [OF assms]] users
    using filter_split [of "is_active_owner d o'" "org_memberships d" "is_membership o' i"]
      one_membership [OF assms, of "is_active_owner d o'" o' i]
    by (simp add: drop_member_def count_delete_where)
qed

text \<open>A membership that is no owner does not count.\<close>

lemma active_owners_not_owner:
  assumes "members_ok d" and "\<forall>m \<in> set (org_memberships d). is_membership o' i m \<longrightarrow> om_role m \<noteq> OrgOwner"
  shows "active_owners d o' \<le> active_owners (set_org_role d o' i r) o'"
    and "active_owners (drop_member d o' i now) o' = active_owners d o'"
proof -
  have eq: "filter (is_active_owner d o') (org_memberships d)
      = filter (\<lambda>m. is_active_owner d o' m \<and> \<not> is_membership o' i m) (org_memberships d)"
    by (rule filter_cong [OF refl]) (use assms(2) in \<open>auto simp: is_active_owner_def\<close>)
  have users: "is_active_owner (set_org_role d o' i r) = is_active_owner d"
    "is_active_owner (drop_member d o' i now) = is_active_owner d"
    by (rule is_active_owner_users, simp add: set_org_role_def drop_member_def)+
  show "active_owners d o' \<le> active_owners (set_org_role d o' i r) o'"
    unfolding active_owners_count [OF assms(1)] active_owners_count [OF members_ok_set_role [OF assms(1)]] users eq
    using count_update_where [of "is_active_owner d o'" "is_membership o' i" "org_memberships d"]
    by (simp add: set_org_role_def)
  show "active_owners (drop_member d o' i now) o' = active_owners d o'"
    unfolding active_owners_count [OF assms(1)] active_owners_count [OF members_ok_drop [OF assms(1)]] users eq
    by (simp add: drop_member_def count_delete_where)
qed

lemma audit_record_owners [frame_simps]:
  "active_owners (audit_record d a x y i w e n t) o' = active_owners d o'"
  "org_memberships (audit_record d a x y i w e n t) = org_memberships d"
  "users (audit_record d a x y i w e n t) = users d"
  by (simp_all add: audit_record_def active_owners_def membership_rows_def)

section \<open>Properties of membership changes\<close>

text \<open>C11: an org that has an active owner keeps one: whatever role changes and removals are carried out
  one after the other, by anyone, at least one active owner (the bootstrap user aside) remains.\<close>

theorem last_owner_stays:
  assumes "members_ok d" and "1 \<le> active_owners d (ac_org_id a)"
  shows "(\<forall>d' m. change_role d a actor_role i new new_id now = Inr (d', m) \<longrightarrow> 1 \<le> active_owners d' (ac_org_id a)) \<and>
    (\<forall>d'. remove_member d a actor_role i new_id now = Inr d' \<longrightarrow> 1 \<le> active_owners d' (ac_org_id a))"
proof (intro conjI allI impI)
  let ?o = "ac_org_id a"
  have role: "\<forall>m \<in> set (org_memberships d). is_membership ?o i m \<longrightarrow> om_role m \<noteq> OrgOwner"
    if mb: "get_member d ?o i = Inr mb" "mb_role mb \<noteq> OrgOwner" for mb
  proof (intro ballI impI)
    fix m assume m: "m \<in> set (org_memberships d)" "is_membership ?o i m"
    from mb(1) obtain m' u where m': "(m', u) \<in> set (membership_rows d)" "is_membership ?o i m'" "mb = member_of m' u"
      by (auto simp: get_member_Inr [OF assms(1)])
    have "m = m'" using assms(1) m m'(1,2) uniq_keyD [of "\<lambda>m. (om_org_id m, om_user_id m)" "org_memberships d" m m']
      by (auto simp: members_ok_def in_membership_rows is_membership_def)
    then show "om_role m \<noteq> OrgOwner" using mb(2) m'(3) by (simp add: member_of_def)
  qed
  show "1 \<le> active_owners d' ?o" if run: "change_role d a actor_role i new new_id now = Inr (d', m)" for d' m
  proof -
    from run obtain mb where mb: "get_member d ?o i = Inr mb" by (auto simp: change_role_def result_simps)
    show ?thesis
    proof (cases "mb_role mb = new")
      case True
      with run mb assms(2) show ?thesis by (simp add: change_role_def)
    next
      case False
      with run mb have ok: "check_role_change actor_role (mb_role mb) (Some new) (active_owners d ?o) = Inr ()"
        and d': "active_owners d' ?o = active_owners (set_org_role d ?o i new) ?o"
        by (auto simp: change_role_def result_simps frame_simps)
      show ?thesis
      proof (cases "mb_role mb = OrgOwner")
        case True
        with False ok have "1 < active_owners d ?o" by (auto simp: check_role_change_iff)
        with active_owners_set_role [OF assms(1), of ?o i new] d' show ?thesis by simp
      next
        case other: False
        from active_owners_not_owner(1) [OF assms(1) role [OF mb other], of new] assms(2) d' show ?thesis by simp
      qed
    qed
  qed
  show "1 \<le> active_owners d' ?o" if run: "remove_member d a actor_role i new_id now = Inr d'" for d'
  proof -
    from run obtain mb where mb: "get_member d ?o i = Inr mb"
      and ok: "check_role_change actor_role (mb_role mb) None (active_owners d ?o) = Inr ()"
      and d': "active_owners d' ?o = active_owners (drop_member d ?o i now) ?o"
      by (auto simp: remove_member_def result_simps frame_simps)
    show ?thesis
    proof (cases "mb_role mb = OrgOwner")
      case True
      with ok have "1 < active_owners d ?o" by (auto simp: check_role_change_iff)
      with active_owners_drop [OF assms(1), of ?o i now] d' show ?thesis by simp
    next
      case other: False
      from active_owners_not_owner(2) [OF assms(1) role [OF mb other], of now] assms(2) d' show ?thesis by simp
    qed
  qed
qed

text \<open>C12: a removed member is out: they hold no role in any workspace of the org, none of their sessions
  in the org is live, and no team or workspace of the org names them.\<close>

theorem removed_member_has_no_access:
  assumes "remove_member d a actor_role i new_id now = Inr d'"
  shows "workspace_role d' \<lparr>pr_user_id = i, pr_org_id = ac_org_id a\<rparr> wid = None
    \<and> (\<forall>s \<in> set (auth_sessions d'). as_user_id s = i \<and> as_org_id s = Some (ac_org_id a) \<longrightarrow> as_revoked_at s \<noteq> None)
    \<and> (\<forall>m \<in> set (team_members d'). \<not> (tmm_org_id m = ac_org_id a \<and> tmm_user_id m = i))
    \<and> (\<forall>m \<in> set (workspace_memberships d'). \<not> (wm_org_id m = ac_org_id a \<and> wm_user_id m = i))"
proof -
  let ?p = "\<lparr>pr_user_id = i, pr_org_id = ac_org_id a\<rparr>"
  have parts: "org_memberships d' = delete_where (is_membership (ac_org_id a) i) (org_memberships d)"
    "team_members d' = delete_where (\<lambda>m. tmm_org_id m = ac_org_id a \<and> tmm_user_id m = i) (team_members d)"
    "workspace_memberships d' = delete_where (\<lambda>m. wm_org_id m = ac_org_id a \<and> wm_user_id m = i) (workspace_memberships d)"
    "auth_sessions d' = update_where (\<lambda>s. as_user_id s = i \<and> as_org_id s = Some (ac_org_id a) \<and> as_revoked_at s = None)
          (\<lambda>s. s\<lparr>as_revoked_at := Some now\<rparr>) (auth_sessions d)"
    using assms by (auto simp: remove_member_def result_simps audit_record_def drop_member_def)
  have "\<not> is_member d' ?p" by (auto simp: is_member_def active_member_def parts is_membership_def)
  then have "active_org_role d' ?p = None" unfolding active_org_role_None .
  then have "workspace_role d' ?p wid = None" by (simp add: workspace_role_def effective_role_def split: option.splits)
  then show ?thesis by (auto simp: parts)
qed

section \<open>Two findings\<close>

text \<open>
  The rule counts the active owners without looking at whether the target is one: with one active owner,
  a \<^emph>\<open>disabled\<close> owner can be neither demoted nor removed, although they are not the last active owner.
\<close>

definition owner_row :: "uuid \<Rightarrow> org_membership" where
  "owner_row i = \<lparr>om_org_id = 1, om_user_id = i, om_role = OrgOwner, om_created_at = 0\<rparr>"

definition user_row :: "uuid \<Rightarrow> datetime option \<Rightarrow> user" where
  "user_row i off = \<lparr>us_id = i, us_email = nat_str i, us_display_name = [], us_created_at = 0, us_disabled_at = off\<rparr>"

definition ex_mdb :: "datetime option \<Rightarrow> db" where
  "ex_mdb off = empty_db\<lparr>users := [user_row 8 None, user_row 9 off], org_memberships := [owner_row 8, owner_row 9]\<rparr>"

definition ex_actor :: "uuid \<Rightarrow> actor" where
  "ex_actor i = \<lparr>ac_user_id = i, ac_org_id = 1, ac_ip_address = None, ac_user_agent = None\<rparr>"

lemma disabled_owner_refused:
  "remove_member (ex_mdb (Some 5)) (ex_actor 8) OrgOwner 9 20 30 = Inl (Conflict ''last_owner'')
   \<and> active_owners (drop_member (ex_mdb (Some 5)) 1 9 30) 1 = 1"
  by code_simp

text \<open>
  The count is read without a lock: two owners who demote each other in concurrent transactions (each
  checks the state before the other's write, as READ COMMITTED lets them) leave the org without an owner.
  \<open>change_role\<close> is its check followed by its write, so the interleaving is both checks, then both writes.
\<close>

lemma concurrent_demotions:
  "let d = ex_mdb None; d1 = set_org_role d 1 9 OrgMember
   in check_role_change OrgOwner OrgOwner (Some OrgMember) (active_owners d 1) = Inr ()
      \<and> active_owners d 1 = 2 \<and> active_owners (set_org_role d1 1 8 OrgMember) 1 = 0"
  by code_simp

lemma ex_mdb_ok: "members_ok (ex_mdb off)" "1 \<le> active_owners (ex_mdb None) (ac_org_id (ex_actor 8))"
proof -
  show "members_ok (ex_mdb off)" by (simp add: members_ok_def ex_mdb_def uniq_key_def user_row_def owner_row_def)
  show "1 \<le> active_owners (ex_mdb None) (ac_org_id (ex_actor 8))" by code_simp
qed

theorem last_owner_stays_witness:
  "\<exists>d'. remove_member (ex_mdb None) (ex_actor 8) OrgOwner 9 20 30 = Inr d' \<and> 1 \<le> active_owners d' 1"
proof -
  have "\<not> isl (remove_member (ex_mdb None) (ex_actor 8) OrgOwner 9 20 30)" by code_simp
  then obtain d' where "remove_member (ex_mdb None) (ex_actor 8) OrgOwner 9 20 30 = Inr d'" by (metis sum.collapse(2))
  with last_owner_stays [OF ex_mdb_ok, of OrgOwner 9 OrgMember 20 30] show ?thesis by (auto simp: ex_actor_def)
qed

theorem removed_member_has_no_access_witness:
  "\<exists>d'. remove_member (ex_mdb None) (ex_actor 8) OrgOwner 9 20 30 = Inr d'
     \<and> workspace_role d' \<lparr>pr_user_id = 9, pr_org_id = 1\<rparr> 2 = None"
proof -
  have "\<not> isl (remove_member (ex_mdb None) (ex_actor 8) OrgOwner 9 20 30)" by code_simp
  then obtain d' where r: "remove_member (ex_mdb None) (ex_actor 8) OrgOwner 9 20 30 = Inr d'" by (metis sum.collapse(2))
  with removed_member_has_no_access [OF r, of 2] show ?thesis by (auto simp: ex_actor_def)
qed

end
