(* ===== verification/Teams.thy ===== *)
theory Teams
  imports Members
begin

text \<open>
  \<^verbatim>\<open>services/admin/teams.py\<close>: teams of org members, which hold roles in workspaces.
  A uniqueness error of a concurrent insert (\<^verbatim>\<open>_flush\<close>) cannot arise in the sequential
  model: the check before it already refuses the name.
\<close>

record team_view =
  tv_id :: uuid
  tv_name :: string
  tv_members :: "user list"
  tv_workspaces :: "(workspace \<times> workspace_role) list"

definition list_teams :: "db \<Rightarrow> uuid \<Rightarrow> team_view list" where
  "list_teams d org_id =
     map (\<lambda>t. \<lparr>tv_id = tm_id t, tv_name = tm_name t,
        tv_members = concat (map (\<lambda>u. map (\<lambda>_. u) (filter (\<lambda>m. tmm_org_id m = org_id \<and> tmm_team_id m = tm_id t
             \<and> tmm_user_id m = us_id u) (team_members d))) (sort_key us_email (users d))),
        tv_workspaces = concat (map (\<lambda>w. map (\<lambda>r. (w, wt_role r)) (filter (\<lambda>r. wt_org_id r = org_id
             \<and> wt_team_id r = tm_id t \<and> wt_workspace_id r = ws_id w) (workspace_team_roles d)))
             (sort_key ws_name (workspaces d)))\<rparr>)
       (sort_key tm_name (filter (\<lambda>t. tm_org_id t = org_id) (teams d)))"

definition get_team :: "db \<Rightarrow> uuid \<Rightarrow> uuid \<Rightarrow> admin_error + team" where
  "get_team d org_id team_id = expect (List.find (\<lambda>t. tm_org_id t = org_id \<and> tm_id t = team_id) (teams d)) NotFound"

definition team_name_free :: "db \<Rightarrow> uuid \<Rightarrow> string \<Rightarrow> uuid option \<Rightarrow> admin_error + unit" where
  "team_name_free d org_id name besides =
     require (\<not> name_taken tm_id tm_org_id tm_name (teams d) org_id name besides) (Conflict ''name_taken'')"

definition create_team :: "db \<Rightarrow> actor \<Rightarrow> string \<Rightarrow> uuid \<Rightarrow> uuid \<Rightarrow> datetime \<Rightarrow> admin_error + db \<times> team" where
  "create_team d a name team_id new_id now =
     rbind (clean_name name) (\<lambda>cleaned.
     rbind (team_name_free d (ac_org_id a) cleaned None) (\<lambda>_.
       let t = \<lparr>tm_org_id = ac_org_id a, tm_id = team_id, tm_name = cleaned, tm_created_at = now\<rparr>
       in Inr (audit_record (d\<lparr>teams := teams d @ [t]\<rparr>) a ''team.created'' ''team'' team_id None
                 [(''name'', JStr cleaned)] new_id now, t)))"

definition rename_team :: "db \<Rightarrow> actor \<Rightarrow> uuid \<Rightarrow> string \<Rightarrow> uuid \<Rightarrow> datetime \<Rightarrow> admin_error + db \<times> team" where
  "rename_team d a team_id name new_id now =
     rbind (get_team d (ac_org_id a) team_id) (\<lambda>t.
     rbind (clean_name name) (\<lambda>cleaned.
       if cleaned = tm_name t then Inr (d, t)
       else rbind (team_name_free d (ac_org_id a) cleaned (Some (tm_id t))) (\<lambda>_.
         Inr (audit_record (d\<lparr>teams := update_where (\<lambda>x. tm_id x = tm_id t) (\<lambda>x. x\<lparr>tm_name := cleaned\<rparr>) (teams d)\<rparr>)
                a ''team.renamed'' ''team'' (tm_id t) None (change (JStr (tm_name t)) (JStr cleaned)) new_id now,
              t\<lparr>tm_name := cleaned\<rparr>))))"

definition delete_team :: "db \<Rightarrow> actor \<Rightarrow> uuid \<Rightarrow> uuid \<Rightarrow> datetime \<Rightarrow> admin_error + db" where
  "delete_team d a team_id new_id now =
     rbind (get_team d (ac_org_id a) team_id) (\<lambda>t.
       Inr (audit_record
              (d\<lparr>teams := delete_where (\<lambda>x. tm_id x = team_id) (teams d),
                 team_members := delete_where (\<lambda>m. tmm_team_id m = team_id) (team_members d),
                 workspace_team_roles := delete_where (\<lambda>r. wt_team_id r = team_id) (workspace_team_roles d)\<rparr>)
              a ''team.deleted'' ''team'' team_id None [(''name'', JStr (tm_name t))] new_id now))"

definition org_user :: "db \<Rightarrow> uuid \<Rightarrow> uuid \<Rightarrow> admin_error + user" where
  "org_user d org_id user_id =
     (if user_id = BOOTSTRAP_USER_ID then Inl NotFound
      else expect (List.find (\<lambda>u. us_id u = user_id
                     \<and> (\<exists>m \<in> set (org_memberships d). om_org_id m = org_id \<and> om_user_id m = user_id)) (users d)) NotFound)"

definition in_team :: "db \<Rightarrow> uuid \<Rightarrow> uuid \<Rightarrow> bool" where
  "in_team d team_id user_id \<longleftrightarrow> (\<exists>m \<in> set (team_members d). tmm_team_id m = team_id \<and> tmm_user_id m = user_id)"

definition team_details :: "team \<Rightarrow> user \<Rightarrow> jobj" where
  "team_details t u = [(''team'', JStr (tm_name t)), (''email'', JStr (us_email u))]"

definition add_team_member :: "db \<Rightarrow> actor \<Rightarrow> uuid \<Rightarrow> uuid \<Rightarrow> uuid \<Rightarrow> datetime \<Rightarrow> admin_error + db" where
  "add_team_member d a team_id user_id new_id now =
     rbind (get_team d (ac_org_id a) team_id) (\<lambda>t.
     rbind (org_user d (ac_org_id a) user_id) (\<lambda>u.
       if in_team d team_id user_id then Inr d
       else Inr (audit_record
              (d\<lparr>team_members := team_members d @ [\<lparr>tmm_org_id = ac_org_id a, tmm_team_id = team_id,
                   tmm_user_id = user_id, tmm_created_at = now\<rparr>]\<rparr>)
              a ''team.member_added'' ''team'' team_id None (team_details t u) new_id now)))"

definition remove_team_member :: "db \<Rightarrow> actor \<Rightarrow> uuid \<Rightarrow> uuid \<Rightarrow> uuid \<Rightarrow> datetime \<Rightarrow> admin_error + db" where
  "remove_team_member d a team_id user_id new_id now =
     rbind (get_team d (ac_org_id a) team_id) (\<lambda>t.
       case (in_team d team_id user_id, List.find (\<lambda>u. us_id u = user_id) (users d)) of
         (True, Some u) \<Rightarrow>
            Inr (audit_record
              (d\<lparr>team_members := delete_where (\<lambda>m. tmm_team_id m = team_id \<and> tmm_user_id m = user_id) (team_members d)\<rparr>)
              a ''team.member_removed'' ''team'' team_id None (team_details t u) new_id now)
       | _ \<Rightarrow> Inl NotFound)"

end
