(* ===== verification/Workspaces.thy ===== *)
theory Workspaces
  imports Teams
begin

text \<open>
  \<^verbatim>\<open>services/admin/workspaces.py\<close>: workspaces and the roles people and teams hold in
  them.
\<close>

definition get_workspace :: "db \<Rightarrow> uuid \<Rightarrow> uuid \<Rightarrow> admin_error + workspace" where
  "get_workspace d org_id wid = expect (List.find (\<lambda>w. ws_org_id w = org_id \<and> ws_id w = wid) (workspaces d)) NotFound"

definition workspace_name_free :: "db \<Rightarrow> uuid \<Rightarrow> string \<Rightarrow> uuid option \<Rightarrow> admin_error + unit" where
  "workspace_name_free d org_id name besides =
     require (\<not> name_taken ws_id ws_org_id ws_name (workspaces d) org_id name besides) (Conflict ''name_taken'')"

definition create_workspace :: "db \<Rightarrow> (string \<Rightarrow> bool) \<Rightarrow> actor \<Rightarrow> string \<Rightarrow> string \<Rightarrow> uuid \<Rightarrow> uuid \<Rightarrow> datetime
    \<Rightarrow> admin_error + db \<times> workspace" where
  "create_workspace d known a name timezone wid new_id now =
     rbind (clean_name name) (\<lambda>cleaned.
     rbind (clean_timezone known timezone) (\<lambda>tz.
     rbind (workspace_name_free d (ac_org_id a) cleaned None) (\<lambda>_.
       let w = \<lparr>ws_id = wid, ws_org_id = ac_org_id a, ws_name = cleaned, ws_timezone = tz, ws_created_at = now\<rparr>
       in Inr (audit_record (d\<lparr>workspaces := workspaces d @ [w]\<rparr>) a ''workspace.created'' ''workspace'' wid (Some wid)
                 [(''name'', JStr cleaned), (''timezone'', JStr tz)] new_id now, w))))"

text \<open>An optional argument: absent keeps the value, present is cleaned.\<close>

definition updated :: "(string \<Rightarrow> admin_error + string) \<Rightarrow> string option \<Rightarrow> string \<Rightarrow> admin_error + string" where
  "updated clean new old = (case new of None \<Rightarrow> Inr old | Some s \<Rightarrow> clean s)"

definition changed_details :: "workspace \<Rightarrow> string \<Rightarrow> string \<Rightarrow> jobj" where
  "changed_details w name tz =
     (if ws_name w \<noteq> name then [(''name'', JObj (change (JStr (ws_name w)) (JStr name)))] else []) @
     (if ws_timezone w \<noteq> tz then [(''timezone'', JObj (change (JStr (ws_timezone w)) (JStr tz)))] else [])"

definition update_workspace :: "db \<Rightarrow> (string \<Rightarrow> bool) \<Rightarrow> actor \<Rightarrow> uuid \<Rightarrow> string option \<Rightarrow> string option \<Rightarrow> uuid \<Rightarrow> datetime
    \<Rightarrow> admin_error + db \<times> workspace" where
  "update_workspace d known a wid name timezone new_id now =
     rbind (get_workspace d (ac_org_id a) wid) (\<lambda>w.
     rbind (updated clean_name name (ws_name w)) (\<lambda>n.
     rbind (updated (clean_timezone known) timezone (ws_timezone w)) (\<lambda>tz.
       if n = ws_name w \<and> tz = ws_timezone w then Inr (d, w)
       else rbind (if n \<noteq> ws_name w then workspace_name_free d (ac_org_id a) n (Some (ws_id w)) else Inr ()) (\<lambda>_.
         Inr (audit_record
                (d\<lparr>workspaces := update_where (\<lambda>x. ws_id x = ws_id w) (\<lambda>x. x\<lparr>ws_name := n, ws_timezone := tz\<rparr>) (workspaces d)\<rparr>)
                a ''workspace.updated'' ''workspace'' (ws_id w) (Some (ws_id w)) (changed_details w n tz) new_id now,
              w\<lparr>ws_name := n, ws_timezone := tz\<rparr>)))))"

text \<open>Any row of these tables blocks deleting their workspace.\<close>

definition has_content :: "db \<Rightarrow> uuid \<Rightarrow> bool" where
  "has_content d wid \<longleftrightarrow>
     (\<exists>s \<in> set (sources d). src_workspace_id s = wid) \<or> (\<exists>s \<in> set (all_series d). ser_workspace_id s = wid) \<or>
     (\<exists>x \<in> set (datasets d). ds_workspace_id x = wid) \<or> (\<exists>g \<in> set (series_groups d). sg_workspace_id g = wid) \<or>
     (\<exists>r \<in> set (runs d). run_workspace_id r = wid)"

definition delete_workspace :: "db \<Rightarrow> actor \<Rightarrow> uuid \<Rightarrow> uuid \<Rightarrow> datetime \<Rightarrow> admin_error + db" where
  "delete_workspace d a wid new_id now =
     rbind (get_workspace d (ac_org_id a) wid) (\<lambda>w.
     rbind (require (ws_id w \<noteq> DEFAULT_WORKSPACE_ID) (Conflict ''default_workspace'')) (\<lambda>_.
     rbind (require (\<not> has_content d (ws_id w)) (Conflict ''workspace_not_empty'')) (\<lambda>_.
       Inr (audit_record
              (d\<lparr>workspaces := delete_where (\<lambda>x. ws_id x = ws_id w) (workspaces d),
                 workspace_memberships := delete_where (\<lambda>m. wm_workspace_id m = ws_id w) (workspace_memberships d),
                 workspace_team_roles := delete_where (\<lambda>r. wt_workspace_id r = ws_id w) (workspace_team_roles d),
                 invitations := delete_where (\<lambda>i. inv_workspace_id i = Some (ws_id w)) (invitations d)\<rparr>)
              a ''workspace.deleted'' ''workspace'' wid (Some wid) [(''name'', JStr (ws_name w))] new_id now))))"

section \<open>Access\<close>

record access =
  acc_members :: "(user \<times> workspace_role) list"
  acc_teams :: "(team \<times> workspace_role) list"
  acc_org_admins :: "(user \<times> org_role) list"

definition get_access :: "db \<Rightarrow> uuid \<Rightarrow> uuid \<Rightarrow> admin_error + access" where
  "get_access d org_id wid =
     rbind (get_workspace d org_id wid) (\<lambda>_. Inr
       \<lparr>acc_members = concat (map (\<lambda>u. map (\<lambda>m. (u, wm_role m)) (filter (\<lambda>m. wm_workspace_id m = wid \<and> wm_user_id m = us_id u)
            (workspace_memberships d))) (sort_key us_email (users d))),
        acc_teams = concat (map (\<lambda>t. map (\<lambda>r. (t, wt_role r)) (filter (\<lambda>r. wt_workspace_id r = wid \<and> wt_team_id r = tm_id t)
            (workspace_team_roles d))) (sort_key tm_name (teams d))),
        acc_org_admins = concat (map (\<lambda>u. map (\<lambda>m. (u, om_role m)) (filter (\<lambda>m. om_org_id m = org_id \<and> om_user_id m = us_id u
            \<and> om_role m \<in> set ORG_ADMINS \<and> om_user_id m \<noteq> BOOTSTRAP_USER_ID \<and> us_disabled_at u = None)
            (org_memberships d))) (sort_key us_email (users d)))\<rparr>)"

definition opt_role_json :: "workspace_role option \<Rightarrow> json" where
  "opt_role_json r = (case r of None \<Rightarrow> JNull | Some x \<Rightarrow> JStr (ws_role_value x))"

definition is_ws_grant :: "uuid \<Rightarrow> uuid \<Rightarrow> workspace_membership \<Rightarrow> bool" where
  "is_ws_grant wid user_id m \<longleftrightarrow> wm_workspace_id m = wid \<and> wm_user_id m = user_id"

definition set_ws_member :: "db \<Rightarrow> actor \<Rightarrow> uuid \<Rightarrow> uuid \<Rightarrow> workspace_role \<Rightarrow> uuid \<Rightarrow> datetime \<Rightarrow> admin_error + db" where
  "set_ws_member d a wid user_id role new_id now =
     rbind (get_workspace d (ac_org_id a) wid) (\<lambda>w.
     rbind (org_user d (ac_org_id a) user_id) (\<lambda>u.
       let grant = List.find (is_ws_grant wid user_id) (workspace_memberships d)
       in if map_option wm_role grant = Some role then Inr d
          else Inr (audit_record
             (d\<lparr>workspace_memberships :=
                  (if grant = None
                   then workspace_memberships d @ [\<lparr>wm_org_id = ac_org_id a, wm_workspace_id = wid, wm_user_id = user_id,
                          wm_role = role, wm_created_at = now\<rparr>]
                   else update_where (is_ws_grant wid user_id) (\<lambda>m. m\<lparr>wm_role := role\<rparr>) (workspace_memberships d))\<rparr>)
             a ''workspace.member_set'' ''user'' user_id (Some wid)
             ([(''workspace'', JStr (ws_name w)), (''email'', JStr (us_email u))]
               @ change (opt_role_json (map_option wm_role grant)) (JStr (ws_role_value role))) new_id now)))"

definition remove_ws_member :: "db \<Rightarrow> actor \<Rightarrow> uuid \<Rightarrow> uuid \<Rightarrow> uuid \<Rightarrow> datetime \<Rightarrow> admin_error + db" where
  "remove_ws_member d a wid user_id new_id now =
     rbind (get_workspace d (ac_org_id a) wid) (\<lambda>w.
     rbind (expect (List.find (is_ws_grant wid user_id) (workspace_memberships d)) NotFound) (\<lambda>g.
       Inr (audit_record
              (d\<lparr>workspace_memberships := delete_where (is_ws_grant wid user_id) (workspace_memberships d)\<rparr>)
              a ''workspace.member_removed'' ''user'' user_id (Some wid)
              [(''workspace'', JStr (ws_name w)),
               (''email'', case List.find (\<lambda>u. us_id u = user_id) (users d) of None \<Rightarrow> JNull | Some u \<Rightarrow> JStr (us_email u)),
               (''role'', JStr (ws_role_value (wm_role g)))] new_id now)))"

definition is_team_grant :: "uuid \<Rightarrow> uuid \<Rightarrow> workspace_team_role \<Rightarrow> bool" where
  "is_team_grant wid team_id r \<longleftrightarrow> wt_workspace_id r = wid \<and> wt_team_id r = team_id"

definition set_ws_team :: "db \<Rightarrow> actor \<Rightarrow> uuid \<Rightarrow> uuid \<Rightarrow> workspace_role \<Rightarrow> uuid \<Rightarrow> datetime \<Rightarrow> admin_error + db" where
  "set_ws_team d a wid team_id role new_id now =
     rbind (get_workspace d (ac_org_id a) wid) (\<lambda>w.
     rbind (get_team d (ac_org_id a) team_id) (\<lambda>t.
       let grant = List.find (is_team_grant wid team_id) (workspace_team_roles d)
       in if map_option wt_role grant = Some role then Inr d
          else Inr (audit_record
             (d\<lparr>workspace_team_roles :=
                  (if grant = None
                   then workspace_team_roles d @ [\<lparr>wt_org_id = ac_org_id a, wt_workspace_id = wid, wt_team_id = team_id,
                          wt_role = role\<rparr>]
                   else update_where (is_team_grant wid team_id) (\<lambda>r. r\<lparr>wt_role := role\<rparr>) (workspace_team_roles d))\<rparr>)
             a ''workspace.team_set'' ''team'' team_id (Some wid)
             ([(''workspace'', JStr (ws_name w)), (''team'', JStr (tm_name t))]
               @ change (opt_role_json (map_option wt_role grant)) (JStr (ws_role_value role))) new_id now)))"

definition remove_ws_team :: "db \<Rightarrow> actor \<Rightarrow> uuid \<Rightarrow> uuid \<Rightarrow> uuid \<Rightarrow> datetime \<Rightarrow> admin_error + db" where
  "remove_ws_team d a wid team_id new_id now =
     rbind (get_workspace d (ac_org_id a) wid) (\<lambda>w.
     rbind (get_team d (ac_org_id a) team_id) (\<lambda>t.
     rbind (expect (List.find (is_team_grant wid team_id) (workspace_team_roles d)) NotFound) (\<lambda>g.
       Inr (audit_record
              (d\<lparr>workspace_team_roles := delete_where (is_team_grant wid team_id) (workspace_team_roles d)\<rparr>)
              a ''workspace.team_removed'' ''team'' team_id (Some wid)
              [(''workspace'', JStr (ws_name w)), (''team'', JStr (tm_name t)), (''role'', JStr (ws_role_value (wt_role g)))]
              new_id now))))"

end
