(* ===== verification/Invitations.thy ===== *)
theory Invitations
  imports Workspaces
begin

text \<open>
  \<^verbatim>\<open>services/admin/invitations.py\<close> and the accepting function of migration 0006:
  invitations bound to an email, their status, their email's delivery, and how they turn into
  memberships.
\<close>

section \<open>Emails and grants\<close>

definition MAX_EMAIL :: nat where "MAX_EMAIL = 254"

text \<open>\<^verbatim>\<open>[^@\s]+@[^@\s]+\.[^@\s.]+\<close>, matched in full.\<close>

definition email_ok :: "string \<Rightarrow> bool" where
  "email_ok e =
     (let local = takeWhile (\<lambda>c. c \<noteq> CHR ''@'') e;
          domain = drop (length local + 1) e;
          tld = takeWhile (\<lambda>c. c \<noteq> CHR ''.'') (rev domain)
      in (\<forall>c \<in> set e. \<not> is_space c) \<and> CHR ''@'' \<in> set e \<and> CHR ''@'' \<notin> set domain \<and>
         local \<noteq> [] \<and> tld \<noteq> [] \<and> length tld + 1 < length domain)"

definition normalise_email :: "string \<Rightarrow> admin_error + string" where
  "normalise_email raw =
     (let email = lower (strip raw)
      in if MAX_EMAIL < length email \<or> \<not> email_ok email then Inl (Invalid ''invalid_email'') else Inr email)"

record grant =
  gr_org_role :: string
  gr_workspace_id :: "uuid option"
  gr_workspace_role :: "string option"

definition parse_org_role :: "string \<Rightarrow> org_role option" where
  "parse_org_role s = (if s = ''owner'' then Some OrgOwner else if s = ''admin'' then Some OrgAdmin
     else if s = ''member'' then Some OrgMember else None)"

definition parse_ws_role :: "string \<Rightarrow> workspace_role option" where
  "parse_ws_role s = (if s = ''viewer'' then Some WsViewer else if s = ''editor'' then Some WsEditor
     else if s = ''admin'' then Some WsAdmin else None)"

definition INVITABLE :: "org_role list" where "INVITABLE = [OrgAdmin, OrgMember]"

definition check_grant :: "grant \<Rightarrow> admin_error + org_role \<times> workspace_role option" where
  "check_grant g =
     rbind (expect (parse_org_role (gr_org_role g)) (Invalid ''invalid_role'')) (\<lambda>o'.
     rbind (require (o' \<in> set INVITABLE) (Invalid ''invalid_role'')) (\<lambda>_.
     rbind (require ((gr_workspace_id g = None) = (gr_workspace_role g = None)) (Invalid ''invalid_workspace_grant'')) (\<lambda>_.
       case gr_workspace_role g of
         None \<Rightarrow> Inr (o', None)
       | Some s \<Rightarrow> rbind (expect (parse_ws_role s) (Invalid ''invalid_role'')) (\<lambda>r. Inr (o', Some r)))))"

section \<open>Status\<close>

datatype inv_status = Pending | Accepted | Revoked | Expired

definition status_of :: "invitation \<Rightarrow> datetime \<Rightarrow> inv_status" where
  "status_of i now =
     (if inv_accepted_at i \<noteq> None then Accepted else if inv_revoked_at i \<noteq> None then Revoked
      else if inv_expires_at i \<le> now then Expired else Pending)"

definition list_invitations :: "db \<Rightarrow> uuid \<Rightarrow> bool \<Rightarrow> datetime \<Rightarrow> (invitation \<times> inv_status) list" where
  "list_invitations d org_id pending_only now =
     map (\<lambda>i. (i, status_of i now))
       (sort_key (\<lambda>i. (- inv_created_at i, inv_id i))
         (filter (\<lambda>i. inv_org_id i = org_id \<and> (pending_only \<longrightarrow> status_of i now = Pending)) (invitations d)))"

definition get_invitation :: "db \<Rightarrow> uuid \<Rightarrow> uuid \<Rightarrow> admin_error + invitation" where
  "get_invitation d org_id i = expect (List.find (\<lambda>x. inv_org_id x = org_id \<and> inv_id x = i) (invitations d)) NotFound"

section \<open>Opening, resending and revoking\<close>

definition MAIL_QUEUE :: string where "MAIL_QUEUE = ''mail''"
definition SEND_INVITATION_TASK :: string where "SEND_INVITATION_TASK = ''tabayyun.send_invitation_email''"

definition set_invitation :: "db \<Rightarrow> uuid \<Rightarrow> (invitation \<Rightarrow> invitation) \<Rightarrow> db" where
  "set_invitation d i g = d\<lparr>invitations := update_where (\<lambda>x. inv_id x = i) g (invitations d)\<rparr>"

definition queue_email :: "db \<Rightarrow> invitation \<Rightarrow> bool \<Rightarrow> bool \<Rightarrow> db" where
  "queue_email d i mail_on defer =
     (let d1 = set_invitation d (inv_id i) (\<lambda>x. x\<lparr>inv_email_status := (if mail_on then MailQueued else MailNotConfigured),
                 inv_email_error := None\<rparr>)
      in if mail_on \<and> defer
         then d1\<lparr>jobs := jobs d1 @ [\<lparr>job_queue = MAIL_QUEUE, job_task = SEND_INVITATION_TASK, job_lock = None,
                job_args = (inv_id i, inv_org_id i)\<rparr>]\<rparr>
         else d1)"

definition inv_details :: "string \<Rightarrow> grant \<Rightarrow> workspace option \<Rightarrow> jobj" where
  "inv_details email g w =
     [(''email'', JStr email), (''org_role'', JStr (gr_org_role g)),
      (''workspace'', case w of None \<Rightarrow> JNull | Some x \<Rightarrow> JStr (ws_name x)),
      (''workspace_role'', case gr_workspace_role g of None \<Rightarrow> JNull | Some r \<Rightarrow> JStr r)]"

definition is_open :: "invitation \<Rightarrow> bool" where
  "is_open i \<longleftrightarrow> inv_accepted_at i = None \<and> inv_revoked_at i = None"

definition open_for :: "uuid \<Rightarrow> string \<Rightarrow> invitation \<Rightarrow> bool" where
  "open_for org_id email i \<longleftrightarrow> inv_org_id i = org_id \<and> inv_email i = email \<and> is_open i"

definition grant_workspace :: "db \<Rightarrow> uuid \<Rightarrow> grant \<Rightarrow> admin_error + workspace option" where
  "grant_workspace d org_id g =
     (case gr_workspace_id g of
        None \<Rightarrow> Inr None
      | Some w \<Rightarrow> rbind (expect (List.find (\<lambda>x. ws_org_id x = org_id \<and> ws_id x = w) (workspaces d)) NotFound) (\<lambda>x. Inr (Some x)))"

definition create_invitation :: "db \<Rightarrow> actor \<Rightarrow> string \<Rightarrow> grant \<Rightarrow> int \<Rightarrow> bool \<Rightarrow> bool \<Rightarrow> uuid \<Rightarrow> uuid \<Rightarrow> datetime
    \<Rightarrow> admin_error + db \<times> invitation" where
  "create_invitation d a raw g ttl mail_on defer inv_new new_id now =
     rbind (normalise_email raw) (\<lambda>email.
     rbind (check_grant g) (\<lambda>(o', wr).
     rbind (grant_workspace d (ac_org_id a) g) (\<lambda>w.
     rbind (require (\<not> (\<exists>(m, u) \<in> set (membership_rows d). om_org_id m = ac_org_id a \<and> us_email u = email))
              (Conflict ''already_member'')) (\<lambda>_.
     rbind (case List.find (open_for (ac_org_id a) email) (invitations d) of
              None \<Rightarrow> Inr d
            | Some x \<Rightarrow> (if status_of x now = Pending then Inl (Conflict ''invitation_pending'')
                else Inr (set_invitation d (inv_id x) (\<lambda>y. y\<lparr>inv_revoked_at := Some now\<rparr>)))) (\<lambda>d1.
       let i = \<lparr>inv_org_id = ac_org_id a, inv_id = inv_new, inv_email = email, inv_org_role = o',
                inv_workspace_id = gr_workspace_id g, inv_workspace_role = wr, inv_invited_by = ac_user_id a,
                inv_created_at = now, inv_expires_at = now + ttl, inv_accepted_at = None,
                inv_accepted_user_id = None, inv_revoked_at = None, inv_email_status = MailNotConfigured,
                inv_email_error = None\<rparr>;
           d2 = queue_email (d1\<lparr>invitations := invitations d1 @ [i]\<rparr>) i mail_on defer
       in Inr (audit_record d2 a ''invitation.created'' ''invitation'' inv_new (gr_workspace_id g)
                 (inv_details email g w) new_id now, i))))))"

definition resend_invitation :: "db \<Rightarrow> actor \<Rightarrow> uuid \<Rightarrow> int \<Rightarrow> bool \<Rightarrow> bool \<Rightarrow> uuid \<Rightarrow> datetime \<Rightarrow> admin_error + db" where
  "resend_invitation d a i ttl mail_on defer new_id now =
     rbind (get_invitation d (ac_org_id a) i) (\<lambda>x.
     rbind (require (status_of x now = Pending \<or> status_of x now = Expired) (Conflict ''not_pending'')) (\<lambda>_.
       Inr (audit_record
              (queue_email (set_invitation d (inv_id x) (\<lambda>y. y\<lparr>inv_expires_at := now + ttl\<rparr>)) x mail_on defer)
              a ''invitation.resent'' ''invitation'' (inv_id x) (inv_workspace_id x)
              [(''email'', JStr (inv_email x))] new_id now)))"

definition revoke_invitation :: "db \<Rightarrow> actor \<Rightarrow> uuid \<Rightarrow> uuid \<Rightarrow> datetime \<Rightarrow> admin_error + db" where
  "revoke_invitation d a i new_id now =
     rbind (get_invitation d (ac_org_id a) i) (\<lambda>x.
     rbind (require (status_of x now = Pending) (Conflict ''not_pending'')) (\<lambda>_.
       Inr (audit_record (set_invitation d (inv_id x) (\<lambda>y. y\<lparr>inv_revoked_at := Some now\<rparr>))
              a ''invitation.revoked'' ''invitation'' (inv_id x) (inv_workspace_id x)
              [(''email'', JStr (inv_email x))] new_id now)))"

section \<open>Delivery\<close>

record invitation_mail =
  ml_to :: string
  ml_org_name :: string
  ml_inviter :: string
  ml_role :: string
  ml_workspace :: "string option"
  ml_expires_at :: datetime
  ml_login_url :: "string option"

definition role_text :: "invitation \<Rightarrow> string" where
  "role_text i = (let r = (case inv_workspace_role i of Some w \<Rightarrow> ws_role_value w | None \<Rightarrow> org_role_value (inv_org_role i))
     in ''a'' @ (if hd r \<in> set ''aeiou'' then ''n'' else []) @ '' '' @ r)"

definition mail_of :: "db \<Rightarrow> uuid \<Rightarrow> string option \<Rightarrow> datetime \<Rightarrow> invitation_mail option" where
  "mail_of d i login_url now =
     (case List.find (\<lambda>x. inv_id x = i) (invitations d) of
        None \<Rightarrow> None
      | Some x \<Rightarrow>
          (case List.find (\<lambda>y. og_id y = inv_org_id x) (orgs d) of
             None \<Rightarrow> None
           | Some y \<Rightarrow>
               if status_of x now \<noteq> Pending then None
               else Some \<lparr>ml_to = inv_email x, ml_org_name = og_name y,
                 ml_inviter = (case List.find (\<lambda>u. us_id u = inv_invited_by x) (users d) of
                     Some u \<Rightarrow> us_display_name u | None \<Rightarrow> ''An administrator''),
                 ml_role = role_text x,
                 ml_workspace = Option.bind (inv_workspace_id x)
                     (\<lambda>w. map_option ws_name (List.find (\<lambda>z. ws_id z = w) (workspaces d))),
                 ml_expires_at = inv_expires_at x, ml_login_url = login_url\<rparr>))"

definition set_email_status :: "db \<Rightarrow> uuid \<Rightarrow> email_status \<Rightarrow> string option \<Rightarrow> db" where
  "set_email_status d i st err = set_invitation d i (\<lambda>x. x\<lparr>inv_email_status := st, inv_email_error := err\<rparr>)"

definition mark_not_configured :: "db \<Rightarrow> uuid \<Rightarrow> db" where
  "mark_not_configured d i = set_email_status d i MailNotConfigured None"

text \<open>
  The mail server's answer is the parameter \<open>send\<close> (\<open>Some\<close> the error); a raise that makes the queue
  retry is \<open>Inl\<close>.
\<close>

definition deliver :: "db \<Rightarrow> (invitation_mail \<Rightarrow> string option) \<Rightarrow> uuid \<Rightarrow> string option \<Rightarrow> bool \<Rightarrow> datetime \<Rightarrow> string + db" where
  "deliver d send i login_url final_attempt now =
     (case mail_of d i login_url now of
        None \<Rightarrow> Inr d
      | Some m \<Rightarrow>
          (case send m of
             None \<Rightarrow> Inr (set_email_status d i MailSent None)
           | Some err \<Rightarrow> if final_attempt then Inr (set_email_status d i MailFailed (Some err)) else Inl err))"

section \<open>Accepting\<close>

definition org_rank :: "org_role \<Rightarrow> nat" where
  "org_rank r = (case r of OrgMember \<Rightarrow> 1 | OrgAdmin \<Rightarrow> 2 | OrgOwner \<Rightarrow> 3)"

definition raise_org_role :: "uuid \<Rightarrow> uuid \<Rightarrow> org_role \<Rightarrow> datetime \<Rightarrow> db \<Rightarrow> db" where
  "raise_org_role org_id user_id r now d =
     d\<lparr>org_memberships := upsert (\<lambda>m. (om_org_id m, om_user_id m))
         (\<lambda>old new. if org_rank (om_role old) < org_rank (om_role new) then old\<lparr>om_role := om_role new\<rparr> else old)
         \<lparr>om_org_id = org_id, om_user_id = user_id, om_role = r, om_created_at = now\<rparr> (org_memberships d)\<rparr>"

definition raise_ws_role :: "uuid \<Rightarrow> uuid \<Rightarrow> uuid \<Rightarrow> workspace_role \<Rightarrow> datetime \<Rightarrow> db \<Rightarrow> db" where
  "raise_ws_role org_id wid user_id r now d =
     d\<lparr>workspace_memberships := upsert (\<lambda>m. (wm_workspace_id m, wm_user_id m))
         (\<lambda>old new. if role_rank (wm_role old) < role_rank (wm_role new) then old\<lparr>wm_role := wm_role new\<rparr> else old)
         \<lparr>wm_org_id = org_id, wm_workspace_id = wid, wm_user_id = user_id, wm_role = r, wm_created_at = now\<rparr>
         (workspace_memberships d)\<rparr>"

definition joined_event :: "invitation \<Rightarrow> uuid \<Rightarrow> string \<Rightarrow> uuid \<Rightarrow> datetime \<Rightarrow> audit_event" where
  "joined_event i user_id email new_id now =
     \<lparr>ae_org_id = inv_org_id i, ae_id = new_id, ae_workspace_id = inv_workspace_id i, ae_actor_user_id = None,
      ae_action = ''member.joined'', ae_target_type = ''user'', ae_target_id = uuid_str user_id,
      ae_details = [(''email'', JStr email), (''invitation_id'', JStr (uuid_str (inv_id i))),
        (''invited_by'', JStr (uuid_str (inv_invited_by i))), (''org_role'', JStr (org_role_value (inv_org_role i))),
        (''workspace_role'', opt_role_json (inv_workspace_role i))],
      ae_ip_address = None, ae_user_agent = None, ae_created_at = now\<rparr>"

definition accept_one :: "uuid \<Rightarrow> string \<Rightarrow> datetime \<Rightarrow> invitation \<times> uuid \<Rightarrow> db \<Rightarrow> db" where
  "accept_one user_id email now ix d =
     (let (i, new_id) = ix;
          d1 = raise_org_role (inv_org_id i) user_id (inv_org_role i) now d;
          d2 = (case (inv_workspace_id i, inv_workspace_role i) of
                  (Some w, Some r) \<Rightarrow> raise_ws_role (inv_org_id i) w user_id r now d1 | _ \<Rightarrow> d1);
          d3 = set_invitation d2 (inv_id i) (\<lambda>x. x\<lparr>inv_accepted_at := Some now, inv_accepted_user_id := Some user_id\<rparr>)
      in d3\<lparr>audit_events := audit_events d3 @ [joined_event i user_id email new_id now]\<rparr>)"

definition acceptable :: "db \<Rightarrow> string \<Rightarrow> datetime \<Rightarrow> invitation list" where
  "acceptable d email now =
     sort_key inv_created_at
       (filter (\<lambda>i. inv_email i = email \<and> is_open i \<and> now < inv_expires_at i) (invitations d))"

definition accept_invitations :: "db \<Rightarrow> uuid \<Rightarrow> datetime \<Rightarrow> uuid list \<Rightarrow> db \<times> uuid list" where
  "accept_invitations d user_id now ids =
     (case List.find (\<lambda>u. us_id u = user_id \<and> us_disabled_at u = None) (users d) of
        None \<Rightarrow> (d, [])
      | Some u \<Rightarrow>
          (let is = acceptable d (us_email u) now
           in (fold (accept_one user_id (us_email u) now) (zip is ids) d, map inv_org_id (take (length ids) is))))"

end
