(* ===== verification/Admin_Log.thy ===== *)
theory Admin_Log
  imports Invitations
begin

text \<open>
  All admin operations as one step relation, with the fresh identifiers each step draws: what every
  sequence of steps keeps (keys, unique names, one open invitation per address, closed invitations), and
  that the audit log is append-only and complete.
\<close>

inductive admin_step :: "db \<Rightarrow> db \<Rightarrow> bool" where
  step_change_role: "change_role d a r i new e now = Inr (d', m) \<Longrightarrow> admin_step d d'"
| step_remove_member: "remove_member d a r i e now = Inr d' \<Longrightarrow> admin_step d d'"
| step_rename_org: "rename_org d a nm e now = Inr (d', x) \<Longrightarrow> admin_step d d'"
| step_create_team: "create_team d a nm t e now = Inr (d', x) \<Longrightarrow> t \<notin> tm_id ` set (teams d) \<Longrightarrow> admin_step d d'"
| step_rename_team: "rename_team d a t nm e now = Inr (d', x) \<Longrightarrow> admin_step d d'"
| step_delete_team: "delete_team d a t e now = Inr d' \<Longrightarrow> admin_step d d'"
| step_add_team_member: "add_team_member d a t i e now = Inr d' \<Longrightarrow> admin_step d d'"
| step_remove_team_member: "remove_team_member d a t i e now = Inr d' \<Longrightarrow> admin_step d d'"
| step_create_workspace: "create_workspace d known a nm tz w e now = Inr (d', x) \<Longrightarrow> w \<notin> ws_id ` set (workspaces d) \<Longrightarrow>
    admin_step d d'"
| step_update_workspace: "update_workspace d known a w nm tz e now = Inr (d', x) \<Longrightarrow> admin_step d d'"
| step_delete_workspace: "delete_workspace d a w e now = Inr d' \<Longrightarrow> admin_step d d'"
| step_set_ws_member: "set_ws_member d a w i wr e now = Inr d' \<Longrightarrow> admin_step d d'"
| step_remove_ws_member: "remove_ws_member d a w i e now = Inr d' \<Longrightarrow> admin_step d d'"
| step_set_ws_team: "set_ws_team d a w t wr e now = Inr d' \<Longrightarrow> admin_step d d'"
| step_remove_ws_team: "remove_ws_team d a w t e now = Inr d' \<Longrightarrow> admin_step d d'"
| step_create_invitation: "create_invitation d a email g ttl mail_on defer i e now = Inr (d', x) \<Longrightarrow>
    i \<notin> inv_id ` set (invitations d) \<Longrightarrow> admin_step d d'"
| step_resend_invitation: "resend_invitation d a i ttl mail_on defer e now = Inr d' \<Longrightarrow> admin_step d d'"
| step_revoke_invitation: "revoke_invitation d a i e now = Inr d' \<Longrightarrow> admin_step d d'"
| step_accept: "accept_invitations d i now ids = (d', joined) \<Longrightarrow> admin_step d d'"

inductive_cases admin_stepE: "admin_step d d'"

section \<open>The audit log\<close>

text \<open>What an operation of an actor does to the log: nothing at all, or one event at its end that names the actor.\<close>

definition by_actor :: "actor \<Rightarrow> audit_event \<Rightarrow> bool" where
  "by_actor a e \<longleftrightarrow> ae_org_id e = ac_org_id a \<and> ae_actor_user_id e = Some (ac_user_id a)"

definition logs_one :: "actor \<Rightarrow> db \<Rightarrow> db \<Rightarrow> bool" where
  "logs_one a d d' \<longleftrightarrow> d' = d \<or> (\<exists>e. by_actor a e \<and> audit_events d' = audit_events d @ [e])"

lemma logs_one_record:
  "audit_events x = audit_events d \<Longrightarrow> logs_one a d (audit_record x a w t i wid det e now)"
  by (simp add: logs_one_def by_actor_def audit_record_def)

lemma logs_one_refl: "logs_one a d d"
  by (simp add: logs_one_def)

lemma audit_frames [simp]:
  "audit_events (set_org_role d o' i r) = audit_events d"
  "audit_events (drop_member d o' i now) = audit_events d"
  "audit_events (set_invitation d i g) = audit_events d"
  "audit_events (queue_email d x b c) = audit_events d"
  "audit_events (raise_org_role o' i r now d) = audit_events d"
  "audit_events (raise_ws_role o' w i wr now d) = audit_events d"
  by (simp_all add: set_org_role_def drop_member_def set_invitation_def queue_email_def Let_def
      raise_org_role_def raise_ws_role_def)

lemma accept_one_log:
  "audit_events (accept_one u email now ix d) = audit_events d @ [joined_event (fst ix) u email (snd ix) now]"
  by (simp add: accept_one_def Let_def split: prod.splits option.splits)

lemma fold_accept_log:
  "\<exists>es. audit_events (fold (accept_one u email now) ixs d) = audit_events d @ es \<and> length es = length ixs"
proof (induction ixs arbitrary: d)
  case (Cons ix ixs)
  obtain es where "audit_events (fold (accept_one u email now) ixs (accept_one u email now ix d))
      = audit_events (accept_one u email now ix d) @ es" "length es = length ixs"
    using Cons.IH by blast
  then show ?case by (simp add: accept_one_log)
qed simp

lemma accept_invitations_fold:
  "accept_invitations d i now ids = (d', joined) \<Longrightarrow>
   d' = d \<or> (\<exists>email. d' = fold (accept_one i email now) (zip (acceptable d email now) ids) d)"
  by (cases "List.find (\<lambda>u. us_id u = i \<and> us_disabled_at u = None) (users d)")
    (auto simp: accept_invitations_def Let_def)

lemma create_invitation_log:
  "create_invitation d a email g ttl mail_on defer i e now = Inr (d', x) \<Longrightarrow> logs_one a d d'"
  by (auto simp: create_invitation_def result_simps Let_def split: option.splits if_splits prod.splits
      intro!: logs_one_record)

lemma remove_team_member_log: "remove_team_member d a t i e now = Inr d' \<Longrightarrow> logs_one a d d'"
  by (auto simp: remove_team_member_def result_simps split: option.splits bool.splits prod.splits
      intro!: logs_one_record)

lemma change_role_log: "change_role d a r i new e now = Inr (d', m) \<Longrightarrow> logs_one a d d'"
  by (auto simp: change_role_def result_simps Let_def split: if_splits option.splits bool.splits intro!: logs_one_record logs_one_refl)

lemma remove_member_log: "remove_member d a r i e now = Inr d' \<Longrightarrow> logs_one a d d'"
  by (auto simp: remove_member_def result_simps Let_def split: if_splits option.splits bool.splits intro!: logs_one_record logs_one_refl)

lemma rename_org_log: "rename_org d a nm e now = Inr (d', x) \<Longrightarrow> logs_one a d d'"
  by (auto simp: rename_org_def result_simps Let_def split: if_splits option.splits bool.splits intro!: logs_one_record logs_one_refl)

lemma create_team_log: "create_team d a nm t e now = Inr (d', x) \<Longrightarrow> logs_one a d d'"
  by (auto simp: create_team_def result_simps Let_def split: if_splits option.splits bool.splits intro!: logs_one_record logs_one_refl)

lemma rename_team_log: "rename_team d a t nm e now = Inr (d', x) \<Longrightarrow> logs_one a d d'"
  by (auto simp: rename_team_def result_simps Let_def split: if_splits option.splits bool.splits intro!: logs_one_record logs_one_refl)

lemma delete_team_log: "delete_team d a t e now = Inr d' \<Longrightarrow> logs_one a d d'"
  by (auto simp: delete_team_def result_simps Let_def split: if_splits option.splits bool.splits intro!: logs_one_record logs_one_refl)

lemma add_team_member_log: "add_team_member d a t i e now = Inr d' \<Longrightarrow> logs_one a d d'"
  by (auto simp: add_team_member_def result_simps Let_def split: if_splits option.splits bool.splits intro!: logs_one_record logs_one_refl)

lemma create_workspace_log: "create_workspace d known a nm tz w e now = Inr (d', x) \<Longrightarrow> logs_one a d d'"
  by (auto simp: create_workspace_def result_simps Let_def split: if_splits option.splits bool.splits intro!: logs_one_record logs_one_refl)

lemma update_workspace_log: "update_workspace d known a w nm tz e now = Inr (d', x) \<Longrightarrow> logs_one a d d'"
  by (auto simp: update_workspace_def result_simps Let_def split: if_splits option.splits bool.splits intro!: logs_one_record logs_one_refl)

lemma delete_workspace_log: "delete_workspace d a w e now = Inr d' \<Longrightarrow> logs_one a d d'"
  by (auto simp: delete_workspace_def result_simps Let_def split: if_splits option.splits bool.splits intro!: logs_one_record logs_one_refl)

lemma set_ws_member_log: "set_ws_member d a w i wr e now = Inr d' \<Longrightarrow> logs_one a d d'"
  by (auto simp: set_ws_member_def result_simps Let_def split: if_splits option.splits bool.splits intro!: logs_one_record logs_one_refl)

lemma remove_ws_member_log: "remove_ws_member d a w i e now = Inr d' \<Longrightarrow> logs_one a d d'"
  by (auto simp: remove_ws_member_def result_simps Let_def split: if_splits option.splits bool.splits intro!: logs_one_record logs_one_refl)

lemma set_ws_team_log: "set_ws_team d a w t wr e now = Inr d' \<Longrightarrow> logs_one a d d'"
  by (auto simp: set_ws_team_def result_simps Let_def split: if_splits option.splits bool.splits intro!: logs_one_record logs_one_refl)

lemma remove_ws_team_log: "remove_ws_team d a w t e now = Inr d' \<Longrightarrow> logs_one a d d'"
  by (auto simp: remove_ws_team_def result_simps Let_def split: if_splits option.splits bool.splits intro!: logs_one_record logs_one_refl)

lemma resend_invitation_log: "resend_invitation d a i ttl b c e now = Inr d' \<Longrightarrow> logs_one a d d'"
  by (auto simp: resend_invitation_def result_simps Let_def split: if_splits option.splits bool.splits intro!: logs_one_record logs_one_refl)

lemma revoke_invitation_log: "revoke_invitation d a i e now = Inr d' \<Longrightarrow> logs_one a d d'"
  by (auto simp: revoke_invitation_def result_simps Let_def split: if_splits option.splits bool.splits intro!: logs_one_record logs_one_refl)

lemma admin_step_log:
  assumes "admin_step d d'"
  shows "d' = d \<or> (\<exists>e es. audit_events d' = audit_events d @ e # es)"
proof -
  have one: "logs_one a d d' \<Longrightarrow> ?thesis" for a by (auto simp: logs_one_def)
  show ?thesis using assms
  proof cases
    case (step_accept i now ids joined)
    show ?thesis
    proof (cases "d' = d")
      case False
      with accept_invitations_fold [OF step_accept] obtain email
        where d': "d' = fold (accept_one i email now) (zip (acceptable d email now) ids) d" by blast
      obtain es where es: "audit_events d' = audit_events d @ es"
          "length es = length (zip (acceptable d email now) ids)"
        using fold_accept_log d' by metis
      have "es \<noteq> []"
      proof
        assume "es = []"
        then have nil: "zip (acceptable d email now) ids = []" using es(2) by (metis length_0_conv)
        from d' have "d' = d" unfolding nil by simp
        with False show False by simp
      qed
      then show ?thesis using es(1) by (cases es) auto
    qed simp
  qed (rule one, blast intro: create_invitation_log remove_team_member_log change_role_log remove_member_log rename_org_log create_team_log rename_team_log delete_team_log add_team_member_log create_workspace_log update_workspace_log delete_workspace_log set_ws_member_log remove_ws_member_log set_ws_team_log remove_ws_team_log resend_invitation_log revoke_invitation_log)+
qed

interpretation audit_log: append_log audit_events admin_step
proof
  show "prefix (audit_events d) (audit_events d')" if "admin_step d d'" for d d'
    using admin_step_log [OF that] by auto
qed

section \<open>Keys, names and open invitations\<close>

definition open_key :: "invitation \<Rightarrow> uuid \<times> string" where
  "open_key i = (inv_org_id i, inv_email i)"

definition invitations_ok :: "invitation list \<Rightarrow> bool" where
  "invitations_ok is \<longleftrightarrow> uniq_key inv_id is \<and> uniq_key open_key (filter is_open is)"

definition admin_inv :: "db \<Rightarrow> bool" where
  "admin_inv d \<longleftrightarrow>
     members_ok d \<and>
     names_unique tm_id tm_org_id tm_name (teams d) \<and>
     names_unique ws_id ws_org_id ws_name (workspaces d) \<and>
     uniq_key (\<lambda>m. (wm_workspace_id m, wm_user_id m)) (workspace_memberships d) \<and>
     uniq_key (\<lambda>m. (tmm_team_id m, tmm_user_id m)) (team_members d) \<and>
     uniq_key (\<lambda>r. (wt_workspace_id r, wt_team_id r)) (workspace_team_roles d) \<and>
     invitations_ok (invitations d)"

lemma members_ok_cong:
  "users d' = users d \<Longrightarrow> org_memberships d' = org_memberships d \<Longrightarrow> members_ok d' = members_ok d"
  by (simp add: members_ok_def)

lemma admin_inv_cong:
  "\<lbrakk>users d' = users d; org_memberships d' = org_memberships d; teams d' = teams d; workspaces d' = workspaces d;
    workspace_memberships d' = workspace_memberships d; team_members d' = team_members d;
    workspace_team_roles d' = workspace_team_roles d; invitations d' = invitations d\<rbrakk> \<Longrightarrow> admin_inv d' = admin_inv d"
  by (simp add: admin_inv_def members_ok_def)

lemma admin_inv_audit [simp]: "admin_inv (audit_record d a x y i w e n t) = admin_inv d"
  by (rule admin_inv_cong) (simp_all add: audit_record_def)

lemma admin_inv_event [simp]: "admin_inv (d\<lparr>audit_events := es\<rparr>) = admin_inv d"
  by (rule admin_inv_cong) simp_all

lemma admin_inv_orgs [simp]: "admin_inv (d\<lparr>orgs := x\<rparr>) = admin_inv d"
  by (rule admin_inv_cong) simp_all

lemma admin_inv_jobs [simp]: "admin_inv (d\<lparr>jobs := x\<rparr>) = admin_inv d"
  by (rule admin_inv_cong) simp_all

text \<open>Filtering rows that only leave the filter keeps a partial key.\<close>

lemma filter_update_keys:
  "(\<And>r. r \<in> set t \<Longrightarrow> q r \<Longrightarrow> P (f r) \<Longrightarrow> P r \<and> k (f r) = k r) \<Longrightarrow>
   uniq_key k (filter P t) \<Longrightarrow> uniq_key k (filter P (update_where q f t)) \<and>
   k ` set (filter P (update_where q f t)) \<subseteq> k ` set (filter P t)"
proof (induction t)
  case (Cons r t)
  have u: "uniq_key k (filter P t)" using Cons.prems(2) by (simp add: uniq_key_def split: if_splits)
  have IH: "uniq_key k (filter P (update_where q f t))"
    "k ` set (filter P (update_where q f t)) \<subseteq> k ` set (filter P t)"
    using Cons.IH [OF Cons.prems(1) u] by auto
  let ?r = "if q r then f r else r"
  have step: "update_where q f (r # t) = ?r # update_where q f t" by (simp add: update_where_def)
  show ?case
  proof (cases "P ?r")
    case True
    then have r: "P r" "k ?r = k r" using Cons.prems(1) [of r] by (auto split: if_splits)
    then have "k r \<notin> k ` set (filter P t)" using Cons.prems(2) by (simp add: uniq_key_def)
    with IH r True show ?thesis unfolding step by (auto simp: uniq_key_def)
  next
    case False
    with IH show ?thesis unfolding step by auto
  qed
qed (simp add: update_where_def)

lemma invitations_ok_update:
  assumes "invitations_ok is"
    and "\<And>r. r \<in> set is \<Longrightarrow> inv_id r = i \<Longrightarrow> inv_id (f r) = inv_id r \<and> (is_open (f r) \<longrightarrow> is_open r \<and> open_key (f r) = open_key r)"
  shows "invitations_ok (update_where (\<lambda>x. inv_id x = i) f is)"
proof -
  have "uniq_key inv_id (update_where (\<lambda>x. inv_id x = i) f is)"
    using assms by (intro uniq_key_update_where) (auto simp: invitations_ok_def)
  moreover have "uniq_key open_key (filter is_open (update_where (\<lambda>x. inv_id x = i) f is))"
    using assms by (intro conjunct1 [OF filter_update_keys]) (auto simp: invitations_ok_def)
  ultimately show ?thesis by (simp add: invitations_ok_def)
qed

lemma invitations_ok_delete: "invitations_ok is \<Longrightarrow> invitations_ok (delete_where p is)"
proof -
  assume ok: "invitations_ok is"
  have "filter is_open (delete_where p is) = delete_where p (filter is_open is)"
    by (simp add: delete_where_def conj_commute)
  with ok show ?thesis by (simp add: invitations_ok_def)
qed

lemma invitations_ok_insert:
  "invitations_ok is \<Longrightarrow> inv_id x \<notin> inv_id ` set is \<Longrightarrow> \<not> (\<exists>y \<in> set is. is_open y \<and> open_key y = open_key x) \<Longrightarrow>
   invitations_ok (is @ [x])"
  by (auto simp: invitations_ok_def uniq_key_def)

lemma queue_email_invitations:
  "invitations (queue_email d x b c) = update_where (\<lambda>y. inv_id y = inv_id x)
     (\<lambda>y. y\<lparr>inv_email_status := (if b then MailQueued else MailNotConfigured), inv_email_error := None\<rparr>) (invitations d)"
  by (simp add: queue_email_def set_invitation_def Let_def)

lemma admin_inv_queue_email: "admin_inv d \<Longrightarrow> admin_inv (queue_email d x b c)"
proof -
  assume inv: "admin_inv d"
  have "invitations_ok (invitations (queue_email d x b c))" unfolding queue_email_invitations
    using inv by (intro invitations_ok_update) (auto simp: admin_inv_def is_open_def open_key_def)
  with inv show ?thesis by (simp add: admin_inv_def members_ok_def queue_email_def set_invitation_def Let_def)
qed

lemma admin_inv_set_invitation:
  "admin_inv d \<Longrightarrow> (\<And>r. inv_id (f r) = inv_id r \<and> (is_open (f r) \<longrightarrow> is_open r \<and> open_key (f r) = open_key r)) \<Longrightarrow>
   admin_inv (set_invitation d i f)"
  by (auto simp: admin_inv_def set_invitation_def members_ok_def intro!: invitations_ok_update)

lemma admin_inv_raise_org: "admin_inv d \<Longrightarrow> admin_inv (raise_org_role o' i r now d)"
  by (auto simp: admin_inv_def members_ok_def raise_org_role_def intro!: uniq_key_upsert)

lemma admin_inv_raise_ws: "admin_inv d \<Longrightarrow> admin_inv (raise_ws_role o' w i r now d)"
  by (auto simp: admin_inv_def members_ok_def raise_ws_role_def intro!: uniq_key_upsert)

lemma admin_inv_accept_one: "admin_inv d \<Longrightarrow> admin_inv (accept_one u email now ix d)"
  by (auto simp: accept_one_def Let_def is_open_def split: prod.splits option.splits
      intro!: admin_inv_set_invitation admin_inv_raise_ws admin_inv_raise_org)

lemma admin_inv_accept: "admin_inv d \<Longrightarrow> admin_inv (fold (accept_one u email now) ixs d)"
  by (induction ixs arbitrary: d) (simp_all add: admin_inv_accept_one)

section \<open>Every operation keeps the invariant\<close>

lemma get_teamD: "get_team d o' t = Inr x \<Longrightarrow> x \<in> set (teams d) \<and> tm_org_id x = o' \<and> tm_id x = t"
  unfolding get_team_def by (auto dest: find_SomeD)

lemma get_workspaceD: "get_workspace d o' w = Inr x \<Longrightarrow> x \<in> set (workspaces d) \<and> ws_org_id x = o' \<and> ws_id x = w"
  unfolding get_workspace_def by (auto dest: find_SomeD)

lemma admin_inv_change_role:
  "change_role d a r i new e now = Inr (d', m) \<Longrightarrow> admin_inv d \<Longrightarrow> admin_inv d'"
proof -
  assume run: "change_role d a r i new e now = Inr (d', m)" and inv: "admin_inv d"
  have "admin_inv (set_org_role d o' i new)" for o'
    using inv members_ok_set_role [of d o' i new] by (simp add: admin_inv_def set_org_role_def)
  with run inv show ?thesis by (auto simp: change_role_def result_simps split: if_splits)
qed

lemma admin_inv_remove_member: "remove_member d a r i e now = Inr d' \<Longrightarrow> admin_inv d \<Longrightarrow> admin_inv d'"
proof -
  assume run: "remove_member d a r i e now = Inr d'" and inv: "admin_inv d"
  have "admin_inv (drop_member d o' i now)" for o'
    using inv members_ok_drop [of d o' i now] by (simp add: admin_inv_def drop_member_def)
  with run show ?thesis by (auto simp: remove_member_def result_simps)
qed

lemma admin_inv_rename_org: "rename_org d a nm e now = Inr (d', x) \<Longrightarrow> admin_inv d \<Longrightarrow> admin_inv d'"
  by (auto simp: rename_org_def result_simps split: if_splits)

lemma admin_inv_teams:
  "admin_inv d \<Longrightarrow> names_unique tm_id tm_org_id tm_name ts \<Longrightarrow> admin_inv (d\<lparr>teams := ts\<rparr>)"
  by (simp add: admin_inv_def members_ok_def)

lemma admin_inv_workspaces:
  "admin_inv d \<Longrightarrow> names_unique ws_id ws_org_id ws_name x \<Longrightarrow> admin_inv (d\<lparr>workspaces := x\<rparr>)"
  by (simp add: admin_inv_def members_ok_def)

lemma admin_inv_create_team:
  assumes "create_team d a nm t e now = Inr (d', x)" and "t \<notin> tm_id ` set (teams d)" and "admin_inv d"
  shows "admin_inv d'"
proof -
  from assms(1) obtain n where n: "\<not> name_taken tm_id tm_org_id tm_name (teams d) (ac_org_id a) n None"
    "d' = audit_record (d\<lparr>teams := teams d @ [\<lparr>tm_org_id = ac_org_id a, tm_id = t, tm_name = n, tm_created_at = now\<rparr>]\<rparr>)
        a ''team.created'' ''team'' t None [(''name'', JStr n)] e now"
    by (auto simp: create_team_def team_name_free_def result_simps Let_def)
  have "names_unique tm_id tm_org_id tm_name (teams d @ [\<lparr>tm_org_id = ac_org_id a, tm_id = t, tm_name = n, tm_created_at = now\<rparr>])"
    using n(1) assms(2,3) by (intro team_names.insert_keeps) (auto simp: admin_inv_def)
  with assms(3) show ?thesis by (simp add: n(2) admin_inv_teams)
qed

lemma admin_inv_rename_team:
  assumes "rename_team d a t nm e now = Inr (d', x)" and "admin_inv d"
  shows "admin_inv d'"
proof -
  from assms(1) obtain y where y: "get_team d (ac_org_id a) t = Inr y" by (auto simp: rename_team_def result_simps)
  note yd = get_teamD [OF y]
  show ?thesis
  proof (cases "d' = d")
    case False
    with assms(1) y obtain n where n: "\<not> name_taken tm_id tm_org_id tm_name (teams d) (tm_org_id y) n (Some (tm_id y))"
      "d' = audit_record (d\<lparr>teams := update_where (\<lambda>x. tm_id x = tm_id y) (\<lambda>x. x\<lparr>tm_name := n\<rparr>) (teams d)\<rparr>)
         a ''team.renamed'' ''team'' (tm_id y) None (change (JStr (tm_name y)) (JStr n)) e now"
      using yd by (auto simp: rename_team_def team_name_free_def result_simps split: if_splits)
    have "names_unique tm_id tm_org_id tm_name (update_where (\<lambda>x. tm_id x = tm_id y) (\<lambda>x. x\<lparr>tm_name := n\<rparr>) (teams d))"
      using n(1) assms(2) yd by (intro team_names.rename_keeps) (auto simp: admin_inv_def)
    with assms(2) show ?thesis by (simp add: n(2) admin_inv_teams)
  qed (use assms(2) in simp)
qed

lemma admin_inv_delete_team: "delete_team d a t e now = Inr d' \<Longrightarrow> admin_inv d \<Longrightarrow> admin_inv d'"
  by (auto simp: delete_team_def result_simps) (simp add: admin_inv_def members_ok_def team_names.delete_keeps)

lemma admin_inv_add_team_member: "add_team_member d a t i e now = Inr d' \<Longrightarrow> admin_inv d \<Longrightarrow> admin_inv d'"
  by (auto simp: add_team_member_def result_simps in_team_def split: if_splits)
    (auto simp: admin_inv_def members_ok_def)

lemma admin_inv_remove_team_member: "remove_team_member d a t i e now = Inr d' \<Longrightarrow> admin_inv d \<Longrightarrow> admin_inv d'"
  by (auto simp: remove_team_member_def result_simps split: bool.splits option.splits prod.splits)
    (auto simp: admin_inv_def members_ok_def)

lemma admin_inv_create_workspace:
  assumes "create_workspace d known a nm tz w e now = Inr (d', x)" and "w \<notin> ws_id ` set (workspaces d)" and "admin_inv d"
  shows "admin_inv d'"
proof -
  from assms(1) obtain n z where n: "\<not> name_taken ws_id ws_org_id ws_name (workspaces d) (ac_org_id a) n None"
    "d' = audit_record (d\<lparr>workspaces := workspaces d @ [\<lparr>ws_id = w, ws_org_id = ac_org_id a, ws_name = n, ws_timezone = z, ws_created_at = now\<rparr>]\<rparr>)
        a ''workspace.created'' ''workspace'' w (Some w) [(''name'', JStr n), (''timezone'', JStr z)] e now"
    by (auto simp: create_workspace_def workspace_name_free_def result_simps Let_def)
  have "names_unique ws_id ws_org_id ws_name (workspaces d @ [\<lparr>ws_id = w, ws_org_id = ac_org_id a, ws_name = n, ws_timezone = z, ws_created_at = now\<rparr>])"
    using n(1) assms(2,3) by (intro workspace_names.insert_keeps) (auto simp: admin_inv_def)
  with assms(3) show ?thesis by (simp add: n(2) admin_inv_workspaces)
qed

text \<open>A new time zone changes no name.\<close>

lemma names_unique_timezone:
  fixes t :: "workspace list"
  assumes "names_unique ws_id ws_org_id ws_name (update_where p (\<lambda>w. w\<lparr>ws_name := n\<rparr>) t)"
  shows "names_unique ws_id ws_org_id ws_name (update_where p (\<lambda>w. w\<lparr>ws_name := n, ws_timezone := z\<rparr>) t)"
proof -
  have "map ws_id (update_where p (\<lambda>w. w\<lparr>ws_name := n, ws_timezone := z\<rparr>) t) = map ws_id (update_where p (\<lambda>w. w\<lparr>ws_name := n\<rparr>) t)"
    "map (\<lambda>w. (ws_org_id w, ws_name w)) (update_where p (\<lambda>w. w\<lparr>ws_name := n, ws_timezone := z\<rparr>) t)
      = map (\<lambda>w. (ws_org_id w, ws_name w)) (update_where p (\<lambda>w. w\<lparr>ws_name := n\<rparr>) t)"
    by (simp_all add: update_where_def)
  with assms show ?thesis unfolding names_unique_def uniq_key_def by (simp only:)
qed

lemma admin_inv_update_workspace:
  assumes "update_workspace d known a w nm tz e now = Inr (d', x)" and "admin_inv d"
  shows "admin_inv d'"
proof -
  from assms(1) obtain y where y: "get_workspace d (ac_org_id a) w = Inr y" by (auto simp: update_workspace_def result_simps)
  note yd = get_workspaceD [OF y]
  show ?thesis
  proof (cases "d' = d")
    case False
    with assms(1) y obtain n z where n: "n \<noteq> ws_name y \<longrightarrow> \<not> name_taken ws_id ws_org_id ws_name (workspaces d) (ws_org_id y) n (Some (ws_id y))"
      "d' = audit_record (d\<lparr>workspaces := update_where (\<lambda>x. ws_id x = ws_id y) (\<lambda>x. x\<lparr>ws_name := n, ws_timezone := z\<rparr>) (workspaces d)\<rparr>)
         a ''workspace.updated'' ''workspace'' (ws_id y) (Some (ws_id y)) (changed_details y n z) e now"
      using yd by (auto simp: update_workspace_def workspace_name_free_def result_simps split: if_splits)
    have "\<not> name_taken ws_id ws_org_id ws_name (workspaces d) (ws_org_id y) n (Some (ws_id y))"
    proof (cases "n = ws_name y")
      case True
      have u: "uniq_key (\<lambda>r. (ws_org_id r, ws_name r)) (workspaces d)" using assms(2) by (simp add: admin_inv_def names_unique_def)
      have "List.find (\<lambda>r. ws_org_id r = ws_org_id y \<and> ws_name r = n) (workspaces d) = Some y"
        by (rule find_uniq) (use yd True uniq_keyD [OF u, of _ y] in auto)
      then show ?thesis by (simp add: name_taken_def)
    qed (use n(1) in simp)
    then have "names_unique ws_id ws_org_id ws_name (update_where (\<lambda>x. ws_id x = ws_id y) (\<lambda>x. x\<lparr>ws_name := n\<rparr>) (workspaces d))"
      using assms(2) yd by (intro workspace_names.rename_keeps) (auto simp: admin_inv_def)
    with assms(2) show ?thesis by (simp add: n(2) admin_inv_workspaces names_unique_timezone)
  qed (use assms(2) in simp)
qed

lemma admin_inv_delete_workspace: "delete_workspace d a w e now = Inr d' \<Longrightarrow> admin_inv d \<Longrightarrow> admin_inv d'"
  by (auto simp: delete_workspace_def result_simps)
    (simp add: admin_inv_def members_ok_def workspace_names.delete_keeps invitations_ok_delete)

lemma admin_inv_set_ws_member: "set_ws_member d a w i wr e now = Inr d' \<Longrightarrow> admin_inv d \<Longrightarrow> admin_inv d'"
proof -
  assume run: "set_ws_member d a w i wr e now = Inr d'" and inv: "admin_inv d"
  let ?k = "\<lambda>m. (wm_workspace_id m, wm_user_id m)"
  have k: "uniq_key ?k (workspace_memberships d)" using inv by (simp add: admin_inv_def)
  have up: "uniq_key ?k (update_where (is_ws_grant w i) (\<lambda>m. m\<lparr>wm_role := wr\<rparr>) (workspace_memberships d))"
    by (rule uniq_key_update_where [OF k]) simp
  show ?thesis
  proof (cases "List.find (is_ws_grant w i) (workspace_memberships d)")
    case None
    then have "\<forall>m \<in> set (workspace_memberships d). \<not> is_ws_grant w i m" by (auto simp: find_None_iff)
    with run inv k None show ?thesis
      by (auto simp: set_ws_member_def result_simps Let_def) (auto simp: admin_inv_def members_ok_def is_ws_grant_def)
  next
    case (Some g)
    with run inv up show ?thesis
      by (auto simp: set_ws_member_def result_simps Let_def split: if_splits) (simp add: admin_inv_def members_ok_def)
  qed
qed

lemma admin_inv_remove_ws_member: "remove_ws_member d a w i e now = Inr d' \<Longrightarrow> admin_inv d \<Longrightarrow> admin_inv d'"
  by (auto simp: remove_ws_member_def result_simps) (simp add: admin_inv_def members_ok_def)

lemma admin_inv_set_ws_team: "set_ws_team d a w t wr e now = Inr d' \<Longrightarrow> admin_inv d \<Longrightarrow> admin_inv d'"
proof -
  assume run: "set_ws_team d a w t wr e now = Inr d'" and inv: "admin_inv d"
  let ?k = "\<lambda>r. (wt_workspace_id r, wt_team_id r)"
  have k: "uniq_key ?k (workspace_team_roles d)" using inv by (simp add: admin_inv_def)
  have up: "uniq_key ?k (update_where (is_team_grant w t) (\<lambda>m. m\<lparr>wt_role := wr\<rparr>) (workspace_team_roles d))"
    by (rule uniq_key_update_where [OF k]) simp
  show ?thesis
  proof (cases "List.find (is_team_grant w t) (workspace_team_roles d)")
    case None
    then have "\<forall>m \<in> set (workspace_team_roles d). \<not> is_team_grant w t m" by (auto simp: find_None_iff)
    with run inv k None show ?thesis
      by (auto simp: set_ws_team_def result_simps Let_def) (auto simp: admin_inv_def members_ok_def is_team_grant_def)
  next
    case (Some g)
    with run inv up show ?thesis
      by (auto simp: set_ws_team_def result_simps Let_def split: if_splits) (simp add: admin_inv_def members_ok_def)
  qed
qed

lemma admin_inv_remove_ws_team: "remove_ws_team d a w t e now = Inr d' \<Longrightarrow> admin_inv d \<Longrightarrow> admin_inv d'"
  by (auto simp: remove_ws_team_def result_simps) (simp add: admin_inv_def members_ok_def)

lemma admin_inv_resend: "resend_invitation d a i ttl b c e now = Inr d' \<Longrightarrow> admin_inv d \<Longrightarrow> admin_inv d'"
  by (auto simp: resend_invitation_def result_simps is_open_def open_key_def
      intro!: admin_inv_queue_email admin_inv_set_invitation)

lemma admin_inv_revoke: "revoke_invitation d a i e now = Inr d' \<Longrightarrow> admin_inv d \<Longrightarrow> admin_inv d'"
  by (auto simp: revoke_invitation_def result_simps is_open_def intro!: admin_inv_set_invitation)

text \<open>The invitation that is replaced is revoked first, so that the new one is the only open one.\<close>

lemma created_invitation:
  assumes "create_invitation d a email g ttl mail_on later i e now = Inr (d', x)"
  obtains d1 where "inv_id x = i" "is_open x" "audit_events d1 = audit_events d"
    "d1 = d \<and> (\<forall>y \<in> set (invitations d). \<not> open_for (inv_org_id x) (inv_email x) y)
     \<or> (\<exists>y. List.find (open_for (inv_org_id x) (inv_email x)) (invitations d) = Some y \<and> status_of y now = Expired
           \<and> d1 = set_invitation d (inv_id y) (\<lambda>y. y\<lparr>inv_revoked_at := Some now\<rparr>))"
    "\<exists>w det. d' = audit_record (queue_email (d1\<lparr>invitations := invitations d1 @ [x]\<rparr>) x mail_on later)
        a ''invitation.created'' ''invitation'' i w det e now"
proof -
  from assms obtain em rl wr wk d1 where r: "normalise_email email = Inr em" "check_grant g = Inr (rl, wr)"
    "(case List.find (open_for (ac_org_id a) em) (invitations d) of
              None \<Rightarrow> Inr d
            | Some x \<Rightarrow> (if status_of x now = Pending then Inl (Conflict ''invitation_pending'')
                else Inr (set_invitation d (inv_id x) (\<lambda>y. y\<lparr>inv_revoked_at := Some now\<rparr>)))) = Inr d1"
    "x = \<lparr>inv_org_id = ac_org_id a, inv_id = i, inv_email = em, inv_org_role = rl,
                inv_workspace_id = gr_workspace_id g, inv_workspace_role = wr, inv_invited_by = ac_user_id a,
                inv_created_at = now, inv_expires_at = now + ttl, inv_accepted_at = None,
                inv_accepted_user_id = None, inv_revoked_at = None, inv_email_status = MailNotConfigured,
                inv_email_error = None\<rparr>"
    "d' = audit_record (queue_email (d1\<lparr>invitations := invitations d1 @ [x]\<rparr>) x mail_on later)
        a ''invitation.created'' ''invitation'' i (gr_workspace_id g) (inv_details em g wk) e now"
    by (auto simp: create_invitation_def result_simps Let_def simp del: split_paired_All split_paired_Ex)
  show ?thesis
  proof (rule that)
    show "d1 = d \<and> (\<forall>y \<in> set (invitations d). \<not> open_for (inv_org_id x) (inv_email x) y)
     \<or> (\<exists>y. List.find (open_for (inv_org_id x) (inv_email x)) (invitations d) = Some y \<and> status_of y now = Expired
           \<and> d1 = set_invitation d (inv_id y) (\<lambda>y. y\<lparr>inv_revoked_at := Some now\<rparr>))"
      using r(3) by (auto simp: r(4) find_None_iff status_of_def open_for_def is_open_def
          dest!: find_SomeD split: option.splits if_splits)
    show "audit_events d1 = audit_events d" using r(3) by (auto split: option.splits if_splits)
    show "\<exists>w det. d' = audit_record (queue_email (d1\<lparr>invitations := invitations d1 @ [x]\<rparr>) x mail_on later)
        a ''invitation.created'' ''invitation'' i w det e now" using r(5) by blast
  qed (simp_all add: r(4) is_open_def)
qed

lemma admin_inv_insert_invitation:
  "admin_inv d \<Longrightarrow> inv_id x \<notin> inv_id ` set (invitations d) \<Longrightarrow> (\<forall>y \<in> set (invitations d). \<not> open_for (inv_org_id x) (inv_email x) y) \<Longrightarrow>
   admin_inv (d\<lparr>invitations := invitations d @ [x]\<rparr>)"
  by (simp add: admin_inv_def members_ok_def)
    (intro invitations_ok_insert, auto simp: open_for_def open_key_def)

lemma open_for_uniq:
  assumes inv: "admin_inv d" and f: "List.find (open_for o' em) (invitations d) = Some y"
    and z: "z \<in> set (invitations d)" "open_for o' em z"
  shows "z = y"
proof -
  note fd = find_SomeD [OF f]
  have "uniq_key open_key (filter is_open (invitations d))" using inv by (simp add: admin_inv_def invitations_ok_def)
  from uniq_keyD [OF this, of z y] show ?thesis using fd z by (auto simp: open_for_def open_key_def)
qed

lemma admin_inv_create_invitation:
  assumes run: "create_invitation d a email g ttl mail_on later i e now = Inr (d', x)"
    and fresh: "i \<notin> inv_id ` set (invitations d)" and inv: "admin_inv d"
  shows "admin_inv d'"
proof -
  obtain d1 where x: "inv_id x = i" and d1: "d1 = d \<and> (\<forall>y \<in> set (invitations d). \<not> open_for (inv_org_id x) (inv_email x) y)
     \<or> (\<exists>y. List.find (open_for (inv_org_id x) (inv_email x)) (invitations d) = Some y \<and> status_of y now = Expired
           \<and> d1 = set_invitation d (inv_id y) (\<lambda>y. y\<lparr>inv_revoked_at := Some now\<rparr>))"
    and d': "\<exists>w det. d' = audit_record (queue_email (d1\<lparr>invitations := invitations d1 @ [x]\<rparr>) x mail_on later)
        a ''invitation.created'' ''invitation'' i w det e now"
    by (rule created_invitation [OF run])
  have "admin_inv d1 \<and> inv_id x \<notin> inv_id ` set (invitations d1) \<and> (\<forall>y \<in> set (invitations d1). \<not> open_for (inv_org_id x) (inv_email x) y)"
    using d1
  proof (elim disjE exE conjE)
    fix y assume y: "List.find (open_for (inv_org_id x) (inv_email x)) (invitations d) = Some y"
      and eq: "d1 = set_invitation d (inv_id y) (\<lambda>y. y\<lparr>inv_revoked_at := Some now\<rparr>)"
    have "admin_inv d1" unfolding eq by (rule admin_inv_set_invitation [OF inv]) (simp add: is_open_def)
    moreover have "\<forall>z \<in> set (invitations d1). \<not> open_for (inv_org_id x) (inv_email x) z"
    proof -
      have "\<not> open_for (inv_org_id x) (inv_email x) z" if "z \<in> set (invitations d)" "inv_id z \<noteq> inv_id y" for z
        using open_for_uniq [OF inv y] that by blast
      then show ?thesis by (auto simp: eq set_invitation_def) (simp add: open_for_def is_open_def)
    qed
    moreover have "inv_id x \<notin> inv_id ` set (invitations d1)"
    proof -
      have "map inv_id (invitations d1) = map inv_id (invitations d)" by (simp add: eq set_invitation_def map_update_where_same)
      with fresh x show ?thesis by (metis list.set_map)
    qed
    ultimately show ?thesis by blast
  qed (use inv fresh x in simp)
  then have "admin_inv (queue_email (d1\<lparr>invitations := invitations d1 @ [x]\<rparr>) x mail_on later)"
    by (intro admin_inv_queue_email admin_inv_insert_invitation) auto
  with d' show ?thesis by auto
qed

lemma admin_step_inv: "admin_step d d' \<Longrightarrow> admin_inv d \<Longrightarrow> admin_inv d'"
proof (erule admin_step.cases; hypsubst)
  fix dd d'' i now ids joined
  assume "accept_invitations dd i now ids = (d'', joined)" "admin_inv dd"
  then show "admin_inv d''" using accept_invitations_fold admin_inv_accept by blast
qed (blast intro: admin_inv_change_role admin_inv_remove_member admin_inv_rename_org admin_inv_create_team
    admin_inv_rename_team admin_inv_delete_team admin_inv_add_team_member admin_inv_remove_team_member
    admin_inv_create_workspace admin_inv_update_workspace admin_inv_delete_workspace admin_inv_set_ws_member
    admin_inv_remove_ws_member admin_inv_set_ws_team admin_inv_remove_ws_team admin_inv_create_invitation
    admin_inv_resend admin_inv_revoke)+

section \<open>Closed invitations\<close>

text \<open>A closed invitation's row is never rewritten; it can only go with its workspace.\<close>

definition closed_kept :: "db \<Rightarrow> db \<Rightarrow> bool" where
  "closed_kept d d' \<longleftrightarrow> (\<forall>x \<in> set (invitations d). \<not> is_open x \<longrightarrow>
     (\<forall>y \<in> set (invitations d'). inv_id y = inv_id x \<longrightarrow> y = x))"

lemma closed_kept_same:
  "admin_inv d \<Longrightarrow> set (invitations d') \<subseteq> set (invitations d) \<Longrightarrow> closed_kept d d'"
  unfolding closed_kept_def admin_inv_def invitations_ok_def by (auto dest: uniq_keyD)

lemma closed_kept_set:
  assumes inv: "admin_inv d" and y: "y \<in> set (invitations d)" "is_open y"
    and f: "\<And>r. inv_id (f r) = inv_id r"
  shows "closed_kept d (set_invitation d (inv_id y) f)"
proof -
  have "uniq_key inv_id (invitations d)" using inv by (simp add: admin_inv_def invitations_ok_def)
  note u = uniq_keyD [OF this]
  then have "\<And>x. x \<in> set (invitations d) \<Longrightarrow> \<not> is_open x \<Longrightarrow> inv_id x \<noteq> inv_id y" using y by metis
  with u f show ?thesis by (auto simp: closed_kept_def set_invitation_def in_set_update_where) metis+
qed

lemma audit_record_invitations [simp]: "invitations (audit_record d a x y i w e n t) = invitations d"
  by (simp add: audit_record_def)

lemma member_frames [simp]:
  "invitations (set_org_role d o' i r) = invitations d"
  "invitations (drop_member d o' i now) = invitations d"
  "invitations (raise_org_role o' i r now d) = invitations d"
  "invitations (raise_ws_role o' w i wr now d) = invitations d"
  by (simp_all add: set_org_role_def drop_member_def raise_org_role_def raise_ws_role_def)

lemma change_role_invitations: "change_role d a r i new e now = Inr (d', m) \<Longrightarrow> invitations d' = invitations d"
  by (auto simp: change_role_def result_simps Let_def split: if_splits option.splits bool.splits)

lemma remove_member_invitations: "remove_member d a r i e now = Inr d' \<Longrightarrow> invitations d' = invitations d"
  by (auto simp: remove_member_def result_simps Let_def split: if_splits option.splits bool.splits)

lemma rename_org_invitations: "rename_org d a nm e now = Inr (d', x) \<Longrightarrow> invitations d' = invitations d"
  by (auto simp: rename_org_def result_simps Let_def split: if_splits option.splits bool.splits)

lemma create_team_invitations: "create_team d a nm t e now = Inr (d', x) \<Longrightarrow> invitations d' = invitations d"
  by (auto simp: create_team_def result_simps Let_def split: if_splits option.splits bool.splits)

lemma rename_team_invitations: "rename_team d a t nm e now = Inr (d', x) \<Longrightarrow> invitations d' = invitations d"
  by (auto simp: rename_team_def result_simps Let_def split: if_splits option.splits bool.splits)

lemma delete_team_invitations: "delete_team d a t e now = Inr d' \<Longrightarrow> invitations d' = invitations d"
  by (auto simp: delete_team_def result_simps Let_def split: if_splits option.splits bool.splits)

lemma add_team_member_invitations: "add_team_member d a t i e now = Inr d' \<Longrightarrow> invitations d' = invitations d"
  by (auto simp: add_team_member_def result_simps Let_def split: if_splits option.splits bool.splits)

lemma remove_team_member_invitations: "remove_team_member d a t i e now = Inr d' \<Longrightarrow> invitations d' = invitations d"
  by (auto simp: remove_team_member_def result_simps Let_def split: if_splits option.splits bool.splits)

lemma create_workspace_invitations: "create_workspace d known a nm tz w e now = Inr (d', x) \<Longrightarrow> invitations d' = invitations d"
  by (auto simp: create_workspace_def result_simps Let_def split: if_splits option.splits bool.splits)

lemma update_workspace_invitations: "update_workspace d known a w nm tz e now = Inr (d', x) \<Longrightarrow> invitations d' = invitations d"
  by (auto simp: update_workspace_def result_simps Let_def split: if_splits option.splits bool.splits)

lemma set_ws_member_invitations: "set_ws_member d a w i wr e now = Inr d' \<Longrightarrow> invitations d' = invitations d"
  by (auto simp: set_ws_member_def result_simps Let_def split: if_splits option.splits bool.splits)

lemma remove_ws_member_invitations: "remove_ws_member d a w i e now = Inr d' \<Longrightarrow> invitations d' = invitations d"
  by (auto simp: remove_ws_member_def result_simps Let_def split: if_splits option.splits bool.splits)

lemma set_ws_team_invitations: "set_ws_team d a w t wr e now = Inr d' \<Longrightarrow> invitations d' = invitations d"
  by (auto simp: set_ws_team_def result_simps Let_def split: if_splits option.splits bool.splits)

lemma remove_ws_team_invitations: "remove_ws_team d a w t e now = Inr d' \<Longrightarrow> invitations d' = invitations d"
  by (auto simp: remove_ws_team_def result_simps Let_def split: if_splits option.splits bool.splits)

lemmas invitation_frames = change_role_invitations
  remove_member_invitations
  rename_org_invitations
  create_team_invitations
  rename_team_invitations
  delete_team_invitations
  add_team_member_invitations
  remove_team_member_invitations
  create_workspace_invitations
  update_workspace_invitations
  set_ws_member_invitations
  remove_ws_member_invitations
  set_ws_team_invitations
  remove_ws_team_invitations

lemma set_invitation_twice:
  "(\<And>r. inv_id (f r) = inv_id r) \<Longrightarrow>
   invitations (set_invitation (set_invitation d i f) i g) = invitations (set_invitation d i (g \<circ> f))"
  by (simp add: set_invitation_def update_where_def)

lemma queue_email_set:
  "(\<And>r. inv_id (f r) = inv_id r) \<Longrightarrow>
   \<exists>h. (\<forall>r. inv_id (h r) = inv_id r) \<and>
     invitations (queue_email (set_invitation d (inv_id x) f) x b c) = invitations (set_invitation d (inv_id x) h)"
  by (rule exI [of _ "(\<lambda>y. y\<lparr>inv_email_status := (if b then MailQueued else MailNotConfigured), inv_email_error := None\<rparr>) \<circ> f"])
    (simp add: queue_email_invitations set_invitation_def update_where_def)

lemma closed_kept_resend:
  assumes "resend_invitation d a i ttl b c e now = Inr d'" and "admin_inv d"
  shows "closed_kept d d'"
proof -
  from assms(1) obtain x where x: "get_invitation d (ac_org_id a) i = Inr x" "status_of x now = Pending \<or> status_of x now = Expired"
    "invitations d' = invitations (queue_email (set_invitation d (inv_id x) (\<lambda>y. y\<lparr>inv_expires_at := now + ttl\<rparr>)) x b c)"
    by (auto simp: resend_invitation_def result_simps)
  obtain h where h: "\<And>r. inv_id (h r) = inv_id r" "invitations d' = invitations (set_invitation d (inv_id x) h)"
    using queue_email_set [of "\<lambda>y. y\<lparr>inv_expires_at := now + ttl\<rparr>" d x b c] x(3) by auto
  have "x \<in> set (invitations d)" "is_open x" using x(1,2)
    by (auto simp: get_invitation_def status_of_def is_open_def dest: find_SomeD split: if_splits)
  with closed_kept_set [OF assms(2), of x h] h show ?thesis by (simp add: closed_kept_def)
qed

lemma closed_kept_revoke:
  assumes "revoke_invitation d a i e now = Inr d'" and "admin_inv d"
  shows "closed_kept d d'"
proof -
  from assms(1) obtain x where x: "get_invitation d (ac_org_id a) i = Inr x" "status_of x now = Pending"
    "invitations d' = invitations (set_invitation d (inv_id x) (\<lambda>y. y\<lparr>inv_revoked_at := Some now\<rparr>))"
    by (auto simp: revoke_invitation_def result_simps)
  have "x \<in> set (invitations d)" "is_open x" using x(1,2)
    by (auto simp: get_invitation_def status_of_def is_open_def dest: find_SomeD split: if_splits)
  with closed_kept_set [OF assms(2), of x "\<lambda>y. y\<lparr>inv_revoked_at := Some now\<rparr>"] x(3) show ?thesis by (simp add: closed_kept_def)
qed

lemma closed_kept_create:
  assumes run: "create_invitation d a email g ttl mail_on later i e now = Inr (d', x)"
    and fresh: "i \<notin> inv_id ` set (invitations d)" and inv: "admin_inv d"
  shows "closed_kept d d'"
proof -
  obtain d1 where x: "inv_id x = i" and d1: "d1 = d \<and> (\<forall>y \<in> set (invitations d). \<not> open_for (inv_org_id x) (inv_email x) y)
     \<or> (\<exists>y. List.find (open_for (inv_org_id x) (inv_email x)) (invitations d) = Some y \<and> status_of y now = Expired
           \<and> d1 = set_invitation d (inv_id y) (\<lambda>y. y\<lparr>inv_revoked_at := Some now\<rparr>))"
    and d': "\<exists>w det. d' = audit_record (queue_email (d1\<lparr>invitations := invitations d1 @ [x]\<rparr>) x mail_on later)
        a ''invitation.created'' ''invitation'' i w det e now"
    by (rule created_invitation [OF run])
  have k: "closed_kept d d1" using d1
  proof (elim disjE exE conjE)
    fix y assume "List.find (open_for (inv_org_id x) (inv_email x)) (invitations d) = Some y"
      and eq: "d1 = set_invitation d (inv_id y) (\<lambda>y. y\<lparr>inv_revoked_at := Some now\<rparr>)"
    then have "y \<in> set (invitations d)" "is_open y" by (auto dest!: find_SomeD simp: open_for_def)
    then show "closed_kept d d1" unfolding eq by (intro closed_kept_set [OF inv]) simp_all
  qed (simp add: closed_kept_same [OF inv])
  have "y \<in> set (invitations d1)" if "y \<in> set (invitations d')" "inv_id y \<noteq> i" for y
    using that d' x by (auto simp: queue_email_invitations in_set_update_where split: if_splits)
  with k fresh show ?thesis unfolding closed_kept_def by (metis image_eqI)
qed

lemma accept_one_invitations:
  "invitations (accept_one u email now ix d) =
   update_where (\<lambda>x. inv_id x = inv_id (fst ix)) (\<lambda>x. x\<lparr>inv_accepted_at := Some now, inv_accepted_user_id := Some u\<rparr>) (invitations d)"
  by (simp add: accept_one_def Let_def set_invitation_def split: prod.splits option.splits)

lemma fold_accept_invitations:
  "y \<in> set (invitations (fold (accept_one u email now) ixs d)) \<Longrightarrow> inv_id y \<notin> (inv_id \<circ> fst) ` set ixs \<Longrightarrow>
   y \<in> set (invitations d)"
proof (induction ixs arbitrary: d)
  case (Cons ix ixs)
  then have "y \<in> set (invitations (accept_one u email now ix d))" by simp
  with Cons.prems(2) show ?case by (auto simp: accept_one_invitations in_set_update_where split: if_splits)
qed simp

lemma closed_kept_accept:
  assumes "admin_inv d"
  shows "closed_kept d (fold (accept_one u email now) (zip (acceptable d email now) ids) d)" (is "closed_kept d ?d'")
proof -
  have "uniq_key inv_id (invitations d)" using assms by (simp add: admin_inv_def invitations_ok_def)
  note uk = uniq_keyD [OF this]
  have "x = y" if x: "x \<in> set (invitations d)" "\<not> is_open x" and y: "y \<in> set (invitations ?d')" "inv_id y = inv_id x" for x y
  proof -
    have "inv_id y \<notin> (inv_id \<circ> fst) ` set (zip (acceptable d email now) ids)"
    proof
      assume "inv_id y \<in> (inv_id \<circ> fst) ` set (zip (acceptable d email now) ids)"
      then obtain z where "z \<in> set (acceptable d email now)" "inv_id z = inv_id y" by (auto dest: set_zip_leftD)
      with uk [of z x] x y(2) show False by (auto simp: acceptable_def)
    qed
    from fold_accept_invitations [OF y(1) this] show ?thesis using uk x y by metis
  qed
  then show ?thesis unfolding closed_kept_def by blast
qed

lemma closed_kept_delete_workspace: "delete_workspace d a w e now = Inr d' \<Longrightarrow> admin_inv d \<Longrightarrow> closed_kept d d'"
  by (auto simp: delete_workspace_def result_simps intro!: closed_kept_same)

lemma closed_kept_eq: "invitations d' = invitations d \<Longrightarrow> admin_inv d \<Longrightarrow> closed_kept d d'"
  by (simp add: closed_kept_same)

lemma admin_step_closed: "admin_step d d' \<Longrightarrow> admin_inv d \<Longrightarrow> closed_kept d d'"
proof (erule admin_step.cases; hypsubst)
  fix dd d'' i now ids joined
  assume "accept_invitations dd i now ids = (d'', joined)" "admin_inv dd"
  then show "closed_kept dd d''" using accept_invitations_fold closed_kept_accept closed_kept_eq by metis
qed (blast intro: closed_kept_eq invitation_frames closed_kept_delete_workspace closed_kept_create
    closed_kept_resend closed_kept_revoke)+

section \<open>Accepting\<close>

text \<open>
  What accepting does to memberships: every row stays with the same or a higher role, rows of other users
  as they are.
\<close>

definition raised_rows :: "('r \<Rightarrow> 'k) \<Rightarrow> ('r \<Rightarrow> nat) \<Rightarrow> ('r \<Rightarrow> bool) \<Rightarrow> 'r list \<Rightarrow> 'r list \<Rightarrow> bool" where
  "raised_rows k rank own t t' \<longleftrightarrow>
     (\<forall>m \<in> set t. \<exists>m' \<in> set t'. k m' = k m \<and> rank m \<le> rank m' \<and> (\<not> own m \<longrightarrow> m' = m))"

definition raised :: "uuid \<Rightarrow> db \<Rightarrow> db \<Rightarrow> bool" where
  "raised u d d' \<longleftrightarrow>
     raised_rows (\<lambda>m. (om_org_id m, om_user_id m)) (\<lambda>m. org_rank (om_role m)) (\<lambda>m. om_user_id m = u)
       (org_memberships d) (org_memberships d') \<and>
     raised_rows (\<lambda>m. (wm_workspace_id m, wm_user_id m)) (\<lambda>m. role_rank (wm_role m)) (\<lambda>m. wm_user_id m = u)
       (workspace_memberships d) (workspace_memberships d')"

lemma raised_rows_trans: "raised_rows k rank own a b \<Longrightarrow> raised_rows k rank own b c \<Longrightarrow> raised_rows k rank own a c"
  unfolding raised_rows_def by (metis order_trans)

lemma raised_rows_refl: "raised_rows k rank own a a"
  unfolding raised_rows_def by blast

lemma raised_rows_upsert:
  assumes "\<And>old. k old = k new \<Longrightarrow> own old \<and> k (merge old new) = k old \<and> rank old \<le> rank (merge old new)"
  shows "raised_rows k rank own t (upsert k merge new t)"
  unfolding raised_rows_def
proof
  fix m assume "m \<in> set t"
  then have "(if k m = k new then merge m new else m) \<in> set (upsert k merge new t)"
    by (auto simp: upsert_def update_where_def)
  with assms [of m] show "\<exists>m' \<in> set (upsert k merge new t). k m' = k m \<and> rank m \<le> rank m' \<and> (\<not> own m \<longrightarrow> m' = m)"
    by (cases "k m = k new") auto
qed

text \<open>The row that is put has at least the rank of the new one.\<close>

lemma upsert_grants:
  assumes "\<And>old. k old = k new \<Longrightarrow> k (merge old new) = k new \<and> (rank new :: nat) \<le> rank (merge old new)"
  shows "\<exists>m \<in> set (upsert k merge new t). k m = k new \<and> rank new \<le> rank m"
proof (cases "\<exists>r \<in> set t. k r = k new")
  case True
  then obtain r where r: "r \<in> set t" "k r = k new" by blast
  then have "merge r new \<in> set (upsert k merge new t)" by (auto simp: upsert_def update_where_def)
  with assms [OF r(2)] show ?thesis by blast
qed (simp add: upsert_def)

lemma raised_trans: "raised u a b \<Longrightarrow> raised u b c \<Longrightarrow> raised u a c"
  unfolding raised_def by (blast intro: raised_rows_trans)

lemma raised_refl: "raised u a a"
  by (simp add: raised_def raised_rows_refl)

lemma raised_org: "raised u d (raise_org_role o' u r now d)"
  unfolding raised_def raise_org_role_def by (auto intro!: raised_rows_upsert raised_rows_refl)

lemma raised_ws: "raised u d (raise_ws_role o' w u r now d)"
  unfolding raised_def raise_ws_role_def by (auto intro!: raised_rows_upsert raised_rows_refl)

lemma raised_cong: "org_memberships e = org_memberships d' \<Longrightarrow> workspace_memberships e = workspace_memberships d' \<Longrightarrow>
  raised u d e = raised u d d'"
  by (simp add: raised_def)

lemma raised_accept_one: "raised u d (accept_one u email now ix d)"
proof -
  obtain i n where ix: "ix = (i, n)" by (cases ix)
  let ?d1 = "raise_org_role (inv_org_id i) u (inv_org_role i) now d"
  let ?d2 = "case (inv_workspace_id i, inv_workspace_role i) of
                  (Some w, Some r) \<Rightarrow> raise_ws_role (inv_org_id i) w u r now ?d1 | _ \<Rightarrow> ?d1"
  have "raised u ?d1 ?d2" by (auto split: option.splits intro: raised_ws raised_refl)
  with raised_org have "raised u d ?d2" by (rule raised_trans)
  then show ?thesis by (simp add: ix accept_one_def Let_def raised_def set_invitation_def)
qed

lemma raised_fold: "raised u d (fold (accept_one u email now) ixs d)"
proof (induction ixs arbitrary: d)
  case (Cons ix ixs)
  have "raised u (accept_one u email now ix d) (fold (accept_one u email now) (ix # ixs) d)" using Cons.IH by simp
  with raised_accept_one show ?case by (rule raised_trans)
qed (simp add: raised_refl)

text \<open>What the invitation promises: a membership with at least its role, and the same in its workspace.\<close>

definition granted :: "uuid \<Rightarrow> invitation \<Rightarrow> db \<Rightarrow> bool" where
  "granted u i d \<longleftrightarrow>
     (\<exists>m \<in> set (org_memberships d). om_org_id m = inv_org_id i \<and> om_user_id m = u \<and> org_rank (inv_org_role i) \<le> org_rank (om_role m)) \<and>
     (\<forall>w r. inv_workspace_id i = Some w \<longrightarrow> inv_workspace_role i = Some r \<longrightarrow>
        (\<exists>m \<in> set (workspace_memberships d). wm_workspace_id m = w \<and> wm_user_id m = u \<and> r \<le> wm_role m))"

lemma granted_mono: "granted u i d \<Longrightarrow> raised u d d' \<Longrightarrow> granted u i d'"
proof -
  assume g: "granted u i d" and r: "raised u d d'"
  have "\<exists>m' \<in> set (workspace_memberships d'). wm_workspace_id m' = w \<and> wm_user_id m' = u \<and> rl \<le> wm_role m'"
    if m: "m \<in> set (workspace_memberships d)" "wm_workspace_id m = w" "wm_user_id m = u" "rl \<le> wm_role m" for m w rl
    using r m unfolding raised_def raised_rows_def less_eq_workspace_role_def by (metis order_trans prod.inject)
  moreover have "\<exists>m' \<in> set (org_memberships d'). om_org_id m' = o' \<and> om_user_id m' = u \<and> n \<le> org_rank (om_role m')"
    if m: "m \<in> set (org_memberships d)" "om_org_id m = o'" "om_user_id m = u" "n \<le> org_rank (om_role m)" for m o' n
    using r m unfolding raised_def raised_rows_def by (metis order_trans prod.inject)
  ultimately show ?thesis using g unfolding granted_def by metis
qed

lemma raise_org_grants:
  "\<exists>m \<in> set (org_memberships (raise_org_role o' u r now d)). om_org_id m = o' \<and> om_user_id m = u \<and> org_rank r \<le> org_rank (om_role m)"
  using upsert_grants [of "\<lambda>m. (om_org_id m, om_user_id m)" "\<lparr>om_org_id = o', om_user_id = u, om_role = r, om_created_at = now\<rparr>"
     "\<lambda>old new. if org_rank (om_role old) < org_rank (om_role new) then old\<lparr>om_role := om_role new\<rparr> else old"
     "\<lambda>m. org_rank (om_role m)" "org_memberships d"]
  by (simp add: raise_org_role_def)

lemma raise_ws_grants:
  "\<exists>m \<in> set (workspace_memberships (raise_ws_role o' w u r now d)). wm_workspace_id m = w \<and> wm_user_id m = u \<and> r \<le> wm_role m"
  using upsert_grants [of "\<lambda>m. (wm_workspace_id m, wm_user_id m)"
     "\<lparr>wm_org_id = o', wm_workspace_id = w, wm_user_id = u, wm_role = r, wm_created_at = now\<rparr>"
     "\<lambda>old new. if role_rank (wm_role old) < role_rank (wm_role new) then old\<lparr>wm_role := wm_role new\<rparr> else old"
     "\<lambda>m. role_rank (wm_role m)" "workspace_memberships d"]
  by (simp add: raise_ws_role_def less_eq_workspace_role_def)

lemma granted_accept_one: "granted u (fst ix) (accept_one u email now ix d)"
proof -
  obtain i n where ix: "ix = (i, n)" by (cases ix)
  have keep: "org_memberships (raise_ws_role o' w u r now x) = org_memberships x" for o' w r x by (simp add: raise_ws_role_def)
  show ?thesis using raise_org_grants raise_ws_grants
    by (auto simp: ix granted_def accept_one_def Let_def set_invitation_def keep split: option.splits)
qed

lemma granted_fold: "ix \<in> set ixs \<Longrightarrow> granted u (fst ix) (fold (accept_one u email now) ixs d)"
proof (induction ixs arbitrary: d)
  case (Cons jx ixs)
  show ?case
  proof (cases "ix \<in> set ixs")
    case False
    with Cons.prems have "granted u (fst ix) (accept_one u email now ix d)" "jx = ix" by (auto intro: granted_accept_one)
    with granted_mono raised_fold show ?thesis by fastforce
  qed (use Cons.IH in simp)
qed simp

lemma fold_accept_closes:
  "invitations (fold (accept_one u email now) ixs d) =
   update_where (\<lambda>x. inv_id x \<in> (inv_id \<circ> fst) ` set ixs)
     (\<lambda>x. x\<lparr>inv_accepted_at := Some now, inv_accepted_user_id := Some u\<rparr>) (invitations d)"
  by (induction ixs arbitrary: d) (auto simp: accept_one_invitations update_where_def)

lemma map_fst_zip': "length ids = length xs \<Longrightarrow> fst ` set (zip xs ids) = set xs"
  by (metis map_fst_zip set_map)

section \<open>Properties of administration\<close>

text \<open>C9: whatever admin operations run, in whatever order, the audit log only grows at its end, and
  every run that changes anything at all left at least one new event.\<close>

theorem audit_log_append_only:
  assumes "admin_step\<^sup>*\<^sup>* d d'"
  shows "\<exists>es. audit_events d' = audit_events d @ es \<and> (d' = d \<or> es \<noteq> [])"
proof -
  from audit_log.steps_append [OF assms] obtain es where es: "audit_events d' = audit_events d @ es" by (auto simp: prefix_def)
  have "d' = d \<or> length (audit_events d) < length (audit_events d')" using assms
  proof (induction rule: rtranclp_induct)
    case (step y z)
    from admin_step_log [OF step(2)] have "z = y \<or> length (audit_events y) < length (audit_events z)" by auto
    with step.IH audit_log.log_grows [OF step(1)] show ?case by auto
  qed simp
  with es show ?thesis by auto
qed

text \<open>C10: no sequence of admin operations breaks the administration's rules: identifiers stay unique,
  team and workspace names stay unique in their org, a user has one role per org, per workspace and per
  team, a team one role per workspace, and an address has at most one open invitation per org.\<close>

theorem admin_invariant:
  assumes "admin_step\<^sup>*\<^sup>* d d'" and "admin_inv d"
  shows "admin_inv d' \<and>
    (\<forall>x \<in> set (invitations d'). \<forall>y \<in> set (invitations d').
       is_open x \<and> is_open y \<and> inv_org_id x = inv_org_id y \<and> inv_email x = inv_email y \<longrightarrow> x = y) \<and>
    (\<forall>v \<in> set (workspaces d'). \<forall>w \<in> set (workspaces d'). ws_org_id v = ws_org_id w \<and> ws_name v = ws_name w \<longrightarrow> v = w) \<and>
    (\<forall>v \<in> set (teams d'). \<forall>w \<in> set (teams d'). tm_org_id v = tm_org_id w \<and> tm_name v = tm_name w \<longrightarrow> v = w)"
proof -
  have inv: "admin_inv d'" using assms by (induction rule: rtranclp_induct) (auto intro: admin_step_inv)
  then have k: "uniq_key open_key (filter is_open (invitations d'))" "uniq_key (\<lambda>r. (ws_org_id r, ws_name r)) (workspaces d')"
    "uniq_key (\<lambda>r. (tm_org_id r, tm_name r)) (teams d')"
    by (simp_all add: admin_inv_def invitations_ok_def names_unique_def)
  from inv uniq_keyD [OF k(1)] uniq_keyD [OF k(2)] uniq_keyD [OF k(3)] show ?thesis
    by (auto simp: open_key_def)
qed

text \<open>An invitation that was accepted or revoked is closed for good: no operation rewrites its row
  or opens it again (it can only disappear with its workspace).\<close>

theorem closed_invitation_frozen:
  assumes "admin_step d d'" and "admin_inv d" and "x \<in> set (invitations d)" and "\<not> is_open x"
    and "y \<in> set (invitations d')" and "inv_id y = inv_id x"
  shows "y = x"
  using admin_step_closed [OF assms(1,2)] assms(3-) by (simp add: closed_kept_def)

text \<open>C13: signing in accepts every open, unexpired invitation to the user's address: each grants at
  least its org role and its workspace role, no existing role of anyone is lowered and nobody else's row
  changes, the invitations are marked accepted by the user and none is left to accept; a disabled user
  accepts nothing.\<close>

theorem accepting_grants:
  assumes "accept_invitations d i now ids = (d', joined)" and "List.find (\<lambda>u. us_id u = i) (users d) = Some u"
    and "uniq_key us_id (users d)" and "length ids = length (acceptable d (us_email u) now)"
  shows "(us_disabled_at u \<noteq> None \<longrightarrow> d' = d \<and> joined = []) \<and>
    (us_disabled_at u = None \<longrightarrow>
       (\<forall>x \<in> set (acceptable d (us_email u) now). granted i x d') \<and> raised i d d' \<and>
       joined = map inv_org_id (acceptable d (us_email u) now) \<and> acceptable d' (us_email u) now = [] \<and>
       (\<forall>x \<in> set (acceptable d (us_email u) now). \<forall>y \<in> set (invitations d'). inv_id y = inv_id x \<longrightarrow>
          inv_accepted_at y = Some now \<and> inv_accepted_user_id y = Some i))"
proof (cases "us_disabled_at u")
  case None
  let ?a = "acceptable d (us_email u) now"
  have u: "u \<in> set (users d)" "us_id u = i" using find_SomeD [OF assms(2)] by auto
  have "List.find (\<lambda>u. us_id u = i \<and> us_disabled_at u = None) (users d) = Some u"
    by (rule find_uniq) (use u None uniq_keyD [OF assms(3)] in auto)
  then have d': "d' = fold (accept_one i (us_email u) now) (zip ?a ids) d" and j: "joined = map inv_org_id ?a"
    using assms(1,4) by (auto simp: accept_invitations_def Let_def)
  have ids: "fst ` set (zip ?a ids) = set ?a" using assms(4) by (rule map_fst_zip')
  have inv': "invitations d' = update_where (\<lambda>x. inv_id x \<in> inv_id ` set ?a)
     (\<lambda>x. x\<lparr>inv_accepted_at := Some now, inv_accepted_user_id := Some i\<rparr>) (invitations d)"
    unfolding d' fold_accept_closes image_comp [symmetric] ids by simp
  have "granted i x d'" if "x \<in> set ?a" for x
  proof -
    from that ids obtain n where "(x, n) \<in> set (zip ?a ids)" by (metis imageE prod.collapse)
    from granted_fold [OF this] show ?thesis unfolding d' by simp
  qed
  moreover have "raised i d d'" unfolding d' by (rule raised_fold)
  moreover have "acceptable d' (us_email u) now = []"
  proof -
    have "\<not> (inv_email y = us_email u \<and> is_open y \<and> now < inv_expires_at y)" if "y \<in> set (invitations d')" for y
    proof -
      from that inv' obtain x where x: "x \<in> set (invitations d)"
        "y = (if inv_id x \<in> inv_id ` set ?a then x\<lparr>inv_accepted_at := Some now, inv_accepted_user_id := Some i\<rparr> else x)"
        by (auto simp: in_set_update_where)
      show ?thesis
      proof (cases "inv_id x \<in> inv_id ` set ?a")
        case False
        then have "x \<notin> set ?a" by blast
        with x False show ?thesis by (auto simp: acceptable_def)
      qed (use x in \<open>simp add: is_open_def\<close>)
    qed
    then show ?thesis by (simp add: acceptable_def filter_empty_conv)
  qed
  moreover have "\<forall>x \<in> set ?a. \<forall>y \<in> set (invitations d'). inv_id y = inv_id x \<longrightarrow> inv_accepted_at y = Some now \<and> inv_accepted_user_id y = Some i"
  proof (intro ballI impI)
    fix x y assume x: "x \<in> set ?a" and y: "y \<in> set (invitations d')" "inv_id y = inv_id x"
    from y(1) inv' obtain r where r: "y = (if inv_id r \<in> inv_id ` set ?a
       then r\<lparr>inv_accepted_at := Some now, inv_accepted_user_id := Some i\<rparr> else r)"
      by (auto simp: in_set_update_where)
    have "inv_id r = inv_id x" using r y(2) by (cases "inv_id r \<in> inv_id ` set ?a") simp_all
    then have "inv_id r \<in> inv_id ` set ?a" using x by simp
    with r show "inv_accepted_at y = Some now \<and> inv_accepted_user_id y = Some i" by simp
  qed
  ultimately show ?thesis using None j by blast
next
  case (Some t)
  have u: "u \<in> set (users d)" "us_id u = i" using find_SomeD [OF assms(2)] by auto
  have "List.find (\<lambda>u. us_id u = i \<and> us_disabled_at u = None) (users d) = None"
  proof -
    have "us_disabled_at v \<noteq> None" if "v \<in> set (users d)" "us_id v = i" for v
      using uniq_keyD [OF assms(3) that(1) u(1)] that(2) u(2) Some by simp
    then show ?thesis unfolding find_None_iff' by blast
  qed
  with assms(1) Some show ?thesis by (simp add: accept_invitations_def)
qed

section \<open>An example\<close>

definition ex_invitation :: invitation where
  "ex_invitation = \<lparr>inv_org_id = 1, inv_id = 50, inv_email = ''9'', inv_org_role = OrgAdmin, inv_workspace_id = None,
     inv_workspace_role = None, inv_invited_by = 8, inv_created_at = 0, inv_expires_at = 100, inv_accepted_at = None,
     inv_accepted_user_id = None, inv_revoked_at = None, inv_email_status = MailSent, inv_email_error = None\<rparr>"

definition ex_closed :: invitation where
  "ex_closed = ex_invitation\<lparr>inv_id := 49, inv_revoked_at := Some 1\<rparr>"

definition ex_idb :: db where
  "ex_idb = empty_db\<lparr>users := [user_row 8 None, user_row 9 None], org_memberships := [owner_row 8],
     invitations := [ex_invitation, ex_closed]\<rparr>"

lemma ex_idb_inv: "admin_inv ex_idb"
  by (simp add: admin_inv_def members_ok_def ex_idb_def invitations_ok_def names_unique_def)
    (simp add: uniq_key_def user_row_def is_open_def ex_invitation_def ex_closed_def empty_db_def)

lemma ex_step: obtains d' where "admin_step ex_idb d'" "d' \<noteq> ex_idb" "map inv_id (invitations d') = [50, 49]"
proof -
  have "\<not> isl (revoke_invitation ex_idb (ex_actor 8) 50 60 7)"
    by (simp add: revoke_invitation_def get_invitation_def ex_idb_def ex_invitation_def ex_closed_def status_of_def ex_actor_def)
  then obtain d' where d': "revoke_invitation ex_idb (ex_actor 8) 50 60 7 = Inr d'" by (metis sum.collapse(2))
  have "length (audit_events d') = length (audit_events ex_idb) + 1"
    using d' by (auto simp: revoke_invitation_def result_simps audit_record_def set_invitation_def)
  then have "d' \<noteq> ex_idb" by auto
  moreover have "map inv_id (invitations d') = map inv_id (invitations ex_idb)"
    using d' by (auto simp: revoke_invitation_def result_simps set_invitation_def map_update_where_same)
  moreover have "map inv_id (invitations ex_idb) = [50, 49]" by (simp add: ex_idb_def ex_invitation_def ex_closed_def)
  ultimately show thesis using that step_revoke_invitation [OF d'] by metis
qed

theorem audit_log_append_only_witness: "\<exists>d'. admin_step\<^sup>*\<^sup>* ex_idb d' \<and> audit_events d' \<noteq> []"
proof -
  obtain d' where d': "admin_step ex_idb d'" "d' \<noteq> ex_idb" by (rule ex_step)
  then have r: "admin_step\<^sup>*\<^sup>* ex_idb d'" by blast
  from audit_log_append_only [OF this] d'(2) show ?thesis using r by auto
qed

theorem admin_invariant_witness: "\<exists>d'. admin_step\<^sup>*\<^sup>* ex_idb d' \<and> d' \<noteq> ex_idb \<and> admin_inv d'"
proof -
  obtain d' where d': "admin_step ex_idb d'" "d' \<noteq> ex_idb" by (rule ex_step)
  then have r: "admin_step\<^sup>*\<^sup>* ex_idb d'" by blast
  from admin_invariant [OF this ex_idb_inv] d'(2) show ?thesis using r by blast
qed

theorem closed_invitation_frozen_witness:
  "\<exists>d'. admin_step ex_idb d' \<and> ex_closed \<in> set (invitations d')"
proof -
  obtain d' where d': "admin_step ex_idb d'" "map inv_id (invitations d') = [50, 49]" by (rule ex_step)
  have "49 \<in> set (map inv_id (invitations d'))" unfolding d'(2) by simp
  then have "49 \<in> inv_id ` set (invitations d')" by (simp only: set_map)
  then obtain y where "49 = inv_id y" and y1: "y \<in> set (invitations d')" by (rule imageE)
  then have y: "y \<in> set (invitations d')" "inv_id y = 49" by simp_all
  have "ex_closed \<in> set (invitations ex_idb)" by (simp add: ex_idb_def)
  moreover have "\<not> is_open ex_closed" by (simp add: is_open_def ex_closed_def)
  moreover have "inv_id y = inv_id ex_closed" using y(2) by (simp add: ex_closed_def)
  ultimately have "y = ex_closed" by (rule closed_invitation_frozen [OF d'(1) ex_idb_inv _ _ y(1)])
  with y(1) d'(1) show ?thesis by blast
qed

theorem accepting_grants_witness:
  "\<exists>d' joined. accept_invitations ex_idb 9 7 [61] = (d', joined) \<and> granted 9 ex_invitation d'"
proof -
  obtain d' joined where r: "accept_invitations ex_idb 9 7 [61] = (d', joined)" by fastforce
  have f: "List.find (\<lambda>u. us_id u = 9) (users ex_idb) = Some (user_row 9 None)" by (simp add: ex_idb_def user_row_def)
  have a: "acceptable ex_idb (us_email (user_row 9 None)) 7 = [ex_invitation]" by code_simp
  have "uniq_key us_id (users ex_idb)" by (simp add: ex_idb_def uniq_key_def user_row_def)
  from accepting_grants [OF r f this] have "granted 9 ex_invitation d'" by (simp add: a) (simp add: user_row_def)
  with r show ?thesis by blast
qed

end
