(* ===== verification/Rate_Limits.thy ===== *)
theory Rate_Limits
  imports Models Strings
begin

text \<open>
  \<^verbatim>\<open>services/rate_limits.py\<close> and the dependencies of \<^verbatim>\<open>limits.py\<close>: fixed
  windows counted in the database.  Windows are lengths in microseconds; the code divides in floating
  point, which at the magnitudes of present dates agrees with the integer division here.  Whether the
  counter can be reached is the argument \<open>up\<close> of a hit.
\<close>

section \<open>Rules and windows\<close>

record rule =
  ru_bucket :: string
  ru_limit :: int
  ru_window :: int

definition SECOND_US :: int where "SECOND_US = 1000000"
definition MINUTE :: int where "MINUTE = 60 * SECOND_US"
definition HOUR :: int where "HOUR = 3600 * SECOND_US"
definition RATE_KEEP_FOR :: int where "RATE_KEEP_FOR = 24 * HOUR"

definition rule_of :: "string \<Rightarrow> int \<Rightarrow> int \<Rightarrow> rule" where
  "rule_of b l w = \<lparr>ru_bucket = b, ru_limit = l, ru_window = w\<rparr>"

definition RULES :: "(string \<times> rule) list" where
  "RULES = map (\<lambda>r. (ru_bucket r, r))
     [rule_of ''auth.login'' 20 MINUTE, rule_of ''auth.callback'' 20 MINUTE, rule_of ''auth.backchannel'' 60 MINUTE,
      rule_of ''auth.sessions'' 30 MINUTE, rule_of ''admin.write'' 60 MINUTE, rule_of ''admin.invite'' 50 HOUR,
      rule_of ''source.write'' 60 MINUTE, rule_of ''source.fetch'' 30 MINUTE]"

record decision =
  dc_allowed :: bool
  dc_hits :: int
  dc_retry_after :: int

definition window_start :: "datetime \<Rightarrow> int \<Rightarrow> datetime" where
  "window_start now w = now div w * w"

definition seconds_left :: "datetime \<Rightarrow> int \<Rightarrow> int" where
  "seconds_left now w = max 1 (- ((now - (window_start now w + w)) div SECOND_US))"

section \<open>Counting\<close>

type_synonym rate_key = "string \<times> string \<times> datetime"

definition rate_pk :: "rate_limit \<Rightarrow> rate_key" where
  "rate_pk r = (rl_bucket r, rl_key r, rl_window_start r)"

definition hits_in :: "db \<Rightarrow> rate_key \<Rightarrow> int" where
  "hits_in d k = (case List.find (\<lambda>r. rate_pk r = k) (rate_limits d) of None \<Rightarrow> 0 | Some r \<Rightarrow> rl_hits r)"

definition count_hit :: "db \<Rightarrow> string \<Rightarrow> string \<Rightarrow> datetime \<Rightarrow> db" where
  "count_hit d bucket key start =
     d\<lparr>rate_limits := upsert rate_pk (\<lambda>old new. old\<lparr>rl_hits := rl_hits old + 1\<rparr>)
        \<lparr>rl_bucket = bucket, rl_key = key, rl_window_start = start, rl_hits = 1\<rparr> (rate_limits d)\<rparr>"

definition hit :: "db \<Rightarrow> bool \<Rightarrow> rule \<Rightarrow> string \<Rightarrow> datetime \<Rightarrow> db \<times> decision" where
  "hit d up rule key now =
     (if \<not> up then (d, \<lparr>dc_allowed = True, dc_hits = 0, dc_retry_after = 0\<rparr>)
      else (let start = window_start now (ru_window rule);
                d' = count_hit d (ru_bucket rule) key start;
                hits = hits_in d' (ru_bucket rule, key, start);
                allowed = (hits \<le> ru_limit rule)
            in (d', \<lparr>dc_allowed = allowed, dc_hits = hits,
                     dc_retry_after = (if allowed then 0 else seconds_left now (ru_window rule))\<rparr>)))"

definition prune_rate_limits :: "db \<Rightarrow> datetime \<Rightarrow> db \<times> int" where
  "prune_rate_limits d now =
     (d\<lparr>rate_limits := delete_where (\<lambda>r. rl_window_start r < now - RATE_KEEP_FOR) (rate_limits d)\<rparr>,
      int (length (filter (\<lambda>r. rl_window_start r < now - RATE_KEEP_FOR) (rate_limits d))))"

section \<open>The dependency of a route\<close>

datatype key_kind = ByIp | ByUser | ByOrg | ByUserOrIp

definition UNSAFE_METHODS :: "string set" where
  "UNSAFE_METHODS = {''POST'', ''PUT'', ''PATCH'', ''DELETE''}"

definition anonymous_key :: "string option \<Rightarrow> uuid option \<Rightarrow> key_kind \<Rightarrow> string" where
  "anonymous_key ip session_user kind =
     (let host = (case ip of None \<Rightarrow> ''unknown'' | Some i \<Rightarrow> if i = [] then ''unknown'' else i)
      in if kind = ByIp then host
         else (case session_user of Some u \<Rightarrow> ''user:'' @ uuid_str u | None \<Rightarrow> ''ip:'' @ host))"

definition limit_key :: "key_kind \<Rightarrow> principal \<Rightarrow> string option \<Rightarrow> uuid option \<Rightarrow> string" where
  "limit_key kind p ip session_user =
     (case kind of ByUser \<Rightarrow> uuid_str (pr_user_id p) | ByOrg \<Rightarrow> uuid_str (pr_org_id p)
      | _ \<Rightarrow> anonymous_key ip session_user kind)"

text \<open>\<open>Inl (bucket, retry_after)\<close> is \<^verbatim>\<open>RateLimitedError\<close>.\<close>

definition limit_request :: "db \<Rightarrow> bool \<Rightarrow> bool \<Rightarrow> rule \<Rightarrow> string set option \<Rightarrow> string \<Rightarrow> string \<Rightarrow> datetime
    \<Rightarrow> db \<times> ((string \<times> int) + unit)" where
  "limit_request d up enabled rule methods verb key now =
     (if enabled \<and> (case methods of None \<Rightarrow> True | Some ms \<Rightarrow> verb \<in> ms)
      then (let (d', dec) = hit d up rule key now
            in (d', if dc_allowed dec then Inr () else Inl (ru_bucket rule, dc_retry_after dec)))
      else (d, Inr ()))"

section \<open>Facts\<close>

lemma window_start_le: "0 < w \<Longrightarrow> window_start now w \<le> now \<and> now < window_start now w + w"
proof -
  assume w: "0 < w"
  have "now = window_start now w + now mod w" by (simp add: window_start_def)
  moreover have "0 \<le> now mod w" "now mod w < w" using w by simp_all
  ultimately show ?thesis by linarith
qed

text \<open>Two instants share a window exactly when the later one comes before the window of the earlier ends.\<close>

lemma window_start_eq:
  assumes "0 < w" and "a \<le> b"
  shows "window_start a w = window_start b w \<longleftrightarrow> b < window_start a w + w"
proof
  assume "window_start a w = window_start b w"
  then show "b < window_start a w + w" using window_start_le [OF assms(1), of b] by simp
next
  assume b: "b < window_start a w + w"
  have "a div w * w \<le> a" using window_start_le [OF assms(1), of a] by (simp add: window_start_def)
  with b assms(2) have "a div w * w \<le> b" "b < (a div w + 1) * w" by (simp_all add: window_start_def algebra_simps)
  with assms(1) have "b div w = a div w" by (intro int_div_pos_eq [of b w "a div w" "b - a div w * w"]) (auto simp: algebra_simps)
  then show "window_start a w = window_start b w" by (simp add: window_start_def)
qed

lemma ceil_div:
  fixes x m :: int
  assumes "0 < m"
  shows "x \<le> - (- x div m) * m" and "(- (- x div m) - 1) * m < x"
proof -
  define q where "q = - x div m"
  define r where "r = - x mod m"
  have "q * m + r = - x" unfolding q_def r_def by (rule div_mult_mod_eq)
  moreover have "0 \<le> r" "r < m" using assms by (simp_all add: r_def)
  ultimately show "x \<le> - (- x div m) * m" "(- (- x div m) - 1) * m < x"
    unfolding q_def [symmetric] by (simp_all add: algebra_simps)
qed

lemma hits_in_count:
  "hits_in (count_hit d b k s) x = hits_in d x + (if x = (b, k, s) then 1 else 0)"
proof -
  let ?new = "\<lparr>rl_bucket = b, rl_key = k, rl_window_start = s, rl_hits = 1\<rparr>"
  have "List.find (\<lambda>r. rate_pk r = x) (upsert rate_pk (\<lambda>old new. old\<lparr>rl_hits := rl_hits old + 1\<rparr>) ?new (rate_limits d)) =
     (if x = rate_pk ?new then (case List.find (\<lambda>r. rate_pk r = x) (rate_limits d) of None \<Rightarrow> Some ?new
        | Some old \<Rightarrow> Some (old\<lparr>rl_hits := rl_hits old + 1\<rparr>))
      else List.find (\<lambda>r. rate_pk r = x) (rate_limits d))"
    by (rule find_upsert) (simp add: rate_pk_def)
  then show ?thesis by (auto simp: hits_in_def count_hit_def rate_pk_def split: option.splits)
qed

text \<open>A request of a client: its rule, its key and its time.\<close>

type_synonym request = "rule \<times> string \<times> datetime"

fun request_key :: "request \<Rightarrow> rate_key" where
  "request_key (r, k, t) = (ru_bucket r, k, window_start t (ru_window r))"

fun hit_all :: "db \<Rightarrow> request list \<Rightarrow> db \<times> decision list" where
  "hit_all d [] = (d, [])"
| "hit_all d ((r, k, t) # qs) = (let (d1, x) = hit d True r k t; (d2, xs) = hit_all d1 qs in (d2, x # xs))"

lemma hit_up:
  "hit d True r k t = (d', x) \<Longrightarrow>
   (\<forall>y. hits_in d' y = hits_in d y + (if y = request_key (r, k, t) then 1 else 0)) \<and>
   dc_hits x = hits_in d (request_key (r, k, t)) + 1 \<and> (dc_allowed x \<longleftrightarrow> dc_hits x \<le> ru_limit r)"
  by (auto simp: hit_def Let_def hits_in_count)

lemma hit_all_counts:
  "hit_all d qs = (d', xs) \<Longrightarrow> length xs = length qs \<and>
   (\<forall>y. hits_in d' y = hits_in d y + int (length (filter (\<lambda>q. request_key q = y) qs))) \<and>
   (\<forall>i < length qs. dc_hits (xs ! i) = hits_in d (request_key (qs ! i)) +
       int (length (filter (\<lambda>q. request_key q = request_key (qs ! i)) (take (Suc i) qs))) \<and>
       (dc_allowed (xs ! i) \<longleftrightarrow> dc_hits (xs ! i) \<le> ru_limit (fst (qs ! i))))"
proof (induction qs arbitrary: d d' xs)
  case (Cons q qs)
  obtain r k t where q: "q = (r, k, t)" by (cases q)
  obtain d1 x d2 ys where h: "hit d True r k t = (d1, x)" and a: "hit_all d1 qs = (d2, ys)"
    by (metis surj_pair)
  with Cons.prems have e: "d' = d2" "xs = x # ys" by (auto simp: q)
  note one = hit_up [OF h]
  note IH = Cons.IH [OF a]
  show ?case
  proof (intro conjI allI impI)
    show "length xs = length (q # qs)" using IH e by simp
    show "hits_in d' y = hits_in d y + int (length (filter (\<lambda>p. request_key p = y) (q # qs)))" for y
    proof -
      have "hits_in d2 y = hits_in d1 y + int (length (filter (\<lambda>p. request_key p = y) qs))" using IH by blast
      moreover have "hits_in d1 y = hits_in d y + (if y = request_key (r, k, t) then 1 else 0)" using one by blast
      ultimately show ?thesis by (auto simp: e q simp del: split_paired_All)
    qed
    fix i assume i: "i < length (q # qs)"
    show "dc_hits (xs ! i) = hits_in d (request_key ((q # qs) ! i)) +
        int (length (filter (\<lambda>p. request_key p = request_key ((q # qs) ! i)) (take (Suc i) (q # qs))))"
      using i IH one by (cases i) (auto simp: e q)
    show "dc_allowed (xs ! i) \<longleftrightarrow> dc_hits (xs ! i) \<le> ru_limit (fst ((q # qs) ! i))"
      using i IH one by (cases i) (auto simp: e q)
  qed
qed simp

section \<open>Properties of rate limits\<close>

text \<open>Of the requests to one bucket with one key in one window, exactly the first ones up to the limit are
  allowed, whatever other requests come between them and whatever keys they have: refused requests count
  too, and a request of another key, bucket or window never does.\<close>

theorem exactly_limit_allowed:
  assumes "hit_all d qs = (d', ds)" and "i < length qs"
  shows "dc_allowed (ds ! i) \<longleftrightarrow>
     hits_in d (request_key (qs ! i)) + int (card {j. j \<le> i \<and> request_key (qs ! j) = request_key (qs ! i)})
       \<le> ru_limit (fst (qs ! i))"
proof -
  have "filter (\<lambda>q. request_key q = request_key (qs ! i)) (take (Suc i) qs) =
      map ((!) (take (Suc i) qs)) (filter (\<lambda>j. request_key (take (Suc i) qs ! j) = request_key (qs ! i)) [0..<Suc i])"
    using filter_map [of "\<lambda>q. request_key q = request_key (qs ! i)" "(!) (take (Suc i) qs)" "[0..<length (take (Suc i) qs)]"]
      assms(2) map_nth [of "take (Suc i) qs"] by (simp add: comp_def del: upt_Suc)
  then have "length (filter (\<lambda>q. request_key q = request_key (qs ! i)) (take (Suc i) qs)) =
      card (set (filter (\<lambda>j. request_key (take (Suc i) qs ! j) = request_key (qs ! i)) [0..<Suc i]))"
    by (simp only: length_map distinct_card [OF distinct_filter [OF distinct_upt]])
  also have "set (filter (\<lambda>j. request_key (take (Suc i) qs ! j) = request_key (qs ! i)) [0..<Suc i])
      = {j. j \<le> i \<and> request_key (qs ! j) = request_key (qs ! i)}"
    by (auto simp: less_Suc_eq_le)
  finally show ?thesis using hit_all_counts [OF assms(1)] assms(2) by simp
qed

text \<open>A refused request is told to wait until its window ends: it waits at least a second, after the
  wait it falls into a later window, and one second less would not have been enough unless the window ends
  within that second.  Pruning the table drops no window that a rule is still counting.\<close>

theorem retry_after_is_exact:
  assumes "hit d up rule key now = (d', x)" and "0 < ru_window rule" and "\<not> dc_allowed x"
  shows "1 \<le> dc_retry_after x
    \<and> window_start now (ru_window rule) < window_start (now + dc_retry_after x * SECOND_US) (ru_window rule)
    \<and> (1 < dc_retry_after x \<longrightarrow>
         window_start (now + (dc_retry_after x - 1) * SECOND_US) (ru_window rule) = window_start now (ru_window rule))
    \<and> (ru_window rule \<le> RATE_KEEP_FOR \<longrightarrow>
         hits_in (fst (prune_rate_limits d' now)) (ru_bucket rule, key, window_start now (ru_window rule))
           = hits_in d' (ru_bucket rule, key, window_start now (ru_window rule)))"
proof -
  let ?w = "ru_window rule" and ?s = "window_start now (ru_window rule)" and ?r = "dc_retry_after x"
  let ?n = "- ((now - (?s + ?w)) div SECOND_US)"
  have r: "?r = max 1 ?n" using assms(1,3) by (auto simp: hit_def seconds_left_def Let_def split: if_splits)
  note ws = window_start_le [OF assms(2), of now]
  have lo: "?s + ?w - now \<le> ?n * SECOND_US" and hi: "(?n - 1) * SECOND_US < ?s + ?w - now"
    using ceil_div [of SECOND_US "?s + ?w - now"] by (simp_all add: SECOND_US_def)
  have "?s + ?w \<le> now + ?r * SECOND_US" using lo r by (auto simp: SECOND_US_def max_def split: if_splits)
  then have "?s \<noteq> window_start (now + ?r * SECOND_US) ?w"
    using window_start_eq [OF assms(2), of now "now + ?r * SECOND_US"] r by (auto simp: SECOND_US_def)
  moreover have "?s \<le> window_start (now + ?r * SECOND_US) ?w"
    unfolding window_start_def using assms(2) r by (intro mult_right_mono zdiv_mono1) (auto simp: SECOND_US_def)
  ultimately have "?s < window_start (now + ?r * SECOND_US) ?w" by simp
  moreover have "window_start (now + (?r - 1) * SECOND_US) ?w = ?s" if "1 < ?r"
  proof -
    have "?r = ?n" using r that by simp
    then have "now + (?r - 1) * SECOND_US < ?s + ?w" using hi by simp
    then show ?thesis using window_start_eq [OF assms(2), of now "now + (?r - 1) * SECOND_US"] that by (simp add: SECOND_US_def)
  qed
  moreover have "hits_in (fst (prune_rate_limits d' now)) (ru_bucket rule, key, ?s) = hits_in d' (ru_bucket rule, key, ?s)"
    if "?w \<le> RATE_KEEP_FOR"
  proof -
    have "\<not> ?s < now - RATE_KEEP_FOR" using ws that by linarith
    then have "List.find (\<lambda>q. rate_pk q = (ru_bucket rule, key, ?s)) (delete_where (\<lambda>q. rl_window_start q < now - RATE_KEEP_FOR) t)
        = List.find (\<lambda>q. rate_pk q = (ru_bucket rule, key, ?s)) t" for t
      by (induction t) (auto simp: delete_where_def rate_pk_def)
    then show ?thesis by (simp add: hits_in_def prune_rate_limits_def)
  qed
  ultimately show ?thesis using r by simp
qed

section \<open>An example\<close>

definition ex_rule :: rule where "ex_rule = rule_of ''b'' 1 MINUTE"

theorem exactly_limit_allowed_witness:
  "map dc_allowed (snd (hit_all empty_db [(ex_rule, ''k'', 5), (ex_rule, ''k'', 6)])) = [True, False]"
proof -
  obtain d' ds where r: "hit_all empty_db [(ex_rule, ''k'', 5), (ex_rule, ''k'', 6)] = (d', ds)" by fastforce
  have len: "length ds = 2" using hit_all_counts [OF r] by simp
  have k: "request_key (ex_rule, ''k'', 5) = request_key (ex_rule, ''k'', 6)" "ru_limit ex_rule = 1"
    "hits_in empty_db y = 0" for y
    by (simp_all add: ex_rule_def rule_of_def window_start_def MINUTE_def SECOND_US_def hits_in_def empty_db_def)
  have c: "{j. j \<le> (1::nat) \<and> request_key ([(ex_rule, ''k'', 5), (ex_rule, ''k'', 6)] ! j) = request_key (ex_rule, ''k'', 6)} = {0, 1}"
    using k(1) by (auto simp: le_Suc_eq)
  have "card {j. j \<le> (0::nat) \<and> request_key ([(ex_rule, ''k'', 5), (ex_rule, ''k'', 6)] ! j) = y} \<le> card {0::nat}" for y
    by (rule card_mono) auto
  then have "dc_allowed (ds ! 0)" using exactly_limit_allowed [OF r, of 0] by (simp add: k(2,3) del: request_key.simps)
  moreover have "\<not> dc_allowed (ds ! 1)" using exactly_limit_allowed [OF r, of 1] c by (simp add: k(2,3))
  ultimately show ?thesis using r len by (auto simp: length_Suc_conv numeral_2_eq_2)
qed

theorem retry_after_is_exact_witness:
  "\<exists>d' x. hit empty_db True (ex_rule\<lparr>ru_limit := 0\<rparr>) ''k'' 5 = (d', x) \<and> 1 \<le> dc_retry_after x"
proof -
  obtain d' x where r: "hit empty_db True (ex_rule\<lparr>ru_limit := 0\<rparr>) ''k'' 5 = (d', x)" by fastforce
  have "\<not> dc_allowed x" using hit_up [OF r] by (simp add: hits_in_def empty_db_def)
  with retry_after_is_exact [OF r] have "1 \<le> dc_retry_after x"
    by (simp add: ex_rule_def rule_of_def MINUTE_def SECOND_US_def)
  with r show ?thesis by blast
qed

end
