(* ===== verification/Auth_Store.thy ===== *)
theory Auth_Store
  imports Invitations
begin

text \<open>
  \<^verbatim>\<open>auth/store.py\<close> and the login function of migrations 0005 and 0006: login flows,
  resolving an identity to a user, sessions and their revocation, and the session dependencies of
  \<^verbatim>\<open>auth/deps.py\<close>.  The database's clock \<^verbatim>\<open>now()\<close> and every fresh identifier are
  arguments.
\<close>

section \<open>Login flows\<close>

definition FLOW_TTL :: int where "FLOW_TTL = 10 * 60 * 1000000"
definition TOUCH_INTERVAL :: int where "TOUCH_INTERVAL = 60 * 1000000"

record flow =
  fw_state :: string
  fw_nonce :: string
  fw_code_verifier :: string
  fw_method :: sign_in_method
  fw_next_path :: string

definition create_flow :: "db \<Rightarrow> string \<Rightarrow> flow \<Rightarrow> datetime \<Rightarrow> db" where
  "create_flow d h f now =
     d\<lparr>login_flows := delete_where (\<lambda>x. lf_created_at x < now - FLOW_TTL) (login_flows d) @
        [\<lparr>lf_id_hash = h, lf_state = fw_state f, lf_nonce = fw_nonce f, lf_code_verifier = fw_code_verifier f,
          lf_method = fw_method f, lf_next_path = fw_next_path f, lf_created_at = now\<rparr>]\<rparr>"

definition take_flow :: "db \<Rightarrow> string \<Rightarrow> datetime \<Rightarrow> db \<times> (flow \<times> bool) option" where
  "take_flow d h now =
     (d\<lparr>login_flows := delete_where (\<lambda>x. lf_id_hash x = h) (login_flows d)\<rparr>,
      map_option (\<lambda>x. (\<lparr>fw_state = lf_state x, fw_nonce = lf_nonce x, fw_code_verifier = lf_code_verifier x,
           fw_method = lf_method x, fw_next_path = lf_next_path x\<rparr>, now - FLOW_TTL < lf_created_at x))
        (List.find (\<lambda>x. lf_id_hash x = h) (login_flows d)))"

section \<open>Login\<close>

record login_result =
  lr_user_id :: uuid
  lr_org_id :: "uuid option"
  lr_role :: "org_role option"
  lr_disabled :: bool

text \<open>\<^verbatim>\<open>btrim\<close> of PostgreSQL drops spaces only.\<close>

definition btrim :: "string \<Rightarrow> string" where
  "btrim s = rev (dropWhile (\<lambda>c. c = CHR '' '') (rev (dropWhile (\<lambda>c. c = CHR '' '') s)))"

definition is_identity :: "string \<Rightarrow> string \<Rightarrow> user_identity \<Rightarrow> bool" where
  "is_identity iss subj i \<longleftrightarrow> ui_issuer i = iss \<and> ui_subject i = subj"

text \<open>The user an identity belongs to: the linked one, else the one with the address, else a new one.\<close>

definition resolve_user :: "db \<Rightarrow> string \<Rightarrow> string \<Rightarrow> string \<Rightarrow> string \<Rightarrow> uuid \<Rightarrow> datetime \<Rightarrow> db \<times> uuid" where
  "resolve_user d iss subj email display new_user now =
     (case List.find (is_identity iss subj) (user_identities d) of
        Some i \<Rightarrow>
          (d\<lparr>user_identities := update_where (is_identity iss subj)
               (\<lambda>x. x\<lparr>ui_last_login_at := now, ui_email_at_login := email\<rparr>) (user_identities d)\<rparr>, ui_user_id i)
      | None \<Rightarrow>
          (let (d1, u) = (case List.find (\<lambda>x. us_email x = email) (users d) of
                 Some x \<Rightarrow> (d, us_id x)
               | None \<Rightarrow> (d\<lparr>users := users d @ [\<lparr>us_id = new_user, us_email = email,
                     us_display_name = (if btrim display = [] then email else btrim display),
                     us_created_at = now, us_disabled_at = None\<rparr>]\<rparr>, new_user))
           in (d1\<lparr>user_identities := user_identities d1 @
                 [\<lparr>ui_issuer = iss, ui_subject = subj, ui_user_id = u, ui_email_at_login = email,
                   ui_created_at = now, ui_last_login_at = now\<rparr>]\<rparr>, u)))"

definition admin_bootstrap :: "db \<Rightarrow> uuid \<Rightarrow> string \<Rightarrow> string option \<Rightarrow> datetime \<Rightarrow> db" where
  "admin_bootstrap d u email admin_email now =
     (if (case admin_email of None \<Rightarrow> [] | Some a \<Rightarrow> lower (btrim a)) = email \<and>
         \<not> (\<exists>m \<in> set (org_memberships d). om_org_id m = DEFAULT_ORG_ID \<and> om_role m = OrgOwner \<and> om_user_id m \<noteq> BOOTSTRAP_USER_ID)
      then d\<lparr>org_memberships := upsert (\<lambda>m. (om_org_id m, om_user_id m)) (\<lambda>old new. old\<lparr>om_role := OrgOwner\<rparr>)
              \<lparr>om_org_id = DEFAULT_ORG_ID, om_user_id = u, om_role = OrgOwner, om_created_at = now\<rparr> (org_memberships d)\<rparr>
      else d)"

definition first_membership :: "db \<Rightarrow> uuid \<Rightarrow> org_membership option" where
  "first_membership d u =
     List.find (\<lambda>_. True) (sort_key (\<lambda>m. (om_org_id m \<noteq> DEFAULT_ORG_ID, om_created_at m))
       (filter (\<lambda>m. om_user_id m = u) (org_memberships d)))"

definition login :: "db \<Rightarrow> string \<Rightarrow> string \<Rightarrow> string \<Rightarrow> bool \<Rightarrow> string \<Rightarrow> string option \<Rightarrow> uuid \<Rightarrow> uuid list \<Rightarrow> datetime
    \<Rightarrow> string + db \<times> login_result" where
  "login d iss subj raw verified display admin_email new_user ids now =
     (let email = lower (btrim raw)
      in if \<not> verified \<or> email = [] then Inl ''tabayyun_login: a verified email is required''
         else (let (d1, u) = resolve_user d iss subj email display new_user now;
                   d2 = admin_bootstrap d1 u email admin_email now;
                   (d3, joined) = accept_invitations d2 u now ids;
                   m = first_membership d3 u
               in Inr (d3, \<lparr>lr_user_id = u, lr_org_id = map_option om_org_id m, lr_role = map_option om_role m,
                    lr_disabled = (case List.find (\<lambda>x. us_id x = u) (users d3) of None \<Rightarrow> False
                       | Some x \<Rightarrow> us_disabled_at x \<noteq> None)\<rparr>)))"

definition join_invited_org :: "db \<Rightarrow> uuid \<Rightarrow> uuid \<Rightarrow> uuid list \<Rightarrow> datetime \<Rightarrow> db \<times> uuid option" where
  "join_invited_org d session_id user_id ids now =
     (let (d1, joined) = accept_invitations d user_id now ids
      in if joined = [] then (d1, None)
         else (let org = (if DEFAULT_ORG_ID \<in> set joined then DEFAULT_ORG_ID else Min (set joined))
               in (d1\<lparr>auth_sessions := update_where (\<lambda>s. as_id s = session_id \<and> as_org_id s = None)
                        (\<lambda>s. s\<lparr>as_org_id := Some org\<rparr>) (auth_sessions d1)\<rparr>, Some org)))"

section \<open>Sessions\<close>

definition live_session :: "datetime \<Rightarrow> int \<Rightarrow> auth_session \<Rightarrow> bool" where
  "live_session now idle s \<longleftrightarrow> as_revoked_at s = None \<and> now < as_expires_at s \<and> now - idle < as_last_seen_at s"

definition dead_session :: "datetime \<Rightarrow> int \<Rightarrow> auth_session \<Rightarrow> bool" where
  "dead_session now idle s \<longleftrightarrow> as_revoked_at s \<noteq> None \<or> as_expires_at s < now \<or> as_last_seen_at s < now - idle"

definition create_session :: "db \<Rightarrow> uuid \<Rightarrow> string \<Rightarrow> uuid \<Rightarrow> uuid option \<Rightarrow> sign_in_method \<Rightarrow> string option \<Rightarrow> string option
    \<Rightarrow> string option \<Rightarrow> string option \<Rightarrow> int \<Rightarrow> int \<Rightarrow> datetime \<Rightarrow> db" where
  "create_session d i h u org sim sid token ip agent absolute idle now =
     d\<lparr>auth_sessions := delete_where (\<lambda>s. as_user_id s = u \<and> dead_session now idle s) (auth_sessions d) @
        [\<lparr>as_id = i, as_id_hash = h, as_user_id = u, as_org_id = org, as_sign_in_method = sim, as_idp_sid = sid,
          as_id_token = token, as_ip_address = ip, as_user_agent = agent, as_created_at = now,
          as_last_seen_at = now, as_expires_at = now + absolute, as_revoked_at = None\<rparr>]\<rparr>"

record live =
  cs_session :: auth_session
  cs_user_disabled :: bool

text \<open>The session is returned as it was before its \<open>last_seen_at\<close> is touched.\<close>

definition find_session :: "db \<Rightarrow> string \<Rightarrow> int \<Rightarrow> datetime \<Rightarrow> db \<times> live option" where
  "find_session d h idle now =
     (case List.find (\<lambda>s. as_id_hash s = h \<and> live_session now idle s \<and> (\<exists>u \<in> set (users d). us_id u = as_user_id s))
            (auth_sessions d) of
        None \<Rightarrow> (d, None)
      | Some s \<Rightarrow>
          (d\<lparr>auth_sessions := update_where (\<lambda>x. as_id x = as_id s \<and> as_last_seen_at x < now - TOUCH_INTERVAL)
               (\<lambda>x. x\<lparr>as_last_seen_at := now\<rparr>) (auth_sessions d)\<rparr>,
           Some \<lparr>cs_session = s, cs_user_disabled =
             (case List.find (\<lambda>u. us_id u = as_user_id s) (users d) of None \<Rightarrow> False | Some u \<Rightarrow> us_disabled_at u \<noteq> None)\<rparr>))"

definition list_sessions :: "db \<Rightarrow> uuid \<Rightarrow> int \<Rightarrow> datetime \<Rightarrow> auth_session list" where
  "list_sessions d u idle now =
     sort_key (\<lambda>s. (- as_last_seen_at s, - as_created_at s))
       (filter (\<lambda>s. as_user_id s = u \<and> live_session now idle s) (auth_sessions d))"

text \<open>The revoking updates share one shape: the rows picked that are not revoked yet, and their number.\<close>

definition revoke_where :: "db \<Rightarrow> (auth_session \<Rightarrow> bool) \<Rightarrow> datetime \<Rightarrow> db \<times> nat" where
  "revoke_where d p now =
     (d\<lparr>auth_sessions := update_where (\<lambda>s. p s \<and> as_revoked_at s = None) (\<lambda>s. s\<lparr>as_revoked_at := Some now\<rparr>)
          (auth_sessions d)\<rparr>,
      length (filter (\<lambda>s. p s \<and> as_revoked_at s = None) (auth_sessions d)))"

definition revoke_session :: "db \<Rightarrow> uuid \<Rightarrow> uuid \<Rightarrow> datetime \<Rightarrow> db \<times> bool" where
  "revoke_session d i u now =
     (let (d', n) = revoke_where d (\<lambda>s. as_id s = i \<and> as_user_id s = u) now in (d', n \<noteq> 0))"

definition revoke_user_sessions :: "db \<Rightarrow> uuid \<Rightarrow> uuid option \<Rightarrow> datetime \<Rightarrow> db \<times> nat" where
  "revoke_user_sessions d u keep now = revoke_where d (\<lambda>s. as_user_id s = u \<and> keep \<noteq> Some (as_id s)) now"

definition is_text :: "string option \<Rightarrow> bool" where
  "is_text x \<longleftrightarrow> x \<noteq> None \<and> x \<noteq> Some []"

definition revoke_by_idp :: "db \<Rightarrow> string \<Rightarrow> string option \<Rightarrow> string option \<Rightarrow> datetime \<Rightarrow> db \<times> nat" where
  "revoke_by_idp d iss sid subj now =
     (if is_text sid then revoke_where d (\<lambda>s. as_idp_sid s = sid) now
      else if is_text subj
      then revoke_where d (\<lambda>s. map_option ui_user_id (List.find (is_identity iss (the subj)) (user_identities d))
             = Some (as_user_id s)) now
      else (d, 0))"

section \<open>The session of a request\<close>

text \<open>\<open>token_hash\<close> is the keyed hash of a cookie's token.\<close>

definition current_session :: "db \<Rightarrow> bool \<Rightarrow> (string \<Rightarrow> string) \<Rightarrow> string option \<Rightarrow> int \<Rightarrow> datetime \<Rightarrow> db \<times> live option" where
  "current_session d oidc token_hash cookie idle now =
     (if \<not> is_text cookie \<or> \<not> oidc then (d, None)
      else case find_session d (token_hash (the cookie)) idle now of
             (d1, None) \<Rightarrow> (d1, None)
           | (d1, Some s) \<Rightarrow>
               if cs_user_disabled s then (fst (revoke_user_sessions d1 (as_user_id (cs_session s)) None now), None)
               else (d1, Some s))"

definition passkey_is_fresh :: "bool \<Rightarrow> int \<Rightarrow> live option \<Rightarrow> datetime \<Rightarrow> bool" where
  "passkey_is_fresh dev fresh s now \<longleftrightarrow>
     dev \<or> (case s of None \<Rightarrow> False
       | Some x \<Rightarrow> as_sign_in_method (cs_session x) = Passkey \<and> now - as_created_at (cs_session x) < fresh)"

text \<open>The status and detail of the refusal, or a pass.\<close>

definition require_recent_passkey :: "bool \<Rightarrow> int \<Rightarrow> live option \<Rightarrow> datetime \<Rightarrow> (int \<times> string) + unit" where
  "require_recent_passkey dev fresh s now =
     (if dev then Inr ()
      else if s = None then Inl (401, ''not_authenticated'')
      else if \<not> passkey_is_fresh dev fresh s now then Inl (403, ''second-factor-required'')
      else Inr ())"

section \<open>Facts\<close>

definition auth_ok :: "db \<Rightarrow> bool" where
  "auth_ok d \<longleftrightarrow> uniq_key us_id (users d) \<and> uniq_key us_email (users d) \<and>
     uniq_key (\<lambda>i. (ui_issuer i, ui_subject i)) (user_identities d) \<and>
     (\<forall>i \<in> set (user_identities d). \<exists>u \<in> set (users d). us_id u = ui_user_id i) \<and>
     uniq_key as_id (auth_sessions d) \<and> uniq_key as_id_hash (auth_sessions d)"

lemma accept_one_frames:
  "users (accept_one u e now ix d) = users d" "user_identities (accept_one u e now ix d) = user_identities d"
  "auth_sessions (accept_one u e now ix d) = auth_sessions d"
  by (simp_all add: accept_one_def Let_def set_invitation_def raise_org_role_def raise_ws_role_def
      split: prod.splits option.splits)

lemma fold_accept_frames:
  "users (fold (accept_one u e now) ixs d) = users d \<and> user_identities (fold (accept_one u e now) ixs d) = user_identities d
   \<and> auth_sessions (fold (accept_one u e now) ixs d) = auth_sessions d"
  by (induction ixs arbitrary: d) (simp_all add: accept_one_frames)

lemma accept_frames [frame_simps]:
  "users (fst (accept_invitations d u now ids)) = users d"
  "user_identities (fst (accept_invitations d u now ids)) = user_identities d"
  "auth_sessions (fst (accept_invitations d u now ids)) = auth_sessions d"
  using fold_accept_frames by (simp_all add: accept_invitations_def Let_def split: option.splits)

lemma bootstrap_frames [frame_simps]:
  "users (admin_bootstrap d u e a now) = users d" "user_identities (admin_bootstrap d u e a now) = user_identities d"
  "auth_sessions (admin_bootstrap d u e a now) = auth_sessions d" "invitations (admin_bootstrap d u e a now) = invitations d"
  by (simp_all add: admin_bootstrap_def)

lemma resolve_frames [frame_simps]:
  "auth_sessions (fst (resolve_user d iss subj e n u now)) = auth_sessions d"
  "org_memberships (fst (resolve_user d iss subj e n u now)) = org_memberships d"
  "invitations (fst (resolve_user d iss subj e n u now)) = invitations d"
  by (simp_all add: resolve_user_def Let_def split: option.splits)

lemma login_parts:
  assumes "login d iss subj raw verified display admin_email new_user ids now = Inr (d', r)"
  shows "verified" and "lower (btrim raw) \<noteq> []"
    and "d' = fst (accept_invitations (admin_bootstrap (fst (resolve_user d iss subj (lower (btrim raw)) display new_user now))
            (lr_user_id r) (lower (btrim raw)) admin_email now) (lr_user_id r) now ids)"
    and "lr_user_id r = snd (resolve_user d iss subj (lower (btrim raw)) display new_user now)"
  using assms by (auto simp: login_def Let_def split: if_splits prod.splits)

lemma find_identity:
  assumes "uniq_key (\<lambda>i. (ui_issuer i, ui_subject i)) t" and "i \<in> set t" and "is_identity iss subj i"
  shows "List.find (is_identity iss subj) t = Some i"
proof (rule find_uniq)
  show "s = i" if "s \<in> set t" "is_identity iss subj s" for s
    using uniq_keyD [OF assms(1) that(1) assms(2)] that(2) assms(3) by (simp add: is_identity_def)
qed (rule assms(2,3))+

lemma resolve_user_ok:
  assumes ok: "auth_ok d" and fresh: "new_user \<notin> us_id ` set (users d)"
    and r: "resolve_user d iss subj e n new_user now = (d1, u)"
  shows "auth_ok d1 \<and> (\<exists>i \<in> set (user_identities d1). is_identity iss subj i \<and> ui_user_id i = u)"
proof (cases "List.find (is_identity iss subj) (user_identities d)")
  case (Some i)
  then have i: "i \<in> set (user_identities d)" "is_identity iss subj i" by (auto dest: find_SomeD)
  let ?f = "\<lambda>x. x\<lparr>ui_last_login_at := now, ui_email_at_login := e\<rparr>"
  have d1: "d1 = d\<lparr>user_identities := update_where (is_identity iss subj) ?f (user_identities d)\<rparr>" "u = ui_user_id i"
    using r Some by (auto simp: resolve_user_def)
  have "uniq_key (\<lambda>i. (ui_issuer i, ui_subject i)) (update_where (is_identity iss subj) ?f (user_identities d))"
    using ok by (intro uniq_key_update_where) (auto simp: auth_ok_def)
  moreover have "?f i \<in> set (user_identities d1)" using i by (auto simp: d1 in_set_update_where)
  ultimately show ?thesis using ok d1(2) i(2)
    by (intro conjI bexI [of _ "?f i"]) (auto simp: auth_ok_def d1(1) is_identity_def)
next
  case None
  then have new: "\<forall>i \<in> set (user_identities d). \<not> is_identity iss subj i" by (simp add: find_None_iff')
  let ?row = "\<lambda>u. \<lparr>ui_issuer = iss, ui_subject = subj, ui_user_id = u, ui_email_at_login = e, ui_created_at = now, ui_last_login_at = now\<rparr>"
  show ?thesis
  proof (cases "List.find (\<lambda>x. us_email x = e) (users d)")
    case (Some x)
    then have "x \<in> set (users d)" by (auto dest: find_SomeD)
    moreover have "d1 = d\<lparr>user_identities := user_identities d @ [?row u]\<rparr>" "u = us_id x"
      using r None Some by (auto simp: resolve_user_def Let_def)
    ultimately show ?thesis using ok new by (auto simp: auth_ok_def is_identity_def)
  next
    case e: None
    then have "\<forall>x \<in> set (users d). us_email x \<noteq> e" by (simp add: find_None_iff')
    moreover define y where "y = \<lparr>us_id = new_user, us_email = e,
       us_display_name = (if btrim n = [] then e else btrim n), us_created_at = now, us_disabled_at = None\<rparr>"
    moreover have "d1 = d\<lparr>users := users d @ [y], user_identities := user_identities d @ [?row u]\<rparr>" "u = new_user"
      using r None e by (auto simp: resolve_user_def Let_def y_def)
    ultimately show ?thesis using ok new fresh by (auto simp: auth_ok_def is_identity_def)
  qed
qed

lemma auth_ok_cong:
  "users d' = users d \<Longrightarrow> user_identities d' = user_identities d \<Longrightarrow> auth_sessions d' = auth_sessions d \<Longrightarrow> auth_ok d' = auth_ok d"
  by (simp add: auth_ok_def)

lemma login_tail:
  assumes "login d iss subj raw verified display admin_email new_user ids now = Inr (d', r)"
  shows "users d' = users (fst (resolve_user d iss subj (lower (btrim raw)) display new_user now))"
    and "user_identities d' = user_identities (fst (resolve_user d iss subj (lower (btrim raw)) display new_user now))"
    and "auth_sessions d' = auth_sessions (fst (resolve_user d iss subj (lower (btrim raw)) display new_user now))"
  by (simp_all add: login_parts(3) [OF assms] frame_simps)

section \<open>Properties of login\<close>

text \<open>C20: a login resolves an identity to one user for good: a known identity to the user it is linked
  to, whatever address it reports; an unknown one to the user who has its verified address, else to a new
  user; the identity is linked to that user afterwards, so that its later logins resolve to them, and
  users, addresses, identities and sessions stay unique.  An unverified address is refused.\<close>

theorem login_resolves_identity:
  assumes "auth_ok d" and "new_user \<notin> us_id ` set (users d)"
    and "login d iss subj raw verified display admin_email new_user ids now = Inr (d', r)"
  shows "verified \<and> auth_ok d' \<and>
    (\<exists>i \<in> set (user_identities d'). is_identity iss subj i \<and> ui_user_id i = lr_user_id r) \<and>
    (\<forall>i \<in> set (user_identities d). is_identity iss subj i \<longrightarrow> lr_user_id r = ui_user_id i) \<and>
    ((\<forall>i \<in> set (user_identities d). \<not> is_identity iss subj i) \<longrightarrow>
       (\<forall>u \<in> set (users d). us_email u = lower (btrim raw) \<longrightarrow> lr_user_id r = us_id u) \<and>
       ((\<forall>u \<in> set (users d). us_email u \<noteq> lower (btrim raw)) \<longrightarrow> lr_user_id r = new_user)) \<and>
    (\<forall>raw' display' admin' new' ids' now' d'' r'.
       login d' iss subj raw' True display' admin' new' ids' now' = Inr (d'', r') \<longrightarrow> lr_user_id r' = lr_user_id r)"
proof -
  let ?e = "lower (btrim raw)"
  obtain d1 u where res: "resolve_user d iss subj ?e display new_user now = (d1, u)" by fastforce
  note ok1 = resolve_user_ok [OF assms(1,2) res]
  have u: "lr_user_id r = u" using login_parts(4) [OF assms(3)] res by simp
  have frames: "users d' = users d1" "user_identities d' = user_identities d1" "auth_sessions d' = auth_sessions d1"
    using login_tail [OF assms(3)] res by simp_all
  have ok: "auth_ok d'" using ok1 auth_ok_cong [OF frames] by blast
  obtain i where i: "i \<in> set (user_identities d')" "is_identity iss subj i" "ui_user_id i = lr_user_id r"
    using ok1 frames(2) u by auto
  have known: "lr_user_id r = ui_user_id j" if "j \<in> set (user_identities d)" "is_identity iss subj j" for j
  proof -
    have "uniq_key (\<lambda>i. (ui_issuer i, ui_subject i)) (user_identities d)" using assms(1) by (simp add: auth_ok_def)
    from find_identity [OF this that] show ?thesis using res u by (simp add: resolve_user_def)
  qed
  have again: "lr_user_id r' = lr_user_id r"
    if "login d' iss subj raw' True display' admin' new' ids' now' = Inr (d'', r')" for raw' display' admin' new' ids' now' d'' r'
  proof -
    have "uniq_key (\<lambda>i. (ui_issuer i, ui_subject i)) (user_identities d')" using ok by (simp add: auth_ok_def)
    from find_identity [OF this i(1,2)] show ?thesis
      using login_parts(4) [OF that] i(3) by (simp add: resolve_user_def)
  qed
  have unknown: "(\<forall>x \<in> set (users d). us_email x = ?e \<longrightarrow> lr_user_id r = us_id x) \<and>
     ((\<forall>x \<in> set (users d). us_email x \<noteq> ?e) \<longrightarrow> lr_user_id r = new_user)"
    if none: "\<forall>i \<in> set (user_identities d). \<not> is_identity iss subj i"
  proof -
    have f: "List.find (is_identity iss subj) (user_identities d) = None" using none by (simp add: find_None_iff')
    show ?thesis
    proof (cases "List.find (\<lambda>x. us_email x = ?e) (users d)")
      case None
      have "u = new_user" using res unfolding resolve_user_def f None by (simp add: Let_def)
      moreover have "\<forall>x \<in> set (users d). us_email x \<noteq> ?e" using None by (simp add: find_None_iff')
      ultimately show ?thesis using u by blast
    next
      case (Some x)
      then have x: "x \<in> set (users d)" "us_email x = ?e" by (auto dest: find_SomeD)
      have uk: "uniq_key us_email (users d)" using assms(1) by (simp add: auth_ok_def)
      have "\<forall>y \<in> set (users d). us_email y = ?e \<longrightarrow> y = x"
      proof (intro ballI impI)
        fix y assume "y \<in> set (users d)" "us_email y = ?e"
        with uniq_keyD [OF uk this(1) x(1)] x(2) show "y = x" by simp
      qed
      moreover have "u = us_id x" using res unfolding resolve_user_def f Some by (simp add: Let_def)
      ultimately have "\<forall>y \<in> set (users d). us_email y = ?e \<longrightarrow> lr_user_id r = us_id y" using u by metis
      then show ?thesis using x by blast
    qed
  qed
  show ?thesis using login_parts(1) [OF assms(3)] ok i known again unknown by blast
qed

text \<open>Accepting makes no owner of anyone when no invitation names that role.\<close>

lemma raise_org_owner:
  "r \<noteq> OrgOwner \<Longrightarrow> m \<in> set (org_memberships (raise_org_role o' u r now d)) \<Longrightarrow> om_role m = OrgOwner \<Longrightarrow>
   \<exists>m' \<in> set (org_memberships d). om_org_id m' = om_org_id m \<and> om_user_id m' = om_user_id m \<and> om_role m' = OrgOwner"
  by (auto simp: raise_org_role_def upsert_def update_where_def split: if_splits)

lemma accept_one_orgs:
  "org_memberships (accept_one u e now ix d) = org_memberships (raise_org_role (inv_org_id (fst ix)) u (inv_org_role (fst ix)) now d)"
  by (simp add: accept_one_def Let_def set_invitation_def raise_ws_role_def split: prod.splits option.splits)

lemma fold_accept_owner:
  "(\<forall>ix \<in> set ixs. inv_org_role (fst ix) \<noteq> OrgOwner) \<Longrightarrow>
   m \<in> set (org_memberships (fold (accept_one u e now) ixs d)) \<Longrightarrow> om_role m = OrgOwner \<Longrightarrow>
   \<exists>m' \<in> set (org_memberships d). om_org_id m' = om_org_id m \<and> om_user_id m' = om_user_id m \<and> om_role m' = OrgOwner"
proof (induction ixs arbitrary: d)
  case (Cons ix ixs)
  then obtain m' where "m' \<in> set (org_memberships (accept_one u e now ix d))" "om_org_id m' = om_org_id m"
      "om_user_id m' = om_user_id m" "om_role m' = OrgOwner"
    by fastforce
  with raise_org_owner [of "inv_org_role (fst ix)" m'] Cons.prems(1) show ?case
    unfolding accept_one_orgs by fastforce
qed auto

lemma in_upsertD:
  "x \<in> set (upsert k merge new t) \<Longrightarrow> x \<in> set t \<or> x = new \<or> (\<exists>old \<in> set t. k old = k new \<and> x = merge old new)"
  by (auto simp: upsert_def update_where_def split: if_splits)

lemma bootstrap_owner:
  assumes "m \<in> set (org_memberships (admin_bootstrap d u e admin_email now))" and "om_role m = OrgOwner"
  shows "(\<exists>m' \<in> set (org_memberships d). om_org_id m' = om_org_id m \<and> om_user_id m' = om_user_id m \<and> om_role m' = OrgOwner) \<or>
    (om_org_id m = DEFAULT_ORG_ID \<and> om_user_id m = u \<and> (case admin_email of None \<Rightarrow> [] | Some a \<Rightarrow> lower (btrim a)) = e \<and>
      \<not> (\<exists>m \<in> set (org_memberships d). om_org_id m = DEFAULT_ORG_ID \<and> om_role m = OrgOwner \<and> om_user_id m \<noteq> BOOTSTRAP_USER_ID))"
proof (cases "org_memberships (admin_bootstrap d u e admin_email now) = org_memberships d")
  case False
  then have c: "(case admin_email of None \<Rightarrow> [] | Some a \<Rightarrow> lower (btrim a)) = e \<and>
      \<not> (\<exists>m \<in> set (org_memberships d). om_org_id m = DEFAULT_ORG_ID \<and> om_role m = OrgOwner \<and> om_user_id m \<noteq> BOOTSTRAP_USER_ID)"
    by (rule contrapos_np) (simp only: admin_bootstrap_def if_False)
  then have "org_memberships (admin_bootstrap d u e admin_email now) =
      upsert (\<lambda>m. (om_org_id m, om_user_id m)) (\<lambda>old new. old\<lparr>om_role := OrgOwner\<rparr>)
        \<lparr>om_org_id = DEFAULT_ORG_ID, om_user_id = u, om_role = OrgOwner, om_created_at = now\<rparr> (org_memberships d)"
    by (simp add: admin_bootstrap_def)
  from in_upsertD [OF assms(1) [unfolded this]] have "m \<in> set (org_memberships d) \<or> om_org_id m = DEFAULT_ORG_ID \<and> om_user_id m = u"
    by auto
  with c assms(2) show ?thesis by blast
qed (use assms in auto)

text \<open>Logging in makes no owner but the first: with invitations that offer no owner role (a constraint
  of their table), whoever is owner of an org after a login was it before, or is the user who logs in with
  the configured admin address while the default org has no owner of its own.\<close>

theorem login_makes_no_owner:
  assumes "login d iss subj raw verified display admin_email new_user ids now = Inr (d', r)"
    and "\<forall>i \<in> set (invitations d). inv_org_role i \<noteq> OrgOwner"
    and "m \<in> set (org_memberships d')" and "om_role m = OrgOwner"
  shows "(\<exists>m' \<in> set (org_memberships d). om_org_id m' = om_org_id m \<and> om_user_id m' = om_user_id m \<and> om_role m' = OrgOwner)
    \<or> (om_org_id m = DEFAULT_ORG_ID \<and> om_user_id m = lr_user_id r \<and> map_option (lower \<circ> btrim) admin_email = Some (lower (btrim raw)) \<and>
       \<not> (\<exists>m \<in> set (org_memberships d). om_org_id m = DEFAULT_ORG_ID \<and> om_role m = OrgOwner \<and> om_user_id m \<noteq> BOOTSTRAP_USER_ID))"
proof -
  let ?e = "lower (btrim raw)" and ?u = "lr_user_id r"
  let ?d1 = "fst (resolve_user d iss subj ?e display new_user now)"
  let ?d2 = "admin_bootstrap ?d1 ?u ?e admin_email now"
  have "\<exists>m2 \<in> set (org_memberships ?d2). om_org_id m2 = om_org_id m \<and> om_user_id m2 = om_user_id m \<and> om_role m2 = OrgOwner"
  proof -
    obtain joined where a: "accept_invitations ?d2 ?u now ids = (d', joined)"
      using login_parts(3) [OF assms(1)] by (metis prod.collapse)
    have inv: "invitations ?d2 = invitations d" by (simp add: frame_simps)
    have "\<forall>ix \<in> set (zip (acceptable ?d2 email now) ids). inv_org_role (fst ix) \<noteq> OrgOwner" for email
      using assms(2) by (auto simp: acceptable_def inv dest!: set_zip_leftD)
    from fold_accept_owner [OF this] assms(3,4) a show ?thesis
      by (auto simp: accept_invitations_def Let_def split: option.splits)
  qed
  then obtain m2 where m2: "m2 \<in> set (org_memberships ?d2)" "om_org_id m2 = om_org_id m" "om_user_id m2 = om_user_id m"
    "om_role m2 = OrgOwner" by blast
  have orgs: "org_memberships ?d1 = org_memberships d" by (simp add: frame_simps)
  from bootstrap_owner [OF m2(1,4)] have "(\<exists>m' \<in> set (org_memberships d). om_org_id m' = om_org_id m2 \<and> om_user_id m' = om_user_id m2 \<and> om_role m' = OrgOwner) \<or>
    (om_org_id m2 = DEFAULT_ORG_ID \<and> om_user_id m2 = ?u \<and> (case admin_email of None \<Rightarrow> [] | Some a \<Rightarrow> lower (btrim a)) = ?e \<and>
      \<not> (\<exists>m \<in> set (org_memberships d). om_org_id m = DEFAULT_ORG_ID \<and> om_role m = OrgOwner \<and> om_user_id m \<noteq> BOOTSTRAP_USER_ID))"
    unfolding orgs .
  moreover have "?e \<noteq> []" by (rule login_parts(2) [OF assms(1)])
  ultimately show ?thesis using m2 by (auto split: option.splits)
qed

section \<open>Properties of sessions\<close>

text \<open>A login flow is single use: taken within ten minutes it is what was stored and fresh, later it
  is stale, and once taken it is gone.\<close>

theorem flow_is_single_use:
  assumes "\<forall>x \<in> set (login_flows d). lf_id_hash x \<noteq> h" and "take_flow (create_flow d h f now) h t = (d', r)"
  shows "r = Some (f, t < now + FLOW_TTL) \<and> take_flow d' h t' = (d', None)"
proof -
  let ?old = "delete_where (\<lambda>x. lf_created_at x < now - FLOW_TTL) (login_flows d)"
  have "List.find (\<lambda>x. lf_id_hash x = h) ?old = None" using assms(1) by (simp add: find_None_iff')
  then have "List.find (\<lambda>x. lf_id_hash x = h) (?old @ [y]) = (if lf_id_hash y = h then Some y else None)" for y
    by (simp add: find_append_cases)
  then have "r = Some (f, t < now + FLOW_TTL)"
    using assms(2) by (auto simp: take_flow_def create_flow_def)
  moreover have "\<forall>x \<in> set (login_flows d'). lf_id_hash x \<noteq> h"
    using assms(2) by (auto simp: take_flow_def)
  then have "List.find (\<lambda>x. lf_id_hash x = h) (login_flows d') = None" "delete_where (\<lambda>x. lf_id_hash x = h) (login_flows d') = login_flows d'"
    by (auto simp: find_None_iff' delete_where_def)
  then have "take_flow d' h t' = (d', None)" by (simp add: take_flow_def)
  ultimately show ?thesis by blast
qed

lemma find_session_Some:
  assumes "auth_ok d"
  shows "snd (find_session d h idle now) = Some x \<longleftrightarrow>
    cs_session x \<in> set (auth_sessions d) \<and> as_id_hash (cs_session x) = h \<and> live_session now idle (cs_session x) \<and>
    (\<exists>u \<in> set (users d). us_id u = as_user_id (cs_session x) \<and> (cs_user_disabled x \<longleftrightarrow> us_disabled_at u \<noteq> None))"
    (is "?L \<longleftrightarrow> ?R")
proof -
  have us: "uniq_key us_id (users d)" and hs: "uniq_key as_id_hash (auth_sessions d)" using assms by (simp_all add: auth_ok_def)
  let ?P = "\<lambda>s. as_id_hash s = h \<and> live_session now idle s \<and> (\<exists>u \<in> set (users d). us_id u = as_user_id s)"
  have user: "List.find (\<lambda>u. us_id u = i) (users d) = Some u" if "u \<in> set (users d)" "us_id u = i" for u i
    by (rule find_key [OF us that])
  have sess: "List.find ?P (auth_sessions d) = Some s" if s: "s \<in> set (auth_sessions d)" "?P s" for s
  proof (rule find_uniq)
    show "s \<in> set (auth_sessions d)" by (rule s(1))
    show "?P s" by (rule s(2))
    show "s' = s" if s': "s' \<in> set (auth_sessions d)" "?P s'" for s'
    proof (rule uniq_keyD [OF hs s'(1) s(1)])
      from s(2) have "as_id_hash s = h" by blast
      moreover from s'(2) have "as_id_hash s' = h" by blast
      ultimately show "as_id_hash s' = as_id_hash s" by simp
    qed
  qed
  show ?thesis
  proof
    assume L: ?L
    then obtain s where s: "List.find ?P (auth_sessions d) = Some s" and x: "cs_session x = s"
        "cs_user_disabled x = (case List.find (\<lambda>u. us_id u = as_user_id s) (users d) of None \<Rightarrow> False | Some u \<Rightarrow> us_disabled_at u \<noteq> None)"
      by (auto simp: find_session_def split: option.splits)
    from s have sd: "?P s" "s \<in> set (auth_sessions d)" by (blast dest: find_SomeD)+
    then obtain u where u: "u \<in> set (users d)" "us_id u = as_user_id s" by blast
    with x(2) user [OF u] have "cs_user_disabled x \<longleftrightarrow> us_disabled_at u \<noteq> None" by simp
    with sd u x(1) show ?R by blast
  next
    assume R: ?R
    then obtain u where u: "u \<in> set (users d)" "us_id u = as_user_id (cs_session x)" "cs_user_disabled x \<longleftrightarrow> us_disabled_at u \<noteq> None"
      by blast
    have "List.find ?P (auth_sessions d) = Some (cs_session x)" using R by (intro sess) blast+
    with user [OF u(1,2)] u(3) show ?L by (cases x) (simp add: find_session_def)
  qed
qed

lemma find_session_sessions:
  "set (auth_sessions (fst (find_session d h idle now))) \<subseteq> set (auth_sessions d) \<union> (\<lambda>s. s\<lparr>as_last_seen_at := now\<rparr>) ` set (auth_sessions d)"
  by (auto simp: find_session_def table_simps split: option.splits)

text \<open>A request has a session exactly when its cookie's hash names a session that is not revoked, not
  expired and not idle, and whose user is enabled; a disabled user's cookie gives none and revokes every
  session the user has.\<close>

theorem session_of_request:
  assumes "auth_ok d" and "current_session d oidc token_hash (Some t) idle now = (d', r)" and "t \<noteq> []"
  shows "(\<forall>s. (\<exists>x. r = Some x \<and> cs_session x = s) \<longleftrightarrow>
       oidc \<and> s \<in> set (auth_sessions d) \<and> as_id_hash s = token_hash t \<and> as_revoked_at s = None \<and> now < as_expires_at s \<and>
       now - idle < as_last_seen_at s \<and> (\<exists>u \<in> set (users d). us_id u = as_user_id s \<and> us_disabled_at u = None)) \<and>
    (\<forall>s u. oidc \<and> s \<in> set (auth_sessions d) \<and> as_id_hash s = token_hash t \<and> live_session now idle s \<and>
       u \<in> set (users d) \<and> us_id u = as_user_id s \<and> us_disabled_at u \<noteq> None \<longrightarrow>
       r = None \<and> (\<forall>s' \<in> set (auth_sessions d'). as_user_id s' = us_id u \<longrightarrow> as_revoked_at s' \<noteq> None))"
proof (cases oidc)
  case True
  have us: "uniq_key us_id (users d)" using assms(1) by (simp add: auth_ok_def)
  note fs = find_session_Some [OF assms(1), of "token_hash t" idle now]
  obtain d1 f where f: "find_session d (token_hash t) idle now = (d1, f)" by fastforce
  have cur: "(d', r) = (case f of None \<Rightarrow> (d1, None) | Some s \<Rightarrow>
      if cs_user_disabled s then (fst (revoke_user_sessions d1 (as_user_id (cs_session s)) None now), None) else (d1, Some s))"
    using assms(2,3) True f by (simp add: current_session_def is_text_def split: option.splits)
  have enabled: "r = Some x \<longleftrightarrow> f = Some x \<and> \<not> cs_user_disabled x" for x
    using cur by (auto split: option.splits if_splits)
  show ?thesis
  proof (intro conjI allI impI)
    fix s
    show "(\<exists>x. r = Some x \<and> cs_session x = s) \<longleftrightarrow>
       oidc \<and> s \<in> set (auth_sessions d) \<and> as_id_hash s = token_hash t \<and> as_revoked_at s = None \<and> now < as_expires_at s \<and>
       now - idle < as_last_seen_at s \<and> (\<exists>u \<in> set (users d). us_id u = as_user_id s \<and> us_disabled_at u = None)" (is "?L \<longleftrightarrow> ?R")
    proof
      assume ?L
      then obtain x where x: "f = Some x" "\<not> cs_user_disabled x" "cs_session x = s" using enabled by blast
      with fs [of x] f True show ?R by (auto simp: live_session_def)
    next
      assume ?R
      then have "snd (find_session d (token_hash t) idle now) = Some \<lparr>cs_session = s, cs_user_disabled = False\<rparr>"
        unfolding fs by (auto simp: live_session_def)
      with f enabled show ?L by fastforce
    qed
  next
    fix s u
    assume a: "oidc \<and> s \<in> set (auth_sessions d) \<and> as_id_hash s = token_hash t \<and> live_session now idle s \<and>
       u \<in> set (users d) \<and> us_id u = as_user_id s \<and> us_disabled_at u \<noteq> None"
    then have "snd (find_session d (token_hash t) idle now) = Some \<lparr>cs_session = s, cs_user_disabled = True\<rparr>"
      unfolding fs by auto
    with f have "f = Some \<lparr>cs_session = s, cs_user_disabled = True\<rparr>" by simp
    with cur have r: "r = None" "d' = fst (revoke_user_sessions d1 (as_user_id s) None now)" by simp_all
    show "r = None" by (rule r(1))
    show "\<forall>s' \<in> set (auth_sessions d'). as_user_id s' = us_id u \<longrightarrow> as_revoked_at s' \<noteq> None"
      using a unfolding r(2) by (auto simp: revoke_user_sessions_def revoke_where_def)
  qed
qed (use assms in \<open>auto simp: current_session_def\<close>)

section \<open>Revocation is final\<close>

text \<open>
  The steps that touch sessions; \<open>h\<close> is a token hash that no new session gets (tokens are 32 random bytes).
\<close>

inductive auth_step :: "string \<Rightarrow> db \<Rightarrow> db \<Rightarrow> bool" for h where
  step_login: "login d iss subj e v n a u ids now = Inr (d', r) \<Longrightarrow> auth_step h d d'"
| step_join: "join_invited_org d i u ids now = (d', o') \<Longrightarrow> auth_step h d d'"
| step_create: "k \<noteq> h \<Longrightarrow> auth_step h d (create_session d i k u org sim sid tok ip agent absolute idle now)"
| step_find: "auth_step h d (fst (find_session d k idle now))"
| step_current: "auth_step h d (fst (current_session d oidc hash cookie idle now))"
| step_revoke: "auth_step h d (fst (revoke_session d i u now))"
| step_revoke_user: "auth_step h d (fst (revoke_user_sessions d u keep now))"
| step_revoke_idp: "auth_step h d (fst (revoke_by_idp d iss sid subj now))"
| step_remove_member: "remove_member d a r i e now = Inr d' \<Longrightarrow> auth_step h d d'"

inductive_cases auth_stepE: "auth_step h d d'"

definition all_revoked :: "string \<Rightarrow> db \<Rightarrow> bool" where
  "all_revoked h d \<longleftrightarrow> (\<forall>s \<in> set (auth_sessions d). as_id_hash s = h \<longrightarrow> as_revoked_at s \<noteq> None)"

lemma all_revoked_update:
  "all_revoked h d \<Longrightarrow> auth_sessions d' = update_where p f (auth_sessions d) \<Longrightarrow>
   (\<And>s. as_id_hash (f s) = as_id_hash s \<and> (as_revoked_at s \<noteq> None \<longrightarrow> as_revoked_at (f s) \<noteq> None)) \<Longrightarrow> all_revoked h d'"
  by (auto simp: all_revoked_def)

lemma all_revoked_same: "all_revoked h d \<Longrightarrow> auth_sessions d' = auth_sessions d \<Longrightarrow> all_revoked h d'"
  by (simp add: all_revoked_def)

lemma all_revoked_where: "all_revoked h d \<Longrightarrow> all_revoked h (fst (revoke_where d p now))"
  by (erule all_revoked_update [of _ _ _ "\<lambda>s. p s \<and> as_revoked_at s = None" "\<lambda>s. s\<lparr>as_revoked_at := Some now\<rparr>"])
    (simp_all add: revoke_where_def)

lemma all_revoked_find: "all_revoked h d \<Longrightarrow> all_revoked h (fst (find_session d k idle now))"
  by (auto simp: all_revoked_def find_session_def split: option.splits)

lemma all_revoked_current: "all_revoked h d \<Longrightarrow> all_revoked h (fst (current_session d oidc hash cookie idle now))"
proof -
  assume r: "all_revoked h d"
  note f = all_revoked_find [OF r, of "hash (the cookie)" idle now]
  show ?thesis using r f
    by (auto simp: current_session_def revoke_user_sessions_def all_revoked_where split: prod.splits option.splits)
qed

lemma all_revoked_join: "join_invited_org d i u ids now = (d', o') \<Longrightarrow> all_revoked h d \<Longrightarrow> all_revoked h d'"
proof -
  assume j: "join_invited_org d i u ids now = (d', o')" and r: "all_revoked h d"
  obtain d1 js where a: "accept_invitations d u now ids = (d1, js)" by fastforce
  have "auth_sessions d1 = auth_sessions d" using accept_frames(3) [of d u now ids] a by simp
  then have r1: "all_revoked h d1" using r by (rule all_revoked_same [rotated])
  show ?thesis
  proof (cases "js = []")
    case True
    with j a r1 show ?thesis by (simp add: join_invited_org_def)
  next
    case False
    let ?org = "if DEFAULT_ORG_ID \<in> set js then DEFAULT_ORG_ID else Min (set js)"
    have "auth_sessions d' = update_where (\<lambda>s. as_id s = i \<and> as_org_id s = None) (\<lambda>s. s\<lparr>as_org_id := Some ?org\<rparr>) (auth_sessions d1)"
      using j a False by (auto simp: join_invited_org_def Let_def)
    with r1 show ?thesis by (rule all_revoked_update) simp
  qed
qed

lemma auth_step_revoked: "auth_step h d d' \<Longrightarrow> all_revoked h d \<Longrightarrow> all_revoked h d'"
proof (erule auth_step.cases; hypsubst)
  fix dd d'' iss subj e v n a u ids now r
  assume "login dd iss subj e v n a u ids now = Inr (d'', r)" "all_revoked h dd"
  then show "all_revoked h d''" using login_tail(3) resolve_frames(1) all_revoked_same by metis
next
  fix dd i u ids now d'' o'
  assume "join_invited_org dd i u ids now = (d'', o')" "all_revoked h dd"
  then show "all_revoked h d''" by (rule all_revoked_join)
next
  fix k dd i u org sim sid tok ip agent absolute idle now
  assume "k \<noteq> h" "all_revoked h dd"
  then show "all_revoked h (create_session dd i k u org sim sid tok ip agent absolute idle now)"
    by (simp add: all_revoked_def create_session_def)
next
  fix dd a r i e now d''
  assume "remove_member dd a r i e now = Inr d''" "all_revoked h dd"
  then show "all_revoked h d''"
  proof (elim all_revoked_update)
    show "auth_sessions d'' = update_where (\<lambda>s. as_user_id s = i \<and> as_org_id s = Some (ac_org_id a) \<and> as_revoked_at s = None)
          (\<lambda>s. s\<lparr>as_revoked_at := Some now\<rparr>) (auth_sessions dd)"
      using \<open>remove_member dd a r i e now = Inr d''\<close>
      by (auto simp: remove_member_def result_simps audit_record_def drop_member_def)
  qed simp
next
  fix dd i u now
  assume "all_revoked h dd"
  from all_revoked_where [OF this, of "\<lambda>s. as_id s = i \<and> as_user_id s = u" now]
  show "all_revoked h (fst (revoke_session dd i u now))" by (simp add: revoke_session_def case_prod_beta Let_def)
qed (simp_all add: all_revoked_find all_revoked_current revoke_user_sessions_def revoke_by_idp_def all_revoked_where)

text \<open>A session that was revoked never works again: whatever logins, requests, revocations and
  removals of members follow, no request with its token finds a session (tokens are not handed out twice).\<close>

theorem revoked_session_is_dead:
  assumes "auth_ok d" and "s \<in> set (auth_sessions d)"
    and "revoke_session d (as_id s) (as_user_id s) now = (d1, b)" and "(auth_step (as_id_hash s))\<^sup>*\<^sup>* d1 d2"
  shows "(b \<longleftrightarrow> as_revoked_at s = None) \<and> find_session d2 (as_id_hash s) idle t = (d2, None)"
proof -
  let ?p = "\<lambda>x. as_id x = as_id s \<and> as_user_id x = as_user_id s"
  have ids: "uniq_key as_id (auth_sessions d)" and hs: "uniq_key as_id_hash (auth_sessions d)"
    using assms(1) by (simp_all add: auth_ok_def)
  have only: "x = s" if x: "x \<in> set (auth_sessions d)" "as_id x = as_id s \<or> as_id_hash x = as_id_hash s" for x
    using uniq_keyD [OF ids x(1) assms(2)] uniq_keyD [OF hs x(1) assms(2)] x(2) by blast
  have d1: "d1 = fst (revoke_where d ?p now)" and b: "b \<longleftrightarrow> filter (\<lambda>x. ?p x \<and> as_revoked_at x = None) (auth_sessions d) \<noteq> []"
    using assms(3) by (auto simp: revoke_session_def revoke_where_def)
  have "b \<longleftrightarrow> as_revoked_at s = None"
    unfolding b filter_empty_conv using only assms(2) by blast
  moreover have "all_revoked (as_id_hash s) d1"
    using only by (auto simp: d1 revoke_where_def all_revoked_def)
  with assms(4) have "all_revoked (as_id_hash s) d2"
    by (induction rule: rtranclp_induct) (auto intro: auth_step_revoked)
  then have "List.find (\<lambda>x. as_id_hash x = as_id_hash s \<and> live_session t idle x \<and> (\<exists>u \<in> set (users d2). us_id u = as_user_id x))
      (auth_sessions d2) = None"
    by (auto simp: find_None_iff' all_revoked_def live_session_def)
  ultimately show ?thesis by (simp add: find_session_def)
qed

section \<open>An example\<close>

definition ex_session :: auth_session where
  "ex_session = \<lparr>as_id = 30, as_id_hash = ''h'', as_user_id = 8, as_org_id = Some 1, as_sign_in_method = Passkey, as_idp_sid = None,
     as_id_token = None, as_ip_address = None, as_user_agent = None, as_created_at = 0, as_last_seen_at = 0,
     as_expires_at = 1000, as_revoked_at = None\<rparr>"

definition ex_auth :: db where
  "ex_auth = empty_db\<lparr>users := [user_row 8 None], auth_sessions := [ex_session], org_memberships := [owner_row 8]\<rparr>"

lemma ex_auth_ok: "auth_ok ex_auth"
  by (simp add: auth_ok_def ex_auth_def uniq_key_def empty_db_def)

theorem login_resolves_identity_witness:
  "\<exists>d' r. login ex_auth ''iss'' ''sub'' ''New@x.io'' True [] None 77 [] 5 = Inr (d', r) \<and> lr_user_id r = 77 \<and> auth_ok d'"
proof -
  have "\<not> isl (login ex_auth ''iss'' ''sub'' ''New@x.io'' True [] None 77 [] 5)"
    by (simp add: login_def Let_def case_prod_beta) code_simp
  then obtain d' r where r: "login ex_auth ''iss'' ''sub'' ''New@x.io'' True [] None 77 [] 5 = Inr (d', r)"
    by (metis sum.collapse(2) surj_pair)
  have "77 \<notin> us_id ` set (users ex_auth)" by (simp add: ex_auth_def user_row_def)
  note L = login_resolves_identity [OF ex_auth_ok this r]
  have "\<forall>i \<in> set (user_identities ex_auth). \<not> is_identity ''iss'' ''sub'' i" by (simp add: ex_auth_def empty_db_def)
  moreover have "\<forall>u \<in> set (users ex_auth). us_email u \<noteq> lower (btrim ''New@x.io'')" by code_simp
  ultimately have "lr_user_id r = 77" "auth_ok d'" using L by blast+
  with r show ?thesis by blast
qed

theorem login_makes_no_owner_witness:
  "\<exists>d' r. login ex_auth ''iss'' ''sub'' ''8'' True [] None 77 [] 5 = Inr (d', r) \<and> owner_row 8 \<in> set (org_memberships d')"
proof -
  have "\<not> isl (login ex_auth ''iss'' ''sub'' ''8'' True [] None 77 [] 5)"
    by (simp add: login_def Let_def case_prod_beta) code_simp
  then obtain d' r where r: "login ex_auth ''iss'' ''sub'' ''8'' True [] None 77 [] 5 = Inr (d', r)"
    by (metis sum.collapse(2) surj_pair)
  have inv: "\<forall>i \<in> set (invitations ex_auth). inv_org_role i \<noteq> OrgOwner" by (simp add: ex_auth_def empty_db_def)
  have "org_memberships d' = [owner_row 8]"
  proof -
    have "lower (btrim ''8'') \<noteq> []" by code_simp
    then have "admin_bootstrap d u (lower (btrim ''8'')) None now = d" for d u now by (auto simp: admin_bootstrap_def)
    moreover have "invitations ex_auth = []" "org_memberships ex_auth = [owner_row 8]" by (simp_all add: ex_auth_def empty_db_def)
    ultimately show ?thesis unfolding login_parts(3) [OF r]
      by (simp add: accept_invitations_def acceptable_def frame_simps Let_def split: option.splits)
  qed
  with login_makes_no_owner [OF r inv, of "owner_row 8"] r show ?thesis by (auto simp: owner_row_def)
qed

theorem flow_is_single_use_witness:
  "\<exists>d' f. take_flow (create_flow empty_db ''h'' f 0) ''h'' 5 = (d', Some (f, True)) \<and> take_flow d' ''h'' 6 = (d', None)"
proof -
  define f where "f = \<lparr>fw_state = [], fw_nonce = [], fw_code_verifier = [], fw_method = Google, fw_next_path = ''/''\<rparr>"
  obtain d' r where r: "take_flow (create_flow empty_db ''h'' f 0) ''h'' 5 = (d', r)" by fastforce
  have "\<forall>x \<in> set (login_flows empty_db). lf_id_hash x \<noteq> ''h''" by (simp add: empty_db_def)
  from flow_is_single_use [OF this r, of 6] r show ?thesis by (auto simp: FLOW_TTL_def)
qed

theorem session_of_request_witness:
  "\<exists>d' x. current_session ex_auth True (\<lambda>t. t) (Some ''h'') 100 5 = (d', Some x) \<and> cs_session x = ex_session"
proof -
  obtain d' r where r: "current_session ex_auth True (\<lambda>t. t) (Some ''h'') 100 5 = (d', r)" by fastforce
  have "ex_session \<in> set (auth_sessions ex_auth)" "user_row 8 None \<in> set (users ex_auth)" by (simp_all add: ex_auth_def)
  moreover have "as_id_hash ex_session = ''h''" "as_revoked_at ex_session = None" "5 < as_expires_at ex_session"
    "5 - 100 < as_last_seen_at ex_session" "us_id (user_row 8 None) = as_user_id ex_session" "us_disabled_at (user_row 8 None) = None"
    by (simp_all add: ex_session_def user_row_def)
  ultimately have "\<exists>x. r = Some x \<and> cs_session x = ex_session"
    using conjunct1 [OF session_of_request [OF ex_auth_ok r], rule_format, of ex_session] by blast
  with r show ?thesis by blast
qed

theorem revoked_session_is_dead_witness:
  "\<exists>d1. revoke_session ex_auth 30 8 5 = (d1, True) \<and> snd (find_session d1 ''h'' 100 6) = None"
proof -
  obtain d1 b where r: "revoke_session ex_auth 30 8 5 = (d1, b)" by fastforce
  have s: "ex_session \<in> set (auth_sessions ex_auth)" by (simp add: ex_auth_def)
  have "revoke_session ex_auth (as_id ex_session) (as_user_id ex_session) 5 = (d1, b)" using r by (simp add: ex_session_def)
  from revoked_session_is_dead [OF ex_auth_ok s this rtranclp.rtrancl_refl, of 100 6] r show ?thesis by (simp add: ex_session_def)
qed

end
