(* ===== verification/Timeparse.thy ===== *)
theory Timeparse
  imports Timeconv Strings
begin

text \<open>
  The text parsers of \<^verbatim>\<open>services/timeconv.py\<close>.  The standard library's
  \<^verbatim>\<open>datetime.fromisoformat\<close> is the parameter \<open>fromiso\<close>: the local time in microseconds and the
  UTC offset, if the text has one.
\<close>

section \<open>Decimal text\<close>

definition is_digit :: "char \<Rightarrow> bool" where
  "is_digit c \<longleftrightarrow> CHR ''0'' \<le> c \<and> c \<le> CHR ''9''"

definition digit_val :: "char \<Rightarrow> nat" where
  "digit_val c = of_char c - 48"

definition dec_val :: "string \<Rightarrow> nat" where
  "dec_val s = foldl (\<lambda>n c. 10 * n + digit_val c) 0 s"

text \<open>\<^verbatim>\<open>^-?\d+$\<close> and \<^verbatim>\<open>int\<close> of such a text.\<close>

definition is_epoch_text :: "string \<Rightarrow> bool" where
  "is_epoch_text s =
     (let ds = (case s of c # cs \<Rightarrow> if c = CHR ''-'' then cs else s | [] \<Rightarrow> [])
      in ds \<noteq> [] \<and> (\<forall>c \<in> set ds. is_digit c))"

definition int_val :: "string \<Rightarrow> int" where
  "int_val s = (case s of c # cs \<Rightarrow> if c = CHR ''-'' then - int (dec_val cs) else int (dec_val s) | [] \<Rightarrow> 0)"

section \<open>The parsers\<close>

text \<open>Datetimes lie in the years 1 to 9999.\<close>

definition MIN_DATETIME :: datetime where "MIN_DATETIME = - 62135596800000000"
definition MAX_DATETIME :: datetime where "MAX_DATETIME = 253402300799999999"

type_synonym iso_parser = "string \<Rightarrow> (datetime \<times> int option) option"

definition parse_time :: "iso_parser \<Rightarrow> string \<Rightarrow> string + datetime" where
  "parse_time fromiso value =
     (let text = strip value; bad = Inl (''not RFC 3339 or epoch ns: '' @ value)
      in if is_epoch_text text
         then (let d = ns_to_datetime (int_val text)
               in if MIN_DATETIME \<le> d \<and> d \<le> MAX_DATETIME then Inr d else bad)
         else (case fromiso text of None \<Rightarrow> bad | Some (t, None) \<Rightarrow> Inr t | Some (t, Some offset) \<Rightarrow> Inr (t - offset)))"

text \<open>The digits of the first decimal mark that has any: \<^verbatim>\<open>[.,](\d+)\<close>.\<close>

fun fraction_of :: "string \<Rightarrow> string option" where
  "fraction_of [] = None"
| "fraction_of (c # cs) =
     (if (c = CHR ''.'' \<or> c = CHR '','') \<and> takeWhile is_digit cs \<noteq> [] then Some (takeWhile is_digit cs) else fraction_of cs)"

definition ljust0 :: "nat \<Rightarrow> string \<Rightarrow> string" where
  "ljust0 n s = s @ replicate (n - length s) (CHR ''0'')"

definition parse_time_ns :: "iso_parser \<Rightarrow> string \<Rightarrow> string + ns" where
  "parse_time_ns fromiso value =
     (let text = strip value
      in if is_epoch_text text then Inr (int_val text)
         else rbind (parse_time fromiso text) (\<lambda>d.
           (case fraction_of text of
              Some ds \<Rightarrow> if 6 < length ds then Inr (datetime_to_ns d + int (dec_val (ljust0 3 (take 3 (drop 6 ds)))))
                         else Inr (datetime_to_ns d)
            | None \<Rightarrow> Inr (datetime_to_ns d))))"

section \<open>Facts\<close>

lemma digit_char_facts: "d < 10 \<Longrightarrow> is_digit (digit_char d) \<and> digit_val (digit_char d) = d \<and> digit_char d \<noteq> CHR ''-'' \<and> \<not> is_space (digit_char d)"
proof -
  assume "d < 10"
  then have "d = 0 \<or> d = 1 \<or> d = 2 \<or> d = 3 \<or> d = 4 \<or> d = 5 \<or> d = 6 \<or> d = 7 \<or> d = 8 \<or> d = 9" by presburger
  then show ?thesis
    by (elim disjE; hypsubst; code_simp)
qed

lemma dec_val_snoc: "dec_val (s @ [c]) = 10 * dec_val s + digit_val c"
  by (simp add: dec_val_def)

lemma nat_str_facts: "nat_str n \<noteq> [] \<and> (\<forall>c \<in> set (nat_str n). is_digit c \<and> c \<noteq> CHR ''-'' \<and> \<not> is_space c) \<and> dec_val (nat_str n) = n"
proof (induction n rule: nat_str.induct)
  case (1 n)
  show ?case
  proof (cases "n < 10")
    case True
    then show ?thesis using digit_char_facts [OF True] by (subst (1 2 3) nat_str.simps) (simp add: dec_val_def)
  next
    case False
    have m: "n mod 10 < 10" by simp
    show ?thesis using 1 [OF False] digit_char_facts [OF m] False
      by (subst (1 2 3) nat_str.simps) (auto simp: dec_val_snoc)
  qed
qed

lemma strip_id: "s \<noteq> [] \<Longrightarrow> \<not> is_space (hd s) \<Longrightarrow> \<not> is_space (last s) \<Longrightarrow> strip s = s"
proof -
  assume s: "s \<noteq> []" "\<not> is_space (hd s)" "\<not> is_space (last s)"
  then have "dropWhile is_space s = s" by (cases s) auto
  moreover have "dropWhile is_space (rev s) = rev s" using s by (cases s rule: rev_cases) auto
  ultimately show ?thesis by (simp add: strip_def)
qed

lemma int_str_facts: "is_epoch_text (int_str i) \<and> int_val (int_str i) = i \<and> strip (int_str i) = int_str i"
proof -
  have digits: "is_epoch_text (nat_str n) \<and> int_val (nat_str n) = int n \<and> strip (nat_str n) = nat_str n" for n
  proof -
    obtain c cs where n: "nat_str n = c # cs" using nat_str_facts [of n] by (cases "nat_str n") auto
    have "last (c # cs) \<in> set (nat_str n)" unfolding n by (rule last_in_set) simp
    then show ?thesis using nat_str_facts [of n] strip_id [of "c # cs"] unfolding n by (auto simp: is_epoch_text_def int_val_def)
  qed
  show ?thesis
  proof (cases "i < 0")
    case True
    have ne: "nat_str (nat (- i)) \<noteq> []" "\<forall>c \<in> set (nat_str (nat (- i))). is_digit c \<and> \<not> is_space c" "dec_val (nat_str (nat (- i))) = nat (- i)"
      using nat_str_facts by auto
    have "strip (CHR ''-'' # nat_str (nat (- i))) = CHR ''-'' # nat_str (nat (- i))"
      using ne by (intro strip_id) (auto simp: is_space_def)
    with True ne show ?thesis by (auto simp: int_str_def is_epoch_text_def int_val_def)
  qed (use digits [of "nat i"] in \<open>simp add: int_str_def\<close>)
qed

lemma strip_strip [simp]: "strip (strip s) = strip s"
proof (cases "strip s = []")
  case False
  let ?t = "dropWhile is_space s"
  let ?u = "dropWhile is_space (rev ?t)"
  have st: "strip s = rev ?u" by (simp add: strip_def)
  have "?t = rev ?u @ rev (takeWhile is_space (rev ?t))"
    by (metis rev_append rev_rev_ident takeWhile_dropWhile_id)
  with False st have "hd (strip s) = hd ?t" "?t \<noteq> []" by (metis hd_append2, force simp: strip_def)
  then have "\<not> is_space (hd (strip s))" using hd_dropWhile [of is_space s] by simp
  moreover have "\<not> is_space (last (strip s))" using False st hd_dropWhile [of is_space "rev ?t"] by (auto simp: last_rev)
  ultimately show ?thesis using False by (intro strip_id)
next
  case True
  have "strip [] = []" by (simp add: strip_def)
  with True show ?thesis by simp
qed

lemma digit_val_less: "is_digit c \<Longrightarrow> digit_val c < 10"
  unfolding is_digit_def digit_val_def less_eq_char_def by simp presburger

lemma dec_val_less: "\<forall>c \<in> set s. is_digit c \<Longrightarrow> dec_val s < 10 ^ length s"
proof (induction s rule: rev_induct)
  case (snoc c s)
  then have "dec_val s < 10 ^ length s" "digit_val c < 10" by (simp_all add: digit_val_less)
  then show ?case by (simp add: dec_val_snoc)
qed (simp add: dec_val_def)

lemma fraction_digits: "fraction_of s = Some ds \<Longrightarrow> \<forall>c \<in> set ds. is_digit c"
  by (induction s) (auto split: if_splits dest: set_takeWhileD)

lemma nanos_less: "\<forall>c \<in> set ds. is_digit c \<Longrightarrow> dec_val (ljust0 3 (take 3 ds)) < 1000"
proof -
  assume "\<forall>c \<in> set ds. is_digit c"
  then have "\<forall>c \<in> set (ljust0 3 (take 3 ds)). is_digit c"
    by (auto simp: ljust0_def is_digit_def less_eq_char_def dest: in_set_takeD)
  moreover have "length (ljust0 3 (take 3 ds)) = 3" by (simp add: ljust0_def)
  ultimately show ?thesis using dec_val_less by fastforce
qed

section \<open>A property of the parsers\<close>

text \<open>The two parsers name the same instant: whenever both accept a text, the exact one lies in the
  microsecond the other gives, and decimal nanoseconds are read back exactly, whatever their size, while
  the other refuses exactly those outside the years 1 to 9999.\<close>

theorem parsers_agree:
  "(\<forall>t d. parse_time_ns fromiso v = Inr t \<longrightarrow> parse_time fromiso v = Inr d \<longrightarrow> datetime_to_ns d \<le> t \<and> t < datetime_to_ns d + 1000)
   \<and> parse_time_ns fromiso (int_str i) = Inr i
   \<and> (parse_time fromiso (int_str i) = Inr (ns_to_datetime i) \<longleftrightarrow>
        MIN_DATETIME \<le> ns_to_datetime i \<and> ns_to_datetime i \<le> MAX_DATETIME)"
proof (intro conjI allI impI)
  fix t d assume t: "parse_time_ns fromiso v = Inr t" and d: "parse_time fromiso v = Inr d"
  have "datetime_to_ns d \<le> t \<and> t < datetime_to_ns d + 1000"
  proof (cases "is_epoch_text (strip v)")
    case True
    with t d have "ns_to_datetime t = d" by (auto simp: parse_time_ns_def parse_time_def Let_def split: if_splits)
    with datetime_to_ns_floor [of t] show ?thesis by simp
  next
    case False
    have "parse_time fromiso (strip v) = Inr d"
      using d False by (auto simp: parse_time_def Let_def split: option.splits)
    with t False have "t = datetime_to_ns d \<or> (\<exists>ds. fraction_of (strip v) = Some ds \<and>
        t = datetime_to_ns d + int (dec_val (ljust0 3 (take 3 (drop 6 ds)))))"
      by (auto simp: parse_time_ns_def Let_def split: option.splits if_splits)
    then show ?thesis
    proof (elim disjE exE conjE)
      fix ds assume ds: "fraction_of (strip v) = Some ds" and e: "t = datetime_to_ns d + int (dec_val (ljust0 3 (take 3 (drop 6 ds))))"
      have "\<forall>c \<in> set (drop 6 ds). is_digit c" using fraction_digits [OF ds] by (auto dest: in_set_dropD)
      from nanos_less [OF this] e show ?thesis by simp
    qed simp
  qed
  then show "datetime_to_ns d \<le> t" "t < datetime_to_ns d + 1000" by simp_all
next
  show "parse_time_ns fromiso (int_str i) = Inr i"
    by (simp add: parse_time_ns_def int_str_facts)
  show "parse_time fromiso (int_str i) = Inr (ns_to_datetime i) \<longleftrightarrow>
        MIN_DATETIME \<le> ns_to_datetime i \<and> ns_to_datetime i \<le> MAX_DATETIME"
    by (auto simp: parse_time_def Let_def int_str_facts)
qed

theorem parsers_agree_witness:
  "parse_time_ns (\<lambda>s. if s = ''2026-01-01T00:00:00.1234567'' then Some (1767225600123456, None) else None)
     ''2026-01-01T00:00:00.1234567'' = Inr 1767225600123456700
   \<and> datetime_to_ns 1767225600123456 \<le> 1767225600123456700"
proof -
  let ?iso = "\<lambda>s. if s = ''2026-01-01T00:00:00.1234567'' then Some (1767225600123456, None) else None"
  have t: "parse_time_ns ?iso ''2026-01-01T00:00:00.1234567'' = Inr 1767225600123456700" by code_simp
  have d: "parse_time ?iso ''2026-01-01T00:00:00.1234567'' = Inr 1767225600123456" by code_simp
  from conjunct1 [OF parsers_agree [of ?iso "''2026-01-01T00:00:00.1234567''" 0]] t d show ?thesis by blast
qed

end
