(* ===== verification/Settings.thy ===== *)
theory Settings
  imports Auth_Store Timeparse
begin

text \<open>
  \<^verbatim>\<open>settings.py\<close>: the validators of the environment's values, and what a production start requires.  \<^verbatim>\<open>urlsplit\<close>, base64,
  \<^verbatim>\<open>ipaddress\<close> and the other forms of a duration are parameters.  A secret that is set to nothing counts as unset, as the
  code's tests of truth do.
\<close>

section \<open>The settings\<close>

datatype auth_mode = OidcMode | DevMode

record settings =
  st_env :: string
  st_database_url :: string
  st_migration_database_url :: "string option"
  st_db_pool_size :: int
  st_db_pool_max_overflow :: int
  st_worker_concurrency :: int
  st_cache_url :: string
  st_s3_endpoint :: "string option"
  st_s3_region :: string
  st_s3_access_key_id :: "string option"
  st_s3_secret_access_key :: "string option"
  st_oidc_issuer :: "string option"
  st_oidc_client_id :: string
  st_oidc_client_secret :: "string option"
  st_session_secret :: "string option"
  st_auth_mode :: "auth_mode option"
  st_public_url :: "string option"
  st_sign_in_methods :: string
  st_admin_email :: "string option"
  st_session_idle :: int
  st_session_absolute :: int
  st_passkey_fresh :: int
  st_smtp_host :: "string option"
  st_smtp_port :: int
  st_smtp_from :: "string option"
  st_smtp_password :: "string option"
  st_invitation_ttl :: int
  st_master_key :: "string option"
  st_master_key_previous :: "string option"
  st_connector_allowed_networks :: string
  st_connector_allow_public :: bool
  st_run_fetch_budget_s :: int
  st_chart_max_rows :: int
  st_file_sources_root :: "string option"

text \<open>Scheme, network location and path of a text.\<close>

type_synonym url_parts = "string \<Rightarrow> string \<times> string \<times> string"

record settings_env =
  sv_urlsplit :: url_parts
  sv_b64decode :: "string \<Rightarrow> nat list option"
  sv_network :: "string \<Rightarrow> string option"
  sv_duration :: "string \<Rightarrow> int option"

section \<open>Validators\<close>

fun split_on :: "char \<Rightarrow> string \<Rightarrow> string list" where
  "split_on c [] = [[]]"
| "split_on c (x # xs) =
     (if x = c then [] # split_on c xs
      else (case split_on c xs of [] \<Rightarrow> [[x]] | w # ws \<Rightarrow> (x # w) # ws))"

definition duration_unit :: "string \<Rightarrow> int option" where
  "duration_unit u =
     (if u = ''s'' then Some 1000000 else if u = ''m'' then Some (60 * 1000000) else if u = ''h'' then Some (3600 * 1000000)
      else if u = ''d'' then Some (86400 * 1000000) else None)"

text \<open>\<^verbatim>\<open>timedelta\<close> holds less than a thousand million days.\<close>

definition MAX_TIMEDELTA :: int where "MAX_TIMEDELTA = 1000000000 * 86400 * 1000000"

definition duration_of :: "settings_env \<Rightarrow> string \<Rightarrow> int option" where
  "duration_of S value =
     (let v = strip value; digits = takeWhile is_digit v; unit = dropWhile is_space (drop (length digits) v) in
      case (digits = [], duration_unit unit) of
        (False, Some us) \<Rightarrow>
          if int (dec_val digits) * us < MAX_TIMEDELTA then Some (int (dec_val digits) * us) else None
      | _ \<Rightarrow> sv_duration S value)"

definition is_quote :: "char \<Rightarrow> bool" where "is_quote c \<longleftrightarrow> c = CHR 0x27 \<or> c = CHR 0x22"

definition store_text :: "string \<Rightarrow> string option" where
  "store_text value =
     (let v = strip value in if v \<noteq> [] \<and> (is_quote (hd v) \<or> is_quote (last v)) then None else Some v)"

definition optional :: "('a \<Rightarrow> 'b option) \<Rightarrow> 'a option \<Rightarrow> 'b option option" where
  "optional f x = (case x of None \<Rightarrow> Some None | Some v \<Rightarrow> map_option Some (f v))"

definition checked_master_key :: "settings_env \<Rightarrow> string option \<Rightarrow> string option option" where
  "checked_master_key S value =
     (case value of
        None \<Rightarrow> Some None
      | Some v \<Rightarrow>
          if strip v = [] then Some None
          else (case sv_b64decode S (strip v) of
              None \<Rightarrow> None
            | Some raw \<Rightarrow> if length raw \<noteq> 32 then None else Some (Some v)))"

definition checked_networks :: "settings_env \<Rightarrow> string \<Rightarrow> string option" where
  "checked_networks S value =
     map_option (join_with '','')
       (those (map (\<lambda>p. sv_network S (strip p)) (filter (\<lambda>p. strip p \<noteq> []) (split_on (CHR '','') value))))"

definition checked_files_root :: "string option \<Rightarrow> string option option" where
  "checked_files_root value =
     (case value of
        None \<Rightarrow> Some None
      | Some t \<Rightarrow> (let v = strip t in if v = [] then Some None else if hd v \<noteq> CHR ''/'' then None else Some (Some v)))"

definition SIGN_IN_METHODS :: "string list" where "SIGN_IN_METHODS = [''google'', ''github'', ''passkey'']"

text \<open>\<^verbatim>\<open>dict.fromkeys\<close> keeps the first of equal names.\<close>

definition first_of_each :: "string list \<Rightarrow> string list" where
  "first_of_each ms = rev (remdups (rev ms))"

definition checked_methods :: "string \<Rightarrow> string option" where
  "checked_methods value =
     (let methods = filter (\<lambda>m. m \<noteq> []) (map strip (split_on (CHR '','') value)) in
      if methods = [] \<or> \<not> list_all (\<lambda>m. m \<in> set SIGN_IN_METHODS) methods then None
      else Some (join_with '','' (first_of_each methods)))"

record durations =
  du_session_idle :: string
  du_session_absolute :: string
  du_passkey_fresh :: string
  du_invitation_ttl :: string

definition numbers_in_range :: "settings \<Rightarrow> bool" where
  "numbers_in_range s \<longleftrightarrow>
     1 \<le> st_db_pool_size s \<and> 0 \<le> st_db_pool_max_overflow s \<and> 1 \<le> st_worker_concurrency s \<and>
     1 \<le> st_smtp_port s \<and> st_smtp_port s \<le> 65535 \<and> 0 \<le> st_run_fetch_budget_s s \<and> 1 \<le> st_chart_max_rows s"

text \<open>The settings as given, their durations as texts, and the settings that result, or a refusal.\<close>

definition validate_settings :: "settings_env \<Rightarrow> settings \<Rightarrow> durations \<Rightarrow> settings option" where
  "validate_settings S s w =
     (case (map (duration_of S) [du_session_idle w, du_session_absolute w, du_passkey_fresh w, du_invitation_ttl w],
         (store_text (st_cache_url s), optional store_text (st_s3_endpoint s), store_text (st_s3_region s), optional store_text (st_s3_access_key_id s)),
         (checked_master_key S (st_master_key s), checked_master_key S (st_master_key_previous s)),
         (checked_networks S (st_connector_allowed_networks s), checked_methods (st_sign_in_methods s)),
         checked_files_root (st_file_sources_root s)) of
        ([Some idle, Some absolute, Some fresh, Some ttl], (Some url, Some endpoint, Some region, Some key_id),
         (Some key, Some previous), (Some nets, Some methods), Some folder) \<Rightarrow>
          if numbers_in_range s
          then Some (s\<lparr>st_session_idle := idle, st_session_absolute := absolute, st_passkey_fresh := fresh, st_invitation_ttl := ttl,
            st_cache_url := url, st_s3_endpoint := endpoint, st_s3_region := region, st_s3_access_key_id := key_id,
            st_master_key := key, st_master_key_previous := previous, st_connector_allowed_networks := nets,
            st_sign_in_methods := methods, st_file_sources_root := folder\<rparr>)
          else None
      | _ \<Rightarrow> None)"

section \<open>What is derived\<close>

definition resolved_auth_mode :: "settings \<Rightarrow> auth_mode" where
  "resolved_auth_mode s = (case st_auth_mode s of Some m \<Rightarrow> m | None \<Rightarrow> if st_env s = ''prod'' then OidcMode else DevMode)"

definition enabled_sign_in_methods :: "settings \<Rightarrow> string list" where
  "enabled_sign_in_methods s = split_on (CHR '','') (st_sign_in_methods s)"

definition given :: "string option \<Rightarrow> string" where
  "given x = (case x of None \<Rightarrow> [] | Some v \<Rightarrow> v)"

definition mail_enabled :: "settings \<Rightarrow> bool" where
  "mail_enabled s \<longleftrightarrow> strip (given (st_smtp_host s)) \<noteq> []"

definition migration_url :: "settings \<Rightarrow> string" where
  "migration_url s = (if given (st_migration_database_url s) = [] then st_database_url s else given (st_migration_database_url s))"

section \<open>Starting in production\<close>

definition is_placeholder :: "string \<Rightarrow> bool" where
  "is_placeholder value \<longleftrightarrow>
     (let l = lower value in sublist ''change-me'' l \<or> sublist ''changeme'' l \<or> sublist ''placeholder'' l \<or> length (strip value) < 16)"

definition oidc_problems :: "settings_env \<Rightarrow> settings \<Rightarrow> string list" where
  "oidc_problems S s =
     (case sv_urlsplit S (given (st_public_url s)) of (scheme, netloc, path) \<Rightarrow>
        if scheme \<noteq> ''https'' \<or> netloc = [] \<or> path \<notin> {[], ''/''} then [''TABAYYUN_PUBLIC_URL (an https origin)''] else []) @
     (if \<not> prefix ''https://'' (given (st_oidc_issuer s)) then [''TABAYYUN_OIDC_ISSUER''] else []) @
     (if given (st_oidc_client_secret s) = [] then [''TABAYYUN_OIDC_CLIENT_SECRET''] else []) @
     (if strip (given (st_admin_email s)) = [] then [''TABAYYUN_ADMIN_EMAIL''] else [])"

definition mail_problems :: "settings \<Rightarrow> string list" where
  "mail_problems s =
     (if \<not> mail_enabled s then []
      else (let sender = lower (given (st_smtp_from s)) in
        (if CHR ''@'' \<notin> set sender \<or> sublist ''change-me'' sender \<or> sublist ''changeme'' sender \<or> sublist ''placeholder'' sender
         then [''TABAYYUN_SMTP_FROM''] else []) @
        (if given (st_smtp_password s) \<noteq> [] \<and> is_placeholder (given (st_smtp_password s)) then [''TABAYYUN_SMTP_PASSWORD''] else [])))"

definition default_login :: "string \<Rightarrow> bool" where
  "default_login url \<longleftrightarrow> sublist ''tabayyun:tabayyun@'' url \<or> is_placeholder url"

definition prod_problems :: "settings_env \<Rightarrow> settings \<Rightarrow> string list" where
  "prod_problems S s =
     (if given (st_session_secret s) = [] \<or> is_placeholder (given (st_session_secret s)) then [''TABAYYUN_SESSION_SECRET''] else []) @
     (if default_login (st_database_url s) then [''TABAYYUN_DATABASE_URL''] else []) @
     (if given (st_migration_database_url s) \<noteq> [] \<and> default_login (given (st_migration_database_url s))
      then [''TABAYYUN_MIGRATION_DATABASE_URL''] else []) @
     (if given (st_oidc_client_secret s) \<noteq> [] \<and> is_placeholder (given (st_oidc_client_secret s))
      then [''TABAYYUN_OIDC_CLIENT_SECRET''] else []) @
     (if resolved_auth_mode s = DevMode then [''TABAYYUN_AUTH_MODE (dev is not allowed in prod)''] else oidc_problems S s) @
     (if given (st_s3_secret_access_key s) \<noteq> [] \<and> is_placeholder (given (st_s3_secret_access_key s))
      then [''TABAYYUN_S3_SECRET_ACCESS_KEY''] else []) @
     (if prefix ''s3://'' (st_cache_url s) \<and> (given (st_s3_access_key_id s) = [] \<or> given (st_s3_secret_access_key s) = [])
      then [''TABAYYUN_S3_ACCESS_KEY_ID/TABAYYUN_S3_SECRET_ACCESS_KEY''] else []) @
     mail_problems s"

text \<open>The problems a start in production reports.\<close>

definition require_secrets_in_prod :: "settings_env \<Rightarrow> settings \<Rightarrow> string list + unit" where
  "require_secrets_in_prod S s =
     (if st_env s \<noteq> ''prod'' \<or> prod_problems S s = [] then Inr () else Inl (prod_problems S s))"

section \<open>What accepted settings have\<close>

lemma split_on_free: "c \<notin> set w \<Longrightarrow> split_on c w = [w]"
  by (induction w) auto

lemma split_on_append: "c \<notin> set w \<Longrightarrow> split_on c (w @ c # rest) = w # split_on c rest"
  by (induction w) auto

lemma split_on_join: "ws \<noteq> [] \<Longrightarrow> list_all (\<lambda>w. c \<notin> set w) ws \<Longrightarrow> split_on c (join_with [c] ws) = ws"
  by (induction "[c]" ws rule: join_with.induct) (auto simp: split_on_free split_on_append)

text \<open>The login page offers known methods, at least one and none twice.\<close>

lemma accepted_methods:
  assumes "validate_settings S s w = Some s'"
  shows "enabled_sign_in_methods s' \<noteq> [] \<and> distinct (enabled_sign_in_methods s') \<and> set (enabled_sign_in_methods s') \<subseteq> set SIGN_IN_METHODS"
proof -
  obtain methods where m: "checked_methods (st_sign_in_methods s) = Some methods" "st_sign_in_methods s' = methods"
    using assms by (auto simp: validate_settings_def split: option.split_asm list.split_asm prod.split_asm if_split_asm)
  define ms where "ms = first_of_each (filter (\<lambda>m. m \<noteq> []) (map strip (split_on (CHR '','') (st_sign_in_methods s))))"
  have set_ms: "set ms = set (filter (\<lambda>m. m \<noteq> []) (map strip (split_on (CHR '','') (st_sign_in_methods s))))"
    by (simp add: ms_def first_of_each_def)
  have ok: "methods = join_with '','' ms" "ms \<noteq> []" "set ms \<subseteq> set SIGN_IN_METHODS"
    using m(1) set_ms by (auto simp: checked_methods_def Let_def ms_def list_all_iff first_of_each_def split: if_split_asm)
  have "list_all (\<lambda>w. CHR '','' \<notin> set w) ms" using ok(3) by (auto simp: list_all_iff SIGN_IN_METHODS_def)
  then have "enabled_sign_in_methods s' = ms"
    using split_on_join [OF ok(2)] ok(1) m(2) by (simp add: enabled_sign_in_methods_def)
  moreover have "distinct ms" by (simp add: ms_def first_of_each_def)
  ultimately show ?thesis using ok by simp
qed

text \<open>A production start has the login on, over https, and no secret that is missing, short or a placeholder.\<close>

lemma prod_start:
  assumes "st_env s = ''prod''" "require_secrets_in_prod S s = Inr ()"
  shows "resolved_auth_mode s = OidcMode" "\<not> is_placeholder (given (st_session_secret s))"
    "given (st_oidc_client_secret s) \<noteq> [] \<and> \<not> is_placeholder (given (st_oidc_client_secret s))"
    "\<exists>netloc path. sv_urlsplit S (given (st_public_url s)) = (''https'', netloc, path) \<and> netloc \<noteq> []"
    "prefix ''https://'' (given (st_oidc_issuer s))" "strip (given (st_admin_email s)) \<noteq> []"
proof -
  have none: "prod_problems S s = []" using assms by (simp add: require_secrets_in_prod_def split: if_split_asm)
  show mode: "resolved_auth_mode s = OidcMode" using none by (cases "resolved_auth_mode s") (auto simp: prod_problems_def)
  have oidc: "oidc_problems S s = []" using none mode by (simp add: prod_problems_def)
  show "\<not> is_placeholder (given (st_session_secret s))" using none by (auto simp: prod_problems_def split: if_split_asm)
  show "given (st_oidc_client_secret s) \<noteq> [] \<and> \<not> is_placeholder (given (st_oidc_client_secret s))"
    using none oidc by (auto simp: prod_problems_def oidc_problems_def split: if_split_asm prod.split_asm)
  show "\<exists>netloc path. sv_urlsplit S (given (st_public_url s)) = (''https'', netloc, path) \<and> netloc \<noteq> []"
    using oidc by (auto simp: oidc_problems_def split: if_split_asm prod.split_asm)
  show "prefix ''https://'' (given (st_oidc_issuer s))" "strip (given (st_admin_email s)) \<noteq> []"
    using oidc by (auto simp: oidc_problems_def split: if_split_asm prod.split_asm)
qed

end
