(* ===== verification/Json.thy ===== *)
theory Json
  imports Strings
begin

text \<open>
  The text of a JSON value as \<^verbatim>\<open>json.dumps(value, separators=(",", ":"))\<close> writes it: what the
  size limits of stored objects measure.  The text of a float is the parameter \<open>ft\<close>; strings are
  sequences of UTF-8 bytes, written as they are (\<^verbatim>\<open>ensure_ascii=False\<close>, \<open>quote\<close>) or with every
  code point beyond ASCII escaped (the default, \<open>quote_ascii\<close>).
\<close>

definition hex4 :: "nat \<Rightarrow> string" where "hex4 n = hex_digits 4 n"

definition escape_char :: "char \<Rightarrow> string" where
  "escape_char c =
     (if c = CHR 0x22 then [CHR 0x5C, CHR 0x22] else if c = CHR 0x5C then [CHR 0x5C, CHR 0x5C]
      else if c = CHR 0x0A then [CHR 0x5C, CHR ''n''] else if c = CHR 0x0D then [CHR 0x5C, CHR ''r'']
      else if c = CHR 0x09 then [CHR 0x5C, CHR ''t''] else if c = CHR 0x08 then [CHR 0x5C, CHR ''b'']
      else if c = CHR 0x0C then [CHR 0x5C, CHR ''f'']
      else if (of_char c :: nat) < 32 then [CHR 0x5C, CHR ''u''] @ hex4 (of_char c) else [c])"

definition quote :: "string \<Rightarrow> string" where
  "quote s = CHR 0x22 # concat (map escape_char s) @ [CHR 0x22]"

text \<open>The code points of UTF-8 text: a lead byte says how many bytes follow it.\<close>

fun code_points :: "nat list \<Rightarrow> nat list" where
  "code_points [] = []"
| "code_points (b # bs) =
     (if b < 128 then b # code_points bs
      else (let n = (if b < 224 then 1 else if b < 240 then 2 else 3);
                lead = b mod (if b < 224 then 32 else if b < 240 then 16 else 8)
            in foldl (\<lambda>acc c. acc * 64 + c mod 64) lead (take n bs) # code_points (drop n bs)))"

text \<open>A code point beyond the basic plane is written as its two surrogates.\<close>

definition escape_point :: "nat \<Rightarrow> string" where
  "escape_point p =
     (if p < 128 then escape_char (char_of p)
      else if p < 65536 then [CHR 0x5C, CHR ''u''] @ hex4 p
      else [CHR 0x5C, CHR ''u''] @ hex4 (55296 + (p - 65536) div 1024) @
           [CHR 0x5C, CHR ''u''] @ hex4 (56320 + (p - 65536) mod 1024))"

definition quote_ascii :: "string \<Rightarrow> string" where
  "quote_ascii s = CHR 0x22 # concat (map escape_point (code_points (map of_char s))) @ [CHR 0x22]"

fun json_text :: "(rat \<Rightarrow> string) \<Rightarrow> (string \<Rightarrow> string) \<Rightarrow> json \<Rightarrow> string" where
  "json_text ft q JNull = ''null''"
| "json_text ft q (JBool b) = (if b then ''true'' else ''false'')"
| "json_text ft q (JInt i) = int_str i"
| "json_text ft q (JNum r) = ft r"
| "json_text ft q (JStr s) = q s"
| "json_text ft q (JArr vs) = ''['' @ join_with '','' (map (json_text ft q) vs) @ '']''"
| "json_text ft q (JObj kvs) = ''{'' @ join_with '','' (map (\<lambda>(k, v). q k @ '':'' @ json_text ft q v) kvs) @ ''}''"

definition json_size :: "(rat \<Rightarrow> string) \<Rightarrow> (string \<Rightarrow> string) \<Rightarrow> json \<Rightarrow> nat" where
  "json_size ft q j = length (json_text ft q j)"

text \<open>Python's dict update on association lists: the new value of each key in the old key's place.\<close>

definition dict_merge :: "(string \<times> json) list \<Rightarrow> (string \<times> json) list \<Rightarrow> (string \<times> json) list" where
  "dict_merge old new =
     map (\<lambda>(k, v). (k, case map_of new k of None \<Rightarrow> v | Some w \<Rightarrow> w)) old @
     filter (\<lambda>(k, v). k \<notin> fst ` set old) new"

lemma map_of_filter_keys: "map_of (filter (\<lambda>(k, v). k \<notin> A) kvs) k = (if k \<in> A then None else map_of kvs k)"
  by (induction kvs) auto

lemma map_of_dict_merge: "map_of (dict_merge old new) k = (case map_of new k of None \<Rightarrow> map_of old k | Some v \<Rightarrow> Some v)"
proof -
  have old: "map_of (map (\<lambda>(k, v). (k, case map_of new k of None \<Rightarrow> v | Some w \<Rightarrow> w)) old) k =
      map_option (\<lambda>v. case map_of new k of None \<Rightarrow> v | Some w \<Rightarrow> w) (map_of old k)"
  proof (induction old)
    case (Cons kv old)
    then show ?case by (cases kv) (simp split: if_splits)
  qed simp
  note new = map_of_filter_keys [of "fst ` set old" new k]
  show ?thesis
  proof (cases "map_of old k")
    case None
    then have "k \<notin> fst ` set old" by (simp add: map_of_eq_None_iff)
    with None show ?thesis
      unfolding dict_merge_def map_of_append map_add_def old new by (simp split: option.splits)
  next
    case (Some v)
    then have "k \<in> fst ` set old" by (metis map_of_eq_None_iff option.distinct(1))
    with Some show ?thesis
      unfolding dict_merge_def map_of_append map_add_def old new by (simp split: option.splits)
  qed
qed

lemma keys_dict_merge: "fst ` set (dict_merge old new) = fst ` set old \<union> fst ` set new"
proof (rule set_eqI)
  fix k
  have "k \<in> fst ` set xs \<longleftrightarrow> map_of xs k \<noteq> None" for xs :: "(string \<times> json) list"
    by (simp add: map_of_eq_None_iff)
  then show "k \<in> fst ` set (dict_merge old new) \<longleftrightarrow> k \<in> fst ` set old \<union> fst ` set new"
    by (simp only: Un_iff map_of_dict_merge) (auto split: option.splits)
qed

lemma dict_merge_Nil [simp]: "dict_merge old [] = old" "dict_merge [] new = new"
  by (induction old) (auto simp: dict_merge_def)

end
