(* ===== verification/Oidc.thy ===== *)
theory Oidc
  imports Settings Json
begin

text \<open>
  \<^verbatim>\<open>auth/oidc.py\<close> and \<^verbatim>\<open>auth/tokens.py\<close>: the relying party of the login.  The provider behind HTTP, its keys, the
  check of a token's signature and of its registered claims (the JOSE library), \<^verbatim>\<open>str\<close> of a JSON value that is no
  string, \<^verbatim>\<open>urlencode\<close>, \<^verbatim>\<open>urlsplit\<close> and the S256 challenge are parameters.
\<close>

section \<open>Tokens\<close>

definition unprintable :: "char \<Rightarrow> bool" where
  "unprintable c \<longleftrightarrow> of_char c < (0x20 :: nat) \<or> of_char c = (0x7F :: nat)"

definition safe_next :: "url_parts \<Rightarrow> string option \<Rightarrow> string" where
  "safe_next urlsplit value =
     (case value of
        None \<Rightarrow> ''/''
      | Some v \<Rightarrow>
          if v = [] \<or> take 1 v \<noteq> ''/'' \<or> take 2 v = ''//'' then ''/''
          else if CHR 0x5C \<in> set v \<or> list_ex unprintable v then ''/''
          else (case urlsplit v of (scheme, netloc, path) \<Rightarrow> if scheme \<noteq> [] \<or> netloc \<noteq> [] then ''/'' else v))"

text \<open>A path on this site: one slash first, so that no browser reads a host out of it.\<close>

definition on_site :: "string \<Rightarrow> bool" where
  "on_site p \<longleftrightarrow> take 1 p = ''/'' \<and> take 2 p \<noteq> ''//'' \<and> CHR 0x5C \<notin> set p \<and> \<not> list_ex unprintable p"

lemma safe_next_on_site: "on_site (safe_next urlsplit value)"
  by (auto simp: safe_next_def on_site_def unprintable_def split: option.splits prod.splits)

section \<open>The provider\<close>

definition CACHE_TTL_S :: rat where "CACHE_TTL_S = 3600"
definition JWKS_REFRESH_MIN_S :: rat where "JWKS_REFRESH_MIN_S = 60"
definition LEEWAY_S :: int where "LEEWAY_S = 60"
definition ALGORITHMS :: "string list" where "ALGORITHMS = [''RS256'', ''ES256'']"
definition SCOPE :: string where "SCOPE = ''openid email profile''"
definition BACKCHANNEL_EVENT :: string where "BACKCHANNEL_EVENT = ''http://schemas.openid.net/event/backchannel-logout''"

text \<open>\<open>OidcRaised\<close> is an exception that is none of the module's.\<close>

datatype oidc_error = IdpUnavailable | IdpRefused string | InvalidToken string | OidcRaised

record provider =
  pv_issuer :: string
  pv_authorization :: string
  pv_token :: string
  pv_jwks_uri :: string
  pv_end_session :: json

record 'k oidc_cache =
  ch_metadata :: provider
  ch_keys :: 'k
  ch_fetched_at :: rat
  ch_keys_fetched_at :: rat

record oidc_client =
  ic_issuer :: string
  ic_client_id :: string
  ic_secret :: string

definition oidc_client_of :: "string \<Rightarrow> string \<Rightarrow> string \<Rightarrow> oidc_client" where
  "oidc_client_of issuer client_id secret = \<lparr>ic_issuer = rstrip_char (CHR ''/'') issuer, ic_client_id = client_id, ic_secret = secret\<rparr>"

text \<open>A token decodes to its claims, names a key that is not in the set, or is refused for another reason.\<close>

datatype decoded = Decoded jobj | UnknownKey | NotDecoded string

text \<open>An essential claim, and the value it must have.\<close>

type_synonym claim_check = "string \<times> string option"

text \<open>
  The world has a clock; an answer may change it.  \<open>id_get\<close> gives the JSON body of a successful answer, \<open>id_post\<close> the status
  and the body, \<open>None\<close> when the provider is not reached; \<open>id_claims\<close> gives the class of a refusal.
\<close>

record ('s, 'k) idp =
  id_clock :: "'s \<Rightarrow> rat"
  id_get :: "'s \<Rightarrow> string \<Rightarrow> json option \<times> 's"
  id_post :: "'s \<Rightarrow> string \<Rightarrow> (string \<times> string) list \<Rightarrow> string \<times> string \<Rightarrow> (int \<times> json option) option \<times> 's"
  id_import :: "jobj list \<Rightarrow> 'k option"
  id_decode :: "'k \<Rightarrow> string list \<Rightarrow> string \<Rightarrow> decoded"
  id_claims :: "'s \<Rightarrow> int \<Rightarrow> claim_check list \<Rightarrow> jobj \<Rightarrow> string option"
  id_str :: "json \<Rightarrow> string"
  id_urlencode :: "(string \<times> string) list \<Rightarrow> string"
  id_challenge :: "string \<Rightarrow> string"

definition str_of :: "('s, 'k) idp \<Rightarrow> json \<Rightarrow> string" where
  "str_of E v = (case v of JStr s \<Rightarrow> s | _ \<Rightarrow> id_str E v)"

type_synonym ('s, 'k) oidc_state = "'k oidc_cache option \<times> 's"
type_synonym ('s, 'k, 'a) oidc = "('s, 'k) oidc_state \<Rightarrow> (oidc_error + 'a) \<times> ('s, 'k) oidc_state"

definition oidc_return :: "'a \<Rightarrow> ('s, 'k, 'a) oidc" where "oidc_return x c = (Inr x, c)"
definition oidc_fail :: "oidc_error \<Rightarrow> ('s, 'k, 'a) oidc" where "oidc_fail e c = (Inl e, c)"

definition oidc_bind :: "('s, 'k, 'a) oidc \<Rightarrow> ('a \<Rightarrow> ('s, 'k, 'b) oidc) \<Rightarrow> ('s, 'k, 'b) oidc" where
  "oidc_bind m f c = (case m c of (Inl e, c') \<Rightarrow> (Inl e, c') | (Inr x, c') \<Rightarrow> f x c')"

section \<open>Discovery and keys\<close>

definition get_json :: "('s, 'k) idp \<Rightarrow> string \<Rightarrow> ('s, 'k, jobj) oidc" where
  "get_json E url = (\<lambda>(cache, s).
     (case id_get E s url of
        (Some (JObj body), s') \<Rightarrow> (Inr body, (cache, s'))
      | (_, s') \<Rightarrow> (Inl IdpUnavailable, (cache, s'))))"

definition well_known :: "oidc_client \<Rightarrow> string" where
  "well_known cl = ic_issuer cl @ ''/.well-known/openid-configuration''"

definition provider_of :: "('s, 'k) idp \<Rightarrow> oidc_client \<Rightarrow> jobj \<Rightarrow> provider option" where
  "provider_of E cl doc =
     (case (map_of doc ''issuer'', map_of doc ''authorization_endpoint'', map_of doc ''token_endpoint'', map_of doc ''jwks_uri'') of
        (Some i, Some a, Some t, Some j) \<Rightarrow>
          if rstrip_char (CHR ''/'') (str_of E i) \<noteq> ic_issuer cl then None
          else Some \<lparr>pv_issuer = str_of E i, pv_authorization = str_of E a, pv_token = str_of E t, pv_jwks_uri = str_of E j,
            pv_end_session = (case map_of doc ''end_session_endpoint'' of None \<Rightarrow> JNull | Some v \<Rightarrow> v)\<rparr>
      | _ \<Rightarrow> None)"

definition discover :: "('s, 'k) idp \<Rightarrow> oidc_client \<Rightarrow> ('s, 'k, provider) oidc" where
  "discover E cl = oidc_bind (get_json E (well_known cl)) (\<lambda>doc.
     (case provider_of E cl doc of None \<Rightarrow> oidc_fail IdpUnavailable | Some m \<Rightarrow> oidc_return m))"

text \<open>The objects of a key list; iterating over anything but a list of objects raises, unless it is empty.\<close>

definition key_objects :: "json option \<Rightarrow> jobj list option" where
  "key_objects v =
     (case v of
        None \<Rightarrow> Some []
      | Some (JArr ks) \<Rightarrow> those (map (\<lambda>k. case k of JObj o' \<Rightarrow> Some o' | _ \<Rightarrow> None) ks)
      | Some (JObj []) \<Rightarrow> Some []
      | Some (JStr []) \<Rightarrow> Some []
      | _ \<Rightarrow> None)"

definition signing_key :: "jobj \<Rightarrow> bool" where
  "signing_key k \<longleftrightarrow>
     map_of k ''use'' \<in> {None, Some (JStr ''sig'')} \<and> map_of k ''kty'' \<in> {Some (JStr ''RSA''), Some (JStr ''EC'')}"

definition fetch_keys :: "('s, 'k) idp \<Rightarrow> string \<Rightarrow> ('s, 'k, 'k) oidc" where
  "fetch_keys E uri = oidc_bind (get_json E uri) (\<lambda>body.
     (case key_objects (map_of body ''keys'') of
        None \<Rightarrow> oidc_fail OidcRaised
      | Some ks \<Rightarrow>
          (case id_import E (filter signing_key ks) of
             None \<Rightarrow> oidc_fail IdpUnavailable
           | Some keys \<Rightarrow> oidc_return keys)))"

definition cache_stale :: "('s, 'k) idp \<Rightarrow> ('s, 'k) oidc_state \<Rightarrow> bool" where
  "cache_stale E = (\<lambda>(cache, s). (case cache of None \<Rightarrow> True | Some c \<Rightarrow> CACHE_TTL_S < id_clock E s - ch_fetched_at c))"

text \<open>Discovery and keys anew, stamped with the time before.\<close>

definition fill_cache :: "('s, 'k) idp \<Rightarrow> oidc_client \<Rightarrow> ('s, 'k, 'k oidc_cache) oidc" where
  "fill_cache E cl c =
     (case oidc_bind (discover E cl) (\<lambda>m. oidc_bind (fetch_keys E (pv_jwks_uri m)) (\<lambda>keys. oidc_return (m, keys))) c of
        (Inl e, c') \<Rightarrow> (Inl e, c')
      | (Inr (m, keys), (_, s')) \<Rightarrow>
          (let now = id_clock E (snd c);
               new = \<lparr>ch_metadata = m, ch_keys = keys, ch_fetched_at = now, ch_keys_fetched_at = now\<rparr>
           in (Inr new, (Some new, s'))))"

definition cached_provider :: "('s, 'k) idp \<Rightarrow> oidc_client \<Rightarrow> ('s, 'k, 'k oidc_cache) oidc" where
  "cached_provider E cl c =
     (if cache_stale E c then fill_cache E cl c else (case fst c of Some x \<Rightarrow> (Inr x, c) | None \<Rightarrow> fill_cache E cl c))"

definition refresh_keys :: "('s, 'k) idp \<Rightarrow> ('s, 'k, bool) oidc" where
  "refresh_keys E c =
     (case c of
        (None, s) \<Rightarrow> (Inr False, c)
      | (Some x, s) \<Rightarrow>
          if id_clock E s - ch_keys_fetched_at x < JWKS_REFRESH_MIN_S then (Inr False, c)
          else (case fetch_keys E (pv_jwks_uri (ch_metadata x)) c of
              (Inl e, c') \<Rightarrow> (Inl e, c')
            | (Inr keys, (_, s')) \<Rightarrow> (Inr True, (Some (x\<lparr>ch_keys := keys, ch_keys_fetched_at := id_clock E s'\<rparr>), s'))))"

definition provider_metadata :: "('s, 'k) idp \<Rightarrow> oidc_client \<Rightarrow> ('s, 'k, provider) oidc" where
  "provider_metadata E cl = oidc_bind (cached_provider E cl) (\<lambda>x. oidc_return (ch_metadata x))"

section \<open>The login\<close>

definition sign_in_text :: "sign_in_method \<Rightarrow> string" where
  "sign_in_text m = (case m of Google \<Rightarrow> ''google'' | Github \<Rightarrow> ''github'' | Passkey \<Rightarrow> ''passkey'')"

definition authorization_params :: "('s, 'k) idp \<Rightarrow> oidc_client \<Rightarrow> flow \<Rightarrow> string \<Rightarrow> (string \<times> string) list" where
  "authorization_params E cl f redirect_uri =
     [(''response_type'', ''code''), (''client_id'', ic_client_id cl), (''redirect_uri'', redirect_uri), (''scope'', SCOPE),
      (''state'', fw_state f), (''nonce'', fw_nonce f), (''code_challenge'', id_challenge E (fw_code_verifier f)),
      (''code_challenge_method'', ''S256'')] @
     (if fw_method f = Passkey then [(''prompt'', ''login'')] else [(''kc_idp_hint'', sign_in_text (fw_method f))])"

definition authorization_url :: "('s, 'k) idp \<Rightarrow> oidc_client \<Rightarrow> flow \<Rightarrow> string \<Rightarrow> ('s, 'k, string) oidc" where
  "authorization_url E cl f redirect_uri = oidc_bind (provider_metadata E cl) (\<lambda>m.
     oidc_return (pv_authorization m @ ''?'' @ id_urlencode E (authorization_params E cl f redirect_uri)))"

definition exchange_code :: "('s, 'k) idp \<Rightarrow> oidc_client \<Rightarrow> string \<Rightarrow> string \<Rightarrow> string \<Rightarrow> ('s, 'k, jobj) oidc" where
  "exchange_code E cl code code_verifier redirect_uri = oidc_bind (provider_metadata E cl) (\<lambda>m. \<lambda>(cache, s).
     (case id_post E s (pv_token m)
         [(''grant_type'', ''authorization_code''), (''code'', code), (''redirect_uri'', redirect_uri), (''code_verifier'', code_verifier)]
         (ic_client_id cl, ic_secret cl) of
        (None, s') \<Rightarrow> (Inl IdpUnavailable, (cache, s'))
      | (Some (status, answer), s') \<Rightarrow>
          (let body = (case answer of None \<Rightarrow> JObj [] | Some v \<Rightarrow> v);
               refused = (\<lambda>error. IdpRefused (case error of
                   Some v \<Rightarrow> if truthy v then str_of E v else ''http_'' @ int_str status
                 | None \<Rightarrow> ''http_'' @ int_str status))
           in (case body of
                 JObj kvs \<Rightarrow>
                   if status \<noteq> 200 \<or> map_of kvs ''id_token'' = None then (Inl (refused (map_of kvs ''error'')), (cache, s'))
                   else (Inr kvs, (cache, s'))
               | _ \<Rightarrow> (Inl (refused None), (cache, s'))))))"

section \<open>Tokens of the provider\<close>

definition claims_or_fail :: "decoded \<Rightarrow> ('s, 'k, jobj) oidc" where
  "claims_or_fail d =
     (case d of
        Decoded claims \<Rightarrow> oidc_return claims
      | NotDecoded cls \<Rightarrow> oidc_fail (InvalidToken (''signature: '' @ cls))
      | UnknownKey \<Rightarrow> oidc_fail (InvalidToken ''signature: InvalidKeyIdError''))"

definition decode_again :: "('s, 'k) idp \<Rightarrow> oidc_client \<Rightarrow> string \<Rightarrow> ('s, 'k, jobj) oidc" where
  "decode_again E cl token = oidc_bind (refresh_keys E) (\<lambda>refetched.
     if \<not> refetched then claims_or_fail UnknownKey
     else oidc_bind (cached_provider E cl) (\<lambda>x. claims_or_fail (id_decode E (ch_keys x) ALGORITHMS token)))"

definition decode_token :: "('s, 'k) idp \<Rightarrow> oidc_client \<Rightarrow> string \<Rightarrow> ('s, 'k, jobj) oidc" where
  "decode_token E cl token = oidc_bind (cached_provider E cl) (\<lambda>x.
     if id_decode E (ch_keys x) ALGORITHMS token = UnknownKey then decode_again E cl token
     else claims_or_fail (id_decode E (ch_keys x) ALGORITHMS token))"

definition validate_claims :: "('s, 'k) idp \<Rightarrow> oidc_client \<Rightarrow> claim_check list \<Rightarrow> jobj \<Rightarrow> ('s, 'k, unit) oidc" where
  "validate_claims E cl options claims = (\<lambda>(cache, s).
     (case id_claims E s LEEWAY_S ([(''iss'', Some (ic_issuer cl)), (''aud'', Some (ic_client_id cl))] @ options) claims of
        Some cls \<Rightarrow> (Inl (InvalidToken (''claims: '' @ cls)), (cache, s))
      | None \<Rightarrow>
          (case map_of claims ''aud'' of
             Some (JArr vs) \<Rightarrow>
               if 1 < length vs \<and> map_of claims ''azp'' \<noteq> Some (JStr (ic_client_id cl))
               then (Inl (InvalidToken ''claims: azp''), (cache, s)) else (Inr (), (cache, s))
           | _ \<Rightarrow> (Inr (), (cache, s)))))"

definition has_email :: "('s, 'k) idp \<Rightarrow> jobj \<Rightarrow> bool" where
  "has_email E claims \<longleftrightarrow>
     (case map_of claims ''email'' of None \<Rightarrow> False | Some v \<Rightarrow> truthy v \<and> strip (str_of E v) \<noteq> [])"

definition validate_id_token :: "('s, 'k) idp \<Rightarrow> oidc_client \<Rightarrow> string \<Rightarrow> string \<Rightarrow> ('s, 'k, jobj) oidc" where
  "validate_id_token E cl id_token nonce = oidc_bind (decode_token E cl id_token) (\<lambda>claims.
     oidc_bind (validate_claims E cl [(''exp'', None), (''iat'', None), (''sub'', None), (''nonce'', Some nonce)] claims) (\<lambda>_.
       if map_of claims ''email_verified'' \<noteq> Some (JBool True) \<or> \<not> has_email E claims
       then oidc_fail (InvalidToken ''email_verified'') else oidc_return claims))"

definition truthy_claim :: "jobj \<Rightarrow> string \<Rightarrow> bool" where
  "truthy_claim claims k = (case map_of claims k of None \<Rightarrow> False | Some v \<Rightarrow> truthy v)"

definition validate_logout_token :: "('s, 'k) idp \<Rightarrow> oidc_client \<Rightarrow> string \<Rightarrow> ('s, 'k, jobj) oidc" where
  "validate_logout_token E cl logout_token = oidc_bind (decode_token E cl logout_token) (\<lambda>claims.
     oidc_bind (validate_claims E cl [(''iat'', None)] claims) (\<lambda>_.
       if (case map_of claims ''events'' of Some (JObj es) \<Rightarrow> map_of es BACKCHANNEL_EVENT = None | _ \<Rightarrow> True)
       then oidc_fail (InvalidToken ''events'')
       else if map_of claims ''nonce'' \<noteq> None then oidc_fail (InvalidToken ''nonce'')
       else if \<not> truthy_claim claims ''sid'' \<and> \<not> truthy_claim claims ''sub'' then oidc_fail (InvalidToken ''sid_or_sub'')
       else oidc_return claims))"

definition end_session_url :: "('s, 'k) idp \<Rightarrow> oidc_client \<Rightarrow> string option \<Rightarrow> string \<Rightarrow> ('s, 'k, string option) oidc" where
  "end_session_url E cl id_token_hint redirect_uri = oidc_bind (provider_metadata E cl) (\<lambda>m.
     if \<not> truthy (pv_end_session m) then oidc_return None
     else oidc_return (Some (str_of E (pv_end_session m) @ ''?'' @
       id_urlencode E ([(''client_id'', ic_client_id cl), (''post_logout_redirect_uri'', redirect_uri)] @
         (case id_token_hint of Some h \<Rightarrow> if h = [] then [] else [(''id_token_hint'', h)] | None \<Rightarrow> [])))))"

section \<open>What the module relies on, and what it keeps\<close>

text \<open>
  The registry of the JOSE library, as documented: an essential claim is there with its value (an audience may be a list that has
  it), and an expiry is a number that is not past by more than the leeway.
\<close>

definition number_of :: "json \<Rightarrow> rat option" where
  "number_of v = (case v of JInt i \<Rightarrow> Some (of_int i) | JNum r \<Rightarrow> Some r | _ \<Rightarrow> None)"

definition claim_has :: "jobj \<Rightarrow> claim_check \<Rightarrow> bool" where
  "claim_has claims check =
     (case map_of claims (fst check) of
        None \<Rightarrow> False
      | Some x \<Rightarrow> (case snd check of
            None \<Rightarrow> True
          | Some t \<Rightarrow> x = JStr t \<or> fst check = ''aud'' \<and> (case x of JArr vs \<Rightarrow> JStr t \<in> set vs | _ \<Rightarrow> False)))"

definition unexpired :: "int \<Rightarrow> jobj \<Rightarrow> bool" where
  "unexpired now claims =
     (case map_of claims ''exp'' of
        None \<Rightarrow> True
      | Some x \<Rightarrow> (case number_of x of None \<Rightarrow> False | Some e \<Rightarrow> of_int (now - LEEWAY_S) \<le> e))"

definition registry_law :: "('s, 'k) idp \<Rightarrow> ('s \<Rightarrow> int) \<Rightarrow> bool" where
  "registry_law E wall \<longleftrightarrow>
     (\<forall>s checks claims. id_claims E s LEEWAY_S checks claims = None \<longrightarrow> list_all (claim_has claims) checks \<and> unexpired (wall s) claims)"

text \<open>Whose metadata and keys these are: what the issuer answered at its well-known address, and the key list it names.\<close>

definition provider_from :: "('s, 'k) idp \<Rightarrow> oidc_client \<Rightarrow> provider \<Rightarrow> bool" where
  "provider_from E cl m \<longleftrightarrow> (\<exists>s doc. fst (id_get E s (well_known cl)) = Some (JObj doc) \<and> provider_of E cl doc = Some m)"

definition keys_from :: "('s, 'k) idp \<Rightarrow> provider \<Rightarrow> 'k \<Rightarrow> bool" where
  "keys_from E m keys \<longleftrightarrow>
     (\<exists>s body ks. fst (id_get E s (pv_jwks_uri m)) = Some (JObj body) \<and> key_objects (map_of body ''keys'') = Some ks \<and>
        id_import E (filter signing_key ks) = Some keys)"

definition cache_sound :: "('s, 'k) idp \<Rightarrow> oidc_client \<Rightarrow> 'k oidc_cache option \<Rightarrow> bool" where
  "cache_sound E cl cache =
     (case cache of None \<Rightarrow> True | Some x \<Rightarrow> provider_from E cl (ch_metadata x) \<and> keys_from E (ch_metadata x) (ch_keys x))"

lemma oidc_bind_Inr: "oidc_bind m f c = (Inr y, c') \<longleftrightarrow> (\<exists>x c1. m c = (Inr x, c1) \<and> f x c1 = (Inr y, c'))"
  by (auto simp: oidc_bind_def split: prod.splits sum.splits)

lemma oidc_return_eq [simp]: "oidc_return x c = (Inr y, c') \<longleftrightarrow> y = x \<and> c' = c" "oidc_fail e c \<noteq> (Inr y, c')"
  by (auto simp: oidc_return_def oidc_fail_def)

text \<open>Steps that leave the cache alone, and steps that keep it sound.\<close>

definition cache_same :: "('s, 'k, 'a) oidc \<Rightarrow> bool" where
  "cache_same m \<longleftrightarrow> (\<forall>c. fst (snd (m c)) = fst c)"

definition keeps_sound :: "('s, 'k) idp \<Rightarrow> oidc_client \<Rightarrow> ('s, 'k, 'a) oidc \<Rightarrow> bool" where
  "keeps_sound E cl m \<longleftrightarrow> (\<forall>c. cache_sound E cl (fst c) \<longrightarrow> cache_sound E cl (fst (snd (m c))))"

lemma keeps_soundI: "cache_same m \<Longrightarrow> keeps_sound E cl m"
  by (simp add: cache_same_def keeps_sound_def)

lemma cache_same_bind: "cache_same m \<Longrightarrow> (\<And>x. cache_same (f x)) \<Longrightarrow> cache_same (oidc_bind m f)"
  unfolding cache_same_def oidc_bind_def by (auto split: prod.splits sum.splits) (metis fst_conv snd_conv)+

lemma cache_same_get_json: "cache_same (get_json E url)"
  by (auto simp: cache_same_def get_json_def split: option.splits json.splits prod.splits)

lemma cache_same_simps [simp]: "cache_same (oidc_return x)" "cache_same (oidc_fail e)"
  by (simp_all add: cache_same_def oidc_return_def oidc_fail_def)

lemma cache_same_discover: "cache_same (discover E cl)"
  unfolding discover_def by (intro cache_same_bind cache_same_get_json) (simp split: option.splits)

lemma cache_same_fetch: "cache_same (fetch_keys E uri)"
  unfolding fetch_keys_def by (intro cache_same_bind cache_same_get_json) (simp split: option.splits)

lemma keeps_sound_bind: "keeps_sound E cl m \<Longrightarrow> (\<And>x. keeps_sound E cl (f x)) \<Longrightarrow> keeps_sound E cl (oidc_bind m f)"
  unfolding keeps_sound_def oidc_bind_def by (auto split: prod.splits sum.splits) (metis fst_conv snd_conv)+

lemma get_json_Inr: "get_json E url c = (Inr body, c') \<Longrightarrow> \<exists>s. fst (id_get E s url) = Some (JObj body)"
  by (cases c) (auto simp: get_json_def split: option.splits json.splits prod.splits intro: exI [of _ "snd c"])

lemma discover_Inr: "discover E cl c = (Inr m, c') \<Longrightarrow> provider_from E cl m"
  by (auto simp: discover_def oidc_bind_Inr provider_from_def dest!: get_json_Inr split: option.split_asm) blast?

lemma fetch_keys_Inr:
  assumes "fetch_keys E (pv_jwks_uri m) c = (Inr keys, c')"
  shows "keys_from E m keys"
proof -
  obtain body c1 where body: "get_json E (pv_jwks_uri m) c = (Inr body, c1)"
    and rest: "(case key_objects (map_of body ''keys'') of None \<Rightarrow> oidc_fail OidcRaised
      | Some ks \<Rightarrow> (case id_import E (filter signing_key ks) of None \<Rightarrow> oidc_fail IdpUnavailable | Some k \<Rightarrow> oidc_return k)) c1 = (Inr keys, c')"
    using assms unfolding fetch_keys_def oidc_bind_Inr by blast
  have "\<exists>ks. key_objects (map_of body ''keys'') = Some ks \<and> id_import E (filter signing_key ks) = Some keys"
    using rest by (simp split: option.split_asm)
  then show ?thesis using get_json_Inr [OF body] unfolding keys_from_def by blast
qed

lemma fill_cache_sound:
  "(case fill_cache E cl c of
      (Inl e, c') \<Rightarrow> fst c' = fst c
    | (Inr x, c') \<Rightarrow> cache_sound E cl (Some x) \<and> fst c' = Some x)"
proof -
  let ?m = "oidc_bind (discover E cl) (\<lambda>m. oidc_bind (fetch_keys E (pv_jwks_uri m)) (\<lambda>keys. oidc_return (m, keys)))"
  have same: "cache_same ?m" by (intro cache_same_bind cache_same_discover cache_same_fetch cache_same_simps)
  have got: "provider_from E cl m \<and> keys_from E m keys" if "?m c = (Inr (m, keys), c')" for m keys c'
    using that by (auto simp: oidc_bind_Inr dest: discover_Inr fetch_keys_Inr)
  obtain r c' where r: "?m c = (r, c')" by (cases "?m c")
  show ?thesis
  proof (cases r)
    case (Inl e)
    have "fst (snd (?m c)) = fst c" using same unfolding cache_same_def by (rule spec)
    then show ?thesis using r Inl by (simp add: fill_cache_def)
  next
    case (Inr mk)
    obtain m keys where "mk = (m, keys)" by fastforce
    then show ?thesis using r Inr got [of m keys c'] by (cases c') (simp add: fill_cache_def Let_def cache_sound_def)
  qed
qed

lemma cached_provider_sound:
  fixes E :: "('s, 'k) idp"
  shows "keeps_sound E cl (cached_provider E cl)"
  unfolding keeps_sound_def
proof (intro allI impI)
  fix c :: "('s, 'k) oidc_state"
  assume sound: "cache_sound E cl (fst c)"
  have fill: "cache_sound E cl (fst (snd (fill_cache E cl c)))"
    using fill_cache_sound [where E = E and cl = cl and c = c] sound by (auto split: prod.splits sum.splits)
  show "cache_sound E cl (fst (snd (cached_provider E cl c)))"
    using fill sound by (auto simp: cached_provider_def split: option.splits)
qed

lemma cached_provider_Inr:
  assumes "cached_provider E cl c = (Inr x, c')" "cache_sound E cl (fst c)"
  shows "cache_sound E cl (Some x)"
  using assms fill_cache_sound [where E = E and cl = cl and c = c] by (auto simp: cached_provider_def split: if_splits option.splits prod.splits sum.splits)

lemma refresh_keys_sound:
  fixes E :: "('s, 'k) idp"
  shows "keeps_sound E cl (refresh_keys E)"
  unfolding keeps_sound_def
proof (intro allI impI)
  fix c :: "('s, 'k) oidc_state"
  assume sound: "cache_sound E cl (fst c)"
  show "cache_sound E cl (fst (snd (refresh_keys E c)))"
  proof (cases "fst c")
    case None
    then show ?thesis by (cases c) (simp add: refresh_keys_def cache_sound_def)
  next
    case (Some x)
    then obtain s where c: "c = (Some x, s)" by (cases c) auto
    obtain r c' where r: "fetch_keys E (pv_jwks_uri (ch_metadata x)) c = (r, c')" by (cases "fetch_keys E (pv_jwks_uri (ch_metadata x)) c")
    have "fst (snd (fetch_keys E (pv_jwks_uri (ch_metadata x)) c)) = fst c"
      using cache_same_fetch unfolding cache_same_def by (rule spec)
    then have "fst c' = Some x" using r c by simp
    moreover have "keys_from E (ch_metadata x) keys" if "r = Inr keys" for keys using fetch_keys_Inr r that by fast
    ultimately show ?thesis using r c sound by (cases r; cases c') (auto simp: refresh_keys_def cache_sound_def)
  qed
qed

lemma provider_metadata_sound: "keeps_sound E cl (provider_metadata E cl)"
  unfolding provider_metadata_def by (intro keeps_sound_bind cached_provider_sound keeps_soundI cache_same_simps)

lemma cache_same_claims [simp]: "cache_same (claims_or_fail d)"
  by (simp add: claims_or_fail_def split: decoded.splits)

lemma claims_or_fail_Inr [simp]: "claims_or_fail d c = (Inr claims, c') \<longleftrightarrow> d = Decoded claims \<and> c' = c"
  by (auto simp: claims_or_fail_def split: decoded.splits)

lemma decode_again_sound: "keeps_sound E cl (decode_again E cl token)"
  unfolding decode_again_def
proof (intro keeps_sound_bind refresh_keys_sound)
  fix refetched
  show "keeps_sound E cl (if \<not> refetched then claims_or_fail UnknownKey
      else oidc_bind (cached_provider E cl) (\<lambda>x. claims_or_fail (id_decode E (ch_keys x) ALGORITHMS token)))"
    by (cases refetched) (simp_all add: keeps_soundI keeps_sound_bind cached_provider_sound)
qed

lemma decode_token_sound: "keeps_sound E cl (decode_token E cl token)"
  unfolding decode_token_def
  by (intro keeps_sound_bind cached_provider_sound) (auto intro: decode_again_sound keeps_soundI)

lemma keeps_soundD: "keeps_sound E cl m \<Longrightarrow> m c = (r, c') \<Longrightarrow> cache_sound E cl (fst c) \<Longrightarrow> cache_sound E cl (fst c')"
  unfolding keeps_sound_def by (metis snd_conv)

lemma decode_token_Inr:
  assumes "decode_token E cl token c = (Inr claims, c')" "cache_sound E cl (fst c)"
  shows "\<exists>m keys. provider_from E cl m \<and> keys_from E m keys \<and> id_decode E keys ALGORITHMS token = Decoded claims"
proof -
  have fin: ?thesis if "cached_provider E cl c1 = (Inr x, c2)" "cache_sound E cl (fst c1)" "id_decode E (ch_keys x) ALGORITHMS token = Decoded claims" for x c1 c2
    using cached_provider_Inr [OF that(1,2)] that(3) by (auto simp: cache_sound_def)
  obtain x c1 where x: "cached_provider E cl c = (Inr x, c1)"
    and rest: "(if id_decode E (ch_keys x) ALGORITHMS token = UnknownKey then decode_again E cl token
      else claims_or_fail (id_decode E (ch_keys x) ALGORITHMS token)) c1 = (Inr claims, c')"
    using assms(1) unfolding decode_token_def oidc_bind_Inr by blast
  have s1: "cache_sound E cl (fst c1)" by (rule keeps_soundD [OF cached_provider_sound x assms(2)])
  show ?thesis
  proof (cases "id_decode E (ch_keys x) ALGORITHMS token = UnknownKey")
    case True
    then obtain c2 y c3 where r: "refresh_keys E c1 = (Inr True, c2)" "cached_provider E cl c2 = (Inr y, c3)"
      "id_decode E (ch_keys y) ALGORITHMS token = Decoded claims"
      using rest by (auto simp: decode_again_def oidc_bind_Inr split: if_splits)
    have "cache_sound E cl (fst c2)" by (rule keeps_soundD [OF refresh_keys_sound r(1) s1])
    then show ?thesis using fin r(2,3) by blast
  next
    case False
    then show ?thesis using rest fin [OF x assms(2)] by simp
  qed
qed

section \<open>What an accepted token says\<close>

lemma validate_claims_Inr:
  assumes "validate_claims E cl options claims c = (Inr u, c')" "registry_law E wall"
  shows "list_all (claim_has claims) ([(''iss'', Some (ic_issuer cl)), (''aud'', Some (ic_client_id cl))] @ options)"
    and "unexpired (wall (snd c')) claims"
    and "map_of claims ''aud'' = Some (JArr vs) \<Longrightarrow> 1 < length vs \<Longrightarrow> map_of claims ''azp'' = Some (JStr (ic_client_id cl))"
    and "c' = c"
proof -
  obtain cache s where c: "c = (cache, s)" by fastforce
  have ok: "id_claims E s LEEWAY_S ([(''iss'', Some (ic_issuer cl)), (''aud'', Some (ic_client_id cl))] @ options) claims = None"
    and c': "c' = c"
    using assms(1) c by (auto simp: validate_claims_def split: option.split_asm json.split_asm if_split_asm)
  then show "c' = c" by simp
  from ok assms(2) show "list_all (claim_has claims) ([(''iss'', Some (ic_issuer cl)), (''aud'', Some (ic_client_id cl))] @ options)"
    unfolding registry_law_def by blast
  from ok assms(2) c c' show "unexpired (wall (snd c')) claims" unfolding registry_law_def by simp
  assume "map_of claims ''aud'' = Some (JArr vs)" "1 < length vs"
  then show "map_of claims ''azp'' = Some (JStr (ic_client_id cl))"
    using assms(1) ok c by (auto simp: validate_claims_def split: if_split_asm)
qed

text \<open>Claims that were issued by the provider for this client, and still hold.\<close>

definition issued_for :: "('s, 'k) idp \<Rightarrow> oidc_client \<Rightarrow> int \<Rightarrow> string \<Rightarrow> jobj \<Rightarrow> bool" where
  "issued_for E cl now token claims \<longleftrightarrow>
     (\<exists>m keys. provider_from E cl m \<and> keys_from E m keys \<and> id_decode E keys ALGORITHMS token = Decoded claims) \<and>
     map_of claims ''iss'' = Some (JStr (ic_issuer cl)) \<and>
     (map_of claims ''aud'' = Some (JStr (ic_client_id cl)) \<or>
      (\<exists>vs. map_of claims ''aud'' = Some (JArr vs) \<and> JStr (ic_client_id cl) \<in> set vs \<and>
         (vs = [JStr (ic_client_id cl)] \<or> map_of claims ''azp'' = Some (JStr (ic_client_id cl))))) \<and>
     unexpired now claims"

lemma claim_has_value: "claim_has claims (name, Some t) \<Longrightarrow> name \<noteq> ''aud'' \<Longrightarrow> map_of claims name = Some (JStr t)"
  by (auto simp: claim_has_def split: option.split_asm)

lemma claim_has_given: "claim_has claims (name, v) \<Longrightarrow> map_of claims name \<noteq> None"
  by (auto simp: claim_has_def split: option.split_asm)

lemma claim_has_aud: "claim_has claims (''aud'', Some t) \<Longrightarrow>
    map_of claims ''aud'' = Some (JStr t) \<or> (\<exists>vs. map_of claims ''aud'' = Some (JArr vs) \<and> JStr t \<in> set vs)"
  by (auto simp: claim_has_def split: option.split_asm json.split_asm)

lemma issued_forI:
  assumes decoded: "decode_token E cl token c = (Inr claims, c1)" and sound: "cache_sound E cl (fst c)"
    and valid: "validate_claims E cl options claims c1 = (Inr u, c2)" and law: "registry_law E wall"
  shows "issued_for E cl (wall (snd c2)) token claims"
proof -
  note v = validate_claims_Inr [OF valid law]
  have "map_of claims ''iss'' = Some (JStr (ic_issuer cl))" using v(1) claim_has_value [of claims "''iss''"] by simp
  moreover have "claim_has claims (''aud'', Some (ic_client_id cl))" using v(1) by simp
  moreover have "vs = [JStr (ic_client_id cl)] \<or> map_of claims ''azp'' = Some (JStr (ic_client_id cl))"
    if "map_of claims ''aud'' = Some (JArr vs)" "JStr (ic_client_id cl) \<in> set vs" for vs
    proof (cases "1 < length vs")
    case False
    with that(2) obtain x where "vs = [x]" by (cases vs rule: remdups_adj.cases) auto
    with that(2) show ?thesis by simp
  qed (simp add: v(3) [OF that(1)])
  ultimately show ?thesis
    using decode_token_Inr [OF decoded sound] v(2) claim_has_aud [of claims] unfolding issued_for_def by blast
qed

lemma cache_same_validate: "cache_same (validate_claims E cl options claims)"
  by (auto simp: cache_same_def validate_claims_def split: option.splits json.splits)

lemma validate_id_token_sound: "keeps_sound E cl (validate_id_token E cl token nonce)"
  unfolding validate_id_token_def
  by (intro keeps_sound_bind decode_token_sound) (auto simp: cache_same_validate intro!: keeps_soundI)

lemma validate_logout_token_sound: "keeps_sound E cl (validate_logout_token E cl token)"
  unfolding validate_logout_token_def
  by (intro keeps_sound_bind decode_token_sound) (auto simp: cache_same_validate intro!: keeps_soundI)

lemma validate_id_token_Inr:
  assumes "validate_id_token E cl token nonce c = (Inr claims, c')" "cache_sound E cl (fst c)" "registry_law E wall"
  shows "issued_for E cl (wall (snd c')) token claims"
    and "map_of claims ''nonce'' = Some (JStr nonce)" "map_of claims ''sub'' \<noteq> None" "map_of claims ''exp'' \<noteq> None"
    and "map_of claims ''email_verified'' = Some (JBool True)" "has_email E claims"
proof -
  let ?options = "[(''exp'', None), (''iat'', None), (''sub'', None), (''nonce'', Some nonce)]"
  obtain cs c1 u c2 where d: "decode_token E cl token c = (Inr cs, c1)" and v: "validate_claims E cl ?options cs c1 = (Inr u, c2)"
    and rest: "(if map_of cs ''email_verified'' \<noteq> Some (JBool True) \<or> \<not> has_email E cs
       then oidc_fail (InvalidToken ''email_verified'') else oidc_return cs) c2 = (Inr claims, c')"
    using assms(1) unfolding validate_id_token_def oidc_bind_Inr by blast
  have e: "map_of claims ''email_verified'' = Some (JBool True)" "has_email E claims" "cs = claims" "c' = c2"
    using rest by (auto split: if_split_asm)
  show "map_of claims ''email_verified'' = Some (JBool True)" "has_email E claims" by (rule e(1), rule e(2))
  show "issued_for E cl (wall (snd c')) token claims" using issued_forI [OF d assms(2) v assms(3)] e(3,4) by simp
  have all: "list_all (claim_has claims) ?options" using validate_claims_Inr(1) [OF v assms(3)] e(3) by simp
  show "map_of claims ''nonce'' = Some (JStr nonce)" using all claim_has_value [of claims "''nonce''"] by simp
  show "map_of claims ''sub'' \<noteq> None" "map_of claims ''exp'' \<noteq> None"
    using all claim_has_given [of claims _ None] by simp_all
qed

lemma validate_logout_token_Inr:
  assumes "validate_logout_token E cl token c = (Inr claims, c')" "cache_sound E cl (fst c)" "registry_law E wall"
  shows "issued_for E cl (wall (snd c')) token claims" "map_of claims ''nonce'' = None"
    "\<exists>es. map_of claims ''events'' = Some (JObj es) \<and> map_of es BACKCHANNEL_EVENT \<noteq> None"
    "truthy_claim claims ''sid'' \<or> truthy_claim claims ''sub''"
proof -
  obtain cs c1 u c2 where d: "decode_token E cl token c = (Inr cs, c1)" and v: "validate_claims E cl [(''iat'', None)] cs c1 = (Inr u, c2)"
    and rest: "(if (case map_of cs ''events'' of Some (JObj es) \<Rightarrow> map_of es BACKCHANNEL_EVENT = None | _ \<Rightarrow> True)
       then oidc_fail (InvalidToken ''events'')
       else if map_of cs ''nonce'' \<noteq> None then oidc_fail (InvalidToken ''nonce'')
       else if \<not> truthy_claim cs ''sid'' \<and> \<not> truthy_claim cs ''sub'' then oidc_fail (InvalidToken ''sid_or_sub'')
       else oidc_return cs) c2 = (Inr claims, c')"
    using assms(1) unfolding validate_logout_token_def oidc_bind_Inr by blast
  have e: "\<not> (case map_of claims ''events'' of Some (JObj es) \<Rightarrow> map_of es BACKCHANNEL_EVENT = None | _ \<Rightarrow> True)"
    "map_of claims ''nonce'' = None" "truthy_claim claims ''sid'' \<or> truthy_claim claims ''sub''" "cs = claims" "c' = c2"
    using rest by (auto simp del: not_None_eq split: if_split_asm)
  show "map_of claims ''nonce'' = None" "truthy_claim claims ''sid'' \<or> truthy_claim claims ''sub''" by (rule e(2), rule e(3))
  show "\<exists>es. map_of claims ''events'' = Some (JObj es) \<and> map_of es BACKCHANNEL_EVENT \<noteq> None"
    using e(1) by (auto split: option.split_asm json.split_asm) blast?
  show "issued_for E cl (wall (snd c')) token claims" using issued_forI [OF d assms(2) v assms(3)] e(4,5) by simp
qed

section \<open>Refetching keys\<close>

text \<open>After a refetch that succeeded none follows within a minute, whatever key ids tokens name.\<close>

lemma refetch_is_spaced:
  assumes "refresh_keys E c = (Inr True, (cache, s))" "id_clock E s' - id_clock E s < JWKS_REFRESH_MIN_S"
  shows "refresh_keys E (cache, s') = (Inr False, (cache, s'))"
  using assms by (auto simp: refresh_keys_def split: prod.split_asm option.split_asm sum.split_asm if_split_asm)

text \<open>One that failed does not count: the cache stays as it was, and the next unknown key id asks again at once.\<close>

lemma failed_refetch_is_not_counted:
  assumes "refresh_keys E (Some x, s) = (Inl e, (cache, s'))" "id_clock E s \<le> id_clock E s2"
  shows "cache = Some x \<and> refresh_keys E (cache, s2) \<noteq> (Inr False, (cache, s2))"
proof -
  have same: "fst (snd (fetch_keys E (pv_jwks_uri (ch_metadata x)) (Some x, t))) = Some x" for t
    using cache_same_fetch unfolding cache_same_def by (metis fst_conv)
  have "\<not> id_clock E s - ch_keys_fetched_at x < JWKS_REFRESH_MIN_S" "cache = Some x"
    using assms(1) same [of s] by (auto simp: refresh_keys_def split: prod.split_asm sum.split_asm if_split_asm)
  moreover then have "\<not> id_clock E s2 - ch_keys_fetched_at x < JWKS_REFRESH_MIN_S" using assms(2) by simp
  ultimately show ?thesis by (auto simp: refresh_keys_def split: prod.splits sum.splits)
qed

end
