(* ===== verification/Login_Routes.thy ===== *)
theory Login_Routes
  imports Oidc Rate_Limits
begin

text \<open>
  \<^verbatim>\<open>routers/auth.py\<close> and \<^verbatim>\<open>auth/csrf.py\<close>: the routes of the login.  A login stores a flow and sends the browser to the provider;
  the callback takes the flow, checks what the provider says and starts a session; sessions end by logging out, by
  revoking a device and by the provider's back channel.  Fresh tokens and identifiers and the times of the transactions
  are arguments; an exception that no handler expects is the answer 500, and undoes its own transaction only.
\<close>

section \<open>Requests and responses\<close>

definition SESSION_COOKIE :: string where "SESSION_COOKIE = ''__Host-tby_session''"
definition LOGIN_COOKIE :: string where "LOGIN_COOKIE = ''__Host-tby_login''"
definition CALLBACK_PATH :: string where "CALLBACK_PATH = ''/api/auth/callback''"
definition BACKCHANNEL_PATH :: string where "BACKCHANNEL_PATH = ''/api/auth/backchannel-logout''"
definition FLOW_COOKIE_MAX_AGE_S :: int where "FLOW_COOKIE_MAX_AGE_S = 600"
definition USER_AGENT_MAX :: nat where "USER_AGENT_MAX = 512"
definition ACCOUNT_SIGNING_IN :: string where "ACCOUNT_SIGNING_IN = ''/account/account-security/signing-in''"

text \<open>Every cookie is \<^verbatim>\<open>HttpOnly\<close>, \<^verbatim>\<open>Secure\<close>, \<^verbatim>\<open>SameSite=Lax\<close> with the path \<^verbatim>\<open>/\<close>.\<close>

datatype cookie = SetCookie string string int | ClearCookie string

record response =
  rs_status :: int
  rs_detail :: string
  rs_location :: "string option"
  rs_cookies :: "cookie list"

definition refused :: "int \<Rightarrow> string \<Rightarrow> response" where
  "refused status detail = \<lparr>rs_status = status, rs_detail = detail, rs_location = None, rs_cookies = []\<rparr>"

definition crashed :: response where "crashed = refused 500 ''Internal Server Error''"

definition redirect :: "string \<Rightarrow> cookie list \<Rightarrow> response" where
  "redirect url cookies = \<lparr>rs_status = 302, rs_detail = [], rs_location = Some url, rs_cookies = cookies\<rparr>"

text \<open>The page of a failed callback.\<close>

definition failure :: "int \<Rightarrow> string \<Rightarrow> response" where
  "failure status code = (refused status code)\<lparr>rs_cookies := [ClearCookie LOGIN_COOKIE]\<rparr>"

record web_request =
  wq_login_cookie :: "string option"
  wq_session_cookie :: "string option"
  wq_user_agent :: "string option"
  wq_ip :: "string option"

text \<open>The app: its settings, its client of the provider (none in development), and the keyed hash of tokens.\<close>

record ('s, 'k) auth_app =
  ap_settings :: settings
  ap_oidc :: "oidc_client option"
  ap_idp :: "('s, 'k) idp"
  ap_urlsplit :: url_parts
  ap_hash :: "string \<Rightarrow> string \<Rightarrow> string"

type_synonym ('s, 'k) world = "db \<times> ('s, 'k) oidc_state"

definition build_oidc :: "settings \<Rightarrow> string list + oidc_client option" where
  "build_oidc s =
     (if resolved_auth_mode s = DevMode then Inr None
      else (let missing = map fst (filter (\<lambda>(name, v). given v = [])
          [(''TABAYYUN_PUBLIC_URL'', st_public_url s), (''TABAYYUN_OIDC_ISSUER'', st_oidc_issuer s),
           (''TABAYYUN_OIDC_CLIENT_SECRET'', st_oidc_client_secret s), (''TABAYYUN_SESSION_SECRET'', st_session_secret s)])
        in if missing \<noteq> [] then Inl missing
           else Inr (Some (oidc_client_of (given (st_oidc_issuer s)) (st_oidc_client_id s) (given (st_oidc_client_secret s))))))"

definition public_url :: "('s, 'k) auth_app \<Rightarrow> string" where
  "public_url A = rstrip_char (CHR ''/'') (given (st_public_url (ap_settings A)))"

section \<open>Starting a login\<close>

definition sign_in_method_of :: "string \<Rightarrow> sign_in_method option" where
  "sign_in_method_of m = (if m = ''google'' then Some Google else if m = ''github'' then Some Github else if m = ''passkey'' then Some Passkey else None)"

definition sign_in_options :: "('s, 'k) auth_app \<Rightarrow> (string \<times> bool) list" where
  "sign_in_options A =
     (let enabled = (if ap_oidc A = None then [] else enabled_sign_in_methods (ap_settings A)) in map (\<lambda>m. (m, m \<in> set enabled)) SIGN_IN_METHODS)"

record fresh_flow =
  ff_state :: string
  ff_nonce :: string
  ff_verifier :: string
  ff_token :: string

definition start_login :: "('s, 'k) auth_app \<Rightarrow> string \<Rightarrow> string option \<Rightarrow> fresh_flow \<Rightarrow> datetime \<Rightarrow> ('s, 'k) world \<Rightarrow> response \<times> ('s, 'k) world" where
  "start_login A method next_path fresh now = (\<lambda>(d, c).
     (case ap_oidc A of
        None \<Rightarrow> (refused 404 ''oidc_disabled'', (d, c))
      | Some cl \<Rightarrow>
          if method \<notin> set (enabled_sign_in_methods (ap_settings A)) then (refused 400 ''unknown_method'', (d, c))
          else (case sign_in_method_of method of
              None \<Rightarrow> (crashed, (d, c))
            | Some m \<Rightarrow>
                (let f = \<lparr>fw_state = ff_state fresh, fw_nonce = ff_nonce fresh, fw_code_verifier = ff_verifier fresh, fw_method = m,
                       fw_next_path = safe_next (ap_urlsplit A) next_path\<rparr>
                 in (case authorization_url (ap_idp A) cl f (public_url A @ CALLBACK_PATH) c of
                       (Inl IdpUnavailable, c') \<Rightarrow> (refused 503 ''idp_unavailable'', (d, c'))
                     | (Inl _, c') \<Rightarrow> (crashed, (d, c'))
                     | (Inr url, c') \<Rightarrow>
                         (case st_session_secret (ap_settings A) of
                            None \<Rightarrow> (crashed, (d, c'))
                          | Some secret \<Rightarrow>
                              (redirect url [SetCookie LOGIN_COOKIE (ff_token fresh) FLOW_COOKIE_MAX_AGE_S],
                               (create_flow d (ap_hash A secret (ff_token fresh)) f now, c'))))))))"

section \<open>The callback\<close>

definition method_proven :: "sign_in_method \<Rightarrow> jobj \<Rightarrow> bool" where
  "method_proven m claims \<longleftrightarrow>
     (if m = Passkey then (case map_of claims ''amr'' of Some (JArr vs) \<Rightarrow> JStr ''passkey'' \<in> set vs | _ \<Rightarrow> False)
      else map_of claims ''identity_provider'' = Some (JStr (sign_in_text m)))"

record callback_query =
  cq_state :: "string option"
  cq_code :: "string option"
  cq_error :: "string option"

record fresh_session =
  fs_token :: string
  fs_id :: uuid
  fs_new_user :: uuid
  fs_event_ids :: "uuid list"

definition text_claim :: "('s, 'k) idp \<Rightarrow> jobj \<Rightarrow> string \<Rightarrow> string option" where
  "text_claim E claims k = (if truthy_claim claims k then map_option (str_of E) (map_of claims k) else None)"

definition seconds_of :: "int \<Rightarrow> int" where
  "seconds_of us = (if 0 \<le> us then us div 1000000 else - (- us div 1000000))"

text \<open>The second transaction: the user is linked, and gets a session unless they are disabled.\<close>

definition sign_in :: "('s, 'k) auth_app \<Rightarrow> oidc_client \<Rightarrow> string \<Rightarrow> web_request \<Rightarrow> sign_in_method \<Rightarrow> string \<Rightarrow> string \<Rightarrow> jobj \<Rightarrow>
    fresh_session \<Rightarrow> datetime \<Rightarrow> db \<Rightarrow> response \<times> db" where
  "sign_in A cl secret q m next_path id_token claims fresh now d =
     (let E = ap_idp A; st = ap_settings A in
      case (map_of claims ''sub'', map_of claims ''email'') of
        (Some sub, Some email) \<Rightarrow>
          (case login d (ic_issuer cl) (str_of E sub) (lower (strip (str_of E email))) True (given (text_claim E claims ''name''))
              (st_admin_email st) (fs_new_user fresh) (fs_event_ids fresh) now of
             Inl _ \<Rightarrow> (crashed, d)
           | Inr (d1, r) \<Rightarrow>
               if lr_disabled r
               then ((failure 403 ''account_disabled'')\<lparr>rs_cookies := [ClearCookie LOGIN_COOKIE, ClearCookie SESSION_COOKIE]\<rparr>,
                 fst (revoke_user_sessions d1 (lr_user_id r) None now))
               else (redirect next_path [ClearCookie LOGIN_COOKIE, SetCookie SESSION_COOKIE (fs_token fresh) (seconds_of (st_session_absolute st))],
                 create_session d1 (fs_id fresh) (ap_hash A secret (fs_token fresh)) (lr_user_id r) (lr_org_id r) m
                   (text_claim E claims ''sid'') (Some id_token) (wq_ip q)
                   (case take USER_AGENT_MAX (given (wq_user_agent q)) of [] \<Rightarrow> None | a \<Rightarrow> Some a)
                   (st_session_absolute st) (st_session_idle st) now))
      | _ \<Rightarrow> (crashed, d))"

text \<open>The first transaction takes the flow, whatever happens next.\<close>

definition taken_flow :: "('s, 'k) auth_app \<Rightarrow> string \<Rightarrow> web_request \<Rightarrow> datetime \<Rightarrow> db \<Rightarrow> db \<times> (flow \<times> bool) option" where
  "taken_flow A secret q now d =
     (case wq_login_cookie q of
        Some t \<Rightarrow> if t = [] then (d, None) else take_flow d (ap_hash A secret t) now
      | None \<Rightarrow> (d, None))"

definition exchange :: "('s, 'k) auth_app \<Rightarrow> oidc_client \<Rightarrow> flow \<Rightarrow> string \<Rightarrow> ('s, 'k, string \<times> jobj) oidc" where
  "exchange A cl f code =
     oidc_bind (exchange_code (ap_idp A) cl code (fw_code_verifier f) (public_url A @ CALLBACK_PATH)) (\<lambda>tokens.
       (let id_token = (case map_of tokens ''id_token'' of Some v \<Rightarrow> str_of (ap_idp A) v | None \<Rightarrow> [])
        in oidc_bind (validate_id_token (ap_idp A) cl id_token (fw_nonce f)) (\<lambda>claims. oidc_return (id_token, claims))))"

definition login_callback :: "('s, 'k) auth_app \<Rightarrow> web_request \<Rightarrow> callback_query \<Rightarrow> fresh_session \<Rightarrow> datetime \<Rightarrow> datetime \<Rightarrow> ('s, 'k) world
    \<Rightarrow> response \<times> ('s, 'k) world" where
  "login_callback A q query fresh now1 now2 = (\<lambda>(d, c).
     (case (ap_oidc A, st_session_secret (ap_settings A)) of
        (None, _) \<Rightarrow> (refused 404 ''oidc_disabled'', (d, c))
      | (Some cl, None) \<Rightarrow> (crashed, (d, c))
      | (Some cl, Some secret) \<Rightarrow>
          (case taken_flow A secret q now1 d of
             (d1, None) \<Rightarrow> (failure 400 ''login_expired'', (d1, c))
           | (d1, Some (f, live)) \<Rightarrow>
               if \<not> live \<or> cq_state query \<noteq> Some (fw_state f) then (failure 400 ''login_expired'', (d1, c))
               else if cq_error query \<noteq> None \<or> given (cq_code query) = []
               then (failure 400 (if cq_error query = Some ''access_denied'' then ''login_cancelled'' else ''idp_error''), (d1, c))
               else (case exchange A cl f (given (cq_code query)) c of
                   (Inl IdpUnavailable, c') \<Rightarrow> (failure 503 ''idp_unavailable'', (d1, c'))
                 | (Inl (IdpRefused e), c') \<Rightarrow> (failure 502 ''idp_error'', (d1, c'))
                 | (Inl (InvalidToken e), c') \<Rightarrow> (failure 400 ''invalid_token'', (d1, c'))
                 | (Inl OidcRaised, c') \<Rightarrow> (crashed, (d1, c'))
                 | (Inr (id_token, claims), c') \<Rightarrow>
                     if \<not> method_proven (fw_method f) claims
                     then (failure 400 (if fw_method f = Passkey then ''passkey_required'' else ''invalid_token''), (d1, c'))
                     else (case sign_in A cl secret q (fw_method f) (fw_next_path f) id_token claims fresh now2 d1 of
                         (answer, d2) \<Rightarrow> (answer, (d2, c')))))))"

section \<open>Sessions\<close>

definition request_session :: "('s, 'k) auth_app \<Rightarrow> web_request \<Rightarrow> datetime \<Rightarrow> db \<Rightarrow> (response + live option) \<times> db" where
  "request_session A q now d =
     (let st = ap_settings A; asked = is_text (wq_session_cookie q) \<and> resolved_auth_mode st = OidcMode in
      if asked \<and> st_session_secret st = None then (Inl crashed, d)
      else (case current_session d (resolved_auth_mode st = OidcMode) (ap_hash A (given (st_session_secret st))) (wq_session_cookie q) (st_session_idle st) now of
          (d', s) \<Rightarrow> (Inr s, d')))"

definition require_session :: "('s, 'k) auth_app \<Rightarrow> web_request \<Rightarrow> datetime \<Rightarrow> db \<Rightarrow> (response + auth_session) \<times> db" where
  "require_session A q now d =
     (case request_session A q now d of
        (Inl e, d') \<Rightarrow> (Inl e, d')
      | (Inr None, d') \<Rightarrow> (Inl (refused 401 ''not_authenticated''), d')
      | (Inr (Some x), d') \<Rightarrow> (Inr (cs_session x), d'))"

record me_out =
  me_user :: user
  me_org :: org
  me_role :: org_role
  me_method :: "sign_in_method option"
  me_passkey_fresh :: bool

text \<open>In development the sign-in method is none of the three.\<close>

datatype me_answer = MeOut me_out | NoAccess "string option" | MeRefused response

definition describe_user :: "db \<Rightarrow> uuid \<Rightarrow> uuid \<Rightarrow> (user \<times> org \<times> org_role) option" where
  "describe_user d u org_id =
     (case (List.find (\<lambda>x. us_id x = u) (users d), List.find (\<lambda>x. og_id x = org_id) (orgs d),
         List.find (\<lambda>m. om_user_id m = u \<and> om_org_id m = org_id) (org_memberships d)) of
        (Some x, Some y, Some m) \<Rightarrow> Some (x, y, om_role m)
      | _ \<Rightarrow> None)"

definition me_of :: "db \<Rightarrow> uuid \<Rightarrow> uuid option \<Rightarrow> sign_in_method option \<Rightarrow> bool \<Rightarrow> me_answer" where
  "me_of d u org_id m fresh =
     (case Option.bind org_id (describe_user d u) of
        None \<Rightarrow> NoAccess (map_option us_email (List.find (\<lambda>x. us_id x = u) (users d)))
      | Some (x, y, r) \<Rightarrow> MeOut \<lparr>me_user = x, me_org = y, me_role = r, me_method = m, me_passkey_fresh = fresh\<rparr>)"

definition me_route :: "('s, 'k) auth_app \<Rightarrow> web_request \<Rightarrow> uuid list \<Rightarrow> datetime \<Rightarrow> db \<Rightarrow> me_answer \<times> db" where
  "me_route A q ids now d =
     (let st = ap_settings A in
      if resolved_auth_mode st = DevMode then (me_of d BOOTSTRAP_USER_ID (Some DEFAULT_ORG_ID) None True, d)
      else (case require_session A q now d of
          (Inl e, d') \<Rightarrow> (MeRefused e, d')
        | (Inr s, d') \<Rightarrow>
            (let (d2, org_id) = (case as_org_id s of Some o' \<Rightarrow> (d', Some o') | None \<Rightarrow> join_invited_org d' (as_id s) (as_user_id s) ids now)
             in (me_of d2 (as_user_id s) org_id (Some (as_sign_in_method s))
                   (as_sign_in_method s = Passkey \<and> now - as_created_at s < st_passkey_fresh st), d2))))"

definition list_devices :: "('s, 'k) auth_app \<Rightarrow> web_request \<Rightarrow> datetime \<Rightarrow> db \<Rightarrow> (response + (auth_session \<times> bool) list) \<times> db" where
  "list_devices A q now d =
     (if resolved_auth_mode (ap_settings A) = DevMode then (Inr [], d)
      else (case require_session A q now d of
          (Inl e, d') \<Rightarrow> (Inl e, d')
        | (Inr s, d') \<Rightarrow>
            (Inr (map (\<lambda>x. (x, as_id x = as_id s)) (list_sessions d' (as_user_id s) (st_session_idle (ap_settings A)) now)), d')))"

definition revoke_device :: "('s, 'k) auth_app \<Rightarrow> web_request \<Rightarrow> uuid \<Rightarrow> datetime \<Rightarrow> db \<Rightarrow> response \<times> db" where
  "revoke_device A q session_id now d =
     (case require_session A q now d of
        (Inl e, d') \<Rightarrow> (e, d')
      | (Inr s, d') \<Rightarrow>
          (case revoke_session d' session_id (as_user_id s) now of
             (d2, False) \<Rightarrow> (refused 404 ''not found'', d2)
           | (d2, True) \<Rightarrow> ((refused 204 [])\<lparr>rs_cookies := (if session_id = as_id s then [ClearCookie SESSION_COOKIE] else [])\<rparr>, d2)))"

definition revoke_other_devices :: "('s, 'k) auth_app \<Rightarrow> web_request \<Rightarrow> datetime \<Rightarrow> db \<Rightarrow> response \<times> db" where
  "revoke_other_devices A q now d =
     (case require_session A q now d of
        (Inl e, d') \<Rightarrow> (e, d')
      | (Inr s, d') \<Rightarrow> (refused 204 [], fst (revoke_user_sessions d' (as_user_id s) (Some (as_id s)) now)))"

text \<open>The answer's detail is the URL that the browser goes to.\<close>

definition logout_route :: "('s, 'k) auth_app \<Rightarrow> web_request \<Rightarrow> datetime \<Rightarrow> ('s, 'k) world \<Rightarrow> response \<times> ('s, 'k) world" where
  "logout_route A q now = (\<lambda>(d, c).
     (case request_session A q now d of
        (Inl e, d') \<Rightarrow> (e, (d', c))
      | (Inr found, d') \<Rightarrow>
          (let d2 = (case found of None \<Rightarrow> d' | Some x \<Rightarrow> fst (revoke_session d' (as_id (cs_session x)) (as_user_id (cs_session x)) now));
               answer = (\<lambda>url. \<lparr>rs_status = 200, rs_detail = url, rs_location = None, rs_cookies = [ClearCookie SESSION_COOKIE]\<rparr>)
           in (case ap_oidc A of
                 None \<Rightarrow> (answer ''/'', (d2, c))
               | Some cl \<Rightarrow>
                   (case end_session_url (ap_idp A) cl (Option.bind found (\<lambda>x. as_id_token (cs_session x))) (public_url A @ ''/'') c of
                      (Inl IdpUnavailable, c') \<Rightarrow> (answer ''/'', (d2, c'))
                    | (Inl _, c') \<Rightarrow> (crashed, (d2, c'))
                    | (Inr url, c') \<Rightarrow> (answer (case url of Some u \<Rightarrow> u | None \<Rightarrow> ''/''), (d2, c')))))))"

definition backchannel_logout :: "('s, 'k) auth_app \<Rightarrow> string \<Rightarrow> datetime \<Rightarrow> ('s, 'k) world \<Rightarrow> response \<times> ('s, 'k) world" where
  "backchannel_logout A logout_token now = (\<lambda>(d, c).
     (case ap_oidc A of
        None \<Rightarrow> (refused 404 ''oidc_disabled'', (d, c))
      | Some cl \<Rightarrow>
          (case validate_logout_token (ap_idp A) cl logout_token c of
             (Inl (InvalidToken e), c') \<Rightarrow> (refused 400 ''invalid_token'', (d, c'))
           | (Inl IdpUnavailable, c') \<Rightarrow> (refused 503 ''idp_unavailable'', (d, c'))
           | (Inl _, c') \<Rightarrow> (crashed, (d, c'))
           | (Inr claims, c') \<Rightarrow>
               (refused 200 [],
                (fst (revoke_by_idp d (ic_issuer cl) (text_claim (ap_idp A) claims ''sid'') (text_claim (ap_idp A) claims ''sub'') now), c')))))"

definition manage_passkeys :: "('s, 'k) auth_app \<Rightarrow> response" where
  "manage_passkeys A = (case ap_oidc A of None \<Rightarrow> refused 404 ''oidc_disabled'' | Some cl \<Rightarrow> redirect (ic_issuer cl @ ACCOUNT_SIGNING_IN) [])"

section \<open>The guard of unsafe requests\<close>

definition origin_of :: "url_parts \<Rightarrow> string option \<Rightarrow> string option" where
  "origin_of urlsplit url =
     (if given url = [] then None
      else (case urlsplit (given url) of (scheme, netloc, path) \<Rightarrow>
        if scheme = [] \<or> netloc = [] then None else Some (lower (scheme @ ''://'' @ netloc))))"

text \<open>Why a request is refused: the header's value, the origin it names, and the origin that is allowed.\<close>

definition csrf_refusal :: "string option \<Rightarrow> string \<Rightarrow> string \<Rightarrow> string option \<Rightarrow> string option \<Rightarrow> string option" where
  "csrf_refusal allowed_origin method path header origin =
     (if method \<notin> UNSAFE_METHODS \<or> path = BACKCHANNEL_PATH then None
      else if header \<noteq> Some ''1'' then Some ''header''
      else if origin \<noteq> None \<and> allowed_origin \<noteq> None \<and> lower (given origin) \<noteq> given allowed_origin then Some ''origin''
      else None)"

end
