(* ===== verification/Login_Facts.thy ===== *)
theory Login_Facts
  imports Login_Routes
begin

text \<open>
  What the login guarantees: who gets a session from a callback, where a login leads the browser, and what ends a session.
\<close>

section \<open>The steps\<close>

lemma accept_one_flows: "login_flows (accept_one u e now ix d) = login_flows d"
  by (simp add: accept_one_def Let_def set_invitation_def raise_org_role_def raise_ws_role_def
      split: prod.splits option.splits)

lemma accept_flows: "login_flows (fst (accept_invitations d u now ids)) = login_flows d"
proof -
  have "login_flows (fold (accept_one u e now) ixs d) = login_flows d" for e ixs
    by (induction ixs arbitrary: d) (simp_all add: accept_one_flows)
  then show ?thesis by (simp add: accept_invitations_def Let_def split: option.splits)
qed

lemma login_flows_kept:
  assumes "login d iss subj raw verified display admin_email new_user ids now = Inr (d', r)"
  shows "login_flows d' = login_flows d"
proof -
  have "login_flows (fst (resolve_user d iss subj e n u now)) = login_flows d" for e n u
    by (simp add: resolve_user_def Let_def split: option.splits)
  moreover have "login_flows (admin_bootstrap d u e a now) = login_flows d" for d u e a
    by (simp add: admin_bootstrap_def)
  ultimately show ?thesis unfolding login_parts(3) [OF assms] by (simp add: accept_flows)
qed

lemma login_links:
  assumes "auth_ok d" "new_user \<notin> us_id ` set (users d)" "login d iss subj raw verified display admin_email new_user ids now = Inr (d', r)"
  shows "auth_ok d'" "\<exists>i \<in> set (user_identities d'). is_identity iss subj i \<and> ui_user_id i = lr_user_id r"
    "\<not> lr_disabled r \<Longrightarrow> \<forall>u \<in> set (users d'). us_id u = lr_user_id r \<longrightarrow> us_disabled_at u = None"
    "auth_sessions d' = auth_sessions d"
proof -
  let ?e = "lower (btrim raw)"
  obtain d1 u where res: "resolve_user d iss subj ?e display new_user now = (d1, u)" by (cases "resolve_user d iss subj ?e display new_user now")
  note ok1 = resolve_user_ok [OF assms(1,2) res]
  have frames: "users d' = users d1" "user_identities d' = user_identities d1" "auth_sessions d' = auth_sessions d1"
    using login_tail [OF assms(3)] res by simp_all
  have u: "lr_user_id r = u" using login_parts(4) [OF assms(3)] res by simp
  show ok: "auth_ok d'" using ok1 auth_ok_cong [OF frames] by blast
  show "\<exists>i \<in> set (user_identities d'). is_identity iss subj i \<and> ui_user_id i = lr_user_id r" using ok1 frames(2) u by simp
  show "auth_sessions d' = auth_sessions d" using frames(3) resolve_frames(1) [of d iss subj ?e display new_user now] res by simp
  assume enabled: "\<not> lr_disabled r"
  have dis: "lr_disabled r = (case List.find (\<lambda>x. us_id x = lr_user_id r) (users d') of None \<Rightarrow> False | Some x \<Rightarrow> us_disabled_at x \<noteq> None)"
    using assms(3) by (auto simp: login_def Let_def split: if_splits prod.splits)
  show "\<forall>u \<in> set (users d'). us_id u = lr_user_id r \<longrightarrow> us_disabled_at u = None"
  proof (intro ballI impI)
    fix x assume x: "x \<in> set (users d')" "us_id x = lr_user_id r"
    have "uniq_key us_id (users d')" using ok by (simp add: auth_ok_def)
    then have "List.find (\<lambda>x. us_id x = lr_user_id r) (users d') = Some x"
      by (intro find_uniq x) (metis uniq_keyD x)
    then show "us_disabled_at x = None" using enabled dis by simp
  qed
qed

definition sets_session :: "response \<Rightarrow> bool" where
  "sets_session resp \<longleftrightarrow> list_ex (\<lambda>k. case k of SetCookie name t age \<Rightarrow> name = SESSION_COOKIE | ClearCookie name \<Rightarrow> False) (rs_cookies resp)"

lemma no_session_cookie [simp]: "\<not> sets_session (refused status detail)" "\<not> sets_session (failure status detail)" "\<not> sets_session crashed"
  by (simp_all add: sets_session_def refused_def failure_def crashed_def)

text \<open>A session of the user behind the identity, who is enabled.\<close>

definition session_of :: "db \<Rightarrow> string \<Rightarrow> string \<Rightarrow> auth_session \<Rightarrow> bool" where
  "session_of d iss subj s \<longleftrightarrow>
     s \<in> set (auth_sessions d) \<and> (\<exists>i \<in> set (user_identities d). is_identity iss subj i \<and> ui_user_id i = as_user_id s) \<and>
     (\<forall>u \<in> set (users d). us_id u = as_user_id s \<longrightarrow> us_disabled_at u = None)"

lemma sign_in_effect:
  assumes "auth_ok d" "fs_new_user fresh \<notin> us_id ` set (users d)"
    and "sign_in A cl secret q m next_path id_token claims fresh now d = (resp, d')"
  shows "login_flows d' = login_flows d"
    and "\<not> sets_session resp \<Longrightarrow> \<forall>s \<in> set (auth_sessions d'). as_revoked_at s = None \<longrightarrow> s \<in> set (auth_sessions d)"
    and "sets_session resp \<Longrightarrow> rs_location resp = Some next_path \<and> (\<exists>sub s. map_of claims ''sub'' = Some sub \<and>
      session_of d' (ic_issuer cl) (str_of (ap_idp A) sub) s \<and> as_id_hash s = ap_hash A secret (fs_token fresh) \<and> as_sign_in_method s = m \<and>
      set (auth_sessions d') \<subseteq> insert s (set (auth_sessions d)))"
proof -
  let ?res = "login_flows d' = login_flows d \<and>
    (\<not> sets_session resp \<longrightarrow> (\<forall>s \<in> set (auth_sessions d'). as_revoked_at s = None \<longrightarrow> s \<in> set (auth_sessions d))) \<and>
    (sets_session resp \<longrightarrow> rs_location resp = Some next_path \<and> (\<exists>sub s. map_of claims ''sub'' = Some sub \<and>
      session_of d' (ic_issuer cl) (str_of (ap_idp A) sub) s \<and> as_id_hash s = ap_hash A secret (fs_token fresh) \<and> as_sign_in_method s = m \<and>
      set (auth_sessions d') \<subseteq> insert s (set (auth_sessions d))))"
  have ?res
  proof (cases "map_of claims ''sub''")
    case None
    then show ?thesis using assms(3) by (auto simp: sign_in_def)
  next
    case sub: (Some sub)
    show ?thesis
    proof (cases "map_of claims ''email''")
      case None
      then show ?thesis using assms(3) sub by (auto simp: sign_in_def)
    next
      case email: (Some email)
      let ?login = "login d (ic_issuer cl) (str_of (ap_idp A) sub) (lower (strip (str_of (ap_idp A) email))) True (given (text_claim (ap_idp A) claims ''name''))
              (st_admin_email (ap_settings A)) (fs_new_user fresh) (fs_event_ids fresh) now"
      show ?thesis
      proof (cases ?login)
        case (Inl e)
        then show ?thesis using assms(3) sub email by (auto simp: sign_in_def Let_def)
      next
        case (Inr x)
        obtain d1 r where x: "x = (d1, r)" by (cases x)
        note l = login_links [OF assms(1,2) Inr [unfolded x]]
        have flows: "login_flows d1 = login_flows d" by (rule login_flows_kept [OF Inr [unfolded x]])
        show ?thesis
        proof (cases "lr_disabled r")
          case True
          then have "resp = (failure 403 ''account_disabled'')\<lparr>rs_cookies := [ClearCookie LOGIN_COOKIE, ClearCookie SESSION_COOKIE]\<rparr>"
            "d' = fst (revoke_user_sessions d1 (lr_user_id r) None now)"
            using assms(3) sub email Inr x by (auto simp: sign_in_def Let_def)
          then show ?thesis using l(4) flows
            by (auto simp: sets_session_def revoke_user_sessions_def revoke_where_def)
        next
          case False
          define s where "s = \<lparr>as_id = fs_id fresh, as_id_hash = ap_hash A secret (fs_token fresh), as_user_id = lr_user_id r, as_org_id = lr_org_id r,
            as_sign_in_method = m, as_idp_sid = text_claim (ap_idp A) claims ''sid'', as_id_token = Some id_token, as_ip_address = wq_ip q,
            as_user_agent = (case take USER_AGENT_MAX (given (wq_user_agent q)) of [] \<Rightarrow> None | a \<Rightarrow> Some a), as_created_at = now,
            as_last_seen_at = now, as_expires_at = now + st_session_absolute (ap_settings A), as_revoked_at = None\<rparr>"
          have d': "d' = d1\<lparr>auth_sessions := delete_where (\<lambda>s. as_user_id s = lr_user_id r \<and> dead_session now (st_session_idle (ap_settings A)) s) (auth_sessions d1) @ [s]\<rparr>"
            and resp: "sets_session resp" "rs_location resp = Some next_path"
            using assms(3) sub email Inr x False
            by (auto simp: sign_in_def Let_def create_session_def s_def sets_session_def redirect_def)
          have "session_of d' (ic_issuer cl) (str_of (ap_idp A) sub) s"
            using l(2) l(3) [OF False] by (auto simp: session_of_def d' s_def)
          moreover have "set (auth_sessions d') \<subseteq> insert s (set (auth_sessions d))" using l(4) by (auto simp: d')
          moreover have "as_id_hash s = ap_hash A secret (fs_token fresh) \<and> as_sign_in_method s = m" by (simp add: s_def)
          ultimately show ?thesis using sub flows resp by (auto simp: d')
        qed
      qed
    qed
  qed
  then show "login_flows d' = login_flows d"
    "\<not> sets_session resp \<Longrightarrow> \<forall>s \<in> set (auth_sessions d'). as_revoked_at s = None \<longrightarrow> s \<in> set (auth_sessions d)"
    "sets_session resp \<Longrightarrow> rs_location resp = Some next_path \<and> (\<exists>sub s. map_of claims ''sub'' = Some sub \<and>
      session_of d' (ic_issuer cl) (str_of (ap_idp A) sub) s \<and> as_id_hash s = ap_hash A secret (fs_token fresh) \<and> as_sign_in_method s = m \<and>
      set (auth_sessions d') \<subseteq> insert s (set (auth_sessions d)))"
    by blast+
qed

lemma exchange_code_sound: "keeps_sound E cl (exchange_code E cl code verifier uri)"
  unfolding exchange_code_def
  by (intro keeps_sound_bind provider_metadata_sound keeps_soundI)
    (auto simp: cache_same_def Let_def split: prod.splits option.splits json.splits)

lemma exchange_Inr:
  assumes "exchange A cl f code c = (Inr (id_token, claims), c')" "cache_sound (ap_idp A) cl (fst c)"
  shows "\<exists>c1. cache_sound (ap_idp A) cl (fst c1) \<and> validate_id_token (ap_idp A) cl id_token (fw_nonce f) c1 = (Inr claims, c')"
proof -
  obtain tokens c1 where t: "exchange_code (ap_idp A) cl code (fw_code_verifier f) (public_url A @ CALLBACK_PATH) c = (Inr tokens, c1)"
    and v: "validate_id_token (ap_idp A) cl id_token (fw_nonce f) c1 = (Inr claims, c')"
    using assms(1) by (auto simp: exchange_def oidc_bind_Inr Let_def)
  show ?thesis using keeps_soundD [OF exchange_code_sound t assms(2)] v by blast
qed

section \<open>The callback\<close>

lemma taken_flow_effect:
  assumes "taken_flow A secret q now d = (d1, r)"
  shows "auth_ok d1 = auth_ok d" "users d1 = users d" "auth_sessions d1 = auth_sessions d"
    and "wq_login_cookie q = Some t \<Longrightarrow> t \<noteq> [] \<Longrightarrow> list_all (\<lambda>x. lf_id_hash x \<noteq> ap_hash A secret t) (login_flows d1)"
    and "r = Some (f, live) \<Longrightarrow> \<exists>t x. wq_login_cookie q = Some t \<and> x \<in> set (login_flows d) \<and> lf_id_hash x = ap_hash A secret t \<and>
      f = \<lparr>fw_state = lf_state x, fw_nonce = lf_nonce x, fw_code_verifier = lf_code_verifier x, fw_method = lf_method x, fw_next_path = lf_next_path x\<rparr> \<and>
      live = (now - FLOW_TTL < lf_created_at x)"
    and "set (login_flows d1) \<subseteq> set (login_flows d)"
proof -
  show "set (login_flows d1) \<subseteq> set (login_flows d)"
    using assms by (auto simp: taken_flow_def take_flow_def split: option.splits if_splits)
  show "auth_ok d1 = auth_ok d" "users d1 = users d" "auth_sessions d1 = auth_sessions d"
    using assms by (auto simp: taken_flow_def take_flow_def auth_ok_def split: option.splits if_splits)
  show "wq_login_cookie q = Some t \<Longrightarrow> t \<noteq> [] \<Longrightarrow> list_all (\<lambda>x. lf_id_hash x \<noteq> ap_hash A secret t) (login_flows d1)"
    using assms by (auto simp: taken_flow_def take_flow_def list_all_iff)
  show "r = Some (f, live) \<Longrightarrow> \<exists>t x. wq_login_cookie q = Some t \<and> x \<in> set (login_flows d) \<and> lf_id_hash x = ap_hash A secret t \<and>
      f = \<lparr>fw_state = lf_state x, fw_nonce = lf_nonce x, fw_code_verifier = lf_code_verifier x, fw_method = lf_method x, fw_next_path = lf_next_path x\<rparr> \<and>
      live = (now - FLOW_TTL < lf_created_at x)"
    using assms by (auto simp: taken_flow_def take_flow_def dest!: find_SomeD split: option.splits if_splits)
qed

text \<open>The flow a callback answers to: stored under the cookie's hash, fresh, with the state of the query.\<close>

definition answers_flow :: "('s, 'k) auth_app \<Rightarrow> string \<Rightarrow> web_request \<Rightarrow> callback_query \<Rightarrow> datetime \<Rightarrow> db \<Rightarrow> login_flow \<Rightarrow> bool" where
  "answers_flow A secret q query now d x \<longleftrightarrow>
     x \<in> set (login_flows d) \<and> (\<exists>t. wq_login_cookie q = Some t \<and> lf_id_hash x = ap_hash A secret t) \<and>
     now - FLOW_TTL < lf_created_at x \<and> cq_state query = Some (lf_state x) \<and> cq_error query = None"

definition flows_on_site :: "db \<Rightarrow> bool" where
  "flows_on_site d \<longleftrightarrow> list_all (\<lambda>x. on_site (lf_next_path x)) (login_flows d)"

text \<open>Every flow is stored with a path that the check let through.\<close>

lemma start_login_on_site: "start_login A method next_path fresh now (d, c) = (resp, (d', c')) \<Longrightarrow> flows_on_site d \<Longrightarrow> flows_on_site d'"
  by (auto simp: start_login_def flows_on_site_def create_flow_def list_all_iff safe_next_on_site Let_def
      split: option.split_asm prod.split_asm sum.split_asm oidc_error.split_asm if_split_asm)

text \<open>What the token must prove to sign in through this flow.\<close>

definition proves_sign_in :: "('s, 'k) auth_app \<Rightarrow> oidc_client \<Rightarrow> int \<Rightarrow> login_flow \<Rightarrow> string \<Rightarrow> jobj \<Rightarrow> bool" where
  "proves_sign_in A cl now x id_token claims \<longleftrightarrow>
     issued_for (ap_idp A) cl now id_token claims \<and> map_of claims ''nonce'' = Some (JStr (lf_nonce x)) \<and>
     map_of claims ''exp'' \<noteq> None \<and> map_of claims ''email_verified'' = Some (JBool True) \<and> has_email (ap_idp A) claims \<and>
     method_proven (lf_method x) claims"

text \<open>C18: A callback starts a session only for the user whom the provider's token proves, and only once: the flow of the browser's
  cookie is gone after it, whatever it answers; if it sets a session cookie, the flow was fresh and had the state of the query, the
  token was signed with the provider's keys for this client, for the flow's nonce, unexpired, with a verified address and the
  sign-in method that was asked for, the new session is of the user its subject is linked to, who is enabled, and the browser
  goes to the path the flow stored, which is on this site; if it sets none, no session that works was added.\<close>

theorem callback_proves_the_user:
  assumes "ap_oidc A = Some cl" "st_session_secret (ap_settings A) = Some secret"
    and "auth_ok d" "fs_new_user fresh \<notin> us_id ` set (users d)"
    and "cache_sound (ap_idp A) cl (fst c)" "registry_law (ap_idp A) wall"
    and "flows_on_site d" "login_callback A q query fresh now1 now2 (d, c) = (resp, (d', c'))"
  shows "flows_on_site d' \<and> (\<forall>t. wq_login_cookie q = Some t \<and> t \<noteq> [] \<longrightarrow> list_all (\<lambda>x. lf_id_hash x \<noteq> ap_hash A secret t) (login_flows d')) \<and>
    (if sets_session resp
     then \<exists>x id_token claims sub s. answers_flow A secret q query now1 d x \<and> proves_sign_in A cl (wall (snd c')) x id_token claims \<and>
       map_of claims ''sub'' = Some sub \<and> session_of d' (ic_issuer cl) (str_of (ap_idp A) sub) s \<and>
       as_id_hash s = ap_hash A secret (fs_token fresh) \<and> as_sign_in_method s = lf_method x \<and>
       set (auth_sessions d') \<subseteq> insert s (set (auth_sessions d)) \<and> rs_location resp = Some (lf_next_path x) \<and> on_site (lf_next_path x)
     else \<forall>s \<in> set (auth_sessions d'). as_revoked_at s = None \<longrightarrow> s \<in> set (auth_sessions d))"
    (is "_ \<and> ?gone d' \<and> ?rest")
proof -
  obtain d1 r where taken: "taken_flow A secret q now1 d = (d1, r)" by (cases "taken_flow A secret q now1 d")
  note t = taken_flow_effect [OF taken]
  have gone: "?gone d1" using t(4) by blast
  have site: "flows_on_site d1" using assms(7) t(6) by (auto simp: flows_on_site_def list_all_iff)
  consider (early) "d' = d1" "\<not> sets_session resp"
    | (signed) f id_token claims where "r = Some (f, True)" "cq_state query = Some (fw_state f)" "cq_error query = None"
      "exchange A cl f (given (cq_code query)) c = (Inr (id_token, claims), c')" "method_proven (fw_method f) claims"
      "sign_in A cl secret q (fw_method f) (fw_next_path f) id_token claims fresh now2 d1 = (resp, d')"
    using assms(1,2,8) taken
    by (auto simp: login_callback_def split: option.split_asm prod.split_asm sum.split_asm oidc_error.split_asm if_split_asm)
  then show ?thesis
  proof cases
    case early
    then show ?thesis using gone t(3) site by simp
  next
    case signed
    obtain t x where x: "wq_login_cookie q = Some t" "x \<in> set (login_flows d)" "lf_id_hash x = ap_hash A secret t"
      "f = \<lparr>fw_state = lf_state x, fw_nonce = lf_nonce x, fw_code_verifier = lf_code_verifier x, fw_method = lf_method x, fw_next_path = lf_next_path x\<rparr>"
      "now1 - FLOW_TTL < lf_created_at x" using t(5) [OF signed(1)] by auto
    obtain c1 where c1: "cache_sound (ap_idp A) cl (fst c1)" "validate_id_token (ap_idp A) cl id_token (fw_nonce f) c1 = (Inr claims, c')"
      using exchange_Inr [OF signed(4) assms(5)] by blast
    note v = validate_id_token_Inr [OF c1(2,1) assms(6)]
    have flow: "answers_flow A secret q query now1 d x" using x signed(2,3) by (simp add: answers_flow_def)
    have on_site: "on_site (lf_next_path x)" using assms(7) x(2) by (simp add: flows_on_site_def list_all_iff)
    have proof_of: "proves_sign_in A cl (wall (snd c')) x id_token claims"
      using v signed(5) x(4) by (simp add: proves_sign_in_def)
    have "auth_ok d1" "fs_new_user fresh \<notin> us_id ` set (users d1)" using t(1,2) assms(3,4) by simp_all
    note s = sign_in_effect [OF this signed(6)]
    have "?gone d'" using gone s(1) by simp
    moreover have ?rest
    proof (cases "sets_session resp")
      case True
      obtain sub u where "map_of claims ''sub'' = Some sub" "session_of d' (ic_issuer cl) (str_of (ap_idp A) sub) u"
        "as_id_hash u = ap_hash A secret (fs_token fresh)" "as_sign_in_method u = lf_method x"
        "set (auth_sessions d') \<subseteq> insert u (set (auth_sessions d))" "rs_location resp = Some (lf_next_path x)"
        using s(3) [OF True] t(3) x(4) by auto
      then show ?thesis using True flow proof_of on_site by (simp add: exI [of _ x] exI [of _ id_token] exI [of _ claims] exI [of _ u])
    qed (use s(2) t(3) in simp)
    ultimately show ?thesis using site s(1) by (simp add: flows_on_site_def)
  qed
qed

section \<open>The end of a session\<close>

text \<open>C19: Only the provider ends sessions over the back channel, and only those it names: if the answer is 200, the token was signed
  with the provider's keys for this client as a logout event, never as a token of a login, and the sessions that it revokes are
  those of the provider's session it names, or else of the user its subject is linked to; with any other answer nothing changes.\<close>

theorem backchannel_revokes_what_is_named:
  assumes "ap_oidc A = Some cl" "cache_sound (ap_idp A) cl (fst c)" "registry_law (ap_idp A) wall"
    and "backchannel_logout A logout_token now (d, c) = (resp, (d', c'))"
  shows "if rs_status resp = 200
    then \<exists>claims es sid sub. issued_for (ap_idp A) cl (wall (snd c')) logout_token claims \<and> map_of claims ''nonce'' = None \<and>
      map_of claims ''events'' = Some (JObj es) \<and> map_of es BACKCHANNEL_EVENT \<noteq> None \<and>
      sid = text_claim (ap_idp A) claims ''sid'' \<and> sub = text_claim (ap_idp A) claims ''sub'' \<and> (sid \<noteq> None \<or> sub \<noteq> None) \<and>
      d' = d\<lparr>auth_sessions := update_where (\<lambda>s. as_revoked_at s = None \<and>
          (if is_text sid then as_idp_sid s = sid
           else is_text sub \<and> map_option ui_user_id (List.find (is_identity (ic_issuer cl) (given sub)) (user_identities d)) = Some (as_user_id s)))
        (\<lambda>s. s\<lparr>as_revoked_at := Some now\<rparr>) (auth_sessions d)\<rparr>
    else d' = d"
proof -
  obtain r c1 where v: "validate_logout_token (ap_idp A) cl logout_token c = (r, c1)" by (cases "validate_logout_token (ap_idp A) cl logout_token c")
  show ?thesis
  proof (cases r)
    case (Inl e)
    then show ?thesis using assms(1,4) v by (cases e) (auto simp: backchannel_logout_def refused_def crashed_def)
  next
    case (Inr claims)
    let ?sid = "text_claim (ap_idp A) claims ''sid''" and ?sub = "text_claim (ap_idp A) claims ''sub''"
    have e: "rs_status resp = 200" "d' = fst (revoke_by_idp d (ic_issuer cl) ?sid ?sub now)" "c' = c1"
      using assms(1,4) v Inr by (auto simp: backchannel_logout_def refused_def)
    note l = validate_logout_token_Inr [OF v [unfolded Inr] assms(2,3)]
    have named: "?sid \<noteq> None \<or> ?sub \<noteq> None" using l(4) by (auto simp: text_claim_def truthy_claim_def split: option.splits)
    have nobody: "d\<lparr>auth_sessions := update_where (\<lambda>s. False) f (auth_sessions d)\<rparr> = d" for f by simp
    have "d' = d\<lparr>auth_sessions := update_where (\<lambda>s. as_revoked_at s = None \<and>
          (if is_text ?sid then as_idp_sid s = ?sid
           else is_text ?sub \<and> map_option ui_user_id (List.find (is_identity (ic_issuer cl) (given ?sub)) (user_identities d)) = Some (as_user_id s)))
        (\<lambda>s. s\<lparr>as_revoked_at := Some now\<rparr>) (auth_sessions d)\<rparr>"
      unfolding e(2) by (auto simp: revoke_by_idp_def revoke_where_def is_text_def given_def conj_commute nobody)
    then show ?thesis using e l(1,2,3) named by auto
  qed
qed

text \<open>After logging out no request finds a session with that cookie, now or later.\<close>

lemma logout_ends_the_session:
  assumes "auth_ok d" "resolved_auth_mode (ap_settings A) = OidcMode" "st_session_secret (ap_settings A) = Some secret"
    and "wq_session_cookie q = Some t" "t \<noteq> []" "logout_route A q now (d, c) = (resp, (d', c'))" "now \<le> now'"
  shows "snd (find_session d' (ap_hash A secret t) (st_session_idle (ap_settings A)) now') = None"
proof -
  let ?h = "ap_hash A secret t" and ?idle = "st_session_idle (ap_settings A)"
  obtain d1 found where s: "current_session d True (ap_hash A secret) (Some t) ?idle now = (d1, found)"
    by (cases "current_session d True (ap_hash A secret) (Some t) ?idle now")
  let ?d2 = "case found of None \<Rightarrow> d1 | Some x \<Rightarrow> fst (revoke_session d1 (as_id (cs_session x)) (as_user_id (cs_session x)) now)"
  have "request_session A q now d = (Inr found, d1)"
    using assms(2-5) s by (simp add: request_session_def Let_def given_def)
  then have d': "d' = ?d2"
    using assms(6) by (auto simp: logout_route_def Let_def split: option.split_asm prod.split_asm sum.split_asm oidc_error.split_asm)
  let ?p = "\<lambda>s. as_id_hash s = ?h \<and> live_session now ?idle s \<and> (\<exists>u \<in> set (users d). us_id u = as_user_id s)"
  have dead: False if x: "x \<in> set (auth_sessions d')" "as_id_hash x = ?h" "live_session now' ?idle x" "u \<in> set (users d')" "us_id u = as_user_id x" for x u
  proof (cases "List.find ?p (auth_sessions d)")
    case None
    then have "d' = d" using s assms(5) unfolding d' by (auto simp: current_session_def is_text_def find_session_def)
    moreover have "live_session now ?idle x" using x(3) assms(7) by (auto simp: live_session_def)
    ultimately show False using None x by (auto simp: find_None_iff')
  next
    case (Some y)
    then have y: "y \<in> set (auth_sessions d)" "?p y" by (auto dest: find_SomeD)
    define touch where "touch = (\<lambda>z :: auth_session. z\<lparr>as_last_seen_at := now\<rparr>)"
    define d1' where "d1' = d\<lparr>auth_sessions := update_where (\<lambda>z. as_id z = as_id y \<and> as_last_seen_at z < now - TOUCH_INTERVAL) touch (auth_sessions d)\<rparr>"
    have f: "find_session d ?h ?idle now = (d1', Some \<lparr>cs_session = y, cs_user_disabled =
        (case List.find (\<lambda>u. us_id u = as_user_id y) (users d) of None \<Rightarrow> False | Some u \<Rightarrow> us_disabled_at u \<noteq> None)\<rparr>)"
      using Some by (simp add: find_session_def d1'_def touch_def)
    have "\<exists>p. p y \<and> (\<forall>z. p (touch z) = p z) \<and> d' = fst (revoke_where d1' p now)"
    proof (cases found)
      case None
      then have "d' = fst (revoke_where d1' (\<lambda>z. as_user_id z = as_user_id y) now)"
        using s assms(5) f unfolding d' by (auto simp: current_session_def is_text_def revoke_user_sessions_def split: if_split_asm)
      then show ?thesis by (intro exI [of _ "\<lambda>z. as_user_id z = as_user_id y"]) (simp add: touch_def)
    next
      case (Some v)
      then have "d' = fst (revoke_where d1' (\<lambda>z. as_id z = as_id y \<and> as_user_id z = as_user_id y) now)"
        using s assms(5) f unfolding d' by (auto simp: current_session_def is_text_def revoke_session_def Let_def case_prod_beta split: if_split_asm)
      then show ?thesis by (intro exI [of _ "\<lambda>z. as_id z = as_id y \<and> as_user_id z = as_user_id y"]) (simp add: touch_def)
    qed
    then obtain p where p: "p y" "\<And>z. p (touch z) = p z" "d' = fst (revoke_where d1' p now)" by blast
    have open_x: "as_revoked_at x = None" using x(3) by (simp add: live_session_def)
    have "x \<in> set (update_where (\<lambda>s. p s \<and> as_revoked_at s = None) (\<lambda>s. s\<lparr>as_revoked_at := Some now\<rparr>) (auth_sessions d1'))"
      using x(1) unfolding p(3) by (simp add: revoke_where_def)
    then obtain w where w: "w \<in> set (auth_sessions d1')" "x = (if p w \<and> as_revoked_at w = None then w\<lparr>as_revoked_at := Some now\<rparr> else w)"
      unfolding in_set_update_where by blast
    have "x = w" "\<not> p x" using w(2) open_x by (simp_all split: if_split_asm)
    moreover obtain z where z: "z \<in> set (auth_sessions d)" "w = (if as_id z = as_id y \<and> as_last_seen_at z < now - TOUCH_INTERVAL then touch z else z)"
      using w(1) by (simp add: d1'_def in_set_update_where) blast
    ultimately have z': "x = z \<or> x = touch z" "\<not> p x" by auto
    have "as_id_hash z = as_id_hash y" using z'(1) x(2) y(2) by (auto simp: touch_def)
    moreover have "uniq_key as_id_hash (auth_sessions d)" using assms(1) by (simp add: auth_ok_def)
    ultimately have "z = y" using uniq_keyD [OF _ z(1) y(1)] by blast
    then have "p x" using z'(1) p(1,2) by auto
    then show False using z'(2) by simp
  qed
  have "List.find (\<lambda>x. as_id_hash x = ?h \<and> live_session now' ?idle x \<and> (\<exists>u \<in> set (users d'). us_id u = as_user_id x)) (auth_sessions d') = None"
    using dead by (auto simp: find_None_iff')
  then show ?thesis by (simp add: find_session_def)
qed

section \<open>An example\<close>

definition sample_claims :: jobj where
  "sample_claims = [(''iss'', JStr ''https://idp''), (''aud'', JStr ''api''), (''exp'', JInt 100), (''iat'', JInt 0), (''sub'', JStr ''s1''), (''nonce'', JStr ''n''),
     (''email'', JStr ''a@x.io''), (''email_verified'', JBool True), (''identity_provider'', JStr ''google'')]"

definition logout_claims :: jobj where
  "logout_claims = [(''iss'', JStr ''https://idp''), (''aud'', JStr ''api''), (''exp'', JInt 100), (''iat'', JInt 0), (''sub'', JStr ''s1''),
     (''events'', JObj [(BACKCHANNEL_EVENT, JObj [])])]"

definition sample_idp :: "(unit, unit) idp" where
  "sample_idp = \<lparr>id_clock = (\<lambda>s. 0),
     id_get = (\<lambda>s url. (Some (JObj (if url = ''https://idp/.well-known/openid-configuration''
        then [(''issuer'', JStr ''https://idp''), (''authorization_endpoint'', JStr ''a''), (''token_endpoint'', JStr ''t''), (''jwks_uri'', JStr ''k'')] else [])), s)),
     id_post = (\<lambda>s url params auth. (Some (200, Some (JObj [(''id_token'', JStr ''login'')])), s)),
     id_import = (\<lambda>ks. Some ()), id_decode = (\<lambda>k algorithms t. Decoded (if t = ''login'' then sample_claims else logout_claims)),
     id_claims = (\<lambda>s leeway checks claims. if list_all (claim_has claims) checks \<and> unexpired 0 claims then None else Some ''ClaimError''),
     id_str = (\<lambda>v. []), id_urlencode = (\<lambda>ps. []), id_challenge = (\<lambda>v. v)\<rparr>"

definition sample_settings :: settings where
  "sample_settings = \<lparr>st_env = ''prod'', st_database_url = [], st_migration_database_url = None, st_db_pool_size = 5, st_db_pool_max_overflow = 10,
     st_worker_concurrency = 2, st_cache_url = [], st_s3_endpoint = None, st_s3_region = [], st_s3_access_key_id = None, st_s3_secret_access_key = None,
     st_oidc_issuer = Some ''https://idp/'', st_oidc_client_id = ''api'', st_oidc_client_secret = Some ''c'', st_session_secret = Some ''k'', st_auth_mode = None,
     st_public_url = Some ''https://x'', st_sign_in_methods = ''google'', st_admin_email = None, st_session_idle = 100, st_session_absolute = 1000,
     st_passkey_fresh = 100, st_smtp_host = None, st_smtp_port = 587, st_smtp_from = None, st_smtp_password = None, st_invitation_ttl = 100,
     st_master_key = None, st_master_key_previous = None, st_connector_allowed_networks = [], st_connector_allow_public = True,
     st_run_fetch_budget_s = 120, st_chart_max_rows = 10, st_file_sources_root = None\<rparr>"

definition sample_app :: "(unit, unit) auth_app" where
  "sample_app = \<lparr>ap_settings = sample_settings, ap_oidc = Some \<lparr>ic_issuer = ''https://idp'', ic_client_id = ''api'', ic_secret = ''c''\<rparr>, ap_idp = sample_idp,
     ap_urlsplit = (\<lambda>u. ([], [], u)), ap_hash = (\<lambda>secret t. t)\<rparr>"

definition flow_db :: db where
  "flow_db = ex_auth\<lparr>login_flows := [\<lparr>lf_id_hash = ''f'', lf_state = ''st'', lf_nonce = ''n'', lf_code_verifier = ''v'', lf_method = Google,
     lf_next_path = ''/runs'', lf_created_at = 0\<rparr>]\<rparr>"

definition sample_web :: web_request where
  "sample_web = \<lparr>wq_login_cookie = Some ''f'', wq_session_cookie = None, wq_user_agent = None, wq_ip = None\<rparr>"

definition sample_query :: callback_query where
  "sample_query = \<lparr>cq_state = Some ''st'', cq_code = Some ''code'', cq_error = None\<rparr>"

definition sample_fresh :: fresh_session where
  "sample_fresh = \<lparr>fs_token = ''token'', fs_id = 70, fs_new_user = 71, fs_event_ids = []\<rparr>"

lemma sample_law: "registry_law sample_idp (\<lambda>s. 0)"
  by (simp add: registry_law_def sample_idp_def)

lemma sample_signs_in: "sets_session (fst (login_callback sample_app sample_web sample_query sample_fresh 1 2 (flow_db, (None, ()))))"
  by code_simp

theorem callback_proves_the_user_witness:
  "case login_callback sample_app sample_web sample_query sample_fresh 1 2 (flow_db, (None, ())) of (resp, (d', c')) \<Rightarrow>
     sets_session resp \<and> rs_location resp = Some ''/runs'' \<and> (\<exists>s sub. session_of d' ''https://idp'' sub s \<and> as_sign_in_method s = Google)"
proof -
  obtain resp d' c' where r: "login_callback sample_app sample_web sample_query sample_fresh 1 2 (flow_db, (None, ())) = (resp, (d', c'))"
    by (metis prod.collapse)
  have sets: "sets_session resp" using sample_signs_in unfolding r by simp
  have app: "ap_oidc sample_app = Some \<lparr>ic_issuer = ''https://idp'', ic_client_id = ''api'', ic_secret = ''c''\<rparr>"
    "st_session_secret (ap_settings sample_app) = Some ''k''" "ap_idp sample_app = sample_idp"
    by (simp_all add: sample_app_def sample_settings_def)
  have d: "auth_ok flow_db" "fs_new_user sample_fresh \<notin> us_id ` set (users flow_db)"
    using ex_auth_ok by (simp_all add: flow_db_def auth_ok_def sample_fresh_def ex_auth_def user_row_def)
  have site: "flows_on_site flow_db" by (simp add: flows_on_site_def flow_db_def on_site_def unprintable_def)
  have sound: "cache_sound (ap_idp sample_app) cl (fst (None, ()))" for cl by (simp add: cache_sound_def)
  have by_flow: "lf_method x = Google" "lf_next_path x = ''/runs''" if "answers_flow sample_app ''k'' sample_web sample_query 1 flow_db x" for x
    using that by (simp_all add: answers_flow_def flow_db_def)
  show ?thesis
    using callback_proves_the_user [OF app(1,2) d sound sample_law [folded app(3)] site r] sets by_flow unfolding r by auto
qed

definition linked_db :: db where
  "linked_db = ex_auth\<lparr>user_identities := [\<lparr>ui_issuer = ''https://idp'', ui_subject = ''s1'', ui_user_id = 8, ui_email_at_login = ''a@x.io'',
     ui_created_at = 0, ui_last_login_at = 0\<rparr>]\<rparr>"

lemma sample_logs_out: "rs_status (fst (backchannel_logout sample_app ''bye'' 5 (linked_db, (None, ())))) = 200"
  by code_simp

theorem backchannel_revokes_what_is_named_witness:
  "case backchannel_logout sample_app ''bye'' 5 (linked_db, (None, ())) of (resp, (d', c')) \<Rightarrow>
     rs_status resp = 200 \<and> list_all (\<lambda>s. as_revoked_at s = Some 5) (auth_sessions d')"
proof -
  obtain resp d' c' where r: "backchannel_logout sample_app ''bye'' 5 (linked_db, (None, ())) = (resp, (d', c'))"
    by (metis prod.collapse)
  have ok: "rs_status resp = 200" using sample_logs_out unfolding r by simp
  have app: "ap_oidc sample_app = Some \<lparr>ic_issuer = ''https://idp'', ic_client_id = ''api'', ic_secret = ''c''\<rparr>" "ap_idp sample_app = sample_idp"
    by (simp_all add: sample_app_def)
  have sound: "cache_sound (ap_idp sample_app) cl (fst (None, ()))" for cl by (simp add: cache_sound_def)
  have claims: "claims = logout_claims" if "issued_for sample_idp cl now ''bye'' claims" for cl now claims
    using that by (auto simp: issued_for_def sample_idp_def)
  have said: "text_claim sample_idp logout_claims ''sid'' = None" "text_claim sample_idp logout_claims ''sub'' = Some ''s1''"
    by (simp_all add: text_claim_def truthy_claim_def logout_claims_def str_of_def)
  have db: "auth_sessions linked_db = [ex_session]" "List.find (is_identity ''https://idp'' ''s1'') (user_identities linked_db) \<noteq> None"
    "map_option ui_user_id (List.find (is_identity ''https://idp'' ''s1'') (user_identities linked_db)) = Some (as_user_id ex_session)"
    "as_revoked_at ex_session = None"
    by (simp_all add: linked_db_def ex_auth_def is_identity_def ex_session_def)
  from backchannel_revokes_what_is_named [OF app(1) sound sample_law [folded app(2)] r] ok
  obtain claims where i: "issued_for sample_idp \<lparr>ic_issuer = ''https://idp'', ic_client_id = ''api'', ic_secret = ''c''\<rparr> 0 ''bye'' claims"
    and d': "d' = linked_db\<lparr>auth_sessions := update_where (\<lambda>s. as_revoked_at s = None \<and>
          (if is_text (text_claim sample_idp claims ''sid'') then as_idp_sid s = text_claim sample_idp claims ''sid''
           else is_text (text_claim sample_idp claims ''sub'') \<and>
             map_option ui_user_id (List.find (is_identity ''https://idp'' (given (text_claim sample_idp claims ''sub''))) (user_identities linked_db)) = Some (as_user_id s)))
        (\<lambda>s. s\<lparr>as_revoked_at := Some 5\<rparr>) (auth_sessions linked_db)\<rparr>"
    by (auto simp: app(2))
  have "auth_sessions d' = [ex_session\<lparr>as_revoked_at := Some 5\<rparr>]"
    using d' said db unfolding claims [OF i] by (simp add: is_text_def given_def update_where_def)
  then show ?thesis using r ok by simp
qed

end
