(* ===== verification/Admin_Routes.thy ===== *)
theory Admin_Routes
  imports Admin_Log Login_Routes
begin

text \<open>
  \<^verbatim>\<open>routers/admin.py\<close> and \<^verbatim>\<open>routers/invitations.py\<close> with \<^verbatim>\<open>get_principal\<close> of \<^verbatim>\<open>authz/deps.py\<close>: a request of the admin panel passes
  the session check, the counting of changes, the passkey gate and the role that its route names, and then runs one
  operation of \<^verbatim>\<open>services/admin\<close> in one transaction.  Bodies and parameters are typed; what pydantic checks besides types is
  \<open>valid_request\<close>.  A refusal by an \<^verbatim>\<open>AdminError\<close> and one by an \<^verbatim>\<open>HTTPException\<close> with the same status and code are not told apart,
  and the header \<^verbatim>\<open>Retry-After\<close> of a 429 is left out.
\<close>

section \<open>Who asks\<close>

definition BOOTSTRAP_PRINCIPAL :: principal where
  "BOOTSTRAP_PRINCIPAL = \<lparr>pr_user_id = BOOTSTRAP_USER_ID, pr_org_id = DEFAULT_ORG_ID\<rparr>"

text \<open>The principal, and the session that stays on the request.\<close>

definition get_principal :: "('s, 'k) auth_app \<Rightarrow> web_request \<Rightarrow> datetime \<Rightarrow> db \<Rightarrow> (response + principal \<times> live option) \<times> db" where
  "get_principal A q now d =
     (if resolved_auth_mode (ap_settings A) = DevMode then (Inr (BOOTSTRAP_PRINCIPAL, None), d)
      else (case request_session A q now d of
          (Inl e, d') \<Rightarrow> (Inl e, d')
        | (Inr None, d') \<Rightarrow> (Inl (refused 401 ''not_authenticated''), d')
        | (Inr (Some s), d') \<Rightarrow>
            (case as_org_id (cs_session s) of
               None \<Rightarrow> (Inl (refused 403 ''no_access''), d')
             | Some org_id \<Rightarrow> (Inr (\<lparr>pr_user_id = as_user_id (cs_session s), pr_org_id = org_id\<rparr>, Some s), d'))))"

text \<open>
  What the routes use besides: whether requests are counted and the counters' database answers, whether jobs run
  inline, the time zones that exist, and the readers of cursors.
\<close>

record admin_env =
  en_rate_limits :: bool
  en_counting :: bool
  en_inline_jobs :: bool
  en_known_timezone :: "string \<Rightarrow> bool"
  en_member_cursor :: "string \<Rightarrow> string option"
  en_event_cursor :: "string \<Rightarrow> (datetime \<times> uuid) option"

text \<open>The times of the session check, of the two countings, of the passkey gate and of the operation.\<close>

record moments =
  mo_session :: datetime
  mo_count :: datetime
  mo_passkey :: datetime
  mo_invite :: datetime
  mo_work :: datetime

definition ADMIN_WRITE_RULE :: rule where "ADMIN_WRITE_RULE = rule_of ''admin.write'' 60 MINUTE"
definition ADMIN_INVITE_RULE :: rule where "ADMIN_INVITE_RULE = rule_of ''admin.invite'' 50 HOUR"

definition rate_limited :: response where "rate_limited = refused 429 ''rate_limited''"

text \<open>The dependencies of the routers, in their order.\<close>

definition admin_gate :: "('s, 'k) auth_app \<Rightarrow> admin_env \<Rightarrow> web_request \<Rightarrow> string \<Rightarrow> moments \<Rightarrow> db \<Rightarrow> (response + principal) \<times> db" where
  "admin_gate A E q verb mo d =
     (let st = ap_settings A in
      case get_principal A q (mo_session mo) d of
        (Inl e, d1) \<Rightarrow> (Inl e, d1)
      | (Inr (p, s), d1) \<Rightarrow>
          (case limit_request d1 (en_counting E) (en_rate_limits E) ADMIN_WRITE_RULE (Some UNSAFE_METHODS) verb
                  (limit_key ByUser p (wq_ip q) None) (mo_count mo) of
             (d2, Inl _) \<Rightarrow> (Inl rate_limited, d2)
           | (d2, Inr _) \<Rightarrow>
               (case require_recent_passkey (resolved_auth_mode st = DevMode) (st_passkey_fresh st) s (mo_passkey mo) of
                  Inl (status, detail) \<Rightarrow> (Inl (refused status detail), d2)
                | Inr _ \<Rightarrow> (Inr p, d2))))"

record caller =
  cr_principal :: principal
  cr_role :: "org_role option"
  cr_actor :: actor

definition is_org_admin :: "caller \<Rightarrow> bool" where
  "is_org_admin c \<longleftrightarrow> (case cr_role c of None \<Rightarrow> False | Some r \<Rightarrow> r \<in> set ORG_ADMINS)"

definition admin_caller :: "web_request \<Rightarrow> principal \<Rightarrow> db \<Rightarrow> caller" where
  "admin_caller q p d =
     \<lparr>cr_principal = p, cr_role = org_role d p,
      cr_actor = \<lparr>ac_user_id = pr_user_id p, ac_org_id = pr_org_id p, ac_ip_address = wq_ip q, ac_user_agent = wq_user_agent q\<rparr>\<rparr>"

definition org_admin :: "caller \<Rightarrow> admin_error + unit" where
  "org_admin c = require (is_org_admin c) AdminForbidden"

definition org_owner :: "caller \<Rightarrow> admin_error + unit" where
  "org_owner c = require (cr_role c = Some OrgOwner) AdminForbidden"

definition any_admin :: "db \<Rightarrow> caller \<Rightarrow> admin_error + unit" where
  "any_admin d c =
     (if is_org_admin c then Inr ()
      else require (\<exists>(w, r) \<in> set (workspace_roles d (cr_principal c)). r = WsAdmin) AdminForbidden)"

definition workspace_admin :: "db \<Rightarrow> caller \<Rightarrow> uuid \<Rightarrow> admin_error + unit" where
  "workspace_admin d c wid =
     (case authorize d (cr_principal c) ActManage wid of
        Inl NotVisible \<Rightarrow> Inl NotFound
      | Inl Forbidden \<Rightarrow> Inl AdminForbidden
      | Inr _ \<Rightarrow> Inr ())"

section \<open>Requests and answers\<close>

datatype admin_request =
    GetOrg
  | RenameOrg string
  | ListMembers "string option" "string option" int
  | ChangeMemberRole uuid org_role
  | RemoveMember uuid
  | ListTeams
  | CreateTeam string
  | RenameTeam uuid string
  | DeleteTeam uuid
  | AddTeamMember uuid uuid
  | RemoveTeamMember uuid uuid
  | ListAdminWorkspaces
  | CreateWorkspace string string
  | UpdateWorkspace uuid "string option" "string option"
  | DeleteWorkspace uuid
  | GetAccess uuid
  | SetWorkspaceMember uuid uuid workspace_role
  | RemoveWorkspaceMember uuid uuid
  | SetWorkspaceTeam uuid uuid workspace_role
  | RemoveWorkspaceTeam uuid uuid
  | ListAudit "uuid option" "string option" "uuid option" "string option" int
  | ListInvitations bool
  | CreateInvitation string string "uuid option" "workspace_role option"
  | ResendInvitation uuid
  | RevokeInvitation uuid

text \<open>An invitation with the names that the panel shows.\<close>

record invitation_view =
  iv_invitation :: invitation
  iv_inviter :: "user option"
  iv_workspace :: "workspace option"
  iv_status :: inv_status

datatype admin_answer =
    OrgOut org org_role
  | MemberPage "member list" "string option"
  | MemberOut member
  | TeamsOut "team_view list"
  | TeamOut team_view
  | AdminWorkspacesOut "(workspace \<times> workspace_role) list"
  | WorkspaceOut workspace
  | AccessOut access
  | AuditPage "(audit_event \<times> user option) list" "(datetime \<times> uuid) option"
  | InvitationsOut "invitation_view list"
  | InvitationOut invitation_view
  | NoContent

definition verb_of :: "admin_request \<Rightarrow> string" where
  "verb_of r =
     (case r of
        GetOrg \<Rightarrow> ''GET'' | ListMembers _ _ _ \<Rightarrow> ''GET'' | ListTeams \<Rightarrow> ''GET'' | ListAdminWorkspaces \<Rightarrow> ''GET''
      | GetAccess _ \<Rightarrow> ''GET'' | ListAudit _ _ _ _ _ \<Rightarrow> ''GET'' | ListInvitations _ \<Rightarrow> ''GET''
      | RenameOrg _ \<Rightarrow> ''PATCH'' | ChangeMemberRole _ _ \<Rightarrow> ''PATCH'' | RenameTeam _ _ \<Rightarrow> ''PATCH'' | UpdateWorkspace _ _ _ \<Rightarrow> ''PATCH''
      | CreateTeam _ \<Rightarrow> ''POST'' | CreateWorkspace _ _ \<Rightarrow> ''POST'' | CreateInvitation _ _ _ _ \<Rightarrow> ''POST'' | ResendInvitation _ \<Rightarrow> ''POST''
      | AddTeamMember _ _ \<Rightarrow> ''PUT'' | SetWorkspaceMember _ _ _ \<Rightarrow> ''PUT'' | SetWorkspaceTeam _ _ _ \<Rightarrow> ''PUT''
      | RemoveMember _ \<Rightarrow> ''DELETE'' | DeleteTeam _ \<Rightarrow> ''DELETE'' | RemoveTeamMember _ _ \<Rightarrow> ''DELETE'' | DeleteWorkspace _ \<Rightarrow> ''DELETE''
      | RemoveWorkspaceMember _ _ \<Rightarrow> ''DELETE'' | RemoveWorkspaceTeam _ _ \<Rightarrow> ''DELETE'' | RevokeInvitation _ \<Rightarrow> ''DELETE'')"

definition success_status :: "admin_request \<Rightarrow> admin_answer \<Rightarrow> int" where
  "success_status r answer =
     (case r of CreateTeam _ \<Rightarrow> 201 | CreateWorkspace _ _ \<Rightarrow> 201 | CreateInvitation _ _ _ _ \<Rightarrow> 201
      | _ \<Rightarrow> if answer = NoContent then 204 else 200)"

definition MAX_PAGE :: int where "MAX_PAGE = 200"

definition at_most :: "nat \<Rightarrow> string option \<Rightarrow> bool" where
  "at_most n x \<longleftrightarrow> (case x of None \<Rightarrow> True | Some s \<Rightarrow> length s \<le> n)"

text \<open>The lengths and ranges of the declared fields and query parameters.\<close>

definition valid_request :: "admin_request \<Rightarrow> bool" where
  "valid_request r \<longleftrightarrow>
     (case r of
        RenameOrg name \<Rightarrow> length name \<le> 500
      | ListMembers q cursor limit \<Rightarrow> at_most 200 q \<and> at_most 1000 cursor \<and> 1 \<le> limit \<and> limit \<le> MAX_PAGE
      | CreateTeam name \<Rightarrow> length name \<le> 500
      | RenameTeam _ name \<Rightarrow> length name \<le> 500
      | CreateWorkspace name tz \<Rightarrow> length name \<le> 500 \<and> length tz \<le> 100
      | UpdateWorkspace _ name tz \<Rightarrow> at_most 500 name \<and> at_most 100 tz
      | ListAudit _ action _ before limit \<Rightarrow> at_most 100 action \<and> at_most 1000 before \<and> 1 \<le> limit \<and> limit \<le> MAX_PAGE
      | CreateInvitation email o' _ _ \<Rightarrow> length email \<le> 500 \<and> length o' \<le> 20
      | _ \<Rightarrow> True)"

text \<open>The identifiers that an operation draws: of its row, and of its audit event.\<close>

record drawn =
  fr_row :: uuid
  fr_event :: uuid


type_synonym outcome = "admin_error + admin_answer \<times> db"

text \<open>An operation with no result, and a read.\<close>

definition changed :: "admin_error + db \<Rightarrow> outcome" where
  "changed x = rbind x (\<lambda>d'. Inr (NoContent, d'))"

definition read_only :: "db \<Rightarrow> admin_answer \<Rightarrow> outcome" where
  "read_only d a = Inr (a, d)"

section \<open>The org and its members\<close>

definition get_org_route :: "caller \<Rightarrow> db \<Rightarrow> outcome" where
  "get_org_route c d = rbind (get_org d (pr_org_id (cr_principal c))) (\<lambda>x. read_only d (OrgOut x (the (cr_role c))))"

definition rename_org_route :: "caller \<Rightarrow> string \<Rightarrow> drawn \<Rightarrow> datetime \<Rightarrow> db \<Rightarrow> outcome" where
  "rename_org_route c name fresh now d =
     rbind (rename_org d (cr_actor c) name (fr_event fresh) now) (\<lambda>(d', x). Inr (OrgOut x OrgOwner, d'))"

definition list_members_route :: "admin_env \<Rightarrow> caller \<Rightarrow> string option \<Rightarrow> string option \<Rightarrow> int \<Rightarrow> db \<Rightarrow> outcome" where
  "list_members_route E c q cursor limit d =
     rbind (case cursor of None \<Rightarrow> Inr None | Some t \<Rightarrow> rbind (expect (en_member_cursor E t) (Invalid ''invalid_cursor'')) (\<lambda>e. Inr (Some e)))
       (\<lambda>after. case list_members d (pr_org_id (cr_principal c)) q after (nat limit) of
          (page, nxt) \<Rightarrow> read_only d (MemberPage page nxt))"

definition change_member_role_route :: "caller \<Rightarrow> uuid \<Rightarrow> org_role \<Rightarrow> drawn \<Rightarrow> datetime \<Rightarrow> db \<Rightarrow> outcome" where
  "change_member_role_route c user_id role fresh now d =
     rbind (change_role d (cr_actor c) (the (cr_role c)) user_id role (fr_event fresh) now) (\<lambda>(d', m). Inr (MemberOut m, d'))"

definition remove_member_route :: "caller \<Rightarrow> uuid \<Rightarrow> drawn \<Rightarrow> datetime \<Rightarrow> db \<Rightarrow> outcome" where
  "remove_member_route c user_id fresh now d = changed (remove_member d (cr_actor c) (the (cr_role c)) user_id (fr_event fresh) now)"

section \<open>Teams\<close>

definition list_teams_route :: "caller \<Rightarrow> db \<Rightarrow> outcome" where
  "list_teams_route c d = read_only d (TeamsOut (list_teams d (pr_org_id (cr_principal c))))"

definition team_answer :: "caller \<Rightarrow> uuid \<Rightarrow> db \<Rightarrow> outcome" where
  "team_answer c team_id d =
     rbind (expect (List.find (\<lambda>t. tv_id t = team_id) (list_teams d (pr_org_id (cr_principal c)))) NotFound) (\<lambda>t. Inr (TeamOut t, d))"

definition create_team_route :: "caller \<Rightarrow> string \<Rightarrow> drawn \<Rightarrow> datetime \<Rightarrow> db \<Rightarrow> outcome" where
  "create_team_route c name fresh now d =
     rbind (create_team d (cr_actor c) name (fr_row fresh) (fr_event fresh) now) (\<lambda>(d', t). team_answer c (tm_id t) d')"

definition rename_team_route :: "caller \<Rightarrow> uuid \<Rightarrow> string \<Rightarrow> drawn \<Rightarrow> datetime \<Rightarrow> db \<Rightarrow> outcome" where
  "rename_team_route c team_id name fresh now d =
     rbind (rename_team d (cr_actor c) team_id name (fr_event fresh) now) (\<lambda>(d', t). team_answer c team_id d')"

definition delete_team_route :: "caller \<Rightarrow> uuid \<Rightarrow> drawn \<Rightarrow> datetime \<Rightarrow> db \<Rightarrow> outcome" where
  "delete_team_route c team_id fresh now d = changed (delete_team d (cr_actor c) team_id (fr_event fresh) now)"

definition add_team_member_route :: "caller \<Rightarrow> uuid \<Rightarrow> uuid \<Rightarrow> drawn \<Rightarrow> datetime \<Rightarrow> db \<Rightarrow> outcome" where
  "add_team_member_route c team_id user_id fresh now d = changed (add_team_member d (cr_actor c) team_id user_id (fr_event fresh) now)"

definition remove_team_member_route :: "caller \<Rightarrow> uuid \<Rightarrow> uuid \<Rightarrow> drawn \<Rightarrow> datetime \<Rightarrow> db \<Rightarrow> outcome" where
  "remove_team_member_route c team_id user_id fresh now d = changed (remove_team_member d (cr_actor c) team_id user_id (fr_event fresh) now)"

section \<open>Workspaces and their access lists\<close>

definition list_admin_workspaces_route :: "caller \<Rightarrow> db \<Rightarrow> outcome" where
  "list_admin_workspaces_route c d =
     (let administered = filter (\<lambda>(w, r). r = WsAdmin) (workspace_roles d (cr_principal c))
      in rbind (require (administered \<noteq> []) AdminForbidden) (\<lambda>_. read_only d (AdminWorkspacesOut administered)))"

definition create_workspace_route :: "admin_env \<Rightarrow> caller \<Rightarrow> string \<Rightarrow> string \<Rightarrow> drawn \<Rightarrow> datetime \<Rightarrow> db \<Rightarrow> outcome" where
  "create_workspace_route E c name tz fresh now d =
     rbind (create_workspace d (en_known_timezone E) (cr_actor c) name tz (fr_row fresh) (fr_event fresh) now)
       (\<lambda>(d', w). Inr (WorkspaceOut w, d'))"

definition update_workspace_route :: "admin_env \<Rightarrow> caller \<Rightarrow> uuid \<Rightarrow> string option \<Rightarrow> string option \<Rightarrow> drawn \<Rightarrow> datetime \<Rightarrow> db \<Rightarrow> outcome" where
  "update_workspace_route E c wid name tz fresh now d =
     rbind (update_workspace d (en_known_timezone E) (cr_actor c) wid name tz (fr_event fresh) now) (\<lambda>(d', w). Inr (WorkspaceOut w, d'))"

definition delete_workspace_route :: "caller \<Rightarrow> uuid \<Rightarrow> drawn \<Rightarrow> datetime \<Rightarrow> db \<Rightarrow> outcome" where
  "delete_workspace_route c wid fresh now d = changed (delete_workspace d (cr_actor c) wid (fr_event fresh) now)"

definition get_access_route :: "caller \<Rightarrow> uuid \<Rightarrow> db \<Rightarrow> outcome" where
  "get_access_route c wid d = rbind (get_access d (pr_org_id (cr_principal c)) wid) (\<lambda>x. read_only d (AccessOut x))"

definition set_workspace_member_route :: "caller \<Rightarrow> uuid \<Rightarrow> uuid \<Rightarrow> workspace_role \<Rightarrow> drawn \<Rightarrow> datetime \<Rightarrow> db \<Rightarrow> outcome" where
  "set_workspace_member_route c wid user_id role fresh now d = changed (set_ws_member d (cr_actor c) wid user_id role (fr_event fresh) now)"

definition remove_workspace_member_route :: "caller \<Rightarrow> uuid \<Rightarrow> uuid \<Rightarrow> drawn \<Rightarrow> datetime \<Rightarrow> db \<Rightarrow> outcome" where
  "remove_workspace_member_route c wid user_id fresh now d = changed (remove_ws_member d (cr_actor c) wid user_id (fr_event fresh) now)"

definition set_workspace_team_route :: "caller \<Rightarrow> uuid \<Rightarrow> uuid \<Rightarrow> workspace_role \<Rightarrow> drawn \<Rightarrow> datetime \<Rightarrow> db \<Rightarrow> outcome" where
  "set_workspace_team_route c wid team_id role fresh now d = changed (set_ws_team d (cr_actor c) wid team_id role (fr_event fresh) now)"

definition remove_workspace_team_route :: "caller \<Rightarrow> uuid \<Rightarrow> uuid \<Rightarrow> drawn \<Rightarrow> datetime \<Rightarrow> db \<Rightarrow> outcome" where
  "remove_workspace_team_route c wid team_id fresh now d = changed (remove_ws_team d (cr_actor c) wid team_id (fr_event fresh) now)"

section \<open>The audit log\<close>

text \<open>Row security keeps the log to the org of the request.\<close>

definition own_events :: "db \<Rightarrow> uuid \<Rightarrow> db" where
  "own_events d org_id = d\<lparr>audit_events := filter (\<lambda>e. ae_org_id e = org_id) (audit_events d)\<rparr>"

definition event_actor :: "db \<Rightarrow> audit_event \<Rightarrow> user option" where
  "event_actor d e = Option.bind (ae_actor_user_id e) (\<lambda>i. List.find (\<lambda>u. us_id u = i) (users d))"

definition list_audit_route :: "admin_env \<Rightarrow> caller \<Rightarrow> uuid option \<Rightarrow> string option \<Rightarrow> uuid option \<Rightarrow> string option \<Rightarrow> int \<Rightarrow> db \<Rightarrow> outcome" where
  "list_audit_route E c workspace_id action who before limit d =
     rbind (case workspace_id of
              None \<Rightarrow> rbind (require (is_org_admin c) AdminForbidden) (\<lambda>_. Inr None)
            | Some w \<Rightarrow> rbind (workspace_admin d c w) (\<lambda>_. Inr (Some [w]))) (\<lambda>wids.
     rbind (case before of None \<Rightarrow> Inr None | Some t \<Rightarrow> rbind (expect (en_event_cursor E t) (Invalid ''invalid_cursor'')) (\<lambda>k. Inr (Some k))) (\<lambda>cursor.
       case list_events (own_events d (pr_org_id (cr_principal c)))
              \<lparr>aq_workspace_ids = wids, aq_action_prefix = action, aq_actor_user_id = who, aq_before = cursor, aq_limit = nat limit\<rparr> of
         (rows, further) \<Rightarrow>
           read_only d (AuditPage (map (\<lambda>e. (e, event_actor d e)) rows)
             (if further \<and> rows \<noteq> [] then Some (ae_created_at (last rows), ae_id (last rows)) else None))))"

section \<open>Invitations\<close>

definition invitation_view_of :: "db \<Rightarrow> datetime \<Rightarrow> invitation \<Rightarrow> invitation_view" where
  "invitation_view_of d now i =
     \<lparr>iv_invitation = i, iv_inviter = List.find (\<lambda>u. us_id u = inv_invited_by i) (users d),
      iv_workspace = Option.bind (inv_workspace_id i) (\<lambda>w. List.find (\<lambda>x. ws_id x = w) (workspaces d)),
      iv_status = status_of i now\<rparr>"

text \<open>What the session refreshes before it answers: the row as the transaction has it.\<close>

definition refreshed_view :: "db \<Rightarrow> datetime \<Rightarrow> uuid \<Rightarrow> outcome" where
  "refreshed_view d now i =
     rbind (expect (List.find (\<lambda>x. inv_id x = i) (invitations d)) NotFound) (\<lambda>x. Inr (InvitationOut (invitation_view_of d now x), d))"

definition list_invitations_route :: "caller \<Rightarrow> bool \<Rightarrow> datetime \<Rightarrow> db \<Rightarrow> outcome" where
  "list_invitations_route c pending_only now d =
     read_only d (InvitationsOut (map (\<lambda>(i, s). invitation_view_of d now i) (list_invitations d (pr_org_id (cr_principal c)) pending_only now)))"

definition create_invitation_route :: "('s, 'k) auth_app \<Rightarrow> admin_env \<Rightarrow> caller \<Rightarrow> string \<Rightarrow> string \<Rightarrow> uuid option \<Rightarrow> workspace_role option \<Rightarrow>
    drawn \<Rightarrow> datetime \<Rightarrow> db \<Rightarrow> outcome" where
  "create_invitation_route A E c email o' wid wr fresh now d =
     (let st = ap_settings A in
      rbind (create_invitation d (cr_actor c) email
               \<lparr>gr_org_role = o', gr_workspace_id = wid, gr_workspace_role = map_option ws_role_value wr\<rparr>
               (st_invitation_ttl st) (mail_enabled st) (\<not> en_inline_jobs E) (fr_row fresh) (fr_event fresh) now)
        (\<lambda>(d', i). refreshed_view d' now (inv_id i)))"

definition resend_invitation_route :: "('s, 'k) auth_app \<Rightarrow> admin_env \<Rightarrow> caller \<Rightarrow> uuid \<Rightarrow> drawn \<Rightarrow> datetime \<Rightarrow> db \<Rightarrow> outcome" where
  "resend_invitation_route A E c i fresh now d =
     (let st = ap_settings A in
      rbind (resend_invitation d (cr_actor c) i (st_invitation_ttl st) (mail_enabled st) (\<not> en_inline_jobs E) (fr_event fresh) now)
        (\<lambda>d'. refreshed_view d' now i))"

definition revoke_invitation_route :: "caller \<Rightarrow> uuid \<Rightarrow> drawn \<Rightarrow> datetime \<Rightarrow> db \<Rightarrow> outcome" where
  "revoke_invitation_route c i fresh now d = changed (revoke_invitation d (cr_actor c) i (fr_event fresh) now)"

text \<open>With inline jobs the email goes out after the response, in transactions of its own; \<open>send\<close> is the mail server.\<close>

definition smtp_ready :: "settings \<Rightarrow> bool" where
  "smtp_ready s \<longleftrightarrow> mail_enabled s \<and> given (st_smtp_host s) \<noteq> [] \<and> given (st_smtp_from s) \<noteq> []"

definition login_url_of :: "settings \<Rightarrow> string option" where
  "login_url_of s = (if given (st_public_url s) = [] then None else Some (rstrip_char (CHR ''/'') (given (st_public_url s)) @ ''/login''))"

definition send_after :: "('s, 'k) auth_app \<Rightarrow> admin_env \<Rightarrow> (invitation_mail \<Rightarrow> string option) \<Rightarrow> uuid \<Rightarrow> datetime \<Rightarrow> db \<Rightarrow> string + db" where
  "send_after A E send i now d =
     (if \<not> smtp_ready (ap_settings A) \<or> \<not> en_inline_jobs E then Inr d
      else deliver d send i (login_url_of (ap_settings A)) True now)"

section \<open>The whole request\<close>

text \<open>The role that a route's dependency asks for; reads that check inside pass.\<close>

definition role_gate :: "db \<Rightarrow> caller \<Rightarrow> admin_request \<Rightarrow> admin_error + unit" where
  "role_gate d c r =
     (case r of
        RenameOrg _ \<Rightarrow> org_owner c
      | DeleteWorkspace _ \<Rightarrow> org_owner c
      | ListMembers _ _ _ \<Rightarrow> any_admin d c
      | ListTeams \<Rightarrow> any_admin d c
      | UpdateWorkspace w _ _ \<Rightarrow> workspace_admin d c w
      | GetAccess w \<Rightarrow> workspace_admin d c w
      | SetWorkspaceMember w _ _ \<Rightarrow> workspace_admin d c w
      | RemoveWorkspaceMember w _ \<Rightarrow> workspace_admin d c w
      | SetWorkspaceTeam w _ _ \<Rightarrow> workspace_admin d c w
      | RemoveWorkspaceTeam w _ \<Rightarrow> workspace_admin d c w
      | ListAdminWorkspaces \<Rightarrow> Inr ()
      | ListAudit _ _ _ _ _ \<Rightarrow> Inr ()
      | _ \<Rightarrow> org_admin c)"

definition invite_gate :: "admin_env \<Rightarrow> web_request \<Rightarrow> principal \<Rightarrow> admin_request \<Rightarrow> datetime \<Rightarrow> db \<Rightarrow> db \<times> ((string \<times> int) + unit)" where
  "invite_gate E q p r now d =
     (if (case r of CreateInvitation _ _ _ _ \<Rightarrow> True | ResendInvitation _ \<Rightarrow> True | _ \<Rightarrow> False)
      then limit_request d (en_counting E) (en_rate_limits E) ADMIN_INVITE_RULE None (verb_of r) (limit_key ByOrg p (wq_ip q) None) now
      else (d, Inr ()))"

definition run_admin :: "('s, 'k) auth_app \<Rightarrow> admin_env \<Rightarrow> caller \<Rightarrow> admin_request \<Rightarrow> drawn \<Rightarrow> datetime \<Rightarrow> db \<Rightarrow> outcome" where
  "run_admin A E c r fresh now d =
     (case r of
        GetOrg \<Rightarrow> get_org_route c d
      | RenameOrg name \<Rightarrow> rename_org_route c name fresh now d
      | ListMembers q cursor limit \<Rightarrow> list_members_route E c q cursor limit d
      | ChangeMemberRole u role \<Rightarrow> change_member_role_route c u role fresh now d
      | RemoveMember u \<Rightarrow> remove_member_route c u fresh now d
      | ListTeams \<Rightarrow> list_teams_route c d
      | CreateTeam name \<Rightarrow> create_team_route c name fresh now d
      | RenameTeam t name \<Rightarrow> rename_team_route c t name fresh now d
      | DeleteTeam t \<Rightarrow> delete_team_route c t fresh now d
      | AddTeamMember t u \<Rightarrow> add_team_member_route c t u fresh now d
      | RemoveTeamMember t u \<Rightarrow> remove_team_member_route c t u fresh now d
      | ListAdminWorkspaces \<Rightarrow> list_admin_workspaces_route c d
      | CreateWorkspace name tz \<Rightarrow> create_workspace_route E c name tz fresh now d
      | UpdateWorkspace w name tz \<Rightarrow> update_workspace_route E c w name tz fresh now d
      | DeleteWorkspace w \<Rightarrow> delete_workspace_route c w fresh now d
      | GetAccess w \<Rightarrow> get_access_route c w d
      | SetWorkspaceMember w u role \<Rightarrow> set_workspace_member_route c w u role fresh now d
      | RemoveWorkspaceMember w u \<Rightarrow> remove_workspace_member_route c w u fresh now d
      | SetWorkspaceTeam w t role \<Rightarrow> set_workspace_team_route c w t role fresh now d
      | RemoveWorkspaceTeam w t \<Rightarrow> remove_workspace_team_route c w t fresh now d
      | ListAudit w action who before limit \<Rightarrow> list_audit_route E c w action who before limit d
      | ListInvitations pending_only \<Rightarrow> list_invitations_route c pending_only now d
      | CreateInvitation email o' w wr \<Rightarrow> create_invitation_route A E c email o' w wr fresh now d
      | ResendInvitation i \<Rightarrow> resend_invitation_route A E c i fresh now d
      | RevokeInvitation i \<Rightarrow> revoke_invitation_route c i fresh now d)"

definition admin_refused :: "admin_error \<Rightarrow> response" where
  "admin_refused e = refused (error_status e) (error_code e)"

text \<open>An error rolls the transaction of the operation back; the session check and the countings have committed.\<close>

definition admin_route :: "('s, 'k) auth_app \<Rightarrow> admin_env \<Rightarrow> web_request \<Rightarrow> admin_request \<Rightarrow> drawn \<Rightarrow> moments \<Rightarrow> db \<Rightarrow>
    (response + int \<times> admin_answer) \<times> db" where
  "admin_route A E q r fresh mo d =
     (case admin_gate A E q (verb_of r) mo d of
        (Inl e, d1) \<Rightarrow> (Inl e, d1)
      | (Inr p, d1) \<Rightarrow>
          (let c = admin_caller q p d1 in
           case role_gate d1 c r of
             Inl e \<Rightarrow> (Inl (admin_refused e), d1)
           | Inr _ \<Rightarrow>
               (case invite_gate E q p r (mo_invite mo) d1 of
                  (d2, Inl _) \<Rightarrow> (Inl rate_limited, d2)
                | (d2, Inr _) \<Rightarrow>
                    if \<not> valid_request r then (Inl (refused 422 ''invalid request''), d2)
                    else (case run_admin A E c r fresh (mo_work mo) d2 of
                        Inl e \<Rightarrow> (Inl (admin_refused e), d2)
                      | Inr (answer, d3) \<Rightarrow> (Inr (success_status r answer, answer), d3)))))"

end
