(* ===== verification/Admin_Route_Facts.thy ===== *)
theory Admin_Route_Facts
  imports Admin_Routes Login_Facts
begin

text \<open>
  What the admin panel guarantees: a request that changes anything comes from a live passkey session with the role that
  its route names, and is one operation of the services with one audit event that names its user.
\<close>

section \<open>What the gates touch\<close>

definition same_data :: "db \<Rightarrow> db \<Rightarrow> bool" where
  "same_data d d' \<longleftrightarrow> d' = d\<lparr>auth_sessions := auth_sessions d', rate_limits := rate_limits d'\<rparr>"

lemma same_data_refl [simp]: "same_data d d"
  by (simp add: same_data_def)

lemma same_data_trans:
  assumes "same_data d d1" and "same_data d1 d2"
  shows "same_data d d2"
proof -
  have 1: "d1 = d\<lparr>auth_sessions := auth_sessions d1, rate_limits := rate_limits d1\<rparr>"
    and 2: "d2 = d1\<lparr>auth_sessions := auth_sessions d2, rate_limits := rate_limits d2\<rparr>"
    using assms unfolding same_data_def .
  have "d2 = (d\<lparr>auth_sessions := auth_sessions d1, rate_limits := rate_limits d1\<rparr>)\<lparr>auth_sessions := auth_sessions d2, rate_limits := rate_limits d2\<rparr>"
    using 2 by (subst 1 [symmetric])
  then show ?thesis by (simp add: same_data_def)
qed

lemma same_data_updates [simp]:
  "same_data d (d\<lparr>auth_sessions := ss\<rparr>)"
  "same_data d (d\<lparr>rate_limits := rs\<rparr>)"
  by (simp_all add: same_data_def)

lemma same_data_frame:
  assumes "same_data d d'"
  shows "users d' = users d" "org_memberships d' = org_memberships d" "workspaces d' = workspaces d"
    "workspace_memberships d' = workspace_memberships d" "workspace_team_roles d' = workspace_team_roles d"
    "team_members d' = team_members d" "audit_events d' = audit_events d" "teams d' = teams d" "invitations d' = invitations d"
proof -
  have d': "d' = d\<lparr>auth_sessions := auth_sessions d', rate_limits := rate_limits d'\<rparr>"
    using assms by (simp add: same_data_def)
  show "users d' = users d" by (subst d') simp
  show "org_memberships d' = org_memberships d" by (subst d') simp
  show "workspaces d' = workspaces d" by (subst d') simp
  show "workspace_memberships d' = workspace_memberships d" by (subst d') simp
  show "workspace_team_roles d' = workspace_team_roles d" by (subst d') simp
  show "team_members d' = team_members d" by (subst d') simp
  show "audit_events d' = audit_events d" by (subst d') simp
  show "teams d' = teams d" by (subst d') simp
  show "invitations d' = invitations d" by (subst d') simp
qed

lemma same_data_roles:
  assumes "same_data d d'"
  shows "active_org_role d' p = active_org_role d p" and "workspace_role d' p w = workspace_role d p w"
proof -
  note frame = same_data_frame [OF assms]
  have active: "active_member d' p = active_member d p"
    by (rule ext) (simp add: active_member_def user_active_def frame)
  show role: "active_org_role d' p = active_org_role d p" by (simp add: active_org_role_def active frame)
  show "workspace_role d' p w = workspace_role d p w"
    unfolding workspace_role_def role by (simp add: frame team_role_rows_def split: option.split)
qed

lemma find_session_same: "find_session d h idle now = (d', s) \<Longrightarrow> same_data d d'"
  by (auto simp: find_session_def split: option.splits)

lemma current_session_same: "current_session d oidc th cookie idle now = (d', s) \<Longrightarrow> same_data d d'"
  by (auto simp: current_session_def revoke_user_sessions_def revoke_where_def split: if_splits prod.splits option.splits
      dest!: find_session_same intro: same_data_trans)

lemma request_session_same: "request_session A q now d = (x, d') \<Longrightarrow> same_data d d'"
  by (auto simp: request_session_def Let_def split: if_splits prod.splits dest: current_session_same)

lemma get_principal_same: "get_principal A q now d = (x, d') \<Longrightarrow> same_data d d'"
  by (auto simp: get_principal_def split: if_splits prod.splits sum.splits option.splits dest: request_session_same)

lemma limit_request_same: "limit_request d up enabled rule ms verb key now = (d', x) \<Longrightarrow> same_data d d'"
  by (auto simp: limit_request_def hit_def count_hit_def Let_def split: if_splits)

lemma admin_gate_same: "admin_gate A E q verb mo d = (x, d') \<Longrightarrow> same_data d d'"
  by (auto simp: admin_gate_def Let_def split: prod.splits sum.splits dest!: get_principal_same limit_request_same intro: same_data_trans)

lemma invite_gate_same: "invite_gate E q p r now d = (d', x) \<Longrightarrow> same_data d d'"
  unfolding invite_gate_def by (auto split: if_split_asm dest: limit_request_same)

section \<open>Who passes the gate\<close>

text \<open>A live session of an enabled user in the org, signed in with a passkey, and recently; development has no login.\<close>

definition signed_in :: "('s, 'k) auth_app \<Rightarrow> web_request \<Rightarrow> moments \<Rightarrow> db \<Rightarrow> principal \<Rightarrow> bool" where
  "signed_in A q mo d p \<longleftrightarrow>
     (let st = ap_settings A in
      resolved_auth_mode st = DevMode \<and> p = BOOTSTRAP_PRINCIPAL \<or>
      (\<exists>secret token. st_session_secret st = Some secret \<and> wq_session_cookie q = Some token \<and>
        (\<exists>s \<in> set (auth_sessions d). as_id_hash s = ap_hash A secret token \<and> live_session (mo_session mo) (st_session_idle st) s \<and>
          as_sign_in_method s = Passkey \<and> mo_passkey mo - as_created_at s < st_passkey_fresh st \<and>
          as_user_id s = pr_user_id p \<and> as_org_id s = Some (pr_org_id p) \<and>
          (\<exists>u \<in> set (users d). us_id u = as_user_id s \<and> us_disabled_at u = None))))"

lemma find_session_live:
  assumes "find_session d h idle now = (d', Some s)" and "\<not> cs_user_disabled s"
  shows "cs_session s \<in> set (auth_sessions d) \<and> as_id_hash (cs_session s) = h \<and> live_session now idle (cs_session s) \<and>
    (\<exists>u \<in> set (users d). us_id u = as_user_id (cs_session s) \<and> us_disabled_at u = None)"
proof -
  obtain x where x: "List.find (\<lambda>s. as_id_hash s = h \<and> live_session now idle s \<and> (\<exists>u \<in> set (users d). us_id u = as_user_id s)) (auth_sessions d) = Some x"
    "s = \<lparr>cs_session = x, cs_user_disabled =
             (case List.find (\<lambda>u. us_id u = as_user_id x) (users d) of None \<Rightarrow> False | Some u \<Rightarrow> us_disabled_at u \<noteq> None)\<rparr>"
    using assms(1) by (auto simp: find_session_def split: option.split_asm)
  from find_SomeD [OF x(1)] have live: "x \<in> set (auth_sessions d)" "as_id_hash x = h" "live_session now idle x"
    "\<exists>u \<in> set (users d). us_id u = as_user_id x" by auto
  then obtain u where u: "List.find (\<lambda>u. us_id u = as_user_id x) (users d) = Some u"
    by (cases "List.find (\<lambda>u. us_id u = as_user_id x) (users d)") (auto simp: find_None_iff')
  with assms(2) x(2) have "us_disabled_at u = None" by simp
  with find_SomeD [OF u] live x(2) show ?thesis by auto
qed

lemma request_session_live:
  assumes "request_session A q now d = (Inr (Some s), d')"
  shows "\<exists>secret token. st_session_secret (ap_settings A) = Some secret \<and> wq_session_cookie q = Some token \<and>
    cs_session s \<in> set (auth_sessions d) \<and> as_id_hash (cs_session s) = ap_hash A secret token \<and>
    live_session now (st_session_idle (ap_settings A)) (cs_session s) \<and>
    (\<exists>u \<in> set (users d). us_id u = as_user_id (cs_session s) \<and> us_disabled_at u = None)"
proof -
  let ?st = "ap_settings A"
  have cur: "current_session d (resolved_auth_mode ?st = OidcMode) (ap_hash A (given (st_session_secret ?st))) (wq_session_cookie q)
      (st_session_idle ?st) now = (d', Some s)"
    and nocrash: "\<not> (is_text (wq_session_cookie q) \<and> resolved_auth_mode ?st = OidcMode \<and> st_session_secret ?st = None)"
    using assms by (auto simp: request_session_def Let_def split: if_split_asm prod.split_asm)
  then have asked: "is_text (wq_session_cookie q)" "resolved_auth_mode ?st = OidcMode"
    by (auto simp: current_session_def split: if_split_asm)
  then obtain token secret where t: "wq_session_cookie q = Some token" "st_session_secret ?st = Some secret"
    using nocrash by (auto simp: is_text_def)
  obtain d1 where "find_session d (ap_hash A secret token) (st_session_idle ?st) now = (d1, Some s)" "\<not> cs_user_disabled s"
    using cur asked t by (auto simp: current_session_def given_def split: if_split_asm prod.split_asm option.split_asm)
  from find_session_live [OF this] t show ?thesis by blast
qed

lemma admin_gate_signed_in:
  assumes "admin_gate A E q verb mo d = (Inr p, d')"
  shows "signed_in A q mo d p"
proof -
  let ?st = "ap_settings A"
  obtain s d1 where g: "get_principal A q (mo_session mo) d = (Inr (p, s), d1)"
    and k: "require_recent_passkey (resolved_auth_mode ?st = DevMode) (st_passkey_fresh ?st) s (mo_passkey mo) = Inr ()"
    using assms by (auto simp: admin_gate_def Let_def split: prod.split_asm sum.split_asm)
  show ?thesis
  proof (cases "resolved_auth_mode ?st = DevMode")
    case True
    then show ?thesis using g by (simp add: signed_in_def get_principal_def)
  next
    case False
    obtain x o' where x: "request_session A q (mo_session mo) d = (Inr (Some x), d1)" "s = Some x" "as_org_id (cs_session x) = Some o'"
        "p = \<lparr>pr_user_id = as_user_id (cs_session x), pr_org_id = o'\<rparr>"
      using g False by (auto simp: get_principal_def split: prod.split_asm sum.split_asm option.split_asm)
    have "as_sign_in_method (cs_session x) = Passkey" "mo_passkey mo - as_created_at (cs_session x) < st_passkey_fresh ?st"
      using k False x(2) by (auto simp: require_recent_passkey_def passkey_is_fresh_def split: if_split_asm)
    with request_session_live [OF x(1)] x show ?thesis unfolding signed_in_def Let_def by force
  qed
qed

section \<open>What an operation does\<close>

text \<open>The role that each change needs; a read changes nothing.\<close>

definition permits :: "db \<Rightarrow> principal \<Rightarrow> admin_request \<Rightarrow> bool" where
  "permits d p r \<longleftrightarrow>
     (case r of
        RenameOrg _ \<Rightarrow> active_org_role d p = Some OrgOwner
      | DeleteWorkspace _ \<Rightarrow> active_org_role d p = Some OrgOwner
      | UpdateWorkspace w _ _ \<Rightarrow> workspace_role d p w = Some WsAdmin
      | SetWorkspaceMember w _ _ \<Rightarrow> workspace_role d p w = Some WsAdmin
      | RemoveWorkspaceMember w _ \<Rightarrow> workspace_role d p w = Some WsAdmin
      | SetWorkspaceTeam w _ _ \<Rightarrow> workspace_role d p w = Some WsAdmin
      | RemoveWorkspaceTeam w _ \<Rightarrow> workspace_role d p w = Some WsAdmin
      | _ \<Rightarrow> verb_of r \<noteq> ''GET'' \<and> (active_org_role d p = Some OrgOwner \<or> active_org_role d p = Some OrgAdmin))"

lemma org_admin_role: "org_admin (admin_caller q p d) = Inr x \<Longrightarrow> active_org_role d p = Some OrgOwner \<or> active_org_role d p = Some OrgAdmin"
  by (auto simp: org_admin_def is_org_admin_def admin_caller_def org_role_def ORG_ADMINS_def result_simps split: option.split_asm)

lemma org_owner_role: "org_owner (admin_caller q p d) = Inr x \<Longrightarrow> active_org_role d p = Some OrgOwner"
  by (auto simp: org_owner_def admin_caller_def org_role_def result_simps)

lemma workspace_admin_role: "workspace_admin d (admin_caller q p d) w = Inr x \<Longrightarrow> workspace_role d p w = Some WsAdmin"
proof -
  assume "workspace_admin d (admin_caller q p d) w = Inr x"
  then obtain role where "authorize d p ActManage w = Inr role"
    by (auto simp: workspace_admin_def admin_caller_def split: sum.split_asm authz_error.split_asm)
  then have "workspace_role d p w = Some role" "allows (Some role) ActManage"
    by (auto simp: authorize_def result_simps split: option.split_asm)
  then show ?thesis by (cases role) (simp_all add: allows_def required_role_def role_rank_def)
qed

lemma role_gate_permits:
  assumes "role_gate d (admin_caller q p d) r = Inr x" and "verb_of r \<noteq> ''GET''"
  shows "permits d p r"
  using assms by (cases r) (auto simp: role_gate_def permits_def verb_of_def dest: org_admin_role org_owner_role workspace_admin_role)

lemma changed_Inr: "changed x = Inr (a, d') \<longleftrightarrow> x = Inr d' \<and> a = NoContent"
  by (cases x) (auto simp: changed_def)

lemma team_answer_Inr: "team_answer c t d = Inr (a, d') \<Longrightarrow> d' = d"
  by (auto simp: team_answer_def result_simps)

lemma refreshed_view_Inr: "refreshed_view d now i = Inr (a, d') \<Longrightarrow> d' = d"
  by (auto simp: refreshed_view_def result_simps)

lemma reads_change_nothing: "run_admin A E c r fresh now d = Inr (a, d') \<Longrightarrow> verb_of r = ''GET'' \<Longrightarrow> d' = d"
  by (cases r) (auto simp: run_admin_def verb_of_def get_org_route_def list_members_route_def list_teams_route_def
      list_admin_workspaces_route_def get_access_route_def list_audit_route_def list_invitations_route_def read_only_def
      rbind_eq_Inr case_prod_unfold Let_def)

definition row_unused :: "uuid \<Rightarrow> db \<Rightarrow> bool" where
  "row_unused i d \<longleftrightarrow> i \<notin> tm_id ` set (teams d) \<and> i \<notin> ws_id ` set (workspaces d) \<and> i \<notin> inv_id ` set (invitations d)"

definition one_step :: "actor \<Rightarrow> db \<Rightarrow> db \<Rightarrow> bool" where
  "one_step a d d' \<longleftrightarrow> admin_step d d' \<and> logs_one a d d'"

lemma steps_of_operations:
  "change_role d a r i new e now = Inr (d', m) \<Longrightarrow> one_step a d d'"
  "remove_member d a r i e now = Inr d' \<Longrightarrow> one_step a d d'"
  "rename_org d a nm e now = Inr (d', x) \<Longrightarrow> one_step a d d'"
  "create_team d a nm t e now = Inr (d', y) \<Longrightarrow> row_unused t d \<Longrightarrow> one_step a d d'"
  "rename_team d a t nm e now = Inr (d', y) \<Longrightarrow> one_step a d d'"
  "delete_team d a t e now = Inr d' \<Longrightarrow> one_step a d d'"
  "add_team_member d a t i e now = Inr d' \<Longrightarrow> one_step a d d'"
  "remove_team_member d a t i e now = Inr d' \<Longrightarrow> one_step a d d'"
  "create_workspace d known a nm tz w e now = Inr (d', z) \<Longrightarrow> row_unused w d \<Longrightarrow> one_step a d d'"
  "update_workspace d known a w nm' tz' e now = Inr (d', z) \<Longrightarrow> one_step a d d'"
  "delete_workspace d a w e now = Inr d' \<Longrightarrow> one_step a d d'"
  "set_ws_member d a w i wr e now = Inr d' \<Longrightarrow> one_step a d d'"
  "remove_ws_member d a w i e now = Inr d' \<Longrightarrow> one_step a d d'"
  "set_ws_team d a w t wr e now = Inr d' \<Longrightarrow> one_step a d d'"
  "remove_ws_team d a w t e now = Inr d' \<Longrightarrow> one_step a d d'"
  "create_invitation d a email g ttl on defer i e now = Inr (d', v) \<Longrightarrow> row_unused i d \<Longrightarrow> one_step a d d'"
  "resend_invitation d a i ttl on defer e now = Inr d' \<Longrightarrow> one_step a d d'"
  "revoke_invitation d a i e now = Inr d' \<Longrightarrow> one_step a d d'"
  unfolding one_step_def row_unused_def
  by (blast intro: admin_step.intros change_role_log remove_member_log rename_org_log create_team_log rename_team_log
      delete_team_log add_team_member_log remove_team_member_log create_workspace_log update_workspace_log delete_workspace_log
      set_ws_member_log remove_ws_member_log set_ws_team_log remove_ws_team_log create_invitation_log resend_invitation_log
      revoke_invitation_log)+

lemma run_admin_step:
  assumes "run_admin A E c r fresh now d = Inr (a, d')" and "row_unused (fr_row fresh) d" and "verb_of r \<noteq> ''GET''"
  shows "one_step (cr_actor c) d d'"
  using assms
  by (cases r) (auto simp: run_admin_def verb_of_def rename_org_route_def change_member_role_route_def remove_member_route_def
      create_team_route_def rename_team_route_def delete_team_route_def add_team_member_route_def remove_team_member_route_def
      create_workspace_route_def update_workspace_route_def delete_workspace_route_def set_workspace_member_route_def
      remove_workspace_member_route_def set_workspace_team_route_def remove_workspace_team_route_def create_invitation_route_def
      resend_invitation_route_def revoke_invitation_route_def changed_Inr rbind_eq_Inr Let_def
      dest!: team_answer_Inr refreshed_view_Inr dest: steps_of_operations)

section \<open>Changes are authorised\<close>

text \<open>C8: a request of the admin panel that changes anything but sessions and counters succeeds, comes from a live session in its
  org that signed in with a passkey recently (in development, from the bootstrap user), of a user whose role permits the
  change, and is one operation of the services, which adds one event to the audit log that names the org and the user.\<close>

theorem admin_change_is_authorised:
  assumes "admin_route A E q r fresh mo d = (answer, d')"
    and "\<not> same_data d d'"
    and "row_unused (fr_row fresh) d"
  shows "\<exists>p d1 e. signed_in A q mo d p \<and> permits d p r \<and> same_data d d1 \<and> admin_step d1 d' \<and>
    (\<exists>x. answer = Inr x) \<and> audit_events d' = audit_events d @ [e] \<and> ae_org_id e = pr_org_id p \<and> ae_actor_user_id e = Some (pr_user_id p)"
proof -
  obtain g d0 where gate: "admin_gate A E q (verb_of r) mo d = (g, d0)" by (cases "admin_gate A E q (verb_of r) mo d")
  note s0 = admin_gate_same [OF gate]
  show ?thesis
  proof (cases g)
    case (Inl x)
    then show ?thesis using assms(1,2) gate s0 by (simp add: admin_route_def)
  next
    case (Inr p)
    let ?c = "admin_caller q p d0"
    obtain i d1 where inv: "invite_gate E q p r (mo_invite mo) d0 = (d1, i)" by (cases "invite_gate E q p r (mo_invite mo) d0")
    note s1 = same_data_trans [OF s0 invite_gate_same [OF inv]]
    from assms(1,2) gate s0 s1 inv Inr obtain a where run: "run_admin A E ?c r fresh (mo_work mo) d1 = Inr (a, d')"
      and role: "role_gate d0 ?c r = Inr ()" and ans: "answer = Inr (success_status r a, a)"
      by (auto simp: admin_route_def Let_def split: sum.split_asm if_split_asm)
    have "d' \<noteq> d1" using s1 assms(2) by auto
    then have verb: "verb_of r \<noteq> ''GET''" using reads_change_nothing [OF run] by blast
    have "row_unused (fr_row fresh) d1" using assms(3) by (simp add: row_unused_def same_data_frame [OF s1])
    from run_admin_step [OF run this verb] \<open>d' \<noteq> d1\<close> obtain e where e: "admin_step d1 d'" "by_actor (cr_actor ?c) e"
        "audit_events d' = audit_events d1 @ [e]"
      by (auto simp: one_step_def logs_one_def)
    have "permits d0 p r" by (rule role_gate_permits [OF role verb])
    then have "permits d p r" unfolding permits_def same_data_roles [OF s0] .
    moreover have "ae_org_id e = pr_org_id p" "ae_actor_user_id e = Some (pr_user_id p)"
      using e(2) by (simp_all add: by_actor_def admin_caller_def)
    moreover have "audit_events d' = audit_events d @ [e]" using e(3) same_data_frame(7) [OF s1] by simp
    ultimately show ?thesis using admin_gate_signed_in [of A E q "verb_of r" mo d p d0] gate Inr e(1) s1 ans by blast
  qed
qed

definition sample_admin :: admin_env where
  "sample_admin = \<lparr>en_rate_limits = True, en_counting = True, en_inline_jobs = False, en_known_timezone = (\<lambda>z. True),
     en_member_cursor = (\<lambda>t. None), en_event_cursor = (\<lambda>t. None)\<rparr>"

definition panel_request :: web_request where
  "panel_request = \<lparr>wq_login_cookie = None, wq_session_cookie = Some ''h'', wq_user_agent = None, wq_ip = None\<rparr>"

definition sample_moments :: moments where
  "sample_moments = \<lparr>mo_session = 5, mo_count = 5, mo_passkey = 5, mo_invite = 5, mo_work = 5\<rparr>"

definition sample_drawn :: drawn where "sample_drawn = \<lparr>fr_row = 90, fr_event = 91\<rparr>"

lemma sample_creates_team:
  "map tm_id (teams (snd (admin_route sample_app sample_admin panel_request (CreateTeam ''ops'') sample_drawn sample_moments ex_auth))) = [90]"
  by code_simp

theorem admin_change_is_authorised_witness:
  "case admin_route sample_app sample_admin panel_request (CreateTeam ''ops'') sample_drawn sample_moments ex_auth of (answer, d') \<Rightarrow>
     map ae_actor_user_id (audit_events d') = [Some 8]"
proof -
  obtain answer d' where r: "admin_route sample_app sample_admin panel_request (CreateTeam ''ops'') sample_drawn sample_moments ex_auth = (answer, d')"
    by (metis prod.collapse)
  have empty: "teams ex_auth = []" "workspaces ex_auth = []" "invitations ex_auth = []" "audit_events ex_auth = []" "auth_sessions ex_auth = [ex_session]"
    by (simp_all add: ex_auth_def empty_db_def)
  have "map tm_id (teams d') = [90]" using sample_creates_team unfolding r by simp
  then have change: "\<not> same_data ex_auth d'" using same_data_frame(8) empty(1) by fastforce
  have unused: "row_unused (fr_row sample_drawn) ex_auth" by (simp add: row_unused_def empty)
  have oidc: "resolved_auth_mode (ap_settings sample_app) \<noteq> DevMode" by code_simp
  from admin_change_is_authorised [OF r change unused] obtain p e where p: "signed_in sample_app panel_request sample_moments ex_auth p"
    and e: "audit_events d' = audit_events ex_auth @ [e]" "ae_actor_user_id e = Some (pr_user_id p)" by blast
  from p oidc have "pr_user_id p = 8" by (auto simp: signed_in_def Let_def empty ex_session_def)
  with e empty r show ?thesis by simp
qed

end
