(* ===== verification/Pagination.thy ===== *)
theory Pagination
  imports Models Strings
begin

text \<open>
  The keyset pages of the list endpoints: \<^verbatim>\<open>services/pagination.py\<close> and the queries that
  share its shape.  A cursor is the key of the last row of a page (its base64 text is the client's form of
  it); a page is the first \<open>limit\<close> rows after the cursor, and its own cursor when there are more.
\<close>

section \<open>Pages\<close>

text \<open>One row more than the limit tells whether there is a next page.\<close>

definition cut_page :: "('r \<Rightarrow> 'k) \<Rightarrow> nat \<Rightarrow> 'r list \<Rightarrow> 'r list \<times> 'k option" where
  "cut_page key limit found =
     (let rows = take (limit + 1) found
      in (take limit rows, if limit < length rows then Some (key (rows ! (limit - 1))) else None))"

text \<open>
  The contract of a listing: how it orders rows (\<open>before\<close> is the strict order of the keys, \<open>arrange\<close> the
  \<^verbatim>\<open>ORDER BY\<close>).
\<close>

locale keyset_listing =
  fixes key :: "'r \<Rightarrow> 'k"
    and before :: "'k \<Rightarrow> 'k \<Rightarrow> bool"
    and arrange :: "'r list \<Rightarrow> 'r list"
  assumes before_trans: "before a b \<Longrightarrow> before b c \<Longrightarrow> before a c"
    and before_irrefl: "\<not> before a a"
    and arrange_set: "set (arrange t) = set t"
    and arrange_length: "length (arrange t) = length t"
    and arrange_sorted: "distinct (map key t) \<Longrightarrow> sorted_wrt (\<lambda>r s. before (key r) (key s)) (arrange t)"
begin

definition page :: "nat \<Rightarrow> 'k option \<Rightarrow> 'r list \<Rightarrow> 'r list \<times> 'k option" where
  "page limit cursor t =
     cut_page key limit (arrange (filter (\<lambda>r. case cursor of None \<Rightarrow> True | Some c \<Rightarrow> before c (key r)) t))"

text \<open>A client that follows the cursors, at most \<open>n\<close> times.\<close>

fun walk :: "nat \<Rightarrow> nat \<Rightarrow> 'k option \<Rightarrow> 'r list \<Rightarrow> 'r list option" where
  "walk 0 limit cursor t = None"
| "walk (Suc n) limit cursor t =
     (case page limit cursor t of
        (rows, None) \<Rightarrow> Some rows
      | (rows, Some c) \<Rightarrow> map_option ((@) rows) (walk n limit (Some c) t))"

text \<open>Two strictly sorted lists of the same rows are the same list.\<close>

lemma sorted_unique:
  "sorted_wrt (\<lambda>r s. before (key r) (key s)) xs \<Longrightarrow> sorted_wrt (\<lambda>r s. before (key r) (key s)) ys \<Longrightarrow>
   set xs = set ys \<Longrightarrow> xs = ys"
proof (induction xs arbitrary: ys)
  case (Cons x xs)
  then obtain y ys' where ys: "ys = y # ys'" by (cases ys) auto
  have "x = y"
  proof (rule ccontr)
    assume "x \<noteq> y"
    then have "x \<in> set ys'" "y \<in> set xs" using Cons.prems(3) ys by auto
    then have "before (key y) (key x)" "before (key x) (key y)" using Cons.prems(1,2) ys by auto
    then show False using before_trans before_irrefl by blast
  qed
  moreover have "x \<notin> set xs" "y \<notin> set ys'" using Cons.prems(1,2) ys before_irrefl by auto
  ultimately have "set xs = set ys'" using Cons.prems(3) ys by auto
  with Cons ys \<open>x = y\<close> show ?case by simp
qed simp

lemma arrange_after:
  assumes d: "distinct (map key t)" and s: "arrange t = us @ r # vs"
  shows "arrange (filter (\<lambda>x. before (key r) (key x)) t) = vs"
proof (rule sorted_unique)
  have all: "sorted_wrt (\<lambda>r s. before (key r) (key s)) (us @ r # vs)" using arrange_sorted [OF d] s by simp
  show "sorted_wrt (\<lambda>r s. before (key r) (key s)) vs" using all by (simp add: sorted_wrt_append)
  have "distinct (map key (filter (\<lambda>x. before (key r) (key x)) t))" using d by (rule distinct_map_filter)
  then show "sorted_wrt (\<lambda>r s. before (key r) (key s)) (arrange (filter (\<lambda>x. before (key r) (key x)) t))"
    by (rule arrange_sorted)
  have "set t = set us \<union> {r} \<union> set vs" using arrange_set [of t] s by auto
  moreover have "\<not> before (key r) (key x)" if "x \<in> set us" for x
  proof
    assume "before (key r) (key x)"
    moreover have "before (key x) (key r)" using all that by (simp add: sorted_wrt_append)
    ultimately show False using before_trans before_irrefl by blast
  qed
  moreover have "before (key r) (key x)" if "x \<in> set vs" for x using all that by (simp add: sorted_wrt_append)
  ultimately show "set (arrange (filter (\<lambda>x. before (key r) (key x)) t)) = set vs"
    unfolding arrange_set using before_irrefl by auto
qed

text \<open>A walk from inside the listing yields the rest of it.\<close>

lemma walk_from:
  assumes d: "distinct (map key t)" and l: "0 < limit"
  shows "arrange t = us @ vs \<Longrightarrow> cursor = (if us = [] then None else Some (key (last us))) \<Longrightarrow> length vs < n * limit \<or> vs = [] \<and> 0 < n \<Longrightarrow>
    walk n limit cursor t = Some vs"
proof (induction n arbitrary: us vs cursor)
  case (Suc n)
  have found: "arrange (filter (\<lambda>r. case cursor of None \<Rightarrow> True | Some c \<Rightarrow> before c (key r)) t) = vs"
  proof (cases us rule: rev_cases)
    case Nil
    with Suc.prems show ?thesis by simp
  next
    case (snoc us' r)
    with Suc.prems arrange_after [OF d, of us' r vs] show ?thesis by simp
  qed
  show ?case
  proof (cases "limit < length vs")
    case False
    then have "page limit cursor t = (vs, None)" unfolding page_def found by (simp add: cut_page_def Let_def)
    then show ?thesis by simp
  next
    case True
    let ?r = "take limit vs"
    have r: "?r \<noteq> []" "last ?r = vs ! (limit - 1)"
    proof -
      show ne: "?r \<noteq> []" using True l by auto
      have "last ?r = ?r ! (length ?r - 1)" using ne by (rule last_conv_nth)
      with True l show "last ?r = vs ! (limit - 1)" by (simp add: min_def)
    qed
    have "page limit cursor t = (?r, Some (key (vs ! (limit - 1))))"
      unfolding page_def found using True l by (simp add: cut_page_def Let_def min_def)
    moreover have "walk n limit (Some (key (vs ! (limit - 1)))) t = Some (drop limit vs)"
    proof (rule Suc.IH)
      show "arrange t = (us @ ?r) @ drop limit vs" using Suc.prems(1) by simp
      show "Some (key (vs ! (limit - 1))) = (if us @ ?r = [] then None else Some (key (last (us @ ?r))))"
        using r by simp
      show "length (drop limit vs) < n * limit \<or> drop limit vs = [] \<and> 0 < n" using Suc.prems(3) True by auto
    qed
    ultimately show ?thesis by simp
  qed
qed simp

lemma walk_complete:
  assumes "distinct (map key t)" and "0 < limit"
  shows "walk (Suc (length t)) limit None t = Some (arrange t)"
proof (rule walk_from [OF assms, of "[]"])
  have "length t < Suc (length t) * limit" using assms(2) by (cases limit) auto
  then show "length (arrange t) < Suc (length t) * limit \<or> arrange t = [] \<and> 0 < Suc (length t)"
    by (simp add: arrange_length)
qed simp_all

end

section \<open>Newest first and by name\<close>

text \<open>
  \<^verbatim>\<open>ORDER BY ts DESC, id DESC\<close> with the rows before the cursor, and \<^verbatim>\<open>ORDER BY name,
  id\<close> with the rows after it.
\<close>

definition newest_first :: "('r \<Rightarrow> 'k::linorder) \<Rightarrow> 'r list \<Rightarrow> 'r list" where
  "newest_first key t = rev (sort_key key t)"

definition newest_page :: "('r \<Rightarrow> 'k::linorder) \<Rightarrow> nat \<Rightarrow> 'k option \<Rightarrow> 'r list \<Rightarrow> 'r list \<times> 'k option" where
  "newest_page key limit cursor t =
     cut_page key limit (newest_first key (filter (\<lambda>r. case cursor of None \<Rightarrow> True | Some c \<Rightarrow> key r < c) t))"

definition name_page :: "('r \<Rightarrow> 'k::linorder) \<Rightarrow> nat \<Rightarrow> 'k option \<Rightarrow> 'r list \<Rightarrow> 'r list \<times> 'k option" where
  "name_page key limit cursor t =
     cut_page key limit (sort_key key (filter (\<lambda>r. case cursor of None \<Rightarrow> True | Some c \<Rightarrow> c < key r) t))"

lemma sorted_strict: "distinct (map key xs) \<Longrightarrow> sorted (map key xs) \<Longrightarrow> sorted_wrt (\<lambda>r s. key r < key s) xs"
  for key :: "'r \<Rightarrow> 'k::linorder"
  using strict_sorted_iff [of "map key xs"] by (simp add: sorted_wrt_map)

lemma newest_first_listing: "keyset_listing key (\<lambda>a b. b < a) (newest_first key)"
  for key :: "'r \<Rightarrow> 'k::linorder"
proof
  show "sorted_wrt (\<lambda>r s. key s < key r) (newest_first key t)" if "distinct (map key t)" for t
    using sorted_strict [of key "sort_key key t"] that
    by (simp add: newest_first_def sorted_wrt_rev distinct_map inj_on_def)
qed (auto simp: newest_first_def)

lemma name_listing: "keyset_listing key (<) (sort_key key)"
  for key :: "'r \<Rightarrow> 'k::linorder"
proof
  show "sorted_wrt (\<lambda>r s. key r < key s) (sort_key key t)" if "distinct (map key t)" for t
    using sorted_strict [of key "sort_key key t"] that by (simp add: distinct_map inj_on_def)
qed auto

end
