(* ===== verification/Series_Meta.thy ===== *)
theory Series_Meta
  imports Json Pagination
begin

text \<open>
  \<^verbatim>\<open>services/series.py\<close>: the metadata of a series, its limits, what an upload states about it,
  and the reads of the series lists.  A Python mapping of column values is an association list of
  \<open>col_value\<close>s; numbers are finite (the request models refuse the others), the text of a float in a
  JSON size is the parameter \<open>ft\<close>.
\<close>

section \<open>Column values\<close>

datatype col_value =
    VNull
  | VText string
  | VInt int
  | VNum rat
  | VBool bool
  | VKind series_kind
  | VJson json

type_synonym cols = "(string \<times> col_value) list"

definition UPLOADS_SOURCE_NAME :: string where "UPLOADS_SOURCE_NAME = ''Uploads''"
definition UNRESOLVED_STATUSES :: "finding_status list" where "UNRESOLVED_STATUSES = [FOpen, FAcked]"
definition MAX_METADATA_BYTES :: nat where "MAX_METADATA_BYTES = 8 * 1024"
definition UPLOAD_METADATA_FIELDS :: "string list" where "UPLOAD_METADATA_FIELDS = [''unit'', ''physical_min'', ''physical_max'']"

definition EDITABLE_FIELDS :: "string list" where
  "EDITABLE_FIELDS = [''name'', ''unit'', ''kind'', ''expected_interval_ns'', ''physical_min'', ''physical_max'',
     ''operational_min'', ''operational_max'', ''resolution'', ''non_negative'', ''asset_path'', ''metadata'']"

definition NOT_NULLABLE :: "string list" where "NOT_NULLABLE = [''name'', ''kind'', ''metadata'']"

text \<open>The offending field and the message.\<close>

datatype metadata_error = MetadataError (me_field: string) (me_message: string)

definition opt_value :: "('a \<Rightarrow> col_value) \<Rightarrow> 'a option \<Rightarrow> col_value" where
  "opt_value f x = (case x of None \<Rightarrow> VNull | Some y \<Rightarrow> f y)"

fun as_text :: "col_value \<Rightarrow> string option" where "as_text (VText s) = Some s" | "as_text _ = None"
fun as_int :: "col_value \<Rightarrow> int option" where "as_int (VInt i) = Some i" | "as_int _ = None"
fun as_num :: "col_value \<Rightarrow> rat option" where "as_num (VNum r) = Some r" | "as_num _ = None"
fun as_bool :: "col_value \<Rightarrow> bool option" where "as_bool (VBool b) = Some b" | "as_bool _ = None"

text \<open>\<^verbatim>\<open>_values\<close>: the editable columns as a mapping.\<close>

definition values_of :: "series \<Rightarrow> cols" where
  "values_of s =
     [(''name'', VText (ser_name s)), (''unit'', opt_value VText (ser_unit s)), (''kind'', VKind (ser_kind s)),
      (''expected_interval_ns'', opt_value VInt (ser_expected_interval_ns s)),
      (''physical_min'', opt_value VNum (ser_physical_min s)), (''physical_max'', opt_value VNum (ser_physical_max s)),
      (''operational_min'', opt_value VNum (ser_operational_min s)), (''operational_max'', opt_value VNum (ser_operational_max s)),
      (''resolution'', opt_value VNum (ser_resolution s)), (''non_negative'', opt_value VBool (ser_non_negative s)),
      (''asset_path'', opt_value VText (ser_asset_path s)), (''metadata'', VJson (JObj (ser_metadata s)))]"

definition stored_values :: "series option \<Rightarrow> cols" where
  "stored_values s = (case s of None \<Rightarrow> [] | Some x \<Rightarrow> values_of x)"

text \<open>\<^verbatim>\<open>setattr(series, field, value)\<close>; a value of another type than the column's is never passed.\<close>

definition set_field :: "string \<Rightarrow> col_value \<Rightarrow> series \<Rightarrow> series" where
  "set_field f v s =
     (if f = ''name'' then s\<lparr>ser_name := (case v of VText n \<Rightarrow> n | _ \<Rightarrow> ser_name s)\<rparr>
      else if f = ''unit'' then s\<lparr>ser_unit := as_text v\<rparr>
      else if f = ''kind'' then s\<lparr>ser_kind := (case v of VKind k \<Rightarrow> k | _ \<Rightarrow> ser_kind s)\<rparr>
      else if f = ''expected_interval_ns'' then s\<lparr>ser_expected_interval_ns := as_int v\<rparr>
      else if f = ''physical_min'' then s\<lparr>ser_physical_min := as_num v\<rparr>
      else if f = ''physical_max'' then s\<lparr>ser_physical_max := as_num v\<rparr>
      else if f = ''operational_min'' then s\<lparr>ser_operational_min := as_num v\<rparr>
      else if f = ''operational_max'' then s\<lparr>ser_operational_max := as_num v\<rparr>
      else if f = ''resolution'' then s\<lparr>ser_resolution := as_num v\<rparr>
      else if f = ''non_negative'' then s\<lparr>ser_non_negative := as_bool v\<rparr>
      else if f = ''asset_path'' then s\<lparr>ser_asset_path := as_text v\<rparr>
      else if f = ''metadata'' then s\<lparr>ser_metadata := (case v of VJson (JObj kvs) \<Rightarrow> kvs | _ \<Rightarrow> ser_metadata s)\<rparr>
      else s)"

definition set_fields :: "cols \<Rightarrow> series \<Rightarrow> series" where
  "set_fields changes s = fold (\<lambda>(f, v). set_field f v) changes s"

text \<open>\<^verbatim>\<open>{**old, **new}\<close> is looked up as \<open>new\<close> first.\<close>

definition merged :: "cols \<Rightarrow> cols \<Rightarrow> string \<Rightarrow> col_value" where
  "merged old new f = (case map_of new f of Some v \<Rightarrow> v | None \<Rightarrow> (case map_of old f of Some v \<Rightarrow> v | None \<Rightarrow> VNull))"

section \<open>Validation\<close>

definition blame :: "string list \<Rightarrow> string list \<Rightarrow> string" where
  "blame changed names = (case List.find (\<lambda>f. f \<in> set changed) names of Some f \<Rightarrow> f | None \<Rightarrow> last names)"

definition both :: "(rat \<Rightarrow> rat \<Rightarrow> bool) \<Rightarrow> rat option \<Rightarrow> rat option \<Rightarrow> bool" where
  "both P x y = (case (x, y) of (Some a, Some b) \<Rightarrow> P a b | _ \<Rightarrow> False)"

definition validate_limits :: "(string \<Rightarrow> col_value) \<Rightarrow> string list \<Rightarrow> metadata_error + unit" where
  "validate_limits values changed =
     (let pmin = as_num (values ''physical_min''); pmax = as_num (values ''physical_max'');
          omin = as_num (values ''operational_min''); omax = as_num (values ''operational_max'')
      in rbind (require (\<not> both (\<ge>) pmin pmax) (MetadataError (blame changed [''physical_max'', ''physical_min''])
            ''physical_min must be below physical_max'')) (\<lambda>_.
         rbind (require (\<not> both (\<ge>) omin omax) (MetadataError (blame changed [''operational_max'', ''operational_min''])
            ''operational_min must be below operational_max'')) (\<lambda>_.
         rbind (require (\<not> both (<) omin pmin) (MetadataError (blame changed [''operational_min'', ''physical_min''])
            ''operational band below physical_min'')) (\<lambda>_.
         rbind (require (\<not> both (>) omax pmax) (MetadataError (blame changed [''operational_max'', ''physical_max''])
            ''operational band above physical_max'')) (\<lambda>_.
         rbind (require (\<not> both (>) omin pmax) (MetadataError (blame changed [''operational_min'', ''physical_max''])
            ''operational band above physical_max'')) (\<lambda>_.
           require (\<not> both (<) omax pmin) (MetadataError (blame changed [''operational_max'', ''physical_min''])
            ''operational band below physical_min'')))))))"

definition validate_metadata_blob :: "(rat \<Rightarrow> string) \<Rightarrow> json \<Rightarrow> metadata_error + unit" where
  "validate_metadata_blob ft m =
     (case m of
        JObj kvs \<Rightarrow> require (json_size ft quote_ascii m \<le> MAX_METADATA_BYTES)
          (MetadataError ''metadata'' (''larger than '' @ nat_str MAX_METADATA_BYTES @ '' bytes''))
      | _ \<Rightarrow> Inl (MetadataError ''metadata'' ''must be a JSON object''))"

section \<open>What an upload states\<close>

definition uploads_source_id :: "db \<Rightarrow> scope \<Rightarrow> uuid option" where
  "uploads_source_id d sc =
     map_option src_id (List.find (\<lambda>s. src_workspace_id s = sc_workspace sc \<and> src_name s = UPLOADS_SOURCE_NAME) (sources d))"

definition find_upload_series :: "db \<Rightarrow> scope \<Rightarrow> string \<Rightarrow> series option" where
  "find_upload_series d sc external_id =
     (case uploads_source_id d sc of
        None \<Rightarrow> None
      | Some i \<Rightarrow> List.find (\<lambda>s. ser_source_id s = i \<and> ser_external_id s = external_id) (all_series d))"

definition upload_overrides :: "string option \<Rightarrow> rat option \<Rightarrow> rat option \<Rightarrow> cols" where
  "upload_overrides unit pmin pmax =
     filter (\<lambda>(k, v). v \<noteq> VNull)
       [(''unit'', opt_value VText unit), (''physical_min'', opt_value VNum pmin), (''physical_max'', opt_value VNum pmax)]"

definition merged_for_run :: "series option \<Rightarrow> cols \<Rightarrow> metadata_error + (string \<Rightarrow> col_value)" where
  "merged_for_run stored overrides =
     rbind (validate_limits (merged (stored_values stored) overrides) (map fst overrides)) (\<lambda>_.
       Inr (merged (stored_values stored) overrides))"

text \<open>The core's series metadata; the constraints of its request model are checked on construction.\<close>

record series_meta =
  sm_id :: string
  sm_name :: string
  sm_unit :: "string option"
  sm_kind :: series_kind
  sm_expected_interval_ns :: "int option"
  sm_physical_min :: "rat option"
  sm_physical_max :: "rat option"
  sm_resolution :: "rat option"
  sm_non_negative :: "bool option"

definition series_meta_valid :: "series_meta \<Rightarrow> bool" where
  "series_meta_valid m \<longleftrightarrow> 1 \<le> length (sm_id m) \<and> length (sm_id m) \<le> 256 \<and>
     (case sm_unit m of None \<Rightarrow> True | Some u \<Rightarrow> length u \<le> 32) \<and>
     (case sm_expected_interval_ns m of None \<Rightarrow> True | Some i \<Rightarrow> 0 < i) \<and>
     (case sm_resolution m of None \<Rightarrow> True | Some r \<Rightarrow> 0 < r)"

definition meta_for_core :: "string \<Rightarrow> (string \<Rightarrow> col_value) \<Rightarrow> string + series_meta" where
  "meta_for_core external_id values =
     (let m = \<lparr>sm_id = external_id,
           sm_name = (case as_text (values ''name'') of Some n \<Rightarrow> if n = [] then external_id else n | None \<Rightarrow> external_id),
           sm_unit = as_text (values ''unit''),
           sm_kind = (case values ''kind'' of VKind k \<Rightarrow> k | _ \<Rightarrow> KindMeasurement),
           sm_expected_interval_ns = as_int (values ''expected_interval_ns''),
           sm_physical_min = as_num (values ''physical_min''), sm_physical_max = as_num (values ''physical_max''),
           sm_resolution = as_num (values ''resolution''), sm_non_negative = as_bool (values ''non_negative'')\<rparr>
      in if series_meta_valid m then Inr m else Inl ''ValidationError'')"

definition no_health :: health where
  "no_health = \<lparr>h_status = HUnknown, h_checked_at = None, h_consecutive_failures = 0, h_last_success_at = None,
     h_last_error = None, h_last_fetch = None\<rparr>"

definition uploads_source :: "scope \<Rightarrow> uuid \<Rightarrow> datetime \<Rightarrow> source" where
  "uploads_source sc i now =
     \<lparr>src_org_id = sc_org sc, src_workspace_id = sc_workspace sc, src_id = i, src_type = SrcUpload,
      src_name = UPLOADS_SOURCE_NAME, src_config = [], src_health = no_health, src_enabled = True,
      src_polled_at = None, src_created_at = now, src_updated_at = now\<rparr>"

definition blank_series :: "scope \<Rightarrow> uuid \<Rightarrow> uuid \<Rightarrow> string \<Rightarrow> datetime \<Rightarrow> series" where
  "blank_series sc i source_id external_id now =
     \<lparr>ser_org_id = sc_org sc, ser_workspace_id = sc_workspace sc, ser_id = i, ser_source_id = source_id,
      ser_external_id = external_id, ser_name = external_id, ser_unit = None, ser_kind = KindMeasurement,
      ser_expected_interval_ns = None, ser_physical_min = None, ser_physical_max = None, ser_operational_min = None,
      ser_operational_max = None, ser_resolution = None, ser_non_negative = None, ser_asset_path = None,
      ser_metadata = [], ser_created_at = now, ser_updated_at = now\<rparr>"

definition set_series :: "db \<Rightarrow> uuid \<Rightarrow> series \<Rightarrow> db" where
  "set_series d i s = d\<lparr>all_series := update_where (\<lambda>x. ser_id x = i) (\<lambda>_. s) (all_series d)\<rparr>"

text \<open>The two fresh ids are \<open>new_source\<close> and \<open>new_series\<close>.\<close>

definition upsert_upload_series :: "db \<Rightarrow> scope \<Rightarrow> string \<Rightarrow> cols \<Rightarrow> uuid \<Rightarrow> uuid \<Rightarrow> datetime \<Rightarrow> metadata_error + db \<times> series" where
  "upsert_upload_series d sc external_id overrides new_source new_series now =
     (let d1 = d\<lparr>sources := insert_missing (\<lambda>s. (src_workspace_id s, src_name s)) (uploads_source sc new_source now) (sources d)\<rparr>;
          source_id = the (uploads_source_id d1 sc);
          d2 = d1\<lparr>all_series := insert_missing (\<lambda>s. (ser_source_id s, ser_external_id s))
                 (blank_series sc new_series source_id external_id now) (all_series d1)\<rparr>;
          s = the (List.find (\<lambda>s. ser_source_id s = source_id \<and> ser_external_id s = external_id) (all_series d2))
      in rbind (validate_limits (merged (values_of s) overrides) (map fst overrides)) (\<lambda>_.
           let changed = filter (\<lambda>(k, v). map_of (values_of s) k \<noteq> Some v) overrides;
               s' = (if changed = [] then s else (set_fields changed s)\<lparr>ser_updated_at := now\<rparr>)
           in Inr (set_series d2 (ser_id s) s', s')))"

section \<open>Reads\<close>

definition list_sources :: "db \<Rightarrow> scope \<Rightarrow> (source \<times> nat) list" where
  "list_sources d sc =
     map (\<lambda>s. (s, length (filter (\<lambda>x. ser_source_id x = src_id s) (all_series d))))
       (sort_key (\<lambda>s. (src_name s, src_id s)) (filter (\<lambda>s. src_workspace_id s = sc_workspace sc) (sources d)))"

definition get_series :: "db \<Rightarrow> scope \<Rightarrow> uuid \<Rightarrow> series option" where
  "get_series d sc i = List.find (\<lambda>s. ser_id s = i \<and> ser_workspace_id s = sc_workspace sc) (all_series d)"

record series_stats =
  st_latest_score :: "(rat \<times> datetime) option"
  st_open_findings :: nat
  st_n_runs :: nat
  st_last_run_at :: "datetime option"

definition latest_score :: "db \<Rightarrow> uuid \<Rightarrow> score option" where
  "latest_score d i = py_max sc_computed_at (filter (\<lambda>s. sc_series_id s = i \<and> sc_layer s = ''raw'') (scores d))"

definition stats_of :: "db \<Rightarrow> uuid list \<Rightarrow> (uuid \<times> series_stats) list" where
  "stats_of d ids =
     map (\<lambda>i. let rows = filter (\<lambda>s. sc_series_id s = i) (scores d)
          in (i, \<lparr>st_latest_score = map_option (\<lambda>s. (sc_overall s, sc_computed_at s)) (latest_score d i),
               st_open_findings = length (filter (\<lambda>f. fd_series_id f = i \<and> fd_status f \<in> set UNRESOLVED_STATUSES) (findings d)),
               st_n_runs = length (remdups (map sc_run_id rows)),
               st_last_run_at = map_option sc_computed_at (py_max sc_computed_at rows)\<rparr>)) ids"

text \<open>PostgreSQL's \<^verbatim>\<open>ILIKE ... ESCAPE '\'\<close>.\<close>

fun like :: "string \<Rightarrow> string \<Rightarrow> bool" where
  "like [] s = (s = [])"
| "like (c # p) s =
     (if c = CHR ''%'' then list_ex (\<lambda>k. like p (drop k s)) [0..<Suc (length s)]
      else if c = CHR ''_'' then s \<noteq> [] \<and> like p (tl s)
      else if c = CHR 0x5C then (case p of [] \<Rightarrow> False | e # p' \<Rightarrow> s \<noteq> [] \<and> hd s = e \<and> like p' (tl s))
      else s \<noteq> [] \<and> hd s = c \<and> like p (tl s))"

definition ilike :: "string \<Rightarrow> string \<Rightarrow> bool" where "ilike s p = like (lower p) (lower s)"

definition like_pattern :: "string \<Rightarrow> string" where
  "like_pattern q =
     ''%'' @ concat (map (\<lambda>c. if c = CHR 0x5C \<or> c = CHR ''%'' \<or> c = CHR ''_'' then [CHR 0x5C, c] else [c]) q) @ ''%''"

record series_filter =
  qf_q :: "string option"
  qf_source_id :: "uuid option"
  qf_kind :: "series_kind option"
  qf_unit :: "string option"
  qf_score_max :: "rat option"

definition series_matches :: "db \<Rightarrow> scope \<Rightarrow> series_filter \<Rightarrow> series \<Rightarrow> bool" where
  "series_matches d sc q s \<longleftrightarrow> ser_workspace_id s = sc_workspace sc \<and>
     (case qf_unit q of None \<Rightarrow> True | Some u \<Rightarrow> map_option lower (ser_unit s) = Some (lower (strip u))) \<and>
     (case qf_score_max q of None \<Rightarrow> True
      | Some m \<Rightarrow> (case latest_score d (ser_id s) of None \<Rightarrow> False | Some x \<Rightarrow> sc_overall x \<le> m)) \<and>
     (case qf_q q of None \<Rightarrow> True
      | Some t \<Rightarrow> t = [] \<or> ilike (ser_name s) (like_pattern t) \<or> ilike (ser_external_id s) (like_pattern t)) \<and>
     (case qf_source_id q of None \<Rightarrow> True | Some i \<Rightarrow> ser_source_id s = i) \<and>
     (case qf_kind q of None \<Rightarrow> True | Some k \<Rightarrow> ser_kind s = k)"

definition series_key :: "series \<Rightarrow> string \<times> uuid" where
  "series_key s = (ser_name s, ser_id s)"

definition list_series :: "db \<Rightarrow> scope \<Rightarrow> series_filter \<Rightarrow> nat \<Rightarrow> (string \<times> uuid) option \<Rightarrow> series list \<times> (string \<times> uuid) option" where
  "list_series d sc q limit cursor = name_page series_key limit cursor (filter (series_matches d sc q) (all_series d))"

interpretation series_pages: keyset_listing series_key "(<)" "sort_key series_key"
  by (rule name_listing)

text \<open>Units are grouped ignoring case; the name of a group is its least spelling.\<close>

definition list_units :: "db \<Rightarrow> scope \<Rightarrow> (string \<times> nat) list" where
  "list_units d sc =
     (let us = concat (map (\<lambda>s. case ser_unit s of None \<Rightarrow> [] | Some u \<Rightarrow> if u = [] then [] else [u])
            (filter (\<lambda>s. ser_workspace_id s = sc_workspace sc) (all_series d)))
      in map (\<lambda>(key, n). (Min (set (filter (\<lambda>u. lower u = key) us)), n))
           (sort_key (\<lambda>(key, n). (- int n, key))
             (map (\<lambda>key. (key, length (filter (\<lambda>u. lower u = key) us))) (remdups (map lower us)))))"

section \<open>Updates\<close>

text \<open>The fields are checked in the request's order.\<close>

definition check_fields :: "cols \<Rightarrow> metadata_error + unit" where
  "check_fields changes =
     foldr (\<lambda>(f, v) rest.
         rbind (require (f \<in> set EDITABLE_FIELDS) (MetadataError f ''not an editable field'')) (\<lambda>_.
         rbind (require (\<not> (f \<in> set NOT_NULLABLE \<and> v = VNull)) (MetadataError f ''cannot be null'')) (\<lambda>_. rest)))
       changes (Inr ())"

definition patch_series :: "db \<Rightarrow> (rat \<Rightarrow> string) \<Rightarrow> scope \<Rightarrow> uuid \<Rightarrow> cols \<Rightarrow> datetime
    \<Rightarrow> metadata_error + (db \<times> series) option" where
  "patch_series d ft sc i changes now =
     (case get_series d sc i of
        None \<Rightarrow> Inr None
      | Some s \<Rightarrow>
          rbind (check_fields changes) (\<lambda>_.
          rbind (case map_of changes ''metadata'' of None \<Rightarrow> Inr () | Some (VJson m) \<Rightarrow> validate_metadata_blob ft m
                 | Some _ \<Rightarrow> Inl (MetadataError ''metadata'' ''must be a JSON object'')) (\<lambda>_.
          rbind (validate_limits (merged (values_of s) changes) (map fst changes)) (\<lambda>_.
            let s' = (set_fields changes s)\<lparr>ser_updated_at := now\<rparr>
            in Inr (Some (set_series d i s', s'))))))"

text \<open>The request model of a patch (\<^verbatim>\<open>SeriesPatch\<close>): the type and range of each field.\<close>

definition field_valid :: "string \<Rightarrow> col_value \<Rightarrow> bool" where
  "field_valid f v \<longleftrightarrow>
     (if f = ''name'' then (case v of VText n \<Rightarrow> 1 \<le> length n \<and> length n \<le> 256 | VNull \<Rightarrow> True | _ \<Rightarrow> False)
      else if f = ''unit'' then (case v of VText n \<Rightarrow> length n \<le> 32 | VNull \<Rightarrow> True | _ \<Rightarrow> False)
      else if f = ''kind'' then (case v of VKind k \<Rightarrow> True | VNull \<Rightarrow> True | _ \<Rightarrow> False)
      else if f = ''expected_interval_ns'' then (case v of VInt k \<Rightarrow> 0 < k | VNull \<Rightarrow> True | _ \<Rightarrow> False)
      else if f \<in> {''physical_min'', ''physical_max'', ''operational_min'', ''operational_max''}
      then (case v of VNum r \<Rightarrow> True | VNull \<Rightarrow> True | _ \<Rightarrow> False)
      else if f = ''resolution'' then (case v of VNum r \<Rightarrow> 0 < r | VNull \<Rightarrow> True | _ \<Rightarrow> False)
      else if f = ''non_negative'' then (case v of VBool b \<Rightarrow> True | VNull \<Rightarrow> True | _ \<Rightarrow> False)
      else if f = ''asset_path'' then (case v of VText n \<Rightarrow> length n \<le> 512 | VNull \<Rightarrow> True | _ \<Rightarrow> False)
      else if f = ''metadata'' then (case v of VJson (JObj kvs) \<Rightarrow> True | VNull \<Rightarrow> True | _ \<Rightarrow> False)
      else False)"

definition patch_body :: "cols \<Rightarrow> bool" where
  "patch_body changes \<longleftrightarrow> distinct (map fst changes) \<and> (\<forall>(f, v) \<in> set changes. field_valid f v)"

end
