(* ===== verification/Series_Facts.thy ===== *)
theory Series_Facts
  imports Series_Meta
begin

text \<open>
  What the operations on series guarantee: a patch changes what it names and keeps the limits
  consistent, an upload saves what it states, and a search finds its text literally.
\<close>

section \<open>Searching\<close>

definition escape :: "string \<Rightarrow> string" where
  "escape q = concat (map (\<lambda>c. if c = CHR 0x5C \<or> c = CHR ''%'' \<or> c = CHR ''_'' then [CHR 0x5C, c] else [c]) q)"

lemma like_pattern_escape: "like_pattern q = ''%'' @ escape q @ ''%''"
  by (simp add: like_pattern_def escape_def)

lemma like_escaped: "like (escape q @ p) s \<longleftrightarrow> (\<exists>r. s = q @ r \<and> like p r)"
proof (induction q arbitrary: s)
  case (Cons c q)
  have "like (escape (c # q) @ p) s \<longleftrightarrow> s \<noteq> [] \<and> hd s = c \<and> like (escape q @ p) (tl s)"
    by (simp add: escape_def)
  also have "\<dots> \<longleftrightarrow> (\<exists>r. s = (c # q) @ r \<and> like p r)"
    by (cases s) (auto simp: Cons.IH)
  finally show ?case .
qed (simp add: escape_def)

lemma like_percent: "like (CHR ''%'' # p) s \<longleftrightarrow> (\<exists>k \<le> length s. like p (drop k s))"
  by (simp add: list_ex_iff del: upt_Suc) (auto simp: less_Suc_eq_le)

lemma like_any: "like ''%'' s"
  unfolding like_percent by (rule exI [of _ "length s"]) simp

lemma lower_wild: "lower_char c \<in> {CHR 0x5C, CHR ''%'', CHR ''_''} \<longleftrightarrow> c \<in> {CHR 0x5C, CHR ''%'', CHR ''_''}"
proof (cases "CHR ''A'' \<le> c \<and> c \<le> CHR ''Z''")
  case True
  then have r: "65 \<le> (of_char c :: nat)" "(of_char c :: nat) \<le> 90" by (simp_all add: less_eq_char_def)
  then have "(of_char (lower_char c) :: nat) = of_char c + 32" using True by (simp add: lower_char_def)
  with r have "97 \<le> (of_char (lower_char c) :: nat)" "(of_char (lower_char c) :: nat) \<le> 122" by simp_all
  then have "lower_char c \<notin> {CHR 0x5C, CHR ''%'', CHR ''_''}" by auto
  moreover have "c \<notin> {CHR 0x5C, CHR ''%'', CHR ''_''}" using r by auto
  ultimately show ?thesis by blast
next
  case False
  then have "lower_char c = c" by (auto simp: lower_char_def)
  then show ?thesis by simp
qed

lemma lower_escape: "lower (escape q) = escape (lower q)"
proof (induction q)
  case (Cons c q)
  have "lower_char (CHR 0x5C) = CHR 0x5C" by (simp add: lower_char_def less_eq_char_def)
  with Cons lower_wild [of c] show ?case by (auto simp: escape_def lower_def)
qed (simp add: escape_def lower_def)

section \<open>Columns\<close>

lemma opt_value_simps [simp]: "opt_value g None = VNull" "opt_value g (Some x) = g x"
  by (simp_all add: opt_value_def)

lemma set_field_values:
  assumes "f \<in> set EDITABLE_FIELDS" and "field_valid f v" and "\<not> (f \<in> set NOT_NULLABLE \<and> v = VNull)"
  shows "values_of (set_field f v s) = map (\<lambda>(k, w). (k, if k = f then v else w)) (values_of s)"
proof -
  from assms(1) have "f \<in> {''name'', ''unit'', ''kind'', ''expected_interval_ns'', ''physical_min'', ''physical_max'',
     ''operational_min'', ''operational_max'', ''resolution'', ''non_negative'', ''asset_path'', ''metadata''}"
    by (simp add: EDITABLE_FIELDS_def)
  then show ?thesis using assms(2,3)
    by (elim insertE) (simp_all add: values_of_def set_field_def field_valid_def NOT_NULLABLE_def
        split: col_value.splits json.splits)
qed

lemma keys_values [simp]: "map fst (values_of s) = EDITABLE_FIELDS"
  by (simp add: values_of_def EDITABLE_FIELDS_def)

definition column :: "series \<Rightarrow> string \<Rightarrow> col_value" where
  "column s f = (case map_of (values_of s) f of Some v \<Rightarrow> v | None \<Rightarrow> VNull)"

lemma merged_column: "merged (values_of s) new f = (case map_of new f of Some v \<Rightarrow> v | None \<Rightarrow> column s f)"
  by (simp add: merged_def column_def split: option.splits)

lemma map_of_set_value:
  "map_of (map (\<lambda>(k, w). (k, if k = f then v else w)) kvs) g = (if g = f then map_option (\<lambda>_. v) (map_of kvs g) else map_of kvs g)"
  by (induction kvs) auto

lemma column_set_field:
  assumes "f \<in> set EDITABLE_FIELDS" and "field_valid f v" and "\<not> (f \<in> set NOT_NULLABLE \<and> v = VNull)"
  shows "column (set_field f v s) g = (if g = f then v else column s g)"
proof -
  have "map_of (values_of s) f \<noteq> None" using assms(1) by (simp add: map_of_eq_None_iff flip: set_map)
  then show ?thesis by (auto simp: column_def set_field_values [OF assms] map_of_set_value)
qed

lemma check_fields_Inr:
  "check_fields changes = Inr () \<longleftrightarrow> (\<forall>(f, v) \<in> set changes. f \<in> set EDITABLE_FIELDS \<and> \<not> (f \<in> set NOT_NULLABLE \<and> v = VNull))"
  by (induction changes) (auto simp: check_fields_def result_simps)

lemma check_fields_Inl: "check_fields changes = Inl e \<Longrightarrow> me_field e \<in> fst ` set changes"
  by (induction changes) (auto simp: check_fields_def result_simps)

lemma column_set_fields:
  assumes "patch_body changes" and "check_fields changes = Inr ()"
  shows "column (set_fields changes s) g = merged (values_of s) changes g"
  using assms
proof (induction changes arbitrary: s)
  case Nil
  then show ?case by (simp add: set_fields_def merged_column)
next
  case (Cons fv changes)
  obtain f v where fv: "fv = (f, v)" by (cases fv)
  with Cons.prems have p: "patch_body changes" "check_fields changes = Inr ()" "f \<notin> fst ` set changes"
    and f: "f \<in> set EDITABLE_FIELDS" "field_valid f v" "\<not> (f \<in> set NOT_NULLABLE \<and> v = VNull)"
    by (auto simp: patch_body_def check_fields_Inr)
  have "map_of changes f = None" using p(3) by (simp add: map_of_eq_None_iff)
  with Cons.IH [OF p(1,2), of "set_field f v s"] show ?case
    by (simp add: fv set_fields_def merged_column column_set_field [OF f] split: option.splits)
qed

lemma column_updated [simp]: "values_of (s\<lparr>ser_updated_at := now\<rparr>) = values_of s" "column (s\<lparr>ser_updated_at := now\<rparr>) = column s"
  by (auto simp: values_of_def column_def)

lemma set_field_keys [simp]:
  "ser_id (set_field f v s) = ser_id s" "ser_workspace_id (set_field f v s) = ser_workspace_id s"
  "ser_source_id (set_field f v s) = ser_source_id s" "ser_external_id (set_field f v s) = ser_external_id s"
  by (simp_all add: set_field_def)

lemma set_fields_keys [simp]:
  "ser_id (set_fields vs s) = ser_id s" "ser_workspace_id (set_fields vs s) = ser_workspace_id s"
  "ser_source_id (set_fields vs s) = ser_source_id s" "ser_external_id (set_fields vs s) = ser_external_id s"
  unfolding set_fields_def by (induction vs arbitrary: s) auto

section \<open>Limits\<close>

text \<open>The bands are consistent.\<close>

definition bands_ok :: "(string \<Rightarrow> col_value) \<Rightarrow> bool" where
  "bands_ok values \<longleftrightarrow> validate_limits values [] = Inr ()"

lemma validate_limits_Inr: "validate_limits values changed = Inr () \<longleftrightarrow> bands_ok values"
  by (simp add: bands_ok_def validate_limits_def Let_def result_simps)

lemma blame_in: "f \<in> set changed \<Longrightarrow> f \<in> set names \<Longrightarrow> blame changed names \<in> set changed"
  by (auto simp: blame_def find_None_iff' dest: find_SomeD split: option.splits)

text \<open>When the old values were consistent, the field blamed is one that changed.\<close>

lemma blamed_changed:
  assumes "validate_limits values changed = Inl e" and "bands_ok old" and "\<And>f. f \<notin> set changed \<Longrightarrow> values f = old f"
  shows "me_field e \<in> set changed"
proof -
  have pair: "me_field e \<in> set changed" if "me_field e = blame changed [f, g]"
    "both P (as_num (values a)) (as_num (values b))" "\<not> both P (as_num (old a)) (as_num (old b))" "{a, b} = {f, g}" for P a b f g
  proof (rule ccontr)
    assume "me_field e \<notin> set changed"
    then have "f \<notin> set changed" "g \<notin> set changed" using that(1) blame_in [of _ changed "[f, g]"] by auto
    then have "a \<notin> set changed" "b \<notin> set changed" using that(4) by (auto simp: doubleton_eq_iff)
    then show False using that(2,3) assms(3) by metis
  qed
  from assms(2) have old: "\<not> both (\<ge>) (as_num (old ''physical_min'')) (as_num (old ''physical_max''))"
    "\<not> both (\<ge>) (as_num (old ''operational_min'')) (as_num (old ''operational_max''))"
    "\<not> both (<) (as_num (old ''operational_min'')) (as_num (old ''physical_min''))"
    "\<not> both (>) (as_num (old ''operational_max'')) (as_num (old ''physical_max''))"
    "\<not> both (>) (as_num (old ''operational_min'')) (as_num (old ''physical_max''))"
    "\<not> both (<) (as_num (old ''operational_max'')) (as_num (old ''physical_min''))"
    by (simp_all add: bands_ok_def validate_limits_def Let_def result_simps)
  have "me_field e = blame changed [''physical_max'', ''physical_min''] \<and> both (\<ge>) (as_num (values ''physical_min'')) (as_num (values ''physical_max'')) \<or>
    me_field e = blame changed [''operational_max'', ''operational_min''] \<and> both (\<ge>) (as_num (values ''operational_min'')) (as_num (values ''operational_max'')) \<or>
    me_field e = blame changed [''operational_min'', ''physical_min''] \<and> both (<) (as_num (values ''operational_min'')) (as_num (values ''physical_min'')) \<or>
    me_field e = blame changed [''operational_max'', ''physical_max''] \<and> both (>) (as_num (values ''operational_max'')) (as_num (values ''physical_max'')) \<or>
    me_field e = blame changed [''operational_min'', ''physical_max''] \<and> both (>) (as_num (values ''operational_min'')) (as_num (values ''physical_max'')) \<or>
    me_field e = blame changed [''operational_max'', ''physical_min''] \<and> both (<) (as_num (values ''operational_max'')) (as_num (values ''physical_min''))"
    using assms(1) by (auto simp: validate_limits_def Let_def require_def split: if_splits)
  then show ?thesis
  proof (elim disjE conjE)
  qed (rule pair, assumption, assumption, use old in \<open>simp only: not_False_eq_True\<close>, blast)+
qed

section \<open>Valid series\<close>

text \<open>
  What a stored series satisfies whoever wrote it: every column within its type and range, the bands consistent, the
  metadata within its size.  The longest unit is the 50 characters of a registered point, and the longest external id its
  500; a patch, an upload and an import keep to 32.
\<close>

definition stored_valid :: "string \<Rightarrow> col_value \<Rightarrow> bool" where
  "stored_valid f v \<longleftrightarrow>
     (if f = ''unit'' then (case v of VText n \<Rightarrow> length n \<le> 50 | VNull \<Rightarrow> True | _ \<Rightarrow> False) else field_valid f v)"

lemma field_valid_stored: "field_valid f v \<Longrightarrow> stored_valid f v"
  unfolding stored_valid_def by (cases "f = ''unit''"; cases v) (simp_all add: field_valid_def)

definition size_ok :: "(rat \<Rightarrow> string) \<Rightarrow> col_value \<Rightarrow> bool" where
  "size_ok ft v = (case v of VJson m \<Rightarrow> json_size ft quote_ascii m \<le> MAX_METADATA_BYTES | _ \<Rightarrow> True)"

definition columns_ok :: "(rat \<Rightarrow> string) \<Rightarrow> (string \<Rightarrow> col_value) \<Rightarrow> bool" where
  "columns_ok ft c \<longleftrightarrow> bands_ok c \<and> size_ok ft (c ''metadata'') \<and>
     (\<forall>f \<in> set EDITABLE_FIELDS. stored_valid f (c f) \<and> \<not> (f \<in> set NOT_NULLABLE \<and> c f = VNull))"

definition series_ok :: "(rat \<Rightarrow> string) \<Rightarrow> series \<Rightarrow> bool" where
  "series_ok ft s \<longleftrightarrow> columns_ok ft (column s) \<and> 1 \<le> length (ser_external_id s) \<and> length (ser_external_id s) \<le> 500"

lemma series_ok_updated [simp]: "series_ok ft (s\<lparr>ser_updated_at := now\<rparr>) = series_ok ft s"
  by (simp add: series_ok_def)

lemma columns_ok_merged:
  assumes "columns_ok ft (column s)" and "patch_body changes" and "check_fields changes = Inr ()"
    and "bands_ok (merged (values_of s) changes)" and "\<And>v. map_of changes ''metadata'' = Some v \<Longrightarrow> size_ok ft v"
  shows "columns_ok ft (merged (values_of s) changes)"
proof -
  have "stored_valid f (merged (values_of s) changes f) \<and> \<not> (f \<in> set NOT_NULLABLE \<and> merged (values_of s) changes f = VNull)"
    if f: "f \<in> set EDITABLE_FIELDS" for f
  proof (cases "map_of changes f")
    case None
    with f assms(1) show ?thesis by (simp add: merged_column columns_ok_def)
  next
    case (Some v)
    then have "(f, v) \<in> set changes" by (rule map_of_SomeD)
    with assms(2,3) Some show ?thesis by (auto simp: merged_column patch_body_def check_fields_Inr field_valid_stored)
  qed
  moreover have "size_ok ft (merged (values_of s) changes ''metadata'')"
    using assms(1,5) by (simp add: merged_column columns_ok_def split: option.splits)
  ultimately show ?thesis using assms(4) by (simp add: columns_ok_def)
qed

lemma patch_series_parts:
  assumes "patch_series d ft sc i changes now = Inr (Some (d', s'))"
  obtains s where "get_series d sc i = Some s" "check_fields changes = Inr ()"
    "bands_ok (merged (values_of s) changes)" "\<And>v. map_of changes ''metadata'' = Some v \<Longrightarrow> size_ok ft v"
    "s' = (set_fields changes s)\<lparr>ser_updated_at := now\<rparr>" "d' = set_series d i s'"
proof -
  obtain s where g: "get_series d sc i = Some s" using assms by (cases "get_series d sc i") (auto simp: patch_series_def)
  from assms have c: "check_fields changes = Inr ()" "validate_limits (merged (values_of s) changes) (map fst changes) = Inr ()"
    and m: "(case map_of changes ''metadata'' of None \<Rightarrow> Inr () | Some (VJson m) \<Rightarrow> validate_metadata_blob ft m
                 | Some _ \<Rightarrow> Inl (MetadataError ''metadata'' ''must be a JSON object'')) = Inr ()"
    and s': "s' = (set_fields changes s)\<lparr>ser_updated_at := now\<rparr>" "d' = set_series d i s'"
    by (auto simp: patch_series_def g result_simps Let_def)
  have "size_ok ft v" if "map_of changes ''metadata'' = Some v" for v
    using m that by (auto simp: size_ok_def validate_metadata_blob_def split: col_value.splits json.splits)
  with g c s' that show thesis by (simp add: validate_limits_Inr)
qed

lemma get_seriesD: "get_series d sc i = Some s \<Longrightarrow> s \<in> set (all_series d) \<and> ser_id s = i \<and> ser_workspace_id s = sc_workspace sc"
  unfolding get_series_def by (auto dest: find_SomeD)

lemma patch_series_ok:
  assumes "patch_series d ft sc i changes now = Inr (Some (d', s'))" and "patch_body changes"
    and "\<forall>s \<in> set (all_series d). series_ok ft s"
  shows "\<forall>s \<in> set (all_series d'). series_ok ft s"
  using assms(1)
proof (rule patch_series_parts)
  fix s assume s: "get_series d sc i = Some s" "check_fields changes = Inr ()" "bands_ok (merged (values_of s) changes)"
    "\<And>v. map_of changes ''metadata'' = Some v \<Longrightarrow> size_ok ft v"
    and s': "s' = (set_fields changes s)\<lparr>ser_updated_at := now\<rparr>" "d' = set_series d i s'"
  have "column s' = merged (values_of s) changes" using column_set_fields [OF assms(2) s(2)] by (auto simp: s'(1))
  moreover have "columns_ok ft (column s)" using get_seriesD [OF s(1)] assms(3) by (simp add: series_ok_def)
  ultimately have "series_ok ft s'" using columns_ok_merged [OF _ assms(2) s(2-4)] get_seriesD [OF s(1)] assms(3)
    by (simp add: series_ok_def s'(1))
  with assms(3) show ?thesis by (auto simp: s'(2) set_series_def)
qed

section \<open>Uploads\<close>

lemma upload_overrides_body:
  assumes "\<And>u. unit = Some u \<Longrightarrow> length u \<le> 32"
  shows "patch_body (upload_overrides unit lo hi)" "check_fields (upload_overrides unit lo hi) = Inr ()"
    "map_of (upload_overrides unit lo hi) ''metadata'' = None"
  using assms
  by (cases unit; cases lo; cases hi;
      simp add: upload_overrides_def patch_body_def field_valid_def check_fields_Inr EDITABLE_FIELDS_def NOT_NULLABLE_def)+

lemma merged_changed:
  assumes "distinct (map fst new)"
  shows "merged (values_of s) (filter (\<lambda>(k, v). map_of (values_of s) k \<noteq> Some v) new) f = merged (values_of s) new f"
proof -
  have "map_of (filter (\<lambda>(k, v). map_of (values_of s) k \<noteq> Some v) new) f =
      (case map_of new f of None \<Rightarrow> None | Some v \<Rightarrow> if map_of (values_of s) f = Some v then None else Some v)"
    using assms
  proof (induction new)
    case (Cons kv new)
    obtain k v where kv: "kv = (k, v)" by (cases kv)
    with Cons.prems have "map_of new k = None" by (simp add: map_of_eq_None_iff)
    with Cons kv show ?case by auto
  qed simp
  then show ?thesis by (auto simp: merged_def split: option.splits)
qed

lemma patch_body_filter: "patch_body vs \<Longrightarrow> patch_body (filter p vs)"
  by (auto simp: patch_body_def distinct_map_filter)

lemma blank_series_ok:
  assumes "1 \<le> length x" and "length x \<le> 256"
  shows "series_ok ft (blank_series sc i j x now)"
proof -
  have c: "column (blank_series sc i j x now) f = (if f = ''name'' then VText x else if f = ''kind'' then VKind KindMeasurement
      else if f = ''metadata'' then VJson (JObj []) else VNull)" for f
    by (simp add: column_def values_of_def blank_series_def)
  show ?thesis
    using assms by (simp add: series_ok_def columns_ok_def c bands_ok_def validate_limits_def Let_def both_def size_ok_def json_size_def
        MAX_METADATA_BYTES_def EDITABLE_FIELDS_def NOT_NULLABLE_def field_valid_def stored_valid_def)
      (simp add: blank_series_def)
qed

text \<open>The series an upload goes to: the stored one, or a blank one.\<close>

lemma upsert_upload_parts:
  assumes "upsert_upload_series d sc x overrides n m now = Inr (d', s')" and "patch_body overrides" and "check_fields overrides = Inr ()"
  obtains s d2 where "s \<in> set (all_series d2)" "all_series d2 = all_series d \<or> all_series d2 = all_series d @ [s] \<and> (\<exists>j. s = blank_series sc m j x now)"
    "column s' = merged (values_of s) overrides" "bands_ok (merged (values_of s) overrides)" "d' = set_series d2 (ser_id s) s'"
    "ser_id s' = ser_id s" "ser_external_id s' = x"
proof -
  define d1 where "d1 = d\<lparr>sources := insert_missing (\<lambda>s. (src_workspace_id s, src_name s)) (uploads_source sc n now) (sources d)\<rparr>"
  define j where "j = the (uploads_source_id d1 sc)"
  define d2 where "d2 = d1\<lparr>all_series := insert_missing (\<lambda>s. (ser_source_id s, ser_external_id s)) (blank_series sc m j x now) (all_series d1)\<rparr>"
  let ?p = "\<lambda>s. ser_source_id s = j \<and> ser_external_id s = x"
  have "all_series d2 = insert_missing (\<lambda>s. (ser_source_id s, ser_external_id s)) (blank_series sc m j x now) (all_series d1)"
    by (simp add: d2_def)
  with insert_missing_present [where t = "all_series d1" and k = "\<lambda>s. (ser_source_id s, ser_external_id s)" and new = "blank_series sc m j x now"]
  have "\<exists>s \<in> set (all_series d2). ?p s" by (simp add: blank_series_def)
  then obtain s where s: "List.find ?p (all_series d2) = Some s" by (cases "List.find ?p (all_series d2)") (auto simp: find_None_iff')
  then have mem: "s \<in> set (all_series d2)" "?p s" by (auto dest: find_SomeD)
  let ?changed = "filter (\<lambda>(k, v). map_of (values_of s) k \<noteq> Some v) overrides"
  from assms(1) have b: "bands_ok (merged (values_of s) overrides)"
    and s': "s' = (if ?changed = [] then s else (set_fields ?changed s)\<lparr>ser_updated_at := now\<rparr>)" and d': "d' = set_series d2 (ser_id s) s'"
    unfolding upsert_upload_series_def Let_def d1_def [symmetric] j_def [symmetric] d2_def [symmetric] s option.sel
    by (auto simp: result_simps validate_limits_Inr)
  have "column s' f = merged (values_of s) overrides f" for f
  proof -
    have ch: "patch_body ?changed" "check_fields ?changed = Inr ()" using assms(2,3) by (auto simp: patch_body_filter check_fields_Inr)
    have "column s' f = merged (values_of s) ?changed f"
    proof (cases "?changed = []")
      case True
      then show ?thesis by (simp only: s' if_True) (simp add: merged_column)
    next
      case False
      then have "s' = (set_fields ?changed s)\<lparr>ser_updated_at := now\<rparr>" by (simp only: s' if_False)
      then show ?thesis using column_set_fields [OF ch, of s f] by simp
    qed
    also have "\<dots> = merged (values_of s) overrides f" using assms(2) by (intro merged_changed) (simp add: patch_body_def)
    finally show ?thesis .
  qed
  then have col: "column s' = merged (values_of s) overrides" by blast
  have keys: "ser_id s' = ser_id s" "ser_external_id s' = x" using mem(2) by (auto simp: s')
  have "all_series d2 = all_series d \<or> all_series d2 = all_series d @ [blank_series sc m j x now]"
    by (auto simp: d2_def d1_def insert_missing_def)
  moreover have "s = blank_series sc m j x now" if "all_series d2 = all_series d @ [blank_series sc m j x now]" "all_series d2 \<noteq> all_series d"
  proof -
    from that(2) have "\<not> (\<exists>r \<in> set (all_series d). ?p r)" by (auto simp: d2_def d1_def insert_missing_def blank_series_def split: if_splits)
    with mem that(1) show ?thesis by auto
  qed
  ultimately show thesis using that [OF mem(1) _ col b d' keys] by blast
qed

lemma upsert_upload_ok:
  assumes "upsert_upload_series d sc x (upload_overrides unit lo hi) n m now = Inr (d', s')"
    and "1 \<le> length x" and "length x \<le> 256" and "\<And>u. unit = Some u \<Longrightarrow> length u \<le> 32"
    and "\<forall>s \<in> set (all_series d). series_ok ft s"
  shows "\<forall>s \<in> set (all_series d'). series_ok ft s"
proof -
  note body = upload_overrides_body [of unit lo hi, OF assms(4)]
  from assms(1) body(1,2) show ?thesis
  proof (rule upsert_upload_parts)
    fix s d2 assume s: "s \<in> set (all_series d2)" "all_series d2 = all_series d \<or> all_series d2 = all_series d @ [s] \<and> (\<exists>j. s = blank_series sc m j x now)"
      "column s' = merged (values_of s) (upload_overrides unit lo hi)" "bands_ok (merged (values_of s) (upload_overrides unit lo hi))"
      "d' = set_series d2 (ser_id s) s'" "ser_external_id s' = x"
    have all: "\<forall>s \<in> set (all_series d2). series_ok ft s" using s(2) assms(5) blank_series_ok [OF assms(2,3)] by auto
    have "columns_ok ft (merged (values_of s) (upload_overrides unit lo hi))"
      by (rule columns_ok_merged) (use all s(1,4) body in \<open>auto simp: series_ok_def\<close>)
    then have "series_ok ft s'" using assms(2,3) by (simp add: series_ok_def s(3,6))
    with all show ?thesis by (auto simp: s(5) set_series_def)
  qed
qed

section \<open>Properties of searches and patches\<close>

lemma ilike_pattern: "ilike s (like_pattern q) \<longleftrightarrow> (\<exists>us vs. lower s = us @ lower q @ vs)"
proof -
  have pat: "lower (like_pattern q) = CHR ''%'' # escape (lower q) @ ''%''"
  proof -
    have "lower (like_pattern q) = lower ''%'' @ lower (escape q) @ lower ''%''"
      by (simp add: like_pattern_escape lower_def)
    moreover have "lower ''%'' = ''%''" by code_simp
    ultimately show ?thesis by (simp add: lower_escape)
  qed
  have "like (CHR ''%'' # escape (lower q) @ ''%'') (lower s) \<longleftrightarrow> (\<exists>k \<le> length (lower s). \<exists>r. drop k (lower s) = lower q @ r)"
    unfolding like_percent like_escaped using like_any by auto
  also have "\<dots> \<longleftrightarrow> (\<exists>us vs. lower s = us @ lower q @ vs)"
  proof (intro iffI; elim exE conjE)
    fix k r assume "drop k (lower s) = lower q @ r"
    then have "lower s = take k (lower s) @ lower q @ r" by (metis append_take_drop_id)
    then show "\<exists>us vs. lower s = us @ lower q @ vs" by blast
  next
    fix us vs assume "lower s = us @ lower q @ vs"
    then show "\<exists>k \<le> length (lower s). \<exists>r. drop k (lower s) = lower q @ r"
      by (intro exI [of _ "length us"]) simp
  qed
  finally show ?thesis by (simp add: ilike_def pat)
qed

text \<open>A client that follows the cursors of the listing, at most \<open>n\<close> times.\<close>

fun walk_series :: "db \<Rightarrow> scope \<Rightarrow> series_filter \<Rightarrow> nat \<Rightarrow> nat \<Rightarrow> (string \<times> uuid) option \<Rightarrow> series list option" where
  "walk_series d sc q limit 0 cursor = None"
| "walk_series d sc q limit (Suc n) cursor =
     (case list_series d sc q limit cursor of
        (rows, None) \<Rightarrow> Some rows
      | (rows, Some c) \<Rightarrow> map_option ((@) rows) (walk_series d sc q limit n (Some c)))"

lemma walk_series_pages:
  "walk_series d sc q limit n cursor = series_pages.walk n limit cursor (filter (series_matches d sc q) (all_series d))"
  by (induction n arbitrary: cursor) (simp_all add: list_series_def name_page_def series_pages.page_def)

lemma walk_series_complete:
  assumes "uniq_key ser_id (all_series d)" and "0 < limit"
  shows "walk_series d sc q limit (Suc (length (all_series d))) None = Some (sort_key series_key (filter (series_matches d sc q) (all_series d)))"
proof -
  let ?t = "filter (series_matches d sc q) (all_series d)"
  have "distinct (map ser_id ?t)" using assms(1) by (simp add: uniq_key_def distinct_map_filter)
  then have "distinct (map series_key ?t)" by (simp add: distinct_map inj_on_def series_key_def)
  moreover have "length ?t < Suc (length (all_series d)) * limit"
  proof -
    have "length ?t < Suc (length (all_series d))" by (simp add: less_Suc_eq_le)
    also have "\<dots> \<le> Suc (length (all_series d)) * limit" using assms(2) by (cases limit) simp_all
    finally show ?thesis .
  qed
  ultimately show ?thesis
    unfolding walk_series_pages using assms(2) by (intro series_pages.walk_from [of _ _ "[]"]) simp_all
qed

text \<open>C27: the series listing with a search text, followed page by page to its end, yields exactly the series of the
  workspace whose name or external id contains the text as a substring, ignoring case, whatever wildcards and backslashes
  the text holds, and that pass the other filters of the request; each once, in the order of their names.\<close>

theorem search_is_literal:
  assumes "qf_q q = Some t" and "uniq_key ser_id (all_series d)" and "0 < limit"
  shows "\<exists>found. walk_series d sc q limit (Suc (length (all_series d))) None = Some found
    \<and> sorted (map series_key found) \<and> distinct found
    \<and> (\<forall>s. s \<in> set found \<longleftrightarrow> s \<in> set (all_series d) \<and> ser_workspace_id s = sc_workspace sc
        \<and> (\<exists>us vs. lower (ser_name s) = us @ lower t @ vs \<or> lower (ser_external_id s) = us @ lower t @ vs)
        \<and> (\<forall>u. qf_unit q = Some u \<longrightarrow> map_option lower (ser_unit s) = Some (lower (strip u)))
        \<and> (\<forall>m. qf_score_max q = Some m \<longrightarrow> (\<exists>x. latest_score d (ser_id s) = Some x \<and> sc_overall x \<le> m))
        \<and> (\<forall>i. qf_source_id q = Some i \<longrightarrow> ser_source_id s = i)
        \<and> (\<forall>k. qf_kind q = Some k \<longrightarrow> ser_kind s = k))"
proof (intro exI conjI)
  let ?found = "sort_key series_key (filter (series_matches d sc q) (all_series d))"
  show "walk_series d sc q limit (Suc (length (all_series d))) None = Some ?found"
    by (rule walk_series_complete [OF assms(2,3)])
  show "sorted (map series_key ?found)" by simp
  show "distinct ?found" using assms(2) by (simp add: uniq_key_def distinct_map)
  have "(t = [] \<or> ilike (ser_name s) (like_pattern t) \<or> ilike (ser_external_id s) (like_pattern t)) \<longleftrightarrow>
      (\<exists>us vs. lower (ser_name s) = us @ lower t @ vs \<or> lower (ser_external_id s) = us @ lower t @ vs)" for s
  proof (cases "t = []")
    case True
    have "lower (ser_name s) = [] @ lower t @ lower (ser_name s)" by (simp add: True lower_def)
    with True show ?thesis by blast
  qed (simp add: ilike_pattern ex_disj_distrib)
  then show "\<forall>s. s \<in> set ?found \<longleftrightarrow> s \<in> set (all_series d) \<and> ser_workspace_id s = sc_workspace sc
        \<and> (\<exists>us vs. lower (ser_name s) = us @ lower t @ vs \<or> lower (ser_external_id s) = us @ lower t @ vs)
        \<and> (\<forall>u. qf_unit q = Some u \<longrightarrow> map_option lower (ser_unit s) = Some (lower (strip u)))
        \<and> (\<forall>m. qf_score_max q = Some m \<longrightarrow> (\<exists>x. latest_score d (ser_id s) = Some x \<and> sc_overall x \<le> m))
        \<and> (\<forall>i. qf_source_id q = Some i \<longrightarrow> ser_source_id s = i)
        \<and> (\<forall>k. qf_kind q = Some k \<longrightarrow> ser_kind s = k)"
    by (simp add: series_matches_def assms(1) split: option.splits) blast
qed

text \<open>A patch either changes exactly the columns it names, to the values it names, with consistent
  limits as the result and no other series touched, or is refused for a field of the request (when the
  stored limits were consistent).\<close>

theorem patch_changes_what_it_names:
  assumes "get_series d sc i = Some s" and "patch_body changes"
  shows "(case patch_series d ft sc i changes now of
      Inl e \<Rightarrow> bands_ok (column s) \<longrightarrow> me_field e \<in> fst ` set changes
    | Inr None \<Rightarrow> False
    | Inr (Some (d', s')) \<Rightarrow> d' = set_series d i s' \<and> ser_id s' = i \<and> bands_ok (column s') \<and>
        (\<forall>f. column s' f = (case map_of changes f of Some v \<Rightarrow> v | None \<Rightarrow> column s f)))"
proof (cases "patch_series d ft sc i changes now")
  case (Inl e)
  let ?meta = "case map_of changes ''metadata'' of None \<Rightarrow> Inr () | Some (VJson m) \<Rightarrow> validate_metadata_blob ft m
                 | Some _ \<Rightarrow> Inl (MetadataError ''metadata'' ''must be a JSON object'')"
  have "me_field e \<in> fst ` set changes" if bands: "bands_ok (column s)"
  proof -
    from Inl consider "check_fields changes = Inl e" | "?meta = Inl e"
      | "validate_limits (merged (values_of s) changes) (map fst changes) = Inl e"
      unfolding patch_series_def assms(1) option.case rbind_eq_Inl Let_def by blast
    then show ?thesis
    proof cases
      case 1
      then show ?thesis by (rule check_fields_Inl)
    next
      case 2
      then have "map_of changes ''metadata'' \<noteq> None" by (auto split: option.splits)
      moreover have "me_field e = ''metadata''"
        using 2 by (auto simp: validate_metadata_blob_def require_def split: option.splits col_value.splits json.splits if_splits)
      ultimately show ?thesis by (simp add: map_of_eq_None_iff)
    next
      case 3
      have "merged (values_of s) changes f = column s f" if "f \<notin> set (map fst changes)" for f
        using that by (simp add: merged_column map_of_eq_None_iff split: option.splits) (metis map_of_eq_None_iff option.distinct(1))
      with blamed_changed [OF 3 bands] show ?thesis by auto
    qed
  qed
  then show ?thesis by (simp add: Inl)
next
  case (Inr r)
  then obtain d' s' where r: "patch_series d ft sc i changes now = Inr (Some (d', s'))"
    by (auto simp: patch_series_def assms(1) result_simps Let_def)
  show ?thesis
    using r
  proof (rule patch_series_parts)
    fix t assume t: "get_series d sc i = Some t" "check_fields changes = Inr ()" "bands_ok (merged (values_of t) changes)"
      and s': "s' = (set_fields changes t)\<lparr>ser_updated_at := now\<rparr>" "d' = set_series d i s'"
    have st: "t = s" using t(1) assms(1) by simp
    have col: "column s' f = merged (values_of s) changes f" for f
      using column_set_fields [OF assms(2) t(2), of s f] by (simp add: s'(1) st)
    have "column s' = merged (values_of s) changes" using col by blast
    then have "bands_ok (column s')" using t(3) by (simp add: st)
    then show ?thesis using col get_seriesD [OF assms(1)] s' by (simp add: r st merged_column)
  qed
qed

section \<open>Examples\<close>

definition ex_meta_series :: series where
  "ex_meta_series = (blank_series \<lparr>sc_org = 1, sc_workspace = 2\<rparr> 7 5 ''flow'' 0)\<lparr>ser_physical_max := Some 10\<rparr>"

definition ex_meta_db :: db where "ex_meta_db = empty_db\<lparr>all_series := [ex_meta_series]\<rparr>"

theorem patch_changes_what_it_names_witness:
  "\<exists>d' s'. patch_series ex_meta_db (\<lambda>_. ''0'') \<lparr>sc_org = 1, sc_workspace = 2\<rparr> 7 [(''unit'', VText ''bar''), (''physical_min'', VNum 3)] 9 = Inr (Some (d', s'))
     \<and> column s' ''unit'' = VText ''bar'' \<and> column s' ''physical_max'' = VNum 10"
proof -
  let ?ch = "[(''unit'', VText ''bar''), (''physical_min'', VNum 3)]" and ?sc = "\<lparr>sc_org = 1, sc_workspace = 2\<rparr>"
  have g: "get_series ex_meta_db ?sc 7 = Some ex_meta_series"
    by (simp add: get_series_def ex_meta_db_def ex_meta_series_def blank_series_def)
  have b: "patch_body ?ch" by (simp add: patch_body_def field_valid_def)
  have f: "check_fields ?ch = Inr ()" by (simp add: check_fields_Inr EDITABLE_FIELDS_def NOT_NULLABLE_def)
  have c: "column ex_meta_series ''operational_min'' = VNull" "column ex_meta_series ''operational_max'' = VNull"
    "column ex_meta_series ''physical_max'' = VNum 10"
    by (simp_all add: column_def values_of_def ex_meta_series_def blank_series_def)
  have "validate_limits (merged (values_of ex_meta_series) ?ch) (map fst ?ch) = Inr ()"
    by (simp add: validate_limits_def merged_column c both_def Let_def)
  with g f obtain d' s' where r: "patch_series ex_meta_db (\<lambda>_. ''0'') ?sc 7 ?ch 9 = Inr (Some (d', s'))"
    by (simp add: patch_series_def Let_def)
  with patch_changes_what_it_names [OF g b, of "\<lambda>_. ''0''" 9] c show ?thesis by simp
qed

text \<open>A wildcard in the search text is a character: only the second name holds it.\<close>

definition ex_search_db :: db where
  "ex_search_db = empty_db\<lparr>all_series := [ex_meta_series, ex_meta_series\<lparr>ser_id := 8, ser_name := ''Flow 5%''\<rparr>]\<rparr>"

theorem search_is_literal_witness:
  "\<exists>found. walk_series ex_search_db \<lparr>sc_org = 1, sc_workspace = 2\<rparr>
      \<lparr>qf_q = Some ''W 5%'', qf_source_id = None, qf_kind = None, qf_unit = None, qf_score_max = None\<rparr> 1 3 None = Some found
    \<and> map ser_name found = [''Flow 5%'']"
proof -
  let ?sc = "\<lparr>sc_org = 1, sc_workspace = 2\<rparr>"
  let ?q = "\<lparr>qf_q = Some ''W 5%'', qf_source_id = None, qf_kind = None, qf_unit = None, qf_score_max = None\<rparr>"
  have rows: "uniq_key ser_id (all_series ex_search_db)" "length (all_series ex_search_db) = 2"
    by (simp_all add: ex_search_db_def uniq_key_def ex_meta_series_def blank_series_def)
  let ?s = "ex_meta_series\<lparr>ser_id := 8, ser_name := ''Flow 5%''\<rparr>"
  obtain found where found: "walk_series ex_search_db ?sc ?q 1 3 None = Some found" "distinct found"
     "\<And>s. s \<in> set found \<longleftrightarrow> s \<in> set (all_series ex_search_db) \<and> ser_workspace_id s = 2
        \<and> (\<exists>us vs. lower (ser_name s) = us @ lower ''W 5%'' @ vs \<or> lower (ser_external_id s) = us @ lower ''W 5%'' @ vs)"
    using search_is_literal [of ?q _ ex_search_db 1 ?sc, OF _ rows(1)] rows(2) by (auto simp: numeral_3_eq_3)
  have low: "lower ''W 5%'' = ''w 5%''" "lower ''flow'' = ''flow''" "lower ''Flow 5%'' = ''flow 5%''" by code_simp+
  have yes: "\<exists>us vs. ''flow 5%'' = us @ ''w 5%'' @ vs" by (intro exI [of _ "''flo''"] exI [of _ "[]"]) simp
  have no: "''flow'' \<noteq> us @ ''w 5%'' @ vs" for us vs
  proof
    assume "''flow'' = us @ ''w 5%'' @ vs"
    then have "CHR ''5'' \<in> set ''flow''" by (metis Un_iff list.set_intros set_append)
    then show False by simp
  qed
  have "s \<in> set found \<longleftrightarrow> s = ?s" for s
    unfolding found(3) by (auto simp: ex_search_db_def ex_meta_series_def blank_series_def low no [simplified] yes [simplified])
  then have "found = [?s]" using found(2) by (cases found) (auto, metis list.set_intros neq_Nil_conv)
  with found(1) show ?thesis by simp
qed

end
