(* ===== verification/Finding_Routes.thy ===== *)
theory Finding_Routes
  imports Finding_Facts Pagination Settings
begin

text \<open>
  The reads of \<^verbatim>\<open>services/findings.py\<close> and \<^verbatim>\<open>routers/findings.py\<close>: filters as a request spells them, the keyset pages of findings, and
  the change of a status.  Reading a UUID is a parameter (the library accepts several spellings), as is \<^verbatim>\<open>fromisoformat\<close>.
\<close>

section \<open>Filters\<close>

definition SEVERITIES :: "string list" where "SEVERITIES = [''low'', ''medium'', ''high'', ''critical'']"

definition DIMENSIONS :: "string list" where
  "DIMENSIONS = [''completeness'', ''timeliness'', ''validity'', ''accuracy'', ''consistency'', ''plausibility'', ''integrity'']"

definition DEFAULT_LIST_STATUSES :: "finding_status list" where "DEFAULT_LIST_STATUSES = [FOpen, FAcked]"

definition FINDING_STATUSES :: "string list" where "FINDING_STATUSES = [''open'', ''acked'', ''muted'', ''resolved'']"

definition MAX_REASON_CHARS :: nat where "MAX_REASON_CHARS = 500"

definition status_text :: "finding_status \<Rightarrow> string" where
  "status_text s = (case s of FOpen \<Rightarrow> ''open'' | FAcked \<Rightarrow> ''acked'' | FMuted \<Rightarrow> ''muted'' | FResolved \<Rightarrow> ''resolved'')"

record finding_filter =
  ff_series_id :: "uuid option"
  ff_check_id :: "string option"
  ff_severities :: "string list option"
  ff_dimension :: "string option"
  ff_statuses :: "string list option"
  ff_run_id :: "uuid option"
  ff_since :: "datetime option"
  ff_until :: "datetime option"

record finding_query =
  fq_series_id :: "string option"
  fq_check_id :: "string option"
  fq_severity :: "string option"
  fq_dimension :: "string option"
  fq_status :: "string option"
  fq_run_id :: "string option"
  fq_since :: "string option"
  fq_until :: "string option"

text \<open>What a route uses to read texts; a refusal is a status with its detail.\<close>

record text_readers =
  tr_uuid :: "string \<Rightarrow> uuid option"
  tr_iso :: iso_parser

type_synonym refusal = "int \<times> string"

definition uuid_or_422 :: "text_readers \<Rightarrow> string option \<Rightarrow> string \<Rightarrow> refusal + uuid option" where
  "uuid_or_422 R value name =
     (case value of
        None \<Rightarrow> Inr None
      | Some v \<Rightarrow> (case tr_uuid R v of None \<Rightarrow> Inl (422, name @ '' is not a UUID'') | Some u \<Rightarrow> Inr (Some u)))"

definition choices_of :: "string option \<Rightarrow> string list \<Rightarrow> string \<Rightarrow> refusal + string list option" where
  "choices_of value allowed name =
     (case value of
        None \<Rightarrow> Inr None
      | Some v \<Rightarrow>
          (let items = first_of_each (filter (\<lambda>i. i \<noteq> []) (map strip (split_on (CHR '','') v))) in
           if items = [] \<or> \<not> list_all (\<lambda>i. i \<in> set allowed) items
           then Inl (422, name @ '' must be a comma list of '' @ join_with '', '' allowed) else Inr (Some items)))"

definition time_or_422 :: "text_readers \<Rightarrow> string option \<Rightarrow> string \<Rightarrow> refusal + datetime option" where
  "time_or_422 R value name =
     (case value of
        None \<Rightarrow> Inr None
      | Some v \<Rightarrow> (case parse_time (tr_iso R) v of Inl e \<Rightarrow> Inl (422, name @ '': '' @ e) | Inr t \<Rightarrow> Inr (Some t)))"

definition statuses_of :: "string option \<Rightarrow> refusal + string list option" where
  "statuses_of value =
     (case value of
        None \<Rightarrow> Inr (Some (map status_text DEFAULT_LIST_STATUSES))
      | Some v \<Rightarrow> if strip v = ''all'' then Inr None else choices_of value FINDING_STATUSES ''status'')"

definition finding_filters :: "text_readers \<Rightarrow> finding_query \<Rightarrow> refusal + finding_filter" where
  "finding_filters R q =
     rbind (require (length (given (fq_check_id q)) \<le> 128) (422, ''check_id'')) (\<lambda>_.
     rbind (require (fq_dimension q = None \<or> given (fq_dimension q) \<in> set DIMENSIONS) (422, ''dimension must be one of '' @ join_with '', '' DIMENSIONS)) (\<lambda>_.
     rbind (uuid_or_422 R (fq_series_id q) ''series_id'') (\<lambda>series_id.
     rbind (choices_of (fq_severity q) SEVERITIES ''severity'') (\<lambda>severities.
     rbind (statuses_of (fq_status q)) (\<lambda>statuses.
     rbind (uuid_or_422 R (fq_run_id q) ''run_id'') (\<lambda>in_run.
     rbind (time_or_422 R (fq_since q) ''since'') (\<lambda>since.
     rbind (time_or_422 R (fq_until q) ''until'') (\<lambda>before.
       Inr \<lparr>ff_series_id = series_id, ff_check_id = fq_check_id q, ff_severities = severities, ff_dimension = fq_dimension q,
         ff_statuses = statuses, ff_run_id = in_run, ff_since = since, ff_until = before\<rparr>))))))))"

section \<open>Pages of findings\<close>

definition holds :: "('a \<Rightarrow> bool) \<Rightarrow> 'a option \<Rightarrow> bool" where
  "holds p x = (case x of None \<Rightarrow> True | Some v \<Rightarrow> p v)"

definition selected :: "finding_filter \<Rightarrow> finding \<Rightarrow> bool" where
  "selected f x \<longleftrightarrow>
     holds (\<lambda>i. fd_series_id x = i) (ff_series_id f) \<and> holds (\<lambda>c. fd_check_id x = c) (ff_check_id f) \<and>
     holds (\<lambda>ss. fd_severity x \<in> set ss) (ff_severities f) \<and> holds (\<lambda>m. fd_dimension x = m) (ff_dimension f) \<and>
     holds (\<lambda>ss. status_text (fd_status x) \<in> set ss) (ff_statuses f) \<and>
     holds (\<lambda>r. fd_first_run_id x = Some r \<or> fd_last_run_id x = Some r) (ff_run_id f) \<and>
     holds (\<lambda>t. t < fd_window_end x) (ff_since f) \<and> holds (\<lambda>t. fd_window_start x < t) (ff_until f)"

definition finding_key :: "finding \<Rightarrow> datetime \<times> uuid" where
  "finding_key x = (fd_window_start x, fd_id x)"

definition list_findings :: "db \<Rightarrow> scope \<Rightarrow> finding_filter \<Rightarrow> nat \<Rightarrow> (datetime \<times> uuid) option \<Rightarrow> finding list \<times> (datetime \<times> uuid) option" where
  "list_findings d sc f limit cursor =
     newest_page finding_key limit cursor (filter (\<lambda>x. fd_workspace_id x = sc_workspace sc \<and> selected f x) (findings d))"

interpretation finding_pages: keyset_listing finding_key "\<lambda>a b. b < a" "newest_first finding_key"
  by (rule newest_first_listing)

text \<open>The route; a cursor that does not decode is refused before.\<close>

definition list_findings_route :: "text_readers \<Rightarrow> db \<Rightarrow> scope \<Rightarrow> finding_query \<Rightarrow> int \<Rightarrow> (datetime \<times> uuid) option \<Rightarrow>
    refusal + finding list \<times> (datetime \<times> uuid) option" where
  "list_findings_route R d sc q limit cursor =
     rbind (require (1 \<le> limit \<and> limit \<le> 500) (422, ''limit'')) (\<lambda>_.
     rbind (finding_filters R q) (\<lambda>f. Inr (list_findings d sc f (nat limit) cursor)))"

definition get_finding_route :: "text_readers \<Rightarrow> db \<Rightarrow> scope \<Rightarrow> string \<Rightarrow> refusal + finding" where
  "get_finding_route R d sc finding_id =
     expect (Option.bind (tr_uuid R finding_id) (get_finding d sc)) (404, ''finding not found'')"

text \<open>A body whose status is none of the four, whose reason is too long, or that mutes without a reason, is refused with 422.\<close>

definition status_change_ok :: "finding_status \<Rightarrow> string option \<Rightarrow> bool" where
  "status_change_ok status reason \<longleftrightarrow>
     length (given reason) \<le> MAX_REASON_CHARS \<and> (status = FMuted \<longrightarrow> strip (given reason) \<noteq> [])"

definition change_status_route :: "text_readers \<Rightarrow> db \<Rightarrow> scope \<Rightarrow> string \<Rightarrow> finding_status \<Rightarrow> string option \<Rightarrow> datetime \<Rightarrow> refusal + db \<times> finding" where
  "change_status_route R d sc finding_id status reason now =
     rbind (require (status_change_ok status reason) (422, ''muting a finding needs a non-empty reason'')) (\<lambda>_.
     rbind (expect (tr_uuid R finding_id) (404, ''finding not found'')) (\<lambda>i.
       (case change_status d sc i status reason now of
          Inr x \<Rightarrow> Inr x
        | Inl FindingNotFound \<Rightarrow> Inl (404, ''finding not found'')
        | Inl (BadTransition current requested) \<Rightarrow>
            Inl (409, ''cannot change status from '' @ status_text current @ '' to '' @ status_text requested))))"

section \<open>What a client that follows the cursors sees\<close>

fun follow_findings :: "nat \<Rightarrow> db \<Rightarrow> scope \<Rightarrow> finding_filter \<Rightarrow> nat \<Rightarrow> (datetime \<times> uuid) option \<Rightarrow> finding list option" where
  "follow_findings 0 d sc f limit cursor = None"
| "follow_findings (Suc n) d sc f limit cursor =
     (case list_findings d sc f limit cursor of
        (rows, None) \<Rightarrow> Some rows
      | (rows, Some c) \<Rightarrow> map_option ((@) rows) (follow_findings n d sc f limit (Some c)))"

lemma list_findings_page:
  "list_findings d sc f limit cursor =
     finding_pages.page limit cursor (filter (\<lambda>x. fd_workspace_id x = sc_workspace sc \<and> selected f x) (findings d))"
  by (simp add: list_findings_def newest_page_def finding_pages.page_def)

lemma follow_findings_walk:
  "follow_findings n d sc f limit cursor =
     finding_pages.walk n limit cursor (filter (\<lambda>x. fd_workspace_id x = sc_workspace sc \<and> selected f x) (findings d))"
  by (induction n arbitrary: cursor) (simp_all add: list_findings_page split: prod.splits option.splits)

text \<open>Each finding that the filter selects is listed once, the newest window first, and no other.\<close>

lemma findings_listed_once:
  fixes sc :: scope and f :: finding_filter
  assumes "uniq_key fd_id (findings d)" "0 < limit"
  defines "wanted \<equiv> filter (\<lambda>x. fd_workspace_id x = sc_workspace sc \<and> selected f x) (findings d)"
  shows "\<exists>rows. follow_findings (Suc (length wanted)) d sc f limit None = Some rows \<and> set rows = set wanted \<and>
    sorted_wrt (\<lambda>x y. finding_key y < finding_key x) rows"
proof -
  have "distinct (map fd_id wanted)" unfolding wanted_def using assms(1) by (simp add: uniq_key_def distinct_map_filter)
  then have keys: "distinct (map finding_key wanted)"
    by (auto simp: distinct_map inj_on_def finding_key_def)
  show ?thesis
    using finding_pages.walk_complete [OF keys assms(2)] finding_pages.arrange_set [of wanted] finding_pages.arrange_sorted [OF keys]
    unfolding follow_findings_walk wanted_def by blast
qed

text \<open>Without a status in the request only open and acknowledged findings are listed; muting needs a reason.\<close>

lemma default_statuses:
  assumes "finding_filters R q = Inr f" "fq_status q = None" "selected f x"
  shows "fd_status x \<in> {FOpen, FAcked}"
  using assms by (cases "fd_status x") (auto simp: finding_filters_def result_simps statuses_of_def selected_def holds_def
      DEFAULT_LIST_STATUSES_def status_text_def)

lemma muting_needs_reason:
  assumes "change_status_route R d sc i FMuted reason now = Inr (d', x)"
  shows "fd_status_reason x \<noteq> None"
proof -
  obtain j where ok: "status_change_ok FMuted reason" and moved: "change_status d sc j FMuted reason now = Inr (d', x)"
  proof -
    obtain k where k: "status_change_ok FMuted reason" "(case change_status d sc k FMuted reason now of
          Inr x \<Rightarrow> Inr x
        | Inl FindingNotFound \<Rightarrow> Inl (404 :: int, ''finding not found'')
        | Inl (BadTransition current requested) \<Rightarrow>
            Inl (409, ''cannot change status from '' @ status_text current @ '' to '' @ status_text requested)) = Inr (d', x)"
      using assms unfolding change_status_route_def rbind_eq_Inr by auto
    show ?thesis
    proof (cases "change_status d sc k FMuted reason now")
      case (Inl e)
      then show ?thesis using k(2) by (cases e) simp_all
    next
      case (Inr y)
      then show ?thesis using k that by simp
    qed
  qed
  have "strip (given reason) \<noteq> []" using ok by (simp add: status_change_ok_def)
  then have "clean_reason reason \<noteq> None" by (cases reason) (auto simp: clean_reason_def given_def strip_def)
  then show ?thesis using moved by (auto simp: change_status_def rbind_eq_Inr Let_def)
qed

end
