(* ===== verification/Series_Routes.thy ===== *)
theory Series_Routes
  imports Series_Facts Finding_Routes Coverage
begin

text \<open>
  \<^verbatim>\<open>services/series_chart.py\<close> and the routes of \<^verbatim>\<open>routers/series.py\<close>: what the cache holds of a series, the window of a chart or a
  profile and its bound, and the answers.  Reading the Parquet store, the core's chart and profile, a digest and the texts of
  times are parameters; a batch is the list of its rows.  Floats are exact.
\<close>

section \<open>Extents and windows\<close>

definition DEFAULT_WHOLE_ROWS :: int where "DEFAULT_WHOLE_ROWS = 2000000"
definition DEFAULT_RECENT_NS :: ns where "DEFAULT_RECENT_NS = 7 * 86400 * 1000000000"
definition PROFILE_WINDOW_NS :: ns where "PROFILE_WINDOW_NS = 28 * 86400 * 1000000000"
definition BAND_K :: rat where "BAND_K = 1"
definition QUALITY_CODES :: "(string \<times> int) list" where
  "QUALITY_CODES = [(''good'', 0), (''uncertain'', 1), (''bad'', 2), (''estimated'', 3)]"

record coverage_range =
  cr_start :: ns
  cr_end :: ns
  cr_rows :: int
  cr_written_at :: datetime

record extent =
  ex_start :: ns
  ex_end :: ns
  ex_rows :: int
  ex_ranges :: "coverage_range list"

definition stored_ranges :: "db \<Rightarrow> uuid \<Rightarrow> string \<Rightarrow> coverage_range list" where
  "stored_ranges d i layer =
     map (\<lambda>c. \<lparr>cr_start = datetime_to_ns (cov_range_start c), cr_end = datetime_to_ns (cov_range_end c), cr_rows = cov_rows c,
         cr_written_at = cov_written_at c\<rparr>)
       (sort_key cov_range_start (filter (\<lambda>c. cov_series_id c = i \<and> cov_layer c = layer) (coverages d)))"

definition extent_of :: "db \<Rightarrow> uuid \<Rightarrow> string \<Rightarrow> extent option" where
  "extent_of d i layer =
     (let ranges = stored_ranges d i layer in
      if ranges = [] then None
      else Some \<lparr>ex_start = Min (set (map cr_start ranges)), ex_end = Max (set (map cr_end ranges)),
        ex_rows = sum_list (map cr_rows ranges), ex_ranges = ranges\<rparr>)"

definition range_share :: "ns \<Rightarrow> ns \<Rightarrow> coverage_range \<Rightarrow> rat" where
  "range_share start_ns end_ns r =
     (let width = cr_end r - cr_start r; common = min (cr_end r) end_ns - max (cr_start r) start_ns in
      if common \<le> 0 \<or> width \<le> 0 then 0 else of_int (cr_rows r * common) / of_int width)"

definition estimate_rows :: "extent \<Rightarrow> ns \<Rightarrow> ns \<Rightarrow> int" where
  "estimate_rows x start_ns end_ns = \<lceil>sum_list (map (range_share start_ns end_ns) (ex_ranges x))\<rceil>"

definition default_chart_window :: "extent \<Rightarrow> ns \<times> ns" where
  "default_chart_window x =
     (if ex_rows x \<le> DEFAULT_WHOLE_ROWS then (ex_start x, ex_end x) else (max (ex_start x) (ex_end x - DEFAULT_RECENT_NS), ex_end x))"

definition default_profile_window :: "extent \<Rightarrow> ns \<times> ns" where
  "default_profile_window x = (max (ex_start x) (ex_end x - PROFILE_WINDOW_NS), ex_end x)"

definition check_size :: "extent option \<Rightarrow> ns \<times> ns \<Rightarrow> int \<Rightarrow> refusal + unit" where
  "check_size x w most =
     (case x of None \<Rightarrow> Inr () | Some e \<Rightarrow> require (estimate_rows e (fst w) (snd w) \<le> most) (422, ''window_too_large''))"

section \<open>The store and the core\<close>

record chart_points =
  cp_ts :: "ns list"
  cp_values :: "rat option list"
  cp_quality :: "(ns \<times> ns \<times> string) list"
  cp_n_raw :: nat

definition no_points :: chart_points where
  "no_points = \<lparr>cp_ts = [], cp_values = [], cp_quality = [], cp_n_raw = 0\<rparr>"

text \<open>A read gives the rows of a series in a window, or the error of the store.\<close>

record 'r chart_env =
  ce_read :: "uuid \<Rightarrow> uuid \<Rightarrow> ns \<Rightarrow> ns \<Rightarrow> string + 'r list"
  ce_quality :: "'r \<Rightarrow> int"
  ce_chart :: "'r list \<Rightarrow> ns \<Rightarrow> ns \<Rightarrow> int \<Rightarrow> int option \<Rightarrow> chart_points"
  ce_profile :: "'r list \<Rightarrow> uuid \<Rightarrow> jobj"
  ce_digest :: "string \<Rightarrow> string"
  ce_isoformat :: "datetime \<Rightarrow> string"
  ce_str :: "datetime \<Rightarrow> string"

text \<open>The cache leaves out a series without rows.\<close>

definition read_window :: "'r chart_env \<Rightarrow> series \<Rightarrow> ns \<times> ns \<Rightarrow> string + 'r list option" where
  "read_window C s w =
     (case ce_read C (ser_source_id s) (ser_id s) (fst w) (snd w) of
        Inl e \<Rightarrow> Inl e
      | Inr rows \<Rightarrow> Inr (if rows = [] then None else Some rows))"

definition read_or_503 :: "'r chart_env \<Rightarrow> series \<Rightarrow> (ns \<times> ns) option \<Rightarrow> refusal + 'r list option" where
  "read_or_503 C s w =
     (case w of
        None \<Rightarrow> Inr None
      | Some win \<Rightarrow> (case read_window C s win of Inl e \<Rightarrow> Inl (503, ''cache_unavailable'') | Inr b \<Rightarrow> Inr b))"

definition chart_points_of :: "'r chart_env \<Rightarrow> 'r list option \<Rightarrow> ns \<times> ns \<Rightarrow> int \<Rightarrow> int option \<Rightarrow> chart_points" where
  "chart_points_of C batch w buckets expected =
     (case batch of None \<Rightarrow> no_points | Some rows \<Rightarrow> ce_chart C rows (fst w) (snd w) buckets expected)"

definition quality_counts :: "'r chart_env \<Rightarrow> 'r list option \<Rightarrow> (string \<times> nat) list" where
  "quality_counts C batch =
     map (\<lambda>(name, code). (name, case batch of None \<Rightarrow> 0 | Some rows \<Rightarrow> length (filter (\<lambda>r. ce_quality C r = code) rows))) QUALITY_CODES"

definition window_profile :: "'r chart_env \<Rightarrow> 'r list option \<Rightarrow> uuid \<Rightarrow> jobj option" where
  "window_profile C batch i =
     (case batch of
        None \<Rightarrow> None
      | Some rows \<Rightarrow> (let usable = filter (\<lambda>r. ce_quality C r \<noteq> 2) rows in if usable = [] then None else Some (ce_profile C usable i)))"

datatype band = Band rat rat string

definition profile_number :: "jobj \<Rightarrow> string \<Rightarrow> rat option" where
  "profile_number p k = Option.bind (map_of p k) (\<lambda>v. case v of JInt i \<Rightarrow> Some (of_int i) | JNum r \<Rightarrow> Some r | _ \<Rightarrow> None)"

definition band_of :: "series \<Rightarrow> jobj option \<Rightarrow> band option" where
  "band_of s profile =
     (case (ser_operational_min s, ser_operational_max s) of
        (Some lo, Some hi) \<Rightarrow> Some (Band lo hi ''metadata'')
      | _ \<Rightarrow>
          (case profile of
             None \<Rightarrow> None
           | Some p \<Rightarrow>
               (case (profile_number p ''p001'', profile_number p ''p999'', profile_number p ''mad'') of
                  (Some lo, Some hi, Some mad) \<Rightarrow> Some (Band (lo - BAND_K * mad) (hi + BAND_K * mad) ''profile'')
                | _ \<Rightarrow> None)))"

section \<open>ETags\<close>

definition extent_version :: "'r chart_env \<Rightarrow> extent \<Rightarrow> string" where
  "extent_version C x =
     ce_isoformat C (Max (set (map cr_written_at (ex_ranges x)))) @ '':'' @ int_str (ex_rows x) @ '':'' @ nat_str (length (ex_ranges x))"

definition window_str :: "(ns \<times> ns) option \<Rightarrow> string" where
  "window_str w = (case w of None \<Rightarrow> ''None'' | Some (a, b) \<Rightarrow> ''('' @ int_str a @ '', '' @ int_str b @ '')'')"

definition etag :: "'r chart_env \<Rightarrow> string list \<Rightarrow> string" where
  "etag C parts = ''\"'' @ take 32 (ce_digest C (join_with ''|'' parts)) @ ''\"''"

section \<open>Routes\<close>

definition series_or_404 :: "text_readers \<Rightarrow> db \<Rightarrow> scope \<Rightarrow> string \<Rightarrow> refusal + series" where
  "series_or_404 R d sc series_id = expect (Option.bind (tr_uuid R series_id) (get_series d sc)) (404, ''series not found'')"

definition list_series_route :: "text_readers \<Rightarrow> db \<Rightarrow> scope \<Rightarrow> series_filter \<Rightarrow> string option \<Rightarrow> int \<Rightarrow> (string \<times> uuid) option \<Rightarrow>
    refusal + (series \<times> series_stats option) list \<times> (string \<times> uuid) option" where
  "list_series_route R d sc q source_id limit cursor =
     rbind (require (1 \<le> limit \<and> limit \<le> 500 \<and> length (given (qf_q q)) \<le> 256 \<and> length (given (qf_unit q)) \<le> 32 \<and>
         (case qf_score_max q of None \<Rightarrow> True | Some m \<Rightarrow> 0 \<le> m \<and> m \<le> 100)) (422, ''query'')) (\<lambda>_.
     rbind (uuid_or_422 R source_id ''source_id'') (\<lambda>source.
       (let q' = q\<lparr>qf_source_id := source, qf_q := (if given (qf_q q) = [] then None else qf_q q), qf_unit := (if given (qf_unit q) = [] then None else qf_unit q)\<rparr>;
            (rows, next_cursor) = list_series d sc q' (nat limit) cursor; stats = stats_of d (map ser_id rows)
        in Inr (map (\<lambda>s. (s, map_of stats (ser_id s))) rows, next_cursor))))"

definition get_series_route :: "text_readers \<Rightarrow> db \<Rightarrow> scope \<Rightarrow> string \<Rightarrow> refusal + series \<times> series_stats option" where
  "get_series_route R d sc series_id =
     rbind (series_or_404 R d sc series_id) (\<lambda>s. Inr (s, map_of (stats_of d [ser_id s]) (ser_id s)))"

definition list_metrics_route :: "text_readers \<Rightarrow> db \<Rightarrow> scope \<Rightarrow> string \<Rightarrow> string option \<Rightarrow> string option \<Rightarrow> string option \<Rightarrow> int \<Rightarrow> refusal + metric list" where
  "list_metrics_route R d sc series_id name since before limit =
     rbind (require (1 \<le> limit \<and> limit \<le> 1000 \<and> length (given name) \<le> 128) (422, ''query'')) (\<lambda>_.
     rbind (series_or_404 R d sc series_id) (\<lambda>s.
     rbind (time_or_422 R since ''since'') (\<lambda>a.
     rbind (time_or_422 R before ''until'') (\<lambda>b.
       Inr (list_metrics d (ser_id s) name a b (nat limit))))))"

definition list_scores_route :: "text_readers \<Rightarrow> db \<Rightarrow> scope \<Rightarrow> string \<Rightarrow> int \<Rightarrow> string option \<Rightarrow> refusal + score list" where
  "list_scores_route R d sc series_id limit in_run =
     rbind (require (1 \<le> limit \<and> limit \<le> 500) (422, ''limit'')) (\<lambda>_.
     rbind (series_or_404 R d sc series_id) (\<lambda>s.
     rbind (uuid_or_422 R in_run ''run_id'') (\<lambda>r.
       Inr (list_scores d (ser_id s) (nat limit) r))))"

definition window_or_422 :: "text_readers \<Rightarrow> string option \<Rightarrow> string option \<Rightarrow> refusal + (ns \<times> ns) option" where
  "window_or_422 R start end =
     (case (start, end) of
        (None, None) \<Rightarrow> Inr None
      | (Some a, Some b) \<Rightarrow>
          (case (parse_time_ns (tr_iso R) a, parse_time_ns (tr_iso R) b) of
             (Inr x, Inr y) \<Rightarrow>
               if to_core_ns y \<le> to_core_ns x then Inl (422, ''to must be later than from'') else Inr (Some (to_core_ns x, to_core_ns y))
           | (Inl e, _) \<Rightarrow> Inl (422, ''from/to: '' @ e)
           | (_, Inl e) \<Rightarrow> Inl (422, ''from/to: '' @ e))
      | _ \<Rightarrow> Inl (422, ''give both from and to, or neither''))"

definition checked_window :: "extent option \<Rightarrow> (extent \<Rightarrow> ns \<times> ns) \<Rightarrow> (ns \<times> ns) option \<Rightarrow> int \<Rightarrow> refusal + (ns \<times> ns) option" where
  "checked_window x fallback requested most =
     (let w = (case requested of Some w \<Rightarrow> Some w | None \<Rightarrow> map_option fallback x) in
      case w of None \<Rightarrow> Inr None | Some win \<Rightarrow> rbind (check_size x win most) (\<lambda>_. Inr (Some win)))"

record chart_out =
  co_window :: "(ns \<times> ns) option"
  co_extent :: "(ns \<times> ns) option"
  co_width :: int
  co_points :: chart_points
  co_etag :: string

datatype chart_answer = ChartOut chart_out | NotModified string

definition get_chart :: "text_readers \<Rightarrow> 'r chart_env \<Rightarrow> settings \<Rightarrow> db \<Rightarrow> scope \<Rightarrow> string \<Rightarrow> string option \<Rightarrow> string option \<Rightarrow> int \<Rightarrow>
    string option \<Rightarrow> refusal + chart_answer" where
  "get_chart R C st d sc series_id start end width_px if_none_match =
     rbind (require (100 \<le> width_px \<and> width_px \<le> 4000) (422, ''width_px'')) (\<lambda>_.
     rbind (series_or_404 R d sc series_id) (\<lambda>s.
     rbind (window_or_422 R start end) (\<lambda>requested.
       (let x = extent_of d (ser_id s) RAW_LAYER in
        rbind (checked_window x default_chart_window requested (st_chart_max_rows st)) (\<lambda>w.
          (let tag = etag C [''chart'', uuid_str (ser_id s), RAW_LAYER, window_str w, int_str width_px,
                 (case x of None \<Rightarrow> ''None'' | Some e \<Rightarrow> extent_version C e), ce_str C (ser_updated_at s)] in
           if if_none_match = Some tag then Inr (NotModified tag)
           else rbind (read_or_503 C s w) (\<lambda>batch.
             Inr (ChartOut \<lparr>co_window = w, co_extent = map_option (\<lambda>e. (ex_start e, ex_end e)) x, co_width = width_px,
               co_points = (case w of None \<Rightarrow> no_points | Some win \<Rightarrow> chart_points_of C batch win width_px (ser_expected_interval_ns s)),
               co_etag = tag\<rparr>))))))))"

record profile_out =
  po_window :: "(ns \<times> ns) option"
  po_profile :: "jobj option"
  po_quality_counts :: "(string \<times> nat) list"
  po_band :: "band option"

definition get_profile :: "text_readers \<Rightarrow> 'r chart_env \<Rightarrow> settings \<Rightarrow> db \<Rightarrow> scope \<Rightarrow> string \<Rightarrow> string option \<Rightarrow> string option \<Rightarrow> refusal + profile_out" where
  "get_profile R C st d sc series_id start end =
     rbind (series_or_404 R d sc series_id) (\<lambda>s.
     rbind (window_or_422 R start end) (\<lambda>requested.
     rbind (checked_window (extent_of d (ser_id s) RAW_LAYER) default_profile_window requested (st_chart_max_rows st)) (\<lambda>w.
     rbind (read_or_503 C s w) (\<lambda>batch.
       (let profile = window_profile C batch (ser_id s) in
        Inr \<lparr>po_window = w, po_profile = profile, po_quality_counts = quality_counts C batch, po_band = band_of s profile\<rparr>)))))"

section \<open>Facts\<close>

text \<open>An extent as the coverage of a series gives it: no range is empty or without its rows.\<close>

definition ranges_ok :: "extent \<Rightarrow> bool" where
  "ranges_ok x \<longleftrightarrow> ex_ranges x \<noteq> [] \<and> (\<forall>r \<in> set (ex_ranges x). cr_start r < cr_end r \<and> 0 \<le> cr_rows r \<and> ex_start x \<le> cr_start r \<and> cr_end r \<le> ex_end x) \<and>
     ex_rows x = sum_list (map cr_rows (ex_ranges x))"

lemma range_share_mono:
  assumes "cr_start r < cr_end r" "0 \<le> cr_rows r" "a' \<le> a" "b \<le> b'"
  shows "range_share a b r \<le> range_share a' b' r"
proof -
  have common: "min (cr_end r) b - max (cr_start r) a \<le> min (cr_end r) b' - max (cr_start r) a'" using assms(3,4) by simp
  show ?thesis
  proof (cases "min (cr_end r) b - max (cr_start r) a \<le> 0")
    case True
    then have "range_share a b r = 0" by (simp add: range_share_def)
    moreover have "0 \<le> range_share a' b' r" using assms(1,2) unfolding range_share_def Let_def
      by (auto intro!: divide_nonneg_nonneg mult_nonneg_nonneg simp del: of_int_mult of_int_diff) (simp_all add: not_le)
    ultimately show ?thesis by simp
  next
    case False
    have "cr_rows r * (min (cr_end r) b - max (cr_start r) a) \<le> cr_rows r * (min (cr_end r) b' - max (cr_start r) a')"
      using common assms(2) by (rule mult_left_mono)
    then show ?thesis using False common assms(1) unfolding range_share_def Let_def
      by (auto intro!: divide_right_mono simp del: of_int_mult)
  qed
qed

text \<open>A wider window never has a smaller estimate, and the whole extent has exactly the recorded rows.\<close>

lemma estimate_mono:
  assumes "ranges_ok x" "a' \<le> a" "b \<le> b'"
  shows "estimate_rows x a b \<le> estimate_rows x a' b'"
  unfolding estimate_rows_def using assms by (intro ceiling_mono sum_list_mono) (auto simp: ranges_ok_def intro: range_share_mono)

lemma of_int_rows: "(\<Sum>r\<leftarrow>rs. rat_of_int (cr_rows r)) = of_int (sum_list (map cr_rows rs))"
  by (induction rs) simp_all

lemma estimate_whole:
  assumes "ranges_ok x"
  shows "estimate_rows x (ex_start x) (ex_end x) = ex_rows x"
proof -
  have "range_share (ex_start x) (ex_end x) r = of_int (cr_rows r)" if "r \<in> set (ex_ranges x)" for r
    using assms that by (auto simp: ranges_ok_def range_share_def Let_def min_def max_def)
  then have "sum_list (map (range_share (ex_start x) (ex_end x)) (ex_ranges x)) = (\<Sum>r\<leftarrow>ex_ranges x. rat_of_int (cr_rows r))"
    by (intro arg_cong [where f = sum_list] map_cong) auto
  then have "sum_list (map (range_share (ex_start x) (ex_end x)) (ex_ranges x)) = of_int (sum_list (map cr_rows (ex_ranges x)))"
    using of_int_rows [of "ex_ranges x"] by (rule trans)
  then show ?thesis using assms by (simp add: estimate_rows_def ranges_ok_def)
qed

text \<open>What the coverage table yields is such an extent, when its rows are ranges with a count.\<close>

lemma extent_ok:
  assumes "extent_of d i layer = Some x" "list_all (\<lambda>c. cov_range_start c < cov_range_end c \<and> 0 \<le> cov_rows c) (coverages d)"
  shows "ranges_ok x"
proof -
  let ?rs = "stored_ranges d i layer"
  have x: "?rs \<noteq> []" "x = \<lparr>ex_start = Min (set (map cr_start ?rs)), ex_end = Max (set (map cr_end ?rs)), ex_rows = sum_list (map cr_rows ?rs), ex_ranges = ?rs\<rparr>"
    using assms(1) by (auto simp: extent_of_def Let_def split: if_split_asm)
  have "\<forall>r \<in> set ?rs. cr_start r < cr_end r \<and> 0 \<le> cr_rows r"
    using assms(2) by (auto simp: stored_ranges_def list_all_iff datetime_to_ns_def)
  then show ?thesis using x by (auto simp: ranges_ok_def)
qed

text \<open>The window a chart or profile reads is not empty, is the one asked for or lies at the end of the extent, and is
  estimated within the limit.\<close>

lemma checked_window_bounded:
  assumes "checked_window x fallback requested most = Inr (Some w)" "x = Some e"
  shows "estimate_rows e (fst w) (snd w) \<le> most" "w = (case requested of Some r \<Rightarrow> r | None \<Rightarrow> fallback e)"
  using assms by (auto simp: checked_window_def Let_def check_size_def rbind_eq_Inr split: option.split_asm option.splits)

lemma default_windows:
  assumes "ranges_ok x"
  shows "ex_start x \<le> fst (default_chart_window x) \<and> fst (default_chart_window x) < snd (default_chart_window x) \<and> snd (default_chart_window x) = ex_end x"
    and "ex_start x \<le> fst (default_profile_window x) \<and> fst (default_profile_window x) < snd (default_profile_window x) \<and> snd (default_profile_window x) = ex_end x"
proof -
  obtain r where "r \<in> set (ex_ranges x)" using assms by (cases "ex_ranges x") (auto simp: ranges_ok_def)
  then have "ex_start x < ex_end x" using assms by (force simp: ranges_ok_def)
  then show "ex_start x \<le> fst (default_chart_window x) \<and> fst (default_chart_window x) < snd (default_chart_window x) \<and> snd (default_chart_window x) = ex_end x"
    "ex_start x \<le> fst (default_profile_window x) \<and> fst (default_profile_window x) < snd (default_profile_window x) \<and> snd (default_profile_window x) = ex_end x"
    by (auto simp: default_chart_window_def default_profile_window_def DEFAULT_RECENT_NS_def PROFILE_WINDOW_NS_def)
qed

lemma requested_window:
  "window_or_422 R start end = Inr (Some w) \<Longrightarrow> fst w < snd w \<and> CORE_NS_MIN \<le> fst w \<and> snd w \<le> CORE_NS_MAX"
  by (auto simp: window_or_422_def to_core_ns_def CORE_NS_MIN_def CORE_NS_MAX_def split: option.split_asm sum.split_asm if_split_asm)

text \<open>The counts of a profile are of its samples, each counted once.\<close>

lemma quality_counts_total: "sum_list (map snd (quality_counts C (Some rows))) \<le> length rows"
proof (induction rows)
  case (Cons r rows)
  then show ?case by (auto simp: quality_counts_def QUALITY_CODES_def)
qed (simp add: quality_counts_def QUALITY_CODES_def)

text \<open>A chart is of a series of the caller's workspace, over a window that is not empty and estimated within the limit, from
  exactly the rows of that window.\<close>

lemma chart_is_bounded:
  assumes "get_chart R C st d sc series_id start end width_px tag = Inr (ChartOut out)"
    and "list_all (\<lambda>c. cov_range_start c < cov_range_end c \<and> 0 \<le> cov_rows c) (coverages d)" "co_window out = Some w"
  shows "fst w < snd w \<and> (\<exists>s \<in> set (all_series d). ser_workspace_id s = sc_workspace sc \<and>
      (\<forall>x. extent_of d (ser_id s) RAW_LAYER = Some x \<longrightarrow> estimate_rows x (fst w) (snd w) \<le> st_chart_max_rows st) \<and>
      (\<exists>rows. ce_read C (ser_source_id s) (ser_id s) (fst w) (snd w) = Inr rows \<and>
         co_points out = (if rows = [] then no_points else ce_chart C rows (fst w) (snd w) width_px (ser_expected_interval_ns s))))"
proof -
  obtain s requested w' batch where s: "series_or_404 R d sc series_id = Inr s" and asked: "window_or_422 R start end = Inr requested"
    and checked: "checked_window (extent_of d (ser_id s) RAW_LAYER) default_chart_window requested (st_chart_max_rows st) = Inr w'"
    and read: "read_or_503 C s w' = Inr batch"
    and out: "co_window out = w'" "co_points out = (case w' of None \<Rightarrow> no_points | Some win \<Rightarrow> chart_points_of C batch win width_px (ser_expected_interval_ns s))"
    using assms(1) by (auto simp: get_chart_def rbind_eq_Inr Let_def split: if_split_asm)
  have w: "w' = Some w" using out(1) assms(3) by simp
  obtain i where "get_series d sc i = Some s" using s by (auto simp: series_or_404_def bind_eq_Some_conv)
  then have mine: "s \<in> set (all_series d)" "ser_workspace_id s = sc_workspace sc" by (auto simp: get_series_def dest!: find_SomeD)
  have "fst w < snd w"
  proof (cases requested)
    case (Some r)
    then have "w = r" using checked w by (auto simp: checked_window_def rbind_eq_Inr)
    then show ?thesis using requested_window asked Some by blast
  next
    case None
    then obtain x where x: "extent_of d (ser_id s) RAW_LAYER = Some x" "w = default_chart_window x"
      using checked w by (auto simp: checked_window_def rbind_eq_Inr split: option.split_asm)
    show ?thesis unfolding x(2) using default_windows(1) [OF extent_ok [OF x(1) assms(2)]] by simp
  qed
  moreover have "estimate_rows x (fst w) (snd w) \<le> st_chart_max_rows st" if "extent_of d (ser_id s) RAW_LAYER = Some x" for x
    by (rule checked_window_bounded(1) [OF checked [unfolded w] that])
  moreover obtain rows where "ce_read C (ser_source_id s) (ser_id s) (fst w) (snd w) = Inr rows" "batch = (if rows = [] then None else Some rows)"
    using read w by (auto simp: read_or_503_def read_window_def split: sum.split_asm)
  moreover from this have "co_points out = (if rows = [] then no_points else ce_chart C rows (fst w) (snd w) width_px (ser_expected_interval_ns s))"
    using out(2) w by (simp add: chart_points_of_def)
  ultimately show ?thesis using mine by blast
qed

end
