(* ===== verification/Datasets.thy ===== *)
theory Datasets
  imports Timeparse Pagination
begin

text \<open>
  \<^verbatim>\<open>services/datasets.py\<close>: the series and the window policy of a dataset, validated on every
  write.  A stored policy with fixed bounds keeps its instants (the code stores their ISO text).
\<close>

section \<open>Durations and windows\<close>

definition MIN_SERIES :: nat where "MIN_SERIES = 1"
definition MAX_SERIES :: nat where "MAX_SERIES = 500"
definition MIN_LAST :: int where "MIN_LAST = 3600 * 1000000"
definition MAX_LAST :: int where "MAX_LAST = 400 * 86400 * 1000000"

text \<open>The offending field; the message is for people.\<close>

datatype dataset_error = DatasetError string

definition unit_us :: "char \<Rightarrow> int option" where
  "unit_us c = (if c = CHR ''m'' then Some (60 * 1000000) else if c = CHR ''h'' then Some (3600 * 1000000)
     else if c = CHR ''d'' then Some (86400 * 1000000) else if c = CHR ''w'' then Some (7 * 86400 * 1000000) else None)"

text \<open>\<^verbatim>\<open>^(\d{1,6})(m|h|d|w)$\<close>, then the bounds.\<close>

definition parse_last :: "string \<Rightarrow> dataset_error + int" where
  "parse_last value =
     (let s = strip value; ds = butlast s
      in if s = [] \<or> ds = [] \<or> 6 < length ds \<or> \<not> (\<forall>c \<in> set ds. is_digit c) then Inl (DatasetError ''window'')
         else case unit_us (last s) of
             None \<Rightarrow> Inl (DatasetError ''window'')
           | Some u \<Rightarrow> if MIN_LAST \<le> int (dec_val ds) * u \<and> int (dec_val ds) * u \<le> MAX_LAST
               then Inr (int (dec_val ds) * u) else Inl (DatasetError ''window''))"

definition check_core_range :: "ns \<Rightarrow> ns \<Rightarrow> dataset_error + unit" where
  "check_core_range start_ns end_ns =
     require (\<not> (CORE_NS_MAX < start_ns \<or> end_ns \<le> CORE_NS_MIN)) (DatasetError ''window'')"

record window_request =
  wr_start :: "string option"
  wr_end :: "string option"
  wr_last :: "string option"

definition as_window_error :: "string + 'a \<Rightarrow> dataset_error + 'a" where
  "as_window_error r = (case r of Inl _ \<Rightarrow> Inl (DatasetError ''window'') | Inr x \<Rightarrow> Inr x)"

definition check_window_policy :: "iso_parser \<Rightarrow> window_request \<Rightarrow> dataset_error + window_policy" where
  "check_window_policy fromiso w =
     (case (wr_start w, wr_end w, wr_last w) of
        (None, None, Some l) \<Rightarrow> rbind (parse_last (strip l)) (\<lambda>_. Inr (PolicyLast (strip l)))
      | (Some s, Some e, None) \<Rightarrow>
          rbind (as_window_error (parse_time fromiso s)) (\<lambda>start.
          rbind (as_window_error (parse_time fromiso e)) (\<lambda>end.
          rbind (require (start < end) (DatasetError ''window'')) (\<lambda>_.
          rbind (as_window_error (parse_time_ns fromiso s)) (\<lambda>start_ns.
          rbind (as_window_error (parse_time_ns fromiso e)) (\<lambda>end_ns.
          rbind (check_core_range start_ns end_ns) (\<lambda>_.
          rbind (check_core_range (datetime_to_ns start) (datetime_to_ns end)) (\<lambda>_.
            Inr (PolicyFixed start end))))))))
      | _ \<Rightarrow> Inl (DatasetError ''window''))"

definition resolve_window :: "window_policy \<Rightarrow> datetime \<Rightarrow> dataset_error + datetime \<times> datetime" where
  "resolve_window p now =
     (case p of
        PolicyLast l \<Rightarrow> rbind (parse_last l) (\<lambda>width.
          if now - width < MIN_DATETIME then Inl (DatasetError ''window'') else Inr (now - width, now))
      | PolicyFixed start end \<Rightarrow> Inr (start, end))"

section \<open>Datasets\<close>

definition validated_series :: "db \<Rightarrow> scope \<Rightarrow> uuid list \<Rightarrow> dataset_error + uuid list" where
  "validated_series d sc ids =
     rbind (require (MIN_SERIES \<le> length ids \<and> length ids \<le> MAX_SERIES) (DatasetError ''series_ids'')) (\<lambda>_.
     rbind (require (distinct ids) (DatasetError ''series_ids'')) (\<lambda>_.
     rbind (require (\<forall>i \<in> set ids. \<exists>s \<in> set (all_series d). ser_id s = i \<and> ser_workspace_id s = sc_workspace sc)
              (DatasetError ''series_ids'')) (\<lambda>_.
       Inr ids)))"

definition replace_dataset_series :: "db \<Rightarrow> scope \<Rightarrow> uuid \<Rightarrow> uuid list \<Rightarrow> db" where
  "replace_dataset_series d sc i ids =
     d\<lparr>dataset_series_rows := delete_where (\<lambda>r. dss_dataset_id r = i) (dataset_series_rows d) @
        map (\<lambda>s. \<lparr>dss_org_id = sc_org sc, dss_dataset_id = i, dss_series_id = s\<rparr>) ids\<rparr>"

definition create_dataset :: "db \<Rightarrow> iso_parser \<Rightarrow> scope \<Rightarrow> string \<Rightarrow> uuid list \<Rightarrow> window_request \<Rightarrow> uuid \<Rightarrow> datetime
    \<Rightarrow> dataset_error + db \<times> dataset" where
  "create_dataset d fromiso sc name series_ids w new_id now =
     rbind (check_window_policy fromiso w) (\<lambda>policy.
     rbind (validated_series d sc series_ids) (\<lambda>ids.
       let x = \<lparr>ds_org_id = sc_org sc, ds_workspace_id = sc_workspace sc, ds_id = new_id, ds_name = name,
                ds_selection = [], ds_window_policy = policy, ds_created_at = now\<rparr>
       in Inr (replace_dataset_series (d\<lparr>datasets := datasets d @ [x]\<rparr>) sc new_id ids, x)))"

definition get_dataset :: "db \<Rightarrow> scope \<Rightarrow> uuid \<Rightarrow> dataset option" where
  "get_dataset d sc i =
     (case List.find (\<lambda>x. ds_id x = i) (datasets d) of
        None \<Rightarrow> None
      | Some x \<Rightarrow> if ds_workspace_id x = sc_workspace sc then Some x else None)"

definition series_of :: "db \<Rightarrow> uuid \<Rightarrow> (uuid \<times> string) list" where
  "series_of d i =
     sort_key snd (concat (map (\<lambda>r. map (\<lambda>s. (ser_id s, ser_external_id s))
        (filter (\<lambda>s. ser_id s = dss_series_id r) (all_series d)))
       (filter (\<lambda>r. dss_dataset_id r = i) (dataset_series_rows d))))"

definition dataset_key :: "dataset \<Rightarrow> datetime \<times> uuid" where
  "dataset_key x = (ds_created_at x, ds_id x)"

definition list_datasets :: "db \<Rightarrow> scope \<Rightarrow> nat \<Rightarrow> (datetime \<times> uuid) option \<Rightarrow> dataset list \<times> (datetime \<times> uuid) option" where
  "list_datasets d sc limit cursor =
     newest_page dataset_key limit cursor (filter (\<lambda>x. ds_workspace_id x = sc_workspace sc) (datasets d))"

interpretation dataset_pages: keyset_listing dataset_key "\<lambda>a b. b < a" "newest_first dataset_key"
  by (rule newest_first_listing)

text \<open>A requested change: \<open>None\<close> for a field the request leaves out.\<close>

record dataset_changes =
  dc_window :: "window_request option"
  dc_series_ids :: "uuid list option"
  dc_name :: "string option"

definition patch_dataset :: "db \<Rightarrow> iso_parser \<Rightarrow> scope \<Rightarrow> uuid \<Rightarrow> dataset_changes \<Rightarrow> dataset_error + (db \<times> dataset) option" where
  "patch_dataset d fromiso sc i ch =
     (case get_dataset d sc i of
        None \<Rightarrow> Inr None
      | Some x \<Rightarrow>
          rbind (case dc_window ch of None \<Rightarrow> Inr (ds_window_policy x) | Some w \<Rightarrow> check_window_policy fromiso w) (\<lambda>policy.
          rbind (case dc_series_ids ch of None \<Rightarrow> Inr d
                 | Some ids \<Rightarrow> rbind (validated_series d sc ids) (\<lambda>ids'. Inr (replace_dataset_series d sc i ids'))) (\<lambda>d1.
            let x' = x\<lparr>ds_window_policy := policy, ds_name := (case dc_name ch of None \<Rightarrow> ds_name x | Some n \<Rightarrow> n)\<rparr>
            in Inr (Some (d1\<lparr>datasets := update_where (\<lambda>y. ds_id y = i) (\<lambda>_. x') (datasets d1)\<rparr>, x')))))"

text \<open>Deleting cascades to the series list; the runs keep no reference.\<close>

definition delete_dataset :: "db \<Rightarrow> scope \<Rightarrow> uuid \<Rightarrow> db \<times> bool" where
  "delete_dataset d sc i =
     (case get_dataset d sc i of
        None \<Rightarrow> (d, False)
      | Some _ \<Rightarrow>
          (d\<lparr>datasets := delete_where (\<lambda>y. ds_id y = i) (datasets d),
             dataset_series_rows := delete_where (\<lambda>r. dss_dataset_id r = i) (dataset_series_rows d),
             runs := update_where (\<lambda>r. run_dataset_id r = Some i) (\<lambda>r. r\<lparr>run_dataset_id := None\<rparr>) (runs d)\<rparr>, True))"

section \<open>Facts\<close>

lemma parse_last_Inr: "parse_last v = Inr width \<Longrightarrow> MIN_LAST \<le> width \<and> width \<le> MAX_LAST"
  by (auto simp: parse_last_def Let_def split: if_splits option.splits)

text \<open>A policy that holds an instant of the core, at every time it is resolved.\<close>

definition policy_ok :: "window_policy \<Rightarrow> bool" where
  "policy_ok p =
     (case p of
        PolicyLast l \<Rightarrow> \<not> isl (parse_last l)
      | PolicyFixed start end \<Rightarrow> start < end \<and> \<not> isl (check_core_range (datetime_to_ns start) (datetime_to_ns end)))"

lemma check_window_policy_ok: "check_window_policy fromiso w = Inr p \<Longrightarrow> policy_ok p"
  by (auto simp: check_window_policy_def policy_ok_def result_simps check_core_range_def split: option.splits)

definition dataset_members :: "db \<Rightarrow> uuid \<Rightarrow> uuid list" where
  "dataset_members d i = map dss_series_id (filter (\<lambda>r. dss_dataset_id r = i) (dataset_series_rows d))"

text \<open>Every dataset has 1 to 500 distinct series of its workspace and a policy that resolves.\<close>

definition datasets_ok :: "db \<Rightarrow> bool" where
  "datasets_ok d \<longleftrightarrow> uniq_key ds_id (datasets d) \<and>
     (\<forall>r \<in> set (dataset_series_rows d). \<exists>x \<in> set (datasets d). ds_id x = dss_dataset_id r) \<and>
     (\<forall>x \<in> set (datasets d). policy_ok (ds_window_policy x) \<and>
        (let ids = dataset_members d (ds_id x)
         in MIN_SERIES \<le> length ids \<and> length ids \<le> MAX_SERIES \<and> distinct ids \<and>
            (\<forall>i \<in> set ids. \<exists>s \<in> set (all_series d). ser_id s = i \<and> ser_workspace_id s = ds_workspace_id x)))"

definition members_valid :: "db \<Rightarrow> uuid \<Rightarrow> uuid list \<Rightarrow> bool" where
  "members_valid d w ids \<longleftrightarrow> MIN_SERIES \<le> length ids \<and> length ids \<le> MAX_SERIES \<and> distinct ids \<and>
     (\<forall>i \<in> set ids. \<exists>s \<in> set (all_series d). ser_id s = i \<and> ser_workspace_id s = w)"

lemma validated_series_Inr: "validated_series d sc ids = Inr ids' \<longleftrightarrow> ids' = ids \<and> members_valid d (sc_workspace sc) ids"
  by (auto simp: validated_series_def result_simps members_valid_def)

lemma dataset_members_replace:
  "dataset_members (replace_dataset_series d sc i ids) j = (if j = i then ids else dataset_members d j)"
  by (simp add: dataset_members_def replace_dataset_series_def delete_where_def comp_def filter_map)
    (auto intro!: arg_cong [where f = "map dss_series_id"] filter_cong)

lemma datasets_ok_alt:
  "datasets_ok d \<longleftrightarrow> uniq_key ds_id (datasets d) \<and>
     (\<forall>r \<in> set (dataset_series_rows d). \<exists>x \<in> set (datasets d). ds_id x = dss_dataset_id r) \<and>
     (\<forall>x \<in> set (datasets d). policy_ok (ds_window_policy x) \<and> members_valid d (ds_workspace_id x) (dataset_members d (ds_id x)))"
  by (auto simp: datasets_ok_def members_valid_def Let_def)

lemma members_valid_cong: "all_series d' = all_series d \<Longrightarrow> members_valid d' w ids = members_valid d w ids"
  by (simp add: members_valid_def)

lemma replace_frames [simp]:
  "datasets (replace_dataset_series d sc i ids) = datasets d" "all_series (replace_dataset_series d sc i ids) = all_series d"
  by (simp_all add: replace_dataset_series_def)

lemma get_datasetD: "get_dataset d sc i = Some x \<Longrightarrow> x \<in> set (datasets d) \<and> ds_id x = i \<and> ds_workspace_id x = sc_workspace sc"
  unfolding get_dataset_def by (auto split: option.splits if_splits dest: find_SomeD)

lemma dataset_create_keeps:
  assumes ok: "datasets_ok d" and fresh: "new_id \<notin> ds_id ` set (datasets d)"
    and run: "create_dataset d fromiso sc name ids w new_id now = Inr (d', x)"
  shows "datasets_ok d'"
proof -
  from run obtain p where p: "policy_ok p" and v: "members_valid d (sc_workspace sc) ids"
    and x: "x = \<lparr>ds_org_id = sc_org sc, ds_workspace_id = sc_workspace sc, ds_id = new_id, ds_name = name,
                ds_selection = [], ds_window_policy = p, ds_created_at = now\<rparr>"
    and d': "d' = replace_dataset_series (d\<lparr>datasets := datasets d @ [x]\<rparr>) sc new_id ids"
    by (auto simp: create_dataset_def result_simps validated_series_Inr Let_def dest: check_window_policy_ok)
  have m: "dataset_members d' i = (if i = new_id then ids else dataset_members d i)" for i
    unfolding d' dataset_members_replace by (simp add: dataset_members_def)
  have a: "all_series d' = all_series d" "datasets d' = datasets d @ [x]" by (simp_all add: d')
  have "dss_dataset_id r = new_id \<or> r \<in> set (dataset_series_rows d)" if "r \<in> set (dataset_series_rows d')" for r
    using that by (auto simp: d' replace_dataset_series_def)
  then show ?thesis using ok fresh p v
    by (auto simp: datasets_ok_alt a m x members_valid_cong [OF a(1)])
qed

lemma dataset_patch_keeps:
  assumes ok: "datasets_ok d" and run: "patch_dataset d fromiso sc i ch = Inr (Some (d', x'))"
  shows "datasets_ok d'"
proof -
  obtain x where g: "get_dataset d sc i = Some x" using run by (cases "get_dataset d sc i") (auto simp: patch_dataset_def)
  from run g obtain p d1 where p: "(case dc_window ch of None \<Rightarrow> Inr (ds_window_policy x) | Some w \<Rightarrow> check_window_policy fromiso w) = Inr p"
    and d1: "(case dc_series_ids ch of None \<Rightarrow> Inr d
                 | Some ids \<Rightarrow> rbind (validated_series d sc ids) (\<lambda>ids'. Inr (replace_dataset_series d sc i ids'))) = Inr d1"
    and x': "x' = x\<lparr>ds_window_policy := p, ds_name := (case dc_name ch of None \<Rightarrow> ds_name x | Some n \<Rightarrow> n)\<rparr>"
    and d': "d' = d1\<lparr>datasets := update_where (\<lambda>y. ds_id y = i) (\<lambda>_. x') (datasets d1)\<rparr>"
    unfolding patch_dataset_def g option.case rbind_eq_Inr Let_def by blast
  note gx = get_datasetD [OF g]
  have pol: "policy_ok p" using p ok gx by (auto simp: datasets_ok_alt split: option.splits dest: check_window_policy_ok)
  have dd: "datasets d1 = datasets d" "all_series d1 = all_series d"
    using d1 by (auto simp: result_simps split: option.splits)
  have mem: "members_valid d (sc_workspace sc) (dataset_members d1 i)" "\<And>j. j \<noteq> i \<Longrightarrow> dataset_members d1 j = dataset_members d j"
    using d1 ok gx by (auto simp: result_simps validated_series_Inr dataset_members_replace datasets_ok_alt split: option.splits)
  have rows: "dss_dataset_id r = i \<or> r \<in> set (dataset_series_rows d)" if "r \<in> set (dataset_series_rows d1)" for r
    using that d1 by (auto simp: result_simps replace_dataset_series_def split: option.splits)
  have uk: "uniq_key ds_id (update_where (\<lambda>y. ds_id y = i) (\<lambda>_. x') (datasets d))"
    using ok gx by (intro uniq_key_update_where) (auto simp: datasets_ok_alt x')
  have m: "dataset_members d' j = dataset_members d1 j" for j by (simp add: d' dataset_members_def)
  have a: "all_series d' = all_series d" "datasets d' = update_where (\<lambda>y. ds_id y = i) (\<lambda>_. x') (datasets d)"
    "dataset_series_rows d' = dataset_series_rows d1" by (simp_all add: d' dd)
  have keep: "\<exists>y \<in> set (datasets d'). ds_id y = j" if "\<exists>y \<in> set (datasets d). ds_id y = j" for j
  proof -
    from that obtain y where y: "y \<in> set (datasets d)" "ds_id y = j" by blast
    then have "(if ds_id y = i then x' else y) \<in> set (datasets d')" by (auto simp: a in_set_update_where)
    moreover have "ds_id (if ds_id y = i then x' else y) = j" using y gx by (simp add: x')
    ultimately show ?thesis by blast
  qed
  have fk: "\<forall>r \<in> set (dataset_series_rows d'). \<exists>y \<in> set (datasets d'). ds_id y = dss_dataset_id r"
  proof
    fix r assume "r \<in> set (dataset_series_rows d')"
    with rows a(3) have "dss_dataset_id r = i \<or> r \<in> set (dataset_series_rows d)" by simp
    then have "\<exists>y \<in> set (datasets d). ds_id y = dss_dataset_id r"
      using ok gx unfolding datasets_ok_alt by metis
    then show "\<exists>y \<in> set (datasets d'). ds_id y = dss_dataset_id r" by (rule keep)
  qed
  have "policy_ok (ds_window_policy y) \<and> members_valid d' (ds_workspace_id y) (dataset_members d' (ds_id y))"
    if y: "y \<in> set (datasets d')" for y
  proof (cases "y = x'")
    case True
    with pol mem(1) gx show ?thesis by (simp add: x' m members_valid_cong [OF a(1)])
  next
    case False
    with y have "y \<in> set (datasets d)" "ds_id y \<noteq> i" by (auto simp: a in_set_update_where split: if_splits)
    with ok mem(2) show ?thesis by (simp add: datasets_ok_alt m members_valid_cong [OF a(1)])
  qed
  with fk uk show ?thesis by (simp add: datasets_ok_alt a)
qed

lemma dataset_delete_keeps: "datasets_ok d \<Longrightarrow> datasets_ok (fst (delete_dataset d sc i))"
proof -
  assume ok: "datasets_ok d"
  have "dataset_members (fst (delete_dataset d sc i)) j = dataset_members d j" if "j \<noteq> i" for j
    using that by (auto simp: delete_dataset_def dataset_members_def delete_where_def
        intro!: arg_cong [where f = "map dss_series_id"] filter_cong split: option.splits)
  moreover have "all_series (fst (delete_dataset d sc i)) = all_series d" by (simp add: delete_dataset_def split: option.splits)
  moreover have "fst (delete_dataset d sc i) = d \<or>
      datasets (fst (delete_dataset d sc i)) = delete_where (\<lambda>y. ds_id y = i) (datasets d) \<and>
      dataset_series_rows (fst (delete_dataset d sc i)) = delete_where (\<lambda>r. dss_dataset_id r = i) (dataset_series_rows d)"
    by (simp add: delete_dataset_def split: option.splits)
  ultimately show ?thesis
  proof (elim disjE conjE)
    let ?d = "fst (delete_dataset d sc i)"
    assume m: "\<And>j. j \<noteq> i \<Longrightarrow> dataset_members ?d j = dataset_members d j" and a: "all_series ?d = all_series d"
      and x: "datasets ?d = delete_where (\<lambda>y. ds_id y = i) (datasets d)"
      and r: "dataset_series_rows ?d = delete_where (\<lambda>r. dss_dataset_id r = i) (dataset_series_rows d)"
    show ?thesis unfolding datasets_ok_alt x r members_valid_cong [OF a]
    proof (intro conjI ballI)
      show "uniq_key ds_id (delete_where (\<lambda>y. ds_id y = i) (datasets d))" using ok by (simp add: datasets_ok_alt)
      fix q assume "q \<in> set (delete_where (\<lambda>r. dss_dataset_id r = i) (dataset_series_rows d))"
      then have "q \<in> set (dataset_series_rows d)" "dss_dataset_id q \<noteq> i" by simp_all
      moreover from this obtain y where "y \<in> set (datasets d)" "ds_id y = dss_dataset_id q" using ok by (auto simp: datasets_ok_alt)
      ultimately show "\<exists>y \<in> set (delete_where (\<lambda>y. ds_id y = i) (datasets d)). ds_id y = dss_dataset_id q"
        by (intro bexI [of _ y]) auto
    next
      fix y assume "y \<in> set (delete_where (\<lambda>y. ds_id y = i) (datasets d))"
      then have "y \<in> set (datasets d)" "ds_id y \<noteq> i" by simp_all
      with ok m show "policy_ok (ds_window_policy y)" "members_valid d (ds_workspace_id y) (dataset_members ?d (ds_id y))"
        by (simp_all add: datasets_ok_alt)
    qed
  qed (use ok in simp)
qed

inductive dataset_step :: "db \<Rightarrow> db \<Rightarrow> bool" where
  step_create: "create_dataset d fromiso sc name ids w new_id now = Inr (d', x) \<Longrightarrow> new_id \<notin> ds_id ` set (datasets d) \<Longrightarrow>
    dataset_step d d'"
| step_patch: "patch_dataset d fromiso sc i ch = Inr (Some (d', x)) \<Longrightarrow> dataset_step d d'"
| step_delete: "delete_dataset d sc i = (d', b) \<Longrightarrow> dataset_step d d'"

inductive_cases dataset_stepE: "dataset_step d d'"

section \<open>Properties of datasets\<close>

text \<open>C21: whatever datasets are created, changed and deleted, every dataset keeps 1 to 500 distinct
  series, all of its own workspace, and a window policy that resolves; no series list is left without its
  dataset.\<close>

theorem datasets_stay_valid:
  assumes "dataset_step\<^sup>*\<^sup>* d d'" and "datasets_ok d"
  shows "datasets_ok d'"
  using assms
proof (induction rule: rtranclp_induct)
  case (step y z)
  from step.hyps(2) step.IH [OF step.prems] show ?case
    by (cases rule: dataset_step.cases) (blast intro: dataset_create_keeps dataset_patch_keeps, blast intro: dataset_patch_keeps, metis dataset_delete_keeps fst_conv)
qed

text \<open>C22: a window policy the API accepts resolves at every present time to a window that is not empty: a
  duration to the 1 hour to 400 days before now, fixed bounds to themselves, and fixed bounds hold an
  instant of the core's range, so that clamping them to it loses no more than what lies outside.\<close>

theorem accepted_policy_resolves:
  assumes "check_window_policy fromiso w = Inr p" and "MIN_DATETIME + MAX_LAST \<le> now"
  shows "\<exists>s e. resolve_window p now = Inr (s, e) \<and> s < e \<and>
    (\<forall>l. p = PolicyLast l \<longrightarrow> e = now \<and> MIN_LAST \<le> e - s \<and> e - s \<le> MAX_LAST) \<and>
    (\<forall>a b. p = PolicyFixed a b \<longrightarrow> (s, e) = (a, b) \<and>
       (\<exists>t. datetime_to_ns s \<le> t \<and> t < datetime_to_ns e \<and> CORE_NS_MIN \<le> t \<and> t \<le> CORE_NS_MAX))"
proof (cases p)
  case (PolicyLast l)
  with check_window_policy_ok [OF assms(1)] obtain n where n: "parse_last l = Inr n"
    by (cases "parse_last l") (auto simp: policy_ok_def)
  note b = parse_last_Inr [OF n]
  have "0 < MIN_LAST" by (simp add: MIN_LAST_def)
  with n b assms(2) PolicyLast show ?thesis by (auto simp: resolve_window_def)
next
  case (PolicyFixed a b)
  with check_window_policy_ok [OF assms(1)] have ab: "a < b" "datetime_to_ns a \<le> CORE_NS_MAX" "CORE_NS_MIN < datetime_to_ns b"
    by (auto simp: policy_ok_def check_core_range_def require_def split: if_splits)
  have "\<exists>t. datetime_to_ns a \<le> t \<and> t < datetime_to_ns b \<and> CORE_NS_MIN \<le> t \<and> t \<le> CORE_NS_MAX"
    by (rule exI [of _ "max (datetime_to_ns a) CORE_NS_MIN"])
      (use ab in \<open>auto simp: datetime_to_ns_def CORE_NS_MIN_def CORE_NS_MAX_def\<close>)
  with ab PolicyFixed show ?thesis by (simp add: resolve_window_def)
qed

section \<open>An example\<close>

definition ex_ds_series :: series where
  "ex_ds_series = \<lparr>ser_org_id = 1, ser_workspace_id = 2, ser_id = 7, ser_source_id = 5, ser_external_id = ''a'', ser_name = ''a'',
     ser_unit = None, ser_kind = KindMeasurement, ser_expected_interval_ns = None, ser_physical_min = None,
     ser_physical_max = None, ser_operational_min = None, ser_operational_max = None, ser_resolution = None,
     ser_non_negative = None, ser_asset_path = None, ser_metadata = [], ser_created_at = 0, ser_updated_at = 0\<rparr>"

definition ex_ddb :: db where "ex_ddb = empty_db\<lparr>all_series := [ex_ds_series]\<rparr>"

definition ex_window :: window_request where "ex_window = \<lparr>wr_start = None, wr_end = None, wr_last = Some ''7d''\<rparr>"

lemma ex_week: "parse_last ''7d'' = Inr (7 * 86400 * 1000000)" "strip ''7d'' = ''7d''"
  by code_simp+

lemma ex_policy: "check_window_policy fromiso ex_window = Inr (PolicyLast ''7d'')"
  by (simp add: check_window_policy_def ex_window_def ex_week)

theorem datasets_stay_valid_witness: "\<exists>d' x. dataset_step\<^sup>*\<^sup>* ex_ddb d' \<and> datasets d' = [x] \<and> datasets_ok d'"
proof -
  have "members_valid ex_ddb 2 [7]"
    by (simp add: members_valid_def ex_ddb_def ex_ds_series_def MIN_SERIES_def MAX_SERIES_def)
  then obtain d' x where r: "create_dataset ex_ddb (\<lambda>_. None) \<lparr>sc_org = 1, sc_workspace = 2\<rparr> ''n'' [7] ex_window 40 0 = Inr (d', x)"
      "datasets d' = datasets ex_ddb @ [x]"
    by (simp add: create_dataset_def ex_policy validated_series_def members_valid_def Let_def)
  have none: "datasets ex_ddb = []" "dataset_series_rows ex_ddb = []" by (simp_all add: ex_ddb_def empty_db_def)
  then have ok: "datasets_ok ex_ddb" by (simp add: datasets_ok_def)
  have "dataset_step ex_ddb d'" by (rule step_create [OF r(1)]) (simp add: none)
  then have s: "dataset_step\<^sup>*\<^sup>* ex_ddb d'" by blast
  from datasets_stay_valid [OF s ok] s r(2) none show ?thesis by auto
qed

theorem accepted_policy_resolves_witness:
  "\<exists>s e. resolve_window (PolicyLast ''7d'') 1767225600000000 = Inr (s, e) \<and> s < e"
  using accepted_policy_resolves [OF ex_policy, of 1767225600000000] by (auto simp: MIN_DATETIME_def MAX_LAST_def)

end
