(* ===== verification/Metadata_Import.thy ===== *)
theory Metadata_Import
  imports Series_Facts Fetch_Facts Admin
begin

text \<open>
  \<^verbatim>\<open>services/source_metadata.py\<close> and the source jobs of \<^verbatim>\<open>services/fetches.py\<close>
  (\<^verbatim>\<open>execute_task\<close>: check, point search, metadata import).  The text of an instant is the
  parameter \<open>isotext\<close>, the text of a float \<open>ft\<close>.
\<close>

section \<open>Rules of an import\<close>

definition MAX_UNIT :: nat where "MAX_UNIT = 32"
definition MAX_ASSET_PATH :: nat where "MAX_ASSET_PATH = 512"
definition LIMIT_FIELDS :: "string list" where
  "LIMIT_FIELDS = [''physical_min'', ''physical_max'', ''operational_min'', ''operational_max'']"
definition COLUMNS :: "string list" where "COLUMNS = [''unit''] @ LIMIT_FIELDS @ [''asset_path'']"

text \<open>A float of the external system, which may be an infinity or no number.\<close>

datatype raw_float = Finite rat | NotFinite

record point_metadata =
  pm_unit :: "string option"
  pm_description :: "string option"
  pm_physical_min :: "raw_float option"
  pm_physical_max :: "raw_float option"
  pm_operational_min :: "raw_float option"
  pm_operational_max :: "raw_float option"
  pm_asset_path :: "string option"
  pm_extra :: jobj

record applied =
  ap_changed :: "string list"
  ap_skipped :: "string list"

definition as_result :: "applied \<Rightarrow> jobj" where
  "as_result a = [(''changed'', JArr (map JStr (ap_changed a)))] @
     (if ap_skipped a = [] then [] else [(''skipped'', JArr (map JStr (ap_skipped a)))])"

definition limit_of :: "point_metadata \<Rightarrow> string \<Rightarrow> raw_float option" where
  "limit_of m name =
     (if name = ''physical_min'' then pm_physical_min m else if name = ''physical_max'' then pm_physical_max m
      else if name = ''operational_min'' then pm_operational_min m else pm_operational_max m)"

definition text_candidate :: "string \<Rightarrow> nat \<Rightarrow> string option \<Rightarrow> cols \<times> string list" where
  "text_candidate name limit x =
     (let t = strip (case x of None \<Rightarrow> [] | Some y \<Rightarrow> y)
      in if t = [] then ([], [])
         else if limit < length t then ([], [name @ '': longer than '' @ nat_str limit @ '' characters''])
         else ([(name, VText t)], []))"

definition limit_candidate :: "point_metadata \<Rightarrow> string \<Rightarrow> cols \<times> string list" where
  "limit_candidate m name =
     (case limit_of m name of
        None \<Rightarrow> ([], [])
      | Some NotFinite \<Rightarrow> ([], [name @ '': not a finite number''])
      | Some (Finite r) \<Rightarrow> ([(name, VNum r)], []))"

text \<open>The columns the import offers, and why others were dropped.\<close>

definition candidates :: "point_metadata \<Rightarrow> cols \<times> string list" where
  "candidates m =
     (let parts = text_candidate ''unit'' MAX_UNIT (pm_unit m) # map (limit_candidate m) LIMIT_FIELDS @
                  [text_candidate ''asset_path'' MAX_ASSET_PATH (pm_asset_path m)]
      in (concat (map fst parts), concat (map snd parts)))"

definition description_blob :: "point_metadata \<Rightarrow> string \<Rightarrow> jobj" where
  "description_blob m imported_at =
     (let extra = filter (\<lambda>(k, v). v \<noteq> JNull) (pm_extra m);
          described = (case pm_description m of None \<Rightarrow> extra | Some t \<Rightarrow> if t = [] then extra else dict_set ''description'' (JStr t) extra)
      in dict_set ''imported_at'' (JStr imported_at) described)"

text \<open>
  \<^verbatim>\<open>dict(value or {})\<close>: a false value gives the empty dict, an object itself, a list of pairs the
  dict of them; anything else raises (\<open>None\<close>).
\<close>

fun pair_of :: "json \<Rightarrow> (string \<times> json) option" where
  "pair_of (JArr [JStr k, v]) = Some (k, v)"
| "pair_of _ = None"

fun as_dict :: "json option \<Rightarrow> jobj option" where
  "as_dict None = Some []"
| "as_dict (Some JNull) = Some []"
| "as_dict (Some (JObj kvs)) = Some kvs"
| "as_dict (Some (JBool b)) = (if b then None else Some [])"
| "as_dict (Some (JInt i)) = (if i = 0 then Some [] else None)"
| "as_dict (Some (JNum r)) = (if r = 0 then Some [] else None)"
| "as_dict (Some (JStr s)) = (if s = [] then Some [] else None)"
| "as_dict (Some (JArr vs)) =
     map_option (\<lambda>kvs. fold (\<lambda>(k, v). dict_set k v) kvs []) (those (map pair_of vs))"

definition canonical :: "(rat \<Rightarrow> string) \<Rightarrow> jobj \<Rightarrow> string" where
  "canonical ft kvs = json_text ft quote_ascii (sort_keys (JObj kvs))"

definition without :: "string \<Rightarrow> jobj \<Rightarrow> jobj" where
  "without k kvs = filter (\<lambda>(k', v). k' \<noteq> k) kvs"

text \<open>The columns of an import: what it sets, what it changed, what it skipped.\<close>

definition import_columns :: "series \<Rightarrow> point_metadata \<Rightarrow> bool \<Rightarrow> series \<times> applied" where
  "import_columns s m overwrite =
     (let wanted = filter (\<lambda>(k, v). overwrite \<or> column s k = VNull) (fst (candidates m));
          verdict = validate_limits (merged (values_of s) wanted) (filter (\<lambda>k. k \<in> set LIMIT_FIELDS) (map fst wanted));
          kept = (case verdict of Inr _ \<Rightarrow> wanted | Inl _ \<Rightarrow> filter (\<lambda>(k, v). k \<notin> set LIMIT_FIELDS) wanted);
          skipped = snd (candidates m) @ (case verdict of Inr _ \<Rightarrow> [] | Inl e \<Rightarrow> [''limits: '' @ me_message e]);
          set_now = filter (\<lambda>(k, v). column s k \<noteq> v) kept
      in (set_fields set_now s, \<lparr>ap_changed = map fst set_now, ap_skipped = skipped\<rparr>))"

text \<open>\<^verbatim>\<open>apply\<close>; \<open>None\<close> is a raise other than the validation errors it catches.\<close>

definition import_metadata :: "(rat \<Rightarrow> string) \<Rightarrow> (datetime \<Rightarrow> string) \<Rightarrow> series \<Rightarrow> point_metadata \<Rightarrow> string \<Rightarrow> bool \<Rightarrow> datetime
    \<Rightarrow> (series \<times> applied) option" where
  "import_metadata ft isotext s m source_type overwrite now =
     (let (s1, a) = import_columns s m overwrite;
          stored = ser_metadata s1;
          blob = description_blob m (isotext now);
          candidate = dict_set source_type (JObj blob) stored
      in case as_dict (map_of stored source_type) of
           None \<Rightarrow> None
         | Some previous \<Rightarrow>
             (case validate_metadata_blob ft (JObj candidate) of
                Inl e \<Rightarrow> Some (s1, a\<lparr>ap_skipped := ap_skipped a @ [''metadata: '' @ me_message e]\<rparr>)
              | Inr _ \<Rightarrow>
                  Some (s1\<lparr>ser_metadata := candidate\<rparr>,
                    if canonical ft (without ''imported_at'' previous) \<noteq> canonical ft (without ''imported_at'' blob)
                    then a\<lparr>ap_changed := ap_changed a @ [''metadata'']\<rparr> else a)))"

section \<open>Source jobs\<close>

text \<open>What a connector's other operations give: an answer, a connector error, or any other raise.\<close>

datatype 'a answer = Answered 'a | ConnFailed string bool | Crashed

record remote_point =
  rp_external_id :: string
  rp_name :: string
  rp_unit :: "string option"
  rp_description :: "string option"

record point_description =
  pd_series_id :: uuid
  pd_metadata :: "point_metadata option"
  pd_error :: "string option"

record task_ops =
  to_check :: "jobj option answer"
  to_search :: "string \<Rightarrow> int \<Rightarrow> remote_point list answer"
  to_describe :: "point_ref list \<Rightarrow> point_description list answer"

fun abind :: "'a answer \<Rightarrow> ('a \<Rightarrow> 'b answer) \<Rightarrow> 'b answer" where
  "abind (Answered x) f = f x"
| "abind (ConnFailed m r) f = ConnFailed m r"
| "abind Crashed f = Crashed"

definition opt_json :: "string option \<Rightarrow> json" where
  "opt_json x = (case x of None \<Rightarrow> JNull | Some s \<Rightarrow> JStr s)"

definition point_json :: "remote_point \<Rightarrow> json" where
  "point_json p = JObj [(''external_id'', JStr (rp_external_id p)), (''name'', JStr (rp_name p)),
     (''unit'', opt_json (rp_unit p)), (''description'', opt_json (rp_description p))]"

definition params_of :: "job_plan \<Rightarrow> jobj" where
  "params_of plan = (case jp_params plan of None \<Rightarrow> [] | Some p \<Rightarrow> p)"

text \<open>A slice \<^verbatim>\<open>xs[:n]\<close>; a negative \<open>n\<close> counts from the end.\<close>

definition slice_to :: "int \<Rightarrow> 'a list \<Rightarrow> 'a list" where
  "slice_to n xs = take (nat (if n < 0 then int (length xs) + n else n)) xs"

definition outcome_with :: "fetch_status \<Rightarrow> jobj option \<Rightarrow> fetch_outcome" where
  "outcome_with st result = (new_outcome st None)\<lparr>fo_result := result\<rparr>"

text \<open>The parameters of a search are a text and a number, as the service stores them.\<close>

definition search_job :: "task_ops \<Rightarrow> job_plan \<Rightarrow> fetch_outcome answer" where
  "search_job T plan =
     (let q = (case map_of (params_of plan) ''query'' of Some (JStr s) \<Rightarrow> s | _ \<Rightarrow> []);
          limit = (case map_of (params_of plan) ''limit'' of Some (JInt i) \<Rightarrow> i | _ \<Rightarrow> 100)
      in abind (to_search T q limit) (\<lambda>found.
           Answered (outcome_with FetchSucceeded (Some [(''items'', JArr (map point_json (slice_to limit found))),
             (''truncated'', JBool (limit \<le> int (length found)))]))))"

fun describe_all :: "task_ops \<Rightarrow> point_ref list list \<Rightarrow> point_description list answer" where
  "describe_all T [] = Answered []"
| "describe_all T (part # parts) =
     abind (to_describe T part) (\<lambda>got.
       if pd_series_id ` set got \<noteq> pt_series_id ` set part
       then ConnFailed ''connector described other points than it was asked for'' False
       else abind (describe_all T parts) (\<lambda>more. Answered (got @ more)))"

record import_state =
  im_db :: db
  im_per_series :: "(string \<times> json) list"
  im_updated :: int
  im_unchanged :: int
  im_failed :: int

definition source_type_value :: "source_type \<Rightarrow> string" where
  "source_type_value t = (case t of SrcUpload \<Rightarrow> ''upload'' | SrcCsvDir \<Rightarrow> ''csv_dir'' | SrcPiWebApi \<Rightarrow> ''pi_web_api''
     | SrcOpcUa \<Rightarrow> ''opc_ua'' | SrcSynthetic \<Rightarrow> ''synthetic'')"

text \<open>One description applied to its series; the column \<^verbatim>\<open>updated_at\<close> follows a written row.\<close>

definition apply_description :: "(rat \<Rightarrow> string) \<Rightarrow> (datetime \<Rightarrow> string) \<Rightarrow> string \<Rightarrow> bool \<Rightarrow> datetime \<Rightarrow> point_description
    \<Rightarrow> import_state \<Rightarrow> import_state option" where
  "apply_description ft isotext kind overwrite now desc st =
     (let key = uuid_str (pd_series_id desc);
          failure = Some (st\<lparr>im_failed := im_failed st + 1,
            im_per_series := dict_set key (JObj [(''error'', JStr (case pd_error desc of None \<Rightarrow> ''series not found''
               | Some e \<Rightarrow> if e = [] then ''series not found'' else e))]) (im_per_series st)\<rparr>)
      in case (pd_metadata desc, List.find (\<lambda>s. ser_id s = pd_series_id desc) (all_series (im_db st))) of
           (Some m, Some s) \<Rightarrow>
             (case import_metadata ft isotext s m kind overwrite now of
                None \<Rightarrow> None
              | Some (s', a) \<Rightarrow>
                  Some (st\<lparr>im_db := set_series (im_db st) (ser_id s) (if s' = s then s else s'\<lparr>ser_updated_at := now\<rparr>),
                    im_per_series := dict_set key (JObj (as_result a)) (im_per_series st),
                    im_updated := im_updated st + (if ap_changed a \<noteq> [] then 1 else 0),
                    im_unchanged := im_unchanged st + (if ap_changed a \<noteq> [] then 0 else 1)\<rparr>))
         | _ \<Rightarrow> failure)"

fun apply_all :: "(point_description \<Rightarrow> import_state \<Rightarrow> import_state option) \<Rightarrow> point_description list \<Rightarrow> import_state \<Rightarrow> import_state option" where
  "apply_all f [] st = Some st"
| "apply_all f (x # xs) st = (case f x st of None \<Rightarrow> None | Some st' \<Rightarrow> apply_all f xs st')"

definition counts_json :: "import_state \<Rightarrow> jobj" where
  "counts_json st = [(''updated'', JInt (im_updated st)), (''unchanged'', JInt (im_unchanged st)), (''failed'', JInt (im_failed st))]"

definition first_error :: "import_state \<Rightarrow> string" where
  "first_error st =
     (case concat (map (\<lambda>(k, v). case v of JObj [(f, JStr e)] \<Rightarrow> if f = ''error'' then [e] else [] | _ \<Rightarrow> []) (im_per_series st)) of
        [] \<Rightarrow> [] | e # es \<Rightarrow> e)"

definition audit_import :: "import_state \<Rightarrow> job_plan \<Rightarrow> source option \<Rightarrow> uuid \<Rightarrow> uuid \<Rightarrow> datetime \<Rightarrow> db" where
  "audit_import st plan src fetch_id audit_id now =
     (case (Option.bind (get_fetch (im_db st) fetch_id) sf_requested_by, src) of
        (Some u, Some s) \<Rightarrow>
          audit_record (im_db st) \<lparr>ac_user_id = u, ac_org_id = jp_org_id plan, ac_ip_address = None, ac_user_agent = None\<rparr>
            ''source.metadata_imported'' ''source'' (src_id s) (Some (src_workspace_id s))
            ((''fetch_id'', JStr (uuid_str fetch_id)) # counts_json st) audit_id now
      | _ \<Rightarrow> im_db st)"

text \<open>\<^verbatim>\<open>_describe\<close>; the audit event gets the id \<open>audit_id\<close>.  A raise rolls its transaction back.\<close>

definition describe_job :: "(rat \<Rightarrow> string) \<Rightarrow> (datetime \<Rightarrow> string) \<Rightarrow> task_ops \<Rightarrow> db \<Rightarrow> job_plan \<Rightarrow> uuid \<Rightarrow> uuid \<Rightarrow> datetime
    \<Rightarrow> (db \<times> fetch_outcome) answer" where
  "describe_job ft isotext T d plan fetch_id audit_id now =
     (case range_chunks (max_points (cn_limits (jp_connector plan))) (fetch_points d (jp_source_id plan) (jp_series_ids plan)) of
        None \<Rightarrow> Crashed
      | Some parts \<Rightarrow>
          abind (describe_all T parts) (\<lambda>descriptions.
            let overwrite = (case map_of (params_of plan) ''overwrite'' of Some (JBool b) \<Rightarrow> b | _ \<Rightarrow> False);
                src = get_source d (jp_source_id plan);
                kind = (case src of None \<Rightarrow> ''connector'' | Some s \<Rightarrow> source_type_value (src_type s))
            in case apply_all (apply_description ft isotext kind overwrite now) descriptions
                      \<lparr>im_db = d, im_per_series = [], im_updated = 0, im_unchanged = 0, im_failed = 0\<rparr> of
                 None \<Rightarrow> Crashed
               | Some st \<Rightarrow>
                   let result = Some (counts_json st @ [(''series'', JObj (im_per_series st))])
                   in Answered (audit_import st plan src fetch_id audit_id now, if 0 < im_failed st
                        then (new_outcome FetchPartial (Some (int_str (im_failed st) @ '' series failed: '' @ first_error st)))\<lparr>fo_result := result\<rparr>
                        else outcome_with FetchSucceeded result)))"

definition execute_task :: "(rat \<Rightarrow> string) \<Rightarrow> (datetime \<Rightarrow> string) \<Rightarrow> (connector \<Rightarrow> task_ops) \<Rightarrow> env \<Rightarrow> db \<Rightarrow> uuid \<Rightarrow> uuid \<Rightarrow> datetime
    \<Rightarrow> executed" where
  "execute_task ft isotext ops E d fetch_id audit_id now =
     (case prepare E d fetch_id False of
        NotToRun \<Rightarrow> Skipped
      | Broken \<Rightarrow> Raised
      | Stopped msg \<Rightarrow> (let out = new_outcome FetchFailed (Some msg) in Ended (finish E d fetch_id out) out [])
      | Prepared d1 plan \<Rightarrow>
          (let T = ops (jp_connector plan);
               answer = (if jp_trigger plan = FSearch then abind (search_job T plan) (\<lambda>out. Answered (d1, out))
                         else if jp_trigger plan = FMetadata then describe_job ft isotext T d1 plan fetch_id audit_id now
                         else abind (to_check T) (\<lambda>r. Answered (d1, outcome_with FetchSucceeded r)));
               (d2, out) = (case answer of
                   Answered (d2, out) \<Rightarrow> (d2, out)
                 | ConnFailed msg retryable \<Rightarrow> (d1, (new_outcome FetchFailed (Some msg))\<lparr>fo_retryable := retryable\<rparr>)
                 | Crashed \<Rightarrow> (d1, new_outcome FetchFailed (Some INTERNAL_ERROR)))
           in Ended (finish E d2 fetch_id out) out []))"

section \<open>Facts\<close>

lemma text_candidate_cases:
  "fst (text_candidate n k x) = [] \<or> (\<exists>t. fst (text_candidate n k x) = [(n, VText t)] \<and> length t \<le> k)"
  by (auto simp: text_candidate_def Let_def)

lemma limit_candidate_cases: "fst (limit_candidate m n) = [] \<or> (\<exists>r. fst (limit_candidate m n) = [(n, VNum r)])"
  by (auto simp: limit_candidate_def split: option.splits raw_float.splits)

lemma candidates_body:
  shows "patch_body (fst (candidates m))" and "check_fields (fst (candidates m)) = Inr ()"
    and "(k, v) \<in> set (fst (candidates m)) \<Longrightarrow> k \<in> set COLUMNS \<and> v \<noteq> VNull"
proof -
  have parts: "fst (candidates m) = fst (text_candidate ''unit'' MAX_UNIT (pm_unit m)) @ fst (limit_candidate m ''physical_min'') @
      fst (limit_candidate m ''physical_max'') @ fst (limit_candidate m ''operational_min'') @
      fst (limit_candidate m ''operational_max'') @ fst (text_candidate ''asset_path'' MAX_ASSET_PATH (pm_asset_path m))"
    by (simp add: candidates_def Let_def LIMIT_FIELDS_def)
  define a b c e f g where "a = fst (text_candidate ''unit'' MAX_UNIT (pm_unit m))" and "b = fst (limit_candidate m ''physical_min'')"
    and "c = fst (limit_candidate m ''physical_max'')" and "e = fst (limit_candidate m ''operational_min'')"
    and "f = fst (limit_candidate m ''operational_max'')" and "g = fst (text_candidate ''asset_path'' MAX_ASSET_PATH (pm_asset_path m))"
  have shapes: "a = [] \<or> (\<exists>t. a = [(''unit'', VText t)] \<and> length t \<le> 32)" "b = [] \<or> (\<exists>r. b = [(''physical_min'', VNum r)])"
    "c = [] \<or> (\<exists>r. c = [(''physical_max'', VNum r)])" "e = [] \<or> (\<exists>r. e = [(''operational_min'', VNum r)])"
    "f = [] \<or> (\<exists>r. f = [(''operational_max'', VNum r)])" "g = [] \<or> (\<exists>t. g = [(''asset_path'', VText t)] \<and> length t \<le> 512)"
    unfolding a_def b_def c_def e_def f_def g_def
    using text_candidate_cases [of "''unit''" MAX_UNIT] text_candidate_cases [of "''asset_path''" MAX_ASSET_PATH] limit_candidate_cases
    by (simp_all only: MAX_UNIT_def MAX_ASSET_PATH_def)
  have p: "fst (candidates m) = a @ b @ c @ e @ f @ g" by (simp only: parts a_def b_def c_def e_def f_def g_def)
  have keys: "distinct (map fst (a @ b @ c @ e @ f @ g))"
  proof -
    have "map fst a = [] \<or> map fst a = [''unit'']" "map fst b = [] \<or> map fst b = [''physical_min'']"
      "map fst c = [] \<or> map fst c = [''physical_max'']" "map fst e = [] \<or> map fst e = [''operational_min'']"
      "map fst f = [] \<or> map fst f = [''operational_max'']" "map fst g = [] \<or> map fst g = [''asset_path'']"
      using shapes by auto
    then show ?thesis unfolding map_append by (elim disjE) simp_all
  qed
  have one: "k \<in> set COLUMNS \<and> v \<noteq> VNull \<and> field_valid k v \<and> k \<in> set EDITABLE_FIELDS"
    if "k = ''unit'' \<and> (\<exists>t. v = VText t \<and> length t \<le> 32) \<or> k = ''asset_path'' \<and> (\<exists>t. v = VText t \<and> length t \<le> 512) \<or>
      k \<in> set LIMIT_FIELDS \<and> (\<exists>r. v = VNum r)" for k v
    using that by (elim disjE conjE exE) (auto simp: COLUMNS_def LIMIT_FIELDS_def EDITABLE_FIELDS_def field_valid_def)
  have all: "k \<in> set COLUMNS \<and> v \<noteq> VNull \<and> field_valid k v \<and> k \<in> set EDITABLE_FIELDS"
    if "(k, v) \<in> set (a @ b @ c @ e @ f @ g)" for k v
  proof (rule one)
    have "(k, v) \<in> set a \<or> (k, v) \<in> set b \<or> (k, v) \<in> set c \<or> (k, v) \<in> set e \<or> (k, v) \<in> set f \<or> (k, v) \<in> set g"
      using that by simp
    then show "k = ''unit'' \<and> (\<exists>t. v = VText t \<and> length t \<le> 32) \<or> k = ''asset_path'' \<and> (\<exists>t. v = VText t \<and> length t \<le> 512) \<or>
      k \<in> set LIMIT_FIELDS \<and> (\<exists>r. v = VNum r)"
      using shapes unfolding LIMIT_FIELDS_def by (elim disjE exE conjE) simp_all
  qed
  show "patch_body (fst (candidates m))" unfolding p patch_body_def using keys all by blast
  have "\<not> (k \<in> set NOT_NULLABLE \<and> v = VNull)" if "(k, v) \<in> set (a @ b @ c @ e @ f @ g)" for k v using all [OF that] by simp
  then show "check_fields (fst (candidates m)) = Inr ()" unfolding p check_fields_Inr using all by blast
  show "k \<in> set COLUMNS \<and> v \<noteq> VNull" if "(k, v) \<in> set (fst (candidates m))"
    using all that unfolding p by blast
qed

lemma bands_cong: "(\<And>f. f \<in> set LIMIT_FIELDS \<Longrightarrow> c f = c' f) \<Longrightarrow> bands_ok c = bands_ok c'"
  by (simp add: bands_ok_def validate_limits_def LIMIT_FIELDS_def)

lemma changed_alt: "filter (\<lambda>(k, v). column s k \<noteq> v) (filter p (fst (candidates m))) =
    filter (\<lambda>(k, v). map_of (values_of s) k \<noteq> Some v) (filter p (fst (candidates m)))"
proof (rule filter_cong [OF refl])
  fix kv assume "kv \<in> set (filter p (fst (candidates m)))"
  then have mem: "kv \<in> set (fst (candidates m))" by simp
  obtain k v where kv1: "kv = (k, v)" by (cases kv)
  with mem candidates_body(3) have kv: "kv = (k, v)" "k \<in> set COLUMNS" by blast+
  have "map_of (values_of s) k \<noteq> None"
    using kv(2) by (auto simp: map_of_eq_None_iff COLUMNS_def LIMIT_FIELDS_def EDITABLE_FIELDS_def simp flip: set_map)
  then show "(case kv of (k, v) \<Rightarrow> column s k \<noteq> v) = (case kv of (k, v) \<Rightarrow> map_of (values_of s) k \<noteq> Some v)"
    by (auto simp: kv(1) column_def)
qed

text \<open>What the columns of an import become: some of what was wanted, consistent when they were.\<close>

lemma import_columns_effect:
  assumes "import_columns s m overwrite = (s1, a)"
  obtains kept where "column s1 = merged (values_of s) kept" "set kept \<subseteq> {(k, v). (k, v) \<in> set (fst (candidates m)) \<and> (overwrite \<or> column s k = VNull)}"
    "patch_body kept" "check_fields kept = Inr ()" "bands_ok (column s) \<Longrightarrow> bands_ok (merged (values_of s) kept)"
    "ser_id s1 = ser_id s" "ap_changed a = map fst (filter (\<lambda>(k, v). column s k \<noteq> v) kept)" "ser_external_id s1 = ser_external_id s"
proof -
  define wanted where "wanted = filter (\<lambda>(k, v). overwrite \<or> column s k = VNull) (fst (candidates m))"
  define verdict where "verdict = validate_limits (merged (values_of s) wanted) (filter (\<lambda>k. k \<in> set LIMIT_FIELDS) (map fst wanted))"
  define kept where "kept = (case verdict of Inr _ \<Rightarrow> wanted | Inl _ \<Rightarrow> filter (\<lambda>(k, v). k \<notin> set LIMIT_FIELDS) wanted)"
  obtain p where p: "kept = filter p (fst (candidates m))"
    by (cases verdict) (auto simp: kept_def wanted_def)
  note body = candidates_body(1,2) [of m]
  have k: "patch_body kept" "check_fields kept = Inr ()"
    unfolding p using body by (auto simp: patch_body_filter check_fields_Inr)
  have s1: "s1 = set_fields (filter (\<lambda>(k, v). column s k \<noteq> v) kept) s"
    and a: "ap_changed a = map fst (filter (\<lambda>(k, v). column s k \<noteq> v) kept)"
    using assms unfolding import_columns_def Let_def wanted_def [symmetric] verdict_def [symmetric] kept_def [symmetric] by auto
  have ch: "filter (\<lambda>(k, v). column s k \<noteq> v) kept = filter (\<lambda>(k, v). map_of (values_of s) k \<noteq> Some v) kept"
    unfolding p by (rule changed_alt)
  let ?ch = "filter (\<lambda>(k, v). map_of (values_of s) k \<noteq> Some v) kept"
  have "patch_body ?ch" "check_fields ?ch = Inr ()" using k by (auto simp: patch_body_filter check_fields_Inr)
  then have "column s1 f = merged (values_of s) kept f" for f
    using column_set_fields [of ?ch s f] merged_changed [of kept s f] k(1) by (simp add: s1 ch patch_body_def)
  then have col: "column s1 = merged (values_of s) kept" by blast
  have sub: "set kept \<subseteq> {(k, v). (k, v) \<in> set (fst (candidates m)) \<and> (overwrite \<or> column s k = VNull)}"
    by (cases verdict) (auto simp: kept_def wanted_def)
  have "bands_ok (merged (values_of s) kept)" if old: "bands_ok (column s)"
  proof (cases verdict)
    case (Inr u)
    then have "kept = wanted" by (simp add: kept_def)
    moreover have "bands_ok (merged (values_of s) wanted)" using Inr unfolding verdict_def by (simp add: validate_limits_Inr)
    ultimately show ?thesis by simp
  next
    case (Inl e)
    then have kept: "kept = filter (\<lambda>(k, v). k \<notin> set LIMIT_FIELDS) wanted" by (simp add: kept_def)
    have "merged (values_of s) kept f = column s f" if "f \<in> set LIMIT_FIELDS" for f
    proof -
      have "map_of kept f = None" unfolding kept map_of_eq_None_iff using that by auto
      then show ?thesis by (simp add: merged_column)
    qed
    then show ?thesis using old bands_cong by blast
  qed
  with that [OF col sub k] a show thesis by (simp add: s1)
qed

lemma import_metadata_parts:
  assumes "import_metadata ft isotext s m kind overwrite now = Some (s', a)"
  obtains s1 a1 where "import_columns s m overwrite = (s1, a1)"
    "s' = s1 \<or> (\<exists>b. s' = s1\<lparr>ser_metadata := dict_set kind (JObj b) (ser_metadata s1)\<rparr> \<and> size_ok ft (VJson (JObj (ser_metadata s'))))"
proof -
  obtain s1 a1 where i: "import_columns s m overwrite = (s1, a1)" by fastforce
  let ?b = "description_blob m (isotext now)"
  obtain previous where "as_dict (map_of (ser_metadata s1) kind) = Some previous"
    using assms by (cases "as_dict (map_of (ser_metadata s1) kind)") (auto simp: import_metadata_def i Let_def)
  then have "s' = s1 \<or> (s' = s1\<lparr>ser_metadata := dict_set kind (JObj ?b) (ser_metadata s1)\<rparr> \<and>
      validate_metadata_blob ft (JObj (dict_set kind (JObj ?b) (ser_metadata s1))) = Inr ())"
    using assms by (auto simp: import_metadata_def i Let_def split: sum.splits)
  with i show thesis by (intro that) (auto simp: size_ok_def validate_metadata_blob_def)
qed

lemma column_metadata [simp]:
  "column (s\<lparr>ser_metadata := b\<rparr>) f = (if f = ''metadata'' then VJson (JObj b) else column s f)"
  by (simp add: column_def values_of_def)

lemma import_series_ok:
  assumes "import_metadata ft isotext s m kind overwrite now = Some (s', a)" and "series_ok ft s"
  shows "series_ok ft s'"
  using assms(1)
proof (rule import_metadata_parts)
  fix s1 a1 assume i: "import_columns s m overwrite = (s1, a1)"
    and s': "s' = s1 \<or> (\<exists>b. s' = s1\<lparr>ser_metadata := dict_set kind (JObj b) (ser_metadata s1)\<rparr> \<and> size_ok ft (VJson (JObj (ser_metadata s'))))"
  from i have "series_ok ft s1"
  proof (rule import_columns_effect)
    fix kept assume k: "column s1 = merged (values_of s) kept"
      "set kept \<subseteq> {(k, v). (k, v) \<in> set (fst (candidates m)) \<and> (overwrite \<or> column s k = VNull)}"
      "patch_body kept" "check_fields kept = Inr ()" "bands_ok (column s) \<Longrightarrow> bands_ok (merged (values_of s) kept)"
      "ser_external_id s1 = ser_external_id s"
    have ok: "columns_ok ft (column s)" using assms(2) by (simp add: series_ok_def)
    have "map_of kept ''metadata'' = None"
    proof (rule ccontr)
      assume "map_of kept ''metadata'' \<noteq> None"
      then obtain v where "(''metadata'', v) \<in> set kept" by (auto dest: map_of_SomeD)
      with k(2) have "(''metadata'', v) \<in> set (fst (candidates m))" by blast
      then show False using candidates_body(3) by (simp add: COLUMNS_def LIMIT_FIELDS_def) blast
    qed
    then have "columns_ok ft (merged (values_of s) kept)"
      by (intro columns_ok_merged [OF ok k(3,4)]) (use k(5) ok in \<open>auto simp: columns_ok_def\<close>)
    then show ?thesis using assms(2) by (simp add: series_ok_def k(1,6))
  qed
  with s' show ?thesis
  proof (elim disjE exE conjE)
    fix b assume ok: "series_ok ft s1" and s': "s' = s1\<lparr>ser_metadata := dict_set kind (JObj b) (ser_metadata s1)\<rparr>"
      and size: "size_ok ft (VJson (JObj (ser_metadata s')))"
    have "bands_ok (column s') = bands_ok (column s1)" by (rule bands_cong) (auto simp: s' LIMIT_FIELDS_def)
    moreover have "size_ok ft (column s' ''metadata'')" using size by (simp add: s')
    moreover have "stored_valid f (column s' f) \<and> \<not> (f \<in> set NOT_NULLABLE \<and> column s' f = VNull)"
      if f: "f \<in> set EDITABLE_FIELDS" for f
    proof (cases "f = ''metadata''")
      case True
      then show ?thesis by (simp add: s' field_valid_def stored_valid_def)
    next
      case False
      then have "column s' f = column s1 f" by (simp add: s')
      with ok f show ?thesis unfolding series_ok_def columns_ok_def by simp
    qed
    ultimately show ?thesis using ok by (simp add: series_ok_def columns_ok_def s')
  qed simp
qed

lemma describe_frames: "all_series (audit_record d a w t ti wid ds i now) = all_series d"
  by (simp add: audit_record_def)

lemma apply_description_ok:
  assumes "apply_description ft isotext kind overwrite now desc st = Some st'" and "\<forall>s \<in> set (all_series (im_db st)). series_ok ft s"
  shows "\<forall>s \<in> set (all_series (im_db st')). series_ok ft s"
proof (cases "all_series (im_db st') = all_series (im_db st)")
  case False
  with assms(1) obtain m s s' a where f: "List.find (\<lambda>s. ser_id s = pd_series_id desc) (all_series (im_db st)) = Some s"
    and i: "import_metadata ft isotext s m kind overwrite now = Some (s', a)"
    and d: "all_series (im_db st') = all_series (set_series (im_db st) (ser_id s) (if s' = s then s else s'\<lparr>ser_updated_at := now\<rparr>))"
    by (auto simp: apply_description_def Let_def split: option.splits prod.splits)
  have s: "series_ok ft s" using assms(2) find_SomeD [OF f] by blast
  then have "series_ok ft (if s' = s then s else s'\<lparr>ser_updated_at := now\<rparr>)" using import_series_ok [OF i] by simp
  with assms(2) show ?thesis by (auto simp: d set_series_def in_set_update_where)
qed (use assms(2) in simp)

lemma apply_all_ok:
  "apply_all (apply_description ft isotext kind overwrite now) descs st = Some st' \<Longrightarrow>
   \<forall>s \<in> set (all_series (im_db st)). series_ok ft s \<Longrightarrow> \<forall>s \<in> set (all_series (im_db st')). series_ok ft s"
proof (induction descs arbitrary: st)
  case (Cons x xs)
  then obtain st1 where one: "apply_description ft isotext kind overwrite now x st = Some st1"
    and rest: "apply_all (apply_description ft isotext kind overwrite now) xs st1 = Some st'"
    by (auto split: option.splits)
  show ?case by (rule Cons.IH [OF rest]) (rule apply_description_ok [OF one Cons.prems(2)])
qed simp

lemma abind_Answered: "abind x f = Answered y \<longleftrightarrow> (\<exists>z. x = Answered z \<and> f z = Answered y)"
  by (cases x) auto

lemma describe_job_ok:
  assumes "describe_job ft isotext T d plan fetch_id audit_id now = Answered (d', out)" and "\<forall>s \<in> set (all_series d). series_ok ft s"
  shows "\<forall>s \<in> set (all_series d'). series_ok ft s"
proof -
  from assms(1) obtain parts where p: "range_chunks (max_points (cn_limits (jp_connector plan))) (fetch_points d (jp_source_id plan) (jp_series_ids plan)) = Some parts"
    by (auto simp: describe_job_def split: option.splits)
  from assms(1) obtain descs where descs: "describe_all T parts = Answered descs"
    unfolding describe_job_def p option.case abind_Answered by blast
  define overwrite where "overwrite = (case map_of (params_of plan) ''overwrite'' of Some (JBool b) \<Rightarrow> b | _ \<Rightarrow> False)"
  define kind where "kind = (case get_source d (jp_source_id plan) of None \<Rightarrow> ''connector'' | Some s \<Rightarrow> source_type_value (src_type s))"
  from assms(1) obtain st where a: "apply_all (apply_description ft isotext kind overwrite now) descs
        \<lparr>im_db = d, im_per_series = [], im_updated = 0, im_unchanged = 0, im_failed = 0\<rparr> = Some st"
      and d': "d' = audit_import st plan (get_source d (jp_source_id plan)) fetch_id audit_id now"
    unfolding describe_job_def p option.case descs abind.simps Let_def overwrite_def [symmetric] kind_def [symmetric]
    by (auto split: option.splits)
  have d: "all_series d' = all_series (im_db st)" by (simp add: d' audit_import_def describe_frames split: option.splits)
  show ?thesis using apply_all_ok [OF a] assms(2) by (simp add: d)
qed

lemma meta_for_core_bounds:
  assumes "meta_for_core x (merged old (upload_overrides unit lo hi)) = Inr meta"
  shows "1 \<le> length x" "length x \<le> 256" "\<And>u. unit = Some u \<Longrightarrow> length u \<le> 32"
proof -
  have v: "series_meta_valid meta" and m: "sm_id meta = x" "sm_unit meta = as_text (merged old (upload_overrides unit lo hi) ''unit'')"
    using assms by (auto simp: meta_for_core_def Let_def split: if_splits)
  from v m(1) show "1 \<le> length x" "length x \<le> 256" by (auto simp: series_meta_valid_def)
  show "length u \<le> 32" if "unit = Some u" for u
    using v m(2) that by (simp add: series_meta_valid_def merged_def upload_overrides_def)
qed

section \<open>Properties of series metadata\<close>

text \<open>An import never clears a column; without overwriting it changes no column that has a value; it
  touches only the columns it may and the metadata of its own source type, and keeps the limits consistent.\<close>

theorem import_fills_gaps:
  assumes "import_metadata ft isotext s m kind overwrite now = Some (s', a)"
  shows "(\<forall>f. f \<noteq> ''metadata'' \<and> column s f \<noteq> VNull \<longrightarrow> column s' f \<noteq> VNull \<and> (overwrite \<or> column s' f = column s f)) \<and>
     (\<forall>f. column s' f \<noteq> column s f \<longrightarrow> f \<in> set (''metadata'' # COLUMNS)) \<and>
     (\<forall>k. k \<noteq> kind \<longrightarrow> map_of (ser_metadata s') k = map_of (ser_metadata s) k) \<and>
     (bands_ok (column s) \<longrightarrow> bands_ok (column s'))"
  using assms
proof (rule import_metadata_parts)
  fix s1 a1 assume i: "import_columns s m overwrite = (s1, a1)"
    and s': "s' = s1 \<or> (\<exists>b. s' = s1\<lparr>ser_metadata := dict_set kind (JObj b) (ser_metadata s1)\<rparr> \<and> size_ok ft (VJson (JObj (ser_metadata s'))))"
  from i show ?thesis
  proof (rule import_columns_effect)
    fix kept assume k: "column s1 = merged (values_of s) kept"
      "set kept \<subseteq> {(k, v). (k, v) \<in> set (fst (candidates m)) \<and> (overwrite \<or> column s k = VNull)}"
      "bands_ok (column s) \<Longrightarrow> bands_ok (merged (values_of s) kept)"
    have wanted: "f \<in> set COLUMNS \<and> v \<noteq> VNull \<and> (overwrite \<or> column s f = VNull)" if "map_of kept f = Some v" for f v
      using map_of_SomeD [OF that] k(2) candidates_body(3) [of f v m] by blast
    have col: "column s1 f = (case map_of kept f of Some v \<Rightarrow> v | None \<Rightarrow> column s f)" for f
      by (simp add: k(1) merged_column)
    have "map_of kept ''metadata'' = None"
      using wanted [of "''metadata''"] by (cases "map_of kept ''metadata''") (auto simp: COLUMNS_def LIMIT_FIELDS_def)
    then have "column s1 ''metadata'' = column s ''metadata''" by (simp add: col)
    then have meta: "ser_metadata s1 = ser_metadata s" by (simp add: column_def values_of_def)
    have same: "column s' f = column s1 f" if "f \<noteq> ''metadata''" for f using s' that by auto
    have "column s' f \<noteq> VNull \<and> (overwrite \<or> column s' f = column s f)" if "f \<noteq> ''metadata''" "column s f \<noteq> VNull" for f
      using that wanted [of f] by (auto simp: same col split: option.splits)
    moreover have "f \<in> set (''metadata'' # COLUMNS)" if "column s' f \<noteq> column s f" for f
      using that wanted [of f] by (cases "f = ''metadata''") (auto simp: same col split: option.splits)
    moreover have "map_of (ser_metadata s') x = map_of (ser_metadata s) x" if "x \<noteq> kind" for x
      using s' that meta by (auto simp: map_of_dict_set)
    moreover have "bands_ok (column s')" if "bands_ok (column s)"
    proof -
      have "bands_ok (column s') = bands_ok (column s1)" by (rule bands_cong) (auto simp: same LIMIT_FIELDS_def)
      then show ?thesis using k(3) [OF that] by (simp add: k(1))
    qed
    ultimately show ?thesis by blast
  qed
qed

section \<open>Examples\<close>

definition ex_point_metadata :: point_metadata where
  "ex_point_metadata = \<lparr>pm_unit = Some ''bar'', pm_description = None, pm_physical_min = None, pm_physical_max = Some (Finite 20),
     pm_operational_min = None, pm_operational_max = Some NotFinite, pm_asset_path = None, pm_extra = []\<rparr>"

theorem import_fills_gaps_witness:
  "\<forall>ft isotext. \<exists>s' a. import_metadata ft isotext ex_meta_series ex_point_metadata ''pi_web_api'' False 0 = Some (s', a) \<and>
     column s' ''physical_max'' = VNum 10"
proof (intro allI)
  fix ft :: "rat \<Rightarrow> string" and isotext :: "datetime \<Rightarrow> string"
  obtain s1 a1 where i: "import_columns ex_meta_series ex_point_metadata False = (s1, a1)" by fastforce
  have "column s1 ''metadata'' = column ex_meta_series ''metadata''"
    using i
  proof (rule import_columns_effect)
    fix kept assume k: "column s1 = merged (values_of ex_meta_series) kept"
      "set kept \<subseteq> {(k, v). (k, v) \<in> set (fst (candidates ex_point_metadata)) \<and> (False \<or> column ex_meta_series k = VNull)}"
    have "column ex_meta_series ''metadata'' \<noteq> VNull" by (simp add: column_def values_of_def)
    then have "map_of kept ''metadata'' = None" using k(2) by (cases "map_of kept ''metadata''") (auto dest: map_of_SomeD)
    then show ?thesis by (simp add: k(1) merged_column)
  qed
  then have "ser_metadata s1 = []" by (simp add: column_def values_of_def ex_meta_series_def blank_series_def)
  then obtain s' a where r: "import_metadata ft isotext ex_meta_series ex_point_metadata ''pi_web_api'' False 0 = Some (s', a)"
    by (cases "validate_metadata_blob ft (JObj [(''pi_web_api'', JObj (description_blob ex_point_metadata (isotext 0)))])")
      (simp_all add: import_metadata_def i Let_def)
  have "column ex_meta_series ''physical_max'' = VNum 10" by (simp add: column_def values_of_def ex_meta_series_def)
  with import_fills_gaps [OF r] r
  show "\<exists>s' a. import_metadata ft isotext ex_meta_series ex_point_metadata ''pi_web_api'' False 0 = Some (s', a) \<and>
     column s' ''physical_max'' = VNum 10" by auto
qed

end
