(* ===== verification/Runs.thy ===== *)
theory Runs
  imports Series_Facts Findings Coverage
begin

text \<open>
  \<^verbatim>\<open>services/runs.py\<close>: a run of an upload, from its creation to its terminal state, in the
  transactions of the code: claim, completion or failure, and the cache record after it.  What the worker
  uses from outside is the record \<open>run_env\<close>: the CSV reader, the checks of the core, the cache (tables are
  of any type \<open>'t\<close>), whether the database refuses a transaction, fresh ids and the readings of the clock.
\<close>

section \<open>Parameters of an upload\<close>

definition MAX_UPLOAD_BYTES :: nat where "MAX_UPLOAD_BYTES = 50 * 1024 * 1024"
definition STALE_AFTER :: int where "STALE_AFTER = 30 * 60 * 1000000"
definition WORKER_LOST :: string where "WORKER_LOST = ''worker lost''"
definition RUNS_QUEUE :: string where "RUNS_QUEUE = ''runs''"
definition RUN_CHECKS_TASK :: string where "RUN_CHECKS_TASK = ''tabayyun.run_checks''"

record run_params =
  rn_series_id :: string
  rn_unit :: "string option"
  rn_ts_col :: string
  rn_value_col :: string
  rn_quality_col :: "string option"
  rn_ingest_col :: "string option"
  rn_physical_min :: "rat option"
  rn_physical_max :: "rat option"
  rn_now_ns :: "ns option"
  rn_ts_unit :: string

definition json_opt :: "('a \<Rightarrow> json) \<Rightarrow> 'a option \<Rightarrow> json" where
  "json_opt f x = (case x of None \<Rightarrow> JNull | Some y \<Rightarrow> f y)"

definition params_to_json :: "run_params \<Rightarrow> jobj" where
  "params_to_json p =
     [(''series_id'', JStr (rn_series_id p)), (''unit'', json_opt JStr (rn_unit p)), (''ts_col'', JStr (rn_ts_col p)),
      (''value_col'', JStr (rn_value_col p)), (''quality_col'', json_opt JStr (rn_quality_col p)),
      (''ingest_col'', json_opt JStr (rn_ingest_col p)), (''physical_min'', json_opt JNum (rn_physical_min p)),
      (''physical_max'', json_opt JNum (rn_physical_max p)), (''now_ns'', json_opt JInt (rn_now_ns p)),
      (''ts_unit'', JStr (rn_ts_unit p))]"

text \<open>An absent key takes the field's default; unknown keys are ignored.\<close>

definition str_field :: "jobj \<Rightarrow> string \<Rightarrow> string \<Rightarrow> string" where
  "str_field kvs k def = (case map_of kvs k of Some (JStr s) \<Rightarrow> s | _ \<Rightarrow> def)"

definition opt_field :: "jobj \<Rightarrow> string \<Rightarrow> (json \<Rightarrow> 'a option) \<Rightarrow> 'a option" where
  "opt_field kvs k f = (case map_of kvs k of Some v \<Rightarrow> f v | None \<Rightarrow> None)"

fun json_str :: "json \<Rightarrow> string option" where "json_str (JStr s) = Some s" | "json_str _ = None"
fun json_num :: "json \<Rightarrow> rat option" where
  "json_num (JNum r) = Some r" | "json_num (JInt i) = Some (of_int i)" | "json_num _ = None"
fun json_int :: "json \<Rightarrow> int option" where "json_int (JInt i) = Some i" | "json_int _ = None"

definition params_from_json :: "jobj \<Rightarrow> run_params" where
  "params_from_json kvs =
     \<lparr>rn_series_id = str_field kvs ''series_id'' ''uploaded'', rn_unit = opt_field kvs ''unit'' json_str,
      rn_ts_col = str_field kvs ''ts_col'' ''ts'', rn_value_col = str_field kvs ''value_col'' ''value'',
      rn_quality_col = opt_field kvs ''quality_col'' json_str, rn_ingest_col = opt_field kvs ''ingest_col'' json_str,
      rn_physical_min = opt_field kvs ''physical_min'' json_num, rn_physical_max = opt_field kvs ''physical_max'' json_num,
      rn_now_ns = opt_field kvs ''now_ns'' json_int, rn_ts_unit = str_field kvs ''ts_unit'' ''auto''\<rparr>"

section \<open>What the core and the cache give\<close>

datatype 't csv_result = CsvRead 't string | CsvUnit string | CsvError string

record core_score =
  cs_method_version :: string
  cs_overall :: rat
  cs_dimensions :: jobj
  cs_n_findings :: int

record core_report = check_report +
  cr_n_samples :: int
  cr_window :: "ns \<times> ns"
  cr_now_ns :: ns
  cr_score :: core_score
  cr_skipped :: "jobj list"

text \<open>A raise is its message and its type's name.\<close>

type_synonym raised = "string \<times> string"

record cache_write =
  cw_rows :: int
  cw_files :: int
  cw_start_ns :: ns
  cw_end_ns :: ns

record 't run_env =
  re_read_csv :: "string \<Rightarrow> run_params \<Rightarrow> 't csv_result"
  re_checks :: "'t \<Rightarrow> series_meta \<Rightarrow> run_params \<Rightarrow> raised + core_report"
  re_cache :: "(uuid \<Rightarrow> uuid \<Rightarrow> 't \<Rightarrow> run_params \<Rightarrow> string + cache_write) option"
  re_completion_error :: "raised option"
  re_cache_record_error :: bool
  re_source_id :: uuid
  re_series_id :: uuid
  re_finding_id :: "nat \<Rightarrow> uuid"
  re_now_claim :: datetime
  re_now_finish :: datetime
  re_now_fail :: datetime
  re_now_cache :: datetime

datatype upload_error = UploadError int string

definition parse_upload :: "(string \<Rightarrow> run_params \<Rightarrow> 't csv_result) \<Rightarrow> string \<Rightarrow> run_params \<Rightarrow> upload_error + 't \<times> string" where
  "parse_upload read bytes p =
     (if MAX_UPLOAD_BYTES < length bytes then Inl (UploadError 413 ''upload larger than 50 MiB'')
      else if bytes = [] then Inl (UploadError 400 ''empty upload'')
      else (case read bytes p of
          CsvUnit msg \<Rightarrow> Inl (UploadError 422 msg)
        | CsvError msg \<Rightarrow> Inl (UploadError 422 (''cannot parse CSV: '' @ msg))
        | CsvRead table unit \<Rightarrow> Inr (table, unit)))"

definition error_line :: "raised \<Rightarrow> string" where
  "error_line e = (let message = strip (fst e) in if message = [] then snd e else text_line message)"

section \<open>Creation\<close>

definition create_run :: "db \<Rightarrow> scope \<Rightarrow> string \<Rightarrow> string \<Rightarrow> string option \<Rightarrow> run_params \<Rightarrow> uuid \<Rightarrow> datetime \<Rightarrow> db \<times> run" where
  "create_run d sc bytes filename content_type params new_id now =
     (let r = \<lparr>run_org_id = sc_org sc, run_workspace_id = sc_workspace sc, run_id = new_id, run_dataset_id = None,
              run_trigger = TrigUpload, run_status = RunQueued, run_window_start = None, run_window_end = None,
              run_now_ns = rn_now_ns params, run_started_at = None, run_finished_at = None, run_stats = [],
              run_error = None, run_created_at = now\<rparr>;
          u = \<lparr>up_org_id = sc_org sc, up_run_id = new_id, up_filename = filename, up_content_type = content_type,
              up_size_bytes = int (length bytes), up_data = bytes, up_params = params_to_json params, up_created_at = now\<rparr>
      in (d\<lparr>runs := runs d @ [r], uploads := uploads d @ [u]\<rparr>, r))"

definition enqueue_run :: "db \<Rightarrow> uuid \<Rightarrow> uuid \<Rightarrow> db" where
  "enqueue_run d i org =
     d\<lparr>jobs := jobs d @ [\<lparr>job_queue = RUNS_QUEUE, job_task = RUN_CHECKS_TASK, job_lock = None, job_args = (i, org)\<rparr>]\<rparr>"

section \<open>Reads\<close>

definition find_run :: "db \<Rightarrow> uuid \<Rightarrow> run option" where
  "find_run d i = List.find (\<lambda>r. run_id r = i) (runs d)"

definition get_run :: "db \<Rightarrow> scope \<Rightarrow> uuid \<Rightarrow> run option" where
  "get_run d sc i = List.find (\<lambda>r. run_id r = i \<and> run_workspace_id r = sc_workspace sc) (runs d)"

definition run_key :: "run \<Rightarrow> datetime \<times> uuid" where
  "run_key r = (run_created_at r, run_id r)"

definition list_runs :: "db \<Rightarrow> scope \<Rightarrow> nat \<Rightarrow> (datetime \<times> uuid) option \<Rightarrow> run list \<times> (datetime \<times> uuid) option" where
  "list_runs d sc limit cursor =
     newest_page run_key limit cursor (filter (\<lambda>r. run_workspace_id r = sc_workspace sc) (runs d))"

interpretation run_pages: keyset_listing run_key "\<lambda>a b. b < a" "newest_first run_key"
  by (rule newest_first_listing)

definition window_json :: "ns \<Rightarrow> ns \<Rightarrow> json" where
  "window_json s e = JObj [(''start'', JInt s), (''end'', JInt e)]"

record run_view =
  rv_run :: run
  rv_window :: "json option"
  rv_duration_ms :: "int option"
  rv_stats :: jobj
  rv_series :: json

definition pop_key :: "string \<Rightarrow> jobj \<Rightarrow> jobj" where
  "pop_key k kvs = filter (\<lambda>kv. fst kv \<noteq> k) kvs"

definition run_to_dict :: "run \<Rightarrow> run_view" where
  "run_to_dict r =
     \<lparr>rv_run = r,
      rv_window = (case map_of (run_stats r) ''window'' of
          Some w \<Rightarrow> if w = JNull then
              (case (run_window_start r, run_window_end r) of
                 (Some s, Some e) \<Rightarrow> Some (window_json (datetime_to_ns s) (datetime_to_ns e)) | _ \<Rightarrow> None) else Some w
        | None \<Rightarrow> (case (run_window_start r, run_window_end r) of
            (Some s, Some e) \<Rightarrow> Some (window_json (datetime_to_ns s) (datetime_to_ns e)) | _ \<Rightarrow> None)),
      rv_duration_ms = (case (run_started_at r, run_finished_at r) of
          (Some s, Some f) \<Rightarrow> Some (if s \<le> f then (f - s) div 1000 else - ((s - f) div 1000)) | _ \<Rightarrow> None),
      rv_stats = pop_key ''window'' (pop_key ''series'' (run_stats r)),
      rv_series = (case map_of (run_stats r) ''series'' of None \<Rightarrow> JArr [] | Some s \<Rightarrow> s)\<rparr>"

section \<open>The transactions of a run\<close>

definition set_run :: "db \<Rightarrow> uuid \<Rightarrow> (run \<Rightarrow> run) \<Rightarrow> db" where
  "set_run d i f = d\<lparr>runs := update_where (\<lambda>r. run_id r = i) f (runs d)\<rparr>"

definition drop_upload :: "db \<Rightarrow> uuid \<Rightarrow> db" where
  "drop_upload d i = d\<lparr>uploads := delete_where (\<lambda>u. up_run_id u = i) (uploads d)\<rparr>"

definition mark_failed :: "db \<Rightarrow> uuid \<Rightarrow> string \<Rightarrow> datetime \<Rightarrow> db" where
  "mark_failed d i msg now =
     drop_upload (d\<lparr>runs := update_where (\<lambda>r. run_id r = i \<and> run_status r \<in> {RunQueued, RunRunning})
        (\<lambda>r. r\<lparr>run_status := RunFailed, run_error := Some (take 1000 msg), run_finished_at := Some now\<rparr>) (runs d)\<rparr>) i"

text \<open>The worker's copy of an upload: its bytes and parameters, and the stored series it names.\<close>

record payload =
  pl_bytes :: string
  pl_params :: run_params
  pl_stored :: "series option"

definition run_scope :: "run \<Rightarrow> scope" where
  "run_scope r = \<lparr>sc_org = run_org_id r, sc_workspace = run_workspace_id r\<rparr>"

definition claim_run :: "db \<Rightarrow> uuid \<Rightarrow> datetime \<Rightarrow> (db \<times> scope \<times> payload option) option" where
  "claim_run d i now =
     (case find_run d i of
        None \<Rightarrow> None
      | Some r \<Rightarrow>
          if run_status r \<noteq> RunQueued then None
          else Some (set_run d i (\<lambda>r. r\<lparr>run_status := RunRunning, run_started_at := Some now\<rparr>), run_scope r,
            map_option (\<lambda>u. let p = params_from_json (up_params u)
               in \<lparr>pl_bytes = up_data u, pl_params = p, pl_stored = find_upload_series d (run_scope r) (rn_series_id p)\<rparr>)
             (List.find (\<lambda>u. up_run_id u = i) (uploads d))))"

record 't checked_run =
  ck_params :: run_params
  ck_overrides :: cols
  ck_table :: 't
  ck_ts_unit :: string
  ck_report :: core_report

definition metadata_message :: "metadata_error \<Rightarrow> string" where
  "metadata_message e = me_field e @ '': '' @ me_message e"

text \<open>From the payload to the report, or the message of the failure.\<close>

definition check_upload :: "'t run_env \<Rightarrow> payload option \<Rightarrow> string + 't checked_run" where
  "check_upload E pl =
     (case pl of
        None \<Rightarrow> Inl ''upload missing''
      | Some p \<Rightarrow>
          (let params = pl_params p;
               overrides = upload_overrides (rn_unit params) (rn_physical_min params) (rn_physical_max params)
           in case merged_for_run (pl_stored p) overrides of
                Inl e \<Rightarrow> Inl (''invalid series metadata: '' @ metadata_message e)
              | Inr vals \<Rightarrow>
                  (case parse_upload (re_read_csv E) (pl_bytes p) params of
                     Inl (UploadError code detail) \<Rightarrow> Inl detail
                   | Inr (table, unit) \<Rightarrow>
                       (case meta_for_core (rn_series_id params) vals of
                          Inl msg \<Rightarrow> Inl (''core error: '' @ msg)
                        | Inr meta \<Rightarrow>
                            (case re_checks E table meta params of
                               Inl e \<Rightarrow> Inl (''core error: '' @ error_line e)
                             | Inr rep \<Rightarrow> Inr \<lparr>ck_params = params, ck_overrides = overrides, ck_table = table,
                                 ck_ts_unit = unit, ck_report = rep\<rparr>)))))"

definition score_row :: "scope \<Rightarrow> uuid \<Rightarrow> uuid \<Rightarrow> core_score \<Rightarrow> datetime \<Rightarrow> score" where
  "score_row sc i series_id s now =
     \<lparr>sc_org_id = sc_org sc, sc_series_id = series_id, sc_run_id = i, sc_layer = ''raw'',
      sc_method_version = cs_method_version s, sc_overall = cs_overall s, sc_dimensions = cs_dimensions s,
      sc_n_findings = cs_n_findings s, sc_computed_at = now\<rparr>"

definition run_stats_of :: "'t checked_run \<Rightarrow> series \<Rightarrow> persist_outcome \<Rightarrow> jobj" where
  "run_stats_of c s out =
     (let rep = ck_report c
      in [(''n_series'', JInt 1), (''n_samples'', JInt (cr_n_samples rep)),
          (''n_findings'', JInt (int (length (rep_findings rep)))), (''n_metrics'', JInt (int (po_metrics out))),
          (''n_findings_new'', JInt (int (po_new out))), (''n_findings_merged'', JInt (int (po_merged out))),
          (''skipped'', JInt (int (length (cr_skipped rep)))), (''skipped_checks'', JArr (map JObj (cr_skipped rep))),
          (''ts_unit'', JStr (ck_ts_unit c)), (''window'', window_json (fst (cr_window rep)) (snd (cr_window rep))),
          (''series'', JArr [JObj [(''id'', JStr (uuid_str (ser_id s))), (''external_id'', JStr (ser_external_id s)),
             (''score'', JNum (cs_overall (cr_score rep)))]])])"

text \<open>The completion: \<open>NotRunning\<close> when the run is no longer running, \<open>Refused\<close> with the message the run fails with.\<close>

datatype completion = NotRunning | Refused string | Completed db series

definition succeed_run :: "run \<Rightarrow> ns \<Rightarrow> ns \<Rightarrow> ns \<Rightarrow> datetime \<Rightarrow> run" where
  "succeed_run r start_ns end_ns now_ns now =
     r\<lparr>run_status := RunSucceeded, run_finished_at := Some now, run_window_start := Some (ns_to_datetime start_ns),
       run_window_end := Some (ns_to_datetime_ceil end_ns), run_now_ns := Some now_ns, run_error := None\<rparr>"

definition is_running :: "db \<Rightarrow> uuid \<Rightarrow> bool" where
  "is_running d i \<longleftrightarrow> (\<exists>r \<in> set (runs d). run_id r = i \<and> run_status r = RunRunning)"

definition fresh_ids :: "(nat \<Rightarrow> uuid) \<Rightarrow> core_report \<Rightarrow> uuid list" where
  "fresh_ids f rep = map f [0..<length (rep_findings rep)]"

definition complete_run :: "'t run_env \<Rightarrow> db \<Rightarrow> uuid \<Rightarrow> scope \<Rightarrow> 't checked_run \<Rightarrow> completion" where
  "complete_run E d i sc c =
     (let now = re_now_finish E; rep = ck_report c
      in if \<not> is_running d i then NotRunning
         else (case upsert_upload_series (set_run d i (\<lambda>r. succeed_run r (fst (cr_window rep)) (snd (cr_window rep)) (cr_now_ns rep) now))
                      sc (rn_series_id (ck_params c)) (ck_overrides c) (re_source_id E) (re_series_id E) now of
             Inl e \<Rightarrow> Refused (''invalid series metadata: '' @ metadata_message e)
           | Inr (d2, s) \<Rightarrow>
               (let d3 = d2\<lparr>scores := scores d2 @ [score_row sc i (ser_id s) (cr_score rep) now]\<rparr>;
                    (d4, out) = persist_report d3 sc i (ser_id s) (check_report.truncate rep) now (fresh_ids (re_finding_id E) rep);
                    d5 = drop_upload (set_run d4 i (\<lambda>r. r\<lparr>run_stats := run_stats_of c s out\<rparr>)) i
                in (case re_completion_error E of
                      Some e \<Rightarrow> Refused (''persist error: '' @ error_line e)
                    | None \<Rightarrow> Completed d5 s))))"

text \<open>After a success: the cache, its coverage and \<^verbatim>\<open>stats.cache\<close>.\<close>

definition cache_upload :: "'t run_env \<Rightarrow> db \<Rightarrow> uuid \<Rightarrow> scope \<Rightarrow> series \<Rightarrow> 't checked_run \<Rightarrow> db" where
  "cache_upload E d i sc s c =
     (case re_cache E of
        None \<Rightarrow> d
      | Some write \<Rightarrow>
          (let written = write (ser_source_id s) (ser_id s) (ck_table c) (ck_params c);
               info = (case written of
                   Inl msg \<Rightarrow> [(''written'', JBool False), (''error'', JStr msg)]
                 | Inr w \<Rightarrow> [(''written'', JBool True), (''rows'', JInt (cw_rows w)), (''files'', JInt (cw_files w))]);
               d1 = (case written of
                   Inl msg \<Rightarrow> d
                 | Inr w \<Rightarrow> if cw_rows w = 0 then d
                     else coverage_record d (sc_org sc) (ser_id s) (cw_start_ns w) (cw_end_ns w) (cw_rows w) (re_now_cache E) RAW_LAYER)
           in if re_cache_record_error E then d
              else set_run d1 i (\<lambda>r. r\<lparr>run_stats := dict_merge (run_stats r) [(''cache'', JObj info)]\<rparr>)))"

definition execute_run :: "'t run_env \<Rightarrow> db \<Rightarrow> uuid \<Rightarrow> db" where
  "execute_run E d i =
     (case claim_run d i (re_now_claim E) of
        None \<Rightarrow> d
      | Some (d1, sc, pl) \<Rightarrow>
          (case check_upload E pl of
             Inl msg \<Rightarrow> mark_failed d1 i msg (re_now_fail E)
           | Inr c \<Rightarrow>
               (case complete_run E d1 i sc c of
                  NotRunning \<Rightarrow> d1
                | Refused msg \<Rightarrow> mark_failed d1 i msg (re_now_fail E)
                | Completed d2 s \<Rightarrow> cache_upload E d2 i sc s c)))"

text \<open>The reaper's function of migration 0004.\<close>

definition reap_stale_runs :: "db \<Rightarrow> int \<Rightarrow> datetime \<Rightarrow> db \<times> nat" where
  "reap_stale_runs d older_than now =
     (let stale = (\<lambda>r. run_status r = RunRunning \<and> (case run_started_at r of None \<Rightarrow> False | Some t \<Rightarrow> t < now - older_than));
          d1 = d\<lparr>runs := update_where stale
                 (\<lambda>r. r\<lparr>run_status := RunFailed, run_error := Some WORKER_LOST, run_finished_at := Some now\<rparr>) (runs d)\<rparr>
      in (d1\<lparr>uploads := delete_where (\<lambda>u. \<exists>r \<in> set (runs d1). run_id r = up_run_id u \<and> run_status r = RunFailed \<and>
                run_error r = Some WORKER_LOST) (uploads d1)\<rparr>,
          length (filter stale (runs d))))"

definition count_runs :: "db \<Rightarrow> nat" where "count_runs d = length (runs d)"

end
