(* ===== verification/Series_Groups.thy ===== *)
theory Series_Groups
  imports Json Admin Pagination
begin

text \<open>
  \<^verbatim>\<open>services/groups.py\<close>: series groups, their members in declaration order and the rules of
  each kind, checked on every write.  The text of a float in the group's parameters is the parameter
  \<open>ft\<close> of the JSON size.
\<close>

section \<open>Groups and their rules\<close>

definition MIN_MEMBERS :: nat where "MIN_MEMBERS = 2"
definition MAX_MEMBERS :: nat where "MAX_MEMBERS = 32"
definition MAX_PARAMS_BYTES :: nat where "MAX_PARAMS_BYTES = 8 * 1024"

datatype group_error = GroupError string | GroupNameTaken

record member_in =
  mi_series_id :: uuid
  mi_role :: member_role

record member_out =
  mo_series_id :: uuid
  mo_external_id :: string
  mo_role :: member_role

definition validate_members :: "group_kind \<Rightarrow> member_in list \<Rightarrow> group_error + unit" where
  "validate_members kind members =
     (let roles = map mi_role members
      in rbind (require (MIN_MEMBERS \<le> length members \<and> length members \<le> MAX_MEMBERS) (GroupError ''members'')) (\<lambda>_.
         rbind (require (distinct (map mi_series_id members)) (GroupError ''members'')) (\<lambda>_.
         rbind (require (\<not> (kind \<in> {Related, Redundant} \<and> (\<exists>r \<in> set roles. r \<noteq> RoleMember))) (GroupError ''members'')) (\<lambda>_.
           if kind = Balance
           then rbind (require (RoleMember \<notin> set roles) (GroupError ''members'')) (\<lambda>_.
                  require (RoleInput \<in> set roles \<and> RoleOutput \<in> set roles) (GroupError ''members''))
           else Inr ()))))"

definition validate_params :: "(rat \<Rightarrow> string) \<Rightarrow> jobj \<Rightarrow> group_error + unit" where
  "validate_params ft params = require (json_size ft quote (JObj params) \<le> MAX_PARAMS_BYTES) (GroupError ''params'')"

definition check_series_exist :: "db \<Rightarrow> scope \<Rightarrow> member_in list \<Rightarrow> group_error + unit" where
  "check_series_exist d sc members =
     require (\<forall>m \<in> set members. \<exists>s \<in> set (all_series d). ser_id s = mi_series_id m \<and> ser_workspace_id s = sc_workspace sc)
       (GroupError ''members'')"

definition group_name_taken :: "db \<Rightarrow> scope \<Rightarrow> string \<Rightarrow> uuid option \<Rightarrow> bool" where
  "group_name_taken d sc name exclude \<longleftrightarrow>
     (\<exists>g \<in> set (series_groups d). sg_workspace_id g = sc_workspace sc \<and> sg_name g = name \<and> exclude \<noteq> Some (sg_id g))"

definition member_rows :: "scope \<Rightarrow> uuid \<Rightarrow> member_in list \<Rightarrow> series_group_member list" where
  "member_rows sc i members =
     map (\<lambda>(p, m). \<lparr>sgm_org_id = sc_org sc, sgm_group_id = i, sgm_series_id = mi_series_id m, sgm_role = mi_role m,
            sgm_position = p\<rparr>) (enumerate 0 members)"

definition replace_members :: "db \<Rightarrow> scope \<Rightarrow> uuid \<Rightarrow> member_in list \<Rightarrow> db" where
  "replace_members d sc i members =
     d\<lparr>group_members := delete_where (\<lambda>r. sgm_group_id r = i) (group_members d) @ member_rows sc i members\<rparr>"

section \<open>Operations\<close>

definition create_group :: "db \<Rightarrow> (rat \<Rightarrow> string) \<Rightarrow> scope \<Rightarrow> string \<Rightarrow> group_kind \<Rightarrow> member_in list \<Rightarrow> jobj \<Rightarrow> uuid \<Rightarrow> datetime
    \<Rightarrow> group_error + db \<times> series_group" where
  "create_group d ft sc name kind members params new_id now =
     rbind (validate_members kind members) (\<lambda>_.
     rbind (validate_params ft params) (\<lambda>_.
     rbind (check_series_exist d sc members) (\<lambda>_.
     rbind (require (\<not> group_name_taken d sc name None) GroupNameTaken) (\<lambda>_.
       let g = \<lparr>sg_org_id = sc_org sc, sg_workspace_id = sc_workspace sc, sg_id = new_id, sg_name = name,
                sg_kind = kind, sg_params = params, sg_created_at = now, sg_updated_at = now\<rparr>
       in Inr (replace_members (d\<lparr>series_groups := series_groups d @ [g]\<rparr>) sc new_id members, g)))))"

definition get_group :: "db \<Rightarrow> scope \<Rightarrow> uuid \<Rightarrow> series_group option" where
  "get_group d sc i =
     (case List.find (\<lambda>g. sg_id g = i) (series_groups d) of
        None \<Rightarrow> None
      | Some g \<Rightarrow> if sg_workspace_id g = sc_workspace sc then Some g else None)"

definition members_of :: "db \<Rightarrow> uuid list \<Rightarrow> (uuid \<times> member_out list) list" where
  "members_of d ids =
     map (\<lambda>i. (i, concat (map (\<lambda>r. map (\<lambda>s. \<lparr>mo_series_id = sgm_series_id r, mo_external_id = ser_external_id s, mo_role = sgm_role r\<rparr>)
              (filter (\<lambda>s. ser_id s = sgm_series_id r) (all_series d)))
            (sort_key sgm_position (filter (\<lambda>r. sgm_group_id r = i) (group_members d)))))) ids"

definition group_key :: "series_group \<Rightarrow> datetime \<times> uuid" where
  "group_key g = (sg_created_at g, sg_id g)"

definition groups_listed :: "db \<Rightarrow> scope \<Rightarrow> uuid option \<Rightarrow> series_group list" where
  "groups_listed d sc series_id =
     filter (\<lambda>g. sg_workspace_id g = sc_workspace sc \<and>
        (case series_id of None \<Rightarrow> True
         | Some s \<Rightarrow> \<exists>r \<in> set (group_members d). sgm_series_id r = s \<and> sgm_group_id r = sg_id g)) (series_groups d)"

definition list_groups :: "db \<Rightarrow> scope \<Rightarrow> uuid option \<Rightarrow> nat \<Rightarrow> (datetime \<times> uuid) option
    \<Rightarrow> series_group list \<times> (datetime \<times> uuid) option" where
  "list_groups d sc series_id limit cursor = newest_page group_key limit cursor (groups_listed d sc series_id)"

text \<open>The fields a request changes; the kind is fixed.\<close>

record group_changes =
  gc_name :: "string option"
  gc_params :: "jobj option"
  gc_members :: "member_in list option"

definition set_group :: "db \<Rightarrow> uuid \<Rightarrow> (series_group \<Rightarrow> series_group) \<Rightarrow> db" where
  "set_group d i f = d\<lparr>series_groups := update_where (\<lambda>g. sg_id g = i) f (series_groups d)\<rparr>"

definition patch_name :: "db \<Rightarrow> scope \<Rightarrow> series_group \<Rightarrow> string option \<Rightarrow> group_error + db" where
  "patch_name d sc g name =
     (case name of
        None \<Rightarrow> Inr d
      | Some n \<Rightarrow> if n = sg_name g then Inr d
          else rbind (require (\<not> group_name_taken d sc n (Some (sg_id g))) GroupNameTaken) (\<lambda>_.
                 Inr (set_group d (sg_id g) (\<lambda>x. x\<lparr>sg_name := n\<rparr>))))"

definition patch_params :: "db \<Rightarrow> (rat \<Rightarrow> string) \<Rightarrow> series_group \<Rightarrow> jobj option \<Rightarrow> group_error + db" where
  "patch_params d ft g params =
     (case params of
        None \<Rightarrow> Inr d
      | Some p \<Rightarrow> rbind (validate_params ft p) (\<lambda>_. Inr (set_group d (sg_id g) (\<lambda>x. x\<lparr>sg_params := p\<rparr>))))"

definition patch_members :: "db \<Rightarrow> scope \<Rightarrow> series_group \<Rightarrow> member_in list option \<Rightarrow> group_error + db" where
  "patch_members d sc g members =
     (case members of
        None \<Rightarrow> Inr d
      | Some ms \<Rightarrow> rbind (validate_members (sg_kind g) ms) (\<lambda>_.
          rbind (check_series_exist d sc ms) (\<lambda>_. Inr (replace_members d sc (sg_id g) ms))))"

text \<open>A refusal rolls the whole request back, so it returns no database.\<close>

definition patch_group :: "db \<Rightarrow> (rat \<Rightarrow> string) \<Rightarrow> scope \<Rightarrow> uuid \<Rightarrow> group_changes \<Rightarrow> datetime
    \<Rightarrow> group_error + (db \<times> series_group) option" where
  "patch_group d ft sc i ch now =
     (case get_group d sc i of
        None \<Rightarrow> Inr None
      | Some g \<Rightarrow>
          rbind (patch_name d sc g (gc_name ch)) (\<lambda>d1.
          rbind (patch_params d1 ft g (gc_params ch)) (\<lambda>d2.
          rbind (patch_members d2 sc g (gc_members ch)) (\<lambda>d3.
            let d4 = set_group d3 i (\<lambda>x. x\<lparr>sg_updated_at := now\<rparr>)
            in Inr (map_option (\<lambda>x. (d4, x)) (get_group d4 sc i))))))"

text \<open>Deleting cascades to the members.\<close>

definition delete_group :: "db \<Rightarrow> scope \<Rightarrow> uuid \<Rightarrow> db \<times> bool" where
  "delete_group d sc i =
     (case get_group d sc i of
        None \<Rightarrow> (d, False)
      | Some _ \<Rightarrow>
          (d\<lparr>series_groups := delete_where (\<lambda>g. sg_id g = i) (series_groups d),
             group_members := delete_where (\<lambda>r. sgm_group_id r = i) (group_members d)\<rparr>, True))"

definition groups_within :: "db \<Rightarrow> scope \<Rightarrow> uuid list \<Rightarrow> series_group list" where
  "groups_within d sc ids =
     sort_key sg_name (filter (\<lambda>g. sg_workspace_id g = sc_workspace sc \<and>
        (\<exists>r \<in> set (group_members d). sgm_series_id r \<in> set ids \<and> sgm_group_id r = sg_id g)) (series_groups d))"

interpretation group_pages: keyset_listing group_key "\<lambda>a b. b < a" "newest_first group_key"
  by (rule newest_first_listing)

interpretation group_names: named_rows sg_id sg_workspace_id sg_name "\<lambda>n g. g\<lparr>sg_name := n\<rparr>"
  by unfold_locales simp_all

section \<open>Facts\<close>

text \<open>The members of a group in stored order, as they were declared.\<close>

definition declared :: "db \<Rightarrow> uuid \<Rightarrow> series_group_member list" where
  "declared d i = filter (\<lambda>r. sgm_group_id r = i) (group_members d)"

definition as_declared :: "series_group_member \<Rightarrow> member_in" where
  "as_declared r = \<lparr>mi_series_id = sgm_series_id r, mi_role = sgm_role r\<rparr>"

definition series_in :: "db \<Rightarrow> uuid \<Rightarrow> uuid \<Rightarrow> bool" where
  "series_in d w i \<longleftrightarrow> (\<exists>s \<in> set (all_series d). ser_id s = i \<and> ser_workspace_id s = w)"

text \<open>One group with its members: what its kind allows, in positions 0, 1, 2 and so on.\<close>

definition group_ok :: "(rat \<Rightarrow> string) \<Rightarrow> db \<Rightarrow> series_group \<Rightarrow> series_group_member list \<Rightarrow> bool" where
  "group_ok ft d g rows \<longleftrightarrow>
     validate_members (sg_kind g) (map as_declared rows) = Inr () \<and>
     validate_params ft (sg_params g) = Inr () \<and>
     (\<forall>r \<in> set rows. series_in d (sg_workspace_id g) (sgm_series_id r)) \<and>
     map sgm_position rows = [0..<length rows]"

definition groups_ok :: "(rat \<Rightarrow> string) \<Rightarrow> db \<Rightarrow> bool" where
  "groups_ok ft d \<longleftrightarrow> names_unique sg_id sg_workspace_id sg_name (series_groups d) \<and>
     (\<forall>r \<in> set (group_members d). \<exists>g \<in> set (series_groups d). sg_id g = sgm_group_id r) \<and>
     (\<forall>g \<in> set (series_groups d). group_ok ft d g (declared d (sg_id g)))"

lemma member_rows_simps [simp]:
  "map as_declared (member_rows sc i ms) = ms" "map sgm_position (member_rows sc i ms) = [0..<length ms]"
  "length (member_rows sc i ms) = length ms" "filter (\<lambda>r. sgm_group_id r = j) (member_rows sc i ms) = (if j = i then member_rows sc i ms else [])"
proof -
  show "map as_declared (member_rows sc i ms) = ms"
    by (rule nth_equalityI) (simp_all add: member_rows_def as_declared_def enumerate_eq_zip)
  show "map sgm_position (member_rows sc i ms) = [0..<length ms]"
    by (simp add: member_rows_def comp_def case_prod_beta enumerate_eq_zip)
  show "length (member_rows sc i ms) = length ms" by (simp add: member_rows_def)
  have "\<forall>r \<in> set (member_rows sc i ms). sgm_group_id r = i" by (auto simp: member_rows_def)
  then show "filter (\<lambda>r. sgm_group_id r = j) (member_rows sc i ms) = (if j = i then member_rows sc i ms else [])"
    by (auto simp: filter_empty_conv filter_id_conv)
qed

lemma declared_replace: "declared (replace_members d sc i ms) j = (if j = i then member_rows sc i ms else declared d j)"
  by (auto simp: declared_def replace_members_def delete_where_def intro!: filter_cong)

lemma members_checked:
  "check_series_exist d sc ms = Inr () \<longleftrightarrow> (\<forall>m \<in> set ms. series_in d (sc_workspace sc) (mi_series_id m))"
  by (simp add: check_series_exist_def series_in_def)

lemma series_of_rows: "(\<forall>r \<in> set rows. series_in d w (sgm_series_id r)) \<longleftrightarrow> (\<forall>m \<in> set (map as_declared rows). series_in d w (mi_series_id m))"
  by (simp add: as_declared_def)

lemma get_groupD: "get_group d sc i = Some g \<Longrightarrow> g \<in> set (series_groups d) \<and> sg_id g = i \<and> sg_workspace_id g = sc_workspace sc"
  unfolding get_group_def by (auto split: option.splits if_splits dest: find_SomeD)

lemma not_taken: "\<not> group_name_taken d sc n x \<Longrightarrow> \<not> name_taken sg_id sg_workspace_id sg_name (series_groups d) (sc_workspace sc) n x"
  by (auto simp: group_name_taken_def name_taken_def split: option.splits dest: find_SomeD)


lemma group_ok_cong:
  "sg_kind g' = sg_kind g \<Longrightarrow> sg_workspace_id g' = sg_workspace_id g \<Longrightarrow> validate_params ft (sg_params g') = Inr () \<Longrightarrow>
   group_ok ft d g rows \<Longrightarrow> group_ok ft d g' rows"
  by (simp add: group_ok_def)

lemma group_ok_series: "all_series d' = all_series d \<Longrightarrow> group_ok ft d' g rows = group_ok ft d g rows"
  by (simp add: group_ok_def series_in_def)

lemma set_group_frames [simp]:
  "group_members (set_group d i f) = group_members d" "all_series (set_group d i f) = all_series d"
  "declared (set_group d i f) j = declared d j"
  by (simp_all add: set_group_def declared_def)

lemma replace_members_frames [simp]:
  "series_groups (replace_members d sc i ms) = series_groups d" "all_series (replace_members d sc i ms) = all_series d"
  by (simp_all add: replace_members_def)

lemma groups_ok_set:
  assumes ok: "groups_ok ft d" and names: "names_unique sg_id sg_workspace_id sg_name (series_groups (set_group d i f))"
    and f: "\<And>g. sg_id (f g) = sg_id g \<and> sg_workspace_id (f g) = sg_workspace_id g \<and> sg_kind (f g) = sg_kind g"
    and p: "\<And>g. g \<in> set (series_groups d) \<Longrightarrow> validate_params ft (sg_params (f g)) = Inr ()"
  shows "groups_ok ft (set_group d i f)"
proof -
  have rows: "x \<in> set (series_groups (set_group d i f)) \<longleftrightarrow> (\<exists>g \<in> set (series_groups d). x = (if sg_id g = i then f g else g))" for x
    by (simp add: set_group_def in_set_update_where)
  have "\<exists>x \<in> set (series_groups (set_group d i f)). sg_id x = j" if "\<exists>g \<in> set (series_groups d). sg_id g = j" for j
  proof -
    from that obtain g where "g \<in> set (series_groups d)" "sg_id g = j" by blast
    with f show ?thesis by (intro bexI [of _ "if sg_id g = i then f g else g"]) (auto simp: rows)
  qed
  moreover have "group_ok ft (set_group d i f) x (declared d (sg_id x))" if "x \<in> set (series_groups (set_group d i f))" for x
  proof -
    from that rows obtain g where g: "g \<in> set (series_groups d)" and x: "x = (if sg_id g = i then f g else g)" by blast
    have "group_ok ft d g (declared d (sg_id g))" using ok g by (simp add: groups_ok_def)
    then have "group_ok ft d x (declared d (sg_id g))" using f p [OF g] x by (auto intro: group_ok_cong)
    moreover have "sg_id x = sg_id g" using f x by simp
    ultimately show ?thesis by (simp add: group_ok_series [of "set_group d i f" d])
  qed
  ultimately show ?thesis using ok names by (simp add: groups_ok_def)
qed

lemma groups_ok_replace:
  assumes ok: "groups_ok ft d" and g: "g \<in> set (series_groups d)" "sg_workspace_id g = sc_workspace sc"
    and v: "validate_members (sg_kind g) ms = Inr ()" "check_series_exist d sc ms = Inr ()"
  shows "groups_ok ft (replace_members d sc (sg_id g) ms)"
proof -
  let ?d = "replace_members d sc (sg_id g) ms"
  have fk: "\<exists>x \<in> set (series_groups d). sg_id x = sgm_group_id r" if "r \<in> set (group_members ?d)" for r
    using that ok g(1) by (auto simp: replace_members_def member_rows_def groups_ok_def)
  have "group_ok ft d x (declared ?d (sg_id x))" if x: "x \<in> set (series_groups d)" for x
  proof (cases "sg_id x = sg_id g")
    case True
    then have xg: "x = g" using ok x g(1) by (auto simp: groups_ok_def names_unique_def dest: uniq_keyD)
    have "validate_params ft (sg_params g) = Inr ()" using ok g(1) by (simp add: groups_ok_def group_ok_def)
    then show ?thesis using v g(2)
      by (simp add: xg declared_replace group_ok_def series_of_rows members_checked)
  next
    case False
    then show ?thesis using ok x by (simp add: declared_replace groups_ok_def)
  qed
  with fk ok show ?thesis by (simp add: groups_ok_def group_ok_series [of ?d d])
qed

lemma create_group_keeps:
  assumes ok: "groups_ok ft d" and fresh: "new_id \<notin> sg_id ` set (series_groups d)"
    and run: "create_group d ft sc name kind ms params new_id now = Inr (d', g)"
  shows "groups_ok ft d'"
proof -
  from run have v: "validate_members kind ms = Inr ()" "validate_params ft params = Inr ()" "check_series_exist d sc ms = Inr ()"
    and free: "\<not> group_name_taken d sc name None"
    and g: "g = \<lparr>sg_org_id = sc_org sc, sg_workspace_id = sc_workspace sc, sg_id = new_id, sg_name = name,
                sg_kind = kind, sg_params = params, sg_created_at = now, sg_updated_at = now\<rparr>"
    and d': "d' = replace_members (d\<lparr>series_groups := series_groups d @ [g]\<rparr>) sc new_id ms"
    by (auto simp: create_group_def result_simps Let_def)
  have names: "names_unique sg_id sg_workspace_id sg_name (series_groups d @ [g])"
  proof (rule group_names.insert_keeps)
    show "names_unique sg_id sg_workspace_id sg_name (series_groups d)" using ok by (simp add: groups_ok_def)
    show "\<forall>x \<in> set (series_groups d). sg_id x \<noteq> sg_id g" using fresh by (force simp: g)
    show "\<not> name_taken sg_id sg_workspace_id sg_name (series_groups d) (sg_workspace_id g) (sg_name g) None"
      using not_taken [OF free] by (simp add: g)
  qed
  have fk: "\<exists>x \<in> set (series_groups d'). sg_id x = sgm_group_id r" if "r \<in> set (group_members d')" for r
    using that ok by (auto simp: d' replace_members_def member_rows_def groups_ok_def g)
  have decl: "declared d' j = (if j = new_id then member_rows sc new_id ms else declared d j)" for j
    unfolding d' declared_replace by (simp add: declared_def)
  have new: "group_ok ft d g (member_rows sc new_id ms)"
    using v by (simp add: g group_ok_def series_of_rows members_checked)
  have "group_ok ft d x (declared d' (sg_id x))" if "x \<in> set (series_groups d')" for x
  proof (cases "x = g")
    case True
    with new show ?thesis by (simp add: decl) (simp add: g)
  next
    case False
    with that have "x \<in> set (series_groups d)" by (simp add: d')
    with fresh ok show ?thesis by (auto simp: decl groups_ok_def)
  qed
  moreover have "group_ok ft d' x rows = group_ok ft d x rows" for x rows by (rule group_ok_series) (simp add: d')
  moreover have "series_groups d' = series_groups d @ [g]" by (simp add: d')
  ultimately show ?thesis using fk names by (simp add: groups_ok_def)
qed

lemma patch_name_keeps:
  assumes ok: "groups_ok ft d" and g: "g \<in> set (series_groups d)" "sg_workspace_id g = sc_workspace sc"
    and run: "patch_name d sc g n = Inr d'"
  shows "groups_ok ft d'"
proof (cases "d' = d")
  case False
  with run obtain m where free: "\<not> group_name_taken d sc m (Some (sg_id g))" and d': "d' = set_group d (sg_id g) (\<lambda>x. x\<lparr>sg_name := m\<rparr>)"
    by (auto simp: patch_name_def result_simps split: option.splits if_splits)
  have "names_unique sg_id sg_workspace_id sg_name (update_where (\<lambda>x. sg_id x = sg_id g) (\<lambda>x. x\<lparr>sg_name := m\<rparr>) (series_groups d))"
    by (rule group_names.rename_keeps) (use ok g not_taken [OF free] in \<open>simp_all add: groups_ok_def\<close>)
  then show ?thesis unfolding d'
    by (intro groups_ok_set [OF ok]) (use ok in \<open>simp_all add: set_group_def groups_ok_def group_ok_def\<close>)
qed (use ok in simp)

lemma names_unique_same:
  "names_unique sg_id sg_workspace_id sg_name (series_groups d) \<Longrightarrow>
   (\<And>g. sg_id (f g) = sg_id g \<and> sg_workspace_id (f g) = sg_workspace_id g \<and> sg_name (f g) = sg_name g) \<Longrightarrow>
   names_unique sg_id sg_workspace_id sg_name (series_groups (set_group d i f))"
  by (simp add: names_unique_def set_group_def uniq_key_update_where)

lemma patch_params_keeps:
  assumes ok: "groups_ok ft d" and run: "patch_params d ft g p = Inr d'"
  shows "groups_ok ft d'"
proof (cases p)
  case (Some q)
  with run have v: "validate_params ft q = Inr ()" and d': "d' = set_group d (sg_id g) (\<lambda>x. x\<lparr>sg_params := q\<rparr>)"
    by (auto simp: patch_params_def result_simps)
  have "names_unique sg_id sg_workspace_id sg_name (series_groups d)" using ok by (simp add: groups_ok_def)
  then show ?thesis unfolding d'
    by (intro groups_ok_set [OF ok] names_unique_same) (simp_all add: v)
qed (use ok run in \<open>simp add: patch_params_def\<close>)

text \<open>A patched group is still there, with its kind and workspace.\<close>

definition stays :: "db \<Rightarrow> db \<Rightarrow> series_group \<Rightarrow> bool" where
  "stays d d' g \<longleftrightarrow> (\<exists>x \<in> set (series_groups d'). sg_id x = sg_id g \<and> sg_kind x = sg_kind g \<and> sg_workspace_id x = sg_workspace_id g)"

lemma patch_stays:
  "g \<in> set (series_groups d) \<Longrightarrow> patch_name d sc g n = Inr d1 \<Longrightarrow> patch_params d1 ft g p = Inr d2 \<Longrightarrow> stays d d2 g"
  by (auto simp: patch_name_def patch_params_def result_simps stays_def set_group_def split: option.splits if_splits)

lemma patch_group_keeps:
  assumes ok: "groups_ok ft d" and run: "patch_group d ft sc i ch now = Inr (Some (d', x))"
  shows "groups_ok ft d'"
proof -
  obtain g where g: "get_group d sc i = Some g" using run by (cases "get_group d sc i") (auto simp: patch_group_def)
  from run g obtain d1 d2 d3 where s: "patch_name d sc g (gc_name ch) = Inr d1" "patch_params d1 ft g (gc_params ch) = Inr d2"
      "patch_members d2 sc g (gc_members ch) = Inr d3" and d': "d' = set_group d3 i (\<lambda>x. x\<lparr>sg_updated_at := now\<rparr>)"
    unfolding patch_group_def g option.case rbind_eq_Inr Let_def by blast
  note gx = get_groupD [OF g]
  have ok2: "groups_ok ft d2"
    using patch_params_keeps [OF patch_name_keeps [OF ok _ _ s(1)] s(2)] gx by blast
  obtain y where y: "y \<in> set (series_groups d2)" "sg_id y = sg_id g" "sg_kind y = sg_kind g" "sg_workspace_id y = sg_workspace_id g"
    using patch_stays [OF _ s(1,2)] gx by (auto simp: stays_def)
  have ok3: "groups_ok ft d3"
  proof (cases "gc_members ch")
    case (Some ms)
    with s(3) have v: "validate_members (sg_kind g) ms = Inr ()" "check_series_exist d2 sc ms = Inr ()"
      and d3: "d3 = replace_members d2 sc (sg_id y) ms"
      by (auto simp: patch_members_def result_simps y(2))
    show ?thesis unfolding d3 by (rule groups_ok_replace [OF ok2 y(1)]) (use v y gx in simp_all)
  qed (use s(3) ok2 in \<open>simp add: patch_members_def\<close>)
  have "names_unique sg_id sg_workspace_id sg_name (series_groups d3)" using ok3 by (simp add: groups_ok_def)
  then show ?thesis unfolding d'
    by (intro groups_ok_set [OF ok3] names_unique_same) (use ok3 in \<open>simp_all add: groups_ok_def group_ok_def\<close>)
qed

lemma delete_group_keeps:
  assumes ok: "groups_ok ft d"
  shows "groups_ok ft (fst (delete_group d sc i))"
proof (cases "get_group d sc i")
  case (Some g)
  let ?d = "fst (delete_group d sc i)"
  have d: "series_groups ?d = delete_where (\<lambda>g. sg_id g = i) (series_groups d)"
    "group_members ?d = delete_where (\<lambda>r. sgm_group_id r = i) (group_members d)" "all_series ?d = all_series d"
    by (simp_all add: delete_group_def Some)
  have decl: "declared ?d j = declared d j" if "j \<noteq> i" for j
    using that by (auto simp: declared_def d delete_where_def intro!: filter_cong)
  have "\<exists>g \<in> set (series_groups ?d). sg_id g = sgm_group_id r" if "r \<in> set (group_members ?d)" for r
    using that ok by (fastforce simp: d groups_ok_def)
  moreover have "group_ok ft ?d x (declared ?d (sg_id x))" if "x \<in> set (series_groups ?d)" for x
    using that ok by (auto simp: d(1) decl groups_ok_def group_ok_series [OF d(3)])
  moreover have "names_unique sg_id sg_workspace_id sg_name (series_groups ?d)"
    using ok unfolding d(1) by (intro group_names.delete_keeps) (simp add: groups_ok_def)
  ultimately show ?thesis by (simp add: groups_ok_def)
qed (use ok in \<open>simp add: delete_group_def\<close>)


inductive group_step :: "(rat \<Rightarrow> string) \<Rightarrow> db \<Rightarrow> db \<Rightarrow> bool" for ft where
  group_step_create: "create_group d ft sc name kind ms params new_id now = Inr (d', g) \<Longrightarrow>
    new_id \<notin> sg_id ` set (series_groups d) \<Longrightarrow> group_step ft d d'"
| group_step_patch: "patch_group d ft sc i ch now = Inr (Some (d', g)) \<Longrightarrow> group_step ft d d'"
| group_step_delete: "delete_group d sc i = (d', b) \<Longrightarrow> group_step ft d d'"

lemma group_step_keeps: "group_step ft d d' \<Longrightarrow> groups_ok ft d \<Longrightarrow> groups_ok ft d'"
proof (induction rule: group_step.induct)
  case (group_step_delete d sc i d' b)
  then show ?case using delete_group_keeps [of ft d sc i] by simp
qed (blast intro: create_group_keeps patch_group_keeps)+

text \<open>What a group's members read back as.\<close>

lemma members_of_declared:
  assumes "groups_ok ft d" and "uniq_key ser_id (all_series d)" and "g \<in> set (series_groups d)"
  shows "map (\<lambda>m. \<lparr>mi_series_id = mo_series_id m, mi_role = mo_role m\<rparr>) (snd (members_of d [sg_id g] ! 0)) =
    map as_declared (declared d (sg_id g))"
proof -
  let ?rows = "declared d (sg_id g)"
  have ok: "map sgm_position ?rows = [0..<length ?rows]" "\<forall>r \<in> set ?rows. series_in d (sg_workspace_id g) (sgm_series_id r)"
    using assms(1,3) by (simp_all add: groups_ok_def group_ok_def)
  have "sorted (map sgm_position ?rows)" unfolding ok(1) by simp
  then have sorted: "sort_key sgm_position ?rows = ?rows" by (simp add: sort_key_id_if_sorted)
  have one: "\<exists>s. filter (\<lambda>s. ser_id s = sgm_series_id r) (all_series d) = [s]" if "r \<in> set ?rows" for r
  proof -
    from that ok(2) obtain s where s: "s \<in> set (all_series d)" "ser_id s = sgm_series_id r" by (auto simp: series_in_def)
    from filter_uniq [OF assms(2) s(1)] s(2) show ?thesis by auto
  qed
  have "map (\<lambda>m. \<lparr>mi_series_id = mo_series_id m, mi_role = mo_role m\<rparr>)
      (concat (map (\<lambda>r. map (\<lambda>s. \<lparr>mo_series_id = sgm_series_id r, mo_external_id = ser_external_id s, mo_role = sgm_role r\<rparr>)
              (filter (\<lambda>s. ser_id s = sgm_series_id r) (all_series d))) rows)) = map as_declared rows"
    if "set rows \<subseteq> set ?rows" for rows
    using that
  proof (induction rows)
    case (Cons r rows)
    with one [of r] show ?case by (auto simp: as_declared_def)
  qed simp
  from this [of ?rows] show ?thesis by (simp add: members_of_def sorted flip: declared_def)
qed

section \<open>Properties of groups\<close>

text \<open>Whatever groups are created, changed and deleted, every group keeps 2 to 32 distinct members, all
  series of its workspace, with the roles its kind allows and in consecutive positions; the names of a
  workspace's groups stay distinct, the parameters within their size, and a group's members read back in the
  order they were declared.\<close>

theorem groups_stay_valid:
  assumes "(group_step ft)\<^sup>*\<^sup>* d d'" and "groups_ok ft d"
  shows "groups_ok ft d' \<and> (uniq_key ser_id (all_series d') \<longrightarrow> (\<forall>g \<in> set (series_groups d').
     map (\<lambda>m. \<lparr>mi_series_id = mo_series_id m, mi_role = mo_role m\<rparr>) (snd (members_of d' [sg_id g] ! 0)) =
       map as_declared (declared d' (sg_id g))))"
proof -
  have "groups_ok ft d'" using assms by (induction rule: rtranclp_induct) (auto intro: group_step_keeps)
  then show ?thesis using members_of_declared by blast
qed

section \<open>An example\<close>

definition ex_gr_series :: "uuid \<Rightarrow> series" where
  "ex_gr_series i = \<lparr>ser_org_id = 1, ser_workspace_id = 2, ser_id = i, ser_source_id = 5, ser_external_id = uuid_str i, ser_name = ''a'',
     ser_unit = None, ser_kind = KindMeasurement, ser_expected_interval_ns = None, ser_physical_min = None,
     ser_physical_max = None, ser_operational_min = None, ser_operational_max = None, ser_resolution = None,
     ser_non_negative = None, ser_asset_path = None, ser_metadata = [], ser_created_at = 0, ser_updated_at = 0\<rparr>"

definition ex_gdb :: db where "ex_gdb = empty_db\<lparr>all_series := [ex_gr_series 7, ex_gr_series 8]\<rparr>"

definition ex_balance :: "member_in list" where
  "ex_balance = [\<lparr>mi_series_id = 8, mi_role = RoleOutput\<rparr>, \<lparr>mi_series_id = 7, mi_role = RoleInput\<rparr>]"

lemma ex_created: "\<exists>d' g. create_group ex_gdb ft \<lparr>sc_org = 1, sc_workspace = 2\<rparr> ''n'' Balance ex_balance [] 40 0 = Inr (d', g) \<and>
    series_groups d' = [g] \<and> sg_id g = 40 \<and> all_series d' = all_series ex_gdb \<and> map as_declared (declared d' 40) = ex_balance"
proof -
  have "validate_members Balance ex_balance = Inr ()"
    by (simp add: validate_members_def ex_balance_def MIN_MEMBERS_def MAX_MEMBERS_def)
  moreover have "validate_params ft [] = Inr ()" by (simp add: validate_params_def json_size_def MAX_PARAMS_BYTES_def)
  moreover have "check_series_exist ex_gdb \<lparr>sc_org = 1, sc_workspace = 2\<rparr> ex_balance = Inr ()"
    by (simp add: check_series_exist_def ex_balance_def ex_gdb_def ex_gr_series_def)
  ultimately show ?thesis
    by (simp add: create_group_def group_name_taken_def ex_gdb_def empty_db_def declared_replace Let_def)
qed

theorem groups_stay_valid_witness:
  "\<exists>d'. (group_step (\<lambda>_. ''0''))\<^sup>*\<^sup>* ex_gdb d' \<and>
     map mo_role (snd (members_of d' [40] ! 0)) = [RoleOutput, RoleInput]"
proof -
  obtain d' g where r: "create_group ex_gdb (\<lambda>_. ''0'') \<lparr>sc_org = 1, sc_workspace = 2\<rparr> ''n'' Balance ex_balance [] 40 0 = Inr (d', g)"
    and g: "series_groups d' = [g]" "sg_id g = 40" "all_series d' = all_series ex_gdb" and m: "map as_declared (declared d' 40) = ex_balance"
    using ex_created by blast
  have ok: "groups_ok (\<lambda>_. ''0'') ex_gdb" by (simp add: groups_ok_def ex_gdb_def empty_db_def names_unique_def)
  have "group_step (\<lambda>_. ''0'') ex_gdb d'" by (rule group_step_create [OF r]) (simp add: ex_gdb_def empty_db_def)
  then have s: "(group_step (\<lambda>_. ''0''))\<^sup>*\<^sup>* ex_gdb d'" by blast
  have "uniq_key ser_id (all_series d')" by (simp add: g ex_gdb_def ex_gr_series_def uniq_key_def)
  with groups_stay_valid [OF s ok] g m
  have "map (\<lambda>m. \<lparr>mi_series_id = mo_series_id m, mi_role = mo_role m\<rparr>) (snd (members_of d' [40] ! 0)) = ex_balance" by simp
  then have "map mi_role (map (\<lambda>m. \<lparr>mi_series_id = mo_series_id m, mi_role = mo_role m\<rparr>) (snd (members_of d' [40] ! 0))) = [RoleOutput, RoleInput]"
    by (simp add: ex_balance_def)
  with s show ?thesis by (auto simp: comp_def)
qed

end
