(* ===== verification/Dataset_Runs.thy ===== *)
theory Dataset_Runs
  imports Runs Series_Groups Datasets Polling
begin

text \<open>
  \<^verbatim>\<open>services/dataset_runs.py\<close> and \<^verbatim>\<open>services/execution.py\<close>: a run over the cached
  series of a dataset.  From outside come the cache reader, the checks of the core, the fetch engine's own
  environment (one per fetch), readings of the clocks and fresh ids: the record \<open>dataset_env\<close>.
\<close>

section \<open>Plans\<close>

definition NO_CACHED_DATA :: string where "NO_CACHED_DATA = ''no cached data''"
definition NOT_IN_DATASET :: string where "NOT_IN_DATASET = ''members not in dataset''"

record dataset_member =
  dm_id :: uuid
  dm_external_id :: string
  dm_source_id :: uuid
  dm_meta :: series_meta

record checked_group =
  cg_id :: uuid
  cg_name :: string
  cg_kind :: group_kind
  cg_members :: "(uuid \<times> member_role) list"
  cg_params :: jobj

record group_skip =
  gs_id :: uuid
  gs_reason :: string
  gs_missing :: "uuid list"

record fetch_error =
  fe_source_id :: uuid
  fe_fetch_id :: "uuid option"
  fe_status :: "fetch_status option"
  fe_error :: "string option"

record plan =
  pl_scope :: scope
  pl_dataset_id :: uuid
  pl_start_ns :: ns
  pl_end_ns :: ns
  pl_now_ns :: ns
  pl_members :: "dataset_member list"
  pl_groups :: "checked_group list"
  pl_groups_outside :: "group_skip list"
  pl_missing :: "(uuid \<times> (ns \<times> ns) list) list"
  pl_fetched :: "(uuid \<times> int) list"
  pl_fetch_errors :: "fetch_error list"

record multi_report =
  mr_reports :: "(uuid \<times> core_report) list"
  mr_groups_skipped :: "group_skip list"

record 't dataset_env =
  de_cache :: "(uuid \<Rightarrow> uuid list \<Rightarrow> ns \<Rightarrow> ns \<Rightarrow> string + (uuid \<times> 't) list) option"
  de_has_ingest :: "'t \<Rightarrow> bool"
  de_checks :: "(uuid \<times> 't) list \<Rightarrow> (uuid \<times> series_meta) list \<Rightarrow> checked_group list \<Rightarrow> ns \<times> ns \<Rightarrow> ns \<Rightarrow> bool \<Rightarrow> raised + multi_report"
  de_fetch :: "((nat \<Rightarrow> env) \<times> rat) option"
  de_mono :: "nat \<Rightarrow> rat"
  de_fetch_id :: "nat \<Rightarrow> uuid"
  de_finding_id :: "nat \<Rightarrow> nat \<Rightarrow> uuid"
  de_persist_error :: "raised option"
  de_now_claim :: datetime
  de_now_fetch :: datetime
  de_now_finish :: datetime
  de_now_fail :: datetime

section \<open>Creation\<close>

datatype dataset_run_error = DatasetNotFound | BadDataset dataset_error

definition create_dataset_run :: "db \<Rightarrow> scope \<Rightarrow> uuid \<Rightarrow> uuid \<Rightarrow> datetime \<Rightarrow> datetime \<Rightarrow> dataset_run_error + db \<times> run" where
  "create_dataset_run d sc dataset_id new_id now created_at =
     (case get_dataset d sc dataset_id of
        None \<Rightarrow> Inl DatasetNotFound
      | Some x \<Rightarrow>
          (case resolve_window (ds_window_policy x) now of
             Inl e \<Rightarrow> Inl (BadDataset e)
           | Inr (start, end_at) \<Rightarrow>
               (case check_core_range (datetime_to_ns start) (datetime_to_ns end_at) of
                  Inl e \<Rightarrow> Inl (BadDataset e)
                | Inr _ \<Rightarrow>
                    (let r = \<lparr>run_org_id = sc_org sc, run_workspace_id = sc_workspace sc, run_id = new_id,
                           run_dataset_id = Some (ds_id x), run_trigger = TrigManual, run_status = RunQueued,
                           run_window_start = Some start, run_window_end = Some end_at,
                           run_now_ns = Some (to_core_ns (datetime_to_ns now)), run_started_at = None,
                           run_finished_at = None,
                           run_stats = [(''window'', window_json (to_core_ns (datetime_to_ns start)) (to_core_ns (datetime_to_ns end_at)))],
                           run_error = None, run_created_at = created_at\<rparr>
                     in Inr (d\<lparr>runs := runs d @ [r]\<rparr>, r)))))"

section \<open>Planning\<close>

text \<open>
  A planning that ends: the plan (none when the dataset was deleted), the metadata error that the claim
  survives, or another raise, which rolls the claim back.
\<close>

datatype planned = Planned "plan option" | PlanMetadata string | PlanRaised raised

definition int_field :: "jobj \<Rightarrow> string \<Rightarrow> int option" where
  "int_field kvs k = (case map_of kvs k of Some (JInt i) \<Rightarrow> Some i | _ \<Rightarrow> None)"

definition stats_window :: "run \<Rightarrow> (ns \<times> ns) option" where
  "stats_window r =
     (case map_of (run_stats r) ''window'' of
        Some (JObj w) \<Rightarrow> (case (int_field w ''start'', int_field w ''end'') of (Some s, Some e) \<Rightarrow> Some (s, e) | _ \<Rightarrow> None)
      | _ \<Rightarrow> None)"

definition dataset_rows :: "db \<Rightarrow> uuid \<Rightarrow> series list" where
  "dataset_rows d i =
     sort_key ser_id (filter (\<lambda>s. \<exists>r \<in> set (dataset_series_rows d). dss_dataset_id r = i \<and> dss_series_id r = ser_id s) (all_series d))"

text \<open>The members in id order; the first that fails ends the planning.\<close>

fun plan_members :: "series list \<Rightarrow> planned + dataset_member list" where
  "plan_members [] = Inr []"
| "plan_members (s # ss) =
     (case merged_for_run (Some s) [] of
        Inl e \<Rightarrow> Inl (PlanMetadata (metadata_message e))
      | Inr vals \<Rightarrow>
          (case meta_for_core (uuid_str (ser_id s)) vals of
             Inl msg \<Rightarrow> Inl (PlanRaised (msg, ''ValidationError''))
           | Inr meta \<Rightarrow> rbind (plan_members ss) (\<lambda>ms.
               Inr (\<lparr>dm_id = ser_id s, dm_external_id = ser_external_id s, dm_source_id = ser_source_id s, dm_meta = meta\<rparr> # ms))))"

definition listed_members :: "db \<Rightarrow> series_group \<Rightarrow> member_out list" where
  "listed_members d g = (case map_of (members_of d [sg_id g]) (sg_id g) of None \<Rightarrow> [] | Some ms \<Rightarrow> ms)"

definition members_outside :: "db \<Rightarrow> uuid set \<Rightarrow> series_group \<Rightarrow> uuid list" where
  "members_outside d in_dataset g = filter (\<lambda>i. i \<notin> in_dataset) (map mo_series_id (listed_members d g))"

definition group_in :: "db \<Rightarrow> series_group \<Rightarrow> checked_group" where
  "group_in d g = \<lparr>cg_id = sg_id g, cg_name = sg_name g, cg_kind = sg_kind g,
     cg_members = map (\<lambda>m. (mo_series_id m, mo_role m)) (listed_members d g), cg_params = sg_params g\<rparr>"

definition note_missing :: "db \<Rightarrow> plan \<Rightarrow> plan" where
  "note_missing d p =
     p\<lparr>pl_missing := filter (\<lambda>x. snd x \<noteq> [])
        (map (\<lambda>m. (dm_id m, missing_ranges (covered_ranges d (dm_id m) RAW_LAYER) (pl_start_ns p) (pl_end_ns p))) (pl_members p))\<rparr>"

definition make_plan :: "db \<Rightarrow> run \<Rightarrow> planned" where
  "make_plan d r =
     (case run_dataset_id r of
        None \<Rightarrow> Planned None
      | Some i \<Rightarrow>
          (case stats_window r of
             None \<Rightarrow> PlanRaised (''start'', ''KeyError'')
           | Some (s, e) \<Rightarrow>
               (case plan_members (dataset_rows d i) of
                  Inl out \<Rightarrow> out
                | Inr ms \<Rightarrow>
                    (let in_dataset = dm_id ` set ms;
                         groups = groups_within d (run_scope r) (map dm_id ms)
                     in Planned (Some (note_missing d
                          \<lparr>pl_scope = run_scope r, pl_dataset_id = i, pl_start_ns = s, pl_end_ns = e,
                           pl_now_ns = (case run_now_ns r of None \<Rightarrow> e | Some t \<Rightarrow> t), pl_members = ms,
                           pl_groups = map (group_in d) (filter (\<lambda>g. members_outside d in_dataset g = []) groups),
                           pl_groups_outside = map (\<lambda>g. \<lparr>gs_id = sg_id g, gs_reason = NOT_IN_DATASET,
                              gs_missing = members_outside d in_dataset g\<rparr>)
                             (filter (\<lambda>g. members_outside d in_dataset g \<noteq> []) groups),
                           pl_missing = [], pl_fetched = [], pl_fetch_errors = []\<rparr>))))))"

section \<open>Filling gaps\<close>

definition wanted_series :: "plan \<Rightarrow> uuid \<Rightarrow> uuid list" where
  "wanted_series p source_id =
     map dm_id (filter (\<lambda>m. dm_source_id m = source_id \<and> dm_id m \<in> fst ` set (pl_missing p)) (pl_members p))"

definition gap_sources :: "db \<Rightarrow> plan \<Rightarrow> source list" where
  "gap_sources d p =
     sort_key src_id (filter (\<lambda>s. wanted_series p (src_id s) \<noteq> [] \<and> is_connector (src_type s) \<and> reads_windows (src_type s) \<and> src_enabled s) (sources d))"

text \<open>The loop over the sources, its k-th iteration; \<open>None\<close> as the plan is a raise of the fetch
  (a connector whose limit of points is zero).\<close>

fun fetch_sources :: "(nat \<Rightarrow> env) \<Rightarrow> (nat \<Rightarrow> rat) \<Rightarrow> (nat \<Rightarrow> uuid) \<Rightarrow> rat \<Rightarrow> uuid \<Rightarrow> datetime \<Rightarrow> nat \<Rightarrow> source list \<Rightarrow> db \<times> plan \<Rightarrow> db \<times> plan option" where
  "fetch_sources E clock ids deadline run now k [] st = (fst st, Some (snd st))"
| "fetch_sources E clock ids deadline run now k (s # ss) st =
     (let (d, p) = st
      in if deadline \<le> clock (Suc k)
         then fetch_sources E clock ids deadline run now (Suc k) ss
                (d, p\<lparr>pl_fetch_errors := pl_fetch_errors p @ [\<lparr>fe_source_id = src_id s, fe_fetch_id = None, fe_status = None,
                    fe_error = Some BUDGET_SPENT\<rparr>]\<rparr>)
         else (let (d1, f) = create_fetch d s (ids k) FRun (ns_to_datetime (pl_start_ns p)) (ns_to_datetime_ceil (pl_end_ns p))
                     (Some (wanted_series p (src_id s))) False None (Some run) FetchQueued None now
               in (case execute_fetch (E k) d1 (sf_id f) (Some deadline) of
                     Raised \<Rightarrow> (d1, None)
                   | Skipped \<Rightarrow> fetch_sources E clock ids deadline run now (Suc k) ss
                       (d1, p\<lparr>pl_fetch_errors := pl_fetch_errors p @ [\<lparr>fe_source_id = src_id s, fe_fetch_id = Some (sf_id f),
                           fe_status = None, fe_error = None\<rparr>]\<rparr>)
                   | Ended d2 out written \<Rightarrow> fetch_sources E clock ids deadline run now (Suc k) ss
                       (d2, p\<lparr>pl_fetched := dict_set (src_id s) (fo_rows out) (pl_fetched p),
                          pl_fetch_errors := pl_fetch_errors p @
                            (if fo_status out = FetchSucceeded then []
                             else [\<lparr>fe_source_id = src_id s, fe_fetch_id = Some (sf_id f), fe_status = Some (fo_status out),
                                    fe_error = fo_error out\<rparr>])\<rparr>))))"

definition fill_gaps :: "'t dataset_env \<Rightarrow> db \<Rightarrow> uuid \<Rightarrow> plan \<Rightarrow> db \<times> plan option" where
  "fill_gaps E d run p =
     (case de_fetch E of
        None \<Rightarrow> (d, Some p)
      | Some (env_of, budget) \<Rightarrow>
          if pl_missing p = [] \<or> budget \<le> 0 \<or> gap_sources d p = [] then (d, Some p)
          else (case fetch_sources env_of (de_mono E) (de_fetch_id E) (de_mono E 0 + budget) run (de_now_fetch E) 0 (gap_sources d p) (d, p) of
                  (d', None) \<Rightarrow> (d', None)
                | (d', Some p') \<Rightarrow> (d', Some (note_missing d' p'))))"

section \<open>Reading and checking\<close>

fun read_sources :: "(uuid \<Rightarrow> uuid list \<Rightarrow> ns \<Rightarrow> ns \<Rightarrow> string + (uuid \<times> 't) list) \<Rightarrow> plan \<Rightarrow> uuid list \<Rightarrow> string + (uuid \<times> 't) list" where
  "read_sources read p [] = Inr []"
| "read_sources read p (s # ss) =
     rbind (read s (map dm_id (filter (\<lambda>m. dm_source_id m = s) (pl_members p))) (pl_start_ns p) (pl_end_ns p)) (\<lambda>xs.
     rbind (read_sources read p ss) (\<lambda>ys. Inr (xs @ ys)))"

definition first_seen :: "uuid list \<Rightarrow> uuid list" where "first_seen xs = rev (remdups (rev xs))"

definition check_plan :: "'t dataset_env \<Rightarrow> plan \<Rightarrow> (uuid \<times> 't) list \<Rightarrow> raised + multi_report" where
  "check_plan E p batches =
     de_checks E batches
       (map (\<lambda>m. (dm_id m, dm_meta m)) (filter (\<lambda>m. dm_id m \<in> fst ` set batches) (pl_members p)))
       (pl_groups p) (pl_start_ns p, pl_end_ns p) (pl_now_ns p) (list_all (\<lambda>b. de_has_ingest E (snd b)) batches)"

text \<open>From the plan to the report, or the message of the failure.\<close>

definition check_dataset :: "'t dataset_env \<Rightarrow> db \<Rightarrow> uuid \<Rightarrow> plan option \<Rightarrow> db \<times> (string + plan \<times> multi_report)" where
  "check_dataset E d run planned_run =
     (case (planned_run, de_cache E) of
        (None, _) \<Rightarrow> (d, Inl ''dataset deleted'')
      | (_, None) \<Rightarrow> (d, Inl ''no cache configured'')
      | (Some p0, Some read) \<Rightarrow>
          (case fill_gaps E d run p0 of
             (d1, None) \<Rightarrow> (d1, Inl ''core error: range() arg 3 must not be zero'')
           | (d1, Some p) \<Rightarrow>
               (case read_sources read p (first_seen (map dm_source_id (pl_members p))) of
                  Inl msg \<Rightarrow> (d1, Inl (''cache read failed: '' @ msg))
                | Inr batches \<Rightarrow>
                    if batches = [] then (d1, Inl ''no cached data in window'')
                    else (case check_plan E p batches of
                        Inl e \<Rightarrow> (d1, Inl (''core error: '' @ error_line e))
                      | Inr rep \<Rightarrow> (d1, Inr (p, rep))))))"

section \<open>Persisting\<close>

record totals =
  to_samples :: int
  to_findings :: int
  to_metrics :: int
  to_new :: int
  to_merged :: int

text \<open>One member's score, metrics and findings; \<open>k\<close> numbers the member for its fresh finding ids.\<close>

definition persist_member :: "'t dataset_env \<Rightarrow> uuid \<Rightarrow> scope \<Rightarrow> nat \<Rightarrow> dataset_member \<Rightarrow> core_report \<Rightarrow> db \<times> totals \<Rightarrow> db \<times> totals" where
  "persist_member E run sc k m rep st =
     (let (d, t) = st; now = de_now_finish E;
          (d2, out) = persist_report (d\<lparr>scores := scores d @ [score_row sc run (dm_id m) (cr_score rep) now]\<rparr>) sc run (dm_id m)
            (check_report.truncate rep) now (fresh_ids (de_finding_id E k) rep)
      in (d2, \<lparr>to_samples = to_samples t + cr_n_samples rep, to_findings = to_findings t + int (length (rep_findings rep)),
               to_metrics = to_metrics t + int (po_metrics out), to_new = to_new t + int (po_new out),
               to_merged = to_merged t + int (po_merged out)\<rparr>))"

fun persist_members :: "'t dataset_env \<Rightarrow> uuid \<Rightarrow> scope \<Rightarrow> nat \<Rightarrow> (dataset_member \<times> core_report) list \<Rightarrow> db \<times> totals \<Rightarrow> db \<times> totals" where
  "persist_members E run sc k [] st = st"
| "persist_members E run sc k ((m, rep) # rest) st =
     persist_members E run sc (Suc k) rest (persist_member E run sc k m rep st)"

definition ranges_json :: "(ns \<times> ns) list \<Rightarrow> json" where
  "ranges_json rs = JArr (map (\<lambda>(s, e). JArr [JInt s, JInt e]) rs)"

definition skip_json :: "group_skip \<Rightarrow> json" where
  "skip_json g = JObj [(''group_id'', JStr (uuid_str (gs_id g))), (''reason'', JStr (gs_reason g)),
     (''missing'', JArr (map (\<lambda>i. JStr (uuid_str i)) (gs_missing g)))]"

definition fetch_status_value :: "fetch_status \<Rightarrow> string" where
  "fetch_status_value s = (case s of FetchQueued \<Rightarrow> ''queued'' | FetchRunning \<Rightarrow> ''running'' | FetchSucceeded \<Rightarrow> ''succeeded''
     | FetchPartial \<Rightarrow> ''partial'' | FetchFailed \<Rightarrow> ''failed'')"

definition fetch_error_json :: "fetch_error \<Rightarrow> json" where
  "fetch_error_json e =
     JObj ([(''source_id'', JStr (uuid_str (fe_source_id e)))] @
       (case fe_fetch_id e of
          None \<Rightarrow> [(''error'', json_opt JStr (fe_error e))]
        | Some i \<Rightarrow> [(''fetch_id'', JStr (uuid_str i)), (''status'', json_opt (\<lambda>s. JStr (fetch_status_value s)) (fe_status e)),
            (''error'', json_opt JStr (fe_error e))]))"

definition checked_members :: "plan \<Rightarrow> multi_report \<Rightarrow> (dataset_member \<times> core_report) list" where
  "checked_members p rep =
     concat (map (\<lambda>m. case map_of (mr_reports rep) (dm_id m) of None \<Rightarrow> [] | Some r \<Rightarrow> [(m, r)]) (pl_members p))"

definition dataset_stats :: "plan \<Rightarrow> multi_report \<Rightarrow> totals \<Rightarrow> jobj" where
  "dataset_stats p rep t =
     (let checked = checked_members p rep;
          skipped = concat (map (\<lambda>(m, r). map (\<lambda>s. JObj (dict_merge [(''series_id'', JStr (uuid_str (dm_id m)))] s)) (cr_skipped r)) checked)
      in [(''n_series'', JInt (int (length checked))), (''n_samples'', JInt (to_samples t)), (''n_findings'', JInt (to_findings t)),
          (''n_metrics'', JInt (to_metrics t)), (''n_findings_new'', JInt (to_new t)), (''n_findings_merged'', JInt (to_merged t)),
          (''skipped'', JInt (int (length skipped))), (''skipped_checks'', JArr skipped),
          (''window'', window_json (pl_start_ns p) (pl_end_ns p)),
          (''series'', JArr (map (\<lambda>(m, r). JObj [(''id'', JStr (uuid_str (dm_id m))), (''external_id'', JStr (dm_external_id m)),
              (''score'', JNum (cs_overall (cr_score r)))]) checked)),
          (''groups'', JArr (map (\<lambda>g. JStr (uuid_str (cg_id g))) (filter (\<lambda>g. cg_id g \<notin> gs_id ` set (mr_groups_skipped rep)) (pl_groups p)))),
          (''groups_skipped'', JArr (map skip_json (pl_groups_outside p @ mr_groups_skipped rep))),
          (''series_skipped'', JArr (map (\<lambda>m. JObj [(''series_id'', JStr (uuid_str (dm_id m))), (''external_id'', JStr (dm_external_id m)),
              (''reason'', JStr NO_CACHED_DATA)]) (filter (\<lambda>m. map_of (mr_reports rep) (dm_id m) = None) (pl_members p)))),
          (''missing'', JObj (map (\<lambda>(i, rs). (uuid_str i, ranges_json rs)) (pl_missing p)))] @
         (if pl_fetched p = [] then [] else [(''fetched'', JObj (map (\<lambda>(i, n). (uuid_str i, JInt n)) (pl_fetched p)))]) @
         (if pl_fetch_errors p = [] then [] else [(''fetch_errors'', JArr (map fetch_error_json (pl_fetch_errors p)))]))"

definition persist_dataset :: "'t dataset_env \<Rightarrow> db \<Rightarrow> uuid \<Rightarrow> plan \<Rightarrow> multi_report \<Rightarrow> db option" where
  "persist_dataset E d run p rep =
     (if \<not> is_running d run then None
      else (let d1 = set_run d run (\<lambda>r. succeed_run r (pl_start_ns p) (pl_end_ns p) (pl_now_ns p) (de_now_finish E));
                (d2, t) = persist_members E run (pl_scope p) 0 (checked_members p rep)
                  (d1, \<lparr>to_samples = 0, to_findings = 0, to_metrics = 0, to_new = 0, to_merged = 0\<rparr>)
            in Some (set_run d2 run (\<lambda>r. r\<lparr>run_stats := dataset_stats p rep t\<rparr>))))"

section \<open>Execution\<close>

definition execute_dataset_run :: "'t dataset_env \<Rightarrow> db \<Rightarrow> uuid \<Rightarrow> db" where
  "execute_dataset_run E d i =
     (case find_run d i of
        None \<Rightarrow> d
      | Some r \<Rightarrow>
          if run_status r \<noteq> RunQueued then d
          else (let d1 = set_run d i (\<lambda>r. r\<lparr>run_status := RunRunning, run_started_at := Some (de_now_claim E)\<rparr>);
                    fail = (\<lambda>x msg. mark_failed x i msg (de_now_fail E))
                in (case make_plan d1 r of
                      PlanRaised e \<Rightarrow> fail d (''plan error: '' @ error_line e)
                    | PlanMetadata msg \<Rightarrow> fail d1 (''invalid series metadata: '' @ msg)
                    | Planned p \<Rightarrow>
                        (case check_dataset E d1 i p of
                           (d2, Inl msg) \<Rightarrow> fail d2 msg
                         | (d2, Inr (p', rep)) \<Rightarrow>
                             (case de_persist_error E of
                                Some e \<Rightarrow> fail d2 (''persist error: '' @ error_line e)
                              | None \<Rightarrow> (case persist_dataset E d2 i p' rep of None \<Rightarrow> d2 | Some d3 \<Rightarrow> d3))))))"

definition execute :: "'t run_env \<Rightarrow> 't dataset_env \<Rightarrow> db \<Rightarrow> uuid \<Rightarrow> db" where
  "execute E F d i =
     (case find_run d i of
        None \<Rightarrow> execute_run E d i
      | Some r \<Rightarrow> if run_trigger r = TrigManual then execute_dataset_run F d i else execute_run E d i)"

end
