(* ===== verification/Run_Facts.thy ===== *)
theory Run_Facts
  imports Dataset_Runs Fetch_Facts
begin

text \<open>
  What the transactions of runs guarantee together, whatever workers, requests and the reaper interleave:
  each refines the life cycle queued, running, succeeded or failed, and results exist for succeeded runs only.
\<close>

section \<open>The life cycle\<close>

type_synonym run_states = "uuid \<Rightarrow> run_status option"

definition states :: "db \<Rightarrow> run_states" where
  "states d i = map_option run_status (find_run d i)"

inductive lifecycle :: "run_states \<Rightarrow> run_states \<Rightarrow> bool" where
  life_stay: "lifecycle s s"
| life_create: "s i = None \<Longrightarrow> lifecycle s (s(i \<mapsto> RunQueued))"
| life_start: "s i = Some RunQueued \<Longrightarrow> lifecycle s (s(i \<mapsto> RunRunning))"
| life_succeed: "s i = Some RunRunning \<Longrightarrow> lifecycle s (s(i \<mapsto> RunSucceeded))"
| life_fail: "s i = Some RunQueued \<or> s i = Some RunRunning \<Longrightarrow> lifecycle s (s(i \<mapsto> RunFailed))"
| life_reap: "\<forall>i \<in> I. s i = Some RunRunning \<Longrightarrow> lifecycle s (\<lambda>i. if i \<in> I then Some RunFailed else s i)"

inductive_cases lifecycleE: "lifecycle s s'"

text \<open>A run in a terminal state stays in it.\<close>

lemma lifecycle_terminal: "lifecycle s s' \<Longrightarrow> s i = Some t \<Longrightarrow> t \<in> {RunSucceeded, RunFailed} \<Longrightarrow> s' i = Some t"
  by (auto elim!: lifecycleE)

section \<open>Frames\<close>

text \<open>What a transaction on series, findings, metrics or coverage leaves of the runs.\<close>

definition run_tables :: "db \<Rightarrow> run list \<times> upload list \<times> score list" where
  "run_tables d = (runs d, uploads d, scores d)"

lemma run_tables_eq: "run_tables d' = run_tables d \<longleftrightarrow> runs d' = runs d \<and> uploads d' = uploads d \<and> scores d' = scores d"
  by (auto simp: run_tables_def)

lemma store_finding_tables: "run_tables (fst (store_finding sc r i now x st)) = run_tables (fst st)"
  by (auto simp: store_finding_def merge_finding_def run_tables_def Let_def split: prod.splits option.splits)

lemma fold_store_tables: "run_tables (fst (fold (store_finding sc r i now) xs st)) = run_tables (fst st)"
  by (induction xs arbitrary: st) (simp_all add: store_finding_tables)

lemma persist_report_tables: "run_tables (fst (persist_report d sc r i rep now ids)) = run_tables d"
proof -
  let ?f = "fold (store_finding sc r i now) (zip (rep_findings rep) ids) (store_metrics d (metric_rows (sc_org sc) r i (rep_metrics rep)), 0, 0)"
  have "fst (persist_report d sc r i rep now ids) = fst ?f"
    by (simp add: persist_report_def Let_def split: prod.splits)
  also have "run_tables \<dots> = run_tables d" unfolding fold_store_tables fst_conv by (simp add: store_metrics_def run_tables_def)
  finally show ?thesis .
qed

lemma upsert_upload_tables: "upsert_upload_series d sc x ov n m now = Inr (d', s) \<Longrightarrow> run_tables d' = run_tables d"
  by (auto simp: upsert_upload_series_def Let_def result_simps run_tables_def set_series_def)

section \<open>Consistency of runs\<close>

text \<open>One run: its times and its error fit its status.\<close>

definition run_row_ok :: "run \<Rightarrow> bool" where
  "run_row_ok r \<longleftrightarrow>
     (run_status r = RunRunning \<longrightarrow> run_started_at r \<noteq> None) \<and>
     (run_status r \<in> {RunSucceeded, RunFailed} \<longleftrightarrow> run_finished_at r \<noteq> None) \<and>
     (run_status r = RunFailed \<longleftrightarrow> run_error r \<noteq> None)"

definition runs_ok :: "db \<Rightarrow> bool" where
  "runs_ok d \<longleftrightarrow> uniq_key run_id (runs d) \<and> (\<forall>r \<in> set (runs d). run_row_ok r) \<and>
     (\<forall>u \<in> set (uploads d). \<exists>r \<in> set (runs d). run_id r = up_run_id u \<and> run_trigger r = TrigUpload \<and>
        run_status r \<in> {RunQueued, RunRunning}) \<and>
     (\<forall>s \<in> set (scores d). \<exists>r \<in> set (runs d). run_id r = sc_run_id s \<and> run_status r = RunSucceeded)"

lemma states_eq: "states d i = Some t \<longleftrightarrow> (\<exists>r. find_run d i = Some r \<and> run_status r = t)"
  by (auto simp: states_def)

lemma find_run_iff: "uniq_key run_id (runs d) \<Longrightarrow> find_run d i = Some r \<longleftrightarrow> r \<in> set (runs d) \<and> run_id r = i"
  by (auto simp: find_run_def dest: find_SomeD intro: find_key)

lemma find_run_id: "find_run d i = Some r \<Longrightarrow> run_id r = i"
  by (auto simp: find_run_def dest: find_SomeD)

text \<open>Updating the rows a condition selects keeps the ids, and moves exactly their states.\<close>

lemma find_update_run:
  assumes "\<And>r. run_id (f r) = run_id r"
  shows "List.find (\<lambda>r. run_id r = i) (update_where p f t) =
    map_option (\<lambda>r. if p r then f r else r) (List.find (\<lambda>r. run_id r = i) t)"
  by (induction t) (auto simp: update_where_def assms)

lemma states_update:
  assumes "\<And>r. run_id (f r) = run_id r" and "runs d' = update_where p f (runs d)"
  shows "states d' i = map_option (\<lambda>r. run_status (if p r then f r else r)) (find_run d i)"
  by (simp add: states_def find_run_def assms(2) find_update_run [OF assms(1)] option.map_comp comp_def)

lemma states_tables: "runs d' = runs d \<Longrightarrow> states d' = states d"
  by (intro ext) (simp add: states_def find_run_def)

text \<open>The shape every transaction on existing runs has.\<close>

lemma runs_ok_update:
  assumes ok: "runs_ok d" and runs: "runs d' = update_where p f (runs d)"
    and f: "\<And>r. run_id (f r) = run_id r" "\<And>r. run_trigger (f r) = run_trigger r"
    and row: "\<And>r. r \<in> set (runs d) \<Longrightarrow> p r \<Longrightarrow> run_row_ok (f r)"
    and ends: "\<And>r. r \<in> set (runs d) \<Longrightarrow> p r \<Longrightarrow> run_status (f r) \<in> {RunSucceeded, RunFailed} \<Longrightarrow>
        \<forall>u \<in> set (uploads d'). up_run_id u = run_id r \<longrightarrow> run_status r \<in> {RunSucceeded, RunFailed} \<or> run_trigger r = TrigManual"
    and ups: "set (uploads d') \<subseteq> set (uploads d)"
    and keep: "\<And>r. r \<in> set (runs d) \<Longrightarrow> p r \<Longrightarrow> run_status r = RunSucceeded \<Longrightarrow> run_status (f r) = RunSucceeded"
    and scr: "\<And>s. s \<in> set (scores d') \<Longrightarrow> s \<in> set (scores d) \<or>
        (\<exists>r \<in> set (runs d). p r \<and> run_id r = sc_run_id s \<and> run_status (f r) = RunSucceeded)"
  shows "runs_ok d'"
proof -
  have uk: "uniq_key run_id (runs d')" unfolding runs using ok f(1) by (intro uniq_key_update_where) (simp_all add: runs_ok_def)
  have rows: "\<forall>r \<in> set (runs d'). run_row_ok r" unfolding runs using ok row by (auto simp: runs_ok_def in_set_update_where)
  have up: "\<exists>r \<in> set (runs d'). run_id r = up_run_id u \<and> run_trigger r = TrigUpload \<and> run_status r \<in> {RunQueued, RunRunning}"
    if u: "u \<in> set (uploads d')" for u
  proof -
    from u ups ok obtain r where r: "r \<in> set (runs d)" "run_id r = up_run_id u" "run_trigger r = TrigUpload" "run_status r \<in> {RunQueued, RunRunning}"
      unfolding runs_ok_def by blast
    let ?r = "if p r then f r else r"
    have mem: "?r \<in> set (runs d')" unfolding runs in_set_update_where using r(1) by blast
    have open_now: "run_status ?r \<in> {RunQueued, RunRunning}"
    proof (rule ccontr)
      assume bad: "run_status ?r \<notin> {RunQueued, RunRunning}"
      with r(4) have p: "p r" by (auto split: if_splits)
      with bad have "run_status (f r) \<in> {RunSucceeded, RunFailed}" by (cases "run_status (f r)") auto
      with ends [OF r(1) p] u r show False by auto
    qed
    have "run_id ?r = up_run_id u" "run_trigger ?r = TrigUpload" using r f by simp_all
    with mem open_now show ?thesis by blast
  qed
  have sc: "\<exists>r \<in> set (runs d'). run_id r = sc_run_id s \<and> run_status r = RunSucceeded" if s: "s \<in> set (scores d')" for s
    using scr [OF s]
  proof
    assume "s \<in> set (scores d)"
    with ok obtain r where r: "r \<in> set (runs d)" "run_id r = sc_run_id s" "run_status r = RunSucceeded" unfolding runs_ok_def by blast
    have "(if p r then f r else r) \<in> set (runs d')" unfolding runs in_set_update_where using r(1) by blast
    with r keep [OF r(1)] f show ?thesis by (intro bexI [of _ "if p r then f r else r"]) auto
  next
    assume "\<exists>r \<in> set (runs d). p r \<and> run_id r = sc_run_id s \<and> run_status (f r) = RunSucceeded"
    then obtain r where r: "r \<in> set (runs d)" "p r" "run_id r = sc_run_id s" "run_status (f r) = RunSucceeded" by blast
    have "f r \<in> set (runs d')" unfolding runs in_set_update_where using r(1,2) by auto
    with r f show ?thesis by (intro bexI [of _ "f r"]) auto
  qed
  from uk rows up sc show ?thesis unfolding runs_ok_def by blast
qed

lemma runs_ok_tables: "run_tables d' = run_tables d \<Longrightarrow> runs_ok d' = runs_ok d"
  by (simp add: run_tables_eq runs_ok_def)

section \<open>Each transaction\<close>

lemma claim_run_parts:
  assumes "claim_run d i now = Some (d', sc, pl)"
  obtains r where "find_run d i = Some r" "run_status r = RunQueued"
    "d' = set_run d i (\<lambda>r. r\<lparr>run_status := RunRunning, run_started_at := Some now\<rparr>)"
  using assms by (auto simp: claim_run_def split: option.splits if_splits)

lemma start_run_effect:
  assumes ok: "runs_ok d" and r: "find_run d i = Some r" "run_status r = RunQueued"
    and d': "d' = set_run d i (\<lambda>r. r\<lparr>run_status := RunRunning, run_started_at := Some now\<rparr>)"
  shows "runs_ok d'" and "states d' = (states d)(i \<mapsto> RunRunning)"
proof -
  let ?f = "\<lambda>r. r\<lparr>run_status := RunRunning, run_started_at := Some now\<rparr>"
  have uk: "uniq_key run_id (runs d)" using ok by (simp add: runs_ok_def)
  have only: "x = r" if "x \<in> set (runs d)" "run_id x = i" for x
    using find_run_iff [OF uk, of i x] that r(1) by simp
  have t: "runs d' = update_where (\<lambda>r. run_id r = i) ?f (runs d)" "uploads d' = uploads d" "scores d' = scores d"
    by (simp_all add: d' set_run_def)
  have rr: "r \<in> set (runs d)" using find_run_iff [OF uk, of i r] r(1) by simp
  have row: "run_row_ok r" using ok rr by (simp add: runs_ok_def)
  show "runs_ok d'"
  proof (rule runs_ok_update [OF ok t(1)])
    show "run_row_ok (?f x)" if "x \<in> set (runs d)" "run_id x = i" for x
      using only [OF that] row r(2) by (simp add: run_row_ok_def)
  qed (use only r(2) in \<open>auto simp: t\<close>)
  have id: "run_id r = i" using r(1) by (rule find_run_id)
  show "states d' = (states d)(i \<mapsto> RunRunning)"
  proof
    fix j
    have "states d' j = map_option (\<lambda>r. run_status (if run_id r = i then ?f r else r)) (find_run d j)"
      by (rule states_update [OF _ t(1)]) simp
    then show "states d' j = ((states d)(i \<mapsto> RunRunning)) j"
      using r(1) id by (cases "find_run d j") (auto simp: states_def dest: find_run_id)
  qed
qed

lemma mark_failed_effect:
  assumes ok: "runs_ok d"
  shows "runs_ok (mark_failed d i msg now)" and "lifecycle (states d) (states (mark_failed d i msg now))"
proof -
  let ?d = "mark_failed d i msg now"
  let ?p = "\<lambda>r. run_id r = i \<and> run_status r \<in> {RunQueued, RunRunning}"
  let ?f = "\<lambda>r. r\<lparr>run_status := RunFailed, run_error := Some (take 1000 msg), run_finished_at := Some now\<rparr>"
  have uk: "uniq_key run_id (runs d)" using ok by (simp add: runs_ok_def)
  have t: "runs ?d = update_where ?p ?f (runs d)" "uploads ?d = delete_where (\<lambda>u. up_run_id u = i) (uploads d)" "scores ?d = scores d"
    by (simp_all add: mark_failed_def drop_upload_def)
  show "runs_ok ?d"
    by (rule runs_ok_update [OF ok t(1)]) (auto simp: t run_row_ok_def)
  have s: "states ?d j = map_option (\<lambda>r. run_status (if ?p r then ?f r else r)) (find_run d j)" for j
    by (rule states_update [OF _ t(1)]) simp
  show "lifecycle (states d) (states ?d)"
  proof (cases "\<exists>r. find_run d i = Some r \<and> run_status r \<in> {RunQueued, RunRunning}")
    case True
    then obtain r where r: "find_run d i = Some r" "run_status r \<in> {RunQueued, RunRunning}" by blast
    have "states ?d = (states d)(i \<mapsto> RunFailed)"
    proof (intro ext)
      fix j
      show "states ?d j = ((states d)(i \<mapsto> RunFailed)) j"
        using r by (cases "find_run d j") (auto simp: s states_def [of d] dest: find_run_id)
    qed
    moreover have "states d i = Some RunQueued \<or> states d i = Some RunRunning" using r by (auto simp: states_def)
    ultimately show ?thesis by (metis life_fail)
  next
    case False
    have "states ?d = states d"
    proof (intro ext)
      fix j
      show "states ?d j = states d j"
        using False by (cases "find_run d j") (auto simp: s states_def [of d] dest: find_run_id)
    qed
    then show ?thesis by (simp add: life_stay)
  qed
qed

text \<open>What every completion does to the tables of runs.\<close>

definition completes :: "uuid \<Rightarrow> db \<Rightarrow> db \<Rightarrow> bool" where
  "completes i d d' \<longleftrightarrow> is_running d i \<and>
     (\<exists>g. runs d' = update_where (\<lambda>r. run_id r = i) g (runs d) \<and>
        (\<forall>r. run_id (g r) = run_id r \<and> run_trigger (g r) = run_trigger r \<and> run_status (g r) = RunSucceeded \<and>
             run_finished_at (g r) \<noteq> None \<and> run_error (g r) = None)) \<and>
     set (uploads d') \<subseteq> set (uploads d) \<and>
     (\<forall>u \<in> set (uploads d'). up_run_id u = i \<longrightarrow> (\<forall>r \<in> set (runs d). run_id r = i \<longrightarrow> run_trigger r = TrigManual)) \<and>
     (\<forall>s \<in> set (scores d'). s \<in> set (scores d) \<or> sc_run_id s = i)"

lemma completes_effect:
  assumes ok: "runs_ok d" and c: "completes i d d'"
  shows "runs_ok d'" and "states d i = Some RunRunning" and "states d' = (states d)(i \<mapsto> RunSucceeded)"
proof -
  from c obtain g where run: "is_running d i" and t: "runs d' = update_where (\<lambda>r. run_id r = i) g (runs d)"
    and g: "\<And>r. run_id (g r) = run_id r \<and> run_trigger (g r) = run_trigger r \<and> run_status (g r) = RunSucceeded \<and>
             run_finished_at (g r) \<noteq> None \<and> run_error (g r) = None"
    and ups: "set (uploads d') \<subseteq> set (uploads d)"
    and manual: "\<forall>u \<in> set (uploads d'). up_run_id u = i \<longrightarrow> (\<forall>r \<in> set (runs d). run_id r = i \<longrightarrow> run_trigger r = TrigManual)"
    and scr: "\<forall>s \<in> set (scores d'). s \<in> set (scores d) \<or> sc_run_id s = i"
    unfolding completes_def by blast
  from run obtain r where r: "r \<in> set (runs d)" "run_id r = i" "run_status r = RunRunning" unfolding is_running_def by blast
  have uk: "uniq_key run_id (runs d)" using ok by (simp add: runs_ok_def)
  have fr: "find_run d i = Some r" using find_run_iff [OF uk, of i r] r by simp
  then show "states d i = Some RunRunning" using r(3) by (simp add: states_def)
  show "runs_ok d'"
  proof (rule runs_ok_update [OF ok t])
    show "run_id (g x) = run_id x" "run_trigger (g x) = run_trigger x" for x using g by blast+
    show "run_row_ok (g x)" for x using g [of x] by (auto simp: run_row_ok_def)
    show "\<forall>u \<in> set (uploads d'). up_run_id u = run_id x \<longrightarrow> run_status x \<in> {RunSucceeded, RunFailed} \<or> run_trigger x = TrigManual"
      if "x \<in> set (runs d)" "run_id x = i" for x using manual that by blast
    show "run_status (g x) = RunSucceeded" for x using g by blast
    show "s \<in> set (scores d) \<or> (\<exists>x \<in> set (runs d). run_id x = i \<and> run_id x = sc_run_id s \<and> run_status (g x) = RunSucceeded)"
      if s: "s \<in> set (scores d')" for s
    proof (cases "s \<in> set (scores d)")
      case False
      with scr s have "sc_run_id s = i" by blast
      moreover have "run_status (g r) = RunSucceeded" using g by blast
      ultimately show ?thesis using r(1,2) by (intro disjI2 bexI [of _ r]) simp_all
    qed simp
  qed (use ups in blast)
  show "states d' = (states d)(i \<mapsto> RunSucceeded)"
  proof (intro ext)
    fix j
    have sj: "states d' j = map_option (\<lambda>r. run_status (if run_id r = i then g r else r)) (find_run d j)"
      by (rule states_update [OF _ t]) (use g in blast)
    show "states d' j = ((states d)(i \<mapsto> RunSucceeded)) j"
    proof (cases "find_run d j")
      case None
      with fr show ?thesis using sj by (auto simp: states_def [of d])
    next
      case (Some x)
      have "run_status (g x) = RunSucceeded" using g by blast
      with Some fr show ?thesis using sj find_run_id [OF Some] by (cases "j = i") (simp_all add: states_def [of d])
    qed
  qed
qed

lemma set_run_tables [simp]:
  "runs (set_run d i f) = update_where (\<lambda>r. run_id r = i) f (runs d)" "uploads (set_run d i f) = uploads d"
  "scores (set_run d i f) = scores d" "runs (drop_upload d i) = runs d" "scores (drop_upload d i) = scores d"
  "uploads (drop_upload d i) = delete_where (\<lambda>u. up_run_id u = i) (uploads d)"
  by (simp_all add: set_run_def drop_upload_def)

lemma upsert_upload_in:
  assumes "upsert_upload_series d sc x ov n m now = Inr (d', s')"
  shows "s' \<in> set (all_series d') \<and> ser_external_id s' = x"
proof -
  define d1 where "d1 = d\<lparr>sources := insert_missing (\<lambda>s. (src_workspace_id s, src_name s)) (uploads_source sc n now) (sources d)\<rparr>"
  define j where "j = the (uploads_source_id d1 sc)"
  define d2 where "d2 = d1\<lparr>all_series := insert_missing (\<lambda>s. (ser_source_id s, ser_external_id s)) (blank_series sc m j x now) (all_series d1)\<rparr>"
  let ?p = "\<lambda>s. ser_source_id s = j \<and> ser_external_id s = x"
  have "\<exists>s \<in> set (all_series d2). ?p s"
    using insert_missing_present [where t = "all_series d1" and k = "\<lambda>s. (ser_source_id s, ser_external_id s)" and new = "blank_series sc m j x now"]
    by (simp add: d2_def blank_series_def)
  then obtain s where s: "List.find ?p (all_series d2) = Some s" by (cases "List.find ?p (all_series d2)") (auto simp: find_None_iff')
  then have mem: "s \<in> set (all_series d2)" "?p s" by (auto dest: find_SomeD)
  let ?changed = "filter (\<lambda>(k, v). map_of (values_of s) k \<noteq> Some v) ov"
  from assms have s': "s' = (if ?changed = [] then s else (set_fields ?changed s)\<lparr>ser_updated_at := now\<rparr>)" and d': "d' = set_series d2 (ser_id s) s'"
    unfolding upsert_upload_series_def Let_def d1_def [symmetric] j_def [symmetric] d2_def [symmetric] s option.sel
    by (auto simp: result_simps)
  have "s' \<in> set (all_series d')" using mem(1) by (auto simp: d' set_series_def in_set_update_where intro!: bexI [of _ s])
  then show ?thesis using mem(2) by (auto simp: s')
qed

lemma persist_report_series: "all_series (fst (persist_report d sc r i rep now ids)) = all_series d"
proof -
  have one: "all_series (fst (store_finding sc r i now x st)) = all_series (fst st)" for x st
    by (auto simp: store_finding_def merge_finding_def Let_def split: prod.splits option.splits)
  have "all_series (fst (fold (store_finding sc r i now) xs st)) = all_series (fst st)" for xs st
    by (induction xs arbitrary: st) (simp_all add: one)
  moreover have "fst (persist_report d sc r i rep now ids) = fst (fold (store_finding sc r i now) (zip (rep_findings rep) ids)
      (store_metrics d (metric_rows (sc_org sc) r i (rep_metrics rep)), 0, 0))"
    by (simp add: persist_report_def Let_def split: prod.splits)
  moreover have "all_series (store_metrics d ms) = all_series d" for ms by (simp add: store_metrics_def)
  ultimately show ?thesis by simp
qed

lemma complete_run_completes:
  assumes "complete_run E d i sc c = Completed d' s"
  shows "completes i d d'" and "score_row sc i (ser_id s) (cr_score (ck_report c)) (re_now_finish E) \<in> set (scores d')"
    and "s \<in> set (all_series d')" and "ser_external_id s = rn_series_id (ck_params c)" and "\<forall>u \<in> set (uploads d'). up_run_id u \<noteq> i"
proof -
  let ?rep = "ck_report c" and ?now = "re_now_finish E"
  let ?f = "\<lambda>r. succeed_run r (fst (cr_window ?rep)) (snd (cr_window ?rep)) (cr_now_ns ?rep) ?now"
  let ?d1 = "set_run d i ?f"
  have run: "is_running d i" using assms by (auto simp: complete_run_def Let_def split: if_splits)
  obtain d2 t where u: "upsert_upload_series ?d1 sc (rn_series_id (ck_params c)) (ck_overrides c) (re_source_id E) (re_series_id E) ?now = Inr (d2, t)"
    using assms run by (auto simp: complete_run_def Let_def split: sum.splits prod.splits)
  let ?d3 = "d2\<lparr>scores := scores d2 @ [score_row sc i (ser_id t) (cr_score ?rep) ?now]\<rparr>"
  obtain d4 out where p: "persist_report ?d3 sc i (ser_id t) (check_report.truncate ?rep) ?now (fresh_ids (re_finding_id E) ?rep) = (d4, out)"
    by fastforce
  have d': "d' = drop_upload (set_run d4 i (\<lambda>r. r\<lparr>run_stats := run_stats_of c t out\<rparr>)) i" and st: "s = t"
    using assms by (auto simp: complete_run_def Let_def run u p split: option.splits)
  have t4: "run_tables d4 = run_tables ?d3" using persist_report_tables [of ?d3 sc i "ser_id t" "check_report.truncate ?rep" ?now] p by (metis fst_conv)
  have t2: "run_tables d2 = run_tables ?d1" by (rule upsert_upload_tables [OF u])
  have tabs: "runs d4 = update_where (\<lambda>r. run_id r = i) ?f (runs d)" "uploads d4 = uploads d"
    "scores d4 = scores d @ [score_row sc i (ser_id t) (cr_score ?rep) ?now]"
    using t4 t2 by (simp_all add: run_tables_eq)
  have runs: "runs d' = update_where (\<lambda>r. run_id r = i) (\<lambda>r. (?f r)\<lparr>run_stats := run_stats_of c t out\<rparr>) (runs d)"
    by (simp add: d' tabs update_where_twice succeed_run_def)
  show "completes i d d'" unfolding completes_def
  proof (intro conjI exI)
    show "runs d' = update_where (\<lambda>r. run_id r = i) (\<lambda>r. (?f r)\<lparr>run_stats := run_stats_of c t out\<rparr>) (runs d)" by (rule runs)
  qed (use run in \<open>auto simp: succeed_run_def d' tabs score_row_def\<close>)
  show "score_row sc i (ser_id s) (cr_score ?rep) ?now \<in> set (scores d')" by (simp add: d' tabs st)
  have "all_series d4 = all_series ?d3" using persist_report_series [of ?d3 sc i "ser_id t" "check_report.truncate ?rep" ?now] p by (metis fst_conv)
  then have "all_series d' = all_series d2" by (simp add: d' set_run_def drop_upload_def)
  with upsert_upload_in [OF u] show "s \<in> set (all_series d')" "ser_external_id s = rn_series_id (ck_params c)" by (simp_all add: st)
  show "\<forall>u \<in> set (uploads d'). up_run_id u \<noteq> i" by (simp add: d')
qed

lemma persist_member_tables:
  "persist_member E i sc k m rep st = (d', t) \<Longrightarrow> runs d' = runs (fst st) \<and> uploads d' = uploads (fst st) \<and>
     scores d' = scores (fst st) @ [score_row sc i (dm_id m) (cr_score rep) (de_now_finish E)]"
proof -
  obtain d u where st: "st = (d, u)" by (cases st)
  let ?d = "d\<lparr>scores := scores d @ [score_row sc i (dm_id m) (cr_score rep) (de_now_finish E)]\<rparr>"
  assume "persist_member E i sc k m rep st = (d', t)"
  then have "d' = fst (persist_report ?d sc i (dm_id m) (check_report.truncate rep) (de_now_finish E) (fresh_ids (de_finding_id E k) rep))"
    by (simp add: persist_member_def st Let_def split: prod.splits)
  then have "run_tables d' = run_tables ?d" by (simp add: persist_report_tables)
  then show ?thesis by (simp add: run_tables_eq st)
qed

lemma persist_members_tables:
  "persist_members E i sc k ms st = (d', t) \<Longrightarrow> runs d' = runs (fst st) \<and> uploads d' = uploads (fst st) \<and>
     scores d' = scores (fst st) @ map (\<lambda>(m, rep). score_row sc i (dm_id m) (cr_score rep) (de_now_finish E)) ms"
proof (induction ms arbitrary: k st)
  case (Cons x ms)
  obtain m rep where x: "x = (m, rep)" by (cases x)
  obtain d1 t1 where one: "persist_member E i sc k m rep st = (d1, t1)" by fastforce
  from Cons.prems have "persist_members E i sc (Suc k) ms (d1, t1) = (d', t)" by (simp add: x one)
  from Cons.IH [OF this] persist_member_tables [OF one] show ?case by (simp add: x)
qed simp

lemma persist_dataset_completes:
  assumes "persist_dataset E d i p rep = Some d'" and "\<forall>r \<in> set (runs d). run_id r = i \<longrightarrow> run_trigger r = TrigManual"
  shows "completes i d d'" and "scores d' = scores d @ map (\<lambda>(m, rep). score_row (pl_scope p) i (dm_id m) (cr_score rep) (de_now_finish E)) (checked_members p rep)"
proof -
  let ?f = "\<lambda>r. succeed_run r (pl_start_ns p) (pl_end_ns p) (pl_now_ns p) (de_now_finish E)"
  have run: "is_running d i" using assms(1) by (auto simp: persist_dataset_def split: if_splits)
  obtain d2 t where m: "persist_members E i (pl_scope p) 0 (checked_members p rep)
      (set_run d i ?f, \<lparr>to_samples = 0, to_findings = 0, to_metrics = 0, to_new = 0, to_merged = 0\<rparr>) = (d2, t)" by fastforce
  have d': "d' = set_run d2 i (\<lambda>r. r\<lparr>run_stats := dataset_stats p rep t\<rparr>)"
    using assms(1) by (simp add: persist_dataset_def run m Let_def)
  note tabs = persist_members_tables [OF m]
  have runs: "runs d' = update_where (\<lambda>r. run_id r = i) (\<lambda>r. (?f r)\<lparr>run_stats := dataset_stats p rep t\<rparr>) (runs d)"
    using tabs by (simp add: d' update_where_twice succeed_run_def)
  show sc: "scores d' = scores d @ map (\<lambda>(m, rep). score_row (pl_scope p) i (dm_id m) (cr_score rep) (de_now_finish E)) (checked_members p rep)"
    using tabs by (simp add: d')
  show "completes i d d'" unfolding completes_def
  proof (intro conjI exI)
    show "runs d' = update_where (\<lambda>r. run_id r = i) (\<lambda>r. (?f r)\<lparr>run_stats := dataset_stats p rep t\<rparr>) (runs d)" by (rule runs)
    show "\<forall>s \<in> set (scores d'). s \<in> set (scores d) \<or> sc_run_id s = i" by (auto simp: sc score_row_def)
  qed (use run tabs assms(2) in \<open>auto simp: succeed_run_def d'\<close>)
qed

lemma cache_upload_effect:
  assumes ok: "runs_ok d"
  shows "runs_ok (cache_upload E d i sc s c)" and "states (cache_upload E d i sc s c) = states d"
proof -
  let ?d = "cache_upload E d i sc s c"
  have "\<exists>x. runs ?d = update_where (\<lambda>r. run_id r = i) (\<lambda>r. r\<lparr>run_stats := x r\<rparr>) (runs d) \<and> uploads ?d = uploads d \<and> scores ?d = scores d"
  proof (cases "runs ?d = runs d \<and> uploads ?d = uploads d \<and> scores ?d = scores d")
    case True
    then show ?thesis by (intro exI [of _ run_stats]) (simp add: update_where_same)
  next
    case False
    then show ?thesis
      by (auto simp: cache_upload_def Let_def coverage_record_def split: option.splits sum.splits if_splits)
  qed
  then obtain x where t: "runs ?d = update_where (\<lambda>r. run_id r = i) (\<lambda>r. r\<lparr>run_stats := x r\<rparr>) (runs d)" "uploads ?d = uploads d" "scores ?d = scores d"
    by blast
  show "runs_ok ?d" by (rule runs_ok_update [OF ok t(1)]) (use ok in \<open>auto simp: t runs_ok_def run_row_ok_def\<close>)
  show "states ?d = states d"
  proof (intro ext)
    fix j
    have "states ?d j = map_option (\<lambda>r. run_status (if run_id r = i then r\<lparr>run_stats := x r\<rparr> else r)) (find_run d j)"
      by (rule states_update [OF _ t(1)]) simp
    then show "states ?d j = states d j" by (cases "find_run d j") (auto simp: states_def [of d])
  qed
qed

lemma reap_effect:
  assumes ok: "runs_ok d"
  shows "runs_ok (fst (reap_stale_runs d older now))" and "lifecycle (states d) (states (fst (reap_stale_runs d older now)))"
proof -
  let ?d = "fst (reap_stale_runs d older now)"
  let ?p = "\<lambda>r. run_status r = RunRunning \<and> (case run_started_at r of None \<Rightarrow> False | Some t \<Rightarrow> t < now - older)"
  let ?f = "\<lambda>r. r\<lparr>run_status := RunFailed, run_error := Some WORKER_LOST, run_finished_at := Some now\<rparr>"
  have uk: "uniq_key run_id (runs d)" using ok by (simp add: runs_ok_def)
  have t: "runs ?d = update_where ?p ?f (runs d)" "scores ?d = scores d"
    "uploads ?d = delete_where (\<lambda>u. \<exists>r \<in> set (update_where ?p ?f (runs d)). run_id r = up_run_id u \<and> run_status r = RunFailed \<and>
        run_error r = Some WORKER_LOST) (uploads d)"
    by (simp_all add: reap_stale_runs_def Let_def)
  show "runs_ok ?d"
  proof (rule runs_ok_update [OF ok t(1)])
    show "\<forall>u \<in> set (uploads ?d). up_run_id u = run_id x \<longrightarrow> run_status x \<in> {RunSucceeded, RunFailed} \<or> run_trigger x = TrigManual"
      if "x \<in> set (runs d)" "?p x" for x
    proof (intro ballI impI)
      fix u assume u: "u \<in> set (uploads ?d)" "up_run_id u = run_id x"
      have "?f x \<in> set (update_where ?p ?f (runs d))" using that by (auto simp: in_set_update_where)
      then have "\<exists>r \<in> set (update_where ?p ?f (runs d)). run_id r = up_run_id u \<and> run_status r = RunFailed \<and> run_error r = Some WORKER_LOST"
        by (intro bexI [of _ "?f x"]) (simp_all add: u(2))
      then have "u \<notin> set (uploads ?d)" unfolding t(3) set_delete_where by blast
      with u(1) show "run_status x \<in> {RunSucceeded, RunFailed} \<or> run_trigger x = TrigManual" by blast
    qed
    show "set (uploads ?d) \<subseteq> set (uploads d)" unfolding t(3) by auto
  qed (auto simp: t(2) run_row_ok_def)
  let ?I = "{i. \<exists>r. find_run d i = Some r \<and> ?p r}"
  have eq: "states ?d = (\<lambda>i. if i \<in> ?I then Some RunFailed else states d i)"
  proof (intro ext)
    fix j
    have "states ?d j = map_option (\<lambda>r. run_status (if ?p r then ?f r else r)) (find_run d j)"
      by (rule states_update [OF _ t(1)]) simp
    then show "states ?d j = (if j \<in> ?I then Some RunFailed else states d j)"
      by (cases "find_run d j") (simp_all add: states_def [of d])
  qed
  have "\<forall>i \<in> ?I. states d i = Some RunRunning" by (auto simp: states_def)
  then show "lifecycle (states d) (states ?d)" unfolding eq by (rule life_reap)
qed

lemma new_run_effect:
  assumes ok: "runs_ok d" and fresh: "new_id \<notin> run_id ` set (runs d)"
    and runs: "runs d' = runs d @ [r]" "scores d' = scores d" "uploads d' = uploads d @ us"
    and r: "run_id r = new_id" "run_status r = RunQueued" "run_row_ok r"
    and us: "\<forall>u \<in> set us. up_run_id u = new_id \<and> run_trigger r = TrigUpload"
  shows "runs_ok d'" and "states d' = (states d)(new_id \<mapsto> RunQueued)" and "states d new_id = None"
proof -
  have n: "\<forall>x \<in> set (runs d). run_id x \<noteq> new_id" using fresh by auto
  then have none: "find_run d new_id = None" by (simp add: find_run_def find_None_iff')
  show "states d new_id = None" by (simp add: states_def none)
  show "runs_ok d'" using ok n r us by (fastforce simp: runs_ok_def runs)
  show "states d' = (states d)(new_id \<mapsto> RunQueued)"
  proof (intro ext)
    fix j
    show "states d' j = ((states d)(new_id \<mapsto> RunQueued)) j"
      using none r(1,2) by (auto simp: states_def find_run_def runs(1) find_append_cases split: option.splits)
  qed
qed

section \<open>A worker's whole execution\<close>

lemma touches_tables: "touches fid d d' \<Longrightarrow> run_tables d' = run_tables d"
  by (auto simp: touches_def run_tables_def)

lemma finish_tables: "run_tables (finish E d fid out) = run_tables d"
  by (simp add: finish_def run_tables_def set_fetch_def set_source_def Let_def split: option.splits)

lemma execute_fetch_tables: "execute_fetch E d fid dl = Ended d' out written \<Longrightarrow> run_tables d' = run_tables d"
proof (erule execute_fetch_Ended)
  fix d1 plan st s assume t: "touches fid d d1" and d': "d' = finish E (fs_db st) fid out"
    and r: "run_calls E dl plan fid 0 (jp_calls plan) \<lparr>fs_db = d1, fs_cache = [], fs_out = new_outcome FetchRunning None\<rparr> = (st, s)"
  show "run_tables d' = run_tables d"
    using touches_tables [OF t] touches_tables [OF run_calls_touches [OF r]] by (simp add: d' finish_tables)
qed (simp add: finish_tables)

lemma fetch_sources_tables:
  "fetch_sources E clock ids dl i now k ss st = (d', p') \<Longrightarrow> run_tables d' = run_tables (fst st)"
proof (induction ss arbitrary: k st)
  case (Cons s ss)
  obtain d p where st: "st = (d, p)" by (cases st)
  show ?case
  proof (cases "dl \<le> clock (Suc k)")
    case True
    with Cons.prems st Cons.IH show ?thesis by fastforce
  next
    case False
    obtain d1 f where c: "create_fetch d s (ids k) FRun (ns_to_datetime (pl_start_ns p)) (ns_to_datetime_ceil (pl_end_ns p))
        (Some (wanted_series p (src_id s))) False None (Some i) FetchQueued None now = (d1, f)" by fastforce
    then have d1: "run_tables d1 = run_tables d" by (auto simp: create_fetch_def run_tables_def Let_def)
    show ?thesis
    proof (cases "execute_fetch (E k) d1 (sf_id f) (Some dl)")
      case Skipped
      with Cons.prems st False c have "\<exists>p1. fetch_sources E clock ids dl i now (Suc k) ss (d1, p1) = (d', p')" by auto
      then show ?thesis using Cons.IH d1 by (fastforce simp: st)
    next
      case Raised
      with Cons.prems st False c d1 show ?thesis by simp
    next
      case (Ended d2 out written)
      with Cons.prems st False c have "\<exists>p1. fetch_sources E clock ids dl i now (Suc k) ss (d2, p1) = (d', p')" by auto
      then show ?thesis using Cons.IH execute_fetch_tables [OF Ended] d1 by (fastforce simp: st)
    qed
  qed
qed simp

lemma fill_gaps_tables: "fill_gaps E d i p = (d', p') \<Longrightarrow> run_tables d' = run_tables d"
proof (cases "de_fetch E")
  case (Some eb)
  obtain e b where eb: "eb = (e, b)" by (cases eb)
  assume f: "fill_gaps E d i p = (d', p')"
  obtain d1 p1 where g: "fetch_sources e (de_mono E) (de_fetch_id E) (de_mono E 0 + b) i (de_now_fetch E) 0 (gap_sources d p) (d, p) = (d1, p1)"
    by fastforce
  from fetch_sources_tables [OF g] f show ?thesis
    by (cases p1) (auto simp: fill_gaps_def Some eb g split: if_splits)
qed (simp add: fill_gaps_def)

lemma check_dataset_tables: "check_dataset E d i p = (d', r) \<Longrightarrow> run_tables d' = run_tables d"
proof (cases "\<exists>q read. p = Some q \<and> de_cache E = Some read")
  case True
  then obtain q read where q: "p = Some q" "de_cache E = Some read" by blast
  obtain d1 q1 where f: "fill_gaps E d i q = (d1, q1)" by fastforce
  assume "check_dataset E d i p = (d', r)"
  then have "d' = d1" by (auto simp: check_dataset_def q f split: option.splits sum.splits if_splits)
  with fill_gaps_tables [OF f] show ?thesis by simp
qed (auto simp: check_dataset_def split: option.splits)

section \<open>Every transaction on runs\<close>

text \<open>
  The transactions that workers, requests, the reaper and everything else commit, with any values a worker
  may hold; a worker runs the executor of the run's trigger.  The tables of series data are of the type
  \<open>'t\<close>.
\<close>

inductive run_step :: "'t itself \<Rightarrow> db \<Rightarrow> db \<Rightarrow> bool" for T :: "'t itself" where
  step_upload_run: "create_run d sc bytes name ct params new_id now = (d', r) \<Longrightarrow> new_id \<notin> run_id ` set (runs d) \<Longrightarrow> run_step T d d'"
| step_dataset_run: "create_dataset_run d sc i new_id now created = Inr (d', r) \<Longrightarrow> new_id \<notin> run_id ` set (runs d) \<Longrightarrow> run_step T d d'"
| step_claim: "claim_run d i now = Some (d', sc, pl) \<Longrightarrow> run_step T d d'"
| step_dataset_claim: "find_run d i = Some r \<Longrightarrow> run_status r = RunQueued \<Longrightarrow>
    d' = set_run d i (\<lambda>r. r\<lparr>run_status := RunRunning, run_started_at := Some now\<rparr>) \<Longrightarrow> run_step T d d'"
| step_fail: "run_step T d (mark_failed d i msg now)"
| step_complete: "complete_run (E :: 't run_env) d i sc c = Completed d' s \<Longrightarrow> run_step T d d'"
| step_persist: "persist_dataset (F :: 't dataset_env) d i p rep = Some d' \<Longrightarrow>
    \<forall>r \<in> set (runs d). run_id r = i \<longrightarrow> run_trigger r = TrigManual \<Longrightarrow> run_step T d d'"
| step_cache: "run_step T d (cache_upload (E :: 't run_env) d i sc s c)"
| step_reap: "run_step T d (fst (reap_stale_runs d older now))"
| step_other: "run_tables d' = run_tables d \<Longrightarrow> run_step T d d'"

inductive_cases run_stepE: "run_step T d d'"

lemma run_step_effect:
  assumes "run_step T d d'" and ok: "runs_ok d"
  shows "runs_ok d' \<and> lifecycle (states d) (states d')"
  using assms
proof (induction rule: run_step.induct)
  case (step_upload_run d sc bytes name ct params new_id now d' r)
  then have d': "runs d' = runs d @ [r]" "scores d' = scores d" "uploads d' = uploads d @ [last (uploads d')]"
    and r: "run_id r = new_id" "run_status r = RunQueued" "run_row_ok r" "run_trigger r = TrigUpload" "up_run_id (last (uploads d')) = new_id"
    by (auto simp: create_run_def Let_def run_row_ok_def)
  note e = new_run_effect [OF step_upload_run(3,2) d' r(1-3)]
  have us: "\<forall>u \<in> set [last (uploads d')]. up_run_id u = new_id \<and> run_trigger r = TrigUpload" using r(4,5) by simp
  from e [OF us] show ?case by (metis life_create)
next
  case (step_dataset_run d sc i new_id now created d' r)
  then have d': "runs d' = runs d @ [r]" "scores d' = scores d" "uploads d' = uploads d @ []"
    and r: "run_id r = new_id" "run_status r = RunQueued" "run_row_ok r"
    by (auto simp: create_dataset_run_def run_row_ok_def Let_def split: option.splits sum.splits prod.splits)
  from new_run_effect [OF step_dataset_run(3,2) d' r] show ?case by (metis life_create empty_iff list.set(1))
next
  case (step_claim d i now d' sc pl)
  from step_claim(1) show ?case
  proof (rule claim_run_parts)
    fix r assume r: "find_run d i = Some r" "run_status r = RunQueued"
      and d': "d' = set_run d i (\<lambda>r. r\<lparr>run_status := RunRunning, run_started_at := Some now\<rparr>)"
    have "states d i = Some RunQueued" using r by (simp add: states_def)
    with start_run_effect [OF step_claim(2) r d'] show ?case by (metis life_start)
  qed
next
  case (step_dataset_claim d i r d' now)
  have "states d i = Some RunQueued" using step_dataset_claim(1,2) by (simp add: states_def)
  with start_run_effect [OF step_dataset_claim(4,1-3)] show ?case by (metis life_start)
next
  case (step_complete E d i sc c d' s)
  from completes_effect [OF step_complete(2) complete_run_completes(1) [OF step_complete(1)]] show ?case by (metis life_succeed)
next
  case (step_persist F d i p rep d')
  from completes_effect [OF step_persist(3) persist_dataset_completes(1) [OF step_persist(1,2)]] show ?case by (metis life_succeed)
next
  case (step_other d' d)
  then have "states d' = states d" by (intro states_tables) (simp add: run_tables_eq)
  with step_other runs_ok_tables show ?case by (metis life_stay)
qed (use mark_failed_effect cache_upload_effect reap_effect life_stay in metis)+

section \<open>Where an execution ends\<close>

lemma mark_failed_states:
  "states (mark_failed d i msg now) j =
     (if j = i \<and> states d i \<in> {Some RunQueued, Some RunRunning} then Some RunFailed else states d j)"
proof -
  let ?p = "\<lambda>r. run_id r = i \<and> run_status r \<in> {RunQueued, RunRunning}"
  let ?f = "\<lambda>r. r\<lparr>run_status := RunFailed, run_error := Some (take 1000 msg), run_finished_at := Some now\<rparr>"
  have t: "runs (mark_failed d i msg now) = update_where ?p ?f (runs d)" by (simp add: mark_failed_def drop_upload_def)
  have "states (mark_failed d i msg now) j = map_option (\<lambda>r. run_status (if ?p r then ?f r else r)) (find_run d j)"
    by (rule states_update [OF _ t]) simp
  then show ?thesis by (cases "find_run d j") (auto simp: states_def [of d] dest: find_run_id)
qed

lemma running_from_states: "states d i = Some RunRunning \<Longrightarrow> is_running d i"
  by (auto simp: states_def is_running_def find_run_def dest!: find_SomeD)

text \<open>The upload's executor, case by case.\<close>

lemma execute_run_cases:
  assumes ok: "runs_ok d" and r: "find_run d i = Some r" "run_status r = RunQueued"
  obtains (failed) d1 sc pl msg where "claim_run d i (re_now_claim E) = Some (d1, sc, pl)" "execute_run E d i = mark_failed d1 i msg (re_now_fail E)"
      "runs_ok d1" "states d1 = (states d)(i \<mapsto> RunRunning)" "d1\<lparr>runs := runs d\<rparr> = d"
  | (succeeded) d1 sc pl c d2 s where "claim_run d i (re_now_claim E) = Some (d1, sc, pl)" "check_upload E pl = Inr c"
      "complete_run E d1 i sc c = Completed d2 s" "execute_run E d i = cache_upload E d2 i sc s c"
      "runs_ok d2" "states d2 = (states d)(i \<mapsto> RunSucceeded)"
proof -
  obtain d1 sc pl where c: "claim_run d i (re_now_claim E) = Some (d1, sc, pl)" by (auto simp: claim_run_def r)
  then have d1: "d1 = set_run d i (\<lambda>r. r\<lparr>run_status := RunRunning, run_started_at := Some (re_now_claim E)\<rparr>)"
    by (auto simp: claim_run_def r)
  note s = start_run_effect [OF ok r d1]
  have only: "d1\<lparr>runs := runs d\<rparr> = d" by (simp add: d1 set_run_def)
  show thesis
  proof (cases "check_upload E pl")
    case (Inl msg)
    then show thesis by (intro failed [OF c _ s only, of msg]) (simp add: execute_run_def c)
  next
    case (Inr ck)
    have running: "is_running d1 i" by (rule running_from_states) (simp add: s)
    show thesis
    proof (cases "complete_run E d1 i sc ck")
      case NotRunning
      with running show thesis by (auto simp: complete_run_def Let_def split: sum.splits prod.splits option.splits)
    next
      case (Refused msg)
      then show thesis by (intro failed [OF c _ s only, of msg]) (simp add: execute_run_def c Inr)
    next
      case (Completed d2 t)
      note e = completes_effect [OF s(1) complete_run_completes(1) [OF Completed]]
      show thesis by (rule succeeded [OF c Inr Completed _ e(1)]) (use e(3) s(2) in \<open>simp_all add: execute_run_def c Inr Completed\<close>)
    qed
  qed
qed

lemma execute_run_states:
  assumes "runs_ok d" and "find_run d i = Some r" "run_status r = RunQueued"
  shows "states (execute_run E d i) i \<in> {Some RunSucceeded, Some RunFailed} \<and> (j \<noteq> i \<longrightarrow> states (execute_run E d i) j = states d j)"
  by (rule execute_run_cases [OF assms, of E]) (auto simp: mark_failed_states cache_upload_effect)

lemma execute_dataset_run_states:
  assumes ok: "runs_ok d" and r: "find_run d i = Some r" "run_status r = RunQueued" "run_trigger r = TrigManual"
  shows "states (execute_dataset_run E d i) i \<in> {Some RunSucceeded, Some RunFailed} \<and> (j \<noteq> i \<longrightarrow> states (execute_dataset_run E d i) j = states d j)"
proof -
  define d1 where "d1 = set_run d i (\<lambda>r. r\<lparr>run_status := RunRunning, run_started_at := Some (de_now_claim E)\<rparr>)"
  note s = start_run_effect [OF ok r(1,2) d1_def]
  have q: "states d i = Some RunQueued" using r by (simp add: states_def)
  have uk: "uniq_key run_id (runs d)" using ok by (simp add: runs_ok_def)
  have trig: "\<forall>x \<in> set (runs d1). run_id x = i \<longrightarrow> run_trigger x = TrigManual"
  proof (intro ballI impI)
    fix x assume "x \<in> set (runs d1)" "run_id x = i"
    moreover from this obtain y where y: "y \<in> set (runs d)"
      "x = (if run_id y = i then y\<lparr>run_status := RunRunning, run_started_at := Some (de_now_claim E)\<rparr> else y)"
      unfolding d1_def set_run_tables in_set_update_where by blast
    ultimately have "y \<in> set (runs d)" "run_id y = i" "run_trigger x = run_trigger y" by (simp_all split: if_splits)
    then show "run_trigger x = TrigManual" using find_run_iff [OF uk, of i y] r(1,3) by simp
  qed
  have ex: "execute_dataset_run E d i = (case make_plan d1 r of
      PlanRaised e \<Rightarrow> mark_failed d i (''plan error: '' @ error_line e) (de_now_fail E)
    | PlanMetadata msg \<Rightarrow> mark_failed d1 i (''invalid series metadata: '' @ msg) (de_now_fail E)
    | Planned p \<Rightarrow> (case check_dataset E d1 i p of
           (d2, Inl msg) \<Rightarrow> mark_failed d2 i msg (de_now_fail E)
         | (d2, Inr (p', rep)) \<Rightarrow> (case de_persist_error E of
                Some e \<Rightarrow> mark_failed d2 i (''persist error: '' @ error_line e) (de_now_fail E)
              | None \<Rightarrow> (case persist_dataset E d2 i p' rep of None \<Rightarrow> d2 | Some d3 \<Rightarrow> d3))))"
    unfolding execute_dataset_run_def r(1) option.case r(2) Let_def d1_def [symmetric] by (simp only: simp_thms if_False)
  show ?thesis
  proof (cases "make_plan d1 r")
    case (Planned p)
    obtain d2 res where c: "check_dataset E d1 i p = (d2, res)" by fastforce
    note t = check_dataset_tables [OF c]
    have d2: "states d2 = states d1" using t by (intro states_tables) (simp add: run_tables_eq)
    have failing: "states (mark_failed d2 i msg now) i \<in> {Some RunSucceeded, Some RunFailed} \<and> (j \<noteq> i \<longrightarrow> states (mark_failed d2 i msg now) j = states d j)"
      for msg now by (simp add: mark_failed_states d2 s)
    show ?thesis
    proof (cases res)
      case (Inl msg)
      with failing show ?thesis by (simp add: ex Planned c)
    next
      case (Inr pr)
      obtain p' rep where pr: "pr = (p', rep)" by (cases pr)
      show ?thesis
      proof (cases "de_persist_error E")
        case (Some e)
        with failing show ?thesis by (simp add: ex Planned c Inr pr)
      next
        case None
        have ok2: "runs_ok d2" using s(1) runs_ok_tables [OF t] by simp
        have "is_running d2 i" by (rule running_from_states) (simp add: d2 s)
        then obtain d3 where p3: "persist_dataset E d2 i p' rep = Some d3"
          by (cases "persist_dataset E d2 i p' rep") (simp_all add: persist_dataset_def Let_def split: prod.splits)
        have "\<forall>x \<in> set (runs d2). run_id x = i \<longrightarrow> run_trigger x = TrigManual" using trig t by (simp add: run_tables_eq)
        from completes_effect(3) [OF ok2 persist_dataset_completes(1) [OF p3 this]] show ?thesis
          by (simp add: ex Planned c Inr pr None p3 d2 s)
      qed
    qed
  qed (simp_all add: ex mark_failed_states s q)
qed

section \<open>Properties of runs\<close>

text \<open>C23: whatever transactions of workers, requests and the reaper interleave, the states of the runs only
  move as the life cycle allows: a new run is queued, a queued one starts or fails, a running one succeeds or
  fails, and a succeeded or failed run keeps its state.\<close>

theorem runs_refine_lifecycle:
  assumes "(run_step T)\<^sup>*\<^sup>* d d'" and "runs_ok d"
  shows "lifecycle\<^sup>*\<^sup>* (states d) (states d') \<and>
     (\<forall>i t. states d i = Some t \<and> t \<in> {RunSucceeded, RunFailed} \<longrightarrow> states d' i = Some t)"
proof -
  have "runs_ok d' \<and> lifecycle\<^sup>*\<^sup>* (states d) (states d')"
    using assms
  proof (induction rule: rtranclp_induct)
    case (step y z)
    then have "runs_ok z \<and> lifecycle (states y) (states z)" using run_step_effect by blast
    with step show ?case by (meson rtranclp.rtrancl_into_rtrancl)
  qed simp
  moreover have "s' i = Some t" if "lifecycle\<^sup>*\<^sup>* s s'" "s i = Some t" "t \<in> {RunSucceeded, RunFailed}" for s s' i t
    using that by (induction rule: rtranclp_induct) (auto dest: lifecycle_terminal)
  ultimately show ?thesis by blast
qed

text \<open>Whatever transactions interleave, a score belongs to a succeeded run, so a failed, reaped or
  half-finished run leaves none; an upload's bytes are kept only while its run is open; and every row's
  times and error fit its status, a running one's start among them, which is what the reaper goes by.\<close>

theorem results_of_succeeded_runs:
  assumes "(run_step T)\<^sup>*\<^sup>* d d'" and "runs_ok d"
  shows "(\<forall>s \<in> set (scores d'). states d' (sc_run_id s) = Some RunSucceeded) \<and>
     (\<forall>u \<in> set (uploads d'). states d' (up_run_id u) \<in> {Some RunQueued, Some RunRunning}) \<and>
     (\<forall>r \<in> set (runs d'). run_row_ok r)"
proof -
  have ok: "runs_ok d'"
    using assms by (induction rule: rtranclp_induct) (auto dest: run_step_effect)
  then have uk: "uniq_key run_id (runs d')" by (simp add: runs_ok_def)
  have st: "states d' (run_id r) = Some (run_status r)" if "r \<in> set (runs d')" for r
    using find_run_iff [OF uk, of "run_id r" r] that by (simp add: states_def)
  show ?thesis
  proof (intro conjI ballI)
    fix s assume "s \<in> set (scores d')"
    with ok obtain r where "r \<in> set (runs d')" "run_id r = sc_run_id s" "run_status r = RunSucceeded" unfolding runs_ok_def by blast
    with st show "states d' (sc_run_id s) = Some RunSucceeded" by metis
  next
    fix u assume "u \<in> set (uploads d')"
    with ok obtain r where "r \<in> set (runs d')" "run_id r = up_run_id u" "run_status r \<in> {RunQueued, RunRunning}" unfolding runs_ok_def by blast
    with st [of r] show "states d' (up_run_id u) \<in> {Some RunQueued, Some RunRunning}" by auto
  qed (use ok in \<open>simp add: runs_ok_def\<close>)
qed

text \<open>C24: a queued run that a worker executes to the end without interference ends succeeded or failed,
  whatever the reader, the core, the connectors and the database answer, and no other run changes its
  state.\<close>

theorem execution_ends:
  assumes "runs_ok d" and "find_run d i = Some r" and "run_status r = RunQueued"
  shows "states (execute E F d i) i \<in> {Some RunSucceeded, Some RunFailed} \<and>
     (\<forall>j. j \<noteq> i \<longrightarrow> states (execute E F d i) j = states d j)"
proof (cases "run_trigger r = TrigManual")
  case True
  then have "execute E F d i = execute_dataset_run F d i" by (simp add: execute_def assms(2))
  with execute_dataset_run_states [OF assms True] show ?thesis by auto
next
  case False
  then have "execute E F d i = execute_run E d i" by (simp add: execute_def assms(2))
  with execute_run_states [OF assms] show ?thesis by auto
qed

text \<open>C25: an upload's run leaves all of its results or none: failed, it changes no series, source, score,
  metric, finding or coverage; succeeded, the series it names is there with the score of the core's report.
  Its bytes are gone either way.\<close>

theorem upload_run_all_or_nothing:
  assumes "runs_ok d" and "find_run d i = Some r" and "run_status r = RunQueued"
  shows "let d' = execute_run E d i in
     (\<forall>u \<in> set (uploads d'). up_run_id u \<noteq> i) \<and>
     (states d' i = Some RunFailed \<and> d'\<lparr>runs := runs d, uploads := uploads d\<rparr> = d \<or>
      states d' i = Some RunSucceeded \<and> (\<exists>d1 sc pl c s. claim_run d i (re_now_claim E) = Some (d1, sc, pl) \<and> check_upload E pl = Inr c \<and>
         s \<in> set (all_series d') \<and> ser_external_id s = rn_series_id (ck_params c) \<and>
         score_row sc i (ser_id s) (cr_score (ck_report c)) (re_now_finish E) \<in> set (scores d')))"
  using assms
proof (cases rule: execute_run_cases [of d i r E])
  case (failed d1 sc pl msg)
  have f: "(mark_failed d1 i msg (re_now_fail E))\<lparr>runs := runs d, uploads := uploads d\<rparr> = d1\<lparr>runs := runs d, uploads := uploads d\<rparr>"
    by (simp add: mark_failed_def drop_upload_def)
  have "d1\<lparr>runs := runs d, uploads := uploads d\<rparr> = d\<lparr>uploads := uploads d\<rparr>"
    by (rule arg_cong [OF failed(5), of "uploads_update (\<lambda>_. uploads d)"])
  moreover have "d\<lparr>uploads := uploads d\<rparr> = d" by (cases d) simp
  ultimately have "d1\<lparr>runs := runs d, uploads := uploads d\<rparr> = d" by (rule trans)
  with f show ?thesis
    by (simp add: failed(2,4) mark_failed_states Let_def) (simp add: mark_failed_def)
next
  case (succeeded d1 sc pl c d2 s)
  note c = complete_run_completes(2-5) [OF succeeded(3)]
  note e = cache_upload_effect(2) [OF succeeded(5), of E i sc s c]
  have "all_series (cache_upload E d2 i sc s c) = all_series d2" "scores (cache_upload E d2 i sc s c) = scores d2"
    "uploads (cache_upload E d2 i sc s c) = uploads d2"
    by (simp_all add: cache_upload_def set_run_def coverage_record_def Let_def split: option.splits sum.splits)
  with c e succeeded(1,2,6) show ?thesis by (auto simp: Let_def succeeded(4))
qed

section \<open>An example\<close>

definition ex_run_params :: run_params where
  "ex_run_params = \<lparr>rn_series_id = ''flow'', rn_unit = None, rn_ts_col = ''ts'', rn_value_col = ''value'', rn_quality_col = None,
     rn_ingest_col = None, rn_physical_min = None, rn_physical_max = None, rn_now_ns = None, rn_ts_unit = ''auto''\<rparr>"

definition ex_rdb :: db where
  "ex_rdb = fst (create_run empty_db \<lparr>sc_org = 1, sc_workspace = 2\<rparr> ''ts'' ''f.csv'' None ex_run_params 9 0)"

text \<open>A core that refuses every table.\<close>

definition ex_run_env :: "unit run_env" where
  "ex_run_env = \<lparr>re_read_csv = (\<lambda>_ _. CsvRead () ''s''), re_checks = (\<lambda>_ _ _. Inl (''no rows'', ''ValueError'')), re_cache = None,
     re_completion_error = None, re_cache_record_error = False, re_source_id = 20, re_series_id = 21, re_finding_id = (\<lambda>n. 30 + n),
     re_now_claim = 1, re_now_finish = 2, re_now_fail = 3, re_now_cache = 4\<rparr>"

lemma ex_rdb_facts: "runs_ok ex_rdb" "\<exists>r. find_run ex_rdb 9 = Some r \<and> run_status r = RunQueued" "length (uploads ex_rdb) = 1"
  "create_run empty_db \<lparr>sc_org = 1, sc_workspace = 2\<rparr> ''ts'' ''f.csv'' None ex_run_params 9 0 = (ex_rdb, the (find_run ex_rdb 9))"
  by (simp_all add: ex_rdb_def create_run_def empty_db_def runs_ok_def run_row_ok_def find_run_def Let_def uniq_key_def)

lemma ex_run_started:
  "\<exists>d' sc pl. claim_run ex_rdb 9 1 = Some (d', sc, pl) \<and> (run_step TYPE(unit))\<^sup>*\<^sup>* empty_db d' \<and> length (uploads d') = 1"
proof -
  from ex_rdb_facts(2) obtain d' sc pl where c: "claim_run ex_rdb 9 1 = Some (d', sc, pl)" by (auto simp: claim_run_def)
  have "run_step TYPE(unit) empty_db ex_rdb" by (rule step_upload_run [OF ex_rdb_facts(4)]) (simp add: empty_db_def)
  moreover have "run_step TYPE(unit) ex_rdb d'" by (rule step_claim [OF c])
  ultimately have "(run_step TYPE(unit))\<^sup>*\<^sup>* empty_db d'" by (meson converse_rtranclp_into_rtranclp r_into_rtranclp)
  moreover have "length (uploads d') = 1" using c ex_rdb_facts(3) by (auto simp: claim_run_def split: option.splits if_splits)
  ultimately show ?thesis using c by blast
qed

theorem runs_refine_lifecycle_witness:
  "\<exists>d'. (run_step TYPE(unit))\<^sup>*\<^sup>* empty_db d' \<and> lifecycle\<^sup>*\<^sup>* (states empty_db) (states d') \<and> length (uploads d') = 1"
proof -
  obtain d' where s: "(run_step TYPE(unit))\<^sup>*\<^sup>* empty_db d'" "length (uploads d') = 1" using ex_run_started by blast
  have "runs_ok empty_db" by (simp add: runs_ok_def empty_db_def)
  from runs_refine_lifecycle [OF s(1) this] s show ?thesis by blast
qed

theorem results_of_succeeded_runs_witness:
  "\<exists>d' u. (run_step TYPE(unit))\<^sup>*\<^sup>* empty_db d' \<and> u \<in> set (uploads d') \<and> states d' (up_run_id u) \<in> {Some RunQueued, Some RunRunning}"
proof -
  obtain d' where s: "(run_step TYPE(unit))\<^sup>*\<^sup>* empty_db d'" "length (uploads d') = 1" using ex_run_started by blast
  have "runs_ok empty_db" by (simp add: runs_ok_def empty_db_def)
  moreover from s(2) obtain u where "u \<in> set (uploads d')" by (cases "uploads d'") auto
  ultimately show ?thesis using results_of_succeeded_runs [OF s(1)] s(1) by blast
qed

theorem execution_ends_witness:
  "\<forall>F. \<exists>r. find_run ex_rdb 9 = Some r \<and> run_status r = RunQueued \<and>
     states (execute ex_run_env F ex_rdb 9) 9 \<in> {Some RunSucceeded, Some RunFailed}"
  using ex_rdb_facts(2) execution_ends [OF ex_rdb_facts(1), where i = 9 and E = ex_run_env] by blast

theorem upload_run_all_or_nothing_witness:
  "states (execute_run ex_run_env ex_rdb 9) 9 = Some RunFailed \<and>
   (execute_run ex_run_env ex_rdb 9)\<lparr>runs := runs ex_rdb, uploads := uploads ex_rdb\<rparr> = ex_rdb"
proof -
  obtain r where r: "find_run ex_rdb 9 = Some r" "run_status r = RunQueued" using ex_rdb_facts(2) by blast
  have "check_upload ex_run_env pl \<noteq> Inr c" for pl c
    by (auto simp: check_upload_def ex_run_env_def Let_def split: option.splits sum.splits upload_error.splits)
  with upload_run_all_or_nothing [OF ex_rdb_facts(1) r, of ex_run_env] show ?thesis by (auto simp: Let_def)
qed

end
