(* ===== verification/Sources.thy ===== *)
theory Sources
  imports Polling Series_Meta Metadata_Import Pagination
begin

text \<open>
  \<^verbatim>\<open>services/sources.py\<close> and the job routes of \<^verbatim>\<open>routers/sources.py\<close>: connector
  sources, their credentials and series, and the requests for jobs.  What the connector classes take from
  pydantic and the cryptography library is the record \<open>class_env\<close>: validating a config or credentials (the
  normalised value, or the errors with the values submitted), making a client identity and describing a
  certificate.  Fresh ids, nonces and the clock are arguments.
\<close>

section \<open>The connector classes\<close>

record validation_error =
  ve_loc :: "json list"
  ve_msg :: string
  ve_type :: string
  ve_input :: json

record class_env =
  ce_config :: "source_type \<Rightarrow> jobj \<Rightarrow> validation_error list + jobj"
  ce_credentials :: "source_type \<Rightarrow> jobj \<Rightarrow> validation_error list + jobj"
  ce_identity :: "uuid \<Rightarrow> string \<times> string"
  ce_certificate_info :: "string \<Rightarrow> jobj"

definition MAX_WINDOW :: int where "MAX_WINDOW = 366 * 86400 * 1000000"
definition MAX_SERIES_PER_CALL :: nat where "MAX_SERIES_PER_CALL = 500"

definition OPTIONAL_METHODS :: "fetch_trigger \<Rightarrow> string option" where
  "OPTIONAL_METHODS t = (case t of FSearch \<Rightarrow> Some ''search'' | FMetadata \<Rightarrow> Some ''describe'' | _ \<Rightarrow> None)"

text \<open>\<^verbatim>\<open>Connector.supports\<close> over the classes, and which of them have a \<^verbatim>\<open>credentials_model\<close>.\<close>

definition supports :: "source_type \<Rightarrow> string \<Rightarrow> bool" where
  "supports t method \<longleftrightarrow> t \<in> {SrcSynthetic, SrcPiWebApi, SrcOpcUa} \<and> method \<in> {''search'', ''describe''}"

definition takes_credentials :: "source_type \<Rightarrow> bool" where
  "takes_credentials t \<longleftrightarrow> t \<in> {SrcPiWebApi, SrcOpcUa}"

definition type_named :: "string \<Rightarrow> source_type option" where
  "type_named s = List.find (\<lambda>t. source_type_value t = s) [SrcUpload, SrcCsvDir, SrcPiWebApi, SrcOpcUa, SrcSynthetic]"

text \<open>
  \<^verbatim>\<open>OpcUaCredentials.has_identity\<close>, \<^verbatim>\<open>prepare_credentials\<close> and
  \<^verbatim>\<open>client_certificate\<close> on the dump of a credentials model.
\<close>

definition CERT :: string where "CERT = ''client_certificate_pem''"
definition KEY :: string where "KEY = ''client_private_key_pem''"

definition has_identity :: "jobj \<Rightarrow> bool" where
  "has_identity c \<longleftrightarrow> map_of c CERT \<noteq> None \<and> map_of c CERT \<noteq> Some JNull"

definition with_identity :: "jobj \<Rightarrow> json \<Rightarrow> json \<Rightarrow> jobj" where
  "with_identity c cert key = dict_merge c [(CERT, cert), (KEY, key)]"

definition prepare_credentials :: "class_env \<Rightarrow> source_type \<Rightarrow> jobj \<Rightarrow> jobj option \<Rightarrow> uuid \<Rightarrow> jobj \<times> jobj" where
  "prepare_credentials C t new previous source_id =
     (if t \<noteq> SrcOpcUa then (new, [])
      else if has_identity new then (new, [(''client_certificate'', JStr ''provided'')])
      else (case previous of
          Some p \<Rightarrow>
            if has_identity p
            then (with_identity new (the (map_of p CERT)) (case map_of p KEY of Some k \<Rightarrow> k | None \<Rightarrow> JNull),
                  [(''client_certificate'', JStr ''kept'')])
            else (let (cert, key) = ce_identity C source_id
                  in (with_identity new (JStr cert) (JStr key), [(''client_certificate'', JStr ''generated'')]))
        | None \<Rightarrow>
            (let (cert, key) = ce_identity C source_id
             in (with_identity new (JStr cert) (JStr key), [(''client_certificate'', JStr ''generated'')]))))"

definition certificate_of :: "class_env \<Rightarrow> source_type \<Rightarrow> jobj \<Rightarrow> jobj option" where
  "certificate_of C t c =
     (if t \<noteq> SrcOpcUa then None
      else (case map_of c CERT of Some (JStr pem) \<Rightarrow> Some (ce_certificate_info C pem) | _ \<Rightarrow> None))"

section \<open>Errors and validation\<close>

datatype source_error = SourceError int string "jobj list option"

text \<open>Only where and why: never the submitted value.\<close>

definition field_errors :: "validation_error list \<Rightarrow> jobj list" where
  "field_errors es = map (\<lambda>e. [(''loc'', JArr (ve_loc e)), (''msg'', JStr (ve_msg e)), (''type'', JStr (ve_type e))]) es"

definition validate_config :: "class_env \<Rightarrow> source_type option \<Rightarrow> jobj \<Rightarrow> source_error + jobj" where
  "validate_config C t config =
     (case t of
        None \<Rightarrow> Inl (SourceError 422 ''not_a_connector'' None)
      | Some ty \<Rightarrow>
          if \<not> is_connector ty then Inl (SourceError 422 ''not_a_connector'' None)
          else (case ce_config C ty config of
              Inl es \<Rightarrow> Inl (SourceError 422 ''invalid_config'' (Some (field_errors es)))
            | Inr model \<Rightarrow> Inr model))"

definition scoped_source :: "db \<Rightarrow> scope \<Rightarrow> uuid \<Rightarrow> source_error + source" where
  "scoped_source d sc i =
     expect (List.find (\<lambda>s. src_id s = i \<and> src_workspace_id s = sc_workspace sc) (sources d))
       (SourceError 404 ''not found'' None)"

definition require_connector :: "source \<Rightarrow> source_error + unit" where
  "require_connector s = require (is_connector (src_type s)) (SourceError 409 ''not_a_connector'' None)"

definition connector_source :: "db \<Rightarrow> scope \<Rightarrow> uuid \<Rightarrow> source_error + source" where
  "connector_source d sc i = rbind (scoped_source d sc i) (\<lambda>s. rbind (require_connector s) (\<lambda>_. Inr s))"

record source_view =
  sv_source :: source
  sv_n_series :: nat
  sv_credentials_updated_at :: "datetime option"

definition view_source :: "db \<Rightarrow> source \<Rightarrow> source_view" where
  "view_source d s =
     \<lparr>sv_source = s, sv_n_series = length (filter (\<lambda>x. ser_source_id x = src_id s) (all_series d)),
      sv_credentials_updated_at = credentials_status d (src_id s)\<rparr>"

section \<open>Creating and changing a source\<close>

text \<open>The unique constraint on \<^verbatim>\<open>(workspace_id, name)\<close>, which the flush runs into.\<close>

definition source_name_free :: "db \<Rightarrow> uuid \<Rightarrow> string \<Rightarrow> uuid option \<Rightarrow> source_error + unit" where
  "source_name_free d wid name exclude =
     require (\<not> (\<exists>s \<in> set (sources d). src_workspace_id s = wid \<and> src_name s = name \<and> exclude \<noteq> Some (src_id s)))
       (SourceError 409 ''name_taken'' None)"

definition new_source :: "scope \<Rightarrow> source_type \<Rightarrow> string \<Rightarrow> jobj \<Rightarrow> uuid \<Rightarrow> datetime \<Rightarrow> source" where
  "new_source sc t name config new_id now =
     \<lparr>src_org_id = sc_org sc, src_workspace_id = sc_workspace sc, src_id = new_id, src_type = t,
      src_name = strip name, src_config = config, src_health = no_health, src_enabled = True,
      src_polled_at = None, src_created_at = now, src_updated_at = now\<rparr>"

definition create_source :: "class_env \<Rightarrow> db \<Rightarrow> scope \<Rightarrow> actor \<Rightarrow> string \<Rightarrow> string \<Rightarrow> jobj \<Rightarrow> uuid \<Rightarrow> uuid \<Rightarrow> datetime
    \<Rightarrow> source_error + db \<times> source" where
  "create_source C d sc a kind name config new_id event_id now =
     rbind (validate_config C (type_named kind) config) (\<lambda>normalised.
       let s = new_source sc (the (type_named kind)) name normalised new_id now in
       rbind (source_name_free d (sc_workspace sc) (src_name s) None) (\<lambda>_.
         Inr (audit_record (d\<lparr>sources := sources d @ [s]\<rparr>) a ''source.created'' ''source'' new_id
                (Some (sc_workspace sc)) [(''type'', JStr kind), (''name'', JStr (src_name s))] event_id now, s)))"

text \<open>The three changes of a patch, each with the name it is logged under; a dict compares regardless of order.\<close>

definition same_dict :: "jobj \<Rightarrow> jobj \<Rightarrow> bool" where
  "same_dict a b \<longleftrightarrow> sort_keys (JObj a) = sort_keys (JObj b)"

definition rename_to :: "string option \<Rightarrow> source \<times> string list \<Rightarrow> source \<times> string list" where
  "rename_to name st =
     (case name of
        None \<Rightarrow> st
      | Some n \<Rightarrow> if strip n \<noteq> src_name (fst st) then ((fst st)\<lparr>src_name := strip n\<rparr>, snd st @ [''name'']) else st)"

definition reconfigure :: "class_env \<Rightarrow> jobj option \<Rightarrow> source \<times> string list \<Rightarrow> source_error + source \<times> string list" where
  "reconfigure C config st =
     (case config of
        None \<Rightarrow> Inr st
      | Some c \<Rightarrow> rbind (validate_config C (Some (src_type (fst st))) c) (\<lambda>n.
          Inr (if \<not> same_dict n (src_config (fst st)) then ((fst st)\<lparr>src_config := n\<rparr>, snd st @ [''config'']) else st)))"

definition enable_to :: "bool option \<Rightarrow> source \<times> string list \<Rightarrow> source \<times> string list" where
  "enable_to on st =
     (case on of
        None \<Rightarrow> st
      | Some b \<Rightarrow> if b \<noteq> src_enabled (fst st) then ((fst st)\<lparr>src_enabled := b\<rparr>, snd st @ [''enabled'']) else st)"

definition update_source :: "class_env \<Rightarrow> db \<Rightarrow> scope \<Rightarrow> actor \<Rightarrow> uuid \<Rightarrow> string option \<Rightarrow> jobj option \<Rightarrow> bool option
    \<Rightarrow> uuid \<Rightarrow> datetime \<Rightarrow> source_error + db \<times> source" where
  "update_source C d sc a i name config on event_id now =
     rbind (connector_source d sc i) (\<lambda>s.
     rbind (reconfigure C config (rename_to name (s, []))) (\<lambda>st.
       let (s', changed) = enable_to on st in
       if changed = [] then Inr (d, s)
       else rbind (source_name_free d (src_workspace_id s) (src_name s') (Some i)) (\<lambda>_.
         let s'' = s'\<lparr>src_updated_at := now\<rparr> in
         Inr (audit_record (set_source d i (\<lambda>_. s'')) a ''source.updated'' ''source'' i (Some (sc_workspace sc))
                ((''changed'', JArr (map JStr changed)) #
                 (if ''enabled'' \<in> set changed then [(''enabled'', JBool (src_enabled s''))] else []))
                event_id now, s''))))"

section \<open>Credentials\<close>

text \<open>\<^verbatim>\<open>_stored\<close>: the credentials as they validate now; \<open>Inr None\<close> when there are none that do.\<close>

definition stored_model :: "class_env \<Rightarrow> cipher \<Rightarrow> db \<Rightarrow> keyring option \<Rightarrow> scope \<Rightarrow> source \<Rightarrow> source_error + jobj option" where
  "stored_model C ci d k sc s =
     (case load_credentials ci d k (sc_org sc) (src_id s) of
        Inl Unavailable \<Rightarrow> Inl (SourceError 503 ''credentials_unavailable'' None)
      | Inl (BadCredentials _) \<Rightarrow> Inr None
      | Inr None \<Rightarrow> Inr None
      | Inr (Some stored) \<Rightarrow>
          if \<not> takes_credentials (src_type s) then Inr None
          else (case ce_credentials C (src_type s) stored of Inl _ \<Rightarrow> Inr None | Inr model \<Rightarrow> Inr (Some model)))"

definition set_credentials :: "class_env \<Rightarrow> cipher \<Rightarrow> db \<Rightarrow> keyring option \<Rightarrow> scope \<Rightarrow> actor \<Rightarrow> uuid \<Rightarrow> jobj \<Rightarrow> string \<Rightarrow> uuid
    \<Rightarrow> datetime \<Rightarrow> source_error + db" where
  "set_credentials C ci d k sc a i payload nonce event_id now =
     rbind (connector_source d sc i) (\<lambda>s.
     rbind (require (takes_credentials (src_type s)) (SourceError 422 ''no_credentials'' None)) (\<lambda>_.
     rbind (case ce_credentials C (src_type s) payload of
         Inl es \<Rightarrow> Inl (SourceError 422 ''invalid_credentials'' (Some (field_errors es))) | Inr m \<Rightarrow> Inr m) (\<lambda>model.
     rbind (stored_model C ci d k sc s) (\<lambda>previous.
       let (full, details) = prepare_credentials C (src_type s) model previous i in
       (case store_credentials ci d k (sc_org sc) i full (Some (ac_user_id a)) nonce now of
          Inl _ \<Rightarrow> Inl (SourceError 503 ''credentials_unavailable'' None)
        | Inr d1 \<Rightarrow> Inr (audit_record d1 a ''source.credentials_set'' ''source'' i (Some (sc_workspace sc)) details
            event_id now))))))"

definition client_certificate :: "class_env \<Rightarrow> cipher \<Rightarrow> db \<Rightarrow> keyring option \<Rightarrow> scope \<Rightarrow> uuid \<Rightarrow> source_error + jobj" where
  "client_certificate C ci d k sc i =
     rbind (connector_source d sc i) (\<lambda>s.
     rbind (stored_model C ci d k sc s) (\<lambda>stored.
       expect (Option.bind stored (certificate_of C (src_type s))) (SourceError 404 ''no_client_certificate'' None)))"

definition forget_credentials :: "db \<Rightarrow> scope \<Rightarrow> actor \<Rightarrow> uuid \<Rightarrow> uuid \<Rightarrow> datetime \<Rightarrow> source_error + db" where
  "forget_credentials d sc a i event_id now =
     rbind (connector_source d sc i) (\<lambda>s.
       let (d1, any) = clear_credentials d i in
       Inr (if any then audit_record d1 a ''source.credentials_cleared'' ''source'' i (Some (sc_workspace sc)) [] event_id now
            else d1))"

section \<open>Series of a source\<close>

record point_in =
  pi_external_id :: string
  pi_name :: string
  pi_unit :: "string option"
  pi_kind :: series_kind

definition point_in_valid :: "point_in \<Rightarrow> bool" where
  "point_in_valid p \<longleftrightarrow> 1 \<le> length (pi_external_id p) \<and> length (pi_external_id p) \<le> 500 \<and>
     1 \<le> length (pi_name p) \<and> length (pi_name p) \<le> 200 \<and>
     (case pi_unit p of None \<Rightarrow> True | Some u \<Rightarrow> length u \<le> 50)"

definition point_series :: "scope \<Rightarrow> uuid \<Rightarrow> uuid \<Rightarrow> point_in \<Rightarrow> datetime \<Rightarrow> series" where
  "point_series sc source_id new_id p now =
     (blank_series sc new_id source_id (pi_external_id p) now)\<lparr>ser_name := pi_name p, ser_unit := pi_unit p, ser_kind := pi_kind p\<rparr>"

text \<open>One \<^verbatim>\<open>INSERT ... ON CONFLICT DO NOTHING\<close> per point, with the fresh id of each.\<close>

fun register_points :: "scope \<Rightarrow> uuid \<Rightarrow> datetime \<Rightarrow> (point_in \<times> uuid) list \<Rightarrow> series list \<Rightarrow> series list \<times> nat" where
  "register_points sc source_id now [] t = (t, 0)"
| "register_points sc source_id now ((p, i) # ps) t =
     (if \<exists>s \<in> set t. ser_source_id s = source_id \<and> ser_external_id s = pi_external_id p
      then register_points sc source_id now ps t
      else (let (t', n) = register_points sc source_id now ps (t @ [point_series sc source_id i p now]) in (t', n + 1)))"

definition register_series :: "db \<Rightarrow> scope \<Rightarrow> actor \<Rightarrow> uuid \<Rightarrow> (point_in \<times> uuid) list \<Rightarrow> uuid \<Rightarrow> datetime
    \<Rightarrow> source_error + db \<times> nat \<times> nat" where
  "register_series d sc a i items event_id now =
     rbind (connector_source d sc i) (\<lambda>s.
       let (t, created) = register_points sc i now items (all_series d);
           existing = length items - created
       in Inr (audit_record (d\<lparr>all_series := t\<rparr>) a ''source.series_registered'' ''source'' i (Some (sc_workspace sc))
                 [(''created'', JInt (int created)), (''existing'', JInt (int existing))] event_id now, created, existing))"

section \<open>Requests for jobs\<close>

text \<open>The guards of a request, in their order.\<close>

definition check_request :: "db \<Rightarrow> source \<Rightarrow> fetch_trigger \<Rightarrow> datetime \<Rightarrow> datetime \<Rightarrow> uuid list option \<Rightarrow> source_error + unit" where
  "check_request d s trigger start end_at ids =
     (let windowed = trigger \<in> set WINDOW_TRIGGERS in
      rbind (require (case OPTIONAL_METHODS trigger of None \<Rightarrow> True | Some m \<Rightarrow> supports (src_type s) m)
               (SourceError 409 ''not_supported'' None)) (\<lambda>_.
      rbind (require (\<not> (trigger = FIngest \<and> reads_windows (src_type s))) (SourceError 409 ''not_supported'' None)) (\<lambda>_.
      rbind (require (windowed \<longrightarrow> reads_windows (src_type s)) (SourceError 409 ''not_fetchable'' None)) (\<lambda>_.
      rbind (require (trigger \<in> set DATA_TRIGGERS \<longrightarrow> src_enabled s) (SourceError 409 ''source_disabled'' None)) (\<lambda>_.
      rbind (require (\<not> (windowed \<and> (end_at \<le> start \<or> MAX_WINDOW < end_at - start))) (SourceError 422 ''invalid_window'' None)) (\<lambda>_.
        require (case ids of None \<Rightarrow> True
            | Some is \<Rightarrow> {ser_id x | x. x \<in> set (all_series d) \<and> ser_source_id x = src_id s \<and> ser_id x \<in> set is} = set is)
          (SourceError 422 ''unknown_series'' None)))))))"

definition fetch_trigger_value :: "fetch_trigger \<Rightarrow> string" where
  "fetch_trigger_value t = (case t of FManual \<Rightarrow> ''manual'' | FPoll \<Rightarrow> ''poll'' | FRun \<Rightarrow> ''run'' | FCheck \<Rightarrow> ''check''
     | FSearch \<Rightarrow> ''search'' | FMetadata \<Rightarrow> ''metadata'' | FIngest \<Rightarrow> ''ingest'')"

definition request_details :: "(datetime \<Rightarrow> string) \<Rightarrow> source_fetch \<Rightarrow> jobj" where
  "request_details iso_text f =
     (let t = sf_trigger f;
          base = [(''fetch_id'', JStr (uuid_str (sf_id f))), (''trigger'', JStr (fetch_trigger_value t))];
          windowed = (if t \<in> set WINDOW_TRIGGERS
             then [(''start'', JStr (iso_text (sf_window_start f))), (''end'', JStr (iso_text (sf_window_end f))),
                   (''force'', JBool (sf_force f))] else []);
          counted = (if t \<notin> {FCheck, FIngest}
             then [(''series'', case sf_series_ids f of None \<Rightarrow> JNull | Some is \<Rightarrow> JInt (int (length is)))] else [])
      in dict_merge (base @ windowed @ counted) (case sf_params f of None \<Rightarrow> [] | Some ps \<Rightarrow> ps))"

definition request_fetch :: "(datetime \<Rightarrow> string) \<Rightarrow> db \<Rightarrow> scope \<Rightarrow> actor \<Rightarrow> uuid \<Rightarrow> fetch_trigger \<Rightarrow> datetime \<Rightarrow> datetime
    \<Rightarrow> uuid list option \<Rightarrow> bool \<Rightarrow> jobj option \<Rightarrow> uuid \<Rightarrow> uuid \<Rightarrow> datetime \<Rightarrow> source_error + db \<times> source_fetch" where
  "request_fetch iso_text d sc a i trigger start end_at ids force params new_id event_id now =
     rbind (connector_source d sc i) (\<lambda>s.
     rbind (check_request d s trigger start end_at ids) (\<lambda>_.
       let (d1, f) = create_fetch d s new_id trigger start end_at ids force (Some (ac_user_id a)) None FetchQueued params now
       in Inr (audit_record d1 a ''source.fetch_requested'' ''source'' i (Some (sc_workspace sc)) (request_details iso_text f)
                 event_id now, f)))"

text \<open>
  \<^verbatim>\<open>_start\<close>: the job in the same transaction, or (inline jobs) the executor after the response; and
  the routes that request a job.
\<close>

definition start_fetch :: "bool \<Rightarrow> db \<times> source_fetch \<Rightarrow> db" where
  "start_fetch inline_jobs r = (if inline_jobs then fst r else enqueue (fst r) (snd r))"

definition start_requested :: "bool \<Rightarrow> source_error + db \<times> source_fetch \<Rightarrow> source_error + db \<times> uuid" where
  "start_requested inline_jobs m = rbind m (\<lambda>r. Inr (start_fetch inline_jobs r, sf_id (snd r)))"

record job_call =
  jc_inline :: bool
  jc_scope :: scope
  jc_actor :: actor
  jc_source_id :: uuid
  jc_fetch_id :: uuid
  jc_event_id :: uuid
  jc_now :: datetime

definition run_request :: "(datetime \<Rightarrow> string) \<Rightarrow> db \<Rightarrow> job_call \<Rightarrow> fetch_trigger \<Rightarrow> datetime \<Rightarrow> datetime \<Rightarrow> uuid list option \<Rightarrow> bool
    \<Rightarrow> jobj option \<Rightarrow> source_error + db \<times> uuid" where
  "run_request iso_text d j trigger start end_at ids force params =
     start_requested (jc_inline j) (request_fetch iso_text d (jc_scope j) (jc_actor j) (jc_source_id j) trigger start end_at
       ids force params (jc_fetch_id j) (jc_event_id j) (jc_now j))"

definition check_source :: "(datetime \<Rightarrow> string) \<Rightarrow> db \<Rightarrow> job_call \<Rightarrow> source_error + db \<times> uuid" where
  "check_source iso_text d j = run_request iso_text d j FCheck (jc_now j) (jc_now j) None False None"

definition fetch_window :: "(datetime \<Rightarrow> string) \<Rightarrow> db \<Rightarrow> job_call \<Rightarrow> datetime \<Rightarrow> datetime \<Rightarrow> uuid list option \<Rightarrow> bool \<Rightarrow> source_error + db \<times> uuid" where
  "fetch_window iso_text d j start end_at ids force = run_request iso_text d j FManual start end_at ids force None"

definition search_points :: "(datetime \<Rightarrow> string) \<Rightarrow> db \<Rightarrow> job_call \<Rightarrow> string \<Rightarrow> int \<Rightarrow> source_error + db \<times> uuid" where
  "search_points iso_text d j query limit =
     run_request iso_text d j FSearch (jc_now j) (jc_now j) None False
       (Some [(''query'', JStr (strip query)), (''limit'', JInt limit)])"

definition import_points :: "(datetime \<Rightarrow> string) \<Rightarrow> db \<Rightarrow> job_call \<Rightarrow> uuid list option \<Rightarrow> bool \<Rightarrow> source_error + db \<times> uuid" where
  "import_points iso_text d j ids overwrite =
     run_request iso_text d j FMetadata (jc_now j) (jc_now j) ids False (Some [(''overwrite'', JBool overwrite)])"

definition ingest_files :: "(datetime \<Rightarrow> string) \<Rightarrow> db \<Rightarrow> job_call \<Rightarrow> source_error + db \<times> uuid" where
  "ingest_files iso_text d j = run_request iso_text d j FIngest (jc_now j) (jc_now j) None False None"

section \<open>Reads\<close>

definition fetch_of_source :: "db \<Rightarrow> scope \<Rightarrow> uuid \<Rightarrow> uuid \<Rightarrow> source_error + source_fetch" where
  "fetch_of_source d sc i fetch_id =
     rbind (scoped_source d sc i) (\<lambda>s.
       expect (List.find (\<lambda>f. sf_id f = fetch_id \<and> sf_source_id f = src_id s) (source_fetches d))
         (SourceError 404 ''not found'' None))"

definition list_fetches :: "db \<Rightarrow> scope \<Rightarrow> uuid \<Rightarrow> nat \<Rightarrow> source_error + source_fetch list" where
  "list_fetches d sc i n =
     rbind (scoped_source d sc i) (\<lambda>s.
       Inr (take n (newest_first (\<lambda>f. (sf_created_at f, sf_id f)) (filter (\<lambda>f. sf_source_id f = src_id s) (source_fetches d)))))"

definition file_key :: "source_file \<Rightarrow> datetime \<times> uuid" where
  "file_key f = (fl_updated_at f, fl_id f)"

definition list_files :: "db \<Rightarrow> scope \<Rightarrow> uuid \<Rightarrow> file_status option \<Rightarrow> nat \<Rightarrow> (datetime \<times> uuid) option
    \<Rightarrow> source_error + source_file list \<times> (datetime \<times> uuid) option" where
  "list_files d sc i status limit cursor =
     rbind (scoped_source d sc i) (\<lambda>s.
       Inr (newest_page file_key limit cursor
         (filter (\<lambda>f. fl_source_id f = src_id s \<and> (case status of None \<Rightarrow> True | Some st \<Rightarrow> fl_status f = st)) (source_files d))))"

interpretation file_pages: keyset_listing file_key "\<lambda>a b. b < a" "newest_first file_key"
  by (rule newest_first_listing)

end
