(* ===== verification/Source_Facts.thy ===== *)
theory Source_Facts
  imports Sources
begin

text \<open>
  Properties of the sources API: the tables stay consistent under every sequence of its operations, an
  accepted request is a job the worker runs, and what is stored of credentials reaches nothing else.
\<close>

section \<open>The rows an operation finds and writes\<close>

lemma connector_source_Inr:
  assumes "connector_source d sc i = Inr s"
  shows "s \<in> set (sources d)" "src_id s = i" "src_workspace_id s = sc_workspace sc" "is_connector (src_type s)"
  using assms by (auto simp: connector_source_def scoped_source_def require_connector_def result_simps dest!: find_SomeD)

lemma validate_config_Inr:
  "validate_config C t c = Inr n \<longleftrightarrow> (\<exists>ty. t = Some ty \<and> is_connector ty \<and> ce_config C ty c = Inr n)"
  by (auto simp: validate_config_def split: option.splits sum.splits)

text \<open>What a name, config and enabled flag leave of a source.\<close>

definition patched :: "class_env \<Rightarrow> source \<Rightarrow> source \<Rightarrow> bool" where
  "patched C s s' \<longleftrightarrow> src_id s' = src_id s \<and> src_org_id s' = src_org_id s \<and> src_workspace_id s' = src_workspace_id s \<and>
     src_type s' = src_type s \<and>
     (src_config s' = src_config s \<or> (\<exists>raw. ce_config C (src_type s) raw = Inr (src_config s')))"

lemma patched_refl: "patched C s s" by (simp add: patched_def)

lemma rename_patched: "patched C s (fst st) \<Longrightarrow> patched C s (fst (rename_to name st))"
  by (auto simp: rename_to_def patched_def split: option.splits)

lemma enable_patched: "patched C s (fst st) \<Longrightarrow> patched C s (fst (enable_to on st))"
  by (auto simp: enable_to_def patched_def split: option.splits)

lemma reconfigure_patched:
  "patched C s (fst st) \<Longrightarrow> reconfigure C config st = Inr st' \<Longrightarrow> patched C s (fst st')"
  by (auto simp: reconfigure_def patched_def validate_config_Inr result_simps split: option.splits if_splits)

lemma update_source_effect:
  assumes "update_source C d sc a i name config on ev now = Inr (d', s')"
  obtains "d' = d" "connector_source d sc i = Inr s'"
  | s where "connector_source d sc i = Inr s" "patched C s s'"
      "source_name_free d (src_workspace_id s) (src_name s') (Some i) = Inr ()"
      "d' = (set_source d i (\<lambda>_. s'))\<lparr>audit_events := audit_events d'\<rparr>"
proof -
  from assms obtain s st where s: "connector_source d sc i = Inr s"
    and st: "reconfigure C config (rename_to name (s, [])) = Inr st"
    and r: "(let (t, changed) = enable_to on st in
       if changed = [] then Inr (d, s)
       else rbind (source_name_free d (src_workspace_id s) (src_name t) (Some i)) (\<lambda>_.
         let s'' = t\<lparr>src_updated_at := now\<rparr> in
         Inr (audit_record (set_source d i (\<lambda>_. s'')) a ''source.updated'' ''source'' i (Some (sc_workspace sc))
                ((''changed'', JArr (map JStr changed)) #
                 (if ''enabled'' \<in> set changed then [(''enabled'', JBool (src_enabled s''))] else []))
                ev now, s''))) = Inr (d', s')"
    by (auto simp: update_source_def result_simps)
  obtain t changed where e: "enable_to on st = (t, changed)" by fastforce
  have "patched C s (fst st)" using reconfigure_patched [OF rename_patched st] patched_refl by simp
  then have p: "patched C s t" using enable_patched [of C s st on] e by simp
  show thesis
  proof (cases "changed = []")
    case True
    with r e s that(1) show ?thesis by simp
  next
    case False
    with r e have "source_name_free d (src_workspace_id s) (src_name t) (Some i) = Inr ()" "s' = t\<lparr>src_updated_at := now\<rparr>"
      "d' = (set_source d i (\<lambda>_. s'))\<lparr>audit_events := audit_events d'\<rparr>"
      by (auto simp: result_simps Let_def audit_record_def set_source_def)
    with s p show ?thesis by (intro that(2) [of s]) (auto simp: patched_def)
  qed
qed

text \<open>Registering points adds series of the source for the external ids it lacks and keeps the rest.\<close>

definition series_key_of :: "series \<Rightarrow> uuid \<times> string" where
  "series_key_of x = (ser_source_id x, ser_external_id x)"

lemma series_key_eq: "series_key_of x = series_key_of y \<longleftrightarrow> ser_source_id x = ser_source_id y \<and> ser_external_id x = ser_external_id y"
  by (simp add: series_key_of_def)

lemma point_series_simps [simp]:
  "ser_id (point_series sc i n p now) = n" "ser_source_id (point_series sc i n p now) = i"
  "ser_external_id (point_series sc i n p now) = pi_external_id p"
  "ser_workspace_id (point_series sc i n p now) = sc_workspace sc"
  by (simp_all add: point_series_def blank_series_def)

lemma register_points_effect:
  assumes "register_points sc i now items t = (t', n)"
    and "uniq_key series_key_of t" "uniq_key ser_id t" "distinct (map snd items)" "\<forall>x \<in> set t. ser_id x \<notin> snd ` set items"
  shows "\<exists>added. t' = t @ added \<and> n = length added \<and> n \<le> length items \<and>
     uniq_key series_key_of t' \<and> uniq_key ser_id t' \<and>
     (\<forall>x \<in> set added. ser_source_id x = i \<and> ser_workspace_id x = sc_workspace sc) \<and>
     (\<forall>p \<in> fst ` set items. \<exists>x \<in> set t'. ser_source_id x = i \<and> ser_external_id x = pi_external_id p)"
  using assms
proof (induction sc i now items t arbitrary: t' n rule: register_points.induct)
  case (1 sc i now t)
  then show ?case by auto
next
  case (2 sc i now p k ps t)
  show ?case
  proof (cases "\<exists>x \<in> set t. ser_source_id x = i \<and> ser_external_id x = pi_external_id p")
    case True
    with "2.prems" have r: "register_points sc i now ps t = (t', n)" by simp
    from "2.prems" have ps: "distinct (map snd ps)" "\<forall>x \<in> set t. ser_id x \<notin> snd ` set ps" by auto
    from "2.IH"(1) [OF True r "2.prems"(2,3) ps] obtain added where
      a: "t' = t @ added" "n = length added" "n \<le> length ps" "uniq_key series_key_of t'" "uniq_key ser_id t'"
        "\<forall>x \<in> set added. ser_source_id x = i \<and> ser_workspace_id x = sc_workspace sc"
        "\<forall>p \<in> fst ` set ps. \<exists>x \<in> set t'. ser_source_id x = i \<and> ser_external_id x = pi_external_id p" by blast
    have "\<exists>x \<in> set t'. ser_source_id x = i \<and> ser_external_id x = pi_external_id p" using True a(1) by auto
    with a show ?thesis by (intro exI [of _ added]) auto
  next
    case False
    let ?t = "t @ [point_series sc i k p now]"
    obtain m where r: "register_points sc i now ps ?t = (t', m)" and n: "n = m + 1"
      using "2.prems"(1) False by (auto simp: Let_def split: prod.splits)
    have u: "uniq_key series_key_of ?t" "uniq_key ser_id ?t"
      using "2.prems"(2,3,5) False by (auto simp: series_key_eq)
    have ps: "distinct (map snd ps)" "\<forall>x \<in> set ?t. ser_id x \<notin> snd ` set ps" using "2.prems"(4,5) by auto
    from "2.IH"(2) [OF False r u ps] obtain added where
      a: "t' = ?t @ added" "m = length added" "m \<le> length ps" "uniq_key series_key_of t'" "uniq_key ser_id t'"
        "\<forall>x \<in> set added. ser_source_id x = i \<and> ser_workspace_id x = sc_workspace sc"
        "\<forall>p \<in> fst ` set ps. \<exists>x \<in> set t'. ser_source_id x = i \<and> ser_external_id x = pi_external_id p" by blast
    have "\<exists>x \<in> set t'. ser_source_id x = i \<and> ser_external_id x = pi_external_id p"
      using a(1) by (intro bexI [of _ "point_series sc i k p now"]) auto
    with a n show ?thesis by (intro exI [of _ "point_series sc i k p now # added"]) auto
  qed
qed

section \<open>Consistency of the tables\<close>

definition owned :: "db \<Rightarrow> uuid \<Rightarrow> uuid \<Rightarrow> bool" where
  "owned d i wid \<longleftrightarrow> (\<exists>s \<in> set (sources d). src_id s = i \<and> src_workspace_id s = wid)"

definition series_of_source :: "db \<Rightarrow> uuid \<Rightarrow> uuid set" where
  "series_of_source d i = ser_id ` {x \<in> set (all_series d). ser_source_id x = i}"

definition sources_ok :: "class_env \<Rightarrow> db \<Rightarrow> bool" where
  "sources_ok C d \<longleftrightarrow>
     uniq_key src_id (sources d) \<and> uniq_key (\<lambda>s. (src_workspace_id s, src_name s)) (sources d) \<and>
     (\<forall>s \<in> set (sources d). is_connector (src_type s) \<longrightarrow> (\<exists>raw. ce_config C (src_type s) raw = Inr (src_config s))) \<and>
     uniq_key ser_id (all_series d) \<and> uniq_key series_key_of (all_series d) \<and>
     (\<forall>x \<in> set (all_series d). owned d (ser_source_id x) (ser_workspace_id x)) \<and>
     uniq_key sf_id (source_fetches d) \<and>
     (\<forall>f \<in> set (source_fetches d). owned d (sf_source_id f) (sf_workspace_id f) \<and>
        (\<forall>is. sf_series_ids f = Some is \<longrightarrow> set is \<subseteq> series_of_source d (sf_source_id f))) \<and>
     uniq_key crd_source_id (credentials d) \<and>
     (\<forall>c \<in> set (credentials d). \<exists>s \<in> set (sources d). src_id s = crd_source_id c \<and> takes_credentials (src_type s))"

text \<open>A request leaves its row queued, and the other tables as they were.\<close>

lemma request_fetch_effect:
  assumes "request_fetch iso_text d sc a i trigger start end_at ids force params new_id ev now = Inr (d', f)"
  obtains s where "connector_source d sc i = Inr s" "check_request d s trigger start end_at ids = Inr ()"
    "f = snd (create_fetch d s new_id trigger start end_at ids force (Some (ac_user_id a)) None FetchQueued params now)"
    "d' = d\<lparr>source_fetches := source_fetches d @ [f], audit_events := audit_events d'\<rparr>"
    "audit_events d' = audit_events (audit_record d a ''source.fetch_requested'' ''source'' i (Some (sc_workspace sc))
       (request_details iso_text f) ev now)"
  using assms by (auto simp: request_fetch_def result_simps create_fetch_def Let_def audit_record_def)

lemma check_request_series:
  "check_request d s trigger start end_at ids = Inr () \<Longrightarrow> ids = Some is \<Longrightarrow> set is \<subseteq> series_of_source d (src_id s)"
  by (auto simp: check_request_def Let_def result_simps series_of_source_def)

lemma run_request_effect:
  assumes "run_request iso_text d j trigger start end_at ids force params = Inr (d', i)"
  obtains d1 f where "request_fetch iso_text d (jc_scope j) (jc_actor j) (jc_source_id j) trigger start end_at ids force params
      (jc_fetch_id j) (jc_event_id j) (jc_now j) = Inr (d1, f)" "i = sf_id f" "d' = (if jc_inline j then d1 else enqueue d1 f)"
  using assms by (auto simp: run_request_def start_requested_def start_fetch_def result_simps)

section \<open>The steps of the sources API\<close>

inductive source_step :: "class_env \<Rightarrow> db \<Rightarrow> db \<Rightarrow> bool" for C :: class_env where
  step_create: "create_source C d sc a kind name config i ev now = Inr (d', s) \<Longrightarrow> \<forall>x \<in> set (sources d). src_id x \<noteq> i \<Longrightarrow>
     source_step C d d'"
| step_update: "update_source C d sc a i name config on ev now = Inr (d', s) \<Longrightarrow> source_step C d d'"
| step_credentials: "set_credentials C ci d k sc a i payload nonce ev now = Inr d' \<Longrightarrow> source_step C d d'"
| step_forget: "forget_credentials d sc a i ev now = Inr d' \<Longrightarrow> source_step C d d'"
| step_register: "register_series d sc a i items ev now = Inr (d', n, m) \<Longrightarrow> distinct (map snd items) \<Longrightarrow>
     \<forall>x \<in> set (all_series d). ser_id x \<notin> snd ` set items \<Longrightarrow> source_step C d d'"
| step_request: "run_request iso_text d j trigger start end_at ids force params = Inr (d', f) \<Longrightarrow>
     \<forall>x \<in> set (source_fetches d). sf_id x \<noteq> jc_fetch_id j \<Longrightarrow> source_step C d d'"

lemma create_source_ok:
  assumes ok: "sources_ok C d" and r: "create_source C d sc a kind name config i ev now = Inr (d', s)"
    and fresh: "\<forall>x \<in> set (sources d). src_id x \<noteq> i"
  shows "sources_ok C d'"
proof -
  obtain t n where v: "type_named kind = Some t" "ce_config C t config = Inr n" "s = new_source sc t name n i now"
    and free: "source_name_free d (sc_workspace sc) (src_name s) None = Inr ()"
    and d': "sources d' = sources d @ [s]" "all_series d' = all_series d" "source_fetches d' = source_fetches d"
      "credentials d' = credentials d"
    using r by (auto simp: create_source_def validate_config_Inr result_simps Let_def audit_record_def)
  have s: "src_id s = i" "src_workspace_id s = sc_workspace sc" "src_type s = t" "src_config s = n"
    by (simp_all add: v(3) new_source_def)
  have mono: "owned d j w \<Longrightarrow> owned d' j w" for j w by (auto simp: owned_def d')
  have ser: "series_of_source d' j = series_of_source d j" for j by (simp add: series_of_source_def d')
  show ?thesis
    using ok fresh free s v(2)
    by (auto simp: sources_ok_def d' ser source_name_free_def mono) 
qed

lemma uniq_key_replace_row:
  assumes "uniq_key k t" "uniq_key idk t" "idk s' = i" "\<And>x. x \<in> set t \<Longrightarrow> idk x \<noteq> i \<Longrightarrow> k x \<noteq> k s'"
  shows "uniq_key k (update_where (\<lambda>x. idk x = i) (\<lambda>_. s') t)"
  using assms
proof (induction t)
  case (Cons x t)
  then have u: "uniq_key k t" "uniq_key idk t" and new: "\<forall>y \<in> set t. k y \<noteq> k x" "\<forall>y \<in> set t. idk y \<noteq> idk x"
    by (auto simp: uniq_key_def image_iff)
  with Cons have IH: "uniq_key k (update_where (\<lambda>x. idk x = i) (\<lambda>_. s') t)" by simp
  have "\<forall>y \<in> set (update_where (\<lambda>x. idk x = i) (\<lambda>_. s') t). k y \<noteq> k (if idk x = i then s' else x)"
    using new Cons.prems(3,4) by (auto simp: in_set_update_where; metis list.set_intros(1))
  then have "k (if idk x = i then s' else x) \<notin> k ` set (update_where (\<lambda>x. idk x = i) (\<lambda>_. s') t)"
    by (metis imageE)
  with IH show ?case by (simp only: uniq_key_def update_where_def list.map distinct.simps set_map simp_thms)
qed (simp add: update_where_def)

text \<open>Steps that keep the ids, workspaces and types of the sources keep what refers to them.\<close>

lemma update_source_ok:
  assumes ok: "sources_ok C d" and r: "update_source C d sc a i name config on ev now = Inr (d', s')"
  shows "sources_ok C d'"
  using r
proof (cases rule: update_source_effect)
  case (2 s)
  note s = connector_source_Inr [OF 2(1)]
  let ?t = "update_where (\<lambda>x. src_id x = i) (\<lambda>_. s') (sources d)"
  have p: "src_id s' = i" "src_workspace_id s' = src_workspace_id s" "src_type s' = src_type s"
    "src_config s' = src_config s \<or> (\<exists>raw. ce_config C (src_type s) raw = Inr (src_config s'))"
    using 2(2) s(2) by (auto simp: patched_def)
  have d': "sources d' = ?t" "all_series d' = all_series d" "source_fetches d' = source_fetches d" "credentials d' = credentials d"
    by (subst 2(4), simp add: set_source_def)+
  have u: "uniq_key src_id (sources d)" "uniq_key (\<lambda>s. (src_workspace_id s, src_name s)) (sources d)"
    using ok by (simp_all add: sources_ok_def)
  have same: "x = s" if "x \<in> set (sources d)" "src_id x = i" for x using uniq_keyD [OF u(1) that(1) s(1)] that s(2) by simp
  have "uniq_key src_id ?t" by (rule uniq_key_update_where [OF u(1)]) (simp add: p)
  moreover have "uniq_key (\<lambda>s. (src_workspace_id s, src_name s)) ?t"
    using 2(3) by (intro uniq_key_replace_row u p(1)) (auto simp: source_name_free_def p)
  moreover have "is_connector (src_type x) \<longrightarrow> (\<exists>raw. ce_config C (src_type x) raw = Inr (src_config x))" if "x \<in> set ?t" for x
    using that ok p s(1) by (auto simp: sources_ok_def in_set_update_where split: if_splits)
  moreover have row: "\<exists>y \<in> set ?t. src_id y = src_id x \<and> src_workspace_id y = src_workspace_id x \<and> src_type y = src_type x"
    if "x \<in> set (sources d)" for x
  proof (cases "src_id x = i")
    case True
    then show ?thesis using that same [OF that True] p by (intro bexI [of _ s']) (auto simp: in_set_update_where)
  next
    case False
    with that show ?thesis by (intro bexI [of _ x]) (auto simp: in_set_update_where)
  qed
  moreover have own: "owned d' j w" if "owned d j w" for j w
    using that row unfolding owned_def d'(1) by metis
  moreover have "\<exists>x \<in> set ?t. src_id x = j \<and> takes_credentials (src_type x)" if "x \<in> set (sources d)" "src_id x = j" "takes_credentials (src_type x)" for x j
    using row [OF that(1)] that(2,3) by metis
  moreover have "series_of_source d' j = series_of_source d j" for j by (simp add: series_of_source_def d'(2))
  ultimately show ?thesis using ok unfolding sources_ok_def d'
    by (simp add: own del: bex_update_where ball_update_where) blast
qed (use ok in simp)

lemma store_credentials_Inr:
  "store_credentials ci d k org s p u n now = Inr d' \<Longrightarrow>
   \<exists>row. crd_source_id row = s \<and> crd_updated_at row = now \<and>
     d' = d\<lparr>credentials := upsert crd_source_id replace_credentials row (credentials d)\<rparr>"
  by (clarsimp simp: store_credentials_def result_simps Let_def) (rule exI, rule conjI [rotated], rule conjI [rotated], rule refl, simp_all)

lemma set_credentials_effect:
  assumes "set_credentials C ci d k sc a i payload nonce ev now = Inr d'"
  obtains s model previous row where "connector_source d sc i = Inr s" "takes_credentials (src_type s)"
    "ce_credentials C (src_type s) payload = Inr model" "stored_model C ci d k sc s = Inr previous"
    "crd_source_id row = i"
    "d' = audit_record (d\<lparr>credentials := upsert crd_source_id replace_credentials row (credentials d)\<rparr>) a
       ''source.credentials_set'' ''source'' i (Some (sc_workspace sc)) (snd (prepare_credentials C (src_type s) model previous i)) ev now"
proof -
  from assms obtain s where s: "connector_source d sc i = Inr s" "takes_credentials (src_type s)"
    by (auto simp: set_credentials_def result_simps)
  with assms obtain model where m: "ce_credentials C (src_type s) payload = Inr model"
    by (cases "ce_credentials C (src_type s) payload") (auto simp: set_credentials_def)
  with assms s obtain previous where p: "stored_model C ci d k sc s = Inr previous"
    by (cases "stored_model C ci d k sc s") (auto simp: set_credentials_def)
  obtain full details where c: "prepare_credentials C (src_type s) model previous i = (full, details)" by fastforce
  from assms obtain d1 where d1: "store_credentials ci d k (sc_org sc) i full (Some (ac_user_id a)) nonce now = Inr d1"
    "d' = audit_record d1 a ''source.credentials_set'' ''source'' i (Some (sc_workspace sc)) details ev now"
    by (auto simp: set_credentials_def s m p c split: sum.splits)
  from store_credentials_Inr [OF d1(1)] obtain row where
    "crd_source_id row = i" "d1 = d\<lparr>credentials := upsert crd_source_id replace_credentials row (credentials d)\<rparr>" by blast
  with d1(2) that [OF s m p] c show thesis by simp
qed

lemma set_credentials_ok:
  assumes ok: "sources_ok C d" and r: "set_credentials C ci d k sc a i payload nonce ev now = Inr d'"
  shows "sources_ok C d'"
  using r
proof (rule set_credentials_effect)
  fix s model previous row
  assume c: "connector_source d sc i = Inr s" "takes_credentials (src_type s)" "crd_source_id row = i"
    and "d' = audit_record (d\<lparr>credentials := upsert crd_source_id replace_credentials row (credentials d)\<rparr>) a
       ''source.credentials_set'' ''source'' i (Some (sc_workspace sc)) (snd (prepare_credentials C (src_type s) model previous i)) ev now"
  then have d': "sources d' = sources d" "all_series d' = all_series d" "source_fetches d' = source_fetches d"
    and cr: "credentials d' = upsert crd_source_id replace_credentials row (credentials d)"
    by (simp_all add: audit_record_def)
  have "uniq_key crd_source_id (credentials d')"
    unfolding cr using ok by (intro uniq_key_upsert) (auto simp: sources_ok_def replace_credentials_def)
  moreover have "\<exists>s \<in> set (sources d). src_id s = crd_source_id x \<and> takes_credentials (src_type s)" if "x \<in> set (credentials d')" for x
  proof -
    have "x \<in> set (credentials d) \<or> crd_source_id x = i"
      using that c(3) unfolding cr by (auto simp: upsert_def replace_credentials_def in_set_update_where split: if_splits)
    then show ?thesis using ok connector_source_Inr(1,2) [OF c(1)] c(2) by (auto simp: sources_ok_def)
  qed
  moreover have "owned d' = owned d" "series_of_source d' = series_of_source d"
    by (simp_all add: owned_def series_of_source_def d' fun_eq_iff)
  ultimately show ?thesis using ok by (simp add: sources_ok_def d')
qed

lemma forget_credentials_ok:
  assumes ok: "sources_ok C d" and r: "forget_credentials d sc a i ev now = Inr d'"
  shows "sources_ok C d'"
proof -
  have d': "sources d' = sources d" "all_series d' = all_series d" "source_fetches d' = source_fetches d"
    "credentials d' = delete_where (\<lambda>c. crd_source_id c = i) (credentials d)"
    using r by (auto simp: forget_credentials_def clear_credentials_def result_simps Let_def audit_record_def split: if_splits)
  have "owned d' = owned d" "series_of_source d' = series_of_source d"
    by (simp_all add: owned_def series_of_source_def d' fun_eq_iff)
  then show ?thesis using ok by (simp add: sources_ok_def d')
qed

lemma register_series_ok:
  assumes ok: "sources_ok C d" and r: "register_series d sc a i items ev now = Inr (d', n, m)"
    and fresh: "distinct (map snd items)" "\<forall>x \<in> set (all_series d). ser_id x \<notin> snd ` set items"
  shows "sources_ok C d'"
proof -
  obtain s t where s: "connector_source d sc i = Inr s" and t: "register_points sc i now items (all_series d) = (t, n)"
    and d': "all_series d' = t" "sources d' = sources d" "source_fetches d' = source_fetches d" "credentials d' = credentials d"
    using r by (auto simp: register_series_def result_simps Let_def audit_record_def split: prod.splits)
  from ok have "uniq_key series_key_of (all_series d)" "uniq_key ser_id (all_series d)" by (simp_all add: sources_ok_def)
  from register_points_effect [OF t this fresh] obtain added where
    a: "t = all_series d @ added" "uniq_key series_key_of t" "uniq_key ser_id t"
      "\<forall>x \<in> set added. ser_source_id x = i \<and> ser_workspace_id x = sc_workspace sc" by blast
  have own: "owned d' = owned d" by (simp add: owned_def d' fun_eq_iff)
  have "owned d i (sc_workspace sc)" using connector_source_Inr [OF s] by (auto simp: owned_def)
  then have "\<forall>x \<in> set t. owned d (ser_source_id x) (ser_workspace_id x)" using a(1,4) ok by (auto simp: sources_ok_def)
  moreover have "series_of_source d j \<subseteq> series_of_source d' j" for j by (auto simp: series_of_source_def d' a(1))
  ultimately show ?thesis using ok a(2,3) unfolding sources_ok_def d' own by blast
qed

lemma run_request_ok:
  assumes ok: "sources_ok C d" and r: "run_request iso_text d j trigger start end_at ids force params = Inr (d', i)"
    and fresh: "\<forall>x \<in> set (source_fetches d). sf_id x \<noteq> jc_fetch_id j"
  shows "sources_ok C d'"
  using r
proof (rule run_request_effect)
  fix d1 f
  assume q: "request_fetch iso_text d (jc_scope j) (jc_actor j) (jc_source_id j) trigger start end_at ids force params
      (jc_fetch_id j) (jc_event_id j) (jc_now j) = Inr (d1, f)" and d': "d' = (if jc_inline j then d1 else enqueue d1 f)"
  from q show ?thesis
  proof (rule request_fetch_effect)
    fix s
    assume s: "connector_source d (jc_scope j) (jc_source_id j) = Inr s" "check_request d s trigger start end_at ids = Inr ()"
      and f: "f = snd (create_fetch d s (jc_fetch_id j) trigger start end_at ids force (Some (ac_user_id (jc_actor j))) None FetchQueued params (jc_now j))"
      and d1: "d1 = d\<lparr>source_fetches := source_fetches d @ [f], audit_events := audit_events d1\<rparr>"
    have t: "sources d1 = sources d" "all_series d1 = all_series d" "source_fetches d1 = source_fetches d @ [f]" "credentials d1 = credentials d"
      by (subst d1, simp)+
    have e: "sources d' = sources d" "all_series d' = all_series d" "source_fetches d' = source_fetches d @ [f]" "credentials d' = credentials d"
      by (simp_all add: d' t enqueue_def)
    have fs: "sf_id f = jc_fetch_id j" "sf_source_id f = src_id s" "sf_workspace_id f = src_workspace_id s" "sf_series_ids f = ids"
      by (simp_all add: f create_fetch_def Let_def)
    have own: "owned d' = owned d" and ser: "series_of_source d' = series_of_source d"
      by (simp_all add: owned_def series_of_source_def e fun_eq_iff)
    have "owned d (sf_source_id f) (sf_workspace_id f)" using connector_source_Inr(1) [OF s(1)] fs by (auto simp: owned_def)
    moreover have "\<forall>is. sf_series_ids f = Some is \<longrightarrow> set is \<subseteq> series_of_source d (sf_source_id f)"
      using check_request_series [OF s(2)] fs by simp
    ultimately show ?thesis using ok fresh fs(1) unfolding sources_ok_def e own ser by simp
  qed
qed

lemma source_step_ok: "source_step C d d' \<Longrightarrow> sources_ok C d \<Longrightarrow> sources_ok C d'"
  by (induction rule: source_step.induct)
    (blast intro: create_source_ok update_source_ok set_credentials_ok forget_credentials_ok register_series_ok run_request_ok)+

section \<open>Properties of the sources API\<close>

text \<open>C39: whatever sources are created and changed, credentials set, series registered and jobs requested,
  names stay unique in a workspace, a connector source's config is one its class accepted, external ids stay
  unique in a source, no series, job or credentials lack their source (in the same workspace), a job names
  series of its source only, and only sources whose class takes credentials have them.\<close>

theorem sources_stay_consistent:
  assumes "(source_step C)\<^sup>*\<^sup>* d d'" and "sources_ok C d"
  shows "sources_ok C d'"
  using assms by (induction rule: rtranclp_induct) (auto intro: source_step_ok)

text \<open>What a client is told of a validation error.\<close>

definition shown :: "validation_error \<Rightarrow> json list \<times> string \<times> string" where
  "shown e = (ve_loc e, ve_msg e, ve_type e)"

lemma field_errors_shown: "map shown es = map shown fs \<Longrightarrow> field_errors es = field_errors fs"
proof -
  let ?g = "\<lambda>(l, m, t). [(''loc'', JArr l), (''msg'', JStr m), (''type'', JStr t)]"
  have "field_errors es = map ?g (map shown es)" for es by (simp add: field_errors_def shown_def)
  then show "map shown es = map shown fs \<Longrightarrow> field_errors es = field_errors fs" by (simp only:)
qed

lemma store_credentials_with_key: "k \<noteq> None \<Longrightarrow> \<exists>d'. store_credentials ci d k org s p u n now = Inr d'"
  by (cases k) (simp_all add: store_credentials_def require_keyring_def expect_def Let_def)

lemma store_credentials_status:
  assumes "store_credentials ci d k org s p u n now = Inr d'"
  shows "credentials_status d' s = Some now"
proof -
  from store_credentials_Inr [OF assms] obtain row where row: "crd_source_id row = s" "crd_updated_at row = now"
    "d' = d\<lparr>credentials := upsert crd_source_id replace_credentials row (credentials d)\<rparr>" by blast
  have "List.find (\<lambda>c. crd_source_id c = s) (credentials d') \<noteq> None \<and>
    (\<forall>c. List.find (\<lambda>c. crd_source_id c = s) (credentials d') = Some c \<longrightarrow> crd_updated_at c = now)"
    by (simp add: row(3) find_upsert replace_credentials_def row(1,2) split: option.splits)
  then show ?thesis by (auto simp: credentials_status_def)
qed

lemma prepare_details:
  "has_identity m = has_identity n \<Longrightarrow> snd (prepare_credentials C t m p i) = snd (prepare_credentials C t n p i)"
  by (auto simp: prepare_credentials_def split: option.splits prod.splits)

lemma upsert_others:
  assumes "crd_source_id row = i"
  shows "delete_where (\<lambda>c. crd_source_id c = i) (upsert crd_source_id replace_credentials row t) = delete_where (\<lambda>c. crd_source_id c = i) t"
proof -
  have "filter (\<lambda>c. crd_source_id c \<noteq> i) (map (\<lambda>r. if crd_source_id r = i then replace_credentials r row else r) t) = filter (\<lambda>c. crd_source_id c \<noteq> i) t"
    by (induction t) (auto simp: replace_credentials_def)
  then show ?thesis using assms by (simp add: upsert_def delete_where_def update_where_def)
qed

text \<open>C40: credentials are write-only: of two submissions that validate alike, the answers are the same, and
  what they leave differs in nothing but the sealed row of their source; the row's time is all that a read of
  the source shows of it.\<close>

theorem credentials_write_only:
  assumes "connector_source d sc i = Inr s"
    and "case (ce_credentials C (src_type s) p, ce_credentials C (src_type s) q) of
           (Inl es, Inl fs) \<Rightarrow> map shown es = map shown fs | (Inr m, Inr n) \<Rightarrow> has_identity m = has_identity n | _ \<Rightarrow> False"
  shows "case (set_credentials C ci d k sc a i p n1 ev now, set_credentials C ci d k sc a i q n2 ev now) of
     (Inl e, Inl e') \<Rightarrow> e = e'
   | (Inr d1, Inr d2) \<Rightarrow> d1\<lparr>credentials := credentials d2\<rparr> = d2 \<and>
       delete_where (\<lambda>c. crd_source_id c = i) (credentials d1) = delete_where (\<lambda>c. crd_source_id c = i) (credentials d2) \<and>
       view_source d1 s = view_source d2 s
   | _ \<Rightarrow> False"
proof (cases "takes_credentials (src_type s)")
  case False
  then show ?thesis by (simp add: set_credentials_def assms(1) require_def)
next
  case True
  show ?thesis
  proof (cases "ce_credentials C (src_type s) p")
    case (Inl es)
    with assms(2) obtain fs where "ce_credentials C (src_type s) q = Inl fs" "field_errors es = field_errors fs"
      by (auto split: sum.splits intro: field_errors_shown)
    with Inl show ?thesis by (simp add: set_credentials_def assms(1) True)
  next
    case (Inr m)
    with assms(2) obtain n where n: "ce_credentials C (src_type s) q = Inr n" "has_identity m = has_identity n"
      by (auto split: sum.splits)
    show ?thesis
    proof (cases "stored_model C ci d k sc s")
      case (Inl e)
      with Inr n show ?thesis by (simp add: set_credentials_def assms(1) True)
    next
      case (Inr previous)
      note m = \<open>ce_credentials C (src_type s) p = Inr m\<close>
      obtain full1 full2 details where pc: "prepare_credentials C (src_type s) m previous i = (full1, details)"
        "prepare_credentials C (src_type s) n previous i = (full2, details)"
        using prepare_details [OF n(2), of C "src_type s" previous i] by (metis prod.collapse)
      let ?st = "\<lambda>full nonce. store_credentials ci d k (sc_org sc) i full (Some (ac_user_id a)) nonce now"
      show ?thesis
      proof (cases "k = None")
        case True
        have "store_credentials ci d None org i' p' u n' now = Inl Unavailable" for org i' p' u n'
          by (simp add: store_credentials_def require_keyring_def)
        then show ?thesis
          using \<open>takes_credentials (src_type s)\<close> m n Inr pc by (simp add: set_credentials_def assms(1) True)
      next
        case False
        from store_credentials_with_key [OF False] obtain e1 where e1: "?st full1 n1 = Inr e1" by blast
        from store_credentials_with_key [OF False] obtain e2 where e2: "?st full2 n2 = Inr e2" by blast
        note e = e1 e2
        from store_credentials_Inr [OF e(1)] store_credentials_Inr [OF e(2)] obtain r1 r2 where
          "crd_source_id r1 = i" "e1 = d\<lparr>credentials := upsert crd_source_id replace_credentials r1 (credentials d)\<rparr>"
          "crd_source_id r2 = i" "e2 = d\<lparr>credentials := upsert crd_source_id replace_credentials r2 (credentials d)\<rparr>" by blast
        moreover have "src_id s = i" by (rule connector_source_Inr [OF assms(1)])
        moreover have "credentials_status e1 i = Some now" "credentials_status e2 i = Some now"
          using store_credentials_status e by blast+
        moreover have "set_credentials C ci d k sc a i p n1 ev now =
            Inr (audit_record e1 a ''source.credentials_set'' ''source'' i (Some (sc_workspace sc)) details ev now)"
          "set_credentials C ci d k sc a i q n2 ev now =
            Inr (audit_record e2 a ''source.credentials_set'' ''source'' i (Some (sc_workspace sc)) details ev now)"
          by (simp_all add: set_credentials_def assms(1) True m n(1) Inr pc e)
        ultimately show ?thesis
          by (auto simp: audit_record_def view_source_def credentials_status_def upsert_others)
      qed
    qed
  qed
qed

text \<open>An accepted request is a job that runs: its row is queued for the source it names, with a window
  within bounds, its job is deferred under the source's lock unless jobs run inline, and no executor skips
  it or finds the source gone or disabled; it stops only when the credentials do not load or the connector
  refuses its settings, and cannot be planned only when a limit of the connector is not positive.\<close>

theorem requested_job_runs:
  assumes "run_request iso_text d j trigger start end_at ids force params = Inr (d', i)" and "sources_ok C d"
    and "\<forall>f \<in> set (source_fetches d). sf_id f \<noteq> jc_fetch_id j"
  shows "\<exists>s f. connector_source d (jc_scope j) (jc_source_id j) = Inr s \<and> get_fetch d' i = Some f \<and>
     sf_status f = FetchQueued \<and> sf_source_id f = src_id s \<and> sf_trigger f = trigger \<and> sf_series_ids f = ids \<and>
     (trigger \<in> set WINDOW_TRIGGERS \<longrightarrow> sf_window_start f < sf_window_end f \<and> sf_window_end f - sf_window_start f \<le> MAX_WINDOW) \<and>
     (\<not> jc_inline j \<longrightarrow> jobs d' = jobs d @ [\<lparr>job_queue = FETCH_QUEUE, job_task = fetch_task trigger, job_lock = Some (src_id s),
        job_args = (i, src_org_id s)\<rparr>]) \<and>
     (\<forall>E b. case load_credentials (e_cipher E) d (e_keyring E) (src_org_id s) (src_id s) of
          Inl _ \<Rightarrow> (\<exists>msg. prepare E d' i b = Stopped msg)
        | Inr creds \<Rightarrow>
            (case e_build E (src_type s) (src_config s) creds of
               Inl msg \<Rightarrow> prepare E d' i b = Stopped msg
             | Inr cn \<Rightarrow>
                 (b \<and> plan_calls (fetch_gaps d' s f) (limits_within (cn_limits cn) (limits_of (cn_config cn))) = None \<longrightarrow>
                    prepare E d' i b = Broken) \<and>
                 (\<not> (b \<and> plan_calls (fetch_gaps d' s f) (limits_within (cn_limits cn) (limits_of (cn_config cn))) = None) \<longrightarrow>
                    (\<exists>d'' plan. prepare E d' i b = Prepared d'' plan \<and> jp_source_id plan = src_id s \<and>
                       jp_trigger plan = trigger \<and> jp_series_ids plan = ids))))"
  using assms(1)
proof (rule run_request_effect)
  fix d1 f
  assume q: "request_fetch iso_text d (jc_scope j) (jc_actor j) (jc_source_id j) trigger start end_at ids force params
      (jc_fetch_id j) (jc_event_id j) (jc_now j) = Inr (d1, f)" and i: "i = sf_id f"
    and d': "d' = (if jc_inline j then d1 else enqueue d1 f)"
  from q show ?thesis
  proof (rule request_fetch_effect)
    fix s
    assume s: "connector_source d (jc_scope j) (jc_source_id j) = Inr s" and ok: "check_request d s trigger start end_at ids = Inr ()"
      and f: "f = snd (create_fetch d s (jc_fetch_id j) trigger start end_at ids force (Some (ac_user_id (jc_actor j))) None FetchQueued params (jc_now j))"
      and d1: "d1 = d\<lparr>source_fetches := source_fetches d @ [f], audit_events := audit_events d1\<rparr>"
    have t: "sources d' = sources d" "source_fetches d' = source_fetches d @ [f]" "credentials d' = credentials d"
      by (simp_all add: d' enqueue_def) (subst d1, simp)+
    have jobs: "\<not> jc_inline j \<longrightarrow> jobs d' = jobs d @ [\<lparr>job_queue = FETCH_QUEUE, job_task = fetch_task trigger,
        job_lock = Some (src_id s), job_args = (i, src_org_id s)\<rparr>]"
    proof -
      have "jobs d1 = jobs d" by (subst d1, simp)
      then show ?thesis by (simp add: d' enqueue_def f i create_fetch_def Let_def)
    qed
    have fs: "sf_id f = jc_fetch_id j" "sf_source_id f = src_id s" "sf_status f = FetchQueued" "sf_trigger f = trigger"
      "sf_series_ids f = ids" "sf_window_start f = start" "sf_window_end f = end_at"
      by (simp_all add: f create_fetch_def Let_def)
    have "uniq_key sf_id (source_fetches d')" using assms(2,3) fs(1) by (simp add: t sources_ok_def)
    then have get: "get_fetch d' i = Some f" unfolding get_fetch_def i by (rule find_key) (simp_all add: t)
    have "uniq_key src_id (sources d')" using assms(2) by (simp add: t sources_ok_def)
    then have src: "get_source d' (src_id s) = Some s"
      unfolding get_source_def by (rule find_key) (simp_all add: t connector_source_Inr [OF s])
    have load: "load_credentials c d' k o' i' = load_credentials c d k o' i'" for c k o' i' by (simp add: load_credentials_def t)
    have enabled: "trigger \<in> set DATA_TRIGGERS \<longrightarrow> src_enabled s"
      and window: "trigger \<in> set WINDOW_TRIGGERS \<longrightarrow> start < end_at \<and> end_at - start \<le> MAX_WINDOW"
      using ok by (auto simp: check_request_def Let_def result_simps)
    show ?thesis
      by (intro exI [of _ s] exI [of _ f])
        (use enabled window jobs in \<open>auto simp: s get fs src load prepare_def Let_def split: sum.splits option.splits credentials_failure.splits\<close>)
  qed
qed

section \<open>Examples\<close>

definition ex_classes :: class_env where
  "ex_classes = \<lparr>ce_config = (\<lambda>t c. Inr c), ce_credentials = (\<lambda>t c. Inr c), ce_identity = (\<lambda>i. (''cert'', ''key'')),
     ce_certificate_info = (\<lambda>pem. [])\<rparr>"

definition ex_pi_source :: source where
  "ex_pi_source = new_source \<lparr>sc_org = 4, sc_workspace = 2\<rparr> SrcPiWebApi ''pi'' [] 5 0"

definition ex_source_db :: db where "ex_source_db = empty_db\<lparr>sources := [ex_pi_source]\<rparr>"

definition ex_source_admin :: actor where
  "ex_source_admin = \<lparr>ac_user_id = 3, ac_org_id = 4, ac_ip_address = None, ac_user_agent = None\<rparr>"

lemma ex_connector_source: "connector_source ex_source_db \<lparr>sc_org = 4, sc_workspace = 2\<rparr> 5 = Inr ex_pi_source"
  by (simp add: connector_source_def scoped_source_def require_connector_def ex_source_db_def ex_pi_source_def new_source_def is_connector_def)

lemma ex_source_ok: "sources_ok ex_classes ex_source_db"
  by (simp add: sources_ok_def ex_source_db_def empty_db_def ex_classes_def uniq_key_def)

theorem sources_stay_consistent_witness:
  "\<exists>d'. (source_step ex_classes)\<^sup>*\<^sup>* empty_db d' \<and> sources_ok ex_classes d' \<and> length (sources d') = 1"
proof -
  have "\<exists>d' s. create_source ex_classes empty_db \<lparr>sc_org = 4, sc_workspace = 2\<rparr> ex_source_admin ''synthetic'' ''a'' [] 5 9 0 = Inr (d', s) \<and>
      length (sources d') = 1"
    by (simp add: create_source_def validate_config_def type_named_def source_type_value_def is_connector_def ex_classes_def
        source_name_free_def empty_db_def audit_record_def Let_def)
  then obtain d' s where r: "create_source ex_classes empty_db \<lparr>sc_org = 4, sc_workspace = 2\<rparr> ex_source_admin ''synthetic'' ''a'' [] 5 9 0 = Inr (d', s)"
    "length (sources d') = 1" by blast
  have "source_step ex_classes empty_db d'" by (rule step_create [OF r(1)]) (simp add: empty_db_def)
  then have s: "(source_step ex_classes)\<^sup>*\<^sup>* empty_db d'" by blast
  have "sources_ok ex_classes empty_db" by (simp add: sources_ok_def empty_db_def)
  from sources_stay_consistent [OF s this] s r(2) show ?thesis by blast
qed

theorem credentials_write_only_witness:
  "\<exists>d1 d2. set_credentials ex_classes ex_cipher ex_source_db (Some ex_ring) \<lparr>sc_org = 4, sc_workspace = 2\<rparr> ex_source_admin 5
       [(''token'', JStr ''x'')] ''n'' 9 0 = Inr d1 \<and>
     set_credentials ex_classes ex_cipher ex_source_db (Some ex_ring) \<lparr>sc_org = 4, sc_workspace = 2\<rparr> ex_source_admin 5
       [(''token'', JStr ''y'')] ''m'' 9 0 = Inr d2 \<and>
     d1\<lparr>credentials := credentials d2\<rparr> = d2"
proof -
  let ?k = "Some ex_ring" and ?sc = "\<lparr>sc_org = 4, sc_workspace = 2\<rparr>"
  have v: "ce_credentials ex_classes t c = Inr c" for t c by (simp add: ex_classes_def)
  have t: "takes_credentials (src_type ex_pi_source)" by (simp add: takes_credentials_def ex_pi_source_def new_source_def)
  have "stored_model ex_classes ex_cipher ex_source_db ?k ?sc ex_pi_source = Inr None"
    by (simp add: stored_model_def load_credentials_def ex_source_db_def empty_db_def)
  then have "\<exists>d'. set_credentials ex_classes ex_cipher ex_source_db ?k ?sc ex_source_admin 5 p n 9 0 = Inr d'" for p n
    by (simp add: set_credentials_def ex_connector_source v t store_credentials_def require_keyring_def Let_def split: prod.splits)
  then obtain d1 d2 where r: "set_credentials ex_classes ex_cipher ex_source_db ?k ?sc ex_source_admin 5 [(''token'', JStr ''x'')] ''n'' 9 0 = Inr d1"
    "set_credentials ex_classes ex_cipher ex_source_db ?k ?sc ex_source_admin 5 [(''token'', JStr ''y'')] ''m'' 9 0 = Inr d2" by blast
  have "case (ce_credentials ex_classes (src_type ex_pi_source) [(''token'', JStr ''x'')], ce_credentials ex_classes (src_type ex_pi_source) [(''token'', JStr ''y'')]) of
           (Inl es, Inl fs) \<Rightarrow> map shown es = map shown fs | (Inr m, Inr n) \<Rightarrow> has_identity m = has_identity n | _ \<Rightarrow> False"
    by (simp add: v has_identity_def CERT_def)
  from credentials_write_only [OF ex_connector_source this, of ex_cipher ?k ex_source_admin "''n''" 9 0 "''m''"] r
  show ?thesis by auto
qed

theorem requested_job_runs_witness:
  "\<exists>d' f. run_request (\<lambda>_. ''t'') ex_source_db \<lparr>jc_inline = False, jc_scope = \<lparr>sc_org = 4, sc_workspace = 2\<rparr>, jc_actor = ex_source_admin,
       jc_source_id = 5, jc_fetch_id = 8, jc_event_id = 9, jc_now = 0\<rparr> FManual 0 10 None False None = Inr (d', 8) \<and>
     get_fetch d' 8 = Some f \<and> sf_status f = FetchQueued"
proof -
  let ?j = "\<lparr>jc_inline = False, jc_scope = \<lparr>sc_org = 4, sc_workspace = 2\<rparr>, jc_actor = ex_source_admin,
       jc_source_id = 5, jc_fetch_id = 8, jc_event_id = 9, jc_now = 0\<rparr>"
  have "check_request ex_source_db ex_pi_source FManual 0 10 None = Inr ()"
    by (simp add: check_request_def Let_def OPTIONAL_METHODS_def WINDOW_TRIGGERS_def DATA_TRIGGERS_def reads_windows_def MAX_WINDOW_def
        ex_pi_source_def new_source_def)
  then have "\<exists>d'. run_request (\<lambda>_. ''t'') ex_source_db ?j FManual 0 10 None False None = Inr (d', 8)"
    by (simp add: run_request_def start_requested_def request_fetch_def ex_connector_source create_fetch_def Let_def)
  then obtain d' where r: "run_request (\<lambda>_. ''t'') ex_source_db ?j FManual 0 10 None False None = Inr (d', 8)" by blast
  have "\<forall>f \<in> set (source_fetches ex_source_db). sf_id f \<noteq> jc_fetch_id ?j" by (simp add: ex_source_db_def empty_db_def)
  from requested_job_runs [OF r ex_source_ok this] r show ?thesis by auto
qed

end
