(* ===== verification/Civil.thy ===== *)
theory Civil
  imports Strings
begin

text \<open>
  The proleptic Gregorian calendar of Python's \<^verbatim>\<open>datetime\<close> and \<^verbatim>\<open>calendar.timegm\<close>:
  the number of a day and back, fixed-width decimal text and its digits.
\<close>

section \<open>Days\<close>

definition is_leap :: "int \<Rightarrow> bool" where
  "is_leap y \<longleftrightarrow> y mod 4 = 0 \<and> (y mod 100 \<noteq> 0 \<or> y mod 400 = 0)"

text \<open>The days of the first \<open>k\<close> years, and of a year before the month; day 1 is 1 January of year 1.\<close>

definition year_days :: "int \<Rightarrow> int" where
  "year_days k = 365 * k + k div 4 - k div 100 + k div 400"

definition month_days :: "int list" where
  "month_days = [0, 31, 59, 90, 120, 151, 181, 212, 243, 273, 304, 334]"

definition days_before_month :: "int \<Rightarrow> int \<Rightarrow> int" where
  "days_before_month y m = month_days ! nat (m - 1) + (if 2 < m \<and> is_leap y then 1 else 0)"

definition to_ordinal :: "int \<Rightarrow> int \<Rightarrow> int \<Rightarrow> int" where
  "to_ordinal y m d = year_days (y - 1) + days_before_month y m + d"

definition EPOCH_ORDINAL :: int where "EPOCH_ORDINAL = 719163"

text \<open>The inverse: the mean year gives the year up to one, the day of the year gives the month.\<close>

definition year_of :: "int \<Rightarrow> int" where
  "year_of n =
     (let y = 400 * (n - 1) div 146097 + 1
      in if n \<le> year_days (y - 1) then y - 1 else if year_days y < n then y + 1 else y)"

definition month_of :: "bool \<Rightarrow> int \<Rightarrow> int" where
  "month_of leap n =
     (let l = (if leap then 1 else 0)
      in if n \<le> 31 then 1 else if n \<le> 59 + l then 2 else if n \<le> 90 + l then 3 else if n \<le> 120 + l then 4
         else if n \<le> 151 + l then 5 else if n \<le> 181 + l then 6 else if n \<le> 212 + l then 7 else if n \<le> 243 + l then 8
         else if n \<le> 273 + l then 9 else if n \<le> 304 + l then 10 else if n \<le> 334 + l then 11 else 12)"

definition from_ordinal :: "int \<Rightarrow> int \<times> int \<times> int" where
  "from_ordinal n =
     (let y = year_of n; doy = n - year_days (y - 1); m = month_of (is_leap y) doy
      in (y, m, doy - days_before_month y m))"

text \<open>Division by a positive constant, as \<^verbatim>\<open>linarith\<close> can use it.\<close>

lemma div_bounds: "0 < k \<Longrightarrow> k * (n div k) \<le> n" "0 < k \<Longrightarrow> n < k * (n div k) + k" for k n :: int
  using mult_div_mod_eq [of k n] pos_mod_sign [of k n] pos_mod_bound [of k n] by linarith+

lemma year_days_bounds: "146097 * k - 699 \<le> 400 * year_days k" "400 * year_days k \<le> 146097 * k + 396"
  using div_bounds [of 4 k] div_bounds [of 100 k] div_bounds [of 400 k] by (simp_all add: year_days_def)

lemma year_of_bounds: "year_days (year_of n - 1) < n" "n \<le> year_days (year_of n)"
proof -
  let ?k = "400 * (n - 1) div 146097"
  have k: "146097 * ?k \<le> 400 * (n - 1)" "400 * (n - 1) < 146097 * ?k + 146097"
    by (rule div_bounds, simp)+
  obtain q where q: "q = ?k" by simp
  have "year_days (q - 1) < n" using k [folded q] year_days_bounds(2) [of "q - 1"] by simp
  moreover have "n \<le> year_days (q + 2)" using k [folded q] year_days_bounds(1) [of "q + 2"] by simp
  ultimately have "year_days (?k - 1) < n" "n \<le> year_days (?k + 2)" by (simp_all only: q)
  then show "year_days (year_of n - 1) < n" "n \<le> year_days (year_of n)"
    by (auto simp: year_of_def Let_def add.commute)
qed

lemma div_pred: "0 < k \<Longrightarrow> y div k - (y - 1) div k = (if k dvd y then 1 else 0)" for k y :: int
proof -
  assume k: "0 < k"
  let ?q = "y div k" and ?r = "y mod k"
  have y: "y = k * ?q + ?r" "0 \<le> ?r" "?r < k" using k by simp_all
  show ?thesis
  proof (cases "?r = 0")
    case True
    have "(y - 1) div k = ?q - 1" by (rule int_div_pos_eq [where r = "k - 1"]) (use y True k in \<open>simp_all add: algebra_simps\<close>)
    with True show ?thesis by (simp add: dvd_eq_mod_eq_0)
  next
    case False
    have "0 \<le> ?r - 1" "?r - 1 < k" "y - 1 = k * ?q + (?r - 1)" using y False by linarith+
    then have "(y - 1) div k = ?q" by (rule int_div_pos_eq [rotated 1])
    with False show ?thesis by (simp add: dvd_eq_mod_eq_0)
  qed
qed

lemma sum_step: "a - a' = x \<Longrightarrow> b - b' = z \<Longrightarrow> c - c' = w \<Longrightarrow>
   365 * y + a - b + c - (365 * (y - 1) + a' - b' + c') = 365 + x - z + w" for y :: int
  by (simp add: algebra_simps)

lemma year_length: "year_days y - year_days (y - 1) = (if is_leap y then 366 else 365)"
proof -
  let ?b = "\<lambda>k::int. if k dvd y then 1 else (0::int)"
  have sub: "(100::int) dvd y \<Longrightarrow> 4 dvd y" "(400::int) dvd y \<Longrightarrow> 100 dvd y"
    by (erule dvd_trans [rotated], simp)+
  have leap: "is_leap y \<longleftrightarrow> 4 dvd y \<and> (\<not> 100 dvd y \<or> 400 dvd y)"
    by (simp only: is_leap_def dvd_eq_mod_eq_0)
  have "y div 4 - (y - 1) div 4 = ?b 4" "y div 100 - (y - 1) div 100 = ?b 100" "y div 400 - (y - 1) div 400 = ?b 400"
    by (rule div_pred, simp)+
  then have "year_days y - year_days (y - 1) = 365 + ?b 4 - ?b 100 + ?b 400"
    unfolding year_days_def by (rule sum_step)
  also have "\<dots> = (if is_leap y then 366 else 365)"
    unfolding leap using sub by (cases "4 dvd y"; cases "100 dvd y"; cases "400 dvd y"; simp)
  finally show ?thesis .
qed

text \<open>Every day of a year lies in the month \<open>month_of\<close> gives.\<close>

lemmas month_defs = month_of_def days_before_month_def month_days_def

lemma month_of_cases:
  assumes "1 \<le> n" "n \<le> (if is_leap y then 366 else 365)" "m = month_of (is_leap y) n"
  shows "1 \<le> m \<and> m \<le> 12 \<and> 1 \<le> n - days_before_month y m \<and> n - days_before_month y m \<le> 31"
proof (cases "is_leap y")
  case True
  with assms show ?thesis
    by (cases "n \<le> 31", simp add: month_defs,
      cases "n \<le> 60", simp add: month_defs,
      cases "n \<le> 91", simp add: month_defs,
      cases "n \<le> 121", simp add: month_defs,
      cases "n \<le> 152", simp add: month_defs,
      cases "n \<le> 182", simp add: month_defs,
      cases "n \<le> 213", simp add: month_defs,
      cases "n \<le> 244", simp add: month_defs,
      cases "n \<le> 274", simp add: month_defs,
      cases "n \<le> 305", simp add: month_defs,
      cases "n \<le> 335", simp add: month_defs, simp add: month_defs)
next
  case False
  with assms show ?thesis
    by (cases "n \<le> 31", simp add: month_defs,
      cases "n \<le> 59", simp add: month_defs,
      cases "n \<le> 90", simp add: month_defs,
      cases "n \<le> 120", simp add: month_defs,
      cases "n \<le> 151", simp add: month_defs,
      cases "n \<le> 181", simp add: month_defs,
      cases "n \<le> 212", simp add: month_defs,
      cases "n \<le> 243", simp add: month_defs,
      cases "n \<le> 273", simp add: month_defs,
      cases "n \<le> 304", simp add: month_defs,
      cases "n \<le> 334", simp add: month_defs, simp add: month_defs)
qed

lemma from_to_ordinal:
  assumes "from_ordinal n = (y, m, d)"
  shows "to_ordinal y m d = n \<and> 1 \<le> m \<and> m \<le> 12 \<and> 1 \<le> d \<and> d \<le> 31 \<and> y = year_of n"
proof -
  let ?doy = "n - year_days (year_of n - 1)"
  have ymd: "y = year_of n" "m = month_of (is_leap y) ?doy" "d = ?doy - days_before_month y m"
    using assms by (auto simp: from_ordinal_def Let_def)
  have "1 \<le> ?doy" "?doy \<le> (if is_leap y then 366 else 365)"
    using year_of_bounds [of n] year_length [of y] by (auto simp: ymd(1))
  from month_of_cases [OF this ymd(2)] show ?thesis by (simp add: to_ordinal_def ymd(3) ymd(1))
qed

text \<open>The years of a range of days.\<close>

lemma year_days_mono: "a \<le> b \<Longrightarrow> year_days a \<le> year_days b"
proof (induction "nat (b - a)" arbitrary: b)
  case (Suc k)
  then have "year_days a \<le> year_days (b - 1)" by (intro Suc.hyps) linarith+
  then show ?case using year_length [of b] by (auto split: if_splits)
qed simp

lemma year_of_le: "n \<le> year_days y \<Longrightarrow> year_of n \<le> y"
  using year_of_bounds(1) [of n] year_days_mono [of y "year_of n - 1"] by linarith

lemma year_of_ge: "year_days (y - 1) < n \<Longrightarrow> y \<le> year_of n"
  using year_of_bounds(2) [of n] year_days_mono [of "year_of n" "y - 1"] by linarith

end
