(* ===== verification/Pi_Values.thy ===== *)
theory Pi_Values
  imports Civil Timeparse Fetches
begin

text \<open>
  \<^verbatim>\<open>connectors/pi_web_api/values.py\<close> and the paging loop of
  \<^verbatim>\<open>pi_web_api/connector.py\<close>: timestamps, the quality of a value, and reading past PI's silent
  cut at \<^verbatim>\<open>maxCount\<close>.  The PI server is a parameter: what it answers to a start and end time.  A float
  is an exact rational or, as NaN, \<open>None\<close>.
\<close>

section \<open>Timestamps\<close>

definition TICK_NS :: int where "TICK_NS = 100"
definition TICKS_PER_SECOND :: int where "TICKS_PER_SECOND = 10000000"

text \<open>
  The pieces of the pattern: exactly \<open>n\<close> digits, a literal, the optional fraction and the offset.  The
  pattern's \<^verbatim>\<open>$\<close> also matches before a final line feed.
\<close>

definition take_digits :: "nat \<Rightarrow> string \<Rightarrow> (int \<times> string) option" where
  "take_digits n s =
     (let ds = take n s in if length ds = n \<and> (\<forall>c \<in> set ds. is_digit c) then Some (int (dec_val ds), drop n s) else None)"

definition take_char :: "char \<Rightarrow> string \<Rightarrow> string option" where
  "take_char c s = (case s of x # xs \<Rightarrow> if x = c then Some xs else None | [] \<Rightarrow> None)"

definition take_field :: "nat \<Rightarrow> char \<Rightarrow> string \<Rightarrow> (int \<times> string) option" where
  "take_field n c s = Option.bind (take_digits n s) (\<lambda>(v, r). map_option (\<lambda>r'. (v, r')) (take_char c r))"

definition take_fraction :: "string \<Rightarrow> (string \<times> string) option" where
  "take_fraction s =
     (case take_char (CHR ''.'') s of
        None \<Rightarrow> Some ([], s)
      | Some r \<Rightarrow> (let ds = takeWhile is_digit r
                  in if 1 \<le> length ds \<and> length ds \<le> 9 then Some (ds, drop (length ds) r) else None))"

definition take_offset :: "string \<Rightarrow> (int \<times> string) option" where
  "take_offset s =
     (case s of
        [] \<Rightarrow> None
      | c # r \<Rightarrow>
          if c = CHR ''Z'' then Some (0, r)
          else if c = CHR ''+'' \<or> c = CHR ''-'' then
            Option.bind (take_field 2 (CHR '':'') r) (\<lambda>(h, r1).
            Option.bind (take_digits 2 r1) (\<lambda>(m, r2). Some ((if c = CHR ''+'' then 1 else - 1) * (h * 3600 + m * 60), r2)))
          else None)"

record stamp_parts =
  st_fields :: "int list"
  st_fraction :: string
  st_offset :: int

definition match_timestamp :: "string \<Rightarrow> stamp_parts option" where
  "match_timestamp s =
     Option.bind (take_field 4 (CHR ''-'') s) (\<lambda>(y, s1).
     Option.bind (take_field 2 (CHR ''-'') s1) (\<lambda>(mo, s2).
     Option.bind (take_field 2 (CHR ''T'') s2) (\<lambda>(d, s3).
     Option.bind (take_field 2 (CHR '':'') s3) (\<lambda>(h, s4).
     Option.bind (take_field 2 (CHR '':'') s4) (\<lambda>(mi, s5).
     Option.bind (take_digits 2 s5) (\<lambda>(sec, s6).
     Option.bind (take_fraction s6) (\<lambda>(frac, s7).
     Option.bind (take_offset s7) (\<lambda>(off, rest).
       if rest = [] \<or> rest = [CHR 0x0A]
       then Some \<lparr>st_fields = [y, mo, d, h, mi, sec], st_fraction = frac, st_offset = off\<rparr> else None))))))))"

text \<open>
  \<^verbatim>\<open>calendar.timegm\<close> checks the year and the month only.  \<open>BadCalendar\<close> is its plain
  \<^verbatim>\<open>ValueError\<close>, which callers do not expect, \<open>TimestampError\<close> the module's own error.
\<close>

datatype stamp_error = TimestampError string | BadCalendar

definition timegm :: "int list \<Rightarrow> int option" where
  "timegm fs =
     (case fs of
        [y, mo, d, h, mi, s] \<Rightarrow>
          if 1 \<le> y \<and> y \<le> 9999 \<and> 1 \<le> mo \<and> mo \<le> 12
          then Some (((((to_ordinal y mo 1 - EPOCH_ORDINAL + d - 1) * 24 + h) * 60) + mi) * 60 + s) else None
      | _ \<Rightarrow> None)"

definition pi_parse_time :: "string \<Rightarrow> stamp_error + ns" where
  "pi_parse_time v =
     (case match_timestamp v of
        None \<Rightarrow> Inl (TimestampError (''not an ISO 8601 timestamp: '' @ take 40 v))
      | Some p \<Rightarrow>
          (case timegm (st_fields p) of
             None \<Rightarrow> Inl BadCalendar
           | Some seconds \<Rightarrow>
               Inr ((seconds - st_offset p) * SECOND_NS + int (dec_val (ljust0 9 (st_fraction p))))))"

fun dec_digits :: "nat \<Rightarrow> nat \<Rightarrow> string" where
  "dec_digits 0 n = []"
| "dec_digits (Suc k) n = dec_digits k (n div 10) @ [digit_char (n mod 10)]"

definition ticks_of :: "ns \<Rightarrow> bool \<Rightarrow> int" where
  "ticks_of t ceil = (if ceil then - ((- t) div TICK_NS) else t div TICK_NS)"

definition format_time :: "ns \<Rightarrow> bool \<Rightarrow> string" where
  "format_time t ceil =
     (let ticks = ticks_of t ceil; seconds = ticks div TICKS_PER_SECOND; fraction = ticks mod TICKS_PER_SECOND;
          (y, mo, d) = from_ordinal (seconds div 86400 + EPOCH_ORDINAL); sod = seconds mod 86400
      in dec_digits 4 (nat y) @ ''-'' @ dec_digits 2 (nat mo) @ ''-'' @ dec_digits 2 (nat d) @ ''T'' @
         dec_digits 2 (nat (sod div 3600)) @ '':'' @ dec_digits 2 (nat (sod div 60 mod 60)) @ '':'' @
         dec_digits 2 (nat (sod mod 60)) @ ''.'' @ dec_digits 7 (nat fraction) @ ''Z'')"

section \<open>Values\<close>

definition flag :: "jobj \<Rightarrow> string \<Rightarrow> bool" where
  "flag item k = (case map_of item k of None \<Rightarrow> False | Some v \<Rightarrow> truthy v)"

fun plain_number :: "json \<Rightarrow> rat option" where
  "plain_number (JInt i) = Some (of_int i)"
| "plain_number (JNum r) = Some r"
| "plain_number _ = None"

definition pi_number :: "json \<Rightarrow> rat option" where
  "pi_number v =
     (case v of
        JBool b \<Rightarrow> Some (if b then 1 else 0)
      | JObj state \<Rightarrow> if flag state ''IsSystem'' then None else Option.bind (map_of state ''Value'') plain_number
      | _ \<Rightarrow> plain_number v)"

definition pi_convert :: "jobj \<Rightarrow> rat option \<times> string" where
  "pi_convert item =
     (if flag item ''Errors'' then (None, ''bad'')
      else (case Option.bind (map_of item ''Value'') pi_number of
          None \<Rightarrow> (None, ''bad'')
        | Some n \<Rightarrow>
            if map_of item ''Good'' = Some (JBool False) then (Some n, ''bad'')
            else if flag item ''Questionable'' then (Some n, ''uncertain'')
            else if flag item ''Substituted'' then (Some n, ''estimated'')
            else (Some n, ''good'')))"

section \<open>Pages\<close>

record page_cursor =
  at_ns :: ns
  seen_at :: nat

type_synonym pi_row = "ns \<times> rat option \<times> string"

text \<open>The text of a timestamp; one that is no string is no timestamp, whatever text it has.\<close>

definition stamp_text :: "jobj \<Rightarrow> string" where
  "stamp_text item = (case map_of item ''Timestamp'' of Some (JStr s) \<Rightarrow> s | _ \<Rightarrow> [])"

fun stamps_of :: "jobj list \<Rightarrow> stamp_error + ns list" where
  "stamps_of [] = Inr []"
| "stamps_of (item # items) = rbind (pi_parse_time (stamp_text item)) (\<lambda>t. rbind (stamps_of items) (\<lambda>ts. Inr (t # ts)))"

fun page_rows :: "ns \<Rightarrow> ns \<Rightarrow> ns \<Rightarrow> nat \<Rightarrow> (ns \<times> jobj) list \<Rightarrow> pi_row list" where
  "page_rows start_ns end_ns here skip [] = []"
| "page_rows start_ns end_ns here skip ((t, item) # rest) =
     (if 0 < skip \<and> t = here then page_rows start_ns end_ns here (skip - 1) rest
      else if t < start_ns \<or> end_ns \<le> t then page_rows start_ns end_ns here skip rest
      else (t, pi_convert item) # page_rows start_ns end_ns here skip rest)"

definition read_page :: "jobj list \<Rightarrow> page_cursor \<Rightarrow> ns \<Rightarrow> ns \<Rightarrow> nat \<Rightarrow> stamp_error + pi_row list \<times> page_cursor option" where
  "read_page items c start_ns end_ns max_count =
     rbind (stamps_of items) (\<lambda>stamps.
       let rows = page_rows start_ns end_ns (at_ns c) (seen_at c) (zip stamps items) in
       if length items < max_count then Inr (rows, None)
       else if hd stamps = last stamps
         then Inl (TimestampError (''more than '' @ nat_str max_count @ '' values at one timestamp''))
       else if end_ns \<le> last stamps then Inr (rows, None)
       else Inr (rows, Some \<lparr>at_ns = last stamps, seen_at = length (filter (\<lambda>t. t = last stamps) stamps)\<rparr>))"

text \<open>
  The loop of \<^verbatim>\<open>PiWebApiConnector.fetch\<close> over one point: \<open>ask\<close> is the answer's items to a
  start and an end time, \<open>None\<close> as the result a loop that does not end, and an error after the pages already
  yielded.
\<close>

partial_function (option) read_pages :: "(string \<Rightarrow> string \<Rightarrow> jobj list) \<Rightarrow> ns \<Rightarrow> ns \<Rightarrow> nat \<Rightarrow> page_cursor
    \<Rightarrow> (pi_row list list \<times> stamp_error option) option" where
  "read_pages ask start_ns end_ns max_count c =
     (case read_page (ask (format_time (at_ns c) False) (format_time end_ns True)) c start_ns end_ns max_count of
        Inl e \<Rightarrow> Some ([], Some e)
      | Inr (rows, None) \<Rightarrow> Some ([rows], None)
      | Inr (rows, Some c') \<Rightarrow>
          Option.bind (read_pages ask start_ns end_ns max_count c') (\<lambda>(pages, e). Some (rows # pages, e)))"

section \<open>Times read back\<close>

lemma length_dec_digits [simp]: "length (dec_digits k n) = k"
  by (induction k arbitrary: n) auto

lemma dec_digits_facts: "n < 10 ^ k \<Longrightarrow> (\<forall>c \<in> set (dec_digits k n). is_digit c) \<and> dec_val (dec_digits k n) = n"
proof (induction k arbitrary: n)
  case (Suc k)
  have "n div 10 < 10 ^ k" using Suc.prems by (simp add: less_mult_imp_div_less mult.commute)
  moreover have "n mod 10 < 10" by simp
  ultimately show ?case using Suc.IH [of "n div 10"] digit_char_facts [of "n mod 10"] by (auto simp: dec_val_snoc)
qed (simp add: dec_val_def)

lemma take_digits_dec: "n < 10 ^ k \<Longrightarrow> take_digits k (dec_digits k n @ rest) = Some (int n, rest)"
  using dec_digits_facts [of n k] by (simp add: take_digits_def Let_def)

lemma take_field_dec: "n < 10 ^ k \<Longrightarrow> take_field k c (dec_digits k n @ c # rest) = Some (int n, rest)"
  by (simp add: take_field_def take_digits_dec take_char_def)

lemma take_fraction_dec: "n < 10 ^ 7 \<Longrightarrow> take_fraction (CHR ''.'' # dec_digits 7 n @ ''Z'') = Some (dec_digits 7 n, ''Z'')"
proof -
  assume n: "n < 10 ^ 7"
  have z: "\<not> is_digit (CHR ''Z'')" by (simp add: is_digit_def less_eq_char_def)
  have "takeWhile is_digit (dec_digits 7 n @ ''Z'') = dec_digits 7 n"
    using dec_digits_facts [OF n] z by (simp add: takeWhile_append2)
  then show ?thesis by (simp add: take_fraction_def take_char_def Let_def)
qed

lemma dec_val_append_zeros: "dec_val (s @ replicate k (CHR ''0'')) = dec_val s * 10 ^ k"
proof (induction k)
  case (Suc k)
  have "s @ replicate (Suc k) (CHR ''0'') = (s @ replicate k (CHR ''0'')) @ [CHR ''0'']"
    by (simp add: replicate_append_same)
  moreover have "digit_val (CHR ''0'') = 0" by (simp add: digit_val_def)
  ultimately show ?case using Suc by (simp only: dec_val_snoc) simp
qed simp

text \<open>The years the four digits of a year can name, in nanoseconds.\<close>

definition in_years :: "ns \<Rightarrow> bool" where
  "in_years t \<longleftrightarrow> - 30610224000 * SECOND_NS \<le> t \<and> t \<le> 253402300799 * SECOND_NS"

lemma ticks_floor: "ticks_of t False * TICK_NS \<le> t" "t < ticks_of t False * TICK_NS + TICK_NS"
  using div_bounds [of TICK_NS t] by (simp_all add: ticks_of_def TICK_NS_def mult.commute)

lemma ticks_ceil: "t \<le> ticks_of t True * TICK_NS" "ticks_of t True * TICK_NS < t + TICK_NS"
  using div_bounds [of TICK_NS "- t"] by (simp_all add: ticks_of_def TICK_NS_def)

lemma ticks_exact: "t mod TICK_NS = 0 \<Longrightarrow> ticks_of t False * TICK_NS = t"
  using div_mult_mod_eq [of t TICK_NS] by (simp add: ticks_of_def)

lemma second_years:
  assumes "in_years t" "seconds = ticks_of t ceil div TICKS_PER_SECOND"
  shows "- 30610224000 \<le> seconds" "seconds \<le> 253402300799"
proof -
  let ?k = "ticks_of t ceil"
  have lo: "- 30610224000 * TICKS_PER_SECOND \<le> ?k" and hi: "?k \<le> 253402300799 * TICKS_PER_SECOND"
    using assms(1) ticks_floor [of t] ticks_ceil [of t]
    by (cases ceil; simp add: in_years_def SECOND_NS_def TICK_NS_def TICKS_PER_SECOND_def)+
  show "- 30610224000 \<le> seconds" "seconds \<le> 253402300799"
    using lo hi div_bounds [of TICKS_PER_SECOND ?k] by (simp_all add: assms(2) TICKS_PER_SECOND_def)
qed

lemma small_nat: "0 \<le> x \<Longrightarrow> x < 10 ^ k \<Longrightarrow> nat x < 10 ^ k" for x :: int
  by (simp add: nat_less_iff)

lemma clock_parts:
  fixes sod :: int
  assumes "0 \<le> sod" "sod < 86400"
  shows "0 \<le> sod div 3600" "sod div 3600 < 10 ^ 2" "0 \<le> sod div 60 mod 60" "sod div 60 mod 60 < 10 ^ 2"
    "0 \<le> sod mod 60" "sod mod 60 < 10 ^ 2" "(sod div 3600 * 60 + sod div 60 mod 60) * 60 + sod mod 60 = sod"
proof -
  have a: "60 * (sod div 60) + sod mod 60 = sod" "60 * (sod div 60 div 60) + sod div 60 mod 60 = sod div 60"
    by (rule mult_div_mod_eq)+
  have h: "sod div 60 div 60 = sod div 3600" by (simp add: zdiv_zmult2_eq [symmetric])
  show "(sod div 3600 * 60 + sod div 60 mod 60) * 60 + sod mod 60 = sod" using a unfolding h by (metis mult.commute)
  have b: "sod mod 60 < 60" "sod div 60 mod 60 < 60" by simp_all
  then show "sod mod 60 < 10 ^ 2" "sod div 60 mod 60 < 10 ^ 2" by simp_all
  show "0 \<le> sod div 3600" "0 \<le> sod div 60 mod 60" "0 \<le> sod mod 60" using assms by (simp_all add: pos_imp_zdiv_nonneg_iff)
  show "sod div 3600 < 10 ^ 2" using div_bounds(1) [of 3600 sod] assms by simp
qed

lemma seconds_of_parts: "o1 + d - 1 = q + e \<Longrightarrow> s = 86400 * q + sod \<Longrightarrow> (hh * 60 + mi) * 60 + ss = sod \<Longrightarrow>
    ((((o1 - e + d - 1) * 24 + hh) * 60) + mi) * 60 + ss = s" for s :: int
proof -
  assume a: "o1 + d - 1 = q + e" "s = 86400 * q + sod" "(hh * 60 + mi) * 60 + ss = sod"
  from a(1) have "o1 - e + d - 1 = q" by simp
  then show ?thesis unfolding a(2) a(3) [symmetric] by (simp add: algebra_simps)
qed

lemma year_days_consts: "year_days 999 = 364877" "year_days 9999 = 3652059"
  by (simp_all add: year_days_def)

lemma format_parse:
  assumes "in_years t"
  shows "pi_parse_time (format_time t ceil) = Inr (ticks_of t ceil * TICK_NS)"
proof -
  let ?k = "ticks_of t ceil"
  obtain s f where s: "s = ?k div TICKS_PER_SECOND" and f: "f = ?k mod TICKS_PER_SECOND" by simp
  obtain day sod where day: "day = s div 86400 + EPOCH_ORDINAL" and sod: "sod = s mod 86400" by simp
  obtain y mo d where ymd: "from_ordinal day = (y, mo, d)" by (cases "from_ordinal day") auto
  note civil = from_to_ordinal [OF ymd]
  then have md: "1 \<le> mo" "mo \<le> 12" "1 \<le> d" "d \<le> 31" by simp_all
  have sb: "- 30610224000 \<le> s" "s \<le> 253402300799" using second_years [OF assms s] by simp_all
  have "year_days 999 < day" "day \<le> year_days 9999"
    using sb div_bounds [of 86400 s] unfolding year_days_consts day EPOCH_ORDINAL_def by simp_all
  then have y: "1000 \<le> y" "y \<le> 9999" using year_of_ge [of 1000 day] year_of_le [of day 9999] civil by simp_all
  have f_lt: "0 \<le> f" "f < 10000000" by (simp_all add: f TICKS_PER_SECOND_def)
  have sod_lt: "0 \<le> sod" "sod < 86400" by (simp_all add: sod)
  obtain hh mi ss where hms_eq: "hh = sod div 3600" "mi = sod div 60 mod 60" "ss = sod mod 60" by simp
  note hms = clock_parts [OF sod_lt, folded hms_eq]
  have shape: "format_time t ceil = dec_digits 4 (nat y) @ CHR ''-'' # dec_digits 2 (nat mo) @ CHR ''-'' # dec_digits 2 (nat d) @ CHR ''T'' #
      dec_digits 2 (nat (hh)) @ CHR '':'' # dec_digits 2 (nat (mi)) @ CHR '':'' #
      dec_digits 2 (nat (ss)) @ CHR ''.'' # dec_digits 7 (nat f) @ ''Z''"
    unfolding format_time_def Let_def s [symmetric] f [symmetric] sod [symmetric] day [symmetric] ymd hms_eq [symmetric] by simp
  have "match_timestamp (format_time t ceil) =
      Some \<lparr>st_fields = [y, mo, d, hh, mi, ss], st_fraction = dec_digits 7 (nat f), st_offset = 0\<rparr>"
  proof -
    have small: "nat y < 10 ^ 4" "nat mo < 10 ^ 2" "nat d < 10 ^ 2" "nat (hh) < 10 ^ 2"
      "nat (mi) < 10 ^ 2" "nat (ss) < 10 ^ 2" "nat f < 10 ^ 7"
      by (rule small_nat; use y md f_lt hms in simp)+
    have nums: "int (nat y) = y" "int (nat mo) = mo" "int (nat d) = d" "int (nat (hh)) = hh"
      "int (nat (mi)) = mi" "int (nat (ss)) = ss"
      using y md hms by simp_all
    show ?thesis
      unfolding shape match_timestamp_def
      by (simp only: take_field_dec small take_digits_dec take_fraction_dec bind.simps prod.case nums)
        (simp add: take_offset_def)
  qed
  moreover have "timegm [y, mo, d, hh, mi, ss] = Some s"
  proof -
    have parts: "s = 86400 * (s div 86400) + sod" by (simp add: sod)
    have "to_ordinal y mo 1 + d - 1 = day" using civil [THEN conjunct1] by (simp add: to_ordinal_def)
    then have "((((to_ordinal y mo 1 - EPOCH_ORDINAL + d - 1) * 24 + hh) * 60) + mi) * 60 + ss = s"
      unfolding day by (rule seconds_of_parts [OF _ parts hms(7)])
    then show ?thesis using y md by (simp only: timegm_def list.case) simp
  qed
  moreover have "dec_val (ljust0 9 (dec_digits 7 (nat f))) = nat f * 100"
    using dec_digits_facts [of "nat f" 7] f_lt by (simp add: ljust0_def dec_val_append_zeros nat_less_iff)
  moreover have "?k = 10000000 * s + f"
    using mult_div_mod_eq [of TICKS_PER_SECOND ?k, folded s f] by (simp add: TICKS_PER_SECOND_def)
  ultimately show ?thesis
    using f_lt by (simp add: pi_parse_time_def SECOND_NS_def TICK_NS_def TICKS_PER_SECOND_def algebra_simps)
qed

end
