(* ===== verification/Pi_Facts.thy ===== *)
theory Pi_Facts
  imports Pi_Values
begin

text \<open>
  What paging past PI's silent cut yields: the answers of a server that holds a history, and the proof that
  the pages together are exactly the history's values within the window.
\<close>

section \<open>The server\<close>

text \<open>
  The documented answer of a recorded-values request (boundary type \<^verbatim>\<open>Inside\<close>): the earliest
  \<open>n\<close> values of the history from the start to the end time, both included, without a word when there are more.
\<close>

definition item_ns :: "jobj \<Rightarrow> ns" where
  "item_ns item = (case pi_parse_time (stamp_text item) of Inr t \<Rightarrow> t | Inl _ \<Rightarrow> 0)"

definition between :: "jobj list \<Rightarrow> ns \<Rightarrow> ns \<Rightarrow> jobj list" where
  "between history s e = filter (\<lambda>item. s \<le> item_ns item \<and> item_ns item \<le> e) history"

definition pi_server :: "(string \<Rightarrow> string \<Rightarrow> jobj list) \<Rightarrow> jobj list \<Rightarrow> nat \<Rightarrow> bool" where
  "pi_server ask history n \<longleftrightarrow>
     (\<forall>a b s e. pi_parse_time a = Inr s \<longrightarrow> pi_parse_time b = Inr e \<longrightarrow> ask a b = take n (between history s e))"

text \<open>PI's own timestamps: readable, on whole ticks of 100 ns, in time order.\<close>

definition well_stamped :: "jobj list \<Rightarrow> bool" where
  "well_stamped history \<longleftrightarrow>
     (\<forall>item \<in> set history. (case pi_parse_time (stamp_text item) of Inr t \<Rightarrow> t mod TICK_NS = 0 \<and> in_years t | Inl _ \<Rightarrow> False)) \<and>
     sorted (map item_ns history)"

lemma well_stampedD:
  assumes "well_stamped history" "item \<in> set history"
  shows "pi_parse_time (stamp_text item) = Inr (item_ns item)" "item_ns item mod TICK_NS = 0" "in_years (item_ns item)"
  using assms unfolding well_stamped_def item_ns_def by (fastforce split: sum.splits)+

lemma stamps_of_known: "\<forall>item \<in> set items. pi_parse_time (stamp_text item) = Inr (item_ns item) \<Longrightarrow>
    stamps_of items = Inr (map item_ns items)"
  by (induction items) auto

abbreviation pi_row_of :: "jobj \<Rightarrow> pi_row" where
  "pi_row_of item \<equiv> (item_ns item, pi_convert item)"

definition window_rows :: "ns \<Rightarrow> ns \<Rightarrow> jobj list \<Rightarrow> pi_row list" where
  "window_rows s e items = map pi_row_of (filter (\<lambda>item. s \<le> item_ns item \<and> item_ns item < e) items)"

lemma window_rows_append [simp]: "window_rows s e (xs @ ys) = window_rows s e xs @ window_rows s e ys"
  by (simp add: window_rows_def)

lemma window_rows_late: "\<forall>item \<in> set items. e \<le> item_ns item \<Longrightarrow> window_rows s e items = []"
  by (auto simp: window_rows_def filter_empty_conv)

lemma page_rows_skips: "\<forall>item \<in> set (take k items). item_ns item = here \<Longrightarrow>
    page_rows s e here k (zip (map item_ns items) items) = window_rows s e (drop k items)"
proof (induction items arbitrary: k)
  case (Cons item items)
  show ?case
  proof (cases k)
    case 0
    have "page_rows s e here 0 (zip (map item_ns items) items) = window_rows s e items" using Cons.IH [of 0] by simp
    then show ?thesis by (auto simp: 0 window_rows_def)
  next
    case (Suc j)
    then show ?thesis using Cons.prems Cons.IH [of j] by simp
  qed
qed (simp add: window_rows_def)

section \<open>One page\<close>

lemma sorted_take_last:
  assumes "sorted (map f xs)" "n \<le> length xs" "0 < n"
  shows "\<forall>x \<in> set (take n xs). f x \<le> f (last (take n xs))" "\<forall>x \<in> set (drop n xs). f (last (take n xs)) \<le> f x"
    "\<forall>x \<in> set (take n xs). f (hd (take n xs)) \<le> f x"
proof -
  have split: "take n xs = butlast (take n xs) @ [last (take n xs)]" "take n xs = hd (take n xs) # tl (take n xs)"
    using assms(2,3) by (cases xs; cases n; simp)+
  have sorted_take: "sorted (map f (take n xs))" using assms(1) by (simp add: take_map [symmetric] sorted_wrt_take)
  then have "sorted (map f (butlast (take n xs) @ [last (take n xs)]))" "sorted (map f (hd (take n xs) # tl (take n xs)))"
    using split by simp_all
  then have b: "\<forall>x \<in> set (butlast (take n xs)). f x \<le> f (last (take n xs))" and h: "\<forall>x \<in> set (tl (take n xs)). f (hd (take n xs)) \<le> f x"
    by (auto simp: sorted_append)
  show "\<forall>x \<in> set (take n xs). f x \<le> f (last (take n xs))" using b by (subst split(1)) auto
  show "\<forall>x \<in> set (take n xs). f (hd (take n xs)) \<le> f x" using h by (subst split(2)) auto
  have "sorted (map f (take n xs @ drop n xs))" using assms(1) by simp
  moreover have "last (take n xs) \<in> set (take n xs)" by (subst split(1)) simp
  ultimately show "\<forall>x \<in> set (drop n xs). f (last (take n xs)) \<le> f x"
    unfolding map_append sorted_append by auto
qed

lemma sorted_between: "sorted (map item_ns history) \<Longrightarrow> sorted (map item_ns (between history s e))"
  by (simp add: between_def sorted_filter)

lemma between_later: "s \<le> s' \<Longrightarrow> between history s' e = filter (\<lambda>item. s' \<le> item_ns item) (between history s e)"
  by (auto simp: between_def intro!: filter_cong)

text \<open>What a request from the last timestamp of a full page finds: its values at that time, then the unread rest.\<close>

lemma between_from_last:
  assumes "sorted (map item_ns history)" "n \<le> length (between history s e)" "0 < n"
    "page = take n (between history s e)" "t = item_ns (last page)" "s \<le> t"
  shows "between history t e = filter (\<lambda>item. item_ns item = t) page @ drop n (between history s e)"
proof -
  note facts = sorted_take_last [OF sorted_between [OF assms(1)] assms(2,3), folded assms(4), folded assms(5)]
  have "between history t e = filter (\<lambda>item. t \<le> item_ns item) (page @ drop n (between history s e))"
    using between_later [OF assms(6), of history e] by (simp add: assms(4))
  moreover have "filter (\<lambda>item. t \<le> item_ns item) page = filter (\<lambda>item. item_ns item = t) page"
    using facts(1) by (intro filter_cong) auto
  moreover have "filter (\<lambda>item. t \<le> item_ns item) (drop n (between history s e)) = drop n (between history s e)"
    using facts(2) by (simp add: filter_id_conv)
  ultimately show ?thesis by simp
qed

lemma length_filter_map: "length (filter (\<lambda>t. t = a) (map f xs)) = length (filter (\<lambda>x. f x = a) xs)"
  by (simp add: filter_map comp_def)

lemma length_filter_mono: "\<forall>x \<in> set xs. P x \<longrightarrow> Q x \<Longrightarrow> length (filter P xs) \<le> length (filter Q xs)"
  by (induction xs) auto

lemma length_filter_lt: "\<exists>x \<in> set xs. \<not> P x \<Longrightarrow> length (filter P xs) < length xs"
  by (elim bexE) (rule length_filter_less)

section \<open>The loop\<close>

lemma read_page_known:
  assumes "\<forall>item \<in> set (take n R). pi_parse_time (stamp_text item) = Inr (item_ns item)"
    "page_rows s e (at_ns c) (seen_at c) (zip (map item_ns (take n R)) (take n R)) = rows" "0 < n"
  shows "read_page (take n R) c s e n =
     (if length R < n then Inr (rows, None)
      else if item_ns (hd (take n R)) = item_ns (last (take n R)) then Inl (TimestampError (''more than '' @ nat_str n @ '' values at one timestamp''))
      else if e \<le> item_ns (last (take n R)) then Inr (rows, None)
      else Inr (rows, Some \<lparr>at_ns = item_ns (last (take n R)),
             seen_at = length (filter (\<lambda>item. item_ns item = item_ns (last (take n R))) (take n R))\<rparr>))"
proof (cases "length R < n")
  case True
  then show ?thesis unfolding read_page_def stamps_of_known [OF assms(1)] rbind.simps Let_def assms(2) by simp
next
  case False
  then have "length (take n R) = n" "take n R \<noteq> []" using assms(3) by auto
  then show ?thesis using False
    unfolding read_page_def stamps_of_known [OF assms(1)] rbind.simps Let_def assms(2) length_filter_map
    by (simp only: hd_map last_map if_False less_irrefl simp_thms)
qed

lemma answer_to_cursor:
  assumes "pi_server ask history n" "in_years a" "in_years e"
  shows "ask (format_time a False) (format_time e True) =
    take n (between history (ticks_of a False * TICK_NS) (ticks_of e True * TICK_NS))"
  using assms format_parse [of a False] format_parse [of e True] unfolding pi_server_def by blast

text \<open>What a run of the loop should give: these rows, or a time that holds more values than a page.\<close>

definition pages_cover :: "jobj list \<Rightarrow> nat \<Rightarrow> (pi_row list list \<times> stamp_error option) option \<Rightarrow> pi_row list \<Rightarrow> bool" where
  "pages_cover history n result rows \<longleftrightarrow>
     (\<exists>pages err. result = Some (pages, err) \<and> (err = None \<longrightarrow> concat pages = rows) \<and>
        (err \<noteq> None \<longrightarrow> (\<exists>t. n \<le> length (filter (\<lambda>item. item_ns item = t) history))))"

lemma pages_cover_last: "pages_cover history n (Some ([rows], None)) rows"
  by (simp add: pages_cover_def)

lemma pages_cover_cons: "pages_cover history n result rows \<Longrightarrow>
    pages_cover history n (Option.bind result (\<lambda>(pages, e). Some (page # pages, e))) (page @ rows)"
  by (auto simp: pages_cover_def)

lemma pages_cover_error:
  assumes "n \<le> length (between history a b)" "page = take n (between history a b)" "\<forall>item \<in> set page. item_ns item = t"
  shows "pages_cover history n (Some ([], Some err)) rows"
proof -
  have "filter (\<lambda>item. item_ns item = t) page = page" using assms(3) by (simp add: filter_id_conv)
  then have "n \<le> length (filter (\<lambda>item. item_ns item = t) (between history a b))"
    using assms(1,2) by (metis append_take_drop_id filter_append length_append length_take le_add1 min.absorb2)
  also have "\<dots> \<le> length (filter (\<lambda>item. item_ns item = t) history)"
    unfolding between_def filter_filter by (intro length_filter_mono) simp
  finally show ?thesis by (auto simp: pages_cover_def)
qed

text \<open>The invariant of the loop: the first \<open>seen_at\<close> values of the answer are those already read at its first time.\<close>

definition cursor_ok :: "nat \<Rightarrow> page_cursor \<Rightarrow> jobj list \<Rightarrow> bool" where
  "cursor_ok n c R \<longleftrightarrow> in_years (at_ns c) \<and> seen_at c < n \<and> seen_at c \<le> length R \<and> (\<forall>item \<in> set (take (seen_at c) R). item_ns item = at_ns c)"

definition answer_of :: "jobj list \<Rightarrow> page_cursor \<Rightarrow> ns \<Rightarrow> jobj list" where
  "answer_of history c e = between history (ticks_of (at_ns c) False * TICK_NS) (ticks_of e True * TICK_NS)"

lemma next_cursor:
  assumes stamped: "well_stamped history" and R: "R = answer_of history c e" and n: "0 < n" "n \<le> length R"
    and t: "t = item_ns (last (take n R))" "item_ns (hd (take n R)) \<noteq> t"
    and c': "c' = \<lparr>at_ns = t, seen_at = length (filter (\<lambda>item. item_ns item = t) (take n R))\<rparr>"
  shows "cursor_ok n c' (answer_of history c' e)" "drop (seen_at c') (answer_of history c' e) = drop n R"
proof -
  have ne: "take n R \<noteq> []" using n by auto
  then have last_in: "last (take n R) \<in> set R" by (meson in_set_takeD last_in_set)
  then have tt: "in_years t" "ticks_of t False * TICK_NS = t" "ticks_of (at_ns c) False * TICK_NS \<le> t"
    using well_stampedD(2,3) [OF stamped, of "last (take n R)"] ticks_exact unfolding R t(1) answer_of_def between_def by auto
  have sorted: "sorted (map item_ns history)" using stamped by (simp add: well_stamped_def)
  have found: "answer_of history c' e = filter (\<lambda>item. item_ns item = t) (take n R) @ drop n R"
    using between_from_last [OF sorted n(2) [unfolded R answer_of_def] n(1) refl t(1) [unfolded R answer_of_def] tt(3)]
    by (simp add: answer_of_def R c' tt(2))
  have "length (filter (\<lambda>item. item_ns item = t) (take n R)) < length (take n R)"
    using t(2) hd_in_set [OF ne] by (intro length_filter_lt) blast
  then show "cursor_ok n c' (answer_of history c' e)" "drop (seen_at c') (answer_of history c' e) = drop n R"
    using tt(1) n(2) unfolding cursor_ok_def found by (simp_all add: c')
qed

lemma read_pages_cursor:
  assumes server: "pi_server ask history n" and stamped: "well_stamped history" and n: "0 < n" and years: "in_years e"
    and ok: "cursor_ok n c (answer_of history c e)"
  shows "pages_cover history n (read_pages ask s e n c) (window_rows s e (drop (seen_at c) (answer_of history c e)))"
  using ok
proof (induction "length (answer_of history c e) - seen_at c" arbitrary: c rule: less_induct)
  case less
  define R where "R = answer_of history c e"
  let ?page = "take n R" and ?k = "seen_at c"
  note ok = less.prems [folded R_def, unfolded cursor_ok_def]
  have known: "\<forall>item \<in> set ?page. pi_parse_time (stamp_text item) = Inr (item_ns item)"
    using well_stampedD(1) [OF stamped] by (auto simp: R_def answer_of_def between_def dest!: in_set_takeD)
  have answer: "ask (format_time (at_ns c) False) (format_time e True) = ?page"
    using answer_to_cursor [OF server _ years] ok by (simp add: R_def answer_of_def)
  have rows: "page_rows s e (at_ns c) ?k (zip (map item_ns ?page) ?page) = window_rows s e (drop ?k ?page)"
    using ok by (intro page_rows_skips) (metis in_set_takeD min.commute take_take)
  note page = read_page_known [OF known rows n]
  have split: "drop ?k R = drop ?k ?page @ drop n R" if "n \<le> length R"
    using ok that by (metis append_take_drop_id diff_is_0_eq drop0 drop_append length_take less_imp_le min.absorb2)
  have sorted: "sorted (map item_ns R)" using stamped by (simp add: R_def answer_of_def sorted_between well_stamped_def)
  note facts = sorted_take_last [OF sorted _ n]
  let ?t = "item_ns (last ?page)"
  consider "length R < n" | "n \<le> length R" "item_ns (hd ?page) = ?t" | "n \<le> length R" "item_ns (hd ?page) \<noteq> ?t" "e \<le> ?t"
    | "n \<le> length R" "item_ns (hd ?page) \<noteq> ?t" "\<not> e \<le> ?t" by linarith
  then have "pages_cover history n (read_pages ask s e n c) (window_rows s e (drop ?k R))"
  proof cases
    case 1
    then show ?thesis using pages_cover_last by (subst read_pages.simps, unfold answer page) simp
  next
    case 2
    then have "\<forall>item \<in> set ?page. item_ns item = ?t" using facts(1,3) by (auto intro: antisym)
    then show ?thesis using 2 pages_cover_error [OF _ refl] by (subst read_pages.simps, unfold answer page) (simp add: R_def answer_of_def)
  next
    case 3
    then have "window_rows s e (drop n R) = []" using facts(2) by (intro window_rows_late) (meson order_trans)
    then show ?thesis using 3 pages_cover_last by (subst read_pages.simps, unfold answer page) (simp add: split)
  next
    case 4
    define c' where "c' = \<lparr>at_ns = ?t, seen_at = length (filter (\<lambda>item. item_ns item = ?t) ?page)\<rparr>"
    note step = next_cursor [OF stamped R_def n 4(1) refl 4(2) c'_def]
    have "length (answer_of history c' e) - seen_at c' < length R - ?k"
      using step(2) ok 4(1) by (metis diff_less_mono2 length_drop less_le_trans)
    then have "pages_cover history n (read_pages ask s e n c') (window_rows s e (drop n R))"
      using less.hyps [of c'] step by (simp add: R_def)
    then show ?thesis using 4 pages_cover_cons by (subst read_pages.simps, unfold answer page) (simp add: split flip: c'_def)
  qed
  then show ?case by (simp only: R_def)
qed

text \<open>Fetching one PI point reads every value of the window exactly once and in order, although PI cuts each
  answer silently and may hold several values at one time: the loop over the pages always ends, and without an
  error its rows are the history's values with their times within the window.  It fails only when the history
  really holds a full page of values at one time.
\<close>

theorem pi_pages_exact:
  assumes "pi_server ask history n" "well_stamped history" "0 < n" "in_years s" "in_years e"
  shows "\<exists>pages err. read_pages ask s e n \<lparr>at_ns = s, seen_at = 0\<rparr> = Some (pages, err) \<and>
    (err = None \<longrightarrow>
       concat pages = map (\<lambda>item. (item_ns item, pi_convert item)) (filter (\<lambda>item. s \<le> item_ns item \<and> item_ns item < e) history)) \<and>
    (err \<noteq> None \<longrightarrow> (\<exists>t. n \<le> length (filter (\<lambda>item. item_ns item = t) history)))"
proof -
  let ?c = "\<lparr>at_ns = s, seen_at = 0\<rparr>"
  have "window_rows s e (answer_of history ?c e) = window_rows s e history"
    using ticks_floor(1) [of s] ticks_ceil(1) [of e]
    by (auto simp: window_rows_def answer_of_def between_def intro!: arg_cong [where f = "map pi_row_of"] filter_cong)
  moreover have "cursor_ok n ?c (answer_of history ?c e)" using assms(3,4) by (simp add: cursor_ok_def)
  ultimately show ?thesis using read_pages_cursor [OF assms(1,2,3,5), of ?c s] by (simp add: pages_cover_def window_rows_def)
qed

text \<open>A history with two values at one time, on a server that answers two values at most.\<close>

definition sample_history :: "jobj list" where
  "sample_history = map (\<lambda>(t, v). [(''Timestamp'', JStr t), (''Value'', JInt v)])
     [(''2024-05-01T00:00:00Z'', 1), (''2024-05-01T00:00:01Z'', 2), (''2024-05-01T00:00:01Z'', 3), (''2024-05-01T00:00:02Z'', 4)]"

definition sample_server :: "string \<Rightarrow> string \<Rightarrow> jobj list" where
  "sample_server a b =
     (case (pi_parse_time a, pi_parse_time b) of
        (Inr s, Inr e) \<Rightarrow> take 3 (between sample_history s e)
      | _ \<Rightarrow> [])"

lemma sample_serves: "pi_server sample_server sample_history 3"
  by (simp add: pi_server_def sample_server_def)

lemma sample_stamped: "well_stamped sample_history"
  by code_simp

lemma sample_years: "in_years 1714521600000000000" "in_years 1714521603000000000"
  by (simp_all add: in_years_def SECOND_NS_def)

theorem pi_pages_exact_witness: "\<exists>pages. read_pages sample_server 1714521600000000000 1714521603000000000 3
      \<lparr>at_ns = 1714521600000000000, seen_at = 0\<rparr> = Some pages"
  using pi_pages_exact [OF sample_serves sample_stamped _ sample_years(1) sample_years(2)] by auto

end
