(* ===== verification/Net_Policy.thy ===== *)
theory Net_Policy
  imports Strings "HOL-Library.Word"
begin

text \<open>
  \<^verbatim>\<open>connectors/net.py\<close>: the addresses a connector may connect to, and the pinned HTTP client.  Addresses
  and networks are those of Python's \<^verbatim>\<open>ipaddress\<close>, with its tables; reading and printing their texts,
  the resolver and \<^verbatim>\<open>urlsplit\<close> are parameters.
\<close>

unbundle bit_operations_syntax

section \<open>Addresses and networks\<close>

text \<open>An IPv6 address may carry the scope of a link, which no test below looks at.\<close>

datatype ip = IP4 "32 word" | IP6 "128 word" "string option"

datatype ip_net = Net4 "32 word" nat | Net6 "128 word" nat

fun in_net :: "ip \<Rightarrow> ip_net \<Rightarrow> bool" where
  "in_net (IP4 a) (Net4 n len) = (a AND NOT (mask (32 - len)) = n)"
| "in_net (IP6 a s) (Net6 n len) = (a AND NOT (mask (128 - len)) = n)"
| "in_net _ _ = False"

definition in_any :: "ip \<Rightarrow> ip_net list \<Rightarrow> bool" where
  "in_any a ns \<longleftrightarrow> (\<exists>n \<in> set ns. in_net a n)"

definition quad :: "nat \<Rightarrow> nat \<Rightarrow> nat \<Rightarrow> nat \<Rightarrow> 32 word" where
  "quad a b c d = word_of_nat (((a * 256 + b) * 256 + c) * 256 + d)"

text \<open>An IPv6 address by its first three groups and its last 32 bits, the others zero.\<close>

definition groups6 :: "nat \<Rightarrow> nat \<Rightarrow> nat \<Rightarrow> nat \<Rightarrow> 128 word" where
  "groups6 a b c low = word_of_nat (((a * 65536 + b) * 65536 + c) * 2 ^ 80 + low)"

text \<open>The tables of \<^verbatim>\<open>_IPv4Constants\<close> and \<^verbatim>\<open>_IPv6Constants\<close>.\<close>

definition private4 :: "ip_net list" where
  "private4 = [Net4 (quad 0 0 0 0) 8, Net4 (quad 10 0 0 0) 8, Net4 (quad 127 0 0 0) 8, Net4 (quad 169 254 0 0) 16,
     Net4 (quad 172 16 0 0) 12, Net4 (quad 192 0 0 0) 24, Net4 (quad 192 0 0 170) 31, Net4 (quad 192 0 2 0) 24,
     Net4 (quad 192 168 0 0) 16, Net4 (quad 198 18 0 0) 15, Net4 (quad 198 51 100 0) 24, Net4 (quad 203 0 113 0) 24,
     Net4 (quad 240 0 0 0) 4, Net4 (quad 255 255 255 255) 32]"

definition private4_exceptions :: "ip_net list" where
  "private4_exceptions = [Net4 (quad 192 0 0 9) 32, Net4 (quad 192 0 0 10) 32]"

definition private6 :: "ip_net list" where
  "private6 = [Net6 1 128, Net6 0 128, Net6 (word_of_nat (0xFFFF * 2 ^ 32)) 96, Net6 (groups6 0x64 0xFF9B 1 0) 48,
     Net6 (groups6 0x100 0 0 0) 64, Net6 (groups6 0x2001 0 0 0) 23, Net6 (groups6 0x2001 0xDB8 0 0) 32,
     Net6 (groups6 0x2002 0 0 0) 16, Net6 (groups6 0xFC00 0 0 0) 7, Net6 (groups6 0xFE80 0 0 0) 10]"

definition private6_exceptions :: "ip_net list" where
  "private6_exceptions = [Net6 (groups6 0x2001 1 0 1) 128, Net6 (groups6 0x2001 1 0 2) 128, Net6 (groups6 0x2001 3 0 0) 32,
     Net6 (groups6 0x2001 4 0x112 0) 48, Net6 (groups6 0x2001 0x20 0 0) 28, Net6 (groups6 0x2001 0x30 0 0) 28]"

definition reserved6 :: "ip_net list" where
  "reserved6 = [Net6 0 8, Net6 (groups6 0x100 0 0 0) 8, Net6 (groups6 0x200 0 0 0) 7, Net6 (groups6 0x400 0 0 0) 6,
     Net6 (groups6 0x800 0 0 0) 5, Net6 (groups6 0x1000 0 0 0) 4, Net6 (groups6 0x4000 0 0 0) 3, Net6 (groups6 0x6000 0 0 0) 3,
     Net6 (groups6 0x8000 0 0 0) 3, Net6 (groups6 0xA000 0 0 0) 3, Net6 (groups6 0xC000 0 0 0) 3, Net6 (groups6 0xE000 0 0 0) 4,
     Net6 (groups6 0xF000 0 0 0) 5, Net6 (groups6 0xF800 0 0 0) 6, Net6 (groups6 0xFE00 0 0 0) 9]"

fun is_loopback :: "ip \<Rightarrow> bool" where
  "is_loopback (IP4 a) = in_net (IP4 a) (Net4 (quad 127 0 0 0) 8)"
| "is_loopback (IP6 a s) = (a = 1)"

fun is_link_local :: "ip \<Rightarrow> bool" where
  "is_link_local (IP4 a) = in_net (IP4 a) (Net4 (quad 169 254 0 0) 16)"
| "is_link_local (IP6 a s) = in_net (IP6 a s) (Net6 (groups6 0xFE80 0 0 0) 10)"

fun is_unspecified :: "ip \<Rightarrow> bool" where
  "is_unspecified (IP4 a) = (a = 0)"
| "is_unspecified (IP6 a s) = (a = 0)"

fun is_multicast :: "ip \<Rightarrow> bool" where
  "is_multicast (IP4 a) = in_net (IP4 a) (Net4 (quad 224 0 0 0) 4)"
| "is_multicast (IP6 a s) = in_net (IP6 a s) (Net6 (groups6 0xFF00 0 0 0) 8)"

fun is_reserved :: "ip \<Rightarrow> bool" where
  "is_reserved (IP4 a) = in_net (IP4 a) (Net4 (quad 240 0 0 0) 4)"
| "is_reserved (IP6 a s) = in_any (IP6 a s) reserved6"

fun is_private :: "ip \<Rightarrow> bool" where
  "is_private (IP4 a) = (in_any (IP4 a) private4 \<and> \<not> in_any (IP4 a) private4_exceptions)"
| "is_private (IP6 a s) = (in_any (IP6 a s) private6 \<and> \<not> in_any (IP6 a s) private6_exceptions)"

fun is_global :: "ip \<Rightarrow> bool" where
  "is_global (IP4 a) = (\<not> in_net (IP4 a) (Net4 (quad 100 64 0 0) 10) \<and> \<not> is_private (IP4 a))"
| "is_global (IP6 a s) = (\<not> is_private (IP6 a s))"

section \<open>The policy\<close>

definition NAT64 :: ip_net where "NAT64 = Net6 (groups6 0x64 0xFF9B 0 0) 96"
definition BROADCAST :: ip where "BROADCAST = IP4 (quad 255 255 255 255)"

fun embedded :: "ip \<Rightarrow> ip" where
  "embedded (IP4 a) = IP4 a"
| "embedded (IP6 a s) =
     (if drop_bit 32 a = 0xFFFF then IP4 (ucast a)
      else if in_net (IP6 a s) NAT64 then IP4 (ucast (a AND 0xFFFFFFFF))
      else IP6 a s)"

definition always_refused :: "ip \<Rightarrow> bool" where
  "always_refused a \<longleftrightarrow>
     is_loopback a \<or> is_link_local a \<or> is_unspecified a \<or> is_multicast a \<or> is_reserved a \<or> a = BROADCAST"

text \<open>
  A resolver answers texts, or \<open>None\<close> for its \<^verbatim>\<open>OSError\<close>.  \<open>BadAddress\<close> is the
  \<^verbatim>\<open>ValueError\<close> of a text that is no address, \<open>BadPort\<close> that of a port out of range.
\<close>

record net_policy =
  np_allowed :: "ip_net list"
  np_allow_public :: bool
  np_resolver :: "string \<Rightarrow> nat \<Rightarrow> string list option"
  np_redirect :: "(string \<times> string) list"

datatype net_error = TargetRefused string | BadAddress | BadPort

record ip_texts =
  ip_of :: "string \<Rightarrow> ip option"
  ip_text :: "ip \<Rightarrow> string"

definition allows_ip :: "net_policy \<Rightarrow> ip \<Rightarrow> bool" where
  "allows_ip p address =
     (let a = embedded address in
      if always_refused a then False
      else if in_any a (np_allowed p) then True
      else is_global a \<and> np_allow_public p)"

definition address_of :: "ip_texts \<Rightarrow> string \<Rightarrow> net_error + ip" where
  "address_of X s = (case ip_of X s of None \<Rightarrow> Inl BadAddress | Some a \<Rightarrow> Inr a)"

definition address_allowed :: "ip_texts \<Rightarrow> net_policy \<Rightarrow> string \<Rightarrow> net_error + bool" where
  "address_allowed X p address = rbind (address_of X address) (\<lambda>a. Inr (allows_ip p a))"

text \<open>\<^verbatim>\<open>all\<close> stops at the first refusal.\<close>

fun all_allowed :: "ip_texts \<Rightarrow> net_policy \<Rightarrow> string list \<Rightarrow> net_error + bool" where
  "all_allowed X p [] = Inr True"
| "all_allowed X p (a # as) = rbind (address_allowed X p a) (\<lambda>ok. if ok then all_allowed X p as else Inr False)"

fun addresses :: "ip_texts \<Rightarrow> string list \<Rightarrow> net_error + ip list" where
  "addresses X [] = Inr []"
| "addresses X (s # ss) = rbind (address_of X s) (\<lambda>a. rbind (addresses X ss) (\<lambda>as. Inr (a # as)))"

definition strip_brackets :: "string \<Rightarrow> string" where
  "strip_brackets s = (let br = (\<lambda>c. c = CHR ''['' \<or> c = CHR '']'') in rev (dropWhile br (rev (dropWhile br s))))"

definition answers_of :: "ip_texts \<Rightarrow> net_policy \<Rightarrow> string \<Rightarrow> nat \<Rightarrow> net_error + string list" where
  "answers_of X p host port =
     (case ip_of X (strip_brackets host) of
        Some literal \<Rightarrow> Inr [ip_text X literal]
      | None \<Rightarrow>
          (case np_resolver p host port of
             None \<Rightarrow> Inl (TargetRefused (''target does not resolve: '' @ host))
           | Some answers \<Rightarrow> Inr answers))"

definition resolve :: "ip_texts \<Rightarrow> net_policy \<Rightarrow> string \<Rightarrow> nat \<Rightarrow> net_error + ip list" where
  "resolve X p host port =
     rbind (answers_of X p host port) (\<lambda>answers.
       if answers = [] then Inl (TargetRefused (''target does not resolve: '' @ host))
       else rbind (all_allowed X p answers) (\<lambda>ok.
         if \<not> ok then Inl (TargetRefused (''target not allowed: '' @ host))
         else addresses X (rev (remdups (rev answers)))))"

definition tcp_target :: "ip_texts \<Rightarrow> net_policy \<Rightarrow> string \<Rightarrow> nat \<Rightarrow> net_error + string" where
  "tcp_target X p host port =
     rbind (resolve X p host port) (\<lambda>as.
       let address = ip_text X (hd as)
       in Inr (case map_of (np_redirect p) address of Some other \<Rightarrow> other | None \<Rightarrow> address))"

section \<open>The pinned client\<close>

text \<open>What \<^verbatim>\<open>urlsplit\<close> finds; a port is absent, a number, or an error on reading it (\<open>Some None\<close>).\<close>

record split_url =
  url_scheme :: string
  url_hostname :: "string option"
  url_port :: "nat option option"

record pinned_transport =
  pin_hostname :: string
  pin_address :: string

record http_client =
  hc_base_url :: string
  hc_transport :: pinned_transport
  hc_follow_redirects :: bool

definition port_of :: "split_url \<Rightarrow> net_error + nat" where
  "port_of u =
     (case url_port u of
        Some None \<Rightarrow> Inl BadPort
      | Some (Some n) \<Rightarrow> Inr (if n = 0 then (if url_scheme u = ''https'' then 443 else 80) else n)
      | None \<Rightarrow> Inr (if url_scheme u = ''https'' then 443 else 80))"

definition make_client :: "ip_texts \<Rightarrow> (string \<Rightarrow> split_url) \<Rightarrow> net_policy \<Rightarrow> string \<Rightarrow> net_error + http_client" where
  "make_client X urlsplit p base_url =
     (let u = urlsplit base_url in
      case url_hostname u of
        None \<Rightarrow> Inl (TargetRefused (''not an http(s) URL: '' @ base_url))
      | Some hostname \<Rightarrow>
          if url_scheme u \<notin> {''http'', ''https''} \<or> hostname = []
          then Inl (TargetRefused (''not an http(s) URL: '' @ base_url))
          else rbind (port_of u) (\<lambda>port. rbind (resolve X p hostname port) (\<lambda>as.
            Inr \<lparr>hc_base_url = base_url,
                 hc_transport = \<lparr>pin_hostname = hostname, pin_address = ip_text X (hd as)\<rparr>,
                 hc_follow_redirects = False\<rparr>)))"

text \<open>A request: where it connects, its Host header and the name of its TLS handshake.\<close>

record http_request =
  rq_host :: string
  rq_host_header :: string
  rq_sni :: "string option"

definition handle_request :: "pinned_transport \<Rightarrow> http_request \<Rightarrow> net_error + http_request" where
  "handle_request t r =
     (if rq_host r \<noteq> pin_hostname t
      then Inl (TargetRefused (''client pinned to '' @ pin_hostname t @ '', not '' @ rq_host r))
      else Inr (r\<lparr>rq_host := pin_address t, rq_sni := Some (pin_hostname t)\<rparr>))"

end
