(* ===== verification/Pi_Connector.thy ===== *)
theory Pi_Connector
  imports Pi_Values Metadata_Import Net_Policy
begin

text \<open>
  \<^verbatim>\<open>connectors/pi_web_api/client.py\<close>, \<^verbatim>\<open>config.py\<close> and \<^verbatim>\<open>connector.py\<close>: requests to PI Web API and
  the errors its answers stand for, points resolved to WebIds, search, fetch and describe.  The HTTP server is a
  parameter with a state of its own, and so are the texts of JSON values and of numbers; every request sent is kept in the state, for the
  statements.
\<close>

section \<open>Credentials\<close>

text \<open>A pattern's \<^verbatim>\<open>$\<close> also matches before a final line feed.\<close>

definition at_end :: "string \<Rightarrow> bool" where
  "at_end rest \<longleftrightarrow> rest = [] \<or> rest = [CHR 0x0A]"

definition letter_or_digit :: "char \<Rightarrow> bool" where
  "letter_or_digit c \<longleftrightarrow> CHR ''A'' \<le> c \<and> c \<le> CHR ''Z'' \<or> CHR ''a'' \<le> c \<and> c \<le> CHR ''z'' \<or> CHR ''0'' \<le> c \<and> c \<le> CHR ''9''"

definition token_char :: "char \<Rightarrow> bool" where
  "token_char c \<longleftrightarrow> letter_or_digit c \<or> c \<in> set ''-._~+/''"

definition is_bearer :: "string \<Rightarrow> bool" where
  "is_bearer s \<longleftrightarrow> takeWhile token_char s \<noteq> [] \<and> at_end (dropWhile (\<lambda>c. c = CHR ''='') (dropWhile token_char s))"

text \<open>So a token with a final line feed passes.\<close>

lemma bearer_accepts_line_feed: "is_bearer [CHR ''a'', CHR 0x0A]"
  by (simp add: is_bearer_def at_end_def token_char_def letter_or_digit_def less_eq_char_def)

record pi_credentials =
  pc_basic :: bool
  pc_username :: "string option"
  pc_password :: "string option"
  pc_token :: "string option"

definition text_within :: "nat \<Rightarrow> string option \<Rightarrow> bool" where
  "text_within n t = (case t of None \<Rightarrow> True | Some s \<Rightarrow> 1 \<le> length s \<and> length s \<le> n)"

definition pi_credentials_valid :: "pi_credentials \<Rightarrow> bool" where
  "pi_credentials_valid c \<longleftrightarrow>
     text_within 256 (pc_username c) \<and> text_within 1024 (pc_password c) \<and> text_within 16384 (pc_token c) \<and>
     (if pc_basic c
      then (case pc_username c of None \<Rightarrow> False | Some u \<Rightarrow> pc_password c \<noteq> None \<and> pc_token c = None \<and> CHR '':'' \<notin> set u)
      else (case pc_token c of None \<Rightarrow> False | Some t \<Rightarrow> pc_username c = None \<and> pc_password c = None \<and> is_bearer t))"

section \<open>Config\<close>

text \<open>A server name or path part: characters other than backslash, bar and, where said, slash.\<close>

definition part_of :: "string \<Rightarrow> string \<Rightarrow> string" where
  "part_of stop s = takeWhile (\<lambda>c. c \<notin> set stop) s"

definition is_data_server :: "string \<Rightarrow> bool" where
  "is_data_server s \<longleftrightarrow>
     (let rest = drop 2 s; name = part_of [CHR 0x5C, CHR ''/'', CHR ''|''] rest; after = drop (length name) rest in
      take 2 s = [CHR 0x5C, CHR 0x5C] \<and>
      after = [] \<and> (1 \<le> length name \<and> length name \<le> 253 \<or> length name = 254 \<and> last name = CHR 0x0A))"

definition is_asset_database :: "string \<Rightarrow> bool" where
  "is_asset_database s \<longleftrightarrow>
     (let rest = drop 2 s; name = part_of [CHR 0x5C, CHR ''/'', CHR ''|''] rest; after = drop (length name) rest;
          db = part_of [CHR 0x5C, CHR ''|''] (drop 1 after) in
      take 2 s = [CHR 0x5C, CHR 0x5C] \<and> 1 \<le> length name \<and> length name \<le> 253 \<and>
      after \<noteq> [] \<and> hd after = CHR 0x5C \<and> drop (length db) (drop 1 after) = [] \<and>
      (1 \<le> length db \<and> length db \<le> 400 \<or> length db = 401 \<and> last db = CHR 0x0A))"

record url_parts =
  up_scheme :: string
  up_hostname :: "string option"
  up_query :: string
  up_fragment :: string
  up_netloc :: string

record pi_config = connector_config +
  pi_base_url :: string
  pi_data_server :: string
  pi_asset_database :: "string option"
  pi_ca_pem :: "string option"
  pi_max_count :: int

text \<open>A valid config, with its base URL as stored; reading a URL and PEM certificates are parameters.\<close>

definition validate_pi_config :: "(string \<Rightarrow> url_parts) \<Rightarrow> (string \<Rightarrow> bool) \<Rightarrow> pi_config \<Rightarrow> pi_config option" where
  "validate_pi_config urlsplit is_pem c =
     (let u = urlsplit (strip (pi_base_url c)) in
      if config_valid (connector_config.truncate c) \<and> length (pi_base_url c) \<le> 500 \<and>
         up_scheme u = ''https'' \<and> up_hostname u \<notin> {None, Some []} \<and>
         up_query u = [] \<and> up_fragment u = [] \<and> CHR ''@'' \<notin> set (up_netloc u) \<and>
         length (pi_data_server c) \<le> 256 \<and> is_data_server (pi_data_server c) \<and>
         (case pi_asset_database c of None \<Rightarrow> True | Some d \<Rightarrow> length d \<le> 656 \<and> is_asset_database d) \<and>
         (case pi_ca_pem c of None \<Rightarrow> True | Some p \<Rightarrow> length p \<le> 64 * 1024 \<and> is_pem p) \<and>
         1000 \<le> pi_max_count c \<and> pi_max_count c \<le> 150000
      then Some (c\<lparr>pi_base_url := rstrip_char (CHR ''/'') (strip (pi_base_url c))\<rparr>) else None)"

section \<open>The client\<close>

datatype pi_error = PiNotFound string | PiError string bool | PiCrash

type_synonym pi_params = "(string \<times> string) list"

record pi_request =
  pr_post :: bool
  pr_path :: string
  pr_params :: pi_params
  pr_body :: "json option"

text \<open>How the exchange of a request goes: the exception's name where it fails, a body of \<open>None\<close> that is not JSON.\<close>

datatype http_answer = TimedOut | NotTrusted | Unreachable string | Response int "json option"

record 's pi_state =
  ps_web_ids :: "(string \<times> string) list"
  ps_sent :: "pi_request list"
  ps_server :: 's

record 's pi_env =
  pe_http :: "pi_request \<Rightarrow> 's \<Rightarrow> http_answer \<times> 's"
  pe_str :: "json \<Rightarrow> string"
  pe_float :: "string \<Rightarrow> raw_float option"
  pe_urlencode :: "pi_params \<Rightarrow> string"

type_synonym ('s, 'a) pi = "'s pi_state \<Rightarrow> (pi_error + 'a) \<times> 's pi_state"

definition pi_return :: "'a \<Rightarrow> ('s, 'a) pi" where "pi_return x s = (Inr x, s)"
definition pi_fail :: "pi_error \<Rightarrow> ('s, 'a) pi" where "pi_fail e s = (Inl e, s)"

definition pi_bind :: "('s, 'a) pi \<Rightarrow> ('a \<Rightarrow> ('s, 'b) pi) \<Rightarrow> ('s, 'b) pi" where
  "pi_bind m f s = (case m s of (Inl e, s') \<Rightarrow> (Inl e, s') | (Inr x, s') \<Rightarrow> f x s')"

definition lift_result :: "pi_error + 'a \<Rightarrow> ('s, 'a) pi" where "lift_result r s = (r, s)"

definition RETRYABLE :: "int list" where "RETRYABLE = [429, 500, 502, 503, 504]"
definition MAX_MESSAGE :: nat where "MAX_MESSAGE = 200"

lemma map_of_size: "map_of kvs k = Some v \<Longrightarrow> size v < size (JObj kvs)"
  by (induction kvs) (auto split: if_splits)

function pi_first_error :: "(json \<Rightarrow> string) \<Rightarrow> json \<Rightarrow> string option" where
  "pi_first_error str body =
     (case body of
        JObj kvs \<Rightarrow>
          (case map_of kvs ''Errors'' of
             Some (JArr (e # es)) \<Rightarrow> Some (take MAX_MESSAGE (join_with '' '' (words_of (str e))))
           | _ \<Rightarrow>
               (case map_of kvs ''WebException'' of
                  Some (JObj web) \<Rightarrow> pi_first_error str (JObj web)
                | _ \<Rightarrow> None))
      | _ \<Rightarrow> None)"
  by pat_completeness auto

termination
  by (relation "measure (\<lambda>(str, body). size body)") (auto dest: map_of_size)

declare pi_first_error.simps [simp del]

definition raise_for :: "(json \<Rightarrow> string) \<Rightarrow> int \<Rightarrow> json option \<Rightarrow> string \<Rightarrow> pi_error + unit" where
  "raise_for str status body what =
     (if 200 \<le> status \<and> status < 300 then Inr ()
      else
        (let suffix = (case Option.bind body (pi_first_error str) of None \<Rightarrow> [] | Some d \<Rightarrow> '': '' @ d) in
         if status \<in> {401, 403} then Inl (PiError ''PI Web API refused the credentials'' False)
         else if status \<in> {404, 410} then Inl (PiNotFound (what @ '' not found'' @ suffix))
         else Inl (PiError (''PI Web API answered '' @ int_str status @ '' for '' @ what @ suffix) (status \<in> set RETRYABLE))))"

fun status_int :: "json \<Rightarrow> int option" where
  "status_int (JInt i) = Some i"
| "status_int (JBool b) = Some (if b then 1 else 0)"
| "status_int _ = None"

definition web_status :: "json \<Rightarrow> (int \<times> json) option" where
  "web_status body =
     (case body of
        JObj kvs \<Rightarrow>
          (case map_of kvs ''WebException'' of
             Some (JObj web) \<Rightarrow> map_option (\<lambda>i. (i, JObj web)) (Option.bind (map_of web ''StatusCode'') status_int)
           | _ \<Rightarrow> None)
      | _ \<Rightarrow> None)"

text \<open>
  A client over a pinned connection: the headers of every request, the Basic credentials, and the certificates trusted
  besides the system's.
\<close>

record pi_client =
  pk_http :: http_client
  pk_headers :: pi_params
  pk_basic :: "(string \<times> string) option"
  pk_ca_pem :: "string option"

datatype open_error = NoCredentials string | OpenRefused net_error | OpenCrash

definition open_client :: "ip_texts \<Rightarrow> (string \<Rightarrow> split_url) \<Rightarrow> net_policy \<Rightarrow> pi_config \<Rightarrow> pi_credentials option \<Rightarrow> open_error + pi_client" where
  "open_client X urlsplit net cfg creds =
     (let headers = [(''Accept'', ''application/json''), (''X-Requested-With'', ''tabayyun'')];
          opened = (\<lambda>headers basic.
            (case make_client X urlsplit net (pi_base_url cfg) of
               Inl e \<Rightarrow> Inl (OpenRefused e)
             | Inr http \<Rightarrow> Inr \<lparr>pk_http = http, pk_headers = headers, pk_basic = basic, pk_ca_pem = pi_ca_pem cfg\<rparr>)) in
      case creds of
        None \<Rightarrow> Inl (NoCredentials ''no credentials set for this source'')
      | Some c \<Rightarrow>
          if pc_basic c
          then (case (pc_username c, pc_password c) of
              (Some u, Some p) \<Rightarrow> opened headers (Some (u, p))
            | _ \<Rightarrow> Inl OpenCrash)
          else opened (headers @ [(''Authorization'', ''Bearer '' @ (case pc_token c of Some t \<Rightarrow> t | None \<Rightarrow> ''None''))]) None)"

definition send :: "'s pi_env \<Rightarrow> pi_request \<Rightarrow> string \<Rightarrow> ('s, json) pi" where
  "send E req what s =
     (let (a, server') = pe_http E req (ps_server s);
          s' = s\<lparr>ps_sent := ps_sent s @ [req], ps_server := server'\<rparr>
      in (case a of
            TimedOut \<Rightarrow> Inl (PiError (''PI Web API timed out on '' @ what) True)
          | NotTrusted \<Rightarrow> Inl (PiError ''PI Web API's TLS certificate is not trusted; set ca_pem to its certificate authority'' False)
          | Unreachable name \<Rightarrow> Inl (PiError (''cannot reach PI Web API ('' @ name @ '')'') True)
          | Response status None \<Rightarrow>
              rbind (raise_for (pe_str E) status None what) (\<lambda>_.
                Inl (PiError (''PI Web API answered something other than JSON for '' @ what) False))
          | Response status (Some body) \<Rightarrow>
              rbind (raise_for (pe_str E) status (Some body) what) (\<lambda>_.
              rbind (case web_status body of None \<Rightarrow> Inr () | Some (code, web) \<Rightarrow> raise_for (pe_str E) code (Some web) what) (\<lambda>_.
                Inr body)), s'))"

definition pi_get :: "'s pi_env \<Rightarrow> string \<Rightarrow> pi_params \<Rightarrow> string \<Rightarrow> ('s, json) pi" where
  "pi_get E path params what = send E \<lparr>pr_post = False, pr_path = path, pr_params = params, pr_body = None\<rparr> what"

definition pi_post :: "'s pi_env \<Rightarrow> string \<Rightarrow> json \<Rightarrow> string \<Rightarrow> ('s, json) pi" where
  "pi_post E path body what = send E \<lparr>pr_post = True, pr_path = path, pr_params = [], pr_body = Some body\<rparr> what"

definition pi_url :: "'s pi_env \<Rightarrow> pi_config \<Rightarrow> string \<Rightarrow> pi_params \<Rightarrow> string" where
  "pi_url E cfg path params = pi_base_url cfg @ ''/'' @ path @ (if params = [] then [] else ''?'' @ pe_urlencode E params)"

section \<open>Answers\<close>

definition web_id_char :: "char \<Rightarrow> bool" where
  "web_id_char c \<longleftrightarrow> letter_or_digit c \<or> c = CHR ''_'' \<or> c = CHR ''-''"

definition is_web_id :: "string \<Rightarrow> bool" where
  "is_web_id s \<longleftrightarrow>
     (let w = takeWhile web_id_char s in 1 \<le> length w \<and> length w \<le> 512 \<and> at_end (dropWhile web_id_char s))"

definition checked_web_id :: "json \<Rightarrow> pi_error + string" where
  "checked_web_id v =
     (case v of
        JStr s \<Rightarrow> if is_web_id s then Inr s else Inl (PiError ''PI Web API answered a malformed WebId'' False)
      | _ \<Rightarrow> Inl (PiError ''PI Web API answered a malformed WebId'' False))"

definition is_attribute :: "string \<Rightarrow> bool" where "is_attribute path \<longleftrightarrow> CHR ''|'' \<in> set path"

text \<open>A number that PI gives as a number or as text.\<close>

definition pi_limit :: "'s pi_env \<Rightarrow> json option \<Rightarrow> raw_float option" where
  "pi_limit E v =
     (case v of
        Some (JInt i) \<Rightarrow> Some (Finite (of_int i))
      | Some (JNum r) \<Rightarrow> Some (Finite r)
      | Some (JStr s) \<Rightarrow> pe_float E s
      | _ \<Rightarrow> None)"

definition pi_text :: "'s pi_env \<Rightarrow> json option \<Rightarrow> string option" where
  "pi_text E v =
     (case v of
        None \<Rightarrow> None | Some JNull \<Rightarrow> None
      | Some j \<Rightarrow> (let t = strip (pe_str E j) in if t = [] then None else Some t))"

fun objects_of :: "json list \<Rightarrow> jobj list" where
  "objects_of [] = []"
| "objects_of (JObj kvs # js) = kvs # objects_of js"
| "objects_of (j # js) = objects_of js"

definition items_of :: "json \<Rightarrow> jobj list" where
  "items_of body =
     (case body of
        JObj kvs \<Rightarrow> (case map_of kvs ''Items'' of Some (JArr js) \<Rightarrow> objects_of js | _ \<Rightarrow> [])
      | _ \<Rightarrow> [])"

definition wildcard :: "string \<Rightarrow> string" where
  "wildcard query = (let q = strip query in if CHR ''*'' \<in> set q \<or> CHR ''?'' \<in> set q then q else ''*'' @ q @ ''*'')"

section \<open>Check and search\<close>

text \<open>An object with a WebId, which an answer about the data server or the database must be.\<close>

definition with_web_id :: "json \<Rightarrow> string \<Rightarrow> pi_error + jobj" where
  "with_web_id body why =
     (case body of
        JObj kvs \<Rightarrow> if flag kvs ''WebId'' then Inr kvs else Inl (PiError why False)
      | _ \<Rightarrow> Inl (PiError why False))"

definition not_found_as :: "string \<Rightarrow> ('s, 'a) pi \<Rightarrow> ('s, 'a) pi" where
  "not_found_as why m s = (case m s of (Inl (PiNotFound msg), s') \<Rightarrow> (Inl (PiError why False), s') | r \<Rightarrow> r)"

definition data_server :: "'s pi_env \<Rightarrow> pi_config \<Rightarrow> ('s, jobj) pi" where
  "data_server E cfg =
     pi_bind (not_found_as (''data server not found: '' @ pi_data_server cfg)
        (pi_get E ''dataservers'' [(''path'', pi_data_server cfg), (''selectedFields'', ''WebId;Name;IsConnected'')] ''data server''))
       (\<lambda>body. lift_result (with_web_id body ''data server answer without a WebId''))"

definition asset_database :: "'s pi_env \<Rightarrow> string \<Rightarrow> ('s, jobj) pi" where
  "asset_database E db =
     pi_bind (not_found_as (''asset database not found: '' @ db)
        (pi_get E ''assetdatabases'' [(''path'', db), (''selectedFields'', ''WebId;Name'')] ''asset database''))
       (\<lambda>body. lift_result (with_web_id body ''asset database answer without a WebId''))"

definition pi_check :: "'s pi_env \<Rightarrow> pi_config \<Rightarrow> ('s, unit) pi" where
  "pi_check E cfg =
     pi_bind (data_server E cfg) (\<lambda>server.
       if map_of server ''IsConnected'' = Some (JBool False) then pi_fail (PiError ''data server not connected'' True)
       else (case pi_asset_database cfg of
           None \<Rightarrow> pi_return ()
         | Some db \<Rightarrow> pi_bind (asset_database E db) (\<lambda>_. pi_return ())))"

text \<open>The point an item of a search names; \<open>unit_key\<close> and \<open>text_key\<close> are where its kind keeps them.\<close>

definition remote_of :: "'s pi_env \<Rightarrow> string \<Rightarrow> string \<Rightarrow> jobj \<Rightarrow> remote_point" where
  "remote_of E unit_key text_key item =
     (let path = (case map_of item ''Path'' of Some j \<Rightarrow> pe_str E j | None \<Rightarrow> []) in
      \<lparr>rp_external_id = path,
       rp_name = (if flag item ''Name'' then (case map_of item ''Name'' of Some j \<Rightarrow> pe_str E j | None \<Rightarrow> []) else path),
       rp_unit = pi_text E (map_of item unit_key), rp_description = pi_text E (map_of item text_key)\<rparr>)"

definition points_found :: "'s pi_env \<Rightarrow> json \<Rightarrow> remote_point list" where
  "points_found E body = map (remote_of E ''EngineeringUnits'' ''Descriptor'') (filter (\<lambda>item. flag item ''Path'') (items_of body))"

definition attributes_found :: "'s pi_env \<Rightarrow> json \<Rightarrow> remote_point list" where
  "attributes_found E body = map (remote_of E ''DefaultUnitsNameAbbreviation'' ''Description'')
     (filter (\<lambda>item. map_of item ''DataReferencePlugIn'' = Some (JStr ''PI Point'') \<and> flag item ''Path'') (items_of body))"

definition web_id_of :: "jobj \<Rightarrow> pi_error + string" where
  "web_id_of obj = (case map_of obj ''WebId'' of Some v \<Rightarrow> checked_web_id v | None \<Rightarrow> Inl PiCrash)"

definition pi_search :: "'s pi_env \<Rightarrow> pi_config \<Rightarrow> string \<Rightarrow> nat \<Rightarrow> ('s, remote_point list) pi" where
  "pi_search E cfg query limit =
     pi_bind (data_server E cfg) (\<lambda>server.
     pi_bind (lift_result (web_id_of server)) (\<lambda>wid.
     pi_bind (pi_get E (''dataservers/'' @ wid @ ''/points'')
        [(''nameFilter'', wildcard query), (''maxCount'', nat_str limit), (''selectedFields'', ''Items.Name;Items.Path;Items.Descriptor;Items.EngineeringUnits'')]
        ''point search'') (\<lambda>body.
       let found = points_found E body in
       case pi_asset_database cfg of
         None \<Rightarrow> pi_return (take limit found)
       | Some db \<Rightarrow>
           if limit \<le> length found then pi_return (take limit found)
           else
             pi_bind (asset_database E db) (\<lambda>database.
             pi_bind (lift_result (web_id_of database)) (\<lambda>wid.
             pi_bind (pi_get E (''assetdatabases/'' @ wid @ ''/elementattributes'')
               [(''attributeNameFilter'', wildcard query), (''searchFullHierarchy'', ''true''), (''maxCount'', nat_str limit),
                (''selectedFields'', ''Items.Name;Items.Path;Items.Description;Items.DefaultUnitsNameAbbreviation;Items.DataReferencePlugIn'')]
               ''attribute search'') (\<lambda>body.
               pi_return (take limit (found @ attributes_found E body))))))))"

section \<open>Paths to WebIds\<close>

fun distinct_paths :: "string list \<Rightarrow> string list" where
  "distinct_paths ps = rev (remdups (rev ps))"

definition batch_entry :: "'s pi_env \<Rightarrow> pi_config \<Rightarrow> string \<Rightarrow> json" where
  "batch_entry E cfg path = JObj [(''Method'', JStr ''GET''),
     (''Resource'', JStr (pi_url E cfg (if is_attribute path then ''attributes'' else ''points'') [(''path'', path), (''selectedFields'', ''WebId'')]))]"

fun json_equals :: "json \<Rightarrow> int \<Rightarrow> bool" where
  "json_equals (JInt i) n = (i = n)"
| "json_equals (JNum r) n = (r = of_int n)"
| "json_equals _ n = False"

definition remember :: "string \<Rightarrow> string \<Rightarrow> 's pi_state \<Rightarrow> 's pi_state" where
  "remember path wid s = s\<lparr>ps_web_ids := (path, wid) # filter (\<lambda>(p, w). p \<noteq> path) (ps_web_ids s)\<rparr>"

text \<open>What one answer of the batch says of a path: a WebId, or that PI does not have it.\<close>

definition path_answer :: "'s pi_env \<Rightarrow> string \<Rightarrow> json option \<Rightarrow> pi_error + (string + string)" where
  "path_answer E path answer =
     (case answer of
        Some (JObj kvs) \<Rightarrow>
          (let status = (case map_of kvs ''Status'' of Some v \<Rightarrow> v | None \<Rightarrow> (case map_of kvs ''StatusCode'' of Some v \<Rightarrow> v | None \<Rightarrow> JNull));
               content = map_of kvs ''Content'';
               ok = json_equals status 200;
               has_id = (case content of Some (JObj c) \<Rightarrow> flag c ''WebId'' | _ \<Rightarrow> False)
           in if json_equals status 404 \<or> json_equals status 410 \<or> ok \<and> \<not> has_id then Inr (Inl (''not found in PI: '' @ path))
              else
                rbind (if ok then Inr ()
                       else raise_for (pe_str E) (case status_int status of Some i \<Rightarrow> i | None \<Rightarrow> 502) content (''path lookup of '' @ path)) (\<lambda>_.
                (case content of
                   Some (JObj c) \<Rightarrow> rbind (web_id_of c) (\<lambda>wid. Inr (Inr wid))
                 | _ \<Rightarrow> Inl PiCrash)))
      | _ \<Rightarrow> Inl (PiError ''PI Web API batch answer misses a request'' False))"

fun take_answers :: "'s pi_env \<Rightarrow> jobj \<Rightarrow> nat \<Rightarrow> string list \<Rightarrow> (string \<times> (string + string)) list \<Rightarrow> ('s, (string \<times> (string + string)) list) pi" where
  "take_answers E body n [] out = pi_return out"
| "take_answers E body n (path # paths) out =
     pi_bind (lift_result (path_answer E path (map_of body (nat_str n)))) (\<lambda>r s.
       take_answers E body (Suc n) paths (out @ [(path, r)])
         (case r of Inr wid \<Rightarrow> remember path wid s | Inl msg \<Rightarrow> s))"

definition resolve_paths :: "'s pi_env \<Rightarrow> pi_config \<Rightarrow> string list \<Rightarrow> ('s, (string \<times> (string + string)) list) pi" where
  "resolve_paths E cfg paths s =
     (let missing = filter (\<lambda>p. map_of (ps_web_ids s) p = None) (distinct_paths paths);
          known = concat (map (\<lambda>p. case map_of (ps_web_ids s) p of Some w \<Rightarrow> [(p, Inr w)] | None \<Rightarrow> []) paths)
      in if missing = [] then (Inr known, s)
         else
           pi_bind (pi_post E ''batch'' (JObj (map (\<lambda>(n, p). (nat_str n, batch_entry E cfg p)) (zip [0..<length missing] missing))) ''path lookup'')
             (\<lambda>body. case body of
                JObj answers \<Rightarrow> take_answers E answers 0 missing known
              | _ \<Rightarrow> pi_fail (PiError ''PI Web API batch answer is not an object'' False)) s)"

section \<open>Fetch\<close>

definition recorded_params :: "pi_config \<Rightarrow> ns \<Rightarrow> ns \<Rightarrow> pi_params" where
  "recorded_params cfg from end_ns = [(''startTime'', format_time from False), (''endTime'', format_time end_ns True), (''boundaryType'', ''Inside''),
     (''maxCount'', int_str (pi_max_count cfg)),
     (''selectedFields'', ''Items.Timestamp;Items.Value;Items.Good;Items.Questionable;Items.Substituted;Items.Errors'')]"

definition rows_item :: "uuid \<Rightarrow> pi_row list \<Rightarrow> fetch_item list" where
  "rows_item i rows = (if rows = [] then [] else [ItemRows i (Batch (map (\<lambda>(t, v, q). (t, v, Some q)) rows))])"

text \<open>One point, page by page: the items and, at an error that ends the call, that error.\<close>

partial_function (option) pi_read :: "'s pi_env \<Rightarrow> pi_config \<Rightarrow> point_ref \<Rightarrow> string \<Rightarrow> ns \<Rightarrow> ns \<Rightarrow> page_cursor \<Rightarrow> 's pi_state
    \<Rightarrow> ((fetch_item list \<times> stream_end option) \<times> 's pi_state) option" where
  "pi_read E cfg ref wid start_ns end_ns c s =
     (case pi_get E (''streams/'' @ wid @ ''/recorded'') (recorded_params cfg (at_ns c) end_ns) (pt_external_id ref) s of
        (Inl (PiNotFound msg), s') \<Rightarrow>
          Some (([ItemFailure (pt_series_id ref) msg], None), s'\<lparr>ps_web_ids := filter (\<lambda>(p, w). p \<noteq> pt_external_id ref) (ps_web_ids s')\<rparr>)
      | (Inl (PiError msg retry), s') \<Rightarrow> Some (([], Some (StreamConnErr msg retry)), s')
      | (Inl PiCrash, s') \<Rightarrow> Some (([], Some StreamCrash), s')
      | (Inr body, s') \<Rightarrow>
          (case read_page (items_of body) c start_ns end_ns (nat (pi_max_count cfg)) of
             Inl (TimestampError msg) \<Rightarrow> Some (([], Some (StreamConnErr (pt_external_id ref @ '': '' @ msg) False)), s')
           | Inl BadCalendar \<Rightarrow> Some (([], Some StreamCrash), s')
           | Inr (rows, None) \<Rightarrow> Some ((rows_item (pt_series_id ref) rows, None), s')
           | Inr (rows, Some c') \<Rightarrow>
               Option.bind (pi_read E cfg ref wid start_ns end_ns c' s') (\<lambda>((items, stop), s'').
                 Some ((rows_item (pt_series_id ref) rows @ items, stop), s''))))"

fun read_points :: "'s pi_env \<Rightarrow> pi_config \<Rightarrow> (string \<times> (string + string)) list \<Rightarrow> ns \<Rightarrow> ns \<Rightarrow> point_ref list \<Rightarrow> 's pi_state
    \<Rightarrow> ((fetch_item list \<times> stream_end) \<times> 's pi_state) option" where
  "read_points E cfg found start_ns end_ns [] s = Some (([], StreamDone), s)"
| "read_points E cfg found start_ns end_ns (ref # refs) s =
     (case map_of (rev found) (pt_external_id ref) of
        None \<Rightarrow> Some (([], StreamCrash), s)
      | Some (Inl msg) \<Rightarrow>
          Option.bind (read_points E cfg found start_ns end_ns refs s) (\<lambda>((items, e), s'). Some ((ItemFailure (pt_series_id ref) msg # items, e), s'))
      | Some (Inr wid) \<Rightarrow>
          Option.bind (pi_read E cfg ref wid start_ns end_ns \<lparr>at_ns = start_ns, seen_at = 0\<rparr> s) (\<lambda>((items, stop), s').
            case stop of
              Some e \<Rightarrow> Some ((items, e), s')
            | None \<Rightarrow> Option.bind (read_points E cfg found start_ns end_ns refs s') (\<lambda>((items', e), s''). Some ((items @ items', e), s''))))"

definition is_pi_path :: "string \<Rightarrow> bool" where "is_pi_path p \<longleftrightarrow> take 2 p = [CHR 0x5C, CHR 0x5C]"

definition pi_fetch :: "'s pi_env \<Rightarrow> pi_config \<Rightarrow> point_ref list \<Rightarrow> ns \<Rightarrow> ns \<Rightarrow> 's pi_state
    \<Rightarrow> ((fetch_item list \<times> stream_end) \<times> 's pi_state) option" where
  "pi_fetch E cfg points start_ns end_ns s =
     (let valid = filter (\<lambda>p. is_pi_path (pt_external_id p)) points;
          failures = map (\<lambda>p. ItemFailure (pt_series_id p) (''not a PI path: '' @ take 100 (pt_external_id p)))
            (filter (\<lambda>p. \<not> is_pi_path (pt_external_id p)) points)
      in if valid = [] then Some ((failures, StreamDone), s)
         else (case resolve_paths E cfg (map pt_external_id valid) s of
             (Inl PiCrash, s') \<Rightarrow> Some ((failures, StreamCrash), s')
           | (Inl (PiError msg retry), s') \<Rightarrow> Some ((failures, StreamConnErr msg retry), s')
           | (Inl (PiNotFound msg), s') \<Rightarrow> Some ((failures, StreamConnErr msg False), s')
           | (Inr found, s') \<Rightarrow>
               Option.bind (read_points E cfg found start_ns end_ns valid s') (\<lambda>((items, e), s''). Some ((failures @ items, e), s''))))"

section \<open>Describe\<close>

definition COMPRESSION :: "string list" where
  "COMPRESSION = [''excdev'', ''excdevpercent'', ''excmin'', ''excmax'', ''compdev'', ''compdevpercent'', ''compmin'', ''compmax'', ''compressing'']"

definition OTHER_LIMITS :: "string list" where "OTHER_LIMITS = [''lolo'', ''hihi'', ''target'']"

definition name_text :: "'s pi_env \<Rightarrow> jobj \<Rightarrow> string \<Rightarrow> string" where
  "name_text E item key = (case map_of item key of Some j \<Rightarrow> pe_str E j | None \<Rightarrow> [])"

definition json_or_null :: "json option \<Rightarrow> json" where
  "json_or_null v = (case v of Some j \<Rightarrow> j | None \<Rightarrow> JNull)"

definition point_attributes :: "'s pi_env \<Rightarrow> string \<Rightarrow> ('s, jobj) pi" where
  "point_attributes E wid =
     pi_bind (pi_get E (''points/'' @ wid @ ''/attributes'') [(''selectedFields'', ''Items.Name;Items.Value'')] ''point attributes'') (\<lambda>body.
       let vals = map (\<lambda>item. (lower (name_text E item ''Name''), json_or_null (map_of item ''Value''))) (items_of body)
       in pi_return (concat (map (\<lambda>k. case map_of (rev vals) k of Some v \<Rightarrow> [(k, v)] | None \<Rightarrow> []) COMPRESSION)))"

text \<open>
  A number kept in the extra metadata.  One that is not finite, which JSON cannot hold, is null here, and a span that
  is not finite gives no range.
\<close>

definition limit_json :: "raw_float option \<Rightarrow> json" where
  "limit_json v = (case v of Some (Finite r) \<Rightarrow> JNum r | _ \<Rightarrow> JNull)"

definition no_metadata :: point_metadata where
  "no_metadata = \<lparr>pm_unit = None, pm_description = None, pm_physical_min = None, pm_physical_max = None,
     pm_operational_min = None, pm_operational_max = None, pm_asset_path = None, pm_extra = []\<rparr>"

definition add_floats :: "raw_float \<Rightarrow> raw_float \<Rightarrow> raw_float" where
  "add_floats a b = (case (a, b) of (Finite x, Finite y) \<Rightarrow> Finite (x + y) | _ \<Rightarrow> NotFinite)"

definition point_range :: "raw_float option \<Rightarrow> raw_float option \<Rightarrow> raw_float option \<times> raw_float option" where
  "point_range zero span_of =
     (case (zero, span_of) of
        (Some z, Some (Finite w)) \<Rightarrow> if 0 < w then (Some z, Some (add_floats z (Finite w))) else (None, None)
      | _ \<Rightarrow> (None, None))"

definition found_object :: "json \<Rightarrow> string \<Rightarrow> pi_error + jobj" where
  "found_object body why =
     (case body of JObj kvs \<Rightarrow> if flag kvs ''WebId'' then Inr kvs else Inl (PiNotFound why) | _ \<Rightarrow> Inl (PiNotFound why))"

definition learn :: "string \<Rightarrow> jobj \<Rightarrow> ('s, string) pi" where
  "learn path obj = pi_bind (lift_result (web_id_of obj)) (\<lambda>wid s. (Inr wid, remember path wid s))"

definition describe_point :: "'s pi_env \<Rightarrow> string \<Rightarrow> ('s, point_metadata) pi" where
  "describe_point E path =
     pi_bind (pi_get E ''points'' [(''path'', path), (''selectedFields'', ''WebId;Name;Path;Descriptor;EngineeringUnits;PointType;Zero;Span;Step'')] path) (\<lambda>body.
     pi_bind (lift_result (found_object body (''not found in PI: '' @ path))) (\<lambda>point.
     pi_bind (learn path point) (\<lambda>wid.
     pi_bind (point_attributes E wid) (\<lambda>compression.
       let zero = pi_limit E (map_of point ''Zero''); width = pi_limit E (map_of point ''Span''); range = point_range zero width in
       pi_return (no_metadata\<lparr>pm_unit := pi_text E (map_of point ''EngineeringUnits''), pm_description := pi_text E (map_of point ''Descriptor''),
         pm_physical_min := fst range, pm_physical_max := snd range,
         pm_extra := [(''point_type'', json_or_null (map_of point ''PointType'')), (''step'', json_or_null (map_of point ''Step'')),
           (''zero'', limit_json zero), (''span'', limit_json width)] @ compression\<rparr>)))))"

definition strip_prefix :: "string \<Rightarrow> string \<Rightarrow> string" where
  "strip_prefix p s = (if take (length p) s = p then drop (length p) s else s)"

definition trait_name :: "'s pi_env \<Rightarrow> jobj \<Rightarrow> string" where
  "trait_name E trait = strip_prefix ''limit'' (lower (name_text E trait ''TraitName''))"

text \<open>The value of a limit: a number, unless PI says it is not good.\<close>

definition trait_value :: "'s pi_env \<Rightarrow> json \<Rightarrow> raw_float option" where
  "trait_value E body =
     (case body of
        JObj kvs \<Rightarrow> (if (case map_of kvs ''Good'' of None \<Rightarrow> True | Some g \<Rightarrow> truthy g) then pi_limit E (map_of kvs ''Value'') else None)
      | _ \<Rightarrow> None)"

definition set_limit :: "string \<Rightarrow> raw_float option \<Rightarrow> point_metadata \<Rightarrow> point_metadata" where
  "set_limit name v m =
     (if name = ''minimum'' then m\<lparr>pm_physical_min := v\<rparr>
      else if name = ''maximum'' then m\<lparr>pm_physical_max := v\<rparr>
      else if name = ''lo'' then m\<lparr>pm_operational_min := v\<rparr>
      else if name = ''hi'' then m\<lparr>pm_operational_max := v\<rparr>
      else if v = None then m
      else m\<lparr>pm_extra := dict_merge (pm_extra m) [(''limit_'' @ name, limit_json v)]\<rparr>)"

fun read_traits :: "'s pi_env \<Rightarrow> jobj list \<Rightarrow> point_metadata \<Rightarrow> ('s, point_metadata) pi" where
  "read_traits E [] m = pi_return m"
| "read_traits E (trait # traits) m =
     (if \<not> flag trait ''WebId'' \<or> trait_name E trait \<notin> set ([''minimum'', ''maximum'', ''lo'', ''hi''] @ OTHER_LIMITS)
      then read_traits E traits m
      else
        pi_bind (lift_result (web_id_of trait)) (\<lambda>wid.
        pi_bind (pi_get E (''streams/'' @ wid @ ''/value'') [(''selectedFields'', ''Value;Good'')] ''limit value'') (\<lambda>body.
          read_traits E traits (set_limit (trait_name E trait) (trait_value E body) m))))"

text \<open>The last part of a link, after its last slash.\<close>

definition last_part :: "string \<Rightarrow> string" where
  "last_part link = rev (takeWhile (\<lambda>c. c \<noteq> CHR ''/'') (rev (rstrip_char (CHR ''/'') link)))"

definition describe_attribute :: "'s pi_env \<Rightarrow> string \<Rightarrow> ('s, point_metadata) pi" where
  "describe_attribute E path =
     pi_bind (pi_get E ''attributes'' [(''path'', path),
        (''selectedFields'', ''WebId;Name;Path;Description;DefaultUnitsNameAbbreviation;DataReferencePlugIn;Step;Links.Point'')] path) (\<lambda>body.
     pi_bind (lift_result (found_object body (''not found in AF: '' @ path))) (\<lambda>attribute.
     pi_bind (learn path attribute) (\<lambda>wid.
     pi_bind (pi_get E (''attributes/'' @ wid @ ''/attributes'')
        [(''traitCategory'', ''Limit''), (''selectedFields'', ''Items.WebId;Items.TraitName'')] ''limit traits'') (\<lambda>traits.
     pi_bind (read_traits E (items_of traits) (no_metadata\<lparr>pm_extra := [(''step'', json_or_null (map_of attribute ''Step''))]\<rparr>)) (\<lambda>m.
     pi_bind (case Option.bind (case map_of attribute ''Links'' of Some (JObj links) \<Rightarrow> Some links | _ \<Rightarrow> None) (\<lambda>links. map_of links ''Point'') of
          Some (JStr link) \<Rightarrow> pi_bind (lift_result (checked_web_id (JStr (last_part link)))) (point_attributes E)
        | _ \<Rightarrow> pi_return []) (\<lambda>compression.
       pi_return (m\<lparr>pm_unit := pi_text E (map_of attribute ''DefaultUnitsNameAbbreviation''),
         pm_description := pi_text E (map_of attribute ''Description''),
         pm_asset_path := Some (takeWhile (\<lambda>c. c \<noteq> CHR ''|'') path),
         pm_extra := dict_merge (pm_extra m) compression\<rparr>)))))))"

fun pi_describe :: "'s pi_env \<Rightarrow> point_ref list \<Rightarrow> ('s, point_description list) pi" where
  "pi_describe E [] = pi_return []"
| "pi_describe E (ref # refs) =
     (\<lambda>s. let path = pt_external_id ref in
       (case (if \<not> is_pi_path path then pi_fail (PiNotFound (''not a PI path: '' @ take 100 path))
              else if is_attribute path then describe_attribute E path else describe_point E path) s of
          (Inl (PiNotFound msg), s') \<Rightarrow>
            pi_bind (pi_describe E refs) (\<lambda>ds. pi_return (\<lparr>pd_series_id = pt_series_id ref, pd_metadata = None, pd_error = Some msg\<rparr> # ds)) s'
        | (Inl e, s') \<Rightarrow> (Inl e, s')
        | (Inr m, s') \<Rightarrow>
            pi_bind (pi_describe E refs) (\<lambda>ds. pi_return (\<lparr>pd_series_id = pt_series_id ref, pd_metadata = Some m, pd_error = None\<rparr> # ds)) s'))"

end
