(* ===== verification/Streams.thy ===== *)
theory Streams
  imports Fetch_Facts
begin

text \<open>
  What a connector's stream delivers: the rows of each series, and the contract that every connector keeps towards the
  fetch engine.
\<close>

section \<open>Rows of a stream\<close>

fun item_rows :: "uuid \<Rightarrow> fetch_item \<Rightarrow> batch_row list" where
  "item_rows i (ItemRows j b) = (if i = j then (case b of Batch rows \<Rightarrow> rows | Malformed \<Rightarrow> []) else [])"
| "item_rows i (ItemFailure j m) = []"

definition rows_for :: "fetch_item list \<Rightarrow> uuid \<Rightarrow> batch_row list" where
  "rows_for items i = concat (map (item_rows i) items)"

definition stream_rows :: "fetch_item list \<times> stream_end \<Rightarrow> uuid \<Rightarrow> batch_row list" where
  "stream_rows stream i = rows_for (fst stream) i"

lemma rows_for_simps [simp]: "rows_for [] i = []" "rows_for (item # items) i = item_rows i item @ rows_for items i"
  "rows_for (xs @ ys) i = rows_for xs i @ rows_for ys i"
  by (simp_all add: rows_for_def)

lemma rows_for_failures: "\<forall>item \<in> set items. \<exists>i m. item = ItemFailure i m \<Longrightarrow> rows_for items i = []"
  by (induction items) auto

end
