(* ===== verification/Pi_Fetch.thy ===== *)
theory Pi_Fetch
  imports Pi_Facts Pi_Connector Streams
begin

text \<open>
  The PI connector: what it asks for in URLs, whatever the server answers, and that a fetch from a server that holds
  histories delivers each of their values once.
\<close>

section \<open>Paths requested\<close>

definition safe_path :: "string \<Rightarrow> bool" where
  "safe_path p \<longleftrightarrow> (\<forall>c \<in> set p. letter_or_digit c \<or> c \<in> set ''_-/'' \<or> c = CHR 0x0A) \<and> length (filter (\<lambda>c. c = CHR ''/'') p) \<le> 2"

definition state_ok :: "'s pi_state \<Rightarrow> bool" where
  "state_ok s \<longleftrightarrow> (\<forall>(p, w) \<in> set (ps_web_ids s). is_web_id w) \<and> (\<forall>r \<in> set (ps_sent s). safe_path (pr_path r))"

text \<open>A computation that keeps the state in order and whose result has a property.\<close>

definition pi_spec :: "('s, 'a) pi \<Rightarrow> ('a \<Rightarrow> bool) \<Rightarrow> bool" where
  "pi_spec m Q \<longleftrightarrow> (\<forall>s. state_ok s \<longrightarrow> state_ok (snd (m s)) \<and> (case fst (m s) of Inr x \<Rightarrow> Q x | Inl e \<Rightarrow> True))"

named_theorems pi_rules

lemma pi_spec_return [pi_rules]: "Q x \<Longrightarrow> pi_spec (pi_return x) Q"
  by (simp add: pi_spec_def pi_return_def)

lemma pi_spec_fail [pi_rules]: "pi_spec (pi_fail e) Q"
  by (simp add: pi_spec_def pi_fail_def)

lemma pi_spec_lift [pi_rules]: "(\<And>x. r = Inr x \<Longrightarrow> Q x) \<Longrightarrow> pi_spec (lift_result r) Q"
  by (simp add: pi_spec_def lift_result_def split: sum.split)

lemma pi_spec_bind:
  assumes "pi_spec m Q" "\<And>x. Q x \<Longrightarrow> pi_spec (f x) R"
  shows "pi_spec (pi_bind m f) R"
  unfolding pi_spec_def
proof (intro allI impI)
  fix s :: "'a pi_state" assume s: "state_ok s"
  obtain r s' where m: "m s = (r, s')" by fastforce
  show "state_ok (snd (pi_bind m f s)) \<and> (case fst (pi_bind m f s) of Inr x \<Rightarrow> R x | Inl e \<Rightarrow> True)"
  proof (cases r)
    case (Inl e)
    then show ?thesis using assms(1) s m by (auto simp: pi_spec_def pi_bind_def)
  next
    case (Inr x)
    then have "state_ok s'" "Q x" using assms(1) s m by (auto simp: pi_spec_def)
    then show ?thesis using assms(2) [of x] m Inr by (auto simp: pi_spec_def pi_bind_def)
  qed
qed

lemma pi_spec_send: "safe_path (pr_path req) \<Longrightarrow> pi_spec (send E req what) (\<lambda>_. True)"
  by (auto simp: pi_spec_def send_def Let_def state_ok_def split: prod.split sum.split)

lemma pi_spec_get: "safe_path path \<Longrightarrow> pi_spec (pi_get E path params what) (\<lambda>_. True)"
  unfolding pi_get_def by (rule pi_spec_send) simp

lemma pi_spec_post: "safe_path path \<Longrightarrow> pi_spec (pi_post E path body what) (\<lambda>_. True)"
  unfolding pi_post_def by (rule pi_spec_send) simp

lemma pi_spec_not_found: "pi_spec m Q \<Longrightarrow> pi_spec (not_found_as why m) Q"
  by (auto simp: pi_spec_def not_found_as_def split: prod.split sum.split pi_error.split)

lemma checked_web_idD: "checked_web_id v = Inr w \<Longrightarrow> is_web_id w"
  by (cases v) (simp_all add: checked_web_id_def split: if_splits)

lemma web_id_ofD: "web_id_of obj = Inr w \<Longrightarrow> is_web_id w"
  unfolding web_id_of_def by (cases "map_of obj ''WebId''") (simp_all, erule checked_web_idD)

lemma web_id_safe: "is_web_id w \<Longrightarrow> \<forall>c \<in> set w. letter_or_digit c \<or> c \<in> set ''_-/'' \<or> c = CHR 0x0A" "is_web_id w \<Longrightarrow> CHR ''/'' \<notin> set w"
proof -
  assume w: "is_web_id w"
  have split: "set w = set (takeWhile web_id_char w) \<union> set (dropWhile web_id_char w)" by (metis set_append takeWhile_dropWhile_id)
  have "\<forall>c \<in> set (takeWhile web_id_char w). web_id_char c" by (auto dest: set_takeWhileD)
  moreover have "set (dropWhile web_id_char w) \<subseteq> {CHR 0x0A}" using w by (auto simp: is_web_id_def at_end_def Let_def simp del: dropWhile_eq_Nil_conv)
  ultimately have all: "\<forall>c \<in> set w. web_id_char c \<or> c = CHR 0x0A" unfolding split by blast
  then show "\<forall>c \<in> set w. letter_or_digit c \<or> c \<in> set ''_-/'' \<or> c = CHR 0x0A" by (auto simp: web_id_char_def)
  have "\<not> web_id_char (CHR ''/'')" by (simp add: web_id_char_def letter_or_digit_def less_eq_char_def)
  then show "CHR ''/'' \<notin> set w" using all by auto
qed

lemma safe_around:
  assumes "is_web_id w" "\<forall>c \<in> set a \<union> set b. letter_or_digit c \<or> c \<in> set ''_-/'' \<or> c = CHR 0x0A"
    "length (filter (\<lambda>c. c = CHR ''/'') a) + length (filter (\<lambda>c. c = CHR ''/'') b) \<le> 2"
  shows "safe_path (a @ w @ b)"
proof -
  have "filter (\<lambda>c. c = CHR ''/'') w = []" using web_id_safe(2) [OF assms(1)] by (auto simp: filter_empty_conv)
  then show ?thesis using assms web_id_safe(1) [OF assms(1)] by (simp add: safe_path_def ball_Un)
qed

lemma letters_safe: "\<forall>c \<in> set s. CHR ''a'' \<le> c \<and> c \<le> CHR ''z'' \<or> c = CHR ''/'' \<Longrightarrow>
    \<forall>c \<in> set s. letter_or_digit c \<or> c \<in> set ''_-/'' \<or> c = CHR 0x0A"
  by (auto simp: letter_or_digit_def)

lemma safe_paths [pi_rules]:
  "is_web_id w \<Longrightarrow> pi_spec (pi_get E (''dataservers/'' @ w @ ''/points'') ps what) (\<lambda>_. True)"
  "is_web_id w \<Longrightarrow> pi_spec (pi_get E (''assetdatabases/'' @ w @ ''/elementattributes'') ps what) (\<lambda>_. True)"
  "is_web_id w \<Longrightarrow> pi_spec (pi_get E (''points/'' @ w @ ''/attributes'') ps what) (\<lambda>_. True)"
  "is_web_id w \<Longrightarrow> pi_spec (pi_get E (''attributes/'' @ w @ ''/attributes'') ps what) (\<lambda>_. True)"
  "is_web_id w \<Longrightarrow> pi_spec (pi_get E (''streams/'' @ w @ ''/value'') ps what) (\<lambda>_. True)"
  "is_web_id w \<Longrightarrow> pi_spec (pi_get E (''streams/'' @ w @ ''/recorded'') ps what) (\<lambda>_. True)"
  by (rule pi_spec_get, erule safe_around; simp add: letter_or_digit_def less_eq_char_def)+

lemma plain_paths [pi_rules]:
  "pi_spec (pi_get E ''dataservers'' ps what) (\<lambda>_. True)" "pi_spec (pi_get E ''assetdatabases'' ps what) (\<lambda>_. True)"
  "pi_spec (pi_get E ''points'' ps what) (\<lambda>_. True)" "pi_spec (pi_get E ''attributes'' ps what) (\<lambda>_. True)"
  "pi_spec (pi_post E ''batch'' body what) (\<lambda>_. True)"
  by ((rule pi_spec_get pi_spec_post); simp add: safe_path_def letter_or_digit_def less_eq_char_def)+

lemma pi_spec_data_server [pi_rules]: "pi_spec (data_server E cfg) (\<lambda>_. True)"
  unfolding data_server_def by (rule pi_spec_bind [OF pi_spec_not_found [OF plain_paths(1)]]) (rule pi_spec_lift, simp)

lemma pi_spec_asset_database [pi_rules]: "pi_spec (asset_database E db) (\<lambda>_. True)"
  unfolding asset_database_def by (rule pi_spec_bind [OF pi_spec_not_found [OF plain_paths(2)]]) (rule pi_spec_lift, simp)

lemma pi_spec_web_id [pi_rules]: "pi_spec (lift_result (web_id_of obj)) is_web_id"
  "pi_spec (lift_result (checked_web_id v)) is_web_id"
  by (intro pi_rules; erule web_id_ofD checked_web_idD)+

lemma pi_spec_weaken: "pi_spec m Q \<Longrightarrow> pi_spec m (\<lambda>_. True)"
  by (auto simp: pi_spec_def split: sum.splits)

lemma pi_spec_check: "pi_spec (pi_check E cfg) (\<lambda>_. True)"
  unfolding pi_check_def
  by (rule pi_spec_bind [OF pi_spec_data_server]) (auto intro!: pi_rules pi_spec_bind split: option.split)

lemma pi_spec_search: "pi_spec (pi_search E cfg query limit) (\<lambda>_. True)"
proof -
  have db: "pi_spec (pi_bind (asset_database E db) (\<lambda>database. pi_bind (lift_result (web_id_of database)) (\<lambda>wid.
      pi_bind (pi_get E (''assetdatabases/'' @ wid @ ''/elementattributes'') ps what) (\<lambda>body. pi_return (f body))))) (\<lambda>_. True)" for db ps what and f :: "json \<Rightarrow> 'b"
    by (rule pi_spec_bind [OF pi_spec_asset_database], rule pi_spec_bind [OF pi_spec_web_id(1)], rule pi_spec_bind [OF safe_paths(2)],
        assumption, rule pi_spec_return, simp)
  show ?thesis
    unfolding pi_search_def Let_def
    by (rule pi_spec_bind [OF pi_spec_data_server], rule pi_spec_bind [OF pi_spec_web_id(1)], rule pi_spec_bind [OF safe_paths(1)], assumption)
      (auto split: option.split intro: db pi_spec_return simp del: append.simps)
qed

lemma state_ok_remember: "state_ok s \<Longrightarrow> is_web_id wid \<Longrightarrow> state_ok (remember path wid s)"
  by (auto simp: state_ok_def remember_def)

lemma pi_spec_learn: "pi_spec (learn path obj) is_web_id"
  unfolding learn_def
  by (rule pi_spec_bind [OF pi_spec_web_id(1)]) (simp add: pi_spec_def state_ok_remember)

lemma pi_spec_attributes: "is_web_id wid \<Longrightarrow> pi_spec (point_attributes E wid) (\<lambda>_. True)"
  unfolding point_attributes_def Let_def by (rule pi_spec_bind [OF safe_paths(3)]) (auto intro: pi_spec_return)

lemma pi_spec_traits: "pi_spec (read_traits E traits m) (\<lambda>_. True)"
proof (induction traits arbitrary: m)
  case (Cons trait traits)
  have "pi_spec (pi_bind (lift_result (web_id_of trait)) (\<lambda>wid.
      pi_bind (pi_get E (''streams/'' @ wid @ ''/value'') ps what) (\<lambda>body. read_traits E traits (f body)))) (\<lambda>_. True)" for ps what f
    by (rule pi_spec_bind [OF pi_spec_web_id(1)], rule pi_spec_bind [OF safe_paths(5)], assumption, rule Cons)
  then show ?case using Cons by (simp only: read_traits.simps split: if_split) blast
qed (simp add: pi_spec_return)

lemma pi_spec_describe_point: "pi_spec (describe_point E path) (\<lambda>_. True)"
  unfolding describe_point_def Let_def
  by (rule pi_spec_bind [OF plain_paths(3)], rule pi_spec_bind [where Q = "\<lambda>_. True"], rule pi_spec_lift, simp,
      rule pi_spec_bind [OF pi_spec_learn], rule pi_spec_bind [OF pi_spec_attributes], assumption, rule pi_spec_return, simp)

lemma pi_spec_describe_attribute: "pi_spec (describe_attribute E path) (\<lambda>_. True)"
proof -
  have link: "pi_spec (pi_bind (lift_result (checked_web_id v)) (point_attributes E)) (\<lambda>_. True)" for v
    by (rule pi_spec_bind [OF pi_spec_web_id(2)]) (rule pi_spec_attributes)
  show ?thesis
    unfolding describe_attribute_def
    by (rule pi_spec_bind [OF plain_paths(4)], rule pi_spec_bind [where Q = "\<lambda>_. True"], rule pi_spec_lift, simp,
        rule pi_spec_bind [OF pi_spec_learn], rule pi_spec_bind [OF safe_paths(4)], assumption, rule pi_spec_bind [OF pi_spec_traits],
        rule pi_spec_bind [where Q = "\<lambda>_. True"])
      (auto split: option.split json.split intro: link pi_spec_return)
qed

lemma pi_spec_describe: "pi_spec (pi_describe E refs) (\<lambda>_. True)"
proof (induction refs)
  case (Cons ref refs)
  define one where "one = (if \<not> is_pi_path (pt_external_id ref) then pi_fail (PiNotFound (''not a PI path: '' @ take 100 (pt_external_id ref)))
     else if is_attribute (pt_external_id ref) then describe_attribute E (pt_external_id ref) else describe_point E (pt_external_id ref))"
  have one: "pi_spec one (\<lambda>_. True)"
    using pi_spec_describe_attribute pi_spec_describe_point by (auto simp: one_def intro: pi_spec_fail)
  have rest: "pi_spec (pi_bind (pi_describe E refs) (\<lambda>ds. pi_return (d # ds))) (\<lambda>_. True)" for d
    by (rule pi_spec_bind [OF Cons]) (simp add: pi_spec_return)
  show ?case
    unfolding pi_spec_def pi_describe.simps Let_def one_def [symmetric]
  proof (intro allI impI)
    fix s :: "'a pi_state" assume "state_ok s"
    then have "state_ok (snd (one s))" using one by (simp add: pi_spec_def)
    then show "state_ok (snd (case one s of
          (Inl (PiNotFound msg), s') \<Rightarrow>
            pi_bind (pi_describe E refs) (\<lambda>ds. pi_return (\<lparr>pd_series_id = pt_series_id ref, pd_metadata = None, pd_error = Some msg\<rparr> # ds)) s'
        | (Inl e, s') \<Rightarrow> (Inl e, s')
        | (Inr m, s') \<Rightarrow>
            pi_bind (pi_describe E refs) (\<lambda>ds. pi_return (\<lparr>pd_series_id = pt_series_id ref, pd_metadata = Some m, pd_error = None\<rparr> # ds)) s')) \<and>
        (case fst (case one s of
          (Inl (PiNotFound msg), s') \<Rightarrow>
            pi_bind (pi_describe E refs) (\<lambda>ds. pi_return (\<lparr>pd_series_id = pt_series_id ref, pd_metadata = None, pd_error = Some msg\<rparr> # ds)) s'
        | (Inl e, s') \<Rightarrow> (Inl e, s')
        | (Inr m, s') \<Rightarrow>
            pi_bind (pi_describe E refs) (\<lambda>ds. pi_return (\<lparr>pd_series_id = pt_series_id ref, pd_metadata = Some m, pd_error = None\<rparr> # ds)) s') of
          Inr x \<Rightarrow> True | Inl e \<Rightarrow> True)"
      using rest unfolding pi_spec_def by (auto split: prod.split sum.split pi_error.split)
  qed
qed (simp add: pi_spec_return)

definition ids_ok :: "(string \<times> (string + string)) list \<Rightarrow> bool" where
  "ids_ok found \<longleftrightarrow> (\<forall>(p, r) \<in> set found. \<forall>w. r = Inr w \<longrightarrow> is_web_id w)"

lemma path_answerD: "path_answer E path answer = Inr (Inr wid) \<Longrightarrow> is_web_id wid"
  unfolding path_answer_def Let_def
  by (auto simp: result_simps split: option.splits json.splits if_splits dest: web_id_ofD)

lemma pi_spec_take_answers: "ids_ok out \<Longrightarrow> pi_spec (take_answers E body n paths out) ids_ok"
proof (induction paths arbitrary: n out)
  case (Cons path paths)
  have step: "pi_spec (\<lambda>s. take_answers E body (Suc n) paths (out @ [(path, r)]) (case r of Inr wid \<Rightarrow> remember path wid s | Inl msg \<Rightarrow> s)) ids_ok"
    if r: "\<forall>wid. r = Inr wid \<longrightarrow> is_web_id wid" for r
  proof -
    have "ids_ok (out @ [(path, r)])" using Cons.prems r by (auto simp: ids_ok_def)
    moreover have "state_ok s \<Longrightarrow> state_ok (case r of Inr wid \<Rightarrow> remember path wid s | Inl msg \<Rightarrow> s)" for s :: "'a pi_state"
      using r state_ok_remember by (auto split: sum.split)
    ultimately show ?thesis using Cons.IH [of "out @ [(path, r)]" "Suc n"] unfolding pi_spec_def by blast
  qed
  show ?case
    unfolding take_answers.simps
    by (rule pi_spec_bind [where Q = "\<lambda>r. \<forall>wid. r = Inr wid \<longrightarrow> is_web_id wid"], rule pi_spec_lift)
      (auto intro: step dest: path_answerD)
qed (simp add: pi_spec_return)

lemma pi_spec_resolve: "pi_spec (resolve_paths E cfg paths) ids_ok"
  unfolding pi_spec_def
proof (intro allI impI)
  fix s :: "'a pi_state" assume s: "state_ok s"
  let ?known = "concat (map (\<lambda>p. case map_of (ps_web_ids s) p of Some w \<Rightarrow> [(p, Inr w)] | None \<Rightarrow> []) paths)"
  let ?missing = "filter (\<lambda>p. map_of (ps_web_ids s) p = None) (distinct_paths paths)"
  have "is_web_id w" if "map_of (ps_web_ids s) p = Some w" for p w using s map_of_SomeD [OF that] by (auto simp: state_ok_def)
  then have "ids_ok ?known" by (auto simp: ids_ok_def split: option.splits)
  then have "pi_spec (pi_bind (pi_post E ''batch'' b what)
      (\<lambda>body. case body of JObj answers \<Rightarrow> take_answers E answers 0 ?missing ?known
        | _ \<Rightarrow> pi_fail (PiError ''PI Web API batch answer is not an object'' False))) ids_ok" for b what
    by (intro pi_spec_bind [OF plain_paths(5)]) (auto split: json.split intro: pi_spec_take_answers pi_spec_fail)
  then show "state_ok (snd (resolve_paths E cfg paths s)) \<and> (case fst (resolve_paths E cfg paths s) of Inr x \<Rightarrow> ids_ok x | Inl e \<Rightarrow> True)"
    using s \<open>ids_ok ?known\<close> unfolding resolve_paths_def Let_def pi_spec_def by simp
qed

lemma pi_get_ok: "safe_path path \<Longrightarrow> state_ok s \<Longrightarrow> pi_get E path ps what s = (r, s') \<Longrightarrow> state_ok s'"
  using pi_spec_get [of path E ps what] by (auto simp: pi_spec_def)

lemma recorded_ok: "is_web_id wid \<Longrightarrow> state_ok s \<Longrightarrow> pi_get E (''streams/'' @ wid @ ''/recorded'') ps what s = (r, s') \<Longrightarrow> state_ok s'"
  using safe_paths(6) [of wid E ps what] unfolding pi_spec_def by (metis snd_conv)

lemma state_ok_forget: "state_ok s \<Longrightarrow> state_ok (s\<lparr>ps_web_ids := filter P (ps_web_ids s)\<rparr>)"
  by (auto simp: state_ok_def)

lemma pi_read_ok:
  assumes "pi_read E cfg ref wid start_ns end_ns c s = Some y" "is_web_id wid" "state_ok s"
  shows "state_ok (snd y)"
proof -
  have "is_web_id wid \<longrightarrow> state_ok s \<longrightarrow> state_ok (snd y)"
  proof (rule pi_read.raw_induct [where P = "\<lambda>E cfg ref wid start_ns end_ns c s y. is_web_id wid \<longrightarrow> state_ok s \<longrightarrow> state_ok (snd y)",
        OF _ assms(1)], intro impI)
    fix rec E cfg ref wid start_ns end_ns c s y
    assume ih: "\<And>E cfg ref wid start_ns end_ns c s y. rec E cfg ref wid start_ns end_ns c s = Some y \<Longrightarrow>
        is_web_id wid \<longrightarrow> state_ok s \<longrightarrow> state_ok (snd y)"
      and eq: "(case pi_get E (''streams/'' @ wid @ ''/recorded'') (recorded_params cfg (at_ns c) end_ns) (pt_external_id ref) s of
        (Inl (PiNotFound msg), s') \<Rightarrow>
          Some (([ItemFailure (pt_series_id ref) msg], None), s'\<lparr>ps_web_ids := filter (\<lambda>(p, w). p \<noteq> pt_external_id ref) (ps_web_ids s')\<rparr>)
      | (Inl (PiError msg retry), s') \<Rightarrow> Some (([], Some (StreamConnErr msg retry)), s')
      | (Inl PiCrash, s') \<Rightarrow> Some (([], Some StreamCrash), s')
      | (Inr body, s') \<Rightarrow>
          (case read_page (items_of body) c start_ns end_ns (nat (pi_max_count cfg)) of
             Inl (TimestampError msg) \<Rightarrow> Some (([], Some (StreamConnErr (pt_external_id ref @ '': '' @ msg) False)), s')
           | Inl BadCalendar \<Rightarrow> Some (([], Some StreamCrash), s')
           | Inr (rows, None) \<Rightarrow> Some ((rows_item (pt_series_id ref) rows, None), s')
           | Inr (rows, Some c') \<Rightarrow>
               Option.bind (rec E cfg ref wid start_ns end_ns c' s') (\<lambda>((items, stop), s'').
                 Some ((rows_item (pt_series_id ref) rows @ items, stop), s'')))) = Some y"
      and wid: "is_web_id wid" and ok: "state_ok s"
    obtain r s1 where get: "pi_get E (''streams/'' @ wid @ ''/recorded'') (recorded_params cfg (at_ns c) end_ns) (pt_external_id ref) s = (r, s1)"
      by fastforce
    have s1: "state_ok s1" using recorded_ok [OF wid ok get] .
    show "state_ok (snd y)"
    proof (cases r)
      case (Inl e)
      then show ?thesis using eq get s1 state_ok_forget by (cases e) auto
    next
      case (Inr body)
      obtain p where p: "p = read_page (items_of body) c start_ns end_ns (nat (pi_max_count cfg))" by simp
      show ?thesis
      proof (cases p)
        case (Inl e)
        then show ?thesis using eq get s1 Inr p by (cases e) auto
      next
        case pr: (Inr q)
        obtain rows nxt where q: "q = (rows, nxt)" by fastforce
        show ?thesis
        proof (cases nxt)
          case None
          then show ?thesis using eq get s1 Inr p [symmetric] pr q by auto
        next
          case (Some c')
          then obtain z where "rec E cfg ref wid start_ns end_ns c' s1 = Some z" "snd y = snd z"
            using eq get Inr p [symmetric] pr q by (auto simp: bind_eq_Some_conv)
          then show ?thesis using ih wid s1 by metis
        qed
      qed
    qed
  qed
  then show ?thesis using assms(2,3) by blast
qed

lemma read_points_ok: "read_points E cfg found start_ns end_ns refs s = Some y \<Longrightarrow> ids_ok found \<Longrightarrow> state_ok s \<Longrightarrow> state_ok (snd y)"
proof (induction refs arbitrary: s y)
  case (Cons ref refs)
  show ?case
  proof (cases "map_of (rev found) (pt_external_id ref)")
    case None
    then show ?thesis using Cons.prems by auto
  next
    case (Some r)
    show ?thesis
    proof (cases r)
      case (Inl msg)
      then show ?thesis using Cons.IH [of s] Cons.prems Some by (auto simp: bind_eq_Some_conv)
    next
      case (Inr wid)
      then have "(pt_external_id ref, Inr wid) \<in> set found" using map_of_SomeD [OF Some] by simp
      then have "is_web_id wid" using Cons.prems(2) by (auto simp: ids_ok_def)
      moreover obtain z where z: "pi_read E cfg ref wid start_ns end_ns \<lparr>at_ns = start_ns, seen_at = 0\<rparr> s = Some z"
        using Cons.prems(1) Some Inr by (auto simp: bind_eq_Some_conv)
      ultimately have ok: "state_ok (snd z)" using pi_read_ok Cons.prems(3) by blast
      obtain items stop s1 where zz: "z = ((items, stop), s1)" by (metis surj_pair)
      show ?thesis
        using Cons.prems(1,2) Some Inr z ok Cons.IH [of s1] unfolding zz by (cases stop) (auto simp: bind_eq_Some_conv)
    qed
  qed
qed auto

lemma pi_fetch_ok:
  assumes "pi_fetch E cfg points start_ns end_ns s = Some y" "state_ok s"
  shows "state_ok (snd y)"
proof -
  let ?paths = "map pt_external_id (filter (\<lambda>p. is_pi_path (pt_external_id p)) points)"
  obtain r s1 where r: "resolve_paths E cfg ?paths s = (r, s1)" by fastforce
  have ok: "state_ok s1" "case r of Inr found \<Rightarrow> ids_ok found | Inl e \<Rightarrow> True"
    using pi_spec_resolve [of E cfg ?paths] assms(2) r by (auto simp: pi_spec_def)
  show ?thesis
  proof (cases r)
    case (Inl e)
    then show ?thesis using assms r ok(1) by (cases e) (auto simp: pi_fetch_def Let_def split: if_splits)
  next
    case (Inr found)
    then show ?thesis using assms r ok read_points_ok [of E cfg found]
      by (fastforce simp: pi_fetch_def Let_def bind_eq_Some_conv split: if_splits)
  qed
qed

text \<open>C34: Whatever PI Web API answers, the connector asks only for paths below its base URL: in check, search, fetch
  and describe every path it requests holds only letters, digits, hyphens, underscores, at most two slashes and at most
  the final line feed that a WebId may end with, so no answer can steer a request to another host or resource kind by
  dots, escapes or queries.\<close>

theorem pi_paths_safe:
  assumes "\<forall>(path, wid) \<in> set (ps_web_ids s). is_web_id wid" "\<forall>r \<in> set (ps_sent s). safe_path (pr_path r)"
  shows "(\<forall>r \<in> set (ps_sent (snd (pi_check E cfg s))). safe_path (pr_path r)) \<and>
    (\<forall>r \<in> set (ps_sent (snd (pi_search E cfg query limit s))). safe_path (pr_path r)) \<and>
    (\<forall>r \<in> set (ps_sent (snd (pi_describe E points s))). safe_path (pr_path r)) \<and>
    (\<forall>stream s'. pi_fetch E cfg points start_ns end_ns s = Some (stream, s') \<longrightarrow> (\<forall>r \<in> set (ps_sent s'). safe_path (pr_path r)))"
proof -
  have s: "state_ok s" using assms by (simp add: state_ok_def)
  have "state_ok (snd (pi_check E cfg s))" "state_ok (snd (pi_search E cfg query limit s))" "state_ok (snd (pi_describe E points s))"
    using s pi_spec_check [of E cfg] pi_spec_search [of E cfg query limit] pi_spec_describe [of E points] unfolding pi_spec_def by blast+
  moreover have "pi_fetch E cfg points start_ns end_ns s = Some (stream, s') \<Longrightarrow> state_ok s'" for stream s'
    using pi_fetch_ok s by fastforce
  ultimately show ?thesis by (auto simp: state_ok_def)
qed

text \<open>A server whose streams all hold \<open>sample_history\<close>, and a source that reads it.\<close>

definition sample_pi_env :: "unit pi_env" where
  "sample_pi_env =
     \<lparr>pe_http = (\<lambda>r u. ((case (map_of (pr_params r) ''startTime'', map_of (pr_params r) ''endTime'') of
          (Some s, Some e) \<Rightarrow>
            (case (pi_parse_time s, pi_parse_time e) of
               (Inr a, Inr b) \<Rightarrow> Response 200 (Some (JObj [(''Items'', JArr (map JObj (take 1000 (between sample_history a b))))]))
             | _ \<Rightarrow> Response 400 None)
        | _ \<Rightarrow> Response 200 (Some (JObj [(''WebId'', JStr ''W2'')]))), u)),
      pe_str = (\<lambda>j. ''text''), pe_float = (\<lambda>t. None), pe_urlencode = (\<lambda>ps. ''q'')\<rparr>"

definition sample_pi_config :: pi_config where
  "sample_pi_config =
     \<lparr>cfg_poll_interval_s = None, cfg_backfill_s = 86400, cfg_settle_s = 60, cfg_requests_per_second = 20, cfg_max_points = 100,
      cfg_max_span_s = 86400, pi_base_url = ''https://pi/api'', pi_data_server = [CHR 0x5C, CHR 0x5C, CHR ''S''],
      pi_asset_database = None, pi_ca_pem = None, pi_max_count = 1000\<rparr>"

definition sample_pi_path :: string where "sample_pi_path = [CHR 0x5C, CHR 0x5C, CHR ''S'', CHR 0x5C, CHR ''T'']"

definition sample_pi_state :: "unit pi_state" where
  "sample_pi_state = \<lparr>ps_web_ids = [(sample_pi_path, ''W1'')], ps_sent = [], ps_server = ()\<rparr>"

definition sample_points :: "point_ref list" where
  "sample_points = [\<lparr>pt_series_id = 7, pt_external_id = sample_pi_path\<rparr>, \<lparr>pt_series_id = 8, pt_external_id = ''T''\<rparr>]"

lemma sample_web_ids: "\<forall>(path, wid) \<in> set (ps_web_ids sample_pi_state). is_web_id wid"
  by (simp add: sample_pi_state_def is_web_id_def at_end_def Let_def web_id_char_def letter_or_digit_def less_eq_char_def)

theorem pi_paths_safe_witness:
  "list_all (\<lambda>r. safe_path (pr_path r)) (ps_sent (snd (pi_search sample_pi_env sample_pi_config ''T'' 5 sample_pi_state)))"
  using pi_paths_safe [OF sample_web_ids, where E = sample_pi_env and cfg = sample_pi_config and query = "''T''" and limit = 5]
  by (simp add: sample_pi_state_def list_all_iff)

section \<open>What a fetch delivers\<close>

text \<open>
  The documented answer of recorded values: an object with the items of the stream's history between the times asked for,
  as many as \<^verbatim>\<open>maxCount\<close> at most.
\<close>

definition pi_archive :: "'s pi_env \<Rightarrow> pi_config \<Rightarrow> (string \<Rightarrow> jobj list) \<Rightarrow> bool" where
  "pi_archive E cfg history \<longleftrightarrow>
     (\<forall>wid from end_ns a b sv. \<exists>sv'.
        pi_parse_time (format_time from False) = Inr a \<longrightarrow> pi_parse_time (format_time end_ns True) = Inr b \<longrightarrow>
        pe_http E \<lparr>pr_post = False, pr_path = ''streams/'' @ wid @ ''/recorded'', pr_params = recorded_params cfg from end_ns, pr_body = None\<rparr> sv =
          (Response 200 (Some (JObj [(''Items'', JArr (map JObj (take (nat (pi_max_count cfg)) (between (history wid) a b))))])), sv'))"

lemma objects_of_map: "objects_of (map JObj xs) = xs"
  by (induction xs) auto

lemma archive_get:
  assumes "pi_archive E cfg history" "in_years from" "in_years end_ns"
  shows "\<exists>s'. pi_get E (''streams/'' @ wid @ ''/recorded'') (recorded_params cfg from end_ns) what s =
    (Inr (JObj [(''Items'', JArr (map JObj (take (nat (pi_max_count cfg))
       (between (history wid) (ticks_of from False * TICK_NS) (ticks_of end_ns True * TICK_NS)))))]), s')"
proof -
  obtain sv' where "pe_http E \<lparr>pr_post = False, pr_path = ''streams/'' @ wid @ ''/recorded'', pr_params = recorded_params cfg from end_ns, pr_body = None\<rparr> (ps_server s) =
      (Response 200 (Some (JObj [(''Items'', JArr (map JObj (take (nat (pi_max_count cfg))
         (between (history wid) (ticks_of from False * TICK_NS) (ticks_of end_ns True * TICK_NS)))))])), sv')"
    using assms(1) format_parse [OF assms(2), of False] format_parse [OF assms(3), of True] unfolding pi_archive_def by blast
  then show ?thesis by (simp add: pi_get_def send_def Let_def raise_for_def web_status_def)
qed

definition stop_of :: "point_ref \<Rightarrow> stamp_error option \<Rightarrow> stream_end option" where
  "stop_of ref err = (case err of
     None \<Rightarrow> None
   | Some (TimestampError msg) \<Rightarrow> Some (StreamConnErr (pt_external_id ref @ '': '' @ msg) False)
   | Some BadCalendar \<Rightarrow> Some StreamCrash)"

lemma next_page_years:
  assumes "well_stamped history" "set page \<subseteq> set history" "0 < n" "read_page page c s e n = Inr (rows, Some c')"
  shows "in_years (at_ns c')"
proof -
  have known: "\<forall>item \<in> set page. pi_parse_time (stamp_text item) = Inr (item_ns item)"
    using assms(1,2) well_stampedD(1) by blast
  have "n \<le> length page"
    using assms(4) unfolding read_page_def stamps_of_known [OF known] rbind.simps Let_def by (auto split: if_splits)
  then have ne: "page \<noteq> []" using assms(3) by auto
  then have "at_ns c' = item_ns (last page)"
    using assms(4) unfolding read_page_def stamps_of_known [OF known] rbind.simps Let_def
    by (auto simp: last_map split: if_splits)
  then show ?thesis using well_stampedD(3) [OF assms(1)] assms(2) last_in_set [OF ne] by auto
qed

text \<open>Reading a stream is the loop over the pages of its history.\<close>

lemma pi_read_pages:
  assumes archive: "pi_archive E cfg history" "in_years end_ns" "well_stamped (history wid)" "0 < pi_max_count cfg" and "in_years (at_ns c)"
    and "read_pages (\<lambda>a b. case (pi_parse_time a, pi_parse_time b) of
        (Inr f, Inr t) \<Rightarrow> take (nat (pi_max_count cfg)) (between (history wid) f t) | _ \<Rightarrow> []) start_ns end_ns (nat (pi_max_count cfg)) c = Some (pages, err)"
      (is "read_pages ?ask _ _ ?n _ = _")
  shows "\<exists>s'. pi_read E cfg ref wid start_ns end_ns c s =
    Some ((concat (map (rows_item (pt_series_id ref)) pages), stop_of ref err), s')"
  using assms(5,6)
proof (induction pages arbitrary: c s)
  case Nil
  note eq = Nil.prems(2)
  let ?page = "take ?n (between (history wid) (ticks_of (at_ns c) False * TICK_NS) (ticks_of end_ns True * TICK_NS))"
  have ask: "?ask (format_time (at_ns c) False) (format_time end_ns True) = ?page"
    by (simp add: format_parse Nil.prems(1) archive(2))
  obtain s1 where get: "pi_get E (''streams/'' @ wid @ ''/recorded'') (recorded_params cfg (at_ns c) end_ns) (pt_external_id ref) s =
      (Inr (JObj [(''Items'', JArr (map JObj ?page))]), s1)" using archive_get [OF archive(1) Nil.prems(1) archive(2)] by blast
  obtain e where "read_page ?page c start_ns end_ns ?n = Inl e" "err = Some e"
    using eq ask by (subst (asm) read_pages.simps) (auto simp: bind_eq_Some_conv split: sum.splits option.splits prod.splits)
  then show ?case using get
    by (subst pi_read.simps) (simp add: items_of_def objects_of_map stop_of_def split: stamp_error.split)
next
  case (Cons rows pages)
  let ?page = "take ?n (between (history wid) (ticks_of (at_ns c) False * TICK_NS) (ticks_of end_ns True * TICK_NS))"
  have ask: "?ask (format_time (at_ns c) False) (format_time end_ns True) = ?page"
    by (simp add: format_parse Cons.prems(1) archive(2))
  obtain s1 where get: "pi_get E (''streams/'' @ wid @ ''/recorded'') (recorded_params cfg (at_ns c) end_ns) (pt_external_id ref) s =
      (Inr (JObj [(''Items'', JArr (map JObj ?page))]), s1)" using archive_get [OF archive(1) Cons.prems(1) archive(2)] by blast
  consider "read_page ?page c start_ns end_ns ?n = Inr (rows, None)" "pages = []" "err = None"
    | c' where "read_page ?page c start_ns end_ns ?n = Inr (rows, Some c')" "read_pages ?ask start_ns end_ns ?n c' = Some (pages, err)"
    using Cons.prems(2) ask by (subst (asm) read_pages.simps) (auto simp: bind_eq_Some_conv split: sum.splits option.splits prod.splits)
  then show ?case
  proof cases
    case 1
    then show ?thesis using get by (subst pi_read.simps) (simp add: items_of_def objects_of_map stop_of_def)
  next
    case 2
    have "set ?page \<subseteq> set (history wid)" by (auto simp: between_def dest!: in_set_takeD)
    then have "in_years (at_ns c')" using next_page_years [OF archive(3) _ _ 2(1)] archive(4) by simp
    with Cons.IH [OF this 2(2)] obtain s2 where "pi_read E cfg ref wid start_ns end_ns c' s1 =
        Some ((concat (map (rows_item (pt_series_id ref)) pages), stop_of ref err), s2)" by blast
    then show ?thesis using get 2(1) by (subst pi_read.simps) (simp add: items_of_def objects_of_map)
  qed
qed

text \<open>The rows of a page, and of all pages, are those of the point's series.\<close>

definition archive_rows :: "jobj list \<Rightarrow> ns \<Rightarrow> ns \<Rightarrow> batch_row list" where
  "archive_rows items start_ns end_ns =
     map (\<lambda>item. (item_ns item, fst (pi_convert item), Some (snd (pi_convert item))))
       (filter (\<lambda>item. start_ns \<le> item_ns item \<and> item_ns item < end_ns) items)"

definition crowded :: "jobj list \<Rightarrow> nat \<Rightarrow> bool" where
  "crowded items n \<longleftrightarrow> (\<exists>t. n \<le> length (filter (\<lambda>item. item_ns item = t) items))"

lemma rows_of_pages: "rows_for (concat (map (rows_item i) pages)) j =
    (if j = i then map (\<lambda>(t, v, q). (t, v, Some q)) (concat pages) else [])"
  by (induction pages) (auto simp: rows_item_def)

lemma pi_read_archive:
  assumes "pi_archive E cfg history" "well_stamped (history wid)" "0 < pi_max_count cfg" "in_years start_ns" "in_years end_ns"
  shows "\<exists>items stop s'. pi_read E cfg ref wid start_ns end_ns \<lparr>at_ns = start_ns, seen_at = 0\<rparr> s = Some ((items, stop), s') \<and>
    (stop = None \<longrightarrow> (\<forall>j. rows_for items j = (if j = pt_series_id ref then archive_rows (history wid) start_ns end_ns else []))) \<and>
    (stop \<noteq> None \<longrightarrow> stop \<noteq> Some StreamDone \<and> crowded (history wid) (nat (pi_max_count cfg)))"
proof -
  let ?n = "nat (pi_max_count cfg)"
  let ?ask = "\<lambda>a b. case (pi_parse_time a, pi_parse_time b) of (Inr f, Inr t) \<Rightarrow> take ?n (between (history wid) f t) | _ \<Rightarrow> []"
  have server: "pi_server ?ask (history wid) ?n" by (simp add: pi_server_def)
  have n: "0 < ?n" using assms(3) by simp
  from pi_pages_exact [OF server assms(2) n assms(4,5)] obtain pages err where pages: "read_pages ?ask start_ns end_ns ?n \<lparr>at_ns = start_ns, seen_at = 0\<rparr> = Some (pages, err)"
    and none: "err = None \<longrightarrow> concat pages = map (\<lambda>item. (item_ns item, pi_convert item))
        (filter (\<lambda>item. start_ns \<le> item_ns item \<and> item_ns item < end_ns) (history wid))"
    and some: "err \<noteq> None \<longrightarrow> (\<exists>t. ?n \<le> length (filter (\<lambda>item. item_ns item = t) (history wid)))"
    by (elim exE conjE) (rule that)
  obtain s' where read: "pi_read E cfg ref wid start_ns end_ns \<lparr>at_ns = start_ns, seen_at = 0\<rparr> s =
      Some ((concat (map (rows_item (pt_series_id ref)) pages), stop_of ref err), s')"
    using pi_read_pages [OF assms(1,5,2,3) _ pages] assms(4) by auto
  have "stop_of ref err = None \<longleftrightarrow> err = None" "stop_of ref err \<noteq> Some StreamDone"
    by (auto simp: stop_of_def split: option.split stamp_error.split)
  then show ?thesis
    using read none some by (auto simp: rows_of_pages archive_rows_def crowded_def split_beta comp_def)
qed

text \<open>The WebId a point was resolved to.\<close>

definition web_id_for :: "(string \<times> (string + string)) list \<Rightarrow> point_ref \<Rightarrow> string option" where
  "web_id_for found ref =
     (if is_pi_path (pt_external_id ref)
      then (case map_of (rev found) (pt_external_id ref) of Some (Inr wid) \<Rightarrow> Some wid | _ \<Rightarrow> None) else None)"

text \<open>What the stream holds of a point: its history's rows, or that it failed and no rows.\<close>

definition point_served :: "(string \<Rightarrow> jobj list) \<Rightarrow> (string \<times> (string + string)) list \<Rightarrow> ns \<Rightarrow> ns \<Rightarrow> fetch_item list \<Rightarrow> point_ref \<Rightarrow> bool" where
  "point_served history found start_ns end_ns items ref \<longleftrightarrow>
     (case web_id_for found ref of
        Some wid \<Rightarrow> rows_for items (pt_series_id ref) = archive_rows (history wid) start_ns end_ns
      | None \<Rightarrow> rows_for items (pt_series_id ref) = [] \<and> (\<exists>msg. ItemFailure (pt_series_id ref) msg \<in> set items))"

lemma read_points_archive:
  assumes "pi_archive E cfg history" "\<forall>wid. well_stamped (history wid)" "0 < pi_max_count cfg" "in_years start_ns" "in_years end_ns"
    and "\<forall>ref \<in> set refs. is_pi_path (pt_external_id ref) \<and> map_of (rev found) (pt_external_id ref) \<noteq> None"
    and "distinct (map pt_series_id refs)"
  shows "\<exists>items e s'. read_points E cfg found start_ns end_ns refs s = Some ((items, e), s') \<and>
    (e = StreamDone \<longrightarrow> (\<forall>ref \<in> set refs. point_served history found start_ns end_ns items ref) \<and>
       (\<forall>j. j \<notin> pt_series_id ` set refs \<longrightarrow> rows_for items j = [])) \<and>
    (e \<noteq> StreamDone \<longrightarrow> (\<exists>wid. crowded (history wid) (nat (pi_max_count cfg))))"
  using assms(6,7)
proof (induction refs arbitrary: s)
  case (Cons ref refs)
  have new: "pt_series_id ref \<notin> pt_series_id ` set refs" using Cons.prems(2) by simp
  have IH: "\<exists>items e s'. read_points E cfg found start_ns end_ns refs s = Some ((items, e), s') \<and>
    (e = StreamDone \<longrightarrow> (\<forall>ref \<in> set refs. point_served history found start_ns end_ns items ref) \<and>
       (\<forall>j. j \<notin> pt_series_id ` set refs \<longrightarrow> rows_for items j = [])) \<and>
    (e \<noteq> StreamDone \<longrightarrow> (\<exists>wid. crowded (history wid) (nat (pi_max_count cfg))))" for s
    using Cons by simp
  obtain r where r: "map_of (rev found) (pt_external_id ref) = Some r" using Cons.prems(1) by auto
  have pi: "is_pi_path (pt_external_id ref)" using Cons.prems(1) by simp
  show ?case
  proof (cases r)
    case (Inl msg)
    obtain items e s' where "read_points E cfg found start_ns end_ns refs s = Some ((items, e), s')"
      "e = StreamDone \<longrightarrow> (\<forall>ref \<in> set refs. point_served history found start_ns end_ns items ref) \<and>
        (\<forall>j. j \<notin> pt_series_id ` set refs \<longrightarrow> rows_for items j = [])"
      "e \<noteq> StreamDone \<longrightarrow> (\<exists>wid. crowded (history wid) (nat (pi_max_count cfg)))"
      using IH [of s] by blast
    note rest = this
    have "point_served history found start_ns end_ns (ItemFailure (pt_series_id ref) msg # items) ref'"
      if "e = StreamDone" "ref' \<in> set (ref # refs)" for ref'
    proof (cases "ref' = ref")
      case True
      have "rows_for items (pt_series_id ref) = []" using rest(2) that(1) new by blast
      then show ?thesis using True r Inl pi by (auto simp: point_served_def web_id_for_def)
    next
      case False
      then have "ref' \<in> set refs" using that(2) by simp
      then have "point_served history found start_ns end_ns items ref'" using rest(2) that(1) by blast
      then show ?thesis unfolding point_served_def by (cases "web_id_for found ref'") auto
    qed
    moreover have "read_points E cfg found start_ns end_ns (ref # refs) s = Some ((ItemFailure (pt_series_id ref) msg # items, e), s')"
      using r Inl rest(1) by simp
    moreover have "e = StreamDone \<longrightarrow> (\<forall>j. j \<notin> pt_series_id ` set (ref # refs) \<longrightarrow> rows_for (ItemFailure (pt_series_id ref) msg # items) j = [])"
      using rest(2) by simp
    ultimately show ?thesis using rest(3) by blast
  next
    case (Inr wid)
    obtain items1 stop s1 where read: "pi_read E cfg ref wid start_ns end_ns \<lparr>at_ns = start_ns, seen_at = 0\<rparr> s = Some ((items1, stop), s1)"
      and none: "stop = None \<longrightarrow> (\<forall>j. rows_for items1 j = (if j = pt_series_id ref then archive_rows (history wid) start_ns end_ns else []))"
      and some: "stop \<noteq> None \<longrightarrow> stop \<noteq> Some StreamDone \<and> crowded (history wid) (nat (pi_max_count cfg))"
      using pi_read_archive [OF assms(1) _ assms(3-5), of wid ref s] assms(2) by blast
    show ?thesis
    proof (cases stop)
      case (Some e)
      then show ?thesis using r Inr read some by (cases e) auto
    next
      case None
      obtain items e s' where rest: "read_points E cfg found start_ns end_ns refs s1 = Some ((items, e), s')"
        "e = StreamDone \<longrightarrow> (\<forall>ref \<in> set refs. point_served history found start_ns end_ns items ref) \<and>
          (\<forall>j. j \<notin> pt_series_id ` set refs \<longrightarrow> rows_for items j = [])"
        "e \<noteq> StreamDone \<longrightarrow> (\<exists>wid. crowded (history wid) (nat (pi_max_count cfg)))"
        using IH [of s1] by blast
      have all: "read_points E cfg found start_ns end_ns (ref # refs) s = Some ((items1 @ items, e), s')"
        using r Inr read rest(1) None by simp
      have rows1: "rows_for items1 j = (if j = pt_series_id ref then archive_rows (history wid) start_ns end_ns else [])" for j
        using none None by simp
      have "point_served history found start_ns end_ns (items1 @ items) ref'" if "e = StreamDone" "ref' \<in> set (ref # refs)" for ref'
      proof (cases "ref' = ref")
        case True
        then show ?thesis using rest(2) that(1) new rows1 r Inr pi by (simp add: point_served_def web_id_for_def)
      next
        case False
        then have "ref' \<in> set refs" using that(2) by simp
        moreover from this have "pt_series_id ref' \<noteq> pt_series_id ref" using new by (metis imageI)
        then have "rows_for items1 (pt_series_id ref') = []" using rows1 by simp
        moreover have "point_served history found start_ns end_ns items ref'" using rest(2) that(1) \<open>ref' \<in> set refs\<close> by blast
        ultimately show ?thesis unfolding point_served_def by (cases "web_id_for found ref'") auto
      qed
      moreover have "e = StreamDone \<longrightarrow> (\<forall>j. j \<notin> pt_series_id ` set (ref # refs) \<longrightarrow> rows_for (items1 @ items) j = [])"
        using rest(2) rows1 by simp
      ultimately show ?thesis using all rest(3) by blast
    qed
  qed
qed simp

lemma take_answers_covers: "take_answers E body n paths out s = (Inr found, s') \<Longrightarrow> fst ` set found = fst ` set out \<union> set paths"
  by (induction paths arbitrary: n out s) (auto simp: pi_return_def pi_bind_def lift_result_def split: sum.splits prod.splits)

lemma resolve_covers:
  assumes "resolve_paths E cfg paths s = (Inr found, s')" "p \<in> set paths"
  shows "map_of (rev found) p \<noteq> None"
proof -
  define missing where "missing = filter (\<lambda>p. map_of (ps_web_ids s) p = None) (distinct_paths paths)"
  define known where "known = concat (map (\<lambda>p. case map_of (ps_web_ids s) p of Some w \<Rightarrow> [(p, Inr w :: string + string)] | None \<Rightarrow> []) paths)"
  have "p \<in> fst ` set known" if "map_of (ps_web_ids s) p \<noteq> None" using that assms(2) by (force simp: known_def split: option.splits)
  moreover have "p \<in> set missing" if "map_of (ps_web_ids s) p = None" using that assms(2) by (simp add: missing_def)
  moreover have "fst ` set found = fst ` set known \<union> set missing"
  proof (cases "missing = []")
    case True
    then show ?thesis using assms(1) by (simp add: resolve_paths_def Let_def del: distinct_paths.simps flip: missing_def known_def)
  next
    case False
    then obtain answers n s2 where "take_answers E answers n missing known s2 = (Inr found, s')"
      using assms(1) unfolding resolve_paths_def Let_def missing_def [symmetric] known_def [symmetric]
      using False by (auto simp: pi_bind_def pi_fail_def split: sum.splits prod.splits json.splits)
    then show ?thesis by (rule take_answers_covers)
  qed
  ultimately have "p \<in> fst ` set found" by auto
  then show ?thesis by (simp add: map_of_eq_None_iff)
qed

text \<open>C33: Against a PI Web API that answers recorded values as documented, cutting each answer silently at its limit, a
  fetch whose paths were looked up always returns.  When its stream ends normally, every point of the call was served:
  a point that PI knows has exactly the rows of its history within the window, each value once and in time order whatever
  the paging, and any other point is reported as failed and has no rows.  The stream ends with an error only when a
  history holds a full page of values at one time.\<close>

theorem pi_fetch_complete:
  assumes "pi_archive E cfg history" "\<forall>wid. well_stamped (history wid)" "0 < pi_max_count cfg" "in_years start_ns" "in_years end_ns"
    and "distinct (map pt_series_id points)"
    and "resolve_paths E cfg (map pt_external_id (filter (\<lambda>p. is_pi_path (pt_external_id p)) points)) s = (Inr found, s1)"
  shows "\<exists>items e s'. pi_fetch E cfg points start_ns end_ns s = Some ((items, e), s') \<and>
    (e = StreamDone \<longrightarrow> (\<forall>ref \<in> set points. point_served history found start_ns end_ns items ref)) \<and>
    (e \<noteq> StreamDone \<longrightarrow> (\<exists>wid. crowded (history wid) (nat (pi_max_count cfg))))"
proof -
  let ?valid = "filter (\<lambda>p. is_pi_path (pt_external_id p)) points"
  define failures where "failures = map (\<lambda>p. ItemFailure (pt_series_id p) (''not a PI path: '' @ take 100 (pt_external_id p)))
            (filter (\<lambda>p. \<not> is_pi_path (pt_external_id p)) points)"
  have no_rows: "rows_for failures j = []" for j by (intro rows_for_failures) (auto simp: failures_def)
  have failed: "\<exists>msg. ItemFailure (pt_series_id ref) msg \<in> set failures" if "ref \<in> set points" "\<not> is_pi_path (pt_external_id ref)" for ref
    using that by (auto simp: failures_def)
  obtain items e s' where read: "read_points E cfg found start_ns end_ns ?valid s1 = Some ((items, e), s')"
    and served: "e = StreamDone \<longrightarrow> (\<forall>ref \<in> set ?valid. point_served history found start_ns end_ns items ref) \<and>
       (\<forall>j. j \<notin> pt_series_id ` set ?valid \<longrightarrow> rows_for items j = [])"
    and stopped: "e \<noteq> StreamDone \<longrightarrow> (\<exists>wid. crowded (history wid) (nat (pi_max_count cfg)))"
    using read_points_archive [OF assms(1-5), of ?valid found s1] resolve_covers [OF assms(7)] assms(6) distinct_map_filter by fastforce
  have point: "point_served history found start_ns end_ns (failures @ items) ref" if "e = StreamDone" "ref \<in> set points" for ref
  proof (cases "is_pi_path (pt_external_id ref)")
    case True
    then show ?thesis using served that no_rows by (fastforce simp: point_served_def split: option.splits)
  next
    case False
    then have "pt_series_id ref \<notin> pt_series_id ` set ?valid"
      using assms(6) that(2) by (auto simp: distinct_map dest: inj_onD)
    then show ?thesis using False served that no_rows failed [OF that(2)] by (auto simp: point_served_def web_id_for_def)
  qed
  show ?thesis
  proof (cases "?valid = []")
    case True
    then have "e = StreamDone" "items = []" using read by auto
    then show ?thesis using True point unfolding pi_fetch_def Let_def failures_def by auto
  next
    case False
    then have "pi_fetch E cfg points start_ns end_ns s = Some ((failures @ items, e), s')"
      using assms(7) read by (simp add: pi_fetch_def Let_def failures_def)
    then show ?thesis using point stopped by blast
  qed
qed

lemma sample_archive: "pi_archive sample_pi_env sample_pi_config (\<lambda>_. sample_history)"
  by (simp add: pi_archive_def sample_pi_env_def recorded_params_def sample_pi_config_def)

lemma sample_resolved: "resolve_paths sample_pi_env sample_pi_config (map pt_external_id (filter (\<lambda>p. is_pi_path (pt_external_id p)) sample_points)) sample_pi_state =
    (Inr [(sample_pi_path, Inr ''W1'')], sample_pi_state)"
  by (simp add: resolve_paths_def sample_pi_state_def sample_points_def sample_pi_path_def is_pi_path_def)

theorem pi_fetch_complete_witness:
  "\<exists>items e s'. pi_fetch sample_pi_env sample_pi_config sample_points 1714521600000000000 1714521603000000000 sample_pi_state = Some ((items, e), s') \<and>
    (e = StreamDone \<longrightarrow> rows_for items 7 = archive_rows sample_history 1714521600000000000 1714521603000000000)"
proof -
  have "distinct (map pt_series_id sample_points)" "0 < pi_max_count sample_pi_config" by (simp_all add: sample_points_def sample_pi_config_def)
  from pi_fetch_complete [OF sample_archive _ this(2) sample_years(1) sample_years(2) this(1) sample_resolved]
  have "\<exists>items e s'. pi_fetch sample_pi_env sample_pi_config sample_points 1714521600000000000 1714521603000000000 sample_pi_state = Some ((items, e), s') \<and>
    (e = StreamDone \<longrightarrow> (\<forall>ref \<in> set sample_points. point_served (\<lambda>_. sample_history) [(sample_pi_path, Inr ''W1'')]
      1714521600000000000 1714521603000000000 items ref))"
    using sample_stamped by blast
  moreover have "point_served (\<lambda>_. sample_history) [(sample_pi_path, Inr ''W1'')] s e items \<lparr>pt_series_id = 7, pt_external_id = sample_pi_path\<rparr> \<longleftrightarrow>
      rows_for items 7 = archive_rows sample_history s e" for s e items
    by (simp add: point_served_def web_id_for_def sample_pi_path_def is_pi_path_def)
  ultimately show ?thesis by (auto simp: sample_points_def)
qed

end
