(* ===== verification/Net_Facts.thy ===== *)
theory Net_Facts
  imports Net_Policy Timeparse
begin

text \<open>
  What the address policy refuses, in intervals of addresses instead of networks, and that a pinned client sends its
  requests only where the policy allows.
\<close>

section \<open>Networks are intervals\<close>

lemma and_not_mask: "a AND NOT (mask k) = n \<longleftrightarrow> drop_bit k a = drop_bit k n \<and> n AND mask k = 0" for a n :: "'a :: len word"
proof
  assume "a AND NOT (mask k) = n"
  then show "drop_bit k a = drop_bit k n \<and> n AND mask k = 0" by (auto intro!: bit_word_eqI simp: bit_simps dest: bit_imp_le_length)
next
  assume eq: "drop_bit k a = drop_bit k n \<and> n AND mask k = 0"
  show "a AND NOT (mask k) = n"
  proof (rule bit_word_eqI)
    fix i assume i: "i < LENGTH('a)"
    show "bit (a AND NOT (mask k)) i = bit n i"
    proof (cases "i < k")
      case True
      have "bit (n AND mask k) i = False" using eq by simp
      then show ?thesis using True i by (simp add: bit_simps)
    next
      case False
      have "bit (drop_bit k a) (i - k) = bit (drop_bit k n) (i - k)" using eq by simp
      then show ?thesis using False i by (simp add: bit_simps)
    qed
  qed
qed

lemma div_eq_block: "0 < m \<Longrightarrow> n mod m = 0 \<Longrightarrow> a div m = n div m \<longleftrightarrow> n \<le> a \<and> a < n + m" for a n m :: nat
proof
  assume m: "0 < m" "n mod m = 0" and d: "a div m = n div m"
  have n: "n = m * (a div m)" using m mult_div_mod_eq [of m n] by (simp add: d)
  have "a = n + a mod m" using mult_div_mod_eq [of m a] by (simp only: n [symmetric])
  then show "n \<le> a \<and> a < n + m" using mod_less_divisor [OF m(1), of a] by simp
next
  assume m: "0 < m" "n mod m = 0" and "n \<le> a \<and> a < n + m"
  then obtain r where r: "a = n + r" "r < m" by (metis add.commute le_iff_add nat_add_left_cancel_less)
  obtain q where q: "n = q * m" using m(2) by (metis dvd_def mod_eq_0_iff_dvd mult.commute)
  show "a div m = n div m" using m(1) r(2) by (simp add: r(1) q)
qed

lemma masked_iff:
  fixes a n :: "'a :: len word"
  assumes "unat n mod 2 ^ k = 0" "k < LENGTH('a)"
  shows "a AND NOT (mask k) = n \<longleftrightarrow> unat n \<le> unat a \<and> unat a < unat n + 2 ^ k"
proof -
  have "unat (n AND mask k) = 0" using assms(1)
    by (simp add: unsigned_take_bit_eq flip: take_bit_eq_mask take_bit_eq_mod)
  then have "n AND mask k = 0" by (simp add: unat_eq_0)
  moreover have "drop_bit k a = drop_bit k n \<longleftrightarrow> unat a div 2 ^ k = unat n div 2 ^ k"
    unfolding word_unat_eq_iff unat_drop_bit_eq unfolding drop_bit_eq_div ..
  ultimately show ?thesis unfolding and_not_mask using div_eq_block [of "2 ^ k" "unat n" "unat a"] assms(1) by simp
qed


lemma in_net4: "unat n mod 2 ^ (32 - len) = 0 \<Longrightarrow> 0 < len \<Longrightarrow> len \<le> 32 \<Longrightarrow>
    in_net (IP4 a) (Net4 n len) \<longleftrightarrow> unat n \<le> unat a \<and> unat a < unat n + 2 ^ (32 - len)"
  using masked_iff [of n "32 - len" a] by simp

lemma in_net6: "unat n mod 2 ^ (128 - len) = 0 \<Longrightarrow> 0 < len \<Longrightarrow> len \<le> 128 \<Longrightarrow>
    in_net (IP6 a s) (Net6 n len) \<longleftrightarrow> unat n \<le> unat a \<and> unat a < unat n + 2 ^ (128 - len)"
  using masked_iff [of n "128 - len" a] by simp

text \<open>
  What is never reached, as intervals of addresses: in IPv4 \<^verbatim>\<open>0.0.0.0\<close>,
  \<^verbatim>\<open>127.0.0.0/8\<close>, \<^verbatim>\<open>169.254.0.0/16\<close> and everything from
  \<^verbatim>\<open>224.0.0.0\<close> on; in IPv6 everything but \<^verbatim>\<open>2000::/3\<close>,
  \<^verbatim>\<open>fc00::/7\<close> and \<^verbatim>\<open>fec0::/10\<close>.
\<close>

definition forbidden4 :: "nat \<Rightarrow> bool" where
  "forbidden4 a \<longleftrightarrow> a = 0 \<or> 127 * 2 ^ 24 \<le> a \<and> a < 128 * 2 ^ 24 \<or>
     (169 * 256 + 254) * 2 ^ 16 \<le> a \<and> a < (169 * 256 + 255) * 2 ^ 16 \<or> 224 * 2 ^ 24 \<le> a"

definition forbidden6 :: "nat \<Rightarrow> bool" where
  "forbidden6 a \<longleftrightarrow> \<not> (0x2000 * 2 ^ 112 \<le> a \<and> a < 0x4000 * 2 ^ 112 \<or>
     0xFC00 * 2 ^ 112 \<le> a \<and> a < 0xFE00 * 2 ^ 112 \<or> 0xFEC0 * 2 ^ 112 \<le> a \<and> a < 0xFF00 * 2 ^ 112)"

lemma always_refused4: "always_refused (IP4 a) \<longleftrightarrow> forbidden4 (unat a)"
proof -
  have "a = n \<longleftrightarrow> unat a = unat n" for n by (rule word_unat_eq_iff)
  note point = this [of 0] this [of "quad 255 255 255 255"]
  have "unat a < 4294967296" using unsigned_less [of a] by simp
  then show ?thesis
    unfolding always_refused_def forbidden4_def is_loopback.simps is_link_local.simps is_unspecified.simps is_multicast.simps
      is_reserved.simps BROADCAST_def ip.inject point
    by (simp add: in_net4 quad_def del: in_net.simps) arith
qed

text \<open>Adjacent intervals are one.\<close>

fun chained :: "nat \<Rightarrow> nat list \<Rightarrow> bool" where
  "chained a (c # d # cs) = (c \<le> a \<and> a < d \<or> chained a (d # cs))"
| "chained a _ = False"

lemma chained_iff: "sorted (c # cs) \<Longrightarrow> chained a (c # cs) \<longleftrightarrow> c \<le> a \<and> a < last (c # cs)"
proof (induction cs arbitrary: c)
  case (Cons d cs)
  then have "chained a (d # cs) \<longleftrightarrow> d \<le> a \<and> a < last (d # cs)" "c \<le> d" "d \<le> last (d # cs)" by auto
  then show ?case by auto
qed simp

lemma always_refused6: "always_refused (IP6 a s) \<longleftrightarrow> forbidden6 (unat a)"
proof -
  have "a = n \<longleftrightarrow> unat a = unat n" for n by (rule word_unat_eq_iff)
  note point = this [of 0] this [of 1]
  have lt: "unat a < 2 ^ 128" using unsigned_less [of a] by simp
  have reserved: "is_reserved (IP6 a s) \<longleftrightarrow>
      chained (unat a) (map (\<lambda>n. n * 2 ^ 112) [0, 0x100, 0x200, 0x400, 0x800, 0x1000, 0x2000]) \<or>
      chained (unat a) (map (\<lambda>n. n * 2 ^ 112) [0x4000, 0x6000, 0x8000, 0xA000, 0xC000, 0xE000, 0xF000, 0xF800, 0xFC00]) \<or>
      chained (unat a) (map (\<lambda>n. n * 2 ^ 112) [0xFE00, 0xFE80])"
    by (simp add: in_any_def reserved6_def in_net6 groups6_def disj_assoc del: in_net.simps)
  show ?thesis
    using lt
    unfolding always_refused_def forbidden6_def is_loopback.simps is_link_local.simps is_unspecified.simps is_multicast.simps
      reserved BROADCAST_def point list.map
    by (simp add: chained_iff in_net6 groups6_def del: in_net.simps chained.simps) arith
qed

section \<open>Forms of an IPv4 address\<close>

definition mapped4 :: "32 word \<Rightarrow> 128 word" where "mapped4 v = push_bit 32 0xFFFF OR ucast v"
definition nat64 :: "32 word \<Rightarrow> 128 word" where "nat64 v = groups6 0x64 0xFF9B 0 0 OR ucast v"

definition stands_for :: "ip \<Rightarrow> 32 word \<Rightarrow> bool" where
  "stands_for a v \<longleftrightarrow> a = IP4 v \<or> (\<exists>s. a = IP6 (mapped4 v) s \<or> a = IP6 (nat64 v) s)"

lemma drop_low: "drop_bit 32 (ucast (v :: 32 word) :: 128 word) = 0"
  by (rule bit_word_eqI) (auto simp: bit_simps dest: bit_imp_le_length)

lemma low_bits: "w = (w AND NOT (mask 32)) OR ucast (ucast w :: 32 word)" for w :: "128 word"
  by (rule bit_word_eqI) (auto simp: bit_simps)

lemma mapped_form: "drop_bit 32 w = n \<Longrightarrow> w = push_bit 32 n OR ucast (ucast w :: 32 word)" for w :: "128 word"
  by (rule bit_word_eqI) (auto simp: bit_simps)

lemma ucast_or_low: "ucast (push_bit 32 n OR ucast v :: 128 word) = (v :: 32 word)"
  by (rule bit_word_eqI) (auto simp: bit_simps)

lemma ucast_nat64: "ucast (nat64 v AND 0xFFFFFFFF) = v"
proof -
  have "groups6 0x64 0xFF9B 0 0 = push_bit 32 (drop_bit 32 (groups6 0x64 0xFF9B 0 0))" by (simp add: groups6_def)
  moreover have "(0xFFFFFFFF :: 128 word) = mask 32" by (simp add: mask_eq_exp_minus_1)
  moreover have "ucast (w AND mask 32) = (ucast w :: 32 word)" for w :: "128 word"
    by (rule bit_word_eqI) (auto simp: bit_simps)
  ultimately show ?thesis using ucast_or_low unfolding nat64_def by metis
qed

lemma embedded_mapped: "embedded (IP6 (mapped4 v) s) = IP4 v"
  using ucast_or_low [of "0xFFFF" v] by (simp add: mapped4_def drop_bit_or drop_low)

lemma embedded_nat64: "embedded (IP6 (nat64 v) s) = IP4 v"
proof -
  have high: "drop_bit 32 (nat64 v) = drop_bit 32 (groups6 0x64 0xFF9B 0 0)" by (simp add: nat64_def drop_bit_or drop_low)
  have "groups6 0x64 0xFF9B 0 0 AND mask 32 = 0" by (simp add: groups6_def mask_eq_exp_minus_1)
  then have "nat64 v AND NOT (mask 32) = groups6 0x64 0xFF9B 0 0" using high by (simp only: and_not_mask simp_thms)
  then have "in_net (IP6 (nat64 v) s) NAT64" by (simp add: NAT64_def)
  moreover have "drop_bit 32 (nat64 v) \<noteq> 0xFFFF" unfolding high by (simp add: groups6_def)
  ultimately show ?thesis by (simp add: ucast_nat64)
qed

lemma embedded_forms: "stands_for a v \<Longrightarrow> embedded a = IP4 v"
  using embedded_mapped embedded_nat64 by (auto simp: stands_for_def simp del: embedded.simps(2))

lemma embedded_itself: "\<forall>v. \<not> stands_for (IP6 w s) v \<Longrightarrow> embedded (IP6 w s) = IP6 w s"
proof -
  assume no: "\<forall>v. \<not> stands_for (IP6 w s) v"
  have "drop_bit 32 w \<noteq> 0xFFFF" using no mapped_form [of w] unfolding stands_for_def mapped4_def by blast
  moreover have "w AND NOT (mask 32) \<noteq> groups6 0x64 0xFF9B 0 0"
  proof
    assume "w AND NOT (mask 32) = groups6 0x64 0xFF9B 0 0"
    then have "w = nat64 (ucast w)" using low_bits [of w] unfolding nat64_def by metis
    then have "stands_for (IP6 w s) (ucast w)" unfolding stands_for_def by blast
    then show False using no by blast
  qed
  then have "\<not> in_net (IP6 w s) NAT64" by (simp add: NAT64_def)
  ultimately show ?thesis by simp
qed

section \<open>Where a client connects\<close>

text \<open>
  The networks of IPv4 that are not public and not always refused, as intervals: private use, shared address space, protocol
  assignments, documentation and benchmarking.
\<close>

definition special4 :: "nat \<Rightarrow> bool" where
  "special4 a \<longleftrightarrow>
     (\<exists>(lo, hi) \<in> {((0, 0, 0, 0), (1, 0, 0, 0)), ((10, 0, 0, 0), (11, 0, 0, 0)), ((100, 64, 0, 0), (100, 128, 0, 0)), ((172, 16, 0, 0), (172, 32, 0, 0)),
        ((192, 0, 0, 0), (192, 0, 0, 9)), ((192, 0, 0, 11), (192, 0, 1, 0)), ((192, 0, 2, 0), (192, 0, 3, 0)),
        ((192, 168, 0, 0), (192, 169, 0, 0)), ((198, 18, 0, 0), (198, 20, 0, 0)), ((198, 51, 100, 0), (198, 51, 101, 0)),
        ((203, 0, 113, 0), (203, 0, 114, 0))}.
        (case lo of (b1, b2, b3, b4) \<Rightarrow> ((b1 * 256 + b2) * 256 + b3) * 256 + b4 \<le> a) \<and>
        (case hi of (b1, b2, b3, b4) \<Rightarrow> a < ((b1 * 256 + b2) * 256 + b3) * 256 + b4))"

lemma global4: "\<not> always_refused (IP4 a) \<Longrightarrow> is_global (IP4 a) \<longleftrightarrow> \<not> special4 (unat a)"
proof -
  have "a = n \<longleftrightarrow> unat a = unat n" for n by (rule word_unat_eq_iff)
  have lt: "unat a < 4294967296" using unsigned_less [of a] by simp
  have exc: "in_any (IP4 a) private4_exceptions \<longleftrightarrow> 3221225481 \<le> unat a \<and> unat a < 3221225483"
    by (simp add: in_any_def private4_exceptions_def in_net4 quad_def del: in_net.simps) arith
  assume "\<not> always_refused (IP4 a)"
  then have free: "\<not> forbidden4 (unat a)" by (simp add: always_refused4)
  then have "chained (unat a) [0, 1, 16777216, 167772160, 184549376, 1681915904, 1686110208, 2130706432, 2147483648, 2851995648, 2852061184, 2886729728, 2887778304, 3221225472, 3221225481, 3221225483, 3221225642, 3221225644, 3221225728, 3221225984, 3221226240, 3232235520, 3232301056, 3323068416, 3323199488, 3325256704, 3325256960, 3405803776, 3405804032, 3758096384]"
    by (subst chained_iff) (simp_all add: forbidden4_def)
  then show ?thesis using free unfolding is_global.simps is_private.simps exc chained.simps
    by (elim disjE) (simp_all add: forbidden4_def special4_def in_any_def private4_def in_net4 quad_def del: in_net.simps)
qed

definition forbidden :: "ip \<Rightarrow> bool" where
  "forbidden a = (case a of IP4 v \<Rightarrow> forbidden4 (unat v) | IP6 w s \<Rightarrow> forbidden6 (unat w))"

definition special :: "ip \<Rightarrow> bool" where
  "special a = (case a of IP4 v \<Rightarrow> special4 (unat v) | IP6 w s \<Rightarrow> is_private a)"

text \<open>The address a connection to \<open>a\<close> ends at.\<close>

definition ends_at :: "ip \<Rightarrow> ip \<Rightarrow> bool" where
  "ends_at a d \<longleftrightarrow> (\<exists>v. stands_for a v \<and> d = IP4 v) \<or> (\<forall>v. \<not> stands_for a v) \<and> d = a"

lemma ends_at_embedded: "ends_at a d \<Longrightarrow> embedded a = d"
  by (cases a) (auto simp: ends_at_def simp del: embedded.simps(2) dest: embedded_forms embedded_itself)

lemma ends_somewhere: "\<exists>d. ends_at a d"
  by (auto simp: ends_at_def)

lemma always_refused_forbidden: "always_refused d \<longleftrightarrow> forbidden d"
  by (cases d) (simp_all add: forbidden_def always_refused4 always_refused6)

lemma allows_ip_iff:
  assumes "ends_at a d"
  shows "allows_ip p a \<longleftrightarrow> \<not> forbidden d \<and> (in_any d (np_allowed p) \<or> np_allow_public p \<and> \<not> special d)"
proof -
  have "is_global d \<longleftrightarrow> \<not> special d" if "\<not> always_refused d"
  proof (cases d)
    case (IP4 v)
    then show ?thesis using that global4 by (simp add: special_def del: is_global.simps)
  next
    case (IP6 w s)
    then show ?thesis by (simp add: special_def del: is_private.simps)
  qed
  then show ?thesis unfolding allows_ip_def ends_at_embedded [OF assms] Let_def always_refused_forbidden by auto
qed

lemma all_allowedD: "all_allowed X p ss = Inr True \<Longrightarrow> s \<in> set ss \<Longrightarrow> ip_of X s = Some a \<Longrightarrow> allows_ip p a"
  by (induction ss) (auto simp: address_allowed_def address_of_def result_simps split: option.splits if_splits)

lemma addresses_set: "addresses X ss = Inr as \<Longrightarrow> map (ip_of X) ss = map Some as"
  by (induction ss arbitrary: as) (auto simp: address_of_def result_simps split: option.splits)

lemma resolve_allowed:
  assumes "resolve X p host port = Inr as"
  shows "as \<noteq> []" "\<forall>a \<in> set as. allows_ip p a"
proof -
  obtain answers where answers: "answers \<noteq> []" "all_allowed X p answers = Inr True"
    "addresses X (rev (remdups (rev answers))) = Inr as"
    using assms by (auto simp: resolve_def result_simps split: if_splits)
  note found = addresses_set [OF answers(3)]
  have "length as = length (remdups (rev answers))" using arg_cong [OF found, of length] by simp
  then show "as \<noteq> []" using answers(1) by (metis length_0_conv remdups_eq_nil_iff rev_is_Nil_conv)
  show "\<forall>a \<in> set as. allows_ip p a"
  proof
    fix a assume "a \<in> set as"
    then have "Some a \<in> set (map (ip_of X) (rev (remdups (rev answers))))" unfolding found by simp
    then show "allows_ip p a" using all_allowedD [OF answers(2)] by auto
  qed
qed

text \<open>Printing an address and reading it gives the address back.\<close>

definition reads_back :: "ip_texts \<Rightarrow> bool" where
  "reads_back X \<longleftrightarrow> (\<forall>a. ip_of X (ip_text X a) = Some a)"

text \<open>C28: A connector's HTTP client sends every request to a checked address: the one it is pinned to, whatever
  the resolver answers later, never an address that is always refused, also not as an IPv4-mapped or NAT64 form, and outside
  the public networks only one inside the allowed networks.  The TLS name and the Host header stay those of the
  URL, and redirects are not followed.\<close>

theorem client_connects_where_allowed:
  assumes "reads_back X" "make_client X urlsplit p url = Inr client" "handle_request (hc_transport client) request = Inr sent"
  shows "(\<exists>a d. ip_of X (rq_host sent) = Some a \<and> ends_at a d \<and> \<not> forbidden d \<and>
      (in_any d (np_allowed p) \<or> np_allow_public p \<and> \<not> special d)) \<and>
    url_hostname (urlsplit url) = Some (rq_host request) \<and> rq_sni sent = Some (rq_host request) \<and>
    rq_host_header sent = rq_host_header request \<and> \<not> hc_follow_redirects client"
proof -
  obtain hostname port as where made: "url_hostname (urlsplit url) = Some hostname" "resolve X p hostname port = Inr as"
    "hc_transport client = \<lparr>pin_hostname = hostname, pin_address = ip_text X (hd as)\<rparr>" "\<not> hc_follow_redirects client"
    using assms(2) by (auto simp: make_client_def Let_def result_simps split: option.splits if_splits)
  have "allows_ip p (hd as)" using resolve_allowed [OF made(2)] by simp
  moreover have "ip_of X (ip_text X (hd as)) = Some (hd as)" using assms(1) by (simp add: reads_back_def)
  moreover have "rq_host request = hostname" and sent: "sent = request\<lparr>rq_host := ip_text X (hd as), rq_sni := Some hostname\<rparr>"
    using assms(3) by (auto simp: handle_request_def made(3) split: if_splits)
  ultimately show ?thesis using allows_ip_iff ends_somewhere [of "hd as"] made(1,4) by auto
qed

text \<open>Texts that read back, and an install that lets its connectors into one private network.\<close>

definition sample_texts :: ip_texts where
  "sample_texts =
     \<lparr>ip_of = (\<lambda>s. case s of
          c # rest \<Rightarrow>
            (let n = dec_val (takeWhile is_digit rest); scope = dropWhile is_digit rest in
             if c = CHR ''4'' then Some (IP4 (word_of_nat n))
             else if c = CHR ''6'' then Some (IP6 (word_of_nat n) (if scope = [] then None else Some (tl scope)))
             else None)
        | [] \<Rightarrow> None),
      ip_text = (\<lambda>a. case a of
          IP4 v \<Rightarrow> ''4'' @ nat_str (unat v)
        | IP6 w s \<Rightarrow> ''6'' @ nat_str (unat w) @ (case s of None \<Rightarrow> [] | Some z \<Rightarrow> CHR ''%'' # z))\<rparr>"

definition sample_net_policy :: net_policy where
  "sample_net_policy = \<lparr>np_allowed = [Net4 (quad 10 0 0 0) 8], np_allow_public = False,
     np_resolver = (\<lambda>h port. if h = ''pi'' then Some [''4168034308''] else None), np_redirect = []\<rparr>"

definition sample_split :: "string \<Rightarrow> split_url" where
  "sample_split u = \<lparr>url_scheme = ''https'', url_hostname = Some ''pi'', url_port = None\<rparr>"

lemma digits_then:
  "takeWhile is_digit (nat_str n) = nat_str n" "dropWhile is_digit (nat_str n) = []"
  "takeWhile is_digit (nat_str n @ CHR ''%'' # z) = nat_str n" "dropWhile is_digit (nat_str n @ CHR ''%'' # z) = CHR ''%'' # z"
  "dec_val (nat_str n) = n"
proof -
  have "\<not> is_digit (CHR ''%'')" by (simp add: is_digit_def less_eq_char_def)
  moreover have "\<forall>c \<in> set (nat_str n). is_digit c" using nat_str_facts [of n] by blast
  ultimately show "takeWhile is_digit (nat_str n) = nat_str n" "dropWhile is_digit (nat_str n) = []"
    "takeWhile is_digit (nat_str n @ CHR ''%'' # z) = nat_str n" "dropWhile is_digit (nat_str n @ CHR ''%'' # z) = CHR ''%'' # z"
    by (simp_all add: takeWhile_append2 dropWhile_append2 takeWhile_eq_all_conv)
  show "dec_val (nat_str n) = n" using nat_str_facts [of n] by blast
qed

lemma sample_texts_read_back: "reads_back sample_texts"
  unfolding reads_back_def sample_texts_def ip_texts.simps
proof
  fix a
  show "(case (case a of IP4 v \<Rightarrow> ''4'' @ nat_str (unat v)
      | IP6 w s \<Rightarrow> ''6'' @ nat_str (unat w) @ (case s of None \<Rightarrow> [] | Some z \<Rightarrow> CHR ''%'' # z)) of
        [] \<Rightarrow> None
      | c # rest \<Rightarrow>
          (let n = dec_val (takeWhile is_digit rest); scope = dropWhile is_digit rest in
             if c = CHR ''4'' then Some (IP4 (word_of_nat n))
             else if c = CHR ''6'' then Some (IP6 (word_of_nat n) (if scope = [] then None else Some (tl scope)))
             else None)) = Some a"
    by (cases a) (auto simp: digits_then simp del: dropWhile_eq_Nil_conv split: option.split)
qed

definition sample_client :: http_client where
  "sample_client = \<lparr>hc_base_url = ''https://pi/'',
     hc_transport = \<lparr>pin_hostname = ''pi'', pin_address = ''4168034308''\<rparr>, hc_follow_redirects = False\<rparr>"

lemma sample_address: "ip_of sample_texts ''4168034308'' = Some (IP4 (quad 10 4 0 4))" "ip_of sample_texts ''pi'' = None"
  "ip_text sample_texts (IP4 (quad 10 4 0 4)) = ''4168034308''"
proof -
  have n: "nat_str 168034308 = ''168034308''" by (simp add: nat_str.simps digit_char_def char_of_def bit_Suc_0_iff)
  then have q: "unat (quad 10 4 0 4) = 168034308" "quad 10 4 0 4 = word_of_nat (dec_val ''168034308'')"
    using digits_then(5) [of 168034308] by (simp_all add: quad_def)
  then show "ip_text sample_texts (IP4 (quad 10 4 0 4)) = ''4168034308''" using n by (simp add: sample_texts_def)
  show "ip_of sample_texts ''4168034308'' = Some (IP4 (quad 10 4 0 4))"
    using q digits_then(1) [of 168034308] n by (simp add: sample_texts_def)
  show "ip_of sample_texts ''pi'' = None" by (simp add: sample_texts_def Let_def)
qed

lemma sample_allowed: "allows_ip sample_net_policy (IP4 (quad 10 4 0 4))"
proof -
  have "ends_at (IP4 (quad 10 4 0 4)) (IP4 (quad 10 4 0 4))" by (auto simp: ends_at_def stands_for_def)
  moreover have "in_any (IP4 (quad 10 4 0 4)) (np_allowed sample_net_policy)"
    by (simp add: sample_net_policy_def in_any_def in_net4 quad_def del: in_net.simps)
  ultimately show ?thesis by (simp add: allows_ip_iff forbidden_def forbidden4_def quad_def)
qed

lemma sample_client_made: "make_client sample_texts sample_split sample_net_policy ''https://pi/'' = Inr sample_client"
proof -
  have "np_resolver sample_net_policy ''pi'' 443 = Some [''4168034308'']" by (simp add: sample_net_policy_def)
  moreover have "strip_brackets ''pi'' = ''pi''" by (simp add: strip_brackets_def Let_def)
  ultimately have "resolve sample_texts sample_net_policy ''pi'' 443 = Inr [IP4 (quad 10 4 0 4)]"
    by (simp add: resolve_def answers_of_def address_allowed_def address_of_def sample_address sample_allowed)
  then show ?thesis by (simp add: make_client_def port_of_def sample_split_def sample_client_def sample_address Let_def)
qed

lemma sample_request_sent: "handle_request (hc_transport sample_client) \<lparr>rq_host = ''pi'', rq_host_header = ''pi'', rq_sni = None\<rparr> =
    Inr \<lparr>rq_host = ''4168034308'', rq_host_header = ''pi'', rq_sni = Some ''pi''\<rparr>"
  by (simp add: handle_request_def sample_client_def)

theorem client_connects_where_allowed_witness:
  "\<exists>a d. ip_of sample_texts ''4168034308'' = Some a \<and> ends_at a d \<and> \<not> forbidden d \<and>
     (in_any d (np_allowed sample_net_policy) \<or> np_allow_public sample_net_policy \<and> \<not> special d)"
  using client_connects_where_allowed [OF sample_texts_read_back sample_client_made sample_request_sent, THEN conjunct1]
  by (simp only: http_request.simps)

end
