(* ===== verification/Synthetic.thy ===== *)
theory Synthetic
  imports Metadata_Import Members "HOL-Library.Word"
begin

text \<open>
  \<^verbatim>\<open>connectors/synthetic.py\<close>: deterministic series.  The hash and the noise are 64-bit words as in the
  code; a float is an exact rational, and the digest of an id and the sine of a phase (in turns) are
  parameters.
\<close>

unbundle bit_operations_syntax

section \<open>Config\<close>

definition DAY_NS :: int where "DAY_NS = 86400 * SECOND_NS"
definition HOUR_NS :: int where "HOUR_NS = 3600 * SECOND_NS"
definition SPIKE_EVERY :: int where "SPIKE_EVERY = 997"
definition SPIKE_AMPLITUDES :: rat where "SPIKE_AMPLITUDES = 8"
definition ROWS_PER_BATCH :: nat where "ROWS_PER_BATCH = 100000"
definition MASK64 :: int where "MASK64 = 2 ^ 64 - 1"

datatype synth_fault = Spikes | Flatline

record synth_point =
  sy_external_id :: string
  sy_name :: "string option"
  sy_unit :: "string option"
  sy_base :: rat
  sy_amplitude :: rat
  sy_period_s :: int
  sy_noise :: rat
  sy_faults :: "synth_fault list"

definition id_char :: "char \<Rightarrow> bool" where
  "id_char c \<longleftrightarrow> CHR ''A'' \<le> c \<and> c \<le> CHR ''Z'' \<or> CHR ''a'' \<le> c \<and> c \<le> CHR ''z'' \<or> CHR ''0'' \<le> c \<and> c \<le> CHR ''9'' \<or>
     c \<in> set ''._:/-''"

definition synth_point_valid :: "synth_point \<Rightarrow> bool" where
  "synth_point_valid p \<longleftrightarrow>
     1 \<le> length (sy_external_id p) \<and> length (sy_external_id p) \<le> 200 \<and> list_all id_char (sy_external_id p) \<and>
     (case sy_name p of None \<Rightarrow> True | Some n \<Rightarrow> length n \<le> 200) \<and>
     (case sy_unit p of None \<Rightarrow> True | Some u \<Rightarrow> length u \<le> 50) \<and>
     0 \<le> sy_amplitude p \<and> sy_amplitude p \<le> 10 ^ 9 \<and> 60 \<le> sy_period_s p \<and> sy_period_s p \<le> 366 * 86400 \<and>
     0 \<le> sy_noise p \<and> sy_noise p \<le> 10 ^ 9 \<and> length (sy_faults p) \<le> 2"

record synth_config = connector_config +
  sy_interval_s :: int
  sy_seed :: int
  sy_points :: "synth_point list"

definition synth_config_valid :: "synth_config \<Rightarrow> bool" where
  "synth_config_valid c \<longleftrightarrow>
     config_valid (connector_config.truncate c) \<and>
     1 \<le> sy_interval_s c \<and> sy_interval_s c \<le> 86400 \<and> 0 \<le> sy_seed c \<and> sy_seed c \<le> 2 ^ 63 - 1 \<and>
     length (sy_points c) \<le> 50 \<and> list_all synth_point_valid (sy_points c) \<and> distinct (map sy_external_id (sy_points c))"

section \<open>Hash and noise\<close>

definition splitmix64 :: "int \<Rightarrow> int" where
  "splitmix64 x0 =
     (let x1 = (x0 + 0x9E3779B97F4A7C15) AND MASK64;
          x2 = ((x1 XOR drop_bit 30 x1) * 0xBF58476D1CE4E5B9) AND MASK64;
          x3 = ((x2 XOR drop_bit 27 x2) * 0x94D049BB133111EB) AND MASK64
      in x3 XOR drop_bit 31 x3)"

definition point_key :: "(string \<Rightarrow> 64 word) \<Rightarrow> int \<Rightarrow> string \<Rightarrow> int" where
  "point_key digest seed external_id = splitmix64 (seed XOR uint (digest external_id))"

definition mix64 :: "64 word \<Rightarrow> 64 word" where
  "mix64 x0 =
     (let x1 = x0 + 0x9E3779B97F4A7C15;
          x2 = (x1 XOR drop_bit 30 x1) * 0xBF58476D1CE4E5B9;
          x3 = (x2 XOR drop_bit 27 x2) * 0x94D049BB133111EB
      in x3 XOR drop_bit 31 x3)"

definition synth_noise :: "int \<Rightarrow> int \<Rightarrow> rat" where
  "synth_noise ts key =
     (let x = mix64 (word_of_int ts XOR word_of_int key)
      in of_int (uint (drop_bit 11 x)) / 2 ^ 53 * 2 - 1)"

section \<open>Values\<close>

text \<open>The division of Arrow rounds to zero.\<close>

definition trunc_div :: "int \<Rightarrow> int \<Rightarrow> int" where
  "trunc_div a d = sgn a * sgn d * (\<bar>a\<bar> div \<bar>d\<bar>)"

definition floor_mod :: "int \<Rightarrow> int \<Rightarrow> int" where
  "floor_mod a d = (let r = a - trunc_div a d * d in if r < 0 then r + d else r)"

definition synth_value :: "(string \<Rightarrow> 64 word) \<Rightarrow> (rat \<Rightarrow> rat) \<Rightarrow> synth_point \<Rightarrow> int \<Rightarrow> int \<Rightarrow> ns \<Rightarrow> rat" where
  "synth_value digest sine p seed interval_ns ts =
     (let into_day = floor_mod ts DAY_NS;
          at' = (if Flatline \<in> set (sy_faults p) \<and> 2 * HOUR_NS \<le> into_day \<and> into_day < 3 * HOUR_NS
                 then ts - into_day + 2 * HOUR_NS else ts);
          period_ns = sy_period_s p * SECOND_NS;
          phase = of_int (floor_mod at' period_ns) / of_int period_ns;
          out = sy_base p + sine phase * sy_amplitude p + synth_noise at' (point_key digest seed (sy_external_id p)) * sy_noise p;
          index = trunc_div (at' - floor_mod at' interval_ns) interval_ns
      in if Spikes \<in> set (sy_faults p) \<and> floor_mod index SPIKE_EVERY = 0 then out + SPIKE_AMPLITUDES * sy_amplitude p else out)"

text \<open>\<^verbatim>\<open>range(first, end_ns, interval_ns)\<close>.\<close>

definition synth_grid :: "ns \<Rightarrow> ns \<Rightarrow> int \<Rightarrow> ns list" where
  "synth_grid start_ns end_ns interval_ns =
     (let first = - ((- start_ns) div interval_ns) * interval_ns
      in map (\<lambda>k. first + int k * interval_ns) [0..<nat (- ((first - end_ns) div interval_ns))])"

section \<open>The connector\<close>

definition synth_search :: "synth_config \<Rightarrow> string \<Rightarrow> nat \<Rightarrow> remote_point list" where
  "synth_search c query limit =
     (let q = lower query in
      take limit (map (\<lambda>p. \<lparr>rp_external_id = sy_external_id p,
          rp_name = (case sy_name p of Some n \<Rightarrow> if n = [] then sy_external_id p else n | None \<Rightarrow> sy_external_id p),
          rp_unit = sy_unit p, rp_description = None\<rparr>)
        (filter (\<lambda>p. sublist q (lower (sy_external_id p)) \<or> sublist q (lower (case sy_name p of Some n \<Rightarrow> n | None \<Rightarrow> [])))
           (sy_points c))))"

fun fault_value :: "synth_fault \<Rightarrow> string" where
  "fault_value Spikes = ''spikes''"
| "fault_value Flatline = ''flatline''"

text \<open>\<^verbatim>\<open>by_id\<close> of a config: the last point with an id.\<close>

definition point_by_id :: "synth_config \<Rightarrow> string \<Rightarrow> synth_point option" where
  "point_by_id c i = List.find (\<lambda>p. sy_external_id p = i) (rev (sy_points c))"

definition not_configured :: "point_ref \<Rightarrow> string" where
  "not_configured ref = ''point not configured: '' @ pt_external_id ref"

definition synth_describe :: "synth_config \<Rightarrow> point_ref list \<Rightarrow> point_description list" where
  "synth_describe c = map (\<lambda>ref.
     case point_by_id c (pt_external_id ref) of
       None \<Rightarrow> \<lparr>pd_series_id = pt_series_id ref, pd_metadata = None, pd_error = Some (not_configured ref)\<rparr>
     | Some p \<Rightarrow>
         \<lparr>pd_series_id = pt_series_id ref,
          pd_metadata = Some \<lparr>pm_unit = sy_unit p, pm_description = sy_name p, pm_physical_min = None, pm_physical_max = None,
            pm_operational_min = None, pm_operational_max = None, pm_asset_path = None,
            pm_extra = [(''base'', JNum (sy_base p)), (''amplitude'', JNum (sy_amplitude p)), (''period_s'', JInt (sy_period_s p)),
              (''noise'', JNum (sy_noise p)), (''faults'', JArr (map (\<lambda>f. JStr (fault_value f)) (sy_faults p)))]\<rparr>,
          pd_error = None\<rparr>)"

function row_chunks :: "'a list \<Rightarrow> 'a list list" where
  "row_chunks xs = (if xs = [] then [] else take ROWS_PER_BATCH xs # row_chunks (drop ROWS_PER_BATCH xs))"
  by pat_completeness auto
termination by (relation "measure length") (auto simp: ROWS_PER_BATCH_def)

declare row_chunks.simps [simp del]

definition synth_rows :: "(string \<Rightarrow> 64 word) \<Rightarrow> (rat \<Rightarrow> rat) \<Rightarrow> synth_config \<Rightarrow> synth_point \<Rightarrow> ns list \<Rightarrow> batch_row list" where
  "synth_rows digest sine c p = map (\<lambda>t. (t, Some (synth_value digest sine p (sy_seed c) (sy_interval_s c * SECOND_NS) t), Some ''good''))"

definition synth_fetch :: "(string \<Rightarrow> 64 word) \<Rightarrow> (rat \<Rightarrow> rat) \<Rightarrow> synth_config \<Rightarrow> point_ref list \<Rightarrow> ns \<Rightarrow> ns \<Rightarrow> fetch_item list \<times> stream_end" where
  "synth_fetch digest sine c points start_ns end_ns =
     (let stamps = synth_grid start_ns end_ns (sy_interval_s c * SECOND_NS) in
      (concat (map (\<lambda>ref.
         case point_by_id c (pt_external_id ref) of
           None \<Rightarrow> [ItemFailure (pt_series_id ref) (not_configured ref)]
         | Some p \<Rightarrow> map (\<lambda>ts. ItemRows (pt_series_id ref) (Batch (synth_rows digest sine c p ts))) (row_chunks stamps)) points),
       StreamDone))"

section \<open>Arithmetic\<close>

lemma floor_mod_mod: "0 < d \<Longrightarrow> floor_mod a d = a mod d"
proof -
  assume d: "0 < d"
  show ?thesis
  proof (cases "0 \<le> a")
    case True
    moreover have "0 \<le> a mod d" using d by simp
    ultimately show ?thesis using d by (cases "a = 0") (simp_all add: floor_mod_def trunc_div_def Let_def sgn_if minus_div_mult_eq_mod not_less)
  next
    case False
    define b where "b = - a"
    have b: "0 < b" "a = - b" using False by (simp_all add: b_def)
    have "b mod d = b - b div d * d" by (simp add: minus_div_mult_eq_mod)
    moreover have "a mod d = (if b mod d = 0 then 0 else d - b mod d)" unfolding b(2) by (simp add: zmod_zminus1_eq_if)
    moreover have "0 \<le> b mod d" using d by simp
    ultimately show ?thesis using d b by (auto simp: floor_mod_def trunc_div_def Let_def)
  qed
qed

text \<open>The masked integers of the key are the words of the vectorised noise.\<close>

lemma mask64_word: "x AND MASK64 = uint (word_of_int x :: 64 word)"
proof -
  have "MASK64 = mask 64" by (simp add: MASK64_def mask_eq_exp_minus_1)
  then have "x AND MASK64 = take_bit 64 x" by (simp only: take_bit_eq_mask)
  then show ?thesis by (simp add: unsigned_of_int)
qed

lemma xor_shift_word: "uint w XOR drop_bit n (uint w) = uint (w XOR drop_bit n w)" for w :: "64 word"
proof -
  have "take_bit 64 (uint w) = uint w" using uint_bounded [of w] by (simp add: take_bit_int_eq_self)
  then show ?thesis by (simp add: unsigned_xor_eq unsigned_drop_bit_eq)
qed

lemma splitmix_words: "splitmix64 x = uint (mix64 (word_of_int x))"
proof -
  have mult: "(uint w * k) AND MASK64 = uint (w * word_of_int k)" for w :: "64 word" and k
    unfolding mask64_word by (simp add: of_int_mult)
  have add: "(x + k) AND MASK64 = uint (word_of_int x + word_of_int k :: 64 word)" for k
    unfolding mask64_word by simp
  show ?thesis unfolding splitmix64_def mix64_def Let_def add xor_shift_word mult by simp
qed

end
