(* ===== verification/Synthetic_Facts.thy ===== *)
theory Synthetic_Facts
  imports Synthetic Civil Streams
begin

text \<open>
  A synthetic series is a function of the time alone: the grid, the batches, and that a window fetched in pieces
  gives the rows of the whole.
\<close>

lemma ceil_mult: "0 < d \<Longrightarrow> a \<le> - ((- a) div d) * d \<and> - ((- a) div d) * d < a + d" for a d :: int
  using div_bounds [of d "- a"] by (simp add: algebra_simps)

lemma synth_grid_set: "0 < d \<Longrightarrow> set (synth_grid a b d) = {t. a \<le> t \<and> t < b \<and> t mod d = 0}"
proof -
  assume d: "0 < d"
  obtain f where f: "f = - ((- a) div d)" by simp
  note fb = ceil_mult [OF d, of a, folded f]
  obtain m where m: "m = - ((f * d - b) div d)" by simp
  have mb: "b - f * d \<le> m * d" "m * d < b - f * d + d" using ceil_mult [OF d, of "b - f * d"] by (simp_all add: m)
  have "set (synth_grid a b d) = {f * d + int k * d | k. k < nat m}"
    by (auto simp: synth_grid_def Let_def f m)
  also have "\<dots> = {t. a \<le> t \<and> t < b \<and> t mod d = 0}"
  proof (intro equalityI subsetI)
    fix t assume "t \<in> {f * d + int k * d | k. k < nat m}"
    then obtain k where k: "k < nat m" and t: "t = f * d + int k * d" by blast
    obtain kd where kd: "kd = int k * d" by simp
    have "(int k + 1) * d \<le> m * d" using k d by (intro mult_right_mono) auto
    then have "kd + d \<le> m * d" by (simp add: kd algebra_simps)
    moreover have "0 \<le> kd" using d by (simp add: kd)
    ultimately have "a \<le> t" "t < b" using fb mb unfolding t kd [symmetric] by linarith+
    then show "t \<in> {t. a \<le> t \<and> t < b \<and> t mod d = 0}" by (simp add: t flip: distrib_right)
  next
    fix t assume "t \<in> {t. a \<le> t \<and> t < b \<and> t mod d = 0}"
    then have t: "a \<le> t" "t < b" "t = (t div d) * d" using div_mult_mod_eq [of t d] by auto
    obtain q where q: "q = t div d" by simp
    have "(f - 1) * d < q * d" using t fb by (simp add: q algebra_simps)
    then have "f \<le> q" using d by (simp add: mult_less_cancel_right)
    moreover have "q * d < (f + m) * d" using t mb by (simp add: q algebra_simps)
    then have "q < f + m" using d by (simp add: mult_less_cancel_right)
    ultimately show "t \<in> {f * d + int k * d | k. k < nat m}"
      using t(3) by (intro CollectI exI [of _ "nat (q - f)"]) (simp add: q algebra_simps)
  qed
  finally show ?thesis .
qed

lemma synth_grid_sorted: "0 < d \<Longrightarrow> sorted (synth_grid a b d) \<and> distinct (synth_grid a b d)"
  by (auto simp: synth_grid_def Let_def sorted_map distinct_map inj_on_def sorted_wrt_upt intro!: sorted_wrt_mono_rel [OF _ sorted_wrt_upt])

lemma synth_grid_split: "0 < d \<Longrightarrow> a \<le> b \<Longrightarrow> b \<le> c \<Longrightarrow> synth_grid a c d = synth_grid a b d @ synth_grid b c d"
  by (rule sorted_distinct_set_unique)
    (use synth_grid_sorted in \<open>auto simp: synth_grid_set sorted_append distinct_append\<close>)

lemma concat_row_chunks [simp]: "concat (row_chunks xs) = xs"
  by (induction xs rule: row_chunks.induct) (subst row_chunks.simps, simp)

lemma row_chunks_small: "ts \<in> set (row_chunks xs) \<Longrightarrow> ts \<noteq> [] \<and> length ts \<le> ROWS_PER_BATCH"
proof (induction xs rule: row_chunks.induct)
  case (1 xs)
  have "ROWS_PER_BATCH \<noteq> 0" by (simp add: ROWS_PER_BATCH_def)
  then show ?case using 1 by (subst (asm) (2) row_chunks.simps) (auto split: if_splits)
qed

lemma synth_rows_concat: "concat (map (synth_rows digest sine c p) tss) = synth_rows digest sine c p (concat tss)"
  by (simp add: synth_rows_def map_concat)

lemma concat_none: "(\<And>r. r \<in> set rs \<Longrightarrow> \<forall>item \<in> set (f r). g item = []) \<Longrightarrow> concat (map g (concat (map f rs))) = []"
  by (induction rs) auto

lemma stream_rows_synth:
  assumes "distinct (map pt_series_id points)" "ref \<in> set points" "point_by_id c (pt_external_id ref) = Some p"
  shows "stream_rows (synth_fetch digest sine c points s e) (pt_series_id ref) =
    synth_rows digest sine c p (synth_grid s e (sy_interval_s c * SECOND_NS))"
proof -
  let ?g = "synth_grid s e (sy_interval_s c * SECOND_NS)"
  define items where "items = (\<lambda>ref. case point_by_id c (pt_external_id ref) of
      None \<Rightarrow> [ItemFailure (pt_series_id ref) (not_configured ref)]
    | Some p \<Rightarrow> map (\<lambda>ts. ItemRows (pt_series_id ref) (Batch (synth_rows digest sine c p ts))) (row_chunks ?g))"
  have other: "\<forall>item \<in> set (items r). item_rows (pt_series_id ref) item = []" if "pt_series_id r \<noteq> pt_series_id ref" for r
    using that by (auto simp: items_def split: option.split)
  have own: "concat (map (item_rows (pt_series_id ref)) (items ref)) = synth_rows digest sine c p ?g"
    by (simp add: items_def assms(3) comp_def synth_rows_concat)
  obtain xs ys where points: "points = xs @ ref # ys" using assms(2) by (meson split_list)
  then have "\<forall>r \<in> set xs \<union> set ys. pt_series_id r \<noteq> pt_series_id ref" using assms(1) unfolding points
    by (simp add: ball_Un) (metis imageI)
  then have none: "concat (map (item_rows (pt_series_id ref)) (concat (map items xs))) = []"
    "concat (map (item_rows (pt_series_id ref)) (concat (map items ys))) = []"
    using other by (intro concat_none; blast)+
  have "concat (map (item_rows (pt_series_id ref)) (concat (map items points))) = synth_rows digest sine c p ?g"
    by (simp only: points list.map concat.simps map_append concat_append own none append_Nil append_Nil2)
  then show ?thesis by (simp add: stream_rows_def rows_for_def synth_fetch_def Let_def items_def)
qed

text \<open>C29: A synthetic source is deterministic: for a configured point a fetch delivers exactly the points in time of
  the grid within the window, in order, each with the value that the seed, the point and the time determine, so a
  window fetched in two pieces gives the same rows as fetched at once.\<close>

theorem synthetic_is_deterministic:
  assumes "synth_config_valid c" "distinct (map pt_series_id points)" "ref \<in> set points"
    "point_by_id c (pt_external_id ref) = Some p" "s \<le> m" "m \<le> e"
  shows "stream_rows (synth_fetch digest sine c points s e) (pt_series_id ref) =
      stream_rows (synth_fetch digest sine c points s m) (pt_series_id ref) @ stream_rows (synth_fetch digest sine c points m e) (pt_series_id ref) \<and>
    set (map fst (stream_rows (synth_fetch digest sine c points s e) (pt_series_id ref))) =
      {t. s \<le> t \<and> t < e \<and> t mod (sy_interval_s c * SECOND_NS) = 0} \<and>
    sorted_wrt (<) (map fst (stream_rows (synth_fetch digest sine c points s e) (pt_series_id ref))) \<and>
    (\<forall>(t, v, q) \<in> set (stream_rows (synth_fetch digest sine c points s e) (pt_series_id ref)).
       v = Some (synth_value digest sine p (sy_seed c) (sy_interval_s c * SECOND_NS) t) \<and> q = Some ''good'')"
proof -
  have d: "0 < sy_interval_s c * SECOND_NS" using assms(1) by (simp add: synth_config_valid_def SECOND_NS_def)
  have app: "synth_rows digest sine c p (xs @ ys) = synth_rows digest sine c p xs @ synth_rows digest sine c p ys" for xs ys
    by (simp add: synth_rows_def)
  have fst_rows: "map fst (synth_rows digest sine c p ts) = ts" for ts by (simp add: synth_rows_def comp_def)
  show ?thesis
    unfolding stream_rows_synth [OF assms(2-4)] fst_rows app [symmetric] synth_grid_split [OF d assms(5,6), symmetric]
    using synth_grid_sorted [OF d, of s e] synth_grid_set [OF d, of s e]
    by (auto simp: synth_rows_def strict_sorted_iff)
qed

definition sample_synth :: synth_config where
  "sample_synth = \<lparr>cfg_poll_interval_s = None, cfg_backfill_s = 3600, cfg_settle_s = 0, cfg_requests_per_second = 1,
     cfg_max_points = 100, cfg_max_span_s = 3600, sy_interval_s = 60, sy_seed = 0,
     sy_points = [\<lparr>sy_external_id = ''a'', sy_name = None, sy_unit = None, sy_base = 0, sy_amplitude = 1, sy_period_s = 86400,
        sy_noise = 0, sy_faults = [Spikes]\<rparr>]\<rparr>"

theorem synthetic_is_deterministic_witness:
  "set (map fst (stream_rows (synth_fetch (\<lambda>i. 0) (\<lambda>x. 0) sample_synth [\<lparr>pt_series_id = 4, pt_external_id = ''a''\<rparr>] 0 120000000000) 4)) =
     {t. 0 \<le> t \<and> t < 120000000000 \<and> t mod 60000000000 = 0}"
proof -
  let ?ref = "\<lparr>pt_series_id = 4, pt_external_id = ''a''\<rparr>"
  have "synth_config_valid sample_synth"
    by (simp add: synth_config_valid_def sample_synth_def connector_config.defs config_valid_def synth_point_valid_def id_char_def less_eq_char_def)
  moreover have "point_by_id sample_synth ''a'' = Some (hd (sy_points sample_synth))" by (simp add: point_by_id_def sample_synth_def)
  moreover have "sy_interval_s sample_synth * SECOND_NS = 60000000000" by (simp add: sample_synth_def SECOND_NS_def)
  ultimately show ?thesis
    using synthetic_is_deterministic [of sample_synth "[?ref]" ?ref "hd (sy_points sample_synth)" 0 60000000000 120000000000,
      THEN conjunct2, THEN conjunct1] by simp
qed

end
