(* ===== verification/Globs.thy ===== *)
theory Globs
  imports Strings
begin

text \<open>
  Shell patterns, which the search of an OPC UA server and the names of dropped files use.
\<close>

text \<open>
  \<^verbatim>\<open>fnmatch.fnmatchcase\<close>: a star matches any text, a question mark any character, and a bracket one
  of its characters or ranges, or none of them after an exclamation mark.  A range that runs backwards matches nothing
  and is dropped before the exclamation mark is looked for; a bracket that never closes is a character.
\<close>

datatype class_item = One char | Span char char

fun class_items :: "string \<Rightarrow> class_item list" where
  "class_items [] = []"
| "class_items (a # rest) =
     (case rest of
        m # b # others \<Rightarrow> if m = CHR ''-'' then Span a b # class_items others else One a # class_items rest
      | _ \<Rightarrow> One a # class_items rest)"

fun not_backwards :: "class_item \<Rightarrow> bool" where
  "not_backwards (One a) = True"
| "not_backwards (Span a b) = (a \<le> b)"

fun in_item :: "char \<Rightarrow> class_item \<Rightarrow> bool" where
  "in_item c (One a) = (c = a)"
| "in_item c (Span a b) = (a \<le> c \<and> c \<le> b)"

definition in_bracket :: "string \<Rightarrow> char \<Rightarrow> bool" where
  "in_bracket stuff c =
     (let items = (case stuff of
             b # rest \<Rightarrow> if b = CHR ''!'' then One b # filter not_backwards (class_items rest)
                         else filter not_backwards (class_items stuff)
           | [] \<Rightarrow> [])
      in (case items of
            One b # rest \<Rightarrow> if b = CHR ''!'' then \<not> (\<exists>i \<in> set rest. in_item c i) else (\<exists>i \<in> set items. in_item c i)
          | Span a b # rest \<Rightarrow>
              if a = CHR ''!'' then \<not> (\<exists>i \<in> set (One (CHR ''-'') # One b # rest). in_item c i) else (\<exists>i \<in> set items. in_item c i)
          | [] \<Rightarrow> False))"

text \<open>What stands in a bracket, and what follows it; a closing bracket that comes first is one of its characters.\<close>

definition bracket :: "string \<Rightarrow> (string \<times> string) option" where
  "bracket s =
     (let bang = (if s \<noteq> [] \<and> hd s = CHR ''!'' then 1 else 0);
          lead = bang + (if drop bang s \<noteq> [] \<and> hd (drop bang s) = CHR 0x5D then 1 else 0);
          inner = takeWhile (\<lambda>c. c \<noteq> CHR 0x5D) (drop lead s);
          after = drop (length inner) (drop lead s)
      in if after = [] then None else Some (take lead s @ inner, drop 1 after))"

lemma bracket_shorter: "bracket s = Some (stuff, after) \<Longrightarrow> length after < length s"
  by (auto simp: bracket_def Let_def split: if_splits)

datatype name_glob = AnyText | AnyChar | Exactly char | Class string

function globs :: "string \<Rightarrow> name_glob list" where
  "globs pat =
     (case pat of
        [] \<Rightarrow> []
      | c # rest \<Rightarrow>
          if c = CHR ''*'' then AnyText # globs rest
          else if c = CHR ''?'' then AnyChar # globs rest
          else if c = CHR ''['' then
            (case bracket rest of
               None \<Rightarrow> Exactly c # globs rest
             | Some (stuff, after) \<Rightarrow> Class stuff # globs after)
          else Exactly c # globs rest)"
  by pat_completeness auto
termination
  by (relation "measure length") (auto dest: bracket_shorter)

declare globs.simps [simp del]

fun glob_match :: "name_glob list \<Rightarrow> string \<Rightarrow> bool" where
  "glob_match [] s = (s = [])"
| "glob_match (AnyText # gs) [] = glob_match gs []"
| "glob_match (AnyText # gs) (c # s) = (glob_match gs (c # s) \<or> glob_match (AnyText # gs) s)"
| "glob_match (g # gs) [] = False"
| "glob_match (AnyChar # gs) (c # s) = glob_match gs s"
| "glob_match (Exactly a # gs) (c # s) = (c = a \<and> glob_match gs s)"
| "glob_match (Class stuff # gs) (c # s) = (in_bracket stuff c \<and> glob_match gs s)"

definition fnmatchcase :: "string \<Rightarrow> string \<Rightarrow> bool" where
  "fnmatchcase name pattern \<longleftrightarrow> glob_match (globs pattern) name"

end
