(* ===== verification/Opc_Ua.thy ===== *)
theory Opc_Ua
  imports Metadata_Import Globs "HOL-Library.Word"
begin

text \<open>
  \<^verbatim>\<open>connectors/opc_ua/status.py\<close> and \<^verbatim>\<open>opc_ua/connector.py\<close>: values and status codes,
  the search of the address space, history page by page, and what a node says of itself.  The server
  (through asyncua) is a parameter: functions that answer a request in a state, which is theirs.  A node id is its canonical
  text; reading one, the names of status codes and of the standard data types are parameters too.
\<close>

unbundle bit_operations_syntax

section \<open>Values and status codes\<close>

type_synonym ua_status = "32 word"

definition CODE_MASK :: ua_status where "CODE_MASK = 0xFFFF0000"
definition GOOD_LOCAL_OVERRIDE :: ua_status where "GOOD_LOCAL_OVERRIDE = 0x00960000"
definition GOOD_CLAMPED :: ua_status where "GOOD_CLAMPED = 0x00300000"
definition UNCERTAIN_SUBSTITUTE_VALUE :: ua_status where "UNCERTAIN_SUBSTITUTE_VALUE = 0x40910000"
definition OVERRIDDEN :: "ua_status list" where "OVERRIDDEN = [GOOD_LOCAL_OVERRIDE, GOOD_CLAMPED]"

definition severity :: "ua_status \<Rightarrow> string" where
  "severity status =
     (let top = drop_bit 30 status AND 3
      in if top = 0 then ''good'' else if top = 1 then ''uncertain'' else ''bad'')"

definition quality :: "ua_status \<Rightarrow> string" where
  "quality status =
     (let code = status AND CODE_MASK; level = severity status in
      if level = ''bad'' then ''bad''
      else if level = ''good'' then (if code \<in> set OVERRIDDEN then ''uncertain'' else ''good'')
      else if code = UNCERTAIN_SUBSTITUTE_VALUE then ''estimated'' else ''uncertain'')"

text \<open>The values of variants the connector looks at.\<close>

datatype node_class = ClassObject | ClassVariable | ClassOther

datatype variant =
    VNothing
  | VBool bool
  | VInt int
  | VFloat raw_float
  | VStr string
  | VText "string option"
  | VClass node_class
  | VNode string
  | VRange raw_float raw_float
  | VUnits "string option" int "string option"
  | VOther

fun variant_number :: "variant \<Rightarrow> rat option" where
  "variant_number (VBool b) = Some (if b then 1 else 0)"
| "variant_number (VInt i) = Some (of_int i)"
| "variant_number (VFloat (Finite r)) = Some r"
| "variant_number _ = None"

definition ua_convert :: "variant \<Rightarrow> ua_status \<Rightarrow> rat option \<times> string" where
  "ua_convert v status =
     (let q = quality status in
      if q = ''bad'' then (None, ''bad'')
      else (case variant_number v of None \<Rightarrow> (None, ''bad'') | Some n \<Rightarrow> (Some n, q)))"

text \<open>A stamp is a datetime without a zone, meaning UTC, or an instant, both in microseconds.\<close>

datatype stamp = Naive datetime | Aware datetime

definition stamp_ns :: "stamp \<Rightarrow> ns" where
  "stamp_ns st =
     (let delta = (case st of Naive d \<Rightarrow> d | Aware d \<Rightarrow> d);
          days = delta div 86400000000; seconds = delta mod 86400000000 div 1000000; micros = delta mod 1000000
      in (days * 86400 + seconds) * 1000000000 + micros * 1000)"

definition stamp_from_ns :: "ns \<Rightarrow> bool \<Rightarrow> stamp" where
  "stamp_from_ns t ceil = Aware (if ceil then - ((- t) div 1000) else t div 1000)"

section \<open>The server\<close>

record data_value =
  dv_value :: "variant option"
  dv_status :: "ua_status option"
  dv_source :: "stamp option"
  dv_server :: "stamp option"

datatype attribute = ANodeClass | AAccessLevel | AValue | ADisplayName | ADescription | ADataType

text \<open>The names of a reference are texts or absent; an empty continuation point is none.\<close>

record reference =
  rf_property :: bool
  rf_remote :: bool
  rf_node :: string
  rf_class :: node_class
  rf_display :: "string option"
  rf_browse :: string

record browse_result =
  br_refs :: "reference list"
  br_more :: string
  br_status :: ua_status

datatype browse_kind = Children | Properties | Parents

record history_result =
  hr_status :: ua_status
  hr_values :: "data_value list"
  hr_more :: string

type_synonym history_node = "string \<times> string option"

record 's ua_server =
  us_read :: "(string \<times> attribute) list \<Rightarrow> 's \<Rightarrow> data_value list answer \<times> 's"
  us_browse :: "browse_kind \<Rightarrow> string list \<Rightarrow> 's \<Rightarrow> browse_result list answer \<times> 's"
  us_browse_next :: "string \<Rightarrow> 's \<Rightarrow> browse_result list answer \<times> 's"
  us_history :: "stamp \<times> stamp \<times> nat \<Rightarrow> history_node list \<Rightarrow> 's \<Rightarrow> history_result list answer \<times> 's"
  us_release :: "history_node list \<Rightarrow> 's \<Rightarrow> 's"

record ua_names =
  un_parse :: "string \<Rightarrow> string option"
  un_code :: "ua_status \<Rightarrow> string"
  un_type :: "string \<Rightarrow> string option"

text \<open>A computation on the session: \<open>None\<close> is one that does not return.\<close>

type_synonym ('s, 'a) ua = "'s \<Rightarrow> ('a answer \<times> 's) option"

definition ua_return :: "'a \<Rightarrow> ('s, 'a) ua" where
  "ua_return x s = Some (Answered x, s)"

definition ua_crash :: "('s, 'a) ua" where
  "ua_crash s = Some (Crashed, s)"

definition ua_call :: "('s \<Rightarrow> 'a answer \<times> 's) \<Rightarrow> ('s, 'a) ua" where
  "ua_call f s = Some (f s)"

definition ua_bind :: "('s, 'a) ua \<Rightarrow> ('a \<Rightarrow> ('s, 'b) ua) \<Rightarrow> ('s, 'b) ua" where
  "ua_bind m f s = Option.bind (m s) (\<lambda>(a, s').
     case a of Answered x \<Rightarrow> f x s' | ConnFailed msg r \<Rightarrow> Some (ConnFailed msg r, s') | Crashed \<Rightarrow> Some (Crashed, s'))"

section \<open>Browsing\<close>

definition text_of :: "string option \<Rightarrow> string option" where
  "text_of t = (case t of None \<Rightarrow> None | Some s \<Rightarrow> if strip s = [] then None else Some (strip s))"

definition BROWSE_BATCH :: nat where "BROWSE_BATCH = 100"
definition MAX_PARENTS :: nat where "MAX_PARENTS = 20"

partial_function (option) browse_more :: "'s ua_server \<Rightarrow> reference list \<Rightarrow> string \<Rightarrow> ('s, reference list) ua" where
  "browse_more srv refs point s =
     (if point = [] then Some (Answered refs, s)
      else (case us_browse_next srv point s of
          (Answered [page], s') \<Rightarrow> browse_more srv (refs @ br_refs page) (br_more page) s'
        | (Answered _, s') \<Rightarrow> Some (Crashed, s')
        | (ConnFailed m r, s') \<Rightarrow> Some (ConnFailed m r, s')
        | (Crashed, s') \<Rightarrow> Some (Crashed, s')))"

fun browse_all :: "'s ua_server \<Rightarrow> browse_result list \<Rightarrow> ('s, reference list list) ua" where
  "browse_all srv [] = ua_return []"
| "browse_all srv (result # results) =
     ua_bind (browse_more srv (br_refs result) (br_more result)) (\<lambda>refs.
     ua_bind (browse_all srv results) (\<lambda>others.
     ua_return ((if severity (br_status result) \<noteq> ''bad'' then refs else []) # others)))"

definition browse :: "'s ua_server \<Rightarrow> browse_kind \<Rightarrow> string list \<Rightarrow> ('s, reference list list) ua" where
  "browse srv kind nodes = ua_bind (ua_call (us_browse srv kind nodes)) (browse_all srv)"

definition name_matches :: "string \<Rightarrow> string list \<Rightarrow> bool" where
  "name_matches query names =
     (let q = lower (strip query) in
      if CHR ''*'' \<in> set q \<or> CHR ''?'' \<in> set q
      then \<exists>n \<in> set names. n \<noteq> [] \<and> fnmatchcase (lower n) q
      else \<exists>n \<in> set names. n \<noteq> [] \<and> sublist q (lower n))"

record search_walk =
  wk_frontier :: "(string \<times> string list \<times> nat) list"
  wk_seen :: "string list"
  wk_found :: "remote_point list"

record browse_config =
  bc_root :: string
  bc_limit :: nat
  bc_depth :: nat

text \<open>The references of one node; the flag is the \<^verbatim>\<open>break\<close> at the limit of results.\<close>

fun visit_refs :: "browse_config \<Rightarrow> string \<Rightarrow> nat \<Rightarrow> string list \<Rightarrow> nat \<Rightarrow> reference list \<Rightarrow> search_walk \<Rightarrow> search_walk" where
  "visit_refs cfg query limit path depth [] w = w"
| "visit_refs cfg query limit path depth (ref # refs) w =
     (if rf_property ref \<or> rf_remote ref then visit_refs cfg query limit path depth refs w
      else if rf_node ref \<in> set (wk_seen w) \<or> bc_limit cfg \<le> length (wk_seen w) then visit_refs cfg query limit path depth refs w
      else
        (let name = (case text_of (rf_display ref) of Some n \<Rightarrow> n | None \<Rightarrow> rf_browse ref);
             here = path @ [name];
             hit = (rf_class ref = ClassVariable \<and> name_matches query [name, rf_browse ref]);
             w1 = w\<lparr>wk_seen := wk_seen w @ [rf_node ref]\<rparr>;
             w2 = (if hit then w1\<lparr>wk_found := wk_found w1 @ [\<lparr>rp_external_id = rf_node ref, rp_name = name, rp_unit = None,
                                     rp_description = Some (join_with ''/'' here)\<rparr>]\<rparr> else w1)
         in if hit \<and> limit \<le> length (wk_found w2) then w2
            else visit_refs cfg query limit path depth refs
              (if depth + 1 < bc_depth cfg then w2\<lparr>wk_frontier := wk_frontier w2 @ [(rf_node ref, here, depth + 1)]\<rparr> else w2)))"

text \<open>The nodes of a batch with their references; a strict zip fails at a missing one, unless the search ended before.\<close>

fun visit_batch :: "browse_config \<Rightarrow> string \<Rightarrow> nat \<Rightarrow> (string \<times> string list \<times> nat) list \<Rightarrow> reference list list \<Rightarrow> search_walk
    \<Rightarrow> search_walk option" where
  "visit_batch cfg query limit [] [] w = Some w"
| "visit_batch cfg query limit ((node, path, depth) # batch) (refs # results) w =
     (let w' = visit_refs cfg query limit path depth refs w
      in if limit \<le> length (wk_found w') then Some w' else visit_batch cfg query limit batch results w')"
| "visit_batch cfg query limit _ _ w = None"

partial_function (option) search_loop :: "'s ua_server \<Rightarrow> browse_config \<Rightarrow> string \<Rightarrow> nat \<Rightarrow> search_walk \<Rightarrow> ('s, search_walk) ua" where
  "search_loop srv cfg query limit w s =
     (if wk_frontier w \<noteq> [] \<and> length (wk_found w) < limit \<and> length (wk_seen w) < bc_limit cfg
      then Option.bind (browse srv Children (map fst (take BROWSE_BATCH (wk_frontier w))) s) (\<lambda>(a, s').
        case a of
          Answered results \<Rightarrow>
            (case visit_batch cfg query limit (take BROWSE_BATCH (wk_frontier w)) results
                    (w\<lparr>wk_frontier := drop BROWSE_BATCH (wk_frontier w)\<rparr>) of
               None \<Rightarrow> Some (Crashed, s')
             | Some w' \<Rightarrow> search_loop srv cfg query limit w' s')
        | ConnFailed m r \<Rightarrow> Some (ConnFailed m r, s')
        | Crashed \<Rightarrow> Some (Crashed, s'))
      else Some (Answered w, s))"

definition ua_search :: "'s ua_server \<Rightarrow> ua_names \<Rightarrow> browse_config \<Rightarrow> string \<Rightarrow> nat \<Rightarrow> ('s, remote_point list) ua" where
  "ua_search srv X cfg query limit =
     (case un_parse X (bc_root cfg) of
        None \<Rightarrow> ua_crash
      | Some start \<Rightarrow>
          ua_bind (search_loop srv cfg query limit \<lparr>wk_frontier = [(start, [], 0)], wk_seen = [start], wk_found = []\<rparr>)
            (\<lambda>w. ua_return (take limit (wk_found w))))"

section \<open>Fetch\<close>

text \<open>A strict zip: \<open>None\<close> when the lengths differ.\<close>

definition zip_strict :: "'a list \<Rightarrow> 'b list \<Rightarrow> ('a \<times> 'b) list option" where
  "zip_strict xs ys = (if length xs = length ys then Some (zip xs ys) else None)"

fun evens :: "'a list \<Rightarrow> 'a list" where
  "evens (x # y # zs) = x # evens zs"
| "evens xs = xs"

definition status_of_value :: "data_value \<Rightarrow> ua_status" where
  "status_of_value dv = (case dv_status dv of Some s \<Rightarrow> s | None \<Rightarrow> 0)"

text \<open>Parsed points and the failures of the others, in the order of the points.\<close>

fun parse_points :: "ua_names \<Rightarrow> point_ref list \<Rightarrow> (point_ref \<times> string) list \<times> fetch_item list" where
  "parse_points X [] = ([], [])"
| "parse_points X (ref # refs) =
     (let (parsed, failures) = parse_points X refs in
      case un_parse X (pt_external_id ref) of
        None \<Rightarrow> (parsed, ItemFailure (pt_series_id ref) (''not a node id: '' @ take 100 (pt_external_id ref)) # failures)
      | Some node \<Rightarrow> ((ref, node) # parsed, failures))"

text \<open>The bits of an access level: \<open>None\<close> for a value that is no number.\<close>

fun access_bits :: "variant \<Rightarrow> int option" where
  "access_bits VNothing = Some 0"
| "access_bits (VBool b) = Some (if b then 1 else 0)"
| "access_bits (VInt i) = Some i"
| "access_bits _ = None"

definition history_bit :: "int \<Rightarrow> bool" where "history_bit i = bit i 2"

text \<open>Whether a node is readable, or why not; a missing value raises.\<close>

definition readable_node :: "ua_names \<Rightarrow> point_ref \<Rightarrow> data_value \<Rightarrow> data_value \<Rightarrow> (fetch_item option) option" where
  "readable_node X ref cls access =
     (let failed = (\<lambda>why. Some (Some (ItemFailure (pt_series_id ref) (pt_external_id ref @ '': '' @ why)))) in
      if severity (status_of_value cls) = ''bad'' then failed (un_code X (status_of_value cls))
      else (case dv_value cls of
          None \<Rightarrow> None
        | Some v \<Rightarrow>
            if v \<noteq> VClass ClassVariable then failed ''not a variable''
            else if severity (status_of_value access) = ''bad'' then failed ''no history read access''
            else (case Option.bind (dv_value access) access_bits of
                None \<Rightarrow> None
              | Some bits \<Rightarrow> if history_bit bits then Some None else failed ''no history read access'')))"

fun split_readable :: "ua_names \<Rightarrow> ((point_ref \<times> string) \<times> data_value \<times> data_value) list
    \<Rightarrow> ((point_ref \<times> string) list \<times> fetch_item list) option" where
  "split_readable X [] = Some ([], [])"
| "split_readable X (((ref, node), cls, access) # rest) =
     Option.bind (readable_node X ref cls access) (\<lambda>failure.
     Option.bind (split_readable X rest) (\<lambda>(readable, failures).
       Some (case failure of None \<Rightarrow> ((ref, node) # readable, failures) | Some f \<Rightarrow> (readable, f # failures))))"

definition readable_points :: "'s ua_server \<Rightarrow> ua_names \<Rightarrow> point_ref list \<Rightarrow> ('s, (point_ref \<times> string) list \<times> fetch_item list) ua" where
  "readable_points srv X points =
     (let (parsed, failures) = parse_points X points in
      if parsed = [] then ua_return ([], failures)
      else
        ua_bind (ua_call (us_read srv (concat (map (\<lambda>(ref, node). [(node, ANodeClass), (node, AAccessLevel)]) parsed)))) (\<lambda>dvs.
        case Option.bind (zip_strict (evens dvs) (evens (drop 1 dvs))) (\<lambda>pairs.
             Option.bind (zip_strict parsed pairs) (split_readable X)) of
          None \<Rightarrow> ua_crash
        | Some (readable, others) \<Rightarrow> ua_return (readable, failures @ others)))"

definition dv_stamp :: "data_value \<Rightarrow> stamp option" where
  "dv_stamp dv = (case dv_source dv of Some s \<Rightarrow> Some s | None \<Rightarrow> dv_server dv)"

fun history_rows :: "data_value list \<Rightarrow> ns \<Rightarrow> ns \<Rightarrow> batch_row list" where
  "history_rows [] start_ns end_ns = []"
| "history_rows (dv # dvs) start_ns end_ns =
     (case dv_stamp dv of
        None \<Rightarrow> history_rows dvs start_ns end_ns
      | Some stamp \<Rightarrow>
          (let t = stamp_ns stamp in
           if t < start_ns \<or> end_ns \<le> t then history_rows dvs start_ns end_ns
           else (let (v, q) = ua_convert (case dv_value dv of Some v \<Rightarrow> v | None \<Rightarrow> VNothing) (status_of_value dv)
                 in (t, v, Some q) # history_rows dvs start_ns end_ns)))"

definition BAD_NO_DATA :: ua_status where "BAD_NO_DATA = 0x809B0000"

type_synonym pending = "point_ref \<times> string \<times> string option"

text \<open>What one history result gives: items, and the node again when it has more.\<close>

definition history_step :: "ua_names \<Rightarrow> ns \<Rightarrow> ns \<Rightarrow> pending \<Rightarrow> history_result \<Rightarrow> fetch_item list \<times> pending list" where
  "history_step X start_ns end_ns p r =
     (case p of (ref, node, cp) \<Rightarrow>
        if severity (hr_status r) = ''bad'' \<and> hr_status r AND CODE_MASK \<noteq> BAD_NO_DATA
        then ([ItemFailure (pt_series_id ref) (pt_external_id ref @ '': '' @ un_code X (hr_status r))], [])
        else
          (let rows = history_rows (hr_values r) start_ns end_ns in
           (if rows = [] then [] else [ItemRows (pt_series_id ref) (Batch rows)],
            if hr_more r = [] then [] else [(ref, node, Some (hr_more r))])))"

text \<open>One round over the pending nodes; the flag says that the strict zip found lists of different lengths.\<close>

fun history_round :: "ua_names \<Rightarrow> ns \<Rightarrow> ns \<Rightarrow> pending list \<Rightarrow> history_result list \<Rightarrow> fetch_item list \<times> pending list \<times> bool" where
  "history_round X start_ns end_ns (p # ps) (r # rs) =
     (let (items, again) = history_step X start_ns end_ns p r; (items', again', bad) = history_round X start_ns end_ns ps rs
      in (items @ items', again @ again', bad))"
| "history_round X start_ns end_ns [] [] = ([], [], False)"
| "history_round X start_ns end_ns _ _ = ([], [], True)"

definition history_nodes :: "pending list \<Rightarrow> history_node list" where
  "history_nodes ps = map (\<lambda>(ref, node, cp). (node, cp)) ps"

definition release_points :: "'s ua_server \<Rightarrow> pending list \<Rightarrow> 's \<Rightarrow> 's" where
  "release_points srv ps s =
     (let open_points = filter (\<lambda>(node, cp). cp \<noteq> None \<and> cp \<noteq> Some []) (history_nodes ps)
      in if open_points = [] then s else us_release srv open_points s)"

text \<open>
  The rounds: a stream is the items yielded and how it ends; continuation points still open at an error are released.
\<close>

partial_function (option) history_rounds :: "'s ua_server \<Rightarrow> ua_names \<Rightarrow> stamp \<times> stamp \<times> nat \<Rightarrow> ns \<Rightarrow> ns \<Rightarrow> pending list
    \<Rightarrow> 's \<Rightarrow> ((fetch_item list \<times> stream_end) \<times> 's) option" where
  "history_rounds srv X details start_ns end_ns pending s =
     (if pending = [] then Some (([], StreamDone), s)
      else (case us_history srv details (history_nodes pending) s of
          (ConnFailed m r, s') \<Rightarrow> Some (([], StreamConnErr m r), release_points srv pending s')
        | (Crashed, s') \<Rightarrow> Some (([], StreamCrash), release_points srv pending s')
        | (Answered results, s') \<Rightarrow>
            (case history_round X start_ns end_ns pending results of
               (items, following, bad) \<Rightarrow>
                 if bad then Some ((items, StreamCrash), release_points srv pending s')
                 else Option.bind (history_rounds srv X details start_ns end_ns following s') (\<lambda>((items', e), s'').
                   Some ((items @ items', e), s'')))))"

definition history_details :: "ns \<Rightarrow> ns \<Rightarrow> nat \<Rightarrow> stamp \<times> stamp \<times> nat" where
  "history_details start_ns end_ns max_values = (stamp_from_ns start_ns False, stamp_from_ns end_ns True, max_values)"

definition ua_fetch :: "'s ua_server \<Rightarrow> ua_names \<Rightarrow> nat \<Rightarrow> point_ref list \<Rightarrow> ns \<Rightarrow> ns \<Rightarrow> 's
    \<Rightarrow> ((fetch_item list \<times> stream_end) \<times> 's) option" where
  "ua_fetch srv X max_values points start_ns end_ns s =
     Option.bind (readable_points srv X points s) (\<lambda>(a, s').
       case a of
         ConnFailed m r \<Rightarrow> Some (([], StreamConnErr m r), s')
       | Crashed \<Rightarrow> Some (([], StreamCrash), s')
       | Answered (readable, failures) \<Rightarrow>
           Option.bind (history_rounds srv X (history_details start_ns end_ns max_values) start_ns end_ns
               (map (\<lambda>(ref, node). (ref, node, None)) readable) s') (\<lambda>((items, e), s'').
             Some ((failures @ items, e), s'')))"

section \<open>Check and describe\<close>

text \<open>The state of the server is the value 0 when it runs.\<close>

definition ua_check :: "'s ua_server \<Rightarrow> ('s, unit) ua" where
  "ua_check srv = ua_bind (ua_call (us_read srv [(''i=2259'', AValue)])) (\<lambda>dvs.
     case dvs of
       [state] \<Rightarrow>
         if severity (status_of_value state) = ''bad'' then (\<lambda>s. Some (ConnFailed ''OPC UA server is not running'' True, s))
         else (case dv_value state of
             None \<Rightarrow> ua_crash
           | Some v \<Rightarrow> if v = VInt 0 then ua_return () else (\<lambda>s. Some (ConnFailed ''OPC UA server is not running'' True, s)))
     | _ \<Rightarrow> ua_crash)"

text \<open>The display names from below the Objects folder (or the root folder) down to the parent.\<close>

definition STOP_AT :: "string list" where "STOP_AT = [''i=85'', ''i=84'']"

fun parents :: "'s ua_server \<Rightarrow> nat \<Rightarrow> string \<Rightarrow> ('s, string list) ua" where
  "parents srv 0 current = ua_return []"
| "parents srv (Suc n) current =
     ua_bind (browse srv Parents [current]) (\<lambda>results.
       case results of
         [refs] \<Rightarrow>
           (case List.find (\<lambda>r. \<not> rf_remote r) refs of
              None \<Rightarrow> ua_return []
            | Some parent \<Rightarrow>
                if rf_node parent \<in> set STOP_AT then ua_return []
                else ua_bind (parents srv n (rf_node parent)) (\<lambda>outer.
                  ua_return (outer @ [case text_of (rf_display parent) of Some d \<Rightarrow> d | None \<Rightarrow> rf_browse parent])))
       | _ \<Rightarrow> ua_crash)"

definition range_of :: "variant option \<Rightarrow> raw_float option \<times> raw_float option" where
  "range_of v = (case v of Some (VRange lo hi) \<Rightarrow> (Some lo, Some hi) | _ \<Rightarrow> (None, None))"

text \<open>A bound that is not finite, which JSON cannot hold, is written as null here.\<close>

fun float_json :: "raw_float \<Rightarrow> json" where
  "float_json (Finite r) = JNum r"
| "float_json NotFinite = JNull"

definition range_json :: "raw_float option \<times> raw_float option \<Rightarrow> json option" where
  "range_json r = (case r of (Some lo, Some hi) \<Rightarrow> Some (JArr [float_json lo, float_json hi]) | _ \<Rightarrow> None)"

definition PROPERTIES :: "string list" where "PROPERTIES = [''EngineeringUnits'', ''EURange'', ''InstrumentRange'']"

text \<open>The text of a variant, as \<^verbatim>\<open>_text\<close> finds it; other values have none here.\<close>

fun variant_text :: "variant \<Rightarrow> string option" where
  "variant_text (VText t) = text_of t"
| "variant_text (VStr t) = text_of (Some t)"
| "variant_text _ = None"

definition some_entries :: "(string \<times> json option) list \<Rightarrow> jobj" where
  "some_entries kvs = concat (map (\<lambda>(k, v). case v of None \<Rightarrow> [] | Some j \<Rightarrow> [(k, j)]) kvs)"

definition type_text :: "ua_names \<Rightarrow> variant \<Rightarrow> string option" where
  "type_text X v = (case v of VNode n \<Rightarrow> Some (case un_type X n of Some name \<Rightarrow> name | None \<Rightarrow> n) | _ \<Rightarrow> None)"

text \<open>The metadata from the four attributes, the properties read and the parents.\<close>

definition node_metadata :: "ua_names \<Rightarrow> string \<Rightarrow> variant list \<Rightarrow> (string \<times> variant) list \<Rightarrow> string list \<Rightarrow> int \<Rightarrow> point_metadata" where
  "node_metadata X node attrs props outer bits =
     (let eu = (case map_of (rev props) ''EngineeringUnits'' of Some VNothing \<Rightarrow> None | v \<Rightarrow> v);
          physical = range_of (map_of (rev props) ''InstrumentRange'');
          operational = range_of (map_of (rev props) ''EURange'')
      in \<lparr>pm_unit = (case eu of Some (VUnits d u n) \<Rightarrow> text_of d | _ \<Rightarrow> None),
          pm_description = variant_text (attrs ! 1),
          pm_physical_min = fst physical, pm_physical_max = snd physical,
          pm_operational_min = fst operational, pm_operational_max = snd operational,
          pm_asset_path = (if join_with ''/'' outer = [] then None else Some (join_with ''/'' outer)),
          pm_extra = some_entries ([(''node_id'', Some (JStr node)), (''data_type'', map_option JStr (type_text X (attrs ! 2))),
              (''history_read'', Some (JBool (history_bit bits))),
              (''eu_range'', range_json operational), (''instrument_range'', range_json physical)] @
              (case eu of
                 Some (VUnits d u n) \<Rightarrow> [(''eu_unit_id'', Some (JInt u)), (''eu_namespace'', map_option JStr n)]
               | _ \<Rightarrow> [])) @ [(''display_name'', opt_json (variant_text (attrs ! 0)))]\<rparr>)"

fun all_some :: "'a option list \<Rightarrow> 'a list option" where
  "all_some [] = Some []"
| "all_some (x # xs) = Option.bind x (\<lambda>a. map_option ((#) a) (all_some xs))"

text \<open>The good values of the properties wanted; a good one without a value raises.\<close>

definition good_props :: "(string \<times> data_value) list \<Rightarrow> (string \<times> variant) list option" where
  "good_props got = all_some (map (\<lambda>(name, dv). map_option (Pair name) (dv_value dv))
     (filter (\<lambda>(name, dv). severity (status_of_value dv) \<noteq> ''bad'') got))"

definition read_props :: "'s ua_server \<Rightarrow> (string \<times> string) list \<Rightarrow> ('s, (string \<times> variant) list) ua" where
  "read_props srv wanted =
     (if wanted = [] then ua_return []
      else ua_bind (ua_call (us_read srv (map (\<lambda>(name, n). (n, AValue)) wanted))) (\<lambda>got.
        case Option.bind (zip_strict (map fst wanted) got) good_props of
          None \<Rightarrow> ua_crash
        | Some props \<Rightarrow> ua_return props))"

definition describe_node :: "'s ua_server \<Rightarrow> ua_names \<Rightarrow> string \<Rightarrow> ('s, string + point_metadata) ua" where
  "describe_node srv X node =
     ua_bind (ua_call (us_read srv [(node, ADisplayName), (node, ADescription), (node, ADataType), (node, AAccessLevel)])) (\<lambda>dvs.
     if dvs = [] then ua_crash
     else if severity (status_of_value (hd dvs)) = ''bad'' then ua_return (Inl (un_code X (status_of_value (hd dvs))))
     else (case all_some (map dv_value dvs) of
         None \<Rightarrow> ua_crash
       | Some attrs \<Rightarrow>
           if length attrs \<noteq> 4 then ua_crash
           else ua_bind (browse srv Properties [node]) (\<lambda>results.
             case results of
               [props] \<Rightarrow>
                 ua_bind (read_props srv (map (\<lambda>p. (rf_browse p, rf_node p)) (filter (\<lambda>p. rf_browse p \<in> set PROPERTIES) props))) (\<lambda>found.
                 case access_bits (attrs ! 3) of
                   None \<Rightarrow> ua_crash
                 | Some bits \<Rightarrow>
                     ua_bind (parents srv MAX_PARENTS node) (\<lambda>outer.
                     ua_return (Inr (node_metadata X node attrs found outer bits))))
             | _ \<Rightarrow> ua_crash)))"

fun ua_describe :: "'s ua_server \<Rightarrow> ua_names \<Rightarrow> point_ref list \<Rightarrow> ('s, point_description list) ua" where
  "ua_describe srv X [] = ua_return []"
| "ua_describe srv X (ref # refs) =
     ua_bind
       (case un_parse X (pt_external_id ref) of
          None \<Rightarrow> ua_return \<lparr>pd_series_id = pt_series_id ref, pd_metadata = None,
                     pd_error = Some (''not a node id: '' @ take 100 (pt_external_id ref))\<rparr>
        | Some node \<Rightarrow> ua_bind (describe_node srv X node) (\<lambda>r. ua_return (case r of
              Inl why \<Rightarrow> \<lparr>pd_series_id = pt_series_id ref, pd_metadata = None, pd_error = Some (pt_external_id ref @ '': '' @ why)\<rparr>
            | Inr m \<Rightarrow> \<lparr>pd_series_id = pt_series_id ref, pd_metadata = Some m, pd_error = None\<rparr>)))
       (\<lambda>d. ua_bind (ua_describe srv X refs) (\<lambda>ds. ua_return (d # ds)))"

end
