(* ===== verification/Opc_Session.thy ===== *)
theory Opc_Session
  imports Net_Facts Opc_Ua
begin

text \<open>
  \<^verbatim>\<open>connectors/opc_ua/config.py\<close> and \<^verbatim>\<open>session.py\<close>: the config, the credentials and the
  certificates of a source, the errors a session's exceptions stand for, and how a session is opened: the checked address,
  the pinned certificate, the secured channel, the user.  Certificates and keys, as the library reads them, URLs and
  what the server answers are parameters.
\<close>

section \<open>Config\<close>

datatype security_policy = Basic256Sha256 | Aes128_Sha256_RsaOaep | Aes256_Sha256_RsaPss | PolicyNone

datatype security_mode = Sign | SignAndEncrypt

record opc_config = connector_config +
  oc_endpoint_url :: string
  oc_policy :: security_policy
  oc_mode :: security_mode
  oc_allow_insecure :: bool
  oc_sha256 :: "string option"
  oc_browse_root :: string
  oc_browse_limit :: int
  oc_browse_depth :: int
  oc_max_values :: int
  oc_timeout_s :: rat

text \<open>What splitting a URL gives; a port of \<open>Some None\<close> is one that does not read.\<close>

record opc_url =
  ou_scheme :: string
  ou_hostname :: "string option"
  ou_port :: "nat option option"
  ou_path :: string
  ou_query :: string
  ou_fragment :: string
  ou_netloc :: string

definition normalise_thumbprint :: "string \<Rightarrow> string" where
  "normalise_thumbprint s = lower (filter (\<lambda>c. \<not> is_space c \<and> c \<noteq> CHR '':'') s)"

definition is_hex :: "char \<Rightarrow> bool" where
  "is_hex c \<longleftrightarrow> CHR ''0'' \<le> c \<and> c \<le> CHR ''9'' \<or> CHR ''a'' \<le> c \<and> c \<le> CHR ''f''"

text \<open>A pattern's \<^verbatim>\<open>$\<close> also matches before a final line feed, which a normalised thumbprint has not.\<close>

definition is_thumbprint :: "string \<Rightarrow> bool" where
  "is_thumbprint s \<longleftrightarrow>
     (let h = takeWhile is_hex s in length h = 64 \<and> drop 64 s \<in> {[], [CHR 0x0A]})"

definition without_namespace :: "string \<Rightarrow> string" where
  "without_namespace s =
     (let digits = takeWhile (\<lambda>c. CHR ''0'' \<le> c \<and> c \<le> CHR ''9'') (drop 3 s); after = drop (length digits) (drop 3 s) in
      if take 3 s = ''ns='' \<and> 1 \<le> length digits \<and> length digits \<le> 5 \<and> take 1 after = '';'' then drop 1 after else s)"

definition is_node_id :: "string \<Rightarrow> bool" where
  "is_node_id s \<longleftrightarrow>
     (let r = without_namespace s; body = drop 2 r in
      r \<noteq> [] \<and> hd r \<in> set ''isgb'' \<and> take 1 (drop 1 r) = ''='' \<and>
      (1 \<le> length body \<and> length body \<le> 4000 \<or> length body = 4001 \<and> last body = CHR 0x0A))"

definition opc_secure :: "opc_config \<Rightarrow> bool" where
  "opc_secure cfg \<longleftrightarrow> oc_policy cfg \<noteq> PolicyNone"

definition valid_endpoint :: "opc_url \<Rightarrow> bool" where
  "valid_endpoint u \<longleftrightarrow>
     ou_scheme u = ''opc.tcp'' \<and> ou_hostname u \<notin> {None, Some []} \<and>
     ou_query u = [] \<and> ou_fragment u = [] \<and> CHR ''@'' \<notin> set (ou_netloc u) \<and> ou_port u \<noteq> Some None"

definition validate_opc_config :: "(string \<Rightarrow> opc_url) \<Rightarrow> opc_config \<Rightarrow> opc_config option" where
  "validate_opc_config split c =
     (let url = strip (oc_endpoint_url c); pin = map_option normalise_thumbprint (oc_sha256 c); start = strip (oc_browse_root c) in
      if config_valid (connector_config.truncate c) \<and> length (oc_endpoint_url c) \<le> 500 \<and> valid_endpoint (split url) \<and>
         (case oc_sha256 c of None \<Rightarrow> True | Some s \<Rightarrow> length s \<le> 100) \<and> (case pin of None \<Rightarrow> True | Some p \<Rightarrow> is_thumbprint p) \<and>
         length (oc_browse_root c) \<le> 500 \<and> is_node_id start \<and>
         100 \<le> oc_browse_limit c \<and> oc_browse_limit c \<le> 50000 \<and> 1 \<le> oc_browse_depth c \<and> oc_browse_depth c \<le> 30 \<and>
         100 \<le> oc_max_values c \<and> oc_max_values c \<le> 100000 \<and> 1 \<le> oc_timeout_s c \<and> oc_timeout_s c \<le> 300 \<and>
         (oc_policy c = PolicyNone \<longrightarrow> oc_allow_insecure c)
      then Some (c\<lparr>oc_endpoint_url := url, oc_sha256 := pin, oc_browse_root := start\<rparr>) else None)"

section \<open>Credentials and certificates\<close>

definition MIN_RSA_BITS :: int where "MIN_RSA_BITS = 2048"

text \<open>A public key is RSA with its numbers, or of another kind.\<close>

record certificate =
  ct_public :: "(int \<times> int) option"
  ct_uris :: "string list option"
  ct_sha1 :: string
  ct_sha256 :: string
  ct_common_names :: "string list"
  ct_der :: string
  ct_not_after :: string

datatype private_key = RsaKey int "int \<times> int" | OtherKey

record x509 =
  x_pem :: "string \<Rightarrow> certificate option"
  x_der :: "string \<Rightarrow> certificate option"
  x_key :: "string \<Rightarrow> private_key option"

record ua_credentials =
  uc_with_user :: bool
  uc_username :: "string option"
  uc_password :: "string option"
  uc_certificate_pem :: "string option"
  uc_private_key_pem :: "string option"

definition check_pair :: "x509 \<Rightarrow> string \<Rightarrow> string \<Rightarrow> string + unit" where
  "check_pair X certificate_pem key_pem =
     (case (x_pem X certificate_pem, x_key X key_pem) of
        (Some cert, Some key) \<Rightarrow>
          (case key of
             OtherKey \<Rightarrow> Inl (''client key must be RSA of at least '' @ int_str MIN_RSA_BITS @ '' bits'')
           | RsaKey bits numbers \<Rightarrow>
               if bits < MIN_RSA_BITS then Inl (''client key must be RSA of at least '' @ int_str MIN_RSA_BITS @ '' bits'')
               else if ct_public cert \<noteq> Some numbers then Inl ''client key does not match the certificate''
               else Inr ())
      | _ \<Rightarrow> Inl ''client certificate or key is not PEM (or the key is encrypted)'')"

definition length_within :: "nat \<Rightarrow> nat \<Rightarrow> string option \<Rightarrow> bool" where
  "length_within lo hi t = (case t of None \<Rightarrow> True | Some s \<Rightarrow> lo \<le> length s \<and> length s \<le> hi)"

definition credentials_shape :: "x509 \<Rightarrow> ua_credentials \<Rightarrow> bool" where
  "credentials_shape X c \<longleftrightarrow>
     length_within 1 256 (uc_username c) \<and> length_within 1 1024 (uc_password c) \<and>
     length_within 0 16384 (uc_certificate_pem c) \<and> length_within 0 16384 (uc_private_key_pem c) \<and>
     (if uc_with_user c then uc_username c \<noteq> None \<and> uc_password c \<noteq> None else uc_username c = None \<and> uc_password c = None) \<and>
     (case (uc_certificate_pem c, uc_private_key_pem c) of
        (None, None) \<Rightarrow> True
      | (Some cert, Some key) \<Rightarrow> check_pair X cert key = Inr ()
      | _ \<Rightarrow> False)"

definition application_uri :: "uuid \<Rightarrow> string" where
  "application_uri source_id = ''urn:tabayyun:source:'' @ uuid_str source_id"

definition certificate_uri :: "certificate \<Rightarrow> string option" where
  "certificate_uri cert = (case ct_uris cert of Some (u # us) \<Rightarrow> Some u | _ \<Rightarrow> None)"

definition certificate_info :: "x509 \<Rightarrow> string \<Rightarrow> jobj option" where
  "certificate_info X pem =
     map_option (\<lambda>cert. [(''certificate_pem'', JStr pem), (''sha1'', JStr (ct_sha1 cert)), (''sha256'', JStr (ct_sha256 cert)),
       (''application_uri'', case certificate_uri cert of Some u \<Rightarrow> JStr u | None \<Rightarrow> JNull), (''not_after'', JStr (ct_not_after cert))])
     (x_pem X pem)"

section \<open>Errors\<close>

definition AUTH_CODES :: "string list" where
  "AUTH_CODES = [''BadUserAccessDenied'', ''BadIdentityTokenInvalid'', ''BadIdentityTokenRejected'', ''BadSecurityChecksFailed'',
     ''BadSecurityPolicyRejected'', ''BadSecurityModeRejected'', ''BadApplicationSignatureInvalid'', ''BadUserSignatureInvalid'']"

definition RETRY_CODES :: "string list" where
  "RETRY_CODES = [''BadTimeout'', ''BadServerHalted'', ''BadTooManySessions'', ''BadCommunicationError'', ''BadConnectionClosed'',
     ''BadSecureChannelClosed'', ''BadServerNotConnected'', ''BadNotConnected'', ''BadShutdown'', ''BadResourceUnavailable'',
     ''BadServerTooBusy'', ''BadTcpServerTooBusy'']"

datatype conn_error = AuthRefused string | ConnErr string bool | TargetErr net_error

text \<open>Exceptions of a session; a raise that is none of the connector's stays what it is.\<close>

datatype ua_exc = ExcConn conn_error | ExcStatus ua_status | ExcTimeout | ExcOs string | ExcUa string | ExcOther

definition upper_hex :: "nat \<Rightarrow> string" where
  "upper_hex n = map (\<lambda>c. if CHR ''a'' \<le> c \<and> c \<le> CHR ''f'' then char_of (of_char c - 32 :: nat) else c) (hex_digits 8 n)"

text \<open>The names of status codes are the library's.\<close>

definition code_name :: "(ua_status \<Rightarrow> string option) \<Rightarrow> ua_status \<Rightarrow> string" where
  "code_name names status =
     (case names (status AND CODE_MASK) of
        Some name \<Rightarrow> if name \<noteq> [] \<and> take 7 name \<noteq> ''Unknown'' then name else ''0x'' @ upper_hex (unat status)
      | None \<Rightarrow> ''0x'' @ upper_hex (unat status))"

definition error_for :: "(ua_status \<Rightarrow> string option) \<Rightarrow> ua_exc \<Rightarrow> conn_error option" where
  "error_for names e =
     (case e of
        ExcConn c \<Rightarrow> Some c
      | ExcStatus code \<Rightarrow>
          (let name = code_name names code in
           if name \<in> set AUTH_CODES \<or> take 14 name = ''BadCertificate''
           then Some (AuthRefused (''OPC UA server refused the connection: '' @ name))
           else Some (ConnErr (''OPC UA server answered '' @ name) (name \<in> set RETRY_CODES)))
      | ExcTimeout \<Rightarrow> Some (ConnErr ''OPC UA server timed out'' True)
      | ExcOs cls \<Rightarrow> Some (ConnErr (''cannot reach the OPC UA server ('' @ cls @ '')'') True)
      | ExcUa cls \<Rightarrow> Some (ConnErr (''OPC UA error ('' @ cls @ '')'') False)
      | ExcOther \<Rightarrow> None)"

section \<open>Opening a session\<close>

definition DEFAULT_PORT :: nat where "DEFAULT_PORT = 4840"
definition FALLBACK_URI :: string where "FALLBACK_URI = ''urn:tabayyun:client''"

record ua_endpoint =
  ep_policy :: security_policy
  ep_mode :: security_mode
  ep_certificate :: "string option"

record ua_security =
  us_policy :: security_policy
  us_certificate :: string
  us_key :: string
  us_server_der :: string
  us_mode :: security_mode

record ua_client =
  cl_url :: string
  cl_timeout :: rat
  cl_application_uri :: string
  cl_security :: "ua_security option"
  cl_user :: "(string \<times> string) option"

text \<open>What a client does over the network, in order.\<close>

datatype ua_action = AskEndpoints ua_client | SetSecurity ua_client ua_security | Connect ua_client

record session_env =
  se_split :: "string \<Rightarrow> opc_url"
  se_texts :: ip_texts
  se_x509 :: x509
  se_names :: "ua_status \<Rightarrow> string option"
  se_endpoints :: "ua_client \<Rightarrow> ua_exc + ua_endpoint list"
  se_secure :: "ua_client \<Rightarrow> ua_security \<Rightarrow> ua_exc option"
  se_connect :: "ua_client \<Rightarrow> ua_exc option"

definition opc_target :: "session_env \<Rightarrow> opc_config \<Rightarrow> (string \<times> nat \<times> string) option" where
  "opc_target S cfg =
     (let u = se_split S (oc_endpoint_url cfg) in
      case (ou_hostname u, ou_port u) of
        (None, _) \<Rightarrow> None
      | (_, Some None) \<Rightarrow> None
      | (Some h, Some (Some n)) \<Rightarrow> Some (h, if n = 0 then DEFAULT_PORT else n, ou_path u)
      | (Some h, None) \<Rightarrow> Some (h, DEFAULT_PORT, ou_path u))"

definition policy_text :: "security_policy \<Rightarrow> string" where
  "policy_text p = (case p of Basic256Sha256 \<Rightarrow> ''Basic256Sha256'' | Aes128_Sha256_RsaOaep \<Rightarrow> ''Aes128_Sha256_RsaOaep''
     | Aes256_Sha256_RsaPss \<Rightarrow> ''Aes256_Sha256_RsaPss'' | PolicyNone \<Rightarrow> ''None'')"

definition mode_text :: "security_mode \<Rightarrow> string" where
  "mode_text m = (case m of Sign \<Rightarrow> ''Sign'' | SignAndEncrypt \<Rightarrow> ''SignAndEncrypt'')"

text \<open>The certificate of the first endpoint with the configured policy and mode that has one.\<close>

definition server_certificate :: "session_env \<Rightarrow> ua_endpoint list \<Rightarrow> opc_config \<Rightarrow> ua_exc + certificate" where
  "server_certificate S endpoints cfg =
     (case filter (\<lambda>e. ep_policy e = oc_policy cfg \<and> ep_mode e = oc_mode cfg \<and> ep_certificate e \<notin> {None, Some []}) endpoints of
        [] \<Rightarrow> Inl (ExcConn (ConnErr (''server offers no '' @ policy_text (oc_policy cfg) @ '' '' @ mode_text (oc_mode cfg) @ '' endpoint'') False))
      | e # es \<Rightarrow> expect (Option.bind (ep_certificate e) (x_der (se_x509 S))) ExcOther)"

definition pin_certificate :: "certificate \<Rightarrow> opc_config \<Rightarrow> ua_exc + unit" where
  "pin_certificate cert cfg =
     (case oc_sha256 cfg of
        None \<Rightarrow> Inl (ExcConn (ConnErr (''server certificate not pinned: SHA-256 '' @ ct_sha256 cert @ '', subject '' @
            (case ct_common_names cert of [] \<Rightarrow> ''?'' | n # ns \<Rightarrow> n) @
            ''; set server_certificate_sha256 after comparing it with the server'') False))
      | Some pin \<Rightarrow>
          require (ct_sha256 cert = pin)
            (ExcConn (ConnErr (''server certificate SHA-256 '' @ ct_sha256 cert @ '' does not match the pinned '' @ pin) False)))"

definition ua_identity :: "ua_credentials option \<Rightarrow> string option" where
  "ua_identity creds = Option.bind creds uc_certificate_pem"

text \<open>The channel: the actions taken, and the client with its security set.\<close>

definition secure_channel :: "session_env \<Rightarrow> opc_config \<Rightarrow> ua_credentials option \<Rightarrow> ua_client \<Rightarrow> ua_action list \<times> (ua_exc + ua_client)" where
  "secure_channel S cfg creds client =
     (if \<not> opc_secure cfg then ([], Inr client)
      else (case (ua_identity creds, Option.bind creds uc_private_key_pem) of
          (None, _) \<Rightarrow> ([], Inl (ExcConn (AuthRefused ''no client certificate: set the source's credentials first'')))
        | (Some cert, None) \<Rightarrow> ([], Inl ExcOther)
        | (Some cert, Some key) \<Rightarrow>
            if cert = [] \<or> key = [] then ([], Inl ExcOther)
            else (case rbind (se_endpoints S client) (\<lambda>es. rbind (server_certificate S es cfg) (\<lambda>server.
                rbind (pin_certificate server cfg) (\<lambda>_. Inr server))) of
              Inl e \<Rightarrow> ([AskEndpoints client], Inl e)
            | Inr server \<Rightarrow>
                (let sec = \<lparr>us_policy = oc_policy cfg, us_certificate = cert, us_key = key, us_server_der = ct_der server, us_mode = oc_mode cfg\<rparr>
                 in ([AskEndpoints client, SetSecurity client sec],
                     case se_secure S client sec of Some e \<Rightarrow> Inl e | None \<Rightarrow> Inr (client\<lparr>cl_security := Some sec\<rparr>))))))"

definition set_user :: "ua_credentials option \<Rightarrow> ua_client \<Rightarrow> ua_exc + ua_client" where
  "set_user creds client =
     (case creds of
        None \<Rightarrow> Inr client
      | Some c \<Rightarrow>
          if \<not> uc_with_user c then Inr client
          else (case (uc_username c, uc_password c) of
              (Some u, Some p) \<Rightarrow> Inr (client\<lparr>cl_user := Some (u, p)\<rparr>)
            | _ \<Rightarrow> Inl ExcOther))"

definition connect_client :: "session_env \<Rightarrow> opc_config \<Rightarrow> ua_credentials option \<Rightarrow> ua_client \<Rightarrow> ua_action list \<times> (ua_exc + ua_client)" where
  "connect_client S cfg creds client =
     (case secure_channel S cfg creds client of
        (acts, Inl e) \<Rightarrow> (acts, Inl e)
      | (acts, Inr secured) \<Rightarrow>
          (case set_user creds secured of
             Inl e \<Rightarrow> (acts, Inl e)
           | Inr user \<Rightarrow> (acts @ [Connect user], case se_connect S user of Some e \<Rightarrow> Inl e | None \<Rightarrow> Inr user)))"

text \<open>An IPv6 address stands in brackets.\<close>

definition new_client :: "opc_config \<Rightarrow> string \<Rightarrow> nat \<Rightarrow> string \<Rightarrow> string \<Rightarrow> ua_client" where
  "new_client cfg address port path u =
     \<lparr>cl_url = ''opc.tcp://'' @ (if CHR '':'' \<in> set address then ''['' @ address @ '']'' else address) @ '':'' @ nat_str port @ path,
      cl_timeout = oc_timeout_s cfg, cl_application_uri = u, cl_security = None, cl_user = None\<rparr>"

datatype opened = Opened ua_client | OpenFailed conn_error | OpenRaised

definition open_session :: "session_env \<Rightarrow> net_policy \<Rightarrow> opc_config \<Rightarrow> ua_credentials option \<Rightarrow> ua_action list \<times> opened" where
  "open_session S net cfg creds =
     (case opc_target S cfg of
        None \<Rightarrow> ([], OpenRaised)
      | Some (host, port, path) \<Rightarrow>
          (case tcp_target (se_texts S) net host port of
             Inl e \<Rightarrow> ([], OpenFailed (TargetErr e))
           | Inr address \<Rightarrow>
               (let uri = (case ua_identity creds of
                        None \<Rightarrow> Some FALLBACK_URI
                      | Some pem \<Rightarrow> map_option (\<lambda>cert. case certificate_uri cert of Some u \<Rightarrow> if u = [] then FALLBACK_URI else u | None \<Rightarrow> FALLBACK_URI)
                          (x_pem (se_x509 S) pem))
                in (case uri of
                      None \<Rightarrow> ([], OpenRaised)
                    | Some u \<Rightarrow>
                        (case connect_client S cfg creds (new_client cfg address port path u) of
                           (acts, Inr client) \<Rightarrow> (acts, Opened client)
                         | (acts, Inl e) \<Rightarrow> (acts, case error_for (se_names S) e of Some c \<Rightarrow> OpenFailed c | None \<Rightarrow> OpenRaised))))))"

section \<open>Whom a session talks to\<close>

text \<open>The address a client connects to, and that it may.\<close>

definition goes_where_allowed :: "session_env \<Rightarrow> net_policy \<Rightarrow> opc_config \<Rightarrow> ua_client \<Rightarrow> bool" where
  "goes_where_allowed S net cfg client \<longleftrightarrow>
     (\<exists>host port path a address shown. opc_target S cfg = Some (host, port, path) \<and> allows_ip net a \<and>
        address = (case map_of (np_redirect net) (ip_text (se_texts S) a) of Some other \<Rightarrow> other | None \<Rightarrow> ip_text (se_texts S) a) \<and>
        shown = (if CHR '':'' \<in> set address then ''['' @ address @ '']'' else address) \<and>
        cl_url client = ''opc.tcp://'' @ shown @ '':'' @ nat_str port @ path)"

definition pinned :: "session_env \<Rightarrow> opc_config \<Rightarrow> ua_security \<Rightarrow> bool" where
  "pinned S cfg sec \<longleftrightarrow>
     us_policy sec = oc_policy cfg \<and> us_mode sec = oc_mode cfg \<and>
     (\<exists>(e :: ua_endpoint) x. ep_policy e = oc_policy cfg \<and> ep_mode e = oc_mode cfg \<and> Option.bind (ep_certificate e) (x_der (se_x509 S)) = Some x \<and>
        us_server_der sec = ct_der x \<and> oc_sha256 cfg = Some (ct_sha256 x))"

lemma server_certificateD:
  assumes "server_certificate S es cfg = Inr x"
  shows "\<exists>e :: ua_endpoint. ep_policy e = oc_policy cfg \<and> ep_mode e = oc_mode cfg \<and> Option.bind (ep_certificate e) (x_der (se_x509 S)) = Some x"
proof -
  obtain e rest where es: "filter (\<lambda>e. ep_policy e = oc_policy cfg \<and> ep_mode e = oc_mode cfg \<and> ep_certificate e \<notin> {None, Some []}) es = e # rest"
    using assms by (cases "filter (\<lambda>e. ep_policy e = oc_policy cfg \<and> ep_mode e = oc_mode cfg \<and> ep_certificate e \<notin> {None, Some []}) es")
      (simp_all add: server_certificate_def)
  then have "e \<in> set (filter (\<lambda>e. ep_policy e = oc_policy cfg \<and> ep_mode e = oc_mode cfg \<and> ep_certificate e \<notin> {None, Some []}) es)" by simp
  moreover have "Option.bind (ep_certificate e) (x_der (se_x509 S)) = Some x" using assms es by (simp add: server_certificate_def)
  ultimately show ?thesis by auto
qed

lemma pin_certificateD: "pin_certificate x cfg = Inr u \<Longrightarrow> oc_sha256 cfg = Some (ct_sha256 x)"
  by (auto simp: pin_certificate_def split: option.splits)

lemma secure_channelD:
  assumes "secure_channel S cfg creds client = (acts, r)" "cl_security client = None"
  shows "\<forall>a \<in> set acts. case a of AskEndpoints c \<Rightarrow> c = client | SetSecurity c sec \<Rightarrow> c = client \<and> pinned S cfg sec | Connect c \<Rightarrow> False"
    "r = Inr secured \<Longrightarrow> if opc_secure cfg then \<exists>sec. secured = client\<lparr>cl_security := Some sec\<rparr> \<and> pinned S cfg sec else secured = client"
proof -
  have "(\<forall>a \<in> set acts. case a of AskEndpoints c \<Rightarrow> c = client | SetSecurity c sec \<Rightarrow> c = client \<and> pinned S cfg sec | Connect c \<Rightarrow> False) \<and>
    (\<forall>secured. r = Inr secured \<longrightarrow> (if opc_secure cfg then \<exists>sec. secured = client\<lparr>cl_security := Some sec\<rparr> \<and> pinned S cfg sec else secured = client))"
  proof (cases "opc_secure cfg")
    case False
    then show ?thesis using assms by (auto simp: secure_channel_def)
  next
    case True
    let ?chain = "rbind (se_endpoints S client) (\<lambda>es. rbind (server_certificate S es cfg) (\<lambda>server. rbind (pin_certificate server cfg) (\<lambda>_. Inr server)))"
    have ok: "pinned S cfg \<lparr>us_policy = oc_policy cfg, us_certificate = cert, us_key = key, us_server_der = ct_der server, us_mode = oc_mode cfg\<rparr>"
      if chain: "?chain = Inr server" for server cert key
    proof -
      obtain es where "server_certificate S es cfg = Inr server" "pin_certificate server cfg = Inr ()"
        using chain by (auto simp: rbind_eq_Inr)
      then show ?thesis using server_certificateD pin_certificateD by (fastforce simp: pinned_def)
    qed
    show ?thesis
    proof (cases "\<exists>cert key. ua_identity creds = Some cert \<and> Option.bind creds uc_private_key_pem = Some key \<and> cert \<noteq> [] \<and> key \<noteq> []")
      case False
      then show ?thesis using assms(1) True by (auto simp: secure_channel_def split: option.splits if_splits)
    next
      case given: True
      then obtain cert key where k: "ua_identity creds = Some cert" "Option.bind creds uc_private_key_pem = Some key" "cert \<noteq> []" "key \<noteq> []" by blast
      show ?thesis
      proof (cases ?chain)
        case (Inl e)
        then show ?thesis using assms(1) True k by (auto simp: secure_channel_def)
      next
        case (Inr server)
        then show ?thesis using assms(1) True k ok [OF Inr, of cert key] by (auto simp: secure_channel_def Let_def split: option.splits)
      qed
    qed
  qed
  then show "\<forall>a \<in> set acts. case a of AskEndpoints c \<Rightarrow> c = client | SetSecurity c sec \<Rightarrow> c = client \<and> pinned S cfg sec | Connect c \<Rightarrow> False"
    "r = Inr secured \<Longrightarrow> if opc_secure cfg then \<exists>sec. secured = client\<lparr>cl_security := Some sec\<rparr> \<and> pinned S cfg sec else secured = client"
    by blast+
qed

lemma set_userD: "set_user creds client = Inr c \<Longrightarrow> \<exists>u. c = client\<lparr>cl_user := u\<rparr> \<and>
    (u = cl_user client \<or> (\<exists>cr. creds = Some cr \<and> uc_with_user cr \<and> u = Some (the (uc_username cr), the (uc_password cr))))"
  by (auto simp: set_user_def split: option.splits if_splits intro: exI [of _ "cl_user client"])

lemma open_session_connects:
  assumes "open_session S net cfg creds = (acts, result)" "acts \<noteq> []"
  shows "\<exists>host port path address u. opc_target S cfg = Some (host, port, path) \<and> tcp_target (se_texts S) net host port = Inr address \<and>
    acts = fst (connect_client S cfg creds (new_client cfg address port path u))"
proof (cases "opc_target S cfg")
  case None
  then show ?thesis using assms by (simp add: open_session_def)
next
  case (Some t)
  obtain host port path where t: "t = (host, port, path)" by (cases t)
  show ?thesis
  proof (cases "tcp_target (se_texts S) net host port")
    case (Inl e)
    then show ?thesis using assms Some t by (simp add: open_session_def)
  next
    case (Inr address)
    have "\<exists>u. acts = fst (connect_client S cfg creds (new_client cfg address port path u))"
    proof (rule ccontr)
      assume "\<not> ?thesis"
      then have "connect_client S cfg creds (new_client cfg address port path u) \<noteq> (acts, x)" for u x
        by (metis fst_conv)
      then show False using assms Some t Inr by (auto simp: open_session_def Let_def split: option.splits prod.splits sum.splits)
    qed
    then show ?thesis using Some t Inr by blast
  qed
qed

text \<open>C30: A session only ever talks to the server that was checked and pinned: whatever the server answers, every
  connection goes to an address the network policy allows (or to where an allowed one is redirected); the user name and
  password go out on no connection but the final one; and with a security policy that one is secured, in the configured
  policy and mode, for a certificate the server offered for them whose SHA-256 is the configured pin.  Only a source that allows
  it explicitly connects without.\<close>

theorem session_is_pinned:
  assumes "validate_opc_config (se_split S) cfg0 = Some cfg" "open_session S net cfg creds = (acts, result)" "act \<in> set acts"
  shows "case act of
      AskEndpoints c \<Rightarrow> goes_where_allowed S net cfg c \<and> cl_user c = None
    | SetSecurity c sec \<Rightarrow> goes_where_allowed S net cfg c \<and> cl_user c = None \<and> pinned S cfg sec
    | Connect c \<Rightarrow> goes_where_allowed S net cfg c \<and>
        (cl_user c \<noteq> None \<longrightarrow> (\<exists>cr. creds = Some cr \<and> uc_with_user cr)) \<and>
        (case cl_security c of Some sec \<Rightarrow> pinned S cfg sec | None \<Rightarrow> oc_policy cfg = PolicyNone \<and> oc_allow_insecure cfg)"
proof -
  have "acts \<noteq> []" using assms(3) by auto
  then obtain host port path address u where target: "opc_target S cfg = Some (host, port, path)" "tcp_target (se_texts S) net host port = Inr address"
    and run: "acts = fst (connect_client S cfg creds (new_client cfg address port path u))"
    using open_session_connects [OF assms(2)] by blast
  define client where "client = new_client cfg address port path u"
  obtain as where as: "resolve (se_texts S) net host port = Inr as"
    "address = (case map_of (np_redirect net) (ip_text (se_texts S) (hd as)) of Some other \<Rightarrow> other | None \<Rightarrow> ip_text (se_texts S) (hd as))"
    using target(2) by (auto simp: tcp_target_def Let_def rbind_eq_Inr)
  have "allows_ip net (hd as)" using resolve_allowed [OF as(1)] by simp
  then have goes: "goes_where_allowed S net cfg (client\<lparr>cl_security := sec, cl_user := user\<rparr>)" for sec user
    using target(1) as(2) unfolding goes_where_allowed_def client_def new_client_def by auto
  have plain: "goes_where_allowed S net cfg client" using goes [of None None] by (simp add: client_def new_client_def)
  have insecure: "oc_policy cfg = PolicyNone \<longrightarrow> oc_allow_insecure cfg"
    using assms(1) by (auto simp: validate_opc_config_def Let_def split: if_splits)
  obtain acts1 r where channel: "secure_channel S cfg creds client = (acts1, r)" by fastforce
  have none: "cl_security client = None" "cl_user client = None" by (simp_all add: client_def new_client_def)
  note facts = secure_channelD [OF channel none(1)]
  have early: ?thesis if "act \<in> set acts1"
    using facts(1) [rule_format, OF that] plain none by (cases act) auto
  show ?thesis
  proof (cases r)
    case (Inl e)
    then have "acts = acts1" using run channel by (simp add: connect_client_def flip: client_def)
    then show ?thesis using early assms(3) by simp
  next
    case (Inr secured)
    show ?thesis
    proof (cases "set_user creds secured")
      case (Inl e)
      then have "acts = acts1" using run channel Inr by (simp add: connect_client_def flip: client_def)
      then show ?thesis using early assms(3) by simp
    next
      case user: (Inr c)
      then have "acts = acts1 @ [Connect c]" using run channel Inr by (simp add: connect_client_def flip: client_def)
      then consider "act \<in> set acts1" | "act = Connect c" using assms(3) by auto
      then show ?thesis
      proof cases
        case 2
        obtain w where w: "c = secured\<lparr>cl_user := w\<rparr>" "w = cl_user secured \<or> (\<exists>cr. creds = Some cr \<and> uc_with_user cr)"
          using set_userD [OF user] by blast
        show ?thesis
        proof (cases "opc_secure cfg")
          case True
          then obtain sec where sec: "secured = client\<lparr>cl_security := Some sec\<rparr>" "pinned S cfg sec" using facts(2) [OF Inr] by auto
          then show ?thesis using 2 w goes [where sec = "Some sec" and user = w] none(2) by auto
        next
          case False
          then have "secured = client" using facts(2) [OF Inr] by simp
          moreover have "client\<lparr>cl_security := None, cl_user := w\<rparr> = client\<lparr>cl_user := w\<rparr>" by (simp add: client_def new_client_def)
          ultimately have c: "c = client\<lparr>cl_user := w\<rparr>" "goes_where_allowed S net cfg c" using w(1) goes [where sec = None and user = w] by simp_all
          then show ?thesis using 2 w(2) \<open>secured = client\<close> none insecure False by (auto simp: opc_secure_def)
        qed
      qed (rule early)
    qed
  qed
qed

text \<open>A server with one endpoint, whose certificate is pinned.\<close>

definition sample_pin :: string where "sample_pin = replicate 64 (CHR ''a'')"

definition sample_certificate :: certificate where
  "sample_certificate = \<lparr>ct_public = Some (3, 5), ct_uris = Some [''urn:x''], ct_sha1 = [], ct_sha256 = sample_pin, ct_common_names = [],
     ct_der = ''der'', ct_not_after = []\<rparr>"

definition sample_session :: session_env where
  "sample_session = \<lparr>se_split = (\<lambda>u. \<lparr>ou_scheme = ''opc.tcp'', ou_hostname = Some ''pi'', ou_port = None, ou_path = [], ou_query = [],
       ou_fragment = [], ou_netloc = ''pi''\<rparr>),
     se_texts = sample_texts, se_x509 = \<lparr>x_pem = (\<lambda>p. Some sample_certificate), x_der = (\<lambda>d. Some sample_certificate), x_key = (\<lambda>k. None)\<rparr>,
     se_names = (\<lambda>s. None), se_endpoints = (\<lambda>c. Inr [\<lparr>ep_policy = Basic256Sha256, ep_mode = Sign, ep_certificate = Some ''der''\<rparr>]),
     se_secure = (\<lambda>c s. None), se_connect = (\<lambda>c. None)\<rparr>"

definition sample_opc_config :: opc_config where
  "sample_opc_config = \<lparr>cfg_poll_interval_s = None, cfg_backfill_s = 86400, cfg_settle_s = 60, cfg_requests_per_second = 20, cfg_max_points = 100,
     cfg_max_span_s = 86400, oc_endpoint_url = ''opc.tcp://pi'', oc_policy = Basic256Sha256, oc_mode = Sign, oc_allow_insecure = False,
     oc_sha256 = Some sample_pin, oc_browse_root = ''i=85'', oc_browse_limit = 5000, oc_browse_depth = 10, oc_max_values = 10000, oc_timeout_s = 30\<rparr>"

definition sample_ua_credentials :: ua_credentials where
  "sample_ua_credentials = \<lparr>uc_with_user = True, uc_username = Some ''u'', uc_password = Some ''p'', uc_certificate_pem = Some ''c'',
     uc_private_key_pem = Some ''k''\<rparr>"

lemma sample_pin_facts: "normalise_thumbprint sample_pin = sample_pin" "is_thumbprint sample_pin" "length sample_pin = 64"
proof -
  show "length sample_pin = 64" by (simp add: sample_pin_def)
  show "normalise_thumbprint sample_pin = sample_pin"
    by (simp add: sample_pin_def normalise_thumbprint_def lower_def lower_char_def is_space_def less_eq_char_def)
  show "is_thumbprint sample_pin"
    by (simp add: sample_pin_def is_thumbprint_def is_hex_def less_eq_char_def takeWhile_replicate)
qed

lemma sample_opc_valid: "validate_opc_config (se_split sample_session) sample_opc_config = Some sample_opc_config"
proof -
  have strips: "strip ''opc.tcp://pi'' = ''opc.tcp://pi''" "strip ''i=85'' = ''i=85''" by (simp_all add: strip_def is_space_def)
  have node: "is_node_id ''i=85''" by (simp add: is_node_id_def without_namespace_def Let_def)
  show ?thesis
    by (simp add: validate_opc_config_def sample_opc_config_def strips node sample_pin_facts sample_session_def valid_endpoint_def config_valid_def
        connector_config.defs)
qed

lemma sample_tcp: "tcp_target sample_texts sample_net_policy ''pi'' 4840 = Inr ''4168034308''"
proof -
  have "np_resolver sample_net_policy ''pi'' 4840 = Some [''4168034308'']" by (simp add: sample_net_policy_def)
  moreover have "strip_brackets ''pi'' = ''pi''" by (simp add: strip_brackets_def Let_def)
  ultimately have "resolve sample_texts sample_net_policy ''pi'' 4840 = Inr [IP4 (quad 10 4 0 4)]"
    by (simp add: resolve_def answers_of_def address_allowed_def address_of_def sample_address sample_allowed)
  then show ?thesis by (simp add: tcp_target_def sample_address) (simp add: sample_net_policy_def)
qed

lemma sample_opened: "\<exists>acts c result. open_session sample_session sample_net_policy sample_opc_config (Some sample_ua_credentials) = (acts, result) \<and>
    Connect c \<in> set acts \<and> cl_security c \<noteq> None"
proof -
  have "opc_target sample_session sample_opc_config = Some (''pi'', 4840, [])"
    by (simp add: opc_target_def sample_session_def DEFAULT_PORT_def)
  moreover have "se_texts sample_session = sample_texts" by (simp add: sample_session_def)
  moreover have "connect_client sample_session sample_opc_config (Some sample_ua_credentials) (new_client sample_opc_config a b c d) = (acts, r) \<Longrightarrow>
      \<exists>x. Connect x \<in> set acts \<and> cl_security x \<noteq> None" for a b c d acts r
    by (auto simp: connect_client_def secure_channel_def opc_secure_def sample_session_def sample_opc_config_def sample_ua_credentials_def ua_identity_def
        server_certificate_def pin_certificate_def sample_certificate_def set_user_def Let_def split: prod.splits sum.splits)
  moreover have "ua_identity (Some sample_ua_credentials) = Some ''c''" "x_pem (se_x509 sample_session) p = Some sample_certificate" for p
    by (simp_all add: ua_identity_def sample_ua_credentials_def sample_session_def)
  ultimately show ?thesis
    by (auto simp: open_session_def sample_tcp split: prod.splits sum.splits)
qed

theorem session_is_pinned_witness:
  "\<exists>c sec. cl_security c = Some sec \<and> goes_where_allowed sample_session sample_net_policy sample_opc_config c \<and> pinned sample_session sample_opc_config sec"
proof -
  obtain acts c result where o: "open_session sample_session sample_net_policy sample_opc_config (Some sample_ua_credentials) = (acts, result)"
    "Connect c \<in> set acts" "cl_security c \<noteq> None" using sample_opened by blast
  show ?thesis using session_is_pinned [OF sample_opc_valid o(1,2)] o(3) by (cases "cl_security c") auto
qed

end
