(* ===== verification/Opc_Search.thy ===== *)
theory Opc_Search
  imports Opc_Ua
begin

text \<open>
  The search of an OPC UA address space: a server that holds a graph of references, and the proof that the
  breadth-first search ends and finds exactly the matching variables within its depth, each once.
\<close>

section \<open>The server's graph\<close>

text \<open>
  The references of each node, and what a continuation point still holds: pages that are continued get shorter.
\<close>

definition ua_graph :: "'s ua_server \<Rightarrow> (string \<Rightarrow> reference list) \<Rightarrow> (string \<Rightarrow> reference list) \<Rightarrow> bool" where
  "ua_graph srv kids rest \<longleftrightarrow>
     (\<forall>nodes s. \<exists>results s'. us_browse srv Children nodes s = (Answered results, s') \<and>
        list_all2 (\<lambda>n r. severity (br_status r) \<noteq> ''bad'' \<and> br_refs r @ rest (br_more r) = kids n) nodes results) \<and>
     rest [] = [] \<and>
     (\<forall>point s. point \<noteq> [] \<longrightarrow> (\<exists>page s'. us_browse_next srv point s = (Answered [page], s') \<and>
        br_refs page @ rest (br_more page) = rest point \<and> (br_more page \<noteq> [] \<longrightarrow> length (rest (br_more page)) < length (rest point))))"

lemma browse_more_all:
  assumes "ua_graph srv kids rest"
  shows "\<exists>s'. browse_more srv refs point s = Some (Answered (refs @ rest point), s')"
proof (induction "length (rest point)" arbitrary: refs point s rule: less_induct)
  case less
  show ?case
  proof (cases "point = []")
    case True
    then show ?thesis using assms by (subst browse_more.simps) (simp add: ua_graph_def)
  next
    case False
    then obtain page s' where page: "us_browse_next srv point s = (Answered [page], s')" "br_refs page @ rest (br_more page) = rest point"
      "br_more page \<noteq> [] \<longrightarrow> length (rest (br_more page)) < length (rest point)"
      using assms unfolding ua_graph_def by blast
    have "\<exists>s''. browse_more srv (refs @ br_refs page) (br_more page) s' = Some (Answered (refs @ br_refs page @ rest (br_more page)), s'')"
    proof (cases "br_more page = []")
      case True
      then show ?thesis using assms by (subst browse_more.simps) (simp add: ua_graph_def)
    next
      case False
      then show ?thesis using less [OF page(3) [rule_format, OF False], of "refs @ br_refs page" s'] by simp
    qed
    then show ?thesis using False page(1,2) by (subst browse_more.simps) simp
  qed
qed

lemma browse_graph:
  assumes "ua_graph srv kids rest"
  shows "\<exists>s'. browse srv Children nodes s = Some (Answered (map kids nodes), s')"
proof -
  have all: "list_all2 (\<lambda>n r. severity (br_status r) \<noteq> ''bad'' \<and> br_refs r @ rest (br_more r) = kids n) ns results \<Longrightarrow>
      \<exists>s''. browse_all srv results s' = Some (Answered (map kids ns), s'')" for ns results s'
  proof (induction ns arbitrary: results s')
    case (Cons n ns)
    then obtain r rs where r: "results = r # rs" "severity (br_status r) \<noteq> ''bad''" "br_refs r @ rest (br_more r) = kids n"
      "list_all2 (\<lambda>n r. severity (br_status r) \<noteq> ''bad'' \<and> br_refs r @ rest (br_more r) = kids n) ns rs"
      by (auto simp: list_all2_Cons1)
    obtain s1 where "browse_more srv (br_refs r) (br_more r) s' = Some (Answered (kids n), s1)"
      using browse_more_all [OF assms, of "br_refs r" "br_more r" s'] r(3) by auto
    moreover obtain s2 where "browse_all srv rs s1 = Some (Answered (map kids ns), s2)" using Cons.IH [OF r(4)] by blast
    ultimately show ?case using r(1,2) by (simp add: ua_bind_def ua_return_def)
  qed (simp add: ua_return_def)
  obtain results s' where "us_browse srv Children nodes s = (Answered results, s')"
    "list_all2 (\<lambda>n r. severity (br_status r) \<noteq> ''bad'' \<and> br_refs r @ rest (br_more r) = kids n) nodes results"
    using assms unfolding ua_graph_def by blast
  then show ?thesis using all by (simp add: browse_def ua_bind_def ua_call_def)
qed

section \<open>The walk\<close>

text \<open>The references followed, the names of one, and what is in reach of a top_node.\<close>

definition followed :: "(string \<Rightarrow> reference list) \<Rightarrow> string \<Rightarrow> reference set" where
  "followed kids n = {r \<in> set (kids n). \<not> rf_property r \<and> \<not> rf_remote r}"

definition name_of :: "reference \<Rightarrow> string" where
  "name_of r = (case text_of (rf_display r) of Some n \<Rightarrow> n | None \<Rightarrow> rf_browse r)"

definition is_hit :: "string \<Rightarrow> reference \<Rightarrow> bool" where
  "is_hit query r \<longleftrightarrow> rf_class r = ClassVariable \<and> name_matches query [name_of r, rf_browse r]"

inductive at_steps :: "(string \<Rightarrow> reference list) \<Rightarrow> string \<Rightarrow> nat \<Rightarrow> string \<Rightarrow> bool" for kids top_node where
  start: "at_steps kids top_node 0 top_node"
| step: "at_steps kids top_node k n \<Longrightarrow> r \<in> followed kids n \<Longrightarrow> at_steps kids top_node (Suc k) (rf_node r)"

text \<open>
  The invariants of a walk, with the depth each seen node was found at, the nodes \<open>bs\<close> of the batch to be expanded
  before the frontier, and the nodes \<open>E\<close> whose references have all been followed.
\<close>

abbreviation queue :: "(string \<times> string list \<times> nat) list \<Rightarrow> search_walk \<Rightarrow> (string \<times> string list \<times> nat) list" where
  "queue bs w \<equiv> bs @ wk_frontier w"

abbreviation found_ids :: "search_walk \<Rightarrow> string set" where
  "found_ids w \<equiv> rp_external_id ` set (wk_found w)"

definition seen_ok :: "(string \<Rightarrow> reference list) \<Rightarrow> string \<Rightarrow> nat \<Rightarrow> (string \<Rightarrow> nat) \<Rightarrow> search_walk \<Rightarrow> bool" where
  "seen_ok kids top_node D depth w \<longleftrightarrow>
     distinct (wk_seen w) \<and> top_node \<in> set (wk_seen w) \<and> depth top_node = 0 \<and> (\<forall>m \<in> set (wk_seen w). depth m \<le> D \<and> at_steps kids top_node (depth m) m)"

definition queue_ok :: "nat \<Rightarrow> (string \<Rightarrow> nat) \<Rightarrow> (string \<times> string list \<times> nat) list \<Rightarrow> search_walk \<Rightarrow> bool" where
  "queue_ok D depth bs w \<longleftrightarrow>
     sorted (map (\<lambda>q. snd (snd q)) (queue bs w)) \<and>
     (\<forall>q \<in> set (queue bs w). fst q \<in> set (wk_seen w) \<and> depth (fst q) = snd (snd q) \<and> snd (snd q) < D \<and>
        (\<forall>m \<in> set (wk_seen w). depth m \<le> Suc (snd (snd q))))"

definition found_ok :: "(string \<Rightarrow> reference list) \<Rightarrow> string \<Rightarrow> string \<Rightarrow> nat \<Rightarrow> search_walk \<Rightarrow> bool" where
  "found_ok kids top_node query D w \<longleftrightarrow>
     distinct (map rp_external_id (wk_found w)) \<and> found_ids w \<subseteq> set (wk_seen w) - {top_node} \<and>
     (\<forall>m \<in> set (wk_seen w) - {top_node}. \<exists>k n r. k < D \<and> at_steps kids top_node k n \<and> r \<in> followed kids n \<and> rf_node r = m \<and>
        (m \<in> found_ids w \<longleftrightarrow> is_hit query r))"

definition covered :: "(string \<Rightarrow> reference list) \<Rightarrow> nat \<Rightarrow> (string \<Rightarrow> nat) \<Rightarrow> string set \<Rightarrow> string set \<Rightarrow> (string \<times> string list \<times> nat) list
    \<Rightarrow> search_walk \<Rightarrow> bool" where
  "covered kids D depth E C bs w \<longleftrightarrow>
     (\<forall>m \<in> set (wk_seen w). depth m < D \<longrightarrow> m \<in> E \<union> C \<union> fst ` set (queue bs w)) \<and>
     (\<forall>n \<in> E. n \<in> set (wk_seen w) \<and> (\<forall>r \<in> followed kids n. rf_node r \<in> set (wk_seen w) \<and> depth (rf_node r) \<le> Suc (depth n)))"

text \<open>The walk while the node \<open>n\<close> at depth \<open>d\<close> is expanded.\<close>

definition expanding :: "(string \<Rightarrow> reference list) \<Rightarrow> string \<Rightarrow> string \<Rightarrow> nat \<Rightarrow> (string \<Rightarrow> nat) \<Rightarrow> string \<Rightarrow> nat
    \<Rightarrow> (string \<times> string list \<times> nat) list \<Rightarrow> search_walk \<Rightarrow> bool" where
  "expanding kids top_node query D depth n d bs w \<longleftrightarrow>
     seen_ok kids top_node D depth w \<and> queue_ok D depth bs w \<and> found_ok kids top_node query D w \<and>
     n \<in> set (wk_seen w) \<and> depth n = d \<and> d < D \<and> (\<forall>q \<in> set (queue bs w). d \<le> snd (snd q)) \<and> (\<forall>m \<in> set (wk_seen w). depth m \<le> Suc d)"

text \<open>Seeing a new node.\<close>

definition see :: "nat \<Rightarrow> string \<Rightarrow> string list \<Rightarrow> nat \<Rightarrow> reference \<Rightarrow> search_walk \<Rightarrow> search_walk" where
  "see D query path d r w =
     w\<lparr>wk_seen := wk_seen w @ [rf_node r],
       wk_found := wk_found w @ (if is_hit query r then [\<lparr>rp_external_id = rf_node r, rp_name = name_of r, rp_unit = None,
          rp_description = Some (join_with ''/'' (path @ [name_of r]))\<rparr>] else []),
       wk_frontier := wk_frontier w @ (if d + 1 < D then [(rf_node r, path @ [name_of r], d + 1)] else [])\<rparr>"

lemma expanding_see:
  assumes e: "expanding kids top_node query D depth n d bs w" and r: "r \<in> followed kids n" "rf_node r \<notin> set (wk_seen w)"
  shows "expanding kids top_node query D (depth(rf_node r := Suc d)) n d bs (see D query path d r w)"
proof -
  let ?m = "rf_node r" and ?w = "see D query path d r w" and ?depth = "depth(rf_node r := Suc d)"
  have seen: "set (wk_seen ?w) = insert ?m (set (wk_seen w))" by (auto simp: see_def)
  have same: "?depth m = depth m" if "m \<in> set (wk_seen w)" for m using that r(2) by auto
  note parts = e [unfolded expanding_def]
  have n: "n \<in> set (wk_seen w)" "depth n = d" "d < D" "at_steps kids top_node d n" using parts by (auto simp: seen_ok_def)
  have "at_steps kids top_node (Suc d) ?m" using n(4) r(1) by (rule at_steps.step)
  then have "seen_ok kids top_node D ?depth ?w"
    using parts r(2) n(3) same unfolding seen_ok_def seen by (auto simp: see_def)
  moreover have "queue_ok D ?depth bs ?w"
  proof -
    have q: "queue bs ?w = queue bs w @ (if d + 1 < D then [(?m, path @ [name_of r], d + 1)] else [])" by (simp add: see_def)
    have depths: "\<forall>q \<in> set (queue bs w). snd (snd q) \<le> Suc d" using parts unfolding queue_ok_def by metis
    then have "sorted (map (\<lambda>q. snd (snd q)) (queue bs ?w))"
      unfolding q using parts by (auto simp: queue_ok_def sorted_append)
    moreover have "\<forall>q \<in> set (queue bs ?w). fst q \<in> set (wk_seen ?w) \<and> ?depth (fst q) = snd (snd q) \<and> snd (snd q) < D \<and>
        (\<forall>m \<in> set (wk_seen ?w). ?depth m \<le> Suc (snd (snd q)))"
    proof
      fix q assume "q \<in> set (queue bs ?w)"
      then consider "q \<in> set (queue bs w)" | "q = (?m, path @ [name_of r], d + 1)" "d + 1 < D" unfolding q by (auto split: if_splits)
      then show "fst q \<in> set (wk_seen ?w) \<and> ?depth (fst q) = snd (snd q) \<and> snd (snd q) < D \<and>
        (\<forall>m \<in> set (wk_seen ?w). ?depth m \<le> Suc (snd (snd q)))"
      proof cases
        case 1
        then have "fst q \<in> set (wk_seen w)" "depth (fst q) = snd (snd q)" "snd (snd q) < D" "d \<le> snd (snd q)"
          "\<forall>m \<in> set (wk_seen w). depth m \<le> Suc (snd (snd q))" using parts unfolding queue_ok_def by blast+
        then show ?thesis unfolding seen using same r(2) by auto
      next
        case 2
        then show ?thesis unfolding seen using parts same by (auto intro: le_SucI)
      qed
    qed
    ultimately show ?thesis unfolding queue_ok_def by blast
  qed
  moreover have "found_ok kids top_node query D ?w"
  proof -
    have top_node: "top_node \<in> set (wk_seen w)" using parts by (simp add: seen_ok_def)
    have ids: "found_ids ?w = found_ids w \<union> (if is_hit query r then {?m} else {})" by (auto simp: see_def)
    have old: "found_ids w \<subseteq> set (wk_seen w) - {top_node}" using parts by (simp add: found_ok_def)
    then have "distinct (map rp_external_id (wk_found ?w))" using parts r(2) by (auto simp: found_ok_def see_def)
    moreover have "found_ids ?w \<subseteq> set (wk_seen ?w) - {top_node}" unfolding ids seen using old r(2) top_node by auto
    moreover have "\<exists>k n r. k < D \<and> at_steps kids top_node k n \<and> r \<in> followed kids n \<and> rf_node r = m \<and> (m \<in> found_ids ?w \<longleftrightarrow> is_hit query r)"
      if "m \<in> set (wk_seen ?w) - {top_node}" for m
    proof (cases "m = ?m")
      case True
      then have "m \<in> found_ids ?w \<longleftrightarrow> is_hit query r" unfolding ids using old r(2) by auto
      with n(3,4) r(1) True show ?thesis
        by (intro exI [of _ d] exI [of _ n] exI [of _ r]) simp
    next
      case False
      then have "m \<in> set (wk_seen w) - {top_node}" "m \<in> found_ids ?w \<longleftrightarrow> m \<in> found_ids w" using that unfolding ids seen by auto
      then show ?thesis using parts unfolding found_ok_def by metis
    qed
    ultimately show ?thesis unfolding found_ok_def by blast
  qed
  moreover have "n \<in> set (wk_seen ?w)" "?depth n = d" "d < D" using n same by (simp_all add: seen)
  moreover have "\<forall>q \<in> set (queue bs ?w). d \<le> snd (snd q)" using parts by (auto simp: see_def)
  moreover have "\<forall>m \<in> set (wk_seen ?w). ?depth m \<le> Suc d" using parts same by (simp add: seen)
  ultimately show ?thesis unfolding expanding_def by blast
qed

lemma visit_refs_see:
  "visit_refs cfg query limit path d (r # refs) w =
     (if rf_property r \<or> rf_remote r \<or> rf_node r \<in> set (wk_seen w) \<or> bc_limit cfg \<le> length (wk_seen w)
      then visit_refs cfg query limit path d refs w
      else if is_hit query r \<and> limit \<le> Suc (length (wk_found w))
        then w\<lparr>wk_seen := wk_seen w @ [rf_node r], wk_found := wk_found w @ [\<lparr>rp_external_id = rf_node r, rp_name = name_of r,
                 rp_unit = None, rp_description = Some (join_with ''/'' (path @ [name_of r]))\<rparr>]\<rparr>
      else visit_refs cfg query limit path d refs (see (bc_depth cfg) query path d r w))"
  by (simp add: see_def is_hit_def name_of_def [symmetric] Let_def)

text \<open>What holds of a walk whenever the search may end there.\<close>

definition sound_walk :: "(string \<Rightarrow> reference list) \<Rightarrow> string \<Rightarrow> string \<Rightarrow> browse_config \<Rightarrow> search_walk \<Rightarrow> bool" where
  "sound_walk kids top_node query cfg w \<longleftrightarrow>
     found_ok kids top_node query (bc_depth cfg) w \<and> length (wk_seen w) \<le> bc_limit cfg \<and>
     (\<exists>depth. seen_ok kids top_node (bc_depth cfg) depth w)"

text \<open>What a visit of references keeps: nodes and their depths, and that the queue grows with the nodes seen.\<close>

definition grows :: "(string \<Rightarrow> nat) \<Rightarrow> search_walk \<Rightarrow> (string \<Rightarrow> nat) \<Rightarrow> search_walk \<Rightarrow> bool" where
  "grows depth w depth' w' \<longleftrightarrow>
     (\<forall>m \<in> set (wk_seen w). m \<in> set (wk_seen w') \<and> depth' m = depth m) \<and> length (wk_seen w) \<le> length (wk_seen w') \<and>
     length (wk_frontier w') + length (wk_seen w) \<le> length (wk_frontier w) + length (wk_seen w')"

definition refs_seen :: "(string \<Rightarrow> reference list) \<Rightarrow> string \<Rightarrow> nat \<Rightarrow> reference list \<Rightarrow> (string \<Rightarrow> nat) \<Rightarrow> search_walk \<Rightarrow> bool" where
  "refs_seen kids n d refs depth w \<longleftrightarrow>
     (\<forall>r \<in> set refs \<inter> followed kids n. rf_node r \<in> set (wk_seen w) \<and> depth (rf_node r) \<le> Suc d)"

lemma grows_refl: "grows depth w depth w"
  by (simp add: grows_def)

lemma grows_trans: "grows depth w depth1 w1 \<Longrightarrow> grows depth1 w1 depth2 w2 \<Longrightarrow> grows depth w depth2 w2"
  by (auto simp: grows_def)

lemma grows_see: "rf_node r \<notin> set (wk_seen w) \<Longrightarrow> grows depth w (depth(rf_node r := Suc d)) (see D query path d r w)"
  by (auto simp: grows_def see_def)

lemma covered_see:
  assumes "covered kids D depth E {n} bs w" "rf_node r \<notin> set (wk_seen w)"
  shows "covered kids D (depth(rf_node r := Suc d)) E {n} bs (see D query path d r w)"
proof -
  have "\<forall>m \<in> set (wk_seen w). m \<noteq> rf_node r" using assms(2) by blast
  then show ?thesis using assms(1) unfolding covered_def see_def by auto
qed

lemma sound_expanding: "expanding kids top_node query (bc_depth cfg) depth n d bs w \<Longrightarrow> length (wk_seen w) \<le> bc_limit cfg \<Longrightarrow>
    sound_walk kids top_node query cfg w"
  by (auto simp: sound_walk_def expanding_def)

lemma sound_frontier: "sound_walk kids top_node query cfg (w\<lparr>wk_frontier := f\<rparr>) = sound_walk kids top_node query cfg w"
  by (simp add: sound_walk_def found_ok_def seen_ok_def)

lemma visit_refs_ok:
  assumes "expanding kids top_node query (bc_depth cfg) depth n d bs w" "set refs \<subseteq> set (kids n)" "length (wk_found w) < limit"
    "length (wk_seen w) \<le> bc_limit cfg" "w' = visit_refs cfg query limit path d refs w"
  shows "sound_walk kids top_node query cfg w' \<and> (\<exists>depth'. grows depth w depth' w' \<and>
    (length (wk_found w') < limit \<longrightarrow> expanding kids top_node query (bc_depth cfg) depth' n d bs w' \<and>
       (\<forall>E. covered kids (bc_depth cfg) depth E {n} bs w \<and> length (wk_seen w') < bc_limit cfg \<longrightarrow>
          covered kids (bc_depth cfg) depth' E {n} bs w' \<and> refs_seen kids n d refs depth' w')))"
  using assms
proof (induction refs arbitrary: w depth)
  case Nil
  then show ?case using sound_expanding grows_refl by (auto simp: refs_seen_def intro!: exI [of _ depth])
next
  case (Cons r refs)
  have sub: "set refs \<subseteq> set (kids n)" using Cons.prems(2) by simp
  show ?case
  proof (cases "rf_property r \<or> rf_remote r \<or> rf_node r \<in> set (wk_seen w) \<or> bc_limit cfg \<le> length (wk_seen w)")
    case True
    have "w' = visit_refs cfg query limit path d refs w"
      using True by (subst Cons.prems(5), subst visit_refs_see) (simp only: if_True)
    then obtain depth' where ih: "sound_walk kids top_node query cfg w'" "grows depth w depth' w'"
      "length (wk_found w') < limit \<longrightarrow> expanding kids top_node query (bc_depth cfg) depth' n d bs w' \<and>
       (\<forall>E. covered kids (bc_depth cfg) depth E {n} bs w \<and> length (wk_seen w') < bc_limit cfg \<longrightarrow>
          covered kids (bc_depth cfg) depth' E {n} bs w' \<and> refs_seen kids n d refs depth' w')"
      using Cons.IH [OF Cons.prems(1) sub Cons.prems(3,4)] by blast
    have "refs_seen kids n d (r # refs) depth' w'" if "refs_seen kids n d refs depth' w'" "length (wk_seen w') < bc_limit cfg"
    proof -
      have "r \<in> followed kids n \<Longrightarrow> rf_node r \<in> set (wk_seen w)" using True that(2) ih(2) by (auto simp: followed_def grows_def)
      moreover have "\<forall>m \<in> set (wk_seen w). depth m \<le> Suc d" using Cons.prems(1) by (simp add: expanding_def)
      ultimately show ?thesis using that(1) ih(2) by (auto simp: refs_seen_def grows_def)
    qed
    then show ?thesis using ih by blast
  next
    case False
    then have r: "r \<in> followed kids n" "rf_node r \<notin> set (wk_seen w)" "length (wk_seen w) < bc_limit cfg"
      using Cons.prems(2) by (auto simp: followed_def)
    define w1 where "w1 = see (bc_depth cfg) query path d r w"
    define depth1 where "depth1 = depth(rf_node r := Suc d)"
    have e1: "expanding kids top_node query (bc_depth cfg) depth1 n d bs w1"
      unfolding w1_def depth1_def by (rule expanding_see [OF Cons.prems(1) r(1,2)])
    have g1: "grows depth w depth1 w1" unfolding w1_def depth1_def by (rule grows_see [OF r(2)])
    have len1: "length (wk_seen w1) \<le> bc_limit cfg" using r(3) by (simp add: w1_def see_def)
    show ?thesis
    proof (cases "is_hit query r \<and> limit \<le> Suc (length (wk_found w))")
      case True
      then have w': "w' = w1\<lparr>wk_frontier := wk_frontier w\<rparr>"
        using False by (subst Cons.prems(5), subst visit_refs_see) (simp add: w1_def see_def)
      have "sound_walk kids top_node query cfg w'" unfolding w' sound_frontier by (rule sound_expanding [OF e1 len1])
      moreover have "grows depth w depth1 w'" using g1 unfolding w' by (simp add: grows_def)
      moreover have "\<not> length (wk_found w') < limit" using True by (simp add: w' w1_def see_def)
      ultimately show ?thesis by blast
    next
      case go_on: False
      then have w': "w' = visit_refs cfg query limit path d refs w1"
        using False by (subst Cons.prems(5), subst visit_refs_see) (simp only: w1_def if_False)
      have "length (wk_found w1) < limit" using go_on Cons.prems(3) by (auto simp: w1_def see_def)
      from Cons.IH [OF e1 sub this len1 w'] obtain depth' where ih: "sound_walk kids top_node query cfg w'" "grows depth1 w1 depth' w'"
        "length (wk_found w') < limit \<longrightarrow> expanding kids top_node query (bc_depth cfg) depth' n d bs w' \<and>
         (\<forall>E. covered kids (bc_depth cfg) depth1 E {n} bs w1 \<and> length (wk_seen w') < bc_limit cfg \<longrightarrow>
            covered kids (bc_depth cfg) depth' E {n} bs w' \<and> refs_seen kids n d refs depth' w')" by blast
      have "rf_node r \<in> set (wk_seen w1)" "depth1 (rf_node r) = Suc d" by (simp_all add: w1_def see_def depth1_def)
      then have "refs_seen kids n d refs depth' w' \<Longrightarrow> refs_seen kids n d (r # refs) depth' w'"
        using ih(2) by (auto simp: refs_seen_def grows_def)
      moreover have "covered kids (bc_depth cfg) depth E {n} bs w \<Longrightarrow> covered kids (bc_depth cfg) depth1 E {n} bs w1" for E
        unfolding w1_def depth1_def using r(2) by (intro covered_see)
      ultimately show ?thesis using ih grows_trans [OF g1 ih(2)] by blast
    qed
  qed
qed

section \<open>The whole search\<close>

definition walk_ok :: "(string \<Rightarrow> reference list) \<Rightarrow> string \<Rightarrow> string \<Rightarrow> browse_config \<Rightarrow> (string \<Rightarrow> nat)
    \<Rightarrow> (string \<times> string list \<times> nat) list \<Rightarrow> search_walk \<Rightarrow> bool" where
  "walk_ok kids top_node query cfg depth bs w \<longleftrightarrow>
     seen_ok kids top_node (bc_depth cfg) depth w \<and> queue_ok (bc_depth cfg) depth bs w \<and>
     found_ok kids top_node query (bc_depth cfg) w \<and> length (wk_seen w) \<le> bc_limit cfg"

lemma walk_ok_expanding:
  assumes "walk_ok kids top_node query cfg depth ((n, p, d) # bs) w"
  shows "expanding kids top_node query (bc_depth cfg) depth n d bs w"
  using assms unfolding walk_ok_def expanding_def queue_ok_def by (auto simp: Ball_def)

lemma expanding_walk_ok: "expanding kids top_node query (bc_depth cfg) depth n d bs w \<Longrightarrow> length (wk_seen w) \<le> bc_limit cfg \<Longrightarrow>
    walk_ok kids top_node query cfg depth bs w"
  by (simp add: expanding_def walk_ok_def)

lemma covered_start: "covered kids D depth E {} ((n, p, d) # bs) w \<Longrightarrow> covered kids D depth E {n} bs w"
  by (auto simp: covered_def)

lemma covered_done: "covered kids D depth E {n} bs w \<Longrightarrow> refs_seen kids n (depth n) (kids n) depth w \<Longrightarrow> n \<in> set (wk_seen w) \<Longrightarrow>
    covered kids D depth (insert n E) {} bs w"
  by (auto simp: covered_def refs_seen_def followed_def)

lemma visit_batch_ok:
  assumes "walk_ok kids top_node query cfg depth batch w" "length (wk_found w) < limit"
  shows "\<exists>w'. visit_batch cfg query limit batch (map kids (map fst batch)) w = Some w' \<and> sound_walk kids top_node query cfg w' \<and>
    length (wk_seen w) \<le> length (wk_seen w') \<and>
    length (wk_frontier w') + length (wk_seen w) \<le> length (wk_frontier w) + length (wk_seen w') \<and>
    (length (wk_found w') < limit \<longrightarrow> (\<exists>depth'. walk_ok kids top_node query cfg depth' [] w' \<and>
       (\<forall>E. covered kids (bc_depth cfg) depth E {} batch w \<and> length (wk_seen w') < bc_limit cfg \<longrightarrow>
          (\<exists>E'. covered kids (bc_depth cfg) depth' E' {} [] w'))))"
  using assms
proof (induction batch arbitrary: w depth)
  case Nil
  then show ?case by (auto simp: walk_ok_def sound_walk_def)
next
  case (Cons q batch)
  obtain n p d where q: "q = (n, p, d)" by (cases q) auto
  have e: "expanding kids top_node query (bc_depth cfg) depth n d batch w" using walk_ok_expanding Cons.prems(1) unfolding q by blast
  have len: "length (wk_seen w) \<le> bc_limit cfg" using Cons.prems(1) by (simp add: walk_ok_def)
  define w1 where "w1 = visit_refs cfg query limit p d (kids n) w"
  obtain depth1 where v: "sound_walk kids top_node query cfg w1" "grows depth w depth1 w1"
    "length (wk_found w1) < limit \<longrightarrow> expanding kids top_node query (bc_depth cfg) depth1 n d batch w1 \<and>
       (\<forall>E. covered kids (bc_depth cfg) depth E {n} batch w \<and> length (wk_seen w1) < bc_limit cfg \<longrightarrow>
          covered kids (bc_depth cfg) depth1 E {n} batch w1 \<and> refs_seen kids n d (kids n) depth1 w1)"
    using visit_refs_ok [OF e subset_refl Cons.prems(2) len w1_def] by blast
  show ?case
  proof (cases "limit \<le> length (wk_found w1)")
    case True
    then show ?thesis using v(1,2) by (auto simp: q Let_def w1_def [symmetric] grows_def)
  next
    case False
    then have e1: "expanding kids top_node query (bc_depth cfg) depth1 n d batch w1" using v(3) by simp
    have "walk_ok kids top_node query cfg depth1 batch w1" using expanding_walk_ok [OF e1] v(1) by (simp add: sound_walk_def)
    from Cons.IH [OF this] False obtain w' where ih:
      "visit_batch cfg query limit batch (map kids (map fst batch)) w1 = Some w'" "sound_walk kids top_node query cfg w'"
      "length (wk_seen w1) \<le> length (wk_seen w')"
      "length (wk_frontier w') + length (wk_seen w1) \<le> length (wk_frontier w1) + length (wk_seen w')"
      "length (wk_found w') < limit \<longrightarrow> (\<exists>depth'. walk_ok kids top_node query cfg depth' [] w' \<and>
       (\<forall>E. covered kids (bc_depth cfg) depth1 E {} batch w1 \<and> length (wk_seen w') < bc_limit cfg \<longrightarrow>
          (\<exists>E'. covered kids (bc_depth cfg) depth' E' {} [] w')))" by auto
    have step: "covered kids (bc_depth cfg) depth1 (insert n E) {} batch w1"
      if "covered kids (bc_depth cfg) depth E {} (q # batch) w" "length (wk_seen w') < bc_limit cfg" for E
    proof -
      have "covered kids (bc_depth cfg) depth E {n} batch w" using covered_start that(1) unfolding q by blast
      moreover have "length (wk_seen w1) < bc_limit cfg" using that(2) ih(3) by simp
      ultimately have "covered kids (bc_depth cfg) depth1 E {n} batch w1" "refs_seen kids n d (kids n) depth1 w1"
        using v(3) False by auto
      then show ?thesis using covered_done e1 unfolding expanding_def by blast
    qed
    have "visit_batch cfg query limit (q # batch) (map kids (map fst (q # batch))) w = Some w'"
      using ih(1) False by (simp add: q Let_def w1_def [symmetric])
    moreover have "length (wk_seen w) \<le> length (wk_seen w')"
      "length (wk_frontier w') + length (wk_seen w) \<le> length (wk_frontier w) + length (wk_seen w')"
      using v(2) ih(3,4) by (simp_all add: grows_def)
    ultimately show ?thesis using ih(2,5) step by blast
  qed
qed

lemma search_loop_ok:
  assumes "ua_graph srv kids rest" "walk_ok kids top_node query cfg depth [] w" "length (wk_found w) < limit"
  shows "\<exists>w' s'. search_loop srv cfg query limit w s = Some (Answered w', s') \<and> sound_walk kids top_node query cfg w' \<and>
    length (wk_seen w) \<le> length (wk_seen w') \<and>
    (\<forall>E. covered kids (bc_depth cfg) depth E {} [] w \<and> length (wk_seen w') < bc_limit cfg \<and> length (wk_found w') < limit \<longrightarrow>
       (\<exists>depth' E'. walk_ok kids top_node query cfg depth' [] w' \<and> covered kids (bc_depth cfg) depth' E' {} [] w' \<and> wk_frontier w' = []))"
  using assms(2,3)
proof (induction "bc_limit cfg - length (wk_seen w) + length (wk_frontier w)" arbitrary: w depth s rule: less_induct)
  case less
  have sound: "sound_walk kids top_node query cfg w" using less.prems(1) by (auto simp: walk_ok_def sound_walk_def)
  show ?case
  proof (cases "wk_frontier w \<noteq> [] \<and> length (wk_seen w) < bc_limit cfg")
    case False
    then have "search_loop srv cfg query limit w s = Some (Answered w, s)" by (subst search_loop.simps) auto
    then show ?thesis using sound False less.prems(1) by auto
  next
    case True
    let ?batch = "take BROWSE_BATCH (wk_frontier w)"
    define w0 where "w0 = w\<lparr>wk_frontier := drop BROWSE_BATCH (wk_frontier w)\<rparr>"
    have queue: "queue ?batch w0 = queue [] w" by (simp add: w0_def)
    have w0: "walk_ok kids top_node query cfg depth ?batch w0"
      using less.prems(1) unfolding walk_ok_def queue_ok_def queue by (simp add: w0_def seen_ok_def found_ok_def)
    have cov: "covered kids (bc_depth cfg) depth E {} ?batch w0 = covered kids (bc_depth cfg) depth E {} [] w" for E
      unfolding covered_def queue by (simp add: w0_def)
    obtain s1 where b: "browse srv Children (map fst ?batch) s = Some (Answered (map kids (map fst ?batch)), s1)"
      using browse_graph [OF assms(1)] by blast
    have "length (wk_found w0) < limit" using less.prems(2) by (simp add: w0_def)
    then obtain w1 where v: "visit_batch cfg query limit ?batch (map kids (map fst ?batch)) w0 = Some w1" "sound_walk kids top_node query cfg w1"
      "length (wk_seen w0) \<le> length (wk_seen w1)"
      "length (wk_frontier w1) + length (wk_seen w0) \<le> length (wk_frontier w0) + length (wk_seen w1)"
      "length (wk_found w1) < limit \<longrightarrow> (\<exists>depth'. walk_ok kids top_node query cfg depth' [] w1 \<and>
       (\<forall>E. covered kids (bc_depth cfg) depth E {} ?batch w0 \<and> length (wk_seen w1) < bc_limit cfg \<longrightarrow>
          (\<exists>E'. covered kids (bc_depth cfg) depth' E' {} [] w1)))"
      using visit_batch_ok [OF w0] by blast
    have loop: "search_loop srv cfg query limit w s = search_loop srv cfg query limit w1 s1"
      using True less.prems(2) b v(1) by (subst search_loop.simps) (simp add: w0_def)
    show ?thesis
    proof (cases "length (wk_found w1) < limit")
      case False
      then have "search_loop srv cfg query limit w1 s1 = Some (Answered w1, s1)" by (subst search_loop.simps) simp
      moreover have "length (wk_seen w) \<le> length (wk_seen w1)" using v(3) by (simp add: w0_def)
      ultimately show ?thesis using loop v(2) False by auto
    next
      case go_on: True
      then obtain depth1 where d1: "walk_ok kids top_node query cfg depth1 [] w1"
        "\<forall>E. covered kids (bc_depth cfg) depth E {} [] w \<and> length (wk_seen w1) < bc_limit cfg \<longrightarrow>
          (\<exists>E'. covered kids (bc_depth cfg) depth1 E' {} [] w1)" using v(5) unfolding cov by blast
      have "0 < BROWSE_BATCH" by (simp add: BROWSE_BATCH_def)
      then have "length (wk_frontier w0) < length (wk_frontier w)" using True by (simp add: w0_def)
      moreover have "length (wk_seen w0) = length (wk_seen w)" by (simp add: w0_def)
      moreover have "length (wk_seen w1) \<le> bc_limit cfg" using d1(1) by (simp add: walk_ok_def)
      ultimately have "bc_limit cfg - length (wk_seen w1) + length (wk_frontier w1) < bc_limit cfg - length (wk_seen w) + length (wk_frontier w)"
        using v(3,4) by linarith
      from less.hyps [OF this d1(1) go_on, of s1] obtain w' s' where ih:
        "search_loop srv cfg query limit w1 s1 = Some (Answered w', s')" "sound_walk kids top_node query cfg w'"
        "length (wk_seen w1) \<le> length (wk_seen w')" "\<forall>E. covered kids (bc_depth cfg) depth1 E {} [] w1 \<and> length (wk_seen w') < bc_limit cfg \<and> length (wk_found w') < limit \<longrightarrow>
       (\<exists>depth' E'. walk_ok kids top_node query cfg depth' [] w' \<and> covered kids (bc_depth cfg) depth' E' {} [] w' \<and> wk_frontier w' = [])"
        by blast
      have "length (wk_seen w) \<le> length (wk_seen w')" using ih(3) v(3) by (simp add: w0_def)
      moreover have "\<exists>E'. covered kids (bc_depth cfg) depth1 E' {} [] w1"
        if "covered kids (bc_depth cfg) depth E {} [] w" "length (wk_seen w') < bc_limit cfg" for E
        using d1(2) that ih(3) by (meson le_less_trans)
      ultimately show ?thesis using loop ih(1,2,4) by (intro exI [of _ w'] exI [of _ s']) (metis (no_types, lifting))
    qed
  qed
qed

text \<open>The variables a search is about: those a reference names within the depth of the root, and that match.\<close>

definition matching :: "(string \<Rightarrow> reference list) \<Rightarrow> string \<Rightarrow> nat \<Rightarrow> string \<Rightarrow> string set" where
  "matching kids top_node depth query =
     {rf_node r | k n r. k < depth \<and> at_steps kids top_node k n \<and> r \<in> followed kids n \<and> is_hit query r \<and> rf_node r \<noteq> top_node}"

definition same_names :: "(string \<Rightarrow> reference list) \<Rightarrow> bool" where
  "same_names kids \<longleftrightarrow> (\<forall>n n' r r'. r \<in> followed kids n \<and> r' \<in> followed kids n' \<and> rf_node r = rf_node r' \<longrightarrow>
     rf_class r = rf_class r' \<and> rf_display r = rf_display r' \<and> rf_browse r = rf_browse r')"

lemma same_hit: "same_names kids \<Longrightarrow> r \<in> followed kids n \<Longrightarrow> r' \<in> followed kids n' \<Longrightarrow> rf_node r = rf_node r' \<Longrightarrow> is_hit q r = is_hit q r'"
  unfolding same_names_def is_hit_def name_of_def by metis

lemma covered_reaches:
  assumes "seen_ok kids top_node D depth w" "covered kids D depth E {} [] w" "wk_frontier w = []"
    "at_steps kids top_node k n" "k \<le> D"
  shows "n \<in> set (wk_seen w) \<and> depth n \<le> k"
  using assms(4,5)
proof induction
  case start
  then show ?case using assms(1) by (simp add: seen_ok_def)
next
  case (step k n r)
  then have n: "n \<in> set (wk_seen w)" "depth n \<le> k" "depth n < D" by auto
  then have "n \<in> E" using assms(2,3) by (auto simp: covered_def)
  then have "rf_node r \<in> set (wk_seen w)" "depth (rf_node r) \<le> Suc (depth n)" using step.hyps(2) assms(2) by (auto simp: covered_def)
  then show ?case using n(2) by simp
qed

lemma found_matching:
  assumes "found_ok kids top_node query D w"
  shows "found_ids w \<subseteq> matching kids top_node D query"
proof
  fix m assume m: "m \<in> found_ids w"
  then have "m \<in> set (wk_seen w) - {top_node}" using assms by (auto simp: found_ok_def)
  then obtain k n r where "k < D" "at_steps kids top_node k n" "r \<in> followed kids n" "rf_node r = m" "is_hit query r"
    using assms m unfolding found_ok_def by blast
  then show "m \<in> matching kids top_node D query" using \<open>m \<in> set (wk_seen w) - {top_node}\<close> by (auto simp: matching_def)
qed

definition reach :: "(string \<Rightarrow> reference list) \<Rightarrow> string \<Rightarrow> nat \<Rightarrow> string set" where
  "reach kids top_node depth = {n. \<exists>k \<le> depth. at_steps kids top_node k n}"

lemma finite_reach: "finite (reach kids top_node depth)"
proof -
  have "finite {n. at_steps kids top_node k n}" for k
  proof (induction k)
    case 0
    have "{n. at_steps kids top_node 0 n} \<subseteq> {top_node}" by (auto elim: at_steps.cases)
    then show ?case by (rule finite_subset) simp
  next
    case (Suc k)
    have "{n. at_steps kids top_node (Suc k) n} \<subseteq> (\<Union>n \<in> {n. at_steps kids top_node k n}. rf_node ` followed kids n)"
    proof
      fix m assume "m \<in> {n. at_steps kids top_node (Suc k) n}"
      then have "at_steps kids top_node (Suc k) m" by simp
      then show "m \<in> (\<Union>n \<in> {n. at_steps kids top_node k n}. rf_node ` followed kids n)"
        by (cases rule: at_steps.cases) auto
    qed
    moreover have "finite (followed kids n)" for n by (simp add: followed_def)
    ultimately show ?case using Suc by (meson finite_UN_I finite_imageI finite_subset)
  qed
  then show ?thesis by (auto simp: reach_def intro: finite_subset [of _ "\<Union>k \<in> {..depth}. {n. at_steps kids top_node k n}"])
qed

lemma seen_reach: "seen_ok kids top_node D depth w \<Longrightarrow> length (wk_seen w) \<le> card (reach kids top_node D)"
  unfolding seen_ok_def by (metis (mono_tags, lifting) card_mono distinct_card finite_reach mem_Collect_eq reach_def subsetI)

lemma walk_finds_all:
  assumes names: "same_names kids" and ok: "walk_ok kids top_node query cfg depth [] w" "covered kids (bc_depth cfg) depth E {} [] w"
    "wk_frontier w = []"
  shows "matching kids top_node (bc_depth cfg) query \<subseteq> found_ids w"
proof
  fix m assume "m \<in> matching kids top_node (bc_depth cfg) query"
  then obtain k n r where r: "k < bc_depth cfg" "at_steps kids top_node k n" "r \<in> followed kids n" "is_hit query r" "rf_node r = m" "m \<noteq> top_node"
    by (auto simp: matching_def)
  have "at_steps kids top_node (Suc k) m" using at_steps.step [OF r(2,3)] by (simp add: r(5))
  then have "m \<in> set (wk_seen w) - {top_node}"
    using covered_reaches [OF _ ok(2,3)] ok(1) r(1,6) by (auto simp: walk_ok_def)
  then obtain n' r' where "r' \<in> followed kids n'" "rf_node r' = m" "m \<in> found_ids w \<longleftrightarrow> is_hit query r'"
    using ok(1) unfolding walk_ok_def found_ok_def by blast
  then show "m \<in> found_ids w" using same_hit [OF names r(3)] r(4,5) by metis
qed

text \<open>C31: The search of an OPC UA server always ends, whatever cycles its references form, with at most limit
  points, each once, each a matching variable that a reference names within the browse depth; and when neither the limit
  of results nor that of nodes is reached, it has found all of them.\<close>

theorem search_finds_matches:
  assumes "ua_graph srv kids rest" "un_parse X (bc_root cfg) = Some top_node" "same_names kids" "0 < bc_limit cfg" "0 < bc_depth cfg"
  shows "\<exists>found s'. ua_search srv X cfg query limit s = Some (Answered found, s') \<and> length found \<le> limit \<and>
    distinct (map rp_external_id found) \<and> rp_external_id ` set found \<subseteq> matching kids top_node (bc_depth cfg) query \<and>
    (length found < limit \<and> card (reach kids top_node (bc_depth cfg)) < bc_limit cfg \<longrightarrow>
       rp_external_id ` set found = matching kids top_node (bc_depth cfg) query)"
proof -
  let ?w = "\<lparr>wk_frontier = [(top_node, [], 0)], wk_seen = [top_node], wk_found = []\<rparr>"
  have ok: "walk_ok kids top_node query cfg (\<lambda>m. 0) [] ?w"
    using assms(4,5) by (auto simp: walk_ok_def seen_ok_def queue_ok_def found_ok_def intro: at_steps.start)
  have cov: "covered kids (bc_depth cfg) (\<lambda>m. 0) {} {} [] ?w" by (simp add: covered_def)
  show ?thesis
  proof (cases "limit = 0")
    case True
    have "search_loop srv cfg query limit ?w s = Some (Answered ?w, s)" by (subst search_loop.simps) (simp add: True)
    then show ?thesis using assms(2) True by (simp add: ua_search_def ua_bind_def ua_return_def)
  next
    case False
    then obtain w' s' where run: "search_loop srv cfg query limit ?w s = Some (Answered w', s')" "sound_walk kids top_node query cfg w'"
      and all: "length (wk_seen w') < bc_limit cfg \<Longrightarrow> length (wk_found w') < limit \<Longrightarrow>
       (\<exists>depth' E'. walk_ok kids top_node query cfg depth' [] w' \<and> covered kids (bc_depth cfg) depth' E' {} [] w' \<and> wk_frontier w' = [])"
      using search_loop_ok [OF assms(1) ok, of limit s] cov by auto
    have found: "ua_search srv X cfg query limit s = Some (Answered (take limit (wk_found w')), s')"
      using run(1) assms(2) by (simp add: ua_search_def ua_bind_def ua_return_def)
    have ids: "distinct (map rp_external_id (wk_found w'))" "found_ids w' \<subseteq> matching kids top_node (bc_depth cfg) query"
      using run(2) found_matching by (auto simp: sound_walk_def found_ok_def)
    have "matching kids top_node (bc_depth cfg) query \<subseteq> found_ids w'"
      if "length (wk_found w') < limit" "card (reach kids top_node (bc_depth cfg)) < bc_limit cfg"
    proof -
      have "length (wk_seen w') < bc_limit cfg" using run(2) that(2) seen_reach by (metis le_less_trans sound_walk_def)
      then show ?thesis using all that(1) walk_finds_all [OF assms(3)] by blast
    qed
    note complete = this
    have sub: "rp_external_id ` set (take limit (wk_found w')) \<subseteq> matching kids top_node (bc_depth cfg) query"
      by (rule order_trans [OF _ ids(2)]) (intro image_mono set_take_subset)
    show ?thesis
    proof (intro exI conjI impI)
      show "ua_search srv X cfg query limit s = Some (Answered (take limit (wk_found w')), s')" by (rule found)
      show "distinct (map rp_external_id (take limit (wk_found w')))" using ids(1) by (simp add: take_map [symmetric])
      assume few: "length (take limit (wk_found w')) < limit \<and> card (reach kids top_node (bc_depth cfg)) < bc_limit cfg"
      then have "take limit (wk_found w') = wk_found w'" by (auto simp: min_def split: if_splits)
      then show "rp_external_id ` set (take limit (wk_found w')) = matching kids top_node (bc_depth cfg) query"
        using sub complete few by auto
    qed (use sub in simp_all)
  qed
qed

text \<open>A plant with a cycle, and a server that answers a node's references at once.\<close>

definition sample_ref :: "string \<Rightarrow> node_class \<Rightarrow> string \<Rightarrow> reference" where
  "sample_ref node cls name = \<lparr>rf_property = False, rf_remote = False, rf_node = node, rf_class = cls, rf_display = Some name, rf_browse = name\<rparr>"

definition sample_kids :: "string \<Rightarrow> reference list" where
  "sample_kids n =
     (if n = ''i=85'' then [sample_ref ''s=Unit'' ClassObject ''Unit'', sample_ref ''s=F1'' ClassVariable ''Flow'']
      else if n = ''s=Unit'' then [sample_ref ''i=85'' ClassObject ''Objects'', sample_ref ''s=F2'' ClassVariable ''Flow 2'']
      else [])"

definition sample_ua :: "unit ua_server" where
  "sample_ua = \<lparr>us_read = (\<lambda>nodes s. (Crashed, s)),
     us_browse = (\<lambda>kind nodes s. (Answered (map (\<lambda>n. \<lparr>br_refs = sample_kids n, br_more = [], br_status = 0\<rparr>) nodes), s)),
     us_browse_next = (\<lambda>point s. (Answered [\<lparr>br_refs = [], br_more = [], br_status = 0\<rparr>], s)),
     us_history = (\<lambda>details nodes s. (Crashed, s)), us_release = (\<lambda>nodes s. s)\<rparr>"

definition sample_names :: ua_names where
  "sample_names = \<lparr>un_parse = Some, un_code = (\<lambda>c. ''Bad''), un_type = (\<lambda>n. None)\<rparr>"

lemma sample_graph: "ua_graph sample_ua sample_kids (\<lambda>point. [])"
  by (auto simp: ua_graph_def sample_ua_def list_all2_conv_all_nth severity_def)

lemma sample_same: "same_names sample_kids"
proof -
  let ?all = "{sample_ref ''s=Unit'' ClassObject ''Unit'', sample_ref ''s=F1'' ClassVariable ''Flow'',
    sample_ref ''i=85'' ClassObject ''Objects'', sample_ref ''s=F2'' ClassVariable ''Flow 2''}"
  have "followed sample_kids n \<subseteq> ?all" for n by (auto simp: followed_def sample_kids_def split: if_splits)
  then have one: "r = r'" if "r \<in> followed sample_kids n" "r' \<in> followed sample_kids n'" "rf_node r = rf_node r'" for n n' r r'
  proof -
    have "\<forall>r \<in> ?all. \<forall>r' \<in> ?all. rf_node r = rf_node r' \<longrightarrow> r = r'" by (simp add: sample_ref_def)
    moreover have "r \<in> ?all" "r' \<in> ?all" using \<open>\<And>n. followed sample_kids n \<subseteq> ?all\<close> that(1,2) by blast+
    ultimately show ?thesis using that(3) by blast
  qed
  then show ?thesis unfolding same_names_def by (metis one)
qed

definition sample_browse :: browse_config where
  "sample_browse = \<lparr>bc_root = ''i=85'', bc_limit = 100, bc_depth = 4\<rparr>"

lemma sample_browse_facts: "un_parse sample_names (bc_root sample_browse) = Some ''i=85''" "0 < bc_limit sample_browse" "0 < bc_depth sample_browse"
  by (simp_all add: sample_names_def sample_browse_def)

theorem search_finds_matches_witness:
  "\<exists>found s'. ua_search sample_ua sample_names sample_browse ''flow'' 10 () = Some (Answered found, s') \<and>
     length found \<le> 10 \<and> rp_external_id ` set found \<subseteq> matching sample_kids ''i=85'' (bc_depth sample_browse) ''flow''"
  using search_finds_matches [OF sample_graph sample_browse_facts(1) sample_same sample_browse_facts(2,3), of "''flow''" 10 "()"] by blast

end
