(* ===== verification/Opc_History.thy ===== *)
theory Opc_History
  imports Opc_Ua Streams
begin

text \<open>
  Reading raw history of an OPC UA server page by page: what a server that holds histories answers, and the proof that
  the rounds end and yield every value of the window once.
\<close>

section \<open>Instants\<close>

lemma stamp_ns_aware [simp]: "stamp_ns (Aware d) = d * 1000"
proof -
  obtain q r where qr: "d = 86400000000 * q + r" "0 \<le> r" "r < 86400000000"
    by (metis mult_div_mod_eq pos_mod_bound pos_mod_sign zero_less_numeral)
  obtain a b where ab: "r = 1000000 * a + b" "0 \<le> b" "b < 1000000"
    by (metis mult_div_mod_eq pos_mod_bound pos_mod_sign zero_less_numeral)
  have "d = 1000000 * (86400 * q + a) + b" using qr(1) ab(1) by simp
  moreover have "(1000000 * x + b) mod 1000000 = b" for x using ab(2,3) by simp
  ultimately have "d mod 1000000 = b" by metis
  moreover have "d div 86400000000 = q" "d mod 86400000000 = r" using qr by simp_all
  moreover have "r div 1000000 = a" using ab by simp
  ultimately show ?thesis unfolding stamp_ns_def Let_def using qr(1) ab(1) by simp
qed

lemma stamp_from_ns_bounds: "stamp_ns (stamp_from_ns t False) \<le> t" "t \<le> stamp_ns (stamp_from_ns t True)"
  by (simp_all add: stamp_from_ns_def)

section \<open>The server\<close>

definition in_span :: "stamp \<times> stamp \<times> nat \<Rightarrow> data_value \<Rightarrow> bool" where
  "in_span details dv =
     (case details of (from_stamp, to_stamp, k) \<Rightarrow>
        (case dv_stamp dv of None \<Rightarrow> False | Some st \<Rightarrow> stamp_ns from_stamp \<le> stamp_ns st \<and> stamp_ns st < stamp_ns to_stamp))"

text \<open>
  What is due to a node: without a continuation point the values of its history in the span asked for, with one what the
  point still holds.  An answer is a first part of it and a point for the rest, which gets shorter.
\<close>

definition due :: "(string \<Rightarrow> data_value list) \<Rightarrow> (string \<Rightarrow> string \<Rightarrow> data_value list) \<Rightarrow> stamp \<times> stamp \<times> nat
    \<Rightarrow> history_node \<Rightarrow> data_value list" where
  "due hist rest details hn =
     (case snd hn of None \<Rightarrow> filter (in_span details) (hist (fst hn)) | Some cp \<Rightarrow> rest (fst hn) cp)"

definition answers_due :: "(string \<Rightarrow> data_value list) \<Rightarrow> (string \<Rightarrow> string \<Rightarrow> data_value list) \<Rightarrow> stamp \<times> stamp \<times> nat
    \<Rightarrow> history_node \<Rightarrow> history_result \<Rightarrow> bool" where
  "answers_due hist rest details hn r \<longleftrightarrow>
     severity (hr_status r) \<noteq> ''bad'' \<and> hr_values r @ rest (fst hn) (hr_more r) = due hist rest details hn \<and>
     (hr_more r \<noteq> [] \<longrightarrow> length (rest (fst hn) (hr_more r)) < length (due hist rest details hn))"

definition ua_archive :: "'s ua_server \<Rightarrow> (string \<Rightarrow> data_value list) \<Rightarrow> (string \<Rightarrow> string \<Rightarrow> data_value list)
    \<Rightarrow> stamp \<times> stamp \<times> nat \<Rightarrow> bool" where
  "ua_archive srv hist rest details \<longleftrightarrow>
     (\<forall>node. rest node [] = []) \<and>
     (\<forall>nodes s. \<exists>results s'. us_history srv details nodes s = (Answered results, s') \<and>
        list_all2 (answers_due hist rest details) nodes results)"

section \<open>Rounds\<close>

lemma history_rows_append: "history_rows (xs @ ys) s e = history_rows xs s e @ history_rows ys s e"
  by (induction xs) (auto simp: Let_def split: option.split prod.split)

definition pending_series :: "pending \<Rightarrow> uuid" where
  "pending_series p = pt_series_id (fst p)"

lemma pending_series_simps [simp]: "pending_series (ref, node, cp) = pt_series_id ref"
  by (simp add: pending_series_def)

definition left_rows :: "(history_node \<Rightarrow> data_value list) \<Rightarrow> ns \<Rightarrow> ns \<Rightarrow> pending list \<Rightarrow> uuid \<Rightarrow> batch_row list" where
  "left_rows D s e ps i = concat (map (\<lambda>p. if pending_series p = i then history_rows (D (snd p)) s e else []) ps)"

lemma left_rows_simps [simp]: "left_rows D s e [] i = []" "left_rows D s e (xs @ ys) i = left_rows D s e xs i @ left_rows D s e ys i"
  "left_rows D s e (p # ps) i = (if pending_series p = i then history_rows (D (snd p)) s e else []) @ left_rows D s e ps i"
  by (simp_all add: left_rows_def)

lemma left_rows_none: "i \<notin> pending_series ` set ps \<Longrightarrow> left_rows D s e ps i = []"
  by (auto simp: left_rows_def)

definition weight :: "(history_node \<Rightarrow> data_value list) \<Rightarrow> pending list \<Rightarrow> nat" where
  "weight D ps = sum_list (map (\<lambda>p. Suc (length (D (snd p)))) ps)"

lemma weight_simps [simp]: "weight D [] = 0" "weight D (p # ps) = Suc (length (D (snd p))) + weight D ps"
  "weight D (xs @ ys) = weight D xs + weight D ys"
  by (simp_all add: weight_def)

lemma step_due:
  assumes "answers_due hist rest details (snd p) r" "\<forall>node. rest node [] = []" "D = due hist rest details"
    "history_step X s e p r = (items, again)"
  shows "rows_for items i @ left_rows D s e again i = (if pending_series p = i then history_rows (D (snd p)) s e else [])"
    "weight D again < weight D [p]" "\<forall>item \<in> set items. item_series item = pending_series p \<and> (\<exists>rows. item = ItemRows (pending_series p) (Batch rows))"
    "pending_series ` set again \<subseteq> {pending_series p}" "distinct (map pending_series again)"
proof -
  obtain ref node cp where p: "p = (ref, node, cp)" by (cases p) auto
  have split: "history_rows (D (snd p)) s e = history_rows (hr_values r) s e @ history_rows (rest node (hr_more r)) s e"
    using assms(1,3) unfolding answers_due_def by (metis fst_conv history_rows_append p snd_conv)
  show "rows_for items i @ left_rows D s e again i = (if pending_series p = i then history_rows (D (snd p)) s e else [])"
    using assms unfolding split by (auto simp: history_step_def p answers_due_def Let_def due_def)
  show "weight D again < weight D [p]"
    using assms by (auto simp: history_step_def p answers_due_def Let_def due_def)
  show "\<forall>item \<in> set items. item_series item = pending_series p \<and> (\<exists>rows. item = ItemRows (pending_series p) (Batch rows))"
    "pending_series ` set again \<subseteq> {pending_series p}" "distinct (map pending_series again)"
    using assms(1,4) by (auto simp: history_step_def p answers_due_def Let_def split: if_splits)
qed

lemma round_due:
  assumes "list_all2 (answers_due hist rest details) (history_nodes ps) results" "\<forall>node. rest node [] = []" "D = due hist rest details"
    "distinct (map pending_series ps)" "history_round X s e ps results = (items, following, bad)"
  shows "\<not> bad \<and> (\<forall>i. rows_for items i @ left_rows D s e following i = left_rows D s e ps i) \<and>
    (ps \<noteq> [] \<longrightarrow> weight D following < weight D ps) \<and> (\<forall>item \<in> set items. \<exists>i rows. item = ItemRows i (Batch rows)) \<and>
    item_series ` set items \<subseteq> pending_series ` set ps \<and> pending_series ` set following \<subseteq> pending_series ` set ps \<and> distinct (map pending_series following)"
  using assms(1,4,5)
proof (induction ps arbitrary: results items following bad)
  case Nil
  then show ?case by (simp add: history_nodes_def)
next
  case (Cons p ps)
  obtain r rs where r: "results = r # rs" "answers_due hist rest details (snd p) r"
    "list_all2 (answers_due hist rest details) (history_nodes ps) rs"
    using Cons.prems(1) by (auto simp: history_nodes_def list_all2_Cons1 split: prod.splits)
  obtain items1 again where s1: "history_step X s e p r = (items1, again)" by fastforce
  obtain items2 again2 bad2 where s2: "history_round X s e ps rs = (items2, again2, bad2)" by (metis prod_cases3)
  have eqs: "items = items1 @ items2" "following = again @ again2" "bad = bad2"
    using Cons.prems(3) by (simp_all add: r(1) s1 s2)
  note st = step_due [OF r(2) assms(2,3) s1]
  have d: "distinct (map pending_series ps)" "pending_series p \<notin> pending_series ` set ps" using Cons.prems(2) by auto
  have ih: "\<not> bad2" "\<And>i. rows_for items2 i @ left_rows D s e again2 i = left_rows D s e ps i" "ps \<noteq> [] \<longrightarrow> weight D again2 < weight D ps"
    "\<forall>item \<in> set items2. \<exists>i rows. item = ItemRows i (Batch rows)" "item_series ` set items2 \<subseteq> pending_series ` set ps"
    "pending_series ` set again2 \<subseteq> pending_series ` set ps" "distinct (map pending_series again2)"
    using Cons.IH [OF r(3) d(1) s2] by simp_all
  have own: "rows_for items1 i = []" if "pending_series p \<noteq> i" for i
    using st(1) [of i] that by simp
  have "rows_for items i @ left_rows D s e following i = left_rows D s e (p # ps) i" for i
  proof (cases "pending_series p = i")
    case True
    then have none: "left_rows D s e ps i = []" using d(2) left_rows_none by blast
    then have "rows_for items2 i = []" "left_rows D s e again2 i = []" using ih(2) by (metis append_is_Nil_conv)+
    then show ?thesis using st(1) [of i] True none by (simp add: eqs)
  next
    case False
    then have "left_rows D s e again i = []" using st(1) [of i] by simp
    then show ?thesis using own [OF False] ih(2) [of i] False by (simp add: eqs)
  qed
  moreover have "weight D following < weight D (p # ps)"
    using st(2) ih(3) s2 r(3) by (cases "ps = []") (auto simp: eqs history_nodes_def)
  moreover have "distinct (map pending_series following)"
  proof -
    have "pending_series ` set again \<inter> pending_series ` set again2 = {}" 
    proof (rule Int_emptyI)
      fix x assume "x \<in> pending_series ` set again" "x \<in> pending_series ` set again2"
      then have "x = pending_series p" "x \<in> pending_series ` set ps" using st(4) ih(6) by (metis singletonD subsetD)+
      then show False using d(2) by simp
    qed
    then show ?thesis using st(5) ih(7) by (simp add: eqs)
  qed
  moreover have "item_series ` set items \<subseteq> pending_series ` set (p # ps)" using st(3) ih(5) by (auto simp: eqs)
  moreover have "pending_series ` set following \<subseteq> pending_series ` set (p # ps)" using st(4) ih(6) by (auto simp: eqs)
  moreover have "\<forall>item \<in> set items. \<exists>i rows. item = ItemRows i (Batch rows)" using st(3) ih(4) by (auto simp: eqs)
  moreover have "\<not> bad" using ih(1) eqs(3) by simp
  ultimately show ?case by blast
qed

lemma rounds_due:
  assumes "ua_archive srv hist rest details" "D = due hist rest details" "distinct (map pending_series ps)"
  shows "\<exists>items st'. history_rounds srv X details s e ps st = Some ((items, StreamDone), st') \<and>
    (\<forall>i. rows_for items i = left_rows D s e ps i) \<and> (\<forall>item \<in> set items. \<exists>i rows. item = ItemRows i (Batch rows)) \<and>
    item_series ` set items \<subseteq> pending_series ` set ps"
  using assms(3)
proof (induction "weight D ps" arbitrary: ps st rule: less_induct)
  case less
  show ?case
  proof (cases "ps = []")
    case True
    then show ?thesis by (subst history_rounds.simps) simp
  next
    case False
    have nil: "\<forall>node. rest node [] = []" using assms(1) by (simp add: ua_archive_def)
    obtain results st1 where call: "us_history srv details (history_nodes ps) st = (Answered results, st1)"
      "list_all2 (answers_due hist rest details) (history_nodes ps) results" using assms(1) unfolding ua_archive_def by blast
    obtain items following bad where r: "history_round X s e ps results = (items, following, bad)" by (metis prod_cases3)
    have facts: "\<not> bad" "\<And>i. rows_for items i @ left_rows D s e following i = left_rows D s e ps i" "weight D following < weight D ps"
      "\<forall>item \<in> set items. \<exists>i rows. item = ItemRows i (Batch rows)" "item_series ` set items \<subseteq> pending_series ` set ps"
      "pending_series ` set following \<subseteq> pending_series ` set ps" "distinct (map pending_series following)"
      using round_due [OF call(2) nil assms(2) less.prems r] False by simp_all
    from less.hyps [OF facts(3,7), of st1] obtain items' st' where ih: "history_rounds srv X details s e following st1 = Some ((items', StreamDone), st')"
      "\<forall>i. rows_for items' i = left_rows D s e following i" "\<forall>item \<in> set items'. \<exists>i rows. item = ItemRows i (Batch rows)"
      "item_series ` set items' \<subseteq> pending_series ` set following"
      by blast
    have "history_rounds srv X details s e ps st = Some ((items @ items', StreamDone), st')"
      using False call(1) r facts(1) ih(1) by (subst history_rounds.simps) simp
    moreover have "rows_for (items @ items') i = left_rows D s e ps i" for i using facts(2) [of i] ih(2) by simp
    moreover have "\<forall>item \<in> set (items @ items'). \<exists>i rows. item = ItemRows i (Batch rows)" using facts(4) ih(3) by auto
    moreover have "item_series ` set (items @ items') \<subseteq> pending_series ` set ps"
      unfolding set_append image_Un using facts(5) subset_trans [OF ih(4) facts(6)] by (rule Un_least)
    ultimately show ?thesis by blast
  qed
qed

lemma history_rows_span:
  assumes "details = history_details s e k"
  shows "history_rows (filter (in_span details) dvs) s e = history_rows dvs s e"
proof (induction dvs)
  case (Cons dv dvs)
  show ?case
  proof (cases "in_span details dv")
    case False
    have "history_rows (dv # dvs) s e = history_rows dvs s e"
    proof (cases "dv_stamp dv")
      case (Some st)
      then have "stamp_ns st < s \<or> e \<le> stamp_ns st"
        using False stamp_from_ns_bounds(1) [of s] stamp_from_ns_bounds(2) [of e] by (auto simp: in_span_def assms history_details_def)
      then show ?thesis by (simp add: Some Let_def)
    qed simp
    then show ?thesis using False Cons by simp
  qed (use Cons in \<open>simp add: Let_def split: option.split prod.split\<close>)
qed simp

text \<open>C32: Reading history from an OPC UA server that pages it by continuation points ends, and delivers for every
  readable node exactly the values of its history within the window, once and in order, however the server cuts its
  pages; the points that cannot be read are reported as failures and get no rows.\<close>

theorem history_is_complete:
  assumes "ua_archive srv hist rest (history_details s e max_values)" "readable_points srv X points st = Some (Answered (readable, failures), st1)"
    "distinct (map (\<lambda>p. pt_series_id (fst p)) readable)" "\<forall>f \<in> set failures. \<exists>i m. f = ItemFailure i m"
  shows "\<exists>items st'. ua_fetch srv X max_values points s e st = Some ((failures @ items, StreamDone), st') \<and>
    (\<forall>(ref, node) \<in> set readable. stream_rows (failures @ items, StreamDone) (pt_series_id ref) = history_rows (hist node) s e) \<and>
    (\<forall>item \<in> set items. \<exists>ref rows. ref \<in> fst ` set readable \<and> item = ItemRows (pt_series_id ref) (Batch rows))"
proof -
  let ?details = "history_details s e max_values"
  let ?ps = "map (\<lambda>(ref, node). (ref, node, None)) readable"
  define D where "D = due hist rest ?details"
  have series: "map pending_series ?ps = map (\<lambda>p. pt_series_id (fst p)) readable" by (simp add: case_prod_beta comp_def)
  have "distinct (map pending_series ?ps)" unfolding series by (rule assms(3))
  from rounds_due [OF assms(1) D_def this] obtain items st' where run:
    "history_rounds srv X ?details s e ?ps st1 = Some ((items, StreamDone), st')"
    "\<forall>i. rows_for items i = left_rows D s e ?ps i" "\<forall>item \<in> set items. \<exists>i rows. item = ItemRows i (Batch rows)"
    "item_series ` set items \<subseteq> pending_series ` set ?ps" by blast
  have fetch: "ua_fetch srv X max_values points s e st = Some ((failures @ items, StreamDone), st')"
    using assms(2) run(1) by (simp add: ua_fetch_def)
  have "stream_rows (failures @ items, StreamDone) (pt_series_id ref) = history_rows (hist node) s e"
    if mem: "(ref, node) \<in> set readable" for ref node
  proof -
    obtain xs ys where l: "readable = xs @ (ref, node) # ys" using split_list [OF mem] by blast
    have "pt_series_id ref \<notin> pending_series ` set (map (\<lambda>(ref, node). (ref, node, None :: string option)) zs)" if "zs = xs \<or> zs = ys" for zs
      using assms(3) that unfolding l by (auto simp: image_iff case_prod_beta)
    then have "left_rows D s e ?ps (pt_series_id ref) = history_rows (D (node, None)) s e"
      by (simp add: l left_rows_none)
    then show ?thesis using run(2) rows_for_failures [OF assms(4)] history_rows_span
      by (simp add: stream_rows_def D_def due_def)
  qed
  moreover have "\<exists>ref rows. ref \<in> fst ` set readable \<and> item = ItemRows (pt_series_id ref) (Batch rows)" if "item \<in> set items" for item
    using run(3,4) that by (fastforce simp: image_iff)
  ultimately show ?thesis using fetch by blast
qed

text \<open>A server that gives at most two values a time, its continuation points the number of values read.\<close>

definition sample_values :: "data_value list" where
  "sample_values = map (\<lambda>(t, v). \<lparr>dv_value = Some (VInt v), dv_status = None, dv_source = Some (Aware t), dv_server = None\<rparr>)
     [(0, 7), (1000, 8), (2000, 9), (3000, 10), (4000, 11)]"

definition sample_rest :: "string \<Rightarrow> string \<Rightarrow> data_value list" where
  "sample_rest node cp = (if cp = [] then [] else drop (length cp) sample_values)"

definition sample_due :: "history_node \<Rightarrow> data_value list" where
  "sample_due hn = (case snd hn of None \<Rightarrow> sample_values | Some cp \<Rightarrow> sample_rest (fst hn) cp)"

definition sample_archive :: "unit ua_server" where
  "sample_archive = \<lparr>us_read = (\<lambda>nodes s. (Answered (map (\<lambda>(n, a). \<lparr>dv_value = Some (if a = ANodeClass then VClass ClassVariable else VInt 4),
       dv_status = None, dv_source = None, dv_server = None\<rparr>) nodes), s)),
     us_browse = (\<lambda>kind nodes s. (Crashed, s)), us_browse_next = (\<lambda>point s. (Crashed, s)),
     us_history = (\<lambda>details nodes s. (Answered (map (\<lambda>hn. \<lparr>hr_status = 0, hr_values = take 2 (sample_due hn),
       hr_more = (if length (sample_due hn) \<le> 2 then [] else replicate (7 - length (sample_due hn)) (CHR ''x''))\<rparr>) nodes), s)),
     us_release = (\<lambda>nodes s. s)\<rparr>"

definition sample_ids :: ua_names where
  "sample_ids = \<lparr>un_parse = Some, un_code = (\<lambda>c. ''Bad''), un_type = (\<lambda>n. None)\<rparr>"

lemma sample_archive_answers: "ua_archive sample_archive (\<lambda>n. sample_values) sample_rest (history_details 0 5000000 100)"
proof -
  have all: "filter (in_span (history_details 0 5000000 100)) sample_values = sample_values"
    by (simp add: sample_values_def in_span_def history_details_def stamp_from_ns_def dv_stamp_def)
  have len: "length sample_values = 5" by (simp add: sample_values_def)
  have "answers_due (\<lambda>n. sample_values) sample_rest (history_details 0 5000000 100) hn
      \<lparr>hr_status = 0, hr_values = take 2 (sample_due hn),
       hr_more = (if length (sample_due hn) \<le> 2 then [] else replicate (7 - length (sample_due hn)) (CHR ''x''))\<rparr>" for hn
  proof -
    have d: "due (\<lambda>n. sample_values) sample_rest (history_details 0 5000000 100) hn = sample_due hn"
      by (simp add: due_def sample_due_def all split: option.split)
    obtain k where k: "sample_due hn = drop k sample_values" "k \<le> 5"
    proof (cases "snd hn")
      case None
      then show ?thesis using that [of 0] by (simp add: sample_due_def)
    next
      case (Some cp)
      then have "sample_due hn = drop (if cp = [] then 5 else min 5 (length cp)) sample_values"
        using len by (simp add: sample_due_def sample_rest_def min_def)
      then show ?thesis using that by (metis min.cobounded1 order_refl)
    qed
    have "take 2 (drop k sample_values) @ drop (Suc (Suc k)) sample_values = drop k sample_values"
      using append_take_drop_id [of 2 "drop k sample_values"] by simp
    then show ?thesis unfolding answers_due_def d using k len
      by (auto simp: severity_def sample_rest_def drop_drop add.commute)
  qed
  then show ?thesis by (auto simp: ua_archive_def sample_archive_def sample_rest_def list_all2_conv_all_nth)
qed

theorem history_is_complete_witness:
  "\<exists>items st'. ua_fetch sample_archive sample_ids 100 [\<lparr>pt_series_id = 4, pt_external_id = ''s=F''\<rparr>] 0 5000000 () = Some ((items, StreamDone), st') \<and>
     stream_rows (items, StreamDone) 4 = history_rows sample_values 0 5000000"
proof -
  let ?ref = "\<lparr>pt_series_id = 4, pt_external_id = ''s=F''\<rparr>"
  have "history_bit 4" by (simp add: history_bit_def bit_iff_odd)
  then have "readable_points sample_archive sample_ids [?ref] () = Some (Answered ([(?ref, ''s=F'')], []), ())"
    by (simp add: readable_points_def sample_ids_def sample_archive_def ua_bind_def ua_call_def ua_return_def zip_strict_def
        readable_node_def status_of_value_def severity_def)
  from history_is_complete [OF sample_archive_answers this] show ?thesis by auto
qed

end
