(* ===== verification/Csv_Files.thy ===== *)
theory Csv_Files
  imports Plan Globs
begin

text \<open>
  \<^verbatim>\<open>connectors/csv_dir/config.py\<close>, \<^verbatim>\<open>files.py\<close> and \<^verbatim>\<open>connector.py\<close>: the config of a
  file-drop source, its folder inside the server's root, and the listing of the files a scan may read.  The file system
  is the record \<open>volume\<close>: what resolving a path, looking at it and walking a folder answer during a scan.
\<close>

section \<open>Config\<close>

datatype layout = Long | Wide

datatype epoch_unit = UnitAuto | UnitS | UnitMs | UnitUs | UnitNs

record csv_config = connector_config +
  cc_path :: string
  cc_recursive :: bool
  cc_pattern :: string
  cc_layout :: layout
  cc_ts_column :: string
  cc_ts_unit :: epoch_unit
  cc_series_column :: "string option"
  cc_value_column :: "string option"
  cc_quality_column :: "string option"
  cc_delimiter :: string
  cc_max_file_mb :: int
  cc_max_files_per_scan :: int
  cc_max_series_per_file :: int

type_synonym path = "string list"

text \<open>The parts of a path's text, and the text of a relative path.\<close>

function split_slash :: "string \<Rightarrow> string list" where
  "split_slash s =
     (case dropWhile (\<lambda>c. c \<noteq> CHR ''/'') s of
        [] \<Rightarrow> [takeWhile (\<lambda>c. c \<noteq> CHR ''/'') s]
      | c # rest \<Rightarrow> takeWhile (\<lambda>c. c \<noteq> CHR ''/'') s # split_slash rest)"
  by pat_completeness auto
termination
proof (relation "measure length")
  show "wf (measure length)" by simp
next
  fix s :: string and c rest
  assume "dropWhile (\<lambda>c. c \<noteq> CHR ''/'') s = c # rest"
  then show "(rest, s) \<in> measure length"
    by (metis Suc_le_eq in_measure length_Cons length_dropWhile_le)
qed

declare split_slash.simps [simp del]

definition path_parts :: "string \<Rightarrow> path" where
  "path_parts s = filter (\<lambda>p. p \<noteq> [] \<and> p \<noteq> ''.'') (split_slash s)"

definition path_text :: "path \<Rightarrow> string" where
  "path_text p = (if p = [] then ''.'' else join_with ''/'' p)"

definition is_control :: "char \<Rightarrow> bool" where
  "is_control c \<longleftrightarrow> of_char c < (32 :: nat) \<or> c = CHR 0x7F"

definition relative_path :: "string \<Rightarrow> string option" where
  "relative_path s =
     (if (\<exists>c \<in> set s. is_control c) \<or> CHR 0x5C \<in> set s then None
      else if s \<noteq> [] \<and> hd s = CHR ''/'' then None
      else if ''..'' \<in> set (path_parts s) then None
      else Some (path_text (path_parts s)))"

definition name_within :: "string \<Rightarrow> bool" where
  "name_within s \<longleftrightarrow> 1 \<le> length s \<and> length s \<le> 200"

definition some_or :: "bool \<Rightarrow> ('a \<Rightarrow> bool) \<Rightarrow> 'a option \<Rightarrow> bool" where
  "some_or b p x = (case x of None \<Rightarrow> b | Some y \<Rightarrow> p y)"

definition named_columns :: "csv_config \<Rightarrow> string list" where
  "named_columns c = [cc_ts_column c] @ (case cc_series_column c of Some s \<Rightarrow> [s] | None \<Rightarrow> []) @
     (case cc_value_column c of Some v \<Rightarrow> [v] | None \<Rightarrow> []) @ (case cc_quality_column c of Some q \<Rightarrow> [q] | None \<Rightarrow> [])"

definition validate_csv_config :: "csv_config \<Rightarrow> csv_config option" where
  "validate_csv_config c =
     (if config_valid (connector_config.truncate c) \<and>
         1 \<le> length (cc_path c) \<and> length (cc_path c) \<le> 500 \<and>
         name_within (cc_pattern c) \<and> name_within (cc_ts_column c) \<and>
         some_or True name_within (cc_series_column c) \<and> some_or True name_within (cc_value_column c) \<and>
         some_or True name_within (cc_quality_column c) \<and>
         length (cc_delimiter c) = 1 \<and> hd (cc_delimiter c) \<notin> {CHR 0x22, CHR 0x0A, CHR 0x0D} \<and>
         1 \<le> cc_max_file_mb c \<and> cc_max_file_mb c \<le> 4096 \<and>
         1 \<le> cc_max_files_per_scan c \<and> cc_max_files_per_scan c \<le> 1000 \<and>
         1 \<le> cc_max_series_per_file c \<and> cc_max_series_per_file c \<le> 10000 \<and>
         (cc_layout c = Long \<longrightarrow> cc_series_column c \<noteq> None \<and> cc_value_column c \<noteq> None \<and> distinct (named_columns c))
      then map_option (\<lambda>p. c\<lparr>cc_path := p\<rparr>) (relative_path (cc_path c)) else None)"

definition MB :: int where "MB = 1024 * 1024"

definition max_file_bytes :: "csv_config \<Rightarrow> int" where
  "max_file_bytes c = cc_max_file_mb c * MB"

section \<open>Names\<close>

definition EXTENSIONS :: "string list" where "EXTENSIONS = [''.csv'', ''.parquet'']"
definition TEMP_SUFFIXES :: "string list" where "TEMP_SUFFIXES = [''.tmp'', ''.part'', ''.partial'', ''.crdownload'']"
definition MAX_ENTRIES :: nat where "MAX_ENTRIES = 100000"

definition starts_with :: "string \<Rightarrow> string \<Rightarrow> bool" where
  "starts_with s p \<longleftrightarrow> take (length p) s = p"

definition ends_with :: "string \<Rightarrow> string \<Rightarrow> bool" where
  "ends_with s p \<longleftrightarrow> starts_with (rev s) (rev p)"

definition skipped_name :: "string \<Rightarrow> bool" where
  "skipped_name name \<longleftrightarrow>
     starts_with name ''.'' \<or> starts_with name ''~$'' \<or> ends_with name ''~'' \<or> (\<exists>x \<in> set TEMP_SUFFIXES. ends_with (lower name) x)"

definition wanted :: "string \<Rightarrow> string \<Rightarrow> bool" where
  "wanted name pattern \<longleftrightarrow> (\<exists>x \<in> set EXTENSIONS. ends_with (lower name) x) \<and> fnmatchcase name pattern"

section \<open>The file system\<close>

text \<open>
  What a folder holds: files (and links to files), links to folders, folders, and anything else.
\<close>

datatype dir_entry = File string | DirLink string | Folder string "dir_entry list" | Special string

record file_stat =
  st_size :: int
  st_mtime_ns :: ns
  st_is_file :: bool

record volume =
  vol_resolve :: "path \<Rightarrow> path"
  vol_exists :: "path \<Rightarrow> bool"
  vol_is_dir :: "path \<Rightarrow> bool"
  vol_readable :: "path \<Rightarrow> bool"
  vol_entries :: "path \<Rightarrow> dir_entry list option"
  vol_stat :: "path \<Rightarrow> file_stat option"

definition inside :: "path \<Rightarrow> path \<Rightarrow> bool" where
  "inside folder p \<longleftrightarrow> take (length folder) p = folder"

definition join_path :: "path \<Rightarrow> string \<Rightarrow> path" where
  "join_path base relative = (if relative \<noteq> [] \<and> hd relative = CHR ''/'' then path_parts relative else base @ path_parts relative)"

definition NOT_ENABLED :: string where
  "NOT_ENABLED = ''file sources are not enabled on this server (TABAYYUN_FILE_SOURCES_ROOT)''"

definition source_folder :: "volume \<Rightarrow> path option \<Rightarrow> string \<Rightarrow> string + path" where
  "source_folder V file_root relative =
     (case file_root of
        None \<Rightarrow> Inl NOT_ENABLED
      | Some r \<Rightarrow>
          let target = vol_resolve V (join_path r relative) in
          rbind (require (vol_is_dir V r) ''the file sources folder of this server does not exist'') (\<lambda>_.
          rbind (require (inside r target) (''folder '' @ relative @ '' is outside the file sources folder'')) (\<lambda>_.
          rbind (require (vol_exists V target) (''folder '' @ relative @ '' does not exist'')) (\<lambda>_.
          rbind (require (vol_is_dir V target) (relative @ '' is not a folder'')) (\<lambda>_.
          rbind (require (vol_readable V target) (''folder '' @ relative @ '' cannot be read'')) (\<lambda>_.
            Inr target))))))"

section \<open>Listing\<close>

fun file_names :: "dir_entry list \<Rightarrow> string list" where
  "file_names [] = []"
| "file_names (File n # es) = n # file_names es"
| "file_names (Special n # es) = n # file_names es"
| "file_names (e # es) = file_names es"

fun folders_of :: "dir_entry list \<Rightarrow> (string \<times> dir_entry list) list" where
  "folders_of [] = []"
| "folders_of (Folder n sub # es) = (n, sub) # folders_of es"
| "folders_of (e # es) = folders_of es"

lemma folders_of_size: "(n, sub) \<in> set (folders_of es) \<Longrightarrow> size_list size sub < size_list size es"
  by (induction es rule: folders_of.induct) auto

text \<open>\<^verbatim>\<open>os.walk\<close>, top down and following no links: the files of each folder, hidden folders left out.\<close>

function walk_dir :: "path \<Rightarrow> dir_entry list \<Rightarrow> (path \<times> string) list list" where
  "walk_dir dir es = map (Pair dir) (file_names es) #
     concat (map (\<lambda>(n, sub). walk_dir (dir @ [n]) sub) (sort_key fst (filter (\<lambda>(n, sub). \<not> starts_with n ''.'') (folders_of es))))"
  by pat_completeness auto
termination
  by (relation "measure (\<lambda>(dir, es). size_list size es)") (auto dest: folders_of_size)

declare walk_dir.simps [simp del]

text \<open>\<^verbatim>\<open>os.scandir\<close>: the files and links, one by one.\<close>

fun scan_dir :: "path \<Rightarrow> dir_entry list \<Rightarrow> (path \<times> string) list list" where
  "scan_dir dir [] = []"
| "scan_dir dir (File n # es) = [(dir, n)] # scan_dir dir es"
| "scan_dir dir (DirLink n # es) = [(dir, n)] # scan_dir dir es"
| "scan_dir dir (e # es) = [] # scan_dir dir es"

fun gather :: "'a list list \<Rightarrow> 'a list \<Rightarrow> 'a list" where
  "gather [] out = out"
| "gather (chunk # parts) out =
     (if MAX_ENTRIES < length (out @ chunk) then out @ chunk else gather parts (out @ chunk))"

definition dir_entries :: "path \<Rightarrow> dir_entry list \<Rightarrow> bool \<Rightarrow> (path \<times> string) list" where
  "dir_entries base es recursive = gather (if recursive then walk_dir base es else scan_dir base es) []"

record found_file =
  ff_path :: string
  ff_full :: path
  ff_size :: int
  ff_mtime_ns :: ns

record listing =
  li_files :: "found_file list"
  li_matched :: nat
  li_bytes :: int
  li_settling :: nat
  li_too_large :: "string list"
  li_outside_root :: "string list"
  li_truncated :: bool

definition empty_listing :: listing where
  "empty_listing = \<lparr>li_files = [], li_matched = 0, li_bytes = 0, li_settling = 0, li_too_large = [], li_outside_root = [], li_truncated = False\<rparr>"

text \<open>One entry of the loop.\<close>

definition list_entry :: "volume \<Rightarrow> path \<Rightarrow> path \<Rightarrow> csv_config \<Rightarrow> ns \<Rightarrow> path \<times> string \<Rightarrow> listing \<Rightarrow> listing" where
  "list_entry V file_root base cfg settled_before e l =
     (let (dir, name) = e; full = dir @ [name]; parts = drop (length base) full; relative = path_text parts; resolved = vol_resolve V full in
      if skipped_name name \<or> \<not> wanted name (cc_pattern cfg) then l
      else if \<exists>p \<in> set (butlast parts). starts_with p ''.'' then l
      else if \<not> inside file_root resolved then l\<lparr>li_outside_root := li_outside_root l @ [relative]\<rparr>
      else (case vol_stat V resolved of
          None \<Rightarrow> l
        | Some st \<Rightarrow>
            if \<not> st_is_file st then l
            else (let l1 = l\<lparr>li_matched := li_matched l + 1, li_bytes := li_bytes l + st_size st\<rparr> in
              if max_file_bytes cfg < st_size st then l1\<lparr>li_too_large := li_too_large l1 @ [relative]\<rparr>
              else if settled_before < st_mtime_ns st then l1\<lparr>li_settling := li_settling l1 + 1\<rparr>
              else l1\<lparr>li_files := li_files l1 @ [\<lparr>ff_path = relative, ff_full = resolved, ff_size = st_size st, ff_mtime_ns = st_mtime_ns st\<rparr>]\<rparr>)))"

definition list_folder :: "volume \<Rightarrow> path \<Rightarrow> path \<Rightarrow> dir_entry list \<Rightarrow> csv_config \<Rightarrow> ns \<Rightarrow> listing" where
  "list_folder V file_root base es cfg now_ns =
     (let entries = dir_entries base es (cc_recursive cfg);
          settled_before = now_ns - cfg_settle_s cfg * 1000000000;
          l = fold (list_entry V file_root base cfg settled_before) (take MAX_ENTRIES entries)
                (empty_listing\<lparr>li_truncated := MAX_ENTRIES < length entries\<rparr>)
      in l\<lparr>li_files := sort_key (\<lambda>f. (ff_mtime_ns f, ff_path f)) (li_files l)\<rparr>)"

section \<open>The connector\<close>

record csv_connector =
  cd_settings :: csv_config
  cd_files_root :: "path option"

definition connector_listing :: "volume \<Rightarrow> csv_connector \<Rightarrow> ns \<Rightarrow> string + listing" where
  "connector_listing V c now_ns =
     rbind (source_folder V (cd_files_root c) (cc_path (cd_settings c))) (\<lambda>base.
       (case (cd_files_root c, vol_entries V base) of
          (Some file_root, Some es) \<Rightarrow> Inr (list_folder V file_root base es (cd_settings c) now_ns)
        | _ \<Rightarrow> Inl (''folder '' @ cc_path (cd_settings c) @ '' cannot be read'')))"

definition csv_check :: "volume \<Rightarrow> csv_connector \<Rightarrow> ns \<Rightarrow> string + jobj" where
  "csv_check V c now_ns =
     rbind (connector_listing V c now_ns) (\<lambda>l. Inr [(''files'', JInt (int (li_matched l))), (''bytes'', JInt (li_bytes l))])"

end
