(* ===== verification/Csv_Reader.thy ===== *)
theory Csv_Reader
  imports Csv_Files Fetches
begin

text \<open>
  \<^verbatim>\<open>connectors/csv_dir/reader.py\<close> and the timestamp rules of \<^verbatim>\<open>core.py\<close>: one dropped file
  as rows per series.  What Arrow does, reading CSV and Parquet, casting columns, parsing times, trimming, and
  its median, is the record \<open>arrow\<close>; its stable sort, its counts of values and its slices are the list functions.
  Values are exact rationals, as in the batches of the connectors.
\<close>

section \<open>Tables\<close>

datatype column_data =
    Ints "int option list"
  | Times int "int option list"
  | Texts "string option list"
  | Floats "rat option list"
  | OtherData string nat

type_synonym table = "(string \<times> column_data) list"

text \<open>Arrow's answers: a value, an invalid or unsupported input, a file that cannot be opened, or any other exception.\<close>

datatype 'a arrow_result = ArrowOk 'a | ArrowInvalid string string | ArrowOs string string | ArrowOther

record arrow =
  ar_csv_header :: "path \<Rightarrow> string \<Rightarrow> string list arrow_result"
  ar_csv :: "path \<Rightarrow> csv_config \<Rightarrow> string list \<Rightarrow> table arrow_result"
  ar_parquet_names :: "path \<Rightarrow> string list arrow_result"
  ar_parquet :: "path \<Rightarrow> string list \<Rightarrow> table arrow_result"
  ar_floats :: "column_data \<Rightarrow> rat option list option"
  ar_texts :: "column_data \<Rightarrow> string option list option"
  ar_trim :: "string \<Rightarrow> string"
  ar_strptime :: "string \<Rightarrow> string \<Rightarrow> ns option"
  ar_median :: "int list \<Rightarrow> rat option"
  ar_type_name :: "column_data \<Rightarrow> string"
  ar_cast_error :: string
  ar_repr :: "string \<Rightarrow> string"
  ar_date :: "ns \<Rightarrow> string"

datatype read_error = FileReadError string | OpenError | ReadCrash

definition first_line :: "string \<Rightarrow> string \<Rightarrow> string" where
  "first_line msg cls = (if msg = [] then cls else take 300 (text_line msg))"

fun column_length :: "column_data \<Rightarrow> nat" where
  "column_length (Ints xs) = length xs"
| "column_length (Times s xs) = length xs"
| "column_length (Texts xs) = length xs"
| "column_length (Floats xs) = length xs"
| "column_length (OtherData t n) = n"

text \<open>A column by its name, which must be the name of one column only.\<close>

definition column_named :: "table \<Rightarrow> string \<Rightarrow> read_error + column_data" where
  "column_named t name = (case filter (\<lambda>(n, c). n = name) t of [(n, c)] \<Rightarrow> Inr c | _ \<Rightarrow> Inl ReadCrash)"

section \<open>Reading\<close>

definition needed_columns :: "csv_config \<Rightarrow> string list" where
  "needed_columns cfg = (if cc_layout cfg = Wide then [] else named_columns cfg)"

definition require_columns :: "arrow \<Rightarrow> string list \<Rightarrow> string list \<Rightarrow> read_error + unit" where
  "require_columns A present needed =
     (case filter (\<lambda>c. c \<notin> set present) needed of
        [] \<Rightarrow> Inr ()
      | c # cs \<Rightarrow> Inl (FileReadError (''column '' @ ar_repr A c @ '' is missing'')))"

definition csv_result :: "string \<Rightarrow> 'a arrow_result \<Rightarrow> read_error + 'a" where
  "csv_result why r = (case r of ArrowOk x \<Rightarrow> Inr x | ArrowInvalid msg cls \<Rightarrow> Inl (FileReadError (why @ first_line msg cls))
     | ArrowOs msg cls \<Rightarrow> Inl OpenError | ArrowOther \<Rightarrow> Inl ReadCrash)"

definition parquet_result :: "'a arrow_result \<Rightarrow> read_error + 'a" where
  "parquet_result r = (case r of ArrowOk x \<Rightarrow> Inr x
     | ArrowInvalid msg cls \<Rightarrow> Inl (FileReadError (''not a readable Parquet file: '' @ first_line msg cls))
     | ArrowOs msg cls \<Rightarrow> Inl (FileReadError (''not a readable Parquet file: '' @ first_line msg cls))
     | ArrowOther \<Rightarrow> Inl ReadCrash)"

definition read_csv_file :: "arrow \<Rightarrow> path \<Rightarrow> csv_config \<Rightarrow> read_error + table" where
  "read_csv_file A p cfg =
     rbind (csv_result ''not a readable CSV file: '' (ar_csv_header A p (cc_delimiter cfg))) (\<lambda>header.
       let needed = (if needed_columns cfg = [] then header else needed_columns cfg) in
       rbind (require_columns A header (cc_ts_column cfg # needed)) (\<lambda>_.
         csv_result ''cannot read the CSV: '' (ar_csv A p cfg needed)))"

definition read_parquet_file :: "arrow \<Rightarrow> path \<Rightarrow> csv_config \<Rightarrow> read_error + table" where
  "read_parquet_file A p cfg =
     rbind (parquet_result (ar_parquet_names A p)) (\<lambda>names.
       let needed = (if needed_columns cfg = [] then names else needed_columns cfg) in
       rbind (require_columns A names (cc_ts_column cfg # needed)) (\<lambda>_.
         parquet_result (ar_parquet A p needed)))"

section \<open>Timestamps\<close>

definition EPOCH_INT_MIN_NS :: ns where "EPOCH_INT_MIN_NS = 31536000 * 1000000000"
definition EPOCH_INT_MAX_NS :: ns where "EPOCH_INT_MAX_NS = 7258118400 * 1000000000"

definition NS_PER_UNIT :: "epoch_unit \<Rightarrow> int" where
  "NS_PER_UNIT u = (case u of UnitS \<Rightarrow> 1000000000 | UnitMs \<Rightarrow> 1000000 | UnitUs \<Rightarrow> 1000 | _ \<Rightarrow> 1)"

definition UNIT_NAMES :: "epoch_unit \<Rightarrow> string" where
  "UNIT_NAMES u = (case u of UnitS \<Rightarrow> ''seconds'' | UnitMs \<Rightarrow> ''milliseconds'' | UnitUs \<Rightarrow> ''microseconds'' | _ \<Rightarrow> ''nanoseconds'')"

definition infer_epoch_unit :: "int \<Rightarrow> epoch_unit" where
  "infer_epoch_unit magnitude =
     (if magnitude < 100000000000 then UnitS
      else if magnitude < 100000000000000 then UnitMs
      else if magnitude < 100000000000000000 then UnitUs
      else UnitNs)"

definition int64 :: "int \<Rightarrow> bool" where
  "int64 i \<longleftrightarrow> - (2 ^ 63) \<le> i \<and> i < 2 ^ 63"

text \<open>Arrow's absolute value wraps at the smallest integer.\<close>

definition abs64 :: "int \<Rightarrow> int" where
  "abs64 i = (if i = - (2 ^ 63) then i else \<bar>i\<bar>)"

fun some_values :: "'a option list \<Rightarrow> 'a list" where
  "some_values [] = []"
| "some_values (None # xs) = some_values xs"
| "some_values (Some x # xs) = x # some_values xs"

definition times_hint :: string where "times_hint = ''set ts_unit to s, ms, us or ns, or use RFC 3339 text''"

definition epoch_to_ns :: "arrow \<Rightarrow> int option list \<Rightarrow> string \<Rightarrow> epoch_unit \<Rightarrow> string + (ns option list \<times> epoch_unit)" where
  "epoch_to_ns A ints name unit =
     (let present = some_values ints in
      if \<not> (\<forall>i \<in> set present. int64 i) then Inl (ar_cast_error A)
      else if present = [] then Inr (ints, if unit = UnitAuto then UnitNs else unit)
      else
        (let resolved = (if unit = UnitAuto
               then infer_epoch_unit (case ar_median A (map abs64 present) of Some m \<Rightarrow> (if 0 \<le> m then floor m else ceiling m) | None \<Rightarrow> 0)
               else unit);
             scaled = map (\<lambda>i. i * NS_PER_UNIT resolved) present;
             what = ''column '' @ ar_repr A name @ '': epoch integers read as '' @ UNIT_NAMES resolved in
         if \<not> (\<forall>t \<in> set scaled. int64 t) then Inl (what @ '' overflow; '' @ times_hint)
         else if Min (set scaled) < EPOCH_INT_MIN_NS \<or> EPOCH_INT_MAX_NS \<le> Max (set scaled)
         then Inl (what @ '' give dates from '' @ ar_date A (Min (set scaled)) @ '' to '' @ ar_date A (Max (set scaled)) @
                '', outside 1971-2199; '' @ times_hint)
         else Inr (map (map_option (\<lambda>i. i * NS_PER_UNIT resolved)) ints, resolved)))"

definition LENIENT_TS_FORMATS :: "string list" where
  "LENIENT_TS_FORMATS = [''%Y-%m-%dT%H:%M:%S%z'', ''%Y-%m-%dT%H:%M:%S'', ''%Y-%m-%d %H:%M:%S'']"

fun first_some :: "('a \<Rightarrow> 'b option) \<Rightarrow> 'a list \<Rightarrow> 'b option" where
  "first_some f [] = None"
| "first_some f (x # xs) = (case f x of Some y \<Rightarrow> Some y | None \<Rightarrow> first_some f xs)"

definition parse_cell :: "arrow \<Rightarrow> string \<Rightarrow> ns option" where
  "parse_cell A cell = first_some (\<lambda>fmt. ar_strptime A fmt cell) LENIENT_TS_FORMATS"

definition lenient_text_ts :: "arrow \<Rightarrow> string option list \<Rightarrow> string \<Rightarrow> string + ns option list" where
  "lenient_text_ts A cells name =
     (case filter (\<lambda>c. parse_cell A c = None) (some_values cells) of
        [] \<Rightarrow> Inr (map (\<lambda>c. Option.bind c (parse_cell A)) cells)
      | c # cs \<Rightarrow> Inl (''column '' @ ar_repr A name @ '' is not a timestamp or integer column (cannot parse '' @ ar_repr A c @ '')''))"

text \<open>A refusal is a \<^verbatim>\<open>ValueError\<close>, which the errors of Arrow are too.\<close>

definition normalise_ts :: "arrow \<Rightarrow> column_data \<Rightarrow> string \<Rightarrow> epoch_unit \<Rightarrow> string + ns option list" where
  "normalise_ts A ts name unit =
     (case ts of
        Times scale xs \<Rightarrow>
          (if \<forall>x \<in> set (some_values xs). int64 (x * scale) then Inr (map (map_option (\<lambda>x. x * scale)) xs) else Inl (ar_cast_error A))
      | Ints xs \<Rightarrow> rbind (epoch_to_ns A xs name unit) (\<lambda>(ts, resolved). Inr ts)
      | Texts xs \<Rightarrow> lenient_text_ts A xs name
      | _ \<Rightarrow> Inl (''column '' @ ar_repr A name @ '' is not a timestamp or integer column ('' @ ar_type_name A ts @ '')''))"

definition read_timestamps :: "arrow \<Rightarrow> table \<Rightarrow> csv_config \<Rightarrow> read_error + ns list" where
  "read_timestamps A t cfg =
     rbind (column_named t (cc_ts_column cfg)) (\<lambda>col.
       (case normalise_ts A col (cc_ts_column cfg) (cc_ts_unit cfg) of
          Inl msg \<Rightarrow> Inl (FileReadError msg)
        | Inr ts \<Rightarrow>
            (let missing = length ts - length (some_values ts) in
             if missing \<noteq> 0
             then Inl (FileReadError (nat_str missing @ '' row(s) have no timestamp in column '' @ ar_repr A (cc_ts_column cfg)))
             else Inr (some_values ts))))"

section \<open>Layouts\<close>

definition MAX_SERIES_ID :: nat where "MAX_SERIES_ID = 256"

definition too_many :: "nat \<Rightarrow> csv_config \<Rightarrow> read_error" where
  "too_many n cfg = FileReadError (''the file names '' @ nat_str n @ '' series, more than max_series_per_file ('' @
     int_str (cc_max_series_per_file cfg) @ '')'')"

definition read_values :: "arrow \<Rightarrow> column_data \<Rightarrow> string \<Rightarrow> read_error + rat option list" where
  "read_values A col name =
     (case ar_floats A col of Some vs \<Rightarrow> Inr vs | None \<Rightarrow> Inl (FileReadError (''column '' @ ar_repr A name @ '' is not numeric'')))"

text \<open>The one character of the messages that is not ASCII, in UTF-8.\<close>

definition ELLIPSIS :: string where "ELLIPSIS = [CHR 0xE2, CHR 0x80, CHR 0xA6]"

definition checked_series_id :: "arrow \<Rightarrow> string \<Rightarrow> read_error + string" where
  "checked_series_id A v =
     (if MAX_SERIES_ID < length v
      then Inl (FileReadError (''a series id is longer than '' @ nat_str MAX_SERIES_ID @ '' characters: '' @ ar_repr A (take 40 v) @ ELLIPSIS))
      else Inr v)"

definition text_column :: "arrow \<Rightarrow> table \<Rightarrow> string \<Rightarrow> read_error + string option list" where
  "text_column A t name = rbind (column_named t name) (\<lambda>col. expect (ar_texts A col) ReadCrash)"

type_synonym sample = "string \<times> batch_row"

text \<open>The samples of a long table, in the order of its rows.\<close>

definition long_samples :: "arrow \<Rightarrow> table \<Rightarrow> ns list \<Rightarrow> csv_config \<Rightarrow> read_error + sample list" where
  "long_samples A t ts cfg =
     (case (cc_series_column cfg, cc_value_column cfg) of
        (Some series_column, Some value_column) \<Rightarrow>
          rbind (text_column A t series_column) (\<lambda>raw.
            let ids = map (map_option (ar_trim A)) raw;
                empty = length (filter (\<lambda>i. i = None \<or> i = Some []) ids) in
            rbind (require (empty = 0)
              (FileReadError (nat_str empty @ '' row(s) have no series id in column '' @ ar_repr A series_column))) (\<lambda>_.
            rbind (rbind (column_named t value_column) (\<lambda>col. read_values A col value_column)) (\<lambda>vs.
            rbind (case cc_quality_column cfg of
                Some q \<Rightarrow> text_column A t q
              | None \<Rightarrow> Inr (replicate (length ts) None)) (\<lambda>qs.
              Inr (zip (some_values ids) (zip ts (zip vs qs)))))))
      | _ \<Rightarrow> Inl ReadCrash)"

text \<open>The distinct values of a list by their first place, and Arrow's counts of them.\<close>

fun firsts :: "'a list \<Rightarrow> 'a list" where
  "firsts [] = []"
| "firsts (x # xs) = x # filter (\<lambda>y. y \<noteq> x) (firsts xs)"

definition value_counts :: "'a list \<Rightarrow> ('a \<times> nat) list" where
  "value_counts xs = map (\<lambda>x. (x, length (filter (\<lambda>y. y = x) xs))) (firsts xs)"

fun slices :: "arrow \<Rightarrow> (string \<times> nat) list \<Rightarrow> sample list \<Rightarrow> read_error + (string \<times> batch_row list) list" where
  "slices A [] ordered = Inr []"
| "slices A ((name, n) # counts) ordered =
     rbind (checked_series_id A name) (\<lambda>i.
     rbind (slices A counts (drop n ordered)) (\<lambda>out. Inr ((i, map snd (take n ordered)) # out)))"

definition read_long :: "arrow \<Rightarrow> table \<Rightarrow> ns list \<Rightarrow> csv_config \<Rightarrow> read_error + (string \<times> batch_row list) list" where
  "read_long A t ts cfg =
     rbind (long_samples A t ts cfg) (\<lambda>samples.
       let unique = firsts (map fst samples); ordered = sort_key (\<lambda>s. (fst s, fst (snd s))) samples in
       rbind (require (int (length unique) \<le> cc_max_series_per_file cfg) (too_many (length unique) cfg)) (\<lambda>_.
         slices A (value_counts (map fst ordered)) ordered))"

text \<open>The rows of one wide column: its cells that are not empty.\<close>

definition wide_rows :: "ns list \<Rightarrow> rat option list \<Rightarrow> batch_row list" where
  "wide_rows ts vs = sort_key fst (map (\<lambda>(t, v). (t, v, None)) (filter (\<lambda>(t, v). v \<noteq> None) (zip ts vs)))"

fun wide_columns :: "arrow \<Rightarrow> table \<Rightarrow> ns list \<Rightarrow> string list \<Rightarrow> (string \<times> batch_row list) list
    \<Rightarrow> read_error + (string \<times> batch_row list) list" where
  "wide_columns A t ts [] out = Inr out"
| "wide_columns A t ts (name # names) out =
     (let series_id = strip name in
      rbind (require (series_id \<noteq> []) (FileReadError ''a column has no header'')) (\<lambda>_.
      rbind (require (series_id \<notin> fst ` set out) (FileReadError (''column '' @ ar_repr A series_id @ '' appears twice''))) (\<lambda>_.
      rbind (rbind (column_named t name) (\<lambda>col. read_values A col name)) (\<lambda>vs.
      rbind (checked_series_id A series_id) (\<lambda>i.
        wide_columns A t ts names (out @ [(i, wide_rows ts vs)]))))))"

definition read_wide :: "arrow \<Rightarrow> table \<Rightarrow> ns list \<Rightarrow> csv_config \<Rightarrow> read_error + (string \<times> batch_row list) list" where
  "read_wide A t ts cfg =
     (let columns = filter (\<lambda>c. c \<noteq> cc_ts_column cfg) (map fst t) in
      rbind (require (columns \<noteq> []) (FileReadError ''a wide file needs at least one column besides the timestamp'')) (\<lambda>_.
      rbind (require (int (length columns) \<le> cc_max_series_per_file cfg) (too_many (length columns) cfg)) (\<lambda>_.
        wide_columns A t ts columns [])))"

section \<open>A file\<close>

record file_rows =
  fr_series :: "(string \<times> batch_row list) list"
  fr_rows :: nat
  fr_start_ns :: "ns option"
  fr_end_ns :: "ns option"

definition is_parquet :: "path \<Rightarrow> bool" where
  "is_parquet p \<longleftrightarrow> (let name = lower (last p) in p \<noteq> [] \<and> ends_with name ''.parquet'' \<and> length ''.parquet'' < length name)"

definition row_times :: "(string \<times> batch_row list) list \<Rightarrow> ns list" where
  "row_times series = map fst (concat (map snd series))"

definition read_file :: "arrow \<Rightarrow> path \<Rightarrow> csv_config \<Rightarrow> read_error + file_rows" where
  "read_file A p cfg =
     rbind (if is_parquet p then read_parquet_file A p cfg else read_csv_file A p cfg) (\<lambda>t.
     rbind (read_timestamps A t cfg) (\<lambda>ts.
     rbind (if cc_layout cfg = Long then read_long A t ts cfg else read_wide A t ts cfg) (\<lambda>series.
     rbind (require (int (length series) \<le> cc_max_series_per_file cfg) (too_many (length series) cfg)) (\<lambda>_.
       Inr \<lparr>fr_series = series, fr_rows = sum_list (map (\<lambda>(i, rows). length rows) series),
            fr_start_ns = (if row_times series = [] then None else Some (Min (set (row_times series)))),
            fr_end_ns = (if row_times series = [] then None else Some (Max (set (row_times series)) + 1))\<rparr>))))"

end
