(* ===== verification/Ingest.thy ===== *)
theory Ingest
  imports Csv_Reader Runs
begin

text \<open>
  \<^verbatim>\<open>services/ingest.py\<close>: a scan of a file-drop source.  It lists the folder, skips the files whose row is
  of the same size and time or of the same content, and reads the others in order: the series a file names, its
  rows to the cache, then coverage, the file's row and the counters.  A file that cannot be read is recorded as failed; a
  cache that cannot be written stops the scan.
\<close>

section \<open>State\<close>

definition READ_FAILED :: string where "READ_FAILED = ''could not read the file''"
definition OPEN_FAILED :: string where "OPEN_FAILED = ''could not open the file''"
definition NO_CACHE :: string where "NO_CACHE = ''no cache configured''"

text \<open>
  What a scan uses from outside: the engine's own environment, the file-drop connector that the plan's connector is
  (if it is one), the file system, the hash of a file's content, Arrow, the cache, fresh ids, and the clock, read once for
  the listing and at most twice for each file.
\<close>

record ingest_env =
  ie_env :: env
  ie_csv :: "connector \<Rightarrow> csv_connector option"
  ie_volume :: volume
  ie_sha256 :: "path \<Rightarrow> string option"
  ie_arrow :: arrow
  ie_cache :: "(uuid \<Rightarrow> uuid \<Rightarrow> batch_row list \<Rightarrow> string + cache_write) option"
  ie_series_id :: "nat \<Rightarrow> nat \<Rightarrow> uuid"
  ie_file_id :: "nat \<Rightarrow> uuid"
  ie_now_list :: datetime
  ie_now_file :: "nat \<Rightarrow> datetime"
  ie_now_row :: "nat \<Rightarrow> datetime"

record file_result =
  rr_path :: string
  rr_status :: file_status
  rr_rows :: int
  rr_series :: nat
  rr_new_series :: nat
  rr_error :: "string option"

text \<open>The database, the writes the cache accepted, and what the scan has done.\<close>

record scan =
  sn_db :: db
  sn_writes :: "(uuid \<times> batch_row list \<times> cache_write) list"
  sn_results :: "file_result list"
  sn_rows :: int

datatype halt = Halt stop | HaltRaise

definition us_of :: "ns \<Rightarrow> ns" where "us_of t = t div 1000 * 1000"

section \<open>Known files\<close>

definition known_file :: "db \<Rightarrow> uuid \<Rightarrow> string \<Rightarrow> source_file option" where
  "known_file d source p = List.find (\<lambda>f. fl_source_id f = source \<and> fl_path f = p) (source_files d)"

definition same_stat :: "source_file \<Rightarrow> found_file \<Rightarrow> bool" where
  "same_stat row f \<longleftrightarrow> fl_size row = ff_size f \<and> datetime_to_ns (fl_mtime row) = us_of (ff_mtime_ns f)"

definition touch_file :: "uuid \<Rightarrow> found_file \<Rightarrow> db \<Rightarrow> db" where
  "touch_file source f d = d\<lparr>source_files := update_where (\<lambda>r. fl_source_id r = source \<and> fl_path r = ff_path f)
     (\<lambda>r. r\<lparr>fl_size := ff_size f, fl_mtime := ns_to_datetime (ff_mtime_ns f)\<rparr>) (source_files d)\<rparr>"

record triage =
  tr_db :: db
  tr_unchanged :: nat
  tr_more :: bool
  tr_todo :: "(found_file \<times> string) list"

text \<open>One file of the listing; the rows known are those before the scan.\<close>

definition triage_file :: "ingest_env \<Rightarrow> uuid \<Rightarrow> int \<Rightarrow> db \<Rightarrow> found_file \<Rightarrow> triage \<Rightarrow> triage" where
  "triage_file I source cap d0 f t =
     (let row = known_file d0 source (ff_path f) in
      if (case row of None \<Rightarrow> False | Some r \<Rightarrow> same_stat r f) then t\<lparr>tr_unchanged := tr_unchanged t + 1\<rparr>
      else if cap \<le> int (length (tr_todo t)) then t\<lparr>tr_more := True\<rparr>
      else (case ie_sha256 I (ff_full f) of
          None \<Rightarrow> t
        | Some digest \<Rightarrow>
            if (case row of None \<Rightarrow> False | Some r \<Rightarrow> fl_sha256 r = digest)
            then t\<lparr>tr_db := touch_file source f (tr_db t), tr_unchanged := tr_unchanged t + 1\<rparr>
            else t\<lparr>tr_todo := tr_todo t @ [(f, digest)]\<rparr>))"

definition triage_files :: "ingest_env \<Rightarrow> uuid \<Rightarrow> int \<Rightarrow> db \<Rightarrow> found_file list \<Rightarrow> triage" where
  "triage_files I source cap d fs =
     fold (triage_file I source cap d) fs \<lparr>tr_db = d, tr_unchanged = 0, tr_more = False, tr_todo = []\<rparr>"

section \<open>One file\<close>

text \<open>The series a file names: the missing ones are created, each with its fresh id.\<close>

fun create_series :: "scope \<Rightarrow> uuid \<Rightarrow> datetime \<Rightarrow> (nat \<Rightarrow> uuid) \<Rightarrow> nat \<Rightarrow> string list \<Rightarrow> series list \<Rightarrow> series list \<times> nat" where
  "create_series sc source now new j [] t = (t, 0)"
| "create_series sc source now new j (ext # exts) t =
     (if \<exists>s \<in> set t. ser_source_id s = source \<and> ser_external_id s = ext
      then create_series sc source now new (Suc j) exts t
      else (let (t', n) = create_series sc source now new (Suc j) exts (t @ [blank_series sc (new j) source ext now]) in (t', n + 1)))"

definition series_named :: "series list \<Rightarrow> uuid \<Rightarrow> string \<Rightarrow> uuid option" where
  "series_named t source ext = map_option ser_id (List.find (\<lambda>s. ser_source_id s = source \<and> ser_external_id s = ext) t)"

text \<open>The rows of each series to the cache; empty ones are not written.\<close>

fun write_file :: "(uuid \<Rightarrow> uuid \<Rightarrow> batch_row list \<Rightarrow> string + cache_write) \<Rightarrow> uuid \<Rightarrow> series list \<Rightarrow> (string \<times> batch_row list) list
    \<Rightarrow> (uuid \<times> batch_row list \<times> cache_write) list \<Rightarrow> (uuid \<times> batch_row list \<times> cache_write) list \<times> halt option" where
  "write_file w source t [] out = (out, None)"
| "write_file w source t ((ext, rows) # more_rows) out =
     (if rows = [] then write_file w source t more_rows out
      else (case series_named t source ext of
          None \<Rightarrow> (out, Some HaltRaise)
        | Some i \<Rightarrow>
            (case w source i rows of
               Inl msg \<Rightarrow> (out, Some (Halt (StopError (''cache write failed: '' @ msg) True)))
             | Inr cw \<Rightarrow> write_file w source t more_rows (out @ [(i, rows, cw)]))))"

fun record_writes :: "uuid \<Rightarrow> datetime \<Rightarrow> (uuid \<times> batch_row list \<times> cache_write) list \<Rightarrow> db \<Rightarrow> db" where
  "record_writes org now [] d = d"
| "record_writes org now ((i, rows, cw) # ws) d =
     record_writes org now ws
       (if cw_rows cw = 0 then d else coverage_record d org i (cw_start_ns cw) (cw_end_ns cw) (cw_rows cw) now RAW_LAYER)"

text \<open>The file's row: inserted, or updated to what this read gave with one more version.\<close>

definition file_row :: "ingest_env \<Rightarrow> job_plan \<Rightarrow> uuid \<Rightarrow> nat \<Rightarrow> found_file \<Rightarrow> string \<Rightarrow> file_status \<Rightarrow> file_rows option \<Rightarrow> int \<Rightarrow> nat
    \<Rightarrow> string option \<Rightarrow> source_file" where
  "file_row I plan fetch_id k f digest status rows total_rows created err =
     \<lparr>fl_org_id = jp_org_id plan, fl_workspace_id = jp_workspace_id plan, fl_id = ie_file_id I k,
      fl_source_id = jp_source_id plan, fl_path = ff_path f, fl_size = ff_size f, fl_mtime = ns_to_datetime (ff_mtime_ns f),
      fl_sha256 = digest, fl_status = status, fl_rows = total_rows,
      fl_n_series = (case rows of None \<Rightarrow> 0 | Some r \<Rightarrow> int (length (fr_series r))), fl_n_new_series = int created,
      fl_start_at = Option.bind rows (\<lambda>r. map_option ns_to_datetime (fr_start_ns r)),
      fl_end_at = Option.bind rows (\<lambda>r. map_option ns_to_datetime_ceil (fr_end_ns r)),
      fl_error = err, fl_versions = 1, fl_fetch_id = Some fetch_id, fl_created_at = ie_now_row I k, fl_updated_at = ie_now_row I k\<rparr>"

definition file_key_of :: "source_file \<Rightarrow> uuid \<times> string" where
  "file_key_of f = (fl_source_id f, fl_path f)"

definition new_version :: "source_file \<Rightarrow> source_file \<Rightarrow> source_file" where
  "new_version old new = new\<lparr>fl_org_id := fl_org_id old, fl_workspace_id := fl_workspace_id old, fl_id := fl_id old,
     fl_created_at := fl_created_at old, fl_versions := fl_versions old + 1\<rparr>"

definition upsert_file :: "source_file \<Rightarrow> db \<Rightarrow> db" where
  "upsert_file row d = d\<lparr>source_files := upsert file_key_of new_version row (source_files d)\<rparr>"

definition count_file :: "uuid \<Rightarrow> int \<Rightarrow> db \<Rightarrow> db" where
  "count_file fetch_id rows d = set_fetch d fetch_id (\<lambda>f. f\<lparr>sf_calls := sf_calls f + 1, sf_rows := sf_rows f + rows\<rparr>)"

definition record_failure :: "ingest_env \<Rightarrow> job_plan \<Rightarrow> uuid \<Rightarrow> nat \<Rightarrow> found_file \<Rightarrow> string \<Rightarrow> string \<Rightarrow> scan \<Rightarrow> scan" where
  "record_failure I plan fetch_id k f digest err sn =
     sn\<lparr>sn_db := count_file fetch_id 0 (upsert_file (file_row I plan fetch_id k f digest FileFailed None 0 0 (Some (take 1000 err))) (sn_db sn)),
        sn_results := sn_results sn @ [\<lparr>rr_path = ff_path f, rr_status = FileFailed, rr_rows = 0, rr_series = 0, rr_new_series = 0,
          rr_error = Some (take 1000 err)\<rparr>]\<rparr>"

definition ingest_file :: "ingest_env \<Rightarrow> (uuid \<Rightarrow> uuid \<Rightarrow> batch_row list \<Rightarrow> string + cache_write) \<Rightarrow> csv_config \<Rightarrow> job_plan \<Rightarrow> uuid \<Rightarrow> nat
    \<Rightarrow> found_file \<Rightarrow> string \<Rightarrow> scan \<Rightarrow> scan \<times> halt option" where
  "ingest_file I w cfg plan fetch_id k f digest sn =
     (case read_file (ie_arrow I) (ff_full f) cfg of
        Inl (FileReadError msg) \<Rightarrow> (record_failure I plan fetch_id k f digest msg sn, None)
      | Inl OpenError \<Rightarrow> (record_failure I plan fetch_id k f digest OPEN_FAILED sn, None)
      | Inl ReadCrash \<Rightarrow> (record_failure I plan fetch_id k f digest READ_FAILED sn, None)
      | Inr rows \<Rightarrow>
          (let d = sn_db sn;
               (t, created) = create_series \<lparr>sc_org = jp_org_id plan, sc_workspace = jp_workspace_id plan\<rparr> (jp_source_id plan)
                  (ie_now_file I k) (ie_series_id I k) 0 (map fst (fr_series rows)) (all_series d);
               d1 = d\<lparr>all_series := t\<rparr>;
               (written, h) = write_file w (jp_source_id plan) t (fr_series rows) [];
               sn1 = sn\<lparr>sn_db := d1, sn_writes := sn_writes sn @ written\<rparr>
           in (case h of
                 Some stop \<Rightarrow> (sn1, Some stop)
               | None \<Rightarrow>
                   (let total_rows = sum_list (map (\<lambda>(i, rs, cw). cw_rows cw) written);
                        row = file_row I plan fetch_id k f digest FileIngested (Some rows) total_rows created None;
                        d2 = count_file fetch_id total_rows (upsert_file row (record_writes (jp_org_id plan) (ie_now_file I k) written d1))
                    in (sn1\<lparr>sn_db := d2, sn_rows := sn_rows sn + total_rows,
                           sn_results := sn_results sn @ [\<lparr>rr_path = ff_path f, rr_status = FileIngested, rr_rows = total_rows,
                             rr_series = length (fr_series rows), rr_new_series = created, rr_error = None\<rparr>]\<rparr>, None)))))"

fun read_todo :: "ingest_env \<Rightarrow> (uuid \<Rightarrow> uuid \<Rightarrow> batch_row list \<Rightarrow> string + cache_write) \<Rightarrow> csv_config \<Rightarrow> job_plan \<Rightarrow> uuid \<Rightarrow> nat
    \<Rightarrow> (found_file \<times> string) list \<Rightarrow> scan \<Rightarrow> scan \<times> halt option" where
  "read_todo I w cfg plan fetch_id k [] sn = (sn, None)"
| "read_todo I w cfg plan fetch_id k ((f, digest) # todo) sn =
     (case ingest_file I w cfg plan fetch_id k f digest sn of
        (sn', Some h) \<Rightarrow> (sn', Some h)
      | (sn', None) \<Rightarrow> read_todo I w cfg plan fetch_id (Suc k) todo sn')"

section \<open>The scan\<close>

definition result_json :: "file_result \<Rightarrow> json" where
  "result_json r = JObj [(''path'', JStr (rr_path r)),
     (''status'', JStr (case rr_status r of FileIngested \<Rightarrow> ''ingested'' | FileFailed \<Rightarrow> ''failed'')),
     (''rows'', JInt (rr_rows r)), (''series'', JInt (int (rr_series r))), (''new_series'', JInt (int (rr_new_series r))),
     (''error'', case rr_error r of None \<Rightarrow> JNull | Some e \<Rightarrow> JStr e)]"

definition scan_result :: "scan \<Rightarrow> listing option \<Rightarrow> nat \<Rightarrow> bool \<Rightarrow> jobj" where
  "scan_result sn l known more_files =
     [(''files'', JArr (map result_json (sn_results sn))), (''known'', JInt (int known)),
      (''settling'', JInt (case l of None \<Rightarrow> 0 | Some x \<Rightarrow> int (li_settling x))),
      (''too_large'', JArr (map JStr (case l of None \<Rightarrow> [] | Some x \<Rightarrow> take 100 (li_too_large x)))),
      (''outside_root'', JArr (map JStr (case l of None \<Rightarrow> [] | Some x \<Rightarrow> take 100 (li_outside_root x)))),
      (''more'', JBool more_files)]"

definition scan_outcome :: "scan \<Rightarrow> jobj \<Rightarrow> fetch_outcome" where
  "scan_outcome sn result =
     (case filter (\<lambda>r. rr_status r = FileFailed) (sn_results sn) of
        [] \<Rightarrow> (new_outcome FetchSucceeded None)\<lparr>fo_rows := sn_rows sn, fo_result := Some result\<rparr>
      | r # rs \<Rightarrow>
          (new_outcome FetchPartial (Some (take 1000 (nat_str (Suc (length rs)) @ '' file(s) failed: '' @ rr_path r @ '': '' @
             (case rr_error r of Some e \<Rightarrow> e | None \<Rightarrow> ''None'')))))\<lparr>fo_rows := sn_rows sn, fo_result := Some result\<rparr>)"

definition scan_folder :: "ingest_env \<Rightarrow> csv_connector \<Rightarrow> job_plan \<Rightarrow> uuid \<Rightarrow> db \<Rightarrow> scan \<times> (halt + fetch_outcome)" where
  "scan_folder I c plan fetch_id d =
     (let sn = \<lparr>sn_db = d, sn_writes = [], sn_results = [], sn_rows = 0\<rparr> in
      case connector_listing (ie_volume I) c (datetime_to_ns (ie_now_list I)) of
        Inl msg \<Rightarrow> (sn, Inl (Halt (StopError msg False)))
      | Inr l \<Rightarrow>
          (case ie_cache I of
             None \<Rightarrow> (sn, Inl (Halt (StopError NO_CACHE False)))
           | Some w \<Rightarrow>
               (let t = triage_files I (jp_source_id plan) (cc_max_files_per_scan (cd_settings c)) d (li_files l) in
                case read_todo I w (cd_settings c) plan fetch_id 0 (tr_todo t) (sn\<lparr>sn_db := tr_db t\<rparr>) of
                  (sn', Some h) \<Rightarrow> (sn', Inl h)
                | (sn', None) \<Rightarrow> (sn', Inr (scan_outcome sn' (scan_result sn' (Some l) (tr_unchanged t) (tr_more t \<or> li_truncated l)))))))"

datatype ingested = ScanSkipped | ScanRaised db | ScanEnded db fetch_outcome scan

definition close_scan :: "scan \<times> (halt + fetch_outcome) \<Rightarrow> fetch_outcome option" where
  "close_scan r =
     (case snd r of
        Inr out \<Rightarrow> Some out
      | Inl HaltRaise \<Rightarrow> None
      | Inl (Halt (StopError msg retryable)) \<Rightarrow>
          Some ((new_outcome FetchFailed (Some msg))\<lparr>fo_rows := sn_rows (fst r), fo_result := Some (scan_result (fst r) None 0 False)\<rparr>))"

definition execute_ingest :: "ingest_env \<Rightarrow> db \<Rightarrow> uuid \<Rightarrow> ingested" where
  "execute_ingest I d fetch_id =
     (let E = ie_env I; idle = \<lparr>sn_db = d, sn_writes = [], sn_results = [], sn_rows = 0\<rparr> in
      case prepare E d fetch_id False of
        NotToRun \<Rightarrow> ScanSkipped
      | Broken \<Rightarrow> ScanRaised d
      | Stopped msg \<Rightarrow> (let out = new_outcome FetchFailed (Some msg) in ScanEnded (finish E d fetch_id out) out idle)
      | Prepared d1 plan \<Rightarrow>
          (case ie_csv I (jp_connector plan) of
             None \<Rightarrow>
               (let out = new_outcome FetchFailed (Some ''this source does not ingest files'')
                in ScanEnded (finish E d1 fetch_id out) out (idle\<lparr>sn_db := d1\<rparr>))
           | Some c \<Rightarrow>
               (let r = scan_folder I c plan fetch_id d1 in
                case close_scan r of
                  None \<Rightarrow> ScanRaised (sn_db (fst r))
                | Some out \<Rightarrow> ScanEnded (finish E (sn_db (fst r)) fetch_id out) out (fst r))))"

end
