(* ===== verification/Csv_Facts.thy ===== *)
theory Csv_Facts
  imports Csv_Files
begin

text \<open>
  What a listing holds: every file of the source's folder that is ready, and nothing outside the server's root.
\<close>

section \<open>Walking\<close>

text \<open>A file in a folder or in one below it that is not hidden, by the names on the way.\<close>

inductive holds_file :: "dir_entry list \<Rightarrow> path \<Rightarrow> string \<Rightarrow> bool" where
  here: "n \<in> set (file_names es) \<Longrightarrow> holds_file es [] n"
| below: "(f, sub) \<in> set (folders_of es) \<Longrightarrow> \<not> starts_with f ''.'' \<Longrightarrow> holds_file sub p n \<Longrightarrow> holds_file es (f # p) n"

lemma walk_holds: "(d, n) \<in> set (concat (walk_dir dir es)) \<Longrightarrow> \<exists>p. d = dir @ p \<and> holds_file es p n"
proof (induction dir es arbitrary: d n rule: walk_dir.induct)
  case (1 dir es)
  from "1.prems" consider "d = dir" "n \<in> set (file_names es)"
    | f sub where "(f, sub) \<in> set (folders_of es)" "\<not> starts_with f ''.''" "(d, n) \<in> set (concat (walk_dir (dir @ [f]) sub))"
    by (subst (asm) walk_dir.simps) auto
  then show ?case
  proof cases
    case 1
    then show ?thesis using holds_file.here by auto
  next
    case 2
    then obtain p where "d = (dir @ [f]) @ p" "holds_file sub p n" using "1.IH" [of "(f, sub)" f sub d n] by auto
    then show ?thesis using holds_file.below [OF 2(1,2)] by auto
  qed
qed

lemma holds_walk: "holds_file es p n \<Longrightarrow> (dir @ p, n) \<in> set (concat (walk_dir dir es))"
proof (induction arbitrary: dir rule: holds_file.induct)
  case (here n es)
  then show ?case by (subst walk_dir.simps) simp
next
  case (below f sub es p n)
  then have "((dir @ [f]) @ p, n) \<in> set (concat (walk_dir (dir @ [f]) sub))" by blast
  then show ?case using below.hyps by (subst walk_dir.simps) force
qed

lemma scan_holds: "(d, n) \<in> set (concat (scan_dir dir es)) \<longleftrightarrow> d = dir \<and> (File n \<in> set es \<or> DirLink n \<in> set es)"
  by (induction dir es rule: scan_dir.induct) auto

lemma gather_all: "length (gather parts out) \<le> MAX_ENTRIES \<Longrightarrow> gather parts out = out @ concat parts"
  by (induction parts out rule: gather.induct) (auto split: if_splits)

text \<open>A name of the folder: of a file below it when the source is recursive, else of a file or a link in it.\<close>

definition in_folder :: "bool \<Rightarrow> dir_entry list \<Rightarrow> path \<Rightarrow> string \<Rightarrow> bool" where
  "in_folder recursive es p n \<longleftrightarrow>
     (if recursive then holds_file es p n else p = [] \<and> (File n \<in> set es \<or> DirLink n \<in> set es))"

lemma in_dir_entries:
  assumes "length (dir_entries base es recursive) \<le> MAX_ENTRIES"
  shows "(d, n) \<in> set (dir_entries base es recursive) \<longleftrightarrow> (\<exists>p. d = base @ p \<and> in_folder recursive es p n)"
proof (cases recursive)
  case True
  then have "dir_entries base es recursive = concat (walk_dir base es)"
    using gather_all [of "walk_dir base es" "[]"] assms by (simp add: dir_entries_def)
  then show ?thesis using True walk_holds [of d n base es] holds_walk by (auto simp: in_folder_def)
next
  case False
  then have "dir_entries base es recursive = concat (scan_dir base es)"
    using gather_all [of "scan_dir base es" "[]"] assms by (simp add: dir_entries_def)
  then show ?thesis using False by (simp only: scan_holds in_folder_def) auto
qed

section \<open>The loop\<close>

text \<open>An entry that is listed, and as what.\<close>

definition ready :: "volume \<Rightarrow> path \<Rightarrow> path \<Rightarrow> csv_config \<Rightarrow> ns \<Rightarrow> path \<Rightarrow> string \<Rightarrow> found_file \<Rightarrow> bool" where
  "ready V file_root base cfg now p n f \<longleftrightarrow>
     \<not> skipped_name n \<and> wanted n (cc_pattern cfg) \<and> (\<forall>part \<in> set p. \<not> starts_with part ''.'') \<and>
     ff_path f = path_text (p @ [n]) \<and> ff_full f = vol_resolve V (base @ p @ [n]) \<and> inside file_root (ff_full f) \<and>
     vol_stat V (ff_full f) = Some \<lparr>st_size = ff_size f, st_mtime_ns = ff_mtime_ns f, st_is_file = True\<rparr> \<and>
     ff_size f \<le> max_file_bytes cfg \<and> ff_mtime_ns f + cfg_settle_s cfg * 1000000000 \<le> now"

lemma list_entry_files:
  "\<exists>new. li_files (list_entry V r base cfg settled (base @ p, n) l) = li_files l @ new \<and>
    (\<forall>f. f \<in> set new \<longleftrightarrow> ready V r base cfg (settled + cfg_settle_s cfg * 1000000000) p n f)"
proof -
  let ?f = "\<lambda>st. \<lparr>ff_path = path_text (p @ [n]), ff_full = vol_resolve V (base @ p @ [n]), ff_size = st_size st, ff_mtime_ns = st_mtime_ns st\<rparr>"
  have known: "vol_stat V (vol_resolve V (base @ p @ [n])) = Some st \<Longrightarrow> ready V r base cfg (settled + cfg_settle_s cfg * 1000000000) p n f \<longleftrightarrow>
     \<not> skipped_name n \<and> wanted n (cc_pattern cfg) \<and> (\<forall>part \<in> set p. \<not> starts_with part ''.'') \<and> inside r (vol_resolve V (base @ p @ [n])) \<and>
     st_is_file st \<and> st_size st \<le> max_file_bytes cfg \<and> st_mtime_ns st \<le> settled \<and> f = ?f st" for st f
    by (cases f; cases st) (auto simp: ready_def)
  have unknown: "vol_stat V (vol_resolve V (base @ p @ [n])) = None \<Longrightarrow> \<not> ready V r base cfg t p n f" for t f
    by (auto simp: ready_def)
  show ?thesis
  proof (cases "vol_stat V (vol_resolve V (base @ p @ [n]))")
    case None
    then show ?thesis using unknown by (auto simp: list_entry_def Let_def)
  next
    case (Some st)
    show ?thesis
      unfolding known [OF Some]
      by (auto simp: list_entry_def Let_def Some butlast_append not_le not_less)
  qed
qed

lemma fold_list_entry:
  assumes "\<forall>e \<in> set es. \<exists>p n. e = (base @ p, n)"
  shows "f \<in> set (li_files (fold (list_entry V r base cfg settled) es l)) \<longleftrightarrow> f \<in> set (li_files l) \<or>
    (\<exists>p n. (base @ p, n) \<in> set es \<and> ready V r base cfg (settled + cfg_settle_s cfg * 1000000000) p n f)"
  using assms
proof (induction es arbitrary: l)
  case (Cons e es)
  obtain p n where e: "e = (base @ p, n)" using Cons.prems by auto
  obtain new where "li_files (list_entry V r base cfg settled e l) = li_files l @ new"
    "\<forall>f. f \<in> set new \<longleftrightarrow> ready V r base cfg (settled + cfg_settle_s cfg * 1000000000) p n f"
    unfolding e using list_entry_files by metis
  then show ?case using Cons.IH [of "list_entry V r base cfg settled e l"] Cons.prems by (auto simp: e)
qed simp

lemma list_entry_truncated: "li_truncated (list_entry V r base cfg settled e l) = li_truncated l"
  by (auto simp: list_entry_def Let_def split: prod.split option.split)

lemma fold_truncated: "li_truncated (fold (list_entry V r base cfg settled) es l) = li_truncated l"
  by (induction es arbitrary: l) (simp_all add: list_entry_truncated)

lemma source_folder_inside: "source_folder V (Some r) rel = Inr base \<Longrightarrow> inside r base \<and> vol_is_dir V base"
  by (auto simp: source_folder_def Let_def result_simps)

text \<open>The folder a config names: the parts of its path, below the root.\<close>

definition plain_part :: "string \<Rightarrow> bool" where
  "plain_part p \<longleftrightarrow> p \<noteq> [] \<and> p \<noteq> ''.'' \<and> p \<noteq> ''..'' \<and> CHR ''/'' \<notin> set p"

lemma split_slash_free: "p \<in> set (split_slash s) \<Longrightarrow> CHR ''/'' \<notin> set p"
proof (induction s rule: split_slash.induct)
  case (1 s)
  show ?case
  proof (cases "dropWhile (\<lambda>c. c \<noteq> CHR ''/'') s")
    case Nil
    with 1 show ?thesis by (subst (asm) (2) split_slash.simps) (auto dest: set_takeWhileD)
  next
    case (Cons c rest)
    with 1 show ?thesis by (subst (asm) (2) split_slash.simps) (auto dest: set_takeWhileD)
  qed
qed

lemma split_slash_one: "CHR ''/'' \<notin> set p \<Longrightarrow> split_slash p = [p]"
proof -
  assume "CHR ''/'' \<notin> set p"
  then have "dropWhile (\<lambda>c. c \<noteq> CHR ''/'') p = []" "takeWhile (\<lambda>c. c \<noteq> CHR ''/'') p = p"
    by (auto simp: dropWhile_eq_Nil_conv takeWhile_eq_all_conv)
  then show ?thesis by (subst split_slash.simps) (simp only: list.case)
qed

lemma split_slash_part: "CHR ''/'' \<notin> set p \<Longrightarrow> split_slash (p @ CHR ''/'' # rest) = p # split_slash rest"
  by (subst split_slash.simps) (simp add: dropWhile_append takeWhile_append)

lemma split_join: "ps \<noteq> [] \<Longrightarrow> \<forall>p \<in> set ps. CHR ''/'' \<notin> set p \<Longrightarrow> split_slash (join_with ''/'' ps) = ps"
  by (induction "''/''" ps rule: join_with.induct) (simp_all add: split_slash_one split_slash_part)

lemma parts_of_text: "\<forall>p \<in> set ps. plain_part p \<Longrightarrow> path_parts (path_text ps) = ps"
  by (cases "ps = []") (auto simp: path_text_def path_parts_def split_slash_one split_join plain_part_def intro: filter_True)

lemma text_relative: "\<forall>p \<in> set ps. plain_part p \<Longrightarrow> path_text ps \<noteq> [] \<and> hd (path_text ps) \<noteq> CHR ''/''"
proof (cases ps)
  case (Cons p qs)
  assume "\<forall>p \<in> set ps. plain_part p"
  with Cons have p: "p \<noteq> []" "CHR ''/'' \<notin> set p" by (auto simp: plain_part_def)
  then have "hd p \<noteq> CHR ''/''" using hd_in_set by fastforce
  moreover have "\<exists>rest. join_with ''/'' ps = p @ rest" by (cases qs) (simp_all add: Cons)
  ultimately show ?thesis using p(1) by (auto simp: path_text_def Cons hd_append)
qed (simp add: path_text_def)

lemma validated_path:
  assumes "validate_csv_config raw = Some cfg"
  obtains ps where "cc_path cfg = path_text ps" "\<forall>p \<in> set ps. plain_part p" "ps = path_parts (cc_path raw)"
proof -
  from assms have p: "relative_path (cc_path raw) = Some (cc_path cfg)"
    by (auto simp: validate_csv_config_def split: if_splits)
  then have "cc_path cfg = path_text (path_parts (cc_path raw))" "''..'' \<notin> set (path_parts (cc_path raw))"
    by (auto simp: relative_path_def split: if_splits)
  moreover have "\<forall>p \<in> set (path_parts (cc_path raw)). plain_part p"
    using calculation(2) by (auto simp: path_parts_def plain_part_def dest: split_slash_free)
  ultimately show thesis using that by blast
qed

lemma source_folder_named:
  assumes "source_folder V (Some r) (path_text ps) = Inr base" "\<forall>p \<in> set ps. plain_part p"
  shows "base = vol_resolve V (r @ ps)"
  using assms text_relative [OF assms(2)]
  by (auto simp: source_folder_def Let_def result_simps join_path_def parts_of_text)

text \<open>C37: The listing of a file-drop source is exact and stays inside the server's folder: unless there are too many
  entries, it holds exactly the files of the folder its validated config names, the parts of the config's path below the
  server's root, that are in or below it as configured, are not hidden, temporary or being written, match the pattern and
  the size limit and have settled; each resolves to a place inside the root, whatever links lead there; and they come
  oldest first.\<close>

theorem listing_is_exact:
  assumes "connector_listing V c now = Inr l" "\<not> li_truncated l" "validate_csv_config raw = Some (cd_settings c)"
  shows "\<exists>r ps base es. cd_files_root c = Some r \<and>
    cc_path (cd_settings c) = (if ps = [] then ''.'' else join_with ''/'' ps) \<and>
    (\<forall>p \<in> set ps. p \<noteq> [] \<and> p \<noteq> ''.'' \<and> p \<noteq> ''..'' \<and> CHR ''/'' \<notin> set p) \<and>
    base = vol_resolve V (r @ ps) \<and> inside r base \<and> vol_entries V base = Some es \<and>
    sorted (map (\<lambda>f. (ff_mtime_ns f, ff_path f)) (li_files l)) \<and>
    (\<forall>f. f \<in> set (li_files l) \<longleftrightarrow>
       (\<exists>p n. in_folder (cc_recursive (cd_settings c)) es p n \<and> ready V r base (cd_settings c) now p n f))"
proof -
  obtain r base es where found: "cd_files_root c = Some r" "source_folder V (Some r) (cc_path (cd_settings c)) = Inr base"
    "vol_entries V base = Some es" and l: "l = list_folder V r base es (cd_settings c) now"
    using assms(1) by (auto simp: connector_listing_def result_simps source_folder_def split: option.splits)
  obtain ps where ps: "cc_path (cd_settings c) = path_text ps" "\<forall>p \<in> set ps. plain_part p"
    using validated_path [OF assms(3)] by blast
  let ?cfg = "cd_settings c"
  define entries where "entries = dir_entries base es (cc_recursive ?cfg)"
  have few: "length entries \<le> MAX_ENTRIES"
    using assms(2) by (simp add: l list_folder_def Let_def fold_truncated not_less flip: entries_def)
  note known = in_dir_entries [OF few [unfolded entries_def], folded entries_def]
  have "\<forall>e \<in> set entries. \<exists>p n. e = (base @ p, n)"
  proof
    fix e assume e: "e \<in> set entries"
    obtain d n where "e = (d, n)" by fastforce
    then show "\<exists>p n. e = (base @ p, n)" using e known [of d n] by auto
  qed
  note each = fold_list_entry [OF this]
  have files: "set (li_files l) = set (li_files (fold (list_entry V r base ?cfg (now - cfg_settle_s ?cfg * 1000000000)) entries
      (empty_listing\<lparr>li_truncated := MAX_ENTRIES < length entries\<rparr>)))"
    using few by (simp add: l list_folder_def Let_def flip: entries_def)
  have each: "\<forall>f. f \<in> set (li_files l) \<longleftrightarrow> (\<exists>p n. in_folder (cc_recursive ?cfg) es p n \<and> ready V r base ?cfg now p n f)"
    unfolding files each known by (auto simp: empty_listing_def)
  have sorted: "sorted (map (\<lambda>f. (ff_mtime_ns f, ff_path f)) (li_files l))" by (simp add: l list_folder_def Let_def)
  have named: "base = vol_resolve V (r @ ps)" using source_folder_named [OF _ ps(2)] found(2) ps(1) by simp
  have "inside r base" using source_folder_inside [OF found(2)] ..
  with found(1,3) named each sorted ps show ?thesis
    by (intro exI [of _ r] exI [of _ ps] exI [of _ base] exI [of _ es]) (simp add: path_text_def plain_part_def)
qed

text \<open>A folder with a file that is ready and a hidden one.\<close>

definition sample_volume :: volume where
  "sample_volume = \<lparr>vol_resolve = (\<lambda>p. p), vol_exists = (\<lambda>p. True), vol_is_dir = (\<lambda>p. True), vol_readable = (\<lambda>p. True),
     vol_entries = (\<lambda>p. Some [File ''a.csv'', File ''.b.csv'']),
     vol_stat = (\<lambda>p. Some \<lparr>st_size = 10, st_mtime_ns = 5000, st_is_file = True\<rparr>)\<rparr>"

definition sample_csv_config :: csv_config where
  "sample_csv_config = \<lparr>cfg_poll_interval_s = None, cfg_backfill_s = 86400, cfg_settle_s = 60, cfg_requests_per_second = 5, cfg_max_points = 100,
     cfg_max_span_s = 86400, cc_path = ''in'', cc_recursive = False, cc_pattern = ''*'', cc_layout = Long, cc_ts_column = ''ts'',
     cc_ts_unit = UnitS, cc_series_column = Some ''series'', cc_value_column = Some ''value'', cc_quality_column = None,
     cc_delimiter = '','', cc_max_file_mb = 256, cc_max_files_per_scan = 100, cc_max_series_per_file = 1000\<rparr>"

definition sample_csv_connector :: csv_connector where
  "sample_csv_connector = \<lparr>cd_settings = sample_csv_config, cd_files_root = Some [''data'']\<rparr>"

definition sample_found :: found_file where
  "sample_found = \<lparr>ff_path = ''a.csv'', ff_full = [''data'', ''in'', ''a.csv''], ff_size = 10, ff_mtime_ns = 5000\<rparr>"

definition sample_listing :: listing where
  "sample_listing = empty_listing\<lparr>li_files := [sample_found], li_matched := 1, li_bytes := 10\<rparr>"

lemma sample_folder: "source_folder sample_volume (Some [''data'']) ''in'' = Inr [''data'', ''in'']"
  by (simp add: source_folder_def sample_volume_def join_path_def path_parts_def split_slash.simps inside_def)

lemma sample_names: "wanted ''a.csv'' ''*''" "\<not> skipped_name ''a.csv''" "skipped_name ''.b.csv''"
  by (simp_all add: wanted_def fnmatchcase_def EXTENSIONS_def ends_with_def starts_with_def lower_def lower_char_def less_eq_char_def globs.simps
      skipped_name_def TEMP_SUFFIXES_def)

lemma sample_listed: "connector_listing sample_volume sample_csv_connector 1000000000000 = Inr sample_listing"
proof -
  have "vol_entries sample_volume p = Some [File ''a.csv'', File ''.b.csv'']" for p by (simp add: sample_volume_def)
  moreover have "list_folder sample_volume [''data''] [''data'', ''in''] [File ''a.csv'', File ''.b.csv''] sample_csv_config 1000000000000 = sample_listing"
    by (simp add: list_folder_def dir_entries_def sample_csv_config_def MAX_ENTRIES_def list_entry_def sample_names
        sample_volume_def inside_def max_file_bytes_def MB_def path_text_def sample_listing_def sample_found_def empty_listing_def)
  ultimately show ?thesis
    by (simp add: connector_listing_def sample_csv_connector_def sample_folder [unfolded sample_csv_config_def] sample_csv_config_def)
qed

lemma sample_validated: "validate_csv_config sample_csv_config = Some sample_csv_config"
  by (simp add: validate_csv_config_def sample_csv_config_def config_valid_def connector_config.truncate_def name_within_def some_or_def
      named_columns_def relative_path_def path_parts_def path_text_def split_slash_one is_control_def)

theorem listing_is_exact_witness:
  "\<exists>es. vol_entries sample_volume [''data'', ''in''] = Some es \<and> inside [''data''] [''data'', ''in''] \<and>
     in_folder False es [] ''a.csv'' \<and> connector_listing sample_volume sample_csv_connector 1000000000000 = Inr sample_listing"
proof -
  have few: "\<not> li_truncated sample_listing" by (simp add: sample_listing_def empty_listing_def)
  have valid: "validate_csv_config sample_csv_config = Some (cd_settings sample_csv_connector)"
    by (simp add: sample_validated sample_csv_connector_def)
  obtain r ps base es where ex: "cd_files_root sample_csv_connector = Some r"
      "cc_path (cd_settings sample_csv_connector) = (if ps = [] then ''.'' else join_with ''/'' ps)"
      "\<forall>p \<in> set ps. p \<noteq> [] \<and> p \<noteq> ''.'' \<and> p \<noteq> ''..'' \<and> CHR ''/'' \<notin> set p"
      "base = vol_resolve sample_volume (r @ ps)" "inside r base" "vol_entries sample_volume base = Some es"
      "\<forall>f. f \<in> set (li_files sample_listing) \<longleftrightarrow> (\<exists>p n. in_folder (cc_recursive (cd_settings sample_csv_connector)) es p n \<and>
         ready sample_volume r base (cd_settings sample_csv_connector) 1000000000000 p n f)"
    using listing_is_exact [OF sample_listed few valid] by blast
  have r: "r = [''data'']" using ex(1) by (simp add: sample_csv_connector_def)
  have "path_text ps = ''in''" using ex(2) by (simp add: path_text_def sample_csv_connector_def sample_csv_config_def)
  then have "ps = path_parts ''in''" using parts_of_text [of ps] ex(3) by (auto simp: plain_part_def)
  then have "ps = [''in'']" by (simp add: path_parts_def split_slash_one)
  then have base: "base = [''data'', ''in'']" using ex(4) r by (simp add: sample_volume_def)
  have "sample_found \<in> set (li_files sample_listing)" by (simp add: sample_listing_def)
  then obtain p n where "in_folder False es p n" "ready sample_volume r base (cd_settings sample_csv_connector) 1000000000000 p n sample_found"
    using ex(7) by (auto simp: sample_csv_connector_def sample_csv_config_def)
  moreover have "p = []" using calculation(1) by (simp add: in_folder_def)
  ultimately have "in_folder False es [] ''a.csv''"
    by (auto simp: ready_def sample_found_def path_text_def)
  with ex(5,6) r base sample_listed show ?thesis by auto
qed

end
