(* ===== verification/Csv_Reader_Facts.thy ===== *)
theory Csv_Reader_Facts
  imports Csv_Reader Csv_Facts
begin

text \<open>What reading a long file keeps: each sample in the rows of its series, in time order.\<close>

section \<open>Groups of a sorted list\<close>

lemma set_firsts [simp]: "set (firsts xs) = set xs"
  by (induction xs) auto

lemma distinct_firsts: "distinct (firsts xs)"
  by (induction xs) auto

lemma firsts_sorted: "sorted (k # ks) \<Longrightarrow> k \<in> set ks \<Longrightarrow> \<exists>rest. firsts ks = k # rest \<and> k \<notin> set rest"
  by (cases ks) (force dest: antisym)+

lemma groups_of_sorted:
  "sorted (map f xs) \<Longrightarrow> concat (map (\<lambda>k. filter (\<lambda>x. f x = k) xs) (firsts (map f xs))) = xs"
proof (induction xs)
  case (Cons x xs)
  let ?k = "f x" and ?G = "\<lambda>k. filter (\<lambda>y. f y = k) xs"
  have sorted: "sorted (?k # map f xs)" "sorted (map f xs)" using Cons.prems by auto
  have IH: "concat (map ?G (firsts (map f xs))) = xs" using Cons.IH sorted(2) by blast
  have others: "map (\<lambda>k. filter (\<lambda>y. f y = k) (x # xs)) (filter (\<lambda>y. y \<noteq> ?k) (firsts (map f xs))) =
      map ?G (filter (\<lambda>y. y \<noteq> ?k) (firsts (map f xs)))" by auto
  have "?G ?k @ concat (map ?G (filter (\<lambda>y. y \<noteq> ?k) (firsts (map f xs)))) = xs"
  proof (cases "?k \<in> set (map f xs)")
    case True
    obtain rest where rest: "firsts (map f xs) = ?k # rest" "?k \<notin> set rest" using firsts_sorted [OF sorted(1) True] by blast
    then have "filter (\<lambda>y. y \<noteq> ?k) rest = rest" by (auto intro: filter_True)
    then show ?thesis using IH by (simp add: rest(1))
  next
    case False
    then have "?G ?k = []" unfolding filter_empty_conv by (metis imageI list.set_map)
    moreover have "filter (\<lambda>y. y \<noteq> ?k) (firsts (map f xs)) = firsts (map f xs)" using False by (intro filter_True) (metis set_firsts)
    ultimately show ?thesis using IH by simp
  qed
  moreover have "concat (map (\<lambda>k. filter (\<lambda>y. f y = k) (x # xs)) (firsts (map f (x # xs)))) =
      (x # ?G ?k) @ concat (map (\<lambda>k. filter (\<lambda>y. f y = k) (x # xs)) (filter (\<lambda>y. y \<noteq> ?k) (firsts (map f xs))))" by simp
  ultimately show ?case unfolding others by simp
qed simp

lemma insort_key_snd: "\<forall>x \<in> set (a # xs). fst x = i \<Longrightarrow> insort_key (\<lambda>s. (fst s, g s)) a xs = insort_key g a xs"
  by (induction xs) (auto simp: less_eq_prod_def)

lemma sort_key_snd: "\<forall>x \<in> set xs. fst x = i \<Longrightarrow> sort_key (\<lambda>s. (fst s, g s)) xs = sort_key g xs"
proof (induction xs)
  case (Cons a xs)
  then show ?case using insort_key_snd [of a "sort_key g xs" i g] by simp
qed simp

lemma map_snd_insort: "map snd (insort_key (\<lambda>s. g (snd s)) a xs) = insort_key g (snd a) (map snd xs)"
  by (induction xs) auto

lemma map_snd_sort: "map snd (sort_key (\<lambda>s. g (snd s)) xs) = sort_key g (map snd xs)"
  by (induction xs) (auto simp: map_snd_insort)

section \<open>Slices\<close>

lemma slices_keys: "slices A counts ordered = Inr out \<Longrightarrow> map fst out = map fst counts \<and> (\<forall>i \<in> fst ` set out. length i \<le> MAX_SERIES_ID)"
  by (induction A counts ordered arbitrary: out rule: slices.induct)
    (fastforce simp: result_simps checked_series_id_def split: if_splits)+

lemma slices_groups:
  "slices A (map (\<lambda>k. (k, length (G k))) ks) (concat (map G ks)) = Inr out \<Longrightarrow> out = map (\<lambda>k. (k, map snd (G k))) ks"
  by (induction ks arbitrary: out) (auto simp: result_simps checked_series_id_def split: if_splits)

definition rows_of_id :: "sample list \<Rightarrow> string \<Rightarrow> batch_row list" where
  "rows_of_id samples i = sort_key fst (map snd (filter (\<lambda>s. fst s = i) samples))"

lemma read_long_rows:
  assumes "read_long A t ts cfg = Inr out" "long_samples A t ts cfg = Inr samples"
  shows "out = map (\<lambda>i. (i, rows_of_id samples i)) (firsts (map fst (sort_key (\<lambda>s. (fst s, fst (snd s))) samples)))"
    "\<forall>i \<in> fst ` set out. length i \<le> MAX_SERIES_ID"
proof -
  let ?key = "\<lambda>s :: sample. (fst s, fst (snd s))"
  define ordered where "ordered = sort_key ?key samples"
  let ?G = "\<lambda>i. filter (\<lambda>s. fst s = i) ordered"
  have "sorted (map ?key ordered)" by (simp add: ordered_def)
  then have "sorted (map fst ordered)" by (induction ordered) (auto simp: less_eq_prod_def)
  then have groups: "concat (map ?G (firsts (map fst ordered))) = ordered" by (rule groups_of_sorted)
  have counts: "value_counts (map fst ordered) = map (\<lambda>i. (i, length (?G i))) (firsts (map fst ordered))"
    by (simp add: value_counts_def filter_map comp_def)
  have sliced: "slices A (value_counts (map fst ordered)) ordered = Inr out"
    using assms by (auto simp: read_long_def Let_def ordered_def result_simps)
  have "out = map (\<lambda>i. (i, map snd (?G i))) (firsts (map fst ordered))"
    using slices_groups [of A ?G "firsts (map fst ordered)" out] sliced unfolding counts groups by blast
  moreover have "map snd (?G i) = rows_of_id samples i" for i
  proof -
    have "?G i = sort_key ?key (filter (\<lambda>s. fst s = i) samples)" by (simp add: ordered_def filter_sort)
    also have "\<dots> = sort_key (\<lambda>s. fst (snd s)) (filter (\<lambda>s. fst s = i) samples)"
      using sort_key_snd [of "filter (\<lambda>s. fst s = i) samples" i "\<lambda>s. fst (snd s)"] by simp
    finally show ?thesis by (simp add: rows_of_id_def map_snd_sort)
  qed
  ultimately show "out = map (\<lambda>i. (i, rows_of_id samples i)) (firsts (map fst (sort_key ?key samples)))"
    by (simp add: ordered_def)
  show "\<forall>i \<in> fst ` set out. length i \<le> MAX_SERIES_ID" using slices_keys [OF sliced] by simp
qed

lemma sum_rows_of_ids: "distinct ids \<Longrightarrow> fst ` set samples \<subseteq> set ids \<Longrightarrow>
    sum_list (map (\<lambda>i. length (rows_of_id samples i)) ids) = length samples"
proof (induction samples)
  case Nil
  then show ?case by (simp add: rows_of_id_def)
next
  case (Cons s samples)
  have "sum_list (map (\<lambda>i. length (rows_of_id (s # samples) i)) ids) =
      sum_list (map (\<lambda>i. length (rows_of_id samples i) + (if i = fst s then 1 else 0)) ids)"
    by (intro arg_cong [where f = sum_list] map_cong) (auto simp: rows_of_id_def)
  also have "\<dots> = length samples + sum_list (map (\<lambda>i. if i = fst s then 1 else 0) ids)"
    using Cons by (simp add: sum_list_addf)
  also have "sum_list (map (\<lambda>i. if i = fst s then 1 else 0 :: nat) ids) = 1"
    using Cons.prems by (simp add: sum_list_distinct_conv_sum_set)
  finally show ?case by simp
qed

section \<open>The samples of a file\<close>

text \<open>
  What a file holds, apart from how it is read: Arrow's table of it, and of that table, row by row, the trimmed id, the
  time, the value and the quality.
\<close>

definition file_table :: "arrow \<Rightarrow> path \<Rightarrow> csv_config \<Rightarrow> table \<Rightarrow> bool" where
  "file_table A p cfg t \<longleftrightarrow>
     (if is_parquet p then ar_parquet A p (named_columns cfg) = ArrowOk t else ar_csv A p cfg (named_columns cfg) = ArrowOk t)"

definition table_samples :: "arrow \<Rightarrow> table \<Rightarrow> csv_config \<Rightarrow> sample list \<Rightarrow> bool" where
  "table_samples A t cfg samples \<longleftrightarrow>
     (\<exists>id_name ids id_col value_name vs value_col ts ts_col qs.
        cc_series_column cfg = Some id_name \<and> (id_name, id_col) \<in> set t \<and>
        (\<exists>raw. ar_texts A id_col = Some raw \<and> map (map_option (ar_trim A)) raw = map Some ids) \<and>
        (cc_ts_column cfg, ts_col) \<in> set t \<and> normalise_ts A ts_col (cc_ts_column cfg) (cc_ts_unit cfg) = Inr (map Some ts) \<and>
        cc_value_column cfg = Some value_name \<and> (value_name, value_col) \<in> set t \<and> ar_floats A value_col = Some vs \<and>
        (case cc_quality_column cfg of
           None \<Rightarrow> qs = replicate (length ts) None
         | Some q \<Rightarrow> (\<exists>q_col. (q, q_col) \<in> set t \<and> ar_texts A q_col = Some qs)) \<and>
        [] \<notin> set ids \<and> samples = zip ids (zip ts (zip vs qs)))"

text \<open>Arrow's casts answer a row for each row.\<close>

definition casts_keep_rows :: "arrow \<Rightarrow> bool" where
  "casts_keep_rows A \<longleftrightarrow>
     (\<forall>c xs. ar_texts A c = Some xs \<longrightarrow> length xs = column_length c) \<and> (\<forall>c xs. ar_floats A c = Some xs \<longrightarrow> length xs = column_length c)"

lemma some_values_all: "length xs = length (some_values xs) \<Longrightarrow> xs = map Some (some_values xs)"
proof (induction xs rule: some_values.induct)
  case (2 xs)
  have "length (some_values ys) \<le> length ys" for ys :: "'a option list" by (induction ys rule: some_values.induct) auto
  from this [of xs] 2 show ?case by simp
qed simp_all

lemma some_values_total: "None \<notin> set xs \<Longrightarrow> xs = map Some (some_values xs)"
  by (induction xs rule: some_values.induct) auto

lemma normalise_ts_length: "normalise_ts A col name unit = Inr ts \<Longrightarrow> length ts = column_length col"
  by (cases col) (auto simp: normalise_ts_def epoch_to_ns_def lenient_text_ts_def Let_def result_simps split: if_splits list.splits)

lemma column_named_in: "column_named t name = Inr c \<Longrightarrow> (name, c) \<in> set t"
proof -
  assume "column_named t name = Inr c"
  then obtain n where "filter (\<lambda>(n, c). n = name) t = [(n, c)]"
    by (auto simp: column_named_def split: list.split_asm prod.split_asm)
  then have "(n, c) \<in> set (filter (\<lambda>(n, c). n = name) t)" by simp
  then show ?thesis by auto
qed

lemma read_timestamps_all:
  assumes "read_timestamps A t cfg = Inr ts"
  obtains col where "(cc_ts_column cfg, col) \<in> set t" "normalise_ts A col (cc_ts_column cfg) (cc_ts_unit cfg) = Inr (map Some ts)"
proof -
  obtain col where named: "column_named t (cc_ts_column cfg) = Inr col"
    using assms by (auto simp: read_timestamps_def result_simps)
  obtain all_ts where norm: "normalise_ts A col (cc_ts_column cfg) (cc_ts_unit cfg) = Inr all_ts"
    using assms by (cases "normalise_ts A col (cc_ts_column cfg) (cc_ts_unit cfg)") (auto simp: read_timestamps_def named)
  have "length all_ts - length (some_values all_ts) = 0 \<and> ts = some_values all_ts"
    using assms by (auto simp: read_timestamps_def named norm Let_def split: if_splits)
  note col = named norm conjunct1 [OF this] conjunct2 [OF this]
  have "length (some_values ys) \<le> length ys" for ys :: "ns option list" by (induction ys rule: some_values.induct) auto
  from this [of all_ts] col(3) have "all_ts = map Some ts" unfolding col(4) by (intro some_values_all) simp
  with col(1,2) that show thesis using column_named_in by blast
qed

lemma long_samples_table:
  assumes "read_timestamps A t cfg = Inr ts" "long_samples A t ts cfg = Inr samples"
  shows "table_samples A t cfg samples"
proof -
  obtain ts_col where ts_col: "(cc_ts_column cfg, ts_col) \<in> set t"
      "normalise_ts A ts_col (cc_ts_column cfg) (cc_ts_unit cfg) = Inr (map Some ts)"
    using read_timestamps_all [OF assms(1)] by blast
  obtain id_name value_name where names: "cc_series_column cfg = Some id_name" "cc_value_column cfg = Some value_name"
    using assms(2) by (cases "cc_series_column cfg"; cases "cc_value_column cfg") (simp_all add: long_samples_def)
  obtain id_col raw value_col vs qs where
      cols: "column_named t id_name = Inr id_col" "ar_texts A id_col = Some raw" "column_named t value_name = Inr value_col"
        "ar_floats A value_col = Some vs"
      and none: "filter (\<lambda>i. i = None \<or> i = Some []) (map (map_option (ar_trim A)) raw) = []"
      and qs: "(case cc_quality_column cfg of Some q \<Rightarrow> text_column A t q | None \<Rightarrow> Inr (replicate (length ts) None)) = Inr qs"
      and samples: "samples = zip (some_values (map (map_option (ar_trim A)) raw)) (zip ts (zip vs qs))"
  proof -
    obtain raw where raw: "text_column A t id_name = Inr raw"
      using assms(2) by (auto simp: long_samples_def names result_simps)
    obtain value_col vs where vals: "column_named t value_name = Inr value_col" "read_values A value_col value_name = Inr vs"
      using assms(2) by (auto simp: long_samples_def names raw result_simps Let_def)
    obtain qs where qs: "(case cc_quality_column cfg of Some q \<Rightarrow> text_column A t q | None \<Rightarrow> Inr (replicate (length ts) None)) = Inr qs"
      using assms(2) by (auto simp: long_samples_def names raw vals result_simps Let_def)
    have "filter (\<lambda>i. i = None \<or> i = Some []) (map (map_option (ar_trim A)) raw) = []"
      using assms(2) by (simp add: long_samples_def names raw result_simps Let_def)
    moreover have "samples = zip (some_values (map (map_option (ar_trim A)) raw)) (zip ts (zip vs qs))"
      using assms(2) by (simp add: long_samples_def names raw vals qs result_simps Let_def)
    moreover obtain id_col where "column_named t id_name = Inr id_col" "ar_texts A id_col = Some raw"
      using raw by (auto simp: text_column_def expect_def result_simps split: option.split_asm)
    moreover have "ar_floats A value_col = Some vs" using vals(2) by (auto simp: read_values_def split: option.split_asm)
    ultimately show thesis using that vals(1) qs by blast
  qed
  define cells where "cells = map (map_option (ar_trim A)) raw"
  define ids where "ids = some_values cells"
  have full: "\<forall>i \<in> set cells. i \<noteq> None \<and> i \<noteq> Some []"
    using none unfolding cells_def [symmetric] filter_empty_conv de_Morgan_disj .
  then have "None \<notin> set cells" by auto
  then have ids: "cells = map Some ids" unfolding ids_def by (rule some_values_total)
  have "\<forall>i \<in> set (map Some ids). i \<noteq> Some []" using full unfolding ids [symmetric] by simp
  then have nonempty: "[] \<notin> set ids" by auto
  have quality: "case cc_quality_column cfg of None \<Rightarrow> qs = replicate (length ts) None
      | Some q \<Rightarrow> (\<exists>q_col. (q, q_col) \<in> set t \<and> ar_texts A q_col = Some qs)"
  proof (cases "cc_quality_column cfg")
    case (Some q)
    then show ?thesis using qs by (auto simp: text_column_def result_simps intro: column_named_in)
  qed (use qs in simp)
  have "samples = zip ids (zip ts (zip vs qs))" by (simp add: samples ids_def cells_def)
  then show ?thesis
    unfolding table_samples_def
    using names column_named_in [OF cols(1)] cols(2) ids [unfolded cells_def] ts_col column_named_in [OF cols(3)] cols(4) quality nonempty by blast
qed

text \<open>When the columns of the table are equally long and Arrow's casts keep rows, every row is a sample.\<close>

lemma samples_of_rows:
  assumes "table_samples A t cfg samples" "casts_keep_rows A" "\<forall>(name, c) \<in> set t. column_length c = n"
  shows "length samples = n"
proof -
  obtain id_name ids id_col value_name vs value_col ts ts_col qs where
      s: "(id_name, id_col) \<in> set t" "\<exists>raw. ar_texts A id_col = Some raw \<and> map (map_option (ar_trim A)) raw = map Some ids"
        "(cc_ts_column cfg, ts_col) \<in> set t" "normalise_ts A ts_col (cc_ts_column cfg) (cc_ts_unit cfg) = Inr (map Some ts)"
        "(value_name, value_col) \<in> set t" "ar_floats A value_col = Some vs"
        "case cc_quality_column cfg of None \<Rightarrow> qs = replicate (length ts) None
         | Some q \<Rightarrow> (\<exists>q_col. (q, q_col) \<in> set t \<and> ar_texts A q_col = Some qs)"
        "samples = zip ids (zip ts (zip vs qs))"
    using assms(1) unfolding table_samples_def by blast
  have rows: "column_length c = n" if "(name, c) \<in> set t" for name c using assms(3) that by fastforce
  obtain raw where raw: "ar_texts A id_col = Some raw" "map (map_option (ar_trim A)) raw = map Some ids" using s(2) by blast
  have "length ids = n" using arg_cong [OF raw(2), of length] raw(1) rows [OF s(1)] assms(2) by (simp add: casts_keep_rows_def)
  moreover have ts: "length ts = n" using normalise_ts_length [OF s(4)] rows [OF s(3)] by simp
  moreover have "length vs = n" using s(6) rows [OF s(5)] assms(2) by (simp add: casts_keep_rows_def)
  moreover have "length qs = n"
    using s(7) ts rows assms(2) by (auto simp: casts_keep_rows_def split: option.splits)
  ultimately show ?thesis by (simp add: s(8))
qed

lemma read_file_table:
  assumes "read_file A p cfg = Inr fr" "cc_layout cfg = Long"
  obtains t ts where "file_table A p cfg t" "read_timestamps A t cfg = Inr ts" "read_long A t ts cfg = Inr (fr_series fr)"
    "int (length (fr_series fr)) \<le> cc_max_series_per_file cfg" "fr_rows fr = sum_list (map (\<lambda>(i, rows). length rows) (fr_series fr))"
    "fr_start_ns fr = (if row_times (fr_series fr) = [] then None else Some (Min (set (row_times (fr_series fr)))))"
    "fr_end_ns fr = (if row_times (fr_series fr) = [] then None else Some (Max (set (row_times (fr_series fr))) + 1))"
proof -
  obtain t ts where r: "(if is_parquet p then read_parquet_file A p cfg else read_csv_file A p cfg) = Inr t"
    "read_timestamps A t cfg = Inr ts" "read_long A t ts cfg = Inr (fr_series fr)"
    "int (length (fr_series fr)) \<le> cc_max_series_per_file cfg" "fr_rows fr = sum_list (map (\<lambda>(i, rows). length rows) (fr_series fr))"
    "fr_start_ns fr = (if row_times (fr_series fr) = [] then None else Some (Min (set (row_times (fr_series fr)))))"
    "fr_end_ns fr = (if row_times (fr_series fr) = [] then None else Some (Max (set (row_times (fr_series fr))) + 1))"
    using assms by (auto simp: read_file_def result_simps)
  have "needed_columns cfg = named_columns cfg" "named_columns cfg \<noteq> []"
    by (simp_all add: needed_columns_def named_columns_def assms(2))
  then have "file_table A p cfg t"
    using r(1) by (auto simp: file_table_def read_parquet_file_def read_csv_file_def parquet_result_def csv_result_def result_simps Let_def
        split: if_splits arrow_result.splits)
  with r(2-) that show thesis by blast
qed

text \<open>C38: Reading a long file keeps every sample of the file.  Let the table be the one Arrow reads from this file, and its
  samples the rows of that table: the trimmed id, the time, the value and the quality.  Then the series of the result are the
  ids of the file, each once, and each holds exactly the file's samples of that id, in time order and, at one time, in file
  order; the totals count every sample, which is every row of the table when Arrow's casts keep rows; every sample lies within
  the bounds; the ids are not empty, and they and their number keep within their limits.\<close>

theorem read_file_keeps_samples:
  assumes "read_file A p cfg = Inr fr" "cc_layout cfg = Long"
  shows "\<exists>t samples. file_table A p cfg t \<and> table_samples A t cfg samples \<and>
    distinct (map fst (fr_series fr)) \<and> fst ` set (fr_series fr) = fst ` set samples \<and>
    (\<forall>(i, rows) \<in> set (fr_series fr). rows = sort_key fst (map snd (filter (\<lambda>s. fst s = i) samples)) \<and>
       1 \<le> length i \<and> length i \<le> 256) \<and>
    fr_rows fr = length samples \<and> int (length (fr_series fr)) \<le> cc_max_series_per_file cfg \<and>
    (\<forall>n. casts_keep_rows A \<and> (\<forall>(name, c) \<in> set t. column_length c = n) \<longrightarrow> fr_rows fr = n) \<and>
    (\<forall>s \<in> set samples. \<exists>a b. fr_start_ns fr = Some a \<and> fr_end_ns fr = Some b \<and> a \<le> fst (snd s) \<and> fst (snd s) < b)"
  using assms
proof (rule read_file_table)
  fix t ts assume table: "file_table A p cfg t"
    and t: "read_timestamps A t cfg = Inr ts" "read_long A t ts cfg = Inr (fr_series fr)"
    "int (length (fr_series fr)) \<le> cc_max_series_per_file cfg" "fr_rows fr = sum_list (map (\<lambda>(i, rows). length rows) (fr_series fr))"
    "fr_start_ns fr = (if row_times (fr_series fr) = [] then None else Some (Min (set (row_times (fr_series fr)))))"
    "fr_end_ns fr = (if row_times (fr_series fr) = [] then None else Some (Max (set (row_times (fr_series fr))) + 1))"
  obtain samples where long: "long_samples A t ts cfg = Inr samples"
    using t(2) by (auto simp: read_long_def result_simps)
  have samples: "table_samples A t cfg samples" by (rule long_samples_table [OF t(1) long])
  define ids where "ids = firsts (map fst (sort_key (\<lambda>s. (fst s, fst (snd s))) samples))"
  have series: "fr_series fr = map (\<lambda>i. (i, rows_of_id samples i)) ids" and short: "\<forall>i \<in> fst ` set (fr_series fr). length i \<le> MAX_SERIES_ID"
    using read_long_rows [OF t(2) long] by (simp_all add: ids_def)
  have ids: "distinct ids" "set ids = fst ` set samples" by (simp_all add: ids_def distinct_firsts)
  have keys: "map fst (fr_series fr) = ids" by (simp add: series comp_def)
  have times: "set (row_times (fr_series fr)) = (fst \<circ> snd) ` set samples"
    by (force simp: row_times_def series ids(2) rows_of_id_def)
  have bounds: "\<forall>s \<in> set samples. \<exists>a b. fr_start_ns fr = Some a \<and> fr_end_ns fr = Some b \<and> a \<le> fst (snd s) \<and> fst (snd s) < b"
  proof
    fix s assume "s \<in> set samples"
    then have "fst (snd s) \<in> set (row_times (fr_series fr))" by (force simp: times)
    then have "row_times (fr_series fr) \<noteq> []" "Min (set (row_times (fr_series fr))) \<le> fst (snd s)"
      "fst (snd s) \<le> Max (set (row_times (fr_series fr)))" by auto
    then show "\<exists>a b. fr_start_ns fr = Some a \<and> fr_end_ns fr = Some b \<and> a \<le> fst (snd s) \<and> fst (snd s) < b" using t(5,6) by simp
  qed
  have total: "fr_rows fr = length samples"
    using sum_rows_of_ids [OF ids(1), of samples] ids(2) by (simp add: t(4) series comp_def)
  have "i \<noteq> []" if "i \<in> set ids" for i
  proof -
    have "[] \<notin> fst ` set samples" using samples unfolding table_samples_def by (auto dest: set_zip_leftD)
    with that ids(2) show ?thesis by blast
  qed
  then have each: "\<forall>(i, rows) \<in> set (fr_series fr). rows = sort_key fst (map snd (filter (\<lambda>s. fst s = i) samples)) \<and>
       1 \<le> length i \<and> length i \<le> 256"
    using short by (auto simp: series rows_of_id_def MAX_SERIES_ID_def Suc_le_eq)
  have set_keys: "distinct (map fst (fr_series fr))" "fst ` set (fr_series fr) = fst ` set samples"
    using ids keys by (metis list.set_map)+
  have all_rows: "\<forall>n. casts_keep_rows A \<and> (\<forall>(name, c) \<in> set t. column_length c = n) \<longrightarrow> fr_rows fr = n"
    unfolding total using samples_of_rows [OF samples] by blast
  from table samples set_keys each total t(3) all_rows bounds show ?thesis by (intro exI conjI)
qed

text \<open>A file with two samples of one series, the later one first.\<close>

definition sample_table :: table where
  "sample_table = [(''ts'', Ints [Some 1700000000, Some 1600000000]), (''series'', Texts [Some ''a'', Some ''a'']),
     (''value'', Floats [Some 1, Some 2])]"

definition sample_arrow :: arrow where
  "sample_arrow = \<lparr>ar_csv_header = (\<lambda>p d. ArrowOk [''ts'', ''series'', ''value'']), ar_csv = (\<lambda>p c n. ArrowOk sample_table),
     ar_parquet_names = (\<lambda>p. ArrowOther), ar_parquet = (\<lambda>p n. ArrowOther),
     ar_floats = (\<lambda>c. case c of Floats xs \<Rightarrow> Some xs | _ \<Rightarrow> None), ar_texts = (\<lambda>c. case c of Texts xs \<Rightarrow> Some xs | _ \<Rightarrow> None),
     ar_trim = (\<lambda>s. s), ar_strptime = (\<lambda>f s. None), ar_median = (\<lambda>xs. None), ar_type_name = (\<lambda>c. ''type''), ar_cast_error = ''cast'',
     ar_repr = (\<lambda>s. s), ar_date = (\<lambda>t. ''date'')\<rparr>"

definition sample_rows :: file_rows where
  "sample_rows = \<lparr>fr_series = [(''a'', [(1600000000000000000, Some 2, None), (1700000000000000000, Some 1, None)])], fr_rows = 2,
     fr_start_ns = Some 1600000000000000000, fr_end_ns = Some 1700000000000000001\<rparr>"

lemma sample_file_read: "read_file sample_arrow [''data'', ''in'', ''a.csv''] sample_csv_config = Inr sample_rows"
proof -
  have not_parquet: "\<not> is_parquet [''data'', ''in'', ''a.csv'']"
    by (simp add: is_parquet_def ends_with_def starts_with_def lower_def lower_char_def less_eq_char_def)
  have table: "read_csv_file sample_arrow p sample_csv_config = Inr sample_table" for p
    by (simp add: read_csv_file_def csv_result_def sample_arrow_def needed_columns_def named_columns_def sample_csv_config_def require_columns_def)
  have ts: "read_timestamps sample_arrow sample_table sample_csv_config = Inr [1700000000000000000, 1600000000000000000]"
    by (simp add: read_timestamps_def column_named_def sample_table_def sample_csv_config_def normalise_ts_def epoch_to_ns_def
        NS_PER_UNIT_def int64_def EPOCH_INT_MIN_NS_def EPOCH_INT_MAX_NS_def)
  have samples: "long_samples sample_arrow sample_table [1700000000000000000, 1600000000000000000] sample_csv_config =
      Inr [(''a'', 1700000000000000000, Some 1, None), (''a'', 1600000000000000000, Some 2, None)]"
    by (simp add: long_samples_def sample_csv_config_def text_column_def column_named_def sample_table_def sample_arrow_def read_values_def)
  have cap: "cc_max_series_per_file sample_csv_config = 1000" by (simp add: sample_csv_config_def)
  have "read_long sample_arrow sample_table [1700000000000000000, 1600000000000000000] sample_csv_config = Inr (fr_series sample_rows)"
    by (simp add: read_long_def samples cap value_counts_def checked_series_id_def MAX_SERIES_ID_def sample_rows_def less_eq_prod_def)
  then show ?thesis
    by (simp add: read_file_def not_parquet table ts) (simp add: sample_csv_config_def sample_rows_def row_times_def)
qed

theorem read_file_keeps_samples_witness:
  "\<exists>fr t samples. read_file sample_arrow [''data'', ''in'', ''a.csv''] sample_csv_config = Inr fr \<and>
    file_table sample_arrow [''data'', ''in'', ''a.csv''] sample_csv_config t \<and> table_samples sample_arrow t sample_csv_config samples \<and>
    t = sample_table \<and> length samples = 2 \<and> fr_rows fr = 2"
proof -
  have not_parquet: "\<not> is_parquet [''data'', ''in'', ''a.csv'']"
    by (simp add: is_parquet_def ends_with_def starts_with_def lower_def lower_char_def less_eq_char_def)
  have "cc_layout sample_csv_config = Long" by (simp add: sample_csv_config_def)
  from read_file_keeps_samples [OF sample_file_read this] obtain t samples where
    "file_table sample_arrow [''data'', ''in'', ''a.csv''] sample_csv_config t" "table_samples sample_arrow t sample_csv_config samples"
    "fr_rows sample_rows = length samples" by blast
  moreover have "t = sample_table" using calculation(1) by (simp add: file_table_def not_parquet sample_arrow_def)
  moreover have "fr_rows sample_rows = 2" by (simp add: sample_rows_def)
  ultimately show ?thesis using sample_file_read by auto
qed

end
