(* ===== verification/Ingest_Facts.thy ===== *)
theory Ingest_Facts
  imports Ingest Csv_Facts Csv_Reader_Facts Fetch_Facts
begin

text \<open>
  What a scan does to coverage, and that a scan after it reads only what has changed.
\<close>

section \<open>Coverage\<close>

definition write_covers :: "uuid \<Rightarrow> ns \<Rightarrow> uuid \<times> batch_row list \<times> cache_write \<Rightarrow> bool" where
  "write_covers i t w = (case w of (j, rows, cw) \<Rightarrow> j = i \<and> cw_rows cw \<noteq> 0 \<and> floor_us (cw_start_ns cw) \<le> t \<and> t < ceil_us (cw_end_ns cw))"

lemma cached_record_writes: "cached (record_writes og now ws d) i t \<longleftrightarrow> cached d i t \<or> (\<exists>w \<in> set ws. write_covers i t w)"
proof (induction ws arbitrary: d)
  case (Cons w ws)
  obtain j rows cw where w: "w = (j, rows, cw)" by (metis surj_pair)
  have "cached (coverage_record d og j (cw_start_ns cw) (cw_end_ns cw) (cw_rows cw) now RAW_LAYER) i t \<longleftrightarrow>
      cached d i t \<or> j = i \<and> floor_us (cw_start_ns cw) \<le> t \<and> t < ceil_us (cw_end_ns cw)"
    by (auto simp: coverage_record_put raw_layer.covers_put floor_us_def ceil_us_def)
  then show ?case using Cons [of "if cw_rows cw = 0 then d else coverage_record d og j (cw_start_ns cw) (cw_end_ns cw) (cw_rows cw) now RAW_LAYER"]
    by (auto simp: w write_covers_def)
qed simp

lemma cached_frames [simp]: "cached (count_file fid n d) = cached d" "cached (upsert_file row d) = cached d"
  "cached (d\<lparr>all_series := t\<rparr>) = cached d" "cached (touch_file s f d) = cached d"
  by (rule cached_cong; simp add: count_file_def set_fetch_def upsert_file_def touch_file_def)+

lemma cached_triage: "cached (tr_db (triage_files I source cap d fs)) = cached d"
proof -
  have "cached (tr_db (fold (triage_file I source cap d) fs t)) = cached (tr_db t)" for t
    by (induction fs arbitrary: t) (auto simp: triage_file_def Let_def split: option.split)
  then show ?thesis by (simp add: triage_files_def)
qed

lemma write_file_accepted:
  "write_file w source t series out = (written, h) \<Longrightarrow> \<forall>(i, rows, cw) \<in> set out. w source i rows = Inr cw \<Longrightarrow>
    \<forall>(i, rows, cw) \<in> set written. w source i rows = Inr cw"
  by (induction w source t series out rule: write_file.induct) (auto split: if_splits option.splits sum.splits)

lemma ingest_file_cached:
  assumes "ingest_file I w cfg plan fid k f digest sn = (sn', h)"
  shows "\<exists>ws. sn_writes sn' = sn_writes sn @ ws \<and> (\<forall>(i, rows, cw) \<in> set ws. w (jp_source_id plan) i rows = Inr cw) \<and>
    (\<forall>i t. cached (sn_db sn') i t \<longleftrightarrow> cached (sn_db sn) i t \<or> h = None \<and> (\<exists>x \<in> set ws. write_covers i t x))"
proof (cases "read_file (ie_arrow I) (ff_full f) cfg")
  case (Inl e)
  then show ?thesis using assms by (cases e) (auto simp: ingest_file_def record_failure_def)
next
  case (Inr rows)
  obtain t created where made: "create_series \<lparr>sc_org = jp_org_id plan, sc_workspace = jp_workspace_id plan\<rparr> (jp_source_id plan)
      (ie_now_file I k) (ie_series_id I k) 0 (map fst (fr_series rows)) (all_series (sn_db sn)) = (t, created)" by fastforce
  obtain ws h' where ws: "write_file w (jp_source_id plan) t (fr_series rows) [] = (ws, h')" by fastforce
  have "\<forall>(i, rows, cw) \<in> set ws. w (jp_source_id plan) i rows = Inr cw" using write_file_accepted [OF ws] by simp
  then show ?thesis using assms Inr made ws
    by (cases h') (auto simp: ingest_file_def Let_def cached_record_writes)
qed

lemma read_todo_cached:
  assumes "read_todo I w cfg plan fid k todo sn = (sn', h)"
  shows "\<exists>ws. sn_writes sn' = sn_writes sn @ ws \<and> (\<forall>(i, rows, cw) \<in> set ws. w (jp_source_id plan) i rows = Inr cw) \<and>
    (\<forall>i t. cached (sn_db sn) i t \<longrightarrow> cached (sn_db sn') i t) \<and>
    (\<forall>i t. cached (sn_db sn') i t \<longrightarrow> cached (sn_db sn) i t \<or> (\<exists>x \<in> set ws. write_covers i t x)) \<and>
    (h = None \<longrightarrow> (\<forall>i t. (\<exists>x \<in> set ws. write_covers i t x) \<longrightarrow> cached (sn_db sn') i t))"
  using assms
proof (induction I w cfg plan fid k todo sn rule: read_todo.induct)
  case (2 I w cfg plan fid k f digest todo sn)
  obtain sn1 h1 where one: "ingest_file I w cfg plan fid k f digest sn = (sn1, h1)" by fastforce
  obtain ws where ws: "sn_writes sn1 = sn_writes sn @ ws" "\<forall>(i, rows, cw) \<in> set ws. w (jp_source_id plan) i rows = Inr cw"
    "\<forall>i t. cached (sn_db sn1) i t \<longleftrightarrow> cached (sn_db sn) i t \<or> h1 = None \<and> (\<exists>x \<in> set ws. write_covers i t x)"
    using ingest_file_cached [OF one] by blast
  show ?case
  proof (cases h1)
    case (Some s)
    then show ?thesis using 2 one ws by auto
  next
    case None
    have rest: "read_todo I w cfg plan fid (Suc k) todo sn1 = (sn', h)" using 2(2) one None by simp
    from "2.IH" [OF one [symmetric] None rest] obtain ws' where ws': "sn_writes sn' = sn_writes sn1 @ ws'" "\<forall>(i, rows, cw) \<in> set ws'. w (jp_source_id plan) i rows = Inr cw"
      "\<forall>i t. cached (sn_db sn1) i t \<longrightarrow> cached (sn_db sn') i t"
      "\<forall>i t. cached (sn_db sn') i t \<longrightarrow> cached (sn_db sn1) i t \<or> (\<exists>x \<in> set ws'. write_covers i t x)"
      "h = None \<longrightarrow> (\<forall>i t. (\<exists>x \<in> set ws'. write_covers i t x) \<longrightarrow> cached (sn_db sn') i t)"
      by (elim exE conjE) (rule that)
    show ?thesis
    proof (intro exI [of _ "ws @ ws'"] conjI)
      show "sn_writes sn' = sn_writes sn @ ws @ ws'" using ws(1) ws'(1) by simp
      show "\<forall>(i, rows, cw) \<in> set (ws @ ws'). w (jp_source_id plan) i rows = Inr cw" using ws(2) ws'(2) by auto
      show "\<forall>i t. cached (sn_db sn) i t \<longrightarrow> cached (sn_db sn') i t" using ws(3) ws'(3) by blast
      show "\<forall>i t. cached (sn_db sn') i t \<longrightarrow> cached (sn_db sn) i t \<or> (\<exists>x \<in> set (ws @ ws'). write_covers i t x)"
        using ws(3) ws'(4) by (metis UnI1 UnI2 set_append)
      show "h = None \<longrightarrow> (\<forall>i t. (\<exists>x \<in> set (ws @ ws'). write_covers i t x) \<longrightarrow> cached (sn_db sn') i t)"
        using None ws(3) ws'(3,5) by (metis UnE set_append)
    qed
  qed
qed auto

section \<open>The files' rows\<close>

definition file_settled :: "db \<Rightarrow> uuid \<Rightarrow> found_file \<Rightarrow> bool" where
  "file_settled d source f \<longleftrightarrow> (\<exists>r. known_file d source (ff_path f) = Some r \<and> same_stat r f)"

lemma find_update_match: "(\<And>r. P r \<Longrightarrow> P (g r)) \<Longrightarrow> List.find P (update_where P g t) = map_option g (List.find P t)"
  by (induction t) (auto simp: update_where_def)

lemma find_update_other: "(\<And>r. Q r \<Longrightarrow> \<not> P r \<and> \<not> P (g r)) \<Longrightarrow> List.find P (update_where Q g t) = List.find P t"
  by (induction t) (auto simp: update_where_def)

lemma find_None_all: "List.find P t = None \<longleftrightarrow> (\<forall>r \<in> set t. \<not> P r)"
  by (induction t) auto

lemma find_snoc: "List.find P (t @ [r]) = (case List.find P t of Some x \<Rightarrow> Some x | None \<Rightarrow> if P r then Some r else None)"
  by (induction t) auto

lemma known_file_upsert:
  assumes "file_key_of row = (source, p)"
  shows "\<exists>r. known_file (upsert_file row d) source p = Some r \<and> fl_size r = fl_size row \<and> fl_mtime r = fl_mtime row"
    "p' \<noteq> p \<Longrightarrow> known_file (upsert_file row d) source p' = known_file d source p'"
proof -
  have key: "(\<lambda>f. file_key_of f = file_key_of row) = (\<lambda>f. fl_source_id f = source \<and> fl_path f = p)"
    using assms by (auto simp: file_key_of_def)
  have row: "fl_source_id row = source" "fl_path row = p" using assms by (simp_all add: file_key_of_def)
  show "\<exists>r. known_file (upsert_file row d) source p = Some r \<and> fl_size r = fl_size row \<and> fl_mtime r = fl_mtime row"
  proof (cases "\<exists>r \<in> set (source_files d). fl_source_id r = source \<and> fl_path r = p")
    case True
    then obtain x where "List.find (\<lambda>f. fl_source_id f = source \<and> fl_path f = p) (source_files d) = Some x"
      by (cases "List.find (\<lambda>f. fl_source_id f = source \<and> fl_path f = p) (source_files d)") (auto simp: find_None_all)
    moreover have "\<exists>r \<in> set (source_files d). file_key_of r = file_key_of row" using True key by metis
    ultimately show ?thesis
      by (simp add: known_file_def upsert_file_def upsert_def key find_update_match new_version_def row)
  next
    case False
    then have "\<not> (\<exists>r \<in> set (source_files d). file_key_of r = file_key_of row)" using key by metis
    moreover have "List.find (\<lambda>f. fl_source_id f = source \<and> fl_path f = p) (source_files d) = None"
      using False by (simp add: find_None_all)
    ultimately show ?thesis by (simp add: known_file_def upsert_file_def upsert_def find_snoc row)
  qed
  show "known_file (upsert_file row d) source p' = known_file d source p'" if p': "p' \<noteq> p"
  proof -
    have "List.find (\<lambda>f. fl_source_id f = source \<and> fl_path f = p')
        (update_where (\<lambda>f. fl_source_id f = source \<and> fl_path f = p) (\<lambda>old. new_version old row) t) =
      List.find (\<lambda>f. fl_source_id f = source \<and> fl_path f = p') t" for t
      using p' by (intro find_update_other) (auto simp: new_version_def row)
    moreover have "\<not> (fl_source_id row = source \<and> fl_path row = p')" using p' row by simp
    ultimately show ?thesis by (auto simp: known_file_def upsert_file_def upsert_def key find_snoc split: option.split)
  qed
qed

lemma known_file_cong: "source_files d = source_files d' \<Longrightarrow> known_file d = known_file d'"
  by (intro ext) (simp add: known_file_def)

lemma known_file_touch: "ff_path f \<noteq> p \<Longrightarrow> known_file (touch_file source f d) source p = known_file d source p"
  "known_file (touch_file source f d) source (ff_path f) =
    map_option (\<lambda>r. r\<lparr>fl_size := ff_size f, fl_mtime := ns_to_datetime (ff_mtime_ns f)\<rparr>) (known_file d source (ff_path f))"
  by (auto simp: known_file_def touch_file_def find_update_match intro!: find_update_other)

lemma us_of_datetime: "datetime_to_ns (ns_to_datetime t) = us_of t"
  by (simp add: us_of_def datetime_to_ns_def ns_to_datetime_def)

lemma record_writes_files: "source_files (record_writes og now ws d) = source_files d"
  by (induction ws arbitrary: d) (auto simp: coverage_record_def)

lemma ingest_file_row:
  assumes "ingest_file I w cfg plan fid k f digest sn = (sn', None)"
  shows "file_settled (sn_db sn') (jp_source_id plan) f"
    "p \<noteq> ff_path f \<Longrightarrow> known_file (sn_db sn') (jp_source_id plan) p = known_file (sn_db sn) (jp_source_id plan) p"
proof -
  obtain row d where row: "file_key_of row = (jp_source_id plan, ff_path f)" "fl_size row = ff_size f" "fl_mtime row = ns_to_datetime (ff_mtime_ns f)"
    and d: "source_files d = source_files (sn_db sn)" and new: "source_files (sn_db sn') = source_files (upsert_file row d)"
  proof (cases "read_file (ie_arrow I) (ff_full f) cfg")
    case (Inl e)
    then obtain msg where sn': "sn' = record_failure I plan fid k f digest msg sn"
      using assms by (cases e) (auto simp: ingest_file_def)
    show ?thesis
      by (rule that [where row = "file_row I plan fid k f digest FileFailed None 0 0 (Some (take 1000 msg))" and d = "sn_db sn"])
        (simp_all add: sn' record_failure_def count_file_def set_fetch_def file_row_def file_key_of_def)
  next
    case (Inr rows)
    obtain t created where made: "create_series \<lparr>sc_org = jp_org_id plan, sc_workspace = jp_workspace_id plan\<rparr> (jp_source_id plan)
        (ie_now_file I k) (ie_series_id I k) 0 (map fst (fr_series rows)) (all_series (sn_db sn)) = (t, created)" by fastforce
    obtain ws where ws: "write_file w (jp_source_id plan) t (fr_series rows) [] = (ws, None)"
      using assms Inr made by (auto simp: ingest_file_def Let_def split: prod.splits option.splits)
    let ?total = "sum_list (map (\<lambda>(i, rs, cw). cw_rows cw) ws)"
    show ?thesis
    proof (rule that)
      show "file_key_of (file_row I plan fid k f digest FileIngested (Some rows) ?total created None) = (jp_source_id plan, ff_path f)"
        by (simp add: file_key_of_def file_row_def)
      show "source_files (record_writes (jp_org_id plan) (ie_now_file I k) ws ((sn_db sn)\<lparr>all_series := t\<rparr>)) = source_files (sn_db sn)"
        by (simp add: record_writes_files)
      show "source_files (sn_db sn') = source_files (upsert_file (file_row I plan fid k f digest FileIngested (Some rows) ?total created None)
          (record_writes (jp_org_id plan) (ie_now_file I k) ws ((sn_db sn)\<lparr>all_series := t\<rparr>)))"
        using assms Inr made ws by (auto simp: ingest_file_def Let_def count_file_def set_fetch_def)
    qed (simp_all add: file_row_def)
  qed
  have known: "known_file (sn_db sn') = known_file (upsert_file row d)" "known_file d = known_file (sn_db sn)"
    using known_file_cong [OF new] known_file_cong [OF d] by simp_all
  show "file_settled (sn_db sn') (jp_source_id plan) f"
    using known_file_upsert(1) [OF row(1), of d] row(2,3) by (auto simp: file_settled_def known(1) same_stat_def us_of_datetime)
  show "known_file (sn_db sn') (jp_source_id plan) p = known_file (sn_db sn) (jp_source_id plan) p" if "p \<noteq> ff_path f"
    using known_file_upsert(2) [OF row(1) that, of d] by (simp add: known)
qed

lemma read_todo_rows:
  assumes "read_todo I w cfg plan fid k todo sn = (sn', None)" "distinct (map (ff_path \<circ> fst) todo)"
  shows "\<forall>x \<in> set todo. file_settled (sn_db sn') (jp_source_id plan) (fst x)"
    "\<forall>p. p \<notin> (ff_path \<circ> fst) ` set todo \<longrightarrow> known_file (sn_db sn') (jp_source_id plan) p = known_file (sn_db sn) (jp_source_id plan) p"
proof -
  have "(\<forall>x \<in> set todo. file_settled (sn_db sn') (jp_source_id plan) (fst x)) \<and>
    (\<forall>p. p \<notin> (ff_path \<circ> fst) ` set todo \<longrightarrow> known_file (sn_db sn') (jp_source_id plan) p = known_file (sn_db sn) (jp_source_id plan) p)"
    using assms
  proof (induction I w cfg plan fid k todo sn rule: read_todo.induct)
    case (2 I w cfg plan fid k f digest todo sn)
    obtain sn1 where one: "ingest_file I w cfg plan fid k f digest sn = (sn1, None)"
      and rest: "read_todo I w cfg plan fid (Suc k) todo sn1 = (sn', None)"
      using "2.prems"(1) by (auto split: prod.splits option.splits)
    have new: "ff_path f \<notin> (ff_path \<circ> fst) ` set todo" using "2.prems"(2) by auto
    have IH: "\<forall>x \<in> set todo. file_settled (sn_db sn') (jp_source_id plan) (fst x)"
      "\<forall>p. p \<notin> (ff_path \<circ> fst) ` set todo \<longrightarrow> known_file (sn_db sn') (jp_source_id plan) p = known_file (sn_db sn1) (jp_source_id plan) p"
      using "2.IH" [OF one [symmetric] refl] rest "2.prems"(2) by auto
    have "file_settled (sn_db sn') (jp_source_id plan) f"
      using ingest_file_row(1) [OF one] IH(2) new by (simp add: file_settled_def)
    then show ?case using IH ingest_file_row(2) [OF one] by auto
  qed simp
  then show "\<forall>x \<in> set todo. file_settled (sn_db sn') (jp_source_id plan) (fst x)"
    "\<forall>p. p \<notin> (ff_path \<circ> fst) ` set todo \<longrightarrow> known_file (sn_db sn') (jp_source_id plan) p = known_file (sn_db sn) (jp_source_id plan) p"
    by blast+
qed

section \<open>Sorting the files out\<close>

lemma distinct_subseq: "subseq xs ys \<Longrightarrow> distinct ys \<Longrightarrow> distinct xs"
proof (induction rule: list_emb.induct)
  case (list_emb_Cons2 x y xs ys)
  then show ?case using list_emb_set [OF list_emb_Cons2(2)] by auto
qed auto

text \<open>What becomes of the files of a listing: known, read, gone, or left for the next scan.\<close>

definition sorted_out :: "ingest_env \<Rightarrow> uuid \<Rightarrow> triage \<Rightarrow> found_file \<Rightarrow> bool" where
  "sorted_out I source t f \<longleftrightarrow>
     file_settled (tr_db t) source f \<or> ie_sha256 I (ff_full f) = None \<or> tr_more t \<or> f \<in> fst ` set (tr_todo t)"

lemma triage_file_step:
  assumes "known_file (tr_db t) source (ff_path f) = known_file d0 source (ff_path f)"
  shows "sorted_out I source (triage_file I source cap d0 f t) f"
    "\<exists>xs. tr_todo (triage_file I source cap d0 f t) = tr_todo t @ xs \<and> subseq (map fst xs) [f]"
    "tr_more t \<Longrightarrow> tr_more (triage_file I source cap d0 f t)"
    "p \<noteq> ff_path f \<Longrightarrow> known_file (tr_db (triage_file I source cap d0 f t)) source p = known_file (tr_db t) source p"
proof -
  let ?row = "known_file d0 source (ff_path f)"
  consider r where "?row = Some r" "same_stat r f"
    | "\<not> (\<exists>r. ?row = Some r \<and> same_stat r f)" "cap \<le> int (length (tr_todo t))"
    | "\<not> (\<exists>r. ?row = Some r \<and> same_stat r f)" "\<not> cap \<le> int (length (tr_todo t))" "ie_sha256 I (ff_full f) = None"
    | r digest where "\<not> same_stat r f" "?row = Some r" "\<not> cap \<le> int (length (tr_todo t))" "ie_sha256 I (ff_full f) = Some digest" "fl_sha256 r = digest"
    | digest where "\<not> (\<exists>r. ?row = Some r \<and> same_stat r f)" "\<not> cap \<le> int (length (tr_todo t))" "ie_sha256 I (ff_full f) = Some digest"
        "\<not> (\<exists>r. ?row = Some r \<and> fl_sha256 r = digest)"
    by (cases ?row; cases "ie_sha256 I (ff_full f)"; auto; blast)
  then have "sorted_out I source (triage_file I source cap d0 f t) f \<and>
    (\<exists>xs. tr_todo (triage_file I source cap d0 f t) = tr_todo t @ xs \<and> subseq (map fst xs) [f]) \<and>
    (tr_more t \<longrightarrow> tr_more (triage_file I source cap d0 f t)) \<and>
    (\<forall>p. p \<noteq> ff_path f \<longrightarrow> known_file (tr_db (triage_file I source cap d0 f t)) source p = known_file (tr_db t) source p)"
  proof cases
    case 1
    then have "triage_file I source cap d0 f t = t\<lparr>tr_unchanged := tr_unchanged t + 1\<rparr>" by (simp add: triage_file_def Let_def)
    then show ?thesis using 1 assms by (simp add: sorted_out_def file_settled_def)
  next
    case 2
    then have "triage_file I source cap d0 f t = t\<lparr>tr_more := True\<rparr>" by (auto simp: triage_file_def Let_def split: option.split)
    then show ?thesis by (simp add: sorted_out_def)
  next
    case 3
    then have "triage_file I source cap d0 f t = t" by (auto simp: triage_file_def Let_def split: option.split)
    then show ?thesis using 3 by (simp add: sorted_out_def)
  next
    case 4
    then have "triage_file I source cap d0 f t = t\<lparr>tr_db := touch_file source f (tr_db t), tr_unchanged := tr_unchanged t + 1\<rparr>"
      by (simp add: triage_file_def Let_def)
    then show ?thesis using 4 assms
      by (simp add: sorted_out_def file_settled_def known_file_touch same_stat_def us_of_datetime)
  next
    case 5
    then have "triage_file I source cap d0 f t = t\<lparr>tr_todo := tr_todo t @ [(f, digest)]\<rparr>"
      by (auto simp: triage_file_def Let_def split: option.split)
    then show ?thesis by (simp add: sorted_out_def)
  qed
  then show "sorted_out I source (triage_file I source cap d0 f t) f"
    "\<exists>xs. tr_todo (triage_file I source cap d0 f t) = tr_todo t @ xs \<and> subseq (map fst xs) [f]"
    "tr_more t \<Longrightarrow> tr_more (triage_file I source cap d0 f t)"
    "p \<noteq> ff_path f \<Longrightarrow> known_file (tr_db (triage_file I source cap d0 f t)) source p = known_file (tr_db t) source p"
    by blast+
qed

lemma fold_triage:
  assumes "distinct (map ff_path fs)" "\<forall>f \<in> set fs. known_file (tr_db t) source (ff_path f) = known_file d0 source (ff_path f)"
    "t' = fold (triage_file I source cap d0) fs t"
  shows "(\<forall>f \<in> set fs. sorted_out I source t' f) \<and> (\<exists>xs. tr_todo t' = tr_todo t @ xs \<and> subseq (map fst xs) fs) \<and>
    (tr_more t \<longrightarrow> tr_more t') \<and> (\<forall>p. p \<notin> ff_path ` set fs \<longrightarrow> known_file (tr_db t') source p = known_file (tr_db t) source p)"
  using assms
proof (induction fs arbitrary: t)
  case (Cons f fs)
  define t1 where "t1 = triage_file I source cap d0 f t"
  have same: "known_file (tr_db t) source (ff_path f) = known_file d0 source (ff_path f)" using Cons.prems(2) by simp
  note step = triage_file_step [OF same, where I = I and cap = cap, folded t1_def]
  have new: "ff_path f \<notin> ff_path ` set fs" using Cons.prems(1) by simp
  have later: "\<forall>g \<in> set fs. known_file (tr_db t1) source (ff_path g) = known_file d0 source (ff_path g)"
  proof
    fix g assume g: "g \<in> set fs"
    then have "ff_path g \<noteq> ff_path f" using new by (metis imageI)
    then show "known_file (tr_db t1) source (ff_path g) = known_file d0 source (ff_path g)"
      using step(4) [of "ff_path g"] Cons.prems(2) g by simp
  qed
  have t': "t' = fold (triage_file I source cap d0) fs t1" using Cons.prems(3) by (simp add: t1_def)
  have "distinct (map ff_path fs)" using Cons.prems(1) by simp
  note IH = Cons.IH [OF this later t']
  obtain xs ys where xs: "tr_todo t1 = tr_todo t @ xs" "subseq (map fst xs) [f]"
    and ys: "tr_todo t' = tr_todo t1 @ ys" "subseq (map fst ys) fs" using step(2) IH by blast
  have f: "sorted_out I source t' f"
  proof -
    have "known_file (tr_db t') source (ff_path f) = known_file (tr_db t1) source (ff_path f)" using IH new by blast
    then show ?thesis using step(1) IH ys(1) unfolding sorted_out_def file_settled_def by auto
  qed
  moreover have "subseq (map fst (xs @ ys)) (f # fs)" using list_emb_append_mono [OF xs(2) ys(2)] by simp
  then have "\<exists>zs. tr_todo t' = tr_todo t @ zs \<and> subseq (map fst zs) (f # fs)" using xs(1) ys(1) by (intro exI [of _ "xs @ ys"]) simp
  moreover have "\<forall>p. p \<notin> ff_path ` set (f # fs) \<longrightarrow> known_file (tr_db t') source p = known_file (tr_db t) source p"
    using IH step(4) by (metis image_insert insertCI list.simps(15))
  ultimately show ?case using IH step(3) by auto
qed simp

lemma triage_settled:
  assumes "\<forall>f \<in> set fs. file_settled d source f \<or> ie_sha256 I (ff_full f) = None"
  shows "tr_todo (triage_files I source cap d fs) = [] \<and> tr_db (triage_files I source cap d fs) = d"
proof -
  have "tr_todo t = [] \<Longrightarrow> tr_db t = d \<Longrightarrow>
      tr_todo (fold (triage_file I source cap d) fs t) = [] \<and> tr_db (fold (triage_file I source cap d) fs t) = d" for t
    using assms
  proof (induction fs arbitrary: t)
    case (Cons f fs)
    have "tr_todo (triage_file I source cap d f t) = [] \<and> tr_db (triage_file I source cap d f t) = d"
      using Cons.prems by (auto simp: triage_file_def Let_def file_settled_def split: option.split)
    then show ?case using Cons.IH [of "triage_file I source cap d f t"] Cons.prems(3) by simp
  qed simp
  then show ?thesis by (simp add: triage_files_def)
qed

text \<open>C35: A scan that ended reads nothing again: when the next scan of the source finds the same files, and the first one
  left none for later, it reads no file, writes nothing to the cache and changes nothing in the database, whether the
  files had been ingested, had failed, had only been touched, or could not be opened.\<close>

theorem rescan_reads_nothing:
  assumes "scan_folder I c plan fid d = (sn, Inr out)"
    and "connector_listing (ie_volume I) c (datetime_to_ns (ie_now_list I)) = Inr l"
    and "connector_listing (ie_volume J) c (datetime_to_ns (ie_now_list J)) = Inr l"
    and "ie_sha256 J = ie_sha256 I" "ie_cache J \<noteq> None" "distinct (map ff_path (li_files l))"
    and "\<not> tr_more (triage_files I (jp_source_id plan) (cc_max_files_per_scan (cd_settings c)) d (li_files l))"
    and "source_files d' = source_files (sn_db sn)" "jp_source_id plan' = jp_source_id plan"
  shows "\<exists>out'. scan_folder J c plan' fid' d' = (\<lparr>sn_db = d', sn_writes = [], sn_results = [], sn_rows = 0\<rparr>, Inr out') \<and>
    fo_status out' = FetchSucceeded \<and> fo_rows out' = 0"
proof -
  let ?source = "jp_source_id plan" and ?cap = "cc_max_files_per_scan (cd_settings c)"
  define t where "t = triage_files I ?source ?cap d (li_files l)"
  obtain w where w: "ie_cache I = Some w" using assms(1,2) by (cases "ie_cache I") (auto simp: scan_folder_def)
  have ran: "read_todo I w (cd_settings c) plan fid 0 (tr_todo t) \<lparr>sn_db = tr_db t, sn_writes = [], sn_results = [], sn_rows = 0\<rparr> = (sn, None)"
    using assms(1,2) w by (auto simp: scan_folder_def Let_def t_def split: prod.splits option.splits)
  have t: "(\<forall>f \<in> set (li_files l). sorted_out I ?source t f) \<and> (\<exists>xs. tr_todo t = [] @ xs \<and> subseq (map fst xs) (li_files l))"
    using fold_triage [OF assms(6), where source = ?source and ?d0.0 = d, OF _ t_def [unfolded triage_files_def]] by simp
  then have sub: "subseq (map fst (tr_todo t)) (li_files l)" by auto
  then have "subseq (map (ff_path \<circ> fst) (tr_todo t)) (map ff_path (li_files l))"
    using subseq_map [OF sub, of ff_path] by (simp add: comp_def)
  then have dist: "distinct (map (ff_path \<circ> fst) (tr_todo t))" using assms(6) by (rule distinct_subseq)
  note rows = read_todo_rows [OF ran dist, unfolded scan.simps]
  have known: "known_file d' = known_file (sn_db sn)" using known_file_cong [OF assms(8)] .
  have each: "file_settled d' ?source f \<or> ie_sha256 J (ff_full f) = None" if f: "f \<in> set (li_files l)" for f
  proof (cases "ff_path f \<in> (ff_path \<circ> fst) ` set (tr_todo t)")
    case True
    then obtain x where x: "x \<in> set (tr_todo t)" "ff_path (fst x) = ff_path f" by auto
    have "fst x \<in> set (li_files l)" using list_emb_set [OF sub, of "fst x"] x(1) by auto
    then have "fst x = f" using x(2) f assms(6) by (metis distinct_map inj_onD)
    then show ?thesis using rows(1) x(1) known by (auto simp: file_settled_def)
  next
    case False
    then have "known_file d' ?source (ff_path f) = known_file (tr_db t) ?source (ff_path f)" using rows(2) known by simp
    moreover have "sorted_out I ?source t f" using t f by blast
    moreover have "f \<notin> fst ` set (tr_todo t)" using False by force
    ultimately show ?thesis using assms(4,7) by (auto simp: sorted_out_def file_settled_def t_def)
  qed
  note again = triage_settled [where d = d' and source = ?source and I = J and fs = "li_files l" and cap = ?cap]
  obtain w' where "ie_cache J = Some w'" using assms(5) by auto
  then show ?thesis using again each assms(3,9) by (simp add: scan_folder_def scan_outcome_def new_outcome_def Let_def)
qed

lemma scan_folder_cases:
  assumes "scan_folder I c plan fid d = (sn, r)"
  obtains "sn_writes sn = []" "sn_db sn = d"
  | l :: listing and w t h where "ie_cache I = Some w" "t = triage_files I (jp_source_id plan) (cc_max_files_per_scan (cd_settings c)) d (li_files l)"
      "read_todo I w (cd_settings c) plan fid 0 (tr_todo t) \<lparr>sn_db = tr_db t, sn_writes = [], sn_results = [], sn_rows = 0\<rparr> = (sn, h)"
      "h \<noteq> None \<longrightarrow> r = Inl (the h)"
proof (cases "connector_listing (ie_volume I) c (datetime_to_ns (ie_now_list I))")
  case (Inl msg)
  then show ?thesis using assms that(1) by (auto simp: scan_folder_def)
next
  case listed: (Inr l)
  show ?thesis
  proof (cases "ie_cache I")
    case None
    then show ?thesis using listed assms that(1) by (auto simp: scan_folder_def)
  next
    case (Some w)
    let ?t = "triage_files I (jp_source_id plan) (cc_max_files_per_scan (cd_settings c)) d (li_files l)"
    obtain sn1 h where ran: "read_todo I w (cd_settings c) plan fid 0 (tr_todo ?t)
        \<lparr>sn_db = tr_db ?t, sn_writes = [], sn_results = [], sn_rows = 0\<rparr> = (sn1, h)" by fastforce
    then have "sn1 = sn" "h \<noteq> None \<longrightarrow> r = Inl (the h)"
      using assms listed Some by (auto simp: scan_folder_def Let_def split: option.splits)
    then show ?thesis using that(2) [OF Some refl, of l h] ran by simp
  qed
qed

lemma cached_prepare: "prepare E d fid calls = Prepared d1 plan \<Longrightarrow> cached d1 = cached d"
  by (auto simp: prepare_def Let_def split: option.splits if_splits sum.splits credentials_failure.splits)

text \<open>C36: A scan covers exactly what it wrote: no coverage is lost, an instant that becomes covered lies within rows
  that the cache accepted from a file of this scan, and every such row span is covered unless the scan failed; each of
  those rows was accepted for a series by the cache.\<close>

theorem scan_covers_what_it_wrote:
  assumes "execute_ingest I d fid = ScanEnded d' out sn"
  shows "(cached d i t \<longrightarrow> cached d' i t) \<and> (cached d' i t \<longrightarrow> cached d i t \<or> (\<exists>x \<in> set (sn_writes sn). write_covers i t x)) \<and>
    (fo_status out \<noteq> FetchFailed \<longrightarrow> (\<exists>x \<in> set (sn_writes sn). write_covers i t x) \<longrightarrow> cached d' i t) \<and>
    (\<forall>(j, rows, cw) \<in> set (sn_writes sn). \<exists>w source. ie_cache I = Some w \<and> w source j rows = Inr cw)"
proof -
  have fin: "cached (finish E x fid o') = cached x" for E x o'
    by (auto simp: finish_def Let_def split: option.split)
  show ?thesis
  proof (cases "prepare (ie_env I) d fid False")
    case (Prepared d1 plan)
    have d1: "cached d1 = cached d" using cached_prepare [OF Prepared] .
    show ?thesis
    proof (cases "ie_csv I (jp_connector plan)")
      case None
      then show ?thesis using assms Prepared d1 by (auto simp: execute_ingest_def Let_def fin)
    next
      case (Some c)
      obtain sn' r where r: "scan_folder I c plan fid d1 = (sn', r)" by fastforce
      have sn: "sn = sn'" "cached d' = cached (sn_db sn')" "close_scan (sn', r) = Some out"
        using assms Prepared Some r by (auto simp: execute_ingest_def Let_def fin split: option.splits)
      have idle: ?thesis if "sn_writes sn' = []" "sn_db sn' = d1" using that sn d1 by simp
      consider "sn_writes sn' = []" "sn_db sn' = d1"
        | l :: listing and w t h where "ie_cache I = Some w" "t = triage_files I (jp_source_id plan) (cc_max_files_per_scan (cd_settings c)) d1 (li_files l)"
            "read_todo I w (cd_settings c) plan fid 0 (tr_todo t) \<lparr>sn_db = tr_db t, sn_writes = [], sn_results = [], sn_rows = 0\<rparr> = (sn', h)"
            "h \<noteq> None \<longrightarrow> r = Inl (the h)"
        using r by (rule scan_folder_cases)
      then show ?thesis
      proof cases
        case 2
        have base: "cached (tr_db t) = cached d" using cached_triage d1 by (simp add: 2(2))
        from read_todo_cached [OF 2(3), unfolded scan.simps append.simps base]
        have got: "\<forall>(i, rows, cw) \<in> set (sn_writes sn'). w (jp_source_id plan) i rows = Inr cw"
          "cached d i t \<longrightarrow> cached (sn_db sn') i t"
          "cached (sn_db sn') i t \<longrightarrow> cached d i t \<or> (\<exists>x \<in> set (sn_writes sn'). write_covers i t x)"
          "h = None \<longrightarrow> (\<exists>x \<in> set (sn_writes sn'). write_covers i t x) \<longrightarrow> cached (sn_db sn') i t" for i t
          by auto
        have "h = None" if "fo_status out \<noteq> FetchFailed"
          using that sn(3) 2(4) by (cases h) (auto simp: close_scan_def new_outcome_def split: halt.splits stop.splits)
        then show ?thesis using got sn(1,2) 2(1) by fastforce
      qed (rule idle)
    qed
  qed (use assms in \<open>auto simp: execute_ingest_def Let_def fin\<close>)
qed

section \<open>A scan of one file\<close>

definition sample_write :: cache_write where
  "sample_write = \<lparr>cw_rows = 2, cw_files = 1, cw_start_ns = 1600000000000000000, cw_end_ns = 1700000000000000001\<rparr>"

definition sample_ingest :: ingest_env where
  "sample_ingest = \<lparr>ie_env = ex_env, ie_csv = (\<lambda>c. Some sample_csv_connector), ie_volume = sample_volume, ie_sha256 = (\<lambda>p. Some ''digest''),
     ie_arrow = sample_arrow, ie_cache = Some (\<lambda>source i rows. Inr sample_write), ie_series_id = (\<lambda>k j. 100 + k + j), ie_file_id = (\<lambda>k. 200 + k),
     ie_now_list = 1000000000, ie_now_file = (\<lambda>k. 1000000001), ie_now_row = (\<lambda>k. 1000000002)\<rparr>"

definition sample_plan :: job_plan where
  "sample_plan = \<lparr>jp_source_id = 5, jp_org_id = 1, jp_connector = ex_connector, jp_calls = [], jp_settle_ns = 0, jp_trigger = FIngest,
     jp_params = None, jp_series_ids = None, jp_workspace_id = 2\<rparr>"

lemma sample_ingest_listed: "connector_listing (ie_volume sample_ingest) sample_csv_connector (datetime_to_ns (ie_now_list sample_ingest)) = Inr sample_listing"
  using sample_listed by (simp add: sample_ingest_def datetime_to_ns_def)

lemma sample_files: "li_files sample_listing = [sample_found]"
  by (simp add: sample_listing_def)

lemma sample_triage:
  assumes "source_files d = []"
  shows "triage_files sample_ingest source 100 d [sample_found] = \<lparr>tr_db = d, tr_unchanged = 0, tr_more = False, tr_todo = [(sample_found, ''digest'')]\<rparr>"
  by (simp add: triage_files_def triage_file_def known_file_def assms sample_ingest_def)

lemma sample_file_ingested:
  assumes "all_series d = [ex_series]" "jp_source_id plan = 5"
  shows "\<exists>sn. ingest_file sample_ingest (\<lambda>source i rows. Inr sample_write) sample_csv_config plan fid k sample_found ''digest''
      \<lparr>sn_db = d, sn_writes = [], sn_results = [], sn_rows = 0\<rparr> = (sn, None) \<and>
    sn_writes sn = [(7, [(1600000000000000000, Some 2, None), (1700000000000000000, Some 1, None)], sample_write)]"
proof -
  have read: "read_file (ie_arrow sample_ingest) (ff_full sample_found) sample_csv_config = Inr sample_rows"
    using sample_file_read by (simp add: sample_ingest_def sample_found_def)
  have series: "map fst (fr_series sample_rows) = [''a'']"
    "fr_series sample_rows = [(''a'', [(1600000000000000000, Some 2, None), (1700000000000000000, Some 1, None)])]" by (simp_all add: sample_rows_def)
  have "ser_source_id ex_series = 5" "ser_external_id ex_series = ''a''" "ser_id ex_series = 7" by (simp_all add: ex_series_def)
  then show ?thesis
    by (simp add: ingest_file_def read Let_def series assms series_named_def)
qed

lemma sample_scanned:
  assumes "all_series d = [ex_series]" "source_files d = []" "jp_source_id plan = 5"
  shows "\<exists>sn out. scan_folder sample_ingest sample_csv_connector plan fid d = (sn, Inr out) \<and> fo_status out \<noteq> FetchFailed \<and>
    sn_writes sn = [(7, [(1600000000000000000, Some 2, None), (1700000000000000000, Some 1, None)], sample_write)]"
proof -
  have cfg: "cd_settings sample_csv_connector = sample_csv_config" "cc_max_files_per_scan sample_csv_config = 100"
    "ie_cache sample_ingest = Some (\<lambda>source i rows. Inr sample_write)"
    by (simp_all add: sample_csv_connector_def sample_csv_config_def sample_ingest_def)
  have "fo_status (scan_outcome sn result) \<noteq> FetchFailed" for sn result
    by (simp add: scan_outcome_def new_outcome_def split: list.split)
  then show ?thesis
    using sample_file_ingested [OF assms(1,3), of fid 0]
    by (auto simp: scan_folder_def sample_ingest_listed sample_files cfg sample_triage [OF assms(2)])
qed

theorem rescan_reads_nothing_witness:
  "\<exists>sn out out'. scan_folder sample_ingest sample_csv_connector sample_plan 9 ex_db = (sn, Inr out) \<and> length (sn_writes sn) = 1 \<and>
    scan_folder sample_ingest sample_csv_connector sample_plan 10 (sn_db sn) =
      (\<lparr>sn_db = sn_db sn, sn_writes = [], sn_results = [], sn_rows = 0\<rparr>, Inr out')"
proof -
  have d: "all_series ex_db = [ex_series]" "source_files ex_db = []" "jp_source_id sample_plan = 5"
    by (simp_all add: ex_db_def empty_db_def sample_plan_def)
  obtain sn out where sn: "scan_folder sample_ingest sample_csv_connector sample_plan 9 ex_db = (sn, Inr out)" "length (sn_writes sn) = 1"
    using sample_scanned [OF d, of 9] by auto
  have cap: "cc_max_files_per_scan (cd_settings sample_csv_connector) = 100" by (simp add: sample_csv_connector_def sample_csv_config_def)
  have "ie_cache sample_ingest \<noteq> None" "distinct (map ff_path (li_files sample_listing))" by (simp_all add: sample_ingest_def sample_files)
  moreover have
    "\<not> tr_more (triage_files sample_ingest (jp_source_id sample_plan) (cc_max_files_per_scan (cd_settings sample_csv_connector)) ex_db (li_files sample_listing))"
    by (simp add: cap sample_files sample_triage [OF d(2)])
  ultimately show ?thesis
    using rescan_reads_nothing [OF sn(1) sample_ingest_listed sample_ingest_listed refl _ _ _ refl refl, of 10] sn by blast
qed

lemma sample_prepared: "case prepare ex_env ex_db 9 False of
    Prepared d1 plan \<Rightarrow> all_series d1 = [ex_series] \<and> source_files d1 = [] \<and> jp_source_id plan = 5 | _ \<Rightarrow> False"
  by code_simp

theorem scan_covers_what_it_wrote_witness:
  "\<exists>d' out sn. execute_ingest sample_ingest ex_db 9 = ScanEnded d' out sn \<and> cached d' 7 1650000000000000000"
proof -
  obtain d1 plan where p: "prepare ex_env ex_db 9 False = Prepared d1 plan" "all_series d1 = [ex_series]" "source_files d1 = []" "jp_source_id plan = 5"
    using sample_prepared by (auto split: prepared.splits)
  obtain sn out where sn: "scan_folder sample_ingest sample_csv_connector plan 9 d1 = (sn, Inr out)" "fo_status out \<noteq> FetchFailed"
    "sn_writes sn = [(7, [(1600000000000000000, Some 2, None), (1700000000000000000, Some 1, None)], sample_write)]"
    using sample_scanned [OF p(2-4), of 9] by auto
  have env: "ie_env sample_ingest = ex_env" "ie_csv sample_ingest = (\<lambda>c. Some sample_csv_connector)" by (simp_all add: sample_ingest_def)
  have ended: "execute_ingest sample_ingest ex_db 9 = ScanEnded (finish ex_env (sn_db sn) 9 out) out sn"
    using p(1) sn(1) env by (simp add: execute_ingest_def close_scan_def Let_def)
  have "\<exists>x \<in> set (sn_writes sn). write_covers 7 1650000000000000000 x"
    using floor_us_le [of 1600000000000000000] ceil_us_ge [of 1700000000000000001] by (simp add: sn(3) write_covers_def sample_write_def)
  then show ?thesis using scan_covers_what_it_wrote [OF ended, of 7 1650000000000000000] ended sn(2) by blast
qed

end
