(* ===== verification/Series_Steps.thy ===== *)
theory Series_Steps
  imports Metadata_Import Sources Ingest Csv_Reader_Facts
begin

text \<open>
  Every operation that writes a row of the table of series, and what the rows satisfy whatever sequence of them runs:
  a patch (\<^verbatim>\<open>services/series.py\<close>), an upload of a run (the same file), an import of metadata
  (\<^verbatim>\<open>services/source_metadata.py\<close>), the registration of points (\<^verbatim>\<open>services/sources.py\<close>) and the
  scan of a file-drop source (\<^verbatim>\<open>services/ingest.py\<close>).
\<close>

section \<open>Typed rows\<close>

text \<open>The bounds of a row, over its columns.  The longest unit and external id are those of a registered point.\<close>

definition typed_row :: "(rat \<Rightarrow> string) \<Rightarrow> series \<Rightarrow> bool" where
  "typed_row ft s \<longleftrightarrow>
     1 \<le> length (ser_external_id s) \<and> length (ser_external_id s) \<le> 500 \<and>
     1 \<le> length (ser_name s) \<and> length (ser_name s) \<le> 256 \<and>
     (\<forall>u. ser_unit s = Some u \<longrightarrow> length u \<le> 50) \<and>
     (\<forall>p. ser_asset_path s = Some p \<longrightarrow> length p \<le> 512) \<and>
     (\<forall>n. ser_expected_interval_ns s = Some n \<longrightarrow> 0 < n) \<and>
     (\<forall>r. ser_resolution s = Some r \<longrightarrow> 0 < r) \<and>
     (\<forall>a b. ser_physical_min s = Some a \<and> ser_physical_max s = Some b \<longrightarrow> a < b) \<and>
     (\<forall>a b. ser_operational_min s = Some a \<and> ser_operational_max s = Some b \<longrightarrow> a < b) \<and>
     (\<forall>a b. ser_physical_min s = Some a \<and> ser_operational_min s = Some b \<longrightarrow> a \<le> b) \<and>
     (\<forall>a b. ser_operational_max s = Some a \<and> ser_physical_max s = Some b \<longrightarrow> a \<le> b) \<and>
     (\<forall>a b. ser_operational_min s = Some a \<and> ser_physical_max s = Some b \<longrightarrow> a \<le> b) \<and>
     (\<forall>a b. ser_physical_min s = Some a \<and> ser_operational_max s = Some b \<longrightarrow> a \<le> b) \<and>
     json_size ft quote_ascii (JObj (ser_metadata s)) \<le> 8192"

lemma column_values:
  "column s ''name'' = VText (ser_name s)" "column s ''unit'' = opt_value VText (ser_unit s)" "column s ''kind'' = VKind (ser_kind s)"
  "column s ''expected_interval_ns'' = opt_value VInt (ser_expected_interval_ns s)"
  "column s ''physical_min'' = opt_value VNum (ser_physical_min s)" "column s ''physical_max'' = opt_value VNum (ser_physical_max s)"
  "column s ''operational_min'' = opt_value VNum (ser_operational_min s)" "column s ''operational_max'' = opt_value VNum (ser_operational_max s)"
  "column s ''resolution'' = opt_value VNum (ser_resolution s)" "column s ''non_negative'' = opt_value VBool (ser_non_negative s)"
  "column s ''asset_path'' = opt_value VText (ser_asset_path s)" "column s ''metadata'' = VJson (JObj (ser_metadata s))"
  by (simp_all add: column_def values_of_def)

lemma as_num_opt: "as_num (opt_value VNum x) = x"
  by (cases x) simp_all

lemma both_option: "\<not> both P x y \<longleftrightarrow> (\<forall>a b. x = Some a \<and> y = Some b \<longrightarrow> \<not> P a b)"
  by (auto simp: both_def split: option.split)

lemma bands_row:
  "bands_ok (column s) \<longleftrightarrow>
     (\<forall>a b. ser_physical_min s = Some a \<and> ser_physical_max s = Some b \<longrightarrow> a < b) \<and>
     (\<forall>a b. ser_operational_min s = Some a \<and> ser_operational_max s = Some b \<longrightarrow> a < b) \<and>
     (\<forall>a b. ser_physical_min s = Some a \<and> ser_operational_min s = Some b \<longrightarrow> a \<le> b) \<and>
     (\<forall>a b. ser_operational_max s = Some a \<and> ser_physical_max s = Some b \<longrightarrow> a \<le> b) \<and>
     (\<forall>a b. ser_operational_min s = Some a \<and> ser_physical_max s = Some b \<longrightarrow> a \<le> b) \<and>
     (\<forall>a b. ser_physical_min s = Some a \<and> ser_operational_max s = Some b \<longrightarrow> a \<le> b)"
  unfolding bands_ok_def validate_limits_def Let_def column_values as_num_opt
  by (simp add: result_simps both_option not_le not_less) blast

lemma stored_row:
  "(\<forall>f \<in> set EDITABLE_FIELDS. stored_valid f (column s f) \<and> \<not> (f \<in> set NOT_NULLABLE \<and> column s f = VNull)) \<longleftrightarrow>
     1 \<le> length (ser_name s) \<and> length (ser_name s) \<le> 256 \<and>
     (\<forall>u. ser_unit s = Some u \<longrightarrow> length u \<le> 50) \<and>
     (\<forall>n. ser_expected_interval_ns s = Some n \<longrightarrow> 0 < n) \<and>
     (\<forall>r. ser_resolution s = Some r \<longrightarrow> 0 < r) \<and>
     (\<forall>p. ser_asset_path s = Some p \<longrightarrow> length p \<le> 512)"
proof -
  have opt: "(case opt_value VNum x of VNum r \<Rightarrow> P r | VNull \<Rightarrow> True | _ \<Rightarrow> False) \<longleftrightarrow> (\<forall>r. x = Some r \<longrightarrow> P r)"
    "(case opt_value VInt y of VInt r \<Rightarrow> Q r | VNull \<Rightarrow> True | _ \<Rightarrow> False) \<longleftrightarrow> (\<forall>r. y = Some r \<longrightarrow> Q r)"
    "(case opt_value VText z of VText r \<Rightarrow> R r | VNull \<Rightarrow> True | _ \<Rightarrow> False) \<longleftrightarrow> (\<forall>r. z = Some r \<longrightarrow> R r)"
    "(case opt_value VBool w of VBool r \<Rightarrow> True | VNull \<Rightarrow> True | _ \<Rightarrow> False)" for x P y Q z R w
    by (cases x; cases y; cases z; cases w; simp)+
  show ?thesis
    by (simp add: EDITABLE_FIELDS_def NOT_NULLABLE_def stored_valid_def field_valid_def column_values opt)
qed

lemma series_ok_row: "series_ok ft s \<longleftrightarrow> typed_row ft s"
proof -
  have "size_ok ft (column s ''metadata'') \<longleftrightarrow> json_size ft quote_ascii (JObj (ser_metadata s)) \<le> 8192"
    by (simp add: size_ok_def column_values MAX_METADATA_BYTES_def)
  then show ?thesis unfolding series_ok_def columns_ok_def bands_row stored_row typed_row_def by blast
qed

section \<open>Registered points\<close>

lemma point_series_ok:
  assumes "point_in_valid p"
  shows "series_ok ft (point_series sc i j p now)"
  using assms
  by (auto simp: series_ok_row typed_row_def point_series_def blank_series_def point_in_valid_def json_size_def)

lemma register_points_ok:
  assumes "register_points sc i now items t = (t', n)" and "\<forall>(p, j) \<in> set items. point_in_valid p" and "\<forall>s \<in> set t. series_ok ft s"
  shows "\<forall>s \<in> set t'. series_ok ft s"
  using assms
proof (induction sc i now items t arbitrary: t' n rule: register_points.induct)
  case (2 sc i now p j ps t)
  show ?case
  proof (cases "\<exists>s \<in> set t. ser_source_id s = i \<and> ser_external_id s = pi_external_id p")
    case True
    with 2 show ?thesis by simp
  next
    case False
    obtain t1 m where r: "register_points sc i now ps (t @ [point_series sc i j p now]) = (t1, m)" by fastforce
    have point: "point_in_valid p" and rest: "\<forall>(p, j) \<in> set ps. point_in_valid p" using "2.prems"(2) by auto
    have "\<forall>s \<in> set (t @ [point_series sc i j p now]). series_ok ft s" using "2.prems"(3) point_series_ok [OF point] by simp
    with "2.IH"(2) [OF False r rest] have "\<forall>s \<in> set t1. series_ok ft s" by blast
    then show ?thesis using "2.prems"(1) r False by auto
  qed
qed simp

lemma register_typed:
  assumes "register_series d sc a i items ev now = Inr (d', n, m)" and "\<forall>(p, j) \<in> set items. point_in_valid p"
    and "\<forall>s \<in> set (all_series d). series_ok ft s"
  shows "\<forall>s \<in> set (all_series d'). series_ok ft s"
proof -
  obtain t where "register_points sc i now items (all_series d) = (t, n)" "all_series d' = t"
    using assms(1) by (auto simp: register_series_def result_simps Let_def audit_record_def split: prod.splits)
  then show ?thesis using register_points_ok assms(2,3) by blast
qed

text \<open>A registered unit may be longer than the 32 characters the core takes: the series can then not be checked.\<close>

lemma long_unit_is_refused:
  assumes "pi_unit p = Some u" and "32 < length u"
  shows "meta_for_core x (merged (values_of (point_series sc i j p now)) []) = Inl ''ValidationError''"
  using assms by (simp add: meta_for_core_def Let_def series_meta_valid_def merged_def values_of_def point_series_def)

section \<open>Scanned files\<close>

lemma wide_names:
  "wide_columns A t ts names out = Inr series \<Longrightarrow> \<forall>i \<in> fst ` set out. 1 \<le> length i \<and> length i \<le> 256 \<Longrightarrow>
   \<forall>i \<in> fst ` set series. 1 \<le> length i \<and> length i \<le> 256"
proof (induction A t ts names out rule: wide_columns.induct)
  case (2 A t ts name names out)
  obtain vs where r: "strip name \<noteq> []" "length (strip name) \<le> 256"
      "wide_columns A t ts names (out @ [(strip name, wide_rows ts vs)]) = Inr series"
    using "2.prems"(1) by (auto simp: Let_def result_simps checked_series_id_def MAX_SERIES_ID_def split: if_splits)
  show ?case
    by (rule "2.IH") (use "2.prems" r in \<open>auto simp: Let_def result_simps checked_series_id_def MAX_SERIES_ID_def Suc_le_eq split: if_splits\<close>)
qed simp

lemma long_names:
  assumes "read_file A p cfg = Inr fr" "cc_layout cfg = Long" "i \<in> fst ` set (fr_series fr)"
  shows "1 \<le> length i \<and> length i \<le> 256"
  using assms(1,2)
proof (rule read_file_table)
  fix t ts assume t: "read_timestamps A t cfg = Inr ts" "read_long A t ts cfg = Inr (fr_series fr)"
  obtain samples where long: "long_samples A t ts cfg = Inr samples"
    using t(2) by (auto simp: read_long_def result_simps)
  have "[] \<notin> fst ` set samples"
    using long_samples_table [OF t(1) long] unfolding table_samples_def by (auto dest: set_zip_leftD)
  moreover have "i \<in> fst ` set samples" using assms(3) unfolding read_long_rows(1) [OF t(2) long] by force
  ultimately have "i \<noteq> []" by blast
  moreover have "length i \<le> 256" using read_long_rows(2) [OF t(2) long] assms(3) unfolding MAX_SERIES_ID_def by blast
  ultimately show ?thesis by (simp add: Suc_le_eq)
qed

lemma read_names:
  assumes "read_file A p cfg = Inr fr"
  shows "\<forall>i \<in> set (map fst (fr_series fr)). 1 \<le> length i \<and> length i \<le> 256"
proof (cases "cc_layout cfg")
  case Long
  then show ?thesis using long_names [OF assms] by auto
next
  case Wide
  then obtain t ts where "read_wide A t ts cfg = Inr (fr_series fr)"
    using assms by (auto simp: read_file_def result_simps)
  then obtain columns where "wide_columns A t ts columns [] = Inr (fr_series fr)"
    by (auto simp: read_wide_def Let_def result_simps)
  from wide_names [OF this] show ?thesis by simp
qed

lemma create_series_ok:
  "create_series sc source now new j exts t = (t', n) \<Longrightarrow> \<forall>x \<in> set exts. 1 \<le> length x \<and> length x \<le> 256 \<Longrightarrow>
   \<forall>s \<in> set t. series_ok ft s \<Longrightarrow> \<forall>s \<in> set t'. series_ok ft s"
proof (induction sc source now new j exts t arbitrary: t' n rule: create_series.induct)
  case (2 sc source now new j ext exts t)
  show ?case
  proof (cases "\<exists>s \<in> set t. ser_source_id s = source \<and> ser_external_id s = ext")
    case True
    with 2 show ?thesis by simp
  next
    case False
    let ?t = "t @ [blank_series sc (new j) source ext now]"
    obtain t1 m where r: "create_series sc source now new (Suc j) exts ?t = (t1, m)" by fastforce
    have "\<forall>s \<in> set ?t. series_ok ft s" using "2.prems"(2,3) blank_series_ok by auto
    then have "\<forall>s \<in> set t1. series_ok ft s" using "2.IH"(2) [OF False r] "2.prems"(2) by simp
    then show ?thesis using "2.prems"(1) r False by auto
  qed
qed simp

lemma series_frames [simp]:
  "all_series (count_file i n d) = all_series d" "all_series (upsert_file r d) = all_series d" "all_series (touch_file i f d) = all_series d"
  by (simp_all add: count_file_def set_fetch_def upsert_file_def touch_file_def)

lemma series_record_writes [simp]: "all_series (record_writes org now ws d) = all_series d"
  by (induction org now ws d rule: record_writes.induct) (simp_all add: coverage_record_def)

lemma series_triage: "all_series (tr_db (triage_files I source cap d fs)) = all_series d"
proof -
  have "all_series (tr_db (fold (triage_file I source cap d) fs t)) = all_series (tr_db t)" for t
    by (induction fs arbitrary: t) (auto simp: triage_file_def Let_def split: option.split)
  then show ?thesis by (simp add: triage_files_def)
qed

lemma series_finish: "all_series (finish E d i out) = all_series d"
  by (simp add: finish_def Let_def set_fetch_def set_source_def split: option.split)

lemma series_prepare: "prepare E d i b = Prepared d1 plan \<Longrightarrow> all_series d1 = all_series d"
  by (auto simp: prepare_def Let_def set_fetch_def split: option.splits if_splits sum.splits credentials_failure.splits)

lemma ingest_file_typed:
  assumes "ingest_file I w cfg plan fid k f digest sn = (sn', h)" and "\<forall>s \<in> set (all_series (sn_db sn)). series_ok ft s"
  shows "\<forall>s \<in> set (all_series (sn_db sn')). series_ok ft s"
proof (cases "read_file (ie_arrow I) (ff_full f) cfg")
  case (Inl e)
  then show ?thesis using assms by (cases e) (auto simp: ingest_file_def record_failure_def)
next
  case (Inr rows)
  obtain t created where made: "create_series \<lparr>sc_org = jp_org_id plan, sc_workspace = jp_workspace_id plan\<rparr> (jp_source_id plan)
      (ie_now_file I k) (ie_series_id I k) 0 (map fst (fr_series rows)) (all_series (sn_db sn)) = (t, created)" by fastforce
  obtain ws h' where ws: "write_file w (jp_source_id plan) t (fr_series rows) [] = (ws, h')" by fastforce
  have "all_series (sn_db sn') = t" using assms(1) Inr made ws by (cases h') (auto simp: ingest_file_def Let_def)
  then show ?thesis using create_series_ok [OF made read_names [OF Inr] assms(2)] by simp
qed

lemma read_todo_typed:
  "read_todo I w cfg plan fid k todo sn = (sn', h) \<Longrightarrow> \<forall>s \<in> set (all_series (sn_db sn)). series_ok ft s \<Longrightarrow>
   \<forall>s \<in> set (all_series (sn_db sn')). series_ok ft s"
proof (induction I w cfg plan fid k todo sn arbitrary: sn' h rule: read_todo.induct)
  case (2 I w cfg plan fid k f digest todo sn)
  obtain sn1 h1 where one: "ingest_file I w cfg plan fid k f digest sn = (sn1, h1)" by fastforce
  note ok = ingest_file_typed [OF one "2.prems"(2)]
  show ?case
  proof (cases h1)
    case None
    with "2.prems"(1) one have "read_todo I w cfg plan fid (Suc k) todo sn1 = (sn', h)" by simp
    from "2.IH" [OF one [symmetric] None this ok] show ?thesis .
  next
    case (Some x)
    with "2.prems"(1) one ok show ?thesis by simp
  qed
qed simp

lemma scan_folder_typed:
  assumes "scan_folder I c plan fid d = (sn, r)" and "\<forall>s \<in> set (all_series d). series_ok ft s"
  shows "\<forall>s \<in> set (all_series (sn_db sn)). series_ok ft s"
proof (cases "connector_listing (ie_volume I) c (datetime_to_ns (ie_now_list I))")
  case (Inl msg)
  with assms show ?thesis by (auto simp: scan_folder_def)
next
  case (Inr l)
  show ?thesis
  proof (cases "ie_cache I")
    case None
    with Inr assms show ?thesis by (auto simp: scan_folder_def)
  next
    case (Some w)
    let ?t = "triage_files I (jp_source_id plan) (cc_max_files_per_scan (cd_settings c)) d (li_files l)"
    let ?sn = "\<lparr>sn_db = tr_db ?t, sn_writes = [], sn_results = [], sn_rows = 0\<rparr>"
    obtain sn1 h where r: "read_todo I w (cd_settings c) plan fid 0 (tr_todo ?t) ?sn = (sn1, h)" by fastforce
    have "sn = sn1" using assms(1) Inr Some r by (cases h) (auto simp: scan_folder_def Let_def)
    moreover have "\<forall>s \<in> set (all_series (sn_db ?sn)). series_ok ft s" using assms(2) by (simp add: series_triage)
    ultimately show ?thesis using read_todo_typed [OF r] by simp
  qed
qed

lemma execute_ingest_typed:
  assumes "execute_ingest I d fid = ScanEnded d' out sn \<or> execute_ingest I d fid = ScanRaised d'"
    and "\<forall>s \<in> set (all_series d). series_ok ft s"
  shows "\<forall>s \<in> set (all_series d'). series_ok ft s"
proof (cases "prepare (ie_env I) d fid False")
  case (Prepared d1 plan)
  note d1 = series_prepare [OF Prepared]
  show ?thesis
  proof (cases "ie_csv I (jp_connector plan)")
    case None
    with assms d1 Prepared show ?thesis by (auto simp: execute_ingest_def Let_def series_finish)
  next
    case (Some c)
    obtain sn1 r where scan: "scan_folder I c plan fid d1 = (sn1, r)" by fastforce
    have ok: "\<forall>s \<in> set (all_series (sn_db sn1)). series_ok ft s"
      by (rule scan_folder_typed [OF scan]) (simp add: d1 assms(2))
    show ?thesis
      using assms(1) ok Prepared Some scan by (cases "close_scan (sn1, r)") (auto simp: execute_ingest_def Let_def series_finish)
  qed
qed (use assms in \<open>auto simp: execute_ingest_def Let_def series_finish\<close>)

section \<open>Steps\<close>

text \<open>
  The writers of the table: the request models bound what a patch, an upload and a registration pass on; an import and a
  scan take whatever the connector, Arrow and the file system answer.
\<close>

inductive series_step :: "(rat \<Rightarrow> string) \<Rightarrow> (datetime \<Rightarrow> string) \<Rightarrow> db \<Rightarrow> db \<Rightarrow> bool" for ft isotext where
  series_step_patch: "patch_series d ft sc i changes now = Inr (Some (d', s)) \<Longrightarrow> patch_body changes \<Longrightarrow> series_step ft isotext d d'"
| series_step_upload: "upsert_upload_series d sc x (upload_overrides unit lo hi) n m now = Inr (d', s) \<Longrightarrow>
    meta_for_core x (merged (stored_values stored) (upload_overrides unit lo hi)) = Inr meta \<Longrightarrow> series_step ft isotext d d'"
| series_step_import: "describe_job ft isotext T d plan fetch_id audit_id now = Answered (d', out) \<Longrightarrow> series_step ft isotext d d'"
| series_step_register: "register_series d sc a i items ev now = Inr (d', created, existing) \<Longrightarrow>
    \<forall>(p, j) \<in> set items. point_in_valid p \<Longrightarrow> series_step ft isotext d d'"
| series_step_scan: "execute_ingest I d fetch_id = ScanEnded d' out sn \<or> execute_ingest I d fetch_id = ScanRaised d' \<Longrightarrow>
    series_step ft isotext d d'"

lemma series_step_ok:
  "series_step ft isotext d d' \<Longrightarrow> \<forall>s \<in> set (all_series d). series_ok ft s \<Longrightarrow> \<forall>s \<in> set (all_series d'). series_ok ft s"
proof (induction rule: series_step.induct)
  case (series_step_patch d sc i changes now d' s)
  then show ?case by (rule patch_series_ok)
next
  case (series_step_upload d sc x unit lo hi n m now d' s stored meta)
  show ?case
    by (rule upsert_upload_ok [OF series_step_upload(1) meta_for_core_bounds [OF series_step_upload(2)] series_step_upload(3)])
next
  case (series_step_import T d plan fetch_id audit_id now d' out)
  then show ?case by (rule describe_job_ok)
next
  case (series_step_register d sc a i items ev now d' created existing)
  then show ?case by (rule register_typed)
next
  case (series_step_scan I d fetch_id d' out sn)
  then show ?case by (rule execute_ingest_typed)
qed

section \<open>Properties of the table\<close>

text \<open>C26: whatever patches, uploads, metadata imports, registrations and scans run, every row of the table of series keeps
  within its bounds: its external id, name, unit and asset path are not longer than allowed and the first two not empty, its
  interval and resolution are positive, its physical and operational limits are consistent with each other, and its metadata
  takes at most 8 KiB.\<close>

theorem series_stay_typed:
  assumes "(series_step ft isotext)\<^sup>*\<^sup>* d d'" and "\<forall>s \<in> set (all_series d). typed_row ft s"
  shows "\<forall>s \<in> set (all_series d'). typed_row ft s"
  using assms unfolding series_ok_row [symmetric]
  by (induction rule: rtranclp_induct) (auto dest: series_step_ok)

theorem series_stay_typed_witness:
  "\<exists>d'. (series_step (\<lambda>_. ''0'') (\<lambda>_. ''1970-01-01''))\<^sup>*\<^sup>* empty_db d' \<and> length (all_series d') = 1 \<and>
     (\<exists>s. all_series d' = [s] \<and> typed_row (\<lambda>_. ''0'') s)"
proof -
  let ?sc = "\<lparr>sc_org = 1, sc_workspace = 2\<rparr>" and ?ov = "upload_overrides (Some ''bar'') None (Some 10)"
  have ov: "?ov = [(''unit'', VText ''bar''), (''physical_max'', VNum 10)]" by (simp add: upload_overrides_def)
  obtain meta where meta: "meta_for_core ''flow'' (merged (stored_values None) ?ov) = Inr meta"
    by (simp add: meta_for_core_def ov merged_def stored_values_def series_meta_valid_def Let_def)
  have "\<exists>d' s. upsert_upload_series empty_db ?sc ''flow'' ?ov 5 7 0 = Inr (d', s) \<and> length (all_series d') = 1"
    by (simp add: upsert_upload_series_def Let_def insert_missing_def empty_db_def uploads_source_id_def uploads_source_def
        blank_series_def validate_limits_def ov merged_def values_of_def both_def set_series_def)
  then obtain d' s where r: "upsert_upload_series empty_db ?sc ''flow'' ?ov 5 7 0 = Inr (d', s)" "length (all_series d') = 1" by blast
  have s: "(series_step (\<lambda>_. ''0'') (\<lambda>_. ''1970-01-01''))\<^sup>*\<^sup>* empty_db d'" using series_step_upload [OF r(1) meta] by blast
  have "\<forall>s \<in> set (all_series empty_db). typed_row (\<lambda>_. ''0'') s" by (simp add: empty_db_def)
  from series_stay_typed [OF s this] s r(2) show ?thesis by (auto simp: length_Suc_conv)
qed

end
