(* ===== verification/Spec2Isabelle.thy ===== *)
theory Spec2Isabelle
  imports Fetch_Facts Polling Finding_Facts Admin_Log Rate_Limits Auth_Store Login_Facts Admin_Route_Facts Series_Routes Datasets Json
    Metadata_Import Run_Facts Source_Facts Pi_Fetch Net_Facts Synthetic_Facts Opc_Session Opc_Search Opc_History
    Ingest_Facts Series_Steps
begin

text \<open>
  This is a model of the API of Tabayyun, a service that checks the quality of industrial time series: the Python
  package \<^verbatim>\<open>api/src/tabayyun\<close> (paths below are relative to it).  A client signs in, gets a role in an organisation and in
  its workspaces, registers sources (a PI server, an OPC UA server, a folder of dropped files, or synthetic data), fetches
  their samples into a cache, runs checks over them, and works through the findings.  The checks themselves are
  a Rust library and stay outside.

  THE PARTS AND HOW THEY MEET.  Everything persistent is the record \<^verbatim>\<open>db\<close> of \<^verbatim>\<open>Models\<close>: one list of rows for each table of
  \<^verbatim>\<open>db/models.py\<close>, with the columns in the order of the source.  An operation of a service is a function of the request, the
  time and the fresh identifiers it draws, and of the \<^verbatim>\<open>db\<close>; it returns the new one, or \<^verbatim>\<open>Inl\<close> and the error that the code
  raises.  One call is one transaction, as in the code, where the session commits at the end of a request or of a named
  step; what a request interleaves with is modelled by step relations whose steps are these transactions
  (\<^verbatim>\<open>Admin_Log.admin_step\<close>, \<^verbatim>\<open>Run_Facts\<close>, \<^verbatim>\<open>Finding_Facts\<close>, \<^verbatim>\<open>Source_Facts\<close>, \<^verbatim>\<open>Series_Steps\<close>).  Routes ask \<^verbatim>\<open>Authz\<close> for a scope, services work inside
  it, requests queue jobs in the \<^verbatim>\<open>db\<close>, and the worker executes them: \<^verbatim>\<open>Fetches\<close> asks a connector for rows, writes them to the
  Parquet cache, records \<^verbatim>\<open>Coverage\<close>; \<^verbatim>\<open>Runs\<close> and \<^verbatim>\<open>Dataset_Runs\<close> read the cache, call the core library and hand its
  report to \<^verbatim>\<open>Findings\<close>.

  THE THEORIES.

  Shared: \<^verbatim>\<open>Prelude\<close> has the scalar types, results (\<^verbatim>\<open>Inl\<close> an error), the operations of tables, half-open ranges and the
  collections of hints.  \<^verbatim>\<open>Strings\<close> and \<^verbatim>\<open>Globs\<close> have Python's string functions and \<^verbatim>\<open>fnmatch\<close>; \<^verbatim>\<open>Civil\<close> the calendar;
  \<^verbatim>\<open>Json\<close> the text of \<^verbatim>\<open>json.dumps\<close>, whose length limits metadata and evidence; \<^verbatim>\<open>Pagination\<close> the keyset pages of
  \<^verbatim>\<open>services/pagination.py\<close>; \<^verbatim>\<open>Timeconv\<close> and \<^verbatim>\<open>Timeparse\<close> the conversions and parsers of \<^verbatim>\<open>services/timeconv.py\<close>.

  Who may do what: \<^verbatim>\<open>Authz\<close> (\<^verbatim>\<open>authz/roles.py\<close>, \<^verbatim>\<open>policy.py\<close>, \<^verbatim>\<open>scope.py\<close>, \<^verbatim>\<open>deps.py\<close>), \<^verbatim>\<open>Auth_Store\<close> (\<^verbatim>\<open>auth/store.py\<close>, \<^verbatim>\<open>auth/deps.py\<close> and
  the login function of migrations 0005 and 0006), \<^verbatim>\<open>Rate_Limits\<close> (\<^verbatim>\<open>services/rate_limits.py\<close>, \<^verbatim>\<open>limits.py\<close>), \<^verbatim>\<open>Secrets\<close>
  (\<^verbatim>\<open>secrets/__init__.py\<close>), \<^verbatim>\<open>Settings\<close> (\<^verbatim>\<open>settings.py\<close>), and \<^verbatim>\<open>services/admin\<close>: \<^verbatim>\<open>Admin\<close> (errors, names, rules, audit, org), \<^verbatim>\<open>Members\<close>,
  \<^verbatim>\<open>Teams\<close>, \<^verbatim>\<open>Workspaces\<close>, \<^verbatim>\<open>Invitations\<close>, with \<^verbatim>\<open>Admin_Log\<close> for their composition, and \<^verbatim>\<open>Admin_Routes\<close> (\<^verbatim>\<open>routers/admin.py\<close>,
  \<^verbatim>\<open>routers/invitations.py\<close>) with \<^verbatim>\<open>Admin_Route_Facts\<close> for the requests that reach them.  The login: \<^verbatim>\<open>Oidc\<close> (\<^verbatim>\<open>auth/oidc.py\<close>,
  \<^verbatim>\<open>auth/tokens.py\<close>), \<^verbatim>\<open>Login_Routes\<close> (\<^verbatim>\<open>routers/auth.py\<close>, \<^verbatim>\<open>auth/csrf.py\<close>) and \<^verbatim>\<open>Login_Facts\<close>.

  What is kept of series: \<^verbatim>\<open>Series_Meta\<close> (\<^verbatim>\<open>services/series.py\<close>), \<^verbatim>\<open>Series_Groups\<close> (\<^verbatim>\<open>services/groups.py\<close>), \<^verbatim>\<open>Datasets\<close>
  (\<^verbatim>\<open>services/datasets.py\<close>), \<^verbatim>\<open>Metadata_Import\<close> (\<^verbatim>\<open>services/source_metadata.py\<close>), \<^verbatim>\<open>Coverage\<close> (\<^verbatim>\<open>services/coverage.py\<close>);
  \<^verbatim>\<open>Series_Facts\<close> has what they guarantee, \<^verbatim>\<open>Series_Steps\<close> what every writer of a row of a series keeps of it, and \<^verbatim>\<open>Series_Routes\<close> the requests (\<^verbatim>\<open>routers/series.py\<close>) with the window and the limits of
  a chart (\<^verbatim>\<open>services/series_chart.py\<close>).

  Fetching: \<^verbatim>\<open>Plan\<close> (\<^verbatim>\<open>connectors/plan.py\<close>, \<^verbatim>\<open>base.py\<close>), \<^verbatim>\<open>Fetches\<close> (\<^verbatim>\<open>services/fetches.py\<close>), \<^verbatim>\<open>Polling\<close> (its scheduler), \<^verbatim>\<open>Sources\<close>
  (\<^verbatim>\<open>services/sources.py\<close> and the job routes of \<^verbatim>\<open>routers/sources.py\<close>), and the proofs in \<^verbatim>\<open>Fetch_Facts\<close> and \<^verbatim>\<open>Source_Facts\<close>.

  Connectors: \<^verbatim>\<open>Net_Policy\<close> and \<^verbatim>\<open>Net_Facts\<close> (\<^verbatim>\<open>connectors/net.py\<close>); \<^verbatim>\<open>Pi_Values\<close>, \<^verbatim>\<open>Pi_Facts\<close>, \<^verbatim>\<open>Pi_Connector\<close>, \<^verbatim>\<open>Pi_Fetch\<close>
  (\<^verbatim>\<open>connectors/pi_web_api\<close>); \<^verbatim>\<open>Opc_Ua\<close>, \<^verbatim>\<open>Opc_Session\<close>, \<^verbatim>\<open>Opc_Search\<close>, \<^verbatim>\<open>Opc_History\<close> (\<^verbatim>\<open>connectors/opc_ua\<close>); \<^verbatim>\<open>Csv_Files\<close>, \<^verbatim>\<open>Csv_Facts\<close>,
  \<^verbatim>\<open>Csv_Reader\<close>, \<^verbatim>\<open>Csv_Reader_Facts\<close> (\<^verbatim>\<open>connectors/csv_dir\<close> and the timestamp rules of \<^verbatim>\<open>core.py\<close>) with \<^verbatim>\<open>Ingest\<close> and \<^verbatim>\<open>Ingest_Facts\<close>
  (\<^verbatim>\<open>services/ingest.py\<close>); \<^verbatim>\<open>Synthetic\<close> and \<^verbatim>\<open>Synthetic_Facts\<close> (\<^verbatim>\<open>connectors/synthetic.py\<close>).  \<^verbatim>\<open>Streams\<close> reads the rows of a series
  off what a connector delivers.

  Checking: \<^verbatim>\<open>Runs\<close> and \<^verbatim>\<open>Run_Facts\<close> (\<^verbatim>\<open>services/runs.py\<close> and the reaper of migration 0004), \<^verbatim>\<open>Dataset_Runs\<close>
  (\<^verbatim>\<open>services/dataset_runs.py\<close>, \<^verbatim>\<open>execution.py\<close>), \<^verbatim>\<open>Findings\<close> and \<^verbatim>\<open>Finding_Facts\<close> (\<^verbatim>\<open>services/findings.py\<close>),
  \<^verbatim>\<open>Finding_Routes\<close> (its listings, and \<^verbatim>\<open>routers/findings.py\<close>).

  WHAT THE LEMMAS SHOW.  Fetching: the gaps that are planned partition what is missing within the limits of the call;
  coverage is recorded for rows that were delivered and accepted only, a fetch that succeeds leaves no gap, an execution
  ends, closes its row and changes nothing else but coverage and its source's health, and with a connector and a store that behave it succeeds.  Connectors: the
  pages of PI, whose server cuts silently, and the continuation points of OPC UA yield each value of a window once; the search
  of an address space ends and finds exactly what matches; requests go only to addresses the policy allows, to paths that no
  answer can steer, and to a server whose certificate is the pinned one; the listing of a source is that of the folder its config
  names, within the root; reading a file keeps the samples of the table that Arrow reads from it; a rescan reads what has changed.  Access: a session starts for the user whom a token of the
  provider proves, and ends when the provider names it; a role is the highest that was granted, a request gets no
  more than it, a request of the admin panel changes data only for a recent passkey session with the role that its route names,
  an organisation keeps an owner, a removed member keeps nothing, every change is in an append-only audit log,
  and credentials come back as stored, survive rotation, and reach no other row.  Data: datasets, series, groups, sources
  and their keys stay valid under every sequence of operations; listings partition into pages; a search, followed page by page,
  yields exactly the series that hold its text.
  Checking: runs refine the life cycle queued, running, then succeeded or failed; an upload run is all or nothing; a
  report's findings are all represented, merged by overlap, and change status by the life cycle only.

  INTERFACES.  \<^verbatim>\<open>keyset_listing\<close> (a table with a total key, and its pages) is interpreted on datasets, runs, groups, series, findings
  and files; \<^verbatim>\<open>named_rows\<close> (rows with a name unique per owner) on teams, workspaces and groups; \<^verbatim>\<open>append_log\<close> on the audit log of
  \<^verbatim>\<open>admin_step\<close>; \<^verbatim>\<open>coverage_store\<close> on the rows of the coverage table that the engine and the ingest write.

  TERMINATION, BOUNDS AND FUEL.  No loop has fuel.  A loop that the source does not bound (\<^verbatim>\<open>spans\<close>, \<^verbatim>\<open>read_pages\<close>, \<^verbatim>\<open>pi_read\<close>, \<^verbatim>\<open>browse_more\<close>,
  \<^verbatim>\<open>search_loop\<close>, \<^verbatim>\<open>history_rounds\<close>) is a \<^verbatim>\<open>partial_function\<close> to options, where \<^verbatim>\<open>None\<close> is that it does not return; the properties
  about it show \<^verbatim>\<open>Some\<close> as part of their claim, under hypotheses about the server (it answers from a finite history or graph).
  The other recursions are structural or have a measure.  Times are \<^verbatim>\<open>int\<close>, nanoseconds within the core's range
  \<^verbatim>\<open>CORE_NS_MIN\<close> to \<^verbatim>\<open>CORE_NS_MAX\<close> where the code checks it, and microseconds in the tables.  The hash of \<^verbatim>\<open>Synthetic\<close>, status codes
  of OPC UA and IP addresses are words of 64, 32, and 32 and 128 bits.  Floats are exact rationals with the
  non-finite values apart where the code tells them apart; so nothing here speaks of rounding.

  PARAMETERS.  What is not under the repository's API is an argument: \<^verbatim>\<open>datetime.fromisoformat\<close>, \<^verbatim>\<open>float\<close> and \<^verbatim>\<open>str\<close> of other texts,
  \<^verbatim>\<open>urlsplit\<close>, \<^verbatim>\<open>urlencode\<close>, the texts of addresses (\<^verbatim>\<open>ipaddress\<close>) and the resolver; AES-GCM, hashes, the digest and the sine
  of the synthetic noise; certificates and keys as the library reads them; pydantic, where the validation of a whole request is
  its own; the core library, the Parquet store, Arrow and the file system; the servers of PI and OPC UA and the HTTP and
  asyncua clients that reach them; the identity provider and the JOSE library that checks its tokens; the readers of UUIDs and cursors.  Their laws are hypotheses of the properties, each
  with a witness on a concrete instance.

  NOT MODELLED, AND WHY.  The HTTP layer of the other \<^verbatim>\<open>routers\<close> (checks, datasets, groups, runs, workspaces) and everywhere the
  texts of responses, headers, multipart and OpenAPI, \<^verbatim>\<open>main.py\<close> and \<^verbatim>\<open>headers.py\<close>: what they decide is in the services, and the rest
  is the framework's.  \<^verbatim>\<open>db/__init__.py\<close>, \<^verbatim>\<open>db/roles.py\<close>, \<^verbatim>\<open>db/migrate.py\<close> and the migrations that only create tables and policies:
  declarations for the database, whose row security repeats the scopes of \<^verbatim>\<open>Authz\<close>.  \<^verbatim>\<open>mail.py\<close> and the transport of mail.
  The environment that settings are read from, and the aggregate over the buckets of a chart, which the Parquet store does.
  \<^verbatim>\<open>generate_identity\<close>: key generation.  The \<^verbatim>\<open>deploy\<close> examples, the documentation's scripts, the frontend and the Rust core are other programs.
  Within modelled parts: the collation of text sorts (byte order here), \<^verbatim>\<open>updated_at\<close> of rows that no operation reads it from,
  the exact wording of some messages, NaN and infinities inside JSON texts, integers beyond the range of floats, inserting in
  chunks, and the base64 text of a cursor.
\<close>

end
